(* ===== verification/Prelude.thy ===== *)
theory Prelude
  imports Main "HOL-Library.AList" "HOL-Library.Product_Lexorder" "HOL-Library.List_Lexorder"
    "HOL-Library.Char_ord" "HOL-Library.Sublist"
begin

text \<open>
  Shared vocabulary of the development: Python values the sources use everywhere (aware
  timestamps, insertion-ordered dictionaries, the stable \<^verbatim>\<open>list.sort\<close>, whitespace stripping,
  identifier patterns) and the state-and-exception operations in which every store and every
  handler is written.
  Timestamps are instants in microseconds, the resolution of Python's \<^verbatim>\<open>datetime\<close>; ordering and
  arithmetic on aware datetimes only read the instant.
  A Python \<^verbatim>\<open>str\<close> is a \<^typ>\<open>string\<close> whose characters are the code points U+0000 to U+00FF.
\<close>

named_theorems op_simps \<open>evaluation of state-and-exception operations\<close>
named_theorems dict_simps \<open>lookup after update on dictionaries\<close>

section \<open>Timestamps\<close>

type_synonym instant = int

definition micros :: "int \<Rightarrow> int" where
  "micros s = s * 1000000"

definition seconds :: "int \<Rightarrow> int" where
  "seconds n = micros n"

definition minutes :: "int \<Rightarrow> int" where
  "minutes n = micros (60 * n)"

definition hours :: "int \<Rightarrow> int" where
  "hours n = micros (3600 * n)"

lemmas time_unfold = seconds_def minutes_def hours_def micros_def

section \<open>Dictionaries\<close>

text \<open>
  A Python \<^verbatim>\<open>dict\<close> keeps its insertion order, and assigning to an existing key keeps the key's
  place: the association lists of \<^theory_text>\<open>HOL-Library.AList\<close>.
\<close>

type_synonym ('k, 'v) dict = "('k \<times> 'v) list"

definition dget :: "('k, 'v) dict \<Rightarrow> 'k \<Rightarrow> 'v option" where
  "dget d k = map_of d k"

definition dput :: "'k \<Rightarrow> 'v \<Rightarrow> ('k, 'v) dict \<Rightarrow> ('k, 'v) dict" where
  "dput k v d = AList.update k v d"

definition ddel :: "'k \<Rightarrow> ('k, 'v) dict \<Rightarrow> ('k, 'v) dict" where
  "ddel k d = AList.delete k d"

text \<open>\<^verbatim>\<open>defaultdict\<close> access: a missing key is created with the default value.\<close>

definition dget_or :: "('k, 'v) dict \<Rightarrow> 'k \<Rightarrow> 'v \<Rightarrow> 'v" where
  "dget_or d k v = (case dget d k of None \<Rightarrow> v | Some x \<Rightarrow> x)"

definition dict_ok :: "('k, 'v) dict \<Rightarrow> bool" where
  "dict_ok d \<longleftrightarrow> distinct (map fst d)"

lemma dget_empty [simp, dict_simps]: "dget [] k = None"
  by (simp add: dget_def)

lemma dget_Cons [code, dict_simps]: "dget ((k', v) # d) k = (if k = k' then Some v else dget d k)"
  by (simp add: dget_def)

lemma dget_dput [simp, dict_simps]: "dget (dput k v d) k' = (if k' = k then Some v else dget d k')"
  by (simp add: dget_def dput_def update_conv')

lemma dget_ddel [simp, dict_simps]: "dget (ddel k d) k' = (if k' = k then None else dget d k')"
  by (simp add: dget_def ddel_def delete_conv')

lemma dget_or_empty [simp]: "dget_or [] k v = v"
  by (simp add: dget_or_def)

lemma dget_or_dput [simp]: "dget_or (dput k x d) k' v = (if k' = k then x else dget_or d k' v)"
  by (simp add: dget_or_def)

lemma dict_ok_empty [simp]: "dict_ok []"
  by (simp add: dict_ok_def)

lemma dict_ok_dput [simp]: "dict_ok d \<Longrightarrow> dict_ok (dput k v d)"
  by (simp add: dict_ok_def dput_def distinct_update)

lemma dict_ok_ddel [simp]: "dict_ok d \<Longrightarrow> dict_ok (ddel k d)"
  by (simp add: dict_ok_def ddel_def distinct_delete)

lemma dict_ok_filter [simp]: "dict_ok d \<Longrightarrow> dict_ok (filter P d)"
  by (simp add: dict_ok_def distinct_map_filter)

lemma dget_iff_mem: "dict_ok d \<Longrightarrow> dget d k = Some v \<longleftrightarrow> (k, v) \<in> set d"
  by (simp add: dict_ok_def dget_def)

lemma dget_mem: "dget d k = Some v \<Longrightarrow> (k, v) \<in> set d"
  by (simp add: dget_def map_of_SomeD)

lemma dput_triv: "dget d k = Some v \<Longrightarrow> dput k v d = d"
  by (simp add: dget_def dput_def update_triv)

lemma dput_overwrite [simp]: "dput k v (dput k v' d) = dput k v d"
  by (simp add: dput_def)

lemma keys_dput: "fst ` set (dput k v d) = insert k (fst ` set d)"
  by (simp add: dput_def dom_update)

lemma dget_filter_key:
  "dget (filter (\<lambda>p. P (fst p)) d) k = (if P k then dget d k else None)"
  by (induction d) (auto simp: dget_def)

text \<open>The dict comprehension \<^verbatim>\<open>{key(x): x for x in xs}\<close>: a later element replaces an earlier one.\<close>

definition dict_of :: "('a \<Rightarrow> 'k) \<Rightarrow> 'a list \<Rightarrow> ('k, 'a) dict" where
  "dict_of key xs = fold (\<lambda>x. dput (key x) x) xs []"

lemma dict_of_Nil [simp]: "dict_of key [] = []"
  by (simp add: dict_of_def)

lemma dict_of_snoc [simp]: "dict_of key (xs @ [x]) = dput (key x) x (dict_of key xs)"
  by (simp add: dict_of_def)

lemma keys_dict_of: "fst ` set (dict_of key xs) = key ` set xs"
  by (induction xs rule: rev_induct) (auto simp: keys_dput)

lemma dict_ok_dict_of [simp]: "dict_ok (dict_of key xs)"
  by (induction xs rule: rev_induct) auto

lemma length_dict_of: "length (dict_of key xs) = card (key ` set xs)"
proof -
  have "length (dict_of key xs) = card (fst ` set (dict_of key xs))"
    using dict_ok_dict_of [of key xs]
    by (simp only: dict_ok_def) (metis distinct_card length_map list.set_map)
  then show ?thesis by (simp add: keys_dict_of)
qed

lemma length_dict_of_iff: "length (dict_of key xs) = length xs \<longleftrightarrow> distinct (map key xs)"
  by (metis card_distinct distinct_card length_dict_of length_map list.set_map)

lemma dput_fresh: "k \<notin> fst ` set d \<Longrightarrow> dput k v d = d @ [(k, v)]"
  unfolding dput_def by (induction d) auto

lemma dict_of_distinct: "distinct (map key xs) \<Longrightarrow> dict_of key xs = map (\<lambda>x. (key x, x)) xs"
  by (induction xs rule: rev_induct) (simp_all add: dput_fresh image_image)

lemma dget_map_key: "dget (map (\<lambda>x. (key x, x)) xs) k = find (\<lambda>x. key x = k) xs"
  by (induction xs) (auto simp: dget_Cons)

lemma dget_dict_of_distinct:
  "distinct (map key xs) \<Longrightarrow> dget (dict_of key xs) k = find (\<lambda>x. key x = k) xs"
  by (simp add: dict_of_distinct dget_map_key)

lemma dget_dict_of_key: "dget (dict_of key xs) k = Some x \<Longrightarrow> x \<in> set xs \<and> key x = k"
  by (induction xs rule: rev_induct) (auto split: if_splits)

lemma dget_dict_of_mem: "dget (dict_of key xs) (key x) \<noteq> None" if "x \<in> set xs"
  using that by (induction xs rule: rev_induct) auto

lemma find_distinct_key:
  "distinct (map key xs) \<Longrightarrow> x \<in> set xs \<Longrightarrow> find (\<lambda>y. key y = key x) xs = Some x"
  by (induction xs) (auto simp: image_iff)

section \<open>Sorting\<close>

text \<open>
  \<^verbatim>\<open>xs.sort(key=f)\<close> is the stable \<^const>\<open>sort_key\<close>; with \<^verbatim>\<open>reverse=True\<close> the order is
  descending and equal elements still keep their original order.
\<close>

definition sort_desc :: "('a \<Rightarrow> 'k::linorder) \<Rightarrow> 'a list \<Rightarrow> 'a list" where
  "sort_desc f xs = rev (sort_key f (rev xs))"

lemma set_sort_desc [simp]: "set (sort_desc f xs) = set xs"
  by (simp add: sort_desc_def)

lemma distinct_sort_desc [simp]: "distinct (sort_desc f xs) = distinct xs"
  by (simp add: sort_desc_def)

lemma length_sort_desc [simp]: "length (sort_desc f xs) = length xs"
  by (simp add: sort_desc_def)

lemma sorted_sort_desc: "sorted (rev (map f (sort_desc f xs)))"
  by (simp add: sort_desc_def rev_map)

text \<open>The slice \<^verbatim>\<open>xs[:n]\<close>; a negative bound counts from the end.\<close>

definition slice_to :: "int \<Rightarrow> 'a list \<Rightarrow> 'a list" where
  "slice_to n xs = (if 0 \<le> n then take (nat n) xs else take (length xs - nat (- n)) xs)"

lemma set_slice_to: "set (slice_to n xs) \<subseteq> set xs"
  by (simp add: slice_to_def set_take_subset)

lemma length_slice_to: "0 \<le> n \<Longrightarrow> length (slice_to n xs) = min (length xs) (nat n)"
  by (simp add: slice_to_def)

text \<open>The first index whose element satisfies a test: \<^verbatim>\<open>next(i for i, x in enumerate(xs) if P(x))\<close>.\<close>

fun find_index :: "('a \<Rightarrow> bool) \<Rightarrow> 'a list \<Rightarrow> nat option" where
  "find_index P [] = None"
| "find_index P (x # xs) = (if P x then Some 0 else map_option Suc (find_index P xs))"

lemma find_index_None: "find_index P xs = None \<longleftrightarrow> (\<forall>x\<in>set xs. \<not> P x)"
  by (induction xs) auto

lemma find_index_SomeD: "find_index P xs = Some i \<Longrightarrow> i < length xs \<and> P (xs ! i)"
  by (induction xs arbitrary: i) (auto split: if_splits)

lemma find_index_key:
  "distinct (map key xs) \<Longrightarrow> i < length xs \<Longrightarrow> find_index (\<lambda>x. key x = key (xs ! i)) xs = Some i"
  by (induction xs arbitrary: i) (auto simp: nth_Cons image_iff split: nat.splits)

lemma filter_after_drop:
  fixes key :: "'a \<Rightarrow> 'k::linorder"
  shows "sorted (map key xs) \<Longrightarrow> distinct (map key xs) \<Longrightarrow> j < length xs \<Longrightarrow>
    filter (\<lambda>x. key (xs ! j) < key x) xs = drop (Suc j) xs"
proof (induction xs arbitrary: j)
  case (Cons x xs)
  show ?case
  proof (cases j)
    case 0
    with Cons.prems show ?thesis by (force simp: less_le intro!: filter_True)
  next
    case (Suc i)
    with Cons.prems have "\<not> key (xs ! i) < key x" by (simp add: not_less)
    with Suc Cons show ?thesis by simp
  qed
qed simp

section \<open>Python strings\<close>

definition is_whitespace :: "char \<Rightarrow> bool" where
  "is_whitespace c \<longleftrightarrow> (let n = of_char c :: nat in (9 \<le> n \<and> n \<le> 13) \<or> n \<in> {32, 133, 160})"

text \<open>Pydantic strips the Unicode white space; Python's own \<^verbatim>\<open>strip()\<close> and \<^verbatim>\<open>split()\<close> also treat the four information separators as space.\<close>

definition strip :: "string \<Rightarrow> string" where
  "strip s = rev (dropWhile is_whitespace (rev (dropWhile is_whitespace s)))"

definition is_py_space :: "char \<Rightarrow> bool" where
  "is_py_space c \<longleftrightarrow> is_whitespace c \<or> (let n = of_char c :: nat in 28 \<le> n \<and> n \<le> 31)"

definition py_strip :: "string \<Rightarrow> string" where
  "py_strip s = rev (dropWhile is_py_space (rev (dropWhile is_py_space s)))"

lemma is_py_space_code [code]: "is_py_space c \<longleftrightarrow> List.member [CHR '' '', CHR 0x09, CHR 0x0A, CHR 0x0B, CHR 0x0C, CHR 0x0D, CHR 0x1C, CHR 0x1D, CHR 0x1E,
    CHR 0x1F, CHR 0x85, CHR 0xA0] c"
proof -
  define n where "n = (of_char c :: nat)"
  have eq: "c = d \<longleftrightarrow> n = of_char d" for d by (simp add: n_def)
  have "9 \<le> n \<and> n \<le> 13 \<or> n \<in> {32, 133, 160} \<or> 28 \<le> n \<and> n \<le> 31 \<longleftrightarrow> n \<in> {32, 9, 10, 11, 12, 13, 28, 29, 30, 31, 133, 160}" by auto
  then show ?thesis unfolding is_py_space_def is_whitespace_def n_def [symmetric] Let_def by (simp add: eq)
qed

lemma py_strip_plain: "list_all (\<lambda>c. \<not> is_py_space c) s \<Longrightarrow> py_strip s = s"
proof -
  assume "list_all (\<lambda>c. \<not> is_py_space c) s"
  then have "dropWhile is_py_space t = t" if "set t \<subseteq> set s" for t using that by (cases t) (auto simp: list_all_iff)
  then show ?thesis by (simp add: py_strip_def)
qed

lemma dropWhile_idem: "dropWhile P (dropWhile P xs) = dropWhile P xs"
  by (induction xs) auto

lemma dropWhile_rev_Cons:
  "\<not> P x \<Longrightarrow> \<exists>ys. rev (dropWhile P (rev (x # xs))) = x # ys"
  by (auto simp: dropWhile_append) (metis rev_rev_ident)

lemma strip_Cons_not_ws: "\<not> is_whitespace c \<Longrightarrow> \<exists>t. strip (c # s) = c # t"
  using dropWhile_rev_Cons [of is_whitespace c s] by (simp add: strip_def)

lemma strip_idem [simp]: "strip (strip s) = strip s"
proof (cases "dropWhile is_whitespace s")
  case Nil
  then show ?thesis by (simp only: strip_def dropWhile.simps rev.simps)
next
  case (Cons c t)
  then have nc: "\<not> is_whitespace c"
    by (metis hd_dropWhile list.distinct(1) list.sel(1))
  from dropWhile_rev_Cons [of is_whitespace c t, OF nc] obtain u
    where u: "rev (dropWhile is_whitespace (rev (c # t))) = c # u" by blast
  from Cons u have s: "strip s = c # u" by (simp only: strip_def)
  have "rev (c # u) = dropWhile is_whitespace (rev (c # t))"
    by (metis u rev_rev_ident)
  then have "dropWhile is_whitespace (rev (c # u)) = rev (c # u)"
    by (simp only: dropWhile_idem)
  then have "strip (c # u) = rev (rev (c # u))"
    unfolding strip_def using nc by (simp only: dropWhile.simps if_False)
  with s show ?thesis by (simp only: rev_rev_ident)
qed

definition is_digit :: "char \<Rightarrow> bool" where
  "is_digit c \<longleftrightarrow> (let n = of_char c :: nat in 48 \<le> n \<and> n \<le> 57)"

definition is_lower :: "char \<Rightarrow> bool" where
  "is_lower c \<longleftrightarrow> (let n = of_char c :: nat in 97 \<le> n \<and> n \<le> 122)"

definition is_upper :: "char \<Rightarrow> bool" where
  "is_upper c \<longleftrightarrow> (let n = of_char c :: nat in 65 \<le> n \<and> n \<le> 90)"

definition is_alnum :: "char \<Rightarrow> bool" where
  "is_alnum c \<longleftrightarrow> is_digit c \<or> is_lower c \<or> is_upper c"

definition is_lower_hex :: "char \<Rightarrow> bool" where
  "is_lower_hex c \<longleftrightarrow> is_digit c \<or> (let n = of_char c :: nat in 97 \<le> n \<and> n \<le> 102)"

text \<open>\<^verbatim>\<open>str.removeprefix\<close>.\<close>

definition removeprefix :: "string \<Rightarrow> string \<Rightarrow> string" where
  "removeprefix p s = (if prefix p s then drop (length p) s else s)"

lemma removeprefix_append [simp]: "removeprefix p (p @ s) = s"
  by (simp add: removeprefix_def)

section \<open>State-and-exception operations\<close>

text \<open>
  A method that reads and writes a store and may raise is a function from the store to its
  outcome, an exception \<^term>\<open>Inl e\<close> or a result \<^term>\<open>Inr x\<close>, and the store it leaves.
  The store after an exception is what Python would leave behind: writes made before a
  \<^verbatim>\<open>raise\<close> stay.
\<close>

type_synonym ('s, 'e, 'a) op = "'s \<Rightarrow> ('e + 'a) \<times> 's"

definition ret :: "'a \<Rightarrow> ('s, 'e, 'a) op" where
  "ret x s = (Inr x, s)"

definition raise :: "'e \<Rightarrow> ('s, 'e, 'a) op" where
  "raise e s = (Inl e, s)"

definition bnd :: "('s, 'e, 'a) op \<Rightarrow> ('a \<Rightarrow> ('s, 'e, 'b) op) \<Rightarrow> ('s, 'e, 'b) op" where
  "bnd m f s = (case m s of (Inl e, s') \<Rightarrow> (Inl e, s') | (Inr x, s') \<Rightarrow> f x s')"

text \<open>\<^verbatim>\<open>try: m except e: h(e)\<close>.\<close>

definition catch :: "('s, 'e, 'a) op \<Rightarrow> ('e \<Rightarrow> ('s, 'e, 'a) op) \<Rightarrow> ('s, 'e, 'a) op" where
  "catch m h s = (case m s of (Inl e, s') \<Rightarrow> h e s' | (Inr x, s') \<Rightarrow> (Inr x, s'))"

text \<open>\<^verbatim>\<open>if c: raise e\<close>.\<close>

definition guard :: "bool \<Rightarrow> 'e \<Rightarrow> ('s, 'e, unit) op" where
  "guard ok e = (if ok then ret () else raise e)"

text \<open>A value computed by a pure validator that may raise.\<close>

definition lift_sum :: "'e + 'a \<Rightarrow> ('s, 'e, 'a) op" where
  "lift_sum r s = (r, s)"

text \<open>An operation of one store run inside a larger state, its exceptions translated.\<close>

definition zoom ::
  "('t \<Rightarrow> 's) \<Rightarrow> ('s \<Rightarrow> 't \<Rightarrow> 't) \<Rightarrow> ('e \<Rightarrow> 'f) \<Rightarrow> ('s, 'e, 'a) op \<Rightarrow> ('t, 'f, 'a) op" where
  "zoom g p w m t = (case m (g t) of (r, s) \<Rightarrow> (map_sum w id r, p s t))"

text \<open>The exceptions of a callee as exceptions of its caller, and a Pydantic construction that may fail.\<close>

definition wrap_err :: "('e \<Rightarrow> 'f) \<Rightarrow> ('s, 'e, 'a) op \<Rightarrow> ('s, 'f, 'a) op" where
  "wrap_err f m s = (case m s of (Inl e, s') \<Rightarrow> (Inl (f e), s') | (Inr x, s') \<Rightarrow> (Inr x, s'))"

definition validated :: "'e \<Rightarrow> 'a option \<Rightarrow> ('s, 'e, 'a) op" where
  "validated e x = (case x of None \<Rightarrow> raise e | Some y \<Rightarrow> ret y)"

lemma wrap_err_Inl [op_simps]: "m s = (Inl e, s') \<Longrightarrow> wrap_err f m s = (Inl (f e), s')"
  by (simp add: wrap_err_def)

lemma wrap_err_Inr [op_simps]: "m s = (Inr x, s') \<Longrightarrow> wrap_err f m s = (Inr x, s')"
  by (simp add: wrap_err_def)

lemma validated_simps [simp, op_simps]:
  "validated e None s = (Inl e, s)" "validated e (Some x) s = (Inr x, s)"
  by (simp_all add: validated_def ret_def raise_def)

lemma ret_apply [simp, op_simps]: "ret x s = (Inr x, s)"
  by (simp add: ret_def)

lemma raise_apply [simp, op_simps]: "raise e s = (Inl e, s)"
  by (simp add: raise_def)

lemma lift_sum_apply [simp, op_simps]: "lift_sum r s = (r, s)"
  by (simp add: lift_sum_def)

lemma guard_apply [simp, op_simps]: "guard ok e s = (if ok then (Inr (), s) else (Inl e, s))"
  by (simp add: guard_def)

lemma bnd_Inl [op_simps]: "m s = (Inl e, s') \<Longrightarrow> bnd m f s = (Inl e, s')"
  by (simp add: bnd_def)

lemma bnd_Inr [op_simps]: "m s = (Inr x, s') \<Longrightarrow> bnd m f s = f x s'"
  by (simp add: bnd_def)

lemma bnd_ret [simp]: "bnd (ret x) f = f x"
  by (simp add: bnd_def fun_eq_iff)

lemma bnd_raise [simp]: "bnd (raise e) f = raise e"
  by (simp add: bnd_def fun_eq_iff)

lemma bnd_assoc: "bnd (bnd m f) g = bnd m (\<lambda>x. bnd (f x) g)"
  by (simp add: bnd_def fun_eq_iff split: prod.split sum.split)

lemma bnd_eq_InrE:
  assumes "bnd m f s = (Inr y, s'')"
  obtains x s' where "m s = (Inr x, s')" and "f x s' = (Inr y, s'')"
  using assms by (auto simp: bnd_def split: prod.splits sum.splits)

lemma bnd_Inr_iff: "bnd m f s = (Inr y, s'') \<longleftrightarrow> (\<exists>x s'. m s = (Inr x, s') \<and> f x s' = (Inr y, s''))"
  by (auto simp: bnd_def split: prod.splits sum.splits)

lemma validated_Inr_iff: "validated e x s = (Inr y, s') \<longleftrightarrow> x = Some y \<and> s' = s"
  by (cases x) auto

lemma guard_Inr_iff: "guard b e s = (Inr x, s') \<longleftrightarrow> b \<and> s' = s"
  by auto

lemma catch_Inr [op_simps]: "m s = (Inr x, s') \<Longrightarrow> catch m h s = (Inr x, s')"
  by (simp add: catch_def)

lemma catch_Inl [op_simps]: "m s = (Inl e, s') \<Longrightarrow> catch m h s = h e s'"
  by (simp add: catch_def)

section \<open>Invariants of operations\<close>

text \<open>
  \<^term>\<open>preserves I m\<close>: the operation keeps \<^term>\<open>I\<close> whether it returns or raises. The
  predicate is closed under the combinators, so a handler keeps an invariant when the store
  operations it calls do.
\<close>

definition preserves :: "('s \<Rightarrow> bool) \<Rightarrow> ('s, 'e, 'a) op \<Rightarrow> bool" where
  "preserves I m \<longleftrightarrow> (\<forall>s. I s \<longrightarrow> I (snd (m s)))"

lemma preservesI: "(\<And>s r s'. I s \<Longrightarrow> m s = (r, s') \<Longrightarrow> I s') \<Longrightarrow> preserves I m"
  unfolding preserves_def by (metis prod.collapse)

lemma preservesD: "preserves I m \<Longrightarrow> I s \<Longrightarrow> m s = (r, s') \<Longrightarrow> I s'"
  unfolding preserves_def by force

lemma preserves_snd: "preserves I m \<Longrightarrow> I s \<Longrightarrow> I (snd (m s))"
  by (simp add: preserves_def)

named_theorems pres \<open>operations that preserve an invariant, composed syntactically\<close>

lemma preserves_ret [pres]: "preserves I (ret x)"
  by (simp add: preserves_def)

lemma preserves_raise [pres]: "preserves I (raise e)"
  by (simp add: preserves_def)

lemma preserves_guard [pres]: "preserves I (guard ok e)"
  by (simp add: preserves_def)

lemma preserves_lift_sum [pres]: "preserves I (lift_sum r)"
  by (simp add: preserves_def)

lemma preserves_bnd [pres]:
  "preserves I m \<Longrightarrow> (\<And>x. preserves I (f x)) \<Longrightarrow> preserves I (bnd m f)"
  unfolding preserves_def bnd_def by (force split: prod.split sum.split)

lemma preserves_catch [pres]:
  "preserves I m \<Longrightarrow> (\<And>e. preserves I (h e)) \<Longrightarrow> preserves I (catch m h)"
  unfolding preserves_def catch_def by (force split: prod.split sum.split)

lemma preserves_wrap_err [pres]: "preserves I m \<Longrightarrow> preserves I (wrap_err f m)"
  unfolding preserves_def wrap_err_def by (force split: prod.split sum.split)

lemma preserves_validated [pres]: "preserves I (validated e x)"
  by (cases x) (simp_all add: preserves_def)

lemma preserves_if [pres]:
  "(b \<Longrightarrow> preserves I m) \<Longrightarrow> (\<not> b \<Longrightarrow> preserves I n) \<Longrightarrow> preserves I (if b then m else n)"
  by simp

lemma preserves_case_option [pres]:
  "(x = None \<Longrightarrow> preserves I m) \<Longrightarrow> (\<And>y. x = Some y \<Longrightarrow> preserves I (f y)) \<Longrightarrow>
   preserves I (case x of None \<Rightarrow> m | Some y \<Rightarrow> f y)"
  by (cases x) auto

lemma preserves_let [pres]: "(\<And>y. y = x \<Longrightarrow> preserves I (f y)) \<Longrightarrow> preserves I (let y = x in f y)"
  by (simp add: Let_def)

lemma preserves_zoom:
  "(\<And>t s r s'. I t \<Longrightarrow> m (g t) = (r, s') \<Longrightarrow> I (p s' t)) \<Longrightarrow> preserves I (zoom g p w m)"
  unfolding preserves_def zoom_def by (auto split: prod.split)

section \<open>Triples\<close>

text \<open>
  \<^verbatim>\<open>keeps I m Q\<close>: the operation keeps \<^verbatim>\<open>I\<close> on every outcome and its result, when it returns one, satisfies \<^verbatim>\<open>Q\<close>.
\<close>

definition keeps :: "('s \<Rightarrow> bool) \<Rightarrow> ('s, 'e, 'a) op \<Rightarrow> ('a \<Rightarrow> bool) \<Rightarrow> bool" where
  "keeps I m Q \<longleftrightarrow> (\<forall>s r s'. I s \<longrightarrow> m s = (r, s') \<longrightarrow> I s' \<and> (\<forall>x. r = Inr x \<longrightarrow> Q x))"

named_theorems kps \<open>triples of operations\<close>

lemma keepsI: "(\<And>s r s'. I s \<Longrightarrow> m s = (r, s') \<Longrightarrow> I s' \<and> (\<forall>x. r = Inr x \<longrightarrow> Q x)) \<Longrightarrow> keeps I m Q"
  unfolding keeps_def by blast

lemma keeps_Inr: "keeps I m Q \<Longrightarrow> I s \<Longrightarrow> m s = (Inr x, s') \<Longrightarrow> I s' \<and> Q x"
  unfolding keeps_def by blast

lemma keeps_state: "keeps I m Q \<Longrightarrow> I s \<Longrightarrow> m s = (r, s') \<Longrightarrow> I s'"
  unfolding keeps_def by blast

lemma keeps_weaken: "keeps I m Q \<Longrightarrow> (\<And>x. Q x \<Longrightarrow> Q' x) \<Longrightarrow> keeps I m Q'"
  unfolding keeps_def by blast

lemma keeps_bnd:
  assumes m: "keeps I m Q" and f: "\<And>x. Q x \<Longrightarrow> keeps I (f x) R"
  shows "keeps I (bnd m f) R"
proof (rule keepsI)
  fix s r s' assume s: "I s" and run: "bnd m f s = (r, s')"
  obtain r1 s1 where m1: "m s = (r1, s1)" by fastforce
  show "I s' \<and> (\<forall>x. r = Inr x \<longrightarrow> R x)"
  proof (cases r1)
    case (Inl e)
    with run m1 keeps_state [OF m s m1] show ?thesis by (auto simp: bnd_def)
  next
    case (Inr x)
    with m1 keeps_Inr [OF m s] have x: "I s1" "Q x" by auto
    from run m1 Inr have "f x s1 = (r, s')" by (simp add: bnd_def)
    with x f [OF x(2)] show ?thesis unfolding keeps_def by blast
  qed
qed

lemma keeps_catch:
  assumes m: "keeps I m Q" and h: "\<And>e. keeps I (h e) Q"
  shows "keeps I (catch m h) Q"
proof (rule keepsI)
  fix s r s' assume s: "I s" and run: "catch m h s = (r, s')"
  obtain r1 s1 where m1: "m s = (r1, s1)" by fastforce
  show "I s' \<and> (\<forall>x. r = Inr x \<longrightarrow> Q x)"
  proof (cases r1)
    case (Inl e)
    with run m1 have "h e s1 = (r, s')" by (simp add: catch_def)
    with h [of e] keeps_state [OF m s m1] show ?thesis unfolding keeps_def by blast
  next
    case (Inr x)
    with run m1 keeps_Inr [OF m s] show ?thesis by (auto simp: catch_def)
  qed
qed

lemma keeps_ret [kps]: "Q x \<Longrightarrow> keeps I (ret x) Q"
  by (simp add: keeps_def)

lemma keeps_raise [kps]: "keeps I (raise e) Q"
  by (simp add: keeps_def)

lemma keeps_guard [kps]: "keeps I (guard b e) (\<lambda>_. b)"
  by (simp add: keeps_def)

lemma keeps_validated [kps]: "keeps I (validated e x) (\<lambda>y. x = Some y)"
  by (cases x) (simp_all add: keeps_def)

lemma keeps_lift_sum [kps]: "keeps I (lift_sum r) (\<lambda>y. r = Inr y)"
  by (simp add: keeps_def)

lemma keeps_zoom:
  assumes "\<And>t r s'. I t \<Longrightarrow> m (g t) = (r, s') \<Longrightarrow> I (p s' t) \<and> (\<forall>x. r = Inr x \<longrightarrow> Q x)"
  shows "keeps I (zoom g p h m) Q"
proof (rule keepsI)
  fix t r t' assume t: "I t" and run: "zoom g p h m t = (r, t')"
  obtain r1 s1 where m1: "m (g t) = (r1, s1)" by fastforce
  with run have "r = map_sum h id r1" "t' = p s1 t" by (simp_all add: zoom_def)
  with assms [OF t m1] show "I t' \<and> (\<forall>x. r = Inr x \<longrightarrow> Q x)" by (cases r1) auto
qed

lemma keeps_if: "(b \<Longrightarrow> keeps I m Q) \<Longrightarrow> (\<not> b \<Longrightarrow> keeps I n Q) \<Longrightarrow> keeps I (if b then m else n) Q"
  by simp

text \<open>The rule for a composed operation whose first part promises nothing about its result.\<close>

lemma keeps_then: "keeps I m (\<lambda>_. True) \<Longrightarrow> (\<And>x. keeps I (f x) R) \<Longrightarrow> keeps I (bnd m f) R"
  by (rule keeps_bnd)

text \<open>A triple whose postcondition also reads the final state.\<close>

definition yields :: "('s \<Rightarrow> bool) \<Rightarrow> ('s, 'e, 'a) op \<Rightarrow> ('a \<Rightarrow> 's \<Rightarrow> bool) \<Rightarrow> bool" where
  "yields I m R \<longleftrightarrow> (\<forall>s r s'. I s \<longrightarrow> m s = (r, s') \<longrightarrow> I s' \<and> (\<forall>x. r = Inr x \<longrightarrow> R x s'))"

lemma yields_bnd:
  assumes m: "keeps I m Q" and f: "\<And>x. Q x \<Longrightarrow> yields I (f x) R"
  shows "yields I (bnd m f) R"
  unfolding yields_def
proof (intro allI impI)
  fix s r s' assume s: "I s" and run: "bnd m f s = (r, s')"
  obtain r1 s1 where m1: "m s = (r1, s1)" by fastforce
  show "I s' \<and> (\<forall>x. r = Inr x \<longrightarrow> R x s')"
  proof (cases r1)
    case (Inl e)
    with run m1 keeps_state [OF m s m1] show ?thesis by (auto simp: bnd_def)
  next
    case (Inr x)
    with m1 keeps_Inr [OF m s] have x: "I s1" "Q x" by auto
    from run m1 Inr have "f x s1 = (r, s')" by (simp add: bnd_def)
    with x f [OF x(2)] show ?thesis unfolding yields_def by blast
  qed
qed

lemma yields_weaken: "yields I m R \<Longrightarrow> (\<And>x s. R x s \<Longrightarrow> R' x s) \<Longrightarrow> yields I m R'"
  unfolding yields_def by blast

lemma yields_if: "(b \<Longrightarrow> yields I m Q) \<Longrightarrow> (\<not> b \<Longrightarrow> yields I n Q) \<Longrightarrow> yields I (if b then m else n) Q"
  by simp

lemma yields_Inr: "yields I m R \<Longrightarrow> I s \<Longrightarrow> m s = (Inr x, s') \<Longrightarrow> I s' \<and> R x s'"
  unfolding yields_def by blast

lemma keeps_yields: "keeps I m Q \<Longrightarrow> yields I m (\<lambda>x s. Q x)"
  unfolding yields_def keeps_def .

lemma keeps_outcome: "keeps I m Q \<Longrightarrow> I s \<Longrightarrow> case m s of (Inl e, s') \<Rightarrow> True | (Inr x, s') \<Rightarrow> Q x"
  by (auto simp: keeps_def split: prod.splits sum.splits)

end
