(* ===== verification/Sha256.thy ===== *)
theory Sha256
  imports Prelude "HOL-Library.Word"
begin

text \<open>
  The two standard-library functions under \<^verbatim>\<open>changeops_contracts.canonical\<close>:
  \<^verbatim>\<open>str.encode("utf-8")\<close> and \<^verbatim>\<open>hashlib.sha256(...).hexdigest()\<close>, as executable definitions
  over bytes and 32-bit words (FIPS 180-4). What the rest of the development uses of them is
  that the encoding is injective and that a hex digest is 64 lower-case hexadecimal digits;
  nothing relies on the values of digests.
\<close>

unbundle bit_operations_syntax

type_synonym byte = nat
type_synonym w32 = "32 word"

section \<open>UTF-8\<close>

text \<open>Bytes are numbers below 256; code points above U+007F take two bytes.\<close>

definition utf8_char :: "char \<Rightarrow> byte list" where
  "utf8_char c = (let n = of_char c :: nat in
     if n < 128 then [n] else [192 + n div 64, 128 + n mod 64])"

definition utf8_encode :: "string \<Rightarrow> byte list" where
  "utf8_encode s = concat (map utf8_char s)"

lemma utf8_char_bytes:
  assumes "b \<in> set (utf8_char c)"
  shows "b < 256"
proof -
  define n where "n = (of_char c :: nat)"
  have "n < 256" unfolding n_def by (metis of_char_of nat_of_char_less_256)
  then have "192 + n div 64 < 256" and "128 + n mod 64 < 256" and "n < 256" by linarith+
  with assms show ?thesis
    unfolding utf8_char_def n_def [symmetric] Let_def by (auto split: if_splits)
qed

lemma utf8_char_prefix_free:
  assumes "utf8_char c @ xs = utf8_char d @ ys"
  shows "c = d \<and> xs = ys"
proof -
  have "(of_char c :: nat) = of_char d \<and> xs = ys"
  proof (cases "(of_char c :: nat) < 128"; cases "(of_char d :: nat) < 128")
    assume h: "\<not> (of_char c :: nat) < 128" "\<not> (of_char d :: nat) < 128"
    with assms have "(of_char c :: nat) div 64 = of_char d div 64"
      "(of_char c :: nat) mod 64 = of_char d mod 64" "xs = ys"
      by (simp_all add: utf8_char_def Let_def)
    then show ?thesis by (metis div_mult_mod_eq)
  qed (use assms in \<open>simp_all add: utf8_char_def Let_def\<close>)
  then show ?thesis by simp
qed

lemma utf8_char_nonempty [simp]: "utf8_char c \<noteq> []"
  by (simp add: utf8_char_def Let_def)

lemma utf8_encode_Nil [simp]: "utf8_encode [] = []"
  by (simp add: utf8_encode_def)

lemma utf8_encode_Cons [simp]: "utf8_encode (c # s) = utf8_char c @ utf8_encode s"
  by (simp add: utf8_encode_def)

lemma utf8_encode_inj: "utf8_encode s = utf8_encode t \<Longrightarrow> s = t"
proof (induction s arbitrary: t)
  case Nil
  then show ?case by (cases t) simp_all
next
  case (Cons c s)
  then obtain d u where t: "t = d # u" by (cases t) simp_all
  with Cons.prems have "utf8_char c @ utf8_encode s = utf8_char d @ utf8_encode u" by simp
  from utf8_char_prefix_free [OF this] Cons.IH t show ?case by simp
qed

section \<open>The SHA-256 compression function\<close>

definition sha_k :: "w32 list" where
  "sha_k =
    [1116352408, 1899447441, 3049323471, 3921009573, 961987163, 1508970993, 2453635748, 2870763221,
     3624381080, 310598401, 607225278, 1426881987, 1925078388, 2162078206, 2614888103, 3248222580,
     3835390401, 4022224774, 264347078, 604807628, 770255983, 1249150122, 1555081692, 1996064986,
     2554220882, 2821834349, 2952996808, 3210313671, 3336571891, 3584528711, 113926993, 338241895,
     666307205, 773529912, 1294757372, 1396182291, 1695183700, 1986661051, 2177026350, 2456956037,
     2730485921, 2820302411, 3259730800, 3345764771, 3516065817, 3600352804, 4094571909, 275423344,
     430227734, 506948616, 659060556, 883997877, 958139571, 1322822218, 1537002063, 1747873779,
     1955562222, 2024104815, 2227730452, 2361852424, 2428436474, 2756734187, 3204031479, 3329325298]"

record sha_state =
  sa :: w32
  sb :: w32
  sc :: w32
  sd :: w32
  se :: w32
  sf :: w32
  sg :: w32
  sh :: w32

definition sha_init :: sha_state where
  "sha_init = \<lparr>sa = 1779033703, sb = 3144134277, sc = 1013904242, sd = 2773480762,
    se = 1359893119, sf = 2600822924, sg = 528734635, sh = 1541459225\<rparr>"

definition big_sigma0 :: "w32 \<Rightarrow> w32" where
  "big_sigma0 x = (word_rotr 2 x XOR word_rotr 13 x) XOR word_rotr 22 x"

definition big_sigma1 :: "w32 \<Rightarrow> w32" where
  "big_sigma1 x = (word_rotr 6 x XOR word_rotr 11 x) XOR word_rotr 25 x"

definition small_sigma0 :: "w32 \<Rightarrow> w32" where
  "small_sigma0 x = (word_rotr 7 x XOR word_rotr 18 x) XOR drop_bit 3 x"

definition small_sigma1 :: "w32 \<Rightarrow> w32" where
  "small_sigma1 x = (word_rotr 17 x XOR word_rotr 19 x) XOR drop_bit 10 x"

definition sha_round :: "w32 \<times> w32 \<Rightarrow> sha_state \<Rightarrow> sha_state" where
  "sha_round kw s = (let
      t1 = sh s + big_sigma1 (se s) + ((se s AND sf s) XOR (NOT (se s) AND sg s)) + fst kw + snd kw;
      t2 = big_sigma0 (sa s) + ((sa s AND sb s) XOR (sa s AND sc s) XOR (sb s AND sc s))
    in \<lparr>sa = t1 + t2, sb = sa s, sc = sb s, sd = sc s, se = sd s + t1, sf = se s, sg = sf s, sh = sg s\<rparr>)"

text \<open>The message schedule, the last sixteen words first.\<close>

fun sha_schedule :: "nat \<Rightarrow> w32 list \<Rightarrow> w32 list" where
  "sha_schedule 0 ws = rev ws"
| "sha_schedule (Suc n) ws =
     sha_schedule n ((small_sigma1 (ws ! 1) + ws ! 6 + small_sigma0 (ws ! 14) + ws ! 15) # ws)"

definition sha_compress :: "w32 list \<Rightarrow> sha_state \<Rightarrow> sha_state" where
  "sha_compress block s = (let r = fold sha_round (zip sha_k (sha_schedule 48 (rev block))) s in
     \<lparr>sa = sa s + sa r, sb = sb s + sb r, sc = sc s + sc r, sd = sd s + sd r,
      se = se s + se r, sf = sf s + sf r, sg = sg s + sg r, sh = sh s + sh r\<rparr>)"

fun sha_words :: "byte list \<Rightarrow> w32 list" where
  "sha_words (a # b # c # d # xs) =
     word_of_nat (((a * 256 + b) * 256 + c) * 256 + d) # sha_words xs"
| "sha_words _ = []"

definition sha_pad :: "byte list \<Rightarrow> byte list" where
  "sha_pad m = (let l = length m; z = (119 - l mod 64) mod 64 in
     m @ [0x80] @ replicate z 0 @ map (\<lambda>i. 8 * l div 256 ^ (7 - i) mod 256) [0..<8])"

fun sha_blocks :: "w32 list \<Rightarrow> sha_state \<Rightarrow> sha_state" where
  "sha_blocks ws s = (if length ws < 16 then s else sha_blocks (drop 16 ws) (sha_compress (take 16 ws) s))"

declare sha_blocks.simps [simp del]

definition sha256_words :: "byte list \<Rightarrow> w32 list" where
  "sha256_words m = (let s = sha_blocks (sha_words (sha_pad m)) sha_init in
     [sa s, sb s, sc s, sd s, se s, sf s, sg s, sh s])"

definition hex_digit :: "nat \<Rightarrow> char" where
  "hex_digit n = (if n < 10 then char_of (48 + n) else char_of (87 + n))"

definition byte_hex :: "byte \<Rightarrow> string" where
  "byte_hex b = [hex_digit (b div 16 mod 16), hex_digit (b mod 16)]"

definition hex_word :: "w32 \<Rightarrow> string" where
  "hex_word w = map (\<lambda>i. hex_digit (unat w div 16 ^ (7 - i) mod 16)) [0..<8]"

text \<open>\<^verbatim>\<open>hashlib.sha256(m).hexdigest()\<close>.\<close>

definition sha256_hex :: "byte list \<Rightarrow> string" where
  "sha256_hex m = concat (map hex_word (sha256_words m))"

lemma is_lower_hex_hex_digit: "n < 16 \<Longrightarrow> is_lower_hex (hex_digit n)"
  by (auto simp: hex_digit_def is_lower_hex_def is_digit_def Let_def of_char_of)

lemma sha256_hex_length [simp]: "length (sha256_hex m) = 64"
  by (simp add: sha256_hex_def sha256_words_def hex_word_def Let_def)

lemma sha256_hex_lower: "c \<in> set (sha256_hex m) \<Longrightarrow> is_lower_hex c"
  by (auto simp: sha256_hex_def hex_word_def intro!: is_lower_hex_hex_digit)

end
