(* ===== verification/Canonical_Json.thy ===== *)
theory Canonical_Json
  imports Sha256
begin

text \<open>
  The canonical JSON profile of \<^verbatim>\<open>changeops_contracts/canonical.py\<close>: \<^verbatim>\<open>json.dumps\<close> with
  \<^verbatim>\<open>sort_keys=True\<close>, compact separators and \<^verbatim>\<open>ensure_ascii=False\<close>, and the namespaced SHA-256
  digest of a document. The main lemma is that the printed text determines the document up to
  the order of object keys, so that two documents with the same digest are the same document or
  an explicit SHA-256 collision.
  JSON numbers are integers: the one hashed contract with a float field is the output of an agent, whose
  hash is an argument of the fleet's model, and float values inside free-form \<^verbatim>\<open>JsonValue\<close> arguments are not modelled.
\<close>

section \<open>JSON values\<close>

datatype json =
    JNull
  | JBool bool
  | JInt int
  | JStr string
  | JArr "json list"
  | JObj "(string \<times> json) list"

text \<open>Recursively sorted object keys.\<close>

fun sort_keys :: "json \<Rightarrow> json" where
  "sort_keys (JArr xs) = JArr (map sort_keys xs)"
| "sort_keys (JObj kvs) = JObj (sort_key fst (map (\<lambda>kv. (fst kv, sort_keys (snd kv))) kvs))"
| "sort_keys j = j"

section \<open>Printing\<close>

definition digit_char :: "nat \<Rightarrow> char" where
  "digit_char n = char_of (48 + n)"

fun nat_str :: "nat \<Rightarrow> string" where
  "nat_str n = (if n < 10 then [digit_char n] else nat_str (n div 10) @ [digit_char (n mod 10)])"

declare nat_str.simps [simp del]

definition int_str :: "int \<Rightarrow> string" where
  "int_str i = (if i < 0 then CHR ''-'' # nat_str (nat (- i)) else nat_str (nat i))"

text \<open>The escapes of \<^verbatim>\<open>json.encoder\<close> with \<^verbatim>\<open>ensure_ascii=False\<close>.\<close>

definition hex4 :: "nat \<Rightarrow> string" where
  "hex4 n = [hex_digit (n div 4096 mod 16), hex_digit (n div 256 mod 16),
             hex_digit (n div 16 mod 16), hex_digit (n mod 16)]"

definition escape_char :: "char \<Rightarrow> string" where
  "escape_char c = (let n = of_char c :: nat; bs = CHR 0x5C in
     if n = 34 then [bs, c]
     else if n = 92 then [bs, c]
     else if n = 8 then [bs, CHR ''b'']
     else if n = 9 then [bs, CHR ''t'']
     else if n = 10 then [bs, CHR ''n'']
     else if n = 12 then [bs, CHR ''f'']
     else if n = 13 then [bs, CHR ''r'']
     else if n < 32 then bs # CHR ''u'' # hex4 n
     else [c])"

definition quote :: char where
  "quote = CHR 0x22"

definition str_json :: "string \<Rightarrow> string" where
  "str_json s = quote # concat (map escape_char s) @ [quote]"

fun join_comma :: "string list \<Rightarrow> string" where
  "join_comma [] = []"
| "join_comma [x] = x"
| "join_comma (x # xs) = x @ CHR '','' # join_comma xs"

fun print_json :: "json \<Rightarrow> string" where
  "print_json JNull = ''null''"
| "print_json (JBool b) = (if b then ''true'' else ''false'')"
| "print_json (JInt i) = int_str i"
| "print_json (JStr s) = str_json s"
| "print_json (JArr xs) = CHR ''['' # join_comma (map print_json xs) @ '']''"
| "print_json (JObj kvs) = CHR ''{'' #
     join_comma (map (\<lambda>kv. str_json (fst kv) @ CHR '':'' # print_json (snd kv)) kvs) @ ''}''"

definition canonical_json :: "json \<Rightarrow> string" where
  "canonical_json document = print_json (sort_keys document)"

definition sha256_digest :: "json \<Rightarrow> string" where
  "sha256_digest document = ''sha256:'' @ sha256_hex (utf8_encode (canonical_json document))"

section \<open>Digests\<close>

text \<open>The pattern \<^verbatim>\<open>^sha256:[0-9a-f]{64}$\<close> of the \<^verbatim>\<open>Sha256Digest\<close> fields.\<close>

definition is_sha256_digest :: "string \<Rightarrow> bool" where
  "is_sha256_digest s \<longleftrightarrow> prefix ''sha256:'' s \<and> length s = 71 \<and> list_all is_lower_hex (drop 7 s)"

lemma sha256_digest_ok [simp]: "is_sha256_digest (sha256_digest d)"
  by (simp add: is_sha256_digest_def sha256_digest_def list_all_iff sha256_hex_lower)

lemma strip_no_ws_ends:
  assumes "s \<noteq> []" "\<not> is_whitespace (hd s)" "\<not> is_whitespace (last s)"
  shows "strip s = s"
proof -
  have "dropWhile is_whitespace s = s" using assms by (cases s) auto
  moreover have "dropWhile is_whitespace (rev s) = rev s"
    using assms by (cases "rev s") (auto simp: last_conv_nth hd_rev [symmetric])
  ultimately show ?thesis by (simp add: strip_def)
qed

lemma lower_hex_not_ws: "is_lower_hex c \<Longrightarrow> \<not> is_whitespace c"
  by (auto simp: is_lower_hex_def is_digit_def is_whitespace_def Let_def)

lemma strip_digest:
  assumes "is_sha256_digest s"
  shows "strip s = s"
proof (rule strip_no_ws_ends)
  show "s \<noteq> []" using assms by (auto simp: is_sha256_digest_def)
  from assms obtain t where s: "s = ''sha256:'' @ t" and t: "length t = 64" "list_all is_lower_hex t"
    by (auto simp: is_sha256_digest_def prefix_def)
  show "\<not> is_whitespace (hd s)" by (simp add: s is_whitespace_def)
  from t have "t \<noteq> []" by auto
  then have "last t \<in> set t" by simp
  with t have "is_lower_hex (last t)" by (simp add: list_all_iff)
  with \<open>t \<noteq> []\<close> show "\<not> is_whitespace (last s)"
    by (simp add: s lower_hex_not_ws)
qed

section \<open>The printed text determines the value\<close>

text \<open>What may follow a printed value inside a larger document: nothing that continues a number.\<close>

definition follow :: "string \<Rightarrow> bool" where
  "follow r \<longleftrightarrow> (case r of [] \<Rightarrow> True | c # _ \<Rightarrow> \<not> is_digit c)"

lemma follow_Cons [simp]: "follow (c # r) = (\<not> is_digit c)" and follow_Nil [simp]: "follow []"
  by (simp_all add: follow_def)

lemma digit_char_digit: "n < 10 \<Longrightarrow> is_digit (digit_char n)"
  by (simp add: digit_char_def is_digit_def Let_def of_char_of)

lemma nat_str_digits: "c \<in> set (nat_str n) \<Longrightarrow> is_digit c"
proof (induction n rule: nat_str.induct)
  case (1 n)
  then show ?case
    by (subst (asm) (2) nat_str.simps) (auto split: if_splits intro: digit_char_digit)
qed

lemma nat_str_nonempty [simp]: "nat_str n \<noteq> []"
  by (subst nat_str.simps) simp

definition digit_value :: "char \<Rightarrow> nat" where
  "digit_value c = of_char c - 48"

definition decimal_value :: "string \<Rightarrow> nat" where
  "decimal_value s = foldl (\<lambda>a c. 10 * a + digit_value c) 0 s"

lemma digit_value_char: "n < 10 \<Longrightarrow> digit_value (digit_char n) = n"
  by (simp add: digit_value_def digit_char_def of_char_of)

lemma decimal_value_nat_str [simp]: "decimal_value (nat_str n) = n"
proof (induction n rule: nat_str.induct)
  case (1 n)
  show ?case
  proof (cases "n < 10")
    case True
    then show ?thesis by (subst nat_str.simps) (simp add: decimal_value_def digit_value_char)
  next
    case False
    with "1.IH" show ?thesis
      by (subst nat_str.simps) (simp add: decimal_value_def digit_value_char)
  qed
qed

lemma nat_str_prefix:
  assumes "nat_str m @ r = nat_str n @ s" "follow r" "follow s"
  shows "m = n \<and> r = s"
proof -
  have tw: "takeWhile is_digit (nat_str k @ u) = nat_str k" if "follow u" for k u
    using that nat_str_digits [of _ k]
    by (cases u) (simp_all add: takeWhile_append)
  from assms have eq: "nat_str m = nat_str n" by (metis tw)
  then have "m = n" by (metis decimal_value_nat_str)
  with eq assms(1) show ?thesis by simp
qed

lemma nat_str_hd: "is_digit (hd (nat_str n))"
  by (rule nat_str_digits [of _ n]) simp

lemma int_str_prefix:
  assumes "int_str i @ r = int_str j @ s" "follow r" "follow s"
  shows "i = j \<and> r = s"
proof -
  have minus: "\<not> is_digit (CHR ''-'')" by (simp add: is_digit_def)
  have hd: "nat_str n @ u \<noteq> CHR ''-'' # v" for n u v
    using nat_str_hd [of n] minus by (cases "nat_str n") auto
  from assms hd show ?thesis
    by (auto simp: int_str_def dest!: nat_str_prefix split: if_splits) (metis hd)+
qed

lemma int_str_hd: "int_str i \<noteq> [] \<and> (hd (int_str i) = CHR ''-'' \<or> is_digit (hd (int_str i)))"
  using nat_str_hd by (simp add: int_str_def)

text \<open>
  String literals. Reading one escaped character back shows that escapes are prefix-free; no
  escape begins with the closing quote.
\<close>

definition hex_value :: "char \<Rightarrow> nat" where
  "hex_value c = (let n = of_char c :: nat in if n < 58 then n - 48 else n - 87)"

fun hex4_value :: "string \<Rightarrow> nat" where
  "hex4_value [a, b, c, d] = ((hex_value a * 16 + hex_value b) * 16 + hex_value c) * 16 + hex_value d"
| "hex4_value _ = 0"

definition unescape :: "string \<Rightarrow> char \<times> string" where
  "unescape s = (let c = hd s; x = hd (tl s); r = tl (tl s) in
     if c \<noteq> CHR 0x5C then (c, tl s)
     else if x = CHR ''b'' then (CHR 0x08, r)
     else if x = CHR ''t'' then (CHR 0x09, r)
     else if x = CHR ''n'' then (CHR 0x0A, r)
     else if x = CHR ''f'' then (CHR 0x0C, r)
     else if x = CHR ''r'' then (CHR 0x0D, r)
     else if x = CHR ''u'' then (char_of (hex4_value (take 4 r)), drop 4 r)
     else (x, r))"

lemma hex_value_digit: "n < 16 \<Longrightarrow> hex_value (hex_digit n) = n"
  by (simp add: hex_value_def hex_digit_def Let_def of_char_of)

lemma hex4_value_hex4: "n < 32 \<Longrightarrow> hex4_value (hex4 n) = n"
  by (simp add: hex4_def hex_value_digit)

lemma char_literals:
  "char_of (8 :: nat) = CHR 0x08" "char_of (9 :: nat) = CHR 0x09" "char_of (10 :: nat) = CHR 0x0A"
  "char_of (12 :: nat) = CHR 0x0C" "char_of (13 :: nat) = CHR 0x0D" "char_of (34 :: nat) = CHR 0x22"
  "char_of (92 :: nat) = CHR 0x5C"
  by (simp_all add: char_of_def bit_Suc_0_iff)

lemma unescape_escape: "unescape (escape_char c @ r) = (c, r)"
proof -
  define n where "n = (of_char c :: nat)"
  have c: "c = char_of n" by (simp add: n_def)
  consider "n \<in> {8, 9, 10, 12, 13, 34, 92}" | "n < 32" "n \<notin> {8, 9, 10, 12, 13}"
    | "\<not> n < 32" "n \<notin> {34, 92}" by fastforce
  then show ?thesis
  proof cases
    case 1
    with c have "c \<in> char_of ` {8 :: nat, 9, 10, 12, 13, 34, 92}" by blast
    then show ?thesis
      by (elim imageE insertE emptyE) (simp_all add: escape_char_def unescape_def char_literals Let_def)
  next
    case 2
    then have "escape_char c = CHR 0x5C # CHR ''u'' # hex4 n"
      by (simp add: escape_char_def Let_def n_def)
    moreover have "length (hex4 n) = 4" by (simp add: hex4_def)
    ultimately show ?thesis
      using 2 by (simp add: unescape_def Let_def hex4_value_hex4 c)
  next
    case 3
    then have "escape_char c = [c]" by (simp add: escape_char_def Let_def n_def)
    moreover have "c \<noteq> CHR 0x5C" using 3 by (auto simp: n_def)
    ultimately show ?thesis by (simp add: unescape_def)
  qed
qed

lemma escape_char_hd: "escape_char c \<noteq> [] \<and> hd (escape_char c) \<noteq> quote"
  by (auto simp: escape_char_def Let_def quote_def)

lemma str_body_prefix:
  "concat (map escape_char s) @ quote # r = concat (map escape_char t) @ quote # u \<Longrightarrow> s = t \<and> r = u"
proof (induction s arbitrary: t)
  case Nil
  then show ?case
    using escape_char_hd by (cases t) (auto, metis append_is_Nil_conv hd_append2 list.sel(1))
next
  case (Cons c s)
  from Cons.prems escape_char_hd [of c] obtain d v where t: "t = d # v"
    by (cases t) (auto, metis hd_append2 list.sel(1))
  with Cons.prems have "escape_char c @ (concat (map escape_char s) @ quote # r) =
      escape_char d @ (concat (map escape_char v) @ quote # u)" by simp
  then have "c = d" "concat (map escape_char s) @ quote # r = concat (map escape_char v) @ quote # u"
    by (metis prod.inject unescape_escape)+
  with Cons.IH t show ?case by blast
qed

lemma str_json_prefix: "str_json s @ r = str_json t @ u \<Longrightarrow> s = t \<and> r = u"
  using str_body_prefix [of s r t u] by (simp add: str_json_def)

text \<open>Comma-separated sequences closed by a bracket, for any unambiguous element printer.\<close>

definition unambiguous :: "('a \<Rightarrow> string) \<Rightarrow> 'a \<Rightarrow> bool" where
  "unambiguous p x \<longleftrightarrow>
     (\<forall>y r s. p x @ r = p y @ s \<longrightarrow> follow r \<longrightarrow> follow s \<longrightarrow> x = y \<and> r = s)"

lemma unambiguousD:
  "unambiguous p x \<Longrightarrow> p x @ r = p y @ s \<Longrightarrow> follow r \<Longrightarrow> follow s \<Longrightarrow> x = y \<and> r = s"
  by (simp add: unambiguous_def)

lemma join_comma_Cons: "join_comma (x # xs) = x @ concat (map (\<lambda>y. CHR '','' # y) xs)"
  by (induction xs arbitrary: x) simp_all

lemma comma_tail_prefix:
  assumes "\<forall>x \<in> set xs. unambiguous p x" "\<not> is_digit c" "c \<noteq> CHR '',''"
    and "concat (map (\<lambda>x. CHR '','' # p x) xs) @ c # r = concat (map (\<lambda>x. CHR '','' # p x) ys) @ c # s"
  shows "xs = ys \<and> r = s"
  using assms
proof (induction xs arbitrary: ys)
  case Nil
  then show ?case by (cases ys) auto
next
  case (Cons x xs)
  then obtain y zs where ys: "ys = y # zs" by (cases ys) auto
  let ?tl = "\<lambda>zs. concat (map (\<lambda>x. CHR '','' # p x) zs)"
  have f: "follow (?tl zs @ c # u)" for zs u
    using Cons.prems(2) by (cases zs) (simp_all add: is_digit_def)
  from Cons.prems ys have "p x @ (?tl xs @ c # r) = p y @ (?tl zs @ c # s)" by simp
  with Cons.prems(1) f have "x = y \<and> ?tl xs @ c # r = ?tl zs @ c # s"
    by (auto dest!: unambiguousD)
  with Cons ys show ?case by auto
qed

lemma join_comma_prefix:
  assumes "\<forall>x \<in> set xs. unambiguous p x" "\<not> is_digit c" "c \<noteq> CHR '',''"
    and "\<And>x. p x \<noteq> [] \<and> hd (p x) \<noteq> c"
    and "join_comma (map p xs) @ c # r = join_comma (map p ys) @ c # s"
  shows "xs = ys \<and> r = s"
proof (cases xs; cases ys)
  fix x xs' y ys'
  assume xs: "xs = x # xs'" and ys: "ys = y # ys'"
  let ?tl = "\<lambda>zs. concat (map (\<lambda>x. CHR '','' # p x) zs)"
  have tl: "concat (map (\<lambda>y. CHR '','' # y) (map p zs)) = ?tl zs" for zs
    by (simp add: comp_def)
  have f: "follow (?tl zs @ c # u)" for zs u
    using assms(2) by (cases zs) (simp_all add: is_digit_def)
  from assms(5) have "p x @ (?tl xs' @ c # r) = p y @ (?tl ys' @ c # s)"
    by (simp add: xs ys join_comma_Cons comp_def)
  with assms(1) f xs have h: "x = y \<and> ?tl xs' @ c # r = ?tl ys' @ c # s"
    by (auto dest!: unambiguousD)
  with assms(1-3) xs comma_tail_prefix [of xs' p c r ys' s] show ?thesis
    by (simp add: xs ys)
next
  fix y ys' assume "xs = []" "ys = y # ys'"
  with assms(4) [of y] assms(5) show ?thesis
    by (cases "p y") (simp_all add: join_comma_Cons)
next
  fix x xs' assume "xs = x # xs'" "ys = []"
  with assms(4) [of x] assms(5) show ?thesis
    by (cases "p x") (simp_all add: join_comma_Cons)
qed (use assms(5) in simp)

lemma print_json_hd:
  "print_json j \<noteq> [] \<and> hd (print_json j) \<noteq> CHR '']'' \<and> hd (print_json j) \<noteq> CHR ''}''"
proof (cases j)
  case (JInt i)
  then show ?thesis using int_str_hd [of i] by (auto simp: is_digit_def)
qed (simp_all add: str_json_def quote_def)

definition print_member :: "string \<times> json \<Rightarrow> string" where
  "print_member kv = str_json (fst kv) @ CHR '':'' # print_json (snd kv)"

lemma unambiguous_member:
  "unambiguous print_json (snd kv) \<Longrightarrow> unambiguous print_member kv"
  unfolding unambiguous_def print_member_def
  by (auto dest!: str_json_prefix) (metis prod.collapse)+

text \<open>The first character tells which kind of value follows.\<close>

definition char_kind :: "char \<Rightarrow> nat" where
  "char_kind c = (if c = CHR ''n'' then 0 else if c = CHR ''t'' \<or> c = CHR ''f'' then 1
     else if c = quote then 3 else if c = CHR ''['' then 4 else if c = CHR ''{'' then 5 else 2)"

fun json_kind :: "json \<Rightarrow> nat" where
  "json_kind JNull = 0" | "json_kind (JBool _) = 1" | "json_kind (JInt _) = 2"
| "json_kind (JStr _) = 3" | "json_kind (JArr _) = 4" | "json_kind (JObj _) = 5"

lemma char_kind_digit: "is_digit c \<or> c = CHR ''-'' \<Longrightarrow> char_kind c = 2"
  by (auto simp: char_kind_def is_digit_def quote_def)

lemma char_kind_print: "char_kind (hd (print_json j)) = json_kind j"
proof (cases j)
  case (JInt i)
  then show ?thesis using int_str_hd [of i] by (auto simp: char_kind_digit)
qed (simp_all add: char_kind_def str_json_def quote_def)

lemma print_json_same_kind: "print_json x @ r = print_json y @ s \<Longrightarrow> json_kind x = json_kind y"
  by (metis char_kind_print hd_append2 print_json_hd)

lemma unambiguousI:
  assumes "\<And>y r s. json_kind x = json_kind y \<Longrightarrow> print_json x @ r = print_json y @ s \<Longrightarrow>
    follow r \<Longrightarrow> follow s \<Longrightarrow> x = y \<and> r = s"
  shows "unambiguous print_json x"
  unfolding unambiguous_def using assms print_json_same_kind by blast

lemma print_JObj: "print_json (JObj kvs) = CHR ''{'' # join_comma (map print_member kvs) @ ''}''"
  by (simp add: print_member_def [abs_def])

lemma unambiguous_print_json: "unambiguous print_json j"
proof (induction j)
  case JNull
  show ?case by (rule unambiguousI) (case_tac y; simp)
next
  case (JBool b)
  show ?case by (rule unambiguousI) (case_tac y; simp split: if_splits)
next
  case (JInt i)
  show ?case
  proof (rule unambiguousI)
    fix y r s
    assume "json_kind (JInt i) = json_kind y" "print_json (JInt i) @ r = print_json y @ s"
      "follow r" "follow s"
    then show "JInt i = y \<and> r = s" by (cases y) (auto dest: int_str_prefix)
  qed
next
  case (JStr t)
  show ?case
  proof (rule unambiguousI)
    fix y r s
    assume "json_kind (JStr t) = json_kind y" "print_json (JStr t) @ r = print_json y @ s"
    then show "JStr t = y \<and> r = s" by (cases y) (auto dest: str_json_prefix)
  qed
next
  case (JArr xs)
  show ?case
  proof (rule unambiguousI)
    fix y r s
    assume "json_kind (JArr xs) = json_kind y" and eq: "print_json (JArr xs) @ r = print_json y @ s"
    then obtain ys where y: "y = JArr ys" by (cases y) auto
    have "xs = ys \<and> r = s"
      by (rule join_comma_prefix [where p = print_json and c = "CHR '']''"])
        (use eq y JArr print_json_hd in \<open>auto simp: is_digit_def\<close>)
    with y show "JArr xs = y \<and> r = s" by simp
  qed
next
  case (JObj kvs)
  show ?case
  proof (rule unambiguousI)
    fix y r s
    assume "json_kind (JObj kvs) = json_kind y" and eq: "print_json (JObj kvs) @ r = print_json y @ s"
    then obtain kvs' where y: "y = JObj kvs'" by (cases y) auto
    have u: "\<forall>kv \<in> set kvs. unambiguous print_member kv"
      using JObj by (metis unambiguous_member prod.collapse snds.intros)
    have "kvs = kvs' \<and> r = s"
      by (rule join_comma_prefix [where p = print_member and c = "CHR ''}''", OF u])
        (use eq [unfolded y print_JObj] in \<open>auto simp: is_digit_def print_member_def str_json_def quote_def\<close>)
    with y show "JObj kvs = y \<and> r = s" by simp
  qed
qed

text \<open>Equal texts come from the same document, up to the order of object keys.\<close>

lemma canonical_json_inj:
  assumes "canonical_json d = canonical_json e"
  shows "sort_keys d = sort_keys e"
proof -
  from assms have "print_json (sort_keys d) @ [] = print_json (sort_keys e) @ []"
    by (simp add: canonical_json_def)
  from unambiguousD [OF unambiguous_print_json this] show ?thesis by simp
qed

text \<open>Two different byte strings with the same SHA-256 value.\<close>

definition sha256_collision :: "byte list \<Rightarrow> byte list \<Rightarrow> bool" where
  "sha256_collision x y \<longleftrightarrow> x \<noteq> y \<and> sha256_hex x = sha256_hex y"

lemma sha256_digest_binds:
  assumes "sha256_digest d = sha256_digest e"
  shows "sort_keys d = sort_keys e \<or>
    sha256_collision (utf8_encode (canonical_json d)) (utf8_encode (canonical_json e))"
proof (cases "canonical_json d = canonical_json e")
  case True
  then show ?thesis by (blast dest: canonical_json_inj)
next
  case False
  then have "utf8_encode (canonical_json d) \<noteq> utf8_encode (canonical_json e)"
    using utf8_encode_inj by blast
  moreover from assms have "sha256_hex (utf8_encode (canonical_json d)) =
      sha256_hex (utf8_encode (canonical_json e))"
    by (simp only: sha256_digest_def same_append_eq)
  ultimately show ?thesis by (simp only: sha256_collision_def simp_thms)
qed

lemma sha256_digest_sort_keys: "sort_keys d = sort_keys e \<Longrightarrow> sha256_digest d = sha256_digest e"
  by (simp add: sha256_digest_def canonical_json_def)

text \<open>
  The canonical profile is exact: two documents print to the same text if and only if they are equal
  after recursively sorting object keys. So equal text means equal content, and the order in which a
  caller builds a mapping never changes its text.
\<close>

theorem canonical_text_exact: "canonical_json d = canonical_json e \<longleftrightarrow> sort_keys d = sort_keys e"
  using canonical_json_inj by (auto simp: canonical_json_def)

end
