(* ===== verification/Contracts.thy ===== *)
theory Contracts
  imports Canonical_Json
begin

text \<open>
  The wire contracts of \<^verbatim>\<open>packages/contracts-python/src/changeops_contracts\<close>: the enumerations
  and Pydantic models of \<^verbatim>\<open>models.py\<close> with their field constraints and model validators, and the
  identifiers and plan hash of \<^verbatim>\<open>canonical.py\<close>.

  A model is a record. Constructing or \<^verbatim>\<open>model_validate\<close>-ing one strips the surrounding
  whitespace of every string (\<^verbatim>\<open>str_strip_whitespace\<close>), checks the field constraints and then
  runs the \<^verbatim>\<open>model_validator\<close>; a failed check is \<^const>\<open>None\<close>, Pydantic's \<^verbatim>\<open>ValidationError\<close>.
  An instance that exists is a fixed point of its validator (\<^verbatim>\<open>..._ok\<close>), because the models are
  frozen.
  The JSON text of a timestamp is produced by Pydantic; it is the parameter \<open>iso_text\<close> of every
  definition that hashes a document with a timestamp in it.
\<close>

section \<open>Enumerations\<close>

datatype risk_level = RL_UNKNOWN | RL_LOW | RL_MEDIUM | RL_HIGH | RL_CRITICAL

datatype change_environment = Env_LOCAL | Env_TEST | Env_SANDBOX

datatype workflow_state =
    WS_RECEIVED | WS_SCREENING | WS_BLOCKED | WS_ANALYZING | WS_PLAN_READY | WS_AWAITING_APPROVAL
  | WS_APPROVED | WS_REJECTED | WS_EXECUTING | WS_VERIFYING | WS_ROLLING_BACK | WS_COMPLETED
  | WS_FAILED | WS_PARTIAL | WS_CANCELLED | WS_NEEDS_ATTENTION

datatype policy_effect = ALLOW | DENY | REQUIRE_APPROVAL | BLOCK_SECURITY | RATE_LIMIT | NEEDS_REVIEW

datatype approval_decision = AD_APPROVED | AD_REJECTED

datatype user_role = CHANGE_REQUESTER | APPROVER | AUDITOR | PLATFORM_ADMIN

datatype actor_type = Actor_USER | Actor_AGENT | Actor_SERVICE | Actor_SYSTEM

datatype audit_status = Audit_SUCCESS | Audit_REJECTED | Audit_FAILURE

fun risk_value :: "risk_level \<Rightarrow> string" where
  "risk_value RL_UNKNOWN = ''unknown''" | "risk_value RL_LOW = ''low''"
| "risk_value RL_MEDIUM = ''medium''" | "risk_value RL_HIGH = ''high''"
| "risk_value RL_CRITICAL = ''critical''"

fun environment_value :: "change_environment \<Rightarrow> string" where
  "environment_value Env_LOCAL = ''local''" | "environment_value Env_TEST = ''test''"
| "environment_value Env_SANDBOX = ''sandbox''"

fun state_value :: "workflow_state \<Rightarrow> string" where
  "state_value WS_RECEIVED = ''RECEIVED''" | "state_value WS_SCREENING = ''SCREENING''"
| "state_value WS_BLOCKED = ''BLOCKED''" | "state_value WS_ANALYZING = ''ANALYZING''"
| "state_value WS_PLAN_READY = ''PLAN_READY''"
| "state_value WS_AWAITING_APPROVAL = ''AWAITING_APPROVAL''"
| "state_value WS_APPROVED = ''APPROVED''" | "state_value WS_REJECTED = ''REJECTED''"
| "state_value WS_EXECUTING = ''EXECUTING''" | "state_value WS_VERIFYING = ''VERIFYING''"
| "state_value WS_ROLLING_BACK = ''ROLLING_BACK''" | "state_value WS_COMPLETED = ''COMPLETED''"
| "state_value WS_FAILED = ''FAILED''" | "state_value WS_PARTIAL = ''PARTIAL''"
| "state_value WS_CANCELLED = ''CANCELLED''" | "state_value WS_NEEDS_ATTENTION = ''NEEDS_ATTENTION''"

fun effect_value :: "policy_effect \<Rightarrow> string" where
  "effect_value ALLOW = ''ALLOW''" | "effect_value DENY = ''DENY''"
| "effect_value REQUIRE_APPROVAL = ''REQUIRE_APPROVAL''"
| "effect_value BLOCK_SECURITY = ''BLOCK_SECURITY''"
| "effect_value RATE_LIMIT = ''RATE_LIMIT''" | "effect_value NEEDS_REVIEW = ''NEEDS_REVIEW''"

fun audit_status_value :: "audit_status \<Rightarrow> string" where
  "audit_status_value Audit_SUCCESS = ''success''" | "audit_status_value Audit_REJECTED = ''rejected''"
| "audit_status_value Audit_FAILURE = ''failure''"

fun role_value :: "user_role \<Rightarrow> string" where
  "role_value CHANGE_REQUESTER = ''CHANGE_REQUESTER''" | "role_value APPROVER = ''APPROVER''"
| "role_value AUDITOR = ''AUDITOR''" | "role_value PLATFORM_ADMIN = ''PLATFORM_ADMIN''"

lemma risk_value_inj: "risk_value a = risk_value b \<Longrightarrow> a = b"
  by (cases a; cases b; simp)

section \<open>Field constraints\<close>

definition nonempty_str :: "string \<Rightarrow> bool" where
  "nonempty_str s \<longleftrightarrow> 1 \<le> length s \<and> length s \<le> 512"

definition reference_str :: "string \<Rightarrow> bool" where
  "reference_str s \<longleftrightarrow> 1 \<le> length s \<and> length s \<le> 2048"

definition opt_ok :: "('a \<Rightarrow> bool) \<Rightarrow> 'a option \<Rightarrow> bool" where
  "opt_ok P x \<longleftrightarrow> (case x of None \<Rightarrow> True | Some y \<Rightarrow> P y)"

lemma opt_ok_simps [simp]: "opt_ok P None" "opt_ok P (Some x) = P x"
  by (simp_all add: opt_ok_def)

lemma map_option_strip_idem [simp]: "map_option strip (map_option strip x) = map_option strip x"
  by (cases x) simp_all

lemma map_strip_idem [simp]: "map strip (map strip xs) = map strip xs"
  by simp

text \<open>
  Free-form \<^verbatim>\<open>dict[str, JsonValue]\<close> fields: Pydantic strips the keys and every string inside, and
  a key that coincides with an earlier one after stripping replaces its value.
\<close>

definition dict_from :: "('k \<times> 'v) list \<Rightarrow> ('k, 'v) dict" where
  "dict_from kvs = fold (\<lambda>(k, v). dput k v) kvs []"

fun strip_json :: "json \<Rightarrow> json" where
  "strip_json (JStr s) = JStr (strip s)"
| "strip_json (JArr xs) = JArr (map strip_json xs)"
| "strip_json (JObj kvs) = JObj (dict_from (map (\<lambda>(k, v). (strip k, strip_json v)) kvs))"
| "strip_json j = j"

definition strip_object :: "(string \<times> json) list \<Rightarrow> (string \<times> json) list" where
  "strip_object kvs = dict_from (map (\<lambda>(k, v). (strip k, strip_json v)) kvs)"

lemma dict_from_snoc [simp]: "dict_from (kvs @ [kv]) = dput (fst kv) (snd kv) (dict_from kvs)"
  by (simp add: dict_from_def split_beta)

lemma dict_from_Nil [simp]: "dict_from [] = []"
  by (simp add: dict_from_def)

lemma dict_ok_dict_from [simp]: "dict_ok (dict_from kvs)"
  by (induction kvs rule: rev_induct) auto

lemma set_dput: "set (dput k v d) \<subseteq> insert (k, v) (set d)"
  unfolding dput_def by (induction d) auto

lemma set_dict_from: "set (dict_from kvs) \<subseteq> set kvs"
proof (induction kvs rule: rev_induct)
  case (snoc kv kvs)
  then show ?case using set_dput [of "fst kv" "snd kv" "dict_from kvs"] by auto
qed simp

lemma dict_from_distinct: "dict_ok kvs \<Longrightarrow> dict_from kvs = kvs"
  by (induction kvs rule: rev_induct) (simp_all add: dict_ok_def dput_fresh)

lemma strip_object_fixed:
  assumes "\<And>k v. (k, v) \<in> set kvs \<Longrightarrow> strip_json (strip_json v) = strip_json v"
  shows "strip_object (strip_object kvs) = strip_object kvs"
proof -
  let ?m = "map (\<lambda>(k, v). (strip k, strip_json v)) kvs"
  have "(case kv of (k, v) \<Rightarrow> (strip k, strip_json v)) = kv" if "kv \<in> set (dict_from ?m)" for kv
  proof -
    from that set_dict_from [of ?m] obtain k v where "(k, v) \<in> set kvs" "kv = (strip k, strip_json v)"
      by auto
    with assms [of k v] show ?thesis by (simp only: prod.case strip_idem)
  qed
  then have "map (\<lambda>(k, v). (strip k, strip_json v)) (dict_from ?m) = dict_from ?m"
    by (rule map_idI)
  then show ?thesis by (simp add: strip_object_def dict_from_distinct)
qed

lemma strip_json_idem [simp]: "strip_json (strip_json j) = strip_json j"
proof (induction j rule: strip_json.induct)
  case (3 kvs)
  then have "strip_object (strip_object kvs) = strip_object kvs" by (intro strip_object_fixed) auto
  then show ?case by (simp add: strip_object_def)
qed auto

lemma strip_object_idem [simp]: "strip_object (strip_object kvs) = strip_object kvs"
  by (rule strip_object_fixed) simp

lemma dict_ok_strip_object [simp]: "dict_ok (strip_object kvs)"
  by (simp add: strip_object_def)

section \<open>Change events and records\<close>

record change_source =
  src_type :: string
  src_external_id :: string
  src_url :: string

record change_subject =
  sub_system_id :: string
  sub_resource_type :: string
  sub_resource_id :: string

record change_details =
  chg_summary :: string
  chg_old_version :: string
  chg_new_version :: string
  chg_artifact_refs :: "string list"

record change_event =
  ev_event_id :: string
  ev_tenant_id :: string
  ev_event_type :: string
  ev_source :: change_source
  ev_occurred_at :: instant
  ev_received_at :: instant
  ev_subject :: change_subject
  ev_change :: change_details
  ev_correlation_id :: string
  ev_trace_id :: string

record change_record =
  cr_change_id :: string
  cr_tenant_id :: string
  cr_event_id :: string
  cr_change_type :: string
  cr_title :: string
  cr_description :: string
  cr_source :: change_source
  cr_environment :: change_environment
  cr_status :: workflow_state
  cr_risk_level :: risk_level
  cr_current_phase :: workflow_state
  cr_workflow_execution_id :: "string option"
  cr_plan_version :: int
  cr_plan_hash :: "string option"
  cr_created_at :: instant
  cr_updated_at :: instant
  cr_created_by :: string
  cr_version :: int

definition strip_source :: "change_source \<Rightarrow> change_source" where
  "strip_source s = \<lparr>src_type = strip (src_type s), src_external_id = strip (src_external_id s),
     src_url = src_url s\<rparr>"

definition source_fields_ok :: "change_source \<Rightarrow> bool" where
  "source_fields_ok s \<longleftrightarrow> nonempty_str (src_type s) \<and> nonempty_str (src_external_id s)"

definition strip_change_record :: "change_record \<Rightarrow> change_record" where
  "strip_change_record r = r\<lparr>cr_change_id := strip (cr_change_id r), cr_tenant_id := strip (cr_tenant_id r),
     cr_event_id := strip (cr_event_id r), cr_change_type := strip (cr_change_type r),
     cr_title := strip (cr_title r), cr_description := strip (cr_description r),
     cr_source := strip_source (cr_source r),
     cr_workflow_execution_id := map_option strip (cr_workflow_execution_id r),
     cr_plan_hash := map_option strip (cr_plan_hash r), cr_created_by := strip (cr_created_by r)\<rparr>"

definition change_record_fields_ok :: "change_record \<Rightarrow> bool" where
  "change_record_fields_ok r \<longleftrightarrow>
     nonempty_str (cr_change_id r) \<and> nonempty_str (cr_tenant_id r) \<and> nonempty_str (cr_event_id r) \<and>
     nonempty_str (cr_change_type r) \<and> nonempty_str (cr_title r) \<and> nonempty_str (cr_description r) \<and>
     source_fields_ok (cr_source r) \<and> opt_ok nonempty_str (cr_workflow_execution_id r) \<and>
     0 \<le> cr_plan_version r \<and> opt_ok is_sha256_digest (cr_plan_hash r) \<and>
     nonempty_str (cr_created_by r) \<and> 1 \<le> cr_version r"

definition validate_state_and_timestamps :: "change_record \<Rightarrow> bool" where
  "validate_state_and_timestamps r \<longleftrightarrow>
     cr_current_phase r = cr_status r \<and> \<not> cr_updated_at r < cr_created_at r"

definition ChangeRecord_validate :: "change_record \<Rightarrow> change_record option" where
  "ChangeRecord_validate r = (let r' = strip_change_record r in
     if change_record_fields_ok r' \<and> validate_state_and_timestamps r' then Some r' else None)"

definition change_record_ok :: "change_record \<Rightarrow> bool" where
  "change_record_ok r \<longleftrightarrow> ChangeRecord_validate r = Some r"

lemma strip_source_idem [simp]: "strip_source (strip_source s) = strip_source s"
  by (simp add: strip_source_def)

lemma strip_change_record_idem [simp]: "strip_change_record (strip_change_record r) = strip_change_record r"
  by (simp add: strip_change_record_def)

lemma ChangeRecord_validate_ok: "ChangeRecord_validate r = Some r' \<Longrightarrow> change_record_ok r'"
  by (auto simp: ChangeRecord_validate_def change_record_ok_def Let_def split: if_splits)

lemma change_record_okD:
  assumes "change_record_ok r"
  shows "strip_change_record r = r" "change_record_fields_ok r" "validate_state_and_timestamps r"
  using assms by (auto simp: change_record_ok_def ChangeRecord_validate_def Let_def split: if_splits)

section \<open>Remediation plans\<close>

record remediation_step =
  st_step_id :: string
  st_order :: int
  st_agent_id :: string
  st_tool_name :: string
  st_resource :: string
  st_arguments :: "(string \<times> json) list"
  st_depends_on :: "string list"
  st_risk_level :: risk_level
  st_requires_approval :: bool
  st_idempotency_key :: string

record remediation_plan =
  pl_plan_id :: string
  pl_tenant_id :: string
  pl_change_id :: string
  pl_version :: int
  pl_risk_level :: risk_level
  pl_summary :: string
  pl_preconditions :: "string list"
  pl_steps :: "remediation_step list"
  pl_verification_steps :: "string list"
  pl_rollback_steps :: "string list"
  pl_evidence_refs :: "string list"
  pl_created_at :: instant

definition strip_step :: "remediation_step \<Rightarrow> remediation_step" where
  "strip_step t = t\<lparr>st_step_id := strip (st_step_id t), st_agent_id := strip (st_agent_id t),
     st_tool_name := strip (st_tool_name t), st_resource := strip (st_resource t),
     st_arguments := strip_object (st_arguments t), st_depends_on := map strip (st_depends_on t), st_idempotency_key := strip (st_idempotency_key t)\<rparr>"

definition step_fields_ok :: "remediation_step \<Rightarrow> bool" where
  "step_fields_ok t \<longleftrightarrow> nonempty_str (st_step_id t) \<and> 1 \<le> st_order t \<and> nonempty_str (st_agent_id t) \<and>
     nonempty_str (st_tool_name t) \<and> nonempty_str (st_resource t) \<and>
     list_all nonempty_str (st_depends_on t) \<and> nonempty_str (st_idempotency_key t)"

definition strip_plan :: "remediation_plan \<Rightarrow> remediation_plan" where
  "strip_plan p = p\<lparr>pl_plan_id := strip (pl_plan_id p), pl_tenant_id := strip (pl_tenant_id p),
     pl_change_id := strip (pl_change_id p), pl_summary := strip (pl_summary p),
     pl_preconditions := map strip (pl_preconditions p), pl_steps := map strip_step (pl_steps p),
     pl_verification_steps := map strip (pl_verification_steps p),
     pl_rollback_steps := map strip (pl_rollback_steps p),
     pl_evidence_refs := map strip (pl_evidence_refs p)\<rparr>"

definition plan_fields_ok :: "remediation_plan \<Rightarrow> bool" where
  "plan_fields_ok p \<longleftrightarrow> nonempty_str (pl_plan_id p) \<and> nonempty_str (pl_tenant_id p) \<and>
     nonempty_str (pl_change_id p) \<and> 1 \<le> pl_version p \<and> nonempty_str (pl_summary p) \<and>
     list_all nonempty_str (pl_preconditions p) \<and>
     pl_steps p \<noteq> [] \<and> list_all step_fields_ok (pl_steps p) \<and>
     pl_verification_steps p \<noteq> [] \<and> list_all nonempty_str (pl_verification_steps p) \<and>
     pl_rollback_steps p \<noteq> [] \<and> list_all nonempty_str (pl_rollback_steps p) \<and>
     pl_evidence_refs p \<noteq> [] \<and> list_all reference_str (pl_evidence_refs p)"

text \<open>
  The checks of \<^verbatim>\<open>validate_step_graph\<close>, in the order of the code: unique identifiers, unique
  order numbers, order numbers exactly 1 to n, and every dependency a known step with a smaller
  order number.
\<close>

definition dependency_ok :: "(string, remediation_step) dict \<Rightarrow> remediation_step \<Rightarrow> string \<Rightarrow> bool" where
  "dependency_ok by_id step dependency_id = (case dget by_id dependency_id of
     None \<Rightarrow> False
   | Some dependency \<Rightarrow> \<not> st_order step \<le> st_order dependency)"

definition validate_step_graph :: "remediation_plan \<Rightarrow> bool" where
  "validate_step_graph p = (let steps = pl_steps p; by_id = dict_of st_step_id steps;
       orders = remdups (map st_order steps) in
     length by_id = length steps \<and> length orders = length steps \<and>
     set orders = set [1..int (length steps)] \<and>
     list_all (\<lambda>step. list_all (dependency_ok by_id step) (st_depends_on step)) steps)"

definition RemediationPlan_validate :: "remediation_plan \<Rightarrow> remediation_plan option" where
  "RemediationPlan_validate p = (let p' = strip_plan p in
     if plan_fields_ok p' \<and> validate_step_graph p' then Some p' else None)"

definition plan_ok :: "remediation_plan \<Rightarrow> bool" where
  "plan_ok p \<longleftrightarrow> RemediationPlan_validate p = Some p"

lemma strip_step_idem [simp]: "strip_step (strip_step t) = strip_step t"
  by (simp add: strip_step_def)

lemma map_strip_step_idem [simp]: "map strip_step (map strip_step ts) = map strip_step ts"
  by simp

lemma strip_plan_idem [simp]: "strip_plan (strip_plan p) = strip_plan p"
  by (simp add: strip_plan_def)

lemma RemediationPlan_validate_ok: "RemediationPlan_validate p = Some p' \<Longrightarrow> plan_ok p'"
  by (auto simp: RemediationPlan_validate_def plan_ok_def Let_def split: if_splits)

lemma plan_okD:
  assumes "plan_ok p"
  shows "strip_plan p = p" "plan_fields_ok p" "validate_step_graph p"
  using assms by (auto simp: plan_ok_def RemediationPlan_validate_def Let_def split: if_splits)

text \<open>What the step-graph check gives: a dictionary of steps and a strictly decreasing rank.\<close>

lemma length_remdups_iff: "length (remdups xs) = length xs \<longleftrightarrow> distinct xs"
  by (metis distinct_remdups distinct_remdups_id length_remdups_eq)

lemma step_graph_distinct:
  assumes "validate_step_graph p"
  shows "distinct (map st_step_id (pl_steps p))" "distinct (map st_order (pl_steps p))"
proof -
  from assms have "length (dict_of st_step_id (pl_steps p)) = length (pl_steps p)"
    and "length (remdups (map st_order (pl_steps p))) = length (map st_order (pl_steps p))"
    by (simp_all add: validate_step_graph_def Let_def)
  then show "distinct (map st_step_id (pl_steps p))" "distinct (map st_order (pl_steps p))"
    by (simp_all only: length_dict_of_iff length_remdups_iff)
qed

lemma step_graph_orders:
  "validate_step_graph p \<Longrightarrow> st_order ` set (pl_steps p) = {1..int (length (pl_steps p))}"
  by (auto simp: validate_step_graph_def Let_def)

lemma step_graph_dependency:
  assumes "validate_step_graph p" "t \<in> set (pl_steps p)" "d \<in> set (st_depends_on t)"
  obtains u where "u \<in> set (pl_steps p)" "st_step_id u = d" "st_order u < st_order t"
proof -
  from assms have "dependency_ok (dict_of st_step_id (pl_steps p)) t d"
    by (auto simp: validate_step_graph_def Let_def list_all_iff)
  then obtain u where "dget (dict_of st_step_id (pl_steps p)) d = Some u" "st_order u < st_order t"
    by (auto simp: dependency_ok_def split: option.splits)
  with that show thesis by (blast dest: dget_dict_of_key)
qed

section \<open>Tool intents, decisions, approvals, audit events\<close>

record tool_intent =
  ti_intent_id :: string
  ti_tenant_id :: string
  ti_change_id :: string
  ti_workflow_execution_id :: string
  ti_plan_id :: string
  ti_plan_hash :: string
  ti_step_id :: string
  ti_agent_identity :: string
  ti_tool_name :: string
  ti_action :: string
  ti_resource :: string
  ti_arguments :: "(string \<times> json) list"
  ti_reason :: string
  ti_evidence_refs :: "string list"
  ti_idempotency_key :: string
  ti_requested_at :: instant

record policy_decision =
  pd_decision_id :: string
  pd_tenant_id :: string
  pd_intent_id :: string
  pd_effect :: policy_effect
  pd_computed_risk :: risk_level
  pd_approval_required :: bool
  pd_approval_valid :: bool
  pd_matched_policy_ids :: "string list"
  pd_reasons :: "string list"
  pd_evaluated_at :: instant

record approval =
  ap_approval_id :: string
  ap_tenant_id :: string
  ap_change_id :: string
  ap_plan_id :: string
  ap_plan_hash :: string
  ap_plan_version :: int
  ap_environment :: change_environment
  ap_decision :: approval_decision
  ap_scope :: "string list"
  ap_approved_by :: string
  ap_approved_by_roles :: "user_role list"
  ap_approved_at :: instant
  ap_expires_at :: instant
  ap_comment :: string

record audit_event =
  ae_audit_event_id :: string
  ae_tenant_id :: string
  ae_change_id :: string
  ae_trace_id :: string
  ae_event_type :: string
  ae_actor_type :: actor_type
  ae_actor_id :: string
  ae_resource :: string
  ae_action :: string
  ae_decision_id :: "string option"
  ae_input_hash :: string
  ae_output_hash :: string
  ae_status :: audit_status
  ae_redacted_summary :: string
  ae_created_at :: instant

definition strip_approval :: "approval \<Rightarrow> approval" where
  "strip_approval a = a\<lparr>ap_approval_id := strip (ap_approval_id a), ap_tenant_id := strip (ap_tenant_id a),
     ap_change_id := strip (ap_change_id a), ap_plan_id := strip (ap_plan_id a),
     ap_plan_hash := strip (ap_plan_hash a), ap_scope := map strip (ap_scope a),
     ap_approved_by := strip (ap_approved_by a), ap_comment := strip (ap_comment a)\<rparr>"

definition approval_fields_ok :: "approval \<Rightarrow> bool" where
  "approval_fields_ok a \<longleftrightarrow> nonempty_str (ap_approval_id a) \<and> nonempty_str (ap_tenant_id a) \<and>
     nonempty_str (ap_change_id a) \<and> nonempty_str (ap_plan_id a) \<and> is_sha256_digest (ap_plan_hash a) \<and>
     1 \<le> ap_plan_version a \<and> ap_scope a \<noteq> [] \<and> list_all nonempty_str (ap_scope a) \<and>
     nonempty_str (ap_approved_by a) \<and> ap_approved_by_roles a \<noteq> [] \<and> nonempty_str (ap_comment a)"

definition validate_expiration :: "approval \<Rightarrow> bool" where
  "validate_expiration a \<longleftrightarrow> \<not> ap_expires_at a \<le> ap_approved_at a \<and> distinct (ap_approved_by_roles a) \<and>
     {APPROVER, PLATFORM_ADMIN} \<inter> set (ap_approved_by_roles a) \<noteq> {}"

definition Approval_validate :: "approval \<Rightarrow> approval option" where
  "Approval_validate a = (let a' = strip_approval a in
     if approval_fields_ok a' \<and> validate_expiration a' then Some a' else None)"

definition strip_audit_event :: "audit_event \<Rightarrow> audit_event" where
  "strip_audit_event e = e\<lparr>ae_audit_event_id := strip (ae_audit_event_id e), ae_tenant_id := strip (ae_tenant_id e),
     ae_change_id := strip (ae_change_id e), ae_trace_id := strip (ae_trace_id e),
     ae_event_type := strip (ae_event_type e), ae_actor_id := strip (ae_actor_id e),
     ae_resource := strip (ae_resource e), ae_action := strip (ae_action e),
     ae_decision_id := map_option strip (ae_decision_id e), ae_input_hash := strip (ae_input_hash e),
     ae_output_hash := strip (ae_output_hash e), ae_redacted_summary := strip (ae_redacted_summary e)\<rparr>"

definition audit_event_fields_ok :: "audit_event \<Rightarrow> bool" where
  "audit_event_fields_ok e \<longleftrightarrow> nonempty_str (ae_audit_event_id e) \<and> nonempty_str (ae_tenant_id e) \<and>
     nonempty_str (ae_change_id e) \<and> nonempty_str (ae_trace_id e) \<and> nonempty_str (ae_event_type e) \<and>
     nonempty_str (ae_actor_id e) \<and> nonempty_str (ae_resource e) \<and> nonempty_str (ae_action e) \<and>
     opt_ok nonempty_str (ae_decision_id e) \<and> is_sha256_digest (ae_input_hash e) \<and>
     is_sha256_digest (ae_output_hash e) \<and> nonempty_str (ae_redacted_summary e)"

definition AuditEvent_validate :: "audit_event \<Rightarrow> audit_event option" where
  "AuditEvent_validate e = (let e' = strip_audit_event e in
     if audit_event_fields_ok e' then Some e' else None)"

lemma strip_audit_event_idem [simp]: "strip_audit_event (strip_audit_event e) = strip_audit_event e"
  by (simp add: strip_audit_event_def)

lemma strip_approval_idem [simp]: "strip_approval (strip_approval a) = strip_approval a"
  by (simp add: strip_approval_def)

lemma AuditEvent_validate_idem: "AuditEvent_validate e = Some e' \<Longrightarrow> AuditEvent_validate e' = Some e'"
  by (auto simp: AuditEvent_validate_def Let_def split: if_splits)

lemma Approval_validate_idem: "Approval_validate a = Some a' \<Longrightarrow> Approval_validate a' = Some a'"
  by (auto simp: Approval_validate_def Let_def split: if_splits)

section \<open>Documents, plan hash and derived identifiers\<close>

definition opt_json :: "('a \<Rightarrow> json) \<Rightarrow> 'a option \<Rightarrow> json" where
  "opt_json f x = (case x of None \<Rightarrow> JNull | Some y \<Rightarrow> f y)"

definition strs_json :: "string list \<Rightarrow> json" where
  "strs_json xs = JArr (map JStr xs)"

definition source_json :: "change_source \<Rightarrow> json" where
  "source_json s = JObj [(''type'', JStr (src_type s)), (''external_id'', JStr (src_external_id s)),
     (''url'', JStr (src_url s))]"

definition event_json :: "(instant \<Rightarrow> string) \<Rightarrow> change_event \<Rightarrow> json" where
  "event_json iso_text e = JObj [(''schema_version'', JStr ''1.0''), (''event_id'', JStr (ev_event_id e)),
     (''tenant_id'', JStr (ev_tenant_id e)), (''event_type'', JStr (ev_event_type e)),
     (''source'', source_json (ev_source e)), (''occurred_at'', JStr (iso_text (ev_occurred_at e))),
     (''received_at'', JStr (iso_text (ev_received_at e))),
     (''subject'', JObj [(''system_id'', JStr (sub_system_id (ev_subject e))),
        (''resource_type'', JStr (sub_resource_type (ev_subject e))),
        (''resource_id'', JStr (sub_resource_id (ev_subject e)))]),
     (''change'', JObj [(''summary'', JStr (chg_summary (ev_change e))),
        (''old_version'', JStr (chg_old_version (ev_change e))),
        (''new_version'', JStr (chg_new_version (ev_change e))),
        (''artifact_refs'', strs_json (chg_artifact_refs (ev_change e)))]),
     (''correlation_id'', JStr (ev_correlation_id e)), (''trace_id'', JStr (ev_trace_id e))]"

definition change_record_json :: "(instant \<Rightarrow> string) \<Rightarrow> change_record \<Rightarrow> json" where
  "change_record_json iso_text r = JObj [(''change_id'', JStr (cr_change_id r)),
     (''tenant_id'', JStr (cr_tenant_id r)), (''event_id'', JStr (cr_event_id r)),
     (''change_type'', JStr (cr_change_type r)), (''title'', JStr (cr_title r)),
     (''description'', JStr (cr_description r)), (''source'', source_json (cr_source r)),
     (''environment'', JStr (environment_value (cr_environment r))),
     (''status'', JStr (state_value (cr_status r))), (''risk_level'', JStr (risk_value (cr_risk_level r))),
     (''current_phase'', JStr (state_value (cr_current_phase r))),
     (''workflow_execution_id'', opt_json JStr (cr_workflow_execution_id r)),
     (''plan_version'', JInt (cr_plan_version r)), (''plan_hash'', opt_json JStr (cr_plan_hash r)),
     (''created_at'', JStr (iso_text (cr_created_at r))), (''updated_at'', JStr (iso_text (cr_updated_at r))),
     (''created_by'', JStr (cr_created_by r)), (''version'', JInt (cr_version r))]"

definition step_json :: "remediation_step \<Rightarrow> json" where
  "step_json t = JObj [(''step_id'', JStr (st_step_id t)), (''order'', JInt (st_order t)),
     (''agent_id'', JStr (st_agent_id t)), (''tool_name'', JStr (st_tool_name t)),
     (''resource'', JStr (st_resource t)), (''arguments'', JObj (st_arguments t)),
     (''depends_on'', strs_json (st_depends_on t)), (''risk_level'', JStr (risk_value (st_risk_level t))),
     (''requires_approval'', JBool (st_requires_approval t)),
     (''idempotency_key'', JStr (st_idempotency_key t))]"

definition plan_json :: "(instant \<Rightarrow> string) \<Rightarrow> remediation_plan \<Rightarrow> json" where
  "plan_json iso_text p = JObj [(''plan_id'', JStr (pl_plan_id p)), (''tenant_id'', JStr (pl_tenant_id p)),
     (''change_id'', JStr (pl_change_id p)), (''version'', JInt (pl_version p)),
     (''risk_level'', JStr (risk_value (pl_risk_level p))), (''summary'', JStr (pl_summary p)),
     (''preconditions'', strs_json (pl_preconditions p)), (''steps'', JArr (map step_json (pl_steps p))),
     (''verification_steps'', strs_json (pl_verification_steps p)),
     (''rollback_steps'', strs_json (pl_rollback_steps p)),
     (''evidence_refs'', strs_json (pl_evidence_refs p)), (''created_at'', JStr (iso_text (pl_created_at p)))]"

definition calculate_plan_hash :: "(instant \<Rightarrow> string) \<Rightarrow> remediation_plan \<Rightarrow> string" where
  "calculate_plan_hash iso_text plan = sha256_digest (plan_json iso_text plan)"

definition derive_change_id :: "change_event \<Rightarrow> string" where
  "derive_change_id event = ''chg_'' @ take 24 (removeprefix ''sha256:'' (sha256_digest (JObj
     [(''event_id'', JStr (ev_event_id event)), (''source'', JStr (src_type (ev_source event))),
      (''tenant_id'', JStr (ev_tenant_id event))])))"

definition derive_workflow_id :: "change_event \<Rightarrow> string" where
  "derive_workflow_id event = ''wf_'' @ take 24 (removeprefix ''sha256:'' (sha256_digest (JObj
     [(''correlation_id'', JStr (ev_correlation_id event)), (''event_id'', JStr (ev_event_id event)),
      (''tenant_id'', JStr (ev_tenant_id event))])))"

text \<open>Identifiers made of a fixed prefix and 24 digits of a digest are valid and need no stripping.\<close>

lemma digest_id_ok:
  assumes "p \<noteq> []" "\<not> is_whitespace (hd p)" "length p \<le> 100"
  shows "strip (p @ take 24 (drop 7 (sha256_digest d))) = p @ take 24 (drop 7 (sha256_digest d))"
    "nonempty_str (p @ take 24 (drop 7 (sha256_digest d)))"
proof -
  let ?h = "take 24 (sha256_hex (utf8_encode (canonical_json d)))"
  have h: "take 24 (drop 7 (sha256_digest d)) = ?h" by (simp add: sha256_digest_def)
  have "?h \<noteq> []" by (simp flip: length_0_conv)
  then have "last ?h \<in> set ?h" by (rule last_in_set)
  then have "is_lower_hex (last ?h)" using sha256_hex_lower in_set_takeD by metis
  with assms \<open>?h \<noteq> []\<close> show "strip (p @ take 24 (drop 7 (sha256_digest d))) = p @ take 24 (drop 7 (sha256_digest d))"
    unfolding h by (intro strip_no_ws_ends) (simp_all add: lower_hex_not_ws)
  show "nonempty_str (p @ take 24 (drop 7 (sha256_digest d)))"
    unfolding h nonempty_str_def using assms by (cases p) simp_all
qed

section \<open>The plan hash binds the plan\<close>

lemma sort_keys_get:
  assumes "dict_ok a" "dict_ok b" "sort_keys (JObj a) = sort_keys (JObj b)"
  shows "map_option sort_keys (dget a k) = map_option sort_keys (dget b k)"
proof -
  let ?f = "\<lambda>kv :: string \<times> json. (fst kv, sort_keys (snd kv))"
  have get: "map_of (map ?f d) k = map_option sort_keys (dget d k)" for d :: "(string \<times> json) list"
    by (induction d) (auto simp: dget_def)
  have keys: "map fst (map ?f d) = map fst d" for d :: "(string \<times> json) list"
    by (induction d) auto
  have "sort_key fst (map ?f a) = sort_key fst (map ?f b)" using assms(3) by simp
  then have "set (sort_key fst (map ?f a)) = set (sort_key fst (map ?f b))" by (rule arg_cong)
  then have "set (map ?f a) = set (map ?f b)" by (simp only: set_sort)
  moreover have "distinct (map fst (map ?f a))" "distinct (map fst (map ?f b))"
    using assms(1,2) unfolding keys dict_ok_def .
  ultimately have "map_of (map ?f a) = map_of (map ?f b)" using map_of_inject_set by blast
  then show ?thesis by (simp only: flip: get)
qed

text \<open>Two plans are the same document: equal fields, and arguments equal up to the order of keys.\<close>

definition same_step :: "remediation_step \<Rightarrow> remediation_step \<Rightarrow> bool" where
  "same_step t u \<longleftrightarrow> t\<lparr>st_arguments := []\<rparr> = u\<lparr>st_arguments := []\<rparr> \<and>
     sort_keys (JObj (st_arguments t)) = sort_keys (JObj (st_arguments u))"

definition same_plan :: "remediation_plan \<Rightarrow> remediation_plan \<Rightarrow> bool" where
  "same_plan p q \<longleftrightarrow> p\<lparr>pl_steps := []\<rparr> = q\<lparr>pl_steps := []\<rparr> \<and> list_all2 same_step (pl_steps p) (pl_steps q)"

lemma strs_json_inj: "sort_keys (strs_json xs) = sort_keys (strs_json ys) \<Longrightarrow> xs = ys"
proof -
  assume "sort_keys (strs_json xs) = sort_keys (strs_json ys)"
  then have "map JStr xs = map JStr ys" by (simp add: strs_json_def comp_def)
  then show "xs = ys" by (simp add: inj_map_eq_map inj_def)
qed

lemma step_json_inj:
  assumes "sort_keys (step_json t) = sort_keys (step_json u)"
  shows "same_step t u"
proof -
  have "dict_ok (case step_json t of JObj d \<Rightarrow> d)" for t by (simp add: step_json_def dict_ok_def)
  then have ok: "\<exists>d e. step_json t = JObj d \<and> step_json u = JObj e \<and> dict_ok d \<and> dict_ok e"
    by (metis step_json_def json.case(6))
  then obtain d e where de: "step_json t = JObj d" "step_json u = JObj e" "dict_ok d" "dict_ok e" by blast
  have get: "map_option sort_keys (dget d k) = map_option sort_keys (dget e k)" for k
    using sort_keys_get [OF de(3,4)] assms de(1,2) by simp
  have d: "d = (case step_json t of JObj x \<Rightarrow> x)" and e: "e = (case step_json u of JObj x \<Rightarrow> x)"
    using de by simp_all
  note get' = get [unfolded d e step_json_def json.case]
  show ?thesis
    unfolding same_step_def
    using get' [of "''step_id''"] get' [of "''order''"] get' [of "''agent_id''"] get' [of "''tool_name''"]
      get' [of "''resource''"] get' [of "''arguments''"] get' [of "''depends_on''"] get' [of "''risk_level''"]
      get' [of "''requires_approval''"] get' [of "''idempotency_key''"]
    by (cases t; cases u) (auto simp: dget_Cons simp del: sort_keys.simps(2) dest!: risk_value_inj strs_json_inj)
qed

lemma steps_json_inj:
  "sort_keys (JArr (map step_json ts)) = sort_keys (JArr (map step_json us)) \<Longrightarrow> list_all2 same_step ts us"
proof (induction ts arbitrary: us)
  case Nil
  then show ?case by simp
next
  case (Cons t ts)
  then show ?case by (cases us) (auto dest: step_json_inj)
qed

lemma plan_json_inj:
  assumes "inj iso_text" "sort_keys (plan_json iso_text p) = sort_keys (plan_json iso_text q)"
  shows "same_plan p q"
proof -
  have ok: "dict_ok (case plan_json iso_text p of JObj d \<Rightarrow> d)" for p
    by (simp add: plan_json_def dict_ok_def)
  have obj: "plan_json iso_text p = JObj (case plan_json iso_text p of JObj d \<Rightarrow> d)" for p
    by (simp add: plan_json_def)
  have get: "map_option sort_keys (dget (case plan_json iso_text p of JObj d \<Rightarrow> d) k) =
      map_option sort_keys (dget (case plan_json iso_text q of JObj d \<Rightarrow> d) k)" for k
    by (rule sort_keys_get [OF ok ok]) (use assms(2) obj in metis)
  note get' = get [unfolded plan_json_def json.case]
  show ?thesis
    unfolding same_plan_def
    using assms(1) get' [of "''plan_id''"] get' [of "''tenant_id''"] get' [of "''change_id''"]
      get' [of "''version''"] get' [of "''risk_level''"] get' [of "''summary''"] get' [of "''preconditions''"]
      get' [of "''steps''"] get' [of "''verification_steps''"] get' [of "''rollback_steps''"]
      get' [of "''evidence_refs''"] get' [of "''created_at''"]
    by (cases p; cases q) (auto simp: dget_Cons inj_eq simp del: sort_keys.simps(1,2)
        dest!: risk_value_inj strs_json_inj steps_json_inj)
qed

lemma plan_hash_binds:
  assumes "inj iso_text" "calculate_plan_hash iso_text p = calculate_plan_hash iso_text q"
  shows "same_plan p q \<or> sha256_collision (utf8_encode (canonical_json (plan_json iso_text p)))
    (utf8_encode (canonical_json (plan_json iso_text q)))"
  using sha256_digest_binds [OF assms(2) [unfolded calculate_plan_hash_def]] plan_json_inj [OF assms(1)] by blast

lemma same_step_json: "same_step t u \<Longrightarrow> sort_keys (step_json t) = sort_keys (step_json u)"
  by (cases t; cases u) (simp add: same_step_def step_json_def)

lemma same_steps_json: "list_all2 same_step ts us \<Longrightarrow>
    map (sort_keys \<circ> step_json) ts = map (sort_keys \<circ> step_json) us"
  by (induction rule: list_all2_induct) (simp_all add: same_step_json)

lemma same_plan_json: "same_plan p q \<Longrightarrow> sort_keys (plan_json iso_text p) = sort_keys (plan_json iso_text q)"
  by (cases p; cases q) (auto simp: same_plan_def plan_json_def dest!: same_steps_json)

text \<open>
  C38. The plan hash binds the exact plan. Plans that are the same document (equal in every field, tool
  arguments compared without regard to the order of keys) have the same hash; and two plans with the
  same hash are the same document, unless their canonical bytes are an explicit SHA-256 collision. The
  only assumption is that the textual form of a timestamp determines it.
\<close>

theorem plan_hash_exact:
  assumes "inj iso_text"
  shows "(same_plan p q \<longrightarrow> calculate_plan_hash iso_text p = calculate_plan_hash iso_text q) \<and>
    (calculate_plan_hash iso_text p = calculate_plan_hash iso_text q \<longrightarrow> same_plan p q \<or>
      sha256_collision (utf8_encode (canonical_json (plan_json iso_text p)))
        (utf8_encode (canonical_json (plan_json iso_text q))))"
  using plan_hash_binds [OF assms, of p q] sha256_digest_sort_keys [OF same_plan_json, of p q iso_text]
  by (auto simp: calculate_plan_hash_def)

text \<open>A timestamp text and a plan on which the properties are exercised.\<close>

definition demo_iso :: "instant \<Rightarrow> string" where
  "demo_iso t = int_str t"

lemma demo_iso_inj: "inj demo_iso"
  unfolding inj_def demo_iso_def using int_str_prefix [of _ "[]" _ "[]"] by auto

definition demo_step :: "string \<Rightarrow> int \<Rightarrow> string list \<Rightarrow> remediation_step" where
  "demo_step i n deps = \<lparr>st_step_id = i, st_order = n, st_agent_id = ''crm'',
     st_tool_name = ''crm.update_field_mapping'', st_resource = ''crm://tenant/t1/configuration/lead'',
     st_arguments = [(''old_field'', JStr ''lead_name''), (''new_field'', JStr ''full_name'')], st_depends_on = deps,
     st_risk_level = RL_HIGH, st_requires_approval = True, st_idempotency_key = ''key-'' @ i\<rparr>"

definition demo_plan :: remediation_plan where
  "demo_plan = \<lparr>pl_plan_id = ''p1'', pl_tenant_id = ''t1'', pl_change_id = ''c1'', pl_version = 1,
     pl_risk_level = RL_HIGH, pl_summary = ''plan'', pl_preconditions = [],
     pl_steps = [demo_step ''s1'' 1 [], demo_step ''s2'' 2 [''s1'']], pl_verification_steps = [''verify''],
     pl_rollback_steps = [''restore''], pl_evidence_refs = [''ev1''], pl_created_at = 0\<rparr>"

definition demo_plan_reordered :: remediation_plan where
  "demo_plan_reordered = demo_plan\<lparr>pl_steps := map (\<lambda>t. t\<lparr>st_arguments := rev (st_arguments t)\<rparr>) (pl_steps demo_plan)\<rparr>"

theorem plan_hash_exact_witness:
  "calculate_plan_hash demo_iso demo_plan = calculate_plan_hash demo_iso demo_plan_reordered"
proof -
  have "same_plan demo_plan demo_plan_reordered"
    by (simp add: same_plan_def demo_plan_def demo_plan_reordered_def demo_step_def same_step_def)
  with plan_hash_exact [OF demo_iso_inj, of demo_plan demo_plan_reordered] show ?thesis by blast
qed

definition dependency_edges :: "remediation_plan \<Rightarrow> (string \<times> string) set" where
  "dependency_edges p = {(d, st_step_id t) | d t. t \<in> set (pl_steps p) \<and> d \<in> set (st_depends_on t)}"

lemma dependency_edges_rank:
  assumes "validate_step_graph p" "(d, i) \<in> (dependency_edges p)\<^sup>+"
  shows "\<exists>u t. u \<in> set (pl_steps p) \<and> t \<in> set (pl_steps p) \<and> st_step_id u = d \<and> st_step_id t = i \<and> st_order u < st_order t"
  using assms(2)
proof (induction rule: trancl_induct)
  case (base i)
  then obtain t where "t \<in> set (pl_steps p)" "d \<in> set (st_depends_on t)" "st_step_id t = i"
    by (auto simp: dependency_edges_def)
  with step_graph_dependency [OF assms(1) this(1,2)] show ?case by metis
next
  case (step i j)
  then obtain u t where ut: "u \<in> set (pl_steps p)" "t \<in> set (pl_steps p)" "st_step_id u = d" "st_step_id t = i"
    "st_order u < st_order t" by blast
  from step.hyps(2) obtain v where v: "v \<in> set (pl_steps p)" "i \<in> set (st_depends_on v)" "st_step_id v = j"
    by (auto simp: dependency_edges_def)
  from step_graph_dependency [OF assms(1) v(1,2)] obtain w where
    w: "w \<in> set (pl_steps p)" "st_step_id w = i" "st_order w < st_order v" .
  have "w = t"
    using inj_onD [OF distinct_map [THEN iffD1, THEN conjunct2, OF step_graph_distinct(1) [OF assms(1)]]] w ut by auto
  with ut v w show ?case by force
qed

text \<open>
  C39. A validated plan is an executable graph: step identifiers are unique, the order numbers are exactly
  1 to the number of steps, every dependency names a step of the plan that comes earlier, and the
  dependency relation between step identifiers is acyclic.
\<close>

theorem validated_plan_acyclic:
  assumes "RemediationPlan_validate p = Some q"
  shows "distinct (map st_step_id (pl_steps q)) \<and> st_order ` set (pl_steps q) = {1..int (length (pl_steps q))} \<and>
    (\<forall>t \<in> set (pl_steps q). \<forall>d \<in> set (st_depends_on t).
       \<exists>u \<in> set (pl_steps q). st_step_id u = d \<and> st_order u < st_order t) \<and>
    acyclic (dependency_edges q)"
proof -
  have g: "validate_step_graph q" by (rule plan_okD(3) [OF RemediationPlan_validate_ok [OF assms]])
  have "(d, d) \<notin> (dependency_edges q)\<^sup>+" for d
  proof
    assume "(d, d) \<in> (dependency_edges q)\<^sup>+"
    from dependency_edges_rank [OF g this] obtain u t where
      "u \<in> set (pl_steps q)" "t \<in> set (pl_steps q)" "st_step_id u = st_step_id t" "st_order u < st_order t" by auto
    with inj_onD [OF distinct_map [THEN iffD1, THEN conjunct2, OF step_graph_distinct(1) [OF g]]]
    show False by force
  qed
  moreover have "\<exists>u \<in> set (pl_steps q). st_step_id u = d \<and> st_order u < st_order t"
    if "t \<in> set (pl_steps q)" "d \<in> set (st_depends_on t)" for t d
    using step_graph_dependency [OF g that] by metis
  ultimately show ?thesis
    using step_graph_distinct(1) [OF g] step_graph_orders [OF g] by (simp add: acyclic_def)
qed

theorem validated_plan_acyclic_witness: "acyclic (dependency_edges demo_plan)"
proof -
  have "RemediationPlan_validate demo_plan = Some demo_plan" by code_simp
  from validated_plan_acyclic [OF this] show ?thesis by blast
qed

end
