(* ===== verification/Policy.thy ===== *)
theory Policy
  imports Contracts
begin

text \<open>
  \<^verbatim>\<open>packages/policy-engine/src/changeops_policy_engine\<close>: the verified identity and tool registration
  of \<^verbatim>\<open>models.py\<close>, the closed registry of \<^verbatim>\<open>registry.py\<close> and \<^verbatim>\<open>PolicyEngine.evaluate\<close> of
  \<^verbatim>\<open>engine.py\<close>, with the parts of the standard library it uses: \<^verbatim>\<open>fnmatch.fnmatchcase\<close>,
  \<^verbatim>\<open>str.format\<close> with the one field the patterns use, and equality of JSON values.
\<close>

section \<open>Shell patterns\<close>

text \<open>
  A character class \<^verbatim>\<open>[...]\<close> of \<^verbatim>\<open>fnmatch\<close>: the text up to the closing bracket, where a bracket
  directly after the opening (or after the negation mark) does not close. Without a closing bracket
  the opening one is an ordinary character.
\<close>

fun until_bracket :: "string \<Rightarrow> (string \<times> string) option" where
  "until_bracket [] = None"
| "until_bracket (c # p) = (if c = CHR '']'' then Some ([], p)
     else map_option (\<lambda>(stuff, rest). (c # stuff, rest)) (until_bracket p))"

definition after_mark :: "string \<Rightarrow> (string \<times> string) option" where
  "after_mark p = (case p of
     c # q \<Rightarrow> if c = CHR '']'' then map_option (\<lambda>(stuff, rest). (c # stuff, rest)) (until_bracket q)
              else until_bracket p
   | [] \<Rightarrow> None)"

definition split_bracket :: "string \<Rightarrow> (bool \<times> string \<times> string) option" where
  "split_bracket p = (case p of
     c # q \<Rightarrow> if c = CHR ''!'' then map_option (\<lambda>(stuff, rest). (True, stuff, rest)) (after_mark q)
              else map_option (\<lambda>(stuff, rest). (False, stuff, rest)) (after_mark p)
   | [] \<Rightarrow> None)"

fun in_class :: "string \<Rightarrow> char \<Rightarrow> bool" where
  "in_class [] x = False"
| "in_class (a # m # b # rest) x = (if m = CHR ''-'' then (a \<le> x \<and> x \<le> b) \<or> in_class rest x
     else x = a \<or> in_class (m # b # rest) x)"
| "in_class (a # rest) x = (x = a \<or> in_class rest x)"

lemma until_bracket_length: "until_bracket p = Some (stuff, rest) \<Longrightarrow> length rest < length p"
  by (induction p arbitrary: stuff rest) (auto split: if_splits intro: less_SucI)

lemma after_mark_length: "after_mark p = Some (stuff, rest) \<Longrightarrow> length rest < length p"
  by (auto simp: after_mark_def split: list.splits if_splits dest!: until_bracket_length)

lemma split_bracket_length: "split_bracket p = Some (neg, stuff, rest) \<Longrightarrow> length rest < length p"
  by (auto simp: split_bracket_def split: list.splits if_splits dest!: after_mark_length)

function fnmatch :: "string \<Rightarrow> string \<Rightarrow> bool" where
  "fnmatch [] name = (name = [])"
| "fnmatch (c # p) name =
    (if c = CHR ''*'' then fnmatch p name \<or> (case name of [] \<Rightarrow> False | _ # t \<Rightarrow> fnmatch (c # p) t)
     else case name of [] \<Rightarrow> False | x # t \<Rightarrow>
       if c = CHR ''?'' then fnmatch p t
       else if c = CHR ''['' then (case split_bracket p of
           None \<Rightarrow> x = c \<and> fnmatch p t
         | Some (neg, stuff, rest) \<Rightarrow> in_class stuff x \<noteq> neg \<and> fnmatch rest t)
       else x = c \<and> fnmatch p t)"
  by pat_completeness auto
termination
  by (relation "measure (\<lambda>(p, name). length p + length name)") (auto dest: split_bracket_length)

definition glob_free :: "string \<Rightarrow> bool" where
  "glob_free p \<longleftrightarrow> list_all (\<lambda>c. c \<noteq> CHR ''*'' \<and> c \<noteq> CHR ''?'' \<and> c \<noteq> CHR ''['') p"

lemma fnmatch_literal: "glob_free p \<Longrightarrow> fnmatch (p @ q) name \<longleftrightarrow> (\<exists>t. name = p @ t \<and> fnmatch q t)"
  by (induction p arbitrary: name) (auto simp: glob_free_def split: list.splits)

lemma fnmatch_star_any: "fnmatch ''*'' t"
  by (induction t) auto

lemma fnmatch_prefix: "glob_free p \<Longrightarrow> fnmatch (p @ ''*'') name \<longleftrightarrow> prefix p name"
  by (auto simp: fnmatch_literal prefix_def fnmatch_star_any simp del: fnmatch.simps)

section \<open>Resource patterns and JSON equality\<close>

text \<open>
  \<^verbatim>\<open>pattern.format(tenant_id=...)\<close> for patterns whose only replacement field is \<^verbatim>\<open>{tenant_id}\<close>;
  doubled braces are literal ones, and any other brace is an error.
\<close>

fun format_tenant :: "string \<Rightarrow> string \<Rightarrow> string option" where
  "format_tenant t [] = Some []"
| "format_tenant t (c # p) =
    (if c = CHR ''{'' then
       (if prefix ''{'' p then map_option (Cons c) (format_tenant t (drop 1 p))
        else if prefix ''tenant_id}'' p then map_option ((@) t) (format_tenant t (drop 10 p))
        else None)
     else if c = CHR ''}'' then
       (if prefix ''}'' p then map_option (Cons c) (format_tenant t (drop 1 p)) else None)
     else map_option (Cons c) (format_tenant t p))"

text \<open>Python's \<^verbatim>\<open>==\<close> on JSON values: dictionaries without regard to order, and booleans as numbers.\<close>

definition py_num :: "json \<Rightarrow> int option" where
  "py_num j = (case j of JInt i \<Rightarrow> Some i | JBool b \<Rightarrow> Some (if b then 1 else 0) | _ \<Rightarrow> None)"

function (sequential) py_eq :: "json \<Rightarrow> json \<Rightarrow> bool" where
  "py_eq (JArr xs) (JArr ys) \<longleftrightarrow> length xs = length ys \<and> (\<forall>(x, y) \<in> set (zip xs ys). py_eq x y)"
| "py_eq (JObj a) (JObj b) \<longleftrightarrow> length a = length b \<and>
     (\<forall>(k, v) \<in> set a. case dget b k of None \<Rightarrow> False | Some w \<Rightarrow> py_eq v w)"
| "py_eq (JStr s) (JStr t) \<longleftrightarrow> s = t"
| "py_eq JNull JNull \<longleftrightarrow> True"
| "py_eq i j \<longleftrightarrow> py_num i \<noteq> None \<and> py_num i = py_num j"
  by pat_completeness auto

lemma size_json_mem: "x \<in> set xs \<Longrightarrow> size x < size (JArr xs)"
  by (induction xs) auto

lemma size_json_val: "(k, v) \<in> set kvs \<Longrightarrow> size v < size (JObj kvs)"
  by (induction kvs) auto

termination py_eq
  by (relation "measure (\<lambda>(a, b). size a)")
    (auto dest!: set_zip_leftD size_json_mem size_json_val)

section \<open>Identities and tool registrations\<close>

datatype identity_kind = Kind_AGENT | Kind_SERVICE | Kind_USER

record verified_identity =
  id_subject :: string
  id_tenant_id :: string
  id_kind :: identity_kind
  id_roles :: "user_role list"
  id_audience :: string
  id_issued_at :: instant
  id_expires_at :: instant

definition validate_claims :: "verified_identity \<Rightarrow> bool" where
  "validate_claims i \<longleftrightarrow> \<not> id_expires_at i \<le> id_issued_at i \<and> distinct (id_roles i) \<and>
     \<not> (id_kind i \<noteq> Kind_USER \<and> id_roles i \<noteq> [])"

definition VerifiedIdentity_validate :: "verified_identity \<Rightarrow> verified_identity option" where
  "VerifiedIdentity_validate i = (let i' = i\<lparr>id_subject := strip (id_subject i), id_tenant_id := strip (id_tenant_id i),
       id_audience := strip (id_audience i)\<rparr> in
     if nonempty_str (id_subject i') \<and> nonempty_str (id_tenant_id i') \<and> nonempty_str (id_audience i') \<and>
        validate_claims i' then Some i' else None)"

text \<open>The timeout is kept in microseconds.\<close>

record tool_registration =
  tr_tool_name :: string
  tr_owning_agent_id :: string
  tr_action :: string
  tr_resource_pattern :: string
  tr_risk_level :: risk_level
  tr_mutating :: bool
  tr_allowed_environments :: "change_environment list"
  tr_policy_ids :: "string list"
  tr_timeout :: int

definition validate_registration :: "tool_registration \<Rightarrow> bool" where
  "validate_registration t \<longleftrightarrow>
     \<not> (CHR ''*'' \<in> set (tr_tool_name t) \<or> tr_tool_name t \<in> {''execute_sql'', ''run_shell'', ''fetch_url''}) \<and>
     \<not> (tr_mutating t \<and> Env_SANDBOX \<notin> set (tr_allowed_environments t)) \<and> distinct (tr_policy_ids t)"

definition ToolRegistration_validate :: "tool_registration \<Rightarrow> tool_registration option" where
  "ToolRegistration_validate t = (let t' = t\<lparr>tr_tool_name := strip (tr_tool_name t),
       tr_owning_agent_id := strip (tr_owning_agent_id t), tr_action := strip (tr_action t),
       tr_resource_pattern := strip (tr_resource_pattern t), tr_policy_ids := map strip (tr_policy_ids t)\<rparr> in
     if nonempty_str (tr_tool_name t') \<and> nonempty_str (tr_owning_agent_id t') \<and> nonempty_str (tr_action t') \<and>
        nonempty_str (tr_resource_pattern t') \<and> tr_allowed_environments t' \<noteq> [] \<and> tr_policy_ids t' \<noteq> [] \<and>
        list_all nonempty_str (tr_policy_ids t') \<and> 0 < tr_timeout t' \<and> tr_timeout t' \<le> seconds 60 \<and>
        validate_registration t' then Some t' else None)"

type_synonym tool_registry = "(string, tool_registration) dict"

definition ToolRegistry :: "tool_registration list \<Rightarrow> tool_registry option" where
  "ToolRegistry registrations = (let by_name = dict_of tr_tool_name registrations in
     if length by_name \<noteq> length registrations then None else Some by_name)"

definition registry_get :: "tool_registry \<Rightarrow> string \<Rightarrow> tool_registration option" where
  "registry_get by_name tool_name = dget by_name tool_name"

definition registry_list :: "tool_registry \<Rightarrow> tool_registration list" where
  "registry_list by_name = List.map_filter (dget by_name) (sort (map fst by_name))"

definition default_registration :: "string \<Rightarrow> string \<Rightarrow> string \<Rightarrow> string \<Rightarrow> tool_registration" where
  "default_registration tool_name owning_agent_id resource_pattern policy_id =
     \<lparr>tr_tool_name = tool_name, tr_owning_agent_id = owning_agent_id, tr_action = ''update'',
       tr_resource_pattern = resource_pattern, tr_risk_level = RL_HIGH, tr_mutating = True,
       tr_allowed_environments = [Env_SANDBOX], tr_policy_ids = [policy_id], tr_timeout = seconds 10\<rparr>"

definition build_default_tool_registry :: "tool_registry option" where
  "build_default_tool_registry = ToolRegistry
     [default_registration ''crm.update_field_mapping'' ''crm''
        ''crm://tenant/{tenant_id}/configuration/*'' ''crm-sandbox-write-v1'',
      default_registration ''analytics.update_field_mapping'' ''analytics''
        ''analytics://tenant/{tenant_id}/configuration/*'' ''analytics-sandbox-write-v1'',
      default_registration ''support.update_lookup_field'' ''support''
        ''support://tenant/{tenant_id}/configuration/*'' ''support-sandbox-write-v1'']"

section \<open>The policy engine\<close>

fun risk_order :: "risk_level \<Rightarrow> nat" where
  "risk_order RL_UNKNOWN = 0" | "risk_order RL_LOW = 1" | "risk_order RL_MEDIUM = 2"
| "risk_order RL_HIGH = 3" | "risk_order RL_CRITICAL = 4"

definition max_risk :: "risk_level \<Rightarrow> risk_level \<Rightarrow> risk_level" where
  "max_risk a b = (if risk_order a < risk_order b then b else a)"

definition approval_valid ::
  "(instant \<Rightarrow> string) \<Rightarrow> approval option \<Rightarrow> tool_intent \<Rightarrow> change_record \<Rightarrow> remediation_plan \<Rightarrow> instant \<Rightarrow> bool" where
  "approval_valid iso_text approval intent change plan evaluated_at = (case approval of
     None \<Rightarrow> False
   | Some ap \<Rightarrow>
       ap_decision ap = AD_APPROVED \<and> ap_tenant_id ap = ti_tenant_id intent \<and>
       ap_change_id ap = ti_change_id intent \<and>
       (ap_plan_id ap = ti_plan_id intent \<and> ti_plan_id intent = pl_plan_id plan) \<and>
       (ap_plan_hash ap = ti_plan_hash intent \<and> ti_plan_hash intent = calculate_plan_hash iso_text plan) \<and>
       (ap_plan_version ap = pl_version plan \<and> pl_version plan = cr_plan_version change) \<and>
       ap_environment ap = cr_environment change \<and> ti_step_id intent \<in> set (ap_scope ap) \<and>
       evaluated_at < ap_expires_at ap \<and> ap_approved_at ap \<le> evaluated_at \<and>
       {APPROVER, PLATFORM_ADMIN} \<inter> set (ap_approved_by_roles ap) \<noteq> {} \<and>
       ap_approved_by ap \<noteq> ti_agent_identity intent)"

text \<open>\<^verbatim>\<open>if condition: failures.append(message)\<close>.\<close>

definition fail_if :: "bool \<Rightarrow> string \<Rightarrow> string list" where
  "fail_if condition message = (if condition then [message] else [])"

definition scope_failures ::
  "(instant \<Rightarrow> string) \<Rightarrow> verified_identity \<Rightarrow> tool_intent \<Rightarrow> change_record \<Rightarrow> remediation_plan \<Rightarrow> instant \<Rightarrow> string list" where
  "scope_failures iso_text identity intent change plan evaluated_at =
     fail_if (id_expires_at identity \<le> evaluated_at) ''Authenticated identity is expired.'' @
     fail_if (id_kind identity \<noteq> Kind_AGENT) ''Only an authenticated agent may submit a tool intent.'' @
     fail_if (id_subject identity \<noteq> ti_agent_identity intent)
       ''Intent identity does not match the authenticated caller.'' @
     fail_if (id_tenant_id identity \<noteq> ti_tenant_id intent)
       ''Intent tenant does not match the authenticated caller.'' @
     fail_if (cr_tenant_id change \<noteq> ti_tenant_id intent \<or> cr_change_id change \<noteq> ti_change_id intent)
       ''Intent does not match the authoritative change scope.'' @
     fail_if (cr_workflow_execution_id change \<noteq> Some (ti_workflow_execution_id intent))
       ''Intent does not match the active workflow execution.'' @
     fail_if (cr_status change \<noteq> WS_EXECUTING) ''Workflow state does not permit tool execution.'' @
     fail_if (cr_plan_version change \<noteq> pl_version plan \<or> cr_plan_hash change \<noteq> Some (ti_plan_hash intent))
       ''Intent does not match the authoritative change plan.'' @
     fail_if (pl_tenant_id plan \<noteq> ti_tenant_id intent \<or> pl_change_id plan \<noteq> ti_change_id intent)
       ''Plan does not match the intent scope.'' @
     fail_if (pl_plan_id plan \<noteq> ti_plan_id intent \<or> calculate_plan_hash iso_text plan \<noteq> ti_plan_hash intent)
       ''Plan identifier or canonical hash does not match the intent.''"

definition step_failures :: "remediation_step option \<Rightarrow> tool_intent \<Rightarrow> tool_registration \<Rightarrow> string list" where
  "step_failures step intent tool = (case step of
     None \<Rightarrow> [''Intent step is not present in the approved plan.'']
   | Some st \<Rightarrow>
       fail_if (st_agent_id st \<noteq> ti_agent_identity intent)
         ''Intent agent does not own the selected plan step.'' @
       fail_if (st_tool_name st \<noteq> ti_tool_name intent \<or> st_tool_name st \<noteq> tr_tool_name tool)
         ''Intent tool does not match the selected plan step.'' @
       fail_if (st_resource st \<noteq> ti_resource intent)
         ''Intent resource does not match the selected plan step.'' @
       fail_if (\<not> py_eq (JObj (st_arguments st)) (JObj (ti_arguments intent)))
         ''Intent arguments do not match the selected plan step.'' @
       fail_if (st_idempotency_key st \<noteq> ti_idempotency_key intent)
         ''Intent idempotency key does not match the selected plan step.'')"

definition tool_failures ::
  "tool_registration \<Rightarrow> tool_intent \<Rightarrow> change_record \<Rightarrow> string \<Rightarrow> risk_level \<Rightarrow> string list" where
  "tool_failures tool intent change expected_resource computed_risk =
     fail_if (tr_owning_agent_id tool \<noteq> ti_agent_identity intent)
       ''Agent is not authorized for this registered tool.'' @
     fail_if (tr_action tool \<noteq> ti_action intent)
       ''Intent action does not match the registered tool action.'' @
     fail_if (\<not> fnmatch expected_resource (ti_resource intent))
       ''Intent resource is outside the registered agent scope.'' @
     fail_if (cr_environment change \<notin> set (tr_allowed_environments tool))
       ''Tool is not allowed in the authoritative change environment.'' @
     fail_if (computed_risk = RL_CRITICAL) ''Critical-risk mutations are disabled in this build.''"

definition plan_step :: "remediation_plan \<Rightarrow> string \<Rightarrow> remediation_step option" where
  "plan_step plan step_id = find (\<lambda>candidate. st_step_id candidate = step_id) (pl_steps plan)"

text \<open>
  \<^verbatim>\<open>PolicyEngine.evaluate\<close>; the random part of the decision identifier is an argument, and
  \<^const>\<open>None\<close> is the exception of \<^verbatim>\<open>str.format\<close> on a malformed registered pattern.
\<close>

definition evaluate ::
  "(instant \<Rightarrow> string) \<Rightarrow> verified_identity \<Rightarrow> tool_intent \<Rightarrow> change_record \<Rightarrow> remediation_plan \<Rightarrow>
   tool_registration \<Rightarrow> approval option \<Rightarrow> instant \<Rightarrow> string \<Rightarrow> policy_decision option" where
  "evaluate iso_text identity intent change plan tool approval evaluated_at hex =
    (let step = plan_step plan (ti_step_id intent);
         step_risk = (case step of None \<Rightarrow> RL_UNKNOWN | Some st \<Rightarrow> st_risk_level st);
         approval_required = (case step of None \<Rightarrow> tr_mutating tool
           | Some st \<Rightarrow> st_requires_approval st \<or> tr_mutating tool);
         computed_risk = max_risk (tr_risk_level tool) step_risk
     in case format_tenant (ti_tenant_id intent) (tr_resource_pattern tool) of
       None \<Rightarrow> None
     | Some expected_resource \<Rightarrow>
        (let effect1 = (if cr_environment change \<notin> set (tr_allowed_environments tool) \<and> tr_mutating tool
               then BLOCK_SECURITY else DENY);
             effect2 = (if computed_risk = RL_CRITICAL then BLOCK_SECURITY else effect1);
             valid = approval_valid iso_text approval intent change plan evaluated_at;
             effect3 = (if approval_required \<and> \<not> valid \<and> effect2 \<noteq> BLOCK_SECURITY
               then REQUIRE_APPROVAL else effect2);
             failures = scope_failures iso_text identity intent change plan evaluated_at @
               step_failures step intent tool @
               tool_failures tool intent change expected_resource computed_risk @
               fail_if (approval_required \<and> \<not> valid) ''A current exact-plan approval is required for this step.''
         in Some \<lparr>pd_decision_id = ''decision_'' @ hex, pd_tenant_id = ti_tenant_id intent,
              pd_intent_id = ti_intent_id intent, pd_effect = (if failures = [] then ALLOW else effect3),
              pd_computed_risk = computed_risk, pd_approval_required = approval_required,
              pd_approval_valid = valid, pd_matched_policy_ids = tr_policy_ids tool,
              pd_reasons = (if failures = [] then
                [''Authenticated agent, tenant, tool, resource, workflow, and plan scope match.'',
                 ''Exact-plan approval is current and covers the selected step.''] else failures),
              pd_evaluated_at = evaluated_at\<rparr>))"

section \<open>What an ALLOW means\<close>

text \<open>The conditions under which the engine means to allow an intent, stated without the message list.\<close>

definition caller_authentic :: "verified_identity \<Rightarrow> tool_intent \<Rightarrow> instant \<Rightarrow> bool" where
  "caller_authentic identity intent now \<longleftrightarrow> now < id_expires_at identity \<and> id_kind identity = Kind_AGENT \<and>
     id_subject identity = ti_agent_identity intent \<and> id_tenant_id identity = ti_tenant_id intent"

definition change_executing :: "tool_intent \<Rightarrow> change_record \<Rightarrow> remediation_plan \<Rightarrow> bool" where
  "change_executing intent change plan \<longleftrightarrow> cr_tenant_id change = ti_tenant_id intent \<and>
     cr_change_id change = ti_change_id intent \<and>
     cr_workflow_execution_id change = Some (ti_workflow_execution_id intent) \<and>
     cr_status change = WS_EXECUTING \<and> cr_plan_version change = pl_version plan \<and>
     cr_plan_hash change = Some (ti_plan_hash intent)"

definition plan_bound :: "(instant \<Rightarrow> string) \<Rightarrow> tool_intent \<Rightarrow> remediation_plan \<Rightarrow> bool" where
  "plan_bound iso_text intent plan \<longleftrightarrow> pl_tenant_id plan = ti_tenant_id intent \<and>
     pl_change_id plan = ti_change_id intent \<and> pl_plan_id plan = ti_plan_id intent \<and>
     calculate_plan_hash iso_text plan = ti_plan_hash intent"

definition step_matches :: "remediation_step \<Rightarrow> tool_intent \<Rightarrow> tool_registration \<Rightarrow> bool" where
  "step_matches st intent tool \<longleftrightarrow> st_agent_id st = ti_agent_identity intent \<and>
     st_tool_name st = ti_tool_name intent \<and> tr_tool_name tool = ti_tool_name intent \<and>
     st_resource st = ti_resource intent \<and> py_eq (JObj (st_arguments st)) (JObj (ti_arguments intent)) \<and>
     st_idempotency_key st = ti_idempotency_key intent"

definition tool_in_scope :: "tool_registration \<Rightarrow> tool_intent \<Rightarrow> change_record \<Rightarrow> bool" where
  "tool_in_scope tool intent change \<longleftrightarrow> tr_owning_agent_id tool = ti_agent_identity intent \<and>
     tr_action tool = ti_action intent \<and> cr_environment change \<in> set (tr_allowed_environments tool) \<and>
     (\<exists>r. format_tenant (ti_tenant_id intent) (tr_resource_pattern tool) = Some r \<and> fnmatch r (ti_resource intent))"

definition authorized ::
  "(instant \<Rightarrow> string) \<Rightarrow> verified_identity \<Rightarrow> tool_intent \<Rightarrow> change_record \<Rightarrow> remediation_plan \<Rightarrow>
   tool_registration \<Rightarrow> approval option \<Rightarrow> instant \<Rightarrow> bool" where
  "authorized iso_text identity intent change plan tool approval now \<longleftrightarrow>
     caller_authentic identity intent now \<and> change_executing intent change plan \<and>
     plan_bound iso_text intent plan \<and>
     (\<exists>st. plan_step plan (ti_step_id intent) = Some st \<and> step_matches st intent tool \<and>
        tr_risk_level tool \<noteq> RL_CRITICAL \<and> st_risk_level st \<noteq> RL_CRITICAL \<and>
        (st_requires_approval st \<or> tr_mutating tool \<longrightarrow>
           approval_valid iso_text approval intent change plan now)) \<and>
     tool_in_scope tool intent change"

lemma fail_if_Nil [simp]: "fail_if c m = [] \<longleftrightarrow> \<not> c"
  by (simp add: fail_if_def)

lemma max_risk_critical: "max_risk a b = RL_CRITICAL \<longleftrightarrow> a = RL_CRITICAL \<or> b = RL_CRITICAL"
  by (cases a; cases b) (simp_all add: max_risk_def)

lemma scope_failures_Nil:
  "scope_failures iso_text identity intent change plan now = [] \<longleftrightarrow>
     caller_authentic identity intent now \<and> change_executing intent change plan \<and> plan_bound iso_text intent plan"
  by (auto simp: scope_failures_def caller_authentic_def change_executing_def plan_bound_def)

lemma step_failures_Nil:
  "step_failures step intent tool = [] \<longleftrightarrow> (\<exists>st. step = Some st \<and> step_matches st intent tool)"
  by (auto simp: step_failures_def step_matches_def split: option.split)

lemma tool_failures_Nil:
  "format_tenant (ti_tenant_id intent) (tr_resource_pattern tool) = Some r \<Longrightarrow>
   tool_failures tool intent change r risk = [] \<longleftrightarrow> tool_in_scope tool intent change \<and> risk \<noteq> RL_CRITICAL"
  by (auto simp: tool_failures_def tool_in_scope_def)

lemma evaluate_allow:
  assumes "evaluate iso_text identity intent change plan tool approval now hex = Some d"
  shows "pd_effect d = ALLOW \<longleftrightarrow> authorized iso_text identity intent change plan tool approval now"
proof -
  from assms obtain r where r: "format_tenant (ti_tenant_id intent) (tr_resource_pattern tool) = Some r"
    by (auto simp: evaluate_def Let_def split: option.splits)
  have "pd_effect d = ALLOW \<longleftrightarrow>
      scope_failures iso_text identity intent change plan now = [] \<and>
      step_failures (plan_step plan (ti_step_id intent)) intent tool = [] \<and>
      tool_failures tool intent change r (max_risk (tr_risk_level tool)
        (case plan_step plan (ti_step_id intent) of None \<Rightarrow> RL_UNKNOWN | Some st \<Rightarrow> st_risk_level st)) = [] \<and>
      \<not> ((case plan_step plan (ti_step_id intent) of None \<Rightarrow> tr_mutating tool
           | Some st \<Rightarrow> st_requires_approval st \<or> tr_mutating tool) \<and>
         \<not> approval_valid iso_text approval intent change plan now)"
    using assms by (auto simp: evaluate_def Let_def r split: if_splits)
  also have "\<dots> \<longleftrightarrow> authorized iso_text identity intent change plan tool approval now"
    unfolding scope_failures_Nil step_failures_Nil tool_failures_Nil [OF r] max_risk_critical authorized_def
    by auto
  finally show ?thesis .
qed

text \<open>The effect as a function of the failures, the risk, the environment and the approval.\<close>

lemma evaluate_result:
  assumes "evaluate iso_text identity intent change plan tool approval now hex = Some d"
  obtains failures where
    "pd_effect d = (if failures = [] then ALLOW
       else if pd_approval_required d \<and> \<not> pd_approval_valid d \<and> pd_computed_risk d \<noteq> RL_CRITICAL \<and>
         \<not> (tr_mutating tool \<and> cr_environment change \<notin> set (tr_allowed_environments tool)) then REQUIRE_APPROVAL
       else if pd_computed_risk d = RL_CRITICAL \<or>
         tr_mutating tool \<and> cr_environment change \<notin> set (tr_allowed_environments tool) then BLOCK_SECURITY
       else DENY)"
    "failures \<noteq> [] \<Longrightarrow> pd_reasons d = failures" "failures = [] \<Longrightarrow> pd_reasons d \<noteq> []"
    "failures = [] \<Longrightarrow> pd_computed_risk d \<noteq> RL_CRITICAL \<and> cr_environment change \<in> set (tr_allowed_environments tool)"
proof -
  from assms obtain r where r: "format_tenant (ti_tenant_id intent) (tr_resource_pattern tool) = Some r"
    by (auto simp: evaluate_def Let_def split: option.splits)
  define step where "step = plan_step plan (ti_step_id intent)"
  define risk where "risk = max_risk (tr_risk_level tool) (case step of None \<Rightarrow> RL_UNKNOWN | Some st \<Rightarrow> st_risk_level st)"
  define req where "req = (case step of None \<Rightarrow> tr_mutating tool | Some st \<Rightarrow> st_requires_approval st \<or> tr_mutating tool)"
  define valid where "valid = approval_valid iso_text approval intent change plan now"
  define F where "F = scope_failures iso_text identity intent change plan now @ step_failures step intent tool @
    tool_failures tool intent change r risk @
    fail_if (req \<and> \<not> valid) ''A current exact-plan approval is required for this step.''"
  note e = assms [unfolded evaluate_def Let_def r option.case option.inject, folded step_def,
      folded risk_def req_def valid_def, folded F_def, symmetric]
  have "F = [] \<Longrightarrow> risk \<noteq> RL_CRITICAL \<and> cr_environment change \<in> set (tr_allowed_environments tool)"
    by (simp add: F_def tool_failures_def)
  then show thesis by (intro that [of F]) (auto simp: e)
qed

lemma evaluate_effects:
  assumes "evaluate iso_text identity intent change plan tool approval now hex = Some d"
  shows "pd_effect d \<in> {ALLOW, DENY, REQUIRE_APPROVAL, BLOCK_SECURITY} \<and> pd_reasons d \<noteq> [] \<and>
    (pd_computed_risk d = RL_CRITICAL \<longrightarrow> pd_effect d = BLOCK_SECURITY) \<and>
    (tr_mutating tool \<and> cr_environment change \<notin> set (tr_allowed_environments tool) \<longrightarrow> pd_effect d = BLOCK_SECURITY) \<and>
    (pd_effect d = REQUIRE_APPROVAL \<longrightarrow> pd_approval_required d \<and> \<not> pd_approval_valid d)"
  by (rule evaluate_result [OF assms]) (auto split: if_splits)

text \<open>A concrete identity, intent, change, tool and approval for \<^const>\<open>demo_plan\<close>.\<close>

definition demo_agent :: verified_identity where
  "demo_agent = \<lparr>id_subject = ''crm'', id_tenant_id = ''t1'', id_kind = Kind_AGENT, id_roles = [],
     id_audience = ''gw'', id_issued_at = 0, id_expires_at = 1000000\<rparr>"

definition demo_intent :: tool_intent where
  "demo_intent = \<lparr>ti_intent_id = ''i1'', ti_tenant_id = ''t1'', ti_change_id = ''c1'',
     ti_workflow_execution_id = ''wf1'', ti_plan_id = ''p1'', ti_plan_hash = calculate_plan_hash demo_iso demo_plan,
     ti_step_id = ''s1'', ti_agent_identity = ''crm'', ti_tool_name = ''crm.update_field_mapping'',
     ti_action = ''update'', ti_resource = ''crm://tenant/t1/configuration/lead'',
     ti_arguments = [(''old_field'', JStr ''lead_name''), (''new_field'', JStr ''full_name'')], ti_reason = ''plan'',
     ti_evidence_refs = [], ti_idempotency_key = ''key-s1'', ti_requested_at = 10\<rparr>"

definition demo_executing :: change_record where
  "demo_executing = \<lparr>cr_change_id = ''c1'', cr_tenant_id = ''t1'', cr_event_id = ''e1'', cr_change_type = ''schema'',
     cr_title = ''title'', cr_description = ''text'',
     cr_source = \<lparr>src_type = ''github'', src_external_id = ''x1'', src_url = ''https://example.com/''\<rparr>,
     cr_environment = Env_SANDBOX, cr_status = WS_EXECUTING, cr_risk_level = RL_HIGH,
     cr_current_phase = WS_EXECUTING, cr_workflow_execution_id = Some ''wf1'', cr_plan_version = 1,
     cr_plan_hash = Some (calculate_plan_hash demo_iso demo_plan),
     cr_created_at = 0, cr_updated_at = 5, cr_created_by = ''user'', cr_version = 6\<rparr>"

definition demo_tool :: tool_registration where
  "demo_tool = default_registration ''crm.update_field_mapping'' ''crm''
     ''crm://tenant/{tenant_id}/configuration/*'' ''crm-sandbox-write-v1''"

definition demo_approval :: approval where
  "demo_approval = \<lparr>ap_approval_id = ''a1'', ap_tenant_id = ''t1'', ap_change_id = ''c1'', ap_plan_id = ''p1'',
     ap_plan_hash = calculate_plan_hash demo_iso demo_plan, ap_plan_version = 1, ap_environment = Env_SANDBOX,
     ap_decision = AD_APPROVED, ap_scope = [''s1'', ''s2''], ap_approved_by = ''alice'',
     ap_approved_by_roles = [APPROVER], ap_approved_at = 4, ap_expires_at = 500, ap_comment = ''ok''\<rparr>"

lemma demo_format: "format_tenant ''t1'' ''crm://tenant/{tenant_id}/configuration/*'' =
    Some ''crm://tenant/t1/configuration/*''"
  by code_simp

lemma demo_fnmatch: "fnmatch ''crm://tenant/t1/configuration/*'' ''crm://tenant/t1/configuration/lead''"
  by code_simp

lemmas demo_defs = demo_agent_def demo_intent_def demo_executing_def demo_tool_def demo_approval_def
  default_registration_def

lemma demo_authorized: "authorized demo_iso demo_agent demo_intent demo_executing demo_plan demo_tool (Some demo_approval) 10"
proof -
  have "plan_step demo_plan ''s1'' = Some (demo_step ''s1'' 1 [])"
    by (simp add: plan_step_def demo_plan_def demo_step_def)
  moreover have "pl_plan_id demo_plan = ''p1''" "pl_tenant_id demo_plan = ''t1''" "pl_change_id demo_plan = ''c1''"
    "pl_version demo_plan = 1" by (simp_all add: demo_plan_def)
  ultimately show ?thesis
    using demo_format demo_fnmatch
    by (simp add: authorized_def caller_authentic_def change_executing_def plan_bound_def step_matches_def
        tool_in_scope_def approval_valid_def demo_defs demo_step_def dget_Cons py_num_def)
qed

lemma demo_evaluate:
  "\<exists>d. evaluate demo_iso demo_agent demo_intent demo_executing demo_plan demo_tool (Some demo_approval) 10 ''00'' = Some d"
  using demo_format by (simp add: evaluate_def demo_tool_def default_registration_def demo_intent_def Let_def)

text \<open>
  The policy engine is fail-closed and exact: whenever it returns a decision, the effect is ALLOW if
  and only if the caller is an unexpired agent acting as itself in its own tenant, the change is
  executing that workflow with that plan, the plan's own hash is the intent's, the named step exists and
  matches agent, tool, resource, arguments and idempotency key, neither tool nor step is critical, a
  valid approval is present where the step or a mutating tool needs one, and the tool's owner, action,
  environment and resource scope agree.
\<close>

theorem policy_allow_exact:
  assumes "evaluate iso_text identity intent change plan tool approval now hex = Some d"
  shows "pd_effect d = ALLOW \<longleftrightarrow> authorized iso_text identity intent change plan tool approval now"
  by (rule evaluate_allow [OF assms])

theorem policy_allow_exact_witness:
  "\<exists>d. evaluate demo_iso demo_agent demo_intent demo_executing demo_plan demo_tool (Some demo_approval) 10 ''00'' = Some d \<and>
     pd_effect d = ALLOW"
proof -
  from demo_evaluate obtain d where
    d: "evaluate demo_iso demo_agent demo_intent demo_executing demo_plan demo_tool (Some demo_approval) 10 ''00'' = Some d" ..
  from policy_allow_exact [OF d] demo_authorized d show ?thesis by blast
qed

text \<open>
  C2. No mutation without an exact, current, independent approval: when the engine allows a mutating tool,
  there is an approval, granted and unexpired at that moment, of that tenant, change and step, by someone
  with an approving role who is not the agent itself, whose plan hash is the hash of the very plan
  evaluated; and any other plan with that hash is the same document, unless it exhibits a SHA-256
  collision.
\<close>

theorem mutation_needs_exact_approval:
  assumes "inj iso_text" "evaluate iso_text identity intent change plan tool approval now hex = Some d"
    "pd_effect d = ALLOW" "tr_mutating tool"
  shows "\<exists>ap. approval = Some ap \<and> ap_decision ap = AD_APPROVED \<and> ap_tenant_id ap = id_tenant_id identity \<and>
    ap_change_id ap = cr_change_id change \<and> ti_step_id intent \<in> set (ap_scope ap) \<and>
    ap_approved_at ap \<le> now \<and> now < ap_expires_at ap \<and>
    (APPROVER \<in> set (ap_approved_by_roles ap) \<or> PLATFORM_ADMIN \<in> set (ap_approved_by_roles ap)) \<and>
    ap_approved_by ap \<noteq> id_subject identity \<and> ap_plan_hash ap = calculate_plan_hash iso_text plan \<and>
    (\<forall>other. calculate_plan_hash iso_text other = ap_plan_hash ap \<longrightarrow> same_plan other plan \<or>
       sha256_collision (utf8_encode (canonical_json (plan_json iso_text other)))
         (utf8_encode (canonical_json (plan_json iso_text plan))))"
proof -
  from evaluate_allow [OF assms(2)] assms(3) have a: "authorized iso_text identity intent change plan tool approval now"
    by simp
  then have "approval_valid iso_text approval intent change plan now" using assms(4) by (auto simp: authorized_def)
  then obtain ap where ap: "approval = Some ap" "approval_valid iso_text (Some ap) intent change plan now"
    by (auto simp: approval_valid_def split: option.splits)
  have "\<forall>other. calculate_plan_hash iso_text other = ap_plan_hash ap \<longrightarrow> same_plan other plan \<or>
       sha256_collision (utf8_encode (canonical_json (plan_json iso_text other)))
         (utf8_encode (canonical_json (plan_json iso_text plan)))"
    using plan_hash_binds [OF assms(1)] ap(2) by (auto simp: approval_valid_def)
  with ap a show ?thesis
    by (auto simp: approval_valid_def authorized_def caller_authentic_def change_executing_def)
qed

theorem mutation_needs_exact_approval_witness: "ap_approved_by demo_approval \<noteq> id_subject demo_agent"
proof -
  from demo_evaluate obtain d where
    d: "evaluate demo_iso demo_agent demo_intent demo_executing demo_plan demo_tool (Some demo_approval) 10 ''00'' = Some d" ..
  have "pd_effect d = ALLOW" using evaluate_allow [OF d] demo_authorized by simp
  from mutation_needs_exact_approval [OF demo_iso_inj d this] show ?thesis
    by (auto simp: demo_tool_def default_registration_def)
qed

text \<open>
  Denials are classified: a decision is one of ALLOW, DENY, REQUIRE_APPROVAL and BLOCK_SECURITY and
  always carries a reason; a critical computed risk, or a mutating tool outside its environments, is
  always BLOCK_SECURITY; REQUIRE_APPROVAL is only returned when an approval is required and missing or
  invalid.
\<close>

theorem policy_effect_classes:
  assumes "evaluate iso_text identity intent change plan tool approval now hex = Some d"
  shows "pd_effect d \<in> {ALLOW, DENY, REQUIRE_APPROVAL, BLOCK_SECURITY} \<and> pd_reasons d \<noteq> [] \<and>
    (pd_computed_risk d = RL_CRITICAL \<longrightarrow> pd_effect d = BLOCK_SECURITY) \<and>
    (tr_mutating tool \<and> cr_environment change \<notin> set (tr_allowed_environments tool) \<longrightarrow> pd_effect d = BLOCK_SECURITY) \<and>
    (pd_effect d = REQUIRE_APPROVAL \<longrightarrow> pd_approval_required d \<and> \<not> pd_approval_valid d)"
  by (rule evaluate_effects [OF assms])

theorem policy_effect_classes_witness:
  "\<exists>d. evaluate demo_iso demo_agent demo_intent (demo_executing\<lparr>cr_environment := Env_LOCAL\<rparr>) demo_plan demo_tool
     (Some demo_approval) 10 ''00'' = Some d \<and> pd_effect d = BLOCK_SECURITY"
proof -
  have "\<exists>d. evaluate demo_iso demo_agent demo_intent (demo_executing\<lparr>cr_environment := Env_LOCAL\<rparr>) demo_plan demo_tool
     (Some demo_approval) 10 ''00'' = Some d"
    using demo_format by (simp add: evaluate_def demo_tool_def default_registration_def demo_intent_def Let_def)
  then obtain d where
    d: "evaluate demo_iso demo_agent demo_intent (demo_executing\<lparr>cr_environment := Env_LOCAL\<rparr>) demo_plan demo_tool
     (Some demo_approval) 10 ''00'' = Some d" ..
  with policy_effect_classes [OF d] show ?thesis by (auto simp: demo_tool_def default_registration_def)
qed

section \<open>The default registry\<close>

definition system_pattern :: "string \<Rightarrow> string" where
  "system_pattern system = system @ ''://tenant/{tenant_id}/configuration/*''"

definition system_scope :: "string \<Rightarrow> string \<Rightarrow> string" where
  "system_scope system tenant_id = system @ ''://tenant/'' @ tenant_id @ ''/configuration/''"

lemma format_tenant_literal:
  "list_all (\<lambda>c. c \<noteq> CHR ''{'' \<and> c \<noteq> CHR ''}'') p \<Longrightarrow> format_tenant t (p @ q) = map_option ((@) p) (format_tenant t q)"
  by (induction p; cases "format_tenant t q") simp_all

lemma format_system_pattern:
  assumes "list_all (\<lambda>c. c \<noteq> CHR ''{'' \<and> c \<noteq> CHR ''}'') system"
  shows "format_tenant t (system_pattern system) = Some (system_scope system t @ ''*'')"
proof -
  have "format_tenant t ''://tenant/{tenant_id}/configuration/*'' = Some (''://tenant/'' @ t @ ''/configuration/'' @ ''*'')"
    by simp
  then show ?thesis
    unfolding system_pattern_def system_scope_def format_tenant_literal [OF assms] by simp
qed

lemma default_registry:
  assumes "build_default_tool_registry = Some reg" "registry_get reg name = Some tool"
  shows "tr_owning_agent_id tool \<in> {''crm'', ''analytics'', ''support''}"
    "tr_resource_pattern tool = system_pattern (tr_owning_agent_id tool)"
    "tr_tool_name tool = name" "tr_mutating tool" "tr_allowed_environments tool = [Env_SANDBOX]"
    "tr_risk_level tool = RL_HIGH"
  using assms
  by (auto simp: build_default_tool_registry_def ToolRegistry_def dict_of_def dput_def registry_get_def dget_Cons
      default_registration_def system_pattern_def split: if_splits)

text \<open>
  The default tools are confined to their own system and tenant: for a tenant identifier without
  shell metacharacters, every registered tool is a mutating sandbox-only tool of one of the three
  systems, and the resources its formatted pattern accepts are exactly those under
  \<^verbatim>\<open><system>://tenant/<tenant>/configuration/\<close>.
\<close>

theorem default_tools_confined:
  assumes "build_default_tool_registry = Some reg" "registry_get reg name = Some tool" "glob_free t"
  shows "tr_mutating tool \<and> tr_allowed_environments tool = [Env_SANDBOX] \<and>
    tr_owning_agent_id tool \<in> {''crm'', ''analytics'', ''support''} \<and>
    (\<exists>r. format_tenant t (tr_resource_pattern tool) = Some r \<and>
       (\<forall>resource. fnmatch r resource \<longleftrightarrow> prefix (system_scope (tr_owning_agent_id tool) t) resource))"
proof -
  note d = default_registry [OF assms(1,2)]
  have "list_all (\<lambda>c. c \<noteq> CHR ''{'' \<and> c \<noteq> CHR ''}'') (tr_owning_agent_id tool)" "glob_free (tr_owning_agent_id tool)"
    using d(1) by (auto simp: glob_free_def)
  then have "format_tenant t (tr_resource_pattern tool) = Some (system_scope (tr_owning_agent_id tool) t @ ''*'')"
    and "glob_free (system_scope (tr_owning_agent_id tool) t)"
    using format_system_pattern d(2) assms(3) by (auto simp: glob_free_def system_scope_def)
  with d fnmatch_prefix show ?thesis by blast
qed

theorem default_tools_confined_witness:
  "\<exists>reg tool. build_default_tool_registry = Some reg \<and> registry_get reg ''crm.update_field_mapping'' = Some tool \<and>
     (\<exists>r. format_tenant ''t1'' (tr_resource_pattern tool) = Some r \<and> \<not> fnmatch r ''crm://tenant/t2/configuration/lead'')"
proof -
  have "build_default_tool_registry \<noteq> None" by code_simp
  then obtain reg where reg: "build_default_tool_registry = Some reg" by blast
  have "(case build_default_tool_registry of None \<Rightarrow> False
      | Some reg \<Rightarrow> registry_get reg ''crm.update_field_mapping'' \<noteq> None)" by code_simp
  then have "registry_get reg ''crm.update_field_mapping'' \<noteq> None" by (simp only: reg option.case not_False_eq_True)
  then obtain tool where tool: "registry_get reg ''crm.update_field_mapping'' = Some tool" by blast
  have glob: "glob_free ''t1''" by code_simp
  from default_tools_confined [OF reg tool glob] obtain r where
    r: "format_tenant ''t1'' (tr_resource_pattern tool) = Some r"
      "fnmatch r ''crm://tenant/t2/configuration/lead'' \<longleftrightarrow>
        prefix (system_scope (tr_owning_agent_id tool) ''t1'') ''crm://tenant/t2/configuration/lead''"
      "tr_owning_agent_id tool \<in> {''crm'', ''analytics'', ''support''}" by blast
  have "\<forall>s \<in> {''crm'', ''analytics'', ''support''}. \<not> prefix (system_scope s ''t1'') ''crm://tenant/t2/configuration/lead''"
    by code_simp
  with r reg tool show ?thesis by blast
qed

end
