(* ===== verification/Change_Store.thy ===== *)
theory Change_Store
  imports Contracts "HOL-Library.Multiset"
begin

text \<open>
  The change repository of \<^verbatim>\<open>packages/persistence/src/changeops_persistence\<close>: the errors of
  \<^verbatim>\<open>errors.py\<close>, the \<^verbatim>\<open>ChangeStateRepository\<close> protocol of \<^verbatim>\<open>protocols.py\<close> as a locale over the
  operations a client calls, and \<^verbatim>\<open>InMemoryChangeStateRepository\<close> of \<^verbatim>\<open>memory.py\<close>, which is shown
  to implement the protocol. Every method body runs under the repository's lock, so a method is one
  atomic step on the store.
\<close>

section \<open>Errors and the protocol\<close>

datatype persistence_error =
    ChangeNotFoundError string string
  | TenantScopeViolationError string string
  | ChangeAlreadyExistsError string string
  | AuditEventAlreadyExistsError string string
  | AuditCursorNotFoundError string string string
  | InvalidDocumentIdentifierError string
  | OptimisticConcurrencyError string int int

type_synonym change_key = "string \<times> string"

text \<open>The methods of the protocol that its clients in \<^verbatim>\<open>changeops_core\<close> call.\<close>

record 's change_repository_ops =
  repo_get :: "string \<Rightarrow> string \<Rightarrow> ('s, persistence_error, change_record) op"
  repo_commit_transition :: "change_record \<Rightarrow> audit_event \<Rightarrow> int \<Rightarrow> ('s, persistence_error, unit) op"
  repo_record_audit :: "audit_event \<Rightarrow> ('s, persistence_error, unit) op"

definition change_key :: "change_record \<Rightarrow> change_key" where
  "change_key r = (cr_tenant_id r, cr_change_id r)"

definition audit_key :: "audit_event \<Rightarrow> string \<times> string" where
  "audit_key e = (ae_tenant_id e, ae_audit_event_id e)"

definition audit_scope_ok :: "change_record \<Rightarrow> audit_event \<Rightarrow> bool" where
  "audit_scope_ok r e \<longleftrightarrow> \<not> (ae_tenant_id e \<noteq> cr_tenant_id r \<or> ae_change_id e \<noteq> cr_change_id r)"

text \<open>
  What the protocol promises, over two finite maps that abstract a store: the change documents and
  the audit documents, each under its tenant. A failed call writes nothing; a successful commit
  writes exactly one change and one audit event.
\<close>

locale change_repository =
  fixes R :: "'s change_repository_ops"
    and inv :: "'s \<Rightarrow> bool"
    and changes :: "'s \<Rightarrow> change_key \<Rightarrow> change_record option"
    and audits :: "'s \<Rightarrow> string \<times> string \<Rightarrow> audit_event option"
  assumes keys: "inv s \<Longrightarrow> changes s k = Some r \<Longrightarrow> change_key r = k"
    and get_found: "inv s \<Longrightarrow> changes s (t, c) = Some r \<Longrightarrow> repo_get R t c s = (Inr r, s)"
    and get_missing: "inv s \<Longrightarrow> changes s (t, c) = None \<Longrightarrow>
      \<exists>e. repo_get R t c s = (Inl e, s) \<and> (\<forall>cid x y. e \<noteq> OptimisticConcurrencyError cid x y)"
    and commit_ok: "inv s \<Longrightarrow> changes s (change_key r) = Some cur \<Longrightarrow> audit_scope_ok r e \<Longrightarrow>
      audits s (audit_key e) = None \<Longrightarrow> cr_version cur = v \<Longrightarrow> cr_version r = v + 1 \<Longrightarrow>
      \<exists>s'. repo_commit_transition R r e v s = (Inr (), s') \<and> inv s' \<and>
        changes s' = (changes s)(change_key r \<mapsto> r) \<and> audits s' = (audits s)(audit_key e \<mapsto> e)"
    and commit_conflict: "inv s \<Longrightarrow> changes s (change_key r) = Some cur \<Longrightarrow> audit_scope_ok r e \<Longrightarrow>
      audits s (audit_key e) = None \<Longrightarrow> cr_version cur \<noteq> v \<Longrightarrow>
      repo_commit_transition R r e v s =
        (Inl (OptimisticConcurrencyError (cr_change_id r) v (cr_version cur)), s)"
    and commit_reused_audit: "inv s \<Longrightarrow> changes s (change_key r) = Some cur \<Longrightarrow> audit_scope_ok r e \<Longrightarrow>
      audits s (audit_key e) \<noteq> None \<Longrightarrow> repo_commit_transition R r e v s =
        (Inl (AuditEventAlreadyExistsError (ae_tenant_id e) (ae_audit_event_id e)), s)"
    and audit_ok: "inv s \<Longrightarrow> changes s (ae_tenant_id e, ae_change_id e) = Some cur \<Longrightarrow>
      audits s (audit_key e) = None \<Longrightarrow>
      \<exists>s'. repo_record_audit R e s = (Inr (), s') \<and> inv s' \<and> changes s' = changes s \<and>
        audits s' = (audits s)(audit_key e \<mapsto> e)"
    and audit_reused: "inv s \<Longrightarrow> changes s (ae_tenant_id e, ae_change_id e) = Some cur \<Longrightarrow>
      audits s (audit_key e) \<noteq> None \<Longrightarrow> repo_record_audit R e s =
        (Inl (AuditEventAlreadyExistsError (ae_tenant_id e) (ae_audit_event_id e)), s)"

section \<open>The in-memory repository\<close>

record mem_repo =
  m_changes :: "(change_key, change_record) dict"
  m_tenants_by_change_id :: "(string, string set) dict"
  m_audit :: "(string \<times> string, audit_event) dict"
  m_audit_ids_by_change :: "(change_key, string list) dict"

definition mem_empty :: mem_repo where
  "mem_empty = \<lparr>m_changes = [], m_tenants_by_change_id = [], m_audit = [], m_audit_ids_by_change = []\<rparr>"

type_synonym 'a mem_op = "(mem_repo, persistence_error, 'a) op"

definition get_unlocked :: "string \<Rightarrow> string \<Rightarrow> change_record mem_op" where
  "get_unlocked tenant_id change_id s = (case dget (m_changes s) (tenant_id, change_id) of
     Some change \<Rightarrow> ret change s
   | None \<Rightarrow> if dget_or (m_tenants_by_change_id s) change_id {} \<noteq> {}
             then raise (TenantScopeViolationError tenant_id change_id) s
             else raise (ChangeNotFoundError tenant_id change_id) s)"

definition validate_audit_scope :: "change_record \<Rightarrow> audit_event \<Rightarrow> unit mem_op" where
  "validate_audit_scope change audit_event = guard (audit_scope_ok change audit_event)
     (TenantScopeViolationError (ae_tenant_id audit_event) (ae_change_id audit_event))"

definition ensure_new_audit_id :: "audit_event \<Rightarrow> unit mem_op" where
  "ensure_new_audit_id audit_event s = guard (dget (m_audit s) (audit_key audit_event) = None)
     (AuditEventAlreadyExistsError (ae_tenant_id audit_event) (ae_audit_event_id audit_event)) s"

definition append_audit_unlocked :: "audit_event \<Rightarrow> unit mem_op" where
  "append_audit_unlocked audit_event s = (let key = (ae_tenant_id audit_event, ae_change_id audit_event) in
     (Inr (), s\<lparr>m_audit := dput (audit_key audit_event) audit_event (m_audit s),
       m_audit_ids_by_change := dput key (dget_or (m_audit_ids_by_change s) key [] @
         [ae_audit_event_id audit_event]) (m_audit_ids_by_change s)\<rparr>))"

definition put_change :: "change_record \<Rightarrow> unit mem_op" where
  "put_change change s = (Inr (), s\<lparr>m_changes := dput (change_key change) change (m_changes s)\<rparr>)"

definition index_tenant :: "change_record \<Rightarrow> unit mem_op" where
  "index_tenant change s = (Inr (), s\<lparr>m_tenants_by_change_id := dput (cr_change_id change)
     (insert (cr_tenant_id change) (dget_or (m_tenants_by_change_id s) (cr_change_id change) {}))
     (m_tenants_by_change_id s)\<rparr>)"

definition require_new_change :: "change_record \<Rightarrow> unit mem_op" where
  "require_new_change change s = guard (dget (m_changes s) (change_key change) = None)
     (ChangeAlreadyExistsError (cr_tenant_id change) (cr_change_id change)) s"

definition mem_add :: "change_record \<Rightarrow> unit mem_op" where
  "mem_add change = bnd (require_new_change change) (\<lambda>_. bnd (put_change change) (\<lambda>_. index_tenant change))"

definition mem_add_with_audit :: "change_record \<Rightarrow> audit_event \<Rightarrow> unit mem_op" where
  "mem_add_with_audit change audit_event =
     bnd (require_new_change change) (\<lambda>_.
     bnd (validate_audit_scope change audit_event) (\<lambda>_.
     bnd (ensure_new_audit_id audit_event) (\<lambda>_.
     bnd (put_change change) (\<lambda>_.
     bnd (index_tenant change) (\<lambda>_.
     append_audit_unlocked audit_event)))))"

definition mem_get :: "string \<Rightarrow> string \<Rightarrow> change_record mem_op" where
  "mem_get = get_unlocked"

definition mem_list_changes :: "string \<Rightarrow> int \<Rightarrow> change_record list mem_op" where
  "mem_list_changes tenant_id limit s = ret (slice_to limit (sort_desc (\<lambda>change. (cr_updated_at change, cr_change_id change))
     (map snd (filter (\<lambda>item. fst (fst item) = tenant_id) (m_changes s))))) s"

definition mem_commit_transition :: "change_record \<Rightarrow> audit_event \<Rightarrow> int \<Rightarrow> unit mem_op" where
  "mem_commit_transition change audit_event expected_version =
     bnd (get_unlocked (cr_tenant_id change) (cr_change_id change)) (\<lambda>current.
     bnd (validate_audit_scope change audit_event) (\<lambda>_.
     bnd (ensure_new_audit_id audit_event) (\<lambda>_.
     bnd (guard (cr_version current = expected_version)
       (OptimisticConcurrencyError (cr_change_id change) expected_version (cr_version current))) (\<lambda>_.
     bnd (guard (cr_version change = expected_version + 1)
       (OptimisticConcurrencyError (cr_change_id change) (expected_version + 1) (cr_version change))) (\<lambda>_.
     bnd (put_change change) (\<lambda>_.
     append_audit_unlocked audit_event))))))"

definition mem_record_audit :: "audit_event \<Rightarrow> unit mem_op" where
  "mem_record_audit audit_event =
     bnd (get_unlocked (ae_tenant_id audit_event) (ae_change_id audit_event)) (\<lambda>_.
     bnd (ensure_new_audit_id audit_event) (\<lambda>_.
     append_audit_unlocked audit_event))"

text \<open>
  Reading the stream goes through the \<^verbatim>\<open>defaultdict\<close>, which records an empty list for a change
  without events. An identifier in the list always has its event (the invariant below), so the
  lookup \<^verbatim>\<open>self._audit[...]\<close> does not raise.
\<close>

definition events_of :: "mem_repo \<Rightarrow> string \<Rightarrow> string list \<Rightarrow> audit_event list" where
  "events_of s tenant_id event_ids = List.map_filter (\<lambda>event_id. dget (m_audit s) (tenant_id, event_id)) event_ids"

definition audit_order :: "audit_event \<Rightarrow> instant \<times> string" where
  "audit_order event = (ae_created_at event, ae_audit_event_id event)"

definition mem_list_audit_after :: "string \<Rightarrow> string \<Rightarrow> string option \<Rightarrow> int \<Rightarrow> audit_event list mem_op" where
  "mem_list_audit_after tenant_id change_id after_event_id limit =
     bnd (get_unlocked tenant_id change_id) (\<lambda>_ s.
       let event_ids = dget_or (m_audit_ids_by_change s) (tenant_id, change_id) [];
           s' = s\<lparr>m_audit_ids_by_change := dput (tenant_id, change_id) event_ids (m_audit_ids_by_change s)\<rparr>;
           events = sort_key audit_order (events_of s' tenant_id event_ids)
       in case after_event_id of
            None \<Rightarrow> ret (slice_to limit events) s'
          | Some cursor \<Rightarrow> (case find_index (\<lambda>event. ae_audit_event_id event = cursor) events of
              None \<Rightarrow> raise (AuditCursorNotFoundError tenant_id change_id cursor) s'
            | Some cursor_index \<Rightarrow> ret (slice_to limit (drop (cursor_index + 1) events)) s'))"

definition mem_list_audit :: "string \<Rightarrow> string \<Rightarrow> audit_event list mem_op" where
  "mem_list_audit tenant_id change_id = mem_list_audit_after tenant_id change_id None 10000"

definition mem_list_tenant_audit :: "string \<Rightarrow> int \<Rightarrow> audit_event list mem_op" where
  "mem_list_tenant_audit tenant_id limit s = ret (slice_to limit (sort_desc audit_order
     (map snd (filter (\<lambda>item. fst (fst item) = tenant_id) (m_audit s))))) s"

definition mem_ops :: "mem_repo change_repository_ops" where
  "mem_ops = \<lparr>repo_get = mem_get, repo_commit_transition = mem_commit_transition,
     repo_record_audit = mem_record_audit\<rparr>"


section \<open>The repository invariant\<close>

text \<open>
  Documents stand under their own keys; the tenant index lists exactly the tenants that have the
  change; the per-change stream of identifiers is distinct and lists exactly the stored events of
  that change; every audit event belongs to a stored change.
\<close>

definition mem_keys_ok :: "mem_repo \<Rightarrow> bool" where
  "mem_keys_ok s \<longleftrightarrow> dict_ok (m_changes s) \<and> dict_ok (m_audit s) \<and>
     (\<forall>k r. dget (m_changes s) k = Some r \<longrightarrow> change_key r = k) \<and>
     (\<forall>k e. dget (m_audit s) k = Some e \<longrightarrow> audit_key e = k \<and>
        dget (m_changes s) (ae_tenant_id e, ae_change_id e) \<noteq> None)"

definition mem_tenants_ok :: "mem_repo \<Rightarrow> bool" where
  "mem_tenants_ok s \<longleftrightarrow> (\<forall>t c. t \<in> dget_or (m_tenants_by_change_id s) c {} \<longleftrightarrow> dget (m_changes s) (t, c) \<noteq> None)"

definition stream_ids :: "mem_repo \<Rightarrow> change_key \<Rightarrow> string list" where
  "stream_ids s k = dget_or (m_audit_ids_by_change s) k []"

definition mem_streams_ok :: "mem_repo \<Rightarrow> bool" where
  "mem_streams_ok s \<longleftrightarrow> (\<forall>t c. distinct (stream_ids s (t, c)) \<and>
     (\<forall>i. i \<in> set (stream_ids s (t, c)) \<longleftrightarrow> (\<exists>e. dget (m_audit s) (t, i) = Some e \<and> ae_change_id e = c)))"

definition mem_inv :: "mem_repo \<Rightarrow> bool" where
  "mem_inv s \<longleftrightarrow> mem_keys_ok s \<and> mem_tenants_ok s \<and> mem_streams_ok s"

lemmas mem_inv_defs = mem_inv_def mem_keys_ok_def mem_tenants_ok_def mem_streams_ok_def stream_ids_def

lemma mem_inv_empty: "mem_inv mem_empty"
  by (simp add: mem_inv_defs mem_empty_def)

text \<open>The three writes of the repository, as functions on stores.\<close>

definition with_audit :: "audit_event \<Rightarrow> mem_repo \<Rightarrow> mem_repo" where
  "with_audit e s = snd (append_audit_unlocked e s)"

definition with_change :: "change_record \<Rightarrow> mem_repo \<Rightarrow> mem_repo" where
  "with_change r s = snd (put_change r s)"

definition with_new_change :: "change_record \<Rightarrow> mem_repo \<Rightarrow> mem_repo" where
  "with_new_change r s = snd (index_tenant r (with_change r s))"

lemmas store_writes = with_audit_def with_change_def with_new_change_def append_audit_unlocked_def
  put_change_def index_tenant_def Let_def

lemma audit_key_simps: "audit_key e = (t, i) \<longleftrightarrow> ae_tenant_id e = t \<and> ae_audit_event_id e = i"
  by (simp add: audit_key_def)

lemma change_key_simps: "change_key r = (t, c) \<longleftrightarrow> cr_tenant_id r = t \<and> cr_change_id r = c"
  by (simp add: change_key_def)

lemma mem_inv_with_audit:
  assumes "mem_inv s" "dget (m_changes s) (ae_tenant_id e, ae_change_id e) \<noteq> None"
    "dget (m_audit s) (audit_key e) = None"
  shows "mem_inv (with_audit e s)"
proof -
  let ?s = "with_audit e s"
  from assms have "mem_keys_ok ?s" "mem_tenants_ok ?s"
    by (auto simp: mem_inv_defs store_writes)
  moreover have "mem_streams_ok ?s"
  proof -
    have ids: "stream_ids ?s (t, c) = stream_ids s (t, c) @
        (if t = ae_tenant_id e \<and> c = ae_change_id e then [ae_audit_event_id e] else [])" for t c
      by (simp add: stream_ids_def store_writes)
    have aud: "dget (m_audit ?s) (t, i) = (if audit_key e = (t, i) then Some e else dget (m_audit s) (t, i))" for t i
      by (auto simp: store_writes)
    have "ae_audit_event_id e \<notin> set (stream_ids s (ae_tenant_id e, c))" for c
      using assms by (auto simp: mem_inv_def mem_streams_ok_def audit_key_def)
    with assms(1) show ?thesis
      unfolding mem_inv_def mem_streams_ok_def ids aud by (auto simp: audit_key_simps)
  qed
  ultimately show ?thesis by (simp add: mem_inv_def)
qed

lemma mem_inv_with_change:
  assumes "mem_inv s" "dget (m_changes s) (change_key r) \<noteq> None"
  shows "mem_inv (with_change r s)"
  using assms by (auto simp: mem_inv_defs store_writes change_key_def)

lemma mem_inv_with_new_change:
  assumes "mem_inv s" "dget (m_changes s) (change_key r) = None"
  shows "mem_inv (with_new_change r s)"
  using assms by (auto simp: mem_inv_defs store_writes change_key_def)

section \<open>Every operation on every branch\<close>

lemma get_unlocked_eq: "get_unlocked t c s = (case dget (m_changes s) (t, c) of Some r \<Rightarrow> (Inr r, s)
   | None \<Rightarrow> (Inl (if dget_or (m_tenants_by_change_id s) c {} \<noteq> {} then TenantScopeViolationError t c
                   else ChangeNotFoundError t c), s))"
  by (simp add: get_unlocked_def split: option.split)

lemma mem_commit_transition_eq:
  "mem_commit_transition r e v s = (case dget (m_changes s) (change_key r) of
     None \<Rightarrow> (Inl (projl (fst (get_unlocked (cr_tenant_id r) (cr_change_id r) s))), s)
   | Some cur \<Rightarrow>
       if \<not> audit_scope_ok r e then (Inl (TenantScopeViolationError (ae_tenant_id e) (ae_change_id e)), s)
       else if dget (m_audit s) (audit_key e) \<noteq> None
         then (Inl (AuditEventAlreadyExistsError (ae_tenant_id e) (ae_audit_event_id e)), s)
       else if cr_version cur \<noteq> v
         then (Inl (OptimisticConcurrencyError (cr_change_id r) v (cr_version cur)), s)
       else if cr_version r \<noteq> v + 1
         then (Inl (OptimisticConcurrencyError (cr_change_id r) (v + 1) (cr_version r)), s)
       else (Inr (), with_audit e (with_change r s)))"
  by (simp add: mem_commit_transition_def bnd_def get_unlocked_eq validate_audit_scope_def
      ensure_new_audit_id_def store_writes change_key_def split: option.split)

lemma mem_record_audit_eq:
  "mem_record_audit e s = (case dget (m_changes s) (ae_tenant_id e, ae_change_id e) of
     None \<Rightarrow> (Inl (projl (fst (get_unlocked (ae_tenant_id e) (ae_change_id e) s))), s)
   | Some cur \<Rightarrow>
       if dget (m_audit s) (audit_key e) \<noteq> None
         then (Inl (AuditEventAlreadyExistsError (ae_tenant_id e) (ae_audit_event_id e)), s)
       else (Inr (), with_audit e s))"
  by (simp add: mem_record_audit_def bnd_def get_unlocked_eq ensure_new_audit_id_def store_writes
      split: option.split)

lemma mem_add_eq:
  "mem_add r s = (if dget (m_changes s) (change_key r) = None then (Inr (), with_new_change r s)
     else (Inl (ChangeAlreadyExistsError (cr_tenant_id r) (cr_change_id r)), s))"
  by (simp add: mem_add_def bnd_def require_new_change_def store_writes)

lemma mem_add_with_audit_eq:
  "mem_add_with_audit r e s =
    (if dget (m_changes s) (change_key r) \<noteq> None
       then (Inl (ChangeAlreadyExistsError (cr_tenant_id r) (cr_change_id r)), s)
     else if \<not> audit_scope_ok r e then (Inl (TenantScopeViolationError (ae_tenant_id e) (ae_change_id e)), s)
     else if dget (m_audit s) (audit_key e) \<noteq> None
       then (Inl (AuditEventAlreadyExistsError (ae_tenant_id e) (ae_audit_event_id e)), s)
     else (Inr (), with_audit e (with_new_change r s)))"
  by (simp add: mem_add_with_audit_def bnd_def require_new_change_def validate_audit_scope_def
      ensure_new_audit_id_def store_writes)

lemma m_changes_writes [simp]:
  "m_changes (with_audit e s) = m_changes s"
  "m_changes (with_change r s) = dput (change_key r) r (m_changes s)"
  "m_changes (with_new_change r s) = dput (change_key r) r (m_changes s)"
  by (simp_all add: store_writes)

lemma m_audit_writes [simp]:
  "m_audit (with_audit e s) = dput (audit_key e) e (m_audit s)"
  "m_audit (with_change r s) = m_audit s"
  "m_audit (with_new_change r s) = m_audit s"
  by (simp_all add: store_writes)

lemma audit_scope_key: "audit_scope_ok r e \<Longrightarrow> (ae_tenant_id e, ae_change_id e) = change_key r"
  by (simp add: audit_scope_ok_def change_key_def)

lemma mem_commit_preserves [pres]: "preserves mem_inv (mem_commit_transition r e v)"
  by (rule preservesI)
    (auto simp: mem_commit_transition_eq audit_scope_key split: option.splits if_splits
      intro!: mem_inv_with_audit mem_inv_with_change)

lemma mem_record_audit_preserves [pres]: "preserves mem_inv (mem_record_audit e)"
  by (rule preservesI)
    (auto simp: mem_record_audit_eq split: option.splits if_splits intro!: mem_inv_with_audit)

lemma mem_add_preserves [pres]: "preserves mem_inv (mem_add r)"
  by (rule preservesI) (auto simp: mem_add_eq split: if_splits intro!: mem_inv_with_new_change)

lemma mem_add_with_audit_preserves [pres]: "preserves mem_inv (mem_add_with_audit r e)"
  by (rule preservesI)
    (auto simp: mem_add_with_audit_eq audit_scope_key split: if_splits
      intro!: mem_inv_with_audit mem_inv_with_new_change)

text \<open>The in-memory repository implements the protocol.\<close>

definition mem_changes_of :: "mem_repo \<Rightarrow> change_key \<Rightarrow> change_record option" where
  "mem_changes_of s = dget (m_changes s)"

definition mem_audits_of :: "mem_repo \<Rightarrow> string \<times> string \<Rightarrow> audit_event option" where
  "mem_audits_of s = dget (m_audit s)"

lemmas mem_abs = mem_changes_of_def mem_audits_of_def

interpretation mem: change_repository mem_ops mem_inv mem_changes_of mem_audits_of
proof (unfold_locales, goal_cases)
  case (4 s r cur e v)
  then have "mem_inv (with_audit e (with_change r s))"
    by (intro mem_inv_with_audit mem_inv_with_change) (simp_all add: mem_abs audit_scope_key)
  with 4 show ?case by (auto simp: mem_ops_def mem_commit_transition_eq mem_abs)
next
  case (7 s e cur)
  then have "mem_inv (with_audit e s)" by (intro mem_inv_with_audit) (simp_all add: mem_abs)
  with 7 show ?case by (auto simp: mem_ops_def mem_record_audit_eq mem_abs)
qed (auto simp: mem_ops_def mem_get_def mem_abs mem_inv_defs get_unlocked_eq mem_commit_transition_eq
    mem_record_audit_eq split: option.splits)

section \<open>Audit streams and their pages\<close>

text \<open>The events of one change in the order the repository serves them.\<close>

definition audit_stream :: "mem_repo \<Rightarrow> string \<Rightarrow> string \<Rightarrow> audit_event list" where
  "audit_stream s t c = sort_key audit_order (events_of s t (stream_ids s (t, c)))"

lemma map_filter_all: "(\<And>x. x \<in> set xs \<Longrightarrow> f x = Some (g x)) \<Longrightarrow> List.map_filter f xs = map g xs"
  by (induction xs) (simp_all add: List.map_filter_simps)

lemma set_map_filter: "set (List.map_filter f xs) = {y. \<exists>x\<in>set xs. f x = Some y}"
  by (induction xs) (auto simp: List.map_filter_simps split: option.splits)

lemma set_audit_stream:
  assumes "mem_inv s"
  shows "e \<in> set (audit_stream s t c) \<longleftrightarrow> dget (m_audit s) (audit_key e) = Some e \<and> ae_tenant_id e = t \<and> ae_change_id e = c"
proof -
  from assms have st: "i \<in> set (stream_ids s (t, c)) \<longleftrightarrow> (\<exists>e. dget (m_audit s) (t, i) = Some e \<and> ae_change_id e = c)"
    and ks: "dget (m_audit s) k = Some e \<Longrightarrow> audit_key e = k" for i k
    by (simp_all add: mem_inv_def mem_streams_ok_def mem_keys_ok_def del: split_paired_All)
  show ?thesis
    unfolding audit_stream_def events_of_def set_sort set_map_filter mem_Collect_eq
  proof (intro iffI; (elim bexE conjE)?)
    fix i assume "i \<in> set (stream_ids s (t, c))" and e: "dget (m_audit s) (t, i) = Some e"
    with st [of i] ks [OF e] show "dget (m_audit s) (audit_key e) = Some e \<and> ae_tenant_id e = t \<and> ae_change_id e = c"
      by (auto simp: audit_key_def)
  next
    assume "dget (m_audit s) (audit_key e) = Some e" "ae_tenant_id e = t" "ae_change_id e = c"
    then show "\<exists>i\<in>set (stream_ids s (t, c)). dget (m_audit s) (t, i) = Some e"
      using st [of "ae_audit_event_id e"] by (auto simp: audit_key_def)
  qed
qed

lemma map_id_events_of:
  assumes "mem_inv s"
  shows "map ae_audit_event_id (events_of s t (stream_ids s (t, c))) = stream_ids s (t, c)"
proof -
  let ?g = "\<lambda>i. the (dget (m_audit s) (t, i))"
  from assms have st: "\<And>i. i \<in> set (stream_ids s (t, c)) \<Longrightarrow> \<exists>e. dget (m_audit s) (t, i) = Some e"
    and ks: "\<And>i e. dget (m_audit s) (t, i) = Some e \<Longrightarrow> ae_audit_event_id e = i"
    by (auto simp: mem_inv_def mem_streams_ok_def mem_keys_ok_def audit_key_def)
  have "events_of s t (stream_ids s (t, c)) = map ?g (stream_ids s (t, c))"
    unfolding events_of_def using st by (intro map_filter_all) force
  moreover have "map ae_audit_event_id (map ?g (stream_ids s (t, c))) = stream_ids s (t, c)"
    unfolding map_map using st ks by (intro map_idI) force
  ultimately show ?thesis by simp
qed

lemma distinct_audit_stream:
  assumes "mem_inv s"
  shows "distinct (map ae_audit_event_id (audit_stream s t c))"
proof -
  have "mset (map ae_audit_event_id (audit_stream s t c)) = mset (stream_ids s (t, c))"
    unfolding audit_stream_def mset_map mset_sort
    using map_id_events_of [OF assms, of t c] by (metis mset_map)
  moreover have "distinct (stream_ids s (t, c))"
    using assms by (simp add: mem_inv_def mem_streams_ok_def)
  ultimately show ?thesis using mset_eq_imp_distinct_iff by blast
qed

lemma sorted_audit_stream: "sorted (map audit_order (audit_stream s t c))"
  by (simp add: audit_stream_def)

text \<open>The store a read of the stream leaves: the \<^verbatim>\<open>defaultdict\<close> entry is there.\<close>

definition touched :: "string \<Rightarrow> string \<Rightarrow> mem_repo \<Rightarrow> mem_repo" where
  "touched t c s = s\<lparr>m_audit_ids_by_change := dput (t, c) (stream_ids s (t, c)) (m_audit_ids_by_change s)\<rparr>"

lemma stream_ids_touched [simp]: "stream_ids (touched t c s) k = stream_ids s k"
  by (simp add: stream_ids_def touched_def)

lemma touched_simps [simp]:
  "m_changes (touched t c s) = m_changes s" "m_audit (touched t c s) = m_audit s"
  "m_tenants_by_change_id (touched t c s) = m_tenants_by_change_id s"
  by (simp_all add: touched_def)

lemma audit_stream_touched [simp]: "audit_stream (touched t c s) t' c' = audit_stream s t' c'"
  by (simp add: audit_stream_def events_of_def)

lemma mem_inv_touched: "mem_inv s \<Longrightarrow> mem_inv (touched t c s)"
  by (simp add: mem_inv_def mem_keys_ok_def mem_tenants_ok_def mem_streams_ok_def)

lemma mem_list_audit_after_eq:
  "mem_list_audit_after t c cursor n s = (case dget (m_changes s) (t, c) of
     None \<Rightarrow> (Inl (projl (fst (get_unlocked t c s))), s)
   | Some _ \<Rightarrow> (case cursor of
        None \<Rightarrow> (Inr (slice_to n (audit_stream s t c)), touched t c s)
      | Some i \<Rightarrow> (case find_index (\<lambda>e. ae_audit_event_id e = i) (audit_stream s t c) of
          None \<Rightarrow> (Inl (AuditCursorNotFoundError t c i), touched t c s)
        | Some j \<Rightarrow> (Inr (slice_to n (drop (j + 1) (audit_stream s t c))), touched t c s))))"
proof -
  have "sort_key audit_order (events_of (touched t c s) t (stream_ids s (t, c))) = audit_stream s t c"
    by (simp add: audit_stream_def events_of_def)
  then show ?thesis
    by (simp add: mem_list_audit_after_def bnd_def get_unlocked_eq Let_def flip: stream_ids_def touched_def
        split: option.split)
qed

text \<open>
  Reading a stream page by page, each page starting after the last event of the previous one, as a
  client that polls with the last identifier it has seen does.
\<close>

fun read_pages :: "nat \<Rightarrow> string \<Rightarrow> string \<Rightarrow> string option \<Rightarrow> int \<Rightarrow> mem_repo \<Rightarrow> audit_event list" where
  "read_pages 0 t c cursor n s = []"
| "read_pages (Suc k) t c cursor n s = (case mem_list_audit_after t c cursor n s of
     (Inl _, _) \<Rightarrow> []
   | (Inr page, s') \<Rightarrow> if page = [] then []
       else page @ read_pages k t c (Some (ae_audit_event_id (last page))) n s')"

lemma read_pages_from:
  assumes inv: "mem_inv s" and here: "dget (m_changes s) (t, c) \<noteq> None" and n: "0 < n"
    and "i \<le> length (audit_stream s t c)" "length (audit_stream s t c) - i \<le> k"
    and cursor: "cursor = (if i = 0 then None else Some (ae_audit_event_id (audit_stream s t c ! (i - 1))))"
  shows "read_pages (Suc k) t c cursor n s = drop i (audit_stream s t c)"
  using assms
proof (induction k arbitrary: i cursor s)
  case (0 i cursor s)
  let ?es = "audit_stream s t c"
  from 0 have "i = length ?es" by simp
  with 0 have "fst (mem_list_audit_after t c cursor n s) = Inr []"
    using find_index_key [OF distinct_audit_stream [OF 0(1)], of "i - 1" t c]
    by (auto simp: mem_list_audit_after_eq slice_to_def)
  with \<open>i = length ?es\<close> show ?case by (auto split: prod.splits)
next
  case (Suc k i cursor s)
  let ?es = "audit_stream s t c" and ?page = "take (nat n) (drop i (audit_stream s t c))"
  from Suc.prems have page: "mem_list_audit_after t c cursor n s = (Inr ?page, touched t c s)"
    using find_index_key [OF distinct_audit_stream [OF Suc.prems(1)], of "i - 1" t c]
    by (auto simp: mem_list_audit_after_eq slice_to_def)
  show ?case
  proof (cases "?page = []")
    case True
    with page Suc.prems(3) show ?thesis by (auto simp: read_pages.simps(2) [of "Suc k"])
  next
    case False
    let ?i = "min (length ?es) (i + nat n)"
    from False Suc.prems(3) have i: "i < length ?es" "0 < ?i" by auto
    have "last ?page = ?page ! (length ?page - 1)" by (rule last_conv_nth [OF False])
    also have "\<dots> = ?es ! (i + (length ?page - 1))" using False i Suc.prems(3) by simp
    also have "i + (length ?page - 1) = ?i - 1" using i Suc.prems(3) by (simp add: min_def) linarith
    finally have last: "last ?page = ?es ! (?i - 1)" .
    have "read_pages (Suc k) t c (Some (ae_audit_event_id (last ?page))) n (touched t c s) = drop ?i ?es"
      unfolding last using Suc.prems i
      by (intro Suc.IH [where s = "touched t c s", simplified audit_stream_touched]) (auto simp: mem_inv_touched)
    then have "read_pages (Suc (Suc k)) t c cursor n s = ?page @ drop ?i ?es"
      using page False by (simp del: read_pages.simps add: read_pages.simps(2) [of "Suc k"])
    also have "\<dots> = drop i ?es"
      using append_take_drop_id [of "nat n" "drop i ?es"] by (auto simp: min_def add.commute)
    finally show ?thesis .
  qed
qed

section \<open>Histories of a repository\<close>

text \<open>
  The calls that can change a store, and the store a sequence of them leaves. A call that raises
  leaves the store it met, so a history runs on.
\<close>

datatype repo_call =
    Call_add change_record
  | Call_add_with_audit change_record audit_event
  | Call_commit change_record audit_event int
  | Call_record_audit audit_event

fun run_call :: "repo_call \<Rightarrow> mem_repo \<Rightarrow> mem_repo" where
  "run_call (Call_add r) s = snd (mem_add r s)"
| "run_call (Call_add_with_audit r e) s = snd (mem_add_with_audit r e s)"
| "run_call (Call_commit r e v) s = snd (mem_commit_transition r e v s)"
| "run_call (Call_record_audit e) s = snd (mem_record_audit e s)"

definition run_calls :: "repo_call list \<Rightarrow> mem_repo \<Rightarrow> mem_repo" where
  "run_calls cs s = fold run_call cs s"

lemma run_calls_simps [simp]: "run_calls [] s = s" "run_calls (c # cs) s = run_calls cs (run_call c s)"
  by (simp_all add: run_calls_def)

lemma mem_inv_run_call: "mem_inv s \<Longrightarrow> mem_inv (run_call c s)"
  by (cases c) (auto intro!: preserves_snd pres)

lemma mem_inv_run_calls: "mem_inv s \<Longrightarrow> mem_inv (run_calls cs s)"
  by (induction cs arbitrary: s) (simp_all add: mem_inv_run_call)

lemmas repo_call_eqs = mem_add_eq mem_add_with_audit_eq mem_commit_transition_eq mem_record_audit_eq

text \<open>An audit event, once stored, is never changed or removed.\<close>

lemma audit_run_call: "dget (m_audit s) k = Some e \<Longrightarrow> dget (m_audit (run_call c s)) k = Some e"
  by (cases c) (auto simp: repo_call_eqs split: option.split)

lemma audit_run_calls: "dget (m_audit s) k = Some e \<Longrightarrow> dget (m_audit (run_calls cs s)) k = Some e"
  by (induction cs arbitrary: s) (simp_all add: audit_run_call)

text \<open>What one tenant can see of a store, and that no call of another tenant changes it.\<close>

fun call_tenants :: "repo_call \<Rightarrow> string set" where
  "call_tenants (Call_add r) = {cr_tenant_id r}"
| "call_tenants (Call_add_with_audit r e) = {cr_tenant_id r}"
| "call_tenants (Call_commit r e v) = {cr_tenant_id r}"
| "call_tenants (Call_record_audit e) = {ae_tenant_id e}"

definition tenant_part :: "string \<Rightarrow> (string \<times> string, 'v) dict \<Rightarrow> (string \<times> string, 'v) dict" where
  "tenant_part t d = filter (\<lambda>item. fst (fst item) = t) d"

definition tenant_view :: "string \<Rightarrow> mem_repo \<Rightarrow>
    (change_key, change_record) dict \<times> (string \<times> string, audit_event) dict \<times> (string \<Rightarrow> string list)" where
  "tenant_view t s = (tenant_part t (m_changes s), tenant_part t (m_audit s), \<lambda>c. stream_ids s (t, c))"

lemma tenant_part_dput [simp]: "fst k \<noteq> t \<Longrightarrow> tenant_part t (dput k v d) = tenant_part t d"
  unfolding tenant_part_def dput_def by (induction d) auto

lemma dget_tenant_part: "dget (tenant_part t d) (t, c) = dget d (t, c)"
  using dget_filter_key [of "\<lambda>k. fst k = t" d "(t, c)"] by (simp add: tenant_part_def)

lemma stream_ids_writes:
  "stream_ids (with_audit e s) k = (if k = (ae_tenant_id e, ae_change_id e)
     then stream_ids s k @ [ae_audit_event_id e] else stream_ids s k)"
  "stream_ids (with_change r s) k = stream_ids s k"
  "stream_ids (with_new_change r s) k = stream_ids s k"
  by (simp_all add: stream_ids_def store_writes)

lemma tenant_view_run_call: "t \<notin> call_tenants c \<Longrightarrow> tenant_view t (run_call c s) = tenant_view t s"
  by (cases c) (auto simp: repo_call_eqs tenant_view_def stream_ids_writes change_key_def audit_key_def
      audit_scope_ok_def fun_eq_iff split: option.split)

lemma tenant_view_run_calls:
  "(\<And>c. c \<in> set cs \<Longrightarrow> t \<notin> call_tenants c) \<Longrightarrow> tenant_view t (run_calls cs s) = tenant_view t s"
  by (induction cs arbitrary: s) (simp_all add: tenant_view_run_call)

lemma reads_by_view:
  assumes "tenant_view t s = tenant_view t s'"
  shows "fst (mem_list_changes t n s) = fst (mem_list_changes t n s')"
    and "fst (mem_list_tenant_audit t n s) = fst (mem_list_tenant_audit t n s')"
    and "dget (m_changes s) (t, c) = dget (m_changes s') (t, c)"
    and "audit_stream s t c = audit_stream s' t c"
proof -
  from assms have ch: "tenant_part t (m_changes s) = tenant_part t (m_changes s')"
    and au: "tenant_part t (m_audit s) = tenant_part t (m_audit s')"
    and st: "stream_ids s (t, c) = stream_ids s' (t, c)" for c
    by (simp_all add: tenant_view_def fun_eq_iff)
  show "fst (mem_list_changes t n s) = fst (mem_list_changes t n s')"
    "fst (mem_list_tenant_audit t n s) = fst (mem_list_tenant_audit t n s')"
    using ch au by (simp_all add: mem_list_changes_def mem_list_tenant_audit_def tenant_part_def)
  show "dget (m_changes s) (t, c) = dget (m_changes s') (t, c)"
    by (metis ch dget_tenant_part)
  have "dget (m_audit s) (t, i) = dget (m_audit s') (t, i)" for i by (metis au dget_tenant_part)
  then show "audit_stream s t c = audit_stream s' t c"
    by (simp add: audit_stream_def events_of_def st)
qed

text \<open>The version of a stored change counts its committed transitions.\<close>

definition commits :: "change_key \<Rightarrow> repo_call \<Rightarrow> mem_repo \<Rightarrow> bool" where
  "commits k c s = (case c of Call_commit r e v \<Rightarrow> change_key r = k \<and> fst (mem_commit_transition r e v s) = Inr ()
     | _ \<Rightarrow> False)"

fun count_commits :: "change_key \<Rightarrow> repo_call list \<Rightarrow> mem_repo \<Rightarrow> nat" where
  "count_commits k [] s = 0"
| "count_commits k (c # cs) s = (if commits k c s then 1 else 0) + count_commits k cs (run_call c s)"

lemma version_run_call:
  "dget (m_changes s) k = Some r \<Longrightarrow> \<exists>r'. dget (m_changes (run_call c s)) k = Some r' \<and>
     cr_version r' = cr_version r + (if commits k c s then 1 else 0)"
  by (cases c) (auto simp: repo_call_eqs commits_def split: option.split)

lemma version_run_calls:
  "dget (m_changes s) k = Some r \<Longrightarrow> \<exists>r'. dget (m_changes (run_calls cs s)) k = Some r' \<and>
     cr_version r' = cr_version r + int (count_commits k cs s)"
proof (induction cs arbitrary: s r)
  case (Cons c cs)
  from version_run_call [OF Cons.prems, of c] obtain r' where
    "dget (m_changes (run_call c s)) k = Some r'"
    "cr_version r' = cr_version r + (if commits k c s then 1 else 0)" by blast
  with Cons.IH [OF this(1)] show ?case by auto
qed simp

section \<open>Properties of reachable stores\<close>

definition store_change :: "string \<Rightarrow> change_record" where
  "store_change t = \<lparr>cr_change_id = ''c1'', cr_tenant_id = t, cr_event_id = ''e1'', cr_change_type = ''schema'',
     cr_title = ''title'', cr_description = ''text'',
     cr_source = \<lparr>src_type = ''github'', src_external_id = ''x1'', src_url = ''https://example.com/''\<rparr>,
     cr_environment = Env_SANDBOX, cr_status = WS_RECEIVED, cr_risk_level = RL_UNKNOWN,
     cr_current_phase = WS_RECEIVED, cr_workflow_execution_id = None, cr_plan_version = 0, cr_plan_hash = None,
     cr_created_at = 0, cr_updated_at = 0, cr_created_by = ''user'', cr_version = 1\<rparr>"

definition store_event :: "string \<Rightarrow> string \<Rightarrow> audit_event" where
  "store_event t i = \<lparr>ae_audit_event_id = i, ae_tenant_id = t, ae_change_id = ''c1'', ae_trace_id = ''tr'',
     ae_event_type = ''workflow.transition'', ae_actor_type = Actor_SERVICE, ae_actor_id = ''svc'', ae_resource = ''r'',
     ae_action = ''a'', ae_decision_id = None, ae_input_hash = ''h'', ae_output_hash = ''h'', ae_status = Audit_SUCCESS,
     ae_redacted_summary = ''s'', ae_created_at = 0\<rparr>"

definition store_calls :: "repo_call list" where
  "store_calls = [Call_add (store_change ''t1''), Call_record_audit (store_event ''t1'' ''a1''),
     Call_commit ((store_change ''t1'')\<lparr>cr_version := 2\<rparr>) (store_event ''t1'' ''a2'') 1]"

lemmas store_run = store_calls_def repo_call_eqs store_writes change_key_def audit_key_def audit_scope_ok_def mem_empty_def
  store_change_def store_event_def dget_or_def

lemma mem_inv_reachable: "mem_inv (run_calls cs mem_empty)"
  by (rule mem_inv_run_calls [OF mem_inv_empty])


text \<open>
  Cursor pagination is complete: for an existing change of a reachable store, following the cursor with pages
  of any positive size reads exactly the change's audit stream, no event lost or repeated at a page boundary, and
  the reading ends (one request more than there are events always suffices).
\<close>

theorem audit_pages_complete:
  assumes "s = run_calls before mem_empty" "dget (m_changes s) (t, c) \<noteq> None" "0 < n"
    and "length (audit_stream s t c) \<le> k"
  shows "read_pages (Suc k) t c None n s = audit_stream s t c"
  using read_pages_from [of s t c n 0 k None] assms mem_inv_reachable by simp

theorem audit_pages_complete_witness:
  "read_pages 10 ''t1'' ''c1'' None 1 (run_calls store_calls mem_empty) = audit_stream (run_calls store_calls mem_empty) ''t1'' ''c1'' \<and>
   length (audit_stream (run_calls store_calls mem_empty) ''t1'' ''c1'') = 2"
proof -
  have l: "length (audit_stream (run_calls store_calls mem_empty) ''t1'' ''c1'') = 2"
    and d: "dget (m_changes (run_calls store_calls mem_empty)) (''t1'', ''c1'') \<noteq> None"
    by (simp_all add: audit_stream_def events_of_def stream_ids_def List.map_filter_simps store_run)
  have ten: "(10::nat) = Suc 9" by simp
  show ?thesis unfolding ten using audit_pages_complete [OF refl d, of 1 9] l by simp
qed

text \<open>
  The change store isolates tenants: whatever other tenants write, a tenant's changes, its audit streams and
  the listings computed from them stay the same.
\<close>

theorem change_store_tenant_isolation:
  assumes "list_all (\<lambda>call. t \<notin> call_tenants call) cs"
  shows "let s' = run_calls cs s in fst (mem_list_changes t n s') = fst (mem_list_changes t n s) \<and>
    fst (mem_list_tenant_audit t n s') = fst (mem_list_tenant_audit t n s) \<and>
    dget (m_changes s') (t, c) = dget (m_changes s) (t, c) \<and> audit_stream s' t c = audit_stream s t c"
proof -
  have "tenant_view t (run_calls cs s) = tenant_view t s"
    using assms by (intro tenant_view_run_calls) (simp add: list_all_iff)
  from reads_by_view [OF this] show ?thesis by (simp add: Let_def)
qed

theorem change_store_tenant_isolation_witness:
  "audit_stream (run_calls store_calls mem_empty) ''t2'' ''c1'' = audit_stream mem_empty ''t2'' ''c1''"
  using change_store_tenant_isolation [of "''t2''" store_calls mem_empty 1 "''c1''"]
  by (simp add: Let_def store_calls_def store_change_def store_event_def)

text \<open>
  A change's version counts its committed transitions exactly: from its stored version, any sequence of calls
  (refused commits and audit writes included) leaves it at that version plus the number of commits of this change
  that succeeded.
\<close>

theorem version_counts_commits:
  assumes "dget (m_changes s) k = Some r"
  shows "\<exists>r'. dget (m_changes (run_calls cs s)) k = Some r' \<and> cr_version r' = cr_version r + int (count_commits k cs s)"
  using assms by (rule version_run_calls)

theorem version_counts_commits_witness:
  "\<exists>r'. dget (m_changes (run_calls (tl store_calls) (run_calls [hd store_calls] mem_empty))) (''t1'', ''c1'') = Some r' \<and>
     cr_version r' = 2"
proof -
  have d: "dget (m_changes (run_calls [hd store_calls] mem_empty)) (''t1'', ''c1'') = Some (store_change ''t1'')"
    by (simp add: store_calls_def mem_add_eq mem_empty_def store_writes change_key_def store_change_def)
  have "count_commits (''t1'', ''c1'') (tl store_calls) (run_calls [hd store_calls] mem_empty) = 1"
    by (simp add: store_run commits_def)
  moreover have "cr_version (store_change ''t1'') = 1" by (simp add: store_change_def)
  ultimately show ?thesis using version_counts_commits [OF d, of "tl store_calls"] by simp
qed

end
