(* ===== verification/Governance_Store.thy ===== *)
theory Governance_Store
  imports Policy Change_Store
begin

text \<open>
  The governance repository of the Tool Gateway, \<^verbatim>\<open>services/tool-gateway/src/changeops_tool_gateway\<close>:
  the errors of \<^verbatim>\<open>errors.py\<close>, the approval-request and execution records of \<^verbatim>\<open>models.py\<close> with
  their life-cycle validators, and \<^verbatim>\<open>InMemoryGovernanceRepository\<close> of \<^verbatim>\<open>repository.py\<close>.
\<close>

section \<open>Errors\<close>

datatype gateway_error =
    AuthenticationError string
  | AuthorizationError string
  | ApprovalRequiredError
  | PolicyDeniedError
  | GatewayNotFoundError string
  | GatewayConflictError string string
  | GatewayValidationError string
  | RateLimitedError
  | ToolAdapterError string string bool
  | ApprovalCallbackDeliveryError
  | PersistenceUnavailable
  | UnhandledError

text \<open>
  \<^const>\<open>UnhandledError\<close> stands for an exception that is not a \<^verbatim>\<open>GatewayError\<close> (a Pydantic
  \<^verbatim>\<open>ValidationError\<close>, a \<^verbatim>\<open>RuntimeError\<close>): the service answers 500.
\<close>

fun gateway_error_code :: "gateway_error \<Rightarrow> string" where
  "gateway_error_code (AuthenticationError _) = ''AUTHENTICATION_REQUIRED''"
| "gateway_error_code (AuthorizationError _) = ''AUTHORIZATION_DENIED''"
| "gateway_error_code ApprovalRequiredError = ''APPROVAL_REQUIRED''"
| "gateway_error_code PolicyDeniedError = ''POLICY_DENIED''"
| "gateway_error_code (GatewayNotFoundError _) = ''NOT_FOUND''"
| "gateway_error_code (GatewayConflictError _ code) = code"
| "gateway_error_code (GatewayValidationError _) = ''VALIDATION''"
| "gateway_error_code RateLimitedError = ''RATE_LIMITED''"
| "gateway_error_code (ToolAdapterError code _ _) = code"
| "gateway_error_code ApprovalCallbackDeliveryError = ''APPROVAL_CALLBACK_UNAVAILABLE''"
| "gateway_error_code PersistenceUnavailable = ''PERSISTENCE_UNAVAILABLE''"
| "gateway_error_code UnhandledError = ''INTERNAL''"

fun gateway_status_code :: "gateway_error \<Rightarrow> nat" where
  "gateway_status_code (AuthenticationError _) = 401"
| "gateway_status_code (AuthorizationError _) = 403"
| "gateway_status_code ApprovalRequiredError = 409"
| "gateway_status_code PolicyDeniedError = 403"
| "gateway_status_code (GatewayNotFoundError _) = 404"
| "gateway_status_code (GatewayConflictError _ _) = 409"
| "gateway_status_code (GatewayValidationError _) = 422"
| "gateway_status_code RateLimitedError = 429"
| "gateway_status_code (ToolAdapterError _ _ transient) = (if transient then 503 else 502)"
| "gateway_status_code ApprovalCallbackDeliveryError = 503"
| "gateway_status_code PersistenceUnavailable = 503"
| "gateway_status_code UnhandledError = 500"

section \<open>Records\<close>

datatype approval_request_status = AR_PENDING | AR_APPROVED | AR_REJECTED | AR_CHANGES_REQUESTED

datatype tool_execution_status = TE_RESERVED | TE_SUCCEEDED | TE_FAILED

record approval_request =
  ar_approval_id :: string
  ar_tenant_id :: string
  ar_change_id :: string
  ar_plan_id :: string
  ar_plan_hash :: string
  ar_plan_version :: int
  ar_environment :: change_environment
  ar_scope :: "string list"
  ar_status :: approval_request_status
  ar_requested_by :: string
  ar_requested_at :: instant
  ar_expires_at :: instant
  ar_decided_by :: "string option"
  ar_decided_by_roles :: "user_role list"
  ar_decided_at :: "instant option"
  ar_comment :: "string option"
  ar_version :: int

definition strip_approval_request :: "approval_request \<Rightarrow> approval_request" where
  "strip_approval_request r = r\<lparr>ar_approval_id := strip (ar_approval_id r), ar_tenant_id := strip (ar_tenant_id r),
     ar_change_id := strip (ar_change_id r), ar_plan_id := strip (ar_plan_id r), ar_plan_hash := strip (ar_plan_hash r),
     ar_scope := map strip (ar_scope r), ar_requested_by := strip (ar_requested_by r),
     ar_decided_by := map_option strip (ar_decided_by r), ar_comment := map_option strip (ar_comment r)\<rparr>"

definition approval_request_fields_ok :: "approval_request \<Rightarrow> bool" where
  "approval_request_fields_ok r \<longleftrightarrow> nonempty_str (ar_approval_id r) \<and> nonempty_str (ar_tenant_id r) \<and>
     nonempty_str (ar_change_id r) \<and> nonempty_str (ar_plan_id r) \<and> is_sha256_digest (ar_plan_hash r) \<and>
     1 \<le> ar_plan_version r \<and> ar_scope r \<noteq> [] \<and> list_all nonempty_str (ar_scope r) \<and>
     nonempty_str (ar_requested_by r) \<and> opt_ok nonempty_str (ar_decided_by r) \<and>
     opt_ok nonempty_str (ar_comment r) \<and> 1 \<le> ar_version r"

definition validate_lifecycle :: "approval_request \<Rightarrow> bool" where
  "validate_lifecycle r = (let decided = (ar_status r \<noteq> AR_PENDING) in
     \<not> ar_expires_at r \<le> ar_requested_at r \<and>
     \<not> (decided \<and> (ar_decided_by r = None \<or> ar_decided_at r = None \<or> ar_comment r = None)) \<and>
     \<not> (\<not> decided \<and> (ar_decided_by r \<noteq> None \<or> ar_decided_at r \<noteq> None \<or> ar_comment r \<noteq> None)) \<and>
     \<not> (\<not> decided \<and> ar_decided_by_roles r \<noteq> []) \<and>
     \<not> (case ar_decided_at r of None \<Rightarrow> False | Some t \<Rightarrow> t < ar_requested_at r))"

definition ApprovalRequestRecord_validate :: "approval_request \<Rightarrow> approval_request option" where
  "ApprovalRequestRecord_validate r = (let r' = strip_approval_request r in
     if approval_request_fields_ok r' \<and> validate_lifecycle r' then Some r' else None)"

text \<open>\<^verbatim>\<open>as_approval\<close>: no approval unless approved; constructing the contract may fail validation.\<close>

definition as_approval :: "approval_request \<Rightarrow> gateway_error + approval option" where
  "as_approval r = (if ar_status r \<noteq> AR_APPROVED then Inr None
     else case (ar_decided_by r, ar_decided_at r, ar_comment r) of
       (Some by, Some at, Some comment) \<Rightarrow>
         (case Approval_validate \<lparr>ap_approval_id = ar_approval_id r, ap_tenant_id = ar_tenant_id r,
            ap_change_id = ar_change_id r, ap_plan_id = ar_plan_id r, ap_plan_hash = ar_plan_hash r,
            ap_plan_version = ar_plan_version r, ap_environment = ar_environment r, ap_decision = AD_APPROVED,
            ap_scope = ar_scope r, ap_approved_by = by, ap_approved_by_roles = ar_decided_by_roles r,
            ap_approved_at = at, ap_expires_at = ar_expires_at r, ap_comment = comment\<rparr> of
            None \<Rightarrow> Inl UnhandledError | Some a \<Rightarrow> Inr (Some a))
     | _ \<Rightarrow> Inl UnhandledError)"

record tool_execution =
  te_execution_id :: string
  te_tenant_id :: string
  te_change_id :: string
  te_intent_id :: string
  te_idempotency_key :: string
  te_input_hash :: string
  te_approval_id :: "string option"
  te_decision_id :: string
  te_status :: tool_execution_status
  te_attempt_count :: int
  te_output :: "(string \<times> json) list option"
  te_output_hash :: "string option"
  te_error_code :: "string option"
  te_created_at :: instant
  te_updated_at :: instant

definition strip_execution :: "tool_execution \<Rightarrow> tool_execution" where
  "strip_execution r = r\<lparr>te_execution_id := strip (te_execution_id r), te_tenant_id := strip (te_tenant_id r),
     te_change_id := strip (te_change_id r), te_intent_id := strip (te_intent_id r),
     te_idempotency_key := strip (te_idempotency_key r), te_input_hash := strip (te_input_hash r),
     te_approval_id := map_option strip (te_approval_id r), te_decision_id := strip (te_decision_id r),
     te_output := map_option strip_object (te_output r), te_output_hash := map_option strip (te_output_hash r),
     te_error_code := map_option strip (te_error_code r)\<rparr>"

definition execution_fields_ok :: "tool_execution \<Rightarrow> bool" where
  "execution_fields_ok r \<longleftrightarrow> nonempty_str (te_execution_id r) \<and> nonempty_str (te_tenant_id r) \<and>
     nonempty_str (te_change_id r) \<and> nonempty_str (te_intent_id r) \<and> nonempty_str (te_idempotency_key r) \<and>
     is_sha256_digest (te_input_hash r) \<and> opt_ok nonempty_str (te_approval_id r) \<and>
     nonempty_str (te_decision_id r) \<and> 1 \<le> te_attempt_count r \<and> opt_ok is_sha256_digest (te_output_hash r) \<and>
     opt_ok nonempty_str (te_error_code r)"

definition validate_status_fields :: "tool_execution \<Rightarrow> bool" where
  "validate_status_fields r \<longleftrightarrow>
     \<not> (te_status r = TE_SUCCEEDED \<and> (te_output r = None \<or> te_output_hash r = None \<or> te_error_code r \<noteq> None)) \<and>
     \<not> (te_status r = TE_FAILED \<and> te_error_code r = None) \<and>
     \<not> (te_status r = TE_RESERVED \<and> (te_output r \<noteq> None \<or> te_output_hash r \<noteq> None \<or> te_error_code r \<noteq> None))"

definition ToolExecutionRecord_validate :: "tool_execution \<Rightarrow> tool_execution option" where
  "ToolExecutionRecord_validate r = (let r' = strip_execution r in
     if execution_fields_ok r' \<and> validate_status_fields r' then Some r' else None)"

record execution_reservation =
  er_record :: tool_execution
  er_replayed :: bool

section \<open>The repository\<close>

record gov_repo =
  g_plans :: "(string \<times> string \<times> string, remediation_plan) dict"
  g_approvals :: "(string \<times> string, approval_request) dict"
  g_approval_tenants :: "(string, string set) dict"
  g_executions :: "(string \<times> string, tool_execution) dict"
  g_execution_ids :: "(string \<times> string, string) dict"
  g_audit :: "(string \<times> string, audit_event) dict"

definition gov_empty :: gov_repo where
  "gov_empty = \<lparr>g_plans = [], g_approvals = [], g_approval_tenants = [], g_executions = [],
     g_execution_ids = [], g_audit = []\<rparr>"

type_synonym 'a gov_op = "(gov_repo, gateway_error, 'a) op"

text \<open>Equality of plans as Pydantic compares them: JSON arguments with Python's \<^verbatim>\<open>==\<close>.\<close>

definition step_eq :: "remediation_step \<Rightarrow> remediation_step \<Rightarrow> bool" where
  "step_eq t u \<longleftrightarrow> t\<lparr>st_arguments := []\<rparr> = u\<lparr>st_arguments := []\<rparr> \<and>
     py_eq (JObj (st_arguments t)) (JObj (st_arguments u))"

definition plan_eq :: "remediation_plan \<Rightarrow> remediation_plan \<Rightarrow> bool" where
  "plan_eq p q \<longleftrightarrow> p\<lparr>pl_steps := []\<rparr> = q\<lparr>pl_steps := []\<rparr> \<and> list_all2 step_eq (pl_steps p) (pl_steps q)"

definition same_approval_request :: "approval_request \<Rightarrow> approval_request \<Rightarrow> bool" where
  "same_approval_request current candidate \<longleftrightarrow> current\<lparr>ar_requested_at := 0\<rparr> = candidate\<lparr>ar_requested_at := 0\<rparr>"

record decision_args =
  da_target :: approval_request_status
  da_expected_version :: int
  da_decided_by :: string
  da_decided_by_roles :: "user_role list"
  da_comment :: string

definition same_approval_decision :: "approval_request \<Rightarrow> decision_args \<Rightarrow> bool" where
  "same_approval_decision current a \<longleftrightarrow> ar_status current = da_target a \<and>
     ar_version current = da_expected_version a + 1 \<and> ar_decided_by current = Some (da_decided_by a) \<and>
     ar_decided_by_roles current = da_decided_by_roles a \<and> ar_comment current = Some (da_comment a)"

definition conflict :: "string \<Rightarrow> gateway_error" where
  "conflict detail = GatewayConflictError detail ''CONFLICT''"

definition create_approval_request ::
  "(instant \<Rightarrow> string) \<Rightarrow> approval_request \<Rightarrow> remediation_plan \<Rightarrow> approval_request gov_op" where
  "create_approval_request iso_text rec plan s =
    (let plan_key = (pl_tenant_id plan, pl_change_id plan, pl_plan_id plan);
         approval_key = (ar_tenant_id rec, ar_approval_id rec);
         existing_plan = dget (g_plans s) plan_key in
     if calculate_plan_hash iso_text plan \<noteq> ar_plan_hash rec
     then raise (conflict ''Approval request plan hash is not canonical.'') s
     else if (case existing_plan of None \<Rightarrow> False | Some p \<Rightarrow> calculate_plan_hash iso_text p \<noteq> ar_plan_hash rec)
     then raise (conflict ''A different plan already uses this plan identifier.'') s
     else case dget (g_approvals s) approval_key of
       Some existing_approval \<Rightarrow>
         if (case existing_plan of None \<Rightarrow> False | Some p \<Rightarrow> plan_eq p plan) \<and>
            same_approval_request existing_approval rec
         then ret existing_approval s
         else raise (conflict ''Approval request identifier already exists.'') s
     | None \<Rightarrow> ret rec (s\<lparr>g_plans := dput plan_key plan (g_plans s),
         g_approvals := dput approval_key rec (g_approvals s),
         g_approval_tenants := dput (ar_approval_id rec)
           (insert (ar_tenant_id rec) (dget_or (g_approval_tenants s) (ar_approval_id rec) {}))
           (g_approval_tenants s)\<rparr>))"

definition get_plan :: "string \<Rightarrow> string \<Rightarrow> string \<Rightarrow> remediation_plan gov_op" where
  "get_plan tenant_id change_id plan_id s =
     validated (GatewayNotFoundError ''plan'') (dget (g_plans s) (tenant_id, change_id, plan_id)) s"

definition get_approval_request :: "string \<Rightarrow> string \<Rightarrow> approval_request gov_op" where
  "get_approval_request tenant_id approval_id s =
     validated (GatewayNotFoundError ''approval'') (dget (g_approvals s) (tenant_id, approval_id)) s"

definition list_approval_requests :: "string \<Rightarrow> int \<Rightarrow> approval_request list gov_op" where
  "list_approval_requests tenant_id limit s = ret (slice_to limit
     (sort_desc (\<lambda>item. (ar_requested_at item, ar_approval_id item))
       (map snd (filter (\<lambda>item. fst (fst item) = tenant_id) (g_approvals s))))) s"

definition decided_record :: "approval_request \<Rightarrow> decision_args \<Rightarrow> instant \<Rightarrow> approval_request" where
  "decided_record current a decided_at = current\<lparr>ar_status := da_target a, ar_decided_by := Some (da_decided_by a),
     ar_decided_by_roles := da_decided_by_roles a, ar_decided_at := Some decided_at,
     ar_comment := Some (da_comment a), ar_version := ar_version current + 1\<rparr>"

definition put_approval :: "string \<times> string \<Rightarrow> approval_request \<Rightarrow> approval_request gov_op" where
  "put_approval key updated s = ret updated (s\<lparr>g_approvals := dput key updated (g_approvals s)\<rparr>)"

definition decide_approval :: "string \<Rightarrow> string \<Rightarrow> decision_args \<Rightarrow> instant \<Rightarrow> approval_request gov_op" where
  "decide_approval tenant_id approval_id a decided_at =
     bnd (get_approval_request tenant_id approval_id) (\<lambda>current.
       if ar_status current \<noteq> AR_PENDING
       then (if same_approval_decision current a then ret current
             else raise (conflict ''Approval request already has a final decision.''))
       else if ar_version current \<noteq> da_expected_version a
       then raise (GatewayConflictError ''Approval request version is stale.'' ''VERSION_CONFLICT'')
       else if ar_expires_at current \<le> decided_at
       then raise (GatewayConflictError ''Approval request has expired.'' ''APPROVAL_EXPIRED'')
       else if ar_requested_by current = da_decided_by a
       then raise (AuthorizationError ''Separation of duties prevents the plan requester from approving it.'')
       else bnd (validated UnhandledError (ApprovalRequestRecord_validate (decided_record current a decided_at)))
         (put_approval (tenant_id, approval_id)))"

definition require_stored_approval :: "tool_intent \<Rightarrow> policy_decision \<Rightarrow> approval option \<Rightarrow> instant \<Rightarrow> unit gov_op" where
  "require_stored_approval intent decision approval now =
     (if \<not> pd_approval_required decision then ret ()
      else case approval of
        None \<Rightarrow> raise ApprovalRequiredError
      | Some ap \<Rightarrow> bnd (get_approval_request (ti_tenant_id intent) (ap_approval_id ap)) (\<lambda>current.
          bnd (lift_sum (as_approval current)) (\<lambda>stored.
            case stored of
              None \<Rightarrow> raise ApprovalRequiredError
            | Some st \<Rightarrow>
                if st \<noteq> ap \<or> ap_expires_at st \<le> now then raise ApprovalRequiredError
                else if ti_step_id intent \<notin> set (ap_scope st) \<or> ap_plan_hash st \<noteq> ti_plan_hash intent
                then raise ApprovalRequiredError
                else ret ())))"

definition execution_id_for :: "string \<Rightarrow> string \<Rightarrow> string" where
  "execution_id_for tenant_id key = ''execution_'' @ take 24 (drop 7 (sha256_digest (JObj
     [(''tenant_id'', JStr tenant_id), (''key'', JStr key)])))"

definition put_execution :: "string \<times> string \<Rightarrow> tool_execution \<Rightarrow> tool_execution gov_op" where
  "put_execution key r s = ret r (s\<lparr>g_executions := dput key r (g_executions s)\<rparr>)"

definition retry_record ::
  "tool_execution \<Rightarrow> tool_intent \<Rightarrow> policy_decision \<Rightarrow> approval option \<Rightarrow> instant \<Rightarrow> tool_execution" where
  "retry_record existing intent decision approval now = existing\<lparr>te_intent_id := ti_intent_id intent,
     te_decision_id := pd_decision_id decision, te_approval_id := map_option ap_approval_id approval,
     te_status := TE_RESERVED, te_attempt_count := te_attempt_count existing + 1, te_output := None,
     te_output_hash := None, te_error_code := None, te_updated_at := now\<rparr>"

definition new_execution ::
  "string \<Rightarrow> tool_intent \<Rightarrow> policy_decision \<Rightarrow> approval option \<Rightarrow> string \<Rightarrow> instant \<Rightarrow> tool_execution" where
  "new_execution execution_id intent decision approval input_hash now =
     \<lparr>te_execution_id = execution_id, te_tenant_id = ti_tenant_id intent, te_change_id = ti_change_id intent,
      te_intent_id = ti_intent_id intent, te_idempotency_key = ti_idempotency_key intent,
      te_input_hash = input_hash, te_approval_id = map_option ap_approval_id approval,
      te_decision_id = pd_decision_id decision, te_status = TE_RESERVED, te_attempt_count = 1,
      te_output = None, te_output_hash = None, te_error_code = None, te_created_at = now, te_updated_at = now\<rparr>"

text \<open>
  \<^verbatim>\<open>reserve_execution\<close>. The lookup \<^verbatim>\<open>self._executions[(tenant, existing_id)]\<close> is a \<^verbatim>\<open>KeyError\<close>
  when the identifier has no record; the invariant below rules that out.
\<close>

definition reserve_execution ::
  "tool_intent \<Rightarrow> policy_decision \<Rightarrow> approval option \<Rightarrow> string \<Rightarrow> instant \<Rightarrow> execution_reservation gov_op" where
  "reserve_execution intent decision approval input_hash now =
    (let key = (ti_tenant_id intent, ti_idempotency_key intent);
         fresh = (\<lambda>r. \<lparr>er_record = r, er_replayed = False\<rparr>) in
     bnd (require_stored_approval intent decision approval now) (\<lambda>_ s.
       case dget (g_execution_ids s) key of
         Some existing_id \<Rightarrow>
           (case dget (g_executions s) (ti_tenant_id intent, existing_id) of
              None \<Rightarrow> raise UnhandledError s
            | Some existing \<Rightarrow>
                if te_input_hash existing \<noteq> input_hash
                then raise (GatewayConflictError
                  ''Idempotency key was already used for a different tool action.'' ''IDEMPOTENCY_CONFLICT'') s
                else if te_status existing = TE_SUCCEEDED
                then ret \<lparr>er_record = existing, er_replayed = True\<rparr> s
                else if te_status existing = TE_RESERVED \<and> te_updated_at existing > now - minutes 2
                then raise (GatewayConflictError
                  ''The idempotent tool action is already in progress.'' ''EXECUTION_IN_PROGRESS'') s
                else bnd (validated UnhandledError (ToolExecutionRecord_validate
                       (retry_record existing intent decision approval now))) (\<lambda>reserved.
                     bnd (put_execution (ti_tenant_id intent, existing_id) reserved) (\<lambda>r. ret (fresh r))) s)
       | None \<Rightarrow>
           (let execution_id = execution_id_for (ti_tenant_id intent) (ti_idempotency_key intent) in
            bnd (validated UnhandledError (ToolExecutionRecord_validate
               (new_execution execution_id intent decision approval input_hash now))) (\<lambda>rec.
            bnd (put_execution (ti_tenant_id intent, execution_id) rec) (\<lambda>r s.
            ret (fresh r) (s\<lparr>g_execution_ids := dput key execution_id (g_execution_ids s)\<rparr>))) s)))"

definition reserved_execution :: "string \<Rightarrow> string \<Rightarrow> string \<Rightarrow> tool_execution gov_op" where
  "reserved_execution tenant_id change_id execution_id s = (case dget (g_executions s) (tenant_id, execution_id) of
     None \<Rightarrow> raise (GatewayNotFoundError ''tool execution'') s
   | Some current \<Rightarrow>
       if te_change_id current \<noteq> change_id then raise (GatewayNotFoundError ''tool execution'') s
       else if te_status current \<noteq> TE_RESERVED then raise (conflict ''Tool execution is not reserved.'') s
       else ret current s)"

definition complete_execution ::
  "string \<Rightarrow> string \<Rightarrow> string \<Rightarrow> (string \<times> json) list \<Rightarrow> string \<Rightarrow> instant \<Rightarrow> tool_execution gov_op" where
  "complete_execution tenant_id change_id execution_id output output_hash completed_at =
     bnd (reserved_execution tenant_id change_id execution_id) (\<lambda>current.
     bnd (validated UnhandledError (ToolExecutionRecord_validate (current\<lparr>te_status := TE_SUCCEEDED,
        te_output := Some output, te_output_hash := Some output_hash, te_updated_at := completed_at\<rparr>)))
     (put_execution (tenant_id, execution_id)))"

definition fail_execution :: "string \<Rightarrow> string \<Rightarrow> string \<Rightarrow> string \<Rightarrow> instant \<Rightarrow> tool_execution gov_op" where
  "fail_execution tenant_id change_id execution_id error_code failed_at =
     bnd (reserved_execution tenant_id change_id execution_id) (\<lambda>current.
     bnd (validated UnhandledError (ToolExecutionRecord_validate (current\<lparr>te_status := TE_FAILED,
        te_error_code := Some error_code, te_updated_at := failed_at\<rparr>)))
     (put_execution (tenant_id, execution_id)))"

definition gov_record_audit :: "audit_event \<Rightarrow> unit gov_op" where
  "gov_record_audit event s = (if dget (g_audit s) (audit_key event) \<noteq> None
     then raise (conflict ''Audit event identifier already exists.'') s
     else (Inr (), s\<lparr>g_audit := dput (audit_key event) event (g_audit s)\<rparr>))"

definition gov_list_audit :: "string \<Rightarrow> int \<Rightarrow> audit_event list gov_op" where
  "gov_list_audit tenant_id limit s = ret (slice_to limit (sort_desc audit_order
     (map snd (filter (\<lambda>item. fst (fst item) = tenant_id) (g_audit s))))) s"

section \<open>Histories\<close>

datatype gov_call =
    GC_create approval_request remediation_plan
  | GC_decide string string decision_args instant
  | GC_reserve tool_intent policy_decision "approval option" string instant
  | GC_complete string string string "(string \<times> json) list" string instant
  | GC_fail string string string string instant
  | GC_audit audit_event

fun run_gov :: "(instant \<Rightarrow> string) \<Rightarrow> gov_call \<Rightarrow> gov_repo \<Rightarrow> gov_repo" where
  "run_gov iso_text (GC_create r p) s = snd (create_approval_request iso_text r p s)"
| "run_gov iso_text (GC_decide t i a now) s = snd (decide_approval t i a now s)"
| "run_gov iso_text (GC_reserve it d ap h now) s = snd (reserve_execution it d ap h now s)"
| "run_gov iso_text (GC_complete t c x out h now) s = snd (complete_execution t c x out h now s)"
| "run_gov iso_text (GC_fail t c x e now) s = snd (fail_execution t c x e now s)"
| "run_gov iso_text (GC_audit e) s = snd (gov_record_audit e s)"

definition run_govs :: "(instant \<Rightarrow> string) \<Rightarrow> gov_call list \<Rightarrow> gov_repo \<Rightarrow> gov_repo" where
  "run_govs iso_text cs s = fold (run_gov iso_text) cs s"

lemma run_govs_simps [simp]:
  "run_govs iso_text [] s = s" "run_govs iso_text (c # cs) s = run_govs iso_text cs (run_gov iso_text c s)"
  by (simp_all add: run_govs_def)

lemma get_approval_request_eq:
  "get_approval_request t i s = (case dget (g_approvals s) (t, i) of
     None \<Rightarrow> (Inl (GatewayNotFoundError ''approval''), s) | Some r \<Rightarrow> (Inr r, s))"
  by (simp add: get_approval_request_def split: option.split)

text \<open>What a decision does, on every branch.\<close>

lemma decide_approval_cases:
  assumes "decide_approval t i a now s = (res, s')"
  shows "(\<exists>e. res = Inl e \<and> s' = s) \<or>
    (\<exists>cur. dget (g_approvals s) (t, i) = Some cur \<and> ar_status cur \<noteq> AR_PENDING \<and>
       same_approval_decision cur a \<and> res = Inr cur \<and> s' = s) \<or>
    (\<exists>cur r. dget (g_approvals s) (t, i) = Some cur \<and> ar_status cur = AR_PENDING \<and>
       ar_version cur = da_expected_version a \<and> now < ar_expires_at cur \<and> ar_requested_by cur \<noteq> da_decided_by a \<and>
       ApprovalRequestRecord_validate (decided_record cur a now) = Some r \<and> res = Inr r \<and>
       s' = s\<lparr>g_approvals := dput (t, i) r (g_approvals s)\<rparr>)"
proof (cases "dget (g_approvals s) (t, i)")
  case None
  with assms show ?thesis by (auto simp: decide_approval_def bnd_def get_approval_request_eq)
next
  case (Some cur)
  with assms show ?thesis
    by (cases "ApprovalRequestRecord_validate (decided_record cur a now)")
      (auto simp: decide_approval_def bnd_def get_approval_request_eq put_approval_def split: if_splits)
qed

lemma require_stored_approval_state: "snd (require_stored_approval it d ap now s) = s"
  by (auto simp: require_stored_approval_def bnd_def get_approval_request_eq split: option.split sum.split)

lemma require_stored_approval_ok:
  assumes "require_stored_approval it d ap now s = (Inr x, s')" "pd_approval_required d"
  shows "\<exists>a r. ap = Some a \<and> dget (g_approvals s) (ti_tenant_id it, ap_approval_id a) = Some r \<and>
    as_approval r = Inr (Some a) \<and> now < ap_expires_at a \<and> ti_step_id it \<in> set (ap_scope a) \<and>
    ap_plan_hash a = ti_plan_hash it"
  using assms
  by (auto simp: require_stored_approval_def bnd_def get_approval_request_eq split: option.splits sum.splits if_splits)

text \<open>What a reservation does: refuse, replay, retry in place or create; only the last two write.\<close>

definition execution_key :: "tool_intent \<Rightarrow> string \<times> string" where
  "execution_key it = (ti_tenant_id it, ti_idempotency_key it)"

lemma reserve_execution_cases:
  assumes "reserve_execution it d ap h now s = (res, s')"
  obtains (refused) e where "res = Inl e" "s' = s"
    | (replayed) i r where "dget (g_execution_ids s) (execution_key it) = Some i"
        "dget (g_executions s) (ti_tenant_id it, i) = Some r" "te_status r = TE_SUCCEEDED" "te_input_hash r = h"
        "res = Inr \<lparr>er_record = r, er_replayed = True\<rparr>" "s' = s"
    | (retried) i r r' where "dget (g_execution_ids s) (execution_key it) = Some i"
        "dget (g_executions s) (ti_tenant_id it, i) = Some r" "te_input_hash r = h" "te_status r \<noteq> TE_SUCCEEDED"
        "te_status r = TE_RESERVED \<Longrightarrow> te_updated_at r \<le> now - minutes 2"
        "ToolExecutionRecord_validate (retry_record r it d ap now) = Some r'"
        "res = Inr \<lparr>er_record = r', er_replayed = False\<rparr>"
        "s' = s\<lparr>g_executions := dput (ti_tenant_id it, i) r' (g_executions s)\<rparr>"
    | (created) r where "dget (g_execution_ids s) (execution_key it) = None"
        "ToolExecutionRecord_validate (new_execution (execution_id_for (ti_tenant_id it) (ti_idempotency_key it))
           it d ap h now) = Some r"
        "res = Inr \<lparr>er_record = r, er_replayed = False\<rparr>"
        "s' = s\<lparr>g_executions := dput (ti_tenant_id it, execution_id_for (ti_tenant_id it) (ti_idempotency_key it)) r
           (g_executions s), g_execution_ids := dput (execution_key it)
           (execution_id_for (ti_tenant_id it) (ti_idempotency_key it)) (g_execution_ids s)\<rparr>"
proof (cases "require_stored_approval it d ap now s")
  case (Pair a s1)
  have s1: "s1 = s" using require_stored_approval_state [of it d ap now s] Pair by simp
  show ?thesis
  proof (cases a)
    case (Inl e)
    with assms Pair s1 show ?thesis by (intro refused) (auto simp: reserve_execution_def Let_def bnd_def)
  next
    case (Inr u)
    note run = assms [unfolded reserve_execution_def Let_def bnd_def Pair Inr s1, simplified]
    show ?thesis
    proof (cases "dget (g_execution_ids s) (execution_key it)")
      case None
      show ?thesis
        by (cases "ToolExecutionRecord_validate (new_execution (execution_id_for (ti_tenant_id it)
            (ti_idempotency_key it)) it d ap h now)")
          (use run None in \<open>auto simp: execution_key_def put_execution_def intro: refused created\<close>)
    next
      case (Some i)
      show ?thesis
      proof (cases "dget (g_executions s) (ti_tenant_id it, i)")
        case None
        with run Some show ?thesis by (intro refused) (auto simp: execution_key_def)
      next
        case R: (Some r)
        show ?thesis
          by (cases "ToolExecutionRecord_validate (retry_record r it d ap now)")
            (use run Some R in \<open>auto simp: execution_key_def put_execution_def split: if_splits
              intro: refused replayed retried\<close>)
      qed
    qed
  qed
qed

lemma reserved_execution_eq:
  "reserved_execution t c x s = (case dget (g_executions s) (t, x) of
     Some r \<Rightarrow> if te_change_id r = c \<and> te_status r = TE_RESERVED then (Inr r, s)
       else (Inl (if te_change_id r \<noteq> c then GatewayNotFoundError ''tool execution''
         else conflict ''Tool execution is not reserved.''), s)
   | None \<Rightarrow> (Inl (GatewayNotFoundError ''tool execution''), s))"
  by (simp add: reserved_execution_def split: option.split)

lemma execution_validate_fields:
  assumes "ToolExecutionRecord_validate r = Some r'"
  shows "te_execution_id r' = strip (te_execution_id r)" "te_status r' = te_status r"
    "te_updated_at r' = te_updated_at r" "te_input_hash r' = strip (te_input_hash r)"
    "te_output r' = map_option strip_object (te_output r)" "te_output_hash r' = map_option strip (te_output_hash r)"
  using assms by (auto simp: ToolExecutionRecord_validate_def Let_def strip_execution_def split: if_splits)

text \<open>Completing and failing write only a record that is reserved.\<close>

lemma finish_cases:
  assumes "complete_execution t c x out h now s = (res, s') \<or> fail_execution t c x e now s = (res, s')"
  shows "(\<exists>err. res = Inl err \<and> s' = s) \<or> (\<exists>r r'. dget (g_executions s) (t, x) = Some r \<and>
    te_status r = TE_RESERVED \<and> te_change_id r = c \<and> te_execution_id r' = strip (te_execution_id r) \<and>
    res = Inr r' \<and> s' = s\<lparr>g_executions := dput (t, x) r' (g_executions s)\<rparr>)"
  using assms
  by (auto simp: complete_execution_def fail_execution_def bnd_def reserved_execution_eq put_execution_def
      validated_def split: option.splits if_splits sum.splits simp: execution_validate_fields)

lemma approvals_untouched:
  "g_approvals (snd (reserve_execution it d ap h now s)) = g_approvals s"
  "g_approvals (snd (complete_execution t c x out h now s)) = g_approvals s"
  "g_approvals (snd (fail_execution t c x e now s)) = g_approvals s"
  "g_approvals (snd (gov_record_audit ev s)) = g_approvals s"
proof -
  show "g_approvals (snd (reserve_execution it d ap h now s)) = g_approvals s"
    by (rule reserve_execution_cases [OF surjective_pairing [of "reserve_execution it d ap h now s"]]) simp_all
  show "g_approvals (snd (complete_execution t c x out h now s)) = g_approvals s"
    using finish_cases [OF disjI1 [OF surjective_pairing [of "complete_execution t c x out h now s"]]] by auto
  show "g_approvals (snd (fail_execution t c x e now s)) = g_approvals s"
    using finish_cases [OF disjI2 [OF surjective_pairing [of "fail_execution t c x e now s"]]] by auto
  show "g_approvals (snd (gov_record_audit ev s)) = g_approvals s" by (simp add: gov_record_audit_def)
qed

text \<open>
  The calls the service makes: it creates pending first versions and decides with a final status, both
  validated, and the deciding subject comes from a verified identity (no surrounding whitespace).
\<close>

fun gov_call_ok :: "gov_call \<Rightarrow> bool" where
  "gov_call_ok (GC_create r p) = (ApprovalRequestRecord_validate r = Some r \<and> ar_status r = AR_PENDING \<and> ar_version r = 1)"
| "gov_call_ok (GC_decide t i a now) = (da_target a \<noteq> AR_PENDING \<and> strip (da_decided_by a) = da_decided_by a)"
| "gov_call_ok c = True"

text \<open>
  Life cycle of a stored request: pending at version 1, or decided at version 2 by somebody else than
  the requester, before it expired.
\<close>

definition lifecycle_ok :: "approval_request \<Rightarrow> bool" where
  "lifecycle_ok r \<longleftrightarrow> ApprovalRequestRecord_validate r = Some r \<and>
     (if ar_status r = AR_PENDING then ar_version r = 1
      else ar_version r = 2 \<and> (\<exists>who at. ar_decided_by r = Some who \<and> who \<noteq> ar_requested_by r \<and>
        ar_decided_at r = Some at \<and> ar_requested_at r \<le> at \<and> at < ar_expires_at r))"

definition approvals_ok :: "gov_repo \<Rightarrow> bool" where
  "approvals_ok s \<longleftrightarrow> (\<forall>k r. dget (g_approvals s) k = Some r \<longrightarrow>
     (ar_tenant_id r, ar_approval_id r) = k \<and> lifecycle_ok r)"

lemma strip_approval_request_idem [simp]: "strip_approval_request (strip_approval_request r) = strip_approval_request r"
  by (simp add: strip_approval_request_def)

lemma strip_approval_request_decided:
  "strip_approval_request (decided_record r a now) = (strip_approval_request r)\<lparr>ar_status := da_target a,
     ar_decided_by := Some (strip (da_decided_by a)), ar_decided_by_roles := da_decided_by_roles a,
     ar_decided_at := Some now, ar_comment := Some (strip (da_comment a)), ar_version := ar_version r + 1\<rparr>"
  by (simp add: strip_approval_request_def decided_record_def)

lemma ApprovalRequestRecord_validate_SomeD:
  assumes "ApprovalRequestRecord_validate r = Some r'"
  shows "r' = strip_approval_request r" "approval_request_fields_ok r'" "validate_lifecycle r'"
    "ApprovalRequestRecord_validate r' = Some r'"
  using assms by (auto simp: ApprovalRequestRecord_validate_def Let_def split: if_splits)

lemma decided_lifecycle:
  assumes "lifecycle_ok cur" "ar_status cur = AR_PENDING" "now < ar_expires_at cur"
    "ar_requested_by cur \<noteq> da_decided_by a" "strip (da_decided_by a) = da_decided_by a" "da_target a \<noteq> AR_PENDING"
    "ApprovalRequestRecord_validate (decided_record cur a now) = Some r"
  shows "lifecycle_ok r" "ar_tenant_id r = ar_tenant_id cur" "ar_approval_id r = ar_approval_id cur"
    "ar_status r = da_target a" "ar_decided_by r = Some (da_decided_by a)" "ar_expires_at r = ar_expires_at cur"
proof -
  note v = ApprovalRequestRecord_validate_SomeD [OF assms(7)]
  have "ApprovalRequestRecord_validate cur = Some cur" using assms(1) by (simp add: lifecycle_ok_def)
  from ApprovalRequestRecord_validate_SomeD(1) [OF this] have cur: "strip_approval_request cur = cur" by simp
  have r: "r = cur\<lparr>ar_status := da_target a, ar_decided_by := Some (da_decided_by a),
      ar_decided_by_roles := da_decided_by_roles a, ar_decided_at := Some now,
      ar_comment := Some (strip (da_comment a)), ar_version := ar_version cur + 1\<rparr>"
    using v(1) by (simp only: strip_approval_request_decided cur assms(5))
  have "ar_requested_at cur \<le> now" using v(3) by (simp add: r validate_lifecycle_def Let_def)
  then show "lifecycle_ok r" using assms v(4) by (simp add: lifecycle_ok_def r)
  show "ar_tenant_id r = ar_tenant_id cur" "ar_approval_id r = ar_approval_id cur"
    "ar_status r = da_target a" "ar_decided_by r = Some (da_decided_by a)" "ar_expires_at r = ar_expires_at cur"
    by (simp_all add: r)
qed

lemma approvals_ok_run_gov:
  assumes "approvals_ok s" "gov_call_ok c"
  shows "approvals_ok (run_gov iso_text c s)"
proof (cases c)
  case (GC_create r p)
  with assms(2) have "lifecycle_ok r" by (simp add: lifecycle_ok_def)
  with assms(1) GC_create show ?thesis
    by (auto simp: approvals_ok_def create_approval_request_def Let_def split: option.splits)
next
  case (GC_decide t i a now)
  obtain res s' where run: "decide_approval t i a now s = (res, s')" by fastforce
  from decide_approval_cases [OF run] consider "s' = s"
    | cur r where "dget (g_approvals s) (t, i) = Some cur" "ar_status cur = AR_PENDING" "now < ar_expires_at cur"
        "ar_requested_by cur \<noteq> da_decided_by a" "ApprovalRequestRecord_validate (decided_record cur a now) = Some r"
        "s' = s\<lparr>g_approvals := dput (t, i) r (g_approvals s)\<rparr>" by blast
  then have "approvals_ok s'"
  proof cases
    case 2
    from assms(1) 2(1) have cur: "(ar_tenant_id cur, ar_approval_id cur) = (t, i)" "lifecycle_ok cur"
      unfolding approvals_ok_def by blast+
    from decided_lifecycle [OF cur(2) 2(2-4) _ _ 2(5)] assms(2) GC_decide cur(1)
    have "(ar_tenant_id r, ar_approval_id r) = (t, i)" "lifecycle_ok r" by auto
    with assms(1) show ?thesis by (simp add: approvals_ok_def 2(6) del: split_paired_All)
  qed (use assms in simp)
  then show ?thesis by (simp add: GC_decide run)
qed (use assms in \<open>simp_all add: approvals_ok_def approvals_untouched\<close>)

lemma approvals_ok_run_govs:
  "approvals_ok s \<Longrightarrow> list_all gov_call_ok cs \<Longrightarrow> approvals_ok (run_govs iso_text cs s)"
  by (induction cs arbitrary: s) (simp_all add: approvals_ok_run_gov)

text \<open>A decided request is never altered again.\<close>

lemma decided_run_gov:
  assumes "dget (g_approvals s) k = Some r" "ar_status r \<noteq> AR_PENDING"
  shows "dget (g_approvals (run_gov iso_text c s)) k = Some r"
proof (cases c)
  case (GC_create r' p)
  with assms show ?thesis by (auto simp: create_approval_request_def Let_def split: option.splits)
next
  case (GC_decide t i a now)
  obtain res s' where run: "decide_approval t i a now s = (res, s')" by fastforce
  from decide_approval_cases [OF run] assms have "dget (g_approvals s') k = Some r" by auto
  then show ?thesis by (simp add: GC_decide run)
qed (use assms in \<open>simp_all add: approvals_untouched\<close>)

lemma decided_run_govs:
  "dget (g_approvals s) k = Some r \<Longrightarrow> ar_status r \<noteq> AR_PENDING \<Longrightarrow>
   dget (g_approvals (run_govs iso_text cs s)) k = Some r"
  by (induction cs arbitrary: s) (simp_all add: decided_run_gov)

section \<open>Executions\<close>

text \<open>
  Every recorded idempotency key has its derived identifier and an execution record, and every
  execution record stands under its own identifier.
\<close>

definition executions_ok :: "gov_repo \<Rightarrow> bool" where
  "executions_ok s \<longleftrightarrow> (\<forall>t k i. dget (g_execution_ids s) (t, k) = Some i \<longrightarrow>
     i = execution_id_for t k \<and> dget (g_executions s) (t, i) \<noteq> None) \<and>
   (\<forall>t i r. dget (g_executions s) (t, i) = Some r \<longrightarrow> te_execution_id r = i \<and> strip i = i)"

text \<open>
  Execution identifiers keep 24 hexadecimal digits of a digest; a call is clash-free for a key when it
  does not reserve another key of that tenant whose identifier coincides.
\<close>

fun clash_free :: "string \<Rightarrow> string \<Rightarrow> gov_call \<Rightarrow> bool" where
  "clash_free t k (GC_reserve it d ap h now) =
     (ti_tenant_id it = t \<and> execution_id_for t (ti_idempotency_key it) = execution_id_for t k \<longrightarrow>
      ti_idempotency_key it = k)"
| "clash_free t k c = True"

lemma execution_id_ok: "strip (execution_id_for t k) = execution_id_for t k" "nonempty_str (execution_id_for t k)"
  unfolding execution_id_for_def by (rule digest_id_ok; simp add: is_whitespace_def)+

lemma executions_ok_run_gov:
  assumes "executions_ok s"
  shows "executions_ok (run_gov iso_text c s)"
proof (cases c)
  case (GC_reserve it d ap h now)
  obtain res s' where run: "reserve_execution it d ap h now s = (res, s')" by fastforce
  then have "executions_ok s'"
  proof (cases rule: reserve_execution_cases)
    case (retried i r r')
    have "te_execution_id r = i" "strip i = i" using assms retried(2) by (auto simp: executions_ok_def)
    with execution_validate_fields(1) [OF retried(6)] have "te_execution_id r' = i" by (simp add: retry_record_def)
    with \<open>strip i = i\<close> assms show ?thesis by (auto simp: executions_ok_def retried(8))
  next
    case (created r)
    from execution_validate_fields(1) [OF created(2)]
    have "te_execution_id r = execution_id_for (ti_tenant_id it) (ti_idempotency_key it)"
      by (simp add: new_execution_def execution_id_ok)
    with assms show ?thesis by (auto simp: executions_ok_def created(4) execution_key_def execution_id_ok)
  qed (use assms in auto)
  then show ?thesis by (simp add: GC_reserve run)
next
  case (GC_complete t c x out h now)
  with finish_cases [OF disjI1 [OF surjective_pairing [of "complete_execution t c x out h now s"]]] assms
  show ?thesis by (auto simp: executions_ok_def split: if_splits)
next
  case (GC_fail t c x e now)
  with finish_cases [OF disjI2 [OF surjective_pairing [of "fail_execution t c x e now s"]]] assms
  show ?thesis by (auto simp: executions_ok_def split: if_splits)
next
  case (GC_create r p)
  with assms show ?thesis by (auto simp: executions_ok_def create_approval_request_def Let_def split: option.splits)
next
  case (GC_decide t i a now)
  obtain res s' where run: "decide_approval t i a now s = (res, s')" by fastforce
  from decide_approval_cases [OF run] assms have "executions_ok s'" by (auto simp: executions_ok_def)
  then show ?thesis by (simp add: GC_decide run)
qed (use assms in \<open>simp add: executions_ok_def gov_record_audit_def\<close>)

lemma executions_ok_run_govs: "executions_ok s \<Longrightarrow> executions_ok (run_govs iso_text cs s)"
  by (induction cs arbitrary: s) (simp_all add: executions_ok_run_gov)

text \<open>An execution that has succeeded under a key.\<close>

definition succeeded_as :: "gov_repo \<Rightarrow> string \<Rightarrow> string \<Rightarrow> tool_execution \<Rightarrow> bool" where
  "succeeded_as s t k r \<longleftrightarrow> dget (g_execution_ids s) (t, k) = Some (execution_id_for t k) \<and>
     dget (g_executions s) (t, execution_id_for t k) = Some r \<and> te_status r = TE_SUCCEEDED"

lemma succeeded_run_gov:
  assumes ok: "executions_ok s" and succ: "succeeded_as s t k r" and clash: "clash_free t k c"
  shows "succeeded_as (run_gov iso_text c s) t k r"
proof (cases c)
  case (GC_reserve it d ap h now)
  obtain res s' where run: "reserve_execution it d ap h now s = (res, s')" by fastforce
  then have "succeeded_as s' t k r"
  proof (cases rule: reserve_execution_cases)
    case (retried i r0 r1)
    have "i = execution_id_for (ti_tenant_id it) (ti_idempotency_key it)"
      using ok retried(1) by (auto simp: executions_ok_def execution_key_def)
    moreover have "\<not> (ti_tenant_id it = t \<and> ti_idempotency_key it = k)"
      using succ retried by (auto simp: succeeded_as_def execution_key_def)
    ultimately have "(ti_tenant_id it, i) \<noteq> (t, execution_id_for t k)" using clash GC_reserve by auto
    with succ show ?thesis by (auto simp: succeeded_as_def retried(8))
  next
    case (created r0)
    have "\<not> (ti_tenant_id it = t \<and> ti_idempotency_key it = k)"
      using succ created by (auto simp: succeeded_as_def execution_key_def)
    with succ clash GC_reserve show ?thesis by (auto simp: succeeded_as_def created(4) execution_key_def)
  qed (use succ in auto)
  then show ?thesis by (simp add: GC_reserve run)
next
  case (GC_complete t' c x out h now)
  with finish_cases [OF disjI1 [OF surjective_pairing [of "complete_execution t' c x out h now s"]]] succ
  show ?thesis by (auto simp: succeeded_as_def)
next
  case (GC_fail t' c x e now)
  with finish_cases [OF disjI2 [OF surjective_pairing [of "fail_execution t' c x e now s"]]] succ
  show ?thesis by (auto simp: succeeded_as_def)
next
  case (GC_create r0 p)
  with succ show ?thesis by (auto simp: succeeded_as_def create_approval_request_def Let_def split: option.splits)
next
  case (GC_decide t' i a now)
  obtain res s' where run: "decide_approval t' i a now s = (res, s')" by fastforce
  from decide_approval_cases [OF run] succ have "succeeded_as s' t k r" by (auto simp: succeeded_as_def)
  then show ?thesis by (simp add: GC_decide run)
qed (use succ in \<open>simp add: succeeded_as_def gov_record_audit_def\<close>)

lemma succeeded_run_govs:
  "executions_ok s \<Longrightarrow> succeeded_as s t k r \<Longrightarrow> list_all (clash_free t k) cs \<Longrightarrow>
   succeeded_as (run_govs iso_text cs s) t k r"
  by (induction cs arbitrary: s) (simp_all add: succeeded_run_gov executions_ok_run_gov)

lemma fresh_reservation:
  assumes "reserve_execution it d ap h now s = (Inr res, s')" "\<not> er_replayed res" "executions_ok s"
  shows "\<exists>i. dget (g_execution_ids s') (execution_key it) = Some i \<and>
    dget (g_executions s') (ti_tenant_id it, i) = Some (er_record res) \<and>
    te_status (er_record res) = TE_RESERVED \<and> te_updated_at (er_record res) = now"
proof -
  show ?thesis
    using assms(1)
  proof (cases rule: reserve_execution_cases)
    case (retried i r r')
    with execution_validate_fields [OF retried(6)] show ?thesis by (auto simp: retry_record_def)
  next
    case (created r)
    with execution_validate_fields [OF created(2)] show ?thesis by (auto simp: new_execution_def)
  qed (use assms in auto)
qed

section \<open>Properties of the repository\<close>

definition demo_request :: approval_request where
  "demo_request = \<lparr>ar_approval_id = ''a1'', ar_tenant_id = ''t1'', ar_change_id = ''c1'', ar_plan_id = ''p1'',
     ar_plan_hash = calculate_plan_hash demo_iso demo_plan, ar_plan_version = 1, ar_environment = Env_SANDBOX,
     ar_scope = [''s1'', ''s2''], ar_status = AR_PENDING, ar_requested_by = ''svc'', ar_requested_at = 1,
     ar_expires_at = 500, ar_decided_by = None, ar_decided_by_roles = [], ar_decided_at = None, ar_comment = None,
     ar_version = 1\<rparr>"

definition demo_decision :: decision_args where
  "demo_decision = \<lparr>da_target = AR_APPROVED, da_expected_version = 1, da_decided_by = ''alice'',
     da_decided_by_roles = [APPROVER], da_comment = ''ok''\<rparr>"

definition demo_calls :: "gov_call list" where
  "demo_calls = [GC_create demo_request demo_plan, GC_decide ''t1'' ''a1'' demo_decision 4]"

definition demo_decided :: approval_request where
  "demo_decided = decided_record demo_request demo_decision 4"

lemma demo_literals: "strip x = x \<and> nonempty_str x"
  if "x \<in> {''a1'', ''t1'', ''c1'', ''p1'', ''s1'', ''s2'', ''svc'', ''alice'', ''ok'', ''i1'', ''key-s1'', ''decision_00''}"
proof -
  have "list_all (\<lambda>x. strip x = x \<and> nonempty_str x) [''a1'', ''t1'', ''c1'', ''p1'', ''s1'', ''s2'', ''svc'',
    ''alice'', ''ok'', ''i1'', ''key-s1'', ''decision_00'']" by code_simp
  with that show ?thesis by auto
qed

lemma demo_request_valid: "ApprovalRequestRecord_validate demo_request = Some demo_request"
  by (simp add: ApprovalRequestRecord_validate_def Let_def strip_approval_request_def demo_request_def
      approval_request_fields_ok_def validate_lifecycle_def demo_literals calculate_plan_hash_def strip_digest)

lemma demo_decided_valid: "ApprovalRequestRecord_validate demo_decided = Some demo_decided"
  by (simp add: ApprovalRequestRecord_validate_def Let_def strip_approval_request_def demo_decided_def decided_record_def
      demo_decision_def demo_request_def approval_request_fields_ok_def validate_lifecycle_def demo_literals
      calculate_plan_hash_def strip_digest)

lemma demo_calls_ok: "list_all gov_call_ok demo_calls"
  using demo_request_valid
  by (simp add: demo_calls_def demo_decision_def demo_literals) (simp add: demo_request_def)

lemma gov_empty_ok: "approvals_ok gov_empty" "executions_ok gov_empty"
  by (simp_all add: gov_empty_def approvals_ok_def executions_ok_def)

lemma demo_calls_run: "run_govs demo_iso demo_calls gov_empty = gov_empty\<lparr>g_plans := [((''t1'', ''c1'', ''p1''), demo_plan)],
       g_approvals := [((''t1'', ''a1''), demo_decided)], g_approval_tenants := [(''a1'', {''t1''})]\<rparr>"
proof -
  have "create_approval_request demo_iso demo_request demo_plan gov_empty =
    (Inr demo_request, gov_empty\<lparr>g_plans := [((''t1'', ''c1'', ''p1''), demo_plan)],
       g_approvals := [((''t1'', ''a1''), demo_request)], g_approval_tenants := [(''a1'', {''t1''})]\<rparr>)"
    by (simp add: create_approval_request_def gov_empty_def demo_request_def demo_plan_def dput_def)
  moreover have "decide_approval ''t1'' ''a1'' demo_decision 4 (gov_empty\<lparr>g_plans := [((''t1'', ''c1'', ''p1''), demo_plan)],
       g_approvals := [((''t1'', ''a1''), demo_request)], g_approval_tenants := [(''a1'', {''t1''})]\<rparr>) =
    (Inr demo_decided, gov_empty\<lparr>g_plans := [((''t1'', ''c1'', ''p1''), demo_plan)],
       g_approvals := [((''t1'', ''a1''), demo_decided)], g_approval_tenants := [(''a1'', {''t1''})]\<rparr>)"
    using demo_decided_valid
    by (simp add: decide_approval_def bnd_def get_approval_request_eq dget_Cons put_approval_def dput_def
        flip: demo_decided_def) (simp add: demo_request_def demo_decision_def)
  ultimately show ?thesis by (simp add: demo_calls_def)
qed

lemma demo_decided_stored: "dget (g_approvals (run_govs demo_iso demo_calls gov_empty)) (''t1'', ''a1'') = Some demo_decided"
  by (simp add: demo_calls_run dget_Cons)

text \<open>
  Separation of duties and timeliness: in every store reached from the empty one by calls of the
  service, each stored approval request stands under its own tenant and identifier and is either pending
  at version 1, or decided exactly once (version 2), by somebody other than the requester, not before it
  was requested and before it expired.
\<close>

theorem decided_requests_sound:
  assumes "list_all gov_call_ok cs" "dget (g_approvals (run_govs iso_text cs gov_empty)) (t, i) = Some r"
  shows "ar_tenant_id r = t \<and> ar_approval_id r = i \<and>
    (ar_status r = AR_PENDING \<and> ar_version r = 1 \<or>
     ar_status r \<noteq> AR_PENDING \<and> ar_version r = 2 \<and> (\<exists>who at. ar_decided_by r = Some who \<and> who \<noteq> ar_requested_by r \<and>
        ar_decided_at r = Some at \<and> ar_requested_at r \<le> at \<and> at < ar_expires_at r))"
proof -
  from approvals_ok_run_govs [OF gov_empty_ok(1) assms(1)] assms(2)
  have "(ar_tenant_id r, ar_approval_id r) = (t, i) \<and> lifecycle_ok r" unfolding approvals_ok_def by blast
  then show ?thesis by (auto simp: lifecycle_ok_def split: if_splits)
qed

theorem decided_requests_sound_witness: "ar_version demo_decided = 2 \<and> ar_decided_by demo_decided \<noteq> Some (ar_requested_by demo_decided)"
  using decided_requests_sound [OF demo_calls_ok demo_decided_stored]
  by (auto simp: demo_decided_def decided_record_def demo_decision_def demo_request_def)

text \<open>
  C12. A decision is final: once a request is decided, no sequence of calls alters it; repeating the exact
  decision returns the stored record and any other decision is refused as a conflict, both without
  writing.
\<close>

theorem decision_final:
  assumes "dget (g_approvals s) (t, i) = Some r" "ar_status r \<noteq> AR_PENDING"
  shows "let s' = run_govs iso_text cs s in dget (g_approvals s') (t, i) = Some r \<and>
    decide_approval t i a now s' = (if same_approval_decision r a then Inr r
      else Inl (GatewayConflictError ''Approval request already has a final decision.'' ''CONFLICT''), s')"
  using decided_run_govs [OF assms, of iso_text cs] assms(2)
  by (simp add: Let_def decide_approval_def bnd_def get_approval_request_eq conflict_def)

theorem decision_final_witness:
  "fst (decide_approval ''t1'' ''a1'' (demo_decision\<lparr>da_target := AR_REJECTED\<rparr>) 6 (run_govs demo_iso demo_calls gov_empty)) =
     Inl (GatewayConflictError ''Approval request already has a final decision.'' ''CONFLICT'')"
proof -
  have "ar_status demo_decided \<noteq> AR_PENDING" by (simp add: demo_decided_def decided_record_def demo_decision_def)
  from decision_final [OF demo_decided_stored this, of demo_iso "[]"] show ?thesis
    by (simp add: Let_def same_approval_decision_def demo_decided_def decided_record_def demo_decision_def)
qed

text \<open>
  C6. An action executes at most once per idempotency key: when the execution recorded under a key has
  succeeded, no sequence of calls (that does not reserve another key with a coinciding truncated digest)
  alters it, and every later reservation of the key, with whatever intent, decision, approval and time,
  is either refused or a replay of that very record; in both cases nothing is written.
\<close>

theorem executed_once:
  assumes "executions_ok s" "succeeded_as s t k r" "list_all (clash_free t k) cs"
    "ti_tenant_id it = t" "ti_idempotency_key it = k"
  shows "let s' = run_govs iso_text cs s in succeeded_as s' t k r \<and>
    ((\<exists>e. reserve_execution it d ap h now s' = (Inl e, s')) \<or>
     reserve_execution it d ap h now s' = (Inr \<lparr>er_record = r, er_replayed = True\<rparr>, s') \<and> te_input_hash r = h)"
proof -
  let ?s = "run_govs iso_text cs s"
  have succ: "succeeded_as ?s t k r" by (rule succeeded_run_govs [OF assms(1-3)])
  obtain res s2 where run: "reserve_execution it d ap h now ?s = (res, s2)" by fastforce
  then have "(\<exists>e. res = Inl e \<and> s2 = ?s) \<or> res = Inr \<lparr>er_record = r, er_replayed = True\<rparr> \<and> s2 = ?s \<and> te_input_hash r = h"
    by (cases rule: reserve_execution_cases) (use succ assms in \<open>auto simp: succeeded_as_def execution_key_def\<close>)
  with succ run show ?thesis by (auto simp: Let_def)
qed

text \<open>
  Exclusive execution: after a reservation that grants execution at some time, any further
  reservation of the same key less than two minutes later is refused, so two workers never hold the same
  action at the same time within that window.
\<close>

theorem reservation_exclusive:
  assumes "executions_ok s" "reserve_execution it d ap h now s = (Inr res, s')" "\<not> er_replayed res"
    "execution_key it' = execution_key it" "now' < now + minutes 2"
  shows "\<exists>e. reserve_execution it' d' ap' h' now' s' = (Inl e, s')"
proof -
  from fresh_reservation [OF assms(2,3,1)] obtain i where
    i: "dget (g_execution_ids s') (execution_key it) = Some i"
      "dget (g_executions s') (ti_tenant_id it, i) = Some (er_record res)"
      "te_status (er_record res) = TE_RESERVED" "te_updated_at (er_record res) = now" by blast
  obtain res2 s2 where run: "reserve_execution it' d' ap' h' now' s' = (res2, s2)" by fastforce
  then have "\<exists>e. res2 = Inl e \<and> s2 = s'"
    by (cases rule: reserve_execution_cases)
      (use i assms(4,5) in \<open>auto simp: execution_key_def minutes_def micros_def\<close>)
  with run show ?thesis by blast
qed

text \<open>
  No reservation without the stored approval: when policy requires an approval, a reservation that
  returns (fresh or replayed) was backed by an approval request of the intent's tenant that is stored as
  approved, whose approval is exactly the one presented, unexpired, covering the step and the plan hash.
\<close>

theorem reservation_backed_by_approval:
  assumes "reserve_execution it d ap h now s = (Inr res, s')" "pd_approval_required d"
  shows "\<exists>a r. ap = Some a \<and> dget (g_approvals s) (ti_tenant_id it, ap_approval_id a) = Some r \<and>
    ar_status r = AR_APPROVED \<and> as_approval r = Inr (Some a) \<and> now < ap_expires_at a \<and>
    ti_step_id it \<in> set (ap_scope a) \<and> ap_plan_hash a = ti_plan_hash it"
proof -
  from assms(1) obtain x s1 where "require_stored_approval it d ap now s = (Inr x, s1)"
    by (auto simp: reserve_execution_def Let_def elim: bnd_eq_InrE)
  from require_stored_approval_ok [OF this assms(2)] show ?thesis
    by (auto simp: as_approval_def split: if_splits)
qed

text \<open>A reservation on the concrete store.\<close>

definition demo_gov :: gov_repo where
  "demo_gov = run_govs demo_iso demo_calls gov_empty"

definition demo_pd :: policy_decision where
  "demo_pd = \<lparr>pd_decision_id = ''decision_00'', pd_tenant_id = ''t1'', pd_intent_id = ''i1'', pd_effect = ALLOW,
     pd_computed_risk = RL_HIGH, pd_approval_required = True, pd_approval_valid = True,
     pd_matched_policy_ids = [''p''], pd_reasons = [''r''], pd_evaluated_at = 10\<rparr>"

definition demo_hash :: string where
  "demo_hash = sha256_digest (JObj [])"

lemma demo_hash_ok: "is_sha256_digest demo_hash" "strip demo_hash = demo_hash"
  by (simp_all add: demo_hash_def strip_digest)

definition demo_execution :: tool_execution where
  "demo_execution = new_execution (execution_id_for ''t1'' ''key-s1'') demo_intent demo_pd (Some demo_approval) demo_hash 10"

lemma demo_execution_valid:
  "ToolExecutionRecord_validate demo_execution = Some demo_execution"
  "ToolExecutionRecord_validate (demo_execution\<lparr>te_status := TE_SUCCEEDED, te_output := Some [],
     te_output_hash := Some demo_hash, te_updated_at := 11\<rparr>) =
   Some (demo_execution\<lparr>te_status := TE_SUCCEEDED, te_output := Some [], te_output_hash := Some demo_hash, te_updated_at := 11\<rparr>)"
  by (simp_all add: ToolExecutionRecord_validate_def Let_def strip_execution_def demo_execution_def new_execution_def
      demo_intent_def demo_pd_def demo_approval_def execution_fields_ok_def validate_status_fields_def
      demo_literals demo_hash_ok execution_id_ok strip_object_def)

lemma demo_as_approval: "as_approval demo_decided = Inr (Some demo_approval)"
proof -
  have "Approval_validate demo_approval = Some demo_approval"
    by (simp add: Approval_validate_def Let_def strip_approval_def demo_approval_def approval_fields_ok_def
        validate_expiration_def demo_literals calculate_plan_hash_def strip_digest)
  then show ?thesis
    by (simp add: as_approval_def demo_decided_def decided_record_def demo_decision_def demo_request_def demo_approval_def)
qed

lemma demo_gov_ok: "executions_ok demo_gov" "dget (g_approvals demo_gov) (''t1'', ''a1'') = Some demo_decided"
  "g_execution_ids demo_gov = []" "g_executions demo_gov = []"
  "dget (g_plans demo_gov) (''t1'', ''c1'', ''p1'') = Some demo_plan" "g_audit demo_gov = []"
proof -
  show "executions_ok demo_gov" unfolding demo_gov_def by (rule executions_ok_run_govs [OF gov_empty_ok(2)])
  have empty: "g_execution_ids gov_empty = []" "g_executions gov_empty = []" "g_audit gov_empty = []"
    by (simp_all add: gov_empty_def)
  show "dget (g_approvals demo_gov) (''t1'', ''a1'') = Some demo_decided" "g_execution_ids demo_gov = []"
    "g_executions demo_gov = []" "dget (g_plans demo_gov) (''t1'', ''c1'', ''p1'') = Some demo_plan" "g_audit demo_gov = []"
    by (simp_all add: demo_gov_def demo_calls_run dget_Cons empty)
qed

lemma demo_reserve:
  "reserve_execution demo_intent demo_pd (Some demo_approval) demo_hash 10 demo_gov =
     (Inr \<lparr>er_record = demo_execution, er_replayed = False\<rparr>,
      demo_gov\<lparr>g_executions := [((''t1'', execution_id_for ''t1'' ''key-s1''), demo_execution)],
        g_execution_ids := [((''t1'', ''key-s1''), execution_id_for ''t1'' ''key-s1'')]\<rparr>)"
proof -
  have keys: "ti_tenant_id demo_intent = ''t1''" "ti_idempotency_key demo_intent = ''key-s1''"
    "ti_step_id demo_intent = ''s1''" "ti_plan_hash demo_intent = calculate_plan_hash demo_iso demo_plan"
    by (simp_all add: demo_intent_def)
  have ap: "ap_approval_id demo_approval = ''a1''" "ap_expires_at demo_approval = 500"
    "ap_scope demo_approval = [''s1'', ''s2'']" "ap_plan_hash demo_approval = calculate_plan_hash demo_iso demo_plan"
    by (simp_all add: demo_approval_def)
  have "require_stored_approval demo_intent demo_pd (Some demo_approval) 10 demo_gov = (Inr (), demo_gov)"
    by (simp add: require_stored_approval_def bnd_def get_approval_request_eq keys ap demo_gov_ok(2) demo_as_approval)
  then show ?thesis
    using demo_execution_valid(1)
    by (simp add: reserve_execution_def Let_def bnd_def keys demo_gov_ok(3,4) put_execution_def dput_def
        flip: demo_execution_def)
qed

definition demo_gov_done :: gov_repo where
  "demo_gov_done = snd (complete_execution ''t1'' ''c1'' (execution_id_for ''t1'' ''key-s1'') [] demo_hash 11
     (snd (reserve_execution demo_intent demo_pd (Some demo_approval) demo_hash 10 demo_gov)))"

lemma demo_gov_done_ok: "executions_ok demo_gov_done" "\<exists>r. succeeded_as demo_gov_done ''t1'' ''key-s1'' r"
proof -
  have "demo_gov_done = run_govs demo_iso [GC_reserve demo_intent demo_pd (Some demo_approval) demo_hash 10,
      GC_complete ''t1'' ''c1'' (execution_id_for ''t1'' ''key-s1'') [] demo_hash 11] demo_gov"
    by (simp add: demo_gov_done_def)
  with executions_ok_run_govs [OF demo_gov_ok(1)] show "executions_ok demo_gov_done" by metis
  have "te_change_id demo_execution = ''c1''" "te_status demo_execution = TE_RESERVED"
    by (simp_all add: demo_execution_def new_execution_def demo_intent_def)
  then show "\<exists>r. succeeded_as demo_gov_done ''t1'' ''key-s1'' r"
    using demo_execution_valid(2)
    by (simp add: demo_gov_done_def demo_reserve complete_execution_def bnd_def reserved_execution_eq dget_Cons
        put_execution_def dput_def succeeded_as_def)
qed

text \<open>The same reservation with any decision that needs the approval, and any store that has it.\<close>

lemma demo_reserve_any:
  assumes "dget (g_approvals g) (''t1'', ''a1'') = Some demo_decided" "dget (g_execution_ids g) (''t1'', ''key-s1'') = None"
    "pd_approval_required d" "pd_decision_id d = ''decision_00''" "is_sha256_digest h"
  shows "\<exists>res g'. reserve_execution demo_intent d (Some demo_approval) h 10 g = (Inr res, g') \<and> \<not> er_replayed res"
proof -
  have keys: "ti_tenant_id demo_intent = ''t1''" "ti_idempotency_key demo_intent = ''key-s1''"
    "ti_step_id demo_intent = ''s1''" "ti_plan_hash demo_intent = calculate_plan_hash demo_iso demo_plan"
    by (simp_all add: demo_intent_def)
  have ap: "ap_approval_id demo_approval = ''a1''" "ap_expires_at demo_approval = 500"
    "ap_scope demo_approval = [''s1'', ''s2'']" "ap_plan_hash demo_approval = calculate_plan_hash demo_iso demo_plan"
    by (simp_all add: demo_approval_def)
  have "require_stored_approval demo_intent d (Some demo_approval) 10 g = (Inr (), g)"
    by (simp add: require_stored_approval_def bnd_def get_approval_request_eq keys ap assms demo_as_approval)
  moreover have "ToolExecutionRecord_validate (new_execution (execution_id_for ''t1'' ''key-s1'') demo_intent d
      (Some demo_approval) h 10) \<noteq> None"
    by (simp add: ToolExecutionRecord_validate_def Let_def strip_execution_def new_execution_def demo_intent_def
        demo_approval_def execution_fields_ok_def validate_status_fields_def demo_literals assms strip_digest
        execution_id_ok)
  ultimately show ?thesis
    by (auto simp: reserve_execution_def Let_def bnd_def keys assms(2) put_execution_def)
qed

theorem executed_once_witness:
  "(\<exists>e. fst (reserve_execution demo_intent demo_pd (Some demo_approval) demo_hash 12 demo_gov_done) = Inl e) \<or>
   (\<exists>r. fst (reserve_execution demo_intent demo_pd (Some demo_approval) demo_hash 12 demo_gov_done) =
      Inr \<lparr>er_record = r, er_replayed = True\<rparr>)"
proof -
  from demo_gov_done_ok(2) obtain r where r: "succeeded_as demo_gov_done ''t1'' ''key-s1'' r" ..
  have keys: "ti_tenant_id demo_intent = ''t1''" "ti_idempotency_key demo_intent = ''key-s1''"
    by (simp_all add: demo_intent_def)
  have "list_all (clash_free ''t1'' ''key-s1'') []" by simp
  from executed_once [OF demo_gov_done_ok(1) r this keys, of demo_iso demo_pd "Some demo_approval" demo_hash 12]
  show ?thesis unfolding Let_def run_govs_simps by (metis fst_conv)
qed

theorem reservation_exclusive_witness:
  "\<exists>e. fst (reserve_execution demo_intent demo_pd None demo_hash (10 + minutes 1)
     (snd (reserve_execution demo_intent demo_pd (Some demo_approval) demo_hash 10 demo_gov))) = Inl e"
proof -
  have "10 + minutes 1 < 10 + minutes 2" by (simp add: minutes_def micros_def)
  from reservation_exclusive [OF demo_gov_ok(1) demo_reserve _ refl this, of demo_pd None demo_hash]
  show ?thesis unfolding demo_reserve snd_conv by simp (metis fst_conv)
qed

theorem reservation_backed_by_approval_witness: "10 < ap_expires_at demo_approval"
  using reservation_backed_by_approval [OF demo_reserve] by (auto simp: demo_pd_def)

end
