(* ===== verification/Tool_Gateway.thy ===== *)
theory Tool_Gateway
  imports Governance_Store
begin

text \<open>
  The request handlers of \<^verbatim>\<open>services/tool-gateway/src/changeops_tool_gateway/app.py\<close> with the quota
  manager of \<^verbatim>\<open>quota.py\<close> and the typed executor of \<^verbatim>\<open>executor.py\<close>, over the in-memory repositories.

  The state of the service is the two repositories, the table of active calls and the remote side:
  the sandbox services the executor posts to. The HTTP exchange is the parameter \<open>post\<close>, a function
  from the request and the remote state to a reply and the remote state; its failures (timeouts,
  network errors, missing platform credentials) are \<open>Unreachable\<close>. The clock and the random
  identifiers are functions of the number of the call within one request. Authentication delivers the
  verified identity before a handler runs.
\<close>

section \<open>Quotas\<close>

type_synonym active_calls = "(string \<times> string, int) dict"

definition quota_acquire :: "int \<Rightarrow> string \<times> string \<Rightarrow> active_calls \<Rightarrow> active_calls option" where
  "quota_acquire maximum key active =
     (if dget_or active key 0 \<ge> maximum then None else Some (dput key (dget_or active key 0 + 1) active))"

definition quota_release :: "string \<times> string \<Rightarrow> active_calls \<Rightarrow> active_calls" where
  "quota_release key active = (let n = dget_or active key 0 - 1 in
     if n = 0 then ddel key active else dput key n active)"

section \<open>The executor\<close>

record patch_arguments =
  pa_old_field :: string
  pa_new_field :: string

definition is_field_name :: "string \<Rightarrow> bool" where
  "is_field_name s = (case s of [] \<Rightarrow> False | c # rest \<Rightarrow>
     (is_lower c \<or> is_upper c \<or> c = CHR ''_'') \<and> length rest \<le> 63 \<and>
     list_all (\<lambda>x. is_alnum x \<or> x = CHR ''_'') rest)"

definition FieldPatchArguments_validate :: "(string \<times> json) list \<Rightarrow> patch_arguments option" where
  "FieldPatchArguments_validate arguments =
    (if set (map fst arguments) \<noteq> {''old_field'', ''new_field''} then None
     else case (dget arguments ''old_field'', dget arguments ''new_field'') of
       (Some (JStr a), Some (JStr b)) \<Rightarrow>
         if is_field_name (strip a) \<and> is_field_name (strip b) \<and> strip a \<noteq> strip b
         then Some \<lparr>pa_old_field = strip a, pa_new_field = strip b\<rparr> else None
     | _ \<Rightarrow> None)"

definition service_by_tool :: "string \<Rightarrow> string option" where
  "service_by_tool name = dget [(''crm.update_field_mapping'', ''crm''),
     (''analytics.update_field_mapping'', ''analytics''), (''support.update_lookup_field'', ''support'')] name"

definition validate_arguments :: "tool_intent \<Rightarrow> gateway_error + patch_arguments" where
  "validate_arguments intent = (if service_by_tool (ti_tool_name intent) = None
     then Inl (GatewayValidationError ''No argument schema is registered for this tool.'')
     else case FieldPatchArguments_validate (ti_arguments intent) of
       None \<Rightarrow> Inl (GatewayValidationError ''Tool arguments failed registered schema validation.'')
     | Some a \<Rightarrow> Inr a)"

record patch_post =
  pp_service :: string
  pp_tenant_id :: string
  pp_request_id :: string
  pp_old_field :: string
  pp_new_field :: string
  pp_idempotency_key :: string
  pp_change_id :: string
  pp_plan_hash :: string

text \<open>A reply has a status code and, when its body is JSON, the decoded body.\<close>

datatype http_reply = Unreachable | Reply nat "json option"

type_synonym 'x poster = "patch_post \<Rightarrow> 'x \<Rightarrow> http_reply \<times> 'x"

record patch_output =
  po_system_id :: string
  po_field_name :: string
  po_before :: string
  po_after :: string
  po_idempotency_key :: string
  po_configuration_hash :: string
  po_replayed :: bool

definition str_field :: "(string \<times> json) list \<Rightarrow> string \<Rightarrow> string option" where
  "str_field d k = (case dget d k of Some (JStr s) \<Rightarrow> if nonempty_str (strip s) then Some (strip s) else None | _ \<Rightarrow> None)"

definition PatchExecutionOutput_validate :: "json \<Rightarrow> patch_output option" where
  "PatchExecutionOutput_validate body = (case body of
     JObj d \<Rightarrow>
       if set (map fst d) \<noteq> {''system_id'', ''field_name'', ''before'', ''after'', ''idempotency_key'',
            ''configuration_hash'', ''replayed''} then None
       else (case (str_field d ''system_id'', str_field d ''field_name'', str_field d ''before'', str_field d ''after'',
                str_field d ''idempotency_key'', dget d ''configuration_hash'', dget d ''replayed'') of
           (Some sys, Some fld, Some bef, Some aft, Some key, Some (JStr h), Some (JBool rep)) \<Rightarrow>
             if is_sha256_digest (strip h) then Some \<lparr>po_system_id = sys, po_field_name = fld, po_before = bef,
               po_after = aft, po_idempotency_key = key, po_configuration_hash = strip h, po_replayed = rep\<rparr> else None
         | _ \<Rightarrow> None)
   | _ \<Rightarrow> None)"

definition patch_output_object :: "patch_output \<Rightarrow> (string \<times> json) list" where
  "patch_output_object r = [(''system_id'', JStr (po_system_id r)), (''field_name'', JStr (po_field_name r)),
     (''before'', JStr (po_before r)), (''after'', JStr (po_after r)),
     (''idempotency_key'', JStr (po_idempotency_key r)),
     (''configuration_hash'', JStr (po_configuration_hash r)), (''replayed'', JBool (po_replayed r))]"

definition adapter_invalid :: gateway_error where
  "adapter_invalid = ToolAdapterError ''VALIDATION'' ''The registered sandbox tool returned an invalid response.'' False"

definition read_reply :: "patch_arguments \<Rightarrow> string \<Rightarrow> http_reply \<Rightarrow> gateway_error + (string \<times> json) list" where
  "read_reply arguments idempotency_key reply = (case reply of
     Unreachable \<Rightarrow> Inl (ToolAdapterError ''TRANSIENT'' ''The registered sandbox tool is temporarily unavailable.'' True)
   | Reply code body \<Rightarrow>
       if code \<ge> 400 then
         (let transient = (code \<ge> 500 \<or> code = 429) in
          Inl (ToolAdapterError (if transient then ''TRANSIENT'' else ''PERMANENT'')
            ''The registered sandbox tool rejected the request.'' transient))
       else case body of
         None \<Rightarrow> Inl adapter_invalid
       | Some j \<Rightarrow> (case PatchExecutionOutput_validate j of
           None \<Rightarrow> Inl adapter_invalid
         | Some result \<Rightarrow>
             if po_before result \<noteq> pa_old_field arguments \<or> po_after result \<noteq> pa_new_field arguments \<or>
                po_idempotency_key result \<noteq> idempotency_key
             then Inl (ToolAdapterError ''VALIDATION''
               ''The registered sandbox tool returned an out-of-scope result.'' False)
             else Inr (patch_output_object result)))"

definition execute ::
  "'x poster \<Rightarrow> tool_intent \<Rightarrow> tool_registration \<Rightarrow> patch_arguments \<Rightarrow> string \<Rightarrow>
   ('x, gateway_error, (string \<times> json) list) op" where
  "execute post intent registration arguments request_id x =
    (case service_by_tool (tr_tool_name registration) of
       None \<Rightarrow> raise (GatewayValidationError ''Tool has no bounded execution adapter.'') x
     | Some service \<Rightarrow>
         (case post \<lparr>pp_service = service, pp_tenant_id = ti_tenant_id intent, pp_request_id = request_id,
             pp_old_field = pa_old_field arguments, pp_new_field = pa_new_field arguments,
             pp_idempotency_key = ti_idempotency_key intent, pp_change_id = ti_change_id intent,
             pp_plan_hash = ti_plan_hash intent\<rparr> x of
            (reply, x') \<Rightarrow> (read_reply arguments (ti_idempotency_key intent) reply, x')))"

section \<open>The service\<close>

record 'x gateway =
  gw_changes :: mem_repo
  gw_gov :: gov_repo
  gw_active :: active_calls
  gw_remote :: 'x

type_synonym ('x, 'a) gw_op = "('x gateway, gateway_error, 'a) op"

text \<open>
  The exceptions of the change repository as the registered exception handlers answer them: a missing
  change and a foreign tenant are both 404, everything else is 503.
\<close>

definition change_error :: "persistence_error \<Rightarrow> gateway_error" where
  "change_error e = (case e of ChangeNotFoundError _ _ \<Rightarrow> GatewayNotFoundError ''change''
     | TenantScopeViolationError _ _ \<Rightarrow> GatewayNotFoundError ''change''
     | _ \<Rightarrow> PersistenceUnavailable)"

definition on_changes :: "'a mem_op \<Rightarrow> ('x, 'a) gw_op" where
  "on_changes m = zoom gw_changes (\<lambda>c w. w\<lparr>gw_changes := c\<rparr>) change_error m"

definition on_gov :: "'a gov_op \<Rightarrow> ('x, 'a) gw_op" where
  "on_gov m = zoom gw_gov (\<lambda>g w. w\<lparr>gw_gov := g\<rparr>) id m"

record request_env =
  re_clock :: "nat \<Rightarrow> instant"
  re_hex :: "nat \<Rightarrow> string"
  re_request_id :: string

definition actor_type_of :: "verified_identity \<Rightarrow> actor_type" where
  "actor_type_of identity = (case id_kind identity of Kind_AGENT \<Rightarrow> Actor_AGENT | Kind_SERVICE \<Rightarrow> Actor_SERVICE
     | Kind_USER \<Rightarrow> Actor_USER)"

definition semantic_input_hash :: "tool_intent \<Rightarrow> string" where
  "semantic_input_hash intent = sha256_digest (JObj [(''tenant_id'', JStr (ti_tenant_id intent)),
     (''change_id'', JStr (ti_change_id intent)), (''workflow_execution_id'', JStr (ti_workflow_execution_id intent)),
     (''plan_id'', JStr (ti_plan_id intent)), (''plan_hash'', JStr (ti_plan_hash intent)),
     (''step_id'', JStr (ti_step_id intent)), (''agent_identity'', JStr (ti_agent_identity intent)),
     (''tool_name'', JStr (ti_tool_name intent)), (''action'', JStr (ti_action intent)),
     (''resource'', JStr (ti_resource intent)), (''arguments'', JObj (ti_arguments intent)),
     (''idempotency_key'', JStr (ti_idempotency_key intent))])"

definition decision_json :: "(instant \<Rightarrow> string) \<Rightarrow> policy_decision \<Rightarrow> json" where
  "decision_json iso_text d = JObj [(''decision_id'', JStr (pd_decision_id d)), (''tenant_id'', JStr (pd_tenant_id d)),
     (''intent_id'', JStr (pd_intent_id d)), (''effect'', JStr (effect_value (pd_effect d))),
     (''computed_risk'', JStr (risk_value (pd_computed_risk d))), (''approval_required'', JBool (pd_approval_required d)),
     (''approval_valid'', JBool (pd_approval_valid d)), (''matched_policy_ids'', strs_json (pd_matched_policy_ids d)),
     (''reasons'', strs_json (pd_reasons d)), (''evaluated_at'', JStr (iso_text (pd_evaluated_at d)))]"

fun approval_status_value :: "approval_request_status \<Rightarrow> string" where
  "approval_status_value AR_PENDING = ''PENDING''" | "approval_status_value AR_APPROVED = ''APPROVED''"
| "approval_status_value AR_REJECTED = ''REJECTED''"
| "approval_status_value AR_CHANGES_REQUESTED = ''CHANGES_REQUESTED''"

definition approval_request_json :: "(instant \<Rightarrow> string) \<Rightarrow> approval_request \<Rightarrow> json" where
  "approval_request_json iso_text r = JObj [(''approval_id'', JStr (ar_approval_id r)),
     (''tenant_id'', JStr (ar_tenant_id r)), (''change_id'', JStr (ar_change_id r)), (''plan_id'', JStr (ar_plan_id r)),
     (''plan_hash'', JStr (ar_plan_hash r)), (''plan_version'', JInt (ar_plan_version r)),
     (''environment'', JStr (environment_value (ar_environment r))), (''scope'', strs_json (ar_scope r)),
     (''status'', JStr (approval_status_value (ar_status r))), (''requested_by'', JStr (ar_requested_by r)),
     (''requested_at'', JStr (iso_text (ar_requested_at r))), (''expires_at'', JStr (iso_text (ar_expires_at r))),
     (''decided_by'', opt_json JStr (ar_decided_by r)),
     (''decided_by_roles'', strs_json (map role_value (ar_decided_by_roles r))),
     (''decided_at'', opt_json (\<lambda>t. JStr (iso_text t)) (ar_decided_at r)),
     (''comment'', opt_json JStr (ar_comment r)), (''version'', JInt (ar_version r))]"

definition tool_audit ::
  "string \<Rightarrow> verified_identity \<Rightarrow> tool_intent \<Rightarrow> string \<Rightarrow> policy_decision \<Rightarrow> json \<Rightarrow> audit_status \<Rightarrow> string \<Rightarrow>
   instant \<Rightarrow> audit_event option" where
  "tool_audit hex identity intent event_type decision output_doc status summary now = AuditEvent_validate
     \<lparr>ae_audit_event_id = ''audit_'' @ hex, ae_tenant_id = ti_tenant_id intent, ae_change_id = ti_change_id intent,
      ae_trace_id = ti_workflow_execution_id intent, ae_event_type = event_type,
      ae_actor_type = actor_type_of identity, ae_actor_id = id_subject identity, ae_resource = ti_resource intent,
      ae_action = ti_action intent, ae_decision_id = Some (pd_decision_id decision),
      ae_input_hash = semantic_input_hash intent, ae_output_hash = sha256_digest output_doc, ae_status = status,
      ae_redacted_summary = summary, ae_created_at = now\<rparr>"

definition approval_audit ::
  "(instant \<Rightarrow> string) \<Rightarrow> string \<Rightarrow> verified_identity \<Rightarrow> approval_request \<Rightarrow> string \<Rightarrow> string \<Rightarrow> string \<Rightarrow> instant \<Rightarrow>
   audit_event option" where
  "approval_audit iso_text hex identity rec event_type action summary now = AuditEvent_validate
     \<lparr>ae_audit_event_id = ''audit_'' @ hex, ae_tenant_id = ar_tenant_id rec, ae_change_id = ar_change_id rec,
      ae_trace_id = ''approval:'' @ ar_approval_id rec, ae_event_type = event_type,
      ae_actor_type = actor_type_of identity, ae_actor_id = id_subject identity,
      ae_resource = ''approvals/'' @ ar_approval_id rec, ae_action = action, ae_decision_id = None,
      ae_input_hash = sha256_digest (JObj [(''approval_id'', JStr (ar_approval_id rec)),
        (''plan_hash'', JStr (ar_plan_hash rec)), (''scope'', strs_json (ar_scope rec))]),
      ae_output_hash = sha256_digest (approval_request_json iso_text rec), ae_status = Audit_SUCCESS,
      ae_redacted_summary = summary, ae_created_at = now\<rparr>"

definition record_audit :: "audit_event option \<Rightarrow> ('x, unit) gw_op" where
  "record_audit event = bnd (validated UnhandledError event) (\<lambda>e. on_gov (gov_record_audit e))"

definition authorization_denied :: gateway_error where
  "authorization_denied = AuthorizationError ''The authenticated identity is not authorized.''"

definition require_roles :: "verified_identity \<Rightarrow> user_role set \<Rightarrow> ('x, unit) gw_op" where
  "require_roles identity roles = guard (\<not> (id_kind identity \<noteq> Kind_USER \<or> set (id_roles identity) \<inter> roles = {}))
     authorization_denied"

section \<open>Approvals\<close>

record approval_create_request =
  acr_approval_id :: string
  acr_plan :: remediation_plan
  acr_environment :: change_environment
  acr_scope :: "string list"
  acr_expires_at :: instant

definition validate_scope :: "approval_create_request \<Rightarrow> bool" where
  "validate_scope b \<longleftrightarrow> set (acr_scope b) \<subseteq> st_step_id ` set (pl_steps (acr_plan b)) \<and> distinct (acr_scope b)"

definition approval_record_for ::
  "(instant \<Rightarrow> string) \<Rightarrow> approval_create_request \<Rightarrow> verified_identity \<Rightarrow> instant \<Rightarrow> approval_request" where
  "approval_record_for iso_text body identity created_at =
     \<lparr>ar_approval_id = acr_approval_id body, ar_tenant_id = pl_tenant_id (acr_plan body),
      ar_change_id = pl_change_id (acr_plan body), ar_plan_id = pl_plan_id (acr_plan body),
      ar_plan_hash = calculate_plan_hash iso_text (acr_plan body), ar_plan_version = pl_version (acr_plan body),
      ar_environment = acr_environment body, ar_scope = acr_scope body, ar_status = AR_PENDING,
      ar_requested_by = id_subject identity, ar_requested_at = created_at, ar_expires_at = acr_expires_at body,
      ar_decided_by = None, ar_decided_by_roles = [], ar_decided_at = None, ar_comment = None, ar_version = 1\<rparr>"

definition create_approval ::
  "(instant \<Rightarrow> string) \<Rightarrow> request_env \<Rightarrow> approval_create_request \<Rightarrow> verified_identity \<Rightarrow> ('x, approval_request) gw_op" where
  "create_approval iso_text env body identity =
    (let plan = acr_plan body; created_at = re_clock env 0 in
     bnd (guard (id_kind identity \<in> {Kind_AGENT, Kind_SERVICE})
       (AuthorizationError ''Only a workflow service or registered agent may request approval.'')) (\<lambda>_.
     bnd (guard (pl_tenant_id plan = id_tenant_id identity) authorization_denied) (\<lambda>_.
     bnd (guard (\<not> (acr_expires_at body \<le> created_at \<or> created_at + hours 1 < acr_expires_at body))
       (GatewayValidationError ''Approval expiration must be within the next hour.'')) (\<lambda>_.
     bnd (on_changes (mem_get (id_tenant_id identity) (pl_change_id plan))) (\<lambda>change.
     bnd (guard (cr_status change = WS_AWAITING_APPROVAL) (conflict ''Change is not awaiting approval.'')) (\<lambda>_.
     bnd (guard (\<not> (cr_plan_version change \<noteq> pl_version plan \<or>
         cr_plan_hash change \<noteq> Some (calculate_plan_hash iso_text plan) \<or>
         cr_environment change \<noteq> acr_environment body))
       (conflict ''Approval request does not match the authoritative change plan.'')) (\<lambda>_.
     bnd (validated UnhandledError (ApprovalRequestRecord_validate
       (approval_record_for iso_text body identity created_at))) (\<lambda>rec.
     bnd (on_gov (create_approval_request iso_text rec plan)) (\<lambda>stored.
     bnd (if ar_requested_at stored = created_at
       then record_audit (approval_audit iso_text (re_hex env 0) identity stored ''APPROVAL_REQUESTED''
         ''approval_requested'' ''Exact-plan sandbox approval requested.'' created_at)
       else ret ()) (\<lambda>_.
     ret stored))))))))))"

definition list_approvals :: "verified_identity \<Rightarrow> int \<Rightarrow> ('x, approval_request list) gw_op" where
  "list_approvals identity limit = bnd (require_roles identity {APPROVER, AUDITOR, PLATFORM_ADMIN}) (\<lambda>_.
     on_gov (list_approval_requests (id_tenant_id identity) limit))"

definition get_approval :: "string \<Rightarrow> verified_identity \<Rightarrow> ('x, approval_request) gw_op" where
  "get_approval approval_id identity = bnd (require_roles identity {APPROVER, AUDITOR, PLATFORM_ADMIN}) (\<lambda>_.
     on_gov (get_approval_request (id_tenant_id identity) approval_id))"

fun decision_event :: "approval_request_status \<Rightarrow> string \<times> string" where
  "decision_event AR_APPROVED = (''APPROVAL_GRANTED'', ''approval_granted'')"
| "decision_event AR_REJECTED = (''APPROVAL_REJECTED'', ''approval_rejected'')"
| "decision_event AR_CHANGES_REQUESTED = (''APPROVAL_CHANGES_REQUESTED'', ''approval_changes_requested'')"
| "decision_event AR_PENDING = ([], [])"

text \<open>
  The decision handler, called by the routes \<^verbatim>\<open>approve\<close>, \<^verbatim>\<open>reject\<close> and \<^verbatim>\<open>request-changes\<close> with their
  target. The callback to the coordinator is the parameter \<open>notify\<close>: whether it is delivered.
\<close>

definition decide_approval_handler ::
  "(instant \<Rightarrow> string) \<Rightarrow> (approval_request \<Rightarrow> bool) \<Rightarrow> request_env \<Rightarrow> string \<Rightarrow> int \<Rightarrow> string \<Rightarrow> verified_identity \<Rightarrow>
   approval_request_status \<Rightarrow> ('x, approval_request) gw_op" where
  "decide_approval_handler iso_text notify env approval_id expected_version comment identity target =
    (let timestamp = re_clock env 0 in
     bnd (require_roles identity {APPROVER, PLATFORM_ADMIN}) (\<lambda>_.
     bnd (on_gov (decide_approval (id_tenant_id identity) approval_id \<lparr>da_target = target,
       da_expected_version = expected_version, da_decided_by = id_subject identity,
       da_decided_by_roles = id_roles identity, da_comment = comment\<rparr> timestamp)) (\<lambda>rec.
     bnd (record_audit (approval_audit iso_text (re_hex env 0) identity rec (fst (decision_event target))
       (snd (decision_event target))
       (''Exact-plan sandbox approval decision: '' @ approval_status_value target @ ''.'') timestamp)) (\<lambda>_.
     bnd (guard (notify rec) ApprovalCallbackDeliveryError) (\<lambda>_.
     ret rec)))))"

definition approve where
  "approve iso_text notify env approval_id v comment identity =
     decide_approval_handler iso_text notify env approval_id v comment identity AR_APPROVED"

definition reject where
  "reject iso_text notify env approval_id v comment identity =
     decide_approval_handler iso_text notify env approval_id v comment identity AR_REJECTED"

definition request_changes where
  "request_changes iso_text notify env approval_id v comment identity =
     decide_approval_handler iso_text notify env approval_id v comment identity AR_CHANGES_REQUESTED"

definition list_audit :: "verified_identity \<Rightarrow> int \<Rightarrow> ('x, audit_event list) gw_op" where
  "list_audit identity limit = bnd (require_roles identity {AUDITOR, PLATFORM_ADMIN}) (\<lambda>_.
     on_gov (gov_list_audit (id_tenant_id identity) limit))"

section \<open>Evaluate and execute\<close>

record execution_result =
  xr_execution_id :: string
  xr_decision :: policy_decision
  xr_output :: "(string \<times> json) list"
  xr_output_hash :: string
  xr_replayed :: bool

text \<open>What leaves the quota block: an early return, or the reservation and what the executor did.\<close>

datatype block_exit = Early_return execution_result
  | Ran tool_execution "gateway_error + (string \<times> json) list"

definition with_quota :: "int \<Rightarrow> string \<times> string \<Rightarrow> ('x, 'a) gw_op \<Rightarrow> ('x, 'a) gw_op" where
  "with_quota maximum key m w = (case quota_acquire maximum key (gw_active w) of
     None \<Rightarrow> (Inl RateLimitedError, w)
   | Some active \<Rightarrow> (case m (w\<lparr>gw_active := active\<rparr>) of
       (r, w') \<Rightarrow> (r, w'\<lparr>gw_active := quota_release key (gw_active w')\<rparr>)))"

definition run_executor ::
  "'x poster \<Rightarrow> tool_intent \<Rightarrow> tool_registration \<Rightarrow> patch_arguments \<Rightarrow> string \<Rightarrow> tool_execution \<Rightarrow> ('x, block_exit) gw_op" where
  "run_executor post intent registration arguments request_id rec w =
    (case execute post intent registration arguments request_id (gw_remote w) of
       (Inl (ToolAdapterError c d t), x) \<Rightarrow> (Inr (Ran rec (Inl (ToolAdapterError c d t))), w\<lparr>gw_remote := x\<rparr>)
     | (Inl e, x) \<Rightarrow> (Inl e, w\<lparr>gw_remote := x\<rparr>)
     | (Inr output, x) \<Rightarrow> (Inr (Ran rec (Inr output)), w\<lparr>gw_remote := x\<rparr>))"

definition replay_result :: "tool_execution \<Rightarrow> policy_decision \<Rightarrow> execution_result option" where
  "replay_result rec decision = (case (te_status rec, te_output rec, te_output_hash rec) of
     (TE_SUCCEEDED, Some output, Some h) \<Rightarrow> Some \<lparr>xr_execution_id = te_execution_id rec, xr_decision = decision,
        xr_output = output, xr_output_hash = h, xr_replayed = True\<rparr>
   | _ \<Rightarrow> None)"

definition replay_execution ::
  "request_env \<Rightarrow> verified_identity \<Rightarrow> tool_intent \<Rightarrow> policy_decision \<Rightarrow> tool_execution \<Rightarrow> ('x, block_exit) gw_op" where
  "replay_execution env identity intent decision rec =
     bnd (validated UnhandledError (replay_result rec decision)) (\<lambda>result.
     bnd (record_audit (tool_audit (re_hex env 2) identity intent ''TOOL_EXECUTION_REPLAYED'' decision
       (JObj (xr_output result)) Audit_SUCCESS
       ''Existing idempotent tool result returned without another mutation.'' (re_clock env 2))) (\<lambda>_.
     ret (Early_return result)))"

definition quota_block ::
  "'x poster \<Rightarrow> request_env \<Rightarrow> verified_identity \<Rightarrow> tool_intent \<Rightarrow> tool_registration \<Rightarrow> patch_arguments \<Rightarrow>
   policy_decision \<Rightarrow> approval option \<Rightarrow> ('x, block_exit) gw_op" where
  "quota_block post env identity intent registration arguments decision approval =
     bnd (on_gov (reserve_execution intent decision approval (semantic_input_hash intent) (re_clock env 1))) (\<lambda>reservation.
       if er_replayed reservation then replay_execution env identity intent decision (er_record reservation)
       else run_executor post intent registration arguments (re_request_id env) (er_record reservation))"

definition finish_execution ::
  "request_env \<Rightarrow> verified_identity \<Rightarrow> tool_intent \<Rightarrow> policy_decision \<Rightarrow> block_exit \<Rightarrow> ('x, execution_result) gw_op" where
  "finish_execution env identity intent decision ex = (case ex of
     Early_return result \<Rightarrow> ret result
   | Ran rec (Inl error) \<Rightarrow>
       bnd (on_gov (fail_execution (ti_tenant_id intent) (ti_change_id intent) (te_execution_id rec)
         (gateway_error_code error) (re_clock env 2))) (\<lambda>_.
       bnd (record_audit (tool_audit (re_hex env 2) identity intent ''TOOL_EXECUTION_FAILED'' decision
         (JObj [(''error_code'', JStr (gateway_error_code error))]) Audit_FAILURE
         ''Registered sandbox tool execution failed.'' (re_clock env 2))) (\<lambda>_.
       raise error))
   | Ran rec (Inr output) \<Rightarrow>
       bnd (on_gov (complete_execution (ti_tenant_id intent) (ti_change_id intent) (te_execution_id rec)
         output (sha256_digest (JObj output)) (re_clock env 2))) (\<lambda>completed.
       bnd (record_audit (tool_audit (re_hex env 2) identity intent ''TOOL_EXECUTION_SUCCEEDED'' decision
         (JObj output) Audit_SUCCESS ''Approved typed sandbox tool action completed.'' (te_updated_at completed))) (\<lambda>_.
       case (te_output completed, te_output_hash completed) of
         (Some out, Some h) \<Rightarrow> ret \<lparr>xr_execution_id = te_execution_id completed, xr_decision = decision,
            xr_output = out, xr_output_hash = h, xr_replayed = False\<rparr>
       | _ \<Rightarrow> raise UnhandledError)))"

definition local_decision ::
  "request_env \<Rightarrow> tool_intent \<Rightarrow> policy_effect \<Rightarrow> risk_level \<Rightarrow> bool \<Rightarrow> string list \<Rightarrow> string \<Rightarrow> policy_decision" where
  "local_decision env intent effect risk required policy_ids reason =
     \<lparr>pd_decision_id = ''decision_'' @ re_hex env 0, pd_tenant_id = ti_tenant_id intent,
      pd_intent_id = ti_intent_id intent, pd_effect = effect, pd_computed_risk = risk,
      pd_approval_required = required, pd_approval_valid = False, pd_matched_policy_ids = policy_ids,
      pd_reasons = [reason], pd_evaluated_at = re_clock env 0\<rparr>"

definition audit_decision ::
  "(instant \<Rightarrow> string) \<Rightarrow> request_env \<Rightarrow> verified_identity \<Rightarrow> tool_intent \<Rightarrow> string \<Rightarrow> policy_decision \<Rightarrow> audit_status \<Rightarrow>
   string \<Rightarrow> ('x, unit) gw_op" where
  "audit_decision iso_text env identity intent event_type decision status summary =
     record_audit (tool_audit (re_hex env 1) identity intent event_type decision (decision_json iso_text decision)
       status summary (pd_evaluated_at decision))"

definition load_approval :: "string \<Rightarrow> string option \<Rightarrow> ('x, approval option) gw_op" where
  "load_approval tenant_id approval_id = (case approval_id of
     None \<Rightarrow> ret None
   | Some i \<Rightarrow> bnd (on_gov (get_approval_request tenant_id i)) (\<lambda>rec. lift_sum (as_approval rec)))"

definition enforce_decision ::
  "(instant \<Rightarrow> string) \<Rightarrow> int \<Rightarrow> 'x poster \<Rightarrow> request_env \<Rightarrow> verified_identity \<Rightarrow> tool_intent \<Rightarrow>
   tool_registration \<Rightarrow> patch_arguments \<Rightarrow> approval option \<Rightarrow> policy_decision \<Rightarrow> ('x, execution_result) gw_op" where
  "enforce_decision iso_text maximum post env identity intent registration arguments approval decision =
     bnd (if pd_effect decision = ALLOW
       then audit_decision iso_text env identity intent ''TOOL_POLICY_ALLOWED'' decision Audit_SUCCESS
         ''Deterministic tool policy allowed the exact-plan action.''
       else audit_decision iso_text env identity intent ''TOOL_POLICY_DENIED'' decision Audit_REJECTED
         ''Deterministic tool policy denied the action.'') (\<lambda>_.
     if pd_effect decision = REQUIRE_APPROVAL then raise ApprovalRequiredError
     else if pd_effect decision \<noteq> ALLOW then raise PolicyDeniedError
     else bnd (with_quota maximum (ti_tenant_id intent, ti_tool_name intent)
         (quota_block post env identity intent registration arguments decision approval))
       (finish_execution env identity intent decision))"

definition governed_execution ::
  "(instant \<Rightarrow> string) \<Rightarrow> int \<Rightarrow> 'x poster \<Rightarrow> request_env \<Rightarrow> verified_identity \<Rightarrow> tool_intent \<Rightarrow> string option \<Rightarrow>
   tool_registration \<Rightarrow> patch_arguments \<Rightarrow> ('x, execution_result) gw_op" where
  "governed_execution iso_text maximum post env identity intent approval_id registration arguments =
     bnd (on_changes (mem_get (id_tenant_id identity) (ti_change_id intent))) (\<lambda>change.
     bnd (on_gov (get_plan (id_tenant_id identity) (ti_change_id intent) (ti_plan_id intent))) (\<lambda>plan.
     bnd (load_approval (id_tenant_id identity) approval_id) (\<lambda>approval.
     bnd (validated UnhandledError (evaluate iso_text identity intent change plan registration approval
       (re_clock env 0) (re_hex env 0)))
     (enforce_decision iso_text maximum post env identity intent registration arguments approval))))"

definition evaluate_and_execute ::
  "(instant \<Rightarrow> string) \<Rightarrow> tool_registry \<Rightarrow> int \<Rightarrow> 'x poster \<Rightarrow> request_env \<Rightarrow> verified_identity \<Rightarrow> tool_intent \<Rightarrow>
   string option \<Rightarrow> ('x, execution_result) gw_op" where
  "evaluate_and_execute iso_text registry maximum post env identity intent approval_id =
     bnd (guard (id_kind identity = Kind_AGENT)
       (AuthorizationError ''Only authenticated agents may submit tool intents.'')) (\<lambda>_.
     bnd (guard (id_tenant_id identity = ti_tenant_id intent) authorization_denied) (\<lambda>_.
     case registry_get registry (ti_tool_name intent) of
       None \<Rightarrow> bnd (audit_decision iso_text env identity intent ''TOOL_INTENT_DENIED''
           (local_decision env intent DENY RL_UNKNOWN False [] ''Tool is not registered.'')
           Audit_REJECTED ''Unregistered tool intent denied.'') (\<lambda>_. raise PolicyDeniedError)
     | Some registration \<Rightarrow> (case validate_arguments intent of
         Inl error \<Rightarrow> bnd (audit_decision iso_text env identity intent ''TOOL_ARGUMENTS_BLOCKED''
             (local_decision env intent BLOCK_SECURITY (tr_risk_level registration) (tr_mutating registration)
                (tr_policy_ids registration) ''Tool arguments failed the registered schema.'')
             Audit_REJECTED ''Out-of-schema tool arguments blocked.'') (\<lambda>_. raise error)
       | Inr arguments \<Rightarrow> governed_execution iso_text maximum post env identity intent approval_id
           registration arguments)))"

section \<open>Frames\<close>

lemma on_gov_eq: "on_gov m w = (fst (m (gw_gov w)), w\<lparr>gw_gov := snd (m (gw_gov w))\<rparr>)"
  by (simp add: on_gov_def zoom_def split_beta sum.map_id)

lemma on_changes_eq:
  "on_changes m w = (map_sum change_error id (fst (m (gw_changes w))), w\<lparr>gw_changes := snd (m (gw_changes w))\<rparr>)"
  by (simp add: on_changes_def zoom_def split_beta)

text \<open>Everything but the remote side and the governance store is left alone by governance calls.\<close>

lemma on_gov_keeps [pres]: "preserves (\<lambda>w. gw_remote w = x \<and> gw_changes w = c \<and> gw_active w = a) (on_gov m)"
  by (simp add: preserves_def on_gov_eq)

lemma mem_get_state: "snd (mem_get t c s) = s"
  by (simp add: mem_get_def get_unlocked_eq split: option.split)

lemma mem_get_Inr: "fst (mem_get t c s) = Inr r \<longleftrightarrow> dget (m_changes s) (t, c) = Some r"
  by (simp add: mem_get_def get_unlocked_eq split: option.split)

lemma on_changes_get: "on_changes (mem_get t c) w = (map_sum change_error id (fst (mem_get t c (gw_changes w))), w)"
  by (simp add: on_changes_eq mem_get_state)

lemma get_plan_eq: "get_plan t c p s = (case dget (g_plans s) (t, c, p) of
    None \<Rightarrow> (Inl (GatewayNotFoundError ''plan''), s) | Some r \<Rightarrow> (Inr r, s))"
  by (simp add: get_plan_def split: option.split)

lemma load_approval_state: "snd (load_approval t i w) = w"
  by (auto simp: load_approval_def bnd_def on_gov_eq get_approval_request_eq split: option.split sum.split)

text \<open>Recording an audit event changes only the audit dictionary.\<close>

definition gov_core :: "gov_repo \<Rightarrow> gov_repo" where
  "gov_core s = s\<lparr>g_audit := []\<rparr>"

lemma gov_core_simps [simp]:
  "g_executions (gov_core s) = g_executions s" "g_execution_ids (gov_core s) = g_execution_ids s"
  "g_approvals (gov_core s) = g_approvals s" "g_plans (gov_core s) = g_plans s"
  by (simp_all add: gov_core_def)

lemma gov_core_eq:
  assumes "gov_core s = gov_core s'"
  shows "g_executions s = g_executions s'" "g_execution_ids s = g_execution_ids s'"
    "g_approvals s = g_approvals s'" "g_plans s = g_plans s'"
  using assms gov_core_simps by metis+

lemma gateway_audit_cases:
  assumes "record_audit ev w = (r, w')"
  shows "gw_remote w' = gw_remote w" "gw_changes w' = gw_changes w" "gw_active w' = gw_active w"
    "gov_core (gw_gov w') = gov_core (gw_gov w)"
    "r = Inr () \<Longrightarrow> \<exists>e. ev = Some e \<and> dget (g_audit (gw_gov w)) (audit_key e) = None \<and>
       g_audit (gw_gov w') = dput (audit_key e) e (g_audit (gw_gov w))"
  using assms
  by (cases ev; auto simp: record_audit_def bnd_def on_gov_eq gov_record_audit_def gov_core_def split: if_splits)+

lemma succeeded_as_core: "gov_core s = gov_core s' \<Longrightarrow> succeeded_as s t k r = succeeded_as s' t k r"
  using gov_core_eq [of s s'] by (simp add: succeeded_as_def)

lemma executions_ok_core: "gov_core s = gov_core s' \<Longrightarrow> executions_ok s = executions_ok s'"
  using gov_core_eq [of s s'] by (simp add: executions_ok_def)

section \<open>The path to the remote side\<close>

lemma run_executor_frame:
  assumes "run_executor post intent reg args rid rec w = (r, w')"
  shows "w' = w\<lparr>gw_remote := gw_remote w'\<rparr>"
  using assms
  by (auto simp: run_executor_def split: prod.splits sum.splits gateway_error.splits)

lemma record_audit_keeps [pres]:
  "preserves (\<lambda>w. gw_remote w = x \<and> gw_changes w = c \<and> gw_active w = a) (record_audit ev)"
  unfolding record_audit_def by (intro pres)

lemma replay_keeps [pres]:
  "preserves (\<lambda>w. gw_remote w = x \<and> gw_changes w = c \<and> gw_active w = a) (replay_execution env identity intent d rec)"
  unfolding replay_execution_def by (intro pres)

lemma quota_block_eq:
  "quota_block post env identity intent reg args d ap w =
    (case reserve_execution intent d ap (semantic_input_hash intent) (re_clock env 1) (gw_gov w) of
       (Inl e, g) \<Rightarrow> (Inl e, w\<lparr>gw_gov := g\<rparr>)
     | (Inr res, g) \<Rightarrow> (if er_replayed res then replay_execution env identity intent d (er_record res)
         else run_executor post intent reg args (re_request_id env) (er_record res)) (w\<lparr>gw_gov := g\<rparr>))"
  by (simp add: quota_block_def bnd_def on_gov_eq split: prod.split sum.split)

lemma quota_block_active:
  assumes "quota_block post env identity intent reg args d ap w = (r, w')"
  shows "gw_active w' = gw_active w \<and> gw_changes w' = gw_changes w"
proof -
  obtain rr g where res: "reserve_execution intent d ap (semantic_input_hash intent) (re_clock env 1) (gw_gov w) = (rr, g)"
    by fastforce
  let ?w = "w\<lparr>gw_gov := g\<rparr>"
  have replay: "gw_active v = gw_active w \<and> gw_changes v = gw_changes w"
    if "replay_execution env identity intent d rec ?w = (q, v)" for rec q v
    using preservesD [OF replay_keeps _ that, of "gw_remote w" "gw_changes w" "gw_active w"] by simp
  have run: "gw_active v = gw_active w \<and> gw_changes v = gw_changes w"
    if "run_executor post intent reg args (re_request_id env) rec ?w = (q, v)" for rec q v
    by (subst (1 2) run_executor_frame [OF that]) simp
  from assms res replay run show ?thesis by (auto simp: quota_block_eq split: sum.splits if_splits)
qed

lemma quota_block_remote:
  assumes "quota_block post env identity intent reg args d ap w = (r, w')" "gw_remote w' \<noteq> gw_remote w"
  shows "\<exists>res s'. reserve_execution intent d ap (semantic_input_hash intent) (re_clock env 1) (gw_gov w) = (Inr res, s') \<and>
    \<not> er_replayed res"
proof -
  obtain rr g where res: "reserve_execution intent d ap (semantic_input_hash intent) (re_clock env 1) (gw_gov w) = (rr, g)"
    by fastforce
  have replay: "gw_remote v = gw_remote w"
    if "replay_execution env identity intent d rec (w\<lparr>gw_gov := g\<rparr>) = (q, v)" for rec q v
    using preservesD [OF replay_keeps _ that, of "gw_remote w" "gw_changes w" "gw_active w"] by simp
  from assms res replay show ?thesis by (auto simp: quota_block_eq split: sum.splits if_splits)
qed

lemma with_quota_inner:
  assumes "with_quota maximum key m w = (r, w')"
  shows "(w' = w \<and> r = Inl RateLimitedError) \<or> (\<exists>active v. quota_acquire maximum key (gw_active w) = Some active \<and>
    m (w\<lparr>gw_active := active\<rparr>) = (r, v) \<and> w' = v\<lparr>gw_active := quota_release key (gw_active v)\<rparr>)"
  using assms by (auto simp: with_quota_def split: option.splits prod.splits)

lemma finish_keeps:
  "preserves (\<lambda>w. gw_remote w = x \<and> gw_changes w = c \<and> gw_active w = a) (finish_execution env identity intent d ex)"
  unfolding finish_execution_def
  by (auto intro!: pres split: block_exit.split sum.split option.split)

lemma governed_eq:
  "governed_execution iso_text maximum post env identity intent approval_id reg args w =
    (case fst (mem_get (id_tenant_id identity) (ti_change_id intent) (gw_changes w)) of
       Inl e \<Rightarrow> (Inl (change_error e), w)
     | Inr change \<Rightarrow> (case dget (g_plans (gw_gov w)) (id_tenant_id identity, ti_change_id intent, ti_plan_id intent) of
         None \<Rightarrow> (Inl (GatewayNotFoundError ''plan''), w)
       | Some plan \<Rightarrow> (case fst (load_approval (id_tenant_id identity) approval_id w) of
           Inl e \<Rightarrow> (Inl e, w)
         | Inr approval \<Rightarrow> (case evaluate iso_text identity intent change plan reg approval (re_clock env 0) (re_hex env 0) of
             None \<Rightarrow> (Inl UnhandledError, w)
           | Some d \<Rightarrow> enforce_decision iso_text maximum post env identity intent reg args approval d w))))"
proof -
  obtain la where la: "load_approval (id_tenant_id identity) approval_id w = (la, w)"
    using load_approval_state [of "id_tenant_id identity" approval_id w] by (metis prod.collapse)
  show ?thesis
    by (simp add: governed_execution_def bnd_def on_changes_get on_gov_eq get_plan_eq la
        split: sum.split option.split)
qed

lemma audit_decision_core:
  assumes "audit_decision iso_text env identity intent et d st sm w = (r, w')"
  shows "gw_remote w' = gw_remote w" "gw_changes w' = gw_changes w" "gw_active w' = gw_active w"
    "gov_core (gw_gov w') = gov_core (gw_gov w)"
  using gateway_audit_cases(1-4) [OF assms [unfolded audit_decision_def]] by simp_all

lemma enforce_remote:
  assumes "enforce_decision iso_text maximum post env identity intent reg args ap d w = (r, w')"
    "gw_remote w' \<noteq> gw_remote w"
  shows "pd_effect d = ALLOW \<and> (\<exists>g res s'. gov_core g = gov_core (gw_gov w) \<and>
    reserve_execution intent d ap (semantic_input_hash intent) (re_clock env 1) g = (Inr res, s') \<and> \<not> er_replayed res)"
proof -
  let ?audit = "if pd_effect d = ALLOW
       then audit_decision iso_text env identity intent ''TOOL_POLICY_ALLOWED'' d Audit_SUCCESS
         ''Deterministic tool policy allowed the exact-plan action.''
       else audit_decision iso_text env identity intent ''TOOL_POLICY_DENIED'' d Audit_REJECTED
         ''Deterministic tool policy denied the action.''"
  obtain ar w1 where a: "?audit w = (ar, w1)" by fastforce
  have w1: "gw_remote w1 = gw_remote w" "gov_core (gw_gov w1) = gov_core (gw_gov w)"
    using a audit_decision_core by (auto split: if_splits)
  show ?thesis
  proof (cases "(\<exists>u. ar = Inr u) \<and> pd_effect d = ALLOW")
    case False
    with assms a w1 show ?thesis
      by (auto simp: enforce_decision_def bnd_def split: if_splits sum.splits)
  next
    case True
    let ?q = "with_quota maximum (ti_tenant_id intent, ti_tool_name intent) (quota_block post env identity intent reg args d ap)"
    obtain qr w2 where q: "?q w1 = (qr, w2)" by fastforce
    from True assms(1) a q have "w' = w2 \<or> (\<exists>ex. qr = Inr ex \<and> finish_execution env identity intent d ex w2 = (r, w'))"
      by (auto simp: enforce_decision_def bnd_def split: sum.splits)
    moreover have "gw_remote v = gw_remote w2" if "finish_execution env identity intent d ex w2 = (r, v)" for ex v
      using preservesD [OF finish_keeps _ that, of "gw_remote w2" "gw_changes w2" "gw_active w2"] by simp
    ultimately have "gw_remote w2 \<noteq> gw_remote w1" using assms(2) w1 by auto
    with with_quota_inner [OF q] obtain active v where
      b: "quota_block post env identity intent reg args d ap (w1\<lparr>gw_active := active\<rparr>) = (qr, v)"
        "gw_remote v \<noteq> gw_remote w1" by auto
    from quota_block_remote [OF b(1)] b(2) w1(2) True show ?thesis by auto
  qed
qed

text \<open>The stored approval that a request names, as the handler reads it.\<close>

definition stored_approval :: "gov_repo \<Rightarrow> string \<Rightarrow> string option \<Rightarrow> approval option \<Rightarrow> bool" where
  "stored_approval g tenant_id approval_id approval = (case approval_id of
     None \<Rightarrow> approval = None
   | Some i \<Rightarrow> \<exists>r. dget (g_approvals g) (tenant_id, i) = Some r \<and> as_approval r = Inr approval)"

lemma load_approval_Inr:
  "fst (load_approval t i w) = Inr ap \<Longrightarrow> stored_approval (gw_gov w) t i ap"
  by (auto simp: load_approval_def stored_approval_def bnd_def on_gov_eq get_approval_request_eq split: option.splits)

lemma remote_needs_authorization:
  assumes "evaluate_and_execute iso_text registry maximum post env identity intent approval_id w = (r, w')"
    "gw_remote w' \<noteq> gw_remote w"
  shows "\<exists>change plan tool approval d g res s'.
    dget (m_changes (gw_changes w)) (id_tenant_id identity, ti_change_id intent) = Some change \<and>
    dget (g_plans (gw_gov w)) (id_tenant_id identity, ti_change_id intent, ti_plan_id intent) = Some plan \<and>
    registry_get registry (ti_tool_name intent) = Some tool \<and>
    stored_approval (gw_gov w) (id_tenant_id identity) approval_id approval \<and>
    authorized iso_text identity intent change plan tool approval (re_clock env 0) \<and>
    gov_core g = gov_core (gw_gov w) \<and>
    reserve_execution intent d approval (semantic_input_hash intent) (re_clock env 1) g = (Inr res, s') \<and> \<not> er_replayed res"
proof -
  have audit: "gw_remote v = gw_remote w" if "audit_decision iso_text env identity intent et d st sm w = (q, v)" for et d st sm q v
    using audit_decision_core(1) [OF that] .
  from assms have "id_kind identity = Kind_AGENT" "id_tenant_id identity = ti_tenant_id intent"
    by (auto simp: evaluate_and_execute_def bnd_def split: if_splits)
  note run = assms(1) [unfolded evaluate_and_execute_def bnd_def guard_apply, simplified this, simplified]
  obtain tool where tool: "registry_get registry (ti_tool_name intent) = Some tool"
  proof (cases "registry_get registry (ti_tool_name intent)")
    case None
    with run audit assms(2) show ?thesis by (auto split: prod.splits sum.splits)
  qed auto
  obtain args where "validate_arguments intent = Inr args"
  proof (cases "validate_arguments intent")
    case (Inl e)
    with run tool audit assms(2) show ?thesis by (auto split: prod.splits sum.splits)
  qed auto
  with run tool have gov: "governed_execution iso_text maximum post env identity intent approval_id tool args w = (r, w')"
    by simp
  from gov [unfolded governed_eq] assms(2) obtain change plan approval d where
    read: "fst (mem_get (id_tenant_id identity) (ti_change_id intent) (gw_changes w)) = Inr change"
      "dget (g_plans (gw_gov w)) (id_tenant_id identity, ti_change_id intent, ti_plan_id intent) = Some plan"
      "fst (load_approval (id_tenant_id identity) approval_id w) = Inr approval"
      "evaluate iso_text identity intent change plan tool approval (re_clock env 0) (re_hex env 0) = Some d"
      "enforce_decision iso_text maximum post env identity intent tool args approval d w = (r, w')"
    by (auto split: sum.splits option.splits)
  from enforce_remote [OF read(5) assms(2)] evaluate_allow [OF read(4)] read tool load_approval_Inr mem_get_Inr
  show ?thesis by metis
qed

definition patch_post_for ::
  "string \<Rightarrow> tool_intent \<Rightarrow> patch_arguments \<Rightarrow> string \<Rightarrow> patch_post" where
  "patch_post_for service intent arguments request_id = \<lparr>pp_service = service, pp_tenant_id = ti_tenant_id intent,
     pp_request_id = request_id, pp_old_field = pa_old_field arguments, pp_new_field = pa_new_field arguments,
     pp_idempotency_key = ti_idempotency_key intent, pp_change_id = ti_change_id intent,
     pp_plan_hash = ti_plan_hash intent\<rparr>"

lemma run_executor_remote:
  assumes "service_by_tool (tr_tool_name reg) = Some service"
  shows "gw_remote (snd (run_executor post intent reg args rid rec w)) =
    snd (post (patch_post_for service intent args rid) (gw_remote w))"
  using assms
  by (auto simp: run_executor_def execute_def patch_post_for_def split: prod.splits sum.splits gateway_error.splits)

lemma enforce_reaches_remote:
  fixes w :: "'x gateway"
  assumes "pd_effect d = ALLOW" "service_by_tool (tr_tool_name reg) = Some service"
    "tool_audit (re_hex env 1) identity intent ''TOOL_POLICY_ALLOWED'' d (decision_json iso_text d) Audit_SUCCESS
       ''Deterministic tool policy allowed the exact-plan action.'' (pd_evaluated_at d) = Some e"
    "dget (g_audit (gw_gov w)) (audit_key e) = None"
    "dget_or (gw_active w) (ti_tenant_id intent, ti_tool_name intent) 0 < maximum"
    "reserve_execution intent d ap (semantic_input_hash intent) (re_clock env 1)
       ((gw_gov w)\<lparr>g_audit := dput (audit_key e) e (g_audit (gw_gov w))\<rparr>) = (Inr res, g)" "\<not> er_replayed res"
  shows "gw_remote (snd (enforce_decision iso_text maximum post env identity intent reg args ap d w)) =
    snd (post (patch_post_for service intent args (re_request_id env)) (gw_remote w))"
proof -
  let ?w1 = "w\<lparr>gw_gov := (gw_gov w)\<lparr>g_audit := dput (audit_key e) e (g_audit (gw_gov w))\<rparr>\<rparr>"
  let ?k = "(ti_tenant_id intent, ti_tool_name intent)"
  have "audit_decision iso_text env identity intent ''TOOL_POLICY_ALLOWED'' d Audit_SUCCESS
      ''Deterministic tool policy allowed the exact-plan action.'' w = (Inr (), ?w1)"
    using assms(3,4) by (simp add: audit_decision_def record_audit_def bnd_def on_gov_eq gov_record_audit_def)
  moreover obtain active where "quota_acquire maximum ?k (gw_active w) = Some active"
    using assms(5) by (simp add: quota_acquire_def)
  moreover obtain qr v where
    q: "quota_block post env identity intent reg args d ap (?w1\<lparr>gw_active := active\<rparr>) = (qr, v)" by fastforce
  moreover have "gw_remote v = snd (post (patch_post_for service intent args (re_request_id env)) (gw_remote w))"
  proof -
    have "run_executor post intent reg args (re_request_id env) (er_record res) (?w1\<lparr>gw_active := active, gw_gov := g\<rparr>) = (qr, v)"
      using q assms(6,7) by (simp add: quota_block_eq)
    from run_executor_remote [OF assms(2), of post intent args "re_request_id env" "er_record res"
        "?w1\<lparr>gw_active := active, gw_gov := g\<rparr>", unfolded this] show ?thesis by simp
  qed
  moreover have "gw_remote (snd (finish_execution env identity intent d ex u)) = gw_remote u" for ex and u :: "'x gateway"
    using preserves_snd [OF finish_keeps, of u "gw_remote u" "gw_changes u" "gw_active u"] by simp
  ultimately show ?thesis
    using assms(1) by (simp add: enforce_decision_def bnd_def with_quota_def split: sum.split)
qed

lemma evaluate_and_execute_reads:
  assumes "id_kind identity = Kind_AGENT" "id_tenant_id identity = ti_tenant_id intent"
    "registry_get registry (ti_tool_name intent) = Some tool" "validate_arguments intent = Inr args"
    "dget (m_changes (gw_changes w)) (id_tenant_id identity, ti_change_id intent) = Some change"
    "dget (g_plans (gw_gov w)) (id_tenant_id identity, ti_change_id intent, ti_plan_id intent) = Some plan"
    "fst (load_approval (id_tenant_id identity) approval_id w) = Inr approval"
    "evaluate iso_text identity intent change plan tool approval (re_clock env 0) (re_hex env 0) = Some d"
  shows "evaluate_and_execute iso_text registry maximum post env identity intent approval_id w =
    enforce_decision iso_text maximum post env identity intent tool args approval d w"
proof -
  have get: "fst (mem_get (id_tenant_id identity) (ti_change_id intent) (gw_changes w)) = Inr change"
    using assms(5) mem_get_Inr by blast
  have "evaluate_and_execute iso_text registry maximum post env identity intent approval_id w =
      governed_execution iso_text maximum post env identity intent approval_id tool args w"
    using assms(1-4) by (simp add: evaluate_and_execute_def bnd_def)
  also have "\<dots> = enforce_decision iso_text maximum post env identity intent tool args approval d w"
    unfolding governed_eq get sum.case assms(6) option.case assms(7) assms(8) ..
  finally show ?thesis .
qed

lemma authorized_reaches_remote:
  assumes "authorized iso_text identity intent change plan tool approval (re_clock env 0)"
    "registry_get registry (ti_tool_name intent) = Some tool" "validate_arguments intent = Inr args"
    "service_by_tool (tr_tool_name tool) = Some service"
    "dget (m_changes (gw_changes w)) (id_tenant_id identity, ti_change_id intent) = Some change"
    "dget (g_plans (gw_gov w)) (id_tenant_id identity, ti_change_id intent, ti_plan_id intent) = Some plan"
    "fst (load_approval (id_tenant_id identity) approval_id w) = Inr approval"
    "evaluate iso_text identity intent change plan tool approval (re_clock env 0) (re_hex env 0) = Some d"
    "tool_audit (re_hex env 1) identity intent ''TOOL_POLICY_ALLOWED'' d (decision_json iso_text d) Audit_SUCCESS
       ''Deterministic tool policy allowed the exact-plan action.'' (pd_evaluated_at d) = Some e"
    "dget (g_audit (gw_gov w)) (audit_key e) = None"
    "dget_or (gw_active w) (ti_tenant_id intent, ti_tool_name intent) 0 < maximum"
    "reserve_execution intent d approval (semantic_input_hash intent) (re_clock env 1)
       ((gw_gov w)\<lparr>g_audit := dput (audit_key e) e (g_audit (gw_gov w))\<rparr>) = (Inr res, g)" "\<not> er_replayed res"
  shows "gw_remote (snd (evaluate_and_execute iso_text registry maximum post env identity intent approval_id w)) =
    snd (post (patch_post_for service intent args (re_request_id env)) (gw_remote w))"
proof -
  have "pd_effect d = ALLOW" using evaluate_allow [OF assms(8)] assms(1) by simp
  note enforce = enforce_reaches_remote [OF this assms(4,9-13)]
  have "id_kind identity = Kind_AGENT" "id_tenant_id identity = ti_tenant_id intent"
    using assms(1) by (simp_all add: authorized_def caller_authentic_def)
  from evaluate_and_execute_reads [OF this assms(2,3,5-8)] enforce show ?thesis by simp
qed

section \<open>Properties of the gateway\<close>

text \<open>
  Nothing reaches a tool without authorization: if handling an intent changes the remote side in any
  way, then the change and the plan are stored in the caller's tenant, the tool is registered, the
  approval the request names is the stored one, the policy conditions all hold for exactly those
  documents at the time of the decision, and the action had not already succeeded under its idempotency
  key.
\<close>

theorem gateway_mutates_only_if_authorized:
  assumes "evaluate_and_execute iso_text registry maximum post env identity intent approval_id w = (r, w')"
    "gw_remote w' \<noteq> gw_remote w"
  shows "\<exists>change plan tool approval.
    dget (m_changes (gw_changes w)) (id_tenant_id identity, ti_change_id intent) = Some change \<and>
    dget (g_plans (gw_gov w)) (id_tenant_id identity, ti_change_id intent, ti_plan_id intent) = Some plan \<and>
    registry_get registry (ti_tool_name intent) = Some tool \<and>
    stored_approval (gw_gov w) (id_tenant_id identity) approval_id approval \<and>
    authorized iso_text identity intent change plan tool approval (re_clock env 0) \<and>
    (\<nexists>x. succeeded_as (gw_gov w) (ti_tenant_id intent) (ti_idempotency_key intent) x)"
proof -
  from remote_needs_authorization [OF assms] obtain change plan tool approval d g res s' where
    f: "dget (m_changes (gw_changes w)) (id_tenant_id identity, ti_change_id intent) = Some change"
      "dget (g_plans (gw_gov w)) (id_tenant_id identity, ti_change_id intent, ti_plan_id intent) = Some plan"
      "registry_get registry (ti_tool_name intent) = Some tool"
      "stored_approval (gw_gov w) (id_tenant_id identity) approval_id approval"
      "authorized iso_text identity intent change plan tool approval (re_clock env 0)"
      "gov_core g = gov_core (gw_gov w)"
      "reserve_execution intent d approval (semantic_input_hash intent) (re_clock env 1) g = (Inr res, s')"
      "\<not> er_replayed res" by blast
  have "\<not> succeeded_as g (ti_tenant_id intent) (ti_idempotency_key intent) x" for x
    using f(7) by (cases rule: reserve_execution_cases) (use f(8) in \<open>auto simp: succeeded_as_def execution_key_def\<close>)
  with f(1-6) succeeded_as_core [OF f(6)] show ?thesis by blast
qed

text \<open>
  C15. Authorized intents do reach their tool: when the documents are stored, the policy conditions hold,
  the arguments fit the schema, the audit event of the decision can be stored, a call slot is free and
  the execution can be reserved, the service posts exactly the intent's patch, under its tenant,
  idempotency key, change and plan hash, to the service of the tool, and the remote side afterwards is
  what that post left.
\<close>

theorem gateway_executes_authorized:
  assumes "authorized iso_text identity intent change plan tool approval (re_clock env 0)"
    "registry_get registry (ti_tool_name intent) = Some tool" "validate_arguments intent = Inr args"
    "service_by_tool (tr_tool_name tool) = Some service"
    "dget (m_changes (gw_changes w)) (id_tenant_id identity, ti_change_id intent) = Some change"
    "dget (g_plans (gw_gov w)) (id_tenant_id identity, ti_change_id intent, ti_plan_id intent) = Some plan"
    "fst (load_approval (id_tenant_id identity) approval_id w) = Inr approval"
    "evaluate iso_text identity intent change plan tool approval (re_clock env 0) (re_hex env 0) = Some d"
    "tool_audit (re_hex env 1) identity intent ''TOOL_POLICY_ALLOWED'' d (decision_json iso_text d) Audit_SUCCESS
       ''Deterministic tool policy allowed the exact-plan action.'' (pd_evaluated_at d) = Some e"
    "dget (g_audit (gw_gov w)) (audit_key e) = None"
    "dget_or (gw_active w) (ti_tenant_id intent, ti_tool_name intent) 0 < maximum"
    "reserve_execution intent d approval (semantic_input_hash intent) (re_clock env 1)
       ((gw_gov w)\<lparr>g_audit := dput (audit_key e) e (g_audit (gw_gov w))\<rparr>) = (Inr res, g)" "\<not> er_replayed res"
  shows "gw_remote (snd (evaluate_and_execute iso_text registry maximum post env identity intent approval_id w)) =
    snd (post (patch_post_for service intent args (re_request_id env)) (gw_remote w))"
  by (rule authorized_reaches_remote [OF assms])

text \<open>A concrete world: the executing change, the decided approval, a free quota, a counting remote side.\<close>

definition demo_world :: "nat gateway" where
  "demo_world = \<lparr>gw_changes = snd (mem_add demo_executing mem_empty), gw_gov = demo_gov, gw_active = [], gw_remote = 0\<rparr>"

definition demo_post :: "nat poster" where
  "demo_post p n = (Unreachable, n + 1)"

definition demo_env :: request_env where
  "demo_env = \<lparr>re_clock = (\<lambda>_. 10), re_hex = (\<lambda>n. if n = 0 then ''00'' else if n = 1 then ''01'' else ''02''),
     re_request_id = ''req''\<rparr>"

lemma evaluate_fields:
  assumes "evaluate iso_text identity intent change plan tool approval now hex = Some d"
  shows "pd_decision_id d = ''decision_'' @ hex" "pd_evaluated_at d = now"
    "tr_mutating tool \<Longrightarrow> pd_approval_required d"
  using assms by (auto simp: evaluate_def Let_def split: option.splits)

lemma demo_tool_audit:
  assumes "pd_decision_id d = ''decision_00''"
  shows "\<exists>e. tool_audit ''01'' demo_agent demo_intent ''TOOL_POLICY_ALLOWED'' d (decision_json demo_iso d) Audit_SUCCESS
       ''Deterministic tool policy allowed the exact-plan action.'' 10 = Some e"
proof -
  have "list_all (\<lambda>x. strip x = x \<and> nonempty_str x) [''audit_01'', ''t1'', ''c1'', ''wf1'', ''TOOL_POLICY_ALLOWED'', ''crm'',
    ''crm://tenant/t1/configuration/lead'', ''update'', ''decision_00'',
    ''Deterministic tool policy allowed the exact-plan action.'']" by code_simp
  with assms show ?thesis
    by (simp add: tool_audit_def AuditEvent_validate_def Let_def strip_audit_event_def audit_event_fields_ok_def
        demo_agent_def demo_intent_def semantic_input_hash_def strip_digest)
qed

lemma demo_registry: "\<exists>reg. build_default_tool_registry = Some reg \<and> registry_get reg ''crm.update_field_mapping'' = Some demo_tool"
  by (simp add: build_default_tool_registry_def ToolRegistry_def dict_of_def dput_def registry_get_def dget_Cons
      default_registration_def demo_tool_def)

lemma demo_arguments: "validate_arguments demo_intent = Inr \<lparr>pa_old_field = ''lead_name'', pa_new_field = ''full_name''\<rparr>"
proof -
  have "FieldPatchArguments_validate [(''old_field'', JStr ''lead_name''), (''new_field'', JStr ''full_name'')] =
    Some \<lparr>pa_old_field = ''lead_name'', pa_new_field = ''full_name''\<rparr>" by code_simp
  moreover have "service_by_tool ''crm.update_field_mapping'' = Some ''crm''" by code_simp
  ultimately show ?thesis by (simp add: validate_arguments_def demo_intent_def)
qed

lemma demo_hypotheses:
  obtains reg d e res g' where
    "registry_get reg (ti_tool_name demo_intent) = Some demo_tool"
    "evaluate demo_iso demo_agent demo_intent demo_executing demo_plan demo_tool (Some demo_approval)
       (re_clock demo_env 0) (re_hex demo_env 0) = Some d"
    "tool_audit (re_hex demo_env 1) demo_agent demo_intent ''TOOL_POLICY_ALLOWED'' d (decision_json demo_iso d) Audit_SUCCESS
       ''Deterministic tool policy allowed the exact-plan action.'' (pd_evaluated_at d) = Some e"
    "dget (g_audit (gw_gov demo_world)) (audit_key e) = None"
    "reserve_execution demo_intent d (Some demo_approval) (semantic_input_hash demo_intent) (re_clock demo_env 1)
       ((gw_gov demo_world)\<lparr>g_audit := dput (audit_key e) e (g_audit (gw_gov demo_world))\<rparr>) = (Inr res, g')"
    "\<not> er_replayed res"
proof -
  have env: "re_clock demo_env n = 10" "re_hex demo_env 0 = ''00''" "re_hex demo_env (Suc 0) = ''01''" for n
    by (simp_all add: demo_env_def)
  have world: "gw_gov demo_world = demo_gov" by (simp add: demo_world_def)
  from demo_registry obtain reg where
    reg: "registry_get reg (ti_tool_name demo_intent) = Some demo_tool" by (auto simp: demo_intent_def)
  from demo_evaluate obtain d where
    d: "evaluate demo_iso demo_agent demo_intent demo_executing demo_plan demo_tool (Some demo_approval) 10 ''00'' = Some d" ..
  note df = evaluate_fields [OF d]
  from demo_tool_audit df obtain e where
    e: "tool_audit ''01'' demo_agent demo_intent ''TOOL_POLICY_ALLOWED'' d (decision_json demo_iso d) Audit_SUCCESS
       ''Deterministic tool policy allowed the exact-plan action.'' 10 = Some e" by auto
  let ?g = "demo_gov\<lparr>g_audit := dput (audit_key e) e (g_audit demo_gov)\<rparr>"
  have "\<exists>res g'. reserve_execution demo_intent d (Some demo_approval) (semantic_input_hash demo_intent) 10 ?g = (Inr res, g') \<and> \<not> er_replayed res"
    using df by (intro demo_reserve_any)
      (simp_all add: demo_gov_ok demo_tool_def default_registration_def semantic_input_hash_def)
  then obtain res g' where
    "reserve_execution demo_intent d (Some demo_approval) (semantic_input_hash demo_intent) 10 ?g = (Inr res, g')"
      "\<not> er_replayed res" by blast
  with reg d e df(2) show thesis by (intro that [of reg d e res g']) (simp_all add: env world demo_gov_ok(6))
qed

lemma demo_reads:
  "authorized demo_iso demo_agent demo_intent demo_executing demo_plan demo_tool (Some demo_approval) (re_clock demo_env 0)"
  "service_by_tool (tr_tool_name demo_tool) = Some ''crm''"
  "dget (m_changes (gw_changes demo_world)) (id_tenant_id demo_agent, ti_change_id demo_intent) = Some demo_executing"
  "dget (g_plans (gw_gov demo_world)) (id_tenant_id demo_agent, ti_change_id demo_intent, ti_plan_id demo_intent) = Some demo_plan"
  "fst (load_approval (id_tenant_id demo_agent) (Some ''a1'') demo_world) = Inr (Some demo_approval)"
  "dget_or (gw_active demo_world) (ti_tenant_id demo_intent, ti_tool_name demo_intent) 0 < 4"
  using demo_authorized
  by (simp_all add: demo_env_def demo_tool_def default_registration_def service_by_tool_def dget_Cons demo_world_def
      mem_add_eq mem_empty_def change_key_def demo_executing_def load_approval_def bnd_def on_gov_eq
      get_approval_request_eq demo_gov_ok demo_as_approval demo_agent_def demo_intent_def)

lemma demo_remote:
  "\<exists>reg. gw_remote (snd (evaluate_and_execute demo_iso reg 4 demo_post demo_env demo_agent demo_intent (Some ''a1'') demo_world)) = 1"
proof (rule demo_hypotheses)
  fix reg d e res g'
  assume h: "registry_get reg (ti_tool_name demo_intent) = Some demo_tool"
    "evaluate demo_iso demo_agent demo_intent demo_executing demo_plan demo_tool (Some demo_approval)
       (re_clock demo_env 0) (re_hex demo_env 0) = Some d"
    "tool_audit (re_hex demo_env 1) demo_agent demo_intent ''TOOL_POLICY_ALLOWED'' d (decision_json demo_iso d) Audit_SUCCESS
       ''Deterministic tool policy allowed the exact-plan action.'' (pd_evaluated_at d) = Some e"
    "dget (g_audit (gw_gov demo_world)) (audit_key e) = None"
    "reserve_execution demo_intent d (Some demo_approval) (semantic_input_hash demo_intent) (re_clock demo_env 1)
       ((gw_gov demo_world)\<lparr>g_audit := dput (audit_key e) e (g_audit (gw_gov demo_world))\<rparr>) = (Inr res, g')"
    "\<not> er_replayed res"
  from authorized_reaches_remote [OF demo_reads(1) h(1) demo_arguments demo_reads(2-5) h(2-4) demo_reads(6) h(5,6), of demo_post]
  show ?thesis by (auto simp: demo_post_def demo_world_def)
qed

theorem gateway_executes_authorized_witness:
  "\<exists>reg. gw_remote (snd (evaluate_and_execute demo_iso reg 4 demo_post demo_env demo_agent demo_intent (Some ''a1'') demo_world)) \<noteq> 0"
proof (rule demo_hypotheses)
  fix reg d e res g'
  assume h: "registry_get reg (ti_tool_name demo_intent) = Some demo_tool"
    "evaluate demo_iso demo_agent demo_intent demo_executing demo_plan demo_tool (Some demo_approval)
       (re_clock demo_env 0) (re_hex demo_env 0) = Some d"
    "tool_audit (re_hex demo_env 1) demo_agent demo_intent ''TOOL_POLICY_ALLOWED'' d (decision_json demo_iso d) Audit_SUCCESS
       ''Deterministic tool policy allowed the exact-plan action.'' (pd_evaluated_at d) = Some e"
    "dget (g_audit (gw_gov demo_world)) (audit_key e) = None"
    "reserve_execution demo_intent d (Some demo_approval) (semantic_input_hash demo_intent) (re_clock demo_env 1)
       ((gw_gov demo_world)\<lparr>g_audit := dput (audit_key e) e (g_audit (gw_gov demo_world))\<rparr>) = (Inr res, g')"
    "\<not> er_replayed res"
  from gateway_executes_authorized [OF demo_reads(1) h(1) demo_arguments demo_reads(2-5) h(2-4) demo_reads(6) h(5,6), of demo_post]
  show ?thesis by (intro exI [of _ reg]) (simp add: demo_post_def)
qed

theorem gateway_mutates_only_if_authorized_witness:
  "\<exists>change plan tool approval. authorized demo_iso demo_agent demo_intent change plan tool approval (re_clock demo_env 0) \<and>
     stored_approval demo_gov ''t1'' (Some ''a1'') approval"
proof -
  from demo_remote obtain reg where
    "gw_remote (snd (evaluate_and_execute demo_iso reg 4 demo_post demo_env demo_agent demo_intent (Some ''a1'') demo_world)) = 1" ..
  then have "gw_remote (snd (evaluate_and_execute demo_iso reg 4 demo_post demo_env demo_agent demo_intent (Some ''a1'') demo_world))
      \<noteq> gw_remote demo_world" by (simp add: demo_world_def)
  from gateway_mutates_only_if_authorized [OF surjective_pairing this]
  show ?thesis by (auto simp: demo_world_def demo_agent_def)
qed

lemma quota_round_trip:
  "quota_acquire maximum key active = Some active' \<Longrightarrow>
   dget_or (quota_release key active') k 0 = dget_or active k 0"
  by (auto simp: quota_acquire_def quota_release_def Let_def dget_or_def split: if_splits)

lemma with_quota_balanced:
  assumes "with_quota maximum key m w = (r, w')" "\<And>v q v'. m v = (q, v') \<Longrightarrow> gw_active v' = gw_active v"
  shows "dget_or (gw_active w') k 0 = dget_or (gw_active w) k 0"
  using with_quota_inner [OF assms(1)] assms(2) quota_round_trip by fastforce

lemma enforce_balanced:
  assumes "enforce_decision iso_text maximum post env identity intent reg args ap d w = (r, w')"
  shows "dget_or (gw_active w') k 0 = dget_or (gw_active w) k 0"
proof -
  let ?audit = "if pd_effect d = ALLOW
       then audit_decision iso_text env identity intent ''TOOL_POLICY_ALLOWED'' d Audit_SUCCESS
         ''Deterministic tool policy allowed the exact-plan action.''
       else audit_decision iso_text env identity intent ''TOOL_POLICY_DENIED'' d Audit_REJECTED
         ''Deterministic tool policy denied the action.''"
  let ?q = "with_quota maximum (ti_tenant_id intent, ti_tool_name intent) (quota_block post env identity intent reg args d ap)"
  obtain ar w1 where a: "?audit w = (ar, w1)" by fastforce
  then have w1: "gw_active w1 = gw_active w" using audit_decision_core(3) by (auto split: if_splits)
  obtain qr w2 where q: "?q w1 = (qr, w2)" by fastforce
  have w2: "dget_or (gw_active w2) k 0 = dget_or (gw_active w1) k 0"
    using with_quota_balanced [OF q] quota_block_active by blast
  have "gw_active v = gw_active w2" if "finish_execution env identity intent d ex w2 = (q', v)" for ex q' v
    using preservesD [OF finish_keeps _ that, of "gw_remote w2" "gw_changes w2" "gw_active w2"] by simp
  with assms a q w1 w2 show ?thesis
    by (auto simp: enforce_decision_def bnd_def split: if_splits sum.splits)
qed

text \<open>
  Call slots never leak: after a request, whatever its outcome (denial, replay, tool failure, success
  or an exception in between), the number of active calls of every tenant and tool is what it was before.
\<close>

theorem quota_balanced:
  "dget_or (gw_active (snd (evaluate_and_execute iso_text registry maximum post env identity intent approval_id w))) k 0 =
   dget_or (gw_active w) k 0"
proof -
  have audit: "gw_active v = gw_active w" if "audit_decision iso_text env identity intent et d st sm w = (q, v)" for et d st sm q v
    using audit_decision_core(3) [OF that] .
  have gov: "dget_or (gw_active v) k 0 = dget_or (gw_active w) k 0"
    if "governed_execution iso_text maximum post env identity intent approval_id tool args w = (q, v)" for tool args q v
    using that unfolding governed_eq by (auto split: sum.splits option.splits dest: enforce_balanced)
  obtain r w' where run: "evaluate_and_execute iso_text registry maximum post env identity intent approval_id w = (r, w')"
    by fastforce
  then have "dget_or (gw_active w') k 0 = dget_or (gw_active w) k 0"
    unfolding evaluate_and_execute_def bnd_def guard_apply
    by (auto split: if_splits option.splits sum.splits prod.splits dest: audit gov)
  with run show ?thesis by simp
qed

text \<open>An audit event of a request: new in the store, about the intent, by the caller.\<close>

definition audited_as :: "gov_repo \<Rightarrow> audit_status \<Rightarrow> verified_identity \<Rightarrow> tool_intent \<Rightarrow> gov_repo \<Rightarrow> bool" where
  "audited_as g st identity intent g' \<longleftrightarrow> (\<exists>e. dget (g_audit g) (audit_key e) = None \<and>
     dget (g_audit g') (audit_key e) = Some e \<and> ae_status e = st \<and> ae_tenant_id e = strip (ti_tenant_id intent) \<and>
     ae_change_id e = strip (ti_change_id intent) \<and> ae_actor_id e = strip (id_subject identity) \<and>
     ae_input_hash e = semantic_input_hash intent)"

lemma audit_decision_stores:
  assumes "audit_decision iso_text env identity intent et d st sm w = (Inr (), w')"
  shows "audited_as (gw_gov w) st identity intent (gw_gov w')"
proof -
  from gateway_audit_cases(5) [OF assms [unfolded audit_decision_def]] obtain e where
    e: "tool_audit (re_hex env 1) identity intent et d (decision_json iso_text d) st sm (pd_evaluated_at d) = Some e"
      "dget (g_audit (gw_gov w)) (audit_key e) = None"
      "g_audit (gw_gov w') = dput (audit_key e) e (g_audit (gw_gov w))" by auto
  from e(1) have "ae_status e = st" "ae_tenant_id e = strip (ti_tenant_id intent)"
    "ae_change_id e = strip (ti_change_id intent)" "ae_actor_id e = strip (id_subject identity)"
    "ae_input_hash e = semantic_input_hash intent"
    by (auto simp: tool_audit_def AuditEvent_validate_def Let_def strip_audit_event_def semantic_input_hash_def strip_digest
        split: if_splits)
  with e(2,3) show ?thesis by (auto simp: audited_as_def)
qed

lemma record_audit_errors:
  "record_audit ev w = (Inl x, w') \<Longrightarrow> x \<noteq> ApprovalRequiredError \<and> x \<noteq> PolicyDeniedError"
  by (cases ev) (auto simp: record_audit_def bnd_def on_gov_eq gov_record_audit_def conflict_def split: if_splits)

lemma enforce_denied:
  assumes "pd_effect d \<noteq> ALLOW" "enforce_decision iso_text maximum post env identity intent reg args ap d w = (r, w')"
  shows "gw_remote w' = gw_remote w \<and> gov_core (gw_gov w') = gov_core (gw_gov w) \<and> (\<exists>x. r = Inl x) \<and>
    (r = Inl ApprovalRequiredError \<or> r = Inl PolicyDeniedError \<longrightarrow>
      audited_as (gw_gov w) Audit_REJECTED identity intent (gw_gov w'))"
proof -
  obtain ar w1 where a: "audit_decision iso_text env identity intent ''TOOL_POLICY_DENIED'' d Audit_REJECTED
      ''Deterministic tool policy denied the action.'' w = (ar, w1)" by fastforce
  note frame = audit_decision_core [OF a]
  show ?thesis
  proof (cases ar)
    case (Inl x)
    with a record_audit_errors have "x \<noteq> ApprovalRequiredError \<and> x \<noteq> PolicyDeniedError"
      by (auto simp: audit_decision_def)
    with Inl assms a frame show ?thesis by (auto simp: enforce_decision_def bnd_def)
  next
    case (Inr u)
    with a have "audited_as (gw_gov w) Audit_REJECTED identity intent (gw_gov w1)"
      by (intro audit_decision_stores) simp
    with Inr assms a frame show ?thesis by (auto simp: enforce_decision_def bnd_def split: if_splits)
  qed
qed

text \<open>
  Denials are fail-closed and audited: when the stored documents do not make the policy engine answer
  ALLOW, the request ends in an error, the remote side, the executions, the approvals and the plans are
  untouched, and if the caller is told that policy denied the action or requires approval, a rejected
  audit event of that tenant, change, caller and input has been stored first.
\<close>

theorem denial_audited:
  assumes "id_kind identity = Kind_AGENT" "id_tenant_id identity = ti_tenant_id intent"
    "registry_get registry (ti_tool_name intent) = Some tool" "validate_arguments intent = Inr args"
    "dget (m_changes (gw_changes w)) (id_tenant_id identity, ti_change_id intent) = Some change"
    "dget (g_plans (gw_gov w)) (id_tenant_id identity, ti_change_id intent, ti_plan_id intent) = Some plan"
    "fst (load_approval (id_tenant_id identity) approval_id w) = Inr approval"
    "evaluate iso_text identity intent change plan tool approval (re_clock env 0) (re_hex env 0) = Some d"
    "pd_effect d \<noteq> ALLOW"
    "evaluate_and_execute iso_text registry maximum post env identity intent approval_id w = (r, w')"
  shows "gw_remote w' = gw_remote w \<and> gov_core (gw_gov w') = gov_core (gw_gov w) \<and> (\<exists>x. r = Inl x) \<and>
    (r = Inl ApprovalRequiredError \<or> r = Inl PolicyDeniedError \<longrightarrow>
      audited_as (gw_gov w) Audit_REJECTED identity intent (gw_gov w'))"
proof -
  have "enforce_decision iso_text maximum post env identity intent tool args approval d w = (r, w')"
    using evaluate_and_execute_reads [OF assms(1-8)] assms(10) by simp
  from enforce_denied [OF assms(9) this] show ?thesis .
qed

theorem denial_audited_witness:
  "\<exists>reg x. fst (evaluate_and_execute demo_iso reg 4 demo_post demo_env demo_agent demo_intent None demo_world) = Inl x \<and>
     gw_remote (snd (evaluate_and_execute demo_iso reg 4 demo_post demo_env demo_agent demo_intent None demo_world)) = 0"
proof -
  from demo_registry obtain reg where
    reg: "registry_get reg (ti_tool_name demo_intent) = Some demo_tool" by (auto simp: demo_intent_def)
  have load: "fst (load_approval (id_tenant_id demo_agent) None demo_world) = Inr None"
    by (simp add: load_approval_def)
  have "\<exists>d. evaluate demo_iso demo_agent demo_intent demo_executing demo_plan demo_tool None
      (re_clock demo_env 0) (re_hex demo_env 0) = Some d"
    using demo_format by (simp add: evaluate_def demo_tool_def default_registration_def demo_intent_def Let_def)
  then obtain d where d: "evaluate demo_iso demo_agent demo_intent demo_executing demo_plan demo_tool None
      (re_clock demo_env 0) (re_hex demo_env 0) = Some d" ..
  have "\<not> authorized demo_iso demo_agent demo_intent demo_executing demo_plan demo_tool None (re_clock demo_env 0)"
    by (simp add: authorized_def approval_valid_def demo_tool_def default_registration_def)
  with evaluate_allow [OF d] have deny: "pd_effect d \<noteq> ALLOW" by simp
  have "id_kind demo_agent = Kind_AGENT" "id_tenant_id demo_agent = ti_tenant_id demo_intent"
    by (simp_all add: demo_agent_def demo_intent_def)
  from denial_audited [OF this reg demo_arguments demo_reads(3,4) load d deny surjective_pairing, of 4 demo_post]
  show ?thesis by (auto simp: demo_world_def)
qed

section \<open>Success is recorded and final\<close>

text \<open>The execution recorded for a result.\<close>

definition recorded_as :: "gov_repo \<Rightarrow> tool_intent \<Rightarrow> execution_result \<Rightarrow> bool" where
  "recorded_as g intent res \<longleftrightarrow> (\<exists>r. succeeded_as g (ti_tenant_id intent) (ti_idempotency_key intent) r \<and>
     te_output r = Some (xr_output res) \<and> te_output_hash r = Some (xr_output_hash res) \<and>
     te_execution_id r = xr_execution_id res)"

lemma recorded_as_core: "gov_core g = gov_core g' \<Longrightarrow> recorded_as g intent res = recorded_as g' intent res"
  unfolding recorded_as_def using succeeded_as_core by blast

lemma replay_records:
  assumes "replay_execution env identity intent d rec w = (Inr ex, w')"
    "succeeded_as (gw_gov w) (ti_tenant_id intent) (ti_idempotency_key intent) rec"
  shows "\<exists>res. ex = Early_return res \<and> recorded_as (gw_gov w') intent res"
proof -
  let ?audit = "\<lambda>res. record_audit (tool_audit (re_hex env 2) identity intent ''TOOL_EXECUTION_REPLAYED'' d
    (JObj (xr_output res)) Audit_SUCCESS
    ''Existing idempotent tool result returned without another mutation.'' (re_clock env 2))"
  obtain res where r0: "replay_result rec d = Some res"
    using assms(1) by (cases "replay_result rec d") (simp_all add: replay_execution_def bnd_def)
  obtain u w1 where au: "?audit res w = (u, w1)" by fastforce
  from assms(1) r0 au have r: "replay_result rec d = Some res" "ex = Early_return res" "?audit res w = (u, w')"
    by (cases u; simp add: replay_execution_def bnd_def)+
  from r(1) have "te_output rec = Some (xr_output res)" "te_output_hash rec = Some (xr_output_hash res)"
    "te_execution_id rec = xr_execution_id res"
    by (auto simp: replay_result_def split: tool_execution_status.splits option.splits)
  with assms(2) r(2) recorded_as_core [OF gateway_audit_cases(4) [OF r(3)]] show ?thesis
    by (auto simp: recorded_as_def)
qed

lemma complete_records:
  assumes "complete_execution t c x out h now g = (Inr r, g')"
  shows "te_status r = TE_SUCCEEDED \<and> g' = g\<lparr>g_executions := dput (t, x) r (g_executions g)\<rparr> \<and>
    (\<exists>r0. dget (g_executions g) (t, x) = Some r0 \<and> te_execution_id r = strip (te_execution_id r0))"
  using assms
  by (auto simp: complete_execution_def bnd_def reserved_execution_eq put_execution_def validated_def
      execution_validate_fields split: option.splits if_splits sum.splits)

lemma finish_records:
  assumes run: "finish_execution env identity intent d (Ran rec (Inr out)) w = (Inr res, w')"
    and ok: "executions_ok (gw_gov w)"
    and here: "dget (g_execution_ids (gw_gov w)) (execution_key intent) = Some (te_execution_id rec)"
  shows "recorded_as (gw_gov w') intent res"
proof -
  let ?t = "ti_tenant_id intent" and ?x = "te_execution_id rec"
  obtain cr g where c: "complete_execution ?t (ti_change_id intent) ?x out (sha256_digest (JObj out)) (re_clock env 2)
      (gw_gov w) = (cr, g)" by fastforce
  with run obtain r where cr: "cr = Inr r" by (cases cr) (auto simp: finish_execution_def bnd_def on_gov_eq)
  from run c cr obtain w1 where
    a: "record_audit (tool_audit (re_hex env 2) identity intent ''TOOL_EXECUTION_SUCCEEDED'' d (JObj out) Audit_SUCCESS
        ''Approved typed sandbox tool action completed.'' (te_updated_at r)) (w\<lparr>gw_gov := g\<rparr>) = (Inr w1, w')"
      "te_output r = Some (xr_output res)" "te_output_hash r = Some (xr_output_hash res)"
      "te_execution_id r = xr_execution_id res"
    by (auto simp: finish_execution_def bnd_def on_gov_eq split: prod.splits sum.splits option.splits)
  note fin = complete_records [OF c [unfolded cr]]
  have x: "?x = execution_id_for ?t (ti_idempotency_key intent)"
    using ok here by (auto simp: executions_ok_def execution_key_def)
  have "succeeded_as g ?t (ti_idempotency_key intent) r"
    using fin here by (auto simp: succeeded_as_def x [symmetric] execution_key_def)
  with a recorded_as_core [OF gateway_audit_cases(4) [OF a(1)]] show ?thesis by (auto simp: recorded_as_def)
qed

lemma quota_block_records:
  assumes "quota_block post env identity intent reg args d ap w = (Inr ex, w')" "executions_ok (gw_gov w)"
  shows "(\<exists>res. ex = Early_return res \<and> recorded_as (gw_gov w') intent res) \<or>
    (\<exists>rec y. ex = Ran rec y \<and> executions_ok (gw_gov w') \<and>
       dget (g_execution_ids (gw_gov w')) (execution_key intent) = Some (te_execution_id rec))"
proof -
  obtain rr g where res: "reserve_execution intent d ap (semantic_input_hash intent) (re_clock env 1) (gw_gov w) = (rr, g)"
    by fastforce
  with assms(1) obtain q where q: "rr = Inr q" by (cases rr) (auto simp: quota_block_eq)
  have ok: "executions_ok g"
    using executions_ok_run_gov [OF assms(2), of undefined "GC_reserve intent d ap (semantic_input_hash intent) (re_clock env 1)"] res
    by simp
  show ?thesis
  proof (cases "er_replayed q")
    case True
    from res have "succeeded_as g (ti_tenant_id intent) (ti_idempotency_key intent) (er_record q)"
      by (cases rule: reserve_execution_cases)
        (use q True assms(2) in \<open>auto simp: succeeded_as_def executions_ok_def execution_key_def\<close>)
    with replay_records [of env identity intent d "er_record q" "w\<lparr>gw_gov := g\<rparr>" ex w'] assms(1) res q True
    show ?thesis by (auto simp: quota_block_eq)
  next
    case False
    from fresh_reservation [OF res [unfolded q] False assms(2)] ok obtain i where
      i: "dget (g_execution_ids g) (execution_key intent) = Some i" "te_execution_id (er_record q) = i"
      by (auto simp: executions_ok_def)
    from assms(1) res q False have run: "run_executor post intent reg args (re_request_id env) (er_record q)
        (w\<lparr>gw_gov := g\<rparr>) = (Inr ex, w')" by (simp add: quota_block_eq)
    then have "gw_gov w' = g" by (subst run_executor_frame [OF run]) simp
    moreover from run have "\<exists>y. ex = Ran (er_record q) y"
      by (auto simp: run_executor_def split: prod.splits sum.splits gateway_error.splits)
    ultimately show ?thesis using i ok by auto
  qed
qed

lemma enforce_records:
  assumes "enforce_decision iso_text maximum post env identity intent reg args ap d w = (Inr res, w')"
    "executions_ok (gw_gov w)"
  shows "recorded_as (gw_gov w') intent res"
proof -
  have "pd_effect d = ALLOW" using assms(1) enforce_denied [of d] by fastforce
  with assms(1) obtain w1 w2 ex where
    a: "audit_decision iso_text env identity intent ''TOOL_POLICY_ALLOWED'' d Audit_SUCCESS
         ''Deterministic tool policy allowed the exact-plan action.'' w = (Inr (), w1)"
    and q: "with_quota maximum (ti_tenant_id intent, ti_tool_name intent)
         (quota_block post env identity intent reg args d ap) w1 = (Inr ex, w2)"
    and f: "finish_execution env identity intent d ex w2 = (Inr res, w')"
    by (auto simp: enforce_decision_def elim!: bnd_eq_InrE)
  have ok1: "executions_ok (gw_gov w1)" using executions_ok_core [OF audit_decision_core(4) [OF a]] assms(2) by simp
  from with_quota_inner [OF q] obtain active v where
    b: "quota_block post env identity intent reg args d ap (w1\<lparr>gw_active := active\<rparr>) = (Inr ex, v)" "gw_gov w2 = gw_gov v"
    by auto
  from quota_block_records [OF b(1)] ok1 consider
      r where "ex = Early_return r" "recorded_as (gw_gov v) intent r"
    | rec y where "ex = Ran rec y" "executions_ok (gw_gov v)"
        "dget (g_execution_ids (gw_gov v)) (execution_key intent) = Some (te_execution_id rec)" by auto
  then show ?thesis
  proof cases
    case 1
    with f b(2) show ?thesis by (auto simp: finish_execution_def)
  next
    case 2
    obtain out where "y = Inr out"
    proof (cases y)
      case (Inl e)
      with f 2 show ?thesis by (auto simp: finish_execution_def elim!: bnd_eq_InrE)
    qed auto
    with finish_records f 2 b(2) show ?thesis by metis
  qed
qed

text \<open>
  A successful answer is recorded and final: when the gateway answers with a result, the execution
  under the intent's idempotency key is stored as succeeded with exactly that output, output hash and
  execution identifier; and no later request for the same tenant and key, by any caller, with any
  registry, approval, clock or remote behaviour, changes the remote side again.
\<close>

theorem success_recorded_and_final:
  assumes "executions_ok (gw_gov w)"
    "evaluate_and_execute iso_text registry maximum post env identity intent approval_id w = (Inr res, w')"
  shows "recorded_as (gw_gov w') intent res \<and>
    (\<forall>registry2 maximum2 post2 env2 identity2 intent2 approval2.
       ti_tenant_id intent2 = ti_tenant_id intent \<and> ti_idempotency_key intent2 = ti_idempotency_key intent \<longrightarrow>
       gw_remote (snd (evaluate_and_execute iso_text registry2 maximum2 post2 env2 identity2 intent2 approval2 w')) =
       gw_remote w')"
proof -
  from assms(2) obtain tool args where
    "governed_execution iso_text maximum post env identity intent approval_id tool args w = (Inr res, w')"
    by (auto simp: evaluate_and_execute_def elim!: bnd_eq_InrE split: option.splits sum.splits if_splits)
  then obtain ap d where "enforce_decision iso_text maximum post env identity intent tool args ap d w = (Inr res, w')"
    by (auto simp: governed_eq split: sum.splits option.splits)
  from enforce_records [OF this assms(1)] have rec: "recorded_as (gw_gov w') intent res" .
  have "gw_remote (snd (evaluate_and_execute iso_text registry2 maximum2 post2 env2 identity2 intent2 approval2 w')) = gw_remote w'"
    if same: "ti_tenant_id intent2 = ti_tenant_id intent" "ti_idempotency_key intent2 = ti_idempotency_key intent"
    for registry2 maximum2 post2 env2 identity2 intent2 approval2
  proof (rule ccontr)
    assume "gw_remote (snd (evaluate_and_execute iso_text registry2 maximum2 post2 env2 identity2 intent2 approval2 w')) \<noteq> gw_remote w'"
    from remote_needs_authorization [OF surjective_pairing this] obtain d ap g r s' where
      g: "gov_core g = gov_core (gw_gov w')"
        "reserve_execution intent2 d ap (semantic_input_hash intent2) (re_clock env2 1) g = (Inr r, s')" "\<not> er_replayed r"
      by blast
    from rec g(1) obtain x where "succeeded_as g (ti_tenant_id intent2) (ti_idempotency_key intent2) x"
      unfolding recorded_as_def same by (metis succeeded_as_core)
    with g(2,3) show False
      by (cases rule: reserve_execution_cases) (auto simp: succeeded_as_def execution_key_def)
  qed
  with rec show ?thesis by blast
qed

text \<open>The concrete world after the action has succeeded; the same request is answered by a replay.\<close>

definition demo_done_record :: tool_execution where
  "demo_done_record = demo_execution\<lparr>te_input_hash := semantic_input_hash demo_intent, te_status := TE_SUCCEEDED,
     te_output := Some [], te_output_hash := Some demo_hash\<rparr>"

definition demo_done_world :: "nat gateway" where
  "demo_done_world = demo_world\<lparr>gw_gov := demo_gov\<lparr>
     g_executions := [((''t1'', execution_id_for ''t1'' ''key-s1''), demo_done_record)],
     g_execution_ids := [((''t1'', ''key-s1''), execution_id_for ''t1'' ''key-s1'')]\<rparr>\<rparr>"

lemma demo_done_ok: "executions_ok (gw_gov demo_done_world)"
  by (simp add: executions_ok_def demo_done_world_def dget_Cons demo_done_record_def demo_execution_def new_execution_def
      execution_id_ok)

lemma demo_replay_audit:
  assumes "pd_decision_id d = ''decision_00''"
  shows "\<exists>e. tool_audit ''02'' demo_agent demo_intent ''TOOL_EXECUTION_REPLAYED'' d (JObj []) Audit_SUCCESS
       ''Existing idempotent tool result returned without another mutation.'' 10 = Some e \<and>
       ae_audit_event_id e = ''audit_02''"
proof -
  have "list_all (\<lambda>x. strip x = x \<and> nonempty_str x) [''audit_02'', ''t1'', ''c1'', ''wf1'', ''TOOL_EXECUTION_REPLAYED'', ''crm'',
    ''crm://tenant/t1/configuration/lead'', ''update'', ''decision_00'',
    ''Existing idempotent tool result returned without another mutation.'']" by code_simp
  with assms show ?thesis
    by (simp add: tool_audit_def AuditEvent_validate_def Let_def strip_audit_event_def audit_event_fields_ok_def
        demo_agent_def demo_intent_def semantic_input_hash_def strip_digest)
qed

lemma demo_tool_audit_id:
  "tool_audit ''01'' demo_agent demo_intent et d j st sm now = Some e \<Longrightarrow> ae_audit_event_id e = ''audit_01''"
proof -
  have "strip ''audit_01'' = ''audit_01''" by code_simp
  then show "tool_audit ''01'' demo_agent demo_intent et d j st sm now = Some e \<Longrightarrow> ae_audit_event_id e = ''audit_01''"
    by (auto simp: tool_audit_def AuditEvent_validate_def Let_def strip_audit_event_def split: if_splits)
qed

lemma demo_done_reads:
  "dget (m_changes (gw_changes demo_done_world)) (id_tenant_id demo_agent, ti_change_id demo_intent) = Some demo_executing"
  "dget (g_plans (gw_gov demo_done_world)) (id_tenant_id demo_agent, ti_change_id demo_intent, ti_plan_id demo_intent) = Some demo_plan"
  "fst (load_approval (id_tenant_id demo_agent) (Some ''a1'') demo_done_world) = Inr (Some demo_approval)"
  using demo_reads(3,4,5)
  by (simp_all add: demo_done_world_def demo_world_def load_approval_def bnd_def on_gov_eq get_approval_request_eq
      demo_gov_ok split: option.splits)

lemma demo_replay:
  "\<exists>reg res w'. evaluate_and_execute demo_iso reg 4 demo_post demo_env demo_agent demo_intent (Some ''a1'') demo_done_world = (Inr res, w')"
proof -
  from demo_registry obtain reg where
    reg: "registry_get reg (ti_tool_name demo_intent) = Some demo_tool" by (auto simp: demo_intent_def)
  have env: "re_clock demo_env n = 10" "re_hex demo_env 0 = ''00''" "re_hex demo_env (Suc 0) = ''01''" "re_hex demo_env 2 = ''02''" for n
    by (simp_all add: demo_env_def)
  from demo_evaluate obtain d where
    d: "evaluate demo_iso demo_agent demo_intent demo_executing demo_plan demo_tool (Some demo_approval) 10 ''00'' = Some d" ..
  note df = evaluate_fields [OF d]
  have allow: "pd_effect d = ALLOW" using evaluate_allow [OF d] demo_authorized by simp
  have req: "pd_approval_required d" using df(3) by (simp add: demo_tool_def default_registration_def)
  have id: "id_kind demo_agent = Kind_AGENT" "id_tenant_id demo_agent = ti_tenant_id demo_intent"
    by (simp_all add: demo_agent_def demo_intent_def)
  from demo_tool_audit df obtain e where
    e: "tool_audit ''01'' demo_agent demo_intent ''TOOL_POLICY_ALLOWED'' d (decision_json demo_iso d) Audit_SUCCESS
       ''Deterministic tool policy allowed the exact-plan action.'' 10 = Some e" by auto
  from demo_replay_audit df obtain e2 where
    e2: "tool_audit ''02'' demo_agent demo_intent ''TOOL_EXECUTION_REPLAYED'' d (JObj []) Audit_SUCCESS
       ''Existing idempotent tool result returned without another mutation.'' 10 = Some e2"
      "ae_audit_event_id e2 = ''audit_02''" by auto
  have keys: "audit_key e2 \<noteq> audit_key e" using e2(2) demo_tool_audit_id [OF e] by (simp add: audit_key_def)
  have ik: "ti_tenant_id demo_intent = ''t1''" "ti_idempotency_key demo_intent = ''key-s1''"
    "ti_step_id demo_intent = ''s1''" "ti_plan_hash demo_intent = calculate_plan_hash demo_iso demo_plan"
    by (simp_all add: demo_intent_def)
  have ap: "ap_approval_id demo_approval = ''a1''" "ap_expires_at demo_approval = 500"
    "ap_scope demo_approval = [''s1'', ''s2'']" "ap_plan_hash demo_approval = calculate_plan_hash demo_iso demo_plan"
    by (simp_all add: demo_approval_def)
  have recd: "te_input_hash demo_done_record = semantic_input_hash demo_intent" "te_status demo_done_record = TE_SUCCEEDED"
    "te_output demo_done_record = Some []" "te_output_hash demo_done_record = Some demo_hash"
    by (simp_all add: demo_done_record_def)
  let ?g = "(gw_gov demo_done_world)\<lparr>g_audit := [(audit_key e, e)]\<rparr>"
  have "require_stored_approval demo_intent d (Some demo_approval) 10 ?g = (Inr (), ?g)"
    by (simp add: require_stored_approval_def bnd_def get_approval_request_eq ik ap req demo_done_world_def demo_gov_ok
        demo_as_approval)
  then have res: "reserve_execution demo_intent d (Some demo_approval) (semantic_input_hash demo_intent) 10 ?g =
      (Inr \<lparr>er_record = demo_done_record, er_replayed = True\<rparr>, ?g)"
    by (simp add: reserve_execution_def Let_def bnd_def ik recd demo_done_world_def dget_Cons)
  have aud: "g_audit (gw_gov demo_done_world) = []" "gw_active demo_done_world = []"
    by (simp_all add: demo_done_world_def demo_gov_ok demo_world_def)
  have "\<exists>res w'. enforce_decision demo_iso 4 demo_post demo_env demo_agent demo_intent demo_tool
      \<lparr>pa_old_field = ''lead_name'', pa_new_field = ''full_name''\<rparr> (Some demo_approval) d demo_done_world = (Inr res, w')"
    using allow e e2(1) keys res
    by (simp add: enforce_decision_def audit_decision_def record_audit_def bnd_def on_gov_eq gov_record_audit_def env df(2)
        aud with_quota_def quota_acquire_def quota_block_eq replay_execution_def replay_result_def recd dget_Cons dput_def
        finish_execution_def)
  with evaluate_and_execute_reads [OF id reg demo_arguments demo_done_reads d [folded env(1) [of 0] env(2)], of 4 demo_post]
  show ?thesis by metis
qed

theorem success_recorded_and_final_witness:
  "\<exists>reg res w'. evaluate_and_execute demo_iso reg 4 demo_post demo_env demo_agent demo_intent (Some ''a1'') demo_done_world = (Inr res, w') \<and>
     recorded_as (gw_gov w') demo_intent res"
proof -
  from demo_replay obtain reg res w' where
    r: "evaluate_and_execute demo_iso reg 4 demo_post demo_env demo_agent demo_intent (Some ''a1'') demo_done_world = (Inr res, w')"
    by blast
  from success_recorded_and_final [OF demo_done_ok r] r show ?thesis by blast
qed

section \<open>Approval requests and decisions\<close>

lemma create_approval_cases:
  assumes "create_approval iso_text env body identity w = (Inr stored, w')"
  obtains change rec g where
    "id_kind identity \<in> {Kind_AGENT, Kind_SERVICE}" "pl_tenant_id (acr_plan body) = id_tenant_id identity"
    "re_clock env 0 < acr_expires_at body" "acr_expires_at body \<le> re_clock env 0 + hours 1"
    "dget (m_changes (gw_changes w)) (id_tenant_id identity, pl_change_id (acr_plan body)) = Some change"
    "cr_status change = WS_AWAITING_APPROVAL" "cr_plan_version change = pl_version (acr_plan body)"
    "cr_plan_hash change = Some (calculate_plan_hash iso_text (acr_plan body))"
    "cr_environment change = acr_environment body"
    "ApprovalRequestRecord_validate (approval_record_for iso_text body identity (re_clock env 0)) = Some rec"
    "create_approval_request iso_text rec (acr_plan body) (gw_gov w) = (Inr stored, g)"
    "gov_core (gw_gov w') = gov_core g" "gw_remote w' = gw_remote w"
proof -
  let ?t = "re_clock env 0" and ?p = "acr_plan body"
  let ?r = "ApprovalRequestRecord_validate (approval_record_for iso_text body identity ?t)"
  have pre: "id_kind identity \<in> {Kind_AGENT, Kind_SERVICE} \<and> pl_tenant_id ?p = id_tenant_id identity \<and>
      \<not> (acr_expires_at body \<le> ?t \<or> ?t + hours 1 < acr_expires_at body)"
    using assms by (auto simp: create_approval_def Let_def bnd_def split: if_splits)
  obtain change where ch: "fst (mem_get (id_tenant_id identity) (pl_change_id ?p) (gw_changes w)) = Inr change"
    using assms pre by (cases "fst (mem_get (id_tenant_id identity) (pl_change_id ?p) (gw_changes w))")
      (auto simp: create_approval_def Let_def bnd_def on_changes_get)
  have mid: "cr_status change = WS_AWAITING_APPROVAL \<and> cr_plan_version change = pl_version ?p \<and>
      cr_plan_hash change = Some (calculate_plan_hash iso_text ?p) \<and> cr_environment change = acr_environment body"
    using assms pre ch by (auto simp: create_approval_def Let_def bnd_def on_changes_get split: if_splits)
  obtain rec where rec: "?r = Some rec"
    using assms pre ch mid by (cases ?r) (auto simp: create_approval_def Let_def bnd_def on_changes_get)
  obtain cr g where cr: "create_approval_request iso_text rec ?p (gw_gov w) = (cr, g)" by fastforce
  have tail: "bnd (on_gov (create_approval_request iso_text rec ?p)) (\<lambda>stored.
      bnd (if ar_requested_at stored = ?t
        then record_audit (approval_audit iso_text (re_hex env 0) identity stored ''APPROVAL_REQUESTED''
          ''approval_requested'' ''Exact-plan sandbox approval requested.'' ?t) else ret ()) (\<lambda>_. ret stored)) w = (Inr stored, w')"
    using assms pre ch mid rec by (simp add: create_approval_def Let_def bnd_def [of "guard _ _"]
        bnd_def [of "on_changes _"] bnd_def [of "validated _ _"] on_changes_get)
  then have st: "cr = Inr stored"
    by (cases cr) (auto simp: bnd_def on_gov_eq cr split: prod.splits sum.splits if_splits)
  with tail cr have "(if ar_requested_at stored = ?t
        then record_audit (approval_audit iso_text (re_hex env 0) identity stored ''APPROVAL_REQUESTED''
          ''approval_requested'' ''Exact-plan sandbox approval requested.'' ?t) else ret ()) (w\<lparr>gw_gov := g\<rparr>) = (Inr (), w')"
    by (auto simp: bnd_def [of "on_gov _"] on_gov_eq elim!: bnd_eq_InrE)
  then have "gov_core (gw_gov w') = gov_core g" "gw_remote w' = gw_remote w"
    by (auto split: if_splits dest: gateway_audit_cases)
  with that pre ch mid rec cr st mem_get_Inr show thesis by auto
qed

lemma create_request_stored:
  assumes "create_approval_request iso_text rec plan g = (Inr stored, g')"
  shows "dget (g_approvals g') (ar_tenant_id rec, ar_approval_id rec) = Some stored \<and> same_approval_request stored rec \<and>
    (\<exists>p. dget (g_plans g') (pl_tenant_id plan, pl_change_id plan, pl_plan_id plan) = Some p \<and>
       calculate_plan_hash iso_text p = ar_plan_hash rec)"
  using assms
  by (auto simp: create_approval_request_def Let_def same_approval_request_def split: option.splits if_splits)

text \<open>
  An approval request is bound to the authoritative plan: when a request is accepted, the caller is a
  service or agent of the plan's own tenant, the change is stored in that tenant and waits for approval
  of a plan with exactly this version, hash and environment, the request expires within the hour, and
  what is stored is a pending first version that carries that plan hash and the caller as requester,
  together with a stored plan of that hash; the remote side is untouched.
\<close>

theorem approval_request_bound:
  assumes "create_approval iso_text env body identity w = (Inr stored, w')"
  shows "id_kind identity \<noteq> Kind_USER \<and> pl_tenant_id (acr_plan body) = id_tenant_id identity \<and>
    (\<exists>change. dget (m_changes (gw_changes w)) (id_tenant_id identity, pl_change_id (acr_plan body)) = Some change \<and>
       cr_status change = WS_AWAITING_APPROVAL \<and> cr_plan_version change = pl_version (acr_plan body) \<and>
       cr_plan_hash change = Some (ar_plan_hash stored) \<and> cr_environment change = ar_environment stored) \<and>
    re_clock env 0 < ar_expires_at stored \<and> ar_expires_at stored \<le> re_clock env 0 + hours 1 \<and>
    ar_status stored = AR_PENDING \<and> ar_version stored = 1 \<and>
    ar_plan_hash stored = calculate_plan_hash iso_text (acr_plan body) \<and>
    ar_requested_by stored = strip (id_subject identity) \<and>
    dget (g_approvals (gw_gov w')) (ar_tenant_id stored, ar_approval_id stored) = Some stored \<and>
    (\<exists>p. dget (g_plans (gw_gov w')) (pl_tenant_id (acr_plan body), pl_change_id (acr_plan body), pl_plan_id (acr_plan body)) = Some p \<and>
       calculate_plan_hash iso_text p = ar_plan_hash stored) \<and> gw_remote w' = gw_remote w"
  using assms
proof (rule create_approval_cases)
  fix change rec g
  assume h: "id_kind identity \<in> {Kind_AGENT, Kind_SERVICE}" "pl_tenant_id (acr_plan body) = id_tenant_id identity"
    "re_clock env 0 < acr_expires_at body" "acr_expires_at body \<le> re_clock env 0 + hours 1"
    "dget (m_changes (gw_changes w)) (id_tenant_id identity, pl_change_id (acr_plan body)) = Some change"
    "cr_status change = WS_AWAITING_APPROVAL" "cr_plan_version change = pl_version (acr_plan body)"
    "cr_plan_hash change = Some (calculate_plan_hash iso_text (acr_plan body))"
    "cr_environment change = acr_environment body"
    "ApprovalRequestRecord_validate (approval_record_for iso_text body identity (re_clock env 0)) = Some rec"
    "create_approval_request iso_text rec (acr_plan body) (gw_gov w) = (Inr stored, g)"
    "gov_core (gw_gov w') = gov_core g" "gw_remote w' = gw_remote w"
  have rec: "rec = strip_approval_request (approval_record_for iso_text body identity (re_clock env 0))"
    by (rule ApprovalRequestRecord_validate_SomeD(1) [OF h(10)])
  have r: "ar_status rec = AR_PENDING" "ar_version rec = 1" "ar_expires_at rec = acr_expires_at body"
    "ar_environment rec = acr_environment body" "ar_requested_by rec = strip (id_subject identity)"
    "ar_plan_hash rec = calculate_plan_hash iso_text (acr_plan body)"
    by (simp_all add: rec strip_approval_request_def approval_record_for_def calculate_plan_hash_def strip_digest)
  note st = create_request_stored [OF h(11)]
  have same: "ar_status stored = ar_status rec" "ar_version stored = ar_version rec" "ar_expires_at stored = ar_expires_at rec"
    "ar_environment stored = ar_environment rec" "ar_requested_by stored = ar_requested_by rec"
    "ar_plan_hash stored = ar_plan_hash rec" "ar_tenant_id stored = ar_tenant_id rec" "ar_approval_id stored = ar_approval_id rec"
    using st unfolding same_approval_request_def by (cases stored; cases rec; simp)+
  from h st r same gov_core_eq [OF h(12)] show ?thesis by auto
qed

definition demo_service :: verified_identity where
  "demo_service = \<lparr>id_subject = ''svc'', id_tenant_id = ''t1'', id_kind = Kind_SERVICE, id_roles = [],
     id_audience = ''gw'', id_issued_at = 0, id_expires_at = 1000\<rparr>"

definition demo_body :: approval_create_request where
  "demo_body = \<lparr>acr_approval_id = ''a1'', acr_plan = demo_plan, acr_environment = Env_SANDBOX,
     acr_scope = [''s1'', ''s2''], acr_expires_at = 500\<rparr>"

definition demo_waiting_world :: "nat gateway" where
  "demo_waiting_world = \<lparr>gw_changes = snd (mem_add (demo_executing\<lparr>cr_status := WS_AWAITING_APPROVAL,
     cr_current_phase := WS_AWAITING_APPROVAL\<rparr>) mem_empty), gw_gov = gov_empty, gw_active = [], gw_remote = 0\<rparr>"

definition demo_env_early :: request_env where
  "demo_env_early = \<lparr>re_clock = (\<lambda>_. 1), re_hex = (\<lambda>_. ''00''), re_request_id = ''req''\<rparr>"

lemma demo_create: "\<exists>w'. create_approval demo_iso demo_env_early demo_body demo_service demo_waiting_world = (Inr demo_request, w')"
proof -
  have rec: "approval_record_for demo_iso demo_body demo_service 1 = demo_request"
    by (simp add: approval_record_for_def demo_body_def demo_service_def demo_request_def demo_plan_def)
  have lits: "list_all (\<lambda>x. strip x = x \<and> nonempty_str x) [''audit_00'', ''t1'', ''c1'', ''approval:a1'', ''APPROVAL_REQUESTED'',
      ''approval_requested'', ''svc'', ''approvals/a1'', ''Exact-plan sandbox approval requested.'']" by code_simp
  have "\<exists>e. approval_audit demo_iso ''00'' demo_service demo_request ''APPROVAL_REQUESTED'' ''approval_requested''
      ''Exact-plan sandbox approval requested.'' 1 = Some e"
    using lits by (simp add: approval_audit_def AuditEvent_validate_def Let_def strip_audit_event_def
        audit_event_fields_ok_def demo_service_def strip_digest) (simp add: demo_request_def)
  then obtain e where e: "approval_audit demo_iso ''00'' demo_service demo_request ''APPROVAL_REQUESTED'' ''approval_requested''
      ''Exact-plan sandbox approval requested.'' 1 = Some e" ..
  have change: "fst (mem_get ''t1'' ''c1'' (gw_changes demo_waiting_world)) =
      Inr (demo_executing\<lparr>cr_status := WS_AWAITING_APPROVAL, cr_current_phase := WS_AWAITING_APPROVAL\<rparr>)"
    by (simp add: mem_get_Inr demo_waiting_world_def mem_add_eq mem_empty_def change_key_def demo_executing_def)
  obtain g where g: "create_approval_request demo_iso demo_request demo_plan gov_empty = (Inr demo_request, g)" "g_audit g = []"
    by (auto simp: create_approval_request_def gov_empty_def demo_request_def demo_plan_def Let_def)
  have req: "ar_requested_at demo_request = 1" by (simp add: demo_request_def)
  have ids: "id_kind demo_service = Kind_SERVICE" "id_tenant_id demo_service = ''t1''" by (simp_all add: demo_service_def)
  have bd: "acr_plan demo_body = demo_plan" "acr_expires_at demo_body = 500" "acr_environment demo_body = Env_SANDBOX"
    by (simp_all add: demo_body_def)
  have pl: "pl_tenant_id demo_plan = ''t1''" "pl_change_id demo_plan = ''c1''" "pl_version demo_plan = 1"
    by (simp_all add: demo_plan_def)
  have ex: "cr_plan_version demo_executing = 1" "cr_plan_hash demo_executing = Some (calculate_plan_hash demo_iso demo_plan)"
    "cr_environment demo_executing = Env_SANDBOX" by (simp_all add: demo_executing_def)
  have gv: "gw_gov demo_waiting_world = gov_empty" by (simp add: demo_waiting_world_def)
  show ?thesis
    by (simp add: create_approval_def Let_def bnd_def demo_env_early_def ids bd pl hours_def micros_def on_changes_get change
        ex rec demo_request_valid on_gov_eq gv g req e record_audit_def gov_record_audit_def)
qed

theorem approval_request_bound_witness:
  "\<exists>stored w'. create_approval demo_iso demo_env_early demo_body demo_service demo_waiting_world = (Inr stored, w') \<and>
     ar_status stored = AR_PENDING \<and> gw_remote w' = 0"
proof -
  from demo_create obtain w' where
    c: "create_approval demo_iso demo_env_early demo_body demo_service demo_waiting_world = (Inr demo_request, w')" ..
  from approval_request_bound [OF c] c show ?thesis by (auto simp: demo_waiting_world_def)
qed

text \<open>
  Only an approver other than the requester decides: when the decision handler stores or repeats a
  decision, the caller is a user of the request's tenant with an approving role; and if the request was
  pending before the call, the caller is not its requester, the request had not expired, and afterwards
  it carries the caller as decider and the route's target as status.
\<close>

theorem decision_by_independent_approver:
  assumes "decide_approval_handler iso_text notify env approval_id v comment identity target w = (Inr rec, w')"
    "dget (g_approvals (gw_gov w)) (id_tenant_id identity, approval_id) = Some cur"
  shows "id_kind identity = Kind_USER \<and> (APPROVER \<in> set (id_roles identity) \<or> PLATFORM_ADMIN \<in> set (id_roles identity)) \<and>
    dget (g_approvals (gw_gov w')) (id_tenant_id identity, approval_id) = Some rec \<and>
    (ar_status cur = AR_PENDING \<longrightarrow> ar_requested_by cur \<noteq> id_subject identity \<and> re_clock env 0 < ar_expires_at cur \<and>
       ar_status rec = target \<and> ar_decided_by rec = Some (strip (id_subject identity)) \<and> ar_version rec = ar_version cur + 1)"
proof -
  let ?a = "\<lparr>da_target = target, da_expected_version = v, da_decided_by = id_subject identity,
       da_decided_by_roles = id_roles identity, da_comment = comment\<rparr>"
  have role: "id_kind identity = Kind_USER" "set (id_roles identity) \<inter> {APPROVER, PLATFORM_ADMIN} \<noteq> {}"
    using assms(1) by (auto simp: decide_approval_handler_def Let_def bnd_def require_roles_def split: if_splits)
  obtain dr g where d: "decide_approval (id_tenant_id identity) approval_id ?a (re_clock env 0) (gw_gov w) = (dr, g)" by fastforce
  from assms(1) role obtain rec0 where dr: "dr = Inr rec0"
    by (cases dr) (auto simp: decide_approval_handler_def Let_def bnd_def require_roles_def on_gov_eq d split: if_splits)
  with assms(1) role d obtain u w1 where
    a: "record_audit (approval_audit iso_text (re_hex env 0) identity rec (fst (decision_event target))
       (snd (decision_event target)) (''Exact-plan sandbox approval decision: '' @ approval_status_value target @ ''.'')
       (re_clock env 0)) (w\<lparr>gw_gov := g\<rparr>) = (Inr u, w1)" "rec0 = rec" "w' = w1"
    by (auto simp: decide_approval_handler_def Let_def bnd_def require_roles_def on_gov_eq split: if_splits prod.splits sum.splits)
  have g: "g_approvals (gw_gov w') = g_approvals g"
    using gov_core_eq(3) [OF gateway_audit_cases(4) [OF a(1)]] a(3) by simp
  have strip: "ar_status r = da_target b" "ar_decided_by r = Some (strip (da_decided_by b))" "ar_version r = ar_version c + 1"
    if "ApprovalRequestRecord_validate (decided_record c b t) = Some r" for r c b t
    using ApprovalRequestRecord_validate_SomeD(1) [OF that] by (simp_all add: strip_approval_request_decided)
  from decide_approval_cases [OF d [unfolded dr a(2)]] assms(2) role strip show ?thesis
    by (auto simp: g)
qed

definition demo_user :: verified_identity where
  "demo_user = \<lparr>id_subject = ''alice'', id_tenant_id = ''t1'', id_kind = Kind_USER, id_roles = [APPROVER],
     id_audience = ''gw'', id_issued_at = 0, id_expires_at = 1000\<rparr>"

definition demo_pending_world :: "nat gateway" where
  "demo_pending_world = demo_waiting_world\<lparr>gw_gov := gov_empty\<lparr>g_approvals := [((''t1'', ''a1''), demo_request)]\<rparr>\<rparr>"

definition demo_env_decide :: request_env where
  "demo_env_decide = \<lparr>re_clock = (\<lambda>_. 4), re_hex = (\<lambda>_. ''00''), re_request_id = ''req''\<rparr>"

lemma demo_decide:
  "\<exists>w'. approve demo_iso (\<lambda>_. True) demo_env_decide ''a1'' 1 ''ok'' demo_user demo_pending_world = (Inr demo_decided, w')"
proof -
  let ?sum = "''Exact-plan sandbox approval decision: '' @ ''APPROVED'' @ ''.''"
  have lits: "list_all (\<lambda>x. strip x = x \<and> nonempty_str x) [''audit_00'', ''t1'', ''c1'', ''approval:a1'', ''APPROVAL_GRANTED'',
      ''approval_granted'', ''alice'', ''approvals/a1'', ?sum]" by code_simp
  have "\<exists>e. approval_audit demo_iso ''00'' demo_user demo_decided ''APPROVAL_GRANTED'' ''approval_granted'' ?sum 4 = Some e"
    using lits by (simp add: approval_audit_def AuditEvent_validate_def Let_def strip_audit_event_def
        audit_event_fields_ok_def demo_user_def strip_digest) (simp add: demo_decided_def decided_record_def demo_request_def)
  then obtain e where e: "approval_audit demo_iso ''00'' demo_user demo_decided ''APPROVAL_GRANTED'' ''approval_granted'' ?sum 4 = Some e" ..
  have dec: "decided_record demo_request \<lparr>da_target = AR_APPROVED, da_expected_version = 1, da_decided_by = ''alice'',
      da_decided_by_roles = [APPROVER], da_comment = ''ok''\<rparr> 4 = demo_decided"
    by (simp add: demo_decided_def demo_decision_def)
  have gv: "gw_gov demo_pending_world = gov_empty\<lparr>g_approvals := [((''t1'', ''a1''), demo_request)]\<rparr>"
    by (simp add: demo_pending_world_def)
  have rq: "ar_status demo_request = AR_PENDING" "ar_version demo_request = 1" "ar_expires_at demo_request = 500"
    "ar_requested_by demo_request = ''svc''" by (simp_all add: demo_request_def)
  have us: "id_kind demo_user = Kind_USER" "id_roles demo_user = [APPROVER]" "id_tenant_id demo_user = ''t1''"
    "id_subject demo_user = ''alice''" by (simp_all add: demo_user_def)
  have empty: "g_audit gov_empty = []" by (simp add: gov_empty_def)
  from e show ?thesis
    by (simp add: approve_def decide_approval_handler_def Let_def bnd_def require_roles_def us on_gov_eq gv decide_approval_def
        get_approval_request_eq dget_Cons rq demo_env_decide_def dec demo_decided_valid put_approval_def record_audit_def
        gov_record_audit_def empty)
qed

theorem decision_by_independent_approver_witness:
  "\<exists>w'. approve demo_iso (\<lambda>_. True) demo_env_decide ''a1'' 1 ''ok'' demo_user demo_pending_world = (Inr demo_decided, w') \<and>
     ar_requested_by demo_request \<noteq> id_subject demo_user"
proof -
  from demo_decide obtain w' where
    d: "approve demo_iso (\<lambda>_. True) demo_env_decide ''a1'' 1 ''ok'' demo_user demo_pending_world = (Inr demo_decided, w')" ..
  have here: "dget (g_approvals (gw_gov demo_pending_world)) (id_tenant_id demo_user, ''a1'') = Some demo_request"
    by (simp add: demo_pending_world_def demo_user_def dget_Cons)
  from decision_by_independent_approver [OF d [unfolded approve_def] here] d show ?thesis
    by (auto simp: demo_request_def)
qed

end
