(* ===== verification/Sandbox_Store.thy ===== *)
theory Sandbox_Store
  imports Change_Store
begin

text \<open>
  The synthetic systems of \<^verbatim>\<open>enterprise-sandbox/src/changeops_sandbox\<close>: the generic
  \<^verbatim>\<open>ConfigurationStore\<close> and the \<^verbatim>\<open>CatalogStore\<close> of \<^verbatim>\<open>store.py\<close>, the configuration models of
  \<^verbatim>\<open>models.py\<close> and the verification routes of the three services.

  The store is generic in its configuration model. What it uses of a model is a record of functions
  (reading and replacing the mutable field, validating, dumping to JSON and loading from JSON); the laws
  of a configuration model are a locale, interpreted for the CRM, analytics and support models.
  Snapshot identifiers and times are arguments.
\<close>

section \<open>Errors and messages\<close>

datatype sandbox_error =
    TenantRequiredError
  | SnapshotNotFoundError string
  | TenantScopeError
  | PatchConflictError string string
  | ContractVersionNotFoundError string
  | TransientSandboxError
  | SandboxValidationError

fun sandbox_status_code :: "sandbox_error \<Rightarrow> nat" where
  "sandbox_status_code TenantRequiredError = 401"
| "sandbox_status_code (SnapshotNotFoundError _) = 404"
| "sandbox_status_code TenantScopeError = 403"
| "sandbox_status_code (PatchConflictError _ _) = 409"
| "sandbox_status_code (ContractVersionNotFoundError _) = 404"
| "sandbox_status_code TransientSandboxError = 503"
| "sandbox_status_code SandboxValidationError = 500"

definition require_tenant :: "string option \<Rightarrow> sandbox_error + string" where
  "require_tenant header = (case header of None \<Rightarrow> Inl TenantRequiredError
     | Some h \<Rightarrow> if py_strip h = [] \<or> 128 < length (py_strip h) then Inl TenantRequiredError else Inr (py_strip h))"

record snapshot_record =
  sn_snapshot_id :: string
  sn_tenant_id :: string
  sn_system_id :: string
  sn_configuration :: "(string \<times> json) list"
  sn_configuration_hash :: string
  sn_created_at :: instant

record field_patch_request =
  fp_old_field :: string
  fp_new_field :: string
  fp_idempotency_key :: string
  fp_change_id :: string
  fp_plan_hash :: string

definition field_patch_ok :: "field_patch_request \<Rightarrow> bool" where
  "field_patch_ok r \<longleftrightarrow> (\<forall>x \<in> {fp_old_field r, fp_new_field r, fp_idempotency_key r, fp_change_id r}.
     strip x = x \<and> nonempty_str x) \<and> is_sha256_digest (fp_plan_hash r)"

record patch_preview =
  pv_system_id :: string
  pv_field_name :: string
  pv_before :: string
  pv_after :: string
  pv_would_change :: bool

record patch_result =
  pr_system_id :: string
  pr_field_name :: string
  pr_before :: string
  pr_after :: string
  pr_idempotency_key :: string
  pr_configuration_hash :: string
  pr_replayed :: bool

record restore_result =
  rr_system_id :: string
  rr_snapshot_id :: string
  rr_configuration_hash :: string
  rr_restored :: bool

section \<open>The configuration store\<close>

record 'c config_model =
  cm_field_name :: string
  cm_system_id :: "'c \<Rightarrow> string"
  cm_field :: "'c \<Rightarrow> string"
  cm_patch :: "'c \<Rightarrow> string \<Rightarrow> 'c"
  cm_validate :: "'c \<Rightarrow> 'c option"
  cm_dump :: "'c \<Rightarrow> (string \<times> json) list"
  cm_load :: "(string \<times> json) list \<Rightarrow> 'c option"

record 'c config_store =
  cs_configurations :: "(string, 'c) dict"
  cs_snapshots :: "(string \<times> string, snapshot_record) dict"
  cs_snapshot_tenants :: "(string, string) dict"
  cs_executions :: "(string \<times> string, patch_result) dict"
  cs_transient_failures :: "(string, int) dict"
  cs_verification_failures :: "(string, int) dict"

definition config_store_empty :: "'c config_store" where
  "config_store_empty = \<lparr>cs_configurations = [], cs_snapshots = [], cs_snapshot_tenants = [], cs_executions = [],
     cs_transient_failures = [], cs_verification_failures = []\<rparr>"

type_synonym ('c, 'a) cs_op = "('c config_store, sandbox_error, 'a) op"

definition copy_seed :: "'c config_model \<Rightarrow> 'c \<Rightarrow> ('c, 'c) cs_op" where
  "copy_seed M seed = validated SandboxValidationError (cm_validate M seed)"

definition put_configuration :: "string \<Rightarrow> 'c \<Rightarrow> ('c, 'c) cs_op" where
  "put_configuration tenant_id c s = ret c (s\<lparr>cs_configurations := dput tenant_id c (cs_configurations s)\<rparr>)"

definition cfg_get_unlocked :: "'c config_model \<Rightarrow> 'c \<Rightarrow> string \<Rightarrow> ('c, 'c) cs_op" where
  "cfg_get_unlocked M seed tenant_id s = (case dget (cs_configurations s) tenant_id of
     Some c \<Rightarrow> ret c s
   | None \<Rightarrow> bnd (copy_seed M seed) (put_configuration tenant_id) s)"

definition cfg_get :: "'c config_model \<Rightarrow> 'c \<Rightarrow> string \<Rightarrow> ('c, 'c) cs_op" where
  "cfg_get = cfg_get_unlocked"

definition cfg_snapshot :: "'c config_model \<Rightarrow> 'c \<Rightarrow> string \<Rightarrow> instant \<Rightarrow> string \<Rightarrow> ('c, snapshot_record) cs_op" where
  "cfg_snapshot M seed hex now tenant_id = bnd (cfg_get_unlocked M seed tenant_id) (\<lambda>configuration s.
     let document = cm_dump M configuration;
         snapshot = \<lparr>sn_snapshot_id = ''snapshot_'' @ hex, sn_tenant_id = tenant_id,
           sn_system_id = cm_system_id M configuration, sn_configuration = document,
           sn_configuration_hash = sha256_digest (JObj document), sn_created_at = now\<rparr>
     in ret snapshot (s\<lparr>cs_snapshots := dput (tenant_id, sn_snapshot_id snapshot) snapshot (cs_snapshots s),
          cs_snapshot_tenants := dput (sn_snapshot_id snapshot) tenant_id (cs_snapshot_tenants s)\<rparr>))"

definition cfg_dry_run :: "'c config_model \<Rightarrow> 'c \<Rightarrow> string \<Rightarrow> field_patch_request \<Rightarrow> ('c, patch_preview) cs_op" where
  "cfg_dry_run M seed tenant_id request = bnd (cfg_get_unlocked M seed tenant_id) (\<lambda>configuration.
     let current = cm_field M configuration in
     bnd (guard (current = fp_old_field request) (PatchConflictError (fp_old_field request) current)) (\<lambda>_.
     ret \<lparr>pv_system_id = cm_system_id M configuration, pv_field_name = cm_field_name M, pv_before = current,
       pv_after = fp_new_field request, pv_would_change = (current \<noteq> fp_new_field request)\<rparr>))"

definition record_execution :: "string \<times> string \<Rightarrow> patch_result \<Rightarrow> ('c, patch_result) cs_op" where
  "record_execution key result s = ret result (s\<lparr>cs_executions := dput key result (cs_executions s)\<rparr>)"

definition apply_patch :: "'c config_model \<Rightarrow> 'c \<Rightarrow> string \<Rightarrow> field_patch_request \<Rightarrow> ('c, patch_result) cs_op" where
  "apply_patch M seed tenant_id request = bnd (cfg_get_unlocked M seed tenant_id) (\<lambda>configuration.
     let current = cm_field M configuration in
     bnd (guard (current = fp_old_field request) (PatchConflictError (fp_old_field request) current)) (\<lambda>_.
     bnd (validated SandboxValidationError (cm_validate M (cm_patch M configuration (fp_new_field request)))) (\<lambda>updated.
     bnd (put_configuration tenant_id updated) (\<lambda>_.
     record_execution (tenant_id, fp_idempotency_key request)
       \<lparr>pr_system_id = cm_system_id M updated, pr_field_name = cm_field_name M, pr_before = current,
        pr_after = fp_new_field request, pr_idempotency_key = fp_idempotency_key request,
        pr_configuration_hash = sha256_digest (JObj (cm_dump M updated)), pr_replayed = False\<rparr>))))"

definition cfg_apply :: "'c config_model \<Rightarrow> 'c \<Rightarrow> string \<Rightarrow> field_patch_request \<Rightarrow> ('c, patch_result) cs_op" where
  "cfg_apply M seed tenant_id request s =
    (case dget (cs_executions s) (tenant_id, fp_idempotency_key request) of
       Some prior \<Rightarrow> ret (prior\<lparr>pr_replayed := True\<rparr>) s
     | None \<Rightarrow>
        (let remaining_failures = dget_or (cs_transient_failures s) tenant_id 0 in
         if remaining_failures \<noteq> 0
         then raise TransientSandboxError
           (s\<lparr>cs_transient_failures := dput tenant_id (remaining_failures - 1) (cs_transient_failures s)\<rparr>)
         else apply_patch M seed tenant_id request s))"

definition cfg_restore :: "'c config_model \<Rightarrow> string \<Rightarrow> string \<Rightarrow> ('c, restore_result) cs_op" where
  "cfg_restore M tenant_id snapshot_id s = (case dget (cs_snapshots s) (tenant_id, snapshot_id) of
     None \<Rightarrow> if dget (cs_snapshot_tenants s) snapshot_id \<noteq> None then raise TenantScopeError s
             else raise (SnapshotNotFoundError snapshot_id) s
   | Some snapshot \<Rightarrow>
       bnd (validated SandboxValidationError (cm_load M (sn_configuration snapshot))) (\<lambda>restored.
       bnd (put_configuration tenant_id restored) (\<lambda>_.
       ret \<lparr>rr_system_id = sn_system_id snapshot, rr_snapshot_id = snapshot_id,
         rr_configuration_hash = sn_configuration_hash snapshot, rr_restored = True\<rparr>)) s)"

definition inject_transient_failures :: "string \<Rightarrow> int \<Rightarrow> ('c, int) cs_op" where
  "inject_transient_failures tenant_id failures s =
     ret failures (s\<lparr>cs_transient_failures := dput tenant_id failures (cs_transient_failures s)\<rparr>)"

definition inject_verification_failures :: "string \<Rightarrow> int \<Rightarrow> ('c, int) cs_op" where
  "inject_verification_failures tenant_id failures s =
     ret failures (s\<lparr>cs_verification_failures := dput tenant_id failures (cs_verification_failures s)\<rparr>)"

definition consume_verification_failure :: "string \<Rightarrow> ('c, bool) cs_op" where
  "consume_verification_failure tenant_id s =
    (let remaining = dget_or (cs_verification_failures s) tenant_id 0 in
     if remaining = 0 then ret False s
     else ret True (s\<lparr>cs_verification_failures :=
       (if remaining = 1 then ddel tenant_id (cs_verification_failures s)
        else dput tenant_id (remaining - 1) (cs_verification_failures s))\<rparr>))"

text \<open>\<^verbatim>\<open>reset\<close>: the tenant's own snapshots are removed together with their tenant index.\<close>

definition drop_snapshots :: "string \<Rightarrow> (string \<times> string, snapshot_record) dict \<Rightarrow> (string, string) dict \<Rightarrow> (string, string) dict" where
  "drop_snapshots tenant_id snapshots index =
     fold (\<lambda>k d. if fst k = tenant_id then ddel (snd k) d else d) (map fst snapshots) index"

definition cfg_reset :: "'c config_model \<Rightarrow> 'c \<Rightarrow> string \<Rightarrow> ('c, bool) cs_op" where
  "cfg_reset M seed tenant_id = bnd (bnd (copy_seed M seed) (put_configuration tenant_id)) (\<lambda>_ s.
     ret True (s\<lparr>cs_transient_failures := ddel tenant_id (cs_transient_failures s),
       cs_verification_failures := ddel tenant_id (cs_verification_failures s),
       cs_executions := filter (\<lambda>item. fst (fst item) \<noteq> tenant_id) (cs_executions s),
       cs_snapshots := filter (\<lambda>item. fst (fst item) \<noteq> tenant_id) (cs_snapshots s),
       cs_snapshot_tenants := drop_snapshots tenant_id (cs_snapshots s) (cs_snapshot_tenants s)\<rparr>))"

section \<open>The three configuration models\<close>

record crm_configuration =
  crm_system_id :: string
  crm_source_field :: string
  crm_destination_field :: string
  crm_schema_version :: int
  crm_status :: string

definition crm_ok :: "crm_configuration \<Rightarrow> bool" where
  "crm_ok c \<longleftrightarrow> nonempty_str (crm_system_id c) \<and> nonempty_str (crm_source_field c) \<and>
     nonempty_str (crm_destination_field c) \<and> 1 \<le> crm_schema_version c \<and> nonempty_str (crm_status c)"

definition crm_strip :: "crm_configuration \<Rightarrow> crm_configuration" where
  "crm_strip c = c\<lparr>crm_system_id := strip (crm_system_id c), crm_source_field := strip (crm_source_field c),
     crm_destination_field := strip (crm_destination_field c), crm_status := strip (crm_status c)\<rparr>"

definition CrmConfiguration_validate :: "crm_configuration \<Rightarrow> crm_configuration option" where
  "CrmConfiguration_validate c = (if crm_ok (crm_strip c) then Some (crm_strip c) else None)"

definition crm_dump :: "crm_configuration \<Rightarrow> (string \<times> json) list" where
  "crm_dump c = [(''system_id'', JStr (crm_system_id c)), (''source_field'', JStr (crm_source_field c)),
     (''destination_field'', JStr (crm_destination_field c)), (''schema_version'', JInt (crm_schema_version c)),
     (''status'', JStr (crm_status c))]"

definition crm_load :: "(string \<times> json) list \<Rightarrow> crm_configuration option" where
  "crm_load d = (if set (map fst d) \<noteq> {''system_id'', ''source_field'', ''destination_field'', ''schema_version'', ''status''}
     then None
     else case (dget d ''system_id'', dget d ''source_field'', dget d ''destination_field'', dget d ''schema_version'', dget d ''status'') of
       (Some (JStr a), Some (JStr b), Some (JStr c), Some (JInt v), Some (JStr t)) \<Rightarrow>
         CrmConfiguration_validate \<lparr>crm_system_id = a, crm_source_field = b, crm_destination_field = c,
           crm_schema_version = v, crm_status = t\<rparr>
     | _ \<Rightarrow> None)"

definition crm_model :: "crm_configuration config_model" where
  "crm_model = \<lparr>cm_field_name = ''source_field'', cm_system_id = crm_system_id, cm_field = crm_source_field,
     cm_patch = (\<lambda>c f. c\<lparr>crm_source_field := f, crm_schema_version := crm_schema_version c + 1\<rparr>),
     cm_validate = CrmConfiguration_validate, cm_dump = crm_dump, cm_load = crm_load\<rparr>"

record analytics_configuration =
  an_system_id :: string
  an_source_field :: string
  an_output_field :: string
  an_dependent_dashboards :: "string list"
  an_baseline_row_count :: int
  an_status :: string

definition analytics_ok :: "analytics_configuration \<Rightarrow> bool" where
  "analytics_ok c \<longleftrightarrow> nonempty_str (an_system_id c) \<and> nonempty_str (an_source_field c) \<and>
     nonempty_str (an_output_field c) \<and> list_all nonempty_str (an_dependent_dashboards c) \<and>
     0 < an_baseline_row_count c \<and> nonempty_str (an_status c)"

definition analytics_strip :: "analytics_configuration \<Rightarrow> analytics_configuration" where
  "analytics_strip c = c\<lparr>an_system_id := strip (an_system_id c), an_source_field := strip (an_source_field c),
     an_output_field := strip (an_output_field c), an_dependent_dashboards := map strip (an_dependent_dashboards c),
     an_status := strip (an_status c)\<rparr>"

definition AnalyticsConfiguration_validate :: "analytics_configuration \<Rightarrow> analytics_configuration option" where
  "AnalyticsConfiguration_validate c = (if analytics_ok (analytics_strip c) then Some (analytics_strip c) else None)"

definition analytics_dump :: "analytics_configuration \<Rightarrow> (string \<times> json) list" where
  "analytics_dump c = [(''system_id'', JStr (an_system_id c)), (''source_field'', JStr (an_source_field c)),
     (''output_field'', JStr (an_output_field c)), (''dependent_dashboards'', strs_json (an_dependent_dashboards c)),
     (''baseline_row_count'', JInt (an_baseline_row_count c)), (''status'', JStr (an_status c))]"

fun json_strs :: "json list \<Rightarrow> string list option" where
  "json_strs [] = Some []"
| "json_strs (JStr s # xs) = map_option (Cons s) (json_strs xs)"
| "json_strs (_ # xs) = None"

definition analytics_load :: "(string \<times> json) list \<Rightarrow> analytics_configuration option" where
  "analytics_load d = (if set (map fst d) \<noteq> {''system_id'', ''source_field'', ''output_field'', ''dependent_dashboards'',
       ''baseline_row_count'', ''status''}
     then None
     else case (dget d ''system_id'', dget d ''source_field'', dget d ''output_field'', dget d ''dependent_dashboards'',
         dget d ''baseline_row_count'', dget d ''status'') of
       (Some (JStr a), Some (JStr b), Some (JStr c), Some (JArr xs), Some (JInt n), Some (JStr t)) \<Rightarrow>
         Option.bind (json_strs xs) (\<lambda>ds. AnalyticsConfiguration_validate \<lparr>an_system_id = a, an_source_field = b,
           an_output_field = c, an_dependent_dashboards = ds, an_baseline_row_count = n, an_status = t\<rparr>)
     | _ \<Rightarrow> None)"

definition analytics_model :: "analytics_configuration config_model" where
  "analytics_model = \<lparr>cm_field_name = ''source_field'', cm_system_id = an_system_id, cm_field = an_source_field,
     cm_patch = (\<lambda>c f. c\<lparr>an_source_field := f\<rparr>), cm_validate = AnalyticsConfiguration_validate,
     cm_dump = analytics_dump, cm_load = analytics_load\<rparr>"

record support_configuration =
  su_system_id :: string
  su_lookup_field :: string
  su_dependent_forms :: "string list"
  su_status :: string

definition support_ok :: "support_configuration \<Rightarrow> bool" where
  "support_ok c \<longleftrightarrow> nonempty_str (su_system_id c) \<and> nonempty_str (su_lookup_field c) \<and>
     list_all nonempty_str (su_dependent_forms c) \<and> nonempty_str (su_status c)"

definition support_strip :: "support_configuration \<Rightarrow> support_configuration" where
  "support_strip c = c\<lparr>su_system_id := strip (su_system_id c), su_lookup_field := strip (su_lookup_field c),
     su_dependent_forms := map strip (su_dependent_forms c), su_status := strip (su_status c)\<rparr>"

definition SupportConfiguration_validate :: "support_configuration \<Rightarrow> support_configuration option" where
  "SupportConfiguration_validate c = (if support_ok (support_strip c) then Some (support_strip c) else None)"

definition support_dump :: "support_configuration \<Rightarrow> (string \<times> json) list" where
  "support_dump c = [(''system_id'', JStr (su_system_id c)), (''lookup_field'', JStr (su_lookup_field c)),
     (''dependent_forms'', strs_json (su_dependent_forms c)), (''status'', JStr (su_status c))]"

definition support_load :: "(string \<times> json) list \<Rightarrow> support_configuration option" where
  "support_load d = (if set (map fst d) \<noteq> {''system_id'', ''lookup_field'', ''dependent_forms'', ''status''} then None
     else case (dget d ''system_id'', dget d ''lookup_field'', dget d ''dependent_forms'', dget d ''status'') of
       (Some (JStr a), Some (JStr b), Some (JArr xs), Some (JStr t)) \<Rightarrow>
         Option.bind (json_strs xs) (\<lambda>fs. SupportConfiguration_validate \<lparr>su_system_id = a, su_lookup_field = b,
           su_dependent_forms = fs, su_status = t\<rparr>)
     | _ \<Rightarrow> None)"

definition support_model :: "support_configuration config_model" where
  "support_model = \<lparr>cm_field_name = ''lookup_field'', cm_system_id = su_system_id, cm_field = su_lookup_field,
     cm_patch = (\<lambda>c f. c\<lparr>su_lookup_field := f\<rparr>), cm_validate = SupportConfiguration_validate,
     cm_dump = support_dump, cm_load = support_load\<rparr>"

section \<open>Verification routes\<close>

record verification_check =
  vc_name :: string
  vc_passed :: bool
  vc_detail :: string

record verification_result =
  vr_system_id :: string
  vr_passed :: bool
  vr_checks :: "verification_check list"

text \<open>A check or a resource whose text exceeds the contract's 512 characters fails validation.\<close>

definition VerificationCheck :: "string \<Rightarrow> bool \<Rightarrow> string \<Rightarrow> verification_check option" where
  "VerificationCheck name passed detail = (if nonempty_str (strip name) \<and> nonempty_str (strip detail)
     then Some \<lparr>vc_name = strip name, vc_passed = passed, vc_detail = strip detail\<rparr> else None)"

definition VerificationResult :: "string \<Rightarrow> verification_check option list \<Rightarrow> verification_result option" where
  "VerificationResult system_id checks = (if list_all (\<lambda>c. c \<noteq> None) checks \<and> nonempty_str system_id
     then Some \<lparr>vr_system_id = system_id, vr_passed = list_all vc_passed (map the checks), vr_checks = map the checks\<rparr>
     else None)"

definition crm_verify :: "crm_configuration \<Rightarrow> string \<Rightarrow> string \<Rightarrow> (crm_configuration, verification_result) cs_op" where
  "crm_verify seed expected_field tenant_id = bnd (cfg_get crm_model seed tenant_id) (\<lambda>current.
     validated SandboxValidationError (VerificationResult (crm_system_id current)
       [VerificationCheck ''source_field'' (crm_source_field current = expected_field)
          (''Configured source field is '' @ crm_source_field current @ ''.''),
        VerificationCheck ''service_health'' (crm_status current = ''healthy'')
          (''CRM synchronization status is '' @ crm_status current @ ''.'')]))"

record analytics_data_profile =
  ad_system_id :: string
  ad_observed_row_count :: int
  ad_identifier_null_count :: int

definition data_profile_ok :: "analytics_data_profile \<Rightarrow> bool" where
  "data_profile_ok d \<longleftrightarrow> nonempty_str (ad_system_id d) \<and> 0 < ad_observed_row_count d \<and>
     0 \<le> ad_identifier_null_count d \<and> ad_identifier_null_count d \<le> ad_observed_row_count d"

record data_quality_result = verification_result +
  dq_baseline_row_count :: int
  dq_observed_row_count :: int
  dq_null_rate :: "int \<times> int"

text \<open>
  The null rate is kept as numerator and denominator. It is the float zero exactly when the null count is zero,
  for every row count below \<^verbatim>\<open>2 ** 1074\<close>.
\<close>

definition analytics_verify ::
  "analytics_configuration \<Rightarrow> analytics_data_profile \<Rightarrow> string \<Rightarrow> string \<Rightarrow>
   (analytics_configuration, data_quality_result) cs_op" where
  "analytics_verify seed observed_data expected_field tenant_id = bnd (cfg_get analytics_model seed tenant_id) (\<lambda>current.
     bnd (validated SandboxValidationError (VerificationResult (an_system_id current)
       [VerificationCheck ''source_field'' (an_source_field current = expected_field)
          (''Transformation source field is '' @ an_source_field current @ ''.''),
        VerificationCheck ''dataset_identity'' (ad_system_id observed_data = an_system_id current)
          (''Observed dataset belongs to '' @ ad_system_id observed_data @ ''.''),
        VerificationCheck ''row_count'' (ad_observed_row_count observed_data = an_baseline_row_count current)
          (''Observed '' @ int_str (ad_observed_row_count observed_data) @ '' rows against the '' @
            int_str (an_baseline_row_count current) @ ''-row baseline.''),
        VerificationCheck ''null_rate'' (ad_identifier_null_count observed_data = 0)
          (''Observed '' @ int_str (ad_identifier_null_count observed_data) @ '' null identifiers across '' @
            int_str (ad_observed_row_count observed_data) @ '' rows.''),
        VerificationCheck ''service_health'' (an_status current = ''healthy'')
          (''Analytics transformation status is '' @ an_status current @ ''.'')])) (\<lambda>result.
     ret (verification_result.extend result (data_quality_result.fields (an_baseline_row_count current)
       (ad_observed_row_count observed_data) (ad_identifier_null_count observed_data, ad_observed_row_count observed_data)))))"

definition support_verify :: "support_configuration \<Rightarrow> string \<Rightarrow> string \<Rightarrow> (support_configuration, verification_result) cs_op" where
  "support_verify seed expected_field tenant_id = bnd (cfg_get support_model seed tenant_id) (\<lambda>current.
     bnd (consume_verification_failure tenant_id) (\<lambda>injected_failure.
     validated SandboxValidationError (VerificationResult (su_system_id current)
       [VerificationCheck ''lookup_field'' (su_lookup_field current = expected_field \<and> \<not> injected_failure)
          (if injected_failure then ''Injected support lookup verification failure.''
           else ''Support lookup field is '' @ su_lookup_field current @ ''.''),
        VerificationCheck ''dependent_forms'' (su_dependent_forms current \<noteq> [])
          ''Dependent synthetic forms remain registered.'',
        VerificationCheck ''service_health'' (su_status current = ''healthy'')
          (''Support portal status is '' @ su_status current @ ''.'')])))"

definition FieldUsageResult :: "string \<Rightarrow> string list \<Rightarrow> (string \<times> string list) option" where
  "FieldUsageResult field resources = (if nonempty_str (strip field) \<and> list_all (\<lambda>r. nonempty_str (strip r)) resources
     then Some (strip field, map strip resources) else None)"

definition analytics_field_usage ::
  "analytics_configuration \<Rightarrow> string \<Rightarrow> string \<Rightarrow> (analytics_configuration, string \<times> string list) cs_op" where
  "analytics_field_usage seed tenant_id field = bnd (cfg_get analytics_model seed tenant_id) (\<lambda>current.
     validated SandboxValidationError (FieldUsageResult field (if field = an_source_field current
       then (''transformation://'' @ an_system_id current) # map (\<lambda>d. ''dashboard://'' @ d) (an_dependent_dashboards current)
       else [])))"

definition support_field_usage ::
  "support_configuration \<Rightarrow> string \<Rightarrow> string \<Rightarrow> (support_configuration, string \<times> string list) cs_op" where
  "support_field_usage seed tenant_id field = bnd (cfg_get support_model seed tenant_id) (\<lambda>current.
     validated SandboxValidationError (FieldUsageResult field
       (if field = su_lookup_field current then map (\<lambda>f. ''form://'' @ f) (su_dependent_forms current) else [])))"

section \<open>The catalog store\<close>

record api_contract =
  ac_api :: string
  ac_version :: string
  ac_identifier_field :: string
  ac_identifier_type :: string
  ac_compatibility :: string
  ac_owner :: string

record dependency_edge =
  de_source :: string
  de_target :: string
  de_managed :: bool

record catalog_seed =
  seed_active_version :: string
  seed_contracts :: "api_contract list"
  seed_dependencies :: "dependency_edge list"

definition contract_dump :: "api_contract \<Rightarrow> (string \<times> json) list" where
  "contract_dump c = [(''api'', JStr (ac_api c)), (''version'', JStr (ac_version c)),
     (''identifier_field'', JStr (ac_identifier_field c)), (''identifier_type'', JStr (ac_identifier_type c)),
     (''compatibility'', JStr (ac_compatibility c)), (''owner'', JStr (ac_owner c))]"

definition contract_fields :: "api_contract \<Rightarrow> string list" where
  "contract_fields c = [ac_api c, ac_version c, ac_identifier_field c, ac_identifier_type c, ac_compatibility c, ac_owner c]"

definition contract_valid :: "api_contract \<Rightarrow> bool" where
  "contract_valid c \<longleftrightarrow> list_all (\<lambda>f. strip f = f \<and> nonempty_str f) (contract_fields c)"

definition contract_load :: "(string \<times> json) list \<Rightarrow> api_contract option" where
  "contract_load d = (if set (map fst d) \<noteq> {''api'', ''version'', ''identifier_field'', ''identifier_type'',
       ''compatibility'', ''owner''} then None
     else case (dget d ''api'', dget d ''version'', dget d ''identifier_field'', dget d ''identifier_type'',
         dget d ''compatibility'', dget d ''owner'') of
       (Some (JStr a), Some (JStr v), Some (JStr f), Some (JStr t), Some (JStr c), Some (JStr w)) \<Rightarrow>
         (let contract = \<lparr>ac_api = strip a, ac_version = strip v, ac_identifier_field = strip f,
            ac_identifier_type = strip t, ac_compatibility = strip c, ac_owner = strip w\<rparr>
          in if contract_valid contract then Some contract else None)
     | _ \<Rightarrow> None)"

record catalog_activation_request =
  ca_version :: string
  ca_idempotency_key :: string
  ca_change_id :: string
  ca_plan_hash :: string

record catalog_activation_result =
  cx_active_contract :: api_contract
  cx_idempotency_key :: string
  cx_replayed :: bool

record catalog_store =
  ct_active_versions :: "(string, string) dict"
  ct_snapshots :: "(string \<times> string, snapshot_record) dict"
  ct_snapshot_tenants :: "(string, string) dict"
  ct_executions :: "(string \<times> string, catalog_activation_result) dict"

definition catalog_store_empty :: catalog_store where
  "catalog_store_empty = \<lparr>ct_active_versions = [], ct_snapshots = [], ct_snapshot_tenants = [], ct_executions = []\<rparr>"

type_synonym 'a ct_op = "(catalog_store, sandbox_error, 'a) op"

definition contract_for_version :: "catalog_seed \<Rightarrow> string \<Rightarrow> api_contract ct_op" where
  "contract_for_version seed version = (case find (\<lambda>c. ac_version c = version) (seed_contracts seed) of
     None \<Rightarrow> raise (ContractVersionNotFoundError version) | Some c \<Rightarrow> ret c)"

definition active_contract :: "catalog_seed \<Rightarrow> string \<Rightarrow> api_contract ct_op" where
  "active_contract seed tenant_id s =
     contract_for_version seed (dget_or (ct_active_versions s) tenant_id (seed_active_version seed)) s"

definition contract_version :: "catalog_seed \<Rightarrow> string \<Rightarrow> api_contract ct_op" where
  "contract_version = contract_for_version"

definition dependencies :: "catalog_seed \<Rightarrow> string option \<Rightarrow> dependency_edge list ct_op" where
  "dependencies seed source = ret (case source of None \<Rightarrow> seed_dependencies seed
     | Some x \<Rightarrow> filter (\<lambda>edge. de_source edge = x) (seed_dependencies seed))"

definition catalog_snapshot :: "catalog_seed \<Rightarrow> string \<Rightarrow> instant \<Rightarrow> string \<Rightarrow> snapshot_record ct_op" where
  "catalog_snapshot seed hex now tenant_id = bnd (active_contract seed tenant_id) (\<lambda>contract s.
     let document = contract_dump contract;
         snapshot = \<lparr>sn_snapshot_id = ''snapshot_'' @ hex, sn_tenant_id = tenant_id, sn_system_id = ''customer-api'',
           sn_configuration = document, sn_configuration_hash = sha256_digest (JObj document), sn_created_at = now\<rparr>
     in ret snapshot (s\<lparr>ct_snapshots := dput (tenant_id, sn_snapshot_id snapshot) snapshot (ct_snapshots s),
          ct_snapshot_tenants := dput (sn_snapshot_id snapshot) tenant_id (ct_snapshot_tenants s)\<rparr>))"

definition activate :: "catalog_seed \<Rightarrow> string \<Rightarrow> catalog_activation_request \<Rightarrow> catalog_activation_result ct_op" where
  "activate seed tenant_id request s =
    (case dget (ct_executions s) (tenant_id, ca_idempotency_key request) of
       Some prior \<Rightarrow> ret (prior\<lparr>cx_replayed := True\<rparr>) s
     | None \<Rightarrow> bnd (contract_for_version seed (ca_version request)) (\<lambda>contract s.
         let result = \<lparr>cx_active_contract = contract, cx_idempotency_key = ca_idempotency_key request, cx_replayed = False\<rparr>
         in ret result (s\<lparr>ct_active_versions := dput tenant_id (ac_version contract) (ct_active_versions s),
              ct_executions := dput (tenant_id, ca_idempotency_key request) result (ct_executions s)\<rparr>)) s)"

definition catalog_restore :: "string \<Rightarrow> string \<Rightarrow> restore_result ct_op" where
  "catalog_restore tenant_id snapshot_id s = (case dget (ct_snapshots s) (tenant_id, snapshot_id) of
     None \<Rightarrow> if dget (ct_snapshot_tenants s) snapshot_id \<noteq> None then raise TenantScopeError s
             else raise (SnapshotNotFoundError snapshot_id) s
   | Some snapshot \<Rightarrow> bnd (validated SandboxValidationError (contract_load (sn_configuration snapshot))) (\<lambda>contract s.
       ret \<lparr>rr_system_id = ''customer-api'', rr_snapshot_id = snapshot_id,
         rr_configuration_hash = sn_configuration_hash snapshot, rr_restored = True\<rparr>
         (s\<lparr>ct_active_versions := dput tenant_id (ac_version contract) (ct_active_versions s)\<rparr>)) s)"

definition catalog_reset :: "catalog_seed \<Rightarrow> string \<Rightarrow> bool ct_op" where
  "catalog_reset seed tenant_id s = ret True
     (s\<lparr>ct_active_versions := dput tenant_id (seed_active_version seed) (ct_active_versions s),
        ct_executions := filter (\<lambda>item. fst (fst item) \<noteq> tenant_id) (ct_executions s),
        ct_snapshots := filter (\<lambda>item. fst (fst item) \<noteq> tenant_id) (ct_snapshots s),
        ct_snapshot_tenants := drop_snapshots tenant_id (ct_snapshots s) (ct_snapshot_tenants s)\<rparr>)"

section \<open>The laws of a configuration model\<close>

locale configuration_model =
  fixes M :: "'c config_model" and ok :: "'c \<Rightarrow> bool"
  assumes validate_ok: "cm_validate M c = Some c' \<Longrightarrow> ok c'"
    and validate_id: "ok c \<Longrightarrow> cm_validate M c = Some c"
    and load_dump: "ok c \<Longrightarrow> cm_load M (cm_dump M c) = Some c"
    and load_ok: "cm_load M d = Some c \<Longrightarrow> ok c"
    and patch_field: "ok c \<Longrightarrow> strip f = f \<Longrightarrow> nonempty_str f \<Longrightarrow> \<exists>c'. cm_validate M (cm_patch M c f) = Some c' \<and>
      cm_field M c' = f \<and> cm_system_id M c' = cm_system_id M c"

lemma json_strs_map [simp]: "json_strs (map JStr xs) = Some xs"
  by (induction xs) auto

definition crm_valid :: "crm_configuration \<Rightarrow> bool" where
  "crm_valid c \<longleftrightarrow> crm_strip c = c \<and> crm_ok c"

definition analytics_valid :: "analytics_configuration \<Rightarrow> bool" where
  "analytics_valid c \<longleftrightarrow> analytics_strip c = c \<and> analytics_ok c"

definition support_valid :: "support_configuration \<Rightarrow> bool" where
  "support_valid c \<longleftrightarrow> support_strip c = c \<and> support_ok c"

lemma crm_validate_iff: "CrmConfiguration_validate c = Some c' \<Longrightarrow> crm_valid c'"
  by (auto simp: CrmConfiguration_validate_def crm_valid_def crm_strip_def split: if_splits)

lemma analytics_validate_iff: "AnalyticsConfiguration_validate c = Some c' \<Longrightarrow> analytics_valid c'"
  by (auto simp: AnalyticsConfiguration_validate_def analytics_valid_def analytics_strip_def split: if_splits)

lemma support_validate_iff: "SupportConfiguration_validate c = Some c' \<Longrightarrow> support_valid c'"
  by (auto simp: SupportConfiguration_validate_def support_valid_def support_strip_def split: if_splits)

interpretation crm: configuration_model crm_model crm_valid
proof (unfold_locales, goal_cases)
  case (3 c)
  then have "CrmConfiguration_validate c = Some c" by (simp add: CrmConfiguration_validate_def crm_valid_def)
  then show ?case by (cases c) (simp add: crm_model_def crm_dump_def crm_load_def dget_Cons)
next
  case (4 d c)
  then show ?case
    by (auto simp: crm_model_def crm_load_def split: if_splits option.splits json.splits intro: crm_validate_iff)
next
  case (5 c f)
  then have "crm_strip (c\<lparr>crm_source_field := f, crm_schema_version := crm_schema_version c + 1\<rparr>) =
      (crm_strip c)\<lparr>crm_source_field := f, crm_schema_version := crm_schema_version c + 1\<rparr>"
    by (simp add: crm_strip_def)
  with 5 show ?case by (simp add: crm_model_def CrmConfiguration_validate_def crm_valid_def crm_ok_def)
qed (auto simp: crm_model_def CrmConfiguration_validate_def crm_valid_def crm_strip_def split: if_splits)

interpretation analytics: configuration_model analytics_model analytics_valid
proof (unfold_locales, goal_cases)
  case (3 c)
  then have "AnalyticsConfiguration_validate c = Some c" by (simp add: AnalyticsConfiguration_validate_def analytics_valid_def)
  then show ?case by (cases c) (simp add: analytics_model_def analytics_dump_def analytics_load_def dget_Cons strs_json_def)
next
  case (4 d c)
  then show ?case
    by (auto simp: analytics_model_def analytics_load_def bind_eq_Some_conv split: if_splits option.splits json.splits
        intro: analytics_validate_iff)
next
  case (5 c f)
  then have "analytics_strip (c\<lparr>an_source_field := f\<rparr>) = (analytics_strip c)\<lparr>an_source_field := f\<rparr>"
    by (simp add: analytics_strip_def)
  with 5 show ?case by (simp add: analytics_model_def AnalyticsConfiguration_validate_def analytics_valid_def analytics_ok_def)
qed (auto simp: analytics_model_def AnalyticsConfiguration_validate_def analytics_valid_def analytics_strip_def split: if_splits)

interpretation support: configuration_model support_model support_valid
proof (unfold_locales, goal_cases)
  case (3 c)
  then have "SupportConfiguration_validate c = Some c" by (simp add: SupportConfiguration_validate_def support_valid_def)
  then show ?case by (cases c) (simp add: support_model_def support_dump_def support_load_def dget_Cons strs_json_def)
next
  case (4 d c)
  then show ?case
    by (auto simp: support_model_def support_load_def bind_eq_Some_conv split: if_splits option.splits json.splits
        intro: support_validate_iff)
next
  case (5 c f)
  then have "support_strip (c\<lparr>su_lookup_field := f\<rparr>) = (support_strip c)\<lparr>su_lookup_field := f\<rparr>"
    by (simp add: support_strip_def)
  with 5 show ?case by (simp add: support_model_def SupportConfiguration_validate_def support_valid_def support_ok_def)
qed (auto simp: support_model_def SupportConfiguration_validate_def support_valid_def support_strip_def split: if_splits)

section \<open>Sequences of calls\<close>

text \<open>
  The store's lock makes every method atomic, so what callers do to a store is a list of calls. A call
  that raises leaves the store as the method left it.
\<close>

datatype cs_call =
    CsGet string
  | CsSnapshot string instant string
  | CsDryRun string field_patch_request
  | CsApply string field_patch_request
  | CsRestore string string
  | CsInjectTransient string int
  | CsInjectVerification string int
  | CsConsume string
  | CsReset string

fun cs_call_tenant :: "cs_call \<Rightarrow> string" where
  "cs_call_tenant (CsGet t) = t"
| "cs_call_tenant (CsSnapshot h n t) = t"
| "cs_call_tenant (CsDryRun t r) = t"
| "cs_call_tenant (CsApply t r) = t"
| "cs_call_tenant (CsRestore t i) = t"
| "cs_call_tenant (CsInjectTransient t n) = t"
| "cs_call_tenant (CsInjectVerification t n) = t"
| "cs_call_tenant (CsConsume t) = t"
| "cs_call_tenant (CsReset t) = t"

fun run_cs_call :: "'c config_model \<Rightarrow> 'c \<Rightarrow> cs_call \<Rightarrow> 'c config_store \<Rightarrow> 'c config_store" where
  "run_cs_call M seed (CsGet t) s = snd (cfg_get M seed t s)"
| "run_cs_call M seed (CsSnapshot h n t) s = snd (cfg_snapshot M seed h n t s)"
| "run_cs_call M seed (CsDryRun t r) s = snd (cfg_dry_run M seed t r s)"
| "run_cs_call M seed (CsApply t r) s = snd (cfg_apply M seed t r s)"
| "run_cs_call M seed (CsRestore t i) s = snd (cfg_restore M t i s)"
| "run_cs_call M seed (CsInjectTransient t n) s = snd (inject_transient_failures t n s)"
| "run_cs_call M seed (CsInjectVerification t n) s = snd (inject_verification_failures t n s)"
| "run_cs_call M seed (CsConsume t) s = snd (consume_verification_failure t s)"
| "run_cs_call M seed (CsReset t) s = snd (cfg_reset M seed t s)"

definition run_cs_calls :: "'c config_model \<Rightarrow> 'c \<Rightarrow> cs_call list \<Rightarrow> 'c config_store \<Rightarrow> 'c config_store" where
  "run_cs_calls M seed calls s = fold (run_cs_call M seed) calls s"

text \<open>What a tenant can observe of the store through its own calls.\<close>

definition cs_view :: "string \<Rightarrow> 'c config_store \<Rightarrow>
    'c option \<times> (string \<Rightarrow> snapshot_record option) \<times> (string \<Rightarrow> patch_result option) \<times> int option \<times> int option" where
  "cs_view t s = (dget (cs_configurations s) t, (\<lambda>i. dget (cs_snapshots s) (t, i)),
     (\<lambda>k. dget (cs_executions s) (t, k)), dget (cs_transient_failures s) t, dget (cs_verification_failures s) t)"

definition effective_configuration :: "'c \<Rightarrow> string \<Rightarrow> 'c config_store \<Rightarrow> 'c" where
  "effective_configuration seed t s = (case dget (cs_configurations s) t of None \<Rightarrow> seed | Some c \<Rightarrow> c)"

lemmas cs_op_defs = cfg_get_def cfg_get_unlocked_def copy_seed_def put_configuration_def cfg_snapshot_def
  cfg_dry_run_def apply_patch_def record_execution_def cfg_apply_def cfg_restore_def inject_transient_failures_def
  inject_verification_failures_def consume_verification_failure_def cfg_reset_def Let_def bnd_def validated_def

lemma replayed:
  "dget (cs_executions s) (t, fp_idempotency_key req) = Some r \<Longrightarrow>
   cfg_apply M seed t req s = (Inr (r\<lparr>pr_replayed := True\<rparr>), s)"
  by (simp add: cfg_apply_def)

lemma cs_view_other:
  "cs_call_tenant call \<noteq> t \<Longrightarrow> cs_view t (run_cs_call M seed call s) = cs_view t s"
  by (cases call)
    (auto simp: cs_view_def cs_op_defs dget_filter_key [where P = "\<lambda>k. fst k \<noteq> t'" for t']
      split: option.splits prod.splits sum.splits)

lemma cs_view_others:
  "list_all (\<lambda>call. cs_call_tenant call \<noteq> t) calls \<Longrightarrow> cs_view t (run_cs_calls M seed calls s) = cs_view t s"
  unfolding run_cs_calls_def by (induction calls arbitrary: s) (simp_all add: cs_view_other)

text \<open>A snapshot stays until its tenant resets or its identifier is drawn again.\<close>

fun keeps_snapshot :: "string \<Rightarrow> string \<Rightarrow> cs_call \<Rightarrow> bool" where
  "keeps_snapshot t sid (CsReset t') \<longleftrightarrow> t' \<noteq> t"
| "keeps_snapshot t sid (CsSnapshot h n t') \<longleftrightarrow> ''snapshot_'' @ h \<noteq> sid"
| "keeps_snapshot t sid _ \<longleftrightarrow> True"

lemma snapshot_kept:
  "keeps_snapshot t sid call \<Longrightarrow>
   dget (cs_snapshots (run_cs_call M seed call s)) (t, sid) = dget (cs_snapshots s) (t, sid)"
  by (cases call)
    (auto simp: cs_op_defs dget_filter_key [where P = "\<lambda>k. fst k \<noteq> t'" for t'] split: option.splits prod.splits sum.splits)

lemma snapshot_kept_calls:
  "list_all (keeps_snapshot t sid) calls \<Longrightarrow>
   dget (cs_snapshots (run_cs_calls M seed calls s)) (t, sid) = dget (cs_snapshots s) (t, sid)"
  unfolding run_cs_calls_def by (induction calls arbitrary: s) (simp_all add: snapshot_kept)

text \<open>The records of a reachable store: valid configurations, and snapshots and executions filed under their own key.\<close>

definition snapshot_ok :: "'c config_model \<Rightarrow> ('c \<Rightarrow> bool) \<Rightarrow> string \<times> string \<Rightarrow> snapshot_record \<Rightarrow> bool" where
  "snapshot_ok M ok k sn \<longleftrightarrow> k = (sn_tenant_id sn, sn_snapshot_id sn) \<and>
     sn_configuration_hash sn = sha256_digest (JObj (sn_configuration sn)) \<and>
     (case cm_load M (sn_configuration sn) of None \<Rightarrow> False
      | Some c \<Rightarrow> ok c \<and> sn_configuration sn = cm_dump M c \<and> sn_system_id sn = cm_system_id M c)"

definition cs_inv :: "'c config_model \<Rightarrow> ('c \<Rightarrow> bool) \<Rightarrow> 'c config_store \<Rightarrow> bool" where
  "cs_inv M ok s \<longleftrightarrow> (\<forall>t c. dget (cs_configurations s) t = Some c \<longrightarrow> ok c) \<and>
     (\<forall>k sn. dget (cs_snapshots s) k = Some sn \<longrightarrow> snapshot_ok M ok k sn) \<and>
     (\<forall>k r. dget (cs_executions s) k = Some r \<longrightarrow> snd k = pr_idempotency_key r \<and> \<not> pr_replayed r)"

text \<open>What a fresh patch of the expected field returns and leaves.\<close>

definition fresh_result :: "'c config_model \<Rightarrow> field_patch_request \<Rightarrow> 'c \<Rightarrow> patch_result" where
  "fresh_result M req c = \<lparr>pr_system_id = cm_system_id M c, pr_field_name = cm_field_name M, pr_before = fp_old_field req,
    pr_after = fp_new_field req, pr_idempotency_key = fp_idempotency_key req,
    pr_configuration_hash = sha256_digest (JObj (cm_dump M c)), pr_replayed = False\<rparr>"

context configuration_model
begin

lemma cfg_get_unlocked_eq:
  "ok seed \<Longrightarrow> cfg_get_unlocked M seed t s =
    (Inr (effective_configuration seed t s),
     if dget (cs_configurations s) t = None then s\<lparr>cs_configurations := dput t seed (cs_configurations s)\<rparr> else s)"
  by (auto simp: cfg_get_unlocked_def effective_configuration_def copy_seed_def put_configuration_def validate_id bnd_def
      split: option.splits)

lemma effective_ok: "ok seed \<Longrightarrow> cs_inv M ok s \<Longrightarrow> ok (effective_configuration seed t s)"
  by (auto simp: effective_configuration_def cs_inv_def split: option.splits)

lemma cs_inv_put: "cs_inv M ok s \<Longrightarrow> ok c \<Longrightarrow> cs_inv M ok (s\<lparr>cs_configurations := dput t c (cs_configurations s)\<rparr>)"
  by (auto simp: cs_inv_def)

lemma cs_inv_get: "ok seed \<Longrightarrow> cs_inv M ok s \<Longrightarrow> cfg_get_unlocked M seed t s = (r, s') \<Longrightarrow> cs_inv M ok s'"
  by (auto simp: cfg_get_unlocked_eq cs_inv_put split: if_splits)

lemma cs_inv_snapshot:
  assumes "ok seed" "cs_inv M ok s" shows "cs_inv M ok (snd (cfg_snapshot M seed hex now t s))"
proof -
  obtain s' where g: "cfg_get_unlocked M seed t s = (Inr (effective_configuration seed t s), s')"
    using cfg_get_unlocked_eq [OF assms(1), of t s] by (auto split: if_splits)
  have "cs_inv M ok s'" using cs_inv_get [OF assms g] .
  moreover have "ok (effective_configuration seed t s)" using effective_ok assms by blast
  ultimately show ?thesis
    unfolding cfg_snapshot_def Let_def bnd_def g prod.case sum.case ret_apply snd_conv
    by (simp add: cs_inv_def snapshot_ok_def load_dump)
qed

lemma cs_inv_apply:
  assumes "ok seed" "cs_inv M ok s" shows "cs_inv M ok (snd (cfg_apply M seed t req s))"
proof -
  obtain s' where g: "cfg_get_unlocked M seed t s = (Inr (effective_configuration seed t s), s')"
    using cfg_get_unlocked_eq [OF assms(1), of t s] by (auto split: if_splits)
  have i: "cs_inv M ok s'" using cs_inv_get [OF assms g] .
  have "cs_inv M ok (snd (apply_patch M seed t req s))"
    using i unfolding apply_patch_def Let_def bnd_def g
    by (auto simp: record_execution_def put_configuration_def validated_def guard_def cs_inv_def
        dest: validate_ok split: option.splits)
  with assms(2) show ?thesis by (auto simp: cfg_apply_def Let_def cs_inv_def split: option.splits)
qed

lemma cs_inv_restore: "cs_inv M ok s \<Longrightarrow> cs_inv M ok (snd (cfg_restore M t sid s))"
  by (auto simp: cfg_restore_def bnd_def validated_def put_configuration_def dest: load_ok
      intro!: cs_inv_put split: option.splits)

lemma cs_inv_reset: "ok seed \<Longrightarrow> cs_inv M ok s \<Longrightarrow> cs_inv M ok (snd (cfg_reset M seed t s))"
  by (auto simp: cfg_reset_def bnd_def copy_seed_def put_configuration_def validate_id cs_inv_def
      dget_filter_key [where P = "\<lambda>k. fst k \<noteq> t"] split: if_splits)

lemma cs_inv_switches:
  "cs_inv M ok s \<Longrightarrow> cs_inv M ok (snd (inject_transient_failures t n s))"
  "cs_inv M ok s \<Longrightarrow> cs_inv M ok (snd (inject_verification_failures t n s))"
  "cs_inv M ok s \<Longrightarrow> cs_inv M ok (snd (consume_verification_failure t s))"
  by (simp_all add: inject_transient_failures_def inject_verification_failures_def consume_verification_failure_def
      Let_def cs_inv_def del: split_paired_All)

lemma cs_inv_call:
  assumes "ok seed" "cs_inv M ok s" shows "cs_inv M ok (run_cs_call M seed call s)"
proof (cases call)
  case (CsGet t)
  with assms show ?thesis by (simp add: cfg_get_def) (metis cs_inv_get prod.collapse)
next
  case (CsDryRun t r)
  obtain c s' where g: "cfg_get_unlocked M seed t s = (Inr c, s')"
    using cfg_get_unlocked_eq [OF assms(1), of t s] by blast
  from cs_inv_get [OF assms g] CsDryRun show ?thesis by (simp add: cfg_dry_run_def bnd_def g Let_def)
qed (use assms in \<open>simp_all add: cs_inv_snapshot cs_inv_apply cs_inv_restore cs_inv_reset cs_inv_switches\<close>)

lemma cs_inv_calls: "ok seed \<Longrightarrow> cs_inv M ok s \<Longrightarrow> cs_inv M ok (run_cs_calls M seed calls s)"
  unfolding run_cs_calls_def by (induction calls arbitrary: s) (simp_all add: cs_inv_call)

lemma cs_inv_reachable: "ok seed \<Longrightarrow> cs_inv M ok (run_cs_calls M seed calls config_store_empty)"
  by (rule cs_inv_calls) (simp_all add: cs_inv_def config_store_empty_def)

lemma snapshot_restores:
  assumes "ok seed" "cs_inv M ok s" "cfg_snapshot M seed hex now t s = (Inr sn, s1)"
    and "list_all (keeps_snapshot t (sn_snapshot_id sn)) calls"
  shows "\<exists>r s2. cfg_restore M t (sn_snapshot_id sn) (run_cs_calls M seed calls s1) = (Inr r, s2) \<and>
     rr_restored r \<and> rr_configuration_hash r = sha256_digest (JObj (cm_dump M (effective_configuration seed t s))) \<and>
     effective_configuration seed t s2 = effective_configuration seed t s"
proof -
  let ?c = "effective_configuration seed t s"
  obtain s' where g: "cfg_get_unlocked M seed t s = (Inr ?c, s')"
    using cfg_get_unlocked_eq [OF assms(1), of t s] by (auto split: if_splits)
  have c: "ok ?c" using effective_ok assms by blast
  from assms(3) have sn: "dget (cs_snapshots s1) (t, sn_snapshot_id sn) = Some sn" "sn_configuration sn = cm_dump M ?c"
    "sn_configuration_hash sn = sha256_digest (JObj (cm_dump M ?c))"
    unfolding cfg_snapshot_def Let_def bnd_def g by auto
  then have "dget (cs_snapshots (run_cs_calls M seed calls s1)) (t, sn_snapshot_id sn) = Some sn"
    by (simp only: snapshot_kept_calls [OF assms(4)])
  with sn c show ?thesis
    by (simp add: cfg_restore_def bnd_def put_configuration_def load_dump effective_configuration_def)
qed

lemma get_result: "ok seed \<Longrightarrow> fst (cfg_get M seed t s) = Inr (effective_configuration seed t s)"
  by (simp add: cfg_get_def cfg_get_unlocked_eq)

lemma snapshot_id:
  assumes "ok seed" shows "\<exists>sn s1. cfg_snapshot M seed hex now t s = (Inr sn, s1) \<and> sn_snapshot_id sn = ''snapshot_'' @ hex"
  using cfg_get_unlocked_eq [OF assms, of t s] unfolding cfg_snapshot_def Let_def bnd_def by simp

lemma snapshot_round_trip:
  assumes "ok seed" "list_all (keeps_snapshot t (''snapshot_'' @ hex)) calls"
  shows "let s = run_cs_calls M seed before config_store_empty;
             s1 = snd (cfg_snapshot M seed hex now t s);
             s2 = run_cs_calls M seed calls s1
    in \<exists>r s3 c. cfg_restore M t (''snapshot_'' @ hex) s2 = (Inr r, s3) \<and> rr_restored r \<and>
      fst (cfg_get M seed t s) = Inr c \<and> fst (cfg_get M seed t s3) = Inr c \<and>
      rr_configuration_hash r = sha256_digest (JObj (cm_dump M c))"
proof -
  let ?s = "run_cs_calls M seed before config_store_empty"
  obtain sn s1 where sn: "cfg_snapshot M seed hex now t ?s = (Inr sn, s1)" "sn_snapshot_id sn = ''snapshot_'' @ hex"
    using snapshot_id [OF assms(1)] by blast
  then obtain r s3 where "cfg_restore M t (sn_snapshot_id sn) (run_cs_calls M seed calls s1) = (Inr r, s3)" "rr_restored r"
    "rr_configuration_hash r = sha256_digest (JObj (cm_dump M (effective_configuration seed t ?s)))"
    "effective_configuration seed t s3 = effective_configuration seed t ?s"
    using snapshot_restores [OF assms(1) cs_inv_reachable [OF assms(1)] sn(1)] assms(2) by metis
  with sn assms(1) show ?thesis
    unfolding Let_def sn(1) snd_conv by (intro exI conjI) (assumption | simp add: get_result)+
qed

lemma apply_fresh_result:
  assumes "ok seed" "cs_inv M ok s" "field_patch_ok req"
    and "dget (cs_executions s) (t, fp_idempotency_key req) = None" "dget_or (cs_transient_failures s) t 0 = 0"
    and "cm_field M (effective_configuration seed t s) = fp_old_field req"
  shows "\<exists>c s'. cfg_apply M seed t req s = (Inr (fresh_result M req c), s') \<and> ok c \<and> cm_field M c = fp_new_field req \<and>
    effective_configuration seed t s' = c \<and> dget (cs_executions s') (t, fp_idempotency_key req) = Some (fresh_result M req c)"
proof -
  let ?c = "effective_configuration seed t s"
  obtain s' where g: "cfg_get_unlocked M seed t s = (Inr ?c, s')"
    using cfg_get_unlocked_eq [OF assms(1), of t s] by (auto split: if_splits)
  have "ok ?c" using effective_ok assms by blast
  then obtain c' where c': "cm_validate M (cm_patch M ?c (fp_new_field req)) = Some c'" "cm_field M c' = fp_new_field req"
    using patch_field [of ?c "fp_new_field req"] assms(3) by (auto simp: field_patch_ok_def)
  define s2 where "s2 = s'\<lparr>cs_configurations := dput t c' (cs_configurations s'),
    cs_executions := dput (t, fp_idempotency_key req) (fresh_result M req c') (cs_executions s')\<rparr>"
  from assms(4-6) have "cfg_apply M seed t req s = (Inr (fresh_result M req c'), s2)"
    unfolding cfg_apply_def apply_patch_def bnd_def g
    by (simp add: Let_def c' put_configuration_def record_execution_def fresh_result_def s2_def)
  moreover have "effective_configuration seed t s2 = c'" "dget (cs_executions s2) (t, fp_idempotency_key req) = Some (fresh_result M req c')"
    by (simp_all add: effective_configuration_def s2_def)
  ultimately show ?thesis using c' validate_ok [OF c'(1)] by blast
qed

lemma apply_fresh:
  assumes "ok seed" "cs_inv M ok s" "field_patch_ok req"
    and "dget (cs_executions s) (t, fp_idempotency_key req) = None" "dget_or (cs_transient_failures s) t 0 = 0"
    and "cm_field M (effective_configuration seed t s) = fp_old_field req"
  shows "\<exists>r s'. cfg_apply M seed t req s = (Inr r, s') \<and> \<not> pr_replayed r \<and>
    pr_before r = fp_old_field req \<and> pr_after r = fp_new_field req \<and>
    pr_configuration_hash r = sha256_digest (JObj (cm_dump M (effective_configuration seed t s'))) \<and>
    cm_field M (effective_configuration seed t s') = fp_new_field req \<and>
    cfg_apply M seed t req s' = (Inr (r\<lparr>pr_replayed := True\<rparr>), s')"
  using apply_fresh_result [OF assms] replayed by (fastforce simp: fresh_result_def)

end

text \<open>The seed of the CRM service.\<close>

definition crm_seed :: crm_configuration where
  "crm_seed = \<lparr>crm_system_id = ''crm-sync'', crm_source_field = ''customer_id'',
     crm_destination_field = ''external_customer_key'', crm_schema_version = 4, crm_status = ''healthy''\<rparr>"

definition demo_patch :: field_patch_request where
  "demo_patch = \<lparr>fp_old_field = ''customer_id'', fp_new_field = ''customer_uuid'', fp_idempotency_key = ''k1'',
     fp_change_id = ''chg_1'', fp_plan_hash = ''sha256:'' @ replicate 64 CHR ''a''\<rparr>"

lemma crm_seed_valid: "crm_valid crm_seed"
  by (simp add: crm_valid_def crm_strip_def crm_ok_def crm_seed_def strip_def is_whitespace_def nonempty_str_def)

lemma demo_patch_ok: "field_patch_ok demo_patch"
  unfolding field_patch_ok_def demo_patch_def by code_simp

text \<open>
  C14. Compensation restores the snapshotted configuration. Take any reachable CRM store, snapshot a tenant, let any
  calls follow (patches, restores of other snapshots, failure injections, resets of other tenants) that neither reset
  the tenant nor draw the snapshot's identifier again: restoring the snapshot succeeds, reports the digest of the
  configuration the tenant had when the snapshot was taken, and the tenant reads exactly that configuration.
\<close>

theorem crm_snapshot_round_trip:
  assumes "crm_valid seed" "list_all (keeps_snapshot t (''snapshot_'' @ hex)) calls"
  shows "let s = run_cs_calls crm_model seed before config_store_empty;
             s1 = snd (cfg_snapshot crm_model seed hex now t s);
             s2 = run_cs_calls crm_model seed calls s1
    in \<exists>r s3 c. cfg_restore crm_model t (''snapshot_'' @ hex) s2 = (Inr r, s3) \<and> rr_restored r \<and>
      fst (cfg_get crm_model seed t s) = Inr c \<and> fst (cfg_get crm_model seed t s3) = Inr c \<and>
      rr_configuration_hash r = sha256_digest (JObj (crm_dump c))"
  using crm.snapshot_round_trip [OF assms] by (simp add: crm_model_def)

theorem crm_snapshot_round_trip_witness:
  "\<exists>r. fst (cfg_restore crm_model ''t1'' ''snapshot_a'' (run_cs_calls crm_model crm_seed [CsApply ''t1'' demo_patch]
     (snd (cfg_snapshot crm_model crm_seed ''a'' 5 ''t1'' config_store_empty)))) = Inr r"
  using crm_snapshot_round_trip [OF crm_seed_valid, of "''t1''" "''a''" "[CsApply ''t1'' demo_patch]" "[]" 5]
  by (auto simp: Let_def run_cs_calls_def)

lemma analytics_snapshot_round_trip:
  assumes "analytics_valid seed" "list_all (keeps_snapshot t (''snapshot_'' @ hex)) calls"
  shows "let s = run_cs_calls analytics_model seed before config_store_empty;
             s1 = snd (cfg_snapshot analytics_model seed hex now t s);
             s2 = run_cs_calls analytics_model seed calls s1
    in \<exists>r s3 c. cfg_restore analytics_model t (''snapshot_'' @ hex) s2 = (Inr r, s3) \<and> rr_restored r \<and>
      fst (cfg_get analytics_model seed t s) = Inr c \<and> fst (cfg_get analytics_model seed t s3) = Inr c \<and>
      rr_configuration_hash r = sha256_digest (JObj (analytics_dump c))"
  using analytics.snapshot_round_trip [OF assms] by (simp add: analytics_model_def)

lemma support_snapshot_round_trip:
  assumes "support_valid seed" "list_all (keeps_snapshot t (''snapshot_'' @ hex)) calls"
  shows "let s = run_cs_calls support_model seed before config_store_empty;
             s1 = snd (cfg_snapshot support_model seed hex now t s);
             s2 = run_cs_calls support_model seed calls s1
    in \<exists>r s3 c. cfg_restore support_model t (''snapshot_'' @ hex) s2 = (Inr r, s3) \<and> rr_restored r \<and>
      fst (cfg_get support_model seed t s) = Inr c \<and> fst (cfg_get support_model seed t s3) = Inr c \<and>
      rr_configuration_hash r = sha256_digest (JObj (support_dump c))"
  using support.snapshot_round_trip [OF assms] by (simp add: support_model_def)

lemma crm_dumps: "cm_dump crm_model = crm_dump" "cm_field crm_model = crm_source_field"
  by (simp_all add: crm_model_def)

text \<open>
  A patch is applied once. On a reachable CRM store, a valid request whose key is new, whose tenant has no injected
  failure left and whose old field is the configured one succeeds: the source field becomes the new field and the result
  carries the digest of the new configuration. Sending the request again returns the same result marked as replayed and
  leaves the store as it is.
\<close>

theorem crm_patch_applied_once:
  assumes "crm_valid seed" "field_patch_ok req" "s = run_cs_calls crm_model seed before config_store_empty"
    and "dget (cs_executions s) (t, fp_idempotency_key req) = None" "dget_or (cs_transient_failures s) t 0 = 0"
    and "fst (cfg_get crm_model seed t s) = Inr c" "crm_source_field c = fp_old_field req"
  shows "\<exists>r s' c'. cfg_apply crm_model seed t req s = (Inr r, s') \<and> \<not> pr_replayed r \<and>
    pr_before r = fp_old_field req \<and> pr_after r = fp_new_field req \<and>
    fst (cfg_get crm_model seed t s') = Inr c' \<and> crm_source_field c' = fp_new_field req \<and>
    pr_configuration_hash r = sha256_digest (JObj (crm_dump c')) \<and>
    cfg_apply crm_model seed t req s' = (Inr (r\<lparr>pr_replayed := True\<rparr>), s')"
proof -
  have "cm_field crm_model (effective_configuration seed t s) = fp_old_field req"
    using assms(6,7) crm.get_result [OF assms(1), of t s] by (simp add: crm_model_def)
  from crm.apply_fresh [OF assms(1) _ assms(2) assms(4,5) this] crm.cs_inv_reachable [OF assms(1)] assms(3)
  have "\<exists>r s'. cfg_apply crm_model seed t req s = (Inr r, s') \<and> \<not> pr_replayed r \<and>
    pr_before r = fp_old_field req \<and> pr_after r = fp_new_field req \<and>
    pr_configuration_hash r = sha256_digest (JObj (crm_dump (effective_configuration seed t s'))) \<and>
    crm_source_field (effective_configuration seed t s') = fp_new_field req \<and>
    cfg_apply crm_model seed t req s' = (Inr (r\<lparr>pr_replayed := True\<rparr>), s')"
    by (simp add: crm_dumps)
  then show ?thesis by (auto simp: crm.get_result assms(1))
qed

theorem crm_patch_applied_once_witness:
  "\<exists>r s'. cfg_apply crm_model crm_seed ''t1'' demo_patch config_store_empty = (Inr r, s') \<and>
     cfg_apply crm_model crm_seed ''t1'' demo_patch s' = (Inr (r\<lparr>pr_replayed := True\<rparr>), s')"
proof -
  have "fst (cfg_get crm_model crm_seed ''t1'' config_store_empty) = Inr crm_seed"
    by (simp add: crm.get_result crm_seed_valid effective_configuration_def config_store_empty_def)
  from crm_patch_applied_once [OF crm_seed_valid demo_patch_ok, of config_store_empty "[]" "''t1''", OF _ _ _ this]
  show ?thesis
    by (auto simp: run_cs_calls_def config_store_empty_def demo_patch_def crm_seed_def)
qed

text \<open>
  Tenants are isolated: whatever calls other tenants make, a tenant's configuration, snapshots, recorded
  executions and injected failures stay the same, and so does what its next read or patch returns.
\<close>

theorem sandbox_tenant_isolation:
  assumes "list_all (\<lambda>call. cs_call_tenant call \<noteq> t) calls"
  shows "let s' = run_cs_calls M seed calls s in cs_view t s' = cs_view t s \<and>
    fst (cfg_get M seed t s') = fst (cfg_get M seed t s) \<and> fst (cfg_apply M seed t req s') = fst (cfg_apply M seed t req s)"
  using cs_view_others [OF assms, of M seed s]
  by (auto simp: Let_def cs_view_def cs_op_defs dget_or_def fun_eq_iff split: option.splits prod.splits sum.splits)

theorem sandbox_tenant_isolation_witness:
  "fst (cfg_get crm_model crm_seed ''t2'' (run_cs_calls crm_model crm_seed [CsApply ''t1'' demo_patch, CsReset ''t1'']
     config_store_empty)) = fst (cfg_get crm_model crm_seed ''t2'' config_store_empty)"
  using sandbox_tenant_isolation [of "''t2''" "[CsApply ''t1'' demo_patch, CsReset ''t1'']" crm_model crm_seed
    config_store_empty demo_patch] by (simp add: Let_def)

text \<open>
  The idempotency record survives compensation: when a key has been applied and a snapshot is then restored,
  sending the patch with the same key again reports the recorded success (marked as replayed) and leaves the restored
  configuration as it is, so a rolled-back patch cannot be applied again under its old key.
\<close>

theorem reapply_after_restore_replays:
  assumes "dget (cs_executions s) (t, fp_idempotency_key req) = Some r" "cfg_restore M t sid s = (Inr rr, s')"
  shows "cfg_apply M seed t req s' = (Inr (r\<lparr>pr_replayed := True\<rparr>), s')"
proof -
  have "cs_executions s' = cs_executions s"
    using assms(2) by (auto simp: cfg_restore_def bnd_def validated_def put_configuration_def split: option.splits if_splits)
  with assms(1) show ?thesis by (simp add: replayed)
qed

lemma demo_apply_restore:
  "\<exists>r s rr s'. dget (cs_executions s) (''t1'', ''k1'') = Some r \<and> pr_after r = ''customer_uuid'' \<and>
     cfg_restore crm_model ''t1'' ''snapshot_a'' s = (Inr rr, s') \<and> fst (cfg_get crm_model crm_seed ''t1'' s') = Inr crm_seed"
proof -
  define s1 where "s1 = snd (cfg_snapshot crm_model crm_seed ''a'' 5 ''t1'' config_store_empty)"
  have id: "strip ''customer_uuid'' = ''customer_uuid''" by (simp add: strip_def is_whitespace_def)
  have v: "CrmConfiguration_validate crm_seed = Some crm_seed"
    using crm_seed_valid by (simp add: CrmConfiguration_validate_def crm_valid_def)
  have c1: "dget (cs_configurations s1) ''t1'' = Some crm_seed" "cs_executions s1 = []" "cs_transient_failures s1 = []"
    by (simp_all add: s1_def cfg_snapshot_def cfg_get_unlocked_def copy_seed_def put_configuration_def bnd_def Let_def v
        crm_model_def config_store_empty_def)
  have "crm_valid (crm_seed\<lparr>crm_source_field := ''customer_uuid'', crm_schema_version := 5\<rparr>)"
    using crm_seed_valid id by (simp add: crm_valid_def crm_strip_def crm_ok_def crm_seed_def nonempty_str_def)
  then have w: "CrmConfiguration_validate (crm_seed\<lparr>crm_source_field := ''customer_uuid'', crm_schema_version := 5\<rparr>) =
      Some (crm_seed\<lparr>crm_source_field := ''customer_uuid'', crm_schema_version := 5\<rparr>)"
    by (simp add: CrmConfiguration_validate_def crm_valid_def)
  obtain r where r: "dget (cs_executions (run_cs_calls crm_model crm_seed [CsApply ''t1'' demo_patch] s1)) (''t1'', ''k1'') = Some r"
    "pr_after r = ''customer_uuid''"
    using c1 w by (simp add: run_cs_calls_def cfg_apply_def apply_patch_def cfg_get_unlocked_def bnd_def crm_model_def
        demo_patch_def crm_seed_def put_configuration_def record_execution_def Let_def)
  have "fst (cfg_get crm_model crm_seed ''t1'' config_store_empty) = Inr crm_seed"
    by (simp add: crm.get_result crm_seed_valid effective_configuration_def config_store_empty_def)
  with crm.snapshot_round_trip [OF crm_seed_valid, of "''t1''" "''a''" "[CsApply ''t1'' demo_patch]" "[]" 5] r
  show ?thesis unfolding s1_def by (simp add: Let_def run_cs_calls_def) blast
qed

theorem reapply_after_restore_replays_witness:
  "\<exists>r s. fst (cfg_apply crm_model crm_seed ''t1'' demo_patch s) = Inr r \<and> pr_after r = ''customer_uuid'' \<and>
     fst (cfg_get crm_model crm_seed ''t1'' s) = Inr crm_seed \<and>
     fst (cfg_get crm_model crm_seed ''t1'' (snd (cfg_apply crm_model crm_seed ''t1'' demo_patch s))) = Inr crm_seed"
proof -
  have k: "fp_idempotency_key demo_patch = ''k1''" by (simp add: demo_patch_def)
  obtain r s rr s' where *: "dget (cs_executions s) (''t1'', ''k1'') = Some r" "pr_after r = ''customer_uuid''"
    "cfg_restore crm_model ''t1'' ''snapshot_a'' s = (Inr rr, s')" "fst (cfg_get crm_model crm_seed ''t1'' s') = Inr crm_seed"
    using demo_apply_restore by blast
  have "dget (cs_executions s) (''t1'', fp_idempotency_key demo_patch) = Some r"
    unfolding k by (rule *(1))
  from reapply_after_restore_replays [OF this *(3), of crm_seed] *
  have "fst (cfg_apply crm_model crm_seed ''t1'' demo_patch s') = Inr (r\<lparr>pr_replayed := True\<rparr>) \<and>
    pr_after (r\<lparr>pr_replayed := True\<rparr>) = ''customer_uuid'' \<and>
    fst (cfg_get crm_model crm_seed ''t1'' (snd (cfg_apply crm_model crm_seed ''t1'' demo_patch s'))) = Inr crm_seed"
    by simp
  with *(4) show ?thesis by blast
qed

section \<open>Catalog compensation\<close>

lemma contract_load_dump: "contract_valid c \<Longrightarrow> contract_load (contract_dump c) = Some c"
  by (cases c) (auto simp: contract_load_def contract_dump_def contract_valid_def contract_fields_def dget_Cons Let_def)

lemma contract_for_version_Inr:
  "contract_for_version seed v s = (Inr c, s') \<longleftrightarrow> find (\<lambda>c. ac_version c = v) (seed_contracts seed) = Some c \<and> s' = s"
  by (auto simp: contract_for_version_def split: option.splits)

lemma find_version: "find (\<lambda>c. ac_version c = v) cs = Some c \<Longrightarrow> ac_version c = v \<and> c \<in> set cs"
  by (auto simp: find_Some_iff)

text \<open>
  The catalog is compensated exactly: after a snapshot, an activation of any version (successful, replayed or
  refused) is undone by restoring the snapshot, which makes the contract that was active before active again.
\<close>

theorem catalog_round_trip:
  assumes "list_all contract_valid (seed_contracts seed)" "active_contract seed t s = (Inr c, s)"
  shows "\<exists>sn s1 r s3. catalog_snapshot seed hex now t s = (Inr sn, s1) \<and>
    catalog_restore t (sn_snapshot_id sn) (snd (activate seed t req s1)) = (Inr r, s3) \<and>
    rr_configuration_hash r = sha256_digest (JObj (contract_dump c)) \<and> fst (active_contract seed t s3) = Inr c"
proof -
  define sn where "sn = \<lparr>sn_snapshot_id = ''snapshot_'' @ hex, sn_tenant_id = t, sn_system_id = ''customer-api'',
    sn_configuration = contract_dump c, sn_configuration_hash = sha256_digest (JObj (contract_dump c)), sn_created_at = now\<rparr>"
  define s1 where "s1 = s\<lparr>ct_snapshots := dput (t, sn_snapshot_id sn) sn (ct_snapshots s),
    ct_snapshot_tenants := dput (sn_snapshot_id sn) t (ct_snapshot_tenants s)\<rparr>"
  let ?s2 = "snd (activate seed t req s1)"
  let ?v = "dget_or (ct_active_versions s) t (seed_active_version seed)"
  from assms(2) have g: "find (\<lambda>c. ac_version c = ?v) (seed_contracts seed) = Some c"
    by (simp add: active_contract_def contract_for_version_Inr)
  then have f: "c \<in> set (seed_contracts seed)" "find (\<lambda>c'. ac_version c' = ac_version c) (seed_contracts seed) = Some c"
    using find_version [OF g] by simp_all
  with assms(1) have v: "contract_load (contract_dump c) = Some c" by (auto simp: list_all_iff contract_load_dump)
  have snap: "catalog_snapshot seed hex now t s = (Inr sn, s1)"
    unfolding catalog_snapshot_def bnd_def assms(2) by (simp add: sn_def s1_def Let_def)
  have "ct_snapshots ?s2 = ct_snapshots s1"
    by (auto simp: activate_def bnd_def contract_for_version_def Let_def split: option.splits)
  then have k: "dget (ct_snapshots ?s2) (t, sn_snapshot_id sn) = Some sn" by (simp add: s1_def)
  define s3 where "s3 = ?s2\<lparr>ct_active_versions := dput t (ac_version c) (ct_active_versions ?s2)\<rparr>"
  have "catalog_restore t (sn_snapshot_id sn) ?s2 = (Inr \<lparr>rr_system_id = ''customer-api'', rr_snapshot_id = sn_snapshot_id sn,
      rr_configuration_hash = sn_configuration_hash sn, rr_restored = True\<rparr>, s3)"
    unfolding catalog_restore_def k option.case bnd_def using v by (simp add: sn_def s3_def)
  moreover have "fst (active_contract seed t s3) = Inr c"
    using f by (simp add: active_contract_def s3_def dget_or_def contract_for_version_def)
  ultimately show ?thesis using snap by (auto simp: sn_def)
qed

definition demo_contract :: "string \<Rightarrow> string \<Rightarrow> api_contract" where
  "demo_contract v f = \<lparr>ac_api = ''customer-api'', ac_version = v, ac_identifier_field = f, ac_identifier_type = ''string'',
     ac_compatibility = ''current'', ac_owner = ''team://customer-platform''\<rparr>"

definition demo_catalog :: catalog_seed where
  "demo_catalog = \<lparr>seed_active_version = ''1.4.0'', seed_contracts = [demo_contract ''1.4.0'' ''customer_id'',
     demo_contract ''2.0.0'' ''customer_uuid''], seed_dependencies = []\<rparr>"

theorem catalog_round_trip_witness:
  "\<exists>sn s1 r s3. catalog_snapshot demo_catalog ''a'' 5 ''t1'' catalog_store_empty = (Inr sn, s1) \<and>
    catalog_restore ''t1'' (sn_snapshot_id sn) (snd (activate demo_catalog ''t1''
      \<lparr>ca_version = ''2.0.0'', ca_idempotency_key = ''k1'', ca_change_id = ''chg_1'', ca_plan_hash = []\<rparr> s1)) = (Inr r, s3) \<and>
    fst (active_contract demo_catalog ''t1'' s3) = Inr (demo_contract ''1.4.0'' ''customer_id'')"
proof -
  have "list_all contract_valid (seed_contracts demo_catalog)" by code_simp
  moreover have "active_contract demo_catalog ''t1'' catalog_store_empty = (Inr (demo_contract ''1.4.0'' ''customer_id''), catalog_store_empty)"
    by (simp add: active_contract_def contract_for_version_def demo_catalog_def catalog_store_empty_def demo_contract_def)
  ultimately show ?thesis using catalog_round_trip by blast
qed

end
