(* ===== verification/State_Machine.thy ===== *)
theory State_Machine
  imports Change_Store
begin

text \<open>
  \<^verbatim>\<open>packages/changeops-core/src/changeops_core/state_machine.py\<close>: the static graph of workflow
  states and \<^verbatim>\<open>StateTransitionService.transition\<close>, which moves a change along the graph with
  optimistic concurrency and one audit event per attempt. The service is written against the
  repository protocol, so its lemmas are proved once in the locale of the protocol.

  The clock and the audit-identifier factory are called once per transition; their values are
  arguments. The record updates a caller may pass are a record of the four supported fields and the
  list of unsupported field names.
\<close>

section \<open>The transition graph\<close>

fun allowed_targets :: "workflow_state \<Rightarrow> workflow_state set" where
  "allowed_targets WS_RECEIVED = {WS_SCREENING, WS_CANCELLED, WS_FAILED}"
| "allowed_targets WS_SCREENING = {WS_BLOCKED, WS_ANALYZING, WS_CANCELLED, WS_FAILED, WS_NEEDS_ATTENTION}"
| "allowed_targets WS_BLOCKED = {WS_SCREENING, WS_CANCELLED, WS_NEEDS_ATTENTION}"
| "allowed_targets WS_ANALYZING = {WS_PLAN_READY, WS_BLOCKED, WS_CANCELLED, WS_FAILED, WS_NEEDS_ATTENTION}"
| "allowed_targets WS_PLAN_READY = {WS_AWAITING_APPROVAL, WS_EXECUTING, WS_ANALYZING, WS_CANCELLED, WS_NEEDS_ATTENTION}"
| "allowed_targets WS_AWAITING_APPROVAL = {WS_APPROVED, WS_REJECTED, WS_CANCELLED, WS_NEEDS_ATTENTION}"
| "allowed_targets WS_APPROVED = {WS_EXECUTING, WS_CANCELLED, WS_NEEDS_ATTENTION}"
| "allowed_targets WS_REJECTED = {WS_ANALYZING, WS_CANCELLED}"
| "allowed_targets WS_EXECUTING = {WS_VERIFYING, WS_ROLLING_BACK, WS_FAILED, WS_PARTIAL, WS_NEEDS_ATTENTION}"
| "allowed_targets WS_VERIFYING = {WS_COMPLETED, WS_ROLLING_BACK, WS_FAILED, WS_PARTIAL, WS_NEEDS_ATTENTION}"
| "allowed_targets WS_ROLLING_BACK = {WS_FAILED, WS_PARTIAL, WS_CANCELLED, WS_NEEDS_ATTENTION}"
| "allowed_targets WS_NEEDS_ATTENTION = {WS_SCREENING, WS_ANALYZING, WS_AWAITING_APPROVAL, WS_EXECUTING,
     WS_VERIFYING, WS_ROLLING_BACK, WS_FAILED, WS_CANCELLED}"
| "allowed_targets WS_COMPLETED = {}"
| "allowed_targets WS_FAILED = {}"
| "allowed_targets WS_PARTIAL = {}"
| "allowed_targets WS_CANCELLED = {}"

definition can_transition :: "workflow_state \<Rightarrow> workflow_state \<Rightarrow> bool" where
  "can_transition current target \<longleftrightarrow> target \<in> allowed_targets current"

section \<open>The transition service\<close>

datatype clock_value = Naive int | Aware instant

datatype transition_error =
    Persistence persistence_error
  | ValueError string
  | ValidationError
  | InvalidStateTransitionError workflow_state workflow_state string

record record_updates =
  ru_workflow_execution_id :: "string option option"
  ru_plan_version :: "int option"
  ru_plan_hash :: "string option option"
  ru_risk_level :: "risk_level option"
  ru_unsupported :: "string list"

definition no_updates :: record_updates where
  "no_updates = \<lparr>ru_workflow_execution_id = None, ru_plan_version = None, ru_plan_hash = None,
     ru_risk_level = None, ru_unsupported = []\<rparr>"

record transition_args =
  ta_tenant_id :: string
  ta_change_id :: string
  ta_target :: workflow_state
  ta_expected_version :: int
  ta_trace_id :: string
  ta_actor_type :: actor_type
  ta_actor_id :: string
  ta_updates :: record_updates

definition present :: "string \<Rightarrow> ('a \<Rightarrow> json) \<Rightarrow> 'a option \<Rightarrow> (string \<times> json) list" where
  "present name f x = (case x of None \<Rightarrow> [] | Some v \<Rightarrow> [(name, f v)])"

definition updates_json :: "record_updates \<Rightarrow> json" where
  "updates_json u = JObj (present ''workflow_execution_id'' (opt_json JStr) (ru_workflow_execution_id u) @
     present ''plan_version'' JInt (ru_plan_version u) @
     present ''plan_hash'' (opt_json JStr) (ru_plan_hash u) @
     present ''risk_level'' (\<lambda>r. JStr (risk_value r)) (ru_risk_level u))"

definition dflt :: "'a option \<Rightarrow> 'a \<Rightarrow> 'a" where
  "dflt x d = (case x of None \<Rightarrow> d | Some y \<Rightarrow> y)"

fun join_sep :: "string \<Rightarrow> string list \<Rightarrow> string" where
  "join_sep sep [] = ''''"
| "join_sep sep [x] = x"
| "join_sep sep (x # xs) = x @ sep @ join_sep sep xs"

definition input_document :: "transition_args \<Rightarrow> change_record \<Rightarrow> json" where
  "input_document a current = JObj [(''change_id'', JStr (ta_change_id a)),
     (''current'', JStr (state_value (cr_status current))),
     (''expected_version'', JInt (ta_expected_version a)),
     (''record_updates'', updates_json (ta_updates a)),
     (''target'', JStr (state_value (ta_target a))), (''tenant_id'', JStr (ta_tenant_id a))]"

definition updated_document :: "transition_args \<Rightarrow> change_record \<Rightarrow> instant \<Rightarrow> change_record" where
  "updated_document a current transitioned_at = (let u = ta_updates a in
     current\<lparr>cr_workflow_execution_id := dflt (ru_workflow_execution_id u) (cr_workflow_execution_id current),
       cr_plan_version := dflt (ru_plan_version u) (cr_plan_version current),
       cr_plan_hash := dflt (ru_plan_hash u) (cr_plan_hash current),
       cr_risk_level := dflt (ru_risk_level u) (cr_risk_level current),
       cr_status := ta_target a, cr_current_phase := ta_target a, cr_updated_at := transitioned_at,
       cr_version := ta_expected_version a + 1\<rparr>)"

definition build_audit_event ::
  "string \<Rightarrow> change_record \<Rightarrow> transition_args \<Rightarrow> string \<Rightarrow> string \<Rightarrow> audit_status \<Rightarrow> instant \<Rightarrow> audit_event option" where
  "build_audit_event audit_id current a input_hash output_hash status created_at =
     AuditEvent_validate \<lparr>ae_audit_event_id = audit_id, ae_tenant_id = cr_tenant_id current,
       ae_change_id = cr_change_id current, ae_trace_id = ta_trace_id a,
       ae_event_type = ''WORKFLOW_STATE_TRANSITION_'' @
         (if status = Audit_SUCCESS then ''SUCCEEDED'' else ''REJECTED''),
       ae_actor_type = ta_actor_type a, ae_actor_id = ta_actor_id a,
       ae_resource = ''changes/'' @ cr_change_id current, ae_action = ''transition_state'',
       ae_decision_id = None, ae_input_hash = input_hash, ae_output_hash = output_hash, ae_status = status,
       ae_redacted_summary = ''Workflow transition '' @ state_value (cr_status current) @ '' to '' @
         state_value (ta_target a) @ '' '' @ audit_status_value status @ ''.'',
       ae_created_at = created_at\<rparr>"

definition conflict_document :: "audit_event \<Rightarrow> change_record \<Rightarrow> transition_args \<Rightarrow> int \<Rightarrow> int \<Rightarrow> audit_event" where
  "conflict_document audit_event current a expected actual = audit_event\<lparr>
     ae_event_type := ''WORKFLOW_STATE_TRANSITION_REJECTED'',
     ae_output_hash := sha256_digest (JObj [(''actual_version'', JInt actual),
       (''expected_version'', JInt expected), (''reason'', JStr ''optimistic_concurrency_conflict'')]),
     ae_status := Audit_REJECTED,
     ae_redacted_summary := ''Workflow transition '' @ state_value (cr_status current) @ '' to '' @
       state_value (ta_target a) @ '' rejected.''\<rparr>"

definition reject_transition ::
  "'s change_repository_ops \<Rightarrow> string \<Rightarrow> transition_args \<Rightarrow> change_record \<Rightarrow> instant \<Rightarrow>
   ('s, transition_error, change_record) op" where
  "reject_transition R audit_id a current transitioned_at =
     bnd (validated ValidationError (build_audit_event audit_id current a
        (sha256_digest (input_document a current))
        (sha256_digest (JObj [(''reason'', JStr ''invalid_transition'')])) Audit_REJECTED transitioned_at)) (\<lambda>audit_event.
     bnd (wrap_err Persistence (repo_record_audit R audit_event)) (\<lambda>_.
     raise (InvalidStateTransitionError (cr_status current) (ta_target a) (ae_audit_event_id audit_event))))"

definition on_conflict ::
  "'s change_repository_ops \<Rightarrow> audit_event \<Rightarrow> change_record \<Rightarrow> transition_args \<Rightarrow> transition_error \<Rightarrow>
   ('s, transition_error, unit) op" where
  "on_conflict R audit_event current a error = (case error of
     Persistence (OptimisticConcurrencyError cid expected actual) \<Rightarrow>
       bnd (validated ValidationError (AuditEvent_validate
          (conflict_document audit_event current a expected actual))) (\<lambda>conflict.
       bnd (wrap_err Persistence (repo_record_audit R conflict)) (\<lambda>_. raise error))
   | _ \<Rightarrow> raise error)"

definition perform_transition ::
  "(instant \<Rightarrow> string) \<Rightarrow> 's change_repository_ops \<Rightarrow> string \<Rightarrow> transition_args \<Rightarrow> change_record \<Rightarrow> instant \<Rightarrow>
   ('s, transition_error, change_record) op" where
  "perform_transition iso_text R audit_id a current transitioned_at =
     bnd (validated ValidationError (ChangeRecord_validate (updated_document a current transitioned_at))) (\<lambda>updated.
     bnd (validated ValidationError (build_audit_event audit_id current a
        (sha256_digest (input_document a current)) (sha256_digest (change_record_json iso_text updated))
        Audit_SUCCESS transitioned_at)) (\<lambda>audit_event.
     bnd (catch (wrap_err Persistence (repo_commit_transition R updated audit_event (ta_expected_version a)))
        (on_conflict R audit_event current a)) (\<lambda>_.
     ret updated)))"

definition transition ::
  "(instant \<Rightarrow> string) \<Rightarrow> 's change_repository_ops \<Rightarrow> clock_value \<Rightarrow> string \<Rightarrow> transition_args \<Rightarrow>
   ('s, transition_error, change_record) op" where
  "transition iso_text R now audit_id a =
     bnd (wrap_err Persistence (repo_get R (ta_tenant_id a) (ta_change_id a))) (\<lambda>current.
       case now of
         Naive _ \<Rightarrow> raise (ValueError ''State transition clock must return a timezone-aware datetime.'')
       | Aware transitioned_at \<Rightarrow>
           if transitioned_at < cr_updated_at current
           then raise (ValueError ''State transition clock cannot move updated_at backwards.'')
           else if ru_unsupported (ta_updates a) \<noteq> []
           then raise (ValueError (''Unsupported transition record updates: '' @
             join_sep '', '' (sort (remdups (ru_unsupported (ta_updates a))))))
           else if \<not> can_transition (cr_status current) (ta_target a)
           then reject_transition R audit_id a current transitioned_at
           else perform_transition iso_text R audit_id a current transitioned_at)"

section \<open>Facts about the graph\<close>

definition terminal_state :: "workflow_state \<Rightarrow> bool" where
  "terminal_state w \<longleftrightarrow> w \<in> {WS_COMPLETED, WS_FAILED, WS_PARTIAL, WS_CANCELLED}"

lemma terminal_state_iff: "terminal_state w \<longleftrightarrow> allowed_targets w = {}"
  by (cases w) (simp_all add: terminal_state_def)

lemma no_self_transition: "\<not> can_transition w w"
  by (cases w) (simp_all add: can_transition_def)

text \<open>Runs of the graph: the states a change passes through.\<close>

inductive reaches :: "workflow_state \<Rightarrow> workflow_state \<Rightarrow> bool" for start where
  reaches_start: "reaches start start"
| reaches_step: "reaches start v \<Longrightarrow> can_transition v w \<Longrightarrow> reaches start w"

inductive_cases reaches_stepE: "reaches start w"

lemma reaches_trans: "reaches v w \<Longrightarrow> reaches u v \<Longrightarrow> reaches u w"
  by (induction rule: reaches.induct) (auto intro: reaches.intros)

lemma reaches_one: "can_transition v w \<Longrightarrow> reaches v w"
  by (blast intro: reaches.intros)

lemma reaches_terminal: "reaches v w \<Longrightarrow> terminal_state v \<Longrightarrow> w = v"
  by (induction rule: reaches.induct) (auto simp: terminal_state_iff can_transition_def)

lemma can_stop: "\<exists>w. terminal_state w \<and> reaches v w"
proof -
  have cancel: "terminal_state WS_CANCELLED" and failed: "terminal_state WS_FAILED"
    by (simp_all add: terminal_state_def)
  have "terminal_state v \<or> can_transition v WS_CANCELLED \<or> can_transition v WS_FAILED"
    by (cases v) (simp_all add: terminal_state_def can_transition_def)
  then show ?thesis using cancel failed reaches_start reaches_one by blast
qed

text \<open>A gate: every run from outside a region into it crosses one of the region's entry edges.\<close>

lemma reaches_crosses:
  assumes "reaches u w" "\<not> P u" "P w"
  shows "\<exists>v v'. reaches u v \<and> \<not> P v \<and> can_transition v v' \<and> P v' \<and> reaches v' w"
  using assms
proof (induction rule: reaches.induct)
  case (reaches_step v w)
  show ?case
  proof (cases "P v")
    case True
    with reaches_step.IH reaches_step.prems obtain x x' where
      x: "reaches u x" "\<not> P x" "can_transition x x'" "P x'" "reaches x' v" by blast
    from x(5) reaches_step.hyps(2) have "reaches x' w" by (rule reaches.reaches_step)
    with x show ?thesis by blast
  next
    case False
    with reaches_step.hyps reaches_step.prems reaches_start [of w] show ?thesis by blast
  qed
qed blast

section \<open>The service over any repository\<close>

definition all_valid :: "(change_key \<Rightarrow> change_record option) \<Rightarrow> bool" where
  "all_valid m \<longleftrightarrow> (\<forall>k r. m k = Some r \<longrightarrow> change_record_ok r)"

lemma all_valid_upd: "all_valid m \<Longrightarrow> change_record_ok r \<Longrightarrow> all_valid (m(k \<mapsto> r))"
  by (simp add: all_valid_def del: split_paired_All)

lemma strip_audit_event_simps:
  "ae_audit_event_id (strip_audit_event e) = strip (ae_audit_event_id e)"
  "ae_tenant_id (strip_audit_event e) = strip (ae_tenant_id e)"
  "ae_change_id (strip_audit_event e) = strip (ae_change_id e)"
  "ae_status (strip_audit_event e) = ae_status e"
  "ae_created_at (strip_audit_event e) = ae_created_at e"
  "ae_actor_id (strip_audit_event e) = strip (ae_actor_id e)"
  "ae_input_hash (strip_audit_event e) = strip (ae_input_hash e)"
  "ae_output_hash (strip_audit_event e) = strip (ae_output_hash e)"
  by (simp_all add: strip_audit_event_def)

lemma strip_change_record_ids:
  "cr_tenant_id (strip_change_record r) = strip (cr_tenant_id r)"
  "cr_change_id (strip_change_record r) = strip (cr_change_id r)"
  "cr_status (strip_change_record r) = cr_status r"
  "cr_version (strip_change_record r) = cr_version r"
  "cr_updated_at (strip_change_record r) = cr_updated_at r"
  "cr_created_at (strip_change_record r) = cr_created_at r"
  by (simp_all add: strip_change_record_def)

lemma change_record_ok_ids:
  assumes "change_record_ok r"
  shows "strip (cr_tenant_id r) = cr_tenant_id r" "strip (cr_change_id r) = cr_change_id r"
  using strip_change_record_ids(1,2) [of r] change_record_okD(1) [OF assms] by simp_all

lemma validated_update:
  assumes "ChangeRecord_validate (updated_document a cur now) = Some r" "change_record_ok cur"
  shows "change_key r = change_key cur" "cr_status r = ta_target a" "cr_version r = ta_expected_version a + 1"
    "cr_updated_at r = now" "cr_created_at r = cr_created_at cur" "change_record_ok r"
proof -
  from assms(1) have r: "r = strip_change_record (updated_document a cur now)"
    by (auto simp: ChangeRecord_validate_def Let_def split: if_splits)
  show "change_key r = change_key cur" "cr_status r = ta_target a" "cr_version r = ta_expected_version a + 1"
    "cr_updated_at r = now" "cr_created_at r = cr_created_at cur"
    by (simp_all add: r change_key_def strip_change_record_ids updated_document_def Let_def
        change_record_ok_ids [OF assms(2)])
  from assms(1) show "change_record_ok r" by (rule ChangeRecord_validate_ok)
qed

lemma built_audit:
  assumes "build_audit_event i cur a ih oh st now = Some e" "change_record_ok cur"
  shows "ae_tenant_id e = cr_tenant_id cur" "ae_change_id e = cr_change_id cur" "ae_status e = st"
    "ae_created_at e = now" "ae_audit_event_id e = strip i" "ae_actor_id e = strip (ta_actor_id a)"
    "is_sha256_digest ih \<Longrightarrow> ae_input_hash e = ih" "is_sha256_digest oh \<Longrightarrow> ae_output_hash e = oh"
  using assms
  by (auto simp: build_audit_event_def AuditEvent_validate_def Let_def strip_audit_event_simps
      change_record_ok_ids strip_digest split: if_splits)

text \<open>The rejection that replaces a conflicting success differs from it in four fields, all valid.\<close>

lemma strip_audit_event_update:
  "strip_audit_event (e\<lparr>ae_event_type := x, ae_output_hash := y, ae_status := st, ae_redacted_summary := z\<rparr>) =
     (strip_audit_event e)\<lparr>ae_event_type := strip x, ae_output_hash := strip y, ae_status := st,
        ae_redacted_summary := strip z\<rparr>"
  by (simp add: strip_audit_event_def)

lemma audit_fields_update:
  "audit_event_fields_ok e \<Longrightarrow> nonempty_str x \<Longrightarrow> is_sha256_digest y \<Longrightarrow> nonempty_str z \<Longrightarrow>
   audit_event_fields_ok (e\<lparr>ae_event_type := x, ae_output_hash := y, ae_status := st, ae_redacted_summary := z\<rparr>)"
  by (simp add: audit_event_fields_ok_def)

lemma AuditEvent_validate_update:
  fixes st
  assumes "AuditEvent_validate e = Some e" "strip x = x" "strip z = z" "nonempty_str x" "nonempty_str z"
    "is_sha256_digest y"
  defines "e' \<equiv> e\<lparr>ae_event_type := x, ae_output_hash := y, ae_status := st, ae_redacted_summary := z\<rparr>"
  shows "AuditEvent_validate e' = Some e'"
proof -
  from assms(1) have e: "strip_audit_event e = e" "audit_event_fields_ok e"
    by (auto simp: AuditEvent_validate_def Let_def split: if_splits)
  have "strip_audit_event e' = e'"
    unfolding e'_def strip_audit_event_update e(1) by (simp only: assms strip_digest)
  moreover have "audit_event_fields_ok e'"
    unfolding e'_def by (rule audit_fields_update) (use assms e(2) in auto)
  ultimately show ?thesis by (simp add: AuditEvent_validate_def)
qed

lemma length_state_value: "length (state_value w) \<le> 20"
  by (cases w) simp_all

lemma conflict_validates:
  assumes "build_audit_event i cur a ih oh st now = Some e"
  shows "AuditEvent_validate (conflict_document e cur a x y) = Some (conflict_document e cur a x y)"
proof -
  from assms have e: "AuditEvent_validate e = Some e"
    unfolding build_audit_event_def by (rule AuditEvent_validate_idem)
  let ?sum = "''Workflow transition '' @ state_value (cr_status cur) @ '' to '' @ state_value (ta_target a) @ '' rejected.''"
  have "strip ?sum = ?sum" by (rule strip_no_ws_ends) (simp_all add: is_whitespace_def)
  moreover have "nonempty_str ?sum"
    using length_state_value [of "cr_status cur"] length_state_value [of "ta_target a"]
    by (simp add: nonempty_str_def)
  moreover have "strip ''WORKFLOW_STATE_TRANSITION_REJECTED'' = ''WORKFLOW_STATE_TRANSITION_REJECTED''"
    by (rule strip_no_ws_ends) (simp_all add: is_whitespace_def)
  moreover have "nonempty_str ''WORKFLOW_STATE_TRANSITION_REJECTED''" by (simp add: nonempty_str_def)
  ultimately show ?thesis
    unfolding conflict_document_def using e by (intro AuditEvent_validate_update) simp_all
qed

text \<open>
  What one audited attempt leaves: at most one new audit event, and the changes as they were unless
  the attempt succeeded.
\<close>

definition audited ::
  "(string \<times> string \<Rightarrow> audit_event option) \<Rightarrow> audit_status \<Rightarrow> change_record \<Rightarrow> instant \<Rightarrow>
   (string \<times> string \<Rightarrow> audit_event option) \<Rightarrow> bool" where
  "audited m st cur now m' \<longleftrightarrow> (\<exists>e. m (audit_key e) = None \<and> m' = m(audit_key e \<mapsto> e) \<and> ae_status e = st \<and>
     ae_tenant_id e = cr_tenant_id cur \<and> ae_change_id e = cr_change_id cur \<and> ae_created_at e = now)"

definition rejected_only ::
  "(string \<times> string \<Rightarrow> audit_event option) \<Rightarrow> change_record \<Rightarrow> instant \<Rightarrow>
   (string \<times> string \<Rightarrow> audit_event option) \<Rightarrow> bool" where
  "rejected_only m cur now m' \<longleftrightarrow> m' = m \<or> audited m Audit_REJECTED cur now m'"

context change_repository
begin

lemma record_audit_cases:
  assumes "inv s" "changes s (ae_tenant_id e, ae_change_id e) = Some cur" "ae_status e = Audit_REJECTED"
    "ae_tenant_id e = cr_tenant_id cur" "ae_change_id e = cr_change_id cur" "ae_created_at e = now"
  obtains s' where "repo_record_audit R e s = (Inr (), s')" "inv s'" "changes s' = changes s"
      "audited (audits s) Audit_REJECTED cur now (audits s')"
    | x where "repo_record_audit R e s = (Inl x, s)"
proof (cases "audits s (audit_key e)")
  case None
  from audit_ok [OF assms(1,2) None] obtain s' where
    "repo_record_audit R e s = (Inr (), s')" "inv s'" "changes s' = changes s"
    "audits s' = (audits s)(audit_key e \<mapsto> e)" by blast
  moreover from this None assms have "audited (audits s) Audit_REJECTED cur now (audits s')"
    unfolding audited_def by blast
  ultimately show ?thesis using that(1) by blast
next
  case (Some x)
  with audit_reused [OF assms(1,2)] show ?thesis by (intro that(2)) auto
qed

lemma reject_transition_frame:
  assumes "inv s" "changes s (change_key cur) = Some cur" "change_record_ok cur"
    "reject_transition R i a cur now s = (res, s')"
  shows "inv s' \<and> changes s' = changes s \<and> rejected_only (audits s) cur now (audits s') \<and> (\<exists>x. res = Inl x)"
proof -
  let ?b = "build_audit_event i cur a (sha256_digest (input_document a cur))
    (sha256_digest (JObj [(''reason'', JStr ''invalid_transition'')])) Audit_REJECTED now"
  show ?thesis
  proof (cases ?b)
    case None
    with assms show ?thesis by (auto simp: reject_transition_def bnd_def rejected_only_def)
  next
    case (Some e)
    note e = built_audit [OF Some assms(3)]
    from assms(2) e have "changes s (ae_tenant_id e, ae_change_id e) = Some cur"
      by (simp add: change_key_def)
    with assms(1) show ?thesis
      by (rule record_audit_cases [of s e cur now])
        (use Some e assms(1,4) in \<open>auto simp: reject_transition_def bnd_def wrap_err_def rejected_only_def\<close>)
  qed
qed

text \<open>An attempt on an edge that is not in the graph, with a fresh audit identifier.\<close>

lemma reject_transition_audited:
  assumes "inv s" "changes s (change_key cur) = Some cur" "change_record_ok cur"
    and b: "build_audit_event i cur a (sha256_digest (input_document a cur))
      (sha256_digest (JObj [(''reason'', JStr ''invalid_transition'')])) Audit_REJECTED now = Some e"
    and fresh: "audits s (audit_key e) = None"
  shows "\<exists>s'. reject_transition R i a cur now s =
      (Inl (InvalidStateTransitionError (cr_status cur) (ta_target a) (ae_audit_event_id e)), s') \<and>
    inv s' \<and> changes s' = changes s \<and> audits s' = (audits s)(audit_key e \<mapsto> e)"
proof -
  note e = built_audit [OF b assms(3)]
  from assms(2) e have "changes s (ae_tenant_id e, ae_change_id e) = Some cur"
    by (simp add: change_key_def)
  from audit_ok [OF assms(1) this fresh] b show ?thesis
    by (auto simp: reject_transition_def bnd_def wrap_err_def)
qed

lemma perform_transition_cases:
  assumes I: "inv s" and C: "changes s (change_key cur) = Some cur" and ok: "change_record_ok cur"
    and run: "perform_transition iso_text R i a cur now s = (res, s')"
  shows "case res of Inl x \<Rightarrow> inv s' \<and> changes s' = changes s \<and> rejected_only (audits s) cur now (audits s')
    | Inr r \<Rightarrow> ta_expected_version a = cr_version cur \<and> inv s' \<and> changes s' = (changes s)(change_key cur \<mapsto> r) \<and>
        audited (audits s) Audit_SUCCESS cur now (audits s') \<and>
        cr_status r = ta_target a \<and> cr_version r = cr_version cur + 1 \<and> cr_updated_at r = now \<and>
        change_record_ok r \<and> change_key r = change_key cur"
proof (cases "ChangeRecord_validate (updated_document a cur now)")
  case None
  with run I show ?thesis by (auto simp: perform_transition_def bnd_def rejected_only_def)
next
  case (Some r)
  note r = validated_update [OF Some ok]
  let ?b = "build_audit_event i cur a (sha256_digest (input_document a cur))
    (sha256_digest (change_record_json iso_text r)) Audit_SUCCESS now"
  show ?thesis
  proof (cases ?b)
    case None
    with Some run I show ?thesis by (auto simp: perform_transition_def bnd_def rejected_only_def)
  next
    case B: (Some e)
    note e = built_audit [OF B ok]
    have scope: "audit_scope_ok r e" using e r(1) by (simp add: audit_scope_ok_def change_key_def)
    have Cr: "changes s (change_key r) = Some cur" using C r by simp
    have res: "(res, s') = bnd (catch (wrap_err Persistence (repo_commit_transition R r e (ta_expected_version a)))
        (on_conflict R e cur a)) (\<lambda>_. ret r) s"
      using run Some B by (simp add: perform_transition_def bnd_def)
    show ?thesis
    proof (cases "audits s (audit_key e)")
      case (Some x)
      with commit_reused_audit [OF I Cr scope] res I show ?thesis
        by (auto simp: bnd_def catch_def wrap_err_def on_conflict_def rejected_only_def)
    next
      case fresh: None
      show ?thesis
      proof (cases "cr_version cur = ta_expected_version a")
        case True
        from commit_ok [OF I Cr scope fresh True r(3)] obtain s1 where
          s1: "repo_commit_transition R r e (ta_expected_version a) s = (Inr (), s1)" "inv s1"
            "changes s1 = (changes s)(change_key r \<mapsto> r)" "audits s1 = (audits s)(audit_key e \<mapsto> e)" by blast
        from res s1(1) have "res = Inr r" "s' = s1" by (simp_all add: bnd_def catch_def wrap_err_def)
        moreover have "audited (audits s) Audit_SUCCESS cur now (audits s1)"
          unfolding audited_def using s1(4) fresh e by blast
        ultimately show ?thesis using s1 r True by simp
      next
        case False
        let ?c = "conflict_document e cur a (ta_expected_version a) (cr_version cur)"
        have c: "ae_tenant_id ?c = cr_tenant_id cur" "ae_change_id ?c = cr_change_id cur"
          "ae_status ?c = Audit_REJECTED" "ae_created_at ?c = now"
          using e by (simp_all add: conflict_document_def)
        from res commit_conflict [OF I Cr scope fresh False] conflict_validates [OF B]
        have res': "(res, s') = bnd (bnd (wrap_err Persistence (repo_record_audit R ?c)) (\<lambda>_. raise
            (Persistence (OptimisticConcurrencyError (cr_change_id r) (ta_expected_version a) (cr_version cur)))))
            (\<lambda>_ :: unit. ret r) s"
          by (simp add: bnd_def catch_def wrap_err_def on_conflict_def)
        have "changes s (ae_tenant_id ?c, ae_change_id ?c) = Some cur" using C c by (simp add: change_key_def)
        with I show ?thesis
          by (rule record_audit_cases [of s ?c cur now])
            (use c res' I in \<open>auto simp: bnd_def wrap_err_def rejected_only_def\<close>)
      qed
    qed
  qed
qed

lemma transition_cases:
  assumes I: "inv s" and V: "all_valid (changes s)"
    and run: "transition iso_text R clock i a s = (res, s')"
  shows "case res of
      Inl x \<Rightarrow> inv s' \<and> changes s' = changes s \<and>
        (audits s' = audits s \<or> (\<exists>cur now. audited (audits s) Audit_REJECTED cur now (audits s')))
    | Inr r \<Rightarrow> \<exists>cur now. clock = Aware now \<and> changes s (ta_tenant_id a, ta_change_id a) = Some cur \<and>
        cr_updated_at cur \<le> now \<and> can_transition (cr_status cur) (ta_target a) \<and>
        ta_expected_version a = cr_version cur \<and> inv s' \<and>
        changes s' = (changes s)((ta_tenant_id a, ta_change_id a) \<mapsto> r) \<and>
        audited (audits s) Audit_SUCCESS cur now (audits s') \<and> cr_status r = ta_target a \<and>
        cr_version r = cr_version cur + 1 \<and> cr_updated_at r = now \<and> change_record_ok r"
proof (cases "changes s (ta_tenant_id a, ta_change_id a)")
  case None
  from get_missing [OF I None] obtain e where "repo_get R (ta_tenant_id a) (ta_change_id a) s = (Inl e, s)"
    by blast
  with run I show ?thesis by (auto simp: transition_def bnd_def wrap_err_def)
next
  case (Some cur)
  have key: "change_key cur = (ta_tenant_id a, ta_change_id a)" by (rule keys [OF I Some])
  have ok: "change_record_ok cur" using V Some by (auto simp: all_valid_def)
  note run' = run [unfolded transition_def bnd_def wrap_err_def get_found [OF I Some], simplified]
  show ?thesis
  proof (cases clock)
    case (Naive x)
    with run' I show ?thesis by auto
  next
    case (Aware now)
    let ?ok = "cr_updated_at cur \<le> now \<and> ru_unsupported (ta_updates a) = []"
    consider "\<not> ?ok" | "?ok" "\<not> can_transition (cr_status cur) (ta_target a)"
      | "?ok" "can_transition (cr_status cur) (ta_target a)" by blast
    then show ?thesis
    proof cases
      case 1
      with run' Aware I show ?thesis by (auto split: if_splits)
    next
      case 2
      with run' Aware have "reject_transition R i a cur now s = (res, s')" by simp
      from reject_transition_frame [OF I _ ok this] Some key show ?thesis
        by (auto simp: rejected_only_def)
    next
      case 3
      with run' Aware have "perform_transition iso_text R i a cur now s = (res, s')" by simp
      from perform_transition_cases [OF I _ ok this] Some key 3 Aware show ?thesis
        by (cases res) (auto simp: rejected_only_def)
    qed
  qed
qed

lemma transition_invalid_edge:
  assumes I: "inv s" and C: "changes s (ta_tenant_id a, ta_change_id a) = Some cur" and ok: "change_record_ok cur"
    and pre: "cr_updated_at cur \<le> now" "ru_unsupported (ta_updates a) = []"
      "\<not> can_transition (cr_status cur) (ta_target a)"
    and b: "build_audit_event i cur a (sha256_digest (input_document a cur))
      (sha256_digest (JObj [(''reason'', JStr ''invalid_transition'')])) Audit_REJECTED now = Some e"
    and fresh: "audits s (audit_key e) = None"
  shows "\<exists>s'. transition iso_text R (Aware now) i a s =
      (Inl (InvalidStateTransitionError (cr_status cur) (ta_target a) (ae_audit_event_id e)), s') \<and>
    inv s' \<and> changes s' = changes s \<and> audits s' = (audits s)(audit_key e \<mapsto> e)"
proof -
  have "changes s (change_key cur) = Some cur" using C keys [OF I C] by simp
  from reject_transition_audited [OF I this ok b fresh] get_found [OF I C] pre show ?thesis
    by (auto simp: transition_def bnd_def wrap_err_def)
qed

lemma transition_conflict:
  assumes I: "inv s" and C: "changes s (ta_tenant_id a, ta_change_id a) = Some cur" and ok: "change_record_ok cur"
    and pre: "cr_updated_at cur \<le> now" "ru_unsupported (ta_updates a) = []"
      "can_transition (cr_status cur) (ta_target a)"
    and stale: "cr_version cur \<noteq> ta_expected_version a"
    and r: "ChangeRecord_validate (updated_document a cur now) = Some r"
    and b: "build_audit_event i cur a (sha256_digest (input_document a cur))
      (sha256_digest (change_record_json iso_text r)) Audit_SUCCESS now = Some e"
    and fresh: "audits s (audit_key e) = None"
  shows "\<exists>s'. transition iso_text R (Aware now) i a s = (Inl (Persistence
      (OptimisticConcurrencyError (cr_change_id cur) (ta_expected_version a) (cr_version cur))), s') \<and>
    inv s' \<and> changes s' = changes s \<and> audited (audits s) Audit_REJECTED cur now (audits s')"
proof -
  note rk = validated_update [OF r ok] and ek = built_audit [OF b ok]
  have Cr: "changes s (change_key r) = Some cur" using C keys [OF I C] rk(1) by simp
  have scope: "audit_scope_ok r e" using ek rk(1) by (simp add: audit_scope_ok_def change_key_def)
  let ?c = "conflict_document e cur a (ta_expected_version a) (cr_version cur)"
  have c: "ae_tenant_id ?c = cr_tenant_id cur" "ae_change_id ?c = cr_change_id cur" "audit_key ?c = audit_key e"
    "ae_status ?c = Audit_REJECTED" "ae_created_at ?c = now"
    using ek by (simp_all add: conflict_document_def audit_key_def)
  have "changes s (ae_tenant_id ?c, ae_change_id ?c) = Some cur"
    using C keys [OF I C] c by (simp add: change_key_def)
  from audit_ok [OF I this] fresh c obtain s' where
    s': "repo_record_audit R ?c s = (Inr (), s')" "inv s'" "changes s' = changes s"
      "audits s' = (audits s)(audit_key ?c \<mapsto> ?c)" by (auto simp: c)
  have "audited (audits s) Audit_REJECTED cur now (audits s')"
    unfolding audited_def using s'(4) fresh c by (intro exI [of _ ?c]) simp
  moreover have "cr_change_id r = cr_change_id cur" using rk(1) by (simp add: change_key_def)
  ultimately show ?thesis
    using get_found [OF I C] pre r b s' conflict_validates [OF b] commit_conflict [OF I Cr scope fresh stale]
    by (simp add: transition_def perform_transition_def on_conflict_def bnd_def wrap_err_def catch_def)
qed

lemma transition_succeeds:
  assumes I: "inv s" and C: "changes s (ta_tenant_id a, ta_change_id a) = Some cur" and ok: "change_record_ok cur"
    and pre: "cr_updated_at cur \<le> now" "ru_unsupported (ta_updates a) = []"
      "can_transition (cr_status cur) (ta_target a)" "cr_version cur = ta_expected_version a"
    and r: "ChangeRecord_validate (updated_document a cur now) = Some r"
    and b: "build_audit_event i cur a (sha256_digest (input_document a cur))
      (sha256_digest (change_record_json iso_text r)) Audit_SUCCESS now = Some e"
    and fresh: "audits s (audit_key e) = None"
  shows "\<exists>s'. transition iso_text R (Aware now) i a s = (Inr r, s') \<and> inv s' \<and>
    changes s' = (changes s)(change_key cur \<mapsto> r) \<and> audits s' = (audits s)(audit_key e \<mapsto> e)"
proof -
  note rk = validated_update [OF r ok] and ek = built_audit [OF b ok]
  have Cr: "changes s (change_key r) = Some cur" using C keys [OF I C] rk(1) by simp
  have scope: "audit_scope_ok r e" using ek rk(1) by (simp add: audit_scope_ok_def change_key_def)
  from commit_ok [OF I Cr scope fresh pre(4) rk(3)] get_found [OF I C] pre r b rk(1) show ?thesis
    by (auto simp: transition_def perform_transition_def bnd_def wrap_err_def catch_def)
qed

lemma transition_invariants:
  assumes "inv s" "all_valid (changes s)"
  shows "inv (snd (transition iso_text R clock i a s))" "all_valid (changes (snd (transition iso_text R clock i a s)))"
proof -
  obtain res s' where run: "transition iso_text R clock i a s = (res, s')" by fastforce
  from transition_cases [OF assms run] assms(2) have "inv s' \<and> all_valid (changes s')"
    by (cases res) (auto simp: all_valid_upd)
  with run show "inv (snd (transition iso_text R clock i a s))" "all_valid (changes (snd (transition iso_text R clock i a s)))"
    by simp_all
qed

text \<open>One attempt, whoever makes it and on whichever change, moves a given change by at most one edge.\<close>

lemma transition_moves:
  assumes "inv s" "all_valid (changes s)" "changes s k = Some cur"
  shows "\<exists>cur'. changes (snd (transition iso_text R clock i a s)) k = Some cur' \<and>
    (cur' = cur \<or> can_transition (cr_status cur) (cr_status cur') \<and> cr_version cur' = cr_version cur + 1)"
proof -
  obtain res s' where run: "transition iso_text R clock i a s = (res, s')" by fastforce
  from transition_cases [OF assms(1,2) run] assms(3) show ?thesis
    unfolding run snd_conv by (cases res) auto
qed

end

text \<open>A sequence of attempts, of any callers, each with its clock value, audit identifier and arguments.\<close>

type_synonym attempt = "clock_value \<times> string \<times> transition_args"

definition run_attempts ::
  "(instant \<Rightarrow> string) \<Rightarrow> 's change_repository_ops \<Rightarrow> attempt list \<Rightarrow> 's \<Rightarrow> 's" where
  "run_attempts iso_text R xs s = fold (\<lambda>(clock, i, a) s. snd (transition iso_text R clock i a s)) xs s"

lemma run_attempts_simps [simp]:
  "run_attempts iso_text R [] s = s"
  "run_attempts iso_text R ((clock, i, a) # xs) s = run_attempts iso_text R xs (snd (transition iso_text R clock i a s))"
  by (simp_all add: run_attempts_def)

context change_repository
begin

lemma run_attempts_invariants:
  assumes "inv s" "all_valid (changes s)"
  shows "inv (run_attempts iso_text R xs s) \<and> all_valid (changes (run_attempts iso_text R xs s))"
  using assms
proof (induction xs arbitrary: s)
  case (Cons x xs)
  show ?case using Cons.IH [OF transition_invariants [OF Cons.prems]] by (cases x) simp
qed simp

lemma run_attempts_moves:
  assumes "inv s" "all_valid (changes s)" "changes s k = Some cur"
  shows "\<exists>cur'. changes (run_attempts iso_text R xs s) k = Some cur' \<and>
    reaches (cr_status cur) (cr_status cur') \<and> cr_version cur \<le> cr_version cur' \<and>
    (cr_version cur' = cr_version cur \<longrightarrow> cur' = cur) \<and> (terminal_state (cr_status cur) \<longrightarrow> cur' = cur)"
  using assms
proof (induction xs arbitrary: s cur)
  case Nil
  then show ?case by (auto intro: reaches_start)
next
  case (Cons x xs)
  obtain clock i a where x: "x = (clock, i, a)" by (cases x)
  let ?s = "snd (transition iso_text R clock i a s)"
  from transition_moves [OF Cons.prems] obtain c1 where
    c1: "changes ?s k = Some c1"
      "c1 = cur \<or> can_transition (cr_status cur) (cr_status c1) \<and> cr_version c1 = cr_version cur + 1" by blast
  from Cons.IH [OF transition_invariants [OF Cons.prems(1,2)] c1(1)] obtain c2 where
    c2: "changes (run_attempts iso_text R xs ?s) k = Some c2" "reaches (cr_status c1) (cr_status c2)"
      "cr_version c1 \<le> cr_version c2" "cr_version c2 = cr_version c1 \<longrightarrow> c2 = c1"
      "terminal_state (cr_status c1) \<longrightarrow> c2 = c1" by blast
  have "reaches (cr_status cur) (cr_status c1)" using c1(2) reaches_one reaches_start by metis
  with c2(2) have "reaches (cr_status cur) (cr_status c2)" by (rule reaches_trans)
  with c1 c2 show ?case by (auto simp: x terminal_state_iff can_transition_def)
qed

text \<open>An expected version is accepted at most once: a second attempt with it fails, whatever happened between.\<close>

lemma no_lost_update:
  assumes I: "inv s" "all_valid (changes s)"
    and first: "transition iso_text R clock i a s = (Inr r, s')"
    and again: "transition iso_text R clock' i' b (run_attempts iso_text R xs s') = (res, s'')"
    and same: "ta_tenant_id b = ta_tenant_id a" "ta_change_id b = ta_change_id a"
      "ta_expected_version b = ta_expected_version a"
  shows "\<exists>x. res = Inl x \<and> changes s'' = changes (run_attempts iso_text R xs s')"
proof -
  let ?k = "(ta_tenant_id a, ta_change_id a)" and ?t = "run_attempts iso_text R xs s'"
  from transition_cases [OF I first] have r: "changes s' ?k = Some r" "cr_version r = ta_expected_version a + 1"
    by auto
  note I' = transition_invariants [OF I, of iso_text clock i a, unfolded first snd_conv]
  from run_attempts_moves [OF I' r(1)] obtain c where
    c: "changes ?t ?k = Some c" "cr_version r \<le> cr_version c" by blast
  from run_attempts_invariants [OF I'] have It: "inv ?t" "all_valid (changes ?t)" by auto
  from transition_cases [OF It again] c r(2) same show ?thesis by (cases res) auto
qed

end

section \<open>Properties of the service on the in-memory repository\<close>

text \<open>A concrete change and store on which the properties are exercised.\<close>

definition demo_change :: change_record where
  "demo_change = \<lparr>cr_change_id = ''c1'', cr_tenant_id = ''t1'', cr_event_id = ''e1'', cr_change_type = ''schema'',
     cr_title = ''title'', cr_description = ''text'',
     cr_source = \<lparr>src_type = ''github'', src_external_id = ''x1'', src_url = ''https://example.com/''\<rparr>,
     cr_environment = Env_SANDBOX, cr_status = WS_RECEIVED, cr_risk_level = RL_UNKNOWN,
     cr_current_phase = WS_RECEIVED, cr_workflow_execution_id = None, cr_plan_version = 0, cr_plan_hash = None,
     cr_created_at = 0, cr_updated_at = 0, cr_created_by = ''user'', cr_version = 1\<rparr>"

definition demo_store :: mem_repo where
  "demo_store = snd (mem_add demo_change mem_empty)"

definition demo_args :: "workflow_state \<Rightarrow> int \<Rightarrow> transition_args" where
  "demo_args w v = \<lparr>ta_tenant_id = ''t1'', ta_change_id = ''c1'', ta_target = w, ta_expected_version = v,
     ta_trace_id = ''tr'', ta_actor_type = Actor_SERVICE, ta_actor_id = ''svc'', ta_updates = no_updates\<rparr>"

lemma demo_ok: "change_record_ok demo_change"
  by code_simp

lemma demo_store_inv: "mem_inv demo_store"
  unfolding demo_store_def by (rule preserves_snd [OF mem_add_preserves mem_inv_empty])

lemma demo_store_changes: "mem_changes_of demo_store k = (if k = (''t1'', ''c1'') then Some demo_change else None)"
  by (simp add: mem_abs demo_store_def mem_add_eq mem_empty_def change_key_def demo_change_def)

lemma demo_store_audits: "mem_audits_of demo_store k = None"
  by (simp add: mem_abs demo_store_def mem_add_eq mem_empty_def)

lemma demo_store_valid: "all_valid (mem_changes_of demo_store)"
  by (auto simp: all_valid_def demo_store_changes demo_ok)

lemma demo_build:
  assumes "is_sha256_digest ih" "is_sha256_digest oh"
  shows "\<exists>e. build_audit_event ''a1'' demo_change (demo_args w v) ih oh st now = Some e"
proof -
  let ?sum = "''Workflow transition '' @ state_value WS_RECEIVED @ '' to '' @ state_value w @ '' '' @
    audit_status_value st @ ''.''"
  have sum: "strip ?sum = ?sum" by (rule strip_no_ws_ends) (simp_all add: is_whitespace_def)
  have "length (audit_status_value st) \<le> 8" by (cases st) simp_all
  with length_state_value [of w] have "nonempty_str ?sum" by (simp add: nonempty_str_def)
  moreover have "list_all (\<lambda>x. strip x = x \<and> nonempty_str x) [''a1'', ''t1'', ''c1'', ''tr'', ''svc'',
    ''changes/'' @ ''c1'', ''transition_state'', ''WORKFLOW_STATE_TRANSITION_'' @ ''SUCCEEDED'',
    ''WORKFLOW_STATE_TRANSITION_'' @ ''REJECTED'']"
    by code_simp
  ultimately show ?thesis using sum assms
    by (cases st) (simp_all add: build_audit_event_def AuditEvent_validate_def Let_def demo_change_def demo_args_def
        audit_event_fields_ok_def strip_audit_event_def strip_digest del: append_Cons state_value.simps(1))
qed

lemma demo_update: "\<exists>r. ChangeRecord_validate (updated_document (demo_args WS_SCREENING v) demo_change 5) = Some r"
  if "v \<in> {1, 2}"
proof -
  have "ChangeRecord_validate (updated_document (demo_args WS_SCREENING 1) demo_change 5) \<noteq> None"
    "ChangeRecord_validate (updated_document (demo_args WS_SCREENING 2) demo_change 5) \<noteq> None"
    by code_simp+
  with that show ?thesis by auto
qed

text \<open>
  A transition that returns has found the change in its tenant, at the expected version, on an
  edge of the graph, with a clock that does not run backwards; it replaces exactly that change by a
  valid record in the target state with the next version, and stores exactly one new audit event of
  that change, a success, in the same step. Nothing else in the store changes.
\<close>

theorem transition_commits:
  assumes "mem_inv s" "all_valid (mem_changes_of s)" "transition iso_text mem_ops clock i a s = (Inr r, s')"
  shows "\<exists>cur now. clock = Aware now \<and> mem_changes_of s (ta_tenant_id a, ta_change_id a) = Some cur \<and>
      cr_updated_at cur \<le> now \<and> can_transition (cr_status cur) (ta_target a) \<and>
      ta_expected_version a = cr_version cur \<and> mem_inv s' \<and>
      mem_changes_of s' = (mem_changes_of s)((ta_tenant_id a, ta_change_id a) \<mapsto> r) \<and>
      audited (mem_audits_of s) Audit_SUCCESS cur now (mem_audits_of s') \<and> cr_status r = ta_target a \<and>
      cr_version r = cr_version cur + 1 \<and> cr_updated_at r = now \<and> change_record_ok r"
  using mem.transition_cases [OF assms] by (simp only: sum.case)

lemma demo_transition:
  "\<exists>r s'. transition demo_iso mem_ops (Aware 5) ''a1'' (demo_args WS_SCREENING 1) demo_store = (Inr r, s') \<and> mem_inv s'"
proof -
  from demo_update [of 1] obtain r where
    r: "ChangeRecord_validate (updated_document (demo_args WS_SCREENING 1) demo_change 5) = Some r" by auto
  from demo_build [of "sha256_digest (input_document (demo_args WS_SCREENING 1) demo_change)"
      "sha256_digest (change_record_json demo_iso r)" WS_SCREENING 1 Audit_SUCCESS 5] obtain e where
    e: "build_audit_event ''a1'' demo_change (demo_args WS_SCREENING 1)
      (sha256_digest (input_document (demo_args WS_SCREENING 1) demo_change))
      (sha256_digest (change_record_json demo_iso r)) Audit_SUCCESS 5 = Some e" by auto
  have "mem_changes_of demo_store (ta_tenant_id (demo_args WS_SCREENING 1), ta_change_id (demo_args WS_SCREENING 1))
      = Some demo_change"
    by (simp add: demo_store_changes demo_args_def)
  from mem.transition_succeeds [OF demo_store_inv this demo_ok _ _ _ _ r e demo_store_audits] show ?thesis
    by (auto simp: demo_change_def demo_args_def no_updates_def can_transition_def)
qed

theorem transition_commits_witness:
  "\<exists>r s'. transition demo_iso mem_ops (Aware 5) ''a1'' (demo_args WS_SCREENING 1) demo_store = (Inr r, s') \<and>
     cr_status r = WS_SCREENING \<and> cr_version r = 2"
proof -
  from demo_transition obtain r s' where
    t: "transition demo_iso mem_ops (Aware 5) ''a1'' (demo_args WS_SCREENING 1) demo_store = (Inr r, s')" by blast
  from transition_commits [OF demo_store_inv demo_store_valid t] show ?thesis
    using t by (auto simp: demo_args_def)
qed

text \<open>
  An attempt along an edge that is not in the graph raises \<^verbatim>\<open>InvalidStateTransitionError\<close> after
  the rejection has been stored: the store gains exactly the rejected audit event named by the
  exception, and no change record is touched.
\<close>

theorem transition_invalid_audited:
  assumes "mem_inv s" "mem_changes_of s (ta_tenant_id a, ta_change_id a) = Some cur" "change_record_ok cur"
    "cr_updated_at cur \<le> now" "ru_unsupported (ta_updates a) = []"
    "\<not> can_transition (cr_status cur) (ta_target a)"
    "build_audit_event i cur a (sha256_digest (input_document a cur))
      (sha256_digest (JObj [(''reason'', JStr ''invalid_transition'')])) Audit_REJECTED now = Some e"
    "mem_audits_of s (audit_key e) = None"
  shows "\<exists>s'. transition iso_text mem_ops (Aware now) i a s =
      (Inl (InvalidStateTransitionError (cr_status cur) (ta_target a) (ae_audit_event_id e)), s') \<and>
    mem_inv s' \<and> mem_changes_of s' = mem_changes_of s \<and> ae_status e = Audit_REJECTED \<and>
    mem_audits_of s' = (mem_audits_of s)(audit_key e \<mapsto> e)"
  using mem.transition_invalid_edge [OF assms] built_audit(3) [OF assms(7,3)] by blast

theorem transition_invalid_audited_witness:
  "\<exists>x s'. transition demo_iso mem_ops (Aware 5) ''a1'' (demo_args WS_COMPLETED 1) demo_store =
     (Inl (InvalidStateTransitionError WS_RECEIVED WS_COMPLETED x), s') \<and>
   mem_changes_of s' = mem_changes_of demo_store"
proof -
  let ?a = "demo_args WS_COMPLETED 1"
  from demo_build [of "sha256_digest (input_document ?a demo_change)"
      "sha256_digest (JObj [(''reason'', JStr ''invalid_transition'')])" WS_COMPLETED 1 Audit_REJECTED 5]
  obtain e where e: "build_audit_event ''a1'' demo_change ?a (sha256_digest (input_document ?a demo_change))
      (sha256_digest (JObj [(''reason'', JStr ''invalid_transition'')])) Audit_REJECTED 5 = Some e" by auto
  have "mem_changes_of demo_store (ta_tenant_id ?a, ta_change_id ?a) = Some demo_change"
    by (simp add: demo_store_changes demo_args_def)
  from transition_invalid_audited [OF demo_store_inv this demo_ok _ _ _ e demo_store_audits, of demo_iso]
  show ?thesis by (auto simp: demo_change_def demo_args_def no_updates_def can_transition_def)
qed

text \<open>
  An attempt on an allowed edge with a stale expected version raises
  \<^verbatim>\<open>OptimisticConcurrencyError\<close> carrying the expected and the stored version; the store keeps every
  change and gains exactly one audit event, a rejection of that change.
\<close>

theorem transition_stale_version:
  assumes "mem_inv s" "mem_changes_of s (ta_tenant_id a, ta_change_id a) = Some cur" "change_record_ok cur"
    "cr_updated_at cur \<le> now" "ru_unsupported (ta_updates a) = []"
    "can_transition (cr_status cur) (ta_target a)" "cr_version cur \<noteq> ta_expected_version a"
    "ChangeRecord_validate (updated_document a cur now) = Some r"
    "build_audit_event i cur a (sha256_digest (input_document a cur))
      (sha256_digest (change_record_json iso_text r)) Audit_SUCCESS now = Some e"
    "mem_audits_of s (audit_key e) = None"
  shows "\<exists>s'. transition iso_text mem_ops (Aware now) i a s = (Inl (Persistence
      (OptimisticConcurrencyError (cr_change_id cur) (ta_expected_version a) (cr_version cur))), s') \<and>
    mem_inv s' \<and> mem_changes_of s' = mem_changes_of s \<and>
    audited (mem_audits_of s) Audit_REJECTED cur now (mem_audits_of s')"
  by (rule mem.transition_conflict [OF assms])

theorem transition_stale_version_witness:
  "\<exists>s'. transition demo_iso mem_ops (Aware 5) ''a1'' (demo_args WS_SCREENING 2) demo_store =
     (Inl (Persistence (OptimisticConcurrencyError ''c1'' 2 1)), s') \<and> mem_changes_of s' = mem_changes_of demo_store"
proof -
  let ?a = "demo_args WS_SCREENING 2"
  from demo_update [of 2] obtain r where
    r: "ChangeRecord_validate (updated_document ?a demo_change 5) = Some r" by auto
  from demo_build [of "sha256_digest (input_document ?a demo_change)"
      "sha256_digest (change_record_json demo_iso r)" WS_SCREENING 2 Audit_SUCCESS 5] obtain e where
    e: "build_audit_event ''a1'' demo_change ?a (sha256_digest (input_document ?a demo_change))
      (sha256_digest (change_record_json demo_iso r)) Audit_SUCCESS 5 = Some e" by auto
  have "mem_changes_of demo_store (ta_tenant_id ?a, ta_change_id ?a) = Some demo_change"
    by (simp add: demo_store_changes demo_args_def)
  from transition_stale_version [OF demo_store_inv this demo_ok _ _ _ _ r e demo_store_audits]
  show ?thesis by (auto simp: demo_change_def demo_args_def no_updates_def can_transition_def)
qed

text \<open>
  No lost update: once a transition with some expected version has succeeded on a change, no later
  transition with the same expected version on that change succeeds or alters any record, whatever
  transitions of any callers ran in between.
\<close>

theorem expected_version_used_once:
  assumes "mem_inv s" "all_valid (mem_changes_of s)"
    "transition iso_text mem_ops clock i a s = (Inr r, s')"
    "transition iso_text mem_ops clock' i' b (run_attempts iso_text mem_ops xs s') = (res, s'')"
    "ta_tenant_id b = ta_tenant_id a" "ta_change_id b = ta_change_id a"
    "ta_expected_version b = ta_expected_version a"
  shows "\<exists>x. res = Inl x \<and> mem_changes_of s'' = mem_changes_of (run_attempts iso_text mem_ops xs s')"
  by (rule mem.no_lost_update [OF assms])

theorem expected_version_used_once_witness:
  "\<exists>r s'. transition demo_iso mem_ops (Aware 5) ''a1'' (demo_args WS_SCREENING 1) demo_store = (Inr r, s') \<and>
     (\<exists>x. fst (transition demo_iso mem_ops (Aware 6) ''a2'' (demo_args WS_CANCELLED 1) s') = Inl x)"
proof -
  from demo_transition obtain r s' where
    t: "transition demo_iso mem_ops (Aware 5) ''a1'' (demo_args WS_SCREENING 1) demo_store = (Inr r, s')" by blast
  from expected_version_used_once [OF demo_store_inv demo_store_valid t, where xs = "[]" and clock' = "Aware 6"
      and i' = "''a2''" and b = "demo_args WS_CANCELLED 1", OF surjective_pairing [of "transition _ _ _ _ _ _"]]
  show ?thesis using t by (auto simp: demo_args_def)
qed

text \<open>
  C7. Whatever sequence of attempts any callers make, a stored change stays stored, its state moves only
  along the graph, its version never decreases, and a change in a terminal state (completed, failed,
  partial or cancelled) is never altered again.
\<close>

theorem history_follows_graph:
  assumes "mem_inv s" "all_valid (mem_changes_of s)" "mem_changes_of s k = Some cur"
  shows "\<exists>cur'. mem_changes_of (run_attempts iso_text mem_ops xs s) k = Some cur' \<and>
    reaches (cr_status cur) (cr_status cur') \<and> cr_version cur \<le> cr_version cur' \<and>
    (terminal_state (cr_status cur) \<longrightarrow> cur' = cur)"
  using mem.run_attempts_moves [OF assms, of iso_text xs] by blast

theorem history_follows_graph_witness:
  "\<exists>cur'. mem_changes_of (run_attempts demo_iso mem_ops [(Aware 5, ''a1'', demo_args WS_SCREENING 1)] demo_store)
     (''t1'', ''c1'') = Some cur' \<and> reaches WS_RECEIVED (cr_status cur') \<and> 1 \<le> cr_version cur'"
proof -
  have "mem_changes_of demo_store (''t1'', ''c1'') = Some demo_change" by (simp add: demo_store_changes)
  from history_follows_graph [OF demo_store_inv demo_store_valid this,
      of demo_iso "[(Aware 5, ''a1'', demo_args WS_SCREENING 1)]"]
  show ?thesis by (auto simp: demo_change_def)
qed

text \<open>
  Gates of the graph. Every run from a newly received change to completion enters completion from
  verification; execution is entered only from an approved change, from a ready plan or by an operator
  out of the attention state; and from every state some terminal state remains reachable.
\<close>

theorem graph_gates:
  "(can_transition v WS_COMPLETED \<longleftrightarrow> v = WS_VERIFYING) \<and>
   (can_transition v WS_EXECUTING \<longleftrightarrow> v \<in> {WS_PLAN_READY, WS_APPROVED, WS_NEEDS_ATTENTION}) \<and>
   (can_transition v WS_APPROVED \<longleftrightarrow> v = WS_AWAITING_APPROVAL) \<and>
   (allowed_targets v = {} \<longleftrightarrow> terminal_state v) \<and>
   (\<exists>w. terminal_state w \<and> reaches v w)"
  using can_stop [of v] by (cases v) (simp_all add: can_transition_def terminal_state_def)

end
