(* ===== verification/Workflow_Store.thy ===== *)
theory Workflow_Store
  imports State_Machine
begin

text \<open>
  The durable records of \<^verbatim>\<open>services/workflow-coordinator\<close>: the error classes of \<^verbatim>\<open>errors.py\<close>, the task,
  execution and dead-letter records of \<^verbatim>\<open>models.py\<close> with their validators, the retry decision of
  \<^verbatim>\<open>retry.py\<close> and the in-memory repository of \<^verbatim>\<open>repository.py\<close>.

  The event and the plan inside a workflow record are values of validated contract models; validating the record
  again returns them unchanged, so the validator of the record looks at its own fields and at the relation between
  record, event and plan.
\<close>

section \<open>Errors\<close>

datatype workflow_error =
    DependencyCallError string bool
  | WorkflowTransientError string
  | WorkflowPermanentError string
  | WorkflowNotFoundError
  | WorkflowConflictError string
  | CallbackAuthenticationError
  | ChangeStoreError persistence_error
  | TransitionFailed transition_error
  | WorkflowValidationError
  | UnexpectedError
  | OutOfFuel

text \<open>The status the coordinator answers with; errors without a handler become 500.\<close>

fun workflow_status_code :: "workflow_error \<Rightarrow> nat" where
  "workflow_status_code (WorkflowTransientError _) = 503"
| "workflow_status_code (WorkflowPermanentError _) = 409"
| "workflow_status_code WorkflowNotFoundError = 404"
| "workflow_status_code (WorkflowConflictError _) = 409"
| "workflow_status_code CallbackAuthenticationError = 401"
| "workflow_status_code _ = 500"

definition stale_version :: workflow_error where
  "stale_version = WorkflowConflictError ''The workflow version is stale.''"

section \<open>Records\<close>

datatype workflow_runtime_status =
    WR_RECEIVED | WR_ANALYZING | WR_WAITING_APPROVAL | WR_EXECUTING | WR_VERIFYING | WR_ROLLING_BACK
  | WR_COMPLETED | WR_FAILED | WR_NEEDS_ATTENTION | WR_DEAD_LETTERED

datatype workflow_task_status = WT_PENDING | WT_RUNNING | WT_SUCCEEDED | WT_FAILED | WT_ROLLED_BACK | WT_ROLLBACK_FAILED

datatype sandbox_system = Sys_crm | Sys_analytics | Sys_support

fun system_value :: "sandbox_system \<Rightarrow> string" where
  "system_value Sys_crm = ''crm''"
| "system_value Sys_analytics = ''analytics''"
| "system_value Sys_support = ''support''"

record workflow_task =
  wt_step_id :: string
  wt_system_id :: sandbox_system
  wt_status :: workflow_task_status
  wt_attempt_count :: int
  wt_snapshot_id :: "string option"
  wt_snapshot_hash :: "string option"
  wt_execution_id :: "string option"
  wt_output_hash :: "string option"
  wt_error_code :: "string option"
  wt_updated_at :: instant

definition strip_task :: "workflow_task \<Rightarrow> workflow_task" where
  "strip_task t = t\<lparr>wt_step_id := strip (wt_step_id t), wt_snapshot_id := map_option strip (wt_snapshot_id t),
     wt_snapshot_hash := map_option strip (wt_snapshot_hash t), wt_execution_id := map_option strip (wt_execution_id t),
     wt_output_hash := map_option strip (wt_output_hash t), wt_error_code := map_option strip (wt_error_code t)\<rparr>"

definition task_fields_ok :: "workflow_task \<Rightarrow> bool" where
  "task_fields_ok t \<longleftrightarrow> nonempty_str (wt_step_id t) \<and> 0 \<le> wt_attempt_count t \<and>
     opt_ok nonempty_str (wt_snapshot_id t) \<and> opt_ok is_sha256_digest (wt_snapshot_hash t) \<and>
     opt_ok nonempty_str (wt_execution_id t) \<and> opt_ok is_sha256_digest (wt_output_hash t) \<and>
     opt_ok nonempty_str (wt_error_code t)"

definition validate_artifacts :: "workflow_task \<Rightarrow> bool" where
  "validate_artifacts t \<longleftrightarrow> (wt_snapshot_id t = None) = (wt_snapshot_hash t = None) \<and>
     (wt_status t = WT_SUCCEEDED \<longrightarrow> wt_execution_id t \<noteq> None \<and> wt_output_hash t \<noteq> None) \<and>
     (wt_status t \<in> {WT_FAILED, WT_ROLLBACK_FAILED} \<longrightarrow> wt_error_code t \<noteq> None)"

definition WorkflowTaskRecord_validate :: "workflow_task \<Rightarrow> workflow_task option" where
  "WorkflowTaskRecord_validate t = (let t' = strip_task t in
     if task_fields_ok t' \<and> validate_artifacts t' then Some t' else None)"

record workflow_execution =
  wf_workflow_execution_id :: string
  wf_tenant_id :: string
  wf_change_id :: string
  wf_event_id :: string
  wf_trace_id :: string
  wf_event :: change_event
  wf_status :: workflow_runtime_status
  wf_delivery_attempts :: int
  wf_plan :: "remediation_plan option"
  wf_plan_hash :: "string option"
  wf_approval_id :: "string option"
  wf_approval_expires_at :: "instant option"
  wf_tasks :: "workflow_task list"
  wf_last_error_code :: "string option"
  wf_started_at :: instant
  wf_updated_at :: instant
  wf_completed_at :: "instant option"
  wf_version :: int

definition strip_workflow :: "workflow_execution \<Rightarrow> workflow_execution" where
  "strip_workflow r = r\<lparr>wf_workflow_execution_id := strip (wf_workflow_execution_id r), wf_tenant_id := strip (wf_tenant_id r),
     wf_change_id := strip (wf_change_id r), wf_event_id := strip (wf_event_id r), wf_trace_id := strip (wf_trace_id r),
     wf_plan_hash := map_option strip (wf_plan_hash r), wf_approval_id := map_option strip (wf_approval_id r),
     wf_tasks := map strip_task (wf_tasks r), wf_last_error_code := map_option strip (wf_last_error_code r)\<rparr>"

definition workflow_fields_ok :: "workflow_execution \<Rightarrow> bool" where
  "workflow_fields_ok r \<longleftrightarrow> nonempty_str (wf_workflow_execution_id r) \<and> nonempty_str (wf_tenant_id r) \<and>
     nonempty_str (wf_change_id r) \<and> nonempty_str (wf_event_id r) \<and> nonempty_str (wf_trace_id r) \<and>
     1 \<le> wf_delivery_attempts r \<and> opt_ok is_sha256_digest (wf_plan_hash r) \<and> opt_ok nonempty_str (wf_approval_id r) \<and>
     list_all (\<lambda>t. task_fields_ok t \<and> validate_artifacts t) (wf_tasks r) \<and>
     opt_ok nonempty_str (wf_last_error_code r) \<and> 1 \<le> wf_version r"

definition terminal_runtime :: "workflow_runtime_status \<Rightarrow> bool" where
  "terminal_runtime s \<longleftrightarrow> s \<in> {WR_COMPLETED, WR_FAILED, WR_NEEDS_ATTENTION, WR_DEAD_LETTERED}"

definition validate_workflow_lifecycle :: "(instant \<Rightarrow> string) \<Rightarrow> workflow_execution \<Rightarrow> bool" where
  "validate_workflow_lifecycle iso_text r \<longleftrightarrow>
     ev_tenant_id (wf_event r) = wf_tenant_id r \<and> ev_event_id (wf_event r) = wf_event_id r \<and>
     wf_started_at r \<le> wf_updated_at r \<and>
     (wf_plan r = None) = (wf_plan_hash r = None) \<and>
     (case wf_plan r of
        Some plan \<Rightarrow> pl_tenant_id plan = wf_tenant_id r \<and> pl_change_id plan = wf_change_id r \<and>
          Some (calculate_plan_hash iso_text plan) = wf_plan_hash r \<and>
          set (map wt_step_id (wf_tasks r)) = set (map st_step_id (pl_steps plan))
      | None \<Rightarrow> wf_tasks r = []) \<and>
     terminal_runtime (wf_status r) = (wf_completed_at r \<noteq> None)"

definition WorkflowExecutionRecord_validate :: "(instant \<Rightarrow> string) \<Rightarrow> workflow_execution \<Rightarrow> workflow_execution option" where
  "WorkflowExecutionRecord_validate iso_text r = (let r' = strip_workflow r in
     if workflow_fields_ok r' \<and> validate_workflow_lifecycle iso_text r' then Some r' else None)"

datatype callback_status = CB_APPROVED | CB_REJECTED | CB_CHANGES_REQUESTED

record approval_callback =
  cb_tenant_id :: string
  cb_change_id :: string
  cb_approval_id :: string
  cb_plan_hash :: string
  cb_plan_version :: int
  cb_status :: callback_status
  cb_decided_at :: instant

record dead_letter =
  dl_dead_letter_id :: string
  dl_tenant_id :: string
  dl_event_id :: string
  dl_workflow_execution_id :: string
  dl_error_code :: string
  dl_input_hash :: string
  dl_created_at :: instant

definition strip_dead_letter :: "dead_letter \<Rightarrow> dead_letter" where
  "strip_dead_letter d = d\<lparr>dl_dead_letter_id := strip (dl_dead_letter_id d), dl_tenant_id := strip (dl_tenant_id d),
     dl_event_id := strip (dl_event_id d), dl_workflow_execution_id := strip (dl_workflow_execution_id d),
     dl_error_code := strip (dl_error_code d), dl_input_hash := strip (dl_input_hash d)\<rparr>"

definition DeadLetterRecord_validate :: "dead_letter \<Rightarrow> dead_letter option" where
  "DeadLetterRecord_validate d = (let d' = strip_dead_letter d in
     if nonempty_str (dl_dead_letter_id d') \<and> nonempty_str (dl_tenant_id d') \<and> nonempty_str (dl_event_id d') \<and>
        nonempty_str (dl_workflow_execution_id d') \<and> nonempty_str (dl_error_code d') \<and> is_sha256_digest (dl_input_hash d')
     then Some d' else None)"

section \<open>Retry decision\<close>

record retry_policy =
  rp_maximum_attempts :: int

definition RetryPolicy :: "int \<Rightarrow> retry_policy option" where
  "RetryPolicy maximum_attempts = (if maximum_attempts < 1 then None else Some \<lparr>rp_maximum_attempts = maximum_attempts\<rparr>)"

definition should_retry :: "retry_policy \<Rightarrow> bool \<Rightarrow> int \<Rightarrow> bool" where
  "should_retry policy transient attempt \<longleftrightarrow> transient \<and> attempt < rp_maximum_attempts policy"

section \<open>The repository\<close>

type_synonym workflow_key = "string \<times> string \<times> string"

record wf_repo =
  w_workflows :: "(workflow_key, workflow_execution) dict"
  w_dead_letters :: "(string \<times> string, dead_letter) dict"

definition wf_repo_empty :: wf_repo where
  "wf_repo_empty = \<lparr>w_workflows = [], w_dead_letters = []\<rparr>"

type_synonym 'a wf_op = "(wf_repo, workflow_error, 'a) op"

definition workflow_key :: "workflow_execution \<Rightarrow> workflow_key" where
  "workflow_key r = (wf_tenant_id r, wf_change_id r, wf_workflow_execution_id r)"

definition put_workflow :: "workflow_execution \<Rightarrow> workflow_execution wf_op" where
  "put_workflow r s = ret r (s\<lparr>w_workflows := dput (workflow_key r) r (w_workflows s)\<rparr>)"

definition create_or_get :: "workflow_execution \<Rightarrow> workflow_execution wf_op" where
  "create_or_get rec s = (case dget (w_workflows s) (workflow_key rec) of
     Some existing \<Rightarrow> if wf_event_id existing \<noteq> wf_event_id rec
       then raise (WorkflowConflictError ''Workflow identifier collision.'') s else ret existing s
   | None \<Rightarrow> put_workflow rec s)"

definition get_workflow :: "string \<Rightarrow> string \<Rightarrow> string \<Rightarrow> workflow_execution wf_op" where
  "get_workflow tenant_id change_id workflow_execution_id s =
     (case dget (w_workflows s) (tenant_id, change_id, workflow_execution_id) of
        None \<Rightarrow> raise WorkflowNotFoundError s | Some rec \<Rightarrow> ret rec s)"

definition update_workflow :: "workflow_execution \<Rightarrow> int \<Rightarrow> workflow_execution wf_op" where
  "update_workflow rec expected_version s = (case dget (w_workflows s) (workflow_key rec) of
     None \<Rightarrow> raise WorkflowNotFoundError s
   | Some current \<Rightarrow> if wf_version current \<noteq> expected_version \<or> wf_version rec \<noteq> expected_version + 1
       then raise stale_version s else put_workflow rec s)"

definition record_dead_letter :: "dead_letter \<Rightarrow> dead_letter wf_op" where
  "record_dead_letter d s = (let key = (dl_tenant_id d, dl_dead_letter_id d) in
     case dget (w_dead_letters s) key of
       Some existing \<Rightarrow> if dl_input_hash existing \<noteq> dl_input_hash d
         then raise (WorkflowConflictError ''Dead-letter identifier collision.'') s else ret existing s
     | None \<Rightarrow> ret d (s\<lparr>w_dead_letters := dput key d (w_dead_letters s)\<rparr>))"

definition list_dead_letters :: "string \<Rightarrow> int \<Rightarrow> dead_letter list wf_op" where
  "list_dead_letters tenant_id limit s = ret (slice_to limit (sort_desc (\<lambda>d. (dl_created_at d, dl_dead_letter_id d))
     (map snd (filter (\<lambda>item. fst (fst item) = tenant_id) (w_dead_letters s))))) s"

section \<open>Facts\<close>

lemma strip_task_idem [simp]: "strip_task (strip_task t) = strip_task t"
  by (simp add: strip_task_def option.map_comp comp_def)

lemma WorkflowTaskRecord_validate_ok:
  "WorkflowTaskRecord_validate t = Some t' \<Longrightarrow> t' = strip_task t \<and> task_fields_ok t' \<and> validate_artifacts t'"
  by (auto simp: WorkflowTaskRecord_validate_def Let_def split: if_splits)

lemma WorkflowExecutionRecord_validate_ok:
  "WorkflowExecutionRecord_validate iso_text r = Some r' \<Longrightarrow>
   r' = strip_workflow r \<and> workflow_fields_ok r' \<and> validate_workflow_lifecycle iso_text r'"
  by (auto simp: WorkflowExecutionRecord_validate_def Let_def split: if_splits)

lemma update_workflow_Inr:
  "update_workflow r v s = (Inr r', s') \<longleftrightarrow> (\<exists>cur. dget (w_workflows s) (workflow_key r) = Some cur \<and>
     wf_version cur = v \<and> wf_version r = v + 1 \<and> r' = r \<and> s' = s\<lparr>w_workflows := dput (workflow_key r) r (w_workflows s)\<rparr>)"
  by (auto simp: update_workflow_def put_workflow_def split: option.splits)

lemma update_workflow_Inl: "update_workflow r v s = (Inl e, s') \<Longrightarrow> s' = s"
  by (auto simp: update_workflow_def put_workflow_def split: option.splits if_splits)

end
