(* ===== verification/Hmac.thy ===== *)
theory Hmac
  imports Sha256
begin

text \<open>
  The standard-library keyed hash: \<^verbatim>\<open>hmac.new(key, message, hashlib.sha256)\<close> (RFC 2104 over SHA-256) with its \<^verbatim>\<open>digest()\<close> and
  \<^verbatim>\<open>hexdigest()\<close>, and \<^verbatim>\<open>hmac.compare_digest\<close>.
\<close>

definition word_bytes :: "w32 \<Rightarrow> byte list" where
  "word_bytes w = map (\<lambda>i. unat w div 256 ^ (3 - i) mod 256) [0..<4]"

text \<open>\<^verbatim>\<open>hashlib.sha256(m).digest()\<close>.\<close>

definition sha256_bytes :: "byte list \<Rightarrow> byte list" where
  "sha256_bytes m = concat (map word_bytes (sha256_words m))"

definition hmac_key :: "byte list \<Rightarrow> byte list" where
  "hmac_key key = (let k = (if 64 < length key then sha256_bytes key else key) in k @ replicate (64 - length k) 0)"

definition hmac_inner :: "byte list \<Rightarrow> byte list \<Rightarrow> byte list" where
  "hmac_inner key message = map (\<lambda>b. b XOR 54) (hmac_key key) @ message"

definition hmac_outer :: "byte list \<Rightarrow> byte list \<Rightarrow> byte list" where
  "hmac_outer key inner = map (\<lambda>b. b XOR 92) (hmac_key key) @ inner"

definition hmac_digest :: "byte list \<Rightarrow> byte list \<Rightarrow> byte list" where
  "hmac_digest key message = sha256_bytes (hmac_outer key (sha256_bytes (hmac_inner key message)))"

definition hmac_hexdigest :: "byte list \<Rightarrow> byte list \<Rightarrow> string" where
  "hmac_hexdigest key message = sha256_hex (hmac_outer key (sha256_bytes (hmac_inner key message)))"

lemma hmac_hexdigest_length [simp]: "length (hmac_hexdigest key message) = 64"
  by (simp add: hmac_hexdigest_def)

lemma hmac_hexdigest_lower: "c \<in> set (hmac_hexdigest key message) \<Longrightarrow> is_lower_hex c"
  unfolding hmac_hexdigest_def by (rule sha256_hex_lower)

lemma length_word_bytes [simp]: "length (word_bytes w) = 4"
  by (simp add: word_bytes_def)

lemma sha256_bytes_length [simp]: "length (sha256_bytes m) = 32"
  by (simp add: sha256_bytes_def sha256_words_def Let_def)

lemma hmac_key_length [simp]: "length (hmac_key key) = 64"
  by (simp add: hmac_key_def Let_def)

text \<open>
  \<^verbatim>\<open>hmac.compare_digest\<close> on two strings: it raises \<^verbatim>\<open>TypeError\<close> (here \<^const>\<open>None\<close>) when either has a character outside ASCII
  and compares for equality otherwise.
\<close>

definition is_ascii :: "string \<Rightarrow> bool" where
  "is_ascii s \<longleftrightarrow> list_all (\<lambda>c. of_char c < (128 :: nat)) s"

definition compare_digest :: "string \<Rightarrow> string \<Rightarrow> bool option" where
  "compare_digest a b = (if is_ascii a \<and> is_ascii b then Some (a = b) else None)"

lemma lower_hex_ascii: "is_lower_hex c \<Longrightarrow> of_char c < (128 :: nat)"
  by (auto simp: is_lower_hex_def is_digit_def Let_def)

lemma hmac_hexdigest_ascii [simp]: "is_ascii (hmac_hexdigest key message)"
  by (auto simp: is_ascii_def list_all_iff intro: lower_hex_ascii hmac_hexdigest_lower)

text \<open>
  Equal digests of different messages under one key exhibit a collision of SHA-256, in the inner or in the outer hash.
\<close>

definition hash_collision :: "byte list \<Rightarrow> byte list \<Rightarrow> bool" where
  "hash_collision x y \<longleftrightarrow> x \<noteq> y \<and> sha256_bytes x = sha256_bytes y"

lemma hmac_digest_binds:
  assumes "hmac_digest key m = hmac_digest key m'"
  shows "m = m' \<or> hash_collision (hmac_inner key m) (hmac_inner key m') \<or>
    hash_collision (hmac_outer key (sha256_bytes (hmac_inner key m))) (hmac_outer key (sha256_bytes (hmac_inner key m')))"
proof (cases "hmac_outer key (sha256_bytes (hmac_inner key m)) = hmac_outer key (sha256_bytes (hmac_inner key m'))")
  case True
  then have "sha256_bytes (hmac_inner key m) = sha256_bytes (hmac_inner key m')" by (simp add: hmac_outer_def)
  then show ?thesis by (auto simp: hash_collision_def hmac_inner_def)
next
  case False
  with assms show ?thesis by (simp add: hash_collision_def hmac_digest_def)
qed

lemma sha256_bytes_byte: "b \<in> set (sha256_bytes m) \<Longrightarrow> b < 256"
  by (auto simp: sha256_bytes_def word_bytes_def)

lemma hmac_digest_byte: "b \<in> set (hmac_digest key m) \<Longrightarrow> b < 256"
  unfolding hmac_digest_def by (rule sha256_bytes_byte)

end
