(* ===== verification/Workflow_Engine.thy ===== *)
theory Workflow_Engine
  imports Workflow_Store Hmac
begin

text \<open>
  The durable workflow engine of \<^verbatim>\<open>services/workflow-coordinator\<close>: \<^verbatim>\<open>engine.py\<close> in full and the routes
  of \<^verbatim>\<open>app.py\<close> that call it.

  The engine works on the change store, the workflow repository and three remote clients. The clients (\<^verbatim>\<open>clients.py\<close>)
  are a record of functions on a remote state of any type: each call returns a result or a failed call, and the state
  it leaves. A failed call is a \<^verbatim>\<open>DependencyCallError\<close> with its code and whether it is transient, or any other
  exception. Readings of the clock and fresh identifiers come from two supplies; the state counts the draws.

  \<^verbatim>\<open>asyncio.gather\<close> runs its coroutines in list order, each to its end; an exception in one of them does not stop
  its siblings, and the first one is raised after them.
\<close>

section \<open>Clients and state\<close>

datatype call_error = Dependency string bool | Crash

record analysis_result =
  an_draft_plan :: remediation_plan
  an_draft_plan_hash :: string

record tool_result =
  tx_execution_id :: string
  tx_output_hash :: string
  tx_replayed :: bool

record snapshot_result =
  sx_snapshot_id :: string
  sx_configuration_hash :: string

record verify_result =
  vx_passed :: bool
  vx_digest :: string

type_synonym ('x, 'a) remote = "'x \<Rightarrow> (call_error + 'a) \<times> 'x"

record 'x clients =
  cl_analyze :: "string \<Rightarrow> change_event \<Rightarrow> string \<Rightarrow> ('x, analysis_result) remote"
  cl_create_approval :: "string \<Rightarrow> remediation_plan \<Rightarrow> instant \<Rightarrow> string \<Rightarrow> ('x, unit) remote"
  cl_execute :: "string \<Rightarrow> remediation_plan \<Rightarrow> remediation_step \<Rightarrow> string \<Rightarrow> instant \<Rightarrow> string \<Rightarrow> ('x, tool_result) remote"
  cl_snapshot :: "sandbox_system \<Rightarrow> string \<Rightarrow> string \<Rightarrow> ('x, snapshot_result) remote"
  cl_restore :: "sandbox_system \<Rightarrow> string \<Rightarrow> string \<Rightarrow> string \<Rightarrow> ('x, unit) remote"
  cl_configuration_hash :: "sandbox_system \<Rightarrow> string \<Rightarrow> string \<Rightarrow> ('x, string) remote"
  cl_verify :: "sandbox_system \<Rightarrow> string \<Rightarrow> string \<Rightarrow> string \<Rightarrow> ('x, verify_result) remote"

record 'x engine =
  eng_iso_text :: "instant \<Rightarrow> string"
  eng_clients :: "'x clients"
  eng_retry :: retry_policy
  eng_clock :: "nat \<Rightarrow> instant"
  eng_hex :: "nat \<Rightarrow> string"

record 'x coordinator =
  co_changes :: mem_repo
  co_workflows :: wf_repo
  co_remote :: 'x
  co_clock_reads :: nat
  co_draws :: nat

type_synonym ('x, 'a) co_op = "('x coordinator, workflow_error, 'a) op"

definition now :: "'x engine \<Rightarrow> ('x, instant) co_op" where
  "now E w = (Inr (eng_clock E (co_clock_reads w)), w\<lparr>co_clock_reads := Suc (co_clock_reads w)\<rparr>)"

definition uuid :: "'x engine \<Rightarrow> ('x, string) co_op" where
  "uuid E w = (Inr (eng_hex E (co_draws w)), w\<lparr>co_draws := Suc (co_draws w)\<rparr>)"

definition call_error_of :: "call_error \<Rightarrow> workflow_error" where
  "call_error_of e = (case e of Dependency code transient \<Rightarrow> DependencyCallError code transient | Crash \<Rightarrow> UnexpectedError)"

definition on_remote :: "('x, 'a) remote \<Rightarrow> ('x, 'a) co_op" where
  "on_remote m = zoom co_remote (\<lambda>x w. w\<lparr>co_remote := x\<rparr>) call_error_of m"

definition on_change_store :: "'a mem_op \<Rightarrow> ('x, 'a) co_op" where
  "on_change_store m = zoom co_changes (\<lambda>s w. w\<lparr>co_changes := s\<rparr>) ChangeStoreError m"

definition on_workflow_store :: "'a wf_op \<Rightarrow> ('x, 'a) co_op" where
  "on_workflow_store m = zoom co_workflows (\<lambda>s w. w\<lparr>co_workflows := s\<rparr>) id m"

definition request_id :: "'x engine \<Rightarrow> ('x, string) co_op" where
  "request_id E = bnd (uuid E) (\<lambda>h. ret (''req_'' @ h))"

definition get_change :: "workflow_execution \<Rightarrow> ('x, change_record) co_op" where
  "get_change rec = on_change_store (mem_get (wf_tenant_id rec) (wf_change_id rec))"

section \<open>Records, audit and transitions\<close>

definition update_record :: "'x engine \<Rightarrow> workflow_execution \<Rightarrow> (workflow_execution \<Rightarrow> workflow_execution) \<Rightarrow>
    ('x, workflow_execution) co_op" where
  "update_record E rec updates = bnd (now E) (\<lambda>t.
     bnd (validated WorkflowValidationError (WorkflowExecutionRecord_validate (eng_iso_text E)
       ((updates rec)\<lparr>wf_updated_at := t, wf_version := wf_version rec + 1\<rparr>))) (\<lambda>updated.
     on_workflow_store (update_workflow updated (wf_version rec))))"

definition set_runtime_status :: "'x engine \<Rightarrow> workflow_execution \<Rightarrow> workflow_runtime_status \<Rightarrow> string option \<Rightarrow>
    ('x, workflow_execution) co_op" where
  "set_runtime_status E rec status last_error_code =
     (if wf_status rec = status \<and> wf_last_error_code rec = last_error_code then ret rec
      else update_record E rec (\<lambda>r. r\<lparr>wf_status := status, wf_last_error_code := last_error_code\<rparr>))"

definition make_terminal :: "'x engine \<Rightarrow> workflow_execution \<Rightarrow> workflow_runtime_status \<Rightarrow> string option \<Rightarrow>
    ('x, workflow_execution) co_op" where
  "make_terminal E rec status error_code =
     (if wf_status rec = status \<and> wf_completed_at rec \<noteq> None then ret rec
      else bnd (now E) (\<lambda>t. update_record E rec (\<lambda>r. r\<lparr>wf_status := status, wf_last_error_code := error_code,
        wf_completed_at := Some t\<rparr>)))"

definition workflow_audit :: "'x engine \<Rightarrow> workflow_execution \<Rightarrow> string \<Rightarrow> string \<Rightarrow> string \<Rightarrow> string \<Rightarrow> audit_status \<Rightarrow> string \<Rightarrow>
    ('x, audit_event) co_op" where
  "workflow_audit E rec event_type action input_hash output_hash status summary =
     bnd (uuid E) (\<lambda>h. bnd (now E) (\<lambda>t.
     validated WorkflowValidationError (AuditEvent_validate \<lparr>ae_audit_event_id = ''audit_'' @ h,
       ae_tenant_id = wf_tenant_id rec, ae_change_id = wf_change_id rec, ae_trace_id = wf_trace_id rec,
       ae_event_type = event_type, ae_actor_type = Actor_SERVICE, ae_actor_id = ''workflow-coordinator'',
       ae_resource = ''workflows/'' @ wf_workflow_execution_id rec, ae_action = action, ae_decision_id = None,
       ae_input_hash = input_hash, ae_output_hash = output_hash, ae_status = status, ae_redacted_summary = summary,
       ae_created_at = t\<rparr>)))"

definition record_workflow_audit :: "'x engine \<Rightarrow> workflow_execution \<Rightarrow> string \<Rightarrow> string \<Rightarrow> json \<Rightarrow> json \<Rightarrow> audit_status \<Rightarrow> string \<Rightarrow>
    ('x, unit) co_op" where
  "record_workflow_audit E rec event_type action input_doc output_doc status summary =
     bnd (workflow_audit E rec event_type action (sha256_digest input_doc) (sha256_digest output_doc) status summary)
       (\<lambda>audit. on_change_store (mem_record_audit audit))"

definition do_transition :: "'x engine \<Rightarrow> workflow_execution \<Rightarrow> workflow_state \<Rightarrow> record_updates \<Rightarrow> ('x, change_record) co_op" where
  "do_transition E rec target updates =
     bnd (get_change rec) (\<lambda>current. bnd (now E) (\<lambda>t. bnd (uuid E) (\<lambda>h.
     zoom co_changes (\<lambda>s w. w\<lparr>co_changes := s\<rparr>) TransitionFailed
       (transition (eng_iso_text E) mem_ops (Aware t) (''audit_'' @ h)
         \<lparr>ta_tenant_id = wf_tenant_id rec, ta_change_id = wf_change_id rec, ta_target = target,
          ta_expected_version = cr_version current, ta_trace_id = wf_trace_id rec, ta_actor_type = Actor_SERVICE,
          ta_actor_id = ''workflow-coordinator'', ta_updates = updates\<rparr>))))"

definition require_plan :: "workflow_execution \<Rightarrow> ('x, remediation_plan) co_op" where
  "require_plan rec = (case wf_plan rec of None \<Rightarrow> raise (WorkflowPermanentError ''PLAN_MISSING'') | Some plan \<Rightarrow> ret plan)"

definition do_dead_letter :: "'x engine \<Rightarrow> workflow_execution \<Rightarrow> string \<Rightarrow> ('x, workflow_execution) co_op" where
  "do_dead_letter E rec error_code =
     bnd (make_terminal E rec WR_DEAD_LETTERED (Some error_code)) (\<lambda>terminal.
     bnd (now E) (\<lambda>t.
     bnd (validated WorkflowValidationError (DeadLetterRecord_validate
       \<lparr>dl_dead_letter_id = ''dlq_'' @ wf_workflow_execution_id rec, dl_tenant_id = wf_tenant_id rec,
        dl_event_id = wf_event_id rec, dl_workflow_execution_id = wf_workflow_execution_id rec, dl_error_code = error_code,
        dl_input_hash = sha256_digest (event_json (eng_iso_text E) (wf_event rec)), dl_created_at = t\<rparr>)) (\<lambda>d.
     bnd (on_workflow_store (record_dead_letter d)) (\<lambda>_. ret terminal))))"

section \<open>Receiving an event\<close>

definition new_change :: "workflow_execution \<Rightarrow> instant \<Rightarrow> change_record" where
  "new_change rec timestamp = (let event = wf_event rec in
     \<lparr>cr_change_id = wf_change_id rec, cr_tenant_id = wf_tenant_id rec, cr_event_id = wf_event_id rec,
      cr_change_type = ev_event_type event, cr_title = chg_summary (ev_change event),
      cr_description = chg_summary (ev_change event), cr_source = ev_source event, cr_environment = Env_SANDBOX,
      cr_status = WS_RECEIVED, cr_risk_level = RL_UNKNOWN, cr_current_phase = WS_RECEIVED, cr_workflow_execution_id = None,
      cr_plan_version = 0, cr_plan_hash = None, cr_created_at = timestamp, cr_updated_at = timestamp,
      cr_created_by = ''event-gateway'', cr_version = 1\<rparr>)"

definition create_change :: "'x engine \<Rightarrow> workflow_execution \<Rightarrow> ('x, change_record) co_op" where
  "create_change E rec = bnd (now E) (\<lambda>timestamp.
     bnd (validated WorkflowValidationError (ChangeRecord_validate (new_change rec timestamp))) (\<lambda>change.
     bnd (workflow_audit E rec ''CHANGE_RECEIVED'' ''create_change''
       (sha256_digest (JObj [(''event_id'', JStr (ev_event_id (wf_event rec)))]))
       (sha256_digest (change_record_json (eng_iso_text E) change)) Audit_SUCCESS
       ''Authenticated change event accepted for durable processing.'') (\<lambda>audit.
     bnd (catch (bnd (on_change_store (mem_add_with_audit change audit)) (\<lambda>_. ret change))
       (\<lambda>e. case e of ChangeStoreError (ChangeAlreadyExistsError t c) \<Rightarrow>
           bnd (get_change rec) (\<lambda>existing.
           bnd (guard (cr_event_id existing = wf_event_id rec) (WorkflowPermanentError ''CHANGE_ID_COLLISION'')) (\<lambda>_.
           ret existing))
         | _ \<Rightarrow> raise e)) ret)))"

definition ensure_change :: "'x engine \<Rightarrow> workflow_execution \<Rightarrow> ('x, change_record) co_op" where
  "ensure_change E rec = catch (get_change rec)
     (\<lambda>e. case e of ChangeStoreError (ChangeNotFoundError t c) \<Rightarrow> create_change E rec | _ \<Rightarrow> raise e)"

definition system_for_step :: "remediation_step \<Rightarrow> workflow_error + sandbox_system" where
  "system_for_step step = (if st_tool_name step = ''crm.update_field_mapping'' then Inr Sys_crm
     else if st_tool_name step = ''analytics.update_field_mapping'' then Inr Sys_analytics
     else if st_tool_name step = ''support.update_lookup_field'' then Inr Sys_support
     else Inl (DependencyCallError ''UNSUPPORTED_PLAN_TOOL'' False))"

text \<open>One operation per element, in order, stopping at the first exception.\<close>

fun map_op :: "('a \<Rightarrow> ('s, 'e, 'b) op) \<Rightarrow> 'a list \<Rightarrow> ('s, 'e, 'b list) op" where
  "map_op f [] = ret []"
| "map_op f (x # xs) = bnd (f x) (\<lambda>y. bnd (map_op f xs) (\<lambda>ys. ret (y # ys)))"

definition new_task :: "instant \<Rightarrow> remediation_step \<Rightarrow> ('x, workflow_task) co_op" where
  "new_task timestamp step = bnd (lift_sum (system_for_step step)) (\<lambda>system.
     validated WorkflowValidationError (WorkflowTaskRecord_validate
       \<lparr>wt_step_id = st_step_id step, wt_system_id = system, wt_status = WT_PENDING, wt_attempt_count = 0,
        wt_snapshot_id = None, wt_snapshot_hash = None, wt_execution_id = None, wt_output_hash = None,
        wt_error_code = None, wt_updated_at = timestamp\<rparr>))"

datatype 'a step_exit = Return workflow_execution | Continue 'a

text \<open>The handler of a failed analysis: blocked content, a transient failure, a permanent failure.\<close>

definition block_injection :: "'x engine \<Rightarrow> workflow_execution \<Rightarrow> change_event \<Rightarrow> string \<Rightarrow> ('x, workflow_execution) co_op" where
  "block_injection E rec event code =
     bnd (record_workflow_audit E rec ''SECURITY_PROMPT_INJECTION_BLOCKED'' ''screen_change_content''
       (JObj [(''event_hash'', JStr (sha256_digest (event_json (eng_iso_text E) event)))])
       (JObj [(''decision'', JStr ''blocked''), (''code'', JStr code)]) Audit_REJECTED
       ''Security screening blocked untrusted change content before agent or tool execution.'') (\<lambda>_.
     bnd (do_transition E rec WS_BLOCKED no_updates) (\<lambda>_.
     make_terminal E rec WR_FAILED (Some code)))"

definition fleet_failed :: "'x engine \<Rightarrow> workflow_execution \<Rightarrow> change_event \<Rightarrow> workflow_error \<Rightarrow> ('x, workflow_execution) co_op" where
  "fleet_failed E rec event e = (case e of
     DependencyCallError code transient \<Rightarrow>
       if code = ''PROMPT_INJECTION_BLOCKED'' then block_injection E rec event code
       else if transient then raise (WorkflowTransientError code)
       else do_dead_letter E rec code
   | _ \<Rightarrow> raise e)"

text \<open>Accepting the fleet's draft plan: scope and hash are checked, then plan, tasks and approval data are stored.\<close>

definition accept_plan :: "'x engine \<Rightarrow> workflow_execution \<Rightarrow> analysis_result \<Rightarrow> ('x, workflow_execution step_exit) co_op" where
  "accept_plan E rec analysis = (let plan = an_draft_plan analysis in
     if pl_tenant_id plan \<noteq> wf_tenant_id rec \<or> pl_change_id plan \<noteq> wf_change_id rec \<or>
        an_draft_plan_hash analysis \<noteq> calculate_plan_hash (eng_iso_text E) plan
     then bnd (do_dead_letter E rec ''INVALID_FLEET_PLAN'') (\<lambda>r. ret (Return r))
     else bnd (now E) (\<lambda>task_timestamp.
       bnd (map_op (new_task task_timestamp) (pl_steps plan)) (\<lambda>tasks.
       bnd (now E) (\<lambda>t.
       bnd (update_record E rec (\<lambda>r. r\<lparr>wf_plan := Some plan,
         wf_plan_hash := Some (calculate_plan_hash (eng_iso_text E) plan), wf_tasks := tasks,
         wf_approval_id := Some (''approval_'' @ wf_workflow_execution_id r),
         wf_approval_expires_at := Some (t + minutes 30)\<rparr>)) (\<lambda>r. ret (Continue r))))))"

definition analyze_event :: "'x engine \<Rightarrow> workflow_execution \<Rightarrow> change_event \<Rightarrow> ('x, workflow_execution step_exit) co_op" where
  "analyze_event E rec event = (if wf_plan rec \<noteq> None then ret (Continue rec) else
     bnd (request_id E) (\<lambda>rid.
     bnd (catch (bnd (on_remote (cl_analyze (eng_clients E) (wf_change_id rec) event rid)) (\<lambda>a. ret (Inr a)))
       (\<lambda>e. bnd (fleet_failed E rec event e) (\<lambda>r. ret (Inl r)))) (\<lambda>outcome. case outcome of
         Inl r \<Rightarrow> ret (Return r)
       | Inr analysis \<Rightarrow>
           bnd (get_change rec) (\<lambda>change.
           bnd (if cr_status change = WS_SCREENING then bnd (do_transition E rec WS_ANALYZING no_updates) (\<lambda>_. ret ()) else ret ()) (\<lambda>_.
           accept_plan E rec analysis)))))"

text \<open>\<^verbatim>\<open>if change.status is source: change = await self._transition(record, target)\<close>.\<close>

definition advance :: "'x engine \<Rightarrow> workflow_execution \<Rightarrow> workflow_state \<Rightarrow> workflow_state \<Rightarrow> record_updates \<Rightarrow> change_record \<Rightarrow>
    ('x, change_record) co_op" where
  "advance E rec source target updates change =
     (if cr_status change = source then do_transition E rec target updates else ret change)"

definition plan_updates :: "(instant \<Rightarrow> string) \<Rightarrow> remediation_plan \<Rightarrow> record_updates" where
  "plan_updates iso_text plan = no_updates\<lparr>ru_plan_version := Some (pl_version plan),
     ru_plan_hash := Some (Some (calculate_plan_hash iso_text plan)), ru_risk_level := Some (pl_risk_level plan)\<rparr>"

definition request_approval :: "'x engine \<Rightarrow> workflow_execution \<Rightarrow> remediation_plan \<Rightarrow> ('x, workflow_execution) co_op" where
  "request_approval E rec plan = (case (wf_approval_id rec, wf_approval_expires_at rec) of
     (Some approval_id, Some expires_at) \<Rightarrow>
       bnd (request_id E) (\<lambda>rid.
       bnd (catch (bnd (on_remote (cl_create_approval (eng_clients E) approval_id plan expires_at rid)) (\<lambda>_. ret None))
         (\<lambda>e. case e of DependencyCallError code transient \<Rightarrow>
             if transient then raise (WorkflowTransientError code)
             else bnd (do_dead_letter E rec code) (\<lambda>r. ret (Some r))
           | _ \<Rightarrow> raise e)) (\<lambda>dead. case dead of
         Some r \<Rightarrow> ret r
       | None \<Rightarrow> set_runtime_status E rec WR_WAITING_APPROVAL None))
   | _ \<Rightarrow> raise (WorkflowPermanentError ''APPROVAL_METADATA_MISSING''))"

definition await_approval :: "'x engine \<Rightarrow> workflow_execution \<Rightarrow> ('x, workflow_execution) co_op" where
  "await_approval E rec =
     bnd (require_plan rec) (\<lambda>plan.
     bnd (get_change rec) (\<lambda>c0.
     bnd (advance E rec WS_SCREENING WS_ANALYZING no_updates c0) (\<lambda>c1.
     bnd (advance E rec WS_ANALYZING WS_PLAN_READY (plan_updates (eng_iso_text E) plan) c1) (\<lambda>c2.
     bnd (advance E rec WS_PLAN_READY WS_AWAITING_APPROVAL no_updates c2) (\<lambda>c3.
     bnd (guard (cr_status c3 = WS_AWAITING_APPROVAL) (WorkflowPermanentError ''CHANGE_NOT_AWAITING_APPROVAL'')) (\<lambda>_.
     request_approval E rec plan))))))"

definition settled :: "workflow_runtime_status \<Rightarrow> bool" where
  "settled s \<longleftrightarrow> s \<in> {WR_WAITING_APPROVAL, WR_EXECUTING, WR_VERIFYING, WR_ROLLING_BACK, WR_COMPLETED, WR_FAILED,
     WR_NEEDS_ATTENTION, WR_DEAD_LETTERED}"

definition new_workflow :: "change_event \<Rightarrow> instant \<Rightarrow> workflow_execution" where
  "new_workflow event timestamp = \<lparr>wf_workflow_execution_id = derive_workflow_id event, wf_tenant_id = ev_tenant_id event,
     wf_change_id = derive_change_id event, wf_event_id = ev_event_id event, wf_trace_id = ev_trace_id event,
     wf_event = event, wf_status = WR_RECEIVED, wf_delivery_attempts = 1, wf_plan = None, wf_plan_hash = None,
     wf_approval_id = None, wf_approval_expires_at = None, wf_tasks = [], wf_last_error_code = None,
     wf_started_at = timestamp, wf_updated_at = timestamp, wf_completed_at = None, wf_version = 1\<rparr>"

definition load_workflow :: "'x engine \<Rightarrow> change_event \<Rightarrow> instant \<Rightarrow> ('x, workflow_execution step_exit) co_op" where
  "load_workflow E event timestamp = catch
     (bnd (on_workflow_store (get_workflow (ev_tenant_id event) (derive_change_id event) (derive_workflow_id event))) (\<lambda>rec.
       if settled (wf_status rec) then ret (Return rec)
       else bnd (update_record E rec (\<lambda>r. r\<lparr>wf_delivery_attempts := wf_delivery_attempts rec + 1\<rparr>)) (\<lambda>r. ret (Continue r))))
     (\<lambda>e. if e = WorkflowNotFoundError
       then bnd (validated WorkflowValidationError (WorkflowExecutionRecord_validate (eng_iso_text E) (new_workflow event timestamp)))
         (\<lambda>rec. bnd (on_workflow_store (create_or_get rec)) (\<lambda>r. ret (Continue r)))
       else raise e)"

definition run_analysis :: "'x engine \<Rightarrow> workflow_execution \<Rightarrow> change_event \<Rightarrow> ('x, workflow_execution) co_op" where
  "run_analysis E rec0 event =
     bnd (ensure_change E rec0) (\<lambda>_.
     bnd (set_runtime_status E rec0 WR_ANALYZING None) (\<lambda>rec.
     bnd (get_change rec) (\<lambda>change.
     bnd (advance E rec WS_RECEIVED WS_SCREENING
       (no_updates\<lparr>ru_workflow_execution_id := Some (Some (wf_workflow_execution_id rec))\<rparr>) change) (\<lambda>_.
     bnd (analyze_event E rec event) (\<lambda>ex. case ex of
       Return r \<Rightarrow> ret r
     | Continue r \<Rightarrow> await_approval E r)))))"

definition process_event :: "'x engine \<Rightarrow> change_event \<Rightarrow> ('x, workflow_execution) co_op" where
  "process_event E event =
     bnd (now E) (\<lambda>timestamp.
     bnd (load_workflow E event timestamp) (\<lambda>ex. case ex of
       Return r \<Rightarrow> ret r
     | Continue rec \<Rightarrow>
         if ev_event_type event \<noteq> ''api.contract.changed'' then do_dead_letter E rec ''UNSUPPORTED_EVENT_TYPE''
         else run_analysis E rec event))"

section \<open>Executing an approved plan\<close>

text \<open>
  \<^verbatim>\<open>asyncio.gather(..., return_exceptions=True)\<close>: every operation runs, exceptions become results.
  Without \<^verbatim>\<open>return_exceptions\<close> the first exception is raised.
\<close>

fun gather :: "('a \<Rightarrow> ('s, 'e, 'b) op) \<Rightarrow> 'a list \<Rightarrow> 's \<Rightarrow> ('e + 'b) list \<times> 's" where
  "gather f [] s = ([], s)"
| "gather f (x # xs) s = (case f x s of (r, s') \<Rightarrow> case gather f xs s' of (rs, s'') \<Rightarrow> (r # rs, s''))"

fun first_error :: "('e + 'b) list \<Rightarrow> 'e + 'b list" where
  "first_error [] = Inr []"
| "first_error (Inl e # rs) = Inl e"
| "first_error (Inr y # rs) = map_sum id (Cons y) (first_error rs)"

definition gather_raise :: "('a \<Rightarrow> ('s, 'e, 'b) op) \<Rightarrow> 'a list \<Rightarrow> ('s, 'e, 'b list) op" where
  "gather_raise f xs s = (case gather f xs s of (rs, s') \<Rightarrow> (first_error rs, s'))"

definition gather_exceptions :: "('a \<Rightarrow> ('s, 'e, 'b) op) \<Rightarrow> 'a list \<Rightarrow> ('s, 'e, ('e + 'b) list) op" where
  "gather_exceptions f xs s = (case gather f xs s of (rs, s') \<Rightarrow> (Inr rs, s'))"

definition task_doc :: "(string \<times> string) list \<Rightarrow> json" where
  "task_doc members = JObj (map (\<lambda>(k, v). (k, JStr v)) members)"

text \<open>Rebuilding \<^verbatim>\<open>tuple(by_step[task.step_id] for task in record.tasks)\<close>.\<close>

definition in_task_order :: "(string, workflow_task) dict \<Rightarrow> workflow_task list \<Rightarrow> ('x, workflow_task list) co_op" where
  "in_task_order by_step tasks = map_op (\<lambda>task. validated UnexpectedError (dget by_step (wt_step_id task))) tasks"

definition take_snapshot :: "'x engine \<Rightarrow> workflow_execution \<Rightarrow> workflow_task \<Rightarrow> ('x, snapshot_result) co_op" where
  "take_snapshot E rec task = bnd (request_id E) (\<lambda>rid.
     on_remote (cl_snapshot (eng_clients E) (wt_system_id task) (wf_tenant_id rec) rid))"

definition snapshot_error :: "workflow_error \<Rightarrow> workflow_error" where
  "snapshot_error e = (case e of DependencyCallError code True \<Rightarrow> WorkflowTransientError code
     | _ \<Rightarrow> WorkflowPermanentError ''SNAPSHOT_CAPTURE_FAILED'')"

definition store_snapshot :: "'x engine \<Rightarrow> workflow_execution \<Rightarrow> workflow_task \<Rightarrow> snapshot_result \<Rightarrow> ('x, workflow_task) co_op" where
  "store_snapshot E rec task result =
     bnd (now E) (\<lambda>t.
     bnd (validated WorkflowValidationError (WorkflowTaskRecord_validate (task\<lparr>wt_snapshot_id := Some (sx_snapshot_id result),
       wt_snapshot_hash := Some (sx_configuration_hash result), wt_updated_at := t\<rparr>))) (\<lambda>updated.
     bnd (record_workflow_audit E rec ''WORKFLOW_SNAPSHOT_CAPTURED'' ''capture_snapshot''
       (task_doc [(''step_id'', wt_step_id task), (''system_id'', system_value (wt_system_id task))])
       (task_doc [(''snapshot_id'', sx_snapshot_id result), (''snapshot_hash'', sx_configuration_hash result)])
       Audit_SUCCESS (''Pre-write '' @ system_value (wt_system_id task) @ '' snapshot captured and hashed.'')) (\<lambda>_.
     ret updated)))"

fun store_snapshots :: "'x engine \<Rightarrow> workflow_execution \<Rightarrow> (workflow_task \<times> (workflow_error + snapshot_result)) list \<Rightarrow>
    (string, workflow_task) dict \<Rightarrow> ('x, (string, workflow_task) dict) co_op" where
  "store_snapshots E rec [] by_step = ret by_step"
| "store_snapshots E rec ((task, Inl e) # rest) by_step = raise (snapshot_error e)"
| "store_snapshots E rec ((task, Inr result) # rest) by_step =
     bnd (store_snapshot E rec task result) (\<lambda>updated.
     store_snapshots E rec rest (dput (wt_step_id task) updated by_step))"

definition capture_snapshots :: "'x engine \<Rightarrow> workflow_execution \<Rightarrow> ('x, workflow_execution) co_op" where
  "capture_snapshots E rec = (let missing = filter (\<lambda>task. wt_snapshot_id task = None) (wf_tasks rec) in
     if missing = [] then ret rec
     else bnd (gather_exceptions (take_snapshot E rec) missing) (\<lambda>snapshots.
       bnd (store_snapshots E rec (zip missing snapshots) (dict_of wt_step_id (wf_tasks rec))) (\<lambda>by_step.
       bnd (in_task_order by_step (wf_tasks rec)) (\<lambda>tasks.
       update_record E rec (\<lambda>r. r\<lparr>wf_tasks := tasks\<rparr>)))))"

definition call_gateway :: "'x engine \<Rightarrow> workflow_execution \<Rightarrow> remediation_plan \<Rightarrow> remediation_step \<Rightarrow> string \<Rightarrow>
    ('x, tool_result) co_op" where
  "call_gateway E rec plan step approval_id =
     bnd (now E) (\<lambda>t. bnd (request_id E) (\<lambda>rid.
     on_remote (cl_execute (eng_clients E) (wf_workflow_execution_id rec) plan step approval_id t rid)))"

definition attempt_doc :: "int \<Rightarrow> remediation_step \<Rightarrow> json" where
  "attempt_doc attempt step = JObj [(''attempt'', JInt attempt), (''step_id'', JStr (st_step_id step))]"

definition step_succeeded :: "'x engine \<Rightarrow> workflow_execution \<Rightarrow> workflow_task \<Rightarrow> remediation_step \<Rightarrow> int \<Rightarrow> tool_result \<Rightarrow>
    ('x, workflow_task) co_op" where
  "step_succeeded E rec task step attempt result =
     bnd (record_workflow_audit E rec ''WORKFLOW_STEP_SUCCEEDED'' ''execute_plan_step'' (attempt_doc attempt step)
       (JObj [(''execution_id'', JStr (tx_execution_id result)), (''output_hash'', JStr (tx_output_hash result)),
         (''replayed'', JBool (tx_replayed result))]) Audit_SUCCESS
       (''Approved '' @ system_value (wt_system_id task) @ '' workflow step completed.'')) (\<lambda>_.
     bnd (now E) (\<lambda>t.
     validated WorkflowValidationError (WorkflowTaskRecord_validate (task\<lparr>wt_status := WT_SUCCEEDED, wt_attempt_count := attempt,
       wt_execution_id := Some (tx_execution_id result), wt_output_hash := Some (tx_output_hash result),
       wt_error_code := None, wt_updated_at := t\<rparr>))))"

definition step_retried :: "'x engine \<Rightarrow> workflow_execution \<Rightarrow> workflow_task \<Rightarrow> remediation_step \<Rightarrow> int \<Rightarrow> string \<Rightarrow> ('x, unit) co_op" where
  "step_retried E rec task step attempt code =
     record_workflow_audit E rec ''WORKFLOW_STEP_RETRY_SCHEDULED'' ''retry_plan_step''
       (JObj [(''attempt'', JInt attempt), (''error_code'', JStr code), (''step_id'', JStr (st_step_id step))])
       (JObj [(''next_attempt'', JInt (attempt + 1))]) Audit_FAILURE
       (''Transient '' @ system_value (wt_system_id task) @ '' failure scheduled for bounded retry.'')"

definition step_failed :: "'x engine \<Rightarrow> workflow_execution \<Rightarrow> workflow_task \<Rightarrow> remediation_step \<Rightarrow> int \<Rightarrow> string \<Rightarrow>
    ('x, workflow_task) co_op" where
  "step_failed E rec task step attempt code =
     bnd (record_workflow_audit E rec ''WORKFLOW_STEP_FAILED'' ''execute_plan_step'' (attempt_doc attempt step)
       (JObj [(''error_code'', JStr code)]) Audit_FAILURE
       (system_value (wt_system_id task) @ '' workflow step exhausted its allowed attempts.'')) (\<lambda>_.
     bnd (now E) (\<lambda>t.
     validated WorkflowValidationError (WorkflowTaskRecord_validate (task\<lparr>wt_status := WT_FAILED, wt_attempt_count := attempt,
       wt_error_code := Some code, wt_updated_at := t\<rparr>))))"

text \<open>The retry loop. The attempt number grows and a retry needs it below the maximum.\<close>

function execute_attempts :: "'x engine \<Rightarrow> workflow_execution \<Rightarrow> remediation_plan \<Rightarrow> string \<Rightarrow> workflow_task \<Rightarrow> remediation_step \<Rightarrow>
    int \<Rightarrow> ('x, workflow_task) co_op" where
  "execute_attempts E rec plan approval_id task step n w =
    (let attempt = n + 1 in
     case bnd (call_gateway E rec plan step approval_id) (step_succeeded E rec task step attempt) w of
       (Inr updated, w1) \<Rightarrow> (Inr updated, w1)
     | (Inl (DependencyCallError code transient), w1) \<Rightarrow>
         if should_retry (eng_retry E) transient attempt
         then (case step_retried E rec task step attempt code w1 of
             (Inl e, w2) \<Rightarrow> (Inl e, w2)
           | (Inr _, w2) \<Rightarrow> execute_attempts E rec plan approval_id task step attempt w2)
         else step_failed E rec task step attempt code w1
     | (Inl e, w1) \<Rightarrow> (Inl e, w1))"
  by pat_completeness auto

termination execute_attempts
  by (relation "measure (\<lambda>(E, rec, plan, a, task, step, n, w). nat (rp_maximum_attempts (eng_retry E) - n))")
    (auto simp: should_retry_def)

definition execute_task :: "'x engine \<Rightarrow> workflow_execution \<Rightarrow> workflow_task \<times> remediation_step \<Rightarrow> ('x, workflow_task) co_op" where
  "execute_task E rec ts = (case ts of (task, step) \<Rightarrow>
     bnd (require_plan rec) (\<lambda>plan.
     case wf_approval_id rec of None \<Rightarrow> raise (WorkflowPermanentError ''APPROVAL_ID_MISSING'')
     | Some approval_id \<Rightarrow> execute_attempts E rec plan approval_id task step (wt_attempt_count task)))"

definition pending_tasks :: "(string, workflow_task) dict \<Rightarrow> workflow_task list" where
  "pending_tasks by_step = filter (\<lambda>task. wt_status task = WT_PENDING) (map snd by_step)"

definition succeeded_ids :: "(string, workflow_task) dict \<Rightarrow> string set" where
  "succeeded_ids by_step = set (map wt_step_id (filter (\<lambda>task. wt_status task = WT_SUCCEEDED) (map snd by_step)))"

definition with_step :: "(string, remediation_step) dict \<Rightarrow> workflow_task \<Rightarrow> ('x, workflow_task \<times> remediation_step) co_op" where
  "with_step steps task = bnd (validated UnexpectedError (dget steps (wt_step_id task))) (\<lambda>step. ret (task, step))"

definition ready_tasks :: "(string, workflow_task) dict \<Rightarrow> (workflow_task \<times> remediation_step) list \<Rightarrow> (workflow_task \<times> remediation_step) list" where
  "ready_tasks by_step pending = filter (\<lambda>(task, step). set (st_depends_on step) \<subseteq> succeeded_ids by_step) pending"

definition first_failure :: "workflow_task list \<Rightarrow> string option" where
  "first_failure results = (case find (\<lambda>task. wt_status task = WT_FAILED) results of None \<Rightarrow> None | Some task \<Rightarrow> wt_error_code task)"

text \<open>
  One round of the scheduling loop: the ready tasks run, their outcomes replace them, the record is stored.
\<close>

definition dag_round :: "'x engine \<Rightarrow> (string, remediation_step) dict \<Rightarrow> (string, workflow_task) dict \<Rightarrow> workflow_execution \<Rightarrow>
    ('x, workflow_task list \<times> (string, workflow_task) dict \<times> workflow_execution) co_op" where
  "dag_round E steps by_step rec =
     bnd (map_op (with_step steps) (pending_tasks by_step)) (\<lambda>pending.
     let ready = ready_tasks by_step pending in
     bnd (guard (ready \<noteq> []) (WorkflowPermanentError ''DAG_PROGRESS_BLOCKED'')) (\<lambda>_.
     bnd (gather_raise (execute_task E rec) ready) (\<lambda>results.
     let by_step' = fold (\<lambda>t. dput (wt_step_id t) t) results by_step in
     bnd (in_task_order by_step' (wf_tasks rec)) (\<lambda>tasks.
     bnd (update_record E rec (\<lambda>r. r\<lparr>wf_tasks := tasks, wf_last_error_code := first_failure results\<rparr>)) (\<lambda>rec'.
     ret (results, by_step', rec'))))))"

text \<open>
  The loop. Every round settles at least one pending task, so a fuel of one more than the number
  of tasks is never used up.
\<close>

fun dag_loop :: "nat \<Rightarrow> 'x engine \<Rightarrow> (string, remediation_step) dict \<Rightarrow> (string, workflow_task) dict \<Rightarrow> workflow_execution \<Rightarrow>
    ('x, workflow_execution) co_op" where
  "dag_loop 0 E steps by_step rec = raise OutOfFuel"
| "dag_loop (Suc fuel) E steps by_step rec =
    (if pending_tasks by_step = [] then ret rec
     else bnd (dag_round E steps by_step rec) (\<lambda>(results, by_step', rec').
       if list_ex (\<lambda>t. wt_status t = WT_FAILED) results then ret rec' else dag_loop fuel E steps by_step' rec'))"

definition execute_dag :: "'x engine \<Rightarrow> workflow_execution \<Rightarrow> ('x, workflow_execution) co_op" where
  "execute_dag E rec = bnd (require_plan rec) (\<lambda>plan.
     dag_loop (Suc (length (wf_tasks rec))) E (dict_of st_step_id (pl_steps plan)) (dict_of wt_step_id (wf_tasks rec)) rec)"

section \<open>Verification\<close>

definition call_verify :: "'x engine \<Rightarrow> workflow_execution \<Rightarrow> workflow_task \<Rightarrow> string \<Rightarrow> ('x, bool) co_op" where
  "call_verify E rec task expected =
     bnd (request_id E) (\<lambda>rid.
     bnd (on_remote (cl_verify (eng_clients E) (wt_system_id task) (wf_tenant_id rec) expected rid)) (\<lambda>result.
     bnd (bnd (workflow_audit E rec
         (if vx_passed result then ''WORKFLOW_VERIFICATION_SUCCEEDED'' else ''WORKFLOW_VERIFICATION_FAILED'') ''verify_system''
         (sha256_digest (task_doc [(''expected_field'', expected), (''system_id'', system_value (wt_system_id task))]))
         (vx_digest result) (if vx_passed result then Audit_SUCCESS else Audit_FAILURE)
         (''Independent '' @ system_value (wt_system_id task) @ '' verification completed.''))
       (\<lambda>audit. on_change_store (mem_record_audit audit))) (\<lambda>_.
     ret (vx_passed result))))"

function verify_attempts :: "'x engine \<Rightarrow> workflow_execution \<Rightarrow> workflow_task \<Rightarrow> string \<Rightarrow> int \<Rightarrow> ('x, bool) co_op" where
  "verify_attempts E rec task expected n w =
    (let attempt = n + 1 in
     case call_verify E rec task expected w of
       (Inl (DependencyCallError code transient), w1) \<Rightarrow>
         if should_retry (eng_retry E) transient attempt then verify_attempts E rec task expected attempt w1
         else (Inl (DependencyCallError code transient), w1)
     | outcome \<Rightarrow> outcome)"
  by pat_completeness auto

termination verify_attempts
  by (relation "measure (\<lambda>(E, rec, task, x, n, w). nat (rp_maximum_attempts (eng_retry E) - n))")
    (auto simp: should_retry_def)

definition verify_task :: "'x engine \<Rightarrow> workflow_execution \<Rightarrow> workflow_task \<times> remediation_step \<Rightarrow> ('x, bool) co_op" where
  "verify_task E rec ts = (case ts of (task, step) \<Rightarrow> (case dget (st_arguments step) ''new_field'' of
     Some (JStr expected) \<Rightarrow> verify_attempts E rec task expected 0
   | _ \<Rightarrow> raise (DependencyCallError ''VERIFICATION_ARGUMENT_MISSING'' False)))"

fun upper_system :: "sandbox_system \<Rightarrow> string" where
  "upper_system Sys_crm = ''CRM''"
| "upper_system Sys_analytics = ''ANALYTICS''"
| "upper_system Sys_support = ''SUPPORT''"

fun verification_error :: "(workflow_task \<times> (workflow_error + bool)) list \<Rightarrow> string option" where
  "verification_error [] = None"
| "verification_error ((task, Inl (DependencyCallError code transient)) # rest) = Some code"
| "verification_error ((task, Inl e) # rest) = Some ''VERIFY_FAILED''"
| "verification_error ((task, Inr passed) # rest) =
     (if passed then verification_error rest else Some (upper_system (wt_system_id task) @ ''_VERIFICATION_FAILED''))"

definition verify :: "'x engine \<Rightarrow> workflow_execution \<Rightarrow> ('x, string option) co_op" where
  "verify E rec = bnd (require_plan rec) (\<lambda>plan.
     bnd (map_op (with_step (dict_of st_step_id (pl_steps plan))) (wf_tasks rec)) (\<lambda>pairs.
     bnd (gather_exceptions (verify_task E rec) pairs) (\<lambda>results.
     ret (verification_error (zip (wf_tasks rec) results)))))"

section \<open>Compensation\<close>

definition task_rollback_failed :: "'x engine \<Rightarrow> workflow_task \<Rightarrow> string \<Rightarrow> ('x, workflow_task) co_op" where
  "task_rollback_failed E task code = bnd (now E) (\<lambda>t.
     validated WorkflowValidationError (WorkflowTaskRecord_validate
       (task\<lparr>wt_status := WT_ROLLBACK_FAILED, wt_error_code := Some code, wt_updated_at := t\<rparr>)))"

definition restore_task :: "'x engine \<Rightarrow> workflow_execution \<Rightarrow> workflow_task \<Rightarrow> string \<Rightarrow> string \<Rightarrow> ('x, workflow_task) co_op" where
  "restore_task E rec task snapshot_id snapshot_hash =
     bnd (request_id E) (\<lambda>rid.
     bnd (on_remote (cl_restore (eng_clients E) (wt_system_id task) (wf_tenant_id rec) snapshot_id rid)) (\<lambda>_.
     bnd (request_id E) (\<lambda>rid2.
     bnd (on_remote (cl_configuration_hash (eng_clients E) (wt_system_id task) (wf_tenant_id rec) rid2)) (\<lambda>restored_hash.
     bnd (guard (restored_hash = snapshot_hash) (DependencyCallError ''RESTORE_HASH_MISMATCH'' False)) (\<lambda>_.
     bnd (now E) (\<lambda>t.
     bnd (validated WorkflowValidationError (WorkflowTaskRecord_validate
       (task\<lparr>wt_status := WT_ROLLED_BACK, wt_error_code := None, wt_updated_at := t\<rparr>))) (\<lambda>updated.
     bnd (record_workflow_audit E rec ''WORKFLOW_ROLLBACK_SUCCEEDED'' ''restore_snapshot''
       (task_doc [(''snapshot_id'', snapshot_id), (''system_id'', system_value (wt_system_id task))])
       (task_doc [(''configuration_hash'', restored_hash)]) Audit_SUCCESS
       (system_value (wt_system_id task) @ '' snapshot restored and hash verified.'')) (\<lambda>_.
     ret updated))))))))"

definition rollback_task :: "'x engine \<Rightarrow> workflow_execution \<Rightarrow> workflow_task \<Rightarrow> ('x, workflow_task) co_op" where
  "rollback_task E rec task = (case (wt_snapshot_id task, wt_snapshot_hash task) of
     (Some snapshot_id, Some snapshot_hash) \<Rightarrow>
       catch (restore_task E rec task snapshot_id snapshot_hash) (\<lambda>e. case e of
         DependencyCallError code transient \<Rightarrow>
           bnd (task_rollback_failed E task code) (\<lambda>updated.
           bnd (record_workflow_audit E rec ''WORKFLOW_ROLLBACK_FAILED'' ''restore_snapshot''
             (task_doc [(''system_id'', system_value (wt_system_id task))]) (task_doc [(''error_code'', code)]) Audit_FAILURE
             (system_value (wt_system_id task) @ '' rollback requires operator attention.'')) (\<lambda>_.
           ret updated))
       | _ \<Rightarrow> raise e)
   | _ \<Rightarrow> task_rollback_failed E task ''SNAPSHOT_MISSING'')"

text \<open>
  The flag \<^verbatim>\<open>rollback_failed\<close> is set exactly where a task is given the status \<^const>\<open>WT_ROLLBACK_FAILED\<close>.
\<close>

fun rollback_tasks :: "'x engine \<Rightarrow> workflow_execution \<Rightarrow> workflow_task list \<Rightarrow> (string, workflow_task) dict \<Rightarrow> bool \<Rightarrow>
    ('x, (string, workflow_task) dict \<times> bool) co_op" where
  "rollback_tasks E rec [] by_step failed = ret (by_step, failed)"
| "rollback_tasks E rec (task # rest) by_step failed =
     bnd (rollback_task E rec task) (\<lambda>updated.
     rollback_tasks E rec rest (dput (wt_step_id task) updated by_step) (failed \<or> wt_status updated = WT_ROLLBACK_FAILED))"

definition rollback :: "'x engine \<Rightarrow> workflow_execution \<Rightarrow> string \<Rightarrow> ('x, workflow_execution) co_op" where
  "rollback E rec0 original_error =
     bnd (get_change rec0) (\<lambda>change.
     bnd (if cr_status change \<in> {WS_EXECUTING, WS_VERIFYING} then bnd (do_transition E rec0 WS_ROLLING_BACK no_updates) (\<lambda>_. ret ())
       else ret ()) (\<lambda>_.
     bnd (set_runtime_status E rec0 WR_ROLLING_BACK (Some original_error)) (\<lambda>rec.
     bnd (require_plan rec) (\<lambda>plan.
     bnd (map_op (with_step (dict_of st_step_id (pl_steps plan))) (wf_tasks rec)) (\<lambda>pairs.
     bnd (rollback_tasks E rec (map fst (sort_desc (\<lambda>(task, step). st_order step) pairs)) (dict_of wt_step_id (wf_tasks rec)) False)
       (\<lambda>(by_step, rollback_failed).
     bnd (in_task_order by_step (wf_tasks rec)) (\<lambda>tasks.
     bnd (update_record E rec (\<lambda>r. r\<lparr>wf_tasks := tasks\<rparr>)) (\<lambda>rec'.
     bnd (do_transition E rec' (if rollback_failed then WS_NEEDS_ATTENTION else WS_FAILED) no_updates) (\<lambda>_.
     make_terminal E rec' (if rollback_failed then WR_NEEDS_ATTENTION else WR_FAILED) (Some original_error))))))))))"

section \<open>Resuming after a decision\<close>

definition callback_rejected :: "'x engine \<Rightarrow> workflow_execution \<Rightarrow> change_record \<Rightarrow> ('x, workflow_execution) co_op" where
  "callback_rejected E rec change =
     bnd (if cr_status change = WS_AWAITING_APPROVAL then bnd (do_transition E rec WS_REJECTED no_updates) (\<lambda>_. ret ()) else ret ()) (\<lambda>_.
     make_terminal E rec WR_FAILED (Some ''APPROVAL_REJECTED''))"

definition callback_changes_requested :: "'x engine \<Rightarrow> workflow_execution \<Rightarrow> change_record \<Rightarrow> ('x, workflow_execution) co_op" where
  "callback_changes_requested E rec change =
     bnd (advance E rec WS_AWAITING_APPROVAL WS_REJECTED no_updates change) (\<lambda>change.
     bnd (if cr_status change = WS_REJECTED then bnd (do_transition E rec WS_ANALYZING no_updates) (\<lambda>_. ret ()) else ret ()) (\<lambda>_.
     set_runtime_status E rec WR_ANALYZING (Some ''APPROVAL_CHANGES_REQUESTED'')))"

definition verify_and_complete :: "'x engine \<Rightarrow> workflow_execution \<Rightarrow> ('x, workflow_execution) co_op" where
  "verify_and_complete E rec0 =
     bnd (do_transition E rec0 WS_VERIFYING no_updates) (\<lambda>_.
     bnd (set_runtime_status E rec0 WR_VERIFYING None) (\<lambda>rec.
     bnd (verify E rec) (\<lambda>verification_error. case verification_error of
       Some code \<Rightarrow> rollback E rec code
     | None \<Rightarrow> bnd (do_transition E rec WS_COMPLETED no_updates) (\<lambda>_. make_terminal E rec WR_COMPLETED None))))"

definition execute_plan :: "'x engine \<Rightarrow> workflow_execution \<Rightarrow> ('x, workflow_execution) co_op" where
  "execute_plan E rec0 =
     bnd (set_runtime_status E rec0 WR_EXECUTING None) (\<lambda>rec1.
     bnd (capture_snapshots E rec1) (\<lambda>rec2.
     bnd (execute_dag E rec2) (\<lambda>rec.
     if list_ex (\<lambda>task. wt_status task = WT_FAILED) (wf_tasks rec)
     then rollback E rec (case wf_last_error_code rec of None \<Rightarrow> ''TOOL_EXECUTION_FAILED'' | Some code \<Rightarrow> code)
     else verify_and_complete E rec)))"

definition callback_approved :: "'x engine \<Rightarrow> workflow_execution \<Rightarrow> change_record \<Rightarrow> ('x, workflow_execution) co_op" where
  "callback_approved E rec change =
     bnd (advance E rec WS_AWAITING_APPROVAL WS_APPROVED no_updates change) (\<lambda>c1.
     bnd (advance E rec WS_APPROVED WS_EXECUTING no_updates c1) (\<lambda>c2.
     bnd (guard (cr_status c2 = WS_EXECUTING) (WorkflowPermanentError ''CHANGE_NOT_EXECUTABLE'')) (\<lambda>_.
     execute_plan E rec)))"

definition callback_in_scope :: "approval_callback \<Rightarrow> workflow_execution \<Rightarrow> remediation_plan \<Rightarrow> bool" where
  "callback_in_scope cb rec plan \<longleftrightarrow> wf_approval_id rec = Some (cb_approval_id cb) \<and>
     wf_plan_hash rec = Some (cb_plan_hash cb) \<and> pl_version plan = cb_plan_version cb"

definition resume_approval :: "'x engine \<Rightarrow> approval_callback \<Rightarrow> ('x, workflow_execution) co_op" where
  "resume_approval E cb =
     bnd (on_change_store (mem_get (cb_tenant_id cb) (cb_change_id cb))) (\<lambda>change.
     case cr_workflow_execution_id change of
       None \<Rightarrow> raise (WorkflowPermanentError ''WORKFLOW_ID_MISSING'')
     | Some workflow_id \<Rightarrow>
       bnd (on_workflow_store (get_workflow (cb_tenant_id cb) (cb_change_id cb) workflow_id)) (\<lambda>rec.
       if wf_status rec \<in> {WR_COMPLETED, WR_FAILED, WR_NEEDS_ATTENTION} then ret rec
       else bnd (require_plan rec) (\<lambda>plan.
       bnd (guard (callback_in_scope cb rec plan) (WorkflowPermanentError ''APPROVAL_CALLBACK_SCOPE_MISMATCH'')) (\<lambda>_.
       case cb_status cb of
         CB_REJECTED \<Rightarrow> callback_rejected E rec change
       | CB_CHANGES_REQUESTED \<Rightarrow> callback_changes_requested E rec change
       | CB_APPROVED \<Rightarrow> callback_approved E rec change))))"

text \<open>
  The callback route. A \<^verbatim>\<open>TypeError\<close> of \<^verbatim>\<open>hmac.compare_digest\<close> has no handler.
\<close>

definition approval_callback_route :: "'x engine \<Rightarrow> string \<Rightarrow> approval_callback \<Rightarrow> string option \<Rightarrow> ('x, workflow_execution) co_op" where
  "approval_callback_route E secret body callback_secret = (case callback_secret of
     None \<Rightarrow> raise CallbackAuthenticationError
   | Some given \<Rightarrow>
       (case compare_digest given secret of
          None \<Rightarrow> raise UnexpectedError
        | Some False \<Rightarrow> raise CallbackAuthenticationError
        | Some True \<Rightarrow> resume_approval E body))"

end
