(* ===== verification/Workflow_Properties.thy ===== *)
theory Workflow_Properties
  imports Workflow_Engine
begin

text \<open>
  What the workflow engine guarantees. An operation is described by \<^verbatim>\<open>keeps I m Q\<close>: it keeps the invariant \<^verbatim>\<open>I\<close> of the
  coordinator's state on every outcome and its result, when it returns one, satisfies \<^verbatim>\<open>Q\<close>. The engine's invariant says
  that the change store and the workflow store hold valid records and that only the workflow's own change and
  record have been touched, along the edges of the state graph.
\<close>

declare execute_attempts.simps [simp del] verify_attempts.simps [simp del]

section \<open>Triples of the engine's combinators\<close>

lemma keeps_map_op:
  "(\<And>x. x \<in> set xs \<Longrightarrow> keeps I (f x) (Q x)) \<Longrightarrow> keeps I (map_op f xs) (\<lambda>ys. list_all2 Q xs ys)"
proof (induction xs)
  case (Cons x xs)
  have "keeps I (map_op f xs) (\<lambda>ys. list_all2 Q xs ys)" by (rule Cons.IH) (simp add: Cons.prems)
  then have "keeps I (bnd (map_op f xs) (\<lambda>ys. ret (y # ys))) (\<lambda>ys. list_all2 Q (x # xs) ys)" if "Q x y" for y
    by (rule keeps_bnd) (use that in \<open>auto intro: keeps_ret\<close>)
  with Cons.prems [of x] show ?case by (auto intro: keeps_bnd)
qed (simp add: keeps_ret)

lemma gather_keeps:
  "(\<And>x. x \<in> set xs \<Longrightarrow> keeps I (f x) (Q x)) \<Longrightarrow> I s \<Longrightarrow> gather f xs s = (rs, s') \<Longrightarrow>
   I s' \<and> list_all2 (\<lambda>x r. case r of Inl e \<Rightarrow> True | Inr y \<Rightarrow> Q x y) xs rs"
proof (induction xs arbitrary: s rs)
  case (Cons x xs)
  from Cons.prems(3) obtain r s1 rs1 where r: "f x s = (r, s1)" "gather f xs s1 = (rs1, s')" "rs = r # rs1"
    by (auto split: prod.splits)
  have "keeps I (f x) (Q x)" by (simp add: Cons.prems)
  then have "I s1 \<and> (\<forall>y. r = Inr y \<longrightarrow> Q x y)"
    using Cons.prems(2) r(1) unfolding keeps_def by blast
  then have "I s1 \<and> (case r of Inl e \<Rightarrow> True | Inr y \<Rightarrow> Q x y)" by (simp split: sum.split)
  with Cons.IH [of s1 rs1] Cons.prems(1) r show ?case by simp
qed simp

lemma first_error_Inr:
  "first_error rs = Inr ys \<Longrightarrow> list_all2 (\<lambda>x r. case r of Inl e \<Rightarrow> True | Inr y \<Rightarrow> Q x y) xs rs \<Longrightarrow> list_all2 Q xs ys"
proof (induction rs arbitrary: xs ys rule: first_error.induct)
  case (3 y rs)
  then obtain ys' where "first_error rs = Inr ys'" "ys = y # ys'" by (cases "first_error rs") auto
  with 3 show ?case by (auto simp: list_all2_Cons2)
qed auto

lemma keeps_gather_raise:
  assumes "\<And>x. x \<in> set xs \<Longrightarrow> keeps I (f x) (Q x)"
  shows "keeps I (gather_raise f xs) (\<lambda>ys. list_all2 Q xs ys)"
proof (rule keepsI)
  fix s r s' assume s: "I s" and run: "gather_raise f xs s = (r, s')"
  obtain rs where g: "gather f xs s = (rs, s')" "r = first_error rs"
    using run by (auto simp: gather_raise_def split: prod.splits)
  from gather_keeps [OF assms s g(1)] first_error_Inr g(2) show "I s' \<and> (\<forall>ys. r = Inr ys \<longrightarrow> list_all2 Q xs ys)" by auto
qed

lemma keeps_gather_exceptions:
  assumes "\<And>x. x \<in> set xs \<Longrightarrow> keeps I (f x) (Q x)"
  shows "keeps I (gather_exceptions f xs) (\<lambda>rs. list_all2 (\<lambda>x r. case r of Inl e \<Rightarrow> True | Inr y \<Rightarrow> Q x y) xs rs)"
proof (rule keepsI)
  fix s r s' assume s: "I s" and run: "gather_exceptions f xs s = (r, s')"
  obtain rs where g: "gather f xs s = (rs, s')" "r = Inr rs"
    using run by (auto simp: gather_exceptions_def split: prod.splits)
  from gather_keeps [OF assms s g(1)] g(2)
  show "I s' \<and> (\<forall>rs. r = Inr rs \<longrightarrow> list_all2 (\<lambda>x r. case r of Inl e \<Rightarrow> True | Inr y \<Rightarrow> Q x y) xs rs)" by auto
qed

section \<open>The invariant of the engine\<close>

definition workflow_ok :: "(instant \<Rightarrow> string) \<Rightarrow> workflow_execution \<Rightarrow> bool" where
  "workflow_ok iso_text r \<longleftrightarrow> strip_workflow r = r \<and> workflow_fields_ok r \<and> validate_workflow_lifecycle iso_text r"

definition stored_workflow :: "'x coordinator \<Rightarrow> workflow_key \<Rightarrow> workflow_execution option" where
  "stored_workflow w k = dget (w_workflows (co_workflows w)) k"

definition stored_change :: "'x coordinator \<Rightarrow> change_key \<Rightarrow> change_record option" where
  "stored_change w k = mem_changes_of (co_changes w) k"

definition co_ok :: "'x engine \<Rightarrow> 'x coordinator \<Rightarrow> bool" where
  "co_ok E w \<longleftrightarrow> mem_inv (co_changes w) \<and> all_valid (mem_changes_of (co_changes w)) \<and>
     (\<forall>k r. stored_workflow w k = Some r \<longrightarrow> workflow_key r = k \<and> workflow_ok (eng_iso_text E) r)"

definition change_of :: "workflow_key \<Rightarrow> change_key" where
  "change_of k = (fst k, fst (snd k))"

text \<open>
  Only the change and the workflows of the key's tenant and change may differ from the starting state, and the
  change has moved along the graph (from its creation, if it did not exist).
\<close>

definition confined :: "'x engine \<Rightarrow> workflow_key \<Rightarrow> 'x coordinator \<Rightarrow> 'x coordinator \<Rightarrow> bool" where
  "confined E k w0 w \<longleftrightarrow> co_ok E w \<and>
     (\<forall>c. c \<noteq> change_of k \<longrightarrow> stored_change w c = stored_change w0 c) \<and>
     (\<forall>j. change_of j \<noteq> change_of k \<longrightarrow> stored_workflow w j = stored_workflow w0 j) \<and>
     (\<forall>r. stored_change w0 (change_of k) = Some r \<longrightarrow>
        (\<exists>r'. stored_change w (change_of k) = Some r' \<and> reaches (cr_status r) (cr_status r'))) \<and>
     (\<forall>r'. stored_change w0 (change_of k) = None \<longrightarrow> stored_change w (change_of k) = Some r' \<longrightarrow>
        reaches WS_RECEIVED (cr_status r'))"

definition own :: "'x engine \<Rightarrow> workflow_key \<Rightarrow> workflow_execution \<Rightarrow> bool" where
  "own E k rec \<longleftrightarrow> workflow_key rec = k \<and> workflow_ok (eng_iso_text E) rec"

lemma confined_start: "co_ok E w \<Longrightarrow> confined E k w w"
  by (auto simp: confined_def intro: reaches_start)

lemma confined_counters [simp]:
  "confined E k w0 (w\<lparr>co_clock_reads := n\<rparr>) = confined E k w0 w"
  "confined E k w0 (w\<lparr>co_draws := n\<rparr>) = confined E k w0 w"
  "confined E k w0 (w\<lparr>co_remote := x\<rparr>) = confined E k w0 w"
  by (simp_all add: confined_def co_ok_def stored_change_def stored_workflow_def)

lemma kp_now [kps]: "keeps (confined E k w0) (now E) (\<lambda>_. True)"
  by (auto simp: keeps_def now_def)

lemma kp_uuid [kps]: "keeps (confined E k w0) (uuid E) (\<lambda>_. True)"
  by (auto simp: keeps_def uuid_def)

lemma kp_request_id [kps]: "keeps (confined E k w0) (request_id E) (\<lambda>_. True)"
  unfolding request_id_def by (rule keeps_bnd [OF kp_uuid]) (simp add: keeps_ret)

lemma kp_on_remote [kps]: "keeps (confined E k w0) (on_remote m) (\<lambda>_. True)"
  unfolding on_remote_def by (rule keeps_zoom) simp

text \<open>Operations on the change store that keep the changes.\<close>

lemma mem_record_audit_frame:
  "mem_record_audit e s = (r, s') \<Longrightarrow> mem_inv s \<Longrightarrow> mem_inv s' \<and> mem_changes_of s' = mem_changes_of s"
  using preserves_snd [OF mem_record_audit_preserves, of s e]
  by (auto simp: mem_record_audit_eq mem_abs store_writes fun_eq_iff split: option.splits if_splits)

lemma kp_change_frame:
  assumes "\<And>s r s'. m s = (r, s') \<Longrightarrow> mem_inv s \<Longrightarrow> mem_inv s' \<and> mem_changes_of s' = mem_changes_of s"
  shows "keeps (confined E k w0) (on_change_store m) (\<lambda>_. True)"
  unfolding on_change_store_def
proof (rule keeps_zoom)
  fix w r s' assume w: "confined E k w0 w" and m: "m (co_changes w) = (r, s')"
  from w have "mem_inv (co_changes w)" by (simp add: confined_def co_ok_def)
  from assms [OF m this] w show "confined E k w0 (w\<lparr>co_changes := s'\<rparr>) \<and> (\<forall>x. r = Inr x \<longrightarrow> True)"
    by (simp add: confined_def co_ok_def stored_change_def stored_workflow_def)
qed

lemma mem_get_same: "mem_get t c s = (r, s') \<Longrightarrow> s' = s"
  by (auto simp: mem_get_def get_unlocked_eq split: option.splits)

lemma kp_mem_get: "keeps (confined E k w0) (on_change_store (mem_get t c)) (\<lambda>_. True)"
  by (rule kp_change_frame) (auto dest: mem_get_same)

lemma kp_get_change [kps]: "keeps (confined E k w0) (get_change rec) (\<lambda>_. True)"
  unfolding get_change_def by (rule kp_mem_get)

lemma kp_workflow_audit [kps]: "keeps (confined E k w0) (workflow_audit E rec a b c d e f) (\<lambda>_. True)"
  unfolding workflow_audit_def
  by (intro keeps_bnd [OF kp_uuid] keeps_bnd [OF kp_now] keeps_weaken [OF keeps_validated]) simp

lemma kp_mem_record_audit [kps]: "keeps (confined E k w0) (on_change_store (mem_record_audit e)) (\<lambda>_. True)"
  by (rule kp_change_frame [OF mem_record_audit_frame])

lemma kp_record_workflow_audit [kps]: "keeps (confined E k w0) (record_workflow_audit E rec a b c d e f) (\<lambda>_. True)"
  unfolding record_workflow_audit_def by (rule keeps_bnd [OF kp_workflow_audit kp_mem_record_audit])

lemma kp_require_plan [kps]: "keeps (confined E k w0) (require_plan rec) (\<lambda>p. wf_plan rec = Some p)"
  by (auto simp: keeps_def require_plan_def split: option.splits)

section \<open>Updating the workflow record\<close>

lemma strip_workflow_idem: "strip_workflow (strip_workflow r) = strip_workflow r"
  by (simp add: strip_workflow_def option.map_comp comp_def)

lemma validated_workflow_ok:
  "WorkflowExecutionRecord_validate iso_text r = Some r' \<Longrightarrow> r' = strip_workflow r \<and> workflow_ok iso_text r'"
  using WorkflowExecutionRecord_validate_ok strip_workflow_idem by (auto simp: workflow_ok_def)

lemma strip_workflow_sel:
  "wf_tenant_id (strip_workflow r) = strip (wf_tenant_id r)" "wf_change_id (strip_workflow r) = strip (wf_change_id r)"
  "wf_workflow_execution_id (strip_workflow r) = strip (wf_workflow_execution_id r)"
  "wf_event_id (strip_workflow r) = strip (wf_event_id r)" "wf_event (strip_workflow r) = wf_event r"
  "wf_status (strip_workflow r) = wf_status r" "wf_plan (strip_workflow r) = wf_plan r"
  "wf_tasks (strip_workflow r) = map strip_task (wf_tasks r)" "wf_version (strip_workflow r) = wf_version r"
  "wf_plan_hash (strip_workflow r) = map_option strip (wf_plan_hash r)"
  "wf_approval_id (strip_workflow r) = map_option strip (wf_approval_id r)"
  "wf_approval_expires_at (strip_workflow r) = wf_approval_expires_at r"
  "wf_last_error_code (strip_workflow r) = map_option strip (wf_last_error_code r)"
  "wf_completed_at (strip_workflow r) = wf_completed_at r"
  by (simp_all add: strip_workflow_def)

lemma workflow_ok_key: "workflow_ok iso_text r \<Longrightarrow> strip (wf_tenant_id r) = wf_tenant_id r \<and>
    strip (wf_change_id r) = wf_change_id r \<and> strip (wf_workflow_execution_id r) = wf_workflow_execution_id r"
  using strip_workflow_sel(1-3) [of r] by (simp add: workflow_ok_def)

lemma workflow_ok_tasks: "workflow_ok iso_text r \<Longrightarrow> map strip_task (wf_tasks r) = wf_tasks r"
  using strip_workflow_sel(8) [of r] by (simp add: workflow_ok_def)

lemma workflow_key_strip:
  assumes "workflow_ok iso_text r" "workflow_key r' = workflow_key r"
  shows "workflow_key (strip_workflow (r'\<lparr>wf_updated_at := t, wf_version := v\<rparr>)) = workflow_key r"
  using workflow_ok_key [OF assms(1)] assms(2) by (simp add: workflow_key_def strip_workflow_sel)

lemma stored_workflow_put:
  "stored_workflow (w\<lparr>co_workflows := s\<lparr>w_workflows := dput j r (w_workflows s)\<rparr>\<rparr>) k =
    (if k = j then Some r else dget (w_workflows s) k)"
  by (simp add: stored_workflow_def)

lemma confined_put_workflow:
  assumes "confined E k w0 w" "own E k r"
  shows "confined E k w0 (w\<lparr>co_workflows := co_workflows w\<lparr>w_workflows := dput (workflow_key r) r (w_workflows (co_workflows w))\<rparr>\<rparr>)"
  using assms by (auto simp: confined_def co_ok_def own_def stored_workflow_put stored_change_def stored_workflow_def)

text \<open>An update keeps the key, renews the time stamp and the version and leaves the other fields as given.\<close>

definition updated_from :: "'x engine \<Rightarrow> workflow_key \<Rightarrow> workflow_execution \<Rightarrow> workflow_execution \<Rightarrow> bool" where
  "updated_from E k r' r \<longleftrightarrow> own E k r \<and>
     r = strip_workflow (r'\<lparr>wf_updated_at := wf_updated_at r, wf_version := wf_version r\<rparr>)"

lemma updated_from_sel:
  "updated_from E k r' r \<Longrightarrow> wf_status r = wf_status r' \<and> wf_plan r = wf_plan r' \<and> wf_tasks r = map strip_task (wf_tasks r') \<and>
     wf_last_error_code r = map_option strip (wf_last_error_code r') \<and> wf_completed_at r = wf_completed_at r' \<and>
     wf_approval_id r = map_option strip (wf_approval_id r') \<and> wf_plan_hash r = map_option strip (wf_plan_hash r')"
proof -
  assume "updated_from E k r' r"
  then have r: "r = strip_workflow (r'\<lparr>wf_updated_at := wf_updated_at r, wf_version := wf_version r\<rparr>)"
    by (simp add: updated_from_def)
  show ?thesis
    using arg_cong [OF r, of wf_status] arg_cong [OF r, of wf_plan] arg_cong [OF r, of wf_tasks]
      arg_cong [OF r, of wf_last_error_code] arg_cong [OF r, of wf_completed_at] arg_cong [OF r, of wf_approval_id]
      arg_cong [OF r, of wf_plan_hash]
    by (simp add: strip_workflow_sel)
qed

lemma updated_from_own: "updated_from E k r' r \<Longrightarrow> own E k r"
  by (simp add: updated_from_def)

lemma kp_update_workflow:
  assumes "own E k r"
  shows "keeps (confined E k w0) (on_workflow_store (update_workflow r v)) (\<lambda>x. x = r)"
  unfolding on_workflow_store_def
proof (rule keeps_zoom)
  fix w x s' assume w: "confined E k w0 w" and u: "update_workflow r v (co_workflows w) = (x, s')"
  show "confined E k w0 (w\<lparr>co_workflows := s'\<rparr>) \<and> (\<forall>y. x = Inr y \<longrightarrow> y = r)"
  proof (cases x)
    case (Inl e)
    with u have "s' = co_workflows w" using update_workflow_Inl by blast
    with w Inl show ?thesis by simp
  next
    case (Inr y)
    with u obtain c where "y = r" "s' = co_workflows w\<lparr>w_workflows := dput (workflow_key r) r (w_workflows (co_workflows w))\<rparr>"
      by (auto simp: update_workflow_Inr)
    with confined_put_workflow [OF w assms] Inr show ?thesis by simp
  qed
qed

lemma kp_update_record:
  assumes "own E k rec" "workflow_key (f rec) = workflow_key rec"
  shows "keeps (confined E k w0) (update_record E rec f) (updated_from E k (f rec))"
  unfolding update_record_def
proof (rule keeps_bnd [OF kp_now], rule keeps_bnd [OF keeps_validated])
  fix t u assume v: "WorkflowExecutionRecord_validate (eng_iso_text E)
    ((f rec)\<lparr>wf_updated_at := t, wf_version := wf_version rec + 1\<rparr>) = Some u"
  note u = validated_workflow_ok [OF v]
  from assms have "workflow_ok (eng_iso_text E) rec" by (simp add: own_def)
  from workflow_key_strip [OF this assms(2)] u assms(1) have o: "own E k u" by (metis own_def)
  have eq: "wf_updated_at u = t" "wf_version u = wf_version rec + 1" using u by (simp_all add: strip_workflow_def)
  then have "updated_from E k (f rec) u" using o u unfolding updated_from_def by simp
  then show "keeps (confined E k w0) (on_workflow_store (update_workflow u (wf_version rec))) (updated_from E k (f rec))"
    by (intro keeps_weaken [OF kp_update_workflow [OF o]]) simp
qed

lemma workflow_key_upd [simp]:
  "workflow_key (r\<lparr>wf_status := a\<rparr>) = workflow_key r" "workflow_key (r\<lparr>wf_last_error_code := b\<rparr>) = workflow_key r"
  "workflow_key (r\<lparr>wf_completed_at := c\<rparr>) = workflow_key r" "workflow_key (r\<lparr>wf_tasks := d\<rparr>) = workflow_key r"
  "workflow_key (r\<lparr>wf_delivery_attempts := e\<rparr>) = workflow_key r" "workflow_key (r\<lparr>wf_plan := p\<rparr>) = workflow_key r"
  "workflow_key (r\<lparr>wf_plan_hash := h\<rparr>) = workflow_key r" "workflow_key (r\<lparr>wf_approval_id := i\<rparr>) = workflow_key r"
  "workflow_key (r\<lparr>wf_approval_expires_at := j\<rparr>) = workflow_key r"
  by (simp_all add: workflow_key_def)

lemma kp_set_runtime_status:
  assumes "own E k rec"
  shows "keeps (confined E k w0) (set_runtime_status E rec st err)
    (\<lambda>r. own E k r \<and> wf_status r = st \<and> wf_plan r = wf_plan rec \<and> wf_tasks r = wf_tasks rec \<and> wf_approval_id r = wf_approval_id rec)"
proof (cases "wf_status rec = st \<and> wf_last_error_code rec = err")
  case True
  with assms show ?thesis by (auto simp: set_runtime_status_def intro: keeps_ret)
next
  case False
  have a: "map strip_task (wf_tasks rec) = wf_tasks rec" "map_option strip (wf_approval_id rec) = wf_approval_id rec"
    using assms workflow_ok_tasks strip_workflow_sel(11) [of rec] by (auto simp: own_def workflow_ok_def)
  show ?thesis unfolding set_runtime_status_def using False
    by (auto intro!: keeps_weaken [OF kp_update_record [OF assms]] simp: a dest: updated_from_sel updated_from_own)
qed

lemma kp_make_terminal:
  assumes "own E k rec"
  shows "keeps (confined E k w0) (make_terminal E rec st err) (\<lambda>r. own E k r \<and> wf_status r = st \<and> wf_tasks r = wf_tasks rec)"
proof (cases "wf_status rec = st \<and> wf_completed_at rec \<noteq> None")
  case True
  with assms show ?thesis by (auto simp: make_terminal_def intro: keeps_ret)
next
  case False
  have a: "map strip_task (wf_tasks rec) = wf_tasks rec" using assms workflow_ok_tasks by (auto simp: own_def)
  show ?thesis unfolding make_terminal_def using False
    by (auto intro!: keeps_bnd [OF kp_now] keeps_weaken [OF kp_update_record [OF assms]] simp: a dest: updated_from_sel updated_from_own)
qed

section \<open>Transitions and dead letters\<close>

lemma own_change: "own E k rec \<Longrightarrow> (wf_tenant_id rec, wf_change_id rec) = change_of k"
  by (auto simp: own_def workflow_key_def change_of_def)

lemma confined_put_change:
  assumes "confined E k w0 w" "stored_change w (change_of k) = Some cur" "can_transition (cr_status cur) (cr_status r)"
    and "mem_inv s'" "change_record_ok r" "mem_changes_of s' = (mem_changes_of (co_changes w))(change_of k \<mapsto> r)"
  shows "confined E k w0 (w\<lparr>co_changes := s'\<rparr>)"
proof -
  let ?w = "w\<lparr>co_changes := s'\<rparr>"
  have st: "stored_change ?w c = (if c = change_of k then Some r else stored_change w c)" for c
    using assms(6) by (simp add: stored_change_def)
  have wf: "stored_workflow ?w j = stored_workflow w j" for j by (simp add: stored_workflow_def)
  have "all_valid (mem_changes_of s')"
    using assms all_valid_upd [of "mem_changes_of (co_changes w)" r "change_of k"] by (simp add: confined_def co_ok_def)
  then have "co_ok E ?w" using assms(1,4) by (simp add: confined_def co_ok_def wf del: split_paired_All)
  moreover have "\<exists>r'. stored_change ?w (change_of k) = Some r' \<and> reaches (cr_status r0) (cr_status r')"
    if "stored_change w0 (change_of k) = Some r0" for r0
    using assms(1-3) that by (auto simp: confined_def st intro: reaches_step)
  moreover have "reaches WS_RECEIVED (cr_status r')"
    if "stored_change w0 (change_of k) = None" "stored_change ?w (change_of k) = Some r'" for r'
    using assms(1-3) that by (auto simp: confined_def st intro: reaches_step)
  ultimately show ?thesis using assms(1) unfolding confined_def st wf by auto
qed

text \<open>What a transition the engine asks for does, seen from the state.\<close>

lemma transition_zoom:
  assumes c: "confined E k w0 w" and ta: "(ta_tenant_id a, ta_change_id a) = change_of k"
    and run: "transition iso_text mem_ops (Aware t) i a (co_changes w) = (res, s')"
  shows "confined E k w0 (w\<lparr>co_changes := s'\<rparr>) \<and>
    (\<forall>r. res = Inr r \<longrightarrow> cr_status r = ta_target a \<and> stored_change (w\<lparr>co_changes := s'\<rparr>) (change_of k) = Some r)"
proof -
  have I: "mem_inv (co_changes w)" "all_valid (mem_changes_of (co_changes w))" using c by (simp_all add: confined_def co_ok_def)
  note cases = mem.transition_cases [OF I run]
  show ?thesis
  proof (cases res)
    case (Inl x)
    with cases have "mem_inv s'" "mem_changes_of s' = mem_changes_of (co_changes w)" by auto
    with c have "confined E k w0 (w\<lparr>co_changes := s'\<rparr>)"
      by (simp add: confined_def co_ok_def stored_change_def stored_workflow_def)
    with Inl show ?thesis by simp
  next
    case (Inr r)
    with cases ta obtain cur where cur: "mem_changes_of (co_changes w) (change_of k) = Some cur"
      "can_transition (cr_status cur) (ta_target a)" "mem_inv s'" "cr_status r = ta_target a" "change_record_ok r"
      "mem_changes_of s' = (mem_changes_of (co_changes w))(change_of k \<mapsto> r)" by auto
    then have "confined E k w0 (w\<lparr>co_changes := s'\<rparr>)"
      by (intro confined_put_change [OF c, of cur r]) (simp_all add: stored_change_def)
    with cur Inr show ?thesis by (simp add: stored_change_def)
  qed
qed

lemma kp_do_transition:
  assumes "own E k rec"
  shows "keeps (confined E k w0) (do_transition E rec target upd) (\<lambda>c. cr_status c = target)"
  unfolding do_transition_def
proof (intro keeps_bnd [OF kp_get_change] keeps_bnd [OF kp_now] keeps_bnd [OF kp_uuid], rule keeps_zoom, goal_cases)
  case (1 cur t h w r s')
  from transition_zoom [OF 1(4) _ 1(5)] own_change [OF assms] show ?case by simp
qed

lemma kp_advance:
  assumes "own E k rec"
  shows "keeps (confined E k w0) (advance E rec src target upd c) (\<lambda>c'. c' = c \<or> cr_status c' = target)"
  unfolding advance_def
  by (rule keeps_if) (auto intro: keeps_weaken [OF kp_do_transition [OF assms]] keeps_ret)

lemma record_dead_letter_frame: "record_dead_letter d s = (r, s') \<Longrightarrow> w_workflows s' = w_workflows s"
  by (auto simp: record_dead_letter_def Let_def split: option.splits if_splits)

lemma kp_record_dead_letter [kps]: "keeps (confined E k w0) (on_workflow_store (record_dead_letter d)) (\<lambda>_. True)"
  unfolding on_workflow_store_def
proof (rule keeps_zoom)
  fix w r s' assume w: "confined E k w0 w" and d: "record_dead_letter d (co_workflows w) = (r, s')"
  from record_dead_letter_frame [OF d] w show "confined E k w0 (w\<lparr>co_workflows := s'\<rparr>) \<and> (\<forall>x. r = Inr x \<longrightarrow> True)"
    by (simp add: confined_def co_ok_def stored_change_def stored_workflow_def)
qed

lemma kp_do_dead_letter:
  assumes "own E k rec"
  shows "keeps (confined E k w0) (do_dead_letter E rec code) (\<lambda>r. own E k r \<and> wf_status r = WR_DEAD_LETTERED)"
  unfolding do_dead_letter_def
  by (intro keeps_bnd [OF kp_make_terminal [OF assms]] keeps_bnd [OF kp_now] keeps_bnd [OF keeps_validated]
      keeps_bnd [OF kp_record_dead_letter]) (auto intro: keeps_ret)

section \<open>Receiving events\<close>

lemma mem_add_with_audit_frame:
  assumes "mem_add_with_audit r e s = (res, s')" "mem_inv s"
  shows "mem_inv s' \<and> (mem_changes_of s' = mem_changes_of s \<or>
     mem_changes_of s (change_key r) = None \<and> mem_changes_of s' = (mem_changes_of s)(change_key r \<mapsto> r))"
  using preserves_snd [OF mem_add_with_audit_preserves, of s r e] assms
  by (auto simp: mem_add_with_audit_eq mem_abs store_writes fun_eq_iff split: if_splits)

lemma confined_new_change:
  assumes c: "confined E k w0 w" and s': "mem_inv s'" "change_record_ok r" "cr_status r = WS_RECEIVED"
    and new: "stored_change w (change_of k) = None" "mem_changes_of s' = (mem_changes_of (co_changes w))(change_of k \<mapsto> r)"
  shows "confined E k w0 (w\<lparr>co_changes := s'\<rparr>)"
proof -
  let ?w = "w\<lparr>co_changes := s'\<rparr>"
  have st: "stored_change ?w c = (if c = change_of k then Some r else stored_change w c)" for c
    using new(2) by (simp add: stored_change_def)
  have wf: "stored_workflow ?w j = stored_workflow w j" for j by (simp add: stored_workflow_def)
  have "all_valid (mem_changes_of s')"
    using c s' new all_valid_upd [of "mem_changes_of (co_changes w)" r "change_of k"] by (simp add: confined_def co_ok_def)
  then have "co_ok E ?w" using c s' by (simp add: confined_def co_ok_def wf del: split_paired_All)
  with c new(1) s'(3) show ?thesis unfolding confined_def st wf by (auto intro: reaches_start)
qed

lemma kp_create_change:
  assumes "own E k rec"
  shows "keeps (confined E k w0) (create_change E rec) (\<lambda>_. True)"
  unfolding create_change_def
proof (rule keeps_bnd [OF kp_now], rule keeps_bnd [OF keeps_validated], rule keeps_bnd [OF kp_workflow_audit],
    rule keeps_bnd [OF keeps_catch [where Q = "\<lambda>_. True"]], goal_cases)
  case (1 t change audit)
  from assms have ok: "strip (wf_tenant_id rec) = wf_tenant_id rec" "strip (wf_change_id rec) = wf_change_id rec"
    using workflow_ok_key by (auto simp: own_def)
  from 1(2) have "change = strip_change_record (new_change rec t)"
    by (auto simp: ChangeRecord_validate_def Let_def split: if_splits)
  then have ch: "change_key change = change_of k" "cr_status change = WS_RECEIVED"
    using ok own_change [OF assms]
    by (simp_all add: change_key_def new_change_def Let_def strip_change_record_ids)
  note valid = ChangeRecord_validate_ok [OF 1(2)]
  have "keeps (confined E k w0) (on_change_store (mem_add_with_audit change audit)) (\<lambda>_. True)"
    unfolding on_change_store_def
  proof (rule keeps_zoom)
    fix w r s' assume w: "confined E k w0 w" and m: "mem_add_with_audit change audit (co_changes w) = (r, s')"
    have "mem_inv (co_changes w)" using w by (simp add: confined_def co_ok_def)
    from mem_add_with_audit_frame [OF m this] have fr: "mem_inv s'"
      "mem_changes_of s' = mem_changes_of (co_changes w) \<or> mem_changes_of (co_changes w) (change_of k) = None \<and>
        mem_changes_of s' = (mem_changes_of (co_changes w))(change_of k \<mapsto> change)" by (auto simp: ch)
    have same: "confined E k w0 (w\<lparr>co_changes := s'\<rparr>)" if "mem_changes_of s' = mem_changes_of (co_changes w)"
      using w fr(1) that by (simp add: confined_def co_ok_def stored_change_def stored_workflow_def)
    from fr same confined_new_change [OF w fr(1) valid ch(2)]
    show "confined E k w0 (w\<lparr>co_changes := s'\<rparr>) \<and> (\<forall>x. r = Inr x \<longrightarrow> True)" by (auto simp: stored_change_def)
  qed
  then show ?case by (rule keeps_bnd) (simp add: keeps_ret)
next
  case (2 t change audit e)
  have "keeps (confined E k w0) (bnd (get_change rec) (\<lambda>existing.
      bnd (guard (cr_event_id existing = wf_event_id rec) (WorkflowPermanentError ''CHANGE_ID_COLLISION'')) (\<lambda>_. ret existing))) (\<lambda>_. True)"
    by (rule keeps_bnd [OF kp_get_change], rule keeps_bnd [OF keeps_guard]) (simp add: keeps_ret)
  then show ?case by (auto intro: keeps_raise split: workflow_error.split persistence_error.split)
next
  case (3 t change audit x)
  then show ?case by (simp add: keeps_ret)
qed

lemma kp_ensure_change:
  assumes "own E k rec"
  shows "keeps (confined E k w0) (ensure_change E rec) (\<lambda>_. True)"
  unfolding ensure_change_def
  by (rule keeps_catch [OF kp_get_change])
    (auto intro: keeps_raise kp_create_change [OF assms] split: workflow_error.split persistence_error.split)

lemma kp_unit_transition:
  assumes "own E k rec"
  shows "keeps (confined E k w0) (if b then bnd (do_transition E rec target upd) (\<lambda>_. ret ()) else ret ()) (\<lambda>_. True)"
  by (rule keeps_if) (auto intro!: keeps_bnd [OF kp_do_transition [OF assms]] keeps_ret)

lemma kp_block_injection:
  assumes "own E k rec"
  shows "keeps (confined E k w0) (block_injection E rec event code) (own E k)"
  unfolding block_injection_def
  by (intro keeps_then [OF kp_record_workflow_audit] keeps_bnd [OF kp_do_transition [OF assms]]
      keeps_weaken [OF kp_make_terminal [OF assms]]) simp

lemma kp_fleet_failed:
  assumes "own E k rec"
  shows "keeps (confined E k w0) (fleet_failed E rec event e) (own E k)"
  unfolding fleet_failed_def
  by (cases e) (auto intro!: keeps_raise keeps_if kp_block_injection [OF assms] keeps_weaken [OF kp_do_dead_letter [OF assms]])

lemma kp_new_task: "keeps (confined E k w0) (new_task t step) (\<lambda>_. True)"
  unfolding new_task_def by (rule keeps_bnd [OF keeps_lift_sum]) (rule keeps_weaken [OF keeps_validated], simp)

definition exit_own :: "'x engine \<Rightarrow> workflow_key \<Rightarrow> workflow_execution step_exit \<Rightarrow> bool" where
  "exit_own E k ex = (case ex of Return r \<Rightarrow> own E k r | Continue r \<Rightarrow> own E k r)"

lemma exit_own_simps [simp]: "exit_own E k (Return r) = own E k r" "exit_own E k (Continue r) = own E k r"
  by (simp_all add: exit_own_def)

lemma kp_accept_plan:
  assumes "own E k rec"
  shows "keeps (confined E k w0) (accept_plan E rec analysis) (exit_own E k)"
  unfolding accept_plan_def Let_def
proof (rule keeps_if, goal_cases)
  case 1
  show ?case by (rule keeps_bnd [OF kp_do_dead_letter [OF assms]]) (simp add: keeps_ret)
next
  case 2
  show ?case
    by (intro keeps_then [OF kp_now] keeps_bnd [OF keeps_map_op [OF kp_new_task]] keeps_bnd [OF kp_update_record [OF assms]])
      (auto intro!: keeps_ret dest: updated_from_own)
qed

lemma kp_analyze_event:
  assumes "own E k rec"
  shows "keeps (confined E k w0) (analyze_event E rec event) (exit_own E k)"
  unfolding analyze_event_def
proof (rule keeps_if, goal_cases)
  case 1
  show ?case using assms by (simp add: keeps_ret)
next
  case 2
  let ?Q = "\<lambda>out. case out of Inl r \<Rightarrow> own E k r | Inr a \<Rightarrow> True"
  have c: "keeps (confined E k w0) (catch (bnd (on_remote (cl_analyze (eng_clients E) (wf_change_id rec) event rid)) (\<lambda>a. ret (Inr a)))
       (\<lambda>e. bnd (fleet_failed E rec event e) (\<lambda>r. ret (Inl r)))) ?Q" for rid
    by (intro keeps_catch keeps_then [OF kp_on_remote] keeps_bnd [OF kp_fleet_failed [OF assms]]) (auto intro: keeps_ret)
  have "keeps (confined E k w0) (bnd (get_change rec) (\<lambda>change.
      bnd (if cr_status change = WS_SCREENING then bnd (do_transition E rec WS_ANALYZING no_updates) (\<lambda>_. ret ()) else ret ()) (\<lambda>_.
      accept_plan E rec analysis))) (exit_own E k)" for analysis
    by (intro keeps_then [OF kp_get_change] keeps_then [OF kp_unit_transition [OF assms]] kp_accept_plan [OF assms])
  then show ?case
    by (intro keeps_then [OF kp_request_id] keeps_bnd [OF c]) (auto intro: keeps_ret split: sum.splits)
qed

lemma kp_request_approval:
  assumes "own E k rec"
  shows "keeps (confined E k w0) (request_approval E rec plan) (own E k)"
proof -
  let ?Q = "\<lambda>dead. case dead of Some r \<Rightarrow> own E k r | None \<Rightarrow> True"
  have h: "keeps (confined E k w0) (case e of DependencyCallError code transient \<Rightarrow>
      if transient then raise (WorkflowTransientError code) else bnd (do_dead_letter E rec code) (\<lambda>r. ret (Some r))
    | _ \<Rightarrow> raise e) ?Q" for e
    by (cases e) (auto intro!: keeps_raise keeps_bnd [OF kp_do_dead_letter [OF assms]] keeps_ret)
  have st: "keeps (confined E k w0) (set_runtime_status E rec st x) (own E k)" for st x
    by (rule keeps_weaken [OF kp_set_runtime_status [OF assms]]) simp
  show ?thesis
    unfolding request_approval_def
    by (auto intro!: keeps_raise keeps_then [OF kp_request_id] keeps_bnd [OF keeps_catch [OF keeps_then [OF kp_on_remote] h]]
        keeps_ret st split: option.split)
qed

lemma kp_await_approval:
  assumes "own E k rec"
  shows "keeps (confined E k w0) (await_approval E rec) (own E k)"
  unfolding await_approval_def
  by (intro keeps_bnd [OF kp_require_plan] keeps_then [OF kp_get_change] keeps_bnd [OF kp_advance [OF assms]]
      keeps_bnd [OF keeps_guard] kp_request_approval [OF assms])

lemma get_workflow_own:
  assumes "co_ok E w" "get_workflow t c i (co_workflows w) = (Inr r, s')"
  shows "own E (t, c, i) r \<and> s' = co_workflows w"
proof -
  from assms(2) have "stored_workflow w (t, c, i) = Some r" "s' = co_workflows w"
    by (auto simp: get_workflow_def stored_workflow_def split: option.splits)
  with assms(1) show ?thesis by (simp add: co_ok_def own_def del: split_paired_All)
qed

lemma kp_get_workflow: "keeps (confined E k w0) (on_workflow_store (get_workflow t c i)) (own E (t, c, i))"
  unfolding on_workflow_store_def
proof (rule keeps_zoom)
  fix w r s' assume w: "confined E k w0 w" and g: "get_workflow t c i (co_workflows w) = (r, s')"
  have "s' = co_workflows w" using g by (auto simp: get_workflow_def split: option.splits)
  with w g get_workflow_own [of E w t c i] show "confined E k w0 (w\<lparr>co_workflows := s'\<rparr>) \<and> (\<forall>x. r = Inr x \<longrightarrow> own E (t, c, i) x)"
    by (auto simp: confined_def)
qed

lemma kp_create_or_get:
  assumes "own E k rec"
  shows "keeps (confined E k w0) (on_workflow_store (create_or_get rec)) (own E k)"
  unfolding on_workflow_store_def
proof (rule keeps_zoom)
  fix w r s' assume w: "confined E k w0 w" and g: "create_or_get rec (co_workflows w) = (r, s')"
  show "confined E k w0 (w\<lparr>co_workflows := s'\<rparr>) \<and> (\<forall>x. r = Inr x \<longrightarrow> own E k x)"
  proof (cases "stored_workflow w (workflow_key rec)")
    case None
    with g have "r = Inr rec" "s' = co_workflows w\<lparr>w_workflows := dput (workflow_key rec) rec (w_workflows (co_workflows w))\<rparr>"
      by (simp_all add: create_or_get_def stored_workflow_def put_workflow_def)
    with confined_put_workflow [OF w assms] assms show ?thesis by simp
  next
    case (Some x)
    with g have "s' = co_workflows w" "r = Inr x \<or> (\<exists>e. r = Inl e)"
      by (auto simp: create_or_get_def stored_workflow_def split: if_splits)
    moreover have "own E k x"
      using w Some assms by (simp add: confined_def co_ok_def own_def del: split_paired_All)
    ultimately show ?thesis using w by auto
  qed
qed

definition workflow_event_key :: "change_event \<Rightarrow> workflow_key" where
  "workflow_event_key event = (ev_tenant_id event, derive_change_id event, derive_workflow_id event)"

lemma removeprefix_digest: "removeprefix ''sha256:'' (sha256_digest d) = drop 7 (sha256_digest d)"
  by (simp add: sha256_digest_def removeprefix_def)

text \<open>The tenant of a validated event has no surrounding blanks.\<close>

lemma kp_load_workflow:
  assumes "strip (ev_tenant_id event) = ev_tenant_id event"
  shows "keeps (confined E (workflow_event_key event) w0) (load_workflow E event t) (exit_own E (workflow_event_key event))"
  unfolding load_workflow_def
proof (rule keeps_catch, goal_cases)
  case 1
  have "keeps (confined E (workflow_event_key event) w0) (on_workflow_store (get_workflow (ev_tenant_id event) (derive_change_id event)
      (derive_workflow_id event))) (own E (workflow_event_key event))"
    unfolding workflow_event_key_def by (rule kp_get_workflow)
  then show ?case
    by (rule keeps_bnd) (auto intro!: keeps_ret keeps_bnd [OF kp_update_record] dest: updated_from_own)
next
  case (2 e)
  have ids: "strip (derive_change_id event) = derive_change_id event" "strip (derive_workflow_id event) = derive_workflow_id event"
    unfolding derive_change_id_def derive_workflow_id_def removeprefix_digest
    by (rule digest_id_ok(1); simp add: is_whitespace_def)+
  have "own E (workflow_event_key event) r"
    if "WorkflowExecutionRecord_validate (eng_iso_text E) (new_workflow event t) = Some r" for r
  proof -
    have k: "workflow_key (strip_workflow (new_workflow event t)) = workflow_event_key event"
      using assms ids by (simp add: workflow_event_key_def workflow_key_def strip_workflow_sel new_workflow_def)
    from validated_workflow_ok [OF that] k show ?thesis unfolding own_def by metis
  qed
  then show ?case
    by (auto intro!: keeps_raise keeps_bnd [OF keeps_validated] keeps_bnd [OF kp_create_or_get] keeps_ret)
qed

lemma kp_run_analysis:
  assumes "own E k rec"
  shows "keeps (confined E k w0) (run_analysis E rec event) (own E k)"
  unfolding run_analysis_def
proof (rule keeps_then [OF kp_ensure_change [OF assms]], rule keeps_bnd [OF kp_set_runtime_status [OF assms]])
  fix r assume "own E k r \<and> wf_status r = WR_ANALYZING \<and> wf_plan r = wf_plan rec \<and> wf_tasks r = wf_tasks rec \<and> wf_approval_id r = wf_approval_id rec"
  then have r: "own E k r" by simp
  show "keeps (confined E k w0) (bnd (get_change r) (\<lambda>change.
     bnd (advance E r WS_RECEIVED WS_SCREENING
       (no_updates\<lparr>ru_workflow_execution_id := Some (Some (wf_workflow_execution_id r))\<rparr>) change) (\<lambda>_.
     bnd (analyze_event E r event) (\<lambda>ex. case ex of Return r \<Rightarrow> ret r | Continue r \<Rightarrow> await_approval E r)))) (own E k)"
    by (intro keeps_then [OF kp_get_change] keeps_bnd [OF kp_advance [OF r]] keeps_bnd [OF kp_analyze_event [OF r]])
      (auto simp: exit_own_def intro: keeps_ret kp_await_approval split: step_exit.splits)
qed

lemma kp_process_event:
  assumes "strip (ev_tenant_id event) = ev_tenant_id event"
  shows "keeps (confined E (workflow_event_key event) w0) (process_event E event) (own E (workflow_event_key event))"
  unfolding process_event_def
  by (intro keeps_then [OF kp_now] keeps_bnd [OF kp_load_workflow [OF assms]])
    (auto simp: exit_own_def intro!: keeps_ret kp_run_analysis keeps_weaken [OF kp_do_dead_letter] split: step_exit.splits)

section \<open>Executing tasks\<close>

lemma strip_task_sel:
  "wt_step_id (strip_task t) = strip (wt_step_id t)" "wt_system_id (strip_task t) = wt_system_id t"
  "wt_status (strip_task t) = wt_status t" "wt_attempt_count (strip_task t) = wt_attempt_count t"
  "wt_snapshot_id (strip_task t) = map_option strip (wt_snapshot_id t)"
  "wt_snapshot_hash (strip_task t) = map_option strip (wt_snapshot_hash t)"
  "wt_error_code (strip_task t) = map_option strip (wt_error_code t)"
  by (simp_all add: strip_task_def)

text \<open>A task that differs from another only in what an operation of the engine sets.\<close>

definition same_task :: "workflow_task \<Rightarrow> workflow_task \<Rightarrow> bool" where
  "same_task t t' \<longleftrightarrow> strip_task t' = t' \<and> wt_step_id t' = wt_step_id t \<and> wt_system_id t' = wt_system_id t"

definition keeps_snapshot_of :: "workflow_task \<Rightarrow> workflow_task \<Rightarrow> bool" where
  "keeps_snapshot_of t t' \<longleftrightarrow> wt_snapshot_id t' = wt_snapshot_id t \<and> wt_snapshot_hash t' = wt_snapshot_hash t"

lemma stripped_task: "strip_task t = t \<Longrightarrow> strip (wt_step_id t) = wt_step_id t \<and>
    map_option strip (wt_snapshot_id t) = wt_snapshot_id t \<and> map_option strip (wt_snapshot_hash t) = wt_snapshot_hash t"
  using strip_task_sel(1,5,6) [of t] by simp

lemma validated_task:
  "WorkflowTaskRecord_validate t = Some t' \<Longrightarrow> t' = strip_task t \<and> validate_artifacts t'"
  by (auto dest: WorkflowTaskRecord_validate_ok)

definition attempted :: "'x engine \<Rightarrow> workflow_task \<Rightarrow> int \<Rightarrow> workflow_task \<Rightarrow> bool" where
  "attempted E task n t' \<longleftrightarrow> same_task task t' \<and> keeps_snapshot_of task t' \<and> wt_status t' \<in> {WT_SUCCEEDED, WT_FAILED} \<and>
     n < wt_attempt_count t' \<and> wt_attempt_count t' \<le> max (n + 1) (rp_maximum_attempts (eng_retry E))"

lemma attempted_step:
  assumes "attempted E task (n + 1) t'" "n + 1 < rp_maximum_attempts (eng_retry E)"
  shows "attempted E task n t'"
  using assms by (auto simp: attempted_def)

lemma kp_call_gateway [kps]: "keeps (confined E k w0) (call_gateway E rec plan step a) (\<lambda>_. True)"
  unfolding call_gateway_def by (intro keeps_then [OF kp_now] keeps_then [OF kp_request_id] kp_on_remote)

lemma attempted_one:
  assumes "WorkflowTaskRecord_validate (task\<lparr>wt_status := st, wt_attempt_count := n + 1, wt_execution_id := x,
      wt_output_hash := y, wt_error_code := z, wt_updated_at := u\<rparr>) = Some t'"
    "strip_task task = task" "st \<in> {WT_SUCCEEDED, WT_FAILED}"
  shows "attempted E task n t'"
  using validated_task [OF assms(1)] stripped_task [OF assms(2)] assms(3)
  by (auto simp: attempted_def same_task_def keeps_snapshot_of_def strip_task_sel)

lemma kp_step_succeeded:
  assumes "strip_task task = task"
  shows "keeps (confined E k w0) (step_succeeded E rec task step (n + 1) result) (attempted E task n)"
  unfolding step_succeeded_def
  by (intro keeps_then [OF kp_record_workflow_audit] keeps_then [OF kp_now] keeps_weaken [OF keeps_validated])
    (erule attempted_one [OF _ assms], simp)

lemma kp_step_failed:
  assumes "strip_task task = task"
  shows "keeps (confined E k w0) (step_failed E rec task step (n + 1) code) (attempted E task n)"
  unfolding step_failed_def
proof (intro keeps_then [OF kp_record_workflow_audit] keeps_then [OF kp_now] keeps_weaken [OF keeps_validated], goal_cases)
  case (1 u v t')
  then have "WorkflowTaskRecord_validate (task\<lparr>wt_status := WT_FAILED, wt_attempt_count := n + 1,
      wt_execution_id := wt_execution_id task, wt_output_hash := wt_output_hash task, wt_error_code := Some code,
      wt_updated_at := v\<rparr>) = Some t'" by simp
  then show ?case by (rule attempted_one) (use assms in simp_all)
qed

lemma execute_attempts_keeps:
  assumes "strip_task task = task"
  shows "confined E k w0 w \<Longrightarrow> execute_attempts E rec plan a task step n w = (r, w') \<Longrightarrow>
    confined E k w0 w' \<and> (\<forall>t'. r = Inr t' \<longrightarrow> attempted E task n t')"
proof (induction "nat (rp_maximum_attempts (eng_retry E) - n)" arbitrary: n w rule: less_induct)
  case less
  let ?m = "bnd (call_gateway E rec plan step a) (step_succeeded E rec task step (n + 1))"
  have m: "keeps (confined E k w0) ?m (attempted E task n)"
    by (intro keeps_then [OF kp_call_gateway] kp_step_succeeded [OF assms])
  obtain r1 w1 where m1: "?m w = (r1, w1)" by fastforce
  have w1: "confined E k w0 w1" using keeps_state [OF m less.prems(1) m1] .
  show ?case
  proof (cases "\<exists>code transient. r1 = Inl (DependencyCallError code transient)")
    case False
    with less.prems(2) m1 have "r = r1" "w' = w1"
      by (auto simp: execute_attempts.simps [of _ _ _ _ _ _ n] Let_def split: sum.splits workflow_error.splits)
    with m1 m less.prems(1) show ?thesis unfolding keeps_def by blast
  next
    case True
    then obtain code tr where e: "r1 = Inl (DependencyCallError code tr)" by blast
    show ?thesis
    proof (cases "should_retry (eng_retry E) tr (n + 1)")
      case False
      with less.prems(2) m1 e have "step_failed E rec task step (n + 1) code w1 = (r, w')"
        by (simp add: execute_attempts.simps [of _ _ _ _ _ _ n] Let_def)
      with kp_step_failed [OF assms] w1 show ?thesis unfolding keeps_def by blast
    next
      case retry: True
      obtain r2 w2 where st: "step_retried E rec task step (n + 1) code w1 = (r2, w2)" by fastforce
      have w2: "confined E k w0 w2"
        using st w1 keeps_state [OF kp_record_workflow_audit] unfolding step_retried_def by blast
      show ?thesis
      proof (cases r2)
        case (Inl x)
        with less.prems(2) m1 e retry st w2 show ?thesis by (auto simp: execute_attempts.simps [of _ _ _ _ _ _ n] Let_def)
      next
        case (Inr u)
        with less.prems(2) m1 e retry st have rec: "execute_attempts E rec plan a task step (n + 1) w2 = (r, w')"
          by (simp add: execute_attempts.simps [of _ _ _ _ _ _ n] Let_def)
        from retry have lt: "n + 1 < rp_maximum_attempts (eng_retry E)" by (simp add: should_retry_def)
        then have "nat (rp_maximum_attempts (eng_retry E) - (n + 1)) < nat (rp_maximum_attempts (eng_retry E) - n)" by simp
        from less.hyps [OF this w2 rec] attempted_step [OF _ lt] show ?thesis by blast
      qed
    qed
  qed
qed

lemma kp_execute_task:
  assumes "strip_task task = task"
  shows "keeps (confined E k w0) (execute_task E rec (task, step)) (attempted E task (wt_attempt_count task))"
  unfolding execute_task_def prod.case
proof (rule keeps_bnd [OF kp_require_plan])
  fix plan
  show "keeps (confined E k w0) (case wf_approval_id rec of None \<Rightarrow> raise (WorkflowPermanentError ''APPROVAL_ID_MISSING'')
     | Some approval_id \<Rightarrow> execute_attempts E rec plan approval_id task step (wt_attempt_count task))
    (attempted E task (wt_attempt_count task))"
  proof (cases "wf_approval_id rec")
    case (Some a)
    show ?thesis unfolding Some option.case by (rule keepsI) (rule execute_attempts_keeps [OF assms])
  qed (simp add: keeps_raise)
qed

end
