(* ===== verification/Workflow_Execution.thy ===== *)
theory Workflow_Execution
  imports Workflow_Properties
begin

text \<open>
  The scheduler, compensation and completion of the workflow engine: dependencies are respected, the loop ends,
  a finished workflow has every task executed and verified or every task compensated.
\<close>

section \<open>The scheduler\<close>

definition task_dict :: "workflow_task list \<Rightarrow> (string, workflow_task) dict" where
  "task_dict ts = map (\<lambda>t. (wt_step_id t, t)) ts"

definition replace_task :: "workflow_task \<Rightarrow> workflow_task list \<Rightarrow> workflow_task list" where
  "replace_task v ts = map (\<lambda>t. if wt_step_id t = wt_step_id v then v else t) ts"

lemma ids_replace [simp]: "map wt_step_id (replace_task v ts) = map wt_step_id ts"
  by (simp add: replace_task_def)

lemma ids_fold_replace [simp]: "map wt_step_id (fold replace_task vs ts) = map wt_step_id ts"
  by (induction vs arbitrary: ts) simp_all

lemma update_task_dict:
  "distinct (map wt_step_id ts) \<Longrightarrow> wt_step_id v \<in> set (map wt_step_id ts) \<Longrightarrow>
   dput (wt_step_id v) v (task_dict ts) = task_dict (replace_task v ts)"
proof (induction ts)
  case (Cons t ts)
  show ?case
  proof (cases "wt_step_id t = wt_step_id v")
    case True
    then have "wt_step_id v \<notin> set (map wt_step_id ts)" using Cons.prems(1) by auto
    then have "replace_task v ts = ts" unfolding replace_task_def by (intro map_idI) (auto simp: image_iff)
    with True show ?thesis by (simp add: task_dict_def replace_task_def dput_def)
  next
    case False
    with Cons have "dput (wt_step_id v) v (task_dict ts) = task_dict (replace_task v ts)" by auto
    with False show ?thesis by (simp add: task_dict_def replace_task_def dput_def)
  qed
qed simp

lemma fold_task_dict:
  "distinct (map wt_step_id ts) \<Longrightarrow> set (map wt_step_id vs) \<subseteq> set (map wt_step_id ts) \<Longrightarrow>
   fold (\<lambda>t. dput (wt_step_id t) t) vs (task_dict ts) = task_dict (fold replace_task vs ts)"
proof (induction vs arbitrary: ts)
  case (Cons v vs)
  then have "dput (wt_step_id v) v (task_dict ts) = task_dict (replace_task v ts)" by (intro update_task_dict) auto
  with Cons.IH [of "replace_task v ts"] Cons.prems show ?case by simp
qed simp

lemma dget_task_dict: "distinct (map wt_step_id ts) \<Longrightarrow> t \<in> set ts \<Longrightarrow> dget (task_dict ts) (wt_step_id t) = Some t"
  by (simp add: task_dict_def dget_map_key find_distinct_key)

lemma dict_of_tasks: "distinct (map wt_step_id ts) \<Longrightarrow> dict_of wt_step_id ts = task_dict ts"
  by (simp add: dict_of_distinct task_dict_def)

lemma in_task_order_eq:
  assumes "distinct (map wt_step_id ts)"
  shows "map wt_step_id us = map wt_step_id vs \<Longrightarrow> set vs \<subseteq> set ts \<Longrightarrow> in_task_order (task_dict ts) us w = (Inr vs, w)"
proof (induction us arbitrary: vs)
  case (Cons u us)
  then obtain v vs' where v: "vs = v # vs'" "wt_step_id u = wt_step_id v" "map wt_step_id us = map wt_step_id vs'" "v \<in> set ts"
    by (cases vs) auto
  with Cons.IH [of vs'] Cons.prems(2) have "in_task_order (task_dict ts) us w = (Inr vs', w)" by auto
  with v dget_task_dict [OF assms v(4)] show ?case by (simp add: in_task_order_def bnd_def)
qed (simp add: in_task_order_def)

text \<open>Every task whose step was attempted has the tasks of its dependencies succeeded.\<close>

definition deps_of :: "(string, remediation_step) dict \<Rightarrow> workflow_task \<Rightarrow> string set" where
  "deps_of steps t = (case dget steps (wt_step_id t) of None \<Rightarrow> {} | Some step \<Rightarrow> set (st_depends_on step))"

definition done_ids :: "workflow_task list \<Rightarrow> string set" where
  "done_ids ts = wt_step_id ` {t \<in> set ts. wt_status t = WT_SUCCEEDED}"

definition deps_closed :: "(string, remediation_step) dict \<Rightarrow> workflow_task list \<Rightarrow> bool" where
  "deps_closed steps ts \<longleftrightarrow> (\<forall>t \<in> set ts. wt_status t \<noteq> WT_PENDING \<longrightarrow> deps_of steps t \<subseteq> done_ids ts)"

lemma succeeded_ids_dict: "succeeded_ids (task_dict ts) = done_ids ts"
  by (auto simp: succeeded_ids_def done_ids_def task_dict_def)

lemma pending_dict: "pending_tasks (task_dict ts) = filter (\<lambda>t. wt_status t = WT_PENDING) ts"
  by (simp add: pending_tasks_def task_dict_def comp_def)

definition replaced :: "workflow_task list \<Rightarrow> workflow_task \<Rightarrow> workflow_task" where
  "replaced rs t = fold (\<lambda>v t. if wt_step_id t = wt_step_id v then v else t) rs t"

lemma fold_replace_map: "fold replace_task rs ts = map (replaced rs) ts"
  by (induction rs arbitrary: ts) (simp_all add: replaced_def [abs_def] replace_task_def)

lemma replaced_cases:
  "if wt_step_id t \<in> set (map wt_step_id rs) then replaced rs t \<in> set rs \<and> wt_step_id (replaced rs t) = wt_step_id t
   else replaced rs t = t"
proof (induction rs arbitrary: t)
  case (Cons v rs)
  show ?case
  proof (cases "wt_step_id t = wt_step_id v")
    case True
    then have "replaced (v # rs) t = replaced rs v" by (simp add: replaced_def)
    with True Cons.IH [of v] show ?thesis by (simp split: if_splits)
  next
    case False
    then have "replaced (v # rs) t = replaced rs t" by (simp add: replaced_def)
    with False Cons.IH [of t] show ?thesis by (simp split: if_splits)
  qed
qed (simp add: replaced_def)

lemma list_all2_origin: "list_all2 P xs ys \<Longrightarrow> y \<in> set ys \<Longrightarrow> \<exists>x \<in> set xs. P x y"
  by (induction rule: list_all2_induct) auto

definition round_of :: "workflow_task list \<Rightarrow> (workflow_task \<times> remediation_step) list \<Rightarrow> workflow_task list \<Rightarrow> bool" where
  "round_of ts ready results \<longleftrightarrow> (\<forall>(t, st) \<in> set ready. t \<in> set ts \<and> wt_status t = WT_PENDING) \<and>
     list_all2 (\<lambda>(t, st) r. same_task t r \<and> keeps_snapshot_of t r \<and> wt_status r \<in> {WT_SUCCEEDED, WT_FAILED}) ready results"

lemma round_ids: "round_of ts ready results \<Longrightarrow> map wt_step_id results = map (wt_step_id \<circ> fst) ready"
proof -
  assume "round_of ts ready results"
  then have "list_all2 (\<lambda>(t, st) r. same_task t r \<and> keeps_snapshot_of t r \<and> wt_status r \<in> {WT_SUCCEEDED, WT_FAILED}) ready results"
    by (simp add: round_of_def)
  then show ?thesis by (induction rule: list_all2_induct) (auto simp: same_task_def)
qed

text \<open>What a round does to the tasks: a ready task is settled, any other task stays.\<close>

definition settled_by :: "string set \<Rightarrow> workflow_task \<Rightarrow> workflow_task \<Rightarrow> bool" where
  "settled_by ready t t' \<longleftrightarrow> (if wt_step_id t \<in> ready
     then wt_status t = WT_PENDING \<and> same_task t t' \<and> keeps_snapshot_of t t' \<and> wt_status t' \<in> {WT_SUCCEEDED, WT_FAILED}
     else t' = t)"

lemma round_settles:
  assumes d: "distinct (map wt_step_id ts)" and r: "round_of ts ready results"
  shows "list_all2 (settled_by (wt_step_id ` fst ` set ready)) ts (fold replace_task results ts)"
proof -
  let ?R = "\<lambda>(t, st) r. same_task t r \<and> keeps_snapshot_of t r \<and> wt_status r \<in> {WT_SUCCEEDED, WT_FAILED}"
  from r have l: "list_all2 ?R ready results" by (simp add: round_of_def)
  have ids: "set (map wt_step_id results) = wt_step_id ` fst ` set ready" by (metis round_ids [OF r] image_comp list.set_map)
  have "settled_by (wt_step_id ` fst ` set ready) t (replaced results t)" if t: "t \<in> set ts" for t
  proof (cases "wt_step_id t \<in> set (map wt_step_id results)")
    case True
    with replaced_cases [of t results] have x: "replaced results t \<in> set results" "wt_step_id (replaced results t) = wt_step_id t"
      by simp_all
    from list_all2_origin [OF l x(1)] obtain u st where u: "(u, st) \<in> set ready" "?R (u, st) (replaced results t)" by auto
    with r have "u \<in> set ts" "wt_status u = WT_PENDING" by (auto simp: round_of_def)
    moreover have "wt_step_id u = wt_step_id t" using u(2) x(2) by (simp add: same_task_def)
    ultimately have "u = t" using d t by (metis distinct_map inj_onD)
    with u \<open>wt_status u = WT_PENDING\<close> True ids show ?thesis by (simp add: settled_by_def)
  next
    case False
    with replaced_cases [of t results] ids show ?thesis by (simp add: settled_by_def)
  qed
  then show ?thesis unfolding fold_replace_map by (simp add: list_all2_conv_all_nth)
qed

text \<open>A round keeps the closure under dependencies and settles a pending task.\<close>

lemma round_done_ids: "list_all2 (settled_by R) ts ts' \<Longrightarrow> done_ids ts \<subseteq> done_ids ts'"
  by (induction rule: list_all2_induct) (auto simp: done_ids_def settled_by_def split: if_splits)

lemma round_closed:
  assumes s: "list_all2 (settled_by R) ts ts'" and c: "deps_closed steps ts"
    and R: "\<And>t. t \<in> set ts \<Longrightarrow> wt_step_id t \<in> R \<Longrightarrow> deps_of steps t \<subseteq> done_ids ts"
  shows "deps_closed steps ts'"
  unfolding deps_closed_def
proof (intro ballI impI)
  fix t' assume t': "t' \<in> set ts'" "wt_status t' \<noteq> WT_PENDING"
  from list_all2_origin [OF s t'(1)] obtain t where t: "t \<in> set ts" "settled_by R t t'" by blast
  then have "deps_of steps t' = deps_of steps t"
    by (auto simp: settled_by_def same_task_def deps_of_def split: if_splits)
  moreover have "deps_of steps t \<subseteq> done_ids ts"
    using t c t'(2) R by (auto simp: settled_by_def deps_closed_def split: if_splits)
  ultimately show "deps_of steps t' \<subseteq> done_ids ts'" using round_done_ids [OF s] by blast
qed

definition pending_count :: "workflow_task list \<Rightarrow> nat" where
  "pending_count ts = length (filter (\<lambda>t. wt_status t = WT_PENDING) ts)"

lemma round_pending_le: "list_all2 (settled_by R) ts ts' \<Longrightarrow> pending_count ts' \<le> pending_count ts"
  by (induction rule: list_all2_induct) (auto simp: pending_count_def settled_by_def split: if_splits)

lemma round_pending_less:
  assumes "list_all2 (settled_by R) ts ts'" "t \<in> set ts" "wt_step_id t \<in> R"
  shows "pending_count ts' < pending_count ts"
  using assms
proof (induction rule: list_all2_induct)
  case (Cons x xs y ys)
  show ?case
  proof (cases "wt_step_id x \<in> R")
    case True
    with Cons.hyps round_pending_le [of R xs ys] show ?thesis by (auto simp: pending_count_def settled_by_def)
  next
    case False
    with Cons show ?thesis by (auto simp: pending_count_def settled_by_def)
  qed
qed simp

section \<open>The loop\<close>

text \<open>How a task may have moved: not at all, or from pending to an outcome of its execution.\<close>

definition moved :: "workflow_task \<Rightarrow> workflow_task \<Rightarrow> bool" where
  "moved t t' \<longleftrightarrow> t' = t \<or> wt_status t = WT_PENDING \<and> same_task t t' \<and> keeps_snapshot_of t t' \<and> wt_status t' \<in> {WT_SUCCEEDED, WT_FAILED}"

definition dag_result :: "'x engine \<Rightarrow> workflow_key \<Rightarrow> (string, remediation_step) dict \<Rightarrow> workflow_execution \<Rightarrow> workflow_execution \<Rightarrow> bool" where
  "dag_result E k steps rec r \<longleftrightarrow> own E k r \<and> wf_plan r = wf_plan rec \<and> wf_approval_id r = wf_approval_id rec \<and>
     deps_closed steps (wf_tasks r) \<and> list_all2 moved (wf_tasks rec) (wf_tasks r) \<and>
     ((\<exists>t \<in> set (wf_tasks r). wt_status t = WT_FAILED) \<or> (\<forall>t \<in> set (wf_tasks r). wt_status t \<noteq> WT_PENDING))"

lemma settled_moved: "settled_by R t t' \<Longrightarrow> moved t t'"
  by (auto simp: settled_by_def moved_def split: if_splits)

lemma moved_trans: "moved t u \<Longrightarrow> moved u v \<Longrightarrow> moved t v"
  by (auto simp: moved_def)

lemma moved_ids: "list_all2 moved ts ts' \<Longrightarrow> map wt_step_id ts' = map wt_step_id ts"
  by (induction rule: list_all2_induct) (auto simp: moved_def same_task_def)

lemma own_tasks: "own E k rec \<Longrightarrow> t \<in> set (wf_tasks rec) \<Longrightarrow> strip_task t = t"
  using workflow_ok_tasks [of "eng_iso_text E" rec] by (auto simp: own_def map_idI dest: map_eq_conv [THEN iffD1, of strip_task _ id, simplified])

lemma kp_with_steps: "keeps I (map_op (with_step steps) ts) (\<lambda>ps. map fst ps = ts \<and> (\<forall>(t, st) \<in> set ps. dget steps (wt_step_id t) = Some st))"
proof (induction ts)
  case (Cons t ts)
  have "keeps I (with_step steps t) (\<lambda>p. fst p = t \<and> dget steps (wt_step_id t) = Some (snd p))"
    unfolding with_step_def by (rule keeps_bnd [OF keeps_validated]) (simp add: keeps_ret)
  then show ?case unfolding map_op.simps
    by (rule keeps_bnd) (rule keeps_bnd [OF Cons.IH], auto intro!: keeps_ret)
qed (unfold map_op.simps, rule keeps_ret, simp)

text \<open>One round of the loop, from the tasks of the record to the tasks after it.\<close>

definition ready_ok :: "(string, remediation_step) dict \<Rightarrow> workflow_task list \<Rightarrow> (workflow_task \<times> remediation_step) list \<Rightarrow> bool" where
  "ready_ok steps ts ready \<longleftrightarrow> distinct (map (wt_step_id \<circ> fst) ready) \<and> (\<forall>(t, st) \<in> set ready. t \<in> set ts \<and> wt_status t = WT_PENDING \<and>
     dget steps (wt_step_id t) = Some st \<and> set (st_depends_on st) \<subseteq> done_ids ts)"

lemma ready_tasks_ok:
  assumes "map fst ps = pending_tasks (task_dict ts)" "\<forall>(t, st) \<in> set ps. dget steps (wt_step_id t) = Some st"
    and d: "distinct (map wt_step_id ts)"
  shows "ready_ok steps ts (ready_tasks (task_dict ts) ps)"
proof -
  have "map (wt_step_id \<circ> fst) ps = map wt_step_id (filter (\<lambda>t. wt_status t = WT_PENDING) ts)"
    using arg_cong [OF assms(1), of "map wt_step_id"] by (simp add: pending_dict)
  then have "distinct (map (wt_step_id \<circ> fst) ps)" using d by (simp add: distinct_map_filter)
  then have "distinct (map (wt_step_id \<circ> fst) (ready_tasks (task_dict ts) ps))"
    unfolding ready_tasks_def by (rule distinct_map_filter)
  moreover
  have "t \<in> set ts \<and> wt_status t = WT_PENDING" if "(t, st) \<in> set ps" for t st
  proof -
    from that have "t \<in> set (map fst ps)" by force
    then show ?thesis by (simp add: assms(1) pending_dict)
  qed
  ultimately show ?thesis using assms(2) by (auto simp: ready_ok_def ready_tasks_def succeeded_ids_dict)
qed

lemma ready_ok_deps:
  assumes "ready_ok steps ts ready" "distinct (map wt_step_id ts)" "t \<in> set ts" "wt_step_id t \<in> wt_step_id ` fst ` set ready"
  shows "deps_of steps t \<subseteq> done_ids ts"
proof -
  from assms(4) obtain u st where u: "(u, st) \<in> set ready" "wt_step_id u = wt_step_id t" by force
  with assms(1) have "dget steps (wt_step_id t) = Some st" "set (st_depends_on st) \<subseteq> done_ids ts"
    by (auto simp: ready_ok_def)
  then show ?thesis by (simp add: deps_of_def)
qed

lemma kp_round:
  assumes o: "own E k rec" and r: "ready_ok steps (wf_tasks rec) ready"
  shows "keeps (confined E k w0) (gather_raise (execute_task E rec) ready) (round_of (wf_tasks rec) ready)"
proof -
  let ?Q = "\<lambda>p r. attempted E (fst p) (wt_attempt_count (fst p)) r"
  have "keeps (confined E k w0) (execute_task E rec p) (?Q p)" if p: "p \<in> set ready" for p
  proof (cases p)
    case (Pair t st)
    with p r have "t \<in> set (wf_tasks rec)" by (auto simp: ready_ok_def)
    from kp_execute_task [OF own_tasks [OF o this], of E k w0 rec st] show ?thesis by (simp add: Pair)
  qed
  then have g: "keeps (confined E k w0) (gather_raise (execute_task E rec) ready) (list_all2 ?Q ready)"
    by (rule keeps_gather_raise)
  show ?thesis
  proof (rule keeps_weaken [OF g])
    fix rs assume "list_all2 ?Q ready rs"
    then have "list_all2 (\<lambda>(t, st) r. same_task t r \<and> keeps_snapshot_of t r \<and> wt_status r \<in> {WT_SUCCEEDED, WT_FAILED}) ready rs"
      by (rule list_all2_mono) (auto simp: attempted_def)
    with r show "round_of (wf_tasks rec) ready rs" by (auto simp: round_of_def ready_ok_def)
  qed
qed

text \<open>The facts about a round of a record the loop relies on.\<close>

lemma round_facts:
  assumes o: "own E k rec" and d: "distinct (map wt_step_id (wf_tasks rec))" and r: "ready_ok steps (wf_tasks rec) ready"
    and rs: "round_of (wf_tasks rec) ready results"
  defines "ts' \<equiv> fold replace_task results (wf_tasks rec)"
  shows "fold (\<lambda>t. dput (wt_step_id t) t) results (task_dict (wf_tasks rec)) = task_dict ts'"
    "in_task_order (task_dict ts') (wf_tasks rec) w = (Inr ts', w)"
    "list_all2 (settled_by (wt_step_id ` fst ` set ready)) (wf_tasks rec) ts'"
    "map strip_task ts' = ts'" "map wt_step_id ts' = map wt_step_id (wf_tasks rec)"
proof -
  show s: "list_all2 (settled_by (wt_step_id ` fst ` set ready)) (wf_tasks rec) ts'"
    unfolding ts'_def by (rule round_settles [OF d rs])
  have "set (map wt_step_id results) = wt_step_id ` fst ` set ready" by (metis round_ids [OF rs] image_comp list.set_map)
  with r have "set (map wt_step_id results) \<subseteq> set (map wt_step_id (wf_tasks rec))" by (auto simp: ready_ok_def)
  then show "fold (\<lambda>t. dput (wt_step_id t) t) results (task_dict (wf_tasks rec)) = task_dict ts'"
    unfolding ts'_def by (rule fold_task_dict [OF d])
  show ids: "map wt_step_id ts' = map wt_step_id (wf_tasks rec)" by (simp add: ts'_def)
  show "in_task_order (task_dict ts') (wf_tasks rec) w = (Inr ts', w)"
    by (rule in_task_order_eq) (use d ids in auto)
  have "strip_task t' = t'" if "t' \<in> set ts'" for t'
    using list_all2_origin [OF s that] own_tasks [OF o] by (auto simp: settled_by_def same_task_def split: if_splits)
  then show "map strip_task ts' = ts'" by (simp add: map_idI)
qed

lemma results_failed:
  assumes rs: "round_of ts ready results" and r: "ready_ok steps ts ready"
    and f: "list_ex (\<lambda>t. wt_status t = WT_FAILED) results"
  shows "\<exists>t \<in> set (fold replace_task results ts). wt_status t = WT_FAILED"
proof -
  from f obtain x where x: "x \<in> set results" "wt_status x = WT_FAILED" by (auto simp: list_ex_iff)
  then have "wt_step_id x \<in> set (map wt_step_id results)" by simp
  then have "wt_step_id x \<in> wt_step_id ` set ts" using round_ids [OF rs] r by (auto simp: ready_ok_def)
  then obtain t where t: "t \<in> set ts" "wt_step_id t = wt_step_id x" by auto
  with replaced_cases [of t results] x(1) have y: "replaced results t \<in> set results" "wt_step_id (replaced results t) = wt_step_id x"
    by simp_all
  have "distinct (map wt_step_id results)" using round_ids [OF rs] r by (simp add: ready_ok_def)
  with y x(1) have "replaced results t = x" by (metis distinct_map inj_onD)
  with t x(2) show ?thesis unfolding fold_replace_map by force
qed

lemma list_all2_moved_trans: "list_all2 moved a b \<Longrightarrow> list_all2 moved b c \<Longrightarrow> list_all2 moved a c"
  by (rule list_all2_trans [OF moved_trans])

lemma own_approval: "own E k rec \<Longrightarrow> map_option strip (wf_approval_id rec) = wf_approval_id rec"
  using strip_workflow_sel(11) [of rec] by (simp add: own_def workflow_ok_def)

lemma updated_tasks:
  assumes "own E k rec" "updated_from E k (rec\<lparr>wf_tasks := ts, wf_last_error_code := e\<rparr>) r" "map strip_task ts = ts"
  shows "own E k r \<and> wf_plan r = wf_plan rec \<and> wf_tasks r = ts \<and> wf_approval_id r = wf_approval_id rec"
  using updated_from_own [OF assms(2)] updated_from_sel [OF assms(2)] own_approval [OF assms(1)] assms(3) by simp

definition runnable :: "workflow_task list \<Rightarrow> bool" where
  "runnable ts \<longleftrightarrow> (\<forall>t \<in> set ts. wt_status t \<in> {WT_PENDING, WT_SUCCEEDED})"

lemma runnable_round:
  assumes "list_all2 (settled_by R) ts (fold replace_task results ts)" "runnable ts" "round_of ts ready results"
    "\<not> list_ex (\<lambda>t. wt_status t = WT_FAILED) results"
  shows "runnable (fold replace_task results ts)"
  unfolding runnable_def
proof
  fix t' assume t': "t' \<in> set (fold replace_task results ts)"
  then obtain t where t: "t \<in> set ts" "t' = replaced results t" by (auto simp: fold_replace_map)
  show "wt_status t' \<in> {WT_PENDING, WT_SUCCEEDED}"
  proof (cases "t' \<in> set results")
    case True
    from assms(3) list_all2_origin [OF _ True] have "wt_status t' \<in> {WT_SUCCEEDED, WT_FAILED}"
      unfolding round_of_def by fast
    with True assms(4) show ?thesis by (auto simp: list_ex_iff)
  next
    case False
    with replaced_cases [of t results] t have "t' = t" by (auto split: if_splits)
    with t assms(2) show ?thesis by (simp add: runnable_def)
  qed
qed

definition round_result :: "'x engine \<Rightarrow> workflow_key \<Rightarrow> (string, remediation_step) dict \<Rightarrow> workflow_execution \<Rightarrow>
    workflow_task list \<times> (string, workflow_task) dict \<times> workflow_execution \<Rightarrow> bool" where
  "round_result E k steps rec out \<longleftrightarrow> (case out of (results, by_step, r) \<Rightarrow>
     \<exists>ready. ready \<noteq> [] \<and> ready_ok steps (wf_tasks rec) ready \<and> round_of (wf_tasks rec) ready results \<and>
       own E k r \<and> wf_plan r = wf_plan rec \<and> wf_approval_id r = wf_approval_id rec \<and>
       wf_tasks r = fold replace_task results (wf_tasks rec) \<and> by_step = task_dict (wf_tasks r))"

lemma kp_dag_round:
  assumes o: "own E k rec" and d: "distinct (map wt_step_id (wf_tasks rec))"
  shows "keeps (confined E k w0) (dag_round E steps (task_dict (wf_tasks rec)) rec) (round_result E k steps rec)"
  unfolding dag_round_def Let_def
proof (rule keeps_bnd [OF kp_with_steps], rule keeps_bnd [OF keeps_guard], goal_cases)
  case (1 ps u)
  let ?ts = "wf_tasks rec" let ?ready = "ready_tasks (task_dict ?ts) ps"
  have ready: "ready_ok steps ?ts ?ready" using 1(1) d by (intro ready_tasks_ok) auto
  show ?case
  proof (rule keeps_bnd [OF kp_round [OF o ready]])
    fix results assume rs: "round_of ?ts ?ready results"
    note f = round_facts [OF o d ready rs]
    let ?ts' = "fold replace_task results ?ts"
    have ord: "keeps (confined E k w0) (in_task_order (task_dict ?ts') ?ts) (\<lambda>ts. ts = ?ts')"
      unfolding keeps_def f(2) by simp
    show "keeps (confined E k w0) (bnd (in_task_order (fold (\<lambda>t. dput (wt_step_id t) t) results (task_dict ?ts)) ?ts) (\<lambda>tasks.
        bnd (update_record E rec (\<lambda>r. r\<lparr>wf_tasks := tasks, wf_last_error_code := first_failure results\<rparr>)) (\<lambda>rec'.
        ret (results, fold (\<lambda>t. dput (wt_step_id t) t) results (task_dict ?ts), rec')))) (round_result E k steps rec)"
      unfolding f(1)
    proof (rule keeps_bnd [OF ord], elim ssubst, rule keeps_bnd [OF kp_update_record [OF o]], simp, rule keeps_ret)
      fix r assume "updated_from E k (rec\<lparr>wf_tasks := ?ts', wf_last_error_code := first_failure results\<rparr>) r"
      from updated_tasks [OF o this f(4)] 1(2) ready rs show "round_result E k steps rec (results, task_dict ?ts', r)"
        by (auto simp: round_result_def)
    qed
  qed
qed

text \<open>What a round gives the loop.\<close>

lemma round_result_facts:
  assumes o: "own E k rec" and d: "distinct (map wt_step_id (wf_tasks rec))" and r: "round_result E k steps rec (results, by_step, r)"
  shows "own E k r" "by_step = task_dict (wf_tasks r)" "wf_plan r = wf_plan rec" "wf_approval_id r = wf_approval_id rec"
    "map wt_step_id (wf_tasks r) = map wt_step_id (wf_tasks rec)" "list_all2 moved (wf_tasks rec) (wf_tasks r)"
    "deps_closed steps (wf_tasks rec) \<Longrightarrow> deps_closed steps (wf_tasks r)" "pending_count (wf_tasks r) < pending_count (wf_tasks rec)"
    "list_ex (\<lambda>t. wt_status t = WT_FAILED) results \<Longrightarrow> \<exists>t \<in> set (wf_tasks r). wt_status t = WT_FAILED"
    "\<not> list_ex (\<lambda>t. wt_status t = WT_FAILED) results \<Longrightarrow> runnable (wf_tasks rec) \<Longrightarrow> runnable (wf_tasks r)"
proof -
  from r obtain ready where ready: "ready \<noteq> []" "ready_ok steps (wf_tasks rec) ready" "round_of (wf_tasks rec) ready results"
    and eq: "own E k r" "wf_plan r = wf_plan rec" "wf_approval_id r = wf_approval_id rec"
      "wf_tasks r = fold replace_task results (wf_tasks rec)" "by_step = task_dict (wf_tasks r)"
    by (auto simp: round_result_def)
  note f = round_facts [OF o d ready(2,3)]
  show "own E k r" "by_step = task_dict (wf_tasks r)" "wf_plan r = wf_plan rec" "wf_approval_id r = wf_approval_id rec" by (fact eq)+
  show "map wt_step_id (wf_tasks r) = map wt_step_id (wf_tasks rec)" by (simp add: eq(4))
  show "list_all2 moved (wf_tasks rec) (wf_tasks r)" unfolding eq(4) using f(3) by (rule list_all2_mono) (rule settled_moved)
  show "deps_closed steps (wf_tasks r)" if "deps_closed steps (wf_tasks rec)"
    unfolding eq(4) by (rule round_closed [OF f(3) that]) (rule ready_ok_deps [OF ready(2) d])
  obtain t st where t: "(t, st) \<in> set ready" using ready(1) by (cases ready) auto
  with ready(2) have "t \<in> set (wf_tasks rec)" "wt_step_id t \<in> wt_step_id ` fst ` set ready"
    by (auto simp: ready_ok_def intro: rev_image_eqI)
  from round_pending_less [OF f(3) this] show "pending_count (wf_tasks r) < pending_count (wf_tasks rec)" by (simp add: eq(4))
  show "\<exists>t \<in> set (wf_tasks r). wt_status t = WT_FAILED" if "list_ex (\<lambda>t. wt_status t = WT_FAILED) results"
    unfolding eq(4) by (rule results_failed [OF ready(3,2) that])
  show "runnable (wf_tasks r)" if "\<not> list_ex (\<lambda>t. wt_status t = WT_FAILED) results" "runnable (wf_tasks rec)"
    unfolding eq(4) by (rule runnable_round [OF f(3) that(2) ready(3) that(1)])
qed

lemma kp_dag_loop:
  assumes "own E k rec" "distinct (map wt_step_id (wf_tasks rec))" "deps_closed steps (wf_tasks rec)"
  shows "keeps (confined E k w0) (dag_loop fuel E steps (task_dict (wf_tasks rec)) rec) (dag_result E k steps rec)"
  using assms
proof (induction fuel arbitrary: rec)
  case 0
  show ?case unfolding dag_loop.simps by (rule keeps_raise)
next
  case (Suc fuel rec)
  show ?case unfolding dag_loop.simps
  proof (rule keeps_if, goal_cases)
    case 1
    then have "\<forall>t \<in> set (wf_tasks rec). wt_status t \<noteq> WT_PENDING" by (simp add: pending_dict filter_empty_conv)
    with Suc.prems show ?case by (intro keeps_ret) (simp add: dag_result_def list_all2_same moved_def)
  next
    case 2
    show ?case
    proof (rule keeps_bnd [OF kp_dag_round [OF Suc.prems(1,2)]], clarify, rule keeps_if, goal_cases)
      case (1 results by_step r)
      note f = round_result_facts [OF Suc.prems(1,2) 1(1)]
      from f(1,3,4,6) f(7) [OF Suc.prems(3)] f(9) [OF 1(2)] show ?case by (intro keeps_ret) (simp add: dag_result_def)
    next
      case (2 results by_step r)
      note f = round_result_facts [OF Suc.prems(1,2) 2(1)]
      have "keeps (confined E k w0) (dag_loop fuel E steps (task_dict (wf_tasks r)) r) (dag_result E k steps r)"
        by (rule Suc.IH) (use f(1,5) f(7) [OF Suc.prems(3)] Suc.prems(2) in auto)
      then show ?case unfolding f(2)
        by (rule keeps_weaken) (use f(3,4,6) in \<open>auto simp: dag_result_def intro: list_all2_moved_trans\<close>)
    qed
  qed
qed

section \<open>Progress\<close>

text \<open>Among the pending tasks of a valid plan whose other tasks have succeeded, the one of least order is ready.\<close>

lemma ready_exists:
  assumes v: "validate_step_graph plan" and ids: "set (map wt_step_id ts) = set (map st_step_id (pl_steps plan))"
    and run: "runnable ts" and p: "pending_tasks (task_dict ts) \<noteq> []"
    and ps: "map fst ps = pending_tasks (task_dict ts)"
      "\<forall>(t, st) \<in> set ps. dget (dict_of st_step_id (pl_steps plan)) (wt_step_id t) = Some st"
  shows "ready_tasks (task_dict ts) ps \<noteq> []"
proof -
  let ?D = "dict_of st_step_id (pl_steps plan)"
  from p ps(1) have ne: "set ps \<noteq> {}" by auto
  obtain t st where t: "(t, st) \<in> set ps" and least: "\<And>u su. (u, su) \<in> set ps \<Longrightarrow> st_order st \<le> st_order su"
    using arg_min_if_finite [of "set ps" "\<lambda>q. st_order (snd q)"] ne
    by (metis List.finite_set not_less prod.collapse snd_conv)
  have "set (st_depends_on st) \<subseteq> done_ids ts"
  proof
    fix d assume d: "d \<in> set (st_depends_on st)"
    have "dget ?D (wt_step_id t) = Some st" using ps(2) t by auto
    then have "st \<in> set (pl_steps plan)" by (blast dest: dget_dict_of_key)
    from step_graph_dependency [OF v this d] obtain u where
      u: "u \<in> set (pl_steps plan)" "st_step_id u = d" "st_order u < st_order st" by blast
    then have "d \<in> set (map wt_step_id ts)" unfolding ids by auto
    then obtain x where x: "x \<in> set ts" "wt_step_id x = d" by auto
    have "wt_status x \<noteq> WT_PENDING"
    proof
      assume "wt_status x = WT_PENDING"
      with x(1) have "x \<in> set (map fst ps)" unfolding ps(1) pending_dict by simp
      then obtain sx where sx: "(x, sx) \<in> set ps" by auto
      then have "dget ?D d = Some sx" using ps(2) x(2) by auto
      moreover have "dget ?D d = Some u"
        using dget_dict_of_distinct [OF step_graph_distinct(1) [OF v]] find_distinct_key [OF step_graph_distinct(1) [OF v] u(1)] u(2) by simp
      ultimately show False using least [OF sx] u(3) by simp
    qed
    with run x show "d \<in> done_ids ts" by (auto simp: runnable_def done_ids_def)
  qed
  with t show ?thesis unfolding ready_tasks_def succeeded_ids_dict by (auto simp: filter_empty_conv)
qed

section \<open>Errors that never occur\<close>

definition never :: "'e set \<Rightarrow> ('s, 'e, 'a) op \<Rightarrow> bool" where
  "never B m \<longleftrightarrow> (\<forall>s e s'. m s = (Inl e, s') \<longrightarrow> e \<notin> B)"

named_theorems nev \<open>operations that never raise given errors\<close>

lemma never_ret [nev]: "never B (ret x)" by (simp add: never_def)
lemma never_raise [nev]: "e \<notin> B \<Longrightarrow> never B (raise e)" by (simp add: never_def)
lemma never_guard [nev]: "e \<notin> B \<Longrightarrow> never B (guard b e)" by (simp add: never_def)
lemma never_validated [nev]: "e \<notin> B \<Longrightarrow> never B (validated e x)" by (cases x) (simp_all add: never_def)

lemma never_bnd [nev]:
  assumes m: "never B m" and f: "\<And>x. never B (f x)"
  shows "never B (bnd m f)"
  unfolding never_def
proof (intro allI impI)
  fix s e s' assume run: "bnd m f s = (Inl e, s')"
  obtain r1 s1 where m1: "m s = (r1, s1)" by fastforce
  show "e \<notin> B"
  proof (cases r1)
    case (Inl x)
    with run m1 m show ?thesis by (auto simp: bnd_def never_def)
  next
    case (Inr x)
    with run m1 have "f x s1 = (Inl e, s')" by (simp add: bnd_def)
    with f [of x] show ?thesis by (auto simp: never_def)
  qed
qed

lemma never_zoom:
  assumes "\<And>s e s'. m s = (Inl e, s') \<Longrightarrow> h e \<notin> B"
  shows "never B (zoom g p h m)"
  unfolding never_def
proof (intro allI impI)
  fix s e s' assume run: "zoom g p h m s = (Inl e, s')"
  obtain r1 s1 where m1: "m (g s) = (r1, s1)" by fastforce
  with run have "map_sum h id r1 = Inl e" by (simp add: zoom_def)
  then obtain x where "r1 = Inl x" "e = h x" by (cases r1) auto
  with assms m1 show "e \<notin> B" by blast
qed

lemma never_map_op [nev]: "(\<And>x. never B (f x)) \<Longrightarrow> never B (map_op f xs)"
  by (induction xs) (auto intro!: nev simp del: bnd_ret)

lemma never_gather_raise:
  assumes f: "\<And>x. never B (f x)" shows "never B (gather_raise f xs)"
proof -
  have g: "gather f xs s = (rs, s') \<Longrightarrow> Inl e \<in> set rs \<Longrightarrow> e \<notin> B" for s rs s' e
  proof (induction xs arbitrary: s rs)
    case (Cons x xs)
    then obtain r s1 rs1 where r: "f x s = (r, s1)" "gather f xs s1 = (rs1, s')" "rs = r # rs1" by (auto split: prod.splits)
    show ?case
    proof (cases "r = Inl e")
      case True
      with r(1) f [of x] show ?thesis by (auto simp: never_def)
    next
      case False
      with Cons.prems(2) r have "Inl e \<in> set rs1" by auto
      with Cons.IH r(2) show ?thesis by blast
    qed
  qed simp
  have e: "first_error rs = Inl e \<Longrightarrow> Inl e \<in> set rs" for rs :: "('b + 'd) list" and e
  proof (induction rs rule: first_error.induct)
    case (3 y rs)
    then show ?case by (cases "first_error rs") auto
  qed auto
  from g e show ?thesis unfolding never_def gather_raise_def by (auto split: prod.splits)
qed

text \<open>The errors that would mean the scheduler is stuck.\<close>

definition stuck_errors :: "workflow_error set" where
  "stuck_errors = {OutOfFuel, WorkflowPermanentError ''DAG_PROGRESS_BLOCKED''}"

lemma not_stuck [simp]:
  "DependencyCallError c b \<notin> stuck_errors" "WorkflowValidationError \<notin> stuck_errors" "UnexpectedError \<notin> stuck_errors"
  "ChangeStoreError p \<notin> stuck_errors" "WorkflowNotFoundError \<notin> stuck_errors" "stale_version \<notin> stuck_errors"
  "WorkflowPermanentError ''PLAN_MISSING'' \<notin> stuck_errors" "WorkflowPermanentError ''APPROVAL_ID_MISSING'' \<notin> stuck_errors"
  "call_error_of e \<notin> stuck_errors"
  by (simp_all add: stuck_errors_def stale_version_def call_error_of_def split: call_error.split)

lemma nv_now [nev]: "never stuck_errors (now E)" and nv_uuid [nev]: "never stuck_errors (uuid E)"
  by (auto simp: never_def now_def uuid_def)

lemma nv_on_remote [nev]: "never stuck_errors (on_remote m)"
  unfolding on_remote_def by (rule never_zoom) simp

lemma nv_on_change_store [nev]: "never stuck_errors (on_change_store m)"
  unfolding on_change_store_def by (rule never_zoom) simp

lemma nv_update_workflow [nev]: "never stuck_errors (on_workflow_store (update_workflow r v))"
  unfolding on_workflow_store_def
  by (rule never_zoom) (auto simp: update_workflow_def put_workflow_def split: option.splits if_splits)

lemma nv_require_plan [nev]: "never stuck_errors (require_plan rec)"
  by (simp add: require_plan_def never_ret never_raise split: option.split)

lemma nv_request_id [nev]: "never stuck_errors (request_id E)"
  unfolding request_id_def by (intro nev)

lemma nv_update_record [nev]: "never stuck_errors (update_record E rec f)"
  unfolding update_record_def by (intro nev) simp

lemma nv_record_workflow_audit [nev]: "never stuck_errors (record_workflow_audit E rec a b c d e f)"
  unfolding record_workflow_audit_def workflow_audit_def by (intro nev) simp

lemma nv_attempt [nev]: "never stuck_errors (bnd (call_gateway E rec plan step a) (step_succeeded E rec task step n))"
  unfolding call_gateway_def step_succeeded_def by (intro nev) simp

lemma nv_step_failed [nev]: "never stuck_errors (step_failed E rec task step n code)"
  unfolding step_failed_def by (intro nev) simp

lemma neverD: "never B m \<Longrightarrow> m s = (Inl e, s') \<Longrightarrow> e \<notin> B"
  unfolding never_def by blast

lemma nv_execute_attempts [nev]: "never stuck_errors (execute_attempts E rec plan a task step n)"
proof -
  have "execute_attempts E rec plan a task step n w = (Inl e, w') \<Longrightarrow> e \<notin> stuck_errors" for w e w'
  proof (induction "nat (rp_maximum_attempts (eng_retry E) - n)" arbitrary: n w rule: less_induct)
    case less
    let ?m = "bnd (call_gateway E rec plan step a) (step_succeeded E rec task step (n + 1))"
    note unf = execute_attempts.simps [of _ _ _ _ _ _ n, unfolded Let_def]
    obtain r1 w1 where m1: "?m w = (r1, w1)" by fastforce
    show ?case
    proof (cases "\<exists>code transient. r1 = Inl (DependencyCallError code transient)")
      case False
      with less.prems m1 have "?m w = (Inl e, w')"
        by (auto simp: unf split: sum.splits workflow_error.splits)
      then show ?thesis by (rule neverD [OF nv_attempt])
    next
      case True
      then obtain code tr where e: "r1 = Inl (DependencyCallError code tr)" by blast
      show ?thesis
      proof (cases "should_retry (eng_retry E) tr (n + 1)")
        case False
        with less.prems m1 e have "step_failed E rec task step (n + 1) code w1 = (Inl e, w')" by (simp add: unf)
        then show ?thesis by (rule neverD [OF nv_step_failed])
      next
        case retry: True
        obtain r2 w2 where st: "step_retried E rec task step (n + 1) code w1 = (r2, w2)" by fastforce
        show ?thesis
        proof (cases r2)
          case (Inl x)
          with less.prems m1 e retry st have "step_retried E rec task step (n + 1) code w1 = (Inl e, w')" by (simp add: unf)
          then show ?thesis unfolding step_retried_def by (rule neverD [OF nv_record_workflow_audit])
        next
          case (Inr u)
          with less.prems m1 e retry st have "execute_attempts E rec plan a task step (n + 1) w2 = (Inl e, w')" by (simp add: unf)
          moreover have "nat (rp_maximum_attempts (eng_retry E) - (n + 1)) < nat (rp_maximum_attempts (eng_retry E) - n)"
            using retry by (simp add: should_retry_def)
          ultimately show ?thesis using less.hyps by blast
        qed
      qed
    qed
  qed
  then show ?thesis unfolding never_def by blast
qed

lemma nv_execute_task [nev]: "never stuck_errors (execute_task E rec p)"
  unfolding execute_task_def
  by (cases p) (auto intro!: nev split: option.split)

lemma nv_in_task_order [nev]: "never stuck_errors (in_task_order d ts)"
  unfolding in_task_order_def by (intro nev) simp

lemma nv_with_steps [nev]: "never stuck_errors (map_op (with_step steps) ts)"
  unfolding with_step_def by (intro nev) simp

lemma never_bnd_keeps:
  assumes m: "keeps (\<lambda>_. True) m Q" "never B m" and f: "\<And>x. Q x \<Longrightarrow> never B (f x)"
  shows "never B (bnd m f)"
  unfolding never_def
proof (intro allI impI)
  fix s e s' assume run: "bnd m f s = (Inl e, s')"
  obtain r1 s1 where m1: "m s = (r1, s1)" by fastforce
  show "e \<notin> B"
  proof (cases r1)
    case (Inl x)
    with run m1 m(2) show ?thesis by (auto simp: bnd_def never_def)
  next
    case (Inr x)
    with run m1 have "f x s1 = (Inl e, s')" by (simp add: bnd_def)
    moreover have "Q x" using m(1) m1 Inr by (auto simp: keeps_def)
    ultimately show ?thesis using f by (auto simp: never_def)
  qed
qed

text \<open>The hypotheses under which the scheduler cannot get stuck: a valid plan, its tasks pending or done.\<close>

definition dag_ready :: "remediation_plan \<Rightarrow> workflow_execution \<Rightarrow> bool" where
  "dag_ready plan rec \<longleftrightarrow> validate_step_graph plan \<and> set (map wt_step_id (wf_tasks rec)) = set (map st_step_id (pl_steps plan)) \<and>
     distinct (map wt_step_id (wf_tasks rec)) \<and> runnable (wf_tasks rec)"

lemma nv_dag_round:
  assumes "dag_ready plan rec" "pending_tasks (task_dict (wf_tasks rec)) \<noteq> []"
  shows "never stuck_errors (dag_round E (dict_of st_step_id (pl_steps plan)) (task_dict (wf_tasks rec)) rec)"
  unfolding dag_round_def Let_def
proof (rule never_bnd_keeps [OF kp_with_steps nv_with_steps], rule never_bnd, goal_cases)
  case (1 ps)
  then have "ready_tasks (task_dict (wf_tasks rec)) ps \<noteq> []"
    using assms by (intro ready_exists [of plan]) (auto simp: dag_ready_def)
  then show ?case by (simp add: never_def)
next
  case (2 ps u)
  show ?case by (intro never_bnd never_gather_raise nv_execute_task nv_in_task_order nv_update_record never_ret)
qed

lemma dag_loop_not_stuck:
  assumes "own E k rec" "dag_ready plan rec" "confined E k w0 w" "pending_count (wf_tasks rec) < fuel"
    and "dag_loop fuel E (dict_of st_step_id (pl_steps plan)) (task_dict (wf_tasks rec)) rec w = (Inl e, w')"
  shows "e \<notin> stuck_errors"
  using assms
proof (induction fuel arbitrary: rec w)
  case (Suc fuel rec w)
  let ?steps = "dict_of st_step_id (pl_steps plan)"
  have d: "distinct (map wt_step_id (wf_tasks rec))" using Suc.prems(2) by (simp add: dag_ready_def)
  show ?case
  proof (cases "pending_tasks (task_dict (wf_tasks rec)) = []")
    case True
    with Suc.prems(5) show ?thesis by simp
  next
    case p: False
    obtain out w1 where m1: "dag_round E ?steps (task_dict (wf_tasks rec)) rec w = (out, w1)" by fastforce
    show ?thesis
    proof (cases out)
      case (Inl x)
      with Suc.prems(5) p m1 have "dag_round E ?steps (task_dict (wf_tasks rec)) rec w = (Inl e, w')" by (simp add: bnd_def)
      then show ?thesis by (rule neverD [OF nv_dag_round [OF Suc.prems(2) p]])
    next
      case (Inr o3)
      obtain results by_step r where o3: "o3 = (results, by_step, r)" by (metis prod_cases3)
      from keeps_Inr [OF kp_dag_round [OF Suc.prems(1) d] Suc.prems(3) m1 [unfolded Inr o3]]
      have w1: "confined E k w0 w1" and rr: "round_result E k ?steps rec (results, by_step, r)" by auto
      note f = round_result_facts [OF Suc.prems(1) d rr]
      from Suc.prems(5) p m1 Inr o3 f(2) have nf: "\<not> list_ex (\<lambda>t. wt_status t = WT_FAILED) results"
        and l: "dag_loop fuel E ?steps (task_dict (wf_tasks r)) r w1 = (Inl e, w')"
        by (auto simp: bnd_def split: if_splits)
      have "dag_ready plan r" using Suc.prems(2) f(5) f(10) [OF nf] unfolding dag_ready_def by (metis list.set_map)
      from Suc.IH [OF f(1) this w1 _ l] f(8) Suc.prems(4) show ?thesis by simp
    qed
  qed
qed simp

end
