(* ===== verification/Workflow_Outcomes.thy ===== *)
theory Workflow_Outcomes
  imports Workflow_Execution
begin

text \<open>
  Snapshots, compensation and completion: every task is snapshotted before the plan runs, a rollback treats every
  task and reports exactly, and a workflow completes only when every task has succeeded and was verified.
\<close>

section \<open>Replacing tasks\<close>

lemma replaced_by:
  assumes d: "distinct (map wt_step_id ts)" and sub: "set us \<subseteq> set ts"
    and l: "list_all2 R us vs" and R: "\<And>u v. R u v \<Longrightarrow> wt_step_id v = wt_step_id u" and t: "t \<in> set ts"
  shows "if t \<in> set us then R t (replaced vs t) else replaced vs t = t"
proof -
  have ids: "map wt_step_id vs = map wt_step_id us"
    using l by (induction rule: list_all2_induct) (auto dest: R)
  have uniq: "u = t" if "u \<in> set ts" "wt_step_id u = wt_step_id t" for u
    using d t that by (metis distinct_map inj_onD)
  show ?thesis
  proof (cases "wt_step_id t \<in> set (map wt_step_id vs)")
    case True
    with replaced_cases [of t vs] have x: "replaced vs t \<in> set vs" "wt_step_id (replaced vs t) = wt_step_id t" by simp_all
    from list_all2_origin [OF l x(1)] obtain u where u: "u \<in> set us" "R u (replaced vs t)" by blast
    with R x(2) sub uniq have "u = t" by (metis subsetD)
    with u show ?thesis by simp
  next
    case False
    then have "t \<notin> set us" unfolding ids by auto
    with False replaced_cases [of t vs] show ?thesis by simp
  qed
qed

lemma replaced_ids: "map wt_step_id (map (replaced vs) ts) = map wt_step_id ts"
  by (metis fold_replace_map ids_fold_replace)

lemma replaced_id [simp]: "wt_step_id (replaced vs t) = wt_step_id t"
  using replaced_ids [of vs "[t]"] by simp

lemma replaced_order:
  assumes "distinct (map wt_step_id ts)"
  shows "in_task_order (task_dict (map (replaced vs) ts)) ts w = (Inr (map (replaced vs) ts), w)"
  by (rule in_task_order_eq) (use assms in \<open>simp_all add: comp_def\<close>)

lemma replaced_snoc: "replaced (vs @ [u]) t = (if wt_step_id t = wt_step_id u then u else replaced vs t)"
proof -
  have "replaced (vs @ [u]) t = (if wt_step_id (replaced vs t) = wt_step_id u then u else replaced vs t)"
    by (simp only: replaced_def fold_append comp_def fold.simps id_apply)
  then show ?thesis by simp
qed

text \<open>Writing an outcome of a task into the dict of tasks.\<close>

lemma dput_replaced:
  assumes "distinct (map wt_step_id ts)" "task \<in> set ts" "wt_step_id u = wt_step_id task"
  shows "dput (wt_step_id task) u (task_dict (map (replaced vs) ts)) = task_dict (map (replaced (vs @ [u])) ts)"
proof -
  have "replace_task u (map (replaced vs) ts) = map (replaced (vs @ [u])) ts"
    by (simp add: replace_task_def replaced_snoc)
  moreover have "distinct (map wt_step_id (map (replaced vs) ts))" "wt_step_id u \<in> set (map wt_step_id (map (replaced vs) ts))"
    unfolding replaced_ids using assms by simp_all
  ultimately show ?thesis using update_task_dict assms(3) by metis
qed

section \<open>Snapshots\<close>

definition snapshotted :: "workflow_task \<Rightarrow> workflow_task \<Rightarrow> bool" where
  "snapshotted t t' \<longleftrightarrow> same_task t t' \<and> wt_status t' = wt_status t \<and> wt_snapshot_id t' \<noteq> None \<and> wt_snapshot_hash t' \<noteq> None"

lemma kp_take_snapshot: "keeps (confined E k w0) (take_snapshot E rec task) (\<lambda>_. True)"
  unfolding take_snapshot_def by (intro keeps_then [OF kp_request_id] kp_on_remote)

lemma kp_store_snapshot:
  assumes "strip_task task = task"
  shows "keeps (confined E k w0) (store_snapshot E rec task result) (snapshotted task)"
  unfolding store_snapshot_def
proof (rule keeps_then [OF kp_now], rule keeps_bnd [OF keeps_validated], rule keeps_then [OF kp_record_workflow_audit], rule keeps_ret)
  fix t u assume "WorkflowTaskRecord_validate (task\<lparr>wt_snapshot_id := Some (sx_snapshot_id result),
    wt_snapshot_hash := Some (sx_configuration_hash result), wt_updated_at := t\<rparr>) = Some u"
  from validated_task [OF this] stripped_task [OF assms] show "snapshotted task u"
    by (auto simp: snapshotted_def same_task_def strip_task_sel)
qed

lemma kp_store_snapshots:
  assumes "distinct (map wt_step_id ts)" "set (map fst pairs) \<subseteq> set ts" "\<forall>t \<in> set (map fst pairs). strip_task t = t"
  shows "keeps (confined E k w0) (store_snapshots E rec pairs (task_dict (map (replaced vs) ts)))
    (\<lambda>d. \<exists>us. list_all2 snapshotted (map fst pairs) us \<and> d = task_dict (map (replaced (vs @ us)) ts))"
  using assms(2,3)
proof (induction pairs arbitrary: vs)
  case Nil
  show ?case unfolding store_snapshots.simps by (rule keeps_ret) simp
next
  case (Cons p pairs)
  obtain task out where p: "p = (task, out)" by force
  show ?case
  proof (cases out)
    case (Inl e)
    then show ?thesis unfolding p Inl store_snapshots.simps by (intro keeps_raise)
  next
    case (Inr result)
    from Cons.prems p have t: "task \<in> set ts" "strip_task task = task" by auto
    show ?thesis unfolding p Inr store_snapshots.simps
    proof (rule keeps_bnd [OF kp_store_snapshot [OF t(2)]])
      fix u assume u: "snapshotted task u"
      then have id: "wt_step_id u = wt_step_id task" by (simp add: snapshotted_def same_task_def)
      note dict = dput_replaced [OF assms(1) t(1) id, of vs]
      have "keeps (confined E k w0) (store_snapshots E rec pairs (task_dict (map (replaced (vs @ [u])) ts)))
        (\<lambda>d. \<exists>us. list_all2 snapshotted (map fst pairs) us \<and> d = task_dict (map (replaced ((vs @ [u]) @ us)) ts))"
        by (rule Cons.IH) (use Cons.prems in auto)
      then show "keeps (confined E k w0) (store_snapshots E rec pairs (dput (wt_step_id task) u (task_dict (map (replaced vs) ts))))
        (\<lambda>d. \<exists>us. list_all2 snapshotted (map fst ((task, Inr result) # pairs)) us \<and> d = task_dict (map (replaced (vs @ us)) ts))"
        unfolding dict
      proof (rule keeps_weaken, elim exE conjE)
        fix d us assume "list_all2 snapshotted (map fst pairs) us" "d = task_dict (map (replaced ((vs @ [u]) @ us)) ts)"
        with u show "\<exists>us. list_all2 snapshotted (map fst ((task, Inr result) # pairs)) us \<and> d = task_dict (map (replaced (vs @ us)) ts)"
          by (intro exI [of _ "u # us"]) simp
      qed
    qed
  qed
qed

text \<open>After the snapshots: the same tasks in the same status, each with its snapshot.\<close>

definition captured :: "'x engine \<Rightarrow> workflow_key \<Rightarrow> workflow_execution \<Rightarrow> workflow_execution \<Rightarrow> bool" where
  "captured E k rec r \<longleftrightarrow> own E k r \<and> wf_plan r = wf_plan rec \<and> wf_approval_id r = wf_approval_id rec \<and>
     list_all2 (\<lambda>t t'. wt_step_id t' = wt_step_id t \<and> wt_status t' = wt_status t) (wf_tasks rec) (wf_tasks r) \<and>
     (\<forall>t \<in> set (wf_tasks r). wt_snapshot_id t \<noteq> None)"

lemma kp_capture_snapshots:
  assumes o: "own E k rec" and d: "distinct (map wt_step_id (wf_tasks rec))"
  shows "keeps (confined E k w0) (capture_snapshots E rec) (captured E k rec)"
  unfolding capture_snapshots_def Let_def
proof (rule keeps_if, goal_cases)
  case 1
  then show ?case by (intro keeps_ret) (auto simp: captured_def o list_all2_same filter_empty_conv)
next
  case 2
  let ?ts = "wf_tasks rec" let ?missing = "filter (\<lambda>task. wt_snapshot_id task = None) ?ts"
  have dict: "dict_of wt_step_id ?ts = task_dict (map (replaced []) ?ts)"
    using dict_of_tasks [OF d] by (simp add: replaced_def [abs_def])
  show ?case
  proof (rule keeps_bnd [OF keeps_gather_exceptions [OF kp_take_snapshot]])
    fix snaps :: "(workflow_error + snapshot_result) list"
    assume "list_all2 (\<lambda>x r. case r of Inl e \<Rightarrow> True | Inr y \<Rightarrow> True) ?missing snaps"
    then have "length snaps = length ?missing" by (simp add: list_all2_lengthD)
    then have zip: "map fst (zip ?missing snaps) = ?missing" by simp
    have kp: "keeps (confined E k w0) (store_snapshots E rec (zip ?missing snaps) (task_dict (map (replaced []) ?ts)))
      (\<lambda>d. \<exists>us. list_all2 snapshotted (map fst (zip ?missing snaps)) us \<and> d = task_dict (map (replaced ([] @ us)) ?ts))"
      by (rule kp_store_snapshots [OF d]) (use own_tasks [OF o] in \<open>auto simp: zip\<close>)
    show "keeps (confined E k w0) (bnd (store_snapshots E rec (zip ?missing snaps) (dict_of wt_step_id ?ts)) (\<lambda>by_step.
       bnd (in_task_order by_step ?ts) (\<lambda>tasks. update_record E rec (\<lambda>r. r\<lparr>wf_tasks := tasks\<rparr>)))) (captured E k rec)"
      unfolding dict
    proof (rule keeps_bnd [OF kp], elim exE conjE)
      fix by_step us assume "list_all2 snapshotted (map fst (zip ?missing snaps)) us" and b: "by_step = task_dict (map (replaced ([] @ us)) ?ts)"
      then have us: "list_all2 snapshotted ?missing us" by (simp add: zip)
      let ?ts' = "map (replaced us) ?ts"
      have each: "if t \<in> set ?missing then snapshotted t (replaced us t) else replaced us t = t" if "t \<in> set ?ts" for t
        by (rule replaced_by [OF d _ us _ that]) (auto simp: snapshotted_def same_task_def)
      have ord: "keeps (confined E k w0) (in_task_order by_step ?ts) (\<lambda>ts. ts = ?ts')"
        unfolding keeps_def b by (simp add: replaced_order [OF d])
      have st: "map strip_task ?ts' = ?ts'"
        using each own_tasks [OF o] by (fastforce simp: snapshotted_def same_task_def split: if_splits)
      show "keeps (confined E k w0) (bnd (in_task_order by_step ?ts) (\<lambda>tasks. update_record E rec (\<lambda>r. r\<lparr>wf_tasks := tasks\<rparr>))) (captured E k rec)"
      proof (rule keeps_bnd [OF ord], elim ssubst, rule keeps_weaken [OF kp_update_record [OF o]], simp)
        fix r assume u: "updated_from E k (rec\<lparr>wf_tasks := ?ts'\<rparr>) r"
        have r: "own E k r" "wf_plan r = wf_plan rec" "wf_tasks r = ?ts'" "wf_approval_id r = wf_approval_id rec"
          using updated_from_own [OF u] updated_from_sel [OF u] own_approval [OF o] st by simp_all
        have "wt_step_id (replaced us t) = wt_step_id t \<and> wt_status (replaced us t) = wt_status t \<and> wt_snapshot_id (replaced us t) \<noteq> None"
          if "t \<in> set ?ts" for t
          using each [OF that] that by (auto simp: snapshotted_def same_task_def split: if_splits)
        with r show "captured E k rec r" by (simp add: captured_def list_all2_conv_all_nth)
      qed
    qed
  qed
qed

section \<open>Verification\<close>

text \<open>A remote call that returned: the client answered with this result in some remote state.\<close>

definition answered :: "('x, 'a) remote \<Rightarrow> 'a \<Rightarrow> bool" where
  "answered m x \<longleftrightarrow> (\<exists>s s'. m s = (Inr x, s'))"

lemma kp_on_remote_answered: "keeps (confined E k w0) (on_remote m) (answered m)"
  unfolding on_remote_def by (rule keeps_zoom) (auto simp: answered_def)

definition passed_by :: "'x engine \<Rightarrow> workflow_execution \<Rightarrow> workflow_task \<Rightarrow> string \<Rightarrow> bool \<Rightarrow> bool" where
  "passed_by E rec task expected b \<longleftrightarrow> (\<exists>rid result. answered (cl_verify (eng_clients E) (wt_system_id task) (wf_tenant_id rec) expected rid) result \<and>
     b = vx_passed result)"

lemma kp_call_verify: "keeps (confined E k w0) (call_verify E rec task expected) (passed_by E rec task expected)"
  unfolding call_verify_def
proof (rule keeps_then [OF kp_request_id], rule keeps_bnd [OF kp_on_remote_answered], rule keeps_then)
  show "keeps (confined E k w0) (bnd (workflow_audit E rec a b c d e f) (\<lambda>audit. on_change_store (mem_record_audit audit))) (\<lambda>_. True)"
    for a b c d e f
    by (rule keeps_then [OF kp_workflow_audit kp_mem_record_audit])
qed (rule keeps_ret, unfold passed_by_def, blast)

lemma verify_attempts_keeps:
  "confined E k w0 w \<Longrightarrow> verify_attempts E rec task expected n w = (r, w') \<Longrightarrow>
    confined E k w0 w' \<and> (\<forall>b. r = Inr b \<longrightarrow> passed_by E rec task expected b)"
proof (induction "nat (rp_maximum_attempts (eng_retry E) - n)" arbitrary: n w rule: less_induct)
  case less
  note unf = verify_attempts.simps [of _ _ _ _ n, unfolded Let_def]
  obtain r1 w1 where m1: "call_verify E rec task expected w = (r1, w1)" by fastforce
  have w1: "confined E k w0 w1" using keeps_state [OF kp_call_verify less.prems(1) m1] .
  show ?case
  proof (cases "\<exists>code transient. r1 = Inl (DependencyCallError code transient) \<and> should_retry (eng_retry E) transient (n + 1)")
    case False
    with less.prems(2) m1 have "r = r1" "w' = w1"
      by (auto simp: unf split: sum.splits workflow_error.splits if_splits)
    with m1 kp_call_verify less.prems(1) show ?thesis unfolding keeps_def by blast
  next
    case True
    then obtain code tr where e: "r1 = Inl (DependencyCallError code tr)" and retry: "should_retry (eng_retry E) tr (n + 1)" by blast
    with less.prems(2) m1 have "verify_attempts E rec task expected (n + 1) w1 = (r, w')" by (simp add: unf)
    moreover have "nat (rp_maximum_attempts (eng_retry E) - (n + 1)) < nat (rp_maximum_attempts (eng_retry E) - n)"
      using retry by (simp add: should_retry_def)
    ultimately show ?thesis using less.hyps w1 by blast
  qed
qed

text \<open>The verifier of the task's system has confirmed the field that the plan's step sets.\<close>

definition verified :: "'x engine \<Rightarrow> workflow_execution \<Rightarrow> remediation_plan \<Rightarrow> workflow_task \<Rightarrow> bool" where
  "verified E rec plan task \<longleftrightarrow> (\<exists>step expected. dget (dict_of st_step_id (pl_steps plan)) (wt_step_id task) = Some step \<and>
     dget (st_arguments step) ''new_field'' = Some (JStr expected) \<and> passed_by E rec task expected True)"

lemma kp_verify_task:
  "keeps (confined E k w0) (verify_task E rec (task, step))
    (\<lambda>b. \<exists>expected. dget (st_arguments step) ''new_field'' = Some (JStr expected) \<and> passed_by E rec task expected b)"
proof -
  have "keeps (confined E k w0) (verify_attempts E rec task x n) (passed_by E rec task x)" for x n
    by (rule keepsI) (rule verify_attempts_keeps)
  then show ?thesis unfolding verify_task_def prod.case
    by (auto intro!: keeps_raise intro: keeps_weaken split: option.split json.split)
qed

lemma verification_error_None:
  "verification_error (zip ts rs) = None \<Longrightarrow> length ts = length rs \<Longrightarrow> list_all2 (\<lambda>t r. r = Inr True) ts rs"
proof (induction ts rs rule: list_induct2')
  case (4 t ts r rs)
  then show ?case by (cases "(t, r) # zip ts rs" rule: verification_error.cases) (auto split: if_splits)
qed auto

lemma kp_verify:
  "keeps (confined E k w0) (verify E rec)
    (\<lambda>err. err = None \<longrightarrow> (\<exists>plan. wf_plan rec = Some plan \<and> (\<forall>t \<in> set (wf_tasks rec). verified E rec plan t)))"
  unfolding verify_def
proof (rule keeps_bnd [OF kp_require_plan], rule keeps_bnd [OF kp_with_steps], goal_cases)
  case (1 plan pairs)
  let ?Q = "\<lambda>p b. \<exists>expected. dget (st_arguments (snd p)) ''new_field'' = Some (JStr expected) \<and> passed_by E rec (fst p) expected b"
  have "keeps (confined E k w0) (verify_task E rec p) (?Q p)" for p
    using kp_verify_task [of E k w0 rec "fst p" "snd p"] by simp
  then have "keeps (confined E k w0) (gather_exceptions (verify_task E rec) pairs)
    (\<lambda>rs. list_all2 (\<lambda>p r. case r of Inl e \<Rightarrow> True | Inr y \<Rightarrow> ?Q p y) pairs rs)"
    by (rule keeps_gather_exceptions)
  then show ?case
  proof (rule keeps_bnd, intro keeps_ret impI exI conjI ballI)
    fix rs t assume rs: "list_all2 (\<lambda>p r. case r of Inl e \<Rightarrow> True | Inr y \<Rightarrow> ?Q p y) pairs rs"
      and none: "verification_error (zip (wf_tasks rec) rs) = None" and t: "t \<in> set (wf_tasks rec)"
    have fst: "map fst pairs = wf_tasks rec" using 1(2) by simp
    have len: "length (wf_tasks rec) = length rs" using list_all2_lengthD [OF rs] by (simp flip: fst)
    from t obtain i where i: "i < length pairs" "fst (pairs ! i) = t" by (metis fst in_set_conv_nth length_map nth_map)
    have "i < length (wf_tasks rec)" using i(1) by (simp flip: fst)
    from list_all2_nthD [OF verification_error_None [OF none len] this] have "rs ! i = Inr True" .
    with list_all2_nthD [OF rs i(1)] have "?Q (pairs ! i) True" by simp
    moreover have "dget (dict_of st_step_id (pl_steps plan)) (wt_step_id t) = Some (snd (pairs ! i))"
      using 1(2) i nth_mem [OF i(1)] by (auto simp: case_prod_beta)
    ultimately show "verified E rec plan t" using i(2) by (auto simp: verified_def)
  qed (use 1(1) in simp)
qed

section \<open>Compensation\<close>

text \<open>
  A task is restored when its system accepted the restore of the task's snapshot and then reported exactly the
  configuration hash taken before the plan ran.
\<close>

definition restored :: "'x engine \<Rightarrow> workflow_execution \<Rightarrow> workflow_task \<Rightarrow> bool" where
  "restored E rec t \<longleftrightarrow> (\<exists>snapshot_id snapshot_hash rid rid2. wt_snapshot_id t = Some snapshot_id \<and> wt_snapshot_hash t = Some snapshot_hash \<and>
     answered (cl_restore (eng_clients E) (wt_system_id t) (wf_tenant_id rec) snapshot_id rid) () \<and>
     answered (cl_configuration_hash (eng_clients E) (wt_system_id t) (wf_tenant_id rec) rid2) snapshot_hash)"

definition rolled :: "'x engine \<Rightarrow> workflow_execution \<Rightarrow> workflow_task \<Rightarrow> workflow_task \<Rightarrow> bool" where
  "rolled E rec t t' \<longleftrightarrow> same_task t t' \<and> keeps_snapshot_of t t' \<and>
     (wt_status t' = WT_ROLLED_BACK \<and> restored E rec t \<or> wt_status t' = WT_ROLLBACK_FAILED)"

lemma rolled_id: "rolled E rec t t' \<Longrightarrow> wt_step_id t' = wt_step_id t"
  by (simp add: rolled_def same_task_def)

lemma rolled_back_one:
  assumes "WorkflowTaskRecord_validate (task\<lparr>wt_status := st, wt_error_code := z, wt_updated_at := u\<rparr>) = Some t'"
    "strip_task task = task"
  shows "same_task task t' \<and> keeps_snapshot_of task t' \<and> wt_status t' = st"
  using validated_task [OF assms(1)] stripped_task [OF assms(2)]
  by (auto simp: same_task_def keeps_snapshot_of_def strip_task_sel)

lemma kp_task_rollback_failed:
  assumes "strip_task task = task"
  shows "keeps (confined E k w0) (task_rollback_failed E task code) (rolled E rec task)"
  unfolding task_rollback_failed_def
  by (intro keeps_then [OF kp_now] keeps_weaken [OF keeps_validated])
    (auto dest!: rolled_back_one [OF _ assms] simp: rolled_def)

lemma kp_restore_task:
  assumes "strip_task task = task" "wt_snapshot_id task = Some sid" "wt_snapshot_hash task = Some hsh"
  shows "keeps (confined E k w0) (restore_task E rec task sid hsh) (rolled E rec task)"
  unfolding restore_task_def
proof (rule keeps_then [OF kp_request_id], rule keeps_bnd [OF kp_on_remote_answered], rule keeps_then [OF kp_request_id],
    rule keeps_bnd [OF kp_on_remote_answered], rule keeps_bnd [OF keeps_guard], rule keeps_then [OF kp_now],
    rule keeps_bnd [OF keeps_validated], rule keeps_then [OF kp_record_workflow_audit], rule keeps_ret, goal_cases)
  case (1 rid u rid2 hash v t t')
  then have "restored E rec task" using assms(2,3) by (auto simp: restored_def)
  with rolled_back_one [OF 1(4) assms(1)] show ?case by (simp add: rolled_def)
qed

lemma kp_rollback_task:
  assumes "strip_task task = task"
  shows "keeps (confined E k w0) (rollback_task E rec task) (rolled E rec task)"
proof (cases "wt_snapshot_id task = None \<or> wt_snapshot_hash task = None")
  case True
  then show ?thesis unfolding rollback_task_def
    by (auto intro: kp_task_rollback_failed [OF assms] split: option.splits)
next
  case False
  then obtain sid hsh where sn: "wt_snapshot_id task = Some sid" "wt_snapshot_hash task = Some hsh" by auto
  have h: "keeps (confined E k w0) (bnd (task_rollback_failed E task code) (\<lambda>updated.
      bnd (record_workflow_audit E rec a b c d e f) (\<lambda>_. ret updated))) (rolled E rec task)" for code a b c d e f
    by (intro keeps_bnd [OF kp_task_rollback_failed [OF assms]] keeps_then [OF kp_record_workflow_audit] keeps_ret)
  show ?thesis unfolding rollback_task_def sn prod.case option.case
    by (rule keeps_catch [OF kp_restore_task [OF assms sn]]) (auto intro: keeps_raise h split: workflow_error.split)
qed

lemma kp_rollback_tasks:
  assumes "distinct (map wt_step_id ts)" "set tasks \<subseteq> set ts" "\<forall>t \<in> set tasks. strip_task t = t"
  shows "keeps (confined E k w0) (rollback_tasks E rec tasks (task_dict (map (replaced vs) ts)) failed)
    (\<lambda>(d, f). \<exists>us. list_all2 (rolled E rec) tasks us \<and> d = task_dict (map (replaced (vs @ us)) ts) \<and>
       f = (failed \<or> (\<exists>u \<in> set us. wt_status u = WT_ROLLBACK_FAILED)))"
  using assms(2,3)
proof (induction tasks arbitrary: vs failed)
  case Nil
  show ?case unfolding rollback_tasks.simps by (rule keeps_ret) simp
next
  case (Cons task tasks)
  then have t: "task \<in> set ts" "strip_task task = task" by auto
  show ?case unfolding rollback_tasks.simps
  proof (rule keeps_bnd [OF kp_rollback_task [OF t(2)]])
    fix u assume u: "rolled E rec task u"
    note dict = dput_replaced [OF assms(1) t(1) rolled_id [OF u], of vs]
    have "keeps (confined E k w0) (rollback_tasks E rec tasks (task_dict (map (replaced (vs @ [u])) ts)) (failed \<or> wt_status u = WT_ROLLBACK_FAILED))
      (\<lambda>(d, f). \<exists>us. list_all2 (rolled E rec) tasks us \<and> d = task_dict (map (replaced ((vs @ [u]) @ us)) ts) \<and>
         f = ((failed \<or> wt_status u = WT_ROLLBACK_FAILED) \<or> (\<exists>u \<in> set us. wt_status u = WT_ROLLBACK_FAILED)))"
      by (rule Cons.IH) (use Cons.prems in auto)
    then show "keeps (confined E k w0) (rollback_tasks E rec tasks (dput (wt_step_id task) u (task_dict (map (replaced vs) ts)))
        (failed \<or> wt_status u = WT_ROLLBACK_FAILED))
      (\<lambda>(d, f). \<exists>us. list_all2 (rolled E rec) (task # tasks) us \<and> d = task_dict (map (replaced (vs @ us)) ts) \<and>
         f = (failed \<or> (\<exists>u \<in> set us. wt_status u = WT_ROLLBACK_FAILED)))"
      unfolding dict
    proof (rule keeps_weaken, clarify)
      fix d us assume "list_all2 (rolled E rec) tasks us"
      with u show "\<exists>us'. list_all2 (rolled E rec) (task # tasks) us' \<and>
          task_dict (map (replaced ((vs @ [u]) @ us)) ts) = task_dict (map (replaced (vs @ us')) ts) \<and>
          ((failed \<or> wt_status u = WT_ROLLBACK_FAILED) \<or> (\<exists>u \<in> set us. wt_status u = WT_ROLLBACK_FAILED)) =
          (failed \<or> (\<exists>u \<in> set us'. wt_status u = WT_ROLLBACK_FAILED))"
        by (intro exI [of _ "u # us"]) auto
    qed
  qed
qed

section \<open>Final states\<close>

definition change_is :: "workflow_key \<Rightarrow> workflow_state \<Rightarrow> 'x coordinator \<Rightarrow> bool" where
  "change_is k st w \<longleftrightarrow> (\<exists>c. stored_change w (change_of k) = Some c \<and> cr_status c = st)"

lemma update_record_stores:
  assumes "update_record E rec f w = (Inr r, w')"
  shows "co_changes w' = co_changes w \<and> stored_workflow w' (workflow_key r) = Some r"
  using assms unfolding update_record_def on_workflow_store_def stored_workflow_def
  by (auto elim!: bnd_eq_InrE simp: now_def zoom_def validated_def update_workflow_Inr split: option.splits prod.splits sum.splits)
    (auto simp: map_sum_def update_workflow_Inr split: sum.splits)

lemma make_terminal_stores:
  assumes "make_terminal E rec st err w = (Inr r, w')" "wf_status rec \<noteq> st"
  shows "co_changes w' = co_changes w \<and> stored_workflow w' (workflow_key r) = Some r"
  using assms update_record_stores unfolding make_terminal_def
  by (fastforce elim!: bnd_eq_InrE simp: now_def)

lemma do_transition_stores:
  assumes "confined E k w0 w" "own E k rec" "do_transition E rec target upd w = (Inr c, w')"
  shows "change_is k target w'"
proof -
  from assms(3) obtain cur w1 t w2 h w3 where r: "get_change rec w = (Inr cur, w1)" "now E w1 = (Inr t, w2)" "uuid E w2 = (Inr h, w3)"
    and z: "zoom co_changes (\<lambda>s w. w\<lparr>co_changes := s\<rparr>) TransitionFailed (transition (eng_iso_text E) mem_ops (Aware t) (''audit_'' @ h)
         \<lparr>ta_tenant_id = wf_tenant_id rec, ta_change_id = wf_change_id rec, ta_target = target,
          ta_expected_version = cr_version cur, ta_trace_id = wf_trace_id rec, ta_actor_type = Actor_SERVICE,
          ta_actor_id = ''workflow-coordinator'', ta_updates = upd\<rparr>) w3 = (Inr c, w')" (is "zoom _ _ _ (transition _ _ _ _ ?a) _ = _")
    unfolding do_transition_def by (elim bnd_eq_InrE)
  have w3: "confined E k w0 w3"
    using keeps_state [OF kp_uuid keeps_state [OF kp_now keeps_state [OF kp_get_change assms(1) r(1)] r(2)] r(3)] .
  obtain res s' where m: "transition (eng_iso_text E) mem_ops (Aware t) (''audit_'' @ h) ?a (co_changes w3) = (res, s')" by fastforce
  with z have "map_sum TransitionFailed id res = Inr c" "w' = w3\<lparr>co_changes := s'\<rparr>" by (simp_all add: zoom_def)
  then have "res = Inr c" by (cases res) simp_all
  with transition_zoom [OF w3 _ m] own_change [OF assms(2)] \<open>w' = _\<close> show ?thesis by (auto simp: change_is_def)
qed

text \<open>The last step of every execution: the change reaches its final state, then the record becomes terminal.\<close>

lemma finish_yields:
  assumes o: "own E k rec" and st: "wf_status rec \<noteq> st"
  shows "yields (confined E k w0) (bnd (do_transition E rec target upd) (\<lambda>_. make_terminal E rec st err))
    (\<lambda>r w. own E k r \<and> wf_status r = st \<and> wf_tasks r = wf_tasks rec \<and> stored_workflow w k = Some r \<and> change_is k target w)"
  unfolding yields_def
proof (intro allI impI)
  let ?m = "bnd (do_transition E rec target upd) (\<lambda>_. make_terminal E rec st err)"
  fix w res w' assume w: "confined E k w0 w" and run: "?m w = (res, w')"
  have kp: "keeps (confined E k w0) ?m (\<lambda>r. own E k r \<and> wf_status r = st \<and> wf_tasks r = wf_tasks rec)"
    by (rule keeps_bnd [OF kp_do_transition [OF o]], rule kp_make_terminal [OF o])
  have "stored_workflow w' k = Some r \<and> change_is k target w'" if "res = Inr r" for r
  proof -
    from run that obtain c w1 where t: "do_transition E rec target upd w = (Inr c, w1)" and m: "make_terminal E rec st err w1 = (Inr r, w')"
      by (auto elim: bnd_eq_InrE)
    from keeps_Inr [OF kp w run [unfolded that]] have "workflow_key r = k" by (simp add: own_def)
    with make_terminal_stores [OF m st] do_transition_stores [OF w o t] show ?thesis by (simp add: change_is_def stored_change_def)
  qed
  with kp w run show "confined E k w0 w' \<and> (\<forall>r. res = Inr r \<longrightarrow> own E k r \<and> wf_status r = st \<and> wf_tasks r = wf_tasks rec \<and>
      stored_workflow w' k = Some r \<and> change_is k target w')"
    unfolding keeps_def by blast
qed

text \<open>
  The outcome of a rollback: every task is rolled back or marked as not rolled back; record and change
  end as failed when every task was, and ask for attention otherwise.
\<close>

definition rollback_outcome :: "'x engine \<Rightarrow> workflow_key \<Rightarrow> workflow_execution \<Rightarrow> workflow_execution \<Rightarrow> 'x coordinator \<Rightarrow> bool" where
  "rollback_outcome E k rec r w \<longleftrightarrow> own E k r \<and> list_all2 (rolled E rec) (wf_tasks rec) (wf_tasks r) \<and> stored_workflow w k = Some r \<and>
     (if \<forall>t \<in> set (wf_tasks r). wt_status t = WT_ROLLED_BACK then wf_status r = WR_FAILED \<and> change_is k WS_FAILED w
      else wf_status r = WR_NEEDS_ATTENTION \<and> change_is k WS_NEEDS_ATTENTION w)"

lemma rolled_tenant: "wf_tenant_id rec' = wf_tenant_id rec \<Longrightarrow> rolled E rec' = rolled E rec"
  by (simp add: rolled_def restored_def fun_eq_iff)

lemma own_tenant: "own E k rec \<Longrightarrow> wf_tenant_id rec = fst k"
  by (auto simp: own_def workflow_key_def)

lemma rolled_all:
  assumes d: "distinct (map wt_step_id ts)" and same: "set us = set ts" "distinct (map wt_step_id us)"
    and l: "list_all2 (rolled E rec) us vs"
  shows "list_all2 (rolled E rec) ts (map (replaced vs) ts)"
    and "(\<forall>t \<in> set (map (replaced vs) ts). wt_status t = WT_ROLLED_BACK) \<longleftrightarrow> \<not> (\<exists>v \<in> set vs. wt_status v = WT_ROLLBACK_FAILED)"
proof -
  have r: "rolled E rec t (replaced vs t)" if "t \<in> set ts" for t
    using replaced_by [OF d _ l rolled_id that] same(1) that by simp
  then show "list_all2 (rolled E rec) ts (map (replaced vs) ts)" by (simp add: list_all2_conv_all_nth)
  have ids: "map wt_step_id vs = map wt_step_id us"
    using l by (induction rule: list_all2_induct) (auto dest: rolled_id)
  have in_vs: "replaced vs t \<in> set vs" if "t \<in> set ts" for t
  proof -
    have "wt_step_id t \<in> set (map wt_step_id vs)" using that same(1) unfolding ids by simp
    with replaced_cases [of t vs] show ?thesis by simp
  qed
  have "\<exists>t \<in> set ts. v = replaced vs t" if v: "v \<in> set vs" for v
  proof -
    from list_all2_origin [OF l v] obtain t where t: "t \<in> set ts" "rolled E rec t v" using same(1) by blast
    moreover have "inj_on wt_step_id (set vs)" using same(2) by (simp add: distinct_map flip: ids)
    ultimately have "v = replaced vs t" using v in_vs rolled_id by (metis inj_onD replaced_id)
    with t show ?thesis by blast
  qed
  then have "set vs = set (map (replaced vs) ts)" using in_vs by auto
  moreover have "wt_status x = WT_ROLLED_BACK \<longleftrightarrow> wt_status x \<noteq> WT_ROLLBACK_FAILED" if "x \<in> set (map (replaced vs) ts)" for x
    using r that by (auto simp: rolled_def)
  ultimately show "(\<forall>t \<in> set (map (replaced vs) ts). wt_status t = WT_ROLLED_BACK) \<longleftrightarrow> \<not> (\<exists>v \<in> set vs. wt_status v = WT_ROLLBACK_FAILED)"
    by (metis (no_types))
qed

lemma distinct_map_sort_desc: "distinct (map g (sort_desc f xs)) = distinct (map g xs)"
  by (simp add: distinct_map)

lemma rollback_yields:
  assumes o0: "own E k rec0" and d0: "distinct (map wt_step_id (wf_tasks rec0))"
  shows "yields (confined E k w0) (rollback E rec0 err) (rollback_outcome E k rec0)"
  unfolding rollback_def
proof (rule yields_bnd [OF kp_get_change], rule yields_bnd [OF kp_unit_transition [OF o0]], rule yields_bnd [OF kp_set_runtime_status [OF o0]],
    rule yields_bnd [OF kp_require_plan], rule yields_bnd [OF kp_with_steps], goal_cases)
  case (1 change u rec plan pairs)
  let ?us = "map fst (sort_desc (\<lambda>(task, step). st_order step) pairs)" and ?ts = "wf_tasks rec"
  from 1(3) have rec: "own E k rec" "?ts = wf_tasks rec0" "wf_status rec = WR_ROLLING_BACK" by simp_all
  have d: "distinct (map wt_step_id ?ts)" using d0 rec(2) by simp
  have fst: "map fst pairs = ?ts" using 1(5) by simp
  then have us: "set ?us = set ?ts" "distinct (map wt_step_id ?us)"
    using d distinct_map_sort_desc [of "wt_step_id \<circ> fst" "\<lambda>(task, step). st_order step" pairs] by (simp_all flip: fst)
  have dict: "dict_of wt_step_id ?ts = task_dict (map (replaced []) ?ts)"
    using dict_of_tasks [OF d] by (simp add: replaced_def [abs_def])
  have kp: "keeps (confined E k w0) (rollback_tasks E rec ?us (task_dict (map (replaced []) ?ts)) False)
    (\<lambda>(by_step, f). \<exists>vs. list_all2 (rolled E rec) ?us vs \<and> by_step = task_dict (map (replaced ([] @ vs)) ?ts) \<and>
       f = (False \<or> (\<exists>v \<in> set vs. wt_status v = WT_ROLLBACK_FAILED)))"
    by (rule kp_rollback_tasks [OF d]) (use us(1) own_tasks [OF rec(1)] in auto)
  show ?case unfolding dict
  proof (rule yields_bnd [OF kp], clarify, goal_cases)
    case (1 by_step f vs)
    let ?ts' = "map (replaced vs) ?ts" let ?f = "False \<or> (\<exists>v \<in> set vs. wt_status v = WT_ROLLBACK_FAILED)"
    note all = rolled_all [OF d us 1]
    have ord: "keeps (confined E k w0) (in_task_order (task_dict (map (replaced ([] @ vs)) ?ts)) ?ts) (\<lambda>ts. ts = ?ts')"
      unfolding keeps_def by (simp add: replaced_order [OF d])
    have st: "map strip_task ?ts' = ?ts'"
      using all(1) by (auto simp: list_all2_conv_all_nth rolled_def same_task_def in_set_conv_nth)
    show ?case
    proof (rule yields_bnd [OF ord], elim ssubst, rule yields_bnd [OF kp_update_record [OF rec(1)]], simp)
      fix rec' assume u: "updated_from E k (rec\<lparr>wf_tasks := ?ts'\<rparr>) rec'"
      have r: "own E k rec'" "wf_tasks rec' = ?ts'" "wf_status rec' = WR_ROLLING_BACK"
        using updated_from_own [OF u] updated_from_sel [OF u] st rec(3) by simp_all
      have roll: "list_all2 (rolled E rec0) (wf_tasks rec0) ?ts'"
        using all(1) rolled_tenant own_tenant [OF rec(1)] own_tenant [OF o0] rec(2) by metis
      have "wf_status rec' \<noteq> (if ?f then WR_NEEDS_ATTENTION else WR_FAILED)" by (simp add: r(3))
      from finish_yields [OF r(1) this]
      show "yields (confined E k w0) (bnd (do_transition E rec' (if ?f then WS_NEEDS_ATTENTION else WS_FAILED) no_updates)
          (\<lambda>_. make_terminal E rec' (if ?f then WR_NEEDS_ATTENTION else WR_FAILED) (Some err))) (rollback_outcome E k rec0)"
        by (rule yields_weaken) (cases ?f; simp add: rollback_outcome_def r(2) roll all(2) del: set_map)
    qed
  qed
qed

section \<open>Executing a plan\<close>

text \<open>
  A record from which an execution may start or resume: one task per step, no task compensated, and every
  task that was attempted has its dependencies done.
\<close>

definition resumable :: "workflow_execution \<Rightarrow> bool" where
  "resumable rec \<longleftrightarrow> distinct (map wt_step_id (wf_tasks rec)) \<and>
     (\<forall>t \<in> set (wf_tasks rec). wt_status t \<in> {WT_PENDING, WT_SUCCEEDED, WT_FAILED}) \<and>
     (\<forall>plan. wf_plan rec = Some plan \<longrightarrow> deps_closed (dict_of st_step_id (pl_steps plan)) (wf_tasks rec))"

definition completed_outcome :: "'x engine \<Rightarrow> workflow_key \<Rightarrow> workflow_execution \<Rightarrow> workflow_execution \<Rightarrow> 'x coordinator \<Rightarrow> bool" where
  "completed_outcome E k rec r w \<longleftrightarrow> wf_status r = WR_COMPLETED \<and> change_is k WS_COMPLETED w \<and>
     (\<exists>plan. wf_plan rec = Some plan \<and>
       (\<forall>t \<in> set (wf_tasks r). wt_status t = WT_SUCCEEDED \<and> wt_snapshot_id t \<noteq> None \<and> verified E r plan t))"

definition failed_outcome :: "'x engine \<Rightarrow> workflow_key \<Rightarrow> workflow_execution \<Rightarrow> 'x coordinator \<Rightarrow> bool" where
  "failed_outcome E k r w \<longleftrightarrow> wf_status r = WR_FAILED \<and> change_is k WS_FAILED w \<and>
     (\<forall>t \<in> set (wf_tasks r). wt_status t = WT_ROLLED_BACK \<and> restored E r t)"

definition attention_outcome :: "'x engine \<Rightarrow> workflow_key \<Rightarrow> workflow_execution \<Rightarrow> 'x coordinator \<Rightarrow> bool" where
  "attention_outcome E k r w \<longleftrightarrow> wf_status r = WR_NEEDS_ATTENTION \<and> change_is k WS_NEEDS_ATTENTION w \<and>
     (\<exists>t \<in> set (wf_tasks r). wt_status t = WT_ROLLBACK_FAILED) \<and>
     (\<forall>t \<in> set (wf_tasks r). wt_status t = WT_ROLLED_BACK \<and> restored E r t \<or> wt_status t = WT_ROLLBACK_FAILED)"

definition execution_outcome :: "'x engine \<Rightarrow> workflow_key \<Rightarrow> workflow_execution \<Rightarrow> workflow_execution \<Rightarrow> 'x coordinator \<Rightarrow> bool" where
  "execution_outcome E k rec r w \<longleftrightarrow> own E k r \<and> stored_workflow w k = Some r \<and>
     map wt_step_id (wf_tasks r) = map wt_step_id (wf_tasks rec) \<and>
     (completed_outcome E k rec r w \<or> failed_outcome E k r w \<or> attention_outcome E k r w)"

lemma restored_rolled: "rolled E rec t t' \<Longrightarrow> wf_tenant_id r = wf_tenant_id rec \<Longrightarrow> wt_status t' = WT_ROLLED_BACK \<Longrightarrow> restored E r t'"
  by (auto simp: rolled_def restored_def same_task_def keeps_snapshot_of_def)

lemma rollback_execution:
  assumes o: "own E k rec" and ids: "map wt_step_id (wf_tasks rec) = map wt_step_id (wf_tasks rec0)" and rb: "rollback_outcome E k rec r w"
  shows "execution_outcome E k rec0 r w"
proof -
  from rb have r: "own E k r" "list_all2 (rolled E rec) (wf_tasks rec) (wf_tasks r)" "stored_workflow w k = Some r"
    by (simp_all add: rollback_outcome_def)
  have ten: "wf_tenant_id r = wf_tenant_id rec" using own_tenant [OF o] own_tenant [OF r(1)] by simp
  have "map wt_step_id (wf_tasks r) = map wt_step_id (wf_tasks rec)"
    using r(2) by (induction rule: list_all2_induct) (auto dest: rolled_id)
  moreover have t: "wt_status t = WT_ROLLED_BACK \<and> restored E r t \<or> wt_status t = WT_ROLLBACK_FAILED" if "t \<in> set (wf_tasks r)" for t
    using list_all2_origin [OF r(2) that] restored_rolled [OF _ ten] by (auto simp: rolled_def)
  moreover have "failed_outcome E k r w \<or> attention_outcome E k r w"
  proof (cases "\<forall>t \<in> set (wf_tasks r). wt_status t = WT_ROLLED_BACK")
    case True
    with rb t show ?thesis by (auto simp: rollback_outcome_def failed_outcome_def)
  next
    case False
    with rb t show ?thesis unfolding rollback_outcome_def attention_outcome_def by (metis (no_types, lifting))
  qed
  ultimately show ?thesis using r ids by (simp add: execution_outcome_def)
qed

lemma kp_execute_dag:
  assumes "own E k rec" "distinct (map wt_step_id (wf_tasks rec))"
    "\<And>plan. wf_plan rec = Some plan \<Longrightarrow> deps_closed (dict_of st_step_id (pl_steps plan)) (wf_tasks rec)"
  shows "keeps (confined E k w0) (execute_dag E rec)
    (\<lambda>r. \<exists>plan. wf_plan rec = Some plan \<and> dag_result E k (dict_of st_step_id (pl_steps plan)) rec r)"
  unfolding execute_dag_def dict_of_tasks [OF assms(2)]
proof (rule keeps_bnd [OF kp_require_plan])
  fix plan assume p: "wf_plan rec = Some plan"
  show "keeps (confined E k w0) (dag_loop (Suc (length (wf_tasks rec))) E (dict_of st_step_id (pl_steps plan)) (task_dict (wf_tasks rec)) rec)
    (\<lambda>r. \<exists>plan. wf_plan rec = Some plan \<and> dag_result E k (dict_of st_step_id (pl_steps plan)) rec r)"
    by (rule keeps_weaken [OF kp_dag_loop [OF assms(1,2) assms(3) [OF p]]]) (use p in blast)
qed

lemma verify_and_complete_yields:
  assumes o: "own E k rec" and d: "distinct (map wt_step_id (wf_tasks rec))"
    and ok: "\<forall>t \<in> set (wf_tasks rec). wt_status t = WT_SUCCEEDED \<and> wt_snapshot_id t \<noteq> None"
    and ids: "map wt_step_id (wf_tasks rec) = map wt_step_id (wf_tasks rec0)" and plan: "wf_plan rec = wf_plan rec0"
  shows "yields (confined E k w0) (verify_and_complete E rec) (execution_outcome E k rec0)"
  unfolding verify_and_complete_def
proof (rule yields_bnd [OF kp_do_transition [OF o]], rule yields_bnd [OF kp_set_runtime_status [OF o]], rule yields_bnd [OF kp_verify], goal_cases)
  case (1 c rec1 err)
  from 1(2) have r1: "own E k rec1" "wf_status rec1 = WR_VERIFYING" "wf_plan rec1 = wf_plan rec" "wf_tasks rec1 = wf_tasks rec" by simp_all
  show ?case
  proof (cases err)
    case None
    with 1(3) r1(3,4) obtain p where p: "wf_plan rec = Some p" "\<forall>t \<in> set (wf_tasks rec). verified E rec1 p t" by auto
    have fin: "execution_outcome E k rec0 r w"
      if "own E k r \<and> wf_status r = WR_COMPLETED \<and> wf_tasks r = wf_tasks rec1 \<and> stored_workflow w k = Some r \<and> change_is k WS_COMPLETED w" for r w
    proof -
      have "wf_tenant_id rec1 = wf_tenant_id r" using that own_tenant [OF r1(1)] own_tenant [of E k r] by simp
      then have "verified E r p t" if "t \<in> set (wf_tasks rec)" for t
        using p(2) that by (fastforce simp: verified_def passed_by_def)
      moreover have "wf_plan rec0 = Some p" using p(1) plan by simp
      ultimately have "completed_outcome E k rec0 r w" using that ok r1(4) by (auto simp: completed_outcome_def)
      with that ids r1(4) show ?thesis by (simp add: execution_outcome_def)
    qed
    have "wf_status rec1 \<noteq> WR_COMPLETED" by (simp add: r1(2))
    from yields_weaken [OF finish_yields [OF r1(1) this] fin] show ?thesis by (simp add: None)
  next
    case (Some code)
    have "distinct (map wt_step_id (wf_tasks rec1))" "map wt_step_id (wf_tasks rec1) = map wt_step_id (wf_tasks rec0)"
      using d ids r1(4) by simp_all
    from yields_weaken [OF rollback_yields [OF r1(1) this(1)] rollback_execution [OF r1(1) this(2)]] show ?thesis by (simp add: Some)
  qed
qed

lemma done_ids_Cons: "done_ids (t # ts) = (if wt_status t = WT_SUCCEEDED then insert (wt_step_id t) (done_ids ts) else done_ids ts)"
  by (auto simp: done_ids_def)

lemma captured_resumable:
  assumes "captured E k rec r" "resumable rec"
  shows "resumable r" "map wt_step_id (wf_tasks r) = map wt_step_id (wf_tasks rec)"
proof -
  from assms(1) have l: "list_all2 (\<lambda>t t'. wt_step_id t' = wt_step_id t \<and> wt_status t' = wt_status t) (wf_tasks rec) (wf_tasks r)"
    and p: "wf_plan r = wf_plan rec" by (simp_all add: captured_def)
  from l show ids: "map wt_step_id (wf_tasks r) = map wt_step_id (wf_tasks rec)"
    by (induction rule: list_all2_induct) auto
  from l have dn: "done_ids (wf_tasks r) = done_ids (wf_tasks rec)"
    by (induction rule: list_all2_induct) (auto simp: done_ids_Cons)
  have "wt_status t' \<in> {WT_PENDING, WT_SUCCEEDED, WT_FAILED}" if "t' \<in> set (wf_tasks r)" for t'
    using list_all2_origin [OF l that] assms(2) by (auto simp: resumable_def)
  moreover have "deps_closed steps (wf_tasks r)" if "deps_closed steps (wf_tasks rec)" for steps
    unfolding deps_closed_def dn
  proof (intro ballI impI)
    fix t' assume t': "t' \<in> set (wf_tasks r)" "wt_status t' \<noteq> WT_PENDING"
    from list_all2_origin [OF l t'(1)] obtain t where "t \<in> set (wf_tasks rec)" "wt_step_id t' = wt_step_id t" "wt_status t' = wt_status t" by blast
    with that t'(2) show "deps_of steps t' \<subseteq> done_ids (wf_tasks rec)" by (auto simp: deps_closed_def deps_of_def)
  qed
  ultimately show "resumable r" using assms(2) ids p by (simp add: resumable_def)
qed

lemma moved_final:
  assumes "list_all2 moved ts ts'" "\<forall>t \<in> set ts. wt_status t \<in> {WT_PENDING, WT_SUCCEEDED, WT_FAILED} \<and> wt_snapshot_id t \<noteq> None"
    "\<forall>t \<in> set ts'. wt_status t \<noteq> WT_FAILED" "\<forall>t \<in> set ts'. wt_status t \<noteq> WT_PENDING"
  shows "\<forall>t \<in> set ts'. wt_status t = WT_SUCCEEDED \<and> wt_snapshot_id t \<noteq> None"
proof
  fix t' assume t': "t' \<in> set ts'"
  from list_all2_origin [OF assms(1) t'] assms(2-4) t' show "wt_status t' = WT_SUCCEEDED \<and> wt_snapshot_id t' \<noteq> None"
    by (auto simp: moved_def keeps_snapshot_of_def)
qed

lemma execute_plan_yields:
  assumes o: "own E k rec0" and res: "resumable rec0"
  shows "yields (confined E k w0) (execute_plan E rec0) (execution_outcome E k rec0)"
  unfolding execute_plan_def
proof (rule yields_bnd [OF kp_set_runtime_status [OF o]])
  fix rec1 assume "own E k rec1 \<and> wf_status rec1 = WR_EXECUTING \<and> wf_plan rec1 = wf_plan rec0 \<and> wf_tasks rec1 = wf_tasks rec0 \<and>
    wf_approval_id rec1 = wf_approval_id rec0"
  then have r1: "own E k rec1" "wf_plan rec1 = wf_plan rec0" "wf_tasks rec1 = wf_tasks rec0" by simp_all
  with res have res1: "resumable rec1" by (simp add: resumable_def)
  then have d1: "distinct (map wt_step_id (wf_tasks rec1))" by (simp add: resumable_def)
  show "yields (confined E k w0) (bnd (capture_snapshots E rec1) (\<lambda>rec2. bnd (execute_dag E rec2) (\<lambda>rec.
     if list_ex (\<lambda>task. wt_status task = WT_FAILED) (wf_tasks rec)
     then rollback E rec (case wf_last_error_code rec of None \<Rightarrow> ''TOOL_EXECUTION_FAILED'' | Some code \<Rightarrow> code)
     else verify_and_complete E rec))) (execution_outcome E k rec0)"
  proof (rule yields_bnd [OF kp_capture_snapshots [OF r1(1) d1]])
    fix rec2 assume c: "captured E k rec1 rec2"
    note res2 = captured_resumable [OF c res1]
    from res2(1) have d2: "distinct (map wt_step_id (wf_tasks rec2))"
      and cl: "\<And>plan. wf_plan rec2 = Some plan \<Longrightarrow> deps_closed (dict_of st_step_id (pl_steps plan)) (wf_tasks rec2)"
      by (simp_all add: resumable_def)
    from c have c2: "own E k rec2" "wf_plan rec2 = wf_plan rec1" "\<forall>t \<in> set (wf_tasks rec2). wt_snapshot_id t \<noteq> None"
      by (simp_all add: captured_def)
    show "yields (confined E k w0) (bnd (execute_dag E rec2) (\<lambda>rec.
       if list_ex (\<lambda>task. wt_status task = WT_FAILED) (wf_tasks rec)
       then rollback E rec (case wf_last_error_code rec of None \<Rightarrow> ''TOOL_EXECUTION_FAILED'' | Some code \<Rightarrow> code)
       else verify_and_complete E rec)) (execution_outcome E k rec0)"
    proof (rule yields_bnd [OF kp_execute_dag [OF c2(1) d2 cl]], simp, rule yields_if, goal_cases)
      case (1 rec)
      then have r: "own E k rec" "list_all2 moved (wf_tasks rec2) (wf_tasks rec)" by (auto simp: dag_result_def)
      have ids: "map wt_step_id (wf_tasks rec) = map wt_step_id (wf_tasks rec0)" using moved_ids [OF r(2)] res2(2) r1(3) by simp
      have "distinct (map wt_step_id (wf_tasks rec))" using ids d1 r1(3) by simp
      from yields_weaken [OF rollback_yields [OF r(1) this] rollback_execution [OF r(1) ids]] show ?case by simp
    next
      case (2 rec)
      then have r: "own E k rec" "list_all2 moved (wf_tasks rec2) (wf_tasks rec)" "wf_plan rec = wf_plan rec2"
        and st: "\<forall>t \<in> set (wf_tasks rec). wt_status t \<noteq> WT_FAILED" "\<forall>t \<in> set (wf_tasks rec). wt_status t \<noteq> WT_PENDING"
        by (auto simp: dag_result_def list_ex_iff)
      have ids: "map wt_step_id (wf_tasks rec) = map wt_step_id (wf_tasks rec0)" using moved_ids [OF r(2)] res2(2) r1(3) by simp
      have "\<forall>t \<in> set (wf_tasks rec). wt_status t = WT_SUCCEEDED \<and> wt_snapshot_id t \<noteq> None"
        by (rule moved_final [OF r(2) _ st]) (use c2(3) res2(1) in \<open>auto simp: resumable_def\<close>)
      from verify_and_complete_yields [OF r(1) _ this ids] show ?case using ids d1 r1 c2(2) r(3) by simp
    qed
  qed
qed

section \<open>Resuming after a decision\<close>

lemma confined_key: "change_of j = change_of k \<Longrightarrow> confined E j w0 = confined E k w0"
  by (simp add: confined_def fun_eq_iff)

lemma kp_callback_rejected:
  assumes "own E k rec"
  shows "keeps (confined E k w0) (callback_rejected E rec change) (\<lambda>r. own E k r \<and> wf_status r = WR_FAILED)"
  unfolding callback_rejected_def
  by (rule keeps_then [OF kp_unit_transition [OF assms]]) (rule keeps_weaken [OF kp_make_terminal [OF assms]], simp)

lemma kp_callback_changes_requested:
  assumes "own E k rec"
  shows "keeps (confined E k w0) (callback_changes_requested E rec change) (\<lambda>r. own E k r \<and> wf_status r = WR_ANALYZING)"
  unfolding callback_changes_requested_def
  by (rule keeps_bnd [OF kp_advance [OF assms]], rule keeps_then [OF kp_unit_transition [OF assms]])
    (rule keeps_weaken [OF kp_set_runtime_status [OF assms]], simp)

lemma callback_approved_yields:
  assumes "own E k rec" "resumable rec"
  shows "yields (confined E k w0) (callback_approved E rec change) (execution_outcome E k rec)"
  unfolding callback_approved_def
  by (intro yields_bnd [OF kp_advance [OF assms(1)]] yields_bnd [OF keeps_guard] execute_plan_yields [OF assms])

text \<open>The record a callback is about.\<close>

definition callback_record :: "approval_callback \<Rightarrow> 'x coordinator \<Rightarrow> workflow_execution option" where
  "callback_record cb w = (case stored_change w (cb_tenant_id cb, cb_change_id cb) of None \<Rightarrow> None
     | Some change \<Rightarrow> (case cr_workflow_execution_id change of None \<Rightarrow> None
       | Some i \<Rightarrow> stored_workflow w (cb_tenant_id cb, cb_change_id cb, i)))"

definition finished :: "workflow_execution \<Rightarrow> bool" where
  "finished rec \<longleftrightarrow> wf_status rec \<in> {WR_COMPLETED, WR_FAILED, WR_NEEDS_ATTENTION}"

definition handle_callback :: "'x engine \<Rightarrow> approval_callback \<Rightarrow> workflow_execution \<Rightarrow> change_record \<Rightarrow> ('x, workflow_execution) co_op" where
  "handle_callback E cb rec change = (case cb_status cb of CB_REJECTED \<Rightarrow> callback_rejected E rec change
     | CB_CHANGES_REQUESTED \<Rightarrow> callback_changes_requested E rec change | CB_APPROVED \<Rightarrow> callback_approved E rec change)"

lemma on_change_get: "stored_change w (t, c) = Some r \<Longrightarrow> on_change_store (mem_get t c) w = (Inr r, w)"
  by (simp add: on_change_store_def zoom_def mem_get_def get_unlocked_eq stored_change_def mem_changes_of_def)

lemma on_change_get_None:
  assumes "stored_change w (t, c) = None"
  obtains e where "on_change_store (mem_get t c) w = (Inl (ChangeStoreError e), w)"
  using assms by (simp add: on_change_store_def zoom_def mem_get_def get_unlocked_eq stored_change_def mem_changes_of_def split: if_splits)

lemma on_workflow_get:
  "on_workflow_store (get_workflow t c i) w = (case stored_workflow w (t, c, i) of
     None \<Rightarrow> (Inl WorkflowNotFoundError, w) | Some r \<Rightarrow> (Inr r, w))"
  by (simp add: on_workflow_store_def zoom_def get_workflow_def stored_workflow_def split: option.split)

lemma callback_recordE:
  assumes "callback_record cb w = Some rec"
  obtains change i where "stored_change w (cb_tenant_id cb, cb_change_id cb) = Some change" "cr_workflow_execution_id change = Some i"
    "stored_workflow w (cb_tenant_id cb, cb_change_id cb, i) = Some rec"
  using assms by (auto simp: callback_record_def split: option.splits)

lemma resume_None:
  assumes "callback_record cb w = None"
  obtains e where "resume_approval E cb w = (Inl e, w)"
proof (cases "stored_change w (cb_tenant_id cb, cb_change_id cb)")
  case None
  then obtain e where "on_change_store (mem_get (cb_tenant_id cb) (cb_change_id cb)) w = (Inl (ChangeStoreError e), w)"
    by (rule on_change_get_None)
  then show ?thesis using that by (simp add: resume_approval_def bnd_def)
next
  case (Some change)
  with assms that show ?thesis
    by (simp add: resume_approval_def bnd_def on_change_get on_workflow_get callback_record_def split: option.splits)
qed

lemma resume_Some:
  assumes "callback_record cb w = Some rec"
  obtains change where "stored_change w (cb_tenant_id cb, cb_change_id cb) = Some change"
    "resume_approval E cb w = (if finished rec then (Inr rec, w)
      else bnd (require_plan rec) (\<lambda>plan. bnd (guard (callback_in_scope cb rec plan) (WorkflowPermanentError ''APPROVAL_CALLBACK_SCOPE_MISMATCH''))
        (\<lambda>_. handle_callback E cb rec change)) w)"
proof -
  from callback_recordE [OF assms] obtain change i where c: "stored_change w (cb_tenant_id cb, cb_change_id cb) = Some change"
    "cr_workflow_execution_id change = Some i" "stored_workflow w (cb_tenant_id cb, cb_change_id cb, i) = Some rec" .
  show ?thesis
  proof (rule that [OF c(1)])
    show "resume_approval E cb w = (if finished rec then (Inr rec, w)
      else bnd (require_plan rec) (\<lambda>plan. bnd (guard (callback_in_scope cb rec plan) (WorkflowPermanentError ''APPROVAL_CALLBACK_SCOPE_MISMATCH''))
        (\<lambda>_. handle_callback E cb rec change)) w)"
      by (simp add: resume_approval_def handle_callback_def finished_def bnd_def [of "on_change_store _"] bnd_def [of "on_workflow_store _"]
          on_change_get [OF c(1)] on_workflow_get c(2,3))
  qed
qed

lemma callback_record_own:
  assumes "co_ok E w" "callback_record cb w = Some rec"
  shows "own E (workflow_key rec) rec \<and> change_of (workflow_key rec) = (cb_tenant_id cb, cb_change_id cb) \<and>
    stored_workflow w (workflow_key rec) = Some rec"
proof -
  from callback_recordE [OF assms(2)] obtain change i where "stored_workflow w (cb_tenant_id cb, cb_change_id cb, i) = Some rec" .
  moreover from this assms(1) have "workflow_key rec = (cb_tenant_id cb, cb_change_id cb, i)" "workflow_ok (eng_iso_text E) rec"
    unfolding co_ok_def by blast+
  ultimately show ?thesis by (simp add: own_def change_of_def)
qed

lemma handle_callback_yields:
  assumes "own E k rec" "resumable rec"
  shows "yields (confined E k w0) (handle_callback E cb rec change)
    (\<lambda>r w. own E k r \<and> (case cb_status cb of CB_REJECTED \<Rightarrow> wf_status r = WR_FAILED | CB_CHANGES_REQUESTED \<Rightarrow> wf_status r = WR_ANALYZING
       | CB_APPROVED \<Rightarrow> execution_outcome E k rec r w))"
proof (cases "cb_status cb")
  case CB_APPROVED
  then show ?thesis unfolding handle_callback_def CB_APPROVED callback_status.case
    by (intro yields_weaken [OF callback_approved_yields [OF assms]]) (simp add: execution_outcome_def)
next
  case CB_REJECTED
  show ?thesis unfolding handle_callback_def CB_REJECTED callback_status.case
    by (rule keeps_yields [OF kp_callback_rejected [OF assms(1)]])
next
  case CB_CHANGES_REQUESTED
  show ?thesis unfolding handle_callback_def CB_CHANGES_REQUESTED callback_status.case
    by (rule keeps_yields [OF kp_callback_changes_requested [OF assms(1)]])
qed

text \<open>Everything a callback can do, from the state it finds.\<close>

lemma resume_yields:
  assumes ok: "co_ok E w" and rec: "callback_record cb w = Some rec" "\<not> finished rec" and res: "resumable rec"
    and run: "resume_approval E cb w = (out, w')"
  shows "confined E (workflow_key rec) w w' \<and> (\<forall>r. out = Inr r \<longrightarrow> (\<exists>plan. wf_plan rec = Some plan \<and> callback_in_scope cb rec plan) \<and>
    (case cb_status cb of CB_REJECTED \<Rightarrow> wf_status r = WR_FAILED | CB_CHANGES_REQUESTED \<Rightarrow> wf_status r = WR_ANALYZING
       | CB_APPROVED \<Rightarrow> execution_outcome E (workflow_key rec) rec r w'))"
proof -
  let ?k = "workflow_key rec"
  have o: "own E ?k rec" using callback_record_own [OF ok rec(1)] by simp
  from resume_Some [OF rec(1), of E] obtain change where eq: "resume_approval E cb w = bnd (require_plan rec) (\<lambda>plan.
      bnd (guard (callback_in_scope cb rec plan) (WorkflowPermanentError ''APPROVAL_CALLBACK_SCOPE_MISMATCH'')) (\<lambda>_. handle_callback E cb rec change)) w"
    using rec(2) by metis
  let ?R = "\<lambda>r w. case cb_status cb of CB_REJECTED \<Rightarrow> wf_status r = WR_FAILED | CB_CHANGES_REQUESTED \<Rightarrow> wf_status r = WR_ANALYZING
       | CB_APPROVED \<Rightarrow> execution_outcome E ?k rec r w"
  have "yields (confined E ?k w) (bnd (require_plan rec) (\<lambda>plan.
      bnd (guard (callback_in_scope cb rec plan) (WorkflowPermanentError ''APPROVAL_CALLBACK_SCOPE_MISMATCH'')) (\<lambda>_. handle_callback E cb rec change)))
     (\<lambda>r w. (\<exists>plan. wf_plan rec = Some plan \<and> callback_in_scope cb rec plan) \<and> ?R r w)"
  proof (rule yields_bnd [OF kp_require_plan], rule yields_bnd [OF keeps_guard])
    fix plan assume "wf_plan rec = Some plan" "callback_in_scope cb rec plan"
    then show "yields (confined E ?k w) (handle_callback E cb rec change)
      (\<lambda>r w. (\<exists>plan. wf_plan rec = Some plan \<and> callback_in_scope cb rec plan) \<and> ?R r w)"
      by (intro yields_weaken [OF handle_callback_yields [OF o res]]) auto
  qed
  with confined_start [OF ok] run [unfolded eq] show ?thesis unfolding yields_def by blast
qed

end
