(* ===== verification/Workflow_Guarantees.thy ===== *)
theory Workflow_Guarantees
  imports Workflow_Outcomes
begin

text \<open>
  The guarantees of the workflow engine as theorems about its two entry points, \<^verbatim>\<open>process_event\<close> and
  \<^verbatim>\<open>resume_approval\<close>, and the witnesses that exercise them on a small concrete coordinator.
\<close>

section \<open>A concrete coordinator\<close>

definition demo_clients :: "unit clients" where
  "demo_clients = \<lparr>cl_analyze = (\<lambda>c ev rid x. (Inl (Dependency ''PROMPT_INJECTION_BLOCKED'' False), x)),
     cl_create_approval = (\<lambda>a p t rid x. (Inr (), x)),
     cl_execute = (\<lambda>i p s a t rid x. (Inr \<lparr>tx_execution_id = ''exec'', tx_output_hash = sha256_digest JNull, tx_replayed = False\<rparr>, x)),
     cl_snapshot = (\<lambda>sys t rid x. (Inr \<lparr>sx_snapshot_id = ''snap'', sx_configuration_hash = sha256_digest JNull\<rparr>, x)),
     cl_restore = (\<lambda>sys t i rid x. (Inr (), x)),
     cl_configuration_hash = (\<lambda>sys t rid x. (Inr (sha256_digest JNull), x)),
     cl_verify = (\<lambda>sys t f rid x. (Inr \<lparr>vx_passed = True, vx_digest = sha256_digest JNull\<rparr>, x))\<rparr>"

definition demo_engine :: "unit engine" where
  "demo_engine = \<lparr>eng_iso_text = demo_iso, eng_clients = demo_clients, eng_retry = \<lparr>rp_maximum_attempts = 3\<rparr>,
     eng_clock = (\<lambda>n. 100 + int n), eng_hex = (\<lambda>n. int_str (int n))\<rparr>"

definition demo_event :: change_event where
  "demo_event = \<lparr>ev_event_id = ''e1'', ev_tenant_id = ''t1'', ev_event_type = ''api.contract.changed'',
     ev_source = \<lparr>src_type = ''crm'', src_external_id = ''x1'', src_url = ''u''\<rparr>, ev_occurred_at = 0, ev_received_at = 1,
     ev_subject = \<lparr>sub_system_id = ''crm'', sub_resource_type = ''api'', sub_resource_id = ''leads''\<rparr>,
     ev_change = \<lparr>chg_summary = ''rename'', chg_old_version = ''1'', chg_new_version = ''2'', chg_artifact_refs = []\<rparr>,
     ev_correlation_id = ''co1'', ev_trace_id = ''tr1''\<rparr>"

definition demo_task :: "string \<Rightarrow> workflow_task" where
  "demo_task i = \<lparr>wt_step_id = i, wt_system_id = Sys_crm, wt_status = WT_PENDING, wt_attempt_count = 0, wt_snapshot_id = None,
     wt_snapshot_hash = None, wt_execution_id = None, wt_output_hash = None, wt_error_code = None, wt_updated_at = 0\<rparr>"

definition demo_workflow :: workflow_execution where
  "demo_workflow = \<lparr>wf_workflow_execution_id = ''w1'', wf_tenant_id = ''t1'', wf_change_id = ''c1'', wf_event_id = ''e1'',
     wf_trace_id = ''tr1'', wf_event = demo_event, wf_status = WR_WAITING_APPROVAL, wf_delivery_attempts = 1,
     wf_plan = Some demo_plan, wf_plan_hash = Some (calculate_plan_hash demo_iso demo_plan), wf_approval_id = Some ''a1'',
     wf_approval_expires_at = Some 1000, wf_tasks = [demo_task ''s1'', demo_task ''s2''], wf_last_error_code = None,
     wf_started_at = 0, wf_updated_at = 1, wf_completed_at = None, wf_version = 4\<rparr>"

definition demo_awaiting :: change_record where
  "demo_awaiting = demo_change\<lparr>cr_status := WS_AWAITING_APPROVAL, cr_current_phase := WS_AWAITING_APPROVAL,
     cr_workflow_execution_id := Some ''w1''\<rparr>"

definition demo_world :: "unit coordinator" where
  "demo_world = \<lparr>co_changes = snd (mem_add demo_awaiting mem_empty),
     co_workflows = \<lparr>w_workflows = [((''t1'', ''c1'', ''w1''), demo_workflow)], w_dead_letters = []\<rparr>,
     co_remote = (), co_clock_reads = 0, co_draws = 0\<rparr>"

definition demo_callback :: approval_callback where
  "demo_callback = \<lparr>cb_tenant_id = ''t1'', cb_change_id = ''c1'', cb_approval_id = ''a1'',
     cb_plan_hash = calculate_plan_hash demo_iso demo_plan, cb_plan_version = 1, cb_status = CB_APPROVED, cb_decided_at = 50\<rparr>"

lemma plan_hash_digest [simp]: "is_sha256_digest (calculate_plan_hash iso_text p)" "strip (calculate_plan_hash iso_text p) = calculate_plan_hash iso_text p"
  by (simp_all add: calculate_plan_hash_def strip_digest)

lemma demo_awaiting_ok: "change_record_ok demo_awaiting"
  by (simp add: demo_awaiting_def demo_change_def change_record_ok_def ChangeRecord_validate_def Let_def) code_simp

lemma demo_stripped:
  "strip ''w1'' = ''w1''" "strip ''t1'' = ''t1''" "strip ''c1'' = ''c1''" "strip ''e1'' = ''e1''" "strip ''tr1'' = ''tr1''"
  "strip ''a1'' = ''a1''" "strip ''s1'' = ''s1''" "strip ''s2'' = ''s2''"
  by code_simp+

lemma demo_workflow_ok: "workflow_ok demo_iso demo_workflow"
  unfolding workflow_ok_def
  by (simp add: demo_workflow_def strip_workflow_def demo_task_def strip_task_def demo_stripped workflow_fields_ok_def nonempty_str_def
      task_fields_ok_def validate_artifacts_def validate_workflow_lifecycle_def terminal_runtime_def demo_event_def demo_plan_def demo_step_def)

lemma demo_world_changes: "stored_change demo_world k = (if k = (''t1'', ''c1'') then Some demo_awaiting else None)"
  by (simp add: stored_change_def demo_world_def mem_abs mem_add_eq mem_empty_def change_key_def demo_awaiting_def demo_change_def)

lemma demo_world_workflows: "stored_workflow demo_world k = (if k = (''t1'', ''c1'', ''w1'') then Some demo_workflow else None)"
  by (simp add: stored_workflow_def demo_world_def dget_Cons)

lemma demo_world_ok: "co_ok demo_engine demo_world"
proof -
  have "mem_inv (co_changes demo_world)"
    unfolding demo_world_def by (simp, rule preserves_snd [OF mem_add_preserves mem_inv_empty])
  moreover have "all_valid (mem_changes_of (co_changes demo_world))"
    using demo_world_changes demo_awaiting_ok by (auto simp: all_valid_def stored_change_def)
  ultimately show ?thesis
    using demo_workflow_ok by (auto simp: co_ok_def demo_world_workflows demo_engine_def workflow_key_def demo_workflow_def)
qed

lemma demo_record: "callback_record demo_callback demo_world = Some demo_workflow"
  by (simp add: callback_record_def demo_callback_def demo_world_changes demo_world_workflows demo_awaiting_def)

lemma demo_plan_graph: "validate_step_graph demo_plan"
  by code_simp

lemma demo_resumable: "resumable demo_workflow" and demo_not_finished: "\<not> finished demo_workflow"
  by (simp_all add: resumable_def finished_def demo_workflow_def demo_task_def deps_closed_def)

lemma demo_own: "own demo_engine (''t1'', ''c1'', ''w1'') demo_workflow"
  using demo_workflow_ok by (simp add: own_def demo_engine_def workflow_key_def demo_workflow_def)

section \<open>Receiving events\<close>

text \<open>
  A redelivered event is harmless: when its workflow is already waiting for approval, running, or at an end, processing the
  event again returns the stored record; the change store, the workflow store and every remote service stay as they are.
\<close>

theorem settled_redelivery_ignored:
  assumes "stored_workflow w (ev_tenant_id event, derive_change_id event, derive_workflow_id event) = Some rec" "settled (wf_status rec)"
  shows "process_event E event w = (Inr rec, w\<lparr>co_clock_reads := Suc (co_clock_reads w)\<rparr>)"
  using assms
  by (simp add: process_event_def load_workflow_def bnd_def catch_def now_def on_workflow_get stored_workflow_def)

text \<open>
  Processing an event touches only its own change: whatever happens, every other change and every workflow of
  another change stay as they were, stored records stay valid, and the change itself has moved along edges of the state graph only.
\<close>

theorem process_event_confined:
  assumes "co_ok E w" "strip (ev_tenant_id event) = ev_tenant_id event"
  shows "confined E (workflow_event_key event) w (snd (process_event E event w))"
  using keeps_state [OF kp_process_event [OF assms(2)] confined_start [OF assms(1)]] by (metis prod.collapse)

section \<open>Decisions\<close>

text \<open>
  C16. A callback that changes anything has presented the configured secret and names the approval, plan hash and plan version that
  the workflow of its change is waiting for; every other callback leaves all state as it was.
\<close>

theorem callback_needs_secret_and_scope:
  "snd (approval_callback_route E secret cb given w) = w \<or>
   given = Some secret \<and> (\<exists>rec plan. callback_record cb w = Some rec \<and> \<not> finished rec \<and> wf_plan rec = Some plan \<and>
     wf_approval_id rec = Some (cb_approval_id cb) \<and> wf_plan_hash rec = Some (cb_plan_hash cb) \<and> pl_version plan = cb_plan_version cb)"
proof (rule disjCI [THEN disj_commute [THEN iffD1]])
  assume "\<not> snd (approval_callback_route E secret cb given w) = w"
  then have g: "given = Some secret" and ne: "snd (resume_approval E cb w) \<noteq> w"
    by (auto simp: approval_callback_route_def compare_digest_def split: option.splits if_splits bool.splits)
  have "callback_record cb w \<noteq> None"
  proof
    assume "callback_record cb w = None"
    then obtain e where "resume_approval E cb w = (Inl e, w)" by (rule resume_None)
    with ne show False by simp
  qed
  then obtain rec where rec: "callback_record cb w = Some rec" by blast
  from resume_Some [OF rec, of E] obtain change where eq: "resume_approval E cb w = (if finished rec then (Inr rec, w)
      else bnd (require_plan rec) (\<lambda>plan. bnd (guard (callback_in_scope cb rec plan) (WorkflowPermanentError ''APPROVAL_CALLBACK_SCOPE_MISMATCH''))
        (\<lambda>_. handle_callback E cb rec change)) w)" .
  have nf: "\<not> finished rec" using ne eq by auto
  have "\<exists>plan. wf_plan rec = Some plan \<and> callback_in_scope cb rec plan"
    using ne eq nf by (auto simp: require_plan_def bnd_def split: option.splits if_splits)
  with g rec nf show "given = Some secret \<and> (\<exists>rec plan. callback_record cb w = Some rec \<and> \<not> finished rec \<and> wf_plan rec = Some plan \<and>
     wf_approval_id rec = Some (cb_approval_id cb) \<and> wf_plan_hash rec = Some (cb_plan_hash cb) \<and> pl_version plan = cb_plan_version cb)"
    by (auto simp: callback_in_scope_def)
qed

text \<open>
  A decision touches only its own change, on success and on every error: other changes and their workflows are unchanged,
  stored records stay valid and the change has moved along the state graph.
\<close>

theorem resume_confined:
  assumes "co_ok E w" "callback_record cb w = Some rec" "resumable rec"
  shows "confined E (workflow_key rec) w (snd (resume_approval E cb w))"
proof (cases "finished rec")
  case True
  with resume_Some [OF assms(2), of E] confined_start [OF assms(1)] show ?thesis by (metis snd_conv)
next
  case False
  from resume_yields [OF assms(1,2) False assms(3)] show ?thesis by (metis prod.collapse)
qed



section \<open>The scheduler\<close>

text \<open>
  C11. Running a plan respects its dependencies: in the record it leaves, every task whose step was attempted has the tasks of all
  its dependencies succeeded; each task is as before or went from pending to an outcome keeping its snapshot; and the run
  stops early only because a task failed.
\<close>

theorem dag_respects_dependencies:
  assumes "own E k rec" "co_ok E w" "distinct (map wt_step_id (wf_tasks rec))" "wf_plan rec = Some plan"
    "deps_closed (dict_of st_step_id (pl_steps plan)) (wf_tasks rec)"
  shows "case execute_dag E rec w of (Inl e, w') \<Rightarrow> True
    | (Inr r, w') \<Rightarrow> deps_closed (dict_of st_step_id (pl_steps plan)) (wf_tasks r) \<and> list_all2 moved (wf_tasks rec) (wf_tasks r) \<and>
        (list_ex (\<lambda>t. wt_status t = WT_FAILED) (wf_tasks r) \<or> pending_count (wf_tasks r) = 0)"
proof -
  have kp: "keeps (confined E k w) (execute_dag E rec)
    (\<lambda>r. \<exists>plan. wf_plan rec = Some plan \<and> dag_result E k (dict_of st_step_id (pl_steps plan)) rec r)"
    by (rule kp_execute_dag [OF assms(1,3)]) (use assms(4,5) in simp)
  from keeps_outcome [OF kp confined_start [OF assms(2)]] assms(4) show ?thesis
    by (auto simp: dag_result_def list_ex_iff pending_count_def filter_empty_conv split: prod.splits sum.splits)
qed

text \<open>
  C10. The scheduling loop always ends and never blocks: for a record with a valid plan whose tasks are pending or done, it
  neither exhausts its rounds nor finds itself without a ready task.
\<close>

theorem scheduler_never_stuck:
  assumes "own E k rec" "co_ok E w" "wf_plan rec = Some plan" "validate_step_graph plan"
    "distinct (map wt_step_id (wf_tasks rec))" "runnable (wf_tasks rec)"
  shows "case execute_dag E rec w of (Inl e, w') \<Rightarrow> e \<noteq> OutOfFuel \<and> e \<noteq> WorkflowPermanentError ''DAG_PROGRESS_BLOCKED'' | (Inr r, w') \<Rightarrow> True"
proof (cases "execute_dag E rec w")
  case (Pair out w')
  have "validate_workflow_lifecycle (eng_iso_text E) rec" using assms(1) by (simp add: own_def workflow_ok_def)
  then have ready: "dag_ready plan rec" using assms(3-6) by (simp add: dag_ready_def validate_workflow_lifecycle_def)
  have fuel: "pending_count (wf_tasks rec) < Suc (length (wf_tasks rec))"
    unfolding pending_count_def using length_filter_le less_Suc_eq_le by blast
  have "e \<notin> stuck_errors" if "out = Inl e" for e
  proof (rule dag_loop_not_stuck [OF assms(1) ready confined_start [OF assms(2)] fuel])
    show "dag_loop (Suc (length (wf_tasks rec))) E (dict_of st_step_id (pl_steps plan)) (task_dict (wf_tasks rec)) rec w = (Inl e, w')"
      using Pair that by (simp only: execute_dag_def require_plan_def assms(3) option.case bnd_ret dict_of_tasks [OF assms(5)])
  qed
  then show ?thesis by (cases out) (auto simp: Pair stuck_errors_def)
qed

text \<open>
  Attempts are bounded and counted: executing a pending task gives a task that succeeded or failed for the same step and system
  with its snapshot kept, and its attempt counter grew to at most the configured maximum (or by one, if it was already there).
\<close>

theorem attempts_bounded:
  assumes "co_ok E w" "strip_task task = task"
  shows "case execute_task E rec (task, step) w of (Inl e, w') \<Rightarrow> True
    | (Inr t, w') \<Rightarrow> same_task task t \<and> keeps_snapshot_of task t \<and> wt_status t \<in> {WT_SUCCEEDED, WT_FAILED} \<and>
        wt_attempt_count task < wt_attempt_count t \<and>
        wt_attempt_count t \<le> max (wt_attempt_count task + 1) (rp_maximum_attempts (eng_retry E))"
proof -
  have "keeps (confined E k w) (execute_task E rec (task, step)) (attempted E task (wt_attempt_count task))" for k
    by (rule kp_execute_task [OF assms(2)])
  from keeps_outcome [OF this confined_start [OF assms(1)]] show ?thesis
    by (auto simp: attempted_def split: prod.splits sum.splits)
qed

section \<open>Accepting a plan\<close>

definition fresh_task :: "remediation_step \<Rightarrow> workflow_task \<Rightarrow> bool" where
  "fresh_task step t \<longleftrightarrow> wt_step_id t = strip (st_step_id step) \<and> system_for_step step = Inr (wt_system_id t) \<and>
     wt_status t = WT_PENDING \<and> wt_attempt_count t = 0 \<and> wt_snapshot_id t = None \<and> strip_task t = t"

lemma kp_new_task_fresh: "keeps I (new_task t step) (fresh_task step)"
  unfolding new_task_def
proof (rule keeps_bnd [OF keeps_lift_sum], rule keeps_weaken [OF keeps_validated])
  fix sys task assume sys: "system_for_step step = Inr sys"
    and v: "WorkflowTaskRecord_validate \<lparr>wt_step_id = st_step_id step, wt_system_id = sys, wt_status = WT_PENDING, wt_attempt_count = 0,
        wt_snapshot_id = None, wt_snapshot_hash = None, wt_execution_id = None, wt_output_hash = None, wt_error_code = None,
        wt_updated_at = t\<rparr> = Some task"
  from validated_task [OF v] sys show "fresh_task step task"
    by (auto simp: fresh_task_def strip_task_sel)
qed

definition plan_accepted :: "'x engine \<Rightarrow> analysis_result \<Rightarrow> workflow_execution \<Rightarrow> bool" where
  "plan_accepted E a r \<longleftrightarrow> wf_plan r = Some (an_draft_plan a) \<and> wf_plan_hash r = Some (an_draft_plan_hash a) \<and>
     an_draft_plan_hash a = calculate_plan_hash (eng_iso_text E) (an_draft_plan a) \<and>
     pl_tenant_id (an_draft_plan a) = wf_tenant_id r \<and> pl_change_id (an_draft_plan a) = wf_change_id r \<and>
     list_all2 (\<lambda>step t. wt_step_id t = st_step_id step \<and> system_for_step step = Inr (wt_system_id t)) (pl_steps (an_draft_plan a)) (wf_tasks r) \<and>
     resumable r"

lemma plan_ok_step_ids:
  assumes "plan_ok p" "s \<in> set (pl_steps p)"
  shows "strip (st_step_id s) = st_step_id s"
proof -
  have "pl_steps (strip_plan p) = map strip_step (pl_steps p)" by (simp add: strip_plan_def)
  then have "map strip_step (pl_steps p) = map (\<lambda>s. s) (pl_steps p)" using plan_okD(1) [OF assms(1)] by simp
  with assms(2) have "strip_step s = s" unfolding map_eq_conv by blast
  moreover have "st_step_id (strip_step s) = strip (st_step_id s)" by (simp add: strip_step_def)
  ultimately show ?thesis by simp
qed

lemma fresh_tasks_resumable:
  assumes "plan_ok plan" "list_all2 fresh_task (pl_steps plan) ts"
  shows "map wt_step_id ts = map st_step_id (pl_steps plan)" "distinct (map wt_step_id ts)"
    "\<forall>t \<in> set ts. wt_status t = WT_PENDING" "map strip_task ts = ts"
    "list_all2 (\<lambda>step t. wt_step_id t = st_step_id step \<and> system_for_step step = Inr (wt_system_id t)) (pl_steps plan) ts"
proof -
  show l: "list_all2 (\<lambda>step t. wt_step_id t = st_step_id step \<and> system_for_step step = Inr (wt_system_id t)) (pl_steps plan) ts"
    using assms plan_ok_step_ids by (auto simp: fresh_task_def list_all2_conv_all_nth)
  then show ids: "map wt_step_id ts = map st_step_id (pl_steps plan)"
    by (auto simp: list_all2_conv_all_nth intro: nth_equalityI)
  show "distinct (map wt_step_id ts)" unfolding ids by (rule step_graph_distinct(1) [OF plan_okD(3) [OF assms(1)]])
  show "\<forall>t \<in> set ts. wt_status t = WT_PENDING" "map strip_task ts = ts"
    using list_all2_origin [OF assms(2)] by (auto simp: fresh_task_def intro!: map_idI)
qed

text \<open>
  A fleet plan is accepted only for the workflow's own tenant and change and only when the announced hash is the hash of the plan;
  the record then holds exactly that plan and hash, and one pending task per step of the plan, in step order, on the system
  the step's tool belongs to. Any other plan sends the workflow to the dead letters.
\<close>

theorem accepted_plan_exact:
  assumes o: "own E k rec" and "co_ok E w" and p: "plan_ok (an_draft_plan a)"
  shows "case accept_plan E rec a w of (Inl e, w') \<Rightarrow> True
    | (Inr (Continue r), w') \<Rightarrow> plan_accepted E a r
    | (Inr (Return r), w') \<Rightarrow> wf_status r = WR_DEAD_LETTERED"
proof -
  let ?Q = "\<lambda>ex. case ex of Continue r \<Rightarrow> plan_accepted E a r | Return r \<Rightarrow> wf_status r = WR_DEAD_LETTERED"
  have "keeps (confined E k w) (accept_plan E rec a) ?Q"
    unfolding accept_plan_def Let_def
  proof (rule keeps_if, goal_cases)
    case 1
    show ?case by (rule keeps_bnd [OF kp_do_dead_letter [OF o]]) (simp add: keeps_ret)
  next
    case 2
    show ?case
    proof (rule keeps_then [OF kp_now], rule keeps_bnd [OF keeps_map_op [OF kp_new_task_fresh]], rule keeps_then [OF kp_now],
        rule keeps_bnd [OF kp_update_record [OF o]], simp, rule keeps_ret, goal_cases)
      case (1 t0 ts t r)
      note f = fresh_tasks_resumable [OF p 1(1)] and u = updated_from_sel [OF 1(2)]
      have key: "wf_tenant_id r = wf_tenant_id rec" "wf_change_id r = wf_change_id rec"
        using o updated_from_own [OF 1(2)] by (auto simp: own_def workflow_key_def)
      have r: "wf_tasks r = ts" "wf_plan r = Some (an_draft_plan a)"
        "wf_plan_hash r = Some (calculate_plan_hash (eng_iso_text E) (an_draft_plan a))" using u f(4) by simp_all
      have "resumable r" using f(2,3) r by (auto simp: resumable_def deps_closed_def)
      with 2 r key f(5) show ?case by (simp add: plan_accepted_def)
    qed
  qed
  from keeps_outcome [OF this confined_start [OF assms(2)]] show ?thesis
    by (auto split: prod.splits sum.splits step_exit.splits)
qed

section \<open>Witnesses\<close>

lemma demo_settled: "settled (wf_status demo_workflow)"
  by (simp add: settled_def demo_workflow_def)

lemma demo_tenant: "ev_tenant_id demo_event = ''t1''"
  by (simp add: demo_event_def)

definition demo_settled_world :: "unit coordinator" where
  "demo_settled_world = demo_world\<lparr>co_workflows := \<lparr>w_workflows =
     [((''t1'', derive_change_id demo_event, derive_workflow_id demo_event), demo_workflow)], w_dead_letters = []\<rparr>\<rparr>"

theorem settled_redelivery_ignored_witness:
  "fst (process_event demo_engine demo_event demo_settled_world) = Inr demo_workflow"
proof -
  have "stored_workflow demo_settled_world (ev_tenant_id demo_event, derive_change_id demo_event, derive_workflow_id demo_event) = Some demo_workflow"
    by (simp add: stored_workflow_def demo_settled_world_def dget_Cons demo_tenant)
  from settled_redelivery_ignored [OF this demo_settled, of demo_engine] show ?thesis by simp
qed

theorem process_event_confined_witness:
  "confined demo_engine (workflow_event_key demo_event) demo_world (snd (process_event demo_engine demo_event demo_world))"
  by (rule process_event_confined [OF demo_world_ok]) (simp add: demo_event_def demo_stripped)

theorem resume_confined_witness:
  "confined demo_engine (''t1'', ''c1'', ''w1'') demo_world (snd (resume_approval demo_engine demo_callback demo_world))"
  using resume_confined [OF demo_world_ok demo_record demo_resumable] by (simp add: workflow_key_def demo_workflow_def)



theorem dag_respects_dependencies_witness:
  "case execute_dag demo_engine demo_workflow demo_world of (Inl e, w') \<Rightarrow> True
    | (Inr r, w') \<Rightarrow> deps_closed (dict_of st_step_id (pl_steps demo_plan)) (wf_tasks r)"
proof -
  have "deps_closed (dict_of st_step_id (pl_steps demo_plan)) (wf_tasks demo_workflow)" "wf_plan demo_workflow = Some demo_plan"
    "distinct (map wt_step_id (wf_tasks demo_workflow))"
    by (simp_all add: deps_closed_def demo_workflow_def demo_task_def)
  from dag_respects_dependencies [OF demo_own demo_world_ok this(3,2,1)] show ?thesis by (auto split: prod.splits sum.splits)
qed

theorem scheduler_never_stuck_witness:
  "case execute_dag demo_engine demo_workflow demo_world of (Inl e, w') \<Rightarrow> e \<noteq> OutOfFuel | (Inr r, w') \<Rightarrow> True"
proof -
  have "runnable (wf_tasks demo_workflow)" "wf_plan demo_workflow = Some demo_plan" "distinct (map wt_step_id (wf_tasks demo_workflow))"
    by (simp_all add: runnable_def demo_workflow_def demo_task_def)
  from scheduler_never_stuck [OF demo_own demo_world_ok this(2) demo_plan_graph this(3,1)] show ?thesis by (auto split: prod.splits sum.splits)
qed

theorem attempts_bounded_witness:
  "case execute_task demo_engine demo_workflow (demo_task ''s1'', demo_step ''s1'' 1 []) demo_world of (Inl e, w') \<Rightarrow> True
    | (Inr t, w') \<Rightarrow> 0 < wt_attempt_count t \<and> wt_attempt_count t \<le> 3"
proof -
  have "strip_task (demo_task ''s1'') = demo_task ''s1''" by (simp add: strip_task_def demo_task_def demo_stripped)
  from attempts_bounded [OF demo_world_ok this, of demo_workflow "demo_step ''s1'' 1 []"] show ?thesis
    by (auto simp: demo_task_def demo_engine_def split: prod.splits sum.splits)
qed

definition demo_analysis :: analysis_result where
  "demo_analysis = \<lparr>an_draft_plan = demo_plan, an_draft_plan_hash = calculate_plan_hash demo_iso demo_plan\<rparr>"

theorem accepted_plan_exact_witness:
  "case accept_plan demo_engine demo_workflow demo_analysis demo_world of (Inl e, w') \<Rightarrow> True
    | (Inr (Continue r), w') \<Rightarrow> length (wf_tasks r) = 2 | (Inr (Return r), w') \<Rightarrow> wf_status r = WR_DEAD_LETTERED"
proof -
  have "plan_ok demo_plan" by code_simp
  then have "plan_ok (an_draft_plan demo_analysis)" by (simp add: demo_analysis_def)
  from accepted_plan_exact [OF demo_own demo_world_ok this] show ?thesis
    by (auto simp: plan_accepted_def demo_analysis_def demo_plan_def dest!: list_all2_lengthD split: prod.splits sum.splits step_exit.splits)
qed

end
