(* ===== verification/Event_Gateway.thy ===== *)
theory Event_Gateway
  imports Contracts Hmac
begin

text \<open>
  The event gateway of \<^verbatim>\<open>services/event-gateway\<close>: webhook signatures (\<^verbatim>\<open>auth.py\<close>), the tenant rate limiter (\<^verbatim>\<open>rate_limit.py\<close>), the
  transactional inbox with its in-memory adapter (\<^verbatim>\<open>models.py\<close>, \<^verbatim>\<open>repository.py\<close>) and the ingestion handler of \<^verbatim>\<open>app.py\<close>.

  The request body is a list of bytes. Decoding it into an event (\<^verbatim>\<open>ChangeEvent.model_validate_json\<close>) and publishing to Pub/Sub are
  parameters; a publication that raises is the left value. The handler reads the clock when it starts and when it records the
  outcome of the publication.
\<close>

section \<open>Errors and records\<close>

datatype event_error =
    SignatureError
  | EventConflictError
  | EventRateLimitedError
  | EventDependencyError string
  | EventSchemaError
  | StaleReservation
  | InboxKeyError
  | EventUnhandled

fun event_status_code :: "event_error \<Rightarrow> nat" where
  "event_status_code SignatureError = 401"
| "event_status_code EventConflictError = 409"
| "event_status_code EventRateLimitedError = 429"
| "event_status_code (EventDependencyError _) = 503"
| "event_status_code EventSchemaError = 422"
| "event_status_code _ = 500"

text \<open>The subclasses of \<^verbatim>\<open>EventGatewayError\<close>.\<close>

fun is_gateway_error :: "event_error \<Rightarrow> bool" where
  "is_gateway_error StaleReservation = False"
| "is_gateway_error InboxKeyError = False"
| "is_gateway_error EventUnhandled = False"
| "is_gateway_error _ = True"

datatype inbox_status = IN_PENDING | IN_PUBLISHING | IN_PUBLISHED | IN_PUBLISH_FAILED | IN_PROCESSING | IN_PROCESSED | IN_DEAD_LETTERED

record inbox_record =
  ib_event_key :: string
  ib_tenant_id :: string
  ib_event_id :: string
  ib_source_type :: string
  ib_change_id :: string
  ib_input_hash :: string
  ib_event :: change_event
  ib_status :: inbox_status
  ib_publish_attempts :: int
  ib_processing_attempts :: int
  ib_pubsub_message_id :: "string option"
  ib_last_error_code :: "string option"
  ib_created_at :: instant
  ib_updated_at :: instant
  ib_version :: int

definition strip_inbox :: "inbox_record \<Rightarrow> inbox_record" where
  "strip_inbox r = r\<lparr>ib_event_key := strip (ib_event_key r), ib_tenant_id := strip (ib_tenant_id r), ib_event_id := strip (ib_event_id r),
     ib_source_type := strip (ib_source_type r), ib_change_id := strip (ib_change_id r), ib_input_hash := strip (ib_input_hash r),
     ib_pubsub_message_id := map_option strip (ib_pubsub_message_id r), ib_last_error_code := map_option strip (ib_last_error_code r)\<rparr>"

definition inbox_fields_ok :: "inbox_record \<Rightarrow> bool" where
  "inbox_fields_ok r \<longleftrightarrow> nonempty_str (ib_event_key r) \<and> nonempty_str (ib_tenant_id r) \<and> nonempty_str (ib_event_id r) \<and>
     nonempty_str (ib_source_type r) \<and> nonempty_str (ib_change_id r) \<and> is_sha256_digest (ib_input_hash r) \<and>
     0 \<le> ib_publish_attempts r \<and> 0 \<le> ib_processing_attempts r \<and> opt_ok nonempty_str (ib_pubsub_message_id r) \<and>
     opt_ok nonempty_str (ib_last_error_code r) \<and> 1 \<le> ib_version r"

definition EventInboxRecord_validate :: "inbox_record \<Rightarrow> inbox_record option" where
  "EventInboxRecord_validate r = (let r' = strip_inbox r in if inbox_fields_ok r' then Some r' else None)"

record inbox_acceptance =
  ia_record :: inbox_record
  ia_replayed :: bool

record accepted_response =
  ac_event_id :: string
  ac_change_id :: string
  ac_status :: inbox_status
  ac_status_url :: string
  ac_replayed :: bool

definition EventAcceptedResponse_validate :: "accepted_response \<Rightarrow> accepted_response option" where
  "EventAcceptedResponse_validate a =
    (let a' = a\<lparr>ac_event_id := strip (ac_event_id a), ac_change_id := strip (ac_change_id a), ac_status_url := strip (ac_status_url a)\<rparr> in
     if nonempty_str (ac_event_id a') \<and> nonempty_str (ac_change_id a') \<and> nonempty_str (ac_status_url a') then Some a' else None)"

section \<open>Webhook signatures\<close>

definition WebhookSignatureVerifier :: "string \<Rightarrow> byte list option" where
  "WebhookSignatureVerifier secret = (if length (utf8_encode secret) < 32 then None else Some (utf8_encode secret))"

definition verify_signature :: "byte list \<Rightarrow> byte list \<Rightarrow> string option \<Rightarrow> event_error + unit" where
  "verify_signature secret body signature = (case signature of
     None \<Rightarrow> Inl SignatureError
   | Some sig \<Rightarrow>
       if \<not> prefix ''sha256='' sig then Inl SignatureError
       else let supplied = removeprefix ''sha256='' sig in
         if length supplied \<noteq> 64 then Inl SignatureError
         else (case compare_digest (hmac_hexdigest secret body) supplied of
             None \<Rightarrow> Inl EventUnhandled
           | Some False \<Rightarrow> Inl SignatureError
           | Some True \<Rightarrow> Inr ()))"

section \<open>Rate limiting\<close>

record rate_limiter =
  rl_limit :: int
  rl_events :: "(string, instant list) dict"

definition acquire :: "string \<Rightarrow> instant \<Rightarrow> (rate_limiter, event_error, unit) op" where
  "acquire tenant_id now s =
    (let cutoff = now - minutes 1;
         events = dropWhile (\<lambda>t. t \<le> cutoff) (dget_or (rl_events s) tenant_id []) in
     if rl_limit s \<le> int (length events)
     then raise EventRateLimitedError (s\<lparr>rl_events := dput tenant_id events (rl_events s)\<rparr>)
     else ret () (s\<lparr>rl_events := dput tenant_id (events @ [now]) (rl_events s)\<rparr>))"

section \<open>The inbox\<close>

type_synonym inbox = "(string \<times> string, inbox_record) dict"

type_synonym 'a inbox_op = "(inbox, event_error, 'a) op"

definition event_key :: "change_event \<Rightarrow> string" where
  "event_key event = removeprefix ''sha256:'' (sha256_digest (JObj [(''event_id'', JStr (ev_event_id event)),
     (''source'', JStr (src_type (ev_source event))), (''tenant_id'', JStr (ev_tenant_id event))]))"

definition new_inbox_record :: "(instant \<Rightarrow> string) \<Rightarrow> change_event \<Rightarrow> string \<Rightarrow> instant \<Rightarrow> inbox_record" where
  "new_inbox_record iso_text event change_id now = \<lparr>ib_event_key = event_key event, ib_tenant_id = ev_tenant_id event,
     ib_event_id = ev_event_id event, ib_source_type = src_type (ev_source event), ib_change_id = change_id,
     ib_input_hash = sha256_digest (event_json iso_text event), ib_event = event, ib_status = IN_PENDING,
     ib_publish_attempts = 0, ib_processing_attempts = 0, ib_pubsub_message_id = None, ib_last_error_code = None,
     ib_created_at = now, ib_updated_at = now, ib_version = 1\<rparr>"

definition accept :: "(instant \<Rightarrow> string) \<Rightarrow> change_event \<Rightarrow> string \<Rightarrow> instant \<Rightarrow> inbox_acceptance inbox_op" where
  "accept iso_text event change_id now s =
    (let key = (ev_tenant_id event, event_key event) in
     case dget s key of
       Some existing \<Rightarrow>
         if ib_input_hash existing \<noteq> sha256_digest (event_json iso_text event) then raise EventConflictError s
         else ret \<lparr>ia_record = existing, ia_replayed = True\<rparr> s
     | None \<Rightarrow>
         bnd (validated EventUnhandled (EventInboxRecord_validate (new_inbox_record iso_text event change_id now))) (\<lambda>rec s.
           ret \<lparr>ia_record = rec, ia_replayed = False\<rparr> (dput key rec s)) s)"

definition reserve_publish :: "string \<Rightarrow> string \<Rightarrow> instant \<Rightarrow> inbox_record option inbox_op" where
  "reserve_publish tenant_id key now s = (case dget s (tenant_id, key) of
     None \<Rightarrow> raise InboxKeyError s
   | Some current \<Rightarrow>
       if ib_status current = IN_PUBLISHED then ret None s
       else if ib_status current = IN_PUBLISHING \<and> ib_updated_at current > now - seconds 30 then ret None s
       else bnd (validated EventUnhandled (EventInboxRecord_validate (current\<lparr>ib_status := IN_PUBLISHING,
           ib_publish_attempts := ib_publish_attempts current + 1, ib_last_error_code := None, ib_updated_at := now,
           ib_version := ib_version current + 1\<rparr>))) (\<lambda>updated s.
         ret (Some updated) (dput (tenant_id, key) updated s)) s)"

definition finish_publish ::
  "string \<Rightarrow> string \<Rightarrow> int \<Rightarrow> inbox_status \<Rightarrow> string option \<Rightarrow> string option \<Rightarrow> instant \<Rightarrow> inbox_record inbox_op" where
  "finish_publish tenant_id key expected_version status message_id error_code now s = (case dget s (tenant_id, key) of
     None \<Rightarrow> raise InboxKeyError s
   | Some current \<Rightarrow>
       if ib_version current \<noteq> expected_version \<or> ib_status current \<noteq> IN_PUBLISHING then raise StaleReservation s
       else bnd (validated EventUnhandled (EventInboxRecord_validate (current\<lparr>ib_status := status,
           ib_pubsub_message_id := message_id, ib_last_error_code := error_code, ib_updated_at := now,
           ib_version := ib_version current + 1\<rparr>))) (\<lambda>updated s.
         ret updated (dput (tenant_id, key) updated s)) s)"

definition mark_published :: "string \<Rightarrow> string \<Rightarrow> int \<Rightarrow> string \<Rightarrow> instant \<Rightarrow> inbox_record inbox_op" where
  "mark_published tenant_id key expected_version message_id now =
     finish_publish tenant_id key expected_version IN_PUBLISHED (Some message_id) None now"

definition mark_publish_failed :: "string \<Rightarrow> string \<Rightarrow> int \<Rightarrow> string \<Rightarrow> instant \<Rightarrow> inbox_record inbox_op" where
  "mark_publish_failed tenant_id key expected_version error_code now =
     finish_publish tenant_id key expected_version IN_PUBLISH_FAILED None (Some error_code) now"

section \<open>Ingestion\<close>

record 'x event_gateway =
  eg_limiter :: rate_limiter
  eg_inbox :: inbox
  eg_remote :: 'x

type_synonym ('x, 'a) eg_op = "('x event_gateway, event_error, 'a) op"

text \<open>The configuration of the application and the code outside the repository.\<close>

record 'x gateway_config =
  gc_iso_text :: "instant \<Rightarrow> string"
  gc_secret :: "byte list"
  gc_max_request_bytes :: int
  gc_status_base_url :: string
  gc_parse :: "byte list \<Rightarrow> change_event option"
  gc_publish :: "change_event \<Rightarrow> string \<Rightarrow> 'x \<Rightarrow> (unit + string) \<times> 'x"

record event_request =
  rq_body :: "byte list"
  rq_signature :: "string option"
  rq_received :: instant
  rq_finished :: instant

datatype ingest_result = TooLarge | Accepted accepted_response

definition on_limiter :: "(rate_limiter, event_error, 'a) op \<Rightarrow> ('x, 'a) eg_op" where
  "on_limiter m = zoom eg_limiter (\<lambda>s w. w\<lparr>eg_limiter := s\<rparr>) id m"

definition on_inbox :: "'a inbox_op \<Rightarrow> ('x, 'a) eg_op" where
  "on_inbox m = zoom eg_inbox (\<lambda>s w. w\<lparr>eg_inbox := s\<rparr>) id m"

definition call_publish :: "'x gateway_config \<Rightarrow> change_event \<Rightarrow> string \<Rightarrow> ('x, unit + string) eg_op" where
  "call_publish C event change_id w = (case gc_publish C event change_id (eg_remote w) of (r, x) \<Rightarrow> (Inr r, w\<lparr>eg_remote := x\<rparr>))"

definition respond :: "'x gateway_config \<Rightarrow> change_event \<Rightarrow> inbox_status \<Rightarrow> bool \<Rightarrow> ('x, ingest_result) eg_op" where
  "respond C event status replayed = bnd (validated EventUnhandled (EventAcceptedResponse_validate
     \<lparr>ac_event_id = ev_event_id event, ac_change_id = derive_change_id event, ac_status = status,
      ac_status_url = gc_status_base_url C @ ''/v1/changes/'' @ derive_change_id event, ac_replayed = replayed\<rparr>))
     (\<lambda>a. ret (Accepted a))"

text \<open>Publishing under a reservation and recording the outcome.\<close>

definition publish_reserved :: "'x gateway_config \<Rightarrow> event_request \<Rightarrow> change_event \<Rightarrow> inbox_record \<Rightarrow> ('x, inbox_record) eg_op" where
  "publish_reserved C rq event reservation =
     bnd (call_publish C event (derive_change_id event)) (\<lambda>outcome. case outcome of
       Inl _ \<Rightarrow>
         bnd (on_inbox (mark_publish_failed (ev_tenant_id event) (ib_event_key reservation) (ib_version reservation)
           ''PUBSUB_PUBLISH_FAILED'' (rq_finished rq))) (\<lambda>_. raise (EventDependencyError ''PUBSUB_PUBLISH_FAILED''))
     | Inr message_id \<Rightarrow>
         on_inbox (mark_published (ev_tenant_id event) (ib_event_key reservation) (ib_version reservation) message_id (rq_finished rq)))"

datatype publish_exit = Done ingest_result | Published inbox_record bool

text \<open>The body of the \<^verbatim>\<open>try\<close>: acceptance, reservation, publication.\<close>

definition accept_and_publish :: "'x gateway_config \<Rightarrow> event_request \<Rightarrow> change_event \<Rightarrow> ('x, publish_exit) eg_op" where
  "accept_and_publish C rq event =
     bnd (on_inbox (accept (gc_iso_text C) event (derive_change_id event) (rq_received rq))) (\<lambda>accepted.
     if ib_status (ia_record accepted) = IN_PUBLISHED
     then bnd (respond C event (ib_status (ia_record accepted)) True) (\<lambda>r. ret (Done r))
     else bnd (on_inbox (reserve_publish (ev_tenant_id event) (ib_event_key (ia_record accepted)) (rq_received rq))) (\<lambda>reservation.
       case reservation of
         None \<Rightarrow> bnd (respond C event IN_PUBLISHING True) (\<lambda>r. ret (Done r))
       | Some reserved \<Rightarrow> bnd (publish_reserved C rq event reserved) (\<lambda>published. ret (Published published (ia_replayed accepted)))))"

definition ingest_event :: "'x gateway_config \<Rightarrow> event_request \<Rightarrow> change_event \<Rightarrow> ('x, ingest_result) eg_op" where
  "ingest_event C rq event =
     bnd (on_limiter (acquire (ev_tenant_id event) (rq_received rq))) (\<lambda>_.
     bnd (catch (accept_and_publish C rq event)
       (\<lambda>e. if is_gateway_error e then raise e else raise (EventDependencyError ''EVENT_DEPENDENCY_UNAVAILABLE''))) (\<lambda>ex. case ex of
         Done r \<Rightarrow> ret r
       | Published published replayed \<Rightarrow> respond C event (ib_status published) replayed))"

definition ingest_change :: "'x gateway_config \<Rightarrow> event_request \<Rightarrow> ('x, ingest_result) eg_op" where
  "ingest_change C rq =
    (if gc_max_request_bytes C < int (length (rq_body rq)) then ret TooLarge
     else bnd (lift_sum (verify_signature (gc_secret C) (rq_body rq) (rq_signature rq))) (\<lambda>_.
       bnd (validated EventSchemaError (gc_parse C (rq_body rq))) (ingest_event C rq)))"

section \<open>Signatures\<close>

lemma removeprefix_prefix: "prefix p s \<Longrightarrow> p @ removeprefix p s = s"
  by (auto simp: removeprefix_def prefix_def)

lemma verify_signature_iff:
  "verify_signature secret body signature = Inr () \<longleftrightarrow> signature = Some (''sha256='' @ hmac_hexdigest secret body)"
proof
  assume ok: "verify_signature secret body signature = Inr ()"
  then obtain sig where sig: "signature = Some sig" "prefix ''sha256='' sig"
    and cmp: "compare_digest (hmac_hexdigest secret body) (removeprefix ''sha256='' sig) = Some True"
    by (auto simp: verify_signature_def Let_def split: option.splits if_splits bool.splits)
  from cmp have "hmac_hexdigest secret body = removeprefix ''sha256='' sig" by (simp add: compare_digest_def split: if_splits)
  with removeprefix_prefix [OF sig(2)] sig(1) show "signature = Some (''sha256='' @ hmac_hexdigest secret body)" by simp
next
  assume "signature = Some (''sha256='' @ hmac_hexdigest secret body)"
  then show "verify_signature secret body signature = Inr ()"
    by (simp only: verify_signature_def option.case prefix_def removeprefix_append Let_def)
      (simp add: compare_digest_def)
qed


section \<open>The inbox as a state machine\<close>

lemma strip_inbox_idem [simp]: "strip_inbox (strip_inbox r) = strip_inbox r"
  by (simp add: strip_inbox_def option.map_comp comp_def)

lemma EventInboxRecord_validate_ok: "EventInboxRecord_validate r = Some r' \<Longrightarrow> r' = strip_inbox r \<and> inbox_fields_ok r'"
  by (auto simp: EventInboxRecord_validate_def Let_def split: if_splits)

lemma strip_inbox_sel:
  "ib_event_key (strip_inbox r) = strip (ib_event_key r)" "ib_tenant_id (strip_inbox r) = strip (ib_tenant_id r)"
  "ib_event_id (strip_inbox r) = strip (ib_event_id r)" "ib_source_type (strip_inbox r) = strip (ib_source_type r)"
  "ib_change_id (strip_inbox r) = strip (ib_change_id r)" "ib_input_hash (strip_inbox r) = strip (ib_input_hash r)"
  "ib_event (strip_inbox r) = ib_event r" "ib_status (strip_inbox r) = ib_status r"
  "ib_publish_attempts (strip_inbox r) = ib_publish_attempts r" "ib_version (strip_inbox r) = ib_version r"
  "ib_pubsub_message_id (strip_inbox r) = map_option strip (ib_pubsub_message_id r)"
  "ib_created_at (strip_inbox r) = ib_created_at r" "ib_updated_at (strip_inbox r) = ib_updated_at r"
  by (simp_all add: strip_inbox_def)

text \<open>The outcomes of the operations, as the writes they make.\<close>

lemma accept_cases:
  assumes "accept iso_text event c now s = (res, s')"
  obtains (existing) r where "dget s (ev_tenant_id event, event_key event) = Some r" "s' = s"
      "if ib_input_hash r = sha256_digest (event_json iso_text event) then res = Inr \<lparr>ia_record = r, ia_replayed = True\<rparr> else res = Inl EventConflictError"
  | (invalid) "dget s (ev_tenant_id event, event_key event) = None" "s' = s" "res = Inl EventUnhandled"
      "EventInboxRecord_validate (new_inbox_record iso_text event c now) = None"
  | (new) r where "dget s (ev_tenant_id event, event_key event) = None" "EventInboxRecord_validate (new_inbox_record iso_text event c now) = Some r"
      "s' = dput (ev_tenant_id event, event_key event) r s" "res = Inr \<lparr>ia_record = r, ia_replayed = False\<rparr>"
proof (cases "dget s (ev_tenant_id event, event_key event)")
  case None
  show ?thesis
  proof (cases "EventInboxRecord_validate (new_inbox_record iso_text event c now)")
    case inv: None
    from assms None inv have "s' = s" "res = Inl EventUnhandled" by (simp_all add: accept_def bnd_def)
    with None inv show ?thesis by (intro invalid)
  next
    case (Some r)
    from assms None Some have "s' = dput (ev_tenant_id event, event_key event) r s" "res = Inr \<lparr>ia_record = r, ia_replayed = False\<rparr>"
      by (simp_all add: accept_def bnd_def)
    with None Some show ?thesis by (intro new)
  qed
next
  case (Some r)
  from assms Some have "s' = s"
    "if ib_input_hash r = sha256_digest (event_json iso_text event) then res = Inr \<lparr>ia_record = r, ia_replayed = True\<rparr> else res = Inl EventConflictError"
    by (simp_all add: accept_def split: if_splits)
  with Some show ?thesis by (intro existing)
qed

definition reserved_record :: "inbox_record \<Rightarrow> instant \<Rightarrow> inbox_record" where
  "reserved_record r now = r\<lparr>ib_status := IN_PUBLISHING, ib_publish_attempts := ib_publish_attempts r + 1, ib_last_error_code := None,
     ib_updated_at := now, ib_version := ib_version r + 1\<rparr>"

definition may_reserve :: "inbox_record \<Rightarrow> instant \<Rightarrow> bool" where
  "may_reserve r now \<longleftrightarrow> ib_status r \<noteq> IN_PUBLISHED \<and> \<not> (ib_status r = IN_PUBLISHING \<and> ib_updated_at r > now - seconds 30)"

lemma reserve_cases:
  assumes "reserve_publish t k now s = (res, s')"
  obtains (missing) "dget s (t, k) = None" "s' = s" "res = Inl InboxKeyError"
  | (refused) r where "dget s (t, k) = Some r" "\<not> may_reserve r now" "s' = s" "res = Inr None"
  | (invalid) r where "dget s (t, k) = Some r" "may_reserve r now" "s' = s" "res = Inl EventUnhandled"
  | (reserved) r r' where "dget s (t, k) = Some r" "may_reserve r now" "EventInboxRecord_validate (reserved_record r now) = Some r'"
      "s' = dput (t, k) r' s" "res = Inr (Some r')"
  using assms unfolding reserve_publish_def
  by (cases "dget s (t, k)")
    (auto simp: may_reserve_def reserved_record_def bnd_def validated_def split: option.splits if_splits)

definition finished_record :: "inbox_record \<Rightarrow> inbox_status \<Rightarrow> string option \<Rightarrow> string option \<Rightarrow> instant \<Rightarrow> inbox_record" where
  "finished_record r st m e now = r\<lparr>ib_status := st, ib_pubsub_message_id := m, ib_last_error_code := e, ib_updated_at := now,
     ib_version := ib_version r + 1\<rparr>"

lemma inbox_finish_cases:
  assumes "finish_publish t k v st m e now s = (res, s')"
  obtains (missing) "dget s (t, k) = None" "s' = s" "res = Inl InboxKeyError"
  | (stale) r where "dget s (t, k) = Some r" "ib_version r \<noteq> v \<or> ib_status r \<noteq> IN_PUBLISHING" "s' = s" "res = Inl StaleReservation"
  | (invalid) r where "dget s (t, k) = Some r" "ib_version r = v" "ib_status r = IN_PUBLISHING" "s' = s" "res = Inl EventUnhandled"
  | (finished) r r' where "dget s (t, k) = Some r" "ib_version r = v" "ib_status r = IN_PUBLISHING"
      "EventInboxRecord_validate (finished_record r st m e now) = Some r'" "s' = dput (t, k) r' s" "res = Inr r'"
  using assms unfolding finish_publish_def
  by (cases "dget s (t, k)")
    (auto simp: finished_record_def bnd_def validated_def split: option.splits if_splits)

text \<open>
  A stored record is valid, sits under its own key, belongs to its event and has a version that fits its attempts: every
  attempt adds one version when it is reserved and at most one more when it ends.
\<close>

definition inbox_record_ok :: "(instant \<Rightarrow> string) \<Rightarrow> string \<times> string \<Rightarrow> inbox_record \<Rightarrow> bool" where
  "inbox_record_ok iso_text k r \<longleftrightarrow> strip_inbox r = r \<and> inbox_fields_ok r \<and> k = (ib_tenant_id r, ib_event_key r) \<and>
     ib_tenant_id r = ev_tenant_id (ib_event r) \<and> ib_event_key r = event_key (ib_event r) \<and>
     ib_input_hash r = sha256_digest (event_json iso_text (ib_event r)) \<and>
     ib_status r \<in> {IN_PENDING, IN_PUBLISHING, IN_PUBLISHED, IN_PUBLISH_FAILED} \<and>
     (ib_status r = IN_PENDING) = (ib_publish_attempts r = 0) \<and> ib_publish_attempts r < ib_version r \<and>
     ib_version r \<le> 2 * ib_publish_attempts r + (if ib_status r = IN_PUBLISHING then 0 else 1) \<and>
     (ib_status r = IN_PUBLISHED \<longrightarrow> ib_pubsub_message_id r \<noteq> None)"

definition inbox_inv :: "(instant \<Rightarrow> string) \<Rightarrow> inbox \<Rightarrow> bool" where
  "inbox_inv iso_text s \<longleftrightarrow> (\<forall>k r. dget s k = Some r \<longrightarrow> inbox_record_ok iso_text k r)"

text \<open>How a record may differ from an earlier one: same event, growing counters, and nothing at all after publication.\<close>

definition later :: "inbox_record \<Rightarrow> inbox_record \<Rightarrow> bool" where
  "later r r' \<longleftrightarrow> ib_event r' = ib_event r \<and> ib_change_id r' = ib_change_id r \<and> ib_input_hash r' = ib_input_hash r \<and>
     ib_created_at r' = ib_created_at r \<and> ib_publish_attempts r \<le> ib_publish_attempts r' \<and>
     (r' = r \<or> ib_version r < ib_version r' \<and> ib_status r \<noteq> IN_PUBLISHED)"

lemma later_refl [simp]: "later r r"
  by (simp add: later_def)

lemma later_trans: "later a b \<Longrightarrow> later b c \<Longrightarrow> later a c"
  by (auto simp: later_def)

lemma event_key_stripped [simp]: "strip (event_key event) = event_key event"
proof -
  let ?d = "JObj [(''event_id'', JStr (ev_event_id event)), (''source'', JStr (src_type (ev_source event))), (''tenant_id'', JStr (ev_tenant_id event))]"
  have k: "event_key event = sha256_hex (utf8_encode (canonical_json ?d))"
    unfolding event_key_def sha256_digest_def by (rule removeprefix_append)
  have ne: "event_key event \<noteq> []" unfolding k by (simp flip: length_0_conv)
  have "is_lower_hex c" if "c \<in> set (event_key event)" for c
    using that sha256_hex_lower unfolding k by blast
  then show ?thesis using ne by (intro strip_no_ws_ends) (simp_all add: lower_hex_not_ws)
qed

lemma new_record_ok:
  assumes "EventInboxRecord_validate (new_inbox_record iso_text event c now) = Some r" "strip (ev_tenant_id event) = ev_tenant_id event"
  shows "inbox_record_ok iso_text (ev_tenant_id event, event_key event) r \<and> ib_status r = IN_PENDING"
  using EventInboxRecord_validate_ok [OF assms(1)] assms(2)
  by (auto simp: inbox_record_ok_def strip_inbox_sel new_inbox_record_def strip_digest)

lemma strip_inbox_fixed: "strip_inbox r = r \<Longrightarrow> strip (ib_event_key r) = ib_event_key r \<and> strip (ib_tenant_id r) = ib_tenant_id r \<and>
    strip (ib_change_id r) = ib_change_id r \<and> strip (ib_input_hash r) = ib_input_hash r"
  using strip_inbox_sel(1,2,5,6) [of r] by simp

lemma reserved_ok:
  assumes "inbox_record_ok iso_text k r" "EventInboxRecord_validate (reserved_record r now) = Some r'" "may_reserve r now"
  shows "inbox_record_ok iso_text k r' \<and> later r r' \<and> ib_status r' = IN_PUBLISHING \<and> ib_updated_at r' = now \<and> ib_version r' = ib_version r + 1 \<and>
    ib_publish_attempts r' = ib_publish_attempts r + 1"
proof -
  note v = EventInboxRecord_validate_ok [OF assms(2)]
  have f: "strip_inbox r = r" using assms(1) by (simp add: inbox_record_ok_def)
  have r': "ib_event_key r' = ib_event_key r" "ib_tenant_id r' = ib_tenant_id r" "ib_change_id r' = ib_change_id r"
    "ib_input_hash r' = ib_input_hash r" "ib_event r' = ib_event r" "ib_status r' = IN_PUBLISHING" "ib_created_at r' = ib_created_at r"
    "ib_publish_attempts r' = ib_publish_attempts r + 1" "ib_version r' = ib_version r + 1" "ib_updated_at r' = now"
    using v strip_inbox_fixed [OF f] by (simp_all add: strip_inbox_sel reserved_record_def)
  moreover have "strip_inbox r' = r'" using v by simp
  ultimately show ?thesis using assms(1,3) v by (auto simp: inbox_record_ok_def later_def may_reserve_def split: if_splits)
qed

lemma finished_ok:
  assumes "inbox_record_ok iso_text k r" "EventInboxRecord_validate (finished_record r st m e now) = Some r'" "ib_status r = IN_PUBLISHING"
    "st = IN_PUBLISHED \<and> m \<noteq> None \<or> st = IN_PUBLISH_FAILED"
  shows "inbox_record_ok iso_text k r' \<and> later r r' \<and> ib_status r' = st \<and> ib_pubsub_message_id r' = map_option strip m"
proof -
  note v = EventInboxRecord_validate_ok [OF assms(2)]
  have f: "strip_inbox r = r" using assms(1) by (simp add: inbox_record_ok_def)
  have r': "ib_event_key r' = ib_event_key r" "ib_tenant_id r' = ib_tenant_id r" "ib_change_id r' = ib_change_id r"
    "ib_input_hash r' = ib_input_hash r" "ib_event r' = ib_event r" "ib_status r' = st" "ib_created_at r' = ib_created_at r"
    "ib_publish_attempts r' = ib_publish_attempts r" "ib_version r' = ib_version r + 1" "ib_pubsub_message_id r' = map_option strip m"
    using v strip_inbox_fixed [OF f] by (simp_all add: strip_inbox_sel finished_record_def)
  moreover have "strip_inbox r' = r'" using v by simp
  ultimately show ?thesis using assms(1,3,4) v by (auto simp: inbox_record_ok_def later_def split: if_splits)
qed

inductive inbox_step :: "(instant \<Rightarrow> string) \<Rightarrow> inbox \<Rightarrow> inbox \<Rightarrow> bool" for iso_text where
  accepting: "strip (ev_tenant_id event) = ev_tenant_id event \<Longrightarrow> accept iso_text event c now s = (res, s') \<Longrightarrow> inbox_step iso_text s s'"
| reserving: "reserve_publish t k now s = (res, s') \<Longrightarrow> inbox_step iso_text s s'"
| publishing: "mark_published t k v m now s = (res, s') \<Longrightarrow> inbox_step iso_text s s'"
| failing: "mark_publish_failed t k v e now s = (res, s') \<Longrightarrow> inbox_step iso_text s s'"

text \<open>One step writes at most one record, and writes only a valid successor of what was there.\<close>

definition inbox_write :: "(instant \<Rightarrow> string) \<Rightarrow> inbox \<Rightarrow> inbox \<Rightarrow> bool" where
  "inbox_write iso_text s s' \<longleftrightarrow> s' = s \<or> (\<exists>k r'. s' = dput k r' s \<and> inbox_record_ok iso_text k r' \<and>
     (\<forall>r. dget s k = Some r \<longrightarrow> later r r'))"

lemma inbox_write_put:
  "inbox_record_ok iso_text k r' \<Longrightarrow> (\<And>r. dget s k = Some r \<Longrightarrow> later r r') \<Longrightarrow> inbox_write iso_text s (dput k r' s)"
  unfolding inbox_write_def by blast

lemma inbox_invD: "inbox_inv iso_text s \<Longrightarrow> dget s k = Some r \<Longrightarrow> inbox_record_ok iso_text k r"
  by (simp add: inbox_inv_def del: split_paired_All)

lemma finish_write:
  assumes "inbox_inv iso_text s" "finish_publish t k v st m e now s = (res, s')" "st = IN_PUBLISHED \<and> m \<noteq> None \<or> st = IN_PUBLISH_FAILED"
  shows "inbox_write iso_text s s'"
  using assms(2)
proof (cases rule: inbox_finish_cases)
  case (finished r r')
  from finished_ok [OF inbox_invD [OF assms(1) finished(1)] finished(4,3) assms(3)] finished(1,5) show ?thesis
    by (auto intro: inbox_write_put)
qed (simp_all add: inbox_write_def)

lemma inbox_step_write:
  assumes "inbox_step iso_text s s'" "inbox_inv iso_text s"
  shows "inbox_write iso_text s s'"
  using assms(1)
proof cases
  case (accepting event c now res)
  from accepting(2) show ?thesis
  proof (cases rule: accept_cases)
    case (new r)
    with new_record_ok [OF new(2) accepting(1)] show ?thesis by (auto intro: inbox_write_put)
  qed (simp_all add: inbox_write_def)
next
  case (reserving t k now res)
  then show ?thesis
  proof (cases rule: reserve_cases)
    case (reserved r r')
    from reserved_ok [OF inbox_invD [OF assms(2) reserved(1)] reserved(3,2)] reserved(1,4) show ?thesis
      by (auto intro: inbox_write_put)
  qed (simp_all add: inbox_write_def)
next
  case (publishing t k v m now res)
  then show ?thesis unfolding mark_published_def by (intro finish_write [OF assms(2)]) auto
next
  case (failing t k v e now res)
  then show ?thesis unfolding mark_publish_failed_def by (intro finish_write [OF assms(2)]) auto
qed

lemma inbox_write_inv: "inbox_write iso_text s s' \<Longrightarrow> inbox_inv iso_text s \<Longrightarrow> inbox_inv iso_text s'"
  unfolding inbox_write_def inbox_inv_def by (elim disjE exE conjE) (simp_all del: split_paired_All split: if_splits)

lemma inbox_write_later: "inbox_write iso_text s s' \<Longrightarrow> dget s k = Some r \<Longrightarrow> \<exists>r'. dget s' k = Some r' \<and> later r r'"
  by (auto simp: inbox_write_def)

lemma inbox_steps:
  assumes "(inbox_step iso_text)\<^sup>*\<^sup>* s s'" "inbox_inv iso_text s"
  shows "inbox_inv iso_text s' \<and> (\<forall>k r. dget s k = Some r \<longrightarrow> (\<exists>r'. dget s' k = Some r' \<and> later r r'))"
  using assms(1)
proof (induction rule: rtranclp_induct)
  case (step u v)
  then have w: "inbox_write iso_text u v" using inbox_step_write by blast
  have "\<exists>r'. dget v k = Some r' \<and> later r r'" if "dget s k = Some r" for k r
    using step.IH inbox_write_later [OF w] that later_trans by meson
  with step.IH inbox_write_inv [OF w] show ?case by blast
qed (use assms(2) in auto)

text \<open>
  The inbox is a safe history: from the empty inbox, whatever accepts, reservations and completions happen and in whatever order, every
  record stays valid under its own tenant and event key, its version fits its attempts, and it belongs to the event first accepted;
  between any two moments a record only moves forward, and a published record never changes again.
\<close>

theorem inbox_history_sound:
  assumes "(inbox_step iso_text)\<^sup>*\<^sup>* [] s" "(inbox_step iso_text)\<^sup>*\<^sup>* s s'" "dget s k = Some r"
  shows "inbox_record_ok iso_text k r \<and>
    (\<exists>r'. dget s' k = Some r' \<and> inbox_record_ok iso_text k r' \<and> later r r' \<and> (if ib_status r = IN_PUBLISHED then r' = r else True))"
proof -
  have "inbox_inv iso_text []" by (simp add: inbox_inv_def)
  with inbox_steps [OF assms(1)] have s: "inbox_inv iso_text s" by blast
  from inbox_steps [OF assms(2) s] assms(3) obtain r' where "dget s' k = Some r'" "later r r'" "inbox_inv iso_text s'" by blast
  with inbox_invD s assms(3) show ?thesis by (auto simp: later_def)
qed

end
