(* ===== verification/Event_Guarantees.thy ===== *)
theory Event_Guarantees
  imports Event_Gateway
begin

text \<open>
  What the event gateway guarantees: the inbox refines a small outbox contract, the publisher is called only under a
  reservation, duplicates are answered without publishing, new events get through, and the rate limit holds in every window.
\<close>

section \<open>The inbox refines an outbox\<close>

text \<open>
  What the gateway needs of the inbox: per event one of four states. A ticket for sending is handed out for a waiting event, or again
  when the previous ticket is at least thirty seconds old; only the current ticket can settle the event, and a sent event stays sent.
\<close>

datatype outbox_state = Absent | Waiting | Sending int instant | Sent

definition spec_accept :: "outbox_state \<Rightarrow> outbox_state" where
  "spec_accept st = (if st = Absent then Waiting else st)"

definition spec_free :: "instant \<Rightarrow> outbox_state \<Rightarrow> bool" where
  "spec_free now st = (case st of Absent \<Rightarrow> False | Waiting \<Rightarrow> True | Sending v t \<Rightarrow> t \<le> now - seconds 30 | Sent \<Rightarrow> False)"

definition spec_settle :: "int \<Rightarrow> bool \<Rightarrow> outbox_state \<Rightarrow> outbox_state" where
  "spec_settle ticket sent st = (case st of Sending v t \<Rightarrow> if v = ticket then (if sent then Sent else Waiting) else st | _ \<Rightarrow> st)"

definition outbox_of :: "inbox_record option \<Rightarrow> outbox_state" where
  "outbox_of x = (case x of None \<Rightarrow> Absent | Some r \<Rightarrow>
     (if ib_status r = IN_PUBLISHED then Sent else if ib_status r = IN_PUBLISHING then Sending (ib_version r) (ib_updated_at r) else Waiting))"

definition outbox :: "inbox \<Rightarrow> string \<times> string \<Rightarrow> outbox_state" where
  "outbox s k = outbox_of (dget s k)"

lemma outbox_dput: "outbox (dput k r s) = (outbox s)(k := outbox_of (Some r))"
  by (simp add: outbox_def fun_eq_iff)

lemma accept_refines:
  "case accept iso_text event c now s of (Inl e, s') \<Rightarrow> s' = s
    | (Inr a, s') \<Rightarrow> outbox s' = (outbox s)((ev_tenant_id event, event_key event) := spec_accept (outbox s (ev_tenant_id event, event_key event)))"
proof (cases "accept iso_text event c now s")
  case (Pair res s')
  then show ?thesis
  proof (cases rule: accept_cases)
    case (existing r)
    with Pair show ?thesis by (auto simp: spec_accept_def outbox_def outbox_of_def fun_eq_iff split: if_splits)
  next
    case (new r)
    then have "ib_status r = IN_PENDING"
      by (auto dest!: EventInboxRecord_validate_ok simp: strip_inbox_sel new_inbox_record_def)
    with Pair new show ?thesis by (simp add: outbox_dput spec_accept_def outbox_def outbox_of_def)
  qed (simp_all add: Pair)
qed

lemma reserve_refines:
  "case reserve_publish t k now s of (Inl e, s') \<Rightarrow> s' = s
    | (Inr None, s') \<Rightarrow> \<not> spec_free now (outbox s (t, k)) \<and> s' = s
    | (Inr (Some r), s') \<Rightarrow> spec_free now (outbox s (t, k)) \<and> outbox s' = (outbox s)((t, k) := Sending (ib_version r) now)"
proof (cases "reserve_publish t k now s")
  case (Pair res s')
  then show ?thesis
  proof (cases rule: reserve_cases)
    case (refused r)
    with Pair show ?thesis by (auto simp: may_reserve_def spec_free_def outbox_def outbox_of_def)
  next
    case (reserved r r')
    then have "outbox_of (Some r') = Sending (ib_version r') now"
      by (auto dest!: EventInboxRecord_validate_ok simp: strip_inbox_sel reserved_record_def outbox_of_def)
    moreover have "spec_free now (outbox s (t, k))"
      using reserved by (auto simp: may_reserve_def spec_free_def outbox_def outbox_of_def)
    ultimately show ?thesis using Pair reserved by (simp add: outbox_dput)
  qed (simp_all add: Pair)
qed

lemma finish_refines:
  assumes "st = (if b then IN_PUBLISHED else IN_PUBLISH_FAILED)"
  shows "case finish_publish t k v st m e now s of (Inl x, s') \<Rightarrow> s' = s
    | (Inr r, s') \<Rightarrow> (\<exists>since. outbox s (t, k) = Sending v since) \<and>
        outbox s' = (outbox s)((t, k) := spec_settle v b (outbox s (t, k)))"
proof (cases "finish_publish t k v st m e now s")
  case (Pair res s')
  then show ?thesis
  proof (cases rule: inbox_finish_cases)
    case (finished r r')
    then have "ib_status r' = st"
      by (auto dest!: EventInboxRecord_validate_ok simp: strip_inbox_sel finished_record_def)
    moreover have "outbox s (t, k) = Sending v (ib_updated_at r)" using finished by (simp add: outbox_def outbox_of_def)
    ultimately show ?thesis using Pair finished assms by (auto simp: outbox_dput outbox_of_def spec_settle_def)
  qed (simp_all add: Pair)
qed

text \<open>
  C19. The in-memory inbox refines the outbox contract: accepting an event makes an absent event waiting and nothing else; a
  reservation is granted exactly when the contract frees the event and then holds it under the new version; a completion succeeds only
  for the version that holds the event and settles it as sent or waiting; a refused or failed call changes nothing.
\<close>

theorem inbox_refines_outbox:
  "(case accept iso_text event c now s of
      (Inl e, s') \<Rightarrow> s' = s
    | (Inr a, s') \<Rightarrow> outbox s' = (outbox s)((ev_tenant_id event, event_key event) := spec_accept (outbox s (ev_tenant_id event, event_key event)))) \<and>
   (case reserve_publish t k now s of
      (Inl e, s') \<Rightarrow> s' = s
    | (Inr None, s') \<Rightarrow> \<not> spec_free now (outbox s (t, k)) \<and> s' = s
    | (Inr (Some r), s') \<Rightarrow> spec_free now (outbox s (t, k)) \<and> outbox s' = (outbox s)((t, k) := Sending (ib_version r) now)) \<and>
   (case mark_published t k v m now s of
      (Inl e, s') \<Rightarrow> s' = s
    | (Inr r, s') \<Rightarrow> (\<exists>since. outbox s (t, k) = Sending v since) \<and> outbox s' = (outbox s)((t, k) := spec_settle v True (outbox s (t, k)))) \<and>
   (case mark_publish_failed t k v err now s of
      (Inl e, s') \<Rightarrow> s' = s
    | (Inr r, s') \<Rightarrow> (\<exists>since. outbox s (t, k) = Sending v since) \<and> outbox s' = (outbox s)((t, k) := spec_settle v False (outbox s (t, k))))"
  unfolding mark_published_def mark_publish_failed_def
  by (intro conjI accept_refines reserve_refines finish_refines) simp_all

section \<open>Clients of the outbox contract\<close>

text \<open>A grant carries the caller's clock and the time the store records for the ticket.\<close>

datatype outbox_action = Accept | Grant instant instant int | Settle int bool

text \<open>A run of successful actions on the entries of a store.\<close>

fun runs :: "('k \<Rightarrow> outbox_action \<Rightarrow> 's \<Rightarrow> 's \<Rightarrow> bool) \<Rightarrow> ('k \<times> outbox_action) list \<Rightarrow> 's \<Rightarrow> 's \<Rightarrow> bool" where
  "runs act [] s s' = (s' = s)"
| "runs act ((k, a) # acts) s s' = (\<exists>u. act k a s u \<and> runs act acts u s')"

definition sends :: "'k \<Rightarrow> ('k \<times> outbox_action) list \<Rightarrow> nat" where
  "sends k acts = length (filter (\<lambda>(j, a). j = k \<and> (\<exists>v. a = Settle v True)) acts)"

lemma sends_simps [simp]:
  "sends k [] = 0" "sends k ((j, a) # acts) = (if j = k \<and> (\<exists>v. a = Settle v True) then 1 else 0) + sends k acts"
  by (simp_all add: sends_def)

locale outbox_contract =
  fixes act :: "'k \<Rightarrow> outbox_action \<Rightarrow> 's \<Rightarrow> 's \<Rightarrow> bool"
    and view :: "'s \<Rightarrow> 'k \<Rightarrow> outbox_state"
  assumes accepts: "act k Accept s s' \<Longrightarrow> view s' = (view s)(k := spec_accept (view s k))"
    and grants: "act k (Grant now at v) s s' \<Longrightarrow> spec_free now (view s k) \<and> view s' = (view s)(k := Sending v at)"
    and settles: "act k (Settle v b) s s' \<Longrightarrow> (\<exists>since. view s k = Sending v since) \<and> view s' = (view s)(k := spec_settle v b (view s k))"
begin

lemma sent_stays: "act j a s s' \<Longrightarrow> view s k = Sent \<Longrightarrow> view s' k = Sent"
  by (cases a) (auto dest!: accepts grants settles simp: spec_accept_def spec_free_def split: if_splits)

lemma sent_at_most_once: "runs act acts s s' \<Longrightarrow> sends k acts \<le> (if view s k = Sent then 0 else 1)"
proof (induction acts arbitrary: s)
  case (Cons p acts)
  obtain j a where p: "p = (j, a)" by force
  with Cons.prems obtain u where u: "act j a s u" "runs act acts u s'" by auto
  note IH = Cons.IH [OF u(2)]
  show ?case
  proof (cases "j = k \<and> (\<exists>v. a = Settle v True)")
    case True
    with u(1) have "view s k \<noteq> Sent" "view u k = Sent" by (auto dest!: settles simp: spec_settle_def)
    with IH True p show ?thesis by simp
  next
    case False
    with IH sent_stays [OF u(1), of k] p show ?thesis by (auto split: if_splits)
  qed
qed simp

text \<open>A ticket younger than thirty seconds excludes every other grant.\<close>

lemma ticket_excludes:
  assumes "act k (Grant now at v) s s'" "act k (Grant now' at' v') s' s''"
  shows "at + seconds 30 \<le> now'"
  using grants [OF assms(1)] grants [OF assms(2)] by (auto simp: spec_free_def)

end

text \<open>The successful calls of the in-memory inbox as actions.\<close>

definition inbox_action :: "(instant \<Rightarrow> string) \<Rightarrow> string \<times> string \<Rightarrow> outbox_action \<Rightarrow> inbox \<Rightarrow> inbox \<Rightarrow> bool" where
  "inbox_action iso_text k a s s' = (case a of
     Accept \<Rightarrow> (\<exists>event c now x. k = (ev_tenant_id event, event_key event) \<and> accept iso_text event c now s = (Inr x, s'))
   | Grant now at v \<Rightarrow> at = now \<and> (\<exists>r. reserve_publish (fst k) (snd k) now s = (Inr (Some r), s') \<and> ib_version r = v)
   | Settle v b \<Rightarrow> (if b then \<exists>m now r. mark_published (fst k) (snd k) v m now s = (Inr r, s')
       else \<exists>e now r. mark_publish_failed (fst k) (snd k) v e now s = (Inr r, s')))"

interpretation inbox: outbox_contract "inbox_action iso_text" outbox
proof
  fix k s s' assume "inbox_action iso_text k Accept s s'"
  then obtain event c now x where "k = (ev_tenant_id event, event_key event)" "accept iso_text event c now s = (Inr x, s')"
    by (auto simp: inbox_action_def)
  with accept_refines [where iso_text = iso_text and event = event and c = c and now = now and s = s] show "outbox s' = (outbox s)(k := spec_accept (outbox s k))" by simp
next
  fix k now at v s s' assume "inbox_action iso_text k (Grant now at v) s s'"
  then obtain r where "at = now" "reserve_publish (fst k) (snd k) now s = (Inr (Some r), s')" "ib_version r = v" by (auto simp: inbox_action_def)
  with reserve_refines [where t = "fst k" and k = "snd k" and now = now and s = s] show "spec_free now (outbox s k) \<and> outbox s' = (outbox s)(k := Sending v at)" by simp
next
  fix k v b s s' assume "inbox_action iso_text k (Settle v b) s s'"
  then obtain m e now r where f: "finish_publish (fst k) (snd k) v (if b then IN_PUBLISHED else IN_PUBLISH_FAILED) m e now s = (Inr r, s')"
    by (cases b) (auto simp: inbox_action_def mark_published_def mark_publish_failed_def)
  from finish_refines [OF refl, where b = b and t = "fst k" and k = "snd k" and v = v and m = m and e = e and now = now and s = s] f
  show "(\<exists>since. outbox s k = Sending v since) \<and> outbox s' = (outbox s)(k := spec_settle v b (outbox s k))" by simp
qed

text \<open>
  C18. An event is recorded as published at most once: in any interleaving of successful accepts, reservations and completions on the inbox, by
  however many workers, each event has at most one completion as published, and none if it was published before.
\<close>

theorem published_at_most_once:
  assumes "runs (inbox_action iso_text) acts s s'"
  shows "sends k acts \<le> (if outbox s k = Sent then 0 else 1)"
  by (rule inbox.sent_at_most_once [OF assms])

section \<open>Ingestion\<close>

lemma on_inbox_eq: "on_inbox m w = (case m (eg_inbox w) of (r, s) \<Rightarrow> (r, w\<lparr>eg_inbox := s\<rparr>))"
  by (simp add: on_inbox_def zoom_def sum.map_id prod.case_eq_if)

lemma on_limiter_eq: "on_limiter m w = (case m (eg_limiter w) of (r, s) \<Rightarrow> (r, w\<lparr>eg_limiter := s\<rparr>))"
  by (simp add: on_limiter_def zoom_def sum.map_id prod.case_eq_if)

text \<open>
  A duplicate is not published again: for an event that the inbox already holds as published with the same content, ingestion
  calls the publisher not at all and leaves the inbox as it is; the answer repeats the published status and is marked as a replay.
\<close>

theorem duplicate_not_republished:
  assumes "dget (eg_inbox w) (ev_tenant_id event, event_key event) = Some r" "ib_status r = IN_PUBLISHED"
    "ib_input_hash r = sha256_digest (event_json (gc_iso_text C) event)"
  shows "eg_inbox (snd (ingest_event C rq event w)) = eg_inbox w \<and> eg_remote (snd (ingest_event C rq event w)) = eg_remote w \<and>
    (case fst (ingest_event C rq event w) of Inl e \<Rightarrow> True | Inr TooLarge \<Rightarrow> False
      | Inr (Accepted a) \<Rightarrow> ac_status a = IN_PUBLISHED \<and> ac_replayed a \<and> ac_change_id a = strip (derive_change_id event))"
proof -
  have acc: "accept (gc_iso_text C) event c now (eg_inbox w) = (Inr \<lparr>ia_record = r, ia_replayed = True\<rparr>, eg_inbox w)" for c now
    using assms by (simp add: accept_def)
  have ap: "accept_and_publish C rq event (w\<lparr>eg_limiter := l\<rparr>) = (case respond C event IN_PUBLISHED True (w\<lparr>eg_limiter := l\<rparr>) of
      (Inl e, w') \<Rightarrow> (Inl e, w') | (Inr x, w') \<Rightarrow> (Inr (Done x), w'))" for l
    using assms(2) by (simp add: accept_and_publish_def bnd_def on_inbox_eq acc split: prod.split sum.split)
  show ?thesis
    by (auto simp: ingest_event_def bnd_def on_limiter_eq catch_def ap respond_def validated_def EventAcceptedResponse_validate_def Let_def
        acquire_def split: option.splits if_splits prod.splits sum.splits)
qed

text \<open>Ingesting an event writes the inbox under the event's own key only.\<close>

definition inbox_confined :: "(instant \<Rightarrow> string) \<Rightarrow> string \<times> string \<Rightarrow> inbox \<Rightarrow> 'x event_gateway \<Rightarrow> bool" where
  "inbox_confined iso_text key s0 w \<longleftrightarrow> inbox_inv iso_text (eg_inbox w) \<and> (\<forall>k. k \<noteq> key \<longrightarrow> dget (eg_inbox w) k = dget s0 k)"

lemma inbox_confined_simps [simp]:
  "inbox_confined iso_text key s0 (w\<lparr>eg_limiter := l\<rparr>) = inbox_confined iso_text key s0 w"
  "inbox_confined iso_text key s0 (w\<lparr>eg_remote := x\<rparr>) = inbox_confined iso_text key s0 w"
  by (simp_all add: inbox_confined_def)

lemma inbox_confined_put:
  assumes "inbox_confined iso_text key s0 w" "inbox_record_ok iso_text key r"
  shows "inbox_confined iso_text key s0 (w\<lparr>eg_inbox := dput key r (eg_inbox w)\<rparr>)"
  using assms by (auto simp: inbox_confined_def inbox_inv_def simp del: split_paired_All split: if_splits)

lemma inbox_confined_keep: "inbox_confined iso_text key s0 w \<Longrightarrow> inbox_confined iso_text key s0 (w\<lparr>eg_inbox := eg_inbox w\<rparr>)"
  by simp

lemma inbox_confined_ok: "inbox_confined iso_text key s0 w \<Longrightarrow> dget (eg_inbox w) k = Some r \<Longrightarrow> inbox_record_ok iso_text k r"
  unfolding inbox_confined_def by (blast dest: inbox_invD)

abbreviation own_key :: "change_event \<Rightarrow> string \<times> string" where
  "own_key event \<equiv> (ev_tenant_id event, event_key event)"

lemma record_ok_key: "inbox_record_ok iso_text (t, k) r \<Longrightarrow> ib_event_key r = k"
  by (simp add: inbox_record_ok_def)

lemma kp_accept:
  assumes "strip (ev_tenant_id event) = ev_tenant_id event"
  shows "keeps (inbox_confined iso_text (own_key event) s0) (on_inbox (accept iso_text event c now))
    (\<lambda>a. ib_event_key (ia_record a) = event_key event)"
  unfolding on_inbox_def
proof (rule keeps_zoom)
  fix w res s' assume w: "inbox_confined iso_text (own_key event) s0 w" and a: "accept iso_text event c now (eg_inbox w) = (res, s')"
  from a show "inbox_confined iso_text (own_key event) s0 (w\<lparr>eg_inbox := s'\<rparr>) \<and> (\<forall>x. res = Inr x \<longrightarrow> ib_event_key (ia_record x) = event_key event)"
  proof (cases rule: accept_cases)
    case (existing r)
    with w record_ok_key [OF inbox_confined_ok [OF w existing(1)]] show ?thesis by (auto split: if_splits)
  next
    case (new r)
    from new_record_ok [OF new(2) assms] have ok: "inbox_record_ok iso_text (own_key event) r" by simp
    with new inbox_confined_put [OF w ok] record_ok_key [OF ok] show ?thesis by auto
  qed (use w in simp_all)
qed

lemma kp_reserve:
  "keeps (inbox_confined iso_text (t, k) s0) (on_inbox (reserve_publish t k now)) (\<lambda>x. case x of None \<Rightarrow> True | Some r \<Rightarrow> ib_event_key r = k)"
  unfolding on_inbox_def
proof (rule keeps_zoom)
  fix w res s' assume w: "inbox_confined iso_text (t, k) s0 w" and a: "reserve_publish t k now (eg_inbox w) = (res, s')"
  from a show "inbox_confined iso_text (t, k) s0 (w\<lparr>eg_inbox := s'\<rparr>) \<and>
    (\<forall>x. res = Inr x \<longrightarrow> (case x of None \<Rightarrow> True | Some r \<Rightarrow> ib_event_key r = k))"
  proof (cases rule: reserve_cases)
    case (reserved r r')
    from reserved_ok [OF inbox_confined_ok [OF w reserved(1)] reserved(3,2)] have ok: "inbox_record_ok iso_text (t, k) r'" by simp
    with reserved inbox_confined_put [OF w ok] record_ok_key [OF ok] show ?thesis by auto
  qed (use w in simp_all)
qed

lemma kp_finish:
  assumes "st = IN_PUBLISHED \<and> m \<noteq> None \<or> st = IN_PUBLISH_FAILED"
  shows "keeps (inbox_confined iso_text (t, k) s0) (on_inbox (finish_publish t k v st m e now)) (\<lambda>r. ib_status r = st)"
  unfolding on_inbox_def
proof (rule keeps_zoom)
  fix w res s' assume w: "inbox_confined iso_text (t, k) s0 w" and a: "finish_publish t k v st m e now (eg_inbox w) = (res, s')"
  from a show "inbox_confined iso_text (t, k) s0 (w\<lparr>eg_inbox := s'\<rparr>) \<and> (\<forall>r. res = Inr r \<longrightarrow> ib_status r = st)"
  proof (cases rule: inbox_finish_cases)
    case (finished r r')
    from finished_ok [OF inbox_confined_ok [OF w finished(1)] finished(4,3) assms] have ok: "inbox_record_ok iso_text (t, k) r'" "ib_status r' = st"
      by simp_all
    with finished inbox_confined_put [OF w ok(1)] show ?thesis by auto
  qed (use w in simp_all)
qed

lemma kp_call_publish: "keeps (inbox_confined iso_text k s0) (call_publish C event c) (\<lambda>_. True)"
  by (auto simp: keeps_def call_publish_def split: prod.splits)

lemma kp_respond: "keeps (inbox_confined iso_text k s0) (respond C event st b) (\<lambda>_. True)"
  unfolding respond_def by (rule keeps_bnd [OF keeps_validated]) (simp add: keeps_ret)

lemma kp_publish_reserved:
  assumes "ib_event_key reservation = event_key event"
  shows "keeps (inbox_confined iso_text (own_key event) s0) (publish_reserved C rq event reservation) (\<lambda>r. ib_status r = IN_PUBLISHED)"
  unfolding publish_reserved_def assms mark_published_def mark_publish_failed_def
  by (rule keeps_then [OF kp_call_publish])
    (auto intro!: keeps_raise keeps_bnd [OF kp_finish] kp_finish split: sum.split)

lemma kp_accept_and_publish:
  assumes "strip (ev_tenant_id event) = ev_tenant_id event"
  shows "keeps (inbox_confined (gc_iso_text C) (own_key event) s0) (accept_and_publish C rq event) (\<lambda>_. True)"
  unfolding accept_and_publish_def
proof (rule keeps_bnd [OF kp_accept [OF assms]])
  fix a assume a: "ib_event_key (ia_record a) = event_key event"
  have d: "keeps (inbox_confined (gc_iso_text C) (own_key event) s0) (bnd (respond C event st b) (\<lambda>r. ret (Done r))) (\<lambda>_. True)" for st b
    by (rule keeps_then [OF kp_respond]) (simp add: keeps_ret)
  have p: "keeps (inbox_confined (gc_iso_text C) (own_key event) s0) (case x of None \<Rightarrow> bnd (respond C event IN_PUBLISHING True) (\<lambda>r. ret (Done r))
      | Some reserved \<Rightarrow> bnd (publish_reserved C rq event reserved) (\<lambda>published. ret (Published published b))) (\<lambda>_. True)"
    if "case x of None \<Rightarrow> True | Some r \<Rightarrow> ib_event_key r = event_key event" for x b
    using that by (auto intro!: d keeps_bnd [OF kp_publish_reserved] keeps_ret split: option.splits)
  show "keeps (inbox_confined (gc_iso_text C) (own_key event) s0)
     (if ib_status (ia_record a) = IN_PUBLISHED then bnd (respond C event (ib_status (ia_record a)) True) (\<lambda>r. ret (Done r))
      else bnd (on_inbox (reserve_publish (ev_tenant_id event) (ib_event_key (ia_record a)) (rq_received rq))) (\<lambda>reservation. case reservation of
         None \<Rightarrow> bnd (respond C event IN_PUBLISHING True) (\<lambda>r. ret (Done r))
       | Some reserved \<Rightarrow> bnd (publish_reserved C rq event reserved) (\<lambda>published. ret (Published published (ia_replayed a))))) (\<lambda>_. True)"
    unfolding a by (intro keeps_if d keeps_bnd [OF kp_reserve] p)
qed

lemma kp_acquire: "keeps (inbox_confined iso_text k s0) (on_limiter m) (\<lambda>_. True)"
  unfolding on_limiter_def by (rule keeps_zoom) simp

lemma kp_ingest_event:
  assumes "strip (ev_tenant_id event) = ev_tenant_id event"
  shows "keeps (inbox_confined (gc_iso_text C) (own_key event) s0) (ingest_event C rq event) (\<lambda>_. True)"
  unfolding ingest_event_def
proof (rule keeps_then [OF kp_acquire], rule keeps_then)
  show "keeps (inbox_confined (gc_iso_text C) (own_key event) s0) (catch (accept_and_publish C rq event)
      (\<lambda>e. if is_gateway_error e then raise e else raise (EventDependencyError ''EVENT_DEPENDENCY_UNAVAILABLE''))) (\<lambda>_. True)"
    by (rule keeps_catch [OF kp_accept_and_publish [OF assms]]) (simp add: keeps_raise)
qed (auto intro: keeps_ret kp_respond split: publish_exit.split)

definition remote_is :: "'x \<Rightarrow> 'x event_gateway \<Rightarrow> bool" where
  "remote_is x w \<longleftrightarrow> eg_remote w = x"

lemma remote_respond: "preserves (remote_is x) (respond C event st b)"
  unfolding respond_def by (intro pres)

lemma not_reservable_not_published:
  assumes "dget (eg_inbox w) (own_key event) = Some r" "ib_event_key r = event_key event" "\<not> may_reserve r (rq_received rq)"
  shows "eg_remote (snd (ingest_event C rq event w)) = eg_remote w"
proof -
  let ?I = "\<lambda>v. remote_is (eg_remote w) v \<and> eg_inbox v = eg_inbox w"
  have res: "reserve_publish (ev_tenant_id event) (event_key event) (rq_received rq) (eg_inbox w) = (Inr None, eg_inbox w)"
    using assms by (auto simp: reserve_publish_def may_reserve_def)
  have acc: "accept (gc_iso_text C) event c now (eg_inbox w) = (if ib_input_hash r = sha256_digest (event_json (gc_iso_text C) event)
      then (Inr \<lparr>ia_record = r, ia_replayed = True\<rparr>, eg_inbox w) else (Inl EventConflictError, eg_inbox w))" for c now
    using assms(1) by (simp add: accept_def)
  have ap: "accept_and_publish C rq event v = (if ib_input_hash r = sha256_digest (event_json (gc_iso_text C) event)
      then bnd (respond C event (if ib_status r = IN_PUBLISHED then IN_PUBLISHED else IN_PUBLISHING) True) (\<lambda>r. ret (Done r)) v
      else (Inl EventConflictError, v))" if "eg_inbox v = eg_inbox w" for v
  proof -
    have same: "v\<lparr>eg_inbox := eg_inbox w\<rparr> = v" using that by (cases v) simp
    show ?thesis using that assms(2) by (simp add: accept_and_publish_def bnd_def [of "on_inbox _"] on_inbox_eq acc res same)
  qed
  have d: "preserves (remote_is (eg_remote w)) (bnd (respond C event st b) (\<lambda>r. ret (Done r)))" for st b
    by (intro pres remote_respond)
  have a: "remote_is (eg_remote w) (snd (accept_and_publish C rq event v))" if "?I v" for v
    using that preserves_snd [OF d] by (simp add: ap)
  have c: "remote_is (eg_remote w) (snd (catch (accept_and_publish C rq event) (\<lambda>e. if is_gateway_error e then raise e
      else raise (EventDependencyError ''EVENT_DEPENDENCY_UNAVAILABLE'')) v))" if "?I v" for v
    using a [OF that] by (cases "accept_and_publish C rq event v"; cases "fst (accept_and_publish C rq event v)") (auto simp: catch_def)
  have l: "?I (snd (on_limiter m w))" for m :: "(rate_limiter, event_error, unit) op"
    by (simp add: on_limiter_eq remote_is_def split: prod.split)
  have e: "preserves (remote_is (eg_remote w)) (case ex of Done r \<Rightarrow> ret r | Published published b \<Rightarrow> respond C event (ib_status published) b)" for ex
    by (cases ex) (simp_all add: preserves_ret remote_respond)
  have "remote_is (eg_remote w) (snd (ingest_event C rq event w))"
    unfolding ingest_event_def bnd_def using l c preserves_snd [OF e]
    by (auto split: prod.split sum.split) (metis (no_types, lifting) snd_conv)+
  then show ?thesis by (simp add: remote_is_def)
qed

text \<open>
  The publisher is called only by the holder of a reservation, and an ingestion writes only its own inbox entry: if ingesting an event
  reached the publisher, then before the call the event was not published and no reservation younger than thirty seconds was open; all
  other entries are as before and the inbox stays valid, whatever the outcome.
\<close>

theorem published_only_under_reservation:
  assumes "inbox_inv (gc_iso_text C) (eg_inbox w)" "strip (ev_tenant_id event) = ev_tenant_id event"
  shows "(eg_remote (snd (ingest_event C rq event w)) = eg_remote w \<or>
      (case dget (eg_inbox w) (ev_tenant_id event, event_key event) of None \<Rightarrow> True | Some r \<Rightarrow> may_reserve r (rq_received rq))) \<and>
    inbox_inv (gc_iso_text C) (eg_inbox (snd (ingest_event C rq event w))) \<and>
    (\<forall>k. k \<noteq> (ev_tenant_id event, event_key event) \<longrightarrow>
      dget (eg_inbox (snd (ingest_event C rq event w))) k = dget (eg_inbox w) k)"
proof -
  have "inbox_confined (gc_iso_text C) (own_key event) (eg_inbox w) w" using assms(1) by (simp add: inbox_confined_def)
  then have "inbox_confined (gc_iso_text C) (own_key event) (eg_inbox w) (snd (ingest_event C rq event w))"
    using keeps_state [OF kp_ingest_event [OF assms(2)]] by (metis prod.collapse)
  moreover have "eg_remote (snd (ingest_event C rq event w)) = eg_remote w"
    if "dget (eg_inbox w) (own_key event) = Some r" "\<not> may_reserve r (rq_received rq)" for r
    using not_reservable_not_published [OF that(1) _ that(2)] record_ok_key [OF inbox_invD [OF assms(1) that(1)]] by simp
  ultimately show ?thesis unfolding inbox_confined_def by (auto split: option.split)
qed

section \<open>The rate limit\<close>

text \<open>A sequence of calls; the accepted ones are kept.\<close>

fun acquire_all :: "(string \<times> instant) list \<Rightarrow> rate_limiter \<Rightarrow> (string \<times> instant) list \<times> rate_limiter" where
  "acquire_all [] s = ([], s)"
| "acquire_all ((tenant, now) # calls) s = (case acquire tenant now s of
     (Inl e, s') \<Rightarrow> acquire_all calls s'
   | (Inr u, s') \<Rightarrow> (case acquire_all calls s' of (xs, s'') \<Rightarrow> ((tenant, now) # xs, s'')))"

text \<open>The calls of one tenant in the minute that ends at a given instant.\<close>

definition in_window :: "string \<Rightarrow> instant \<Rightarrow> (string \<times> instant) list \<Rightarrow> nat" where
  "in_window tenant t calls = length (filter (\<lambda>(x, u). x = tenant \<and> t - minutes 1 < u \<and> u \<le> t) calls)"

text \<open>
  What the limiter holds after the calls \<^verbatim>\<open>past\<close> (newest last): per tenant the accepted times, except some that are older than a minute.
\<close>

definition limiter_ok :: "(string \<times> instant) list \<Rightarrow> instant \<Rightarrow> rate_limiter \<Rightarrow> bool" where
  "limiter_ok past latest s \<longleftrightarrow> sorted (map snd past) \<and> (\<forall>(x, u) \<in> set past. u \<le> latest) \<and>
     (\<forall>tenant t. int (in_window tenant t past) \<le> max 0 (rl_limit s)) \<and>
     (\<forall>tenant. \<exists>c \<le> latest - minutes 1. dget_or (rl_events s) tenant [] = map snd (filter (\<lambda>(x, u). x = tenant \<and> c < u) past))"

lemma dropWhile_sorted: "sorted (xs :: instant list) \<Longrightarrow> dropWhile (\<lambda>u. u \<le> c) xs = filter (\<lambda>u. c < u) xs"
  by (induction xs) (auto simp: not_le intro!: filter_True [symmetric] dest: order_less_le_trans)

lemma pruned_queue:
  assumes "limiter_ok past latest s" "latest \<le> now"
  shows "dropWhile (\<lambda>u. u \<le> now - minutes 1) (dget_or (rl_events s) tenant []) = map snd (filter (\<lambda>(x, u). x = tenant \<and> now - minutes 1 < u) past)"
proof -
  from assms(1) obtain c where c: "c \<le> latest - minutes 1" "dget_or (rl_events s) tenant [] = map snd (filter (\<lambda>(x, u). x = tenant \<and> c < u) past)"
    unfolding limiter_ok_def by blast
  have "sorted (map snd past)" using assms(1) by (simp add: limiter_ok_def)
  then have "sorted (map snd (filter (\<lambda>(x, u). x = tenant \<and> c < u) past))" by (rule sorted_filter)
  then have "dropWhile (\<lambda>u. u \<le> now - minutes 1) (dget_or (rl_events s) tenant []) =
    filter (\<lambda>u. now - minutes 1 < u) (map snd (filter (\<lambda>(x, u). x = tenant \<and> c < u) past))"
    unfolding c(2) by (rule dropWhile_sorted)
  also have "\<dots> = map snd (filter (\<lambda>(x, u). x = tenant \<and> now - minutes 1 < u) past)"
    using c(1) assms(2) by (auto simp: filter_map comp_def filter_filter intro!: arg_cong [of _ _ "map snd"] filter_cong)
  finally show ?thesis .
qed

lemma in_window_snoc:
  "in_window tenant t (past @ [(x, u)]) = in_window tenant t past + (if x = tenant \<and> t - minutes 1 < u \<and> u \<le> t then 1 else 0)"
  by (simp add: in_window_def)

lemma in_window_recent:
  assumes "now \<le> t"
  shows "in_window tenant t past \<le> length (filter (\<lambda>(x, u). x = tenant \<and> now - minutes 1 < u) past)"
  unfolding in_window_def using assms by (induction past) auto

lemma acquire_ok:
  assumes ok: "limiter_ok past latest s" and now: "latest \<le> now" and run: "acquire tenant now s = (res, s')"
  shows "limiter_ok (if res = Inr () then past @ [(tenant, now)] else past) now s' \<and> rl_limit s' = rl_limit s"
proof -
  let ?q = "map snd (filter (\<lambda>(x, u). x = tenant \<and> now - minutes 1 < u) past)"
  note q = pruned_queue [OF ok now, of tenant]
  from ok have past: "sorted (map snd past)" "\<forall>(x, u) \<in> set past. u \<le> latest" "\<And>x t. int (in_window x t past) \<le> max 0 (rl_limit s)"
    by (simp_all add: limiter_ok_def)
  have others: "\<exists>c \<le> now - minutes 1. dget_or (rl_events s) x [] = map snd (filter (\<lambda>(y, u). y = x \<and> c < u) past)" for x
  proof -
    from ok obtain c where "c \<le> latest - minutes 1" "dget_or (rl_events s) x [] = map snd (filter (\<lambda>(y, u). y = x \<and> c < u) past)"
      unfolding limiter_ok_def by blast
    with now show ?thesis by (intro exI [of _ c]) auto
  qed
  show ?thesis
  proof (cases "rl_limit s \<le> int (length ?q)")
    case True
    with run q have r: "res = Inl EventRateLimitedError" "s' = s\<lparr>rl_events := dput tenant ?q (rl_events s)\<rparr>"
      by (simp_all add: acquire_def Let_def)
    have "\<exists>c \<le> now - minutes 1. dget_or (rl_events s') x [] = map snd (filter (\<lambda>(y, u). y = x \<and> c < u) past)" for x
      using others [of x] r(2) by (cases "x = tenant") auto
    moreover have "\<forall>(x, u) \<in> set past. u \<le> now" using past(2) now by fastforce
    ultimately show ?thesis using past r by (auto simp: limiter_ok_def)
  next
    case False
    with run q have r: "res = Inr ()" "s' = s\<lparr>rl_events := dput tenant (?q @ [now]) (rl_events s)\<rparr>"
      by (simp_all add: acquire_def Let_def)
    let ?new = "past @ [(tenant, now)]"
    have ev: "\<exists>c \<le> now - minutes 1. dget_or (rl_events s') x [] = map snd (filter (\<lambda>(y, u). y = x \<and> c < u) ?new)" for x
    proof (cases "x = tenant")
      case True
      with r(2) show ?thesis by (intro exI [of _ "now - minutes 1"]) (simp add: time_unfold)
    next
      case False
      with others [of x] r(2) show ?thesis by auto
    qed
    have window: "int (in_window x t ?new) \<le> max 0 (rl_limit s)" for x t
    proof (cases "x = tenant \<and> t - minutes 1 < now \<and> now \<le> t")
      case True
      with in_window_recent [of now t tenant past] False show ?thesis by (simp add: in_window_snoc)
    next
      case no: False
      then show ?thesis using past(3) [of x t] by (auto simp: in_window_snoc)
    qed
    have "sorted (map snd ?new)" "\<forall>(x, u) \<in> set ?new. u \<le> now"
      using past(1,2) now by (fastforce simp: sorted_append)+
    with ev window r show ?thesis by (simp add: limiter_ok_def)
  qed
qed

lemma acquire_all_window:
  assumes "limiter_ok past latest s" "sorted (map snd calls)" "\<forall>(x, u) \<in> set calls. latest \<le> u"
  shows "int (in_window tenant t (past @ fst (acquire_all calls s))) \<le> max 0 (rl_limit s)"
  using assms
proof (induction calls arbitrary: past latest s)
  case Nil
  then show ?case by (simp add: limiter_ok_def)
next
  case (Cons p calls)
  obtain x now where p: "p = (x, now)" by force
  obtain res s' where run: "acquire x now s = (res, s')" by fastforce
  have le: "latest \<le> now" "\<forall>(y, u) \<in> set calls. now \<le> u" "sorted (map snd calls)" using Cons.prems(2,3) p by auto
  note ok = acquire_ok [OF Cons.prems(1) le(1) run]
  show ?case
  proof (cases res)
    case (Inl e)
    with ok have "limiter_ok past now s'" "rl_limit s' = rl_limit s" by auto
    with Cons.IH [OF this(1) le(3,2)] run p Inl show ?thesis by simp
  next
    case (Inr u)
    with ok have "limiter_ok (past @ [(x, now)]) now s'" "rl_limit s' = rl_limit s" by auto
    with Cons.IH [OF this(1) le(3,2)] run p Inr show ?thesis by (cases "acquire_all calls s'") simp
  qed
qed

text \<open>
  C20. The rate limit holds in every window: for any sequence of ingestions with a clock that does not run backwards, of the requests let
  through for one tenant at most the configured number fall into any one minute, wherever that minute lies.
\<close>

theorem rate_limit_every_window:
  assumes "sorted (map snd calls)"
  shows "int (in_window tenant t (fst (acquire_all calls \<lparr>rl_limit = limit, rl_events = []\<rparr>))) \<le> max 0 limit"
proof -
  let ?s = "\<lparr>rl_limit = limit, rl_events = []\<rparr>"
  let ?t0 = "case calls of [] \<Rightarrow> 0 | c # cs \<Rightarrow> snd c"
  have "limiter_ok [] ?t0 ?s" by (auto simp: limiter_ok_def in_window_def intro: exI [of _ "?t0 - minutes 1"])
  moreover have "\<forall>(x, u) \<in> set calls. ?t0 \<le> u" using assms by (cases calls) auto
  ultimately show ?thesis using acquire_all_window [of "[]" ?t0 ?s calls tenant t] assms by simp
qed

section \<open>A new event is published\<close>

text \<open>The fields of a validated event that the inbox copies.\<close>

definition event_fields_ok :: "change_event \<Rightarrow> bool" where
  "event_fields_ok event \<longleftrightarrow> (\<forall>x \<in> {ev_tenant_id event, ev_event_id event, src_type (ev_source event)}. strip x = x \<and> nonempty_str x)"

lemma event_key_nonempty [simp]: "nonempty_str (event_key event)"
proof -
  have "length (event_key event) = 64" unfolding event_key_def sha256_digest_def removeprefix_append by simp
  then show ?thesis by (simp add: nonempty_str_def)
qed

lemma change_id_ok: "strip (derive_change_id event) = derive_change_id event" "nonempty_str (derive_change_id event)"
proof -
  have r: "removeprefix ''sha256:'' (sha256_digest d) = drop 7 (sha256_digest d)" for d
    by (simp add: sha256_digest_def removeprefix_def)
  show "strip (derive_change_id event) = derive_change_id event" "nonempty_str (derive_change_id event)"
    unfolding derive_change_id_def r by (rule digest_id_ok; simp add: is_whitespace_def)+
qed

lemma validate_same: "strip_inbox r = r \<Longrightarrow> inbox_fields_ok r \<Longrightarrow> EventInboxRecord_validate r = Some r"
  by (simp add: EventInboxRecord_validate_def)

lemma new_record_valid:
  assumes "event_fields_ok event"
  shows "EventInboxRecord_validate (new_inbox_record iso_text event (derive_change_id event) now) = Some (new_inbox_record iso_text event (derive_change_id event) now)"
  using assms by (intro validate_same)
    (simp_all add: strip_inbox_def new_inbox_record_def inbox_fields_ok_def event_fields_ok_def change_id_ok strip_digest)

lemma reserved_valid:
  assumes "strip_inbox r = r" "inbox_fields_ok r"
  shows "EventInboxRecord_validate (reserved_record r now) = Some (reserved_record r now)"
proof (rule validate_same)
  show "strip_inbox (reserved_record r now) = reserved_record r now"
    using assms(1) by (cases r) (simp add: strip_inbox_def reserved_record_def)
  show "inbox_fields_ok (reserved_record r now)" using assms(2) by (simp add: inbox_fields_ok_def reserved_record_def)
qed

lemma published_valid:
  assumes "strip_inbox r = r" "inbox_fields_ok r" "strip m = m" "nonempty_str m"
  shows "EventInboxRecord_validate (finished_record r IN_PUBLISHED (Some m) None now) = Some (finished_record r IN_PUBLISHED (Some m) None now)"
proof (rule validate_same)
  show "strip_inbox (finished_record r IN_PUBLISHED (Some m) None now) = finished_record r IN_PUBLISHED (Some m) None now"
    using assms(1,3) by (cases r) (simp add: strip_inbox_def finished_record_def)
  show "inbox_fields_ok (finished_record r IN_PUBLISHED (Some m) None now)"
    using assms(2,4) by (simp add: inbox_fields_ok_def finished_record_def)
qed

definition published_response :: "'x gateway_config \<Rightarrow> change_event \<Rightarrow> accepted_response" where
  "published_response C event = \<lparr>ac_event_id = ev_event_id event, ac_change_id = derive_change_id event, ac_status = IN_PUBLISHED,
     ac_status_url = gc_status_base_url C @ ''/v1/changes/'' @ derive_change_id event, ac_replayed = False\<rparr>"

text \<open>
  A new event gets through: when the tenant is within its limit, the inbox does not know the event and the publisher answers, ingestion
  publishes the event exactly once under its derived change identifier, answers with status published and no replay, and stores
  the message identifier with one attempt.
\<close>

theorem new_event_published:
  assumes "event_fields_ok event" "dget (eg_inbox w) (ev_tenant_id event, event_key event) = None"
    "fst (acquire (ev_tenant_id event) (rq_received rq) (eg_limiter w)) = Inr ()"
    "gc_publish C event (derive_change_id event) (eg_remote w) = (Inr m, x)" "strip m = m" "nonempty_str m"
    "EventAcceptedResponse_validate (published_response C event) = Some a"
  shows "fst (ingest_event C rq event w) = Inr (Accepted a) \<and> eg_remote (snd (ingest_event C rq event w)) = x \<and>
    (\<exists>r. dget (eg_inbox (snd (ingest_event C rq event w))) (ev_tenant_id event, event_key event) = Some r \<and> ib_status r = IN_PUBLISHED \<and>
      ib_pubsub_message_id r = Some m \<and> ib_publish_attempts r = 1 \<and> ib_event r = event)"
proof -
  let ?c = "derive_change_id event" and ?k = "own_key event"
  let ?r0 = "new_inbox_record (gc_iso_text C) event ?c (rq_received rq)"
  let ?r1 = "reserved_record ?r0 (rq_received rq)"
  let ?r2 = "finished_record ?r1 IN_PUBLISHED (Some m) None (rq_finished rq)"
  obtain l where l: "acquire (ev_tenant_id event) (rq_received rq) (eg_limiter w) = (Inr (), l)" using assms(3) by (metis prod.collapse)
  note v0 = new_record_valid [OF assms(1), of "gc_iso_text C" "rq_received rq"]
  have f0: "strip_inbox ?r0 = ?r0" "inbox_fields_ok ?r0" using EventInboxRecord_validate_ok [OF v0] by simp_all
  note v1 = reserved_valid [OF f0, of "rq_received rq"]
  have f1: "strip_inbox ?r1 = ?r1" "inbox_fields_ok ?r1" using EventInboxRecord_validate_ok [OF v1] by simp_all
  note v2 = published_valid [OF f1 assms(5,6), of "rq_finished rq"]
  have key: "ib_event_key ?r0 = event_key event" "ib_event_key ?r1 = event_key event" "ib_status ?r0 = IN_PENDING"
    by (simp_all add: new_inbox_record_def reserved_record_def)
  have acc: "accept (gc_iso_text C) event ?c (rq_received rq) (eg_inbox w) = (Inr \<lparr>ia_record = ?r0, ia_replayed = False\<rparr>, dput ?k ?r0 (eg_inbox w))"
    using assms(2) by (simp add: accept_def bnd_def v0)
  have res: "reserve_publish (ev_tenant_id event) (event_key event) (rq_received rq) (dput ?k ?r0 (eg_inbox w)) = (Inr (Some ?r1), dput ?k ?r1 (eg_inbox w))"
    using v1 key(3) by (simp add: reserve_publish_def bnd_def reserved_record_def)
  have fin: "mark_published (ev_tenant_id event) (event_key event) (ib_version ?r1) m (rq_finished rq) (dput ?k ?r1 (eg_inbox w)) = (Inr ?r2, dput ?k ?r2 (eg_inbox w))"
    using v2 by (simp add: mark_published_def finish_publish_def bnd_def finished_record_def) (simp add: reserved_record_def)
  have st: "ib_status ?r2 = IN_PUBLISHED" "ib_pubsub_message_id ?r2 = Some m" "ib_publish_attempts ?r2 = 1" "ib_event ?r2 = event"
    by (simp_all add: finished_record_def reserved_record_def new_inbox_record_def)
  have "ingest_event C rq event w = (Inr (Accepted a), w\<lparr>eg_limiter := l, eg_inbox := dput ?k ?r2 (eg_inbox w), eg_remote := x\<rparr>)"
    using assms(4,7) key st(1)
    by (simp add: ingest_event_def bnd_def catch_def on_limiter_eq on_inbox_eq l accept_and_publish_def publish_reserved_def call_publish_def
        acc res fin respond_def published_response_def)
  with st show ?thesis by simp
qed

section \<open>Witnesses\<close>

definition sample_event :: change_event where
  "sample_event = \<lparr>ev_event_id = ''e1'', ev_tenant_id = ''t1'', ev_event_type = ''api.contract.changed'',
     ev_source = \<lparr>src_type = ''github'', src_external_id = ''x1'', src_url = ''u''\<rparr>, ev_occurred_at = 0, ev_received_at = 1,
     ev_subject = \<lparr>sub_system_id = ''crm'', sub_resource_type = ''api'', sub_resource_id = ''leads''\<rparr>,
     ev_change = \<lparr>chg_summary = ''rename'', chg_old_version = ''1'', chg_new_version = ''2'', chg_artifact_refs = []\<rparr>,
     ev_correlation_id = ''co1'', ev_trace_id = ''tr1''\<rparr>"

definition sample_config :: "nat gateway_config" where
  "sample_config = \<lparr>gc_iso_text = demo_iso, gc_secret = replicate 32 7, gc_max_request_bytes = 100, gc_status_base_url = ''http://api'',
     gc_parse = (\<lambda>body. Some sample_event), gc_publish = (\<lambda>event c n. (Inr ''m1'', Suc n))\<rparr>"

definition sample_request :: event_request where
  "sample_request = \<lparr>rq_body = [], rq_signature = None, rq_received = 1000, rq_finished = 1001\<rparr>"

definition sample_gateway :: "nat event_gateway" where
  "sample_gateway = \<lparr>eg_limiter = \<lparr>rl_limit = 1, rl_events = []\<rparr>, eg_inbox = [], eg_remote = 0\<rparr>"

lemma sample_fields: "event_fields_ok sample_event"
  by (simp add: event_fields_ok_def sample_event_def nonempty_str_def) code_simp

lemma sample_tenant: "strip (ev_tenant_id sample_event) = ev_tenant_id sample_event"
  using sample_fields by (simp add: event_fields_ok_def)

lemma sample_response: "\<exists>a. EventAcceptedResponse_validate (published_response sample_config sample_event) = Some a"
proof -
  let ?u = "''http://api'' @ ''/v1/changes/'' @ derive_change_id sample_event"
  have "derive_change_id sample_event \<noteq> []" using change_id_ok(2) [of sample_event] by (auto simp: nonempty_str_def)
  have ne: "strip ?u \<noteq> []" using strip_Cons_not_ws [of "CHR ''h''" "tl ?u"] by (auto simp: is_whitespace_def)
  have len: "length (strip z) \<le> length z" for z
    unfolding strip_def by (metis length_dropWhile_le length_rev order_trans)
  have "length (derive_change_id sample_event) \<le> 100"
    by (simp add: derive_change_id_def)
  then have "length (strip ?u) \<le> 512" using len [of ?u] by simp
  with ne have "nonempty_str (strip ?u)" by (cases "strip ?u") (auto simp: nonempty_str_def)
  moreover have "strip (ev_event_id sample_event) = ev_event_id sample_event" "nonempty_str (ev_event_id sample_event)"
    using sample_fields by (simp_all add: event_fields_ok_def)
  ultimately show ?thesis
    by (simp add: EventAcceptedResponse_validate_def published_response_def Let_def change_id_ok sample_config_def)
qed

theorem new_event_published_witness:
  "eg_remote (snd (ingest_event sample_config sample_request sample_event sample_gateway)) = 1 \<and>
   (\<exists>r. dget (eg_inbox (snd (ingest_event sample_config sample_request sample_event sample_gateway)))
      (ev_tenant_id sample_event, event_key sample_event) = Some r \<and> ib_status r = IN_PUBLISHED)"
proof -
  obtain a where a: "EventAcceptedResponse_validate (published_response sample_config sample_event) = Some a" using sample_response by blast
  have "dget (eg_inbox sample_gateway) (ev_tenant_id sample_event, event_key sample_event) = None"
    "fst (acquire (ev_tenant_id sample_event) (rq_received sample_request) (eg_limiter sample_gateway)) = Inr ()"
    "gc_publish sample_config sample_event (derive_change_id sample_event) (eg_remote sample_gateway) = (Inr ''m1'', 1)"
    by (simp_all add: sample_gateway_def acquire_def sample_config_def)
  moreover have "strip ''m1'' = ''m1''" "nonempty_str ''m1''" by code_simp+
  ultimately show ?thesis using new_event_published [OF sample_fields _ _ _ _ _ a] by blast
qed

theorem rate_limit_every_window_witness:
  "int (in_window ''t1'' 5 (fst (acquire_all [(''t1'', 0), (''t1'', 4)] \<lparr>rl_limit = 1, rl_events = []\<rparr>))) \<le> 1"
  using rate_limit_every_window [of "[(''t1'', 0), (''t1'', 4)]" "''t1''" 5 1] by simp

theorem published_only_under_reservation_witness:
  "inbox_inv demo_iso (eg_inbox (snd (ingest_event sample_config sample_request sample_event sample_gateway)))"
proof -
  have "inbox_inv (gc_iso_text sample_config) (eg_inbox sample_gateway)" by (simp add: inbox_inv_def sample_gateway_def)
  from published_only_under_reservation [OF this sample_tenant] show ?thesis by (simp add: sample_config_def)
qed

text \<open>An inbox in which the sample event is published already, reached by the repository's own operations.\<close>

definition sample_record :: inbox_record where
  "sample_record = finished_record (reserved_record (new_inbox_record demo_iso sample_event (derive_change_id sample_event) 0) 0)
     IN_PUBLISHED (Some ''m1'') None 1"

definition sample_inbox :: inbox where
  "sample_inbox = dput (ev_tenant_id sample_event, event_key sample_event) sample_record []"

definition sample_reserved :: inbox_record where
  "sample_reserved = reserved_record (new_inbox_record demo_iso sample_event (derive_change_id sample_event) 0) 0"

lemma sample_calls:
  "accept demo_iso sample_event (derive_change_id sample_event) 0 [] =
     (Inr \<lparr>ia_record = new_inbox_record demo_iso sample_event (derive_change_id sample_event) 0, ia_replayed = False\<rparr>,
      dput (own_key sample_event) (new_inbox_record demo_iso sample_event (derive_change_id sample_event) 0) [])"
  "reserve_publish (ev_tenant_id sample_event) (event_key sample_event) 0
     (dput (own_key sample_event) (new_inbox_record demo_iso sample_event (derive_change_id sample_event) 0) []) =
     (Inr (Some sample_reserved), dput (own_key sample_event) sample_reserved [])"
  "mark_published (ev_tenant_id sample_event) (event_key sample_event) 2 ''m1'' 1 (dput (own_key sample_event) sample_reserved []) =
     (Inr sample_record, sample_inbox)"
  "ib_version sample_reserved = 2"
proof -
  let ?r0 = "new_inbox_record demo_iso sample_event (derive_change_id sample_event) 0"
  note v0 = new_record_valid [OF sample_fields, of demo_iso 0]
  have f0: "strip_inbox ?r0 = ?r0" "inbox_fields_ok ?r0" using EventInboxRecord_validate_ok [OF v0] by simp_all
  have v1: "EventInboxRecord_validate (reserved_record ?r0 0) = Some sample_reserved" unfolding sample_reserved_def by (rule reserved_valid [OF f0])
  then have f1: "strip_inbox sample_reserved = sample_reserved" "inbox_fields_ok sample_reserved"
    using EventInboxRecord_validate_ok [OF v1] by (simp_all add: sample_reserved_def)
  have m: "strip ''m1'' = ''m1''" "nonempty_str ''m1''" by code_simp+
  note v2 = published_valid [OF f1 m, of 1]
  have r1: "ib_version sample_reserved = 2" "ib_status sample_reserved = IN_PUBLISHING" "ib_status ?r0 = IN_PENDING"
    by (simp_all add: sample_reserved_def reserved_record_def new_inbox_record_def)
  show "accept demo_iso sample_event (derive_change_id sample_event) 0 [] = (Inr \<lparr>ia_record = ?r0, ia_replayed = False\<rparr>, dput (own_key sample_event) ?r0 [])"
    by (simp add: accept_def bnd_def v0)
  show "reserve_publish (ev_tenant_id sample_event) (event_key sample_event) 0 (dput (own_key sample_event) ?r0 []) =
     (Inr (Some sample_reserved), dput (own_key sample_event) sample_reserved [])"
    using v1 r1(3) by (simp add: reserve_publish_def bnd_def reserved_record_def)
  show "mark_published (ev_tenant_id sample_event) (event_key sample_event) 2 ''m1'' 1 (dput (own_key sample_event) sample_reserved []) =
     (Inr sample_record, sample_inbox)"
    using v2 r1(1,2) by (simp add: mark_published_def finish_publish_def bnd_def sample_record_def sample_inbox_def finished_record_def sample_reserved_def)
  show "ib_version sample_reserved = 2" by (rule r1(1))
qed

lemma sample_inbox_reached: "(inbox_step demo_iso)\<^sup>*\<^sup>* [] sample_inbox"
  using accepting [OF sample_tenant sample_calls(1)] reserving [OF sample_calls(2), of demo_iso] publishing [OF sample_calls(3), of demo_iso]
  by (blast intro: converse_rtranclp_into_rtranclp)

theorem inbox_history_sound_witness:
  "inbox_record_ok demo_iso (ev_tenant_id sample_event, event_key sample_event) sample_record"
proof -
  have "dget sample_inbox (ev_tenant_id sample_event, event_key sample_event) = Some sample_record" by (simp add: sample_inbox_def)
  from inbox_history_sound [OF sample_inbox_reached _ this, of sample_inbox] show ?thesis by blast
qed

theorem duplicate_not_republished_witness:
  "eg_remote (snd (ingest_event sample_config sample_request sample_event (sample_gateway\<lparr>eg_inbox := sample_inbox\<rparr>))) = 0"
proof -
  have "dget (eg_inbox (sample_gateway\<lparr>eg_inbox := sample_inbox\<rparr>)) (ev_tenant_id sample_event, event_key sample_event) = Some sample_record"
    "ib_status sample_record = IN_PUBLISHED" "ib_input_hash sample_record = sha256_digest (event_json (gc_iso_text sample_config) sample_event)"
    by (simp_all add: sample_inbox_def sample_record_def finished_record_def reserved_record_def new_inbox_record_def sample_config_def)
  from duplicate_not_republished [OF this, of sample_request] show ?thesis by (simp add: sample_gateway_def)
qed

theorem published_at_most_once_witness:
  "sends (own_key sample_event) [(own_key sample_event, Accept), (own_key sample_event, Grant 0 0 2), (own_key sample_event, Settle 2 True)] = 1 \<and>
   runs (inbox_action demo_iso) [(own_key sample_event, Accept), (own_key sample_event, Grant 0 0 2), (own_key sample_event, Settle 2 True)] [] sample_inbox"
  (is "sends ?k ?acts = 1 \<and> ?run")
proof -
  have "inbox_action demo_iso ?k Accept [] (dput ?k (new_inbox_record demo_iso sample_event (derive_change_id sample_event) 0) [])"
    unfolding inbox_action_def outbox_action.case using sample_calls(1) by blast
  moreover have "inbox_action demo_iso ?k (Grant 0 0 2) (dput ?k (new_inbox_record demo_iso sample_event (derive_change_id sample_event) 0) [])
      (dput ?k sample_reserved [])"
    using sample_calls(2,4) by (auto simp: inbox_action_def)
  moreover have "inbox_action demo_iso ?k (Settle 2 True) (dput ?k sample_reserved []) sample_inbox"
    using sample_calls(3) by (auto simp: inbox_action_def)
  ultimately have run: ?run by (auto simp only: runs.simps)
  from published_at_most_once [OF run, of ?k] show ?thesis using run by (simp add: outbox_def outbox_of_def)
qed

end
