(* ===== verification/Python_Text.thy ===== *)
theory Python_Text
  imports Canonical_Json
begin

text \<open>
  Text operations of Python that the agent fleet and the service clients use: splitting on whitespace, the last split at a separator, substring
  tests, lower case, case folding, compatibility normalisation and \<^verbatim>\<open>repr\<close>. Characters are the code points below 256; a code point above it that a normalisation
  produces is kept as one fixed character that is neither ASCII nor whitespace, so that tests for ASCII text come out as in Python.
\<close>

section \<open>Splitting and searching\<close>

lemma dropWhile_shorter:
  assumes "dropWhile (\<lambda>c. \<not> P c) s = c # t"
  shows "length (dropWhile P t) < length s"
proof -
  have "length (dropWhile P t) \<le> length t" by (rule length_dropWhile_le)
  also have "length t < length s" using length_dropWhile_le [of "\<lambda>c. \<not> P c" s] assms by simp
  finally show ?thesis .
qed

text \<open>The maximal runs of characters that satisfy a test.\<close>

function char_runs :: "(char \<Rightarrow> bool) \<Rightarrow> string \<Rightarrow> string list" where
  "char_runs P s = (case dropWhile (\<lambda>c. \<not> P c) s of
     [] \<Rightarrow> []
   | c # t \<Rightarrow> (c # takeWhile P t) # char_runs P (dropWhile P t))"
  by pat_completeness auto

termination
  by (relation "measure (\<lambda>(P, s). length s)") (simp_all add: dropWhile_shorter)

declare char_runs.simps [simp del]

text \<open>\<^verbatim>\<open>str.split()\<close>.\<close>

definition text_words :: "string \<Rightarrow> string list" where
  "text_words s = char_runs (\<lambda>c. \<not> is_py_space c) s"

fun join_with :: "string \<Rightarrow> string list \<Rightarrow> string" where
  "join_with sep [] = []"
| "join_with sep [x] = x"
| "join_with sep (x # y # xs) = x @ sep @ join_with sep (y # xs)"

fun contains_text :: "string \<Rightarrow> string \<Rightarrow> bool" where
  "contains_text needle [] \<longleftrightarrow> needle = []"
| "contains_text needle (c # s) \<longleftrightarrow> prefix needle (c # s) \<or> contains_text needle s"

text \<open>\<^verbatim>\<open>s.rsplit(sep, maxsplit=1)\<close> when the separator occurs.\<close>

fun rsplit_once :: "string \<Rightarrow> string \<Rightarrow> (string \<times> string) option" where
  "rsplit_once sep [] = None"
| "rsplit_once sep (c # s) = (case rsplit_once sep s of
     Some (before, after) \<Rightarrow> Some (c # before, after)
   | None \<Rightarrow> if prefix sep (c # s) then Some ([], drop (length sep) (c # s)) else None)"

definition after_last :: "string \<Rightarrow> string \<Rightarrow> string" where
  "after_last sep s = (case rsplit_once sep s of None \<Rightarrow> s | Some (before, after) \<Rightarrow> after)"

definition strip_chars :: "string \<Rightarrow> string \<Rightarrow> string" where
  "strip_chars cs s = rev (dropWhile (\<lambda>c. c \<in> set cs) (rev (dropWhile (\<lambda>c. c \<in> set cs) s)))"

definition rstrip_chars :: "string \<Rightarrow> string \<Rightarrow> string" where
  "rstrip_chars cs s = rev (dropWhile (\<lambda>c. c \<in> set cs) (rev s))"

lemma contains_text_iff: "contains_text needle s \<longleftrightarrow> (\<exists>a b. s = a @ needle @ b)"
proof (induction s)
  case (Cons c s)
  note IH = Cons.IH
  show ?case
  proof
    assume "contains_text needle (c # s)"
    then consider b where "c # s = needle @ b" | a b where "s = a @ needle @ b" using IH by (auto simp: prefix_def)
    then show "\<exists>a b. c # s = a @ needle @ b"
    proof cases
      case (1 b)
      then show ?thesis by (metis append_Nil)
    next
      case (2 a b)
      then show ?thesis by (metis append_Cons)
    qed
  next
    assume "\<exists>a b. c # s = a @ needle @ b"
    then obtain a b where ab: "c # s = a @ needle @ b" by blast
    show "contains_text needle (c # s)"
    proof (cases a)
      case Nil
      then have "prefix needle (c # s)" using ab by (simp add: prefix_def)
      then show ?thesis by simp
    next
      case (Cons d a')
      then have "s = a' @ needle @ b" using ab by simp
      then show ?thesis using IH by auto
    qed
  qed
qed simp

lemma rsplit_once_Some: "rsplit_once sep s = Some (before, after) \<Longrightarrow> s = before @ sep @ after"
  by (induction s arbitrary: before) (auto simp: prefix_def split: option.splits if_splits)

lemma rsplit_once_iff: "sep \<noteq> [] \<Longrightarrow> rsplit_once sep s \<noteq> None \<longleftrightarrow> contains_text sep s"
  by (induction s) (auto split: option.splits)

lemma char_runs_Nil: "char_runs P s = [] \<longleftrightarrow> list_all (\<lambda>c. \<not> P c) s"
proof (cases "dropWhile (\<lambda>c. \<not> P c) s")
  case Nil
  then have "char_runs P s = []" by (subst char_runs.simps) (simp only: list.case)
  with Nil show ?thesis by (simp add: list_all_iff)
next
  case (Cons c t)
  then have "char_runs P s \<noteq> []" by (subst char_runs.simps) (simp only: list.case, simp)
  moreover have "\<not> list_all (\<lambda>c. \<not> P c) s" using Cons by (metis dropWhile_eq_Nil_conv list.distinct(1) list_all_iff)
  ultimately show ?thesis by simp
qed

lemma text_words_Nil: "text_words s = [] \<longleftrightarrow> list_all is_py_space s"
  by (simp add: text_words_def char_runs_Nil)

section \<open>Case folding and normalisation\<close>

text \<open>\<^verbatim>\<open>str.lower\<close> on the code points up to U+00FF.\<close>

definition lower_char :: "char \<Rightarrow> char" where
  "lower_char c = (let n = of_char c :: nat in
     if is_upper c \<or> 192 \<le> n \<and> n \<le> 222 \<and> n \<noteq> 215 then char_of (n + 32) else c)"

definition lower :: "string \<Rightarrow> string" where
  "lower s = map lower_char s"

text \<open>\<^verbatim>\<open>str.isalnum\<close> on a code point below 256: ASCII, the Latin-1 letters, and its superscript and fraction numerals.\<close>

definition py_isalnum :: "char \<Rightarrow> bool" where
  "py_isalnum c \<longleftrightarrow> is_alnum c \<or> (let n = of_char c :: nat in
     n \<in> {170, 178, 179, 181, 185, 186, 188, 189, 190} \<or> 192 \<le> n \<and> n \<noteq> 215 \<and> n \<noteq> 247)"

text \<open>\<^verbatim>\<open>str.casefold\<close> on one code point: capital letters, and the sharp s as two letters.\<close>

definition fold_char :: "char \<Rightarrow> string" where
  "fold_char c = (let n = of_char c :: nat in
     if 65 \<le> n \<and> n \<le> 90 \<or> 192 \<le> n \<and> n \<le> 222 \<and> n \<noteq> 215 then [char_of (n + 32)]
     else if n = 223 then ''ss'' else [c])"

definition casefold :: "string \<Rightarrow> string" where
  "casefold s = concat (map fold_char s)"

definition beyond_latin :: char where
  "beyond_latin = char_of (129 :: nat)"

text \<open>\<^verbatim>\<open>unicodedata.normalize("NFKC", s)\<close> on one code point below 256; accented letters are composed already.\<close>

definition nfkc_char :: "char \<Rightarrow> string" where
  "nfkc_char c = (let n = of_char c :: nat in
     if n = 160 then '' ''
     else if n \<in> {168, 175, 180, 184} then [CHR '' '', beyond_latin]
     else if n = 170 then ''a'' else if n = 186 then ''o''
     else if n = 178 then ''2'' else if n = 179 then ''3'' else if n = 185 then ''1''
     else if n = 181 then [beyond_latin]
     else if n = 188 then ''1'' @ [beyond_latin] @ ''4''
     else if n = 189 then ''1'' @ [beyond_latin] @ ''2''
     else if n = 190 then ''3'' @ [beyond_latin] @ ''4''
     else [c])"

definition nfkc :: "string \<Rightarrow> string" where
  "nfkc s = concat (map nfkc_char s)"

section \<open>Representations\<close>

text \<open>\<^verbatim>\<open>repr\<close> of a string: double quotes only if it has a single quote and no double quote; control and invisible characters escaped.\<close>

definition repr_char :: "char \<Rightarrow> char \<Rightarrow> string" where
  "repr_char q c = (let n = of_char c :: nat; bs = CHR 0x5C in
     if c = q \<or> n = 92 then [bs, c]
     else if n = 9 then [bs, CHR ''t'']
     else if n = 10 then [bs, CHR ''n'']
     else if n = 13 then [bs, CHR ''r'']
     else if n < 32 \<or> 127 \<le> n \<and> n \<le> 160 \<or> n = 173 then bs # CHR ''x'' # byte_hex n
     else [c])"

definition repr_string :: "string \<Rightarrow> string" where
  "repr_string s = (let q = (if CHR 0x27 \<in> set s \<and> CHR 0x22 \<notin> set s then CHR 0x22 else CHR 0x27) in
     q # concat (map (repr_char q) s) @ [q])"

end
