(* ===== verification/Admission.thy ===== *)
theory Admission
  imports Contracts Python_Text
begin

text \<open>
  Enterprise admission of \<^verbatim>\<open>services/control-api/.../admission\<close>: records and field patterns (\<^verbatim>\<open>models.py\<close>), the transactional document
  store (\<^verbatim>\<open>store.py\<close>), the admission service (\<^verbatim>\<open>service.py\<close>), the reading of provider claims (\<^verbatim>\<open>identity.py\<close>) and the routes that
  authenticate and dispatch (\<^verbatim>\<open>routes.py\<close>).

  A stored document is the dump of one of the models; reading it back validates it as the model the caller names, which fails for the
  dump of any other model because required fields are missing or extra ones forbidden. The clock, the random identifiers and the
  invitation token that an operation reads are its \<^verbatim>\<open>readings\<close>.
\<close>

section \<open>Errors\<close>

datatype admission_error =
    AccessDenied
  | AlreadyBootstrapped
  | VersionConflict
  | InvalidIdentifier
  | SessionRequired
  | SessionInvalid
  | IdentityRejected
  | IdentityUnavailable
  | RecentLoginRequired
  | AdmissionValidation
  | DocumentKeyError
  | ClaimTypeError

fun admission_status_code :: "admission_error \<Rightarrow> nat" where
  "admission_status_code AccessDenied = 403"
| "admission_status_code AlreadyBootstrapped = 409"
| "admission_status_code VersionConflict = 409"
| "admission_status_code InvalidIdentifier = 422"
| "admission_status_code SessionRequired = 401"
| "admission_status_code SessionInvalid = 401"
| "admission_status_code IdentityRejected = 401"
| "admission_status_code IdentityUnavailable = 503"
| "admission_status_code RecentLoginRequired = 401"
| "admission_status_code _ = 500"

section \<open>Records\<close>

text \<open>The pattern \<^verbatim>\<open>^[A-Za-z0-9][A-Za-z0-9_-]{0,127}$\<close>.\<close>

definition identifier_char :: "char \<Rightarrow> bool" where
  "identifier_char c \<longleftrightarrow> is_alnum c \<or> c = CHR ''_'' \<or> c = CHR ''-''"

definition is_identifier :: "string \<Rightarrow> bool" where
  "is_identifier s \<longleftrightarrow> s \<noteq> [] \<and> is_alnum (hd s) \<and> list_all identifier_char s \<and> length s \<le> 128"

text \<open>
  The pattern \<^verbatim>\<open>^[^\s@]+@[^\s@]+\.[^\s@]+$\<close> with a length of 3 to 254: one at sign, no white space, something before the at sign and
  after it a dot that is neither first nor last.
\<close>

definition is_email :: "string \<Rightarrow> bool" where
  "is_email s \<longleftrightarrow>
    (let before = takeWhile (\<lambda>c. c \<noteq> CHR ''@'') s; rest = dropWhile (\<lambda>c. c \<noteq> CHR ''@'') s; domain = tl rest in
     3 \<le> length s \<and> length s \<le> 254 \<and> list_all (\<lambda>c. \<not> is_whitespace c) s \<and> before \<noteq> [] \<and> rest \<noteq> [] \<and>
     CHR ''@'' \<notin> set domain \<and> CHR ''.'' \<in> set (butlast (tl domain)))"

datatype role = Organization_admin | Requester | Approver | Auditor

record identity =
  id_subject :: string
  id_email :: string
  id_mfa :: bool

definition Identity_validate :: "identity \<Rightarrow> identity option" where
  "Identity_validate i = (let i' = i\<lparr>id_subject := strip (id_subject i), id_email := strip (id_email i)\<rparr> in
     if 1 \<le> length (id_subject i') \<and> length (id_subject i') \<le> 128 \<and> is_email (id_email i') then Some i' else None)"

record user =
  us_subject :: string
  us_active :: bool
  us_platform_admin :: bool
  us_owner :: bool
  us_organization_ids :: "string list"
  us_version :: int

definition User_validate :: "user \<Rightarrow> user option" where
  "User_validate u = (let u' = u\<lparr>us_subject := strip (us_subject u), us_organization_ids := map strip (us_organization_ids u)\<rparr> in
     if list_all is_identifier (us_organization_ids u') \<and> length (us_organization_ids u') \<le> 50 \<and> 1 \<le> us_version u' then Some u' else None)"

record organization =
  og_organization_id :: string
  og_name :: string
  og_active :: bool
  og_version :: int

definition Organization_validate :: "organization \<Rightarrow> organization option" where
  "Organization_validate g = (let g' = g\<lparr>og_organization_id := strip (og_organization_id g), og_name := strip (og_name g)\<rparr> in
     if is_identifier (og_organization_id g') \<and> 2 \<le> length (og_name g') \<and> length (og_name g') \<le> 120 \<and> 1 \<le> og_version g'
     then Some g' else None)"

record membership =
  mb_subject :: string
  mb_organization_id :: string
  mb_role :: role
  mb_active :: bool
  mb_version :: int

definition Membership_validate :: "membership \<Rightarrow> membership option" where
  "Membership_validate m = (let m' = m\<lparr>mb_subject := strip (mb_subject m), mb_organization_id := strip (mb_organization_id m)\<rparr> in
     if is_identifier (mb_organization_id m') \<and> 1 \<le> mb_version m' then Some m' else None)"

record invitation =
  iv_invitation_id :: string
  iv_email :: string
  iv_organization_id :: string
  iv_role :: role
  iv_invited_by :: string
  iv_expires_at :: instant
  iv_redeemed_by :: "string option"
  iv_revoked :: bool
  iv_version :: int

definition Invitation_validate :: "invitation \<Rightarrow> invitation option" where
  "Invitation_validate i =
    (let i' = i\<lparr>iv_invitation_id := strip (iv_invitation_id i), iv_email := strip (iv_email i),
           iv_organization_id := strip (iv_organization_id i), iv_invited_by := strip (iv_invited_by i),
           iv_redeemed_by := map_option strip (iv_redeemed_by i)\<rparr> in
     if is_identifier (iv_invitation_id i') \<and> is_email (iv_email i') \<and> is_identifier (iv_organization_id i') \<and> 1 \<le> iv_version i'
     then Some i' else None)"

record invitation_create =
  ic_email :: string
  ic_organization_id :: string
  ic_role :: role

record status_update =
  su_active :: bool
  su_expected_version :: int

record membership_update = status_update +
  mu_role :: role

record workspace_entry =
  wk_organization :: organization
  wk_membership :: membership

record access_view =
  av_subject :: string
  av_email :: string
  av_platform_admin :: bool
  av_owner :: bool
  av_status :: string
  av_workspaces :: "workspace_entry list"

record admission_audit =
  au_event_id :: string
  au_actor :: string
  au_action :: string
  au_resource_id :: string
  au_occurred_at :: instant

definition AdmissionAudit_validate :: "admission_audit \<Rightarrow> admission_audit option" where
  "AdmissionAudit_validate a =
    (let a' = a\<lparr>au_event_id := strip (au_event_id a), au_actor := strip (au_actor a), au_action := strip (au_action a),
           au_resource_id := strip (au_resource_id a)\<rparr> in
     if is_identifier (au_event_id a') then Some a' else None)"

section \<open>The document store\<close>

text \<open>\<^verbatim>\<open>Doc_other\<close> is a document with a version that none of the models accepts.\<close>

datatype document =
    Doc_user user
  | Doc_organization organization
  | Doc_membership membership
  | Doc_invitation invitation
  | Doc_audit admission_audit
  | Doc_bootstrap string int
  | Doc_other int

fun as_user :: "document \<Rightarrow> user option" where
  "as_user (Doc_user u) = User_validate u"
| "as_user _ = None"

fun as_organization :: "document \<Rightarrow> organization option" where
  "as_organization (Doc_organization g) = Organization_validate g"
| "as_organization _ = None"

fun as_membership :: "document \<Rightarrow> membership option" where
  "as_membership (Doc_membership m) = Membership_validate m"
| "as_membership _ = None"

fun as_invitation :: "document \<Rightarrow> invitation option" where
  "as_invitation (Doc_invitation i) = Invitation_validate i"
| "as_invitation _ = None"

text \<open>\<^verbatim>\<open>document["version"]\<close> and \<^verbatim>\<open>{**document, "active": a, "version": v}\<close> on the raw dictionary.\<close>

fun document_version :: "document \<Rightarrow> int option" where
  "document_version (Doc_user u) = Some (us_version u)"
| "document_version (Doc_organization g) = Some (og_version g)"
| "document_version (Doc_membership m) = Some (mb_version m)"
| "document_version (Doc_invitation i) = Some (iv_version i)"
| "document_version (Doc_audit a) = None"
| "document_version (Doc_bootstrap s v) = None"
| "document_version (Doc_other v) = Some v"

fun document_activate :: "bool \<Rightarrow> int \<Rightarrow> document \<Rightarrow> document" where
  "document_activate a v (Doc_user u) = Doc_user (u\<lparr>us_active := a, us_version := v\<rparr>)"
| "document_activate a v (Doc_organization g) = Doc_organization (g\<lparr>og_active := a, og_version := v\<rparr>)"
| "document_activate a v (Doc_membership m) = Doc_membership (m\<lparr>mb_active := a, mb_version := v\<rparr>)"
| "document_activate a v _ = Doc_other v"

type_synonym documents = "(string, document) dict"
type_synonym 'a admission_op = "(documents, admission_error, 'a) op"

definition tx_get :: "string \<Rightarrow> document option admission_op" where
  "tx_get path s = (Inr (dget s path), s)"

definition tx_put :: "string \<Rightarrow> document \<Rightarrow> unit admission_op" where
  "tx_put path document s = (Inr (), dput path document s)"

text \<open>The operation runs on a copy of the documents, which replaces them only when it returns.\<close>

definition transact :: "'a admission_op \<Rightarrow> 'a admission_op" where
  "transact operation s = (case operation s of (Inl e, _) \<Rightarrow> (Inl e, s) | (Inr x, s') \<Rightarrow> (Inr x, s'))"

definition store_list :: "string \<Rightarrow> string \<Rightarrow> int \<Rightarrow> documents \<Rightarrow> (string \<times> document) list" where
  "store_list collection after limit s =
    (let pre = collection @ ''/'' in
     slice_to limit (map (\<lambda>(path, d). (removeprefix pre path, d))
       (filter (\<lambda>(path, d). prefix pre path \<and> CHR ''/'' \<notin> set (removeprefix pre path) \<and> after < removeprefix pre path)
         (sort_key fst s))))"

definition list_store :: "string \<Rightarrow> string \<Rightarrow> (string \<times> document) list admission_op" where
  "list_store collection after s = (Inr (store_list collection after 50 s), s)"

section \<open>The admission service\<close>

definition user_key :: "string \<Rightarrow> string" where
  "user_key subject = sha256_hex (utf8_encode subject)"

text \<open>The paths of the documents; \<^verbatim>\<open>key\<close>, \<^verbatim>\<open>digest\<close> and \<^verbatim>\<open>event_id\<close> are the last segments.\<close>

definition users_path :: "string \<Rightarrow> string" where
  "users_path key = ''admission_users/'' @ key"

definition organization_path :: "string \<Rightarrow> string" where
  "organization_path organization_id = ''admission_organizations/'' @ organization_id"

definition members_path :: "string \<Rightarrow> string \<Rightarrow> string" where
  "members_path organization_id key = ''admission_organizations/'' @ organization_id @ ''/members/'' @ key"

definition invitations_path :: "string \<Rightarrow> string" where
  "invitations_path digest = ''admission_invitations/'' @ digest"

definition audit_path :: "string \<Rightarrow> string" where
  "audit_path event_id = ''admission_audit/'' @ event_id"

definition user_path :: "string \<Rightarrow> string" where
  "user_path subject = users_path (user_key subject)"

definition member_path :: "string \<Rightarrow> string \<Rightarrow> string" where
  "member_path organization_id subject = members_path organization_id (user_key subject)"

definition invitation_path :: "string \<Rightarrow> string" where
  "invitation_path token = invitations_path (sha256_hex (utf8_encode token))"

definition bootstrap_path :: string where
  "bootstrap_path = ''admission_metadata/bootstrap''"

record readings =
  rd_now :: instant
  rd_audit_time :: instant
  rd_uuid :: string
  rd_audit_uuid :: string
  rd_token :: string

definition read_user :: "string \<Rightarrow> user option admission_op" where
  "read_user subject = bnd (tx_get (user_path subject)) (\<lambda>document. case document of
     None \<Rightarrow> ret None
   | Some d \<Rightarrow> bnd (validated AdmissionValidation (as_user d)) (\<lambda>u. ret (Some u)))"

definition require_admin :: "identity \<Rightarrow> user admission_op" where
  "require_admin i = bnd (read_user (id_subject i)) (\<lambda>u. case u of
     None \<Rightarrow> raise AccessDenied
   | Some user \<Rightarrow> if \<not> us_active user \<or> \<not> us_platform_admin user \<or> \<not> id_mfa i then raise AccessDenied else ret user)"

definition audit :: "readings \<Rightarrow> string \<Rightarrow> string \<Rightarrow> string \<Rightarrow> unit admission_op" where
  "audit rd actor action resource_id =
     bnd (validated AdmissionValidation (AdmissionAudit_validate \<lparr>au_event_id = ''access_'' @ rd_audit_uuid rd, au_actor = actor,
       au_action = action, au_resource_id = resource_id, au_occurred_at = rd_audit_time rd\<rparr>)) (\<lambda>event.
     tx_put (audit_path (au_event_id event)) (Doc_audit event))"

definition new_user :: "string \<Rightarrow> user" where
  "new_user subject = \<lparr>us_subject = subject, us_active = True, us_platform_admin = False, us_owner = False,
     us_organization_ids = [], us_version = 1\<rparr>"

definition bootstrap_owner :: "readings \<Rightarrow> string \<Rightarrow> unit admission_op" where
  "bootstrap_owner rd subject = transact (
     bnd (tx_get bootstrap_path) (\<lambda>marker.
     if marker \<noteq> None then raise AlreadyBootstrapped
     else bnd (read_user subject) (\<lambda>existing.
     if existing \<noteq> None then raise AlreadyBootstrapped
     else bnd (validated AdmissionValidation (User_validate ((new_user subject)\<lparr>us_owner := True, us_platform_admin := True\<rparr>))) (\<lambda>user.
       bnd (tx_put (user_path subject) (Doc_user user)) (\<lambda>_.
       bnd (tx_put bootstrap_path (Doc_bootstrap subject 1)) (\<lambda>_.
       audit rd subject ''owner_bootstrapped'' (user_key subject)))))))"

fun collect_workspaces :: "identity \<Rightarrow> string list \<Rightarrow> workspace_entry list admission_op" where
  "collect_workspaces i [] = ret []"
| "collect_workspaces i (organization_id # rest) =
     bnd (tx_get (organization_path organization_id)) (\<lambda>org.
     bnd (tx_get (member_path organization_id (id_subject i))) (\<lambda>member.
     bnd (case (org, member) of
         (Some og, Some mb) \<Rightarrow>
           bnd (validated AdmissionValidation (as_organization og)) (\<lambda>organization.
           bnd (validated AdmissionValidation (as_membership mb)) (\<lambda>membership.
           ret (if og_active organization \<and> mb_active membership
             then [\<lparr>wk_organization = organization, wk_membership = membership\<rparr>] else [])))
       | _ \<Rightarrow> ret []) (\<lambda>found.
     bnd (collect_workspaces i rest) (\<lambda>others. ret (found @ others)))))"

definition access_view_of :: "identity \<Rightarrow> user option \<Rightarrow> workspace_entry list \<Rightarrow> access_view" where
  "access_view_of i u workspaces =
    (let admin = (case u of None \<Rightarrow> False | Some user \<Rightarrow> us_active user \<and> us_platform_admin user \<and> id_mfa i);
         base = (if workspaces \<noteq> [] \<or> admin then ''active'' else ''not_admitted'');
         status = (case u of None \<Rightarrow> base | Some user \<Rightarrow>
           if \<not> us_active user then ''suspended''
           else if us_platform_admin user \<and> \<not> id_mfa i then ''mfa_required'' else base) in
     \<lparr>av_subject = strip (id_subject i), av_email = strip (id_email i), av_platform_admin = admin,
      av_owner = (admin \<and> (case u of None \<Rightarrow> False | Some user \<Rightarrow> us_owner user)), av_status = status, av_workspaces = workspaces\<rparr>)"

definition access :: "identity \<Rightarrow> access_view admission_op" where
  "access i = transact (
     bnd (read_user (id_subject i)) (\<lambda>u.
     bnd (case u of
         Some user \<Rightarrow> if us_active user then collect_workspaces i (us_organization_ids user) else ret []
       | None \<Rightarrow> ret []) (\<lambda>workspaces.
     ret (access_view_of i u workspaces))))"

definition workspace :: "identity \<Rightarrow> string \<Rightarrow> workspace_entry admission_op" where
  "workspace i organization_id = bnd (access i) (\<lambda>view.
     case find (\<lambda>w. og_organization_id (wk_organization w) = organization_id) (av_workspaces view) of
       None \<Rightarrow> raise AccessDenied
     | Some w \<Rightarrow> ret w)"

definition create_organization :: "readings \<Rightarrow> identity \<Rightarrow> string \<Rightarrow> organization admission_op" where
  "create_organization rd i name =
     bnd (validated AdmissionValidation (Organization_validate \<lparr>og_organization_id = ''org_'' @ rd_uuid rd, og_name = name,
       og_active = True, og_version = 1\<rparr>)) (\<lambda>organization.
     transact (
       bnd (require_admin i) (\<lambda>_.
       bnd (tx_put (organization_path (og_organization_id organization)) (Doc_organization organization)) (\<lambda>_.
       bnd (audit rd (id_subject i) ''organization_created'' (og_organization_id organization)) (\<lambda>_.
       ret organization)))))"

definition invite :: "readings \<Rightarrow> identity \<Rightarrow> invitation_create \<Rightarrow> (invitation \<times> string) admission_op" where
  "invite rd i request =
     bnd (validated AdmissionValidation (Invitation_validate \<lparr>iv_invitation_id = ''invite_'' @ rd_uuid rd, iv_email = lower (ic_email request),
       iv_organization_id = ic_organization_id request, iv_role = ic_role request, iv_invited_by = id_subject i,
       iv_expires_at = rd_now rd + hours 24, iv_redeemed_by = None, iv_revoked = False, iv_version = 1\<rparr>)) (\<lambda>invitation.
     bnd (transact (
       bnd (require_admin i) (\<lambda>_.
       bnd (tx_get (organization_path (ic_organization_id request))) (\<lambda>document. case document of
         None \<Rightarrow> raise AccessDenied
       | Some d \<Rightarrow>
           bnd (validated AdmissionValidation (as_organization d)) (\<lambda>organization.
           if \<not> og_active organization then raise AccessDenied
           else bnd (tx_put (invitation_path (rd_token rd)) (Doc_invitation invitation)) (\<lambda>_.
             audit rd (id_subject i) ''invitation_created'' (iv_invitation_id invitation))))))) (\<lambda>_.
     ret (invitation, rd_token rd)))"

text \<open>The writes of a redemption that has passed its checks.\<close>

definition admit :: "readings \<Rightarrow> identity \<Rightarrow> string \<Rightarrow> invitation \<Rightarrow> user option \<Rightarrow> unit admission_op" where
  "admit rd i path invitation u =
    (let user = (case u of None \<Rightarrow> User_validate (new_user (id_subject i)) | Some x \<Rightarrow> Some x) in
     bnd (validated AdmissionValidation user) (\<lambda>user.
     bnd (validated AdmissionValidation (User_validate (user\<lparr>
       us_organization_ids := us_organization_ids user @ [iv_organization_id invitation], us_version := us_version user + 1\<rparr>))) (\<lambda>updated.
     bnd (validated AdmissionValidation (Membership_validate \<lparr>mb_subject = id_subject i, mb_organization_id = iv_organization_id invitation,
       mb_role = iv_role invitation, mb_active = True, mb_version = 1\<rparr>)) (\<lambda>membership.
     bnd (tx_put (user_path (id_subject i)) (Doc_user updated)) (\<lambda>_.
     bnd (tx_put (member_path (iv_organization_id invitation) (id_subject i)) (Doc_membership membership)) (\<lambda>_.
     bnd (tx_put path (Doc_invitation (invitation\<lparr>iv_redeemed_by := Some (id_subject i), iv_version := iv_version invitation + 1\<rparr>))) (\<lambda>_.
     audit rd (id_subject i) ''invitation_redeemed'' (iv_invitation_id invitation))))))))"

definition redeem_operation :: "readings \<Rightarrow> identity \<Rightarrow> string \<Rightarrow> unit admission_op" where
  "redeem_operation rd i path =
     bnd (tx_get path) (\<lambda>document. case document of
       None \<Rightarrow> raise AccessDenied
     | Some d \<Rightarrow>
         bnd (validated AdmissionValidation (as_invitation d)) (\<lambda>invitation.
         bnd (read_user (id_subject i)) (\<lambda>user.
         bnd (read_user (iv_invited_by invitation)) (\<lambda>inviter.
         bnd (tx_get (organization_path (iv_organization_id invitation))) (\<lambda>organization.
         bnd (tx_get (member_path (iv_organization_id invitation) (id_subject i))) (\<lambda>existing.
         if iv_email invitation \<noteq> lower (id_email i) \<or> iv_expires_at invitation \<le> rd_now rd \<or> iv_redeemed_by invitation \<noteq> None \<or>
           iv_revoked invitation \<or> (case inviter of None \<Rightarrow> True | Some x \<Rightarrow> \<not> us_active x \<or> \<not> us_platform_admin x)
         then raise AccessDenied
         else case organization of
           None \<Rightarrow> raise AccessDenied
         | Some g \<Rightarrow>
             bnd (validated AdmissionValidation (as_organization g)) (\<lambda>org.
             if \<not> og_active org \<or> (case user of None \<Rightarrow> False | Some x \<Rightarrow> \<not> us_active x) \<or> existing \<noteq> None
             then raise AccessDenied
             else admit rd i path invitation user)))))))"

definition redeem :: "readings \<Rightarrow> identity \<Rightarrow> string \<Rightarrow> access_view admission_op" where
  "redeem rd i token = bnd (transact (redeem_operation rd i (invitation_path token))) (\<lambda>_. access i)"

definition set_status :: "readings \<Rightarrow> identity \<Rightarrow> string \<Rightarrow> string \<Rightarrow> status_update \<Rightarrow> unit admission_op" where
  "set_status rd i kind identifier request =
    (if kind \<noteq> ''organizations'' \<and> kind \<noteq> ''users'' then raise AccessDenied
     else let path = ''admission_'' @ kind @ ''/'' @ identifier in
     transact (
       bnd (require_admin i) (\<lambda>_.
       bnd (tx_get path) (\<lambda>document. case document of
         None \<Rightarrow> raise AccessDenied
       | Some d \<Rightarrow>
           bnd (if kind = ''users''
             then bnd (validated AdmissionValidation (as_user d)) (\<lambda>target.
               guard (\<not> (us_owner target \<or> us_subject target = id_subject i)) AccessDenied)
             else ret ()) (\<lambda>_.
           case document_version d of
             None \<Rightarrow> raise DocumentKeyError
           | Some v \<Rightarrow>
               if v \<noteq> su_expected_version request then raise VersionConflict
               else bnd (tx_put path (document_activate (su_active request) (su_expected_version request + 1) d)) (\<lambda>_.
                 audit rd (id_subject i) (if su_active request then ''access_activated'' else ''access_suspended'') path))))))"

datatype record_view = Raw_record string document | Invitation_view string invitation string

definition invitation_status :: "instant \<Rightarrow> invitation \<Rightarrow> string" where
  "invitation_status now i = (if iv_revoked i then ''revoked'' else if iv_redeemed_by i \<noteq> None then ''redeemed''
     else if iv_expires_at i \<le> now then ''expired'' else ''pending'')"

fun invitation_views :: "instant \<Rightarrow> (string \<times> document) list \<Rightarrow> record_view list admission_op" where
  "invitation_views now [] = ret []"
| "invitation_views now ((record_id, d) # rest) =
     bnd (validated AdmissionValidation (as_invitation d)) (\<lambda>i.
     bnd (invitation_views now rest) (\<lambda>views. ret (Invitation_view record_id i (invitation_status now i) # views)))"

definition list_records :: "readings \<Rightarrow> identity \<Rightarrow> string \<Rightarrow> string \<Rightarrow> record_view list admission_op" where
  "list_records rd i kind after =
    (if kind \<notin> {''organizations'', ''users'', ''audit'', ''invitations''} then raise AccessDenied
     else bnd (transact (require_admin i)) (\<lambda>_.
       bnd (list_store (''admission_'' @ kind) after) (\<lambda>records.
       if kind = ''invitations'' then invitation_views (rd_now rd) records
       else ret (map (\<lambda>(record_id, d). Raw_record record_id d) records))))"

definition revoke_invitation :: "readings \<Rightarrow> identity \<Rightarrow> string \<Rightarrow> int \<Rightarrow> unit admission_op" where
  "revoke_invitation rd i identifier expected_version =
    (let path = invitations_path identifier in
     transact (
       bnd (require_admin i) (\<lambda>_.
       bnd (tx_get path) (\<lambda>document. case document of
         None \<Rightarrow> raise AccessDenied
       | Some d \<Rightarrow>
           bnd (validated AdmissionValidation (as_invitation d)) (\<lambda>invitation.
           if iv_version invitation \<noteq> expected_version \<or> iv_revoked invitation \<or> iv_redeemed_by invitation \<noteq> None \<or>
             iv_expires_at invitation \<le> rd_now rd
           then raise VersionConflict
           else bnd (tx_put path (Doc_invitation (invitation\<lparr>iv_revoked := True, iv_version := iv_version invitation + 1\<rparr>))) (\<lambda>_.
             audit rd (id_subject i) ''invitation_revoked'' (iv_invitation_id invitation)))))))"

definition list_members :: "identity \<Rightarrow> string \<Rightarrow> string \<Rightarrow> (string \<times> document) list admission_op" where
  "list_members i organization_id after =
     bnd (transact (bnd (require_admin i) (\<lambda>_. bnd (tx_get (organization_path organization_id)) (\<lambda>g.
       guard (g \<noteq> None) AccessDenied)))) (\<lambda>_.
     list_store (organization_path organization_id @ ''/members'') after)"

definition update_membership :: "readings \<Rightarrow> identity \<Rightarrow> string \<Rightarrow> string \<Rightarrow> membership_update \<Rightarrow> unit admission_op" where
  "update_membership rd i organization_id identifier request =
    (let path = members_path organization_id identifier in
     transact (
       bnd (require_admin i) (\<lambda>_.
       bnd (tx_get path) (\<lambda>document.
       bnd (tx_get (organization_path organization_id)) (\<lambda>organization. case (document, organization) of
         (Some d, Some g) \<Rightarrow>
           bnd (validated AdmissionValidation (as_membership d)) (\<lambda>member.
           bnd (read_user (mb_subject member)) (\<lambda>u.
           case u of
             None \<Rightarrow> raise AccessDenied
           | Some user \<Rightarrow>
               if mb_organization_id member \<noteq> organization_id \<or> user_key (mb_subject member) \<noteq> identifier \<or>
                 mb_subject member = id_subject i \<or> organization_id \<notin> set (us_organization_ids user)
               then raise AccessDenied
               else if mb_version member \<noteq> su_expected_version request then raise VersionConflict
               else bnd (if su_active request then
                     (if \<not> us_active user then raise AccessDenied
                      else bnd (validated AdmissionValidation (as_organization g)) (\<lambda>org. guard (og_active org) AccessDenied))
                   else ret ()) (\<lambda>_.
                 bnd (tx_put path (Doc_membership (member\<lparr>mb_active := su_active request, mb_role := mu_role request,
                   mb_version := mb_version member + 1\<rparr>))) (\<lambda>_.
                 audit rd (id_subject i) ''membership_updated'' path))))
       | _ \<Rightarrow> raise AccessDenied)))))"

definition set_administrator :: "readings \<Rightarrow> identity \<Rightarrow> string \<Rightarrow> status_update \<Rightarrow> unit admission_op" where
  "set_administrator rd i identifier request = transact (
     bnd (require_admin i) (\<lambda>actor.
     if \<not> us_owner actor then raise AccessDenied
     else let path = users_path identifier in
       bnd (tx_get path) (\<lambda>document. case document of
         None \<Rightarrow> raise AccessDenied
       | Some d \<Rightarrow>
           bnd (validated AdmissionValidation (as_user d)) (\<lambda>target.
           if us_owner target \<or> \<not> us_active target then raise AccessDenied
           else if us_version target \<noteq> su_expected_version request then raise VersionConflict
           else bnd (tx_put path (Doc_user (target\<lparr>us_platform_admin := su_active request, us_version := us_version target + 1\<rparr>))) (\<lambda>_.
             audit rd (id_subject i) (if su_active request then ''administrator_appointed'' else ''administrator_revoked'') identifier)))))"

definition record_rejection :: "readings \<Rightarrow> string \<Rightarrow> string \<Rightarrow> unit admission_op" where
  "record_rejection rd actor reason = transact (audit rd actor ''access_rejected'' reason)"

section \<open>Provider claims\<close>

text \<open>Python truth of a decoded JSON value.\<close>

fun truthy :: "json \<Rightarrow> bool" where
  "truthy JNull = False"
| "truthy (JBool b) = b"
| "truthy (JInt n) = (n \<noteq> 0)"
| "truthy (JStr s) = (s \<noteq> [])"
| "truthy (JArr xs) = (xs \<noteq> [])"
| "truthy (JObj kvs) = (kvs \<noteq> [])"

definition claim :: "(string \<times> json) list \<Rightarrow> string \<Rightarrow> json" where
  "claim claims key = dget_or claims key JNull"

text \<open>
  \<^verbatim>\<open>_identity\<close>: the condition is evaluated from left to right; a sign-in provider that is a list or an object cannot be looked up in
  the set of refused providers and raises \<^verbatim>\<open>TypeError\<close>. A failed construction of \<^verbatim>\<open>Identity\<close> is a \<^verbatim>\<open>ValueError\<close>.
\<close>

definition identity_of_claims :: "(string \<times> json) list \<Rightarrow> admission_error + identity" where
  "identity_of_claims claims =
    (case (claim claims ''email_verified'', claim claims ''sub'', claim claims ''email'', dget_or claims ''firebase'' (JObj [])) of
       (JBool True, JStr sub, JStr email, JObj firebase) \<Rightarrow>
         (case claim firebase ''sign_in_provider'' of
            JArr _ \<Rightarrow> Inl ClaimTypeError
          | JObj _ \<Rightarrow> Inl ClaimTypeError
          | provider \<Rightarrow>
              if provider = JStr ''anonymous'' \<or> provider = JStr ''custom'' \<or> claim firebase ''tenant'' \<noteq> JNull then Inl IdentityRejected
              else (case Identity_validate \<lparr>id_subject = sub, id_email = email,
                  id_mfa = truthy (claim firebase ''sign_in_second_factor'')\<rparr> of
                None \<Rightarrow> Inl AdmissionValidation
              | Some i \<Rightarrow> Inr i))
     | _ \<Rightarrow> Inl IdentityRejected)"

text \<open>
  What the identity provider's client answers: decoded claims, one of the exceptions the code names (or \<^verbatim>\<open>ValueError\<close>), or another
  provider failure.
\<close>

datatype 'a provider_answer = Answer 'a | Rejected | Unavailable

definition verify_session :: "(string \<Rightarrow> (string \<times> json) list provider_answer) \<Rightarrow> string \<Rightarrow> admission_error + identity" where
  "verify_session verify_cookie session = (case verify_cookie session of
     Rejected \<Rightarrow> Inl SessionInvalid
   | Unavailable \<Rightarrow> Inl IdentityUnavailable
   | Answer claims \<Rightarrow>
       (case identity_of_claims claims of
          Inl e \<Rightarrow> Inl (if e = AdmissionValidation then SessionInvalid else e)
        | Inr i \<Rightarrow> Inr i))"

text \<open>The age of a login, \<^verbatim>\<open>time.time() - claims.get("auth_time", 0)\<close>, with the time in microseconds; other types raise \<^verbatim>\<open>TypeError\<close>.\<close>

definition login_age :: "instant \<Rightarrow> json \<Rightarrow> int option" where
  "login_age now auth_time = (case auth_time of
     JInt n \<Rightarrow> Some (now - seconds n)
   | JBool b \<Rightarrow> Some (now - seconds (if b then 1 else 0))
   | _ \<Rightarrow> None)"

definition create_session ::
  "(string \<Rightarrow> (string \<times> json) list provider_answer) \<Rightarrow> (string \<Rightarrow> string provider_answer) \<Rightarrow> instant \<Rightarrow> string \<Rightarrow> admission_error + string" where
  "create_session verify_token create_cookie now id_token = (case verify_token id_token of
     Rejected \<Rightarrow> Inl IdentityRejected
   | Unavailable \<Rightarrow> Inl IdentityUnavailable
   | Answer claims \<Rightarrow>
       (case identity_of_claims claims of
          Inl e \<Rightarrow> Inl (if e = AdmissionValidation then IdentityRejected else e)
        | Inr _ \<Rightarrow>
            (case login_age now (dget_or claims ''auth_time'' (JInt 0)) of
               None \<Rightarrow> Inl ClaimTypeError
             | Some age \<Rightarrow>
                 if \<not> (0 \<le> age \<and> age < seconds 300) then Inl RecentLoginRequired
                 else (case create_cookie id_token of
                     Answer cookie \<Rightarrow> Inr cookie
                   | Rejected \<Rightarrow> Inl IdentityRejected
                   | Unavailable \<Rightarrow> Inl IdentityUnavailable))))"

section \<open>Routes\<close>

definition bearer_identity :: "(string \<Rightarrow> admission_error + identity) \<Rightarrow> string option \<Rightarrow> admission_error + identity" where
  "bearer_identity verify_provider authorization = (case authorization of
     None \<Rightarrow> Inl SessionRequired
   | Some header \<Rightarrow>
       if \<not> prefix ''Bearer '' header then Inl SessionRequired
       else let session = removeprefix ''Bearer '' header in
         if session = [] \<or> 16384 < length session then Inl SessionInvalid
         else verify_provider session)"

definition route_identifier_ok :: "string \<Rightarrow> bool" where
  "route_identifier_ok identifier \<longleftrightarrow> identifier \<noteq> [] \<and> length identifier \<le> 128 \<and> list_all identifier_char identifier"

definition set_status_route :: "readings \<Rightarrow> identity \<Rightarrow> string \<Rightarrow> string \<Rightarrow> status_update \<Rightarrow> unit admission_op" where
  "set_status_route rd i kind identifier request =
    (if \<not> route_identifier_ok identifier then raise InvalidIdentifier
     else if kind = ''administrators'' then set_administrator rd i identifier request
     else set_status rd i kind identifier request)"

text \<open>
  The requests of the admission router that may write, with their path parameters checked as the routes declare them, the offline
  command that creates the owner, and the audit of a refused request.
\<close>

datatype admission_request =
    Bootstrap string
  | Create_organization identity string
  | Invite identity invitation_create
  | Redeem identity string
  | Set_status identity string string status_update
  | Revoke_invitation identity string int
  | Update_membership identity string string membership_update
  | Record_rejection string string

fun identifiers_ok :: "admission_request \<Rightarrow> bool" where
  "identifiers_ok (Invite i request) = is_identifier (ic_organization_id request)"
| "identifiers_ok (Revoke_invitation i identifier v) = is_identifier identifier"
| "identifiers_ok (Update_membership i organization_id identifier request) = (is_identifier organization_id \<and> is_identifier identifier)"
| "identifiers_ok _ = True"

fun perform :: "readings \<Rightarrow> admission_request \<Rightarrow> unit admission_op" where
  "perform rd (Bootstrap subject) = bootstrap_owner rd subject"
| "perform rd (Create_organization i name) = bnd (create_organization rd i name) (\<lambda>_. ret ())"
| "perform rd (Invite i request) = bnd (invite rd i request) (\<lambda>_. ret ())"
| "perform rd (Redeem i token) = bnd (redeem rd i token) (\<lambda>_. ret ())"
| "perform rd (Set_status i kind identifier request) = set_status_route rd i kind identifier request"
| "perform rd (Revoke_invitation i identifier v) = revoke_invitation rd i identifier v"
| "perform rd (Update_membership i organization_id identifier request) = update_membership rd i organization_id identifier request"
| "perform rd (Record_rejection actor reason) = record_rejection rd actor reason"

definition serve :: "readings \<Rightarrow> admission_request \<Rightarrow> unit admission_op" where
  "serve rd request = (if identifiers_ok request then perform rd request else raise InvalidIdentifier)"

end
