(* ===== verification/Admission_Properties.thy ===== *)
theory Admission_Properties
  imports Admission
begin

text \<open>
  What every request of the admission service may write. Each operation either leaves the documents as they are or makes one group of
  writes, described by \<^verbatim>\<open>committed\<close>, after checks that are part of the description; the invariants of the store follow by
  cases on it.
\<close>

section \<open>Transactions\<close>

lemma tx_get_iff: "tx_get path s = (Inr x, s') \<longleftrightarrow> x = dget s path \<and> s' = s"
  by (auto simp: tx_get_def)

lemma tx_put_iff: "tx_put path d s = (Inr x, s') \<longleftrightarrow> s' = dput path d s"
  by (auto simp: tx_put_def)

lemma transact_Inr_iff: "transact m s = (Inr x, s') \<longleftrightarrow> m s = (Inr x, s')"
  by (auto simp: transact_def split: prod.splits sum.splits)

lemma transact_Inl: "transact m s = (Inl e, s') \<Longrightarrow> s' = s"
  by (auto simp: transact_def split: prod.splits sum.splits)

lemmas tx_iff = bnd_Inr_iff validated_Inr_iff tx_get_iff tx_put_iff transact_Inr_iff guard_Inr_iff

definition admin_in :: "documents \<Rightarrow> identity \<Rightarrow> user \<Rightarrow> bool" where
  "admin_in s i u \<longleftrightarrow> (\<exists>d. dget s (user_path (id_subject i)) = Some d \<and> as_user d = Some u) \<and> us_active u \<and> us_platform_admin u \<and> id_mfa i"

lemma read_user_iff: "read_user subject s = (Inr u, s') \<longleftrightarrow> s' = s \<and>
    (case dget s (user_path subject) of None \<Rightarrow> u = None | Some d \<Rightarrow> as_user d \<noteq> None \<and> u = as_user d)"
proof (cases "dget s (user_path subject)")
  case (Some d)
  then show ?thesis by (cases "as_user d") (auto simp: read_user_def bnd_def tx_get_def)
qed (auto simp: read_user_def bnd_def tx_get_def)

lemma require_admin_iff: "require_admin i s = (Inr u, s') \<longleftrightarrow> s' = s \<and> admin_in s i u"
proof (cases "dget s (user_path (id_subject i))")
  case (Some d)
  then show ?thesis by (cases "as_user d") (auto simp: require_admin_def read_user_def admin_in_def bnd_def tx_get_def)
qed (auto simp: require_admin_def read_user_def admin_in_def bnd_def tx_get_def)

text \<open>The audit event of an operation, and the store with it.\<close>

definition audit_event_of :: "readings \<Rightarrow> string \<Rightarrow> string \<Rightarrow> string \<Rightarrow> admission_audit option" where
  "audit_event_of rd actor action resource_id = AdmissionAudit_validate \<lparr>au_event_id = ''access_'' @ rd_audit_uuid rd, au_actor = actor,
     au_action = action, au_resource_id = resource_id, au_occurred_at = rd_audit_time rd\<rparr>"

definition with_audit :: "admission_audit \<Rightarrow> documents \<Rightarrow> documents" where
  "with_audit e s = dput (audit_path (au_event_id e)) (Doc_audit e) s"

lemma audit_iff: "audit rd actor action resource_id s = (Inr x, s') \<longleftrightarrow>
    (\<exists>e. audit_event_of rd actor action resource_id = Some e \<and> s' = with_audit e s)"
  by (auto simp: audit_def audit_event_of_def with_audit_def tx_iff)

lemmas adm_iff = tx_iff read_user_iff require_admin_iff audit_iff

text \<open>Running the first call of a sequence.\<close>

lemma run_get: "bnd (tx_get path) f s = f (dget s path) s"
  by (simp add: bnd_def tx_get_def)

lemma run_validated: "bnd (validated e x) f s = (Inr y, s') \<longleftrightarrow> (\<exists>z. x = Some z \<and> f z s = (Inr y, s'))"
  by (cases x) (auto simp: bnd_def)

lemma run_read: "bnd (read_user x) f s = (Inr y, s') \<longleftrightarrow> (\<exists>u. read_user x s = (Inr u, s) \<and> f u s = (Inr y, s'))"
  by (auto simp: bnd_Inr_iff read_user_iff)

lemma run_admin: "bnd (require_admin i) f s = (Inr y, s') \<longleftrightarrow> (\<exists>u. admin_in s i u \<and> f u s = (Inr y, s'))"
  by (auto simp: bnd_Inr_iff require_admin_iff)

lemmas run_iff = run_get run_validated run_read run_admin

text \<open>Operations that only read, and operations that write only when they return.\<close>

definition atomic :: "'a admission_op \<Rightarrow> bool" where
  "atomic m \<longleftrightarrow> (\<forall>s r s'. m s = (r, s') \<longrightarrow> s' = s \<or> (\<exists>x. r = Inr x))"

lemma atomicD: "atomic m \<Longrightarrow> m s = (r, s') \<Longrightarrow> s' = s \<or> (\<exists>x. r = Inr x)"
  unfolding atomic_def by blast

lemma atomic_transact [intro]: "atomic (transact m)"
  by (auto simp: atomic_def transact_def split: prod.splits sum.splits)

lemma atomic_raise [intro]: "atomic (raise e)"
  by (simp add: atomic_def)

lemma atomic_validated [intro]: "(\<And>z. atomic (f z)) \<Longrightarrow> atomic (bnd (validated e x) f)"
  by (cases x) (auto simp: atomic_def bnd_def)

lemma atomic_unit: "atomic m \<Longrightarrow> bnd m (\<lambda>_. ret ()) s = (r, s') \<Longrightarrow> s' = s \<or> (\<exists>x. m s = (Inr x, s'))"
  by (auto simp: atomic_def bnd_def split: prod.splits sum.splits)

lemma atomic_ret [intro]: "atomic m \<Longrightarrow> atomic (bnd m (\<lambda>x. ret (f x)))"
  by (auto simp: atomic_def bnd_def split: prod.splits sum.splits)

lemma preserves_tx_get [pres]: "preserves I (tx_get path)"
  by (simp add: preserves_def tx_get_def)

lemma preserves_transact [pres]: "preserves I m \<Longrightarrow> preserves I (transact m)"
  unfolding preserves_def transact_def by (force split: prod.split sum.split)

lemma preserves_read_user [pres]: "preserves I (read_user x)"
  unfolding read_user_def by (intro pres)

lemma preserves_collect [pres]: "preserves I (collect_workspaces i gs)"
proof (induction gs)
  case (Cons g gs)
  show ?case unfolding collect_workspaces.simps by (intro pres Cons) (auto intro!: pres split: option.split)
qed (use preserves_ret in \<open>simp only: collect_workspaces.simps\<close>)

lemma preserves_access [pres]: "preserves I (access i)"
  unfolding access_def by (intro pres)

lemma access_same: "access i s = (r, s') \<Longrightarrow> s' = s"
  using preservesD [OF preserves_access, of "\<lambda>t. t = s"] by blast

section \<open>What each request commits\<close>

definition owner_user :: "string \<Rightarrow> user" where
  "owner_user subject = (new_user subject)\<lparr>us_owner := True, us_platform_admin := True\<rparr>"

text \<open>The user document a redemption starts from.\<close>

definition redeeming_user :: "documents \<Rightarrow> identity \<Rightarrow> user option" where
  "redeeming_user s i = (case dget s (user_path (id_subject i)) of None \<Rightarrow> User_validate (new_user (id_subject i)) | Some d \<Rightarrow> as_user d)"

definition joined :: "user \<Rightarrow> string \<Rightarrow> user" where
  "joined u organization_id = u\<lparr>us_organization_ids := us_organization_ids u @ [organization_id], us_version := us_version u + 1\<rparr>"

definition redeemed :: "invitation \<Rightarrow> string \<Rightarrow> invitation" where
  "redeemed v subject = v\<lparr>iv_redeemed_by := Some subject, iv_version := iv_version v + 1\<rparr>"

definition new_membership :: "identity \<Rightarrow> invitation \<Rightarrow> membership" where
  "new_membership i v = \<lparr>mb_subject = id_subject i, mb_organization_id = iv_organization_id v, mb_role = iv_role v, mb_active = True, mb_version = 1\<rparr>"

definition redeemable :: "documents \<Rightarrow> identity \<Rightarrow> instant \<Rightarrow> invitation \<Rightarrow> bool" where
  "redeemable s i now v \<longleftrightarrow> iv_email v = lower (id_email i) \<and> now < iv_expires_at v \<and> iv_redeemed_by v = None \<and> \<not> iv_revoked v \<and>
     (\<exists>d u. dget s (user_path (iv_invited_by v)) = Some d \<and> as_user d = Some u \<and> us_active u \<and> us_platform_admin u) \<and>
     (\<exists>d g. dget s (organization_path (iv_organization_id v)) = Some d \<and> as_organization d = Some g \<and> og_active g) \<and>
     dget s (member_path (iv_organization_id v) (id_subject i)) = None"

inductive committed :: "readings \<Rightarrow> admission_request \<Rightarrow> documents \<Rightarrow> documents \<Rightarrow> bool" for rd where
  bootstrapped:
    "dget s bootstrap_path = None \<Longrightarrow> dget s (user_path subject) = None \<Longrightarrow> User_validate (owner_user subject) = Some u \<Longrightarrow>
     audit_event_of rd subject ''owner_bootstrapped'' (user_key subject) = Some e \<Longrightarrow>
     committed rd (Bootstrap subject) s (with_audit e (dput bootstrap_path (Doc_bootstrap subject 1) (dput (user_path subject) (Doc_user u) s)))"
| created:
    "admin_in s i a \<Longrightarrow> Organization_validate \<lparr>og_organization_id = ''org_'' @ rd_uuid rd, og_name = name, og_active = True, og_version = 1\<rparr> = Some g \<Longrightarrow>
     audit_event_of rd (id_subject i) ''organization_created'' (og_organization_id g) = Some e \<Longrightarrow>
     committed rd (Create_organization i name) s (with_audit e (dput (organization_path (og_organization_id g)) (Doc_organization g) s))"
| invited:
    "admin_in s i a \<Longrightarrow> is_identifier (ic_organization_id q) \<Longrightarrow>
     dget s (organization_path (ic_organization_id q)) = Some d \<Longrightarrow> as_organization d = Some g \<Longrightarrow> og_active g \<Longrightarrow>
     Invitation_validate \<lparr>iv_invitation_id = ''invite_'' @ rd_uuid rd, iv_email = lower (ic_email q),
       iv_organization_id = ic_organization_id q, iv_role = ic_role q, iv_invited_by = id_subject i,
       iv_expires_at = rd_now rd + hours 24, iv_redeemed_by = None, iv_revoked = False, iv_version = 1\<rparr> = Some v \<Longrightarrow>
     audit_event_of rd (id_subject i) ''invitation_created'' (iv_invitation_id v) = Some e \<Longrightarrow>
     committed rd (Invite i q) s (with_audit e (dput (invitation_path (rd_token rd)) (Doc_invitation v) s))"
| joining:
    "dget s (invitation_path token) = Some d \<Longrightarrow> as_invitation d = Some v \<Longrightarrow> redeemable s i (rd_now rd) v \<Longrightarrow>
     redeeming_user s i = Some u \<Longrightarrow> us_active u \<Longrightarrow>
     User_validate (joined u (iv_organization_id v)) = Some u' \<Longrightarrow> Membership_validate (new_membership i v) = Some m \<Longrightarrow>
     audit_event_of rd (id_subject i) ''invitation_redeemed'' (iv_invitation_id v) = Some e \<Longrightarrow>
     committed rd (Redeem i token) s (with_audit e (dput (invitation_path token) (Doc_invitation (redeemed v (id_subject i)))
       (dput (member_path (iv_organization_id v) (id_subject i)) (Doc_membership m) (dput (user_path (id_subject i)) (Doc_user u') s))))"
| appointed:
    "admin_in s i a \<Longrightarrow> us_owner a \<Longrightarrow> route_identifier_ok k \<Longrightarrow> dget s (users_path k) = Some d \<Longrightarrow> as_user d = Some t \<Longrightarrow> \<not> us_owner t \<Longrightarrow>
     us_active t \<Longrightarrow> us_version t = su_expected_version q \<Longrightarrow>
     audit_event_of rd (id_subject i) (if su_active q then ''administrator_appointed'' else ''administrator_revoked'') k = Some e \<Longrightarrow>
     kind = ''administrators'' \<Longrightarrow>
     s' = with_audit e (dput (users_path k)
       (Doc_user (t\<lparr>us_platform_admin := su_active q, us_version := us_version t + 1\<rparr>)) s) \<Longrightarrow>
     committed rd (Set_status i kind k q) s s'"
| user_switched:
    "admin_in s i a \<Longrightarrow> route_identifier_ok k \<Longrightarrow> dget s (users_path k) = Some d \<Longrightarrow> as_user d = Some t \<Longrightarrow> \<not> us_owner t \<Longrightarrow>
     us_subject t \<noteq> id_subject i \<Longrightarrow> document_version d = Some (su_expected_version q) \<Longrightarrow>
     audit_event_of rd (id_subject i) (if su_active q then ''access_activated'' else ''access_suspended'') (users_path k) = Some e \<Longrightarrow>
     kind = ''users'' \<Longrightarrow>
     s' = with_audit e (dput (users_path k)
       (document_activate (su_active q) (su_expected_version q + 1) d) s) \<Longrightarrow>
     committed rd (Set_status i kind k q) s s'"
| organization_switched:
    "admin_in s i a \<Longrightarrow> route_identifier_ok k \<Longrightarrow> dget s (organization_path k) = Some d \<Longrightarrow> document_version d = Some (su_expected_version q) \<Longrightarrow>
     audit_event_of rd (id_subject i) (if su_active q then ''access_activated'' else ''access_suspended'') (organization_path k) = Some e \<Longrightarrow>
     kind = ''organizations'' \<Longrightarrow>
     s' = with_audit e (dput (organization_path k)
       (document_activate (su_active q) (su_expected_version q + 1) d) s) \<Longrightarrow>
     committed rd (Set_status i kind k q) s s'"
| revoking:
    "admin_in s i a \<Longrightarrow> is_identifier k \<Longrightarrow> dget s (invitations_path k) = Some d \<Longrightarrow> as_invitation d = Some v \<Longrightarrow> iv_version v = n \<Longrightarrow>
     \<not> iv_revoked v \<Longrightarrow> iv_redeemed_by v = None \<Longrightarrow> rd_now rd < iv_expires_at v \<Longrightarrow>
     audit_event_of rd (id_subject i) ''invitation_revoked'' (iv_invitation_id v) = Some e \<Longrightarrow>
     committed rd (Revoke_invitation i k n) s (with_audit e (dput (invitations_path k)
       (Doc_invitation (v\<lparr>iv_revoked := True, iv_version := iv_version v + 1\<rparr>)) s))"
| member_changed:
    "admin_in s i a \<Longrightarrow> is_identifier g \<Longrightarrow> is_identifier k \<Longrightarrow> dget s (members_path g k) = Some d \<Longrightarrow> as_membership d = Some m \<Longrightarrow>
     mb_organization_id m = g \<Longrightarrow> user_key (mb_subject m) = k \<Longrightarrow> mb_subject m \<noteq> id_subject i \<Longrightarrow> mb_version m = su_expected_version q \<Longrightarrow>
     audit_event_of rd (id_subject i) ''membership_updated'' (members_path g k) = Some e \<Longrightarrow>
     committed rd (Update_membership i g k q) s (with_audit e (dput (members_path g k)
       (Doc_membership (m\<lparr>mb_active := su_active q, mb_role := mu_role q, mb_version := mb_version m + 1\<rparr>)) s))"
| rejecting:
    "audit_event_of rd actor ''access_rejected'' reason = Some e \<Longrightarrow> committed rd (Record_rejection actor reason) s (with_audit e s)"

text \<open>A failed transaction leaves no trace, so only successful runs need a look.\<close>

lemma transact_or: "transact m s = (r, s') \<Longrightarrow> s' = s \<or> (\<exists>x. r = Inr x \<and> m s = (Inr x, s'))"
  by (auto simp: transact_def split: prod.splits sum.splits)

lemma bootstrap_committed: "bootstrap_owner rd subject s = (Inr x, s') \<Longrightarrow> committed rd (Bootstrap subject) s s'"
  unfolding bootstrap_owner_def
  by (auto simp: adm_iff owner_user_def intro!: committed.bootstrapped split: if_splits option.splits)

lemma created_committed: "create_organization rd i name s = (Inr x, s') \<Longrightarrow> committed rd (Create_organization i name) s s'"
  unfolding create_organization_def by (auto simp: adm_iff intro!: committed.created)

lemma invited_committed:
  "invite rd i q s = (Inr x, s') \<Longrightarrow> is_identifier (ic_organization_id q) \<Longrightarrow> committed rd (Invite i q) s s'"
  unfolding invite_def by (auto simp: adm_iff intro!: committed.invited split: option.splits if_splits)

lemma admit_iff: "admit rd i path v uo s = (Inr x, s') \<longleftrightarrow> (\<exists>u u' m e.
    (case uo of None \<Rightarrow> User_validate (new_user (id_subject i)) | Some y \<Rightarrow> Some y) = Some u \<and>
    User_validate (joined u (iv_organization_id v)) = Some u' \<and> Membership_validate (new_membership i v) = Some m \<and>
    audit_event_of rd (id_subject i) ''invitation_redeemed'' (iv_invitation_id v) = Some e \<and>
    s' = with_audit e (dput path (Doc_invitation (redeemed v (id_subject i)))
       (dput (member_path (iv_organization_id v) (id_subject i)) (Doc_membership m) (dput (user_path (id_subject i)) (Doc_user u') s))))"
  by (simp add: admit_def Let_def adm_iff joined_def new_membership_def redeemed_def)

lemma redeem_checks:
  assumes "redeem_operation rd i path s = (Inr x, s')"
  obtains d v uo w h g where "dget s path = Some d" "as_invitation d = Some v" "read_user (id_subject i) s = (Inr uo, s)"
    "read_user (iv_invited_by v) s = (Inr (Some w), s)" "us_active w" "us_platform_admin w"
    "iv_email v = lower (id_email i)" "rd_now rd < iv_expires_at v" "iv_redeemed_by v = None" "\<not> iv_revoked v"
    "dget s (organization_path (iv_organization_id v)) = Some h" "as_organization h = Some g" "og_active g"
    "dget s (member_path (iv_organization_id v) (id_subject i)) = None" "case uo of None \<Rightarrow> True | Some y \<Rightarrow> us_active y"
    "admit rd i path v uo s = (Inr x, s')"
proof -
  from assms obtain d where d: "dget s path = Some d"
    by (cases "dget s path") (simp_all add: redeem_operation_def run_iff)
  from assms d obtain v uo wo where v: "as_invitation d = Some v" and uo: "read_user (id_subject i) s = (Inr uo, s)"
    and wo: "read_user (iv_invited_by v) s = (Inr wo, s)" by (auto simp: redeem_operation_def run_iff)
  note run = assms [unfolded redeem_operation_def run_iff d, simplified, unfolded run_iff v, simplified, unfolded run_iff uo, simplified, unfolded run_iff wo, simplified, unfolded run_iff]
  from run obtain w where w: "wo = Some w" "us_active w" "us_platform_admin w"
    by (cases wo) (auto split: if_splits)
  from run w obtain h where h: "dget s (organization_path (iv_organization_id v)) = Some h"
    by (cases "dget s (organization_path (iv_organization_id v))") (auto split: if_splits)
  from run w h obtain g where g: "as_organization h = Some g"
    by (auto simp: run_iff split: if_splits)
  have "\<not> (case uo of None \<Rightarrow> False | Some y \<Rightarrow> \<not> us_active y)" "rd_now rd < iv_expires_at v" "iv_email v = lower (id_email i)"
    "iv_redeemed_by v = None" "\<not> iv_revoked v" "og_active g" "dget s (member_path (iv_organization_id v) (id_subject i)) = None"
    "admit rd i path v uo s = (Inr x, s')"
    using run w h g by (simp_all add: run_iff not_le split: if_split_asm)
  with d v uo wo w h g show thesis by (intro that) (auto split: option.splits)
qed

lemma redeem_committed:
  assumes "redeem_operation rd i (invitation_path token) s = (Inr x, s')"
  shows "committed rd (Redeem i token) s s'"
proof -
  from redeem_checks [OF assms] obtain d v uo w h g where
    d: "dget s (invitation_path token) = Some d" "as_invitation d = Some v"
    and u: "read_user (id_subject i) s = (Inr uo, s)" and w: "read_user (iv_invited_by v) s = (Inr (Some w), s)"
    and g: "dget s (organization_path (iv_organization_id v)) = Some h" "as_organization h = Some g"
    and c: "iv_email v = lower (id_email i)" "rd_now rd < iv_expires_at v" "iv_redeemed_by v = None" "\<not> iv_revoked v"
      "us_active w" "us_platform_admin w" "og_active g" "case uo of None \<Rightarrow> True | Some y \<Rightarrow> us_active y"
      "dget s (member_path (iv_organization_id v) (id_subject i)) = None"
    and run: "admit rd i (invitation_path token) v uo s = (Inr x, s')"
    by metis
  have ok: "redeemable s i (rd_now rd) v"
    using c g w by (auto simp: redeemable_def read_user_iff split: option.splits)
  from run obtain y u' m e where a: "(case uo of None \<Rightarrow> User_validate (new_user (id_subject i)) | Some z \<Rightarrow> Some z) = Some y"
    "User_validate (joined y (iv_organization_id v)) = Some u'" "Membership_validate (new_membership i v) = Some m"
    "audit_event_of rd (id_subject i) ''invitation_redeemed'' (iv_invitation_id v) = Some e"
    and s': "s' = with_audit e (dput (invitation_path token) (Doc_invitation (redeemed v (id_subject i)))
       (dput (member_path (iv_organization_id v) (id_subject i)) (Doc_membership m) (dput (user_path (id_subject i)) (Doc_user u') s)))"
    unfolding admit_iff by blast
  have "redeeming_user s i = Some y" using u a(1) by (auto simp: redeeming_user_def read_user_iff split: option.splits)
  moreover have "us_active y" using a(1) c(8) by (auto simp: User_validate_def new_user_def Let_def split: option.splits if_splits)
  ultimately show ?thesis unfolding s' using d ok a by (intro committed.joining) auto
qed

lemma kind_paths:
  "''admission_'' @ ''users'' @ ''/'' @ k = users_path k" "''admission_'' @ ''organizations'' @ ''/'' @ k = organization_path k"
  by (simp_all add: users_path_def organization_path_def)

lemma appointed_committed:
  "set_administrator rd i k q s = (Inr x, s') \<Longrightarrow> route_identifier_ok k \<Longrightarrow> committed rd (Set_status i ''administrators'' k q) s s'"
  unfolding set_administrator_def Let_def by (auto simp: adm_iff intro!: committed.appointed split: option.splits if_splits)

lemma users_committed:
  "set_status rd i ''users'' k q s = (Inr x, s') \<Longrightarrow> route_identifier_ok k \<Longrightarrow> committed rd (Set_status i ''users'' k q) s s'"
  unfolding set_status_def Let_def kind_paths by (auto simp: adm_iff intro!: committed.user_switched split: option.splits if_splits)

lemma organizations_committed:
  "set_status rd i ''organizations'' k q s = (Inr x, s') \<Longrightarrow> route_identifier_ok k \<Longrightarrow> committed rd (Set_status i ''organizations'' k q) s s'"
  unfolding set_status_def Let_def kind_paths by (auto simp: adm_iff intro!: committed.organization_switched split: option.splits if_splits)

lemma status_committed:
  assumes "set_status_route rd i kind k q s = (Inr x, s')"
  shows "committed rd (Set_status i kind k q) s s'"
proof -
  from assms have k: "route_identifier_ok k" by (auto simp: set_status_route_def split: if_splits)
  consider "kind = ''administrators''" | "kind = ''users''" | "kind = ''organizations''"
    | "kind \<noteq> ''administrators''" "kind \<noteq> ''users''" "kind \<noteq> ''organizations''" by blast
  then show ?thesis
  proof cases
    case 1
    with assms k show ?thesis by (auto simp: set_status_route_def intro: appointed_committed)
  next
    case 2
    with assms k show ?thesis by (auto simp: set_status_route_def intro: users_committed)
  next
    case 3
    with assms k show ?thesis by (auto simp: set_status_route_def intro: organizations_committed)
  next
    case 4
    with assms k show ?thesis by (auto simp: set_status_route_def set_status_def)
  qed
qed

lemma revoke_committed: "revoke_invitation rd i k n s = (Inr x, s') \<Longrightarrow> is_identifier k \<Longrightarrow> committed rd (Revoke_invitation i k n) s s'"
  unfolding revoke_invitation_def Let_def by (auto simp: adm_iff not_le intro!: committed.revoking split: option.splits if_splits)

lemma member_committed:
  assumes "update_membership rd i g k q s = (Inr x, s')" "is_identifier g" "is_identifier k"
  shows "committed rd (Update_membership i g k q) s s'"
proof -
  from assms(1) obtain a where a: "admin_in s i a" by (auto simp: update_membership_def Let_def transact_Inr_iff run_iff)
  from assms(1) obtain d h where d: "dget s (members_path g k) = Some d" "dget s (organization_path g) = Some h"
    by (cases "dget s (members_path g k)"; cases "dget s (organization_path g)")
      (auto simp: update_membership_def Let_def transact_Inr_iff run_iff)
  from assms(1) d obtain m u where m: "as_membership d = Some m" "read_user (mb_subject m) s = (Inr (Some u), s)"
    by (auto simp: update_membership_def Let_def transact_Inr_iff run_iff split: option.splits)
  from assms(1) d m have "mb_organization_id m = g \<and> user_key (mb_subject m) = k \<and> mb_subject m \<noteq> id_subject i \<and> mb_version m = su_expected_version q \<and>
    (\<exists>e. audit_event_of rd (id_subject i) ''membership_updated'' (members_path g k) = Some e \<and> s' = with_audit e (dput (members_path g k)
       (Doc_membership (m\<lparr>mb_active := su_active q, mb_role := mu_role q, mb_version := mb_version m + 1\<rparr>)) s))"
    by (auto simp: update_membership_def Let_def transact_Inr_iff run_iff adm_iff split: option.splits if_splits)
  with a d m assms(2,3) show ?thesis by (auto intro: committed.member_changed)
qed

lemma atomic_set_status: "atomic (set_status_route rd i kind k q)"
  unfolding set_status_route_def set_status_def set_administrator_def Let_def
  by (simp only: atomic_transact atomic_raise split: if_split) simp

lemma serve_committed:
  assumes "serve rd q s = (r, s')"
  shows "s' = s \<or> committed rd q s s'"
proof (cases "identifiers_ok q")
  case ok: True
  with assms have run: "perform rd q s = (r, s')" by (simp add: serve_def)
  show ?thesis
  proof (cases q)
    case (Redeem i token)
    with run consider "s' = s" | t where "redeem_operation rd i (invitation_path token) s = (Inr (), t)" "s' = t"
      by (auto simp: redeem_def bnd_def transact_Inr_iff split: prod.splits sum.splits dest!: access_same dest: transact_Inl)
    with Redeem show ?thesis by (auto intro: redeem_committed)
  next
    case (Bootstrap subject)
    moreover have "atomic (bootstrap_owner rd subject)" by (auto simp: bootstrap_owner_def)
    ultimately show ?thesis using run atomicD bootstrap_committed by fastforce
  next
    case (Create_organization i name)
    moreover have "atomic (create_organization rd i name)" by (auto simp: create_organization_def)
    ultimately show ?thesis using run by (auto dest!: atomic_unit intro: created_committed)
  next
    case (Invite i q')
    moreover have "atomic (invite rd i q')" unfolding invite_def by (intro atomic_validated atomic_ret atomic_transact)
    ultimately show ?thesis using run ok by (auto dest!: atomic_unit intro: invited_committed)
  next
    case (Set_status i kind k u)
    then show ?thesis using run atomicD [OF atomic_set_status] status_committed by fastforce
  next
    case (Revoke_invitation i k n)
    moreover have "atomic (revoke_invitation rd i k n)" by (auto simp: revoke_invitation_def Let_def)
    ultimately show ?thesis using run ok by (auto dest: atomicD intro: revoke_committed)
  next
    case (Update_membership i g k u)
    moreover have "atomic (update_membership rd i g k u)" by (auto simp: update_membership_def Let_def)
    ultimately show ?thesis using run ok by (auto dest: atomicD intro: member_committed)
  next
    case (Record_rejection actor reason)
    with run show ?thesis by (auto simp: record_rejection_def audit_iff dest!: transact_or intro: committed.rejecting)
  qed
qed (use assms in \<open>simp add: serve_def\<close>)

end
