(* ===== verification/Admission_Invariants.thy ===== *)
theory Admission_Invariants
  imports Admission_Properties
begin

text \<open>
  The invariant of the admission store over every history of requests: each document is valid and sits at its own path, there is one
  owner, members hold redeemed invitations, and a user's organizations are the ones with a membership. Documents only move forward.
\<close>

section \<open>Paths\<close>

lemma path_inj [simp]:
  "users_path a = users_path b \<longleftrightarrow> a = b" "organization_path a = organization_path b \<longleftrightarrow> a = b"
  "invitations_path a = invitations_path b \<longleftrightarrow> a = b" "audit_path a = audit_path b \<longleftrightarrow> a = b"
  by (simp_all add: users_path_def organization_path_def invitations_path_def audit_path_def)

lemma users_path_neq [simp]:
  "users_path a \<noteq> organization_path b" "users_path a \<noteq> members_path b c" "users_path a \<noteq> invitations_path b" "users_path a \<noteq> audit_path b"
  "users_path a \<noteq> bootstrap_path" "organization_path b \<noteq> users_path a" "members_path b c \<noteq> users_path a" "invitations_path b \<noteq> users_path a"
  "audit_path b \<noteq> users_path a" "bootstrap_path \<noteq> users_path a"
  by (simp_all add: users_path_def organization_path_def invitations_path_def audit_path_def members_path_def bootstrap_path_def)

lemma organization_path_neq [simp]:
  "organization_path a \<noteq> invitations_path b" "organization_path a \<noteq> audit_path b" "organization_path a \<noteq> bootstrap_path"
  "invitations_path b \<noteq> organization_path a" "audit_path b \<noteq> organization_path a" "bootstrap_path \<noteq> organization_path a"
  "members_path a c \<noteq> invitations_path b" "members_path a c \<noteq> audit_path b" "members_path a c \<noteq> bootstrap_path"
  "invitations_path b \<noteq> members_path a c" "audit_path b \<noteq> members_path a c" "bootstrap_path \<noteq> members_path a c"
  by (simp_all add: organization_path_def invitations_path_def audit_path_def members_path_def bootstrap_path_def)

lemma other_path_neq [simp]:
  "invitations_path a \<noteq> audit_path b" "invitations_path a \<noteq> bootstrap_path" "audit_path a \<noteq> bootstrap_path"
  "audit_path b \<noteq> invitations_path a" "bootstrap_path \<noteq> invitations_path a" "bootstrap_path \<noteq> audit_path a"
  by (simp_all add: invitations_path_def audit_path_def bootstrap_path_def)

lemma alnum_facts: "is_alnum c \<Longrightarrow> c \<noteq> CHR ''/'' \<and> \<not> is_whitespace c"
  by (auto simp: is_alnum_def is_digit_def is_lower_def is_upper_def is_whitespace_def Let_def)

lemma identifier_char_facts: "identifier_char c \<Longrightarrow> c \<noteq> CHR ''/'' \<and> \<not> is_whitespace c"
  using alnum_facts by (auto simp: identifier_char_def is_whitespace_def Let_def)

lemma identifier_no_slash: "is_identifier g \<Longrightarrow> CHR ''/'' \<notin> set g" "route_identifier_ok g \<Longrightarrow> CHR ''/'' \<notin> set g"
  using identifier_char_facts by (fastforce simp: is_identifier_def route_identifier_ok_def list_all_iff)+

lemma organization_not_member: "CHR ''/'' \<notin> set g \<Longrightarrow> organization_path g \<noteq> members_path h k"
  by (auto simp: organization_path_def members_path_def)

lemma takeWhile_until: "c \<notin> set g \<Longrightarrow> takeWhile (\<lambda>x. x \<noteq> c) (g @ c # a) = g"
  by (induction g) auto

lemma split_at_slash: "c \<notin> set g \<Longrightarrow> c \<notin> set h \<Longrightarrow> g @ c # a = h @ c # b \<Longrightarrow> g = h \<and> a = b"
  using takeWhile_until [of c g a] takeWhile_until [of c h b] by simp

lemma members_path_inj: "is_identifier g \<Longrightarrow> is_identifier h \<Longrightarrow> members_path g k = members_path h l \<longleftrightarrow> g = h \<and> k = l"
  using split_at_slash [OF identifier_no_slash(1) identifier_no_slash(1), of g h "''members/'' @ k" "''members/'' @ l"]
  by (auto simp: members_path_def)

section \<open>Valid records\<close>

lemma identifier_strip [simp]: "is_identifier g \<Longrightarrow> strip g = g"
proof (intro strip_no_ws_ends)
  assume g: "is_identifier g"
  have "\<not> is_whitespace c" if "c \<in> set g" for c
    using g that identifier_char_facts by (auto simp: is_identifier_def list_all_iff)
  with g show "g \<noteq> []" "\<not> is_whitespace (hd g)" "\<not> is_whitespace (last g)" by (auto simp: is_identifier_def)
qed

lemma map_strip_identifiers: "list_all is_identifier gs \<Longrightarrow> map strip gs = gs"
  by (induction gs) auto

lemma user_valid_iff: "User_validate u = Some u \<longleftrightarrow> strip (us_subject u) = us_subject u \<and>
    list_all is_identifier (us_organization_ids u) \<and> length (us_organization_ids u) \<le> 50 \<and> 1 \<le> us_version u"
  by (cases u) (auto simp: User_validate_def Let_def map_strip_identifiers)

lemma user_validated: "User_validate u = Some u' \<Longrightarrow> User_validate u' = Some u' \<and> us_subject u' = strip (us_subject u) \<and>
    us_active u' = us_active u \<and> us_platform_admin u' = us_platform_admin u \<and> us_owner u' = us_owner u \<and>
    us_organization_ids u' = map strip (us_organization_ids u) \<and> us_version u' = us_version u"
  unfolding user_valid_iff by (auto simp: User_validate_def Let_def split: if_splits)

lemma organization_valid_iff: "Organization_validate g = Some g \<longleftrightarrow> strip (og_name g) = og_name g \<and>
    is_identifier (og_organization_id g) \<and> 2 \<le> length (og_name g) \<and> length (og_name g) \<le> 120 \<and> 1 \<le> og_version g"
  by (cases g) (auto simp: Organization_validate_def Let_def)

lemma organization_validated: "Organization_validate g = Some g' \<Longrightarrow> Organization_validate g' = Some g' \<and> og_active g' = og_active g"
  unfolding organization_valid_iff by (auto simp: Organization_validate_def Let_def split: if_splits)

lemma membership_valid_iff: "Membership_validate m = Some m \<longleftrightarrow> strip (mb_subject m) = mb_subject m \<and>
    is_identifier (mb_organization_id m) \<and> 1 \<le> mb_version m"
  by (cases m) (auto simp: Membership_validate_def Let_def)

lemma invitation_valid_iff: "Invitation_validate v = Some v \<longleftrightarrow> is_identifier (iv_invitation_id v) \<and> strip (iv_email v) = iv_email v \<and>
    is_email (iv_email v) \<and> is_identifier (iv_organization_id v) \<and> strip (iv_invited_by v) = iv_invited_by v \<and>
    map_option strip (iv_redeemed_by v) = iv_redeemed_by v \<and> 1 \<le> iv_version v"
  by (cases v) (auto simp: Invitation_validate_def Let_def)

lemma invitation_validated: "Invitation_validate v = Some v' \<Longrightarrow> Invitation_validate v' = Some v' \<and>
    iv_redeemed_by v' = map_option strip (iv_redeemed_by v) \<and> iv_revoked v' = iv_revoked v \<and> iv_role v' = iv_role v \<and>
    iv_expires_at v' = iv_expires_at v \<and> iv_version v' = iv_version v"
  unfolding invitation_valid_iff by (auto simp: Invitation_validate_def Let_def split: if_splits)

section \<open>Histories\<close>

text \<open>
  The identity of a request is one the provider's claims were read into, hence a validated record; the token of a new invitation is
  fresh (\<^verbatim>\<open>secrets.token_urlsafe(32)\<close>). Nothing else is assumed about the requests, their order or the clock.
\<close>

fun request_identity :: "admission_request \<Rightarrow> identity option" where
  "request_identity (Bootstrap subject) = None"
| "request_identity (Create_organization i name) = Some i"
| "request_identity (Invite i q) = Some i"
| "request_identity (Redeem i token) = Some i"
| "request_identity (Set_status i kind k q) = Some i"
| "request_identity (Revoke_invitation i k n) = Some i"
| "request_identity (Update_membership i g k q) = Some i"
| "request_identity (Record_rejection actor reason) = None"

definition authenticated :: "admission_request \<Rightarrow> bool" where
  "authenticated q \<longleftrightarrow> (case request_identity q of None \<Rightarrow> True | Some i \<Rightarrow> Identity_validate i = Some i)"

definition fresh_token :: "readings \<Rightarrow> admission_request \<Rightarrow> documents \<Rightarrow> bool" where
  "fresh_token rd q s \<longleftrightarrow> (case q of Invite i x \<Rightarrow> dget s (invitation_path (rd_token rd)) = None | _ \<Rightarrow> True)"

inductive admission_step :: "documents \<Rightarrow> documents \<Rightarrow> bool" where
  served: "serve rd q s = (r, s') \<Longrightarrow> authenticated q \<Longrightarrow> fresh_token rd q s \<Longrightarrow> admission_step s s'"

lemma identity_valid_strip: "Identity_validate i = Some i \<Longrightarrow> strip (id_subject i) = id_subject i"
  by (cases i) (auto simp: Identity_validate_def Let_def split: if_splits)

section \<open>Every document is valid and sits at its own path\<close>

fun document_ok :: "string \<Rightarrow> document \<Rightarrow> bool" where
  "document_ok p (Doc_user u) \<longleftrightarrow> User_validate u = Some u \<and> (\<exists>subject. p = user_path subject \<and> us_subject u = strip subject)"
| "document_ok p (Doc_organization g) \<longleftrightarrow> Organization_validate g = Some g \<and> p = organization_path (og_organization_id g)"
| "document_ok p (Doc_membership m) \<longleftrightarrow> Membership_validate m = Some m \<and> p = member_path (mb_organization_id m) (mb_subject m)"
| "document_ok p (Doc_invitation v) \<longleftrightarrow> Invitation_validate v = Some v \<and> (\<exists>k. p = invitations_path k)"
| "document_ok p (Doc_audit a) \<longleftrightarrow> p = audit_path (au_event_id a)"
| "document_ok p (Doc_bootstrap subject n) \<longleftrightarrow> p = bootstrap_path"
| "document_ok p (Doc_other n) \<longleftrightarrow> False"

definition documents_ok :: "documents \<Rightarrow> bool" where
  "documents_ok s \<longleftrightarrow> (\<forall>p d. dget s p = Some d \<longrightarrow> document_ok p d)"

lemma documents_okD: "documents_ok s \<Longrightarrow> dget s p = Some d \<Longrightarrow> document_ok p d"
  by (simp add: documents_ok_def)

lemma documents_ok_put: "documents_ok s \<Longrightarrow> document_ok p d \<Longrightarrow> documents_ok (dput p d s)"
  by (simp add: documents_ok_def)

lemma documents_ok_audit: "documents_ok s \<Longrightarrow> documents_ok (with_audit e s)"
  by (simp add: documents_ok_def with_audit_def)

lemma dget_with_audit: "dget (with_audit e s) p = (if p = audit_path (au_event_id e) then Some (Doc_audit e) else dget s p)"
  by (simp add: with_audit_def)

text \<open>A stored document read as one of the models is the stored record itself.\<close>

lemma stored_user: "document_ok p d \<Longrightarrow> as_user d = Some u \<Longrightarrow> d = Doc_user u"
  by (cases d) auto

lemma stored_organization: "document_ok p d \<Longrightarrow> as_organization d = Some g \<Longrightarrow> d = Doc_organization g"
  by (cases d) auto

lemma stored_membership: "document_ok p d \<Longrightarrow> as_membership d = Some m \<Longrightarrow> d = Doc_membership m"
  by (cases d) auto

lemma stored_invitation: "document_ok p d \<Longrightarrow> as_invitation d = Some v \<Longrightarrow> d = Doc_invitation v"
  by (cases d) auto

lemmas stored = stored_user stored_organization stored_membership stored_invitation

text \<open>And the kind of a document is the kind of its path.\<close>

lemma document_at_users: "document_ok (users_path k) d \<Longrightarrow> \<exists>u. d = Doc_user u"
  by (cases d) (auto simp: user_path_def member_path_def)

lemma document_at_organization: "document_ok (organization_path k) d \<Longrightarrow> CHR ''/'' \<notin> set k \<Longrightarrow> \<exists>g. d = Doc_organization g"
  using organization_not_member by (cases d) (auto simp: user_path_def member_path_def)

lemma document_at_invitations: "document_ok (invitations_path k) d \<Longrightarrow> \<exists>v. d = Doc_invitation v"
  by (cases d) (auto simp: user_path_def member_path_def)

lemma document_at_members: "document_ok (members_path g k) d \<Longrightarrow> is_identifier g \<Longrightarrow>
    \<exists>m. d = Doc_membership m \<and> mb_organization_id m = g \<and> user_key (mb_subject m) = k"
proof (cases d)
  case (Doc_organization h)
  then show "document_ok (members_path g k) d \<Longrightarrow> is_identifier g \<Longrightarrow> ?thesis"
    using organization_not_member [OF identifier_no_slash(1)] by (auto simp: organization_valid_iff) metis
qed (auto simp: user_path_def member_path_def membership_valid_iff members_path_inj)

lemma redeeming_user_cases:
  assumes "documents_ok s" "redeeming_user s i = Some u" "strip (id_subject i) = id_subject i"
  shows "User_validate u = Some u \<and> (\<exists>subject. user_path (id_subject i) = user_path subject \<and> us_subject u = strip subject) \<and>
    (dget s (user_path (id_subject i)) = Some (Doc_user u) \<or>
     dget s (user_path (id_subject i)) = None \<and> us_organization_ids u = [] \<and> \<not> us_platform_admin u \<and> \<not> us_owner u)"
proof (cases "dget s (user_path (id_subject i))")
  case None
  with assms(2) have "User_validate (new_user (id_subject i)) = Some u" by (simp add: redeeming_user_def)
  with user_validated [OF this] None show ?thesis by (auto simp: new_user_def)
next
  case (Some d)
  with assms(2) have "as_user d = Some u" by (simp add: redeeming_user_def)
  with stored_user documents_okD [OF assms(1) Some] have "d = Doc_user u" by blast
  with documents_okD [OF assms(1) Some] Some show ?thesis by auto
qed

lemma redeemed_valid: "Invitation_validate v = Some v \<Longrightarrow> strip subject = subject \<Longrightarrow> Invitation_validate (redeemed v subject) = Some (redeemed v subject)"
  by (simp add: invitation_valid_iff redeemed_def)

lemma new_membership_valid:
  "Membership_validate (new_membership i v) = Some m \<Longrightarrow> strip (id_subject i) = id_subject i \<Longrightarrow> is_identifier (iv_organization_id v) \<Longrightarrow> m = new_membership i v"
  by (simp add: Membership_validate_def new_membership_def Let_def)

lemma documents_committed:
  assumes "committed rd q s s'" "authenticated q" "documents_ok s"
  shows "documents_ok s'"
  using assms(1)
proof cases
  case (bootstrapped subject u e)
  then show ?thesis using user_validated [OF bootstrapped(5)] assms(3)
    by (auto simp: owner_user_def new_user_def intro!: documents_ok_audit documents_ok_put)
next
  case (created i a name g e)
  with organization_validated [OF created(4)] assms(3) show ?thesis by (auto intro!: documents_ok_audit documents_ok_put)
next
  case (invited i a x d g v e)
  with invitation_validated [OF invited(8)] assms(3) show ?thesis
    by (auto simp: invitation_path_def intro!: documents_ok_audit documents_ok_put)
next
  case (joining token d v i u u' m e)
  have i: "strip (id_subject i) = id_subject i" using assms(2) joining(1) identity_valid_strip by (simp add: authenticated_def)
  have v: "Invitation_validate v = Some v" using documents_okD [OF assms(3) joining(3)] stored_invitation joining(4) by fastforce
  note u = redeeming_user_cases [OF assms(3) joining(6) i]
  have "document_ok (user_path (id_subject i)) (Doc_user u')"
    using u user_validated [OF joining(8)] by (auto simp: joined_def)
  moreover have "document_ok (member_path (iv_organization_id v) (id_subject i)) (Doc_membership m)"
    using new_membership_valid [OF joining(9) i] v i by (simp add: new_membership_def membership_valid_iff invitation_valid_iff)
  moreover have "document_ok (invitation_path token) (Doc_invitation (redeemed v (id_subject i)))"
    using redeemed_valid [OF v i] by (auto simp: invitation_path_def)
  ultimately show ?thesis unfolding joining(2) using assms(3) by (intro documents_ok_audit documents_ok_put)
next
  case (appointed i a k d t x e kind)
  from documents_okD [OF assms(3) appointed(5)] stored_user appointed(6) have "document_ok (users_path k) (Doc_user t)" by blast
  then have "document_ok (users_path k) (Doc_user (t\<lparr>us_platform_admin := su_active x, us_version := us_version t + 1\<rparr>))"
    by (auto simp: user_valid_iff)
  with appointed assms(3) show ?thesis by (simp add: documents_ok_audit documents_ok_put)
next
  case (user_switched i a k d t x e kind)
  from documents_okD [OF assms(3) user_switched(4)] stored_user user_switched(5) have "d = Doc_user t" "document_ok (users_path k) (Doc_user t)" by blast+
  with user_switched(8) have "document_ok (users_path k) (document_activate (su_active x) (su_expected_version x + 1) d)"
    by (auto simp: user_valid_iff)
  with user_switched assms(3) show ?thesis by (simp add: documents_ok_audit documents_ok_put)
next
  case (organization_switched i a k d x e kind)
  note d = documents_okD [OF assms(3) organization_switched(4)]
  from document_at_organization [OF d] identifier_no_slash(2) organization_switched(3) obtain g where "d = Doc_organization g" by blast
  with d organization_switched(5) have "document_ok (organization_path k) (document_activate (su_active x) (su_expected_version x + 1) d)"
    by (auto simp: organization_valid_iff)
  with organization_switched assms(3) show ?thesis by (simp add: documents_ok_audit documents_ok_put)
next
  case (revoking i a k d v n e)
  from documents_okD [OF assms(3) revoking(5)] stored_invitation revoking(6) have "document_ok (invitations_path k) (Doc_invitation v)" by blast
  with revoking assms(3) show ?thesis by (auto simp: invitation_valid_iff intro!: documents_ok_audit documents_ok_put)
next
  case (member_changed i a g k d m x e)
  from documents_okD [OF assms(3) member_changed(6)] stored_membership member_changed(7) have "document_ok (members_path g k) (Doc_membership m)" by blast
  then have "document_ok (members_path g k) (Doc_membership (m\<lparr>mb_active := su_active x, mb_role := mu_role x, mb_version := mb_version m + 1\<rparr>))"
    by (auto simp: membership_valid_iff)
  with member_changed assms(3) show ?thesis by (simp add: documents_ok_audit documents_ok_put)
next
  case (rejecting actor reason e)
  with assms(3) show ?thesis by (simp add: documents_ok_audit)
qed

section \<open>How documents change\<close>

definition user_later :: "user \<Rightarrow> user \<Rightarrow> bool" where
  "user_later u u' \<longleftrightarrow> us_owner u' = us_owner u \<and> prefix (us_organization_ids u) (us_organization_ids u') \<and> us_version u \<le> us_version u' \<and>
     (us_owner u \<longrightarrow> us_active u' = us_active u \<and> us_platform_admin u' = us_platform_admin u)"

definition membership_later :: "membership \<Rightarrow> membership \<Rightarrow> bool" where
  "membership_later m m' \<longleftrightarrow> mb_subject m' = mb_subject m \<and> mb_organization_id m' = mb_organization_id m \<and> mb_version m \<le> mb_version m'"

definition invitation_later :: "invitation \<Rightarrow> invitation \<Rightarrow> bool" where
  "invitation_later v v' \<longleftrightarrow> iv_email v' = iv_email v \<and> iv_organization_id v' = iv_organization_id v \<and> iv_role v' = iv_role v \<and>
     iv_invited_by v' = iv_invited_by v \<and> iv_expires_at v' = iv_expires_at v \<and>
     (v' = v \<or> iv_redeemed_by v = None \<and> \<not> iv_revoked v)"

fun document_later :: "document \<Rightarrow> document \<Rightarrow> bool" where
  "document_later (Doc_user u) d \<longleftrightarrow> (\<exists>u'. d = Doc_user u' \<and> user_later u u')"
| "document_later (Doc_membership m) d \<longleftrightarrow> (\<exists>m'. d = Doc_membership m' \<and> membership_later m m')"
| "document_later (Doc_invitation v) d \<longleftrightarrow> (\<exists>v'. d = Doc_invitation v' \<and> invitation_later v v')"
| "document_later (Doc_organization g) d \<longleftrightarrow> (\<exists>g'. d = Doc_organization g' \<and> og_organization_id g' = og_organization_id g)"
| "document_later (Doc_audit a) d \<longleftrightarrow> (\<exists>a'. d = Doc_audit a')"
| "document_later d d' \<longleftrightarrow> d' = d"

lemma document_later_refl [simp]: "document_later d d"
  by (cases d) (auto simp: user_later_def membership_later_def invitation_later_def)

lemma document_later_trans: "document_later a b \<Longrightarrow> document_later b c \<Longrightarrow> document_later a c"
  by (cases a; cases b) (auto simp: user_later_def membership_later_def invitation_later_def)

definition advances :: "documents \<Rightarrow> documents \<Rightarrow> bool" where
  "advances s s' \<longleftrightarrow> (\<forall>p d. dget s p = Some d \<longrightarrow> (\<exists>d'. dget s' p = Some d' \<and> document_later d d'))"

lemma advancesD: "advances s s' \<Longrightarrow> dget s p = Some d \<Longrightarrow> \<exists>d'. dget s' p = Some d' \<and> document_later d d'"
  by (simp add: advances_def)

lemma advances_refl [simp]: "advances s s"
  by (simp add: advances_def)

lemma advances_trans: "advances s t \<Longrightarrow> advances t u \<Longrightarrow> advances s u"
  unfolding advances_def using document_later_trans by meson

lemma advances_put: "advances s t \<Longrightarrow> (\<And>d. dget s p = Some d \<Longrightarrow> document_later d d') \<Longrightarrow> advances s (dput p d' t)"
  by (simp add: advances_def)

lemma advances_audit:
  assumes "documents_ok s" "advances s t"
  shows "advances s (with_audit e t)"
  unfolding with_audit_def
proof (rule advances_put [OF assms(2)])
  fix d assume "dget s (audit_path (au_event_id e)) = Some d"
  from documents_okD [OF assms(1) this] show "document_later d (Doc_audit e)"
    by (cases d) (auto simp: user_path_def member_path_def)
qed

lemma committed_advances:
  assumes "committed rd q s s'" "authenticated q" "fresh_token rd q s" "documents_ok s"
  shows "advances s s'"
  using assms(1)
proof cases
  case (bootstrapped subject u e)
  then show ?thesis using assms(4) by (auto intro!: advances_audit advances_put)
next
  case (created i a name g e)
  from organization_validated [OF created(4)] have g: "CHR ''/'' \<notin> set (og_organization_id g)" "is_identifier (og_organization_id g)"
    by (auto simp: organization_valid_iff identifier_no_slash)
  have "document_later d (Doc_organization g)" if "dget s (organization_path (og_organization_id g)) = Some d" for d
    using document_at_organization [OF documents_okD [OF assms(4) that] g(1)] documents_okD [OF assms(4) that] by auto
  with created assms(4) show ?thesis by (auto intro!: advances_audit advances_put)
next
  case (invited i a x d g v e)
  then show ?thesis using assms(3,4) by (auto simp: fresh_token_def intro!: advances_audit advances_put)
next
  case (joining token d v i u u' m e)
  have i: "strip (id_subject i) = id_subject i" using assms(2) joining(1) identity_valid_strip by (simp add: authenticated_def)
  have v: "d = Doc_invitation v" using documents_okD [OF assms(4) joining(3)] stored_invitation joining(4) by blast
  note r = redeeming_user_cases [OF assms(4) joining(6) i]
  then have "map strip (us_organization_ids u) = us_organization_ids u" by (simp add: user_valid_iff map_strip_identifiers)
  with r user_validated [OF joining(8)] have "document_later b (Doc_user u')" if "dget s (user_path (id_subject i)) = Some b" for b
    using that by (auto simp: joined_def user_later_def)
  moreover have "dget s (member_path (iv_organization_id v) (id_subject i)) = None" using joining(5) by (simp add: redeemable_def)
  moreover have "document_later d (Doc_invitation (redeemed v (id_subject i)))"
    using joining(5) v by (simp add: redeemable_def redeemed_def invitation_later_def)
  ultimately show ?thesis unfolding joining(2) using joining(3) assms(4) by (intro advances_audit advances_put) auto
next
  case (appointed i a k d t x e kind)
  from documents_okD [OF assms(4) appointed(5)] stored_user appointed(6) have "d = Doc_user t" by blast
  with appointed assms(4) show ?thesis by (auto simp: user_later_def intro!: advances_audit advances_put)
next
  case (user_switched i a k d t x e kind)
  from documents_okD [OF assms(4) user_switched(4)] stored_user user_switched(5) have "d = Doc_user t" by blast
  with user_switched assms(4) show ?thesis by (auto simp: user_later_def intro!: advances_audit advances_put)
next
  case (organization_switched i a k d x e kind)
  from document_at_organization [OF documents_okD [OF assms(4) organization_switched(4)]] identifier_no_slash(2) organization_switched(3)
  obtain g where "d = Doc_organization g" by blast
  with organization_switched assms(4) show ?thesis by (auto intro!: advances_audit advances_put)
next
  case (revoking i a k d v n e)
  from documents_okD [OF assms(4) revoking(5)] stored_invitation revoking(6) have "d = Doc_invitation v" by blast
  with revoking assms(4) show ?thesis by (auto simp: invitation_later_def intro!: advances_audit advances_put)
next
  case (member_changed i a g k d m x e)
  from documents_okD [OF assms(4) member_changed(6)] stored_membership member_changed(7) have "d = Doc_membership m" by blast
  with member_changed assms(4) show ?thesis by (auto simp: membership_later_def intro!: advances_audit advances_put)
next
  case (rejecting actor reason e)
  then show ?thesis using advances_audit [OF assms(4)] by simp
qed

section \<open>Where owners, members and workspaces come from\<close>

lemma dput_origin: "dget (dput p d s) q = Some x \<longleftrightarrow> (if q = p then x = d else dget s q = Some x)"
  by auto

lemma audit_origin: "dget (with_audit e s) p = Some x \<longleftrightarrow> (if p = audit_path (au_event_id e) then x = Doc_audit e else dget s p = Some x)"
  by (auto simp: dget_with_audit)

lemmas origin = dput_origin audit_origin

lemma user_origin:
  assumes "committed rd q s s'" "authenticated q" "documents_ok s" "dget s' p = Some (Doc_user u')"
  obtains (same) u where "dget s p = Some (Doc_user u)" "us_organization_ids u' = us_organization_ids u"
  | (bootstrapped) subject where "p = user_path subject" "dget s bootstrap_path = None" "us_active u'" "us_platform_admin u'"
      "dget s' bootstrap_path = Some (Doc_bootstrap subject 1)" "us_organization_ids u' = []"
  | (joined) i u g m where "p = user_path (id_subject i)" "redeeming_user s i = Some u" "strip (id_subject i) = id_subject i"
      "us_organization_ids u' = us_organization_ids u @ [g]" "us_owner u' = us_owner u" "us_active u'" "us_platform_admin u' = us_platform_admin u"
      "dget s (member_path g (id_subject i)) = None" "dget s' (member_path g (id_subject i)) = Some (Doc_membership m)" "is_identifier g"
  using assms(1)
proof cases
  case (bootstrapped subject u e)
  then show thesis using user_validated [OF bootstrapped(5)] assms(4) that(1,2)
    by (auto simp: origin owner_user_def new_user_def user_path_def split: if_splits)
next
  case (joining token d v i u u2 m e)
  have i: "strip (id_subject i) = id_subject i" using assms(2) joining(1) identity_valid_strip by (simp add: authenticated_def)
  have v: "Invitation_validate v = Some v" using documents_okD [OF assms(3) joining(3)] stored_invitation joining(4) by fastforce
  note r = redeeming_user_cases [OF assms(3) joining(6) i]
  then have "map strip (us_organization_ids u) = us_organization_ids u" by (simp add: user_valid_iff map_strip_identifiers)
  with user_validated [OF joining(8)] v joining(7)
  have u2: "us_organization_ids u2 = us_organization_ids u @ [iv_organization_id v]" "us_owner u2 = us_owner u" "us_active u2"
    "us_platform_admin u2 = us_platform_admin u" "is_identifier (iv_organization_id v)"
    by (auto simp: joined_def invitation_valid_iff)
  have m: "dget s (member_path (iv_organization_id v) (id_subject i)) = None" using joining(5) by (simp add: redeemable_def)
  show thesis
  proof (cases "p = user_path (id_subject i)")
    case True
    with assms(4) joining(2) have "u' = u2" by (simp add: origin user_path_def member_path_def invitation_path_def)
    moreover have "dget s' (member_path (iv_organization_id v) (id_subject i)) = Some (Doc_membership m)"
      unfolding joining(2) by (simp add: origin member_path_def invitation_path_def)
    ultimately show thesis using that(3) [OF True joining(6) i] u2 m by simp
  next
    case False
    with assms(4) joining(2) that(1) show thesis by (auto simp: origin split: if_splits)
  qed
next
  case (appointed i a k d t x e kind)
  from documents_okD [OF assms(3) appointed(5)] stored_user appointed(6) have "d = Doc_user t" by blast
  with appointed assms(4) that(1) show thesis by (auto simp: origin split: if_splits)
next
  case (user_switched i a k d t x e kind)
  from documents_okD [OF assms(3) user_switched(4)] stored_user user_switched(5) have "d = Doc_user t" by blast
  with user_switched assms(4) that(1) show thesis by (auto simp: origin split: if_splits)
next
  case (organization_switched i a k d x e kind)
  from document_at_organization [OF documents_okD [OF assms(3) organization_switched(4)]] identifier_no_slash(2) organization_switched(3)
  obtain g where "d = Doc_organization g" by blast
  with organization_switched assms(4) that(1) show thesis by (auto simp: origin split: if_splits)
qed (use assms(4) that(1) in \<open>auto simp: origin split: if_splits\<close>)

lemma member_origin:
  assumes "committed rd q s s'" "authenticated q" "documents_ok s" "dget s' p = Some (Doc_membership m')"
  obtains (same) m where "dget s p = Some (Doc_membership m)" "mb_subject m' = mb_subject m" "mb_organization_id m' = mb_organization_id m"
  | (joined) k v u where "dget s' (invitations_path k) = Some (Doc_invitation v)" "iv_redeemed_by v = Some (mb_subject m')"
      "iv_organization_id v = mb_organization_id m'" "dget s' (user_path (mb_subject m')) = Some (Doc_user u)"
      "mb_organization_id m' \<in> set (us_organization_ids u)"
  using assms(1)
proof cases
  case (joining token d v i u u2 m e)
  have i: "strip (id_subject i) = id_subject i" using assms(2) joining(1) identity_valid_strip by (simp add: authenticated_def)
  have v: "is_identifier (iv_organization_id v)"
    using documents_okD [OF assms(3) joining(3)] stored_invitation joining(4) by (fastforce simp: invitation_valid_iff)
  have m: "m = new_membership i v" using new_membership_valid [OF joining(9) i v] .
  show thesis
  proof (cases "p = member_path (iv_organization_id v) (id_subject i)")
    case True
    with assms(4) joining(2) m have "m' = new_membership i v" by (simp add: origin user_path_def member_path_def invitation_path_def)
    moreover have "dget s' (invitation_path token) = Some (Doc_invitation (redeemed v (id_subject i)))" "dget s' (user_path (id_subject i)) = Some (Doc_user u2)"
      unfolding joining(2) by (simp_all add: origin member_path_def invitation_path_def user_path_def)
    ultimately show thesis using that(2) user_validated [OF joining(8)] v
      by (auto simp: new_membership_def redeemed_def joined_def invitation_path_def)
  next
    case False
    with assms(4) joining(2) that(1) show thesis by (auto simp: origin split: if_splits)
  qed
next
  case (user_switched i a k d t x e kind)
  from documents_okD [OF assms(3) user_switched(4)] stored_user user_switched(5) have "d = Doc_user t" by blast
  with user_switched assms(4) that(1) show thesis by (auto simp: origin split: if_splits)
next
  case (organization_switched i a k d x e kind)
  from document_at_organization [OF documents_okD [OF assms(3) organization_switched(4)]] identifier_no_slash(2) organization_switched(3)
  obtain g where "d = Doc_organization g" by blast
  with organization_switched assms(4) that(1) show thesis by (auto simp: origin split: if_splits)
next
  case (member_changed i a g k d m x e)
  from documents_okD [OF assms(3) member_changed(6)] stored_membership member_changed(7) have "d = Doc_membership m" by blast
  with member_changed assms(4) that(1) show thesis by (auto simp: origin split: if_splits)
qed (use assms(4) that(1) in \<open>auto simp: origin split: if_splits\<close>)

section \<open>The invariant of every history\<close>

definition owner_ok :: "documents \<Rightarrow> bool" where
  "owner_ok s \<longleftrightarrow> (\<forall>p u. dget s p = Some (Doc_user u) \<longrightarrow> us_owner u \<longrightarrow> us_active u \<and> us_platform_admin u \<and>
     (\<exists>subject n. dget s bootstrap_path = Some (Doc_bootstrap subject n) \<and> p = user_path subject))"

definition members_ok :: "documents \<Rightarrow> bool" where
  "members_ok s \<longleftrightarrow> (\<forall>p m. dget s p = Some (Doc_membership m) \<longrightarrow>
     (\<exists>k v. dget s (invitations_path k) = Some (Doc_invitation v) \<and> iv_redeemed_by v = Some (mb_subject m) \<and>
       iv_organization_id v = mb_organization_id m) \<and>
     (\<exists>u. dget s (user_path (mb_subject m)) = Some (Doc_user u) \<and> mb_organization_id m \<in> set (us_organization_ids u)))"

definition workspaces_ok :: "documents \<Rightarrow> bool" where
  "workspaces_ok s \<longleftrightarrow> (\<forall>k u. dget s (users_path k) = Some (Doc_user u) \<longrightarrow> distinct (us_organization_ids u) \<and>
     (\<forall>g\<in>set (us_organization_ids u). \<exists>m. dget s (members_path g k) = Some (Doc_membership m)))"

definition admission_inv :: "documents \<Rightarrow> bool" where
  "admission_inv s \<longleftrightarrow> documents_ok s \<and> owner_ok s \<and> members_ok s \<and> workspaces_ok s"

lemma owner_committed:
  assumes "committed rd q s s'" "authenticated q" "fresh_token rd q s" "documents_ok s" "owner_ok s"
  shows "owner_ok s'"
  unfolding owner_ok_def
proof (intro allI impI)
  fix p u' assume u': "dget s' p = Some (Doc_user u')" and own: "us_owner u'"
  note adv = advancesD [OF committed_advances [OF assms(1-4)]]
  have keep: "us_active u' \<and> us_platform_admin u' \<and> (\<exists>subject n. dget s' bootstrap_path = Some (Doc_bootstrap subject n) \<and> p = user_path subject)"
    if u: "dget s p = Some (Doc_user u)" for u
  proof -
    from adv [OF u] u' have later: "user_later u u'" by auto
    with own have "us_owner u" by (simp add: user_later_def)
    with assms(5) u obtain subject n where "us_active u" "us_platform_admin u" "dget s bootstrap_path = Some (Doc_bootstrap subject n)" "p = user_path subject"
      unfolding owner_ok_def by blast
    with adv later \<open>us_owner u\<close> show ?thesis by (fastforce simp: user_later_def)
  qed
  from assms(1,2,4) u'
  show "us_active u' \<and> us_platform_admin u' \<and> (\<exists>subject n. dget s' bootstrap_path = Some (Doc_bootstrap subject n) \<and> p = user_path subject)"
  proof (cases rule: user_origin)
    case (same u)
    then show ?thesis using keep by blast
  next
    case (bootstrapped subject)
    then show ?thesis by blast
  next
    case (joined i u g m)
    then show ?thesis using redeeming_user_cases [OF assms(4) joined(2,3)] own keep by auto
  qed
qed

lemma members_committed:
  assumes "committed rd q s s'" "authenticated q" "fresh_token rd q s" "documents_ok s" "members_ok s"
  shows "members_ok s'"
  unfolding members_ok_def
proof (intro allI impI)
  fix p m' assume m': "dget s' p = Some (Doc_membership m')"
  note adv = advancesD [OF committed_advances [OF assms(1-4)]]
  from assms(1,2,4) m'
  show "(\<exists>k v. dget s' (invitations_path k) = Some (Doc_invitation v) \<and> iv_redeemed_by v = Some (mb_subject m') \<and>
       iv_organization_id v = mb_organization_id m') \<and>
     (\<exists>u. dget s' (user_path (mb_subject m')) = Some (Doc_user u) \<and> mb_organization_id m' \<in> set (us_organization_ids u))"
  proof (cases rule: member_origin)
    case (same m)
    from assms(5) same(1) obtain k v u where v: "dget s (invitations_path k) = Some (Doc_invitation v)" "iv_redeemed_by v = Some (mb_subject m)"
      "iv_organization_id v = mb_organization_id m"
      and u: "dget s (user_path (mb_subject m)) = Some (Doc_user u)" "mb_organization_id m \<in> set (us_organization_ids u)"
      unfolding members_ok_def by blast
    from adv [OF v(1)] v(2,3) have "\<exists>v'. dget s' (invitations_path k) = Some (Doc_invitation v') \<and> iv_redeemed_by v' = Some (mb_subject m) \<and>
       iv_organization_id v' = mb_organization_id m" by (auto simp: invitation_later_def)
    moreover from adv [OF u(1)] u(2) have "\<exists>u'. dget s' (user_path (mb_subject m)) = Some (Doc_user u') \<and> mb_organization_id m \<in> set (us_organization_ids u')"
      using set_mono_prefix by (fastforce simp: user_later_def)
    ultimately show ?thesis using same(2,3) by auto
  next
    case (joined k v u)
    then show ?thesis by blast
  qed
qed

lemma workspaces_committed:
  assumes "committed rd q s s'" "authenticated q" "fresh_token rd q s" "documents_ok s" "workspaces_ok s"
  shows "workspaces_ok s'"
  unfolding workspaces_ok_def
proof (intro allI impI)
  fix k u' assume u': "dget s' (users_path k) = Some (Doc_user u')"
  note adv = advancesD [OF committed_advances [OF assms(1-4)]]
  have keep: "distinct (us_organization_ids u) \<and> (\<forall>g\<in>set (us_organization_ids u). \<exists>m. dget s' (members_path g k) = Some (Doc_membership m))"
    if "dget s (users_path k) = Some (Doc_user u)" for u
    using assms(5) that adv unfolding workspaces_ok_def by fastforce
  from assms(1,2,4) u'
  show "distinct (us_organization_ids u') \<and> (\<forall>g\<in>set (us_organization_ids u'). \<exists>m. dget s' (members_path g k) = Some (Doc_membership m))"
  proof (cases rule: user_origin)
    case (same u)
    then show ?thesis using keep by simp
  next
    case (bootstrapped subject)
    then show ?thesis by simp
  next
    case (joined i u g m)
    from joined(1) have k: "k = user_key (id_subject i)" by (simp add: user_path_def)
    have old: "distinct (us_organization_ids u) \<and> (\<forall>h\<in>set (us_organization_ids u). \<exists>m. dget s' (members_path h k) = Some (Doc_membership m))"
      using redeeming_user_cases [OF assms(4) joined(2,3)] keep k by (auto simp: user_path_def)
    moreover have "g \<notin> set (us_organization_ids u)"
      using redeeming_user_cases [OF assms(4) joined(2,3)] joined(8) assms(5) k
      by (fastforce simp: workspaces_ok_def user_path_def member_path_def)
    ultimately show ?thesis using joined(4,9) k by (auto simp: member_path_def)
  qed
qed

lemma admission_inv_empty [simp]: "admission_inv []"
  by (simp add: admission_inv_def documents_ok_def owner_ok_def members_ok_def workspaces_ok_def)

lemma admission_inv_step:
  assumes "admission_step s s'" "admission_inv s"
  shows "admission_inv s' \<and> advances s s'"
  using assms(1)
proof cases
  case (served rd q r)
  from serve_committed [OF served(1)] show ?thesis
  proof
    assume c: "committed rd q s s'"
    from assms(2) have i: "documents_ok s" "owner_ok s" "members_ok s" "workspaces_ok s" by (simp_all add: admission_inv_def)
    note a = c served(2,3) i(1)
    show ?thesis unfolding admission_inv_def
      using documents_committed [OF c served(2) i(1)] owner_committed [OF a i(2)] members_committed [OF a i(3)]
        workspaces_committed [OF a i(4)] committed_advances [OF a] by blast
  qed (use assms(2) in simp)
qed

lemma admission_steps: "admission_step\<^sup>*\<^sup>* s s' \<Longrightarrow> admission_inv s \<Longrightarrow> admission_inv s' \<and> advances s s'"
  by (induction rule: rtranclp_induct) (auto dest: admission_inv_step intro: advances_trans)

lemma owner_okD: "owner_ok s \<Longrightarrow> dget s p = Some (Doc_user u) \<Longrightarrow> us_owner u \<Longrightarrow>
    \<exists>subject n. dget s bootstrap_path = Some (Doc_bootstrap subject n) \<and> p = user_path subject"
  unfolding owner_ok_def by blast

lemma reachable_inv: "admission_step\<^sup>*\<^sup>* [] s \<Longrightarrow> admission_inv s"
  using admission_steps admission_inv_empty by blast

end
