(* ===== verification/Admission_Guarantees.thy ===== *)
theory Admission_Guarantees
  imports Admission_Invariants
begin

text \<open>
  What the admission service guarantees after any history of requests: the owner stays in charge, memberships
  come from redeemed invitations, an invitation admits once, privileged changes need an administrator and are audited, a person sees
  exactly the active workspaces, and only verified accounts become identities.
\<close>

section \<open>Identities\<close>

lemma Identity_validate_idem: "Identity_validate i = Some i' \<Longrightarrow> Identity_validate i' = Some i' \<and> id_subject i' = strip (id_subject i) \<and>
    id_email i' = strip (id_email i) \<and> id_mfa i' = id_mfa i"
  by (auto simp: Identity_validate_def Let_def split: if_splits)

lemma identity_of_claims_Inr:
  assumes "identity_of_claims claims = Inr i"
  obtains firebase sub email where "claim claims ''email_verified'' = JBool True" "claim claims ''sub'' = JStr sub"
    "claim claims ''email'' = JStr email" "dget_or claims ''firebase'' (JObj []) = JObj firebase"
    "claim firebase ''sign_in_provider'' \<notin> {JStr ''anonymous'', JStr ''custom''}" "claim firebase ''tenant'' = JNull"
    "Identity_validate \<lparr>id_subject = sub, id_email = email, id_mfa = truthy (claim firebase ''sign_in_second_factor'')\<rparr> = Some i"
  using assms unfolding identity_of_claims_def
  by (auto split: json.splits bool.splits if_splits option.splits)

lemma verify_session_Inr:
  "verify_session verify_cookie session = Inr i \<Longrightarrow> \<exists>claims. verify_cookie session = Answer claims \<and> identity_of_claims claims = Inr i"
  by (auto simp: verify_session_def split: provider_answer.splits sum.splits)

lemma bearer_identity_Inr:
  "bearer_identity verify header = Inr i \<Longrightarrow>
    \<exists>session. header = Some (''Bearer '' @ session) \<and> session \<noteq> [] \<and> length session \<le> 16384 \<and> verify session = Inr i"
  by (auto simp: bearer_identity_def removeprefix_def prefix_def Let_def split: option.splits if_splits)

text \<open>
  Only verified accounts become identities: the identity behind a request is accepted only from a bearer header whose session the provider
  accepted, with a verified e-mail address, no anonymous or custom sign-in and no foreign tenant; it carries the subject and the address of
  the claims, is a second-factor identity only if the claims say so, and is a valid record.
\<close>

theorem identity_from_verified_claims:
  "case bearer_identity (verify_session verify_cookie) header of Inl e \<Rightarrow> True | Inr i \<Rightarrow>
     (\<exists>session claims firebase sub email. header = Some (''Bearer '' @ session) \<and> session \<noteq> [] \<and> length session \<le> 16384 \<and>
        verify_cookie session = Answer claims \<and> claim claims ''email_verified'' = JBool True \<and> claim claims ''sub'' = JStr sub \<and>
        claim claims ''email'' = JStr email \<and> dget_or claims ''firebase'' (JObj []) = JObj firebase \<and>
        claim firebase ''sign_in_provider'' \<notin> {JStr ''anonymous'', JStr ''custom''} \<and> claim firebase ''tenant'' = JNull \<and>
        id_subject i = strip sub \<and> id_email i = strip email \<and> id_mfa i = truthy (claim firebase ''sign_in_second_factor'') \<and>
        Identity_validate i = Some i)"
proof (cases "bearer_identity (verify_session verify_cookie) header")
  case (Inr i)
  from bearer_identity_Inr [OF Inr] obtain session where h: "header = Some (''Bearer '' @ session)" "session \<noteq> []" "length session \<le> 16384"
    "verify_session verify_cookie session = Inr i" by blast
  from verify_session_Inr [OF h(4)] obtain claims where c: "verify_cookie session = Answer claims" "identity_of_claims claims = Inr i" by blast
  from identity_of_claims_Inr [OF c(2)] obtain firebase sub email where f: "claim claims ''email_verified'' = JBool True" "claim claims ''sub'' = JStr sub"
    "claim claims ''email'' = JStr email" "dget_or claims ''firebase'' (JObj []) = JObj firebase"
    "claim firebase ''sign_in_provider'' \<notin> {JStr ''anonymous'', JStr ''custom''}" "claim firebase ''tenant'' = JNull"
    "Identity_validate \<lparr>id_subject = sub, id_email = email, id_mfa = truthy (claim firebase ''sign_in_second_factor'')\<rparr> = Some i" by metis
  from Identity_validate_idem [OF f(7)] have "id_subject i = strip sub" "id_email i = strip email"
    "id_mfa i = truthy (claim firebase ''sign_in_second_factor'')" "Identity_validate i = Some i" by simp_all
  with Inr h c(1) f show ?thesis by auto
qed simp

section \<open>The owner\<close>

text \<open>
  C23. The owner stays in charge: after any history of requests there is at most one owner, and whoever is the owner at some moment is
  active and an administrator then and after every further history; no request suspends, demotes or replaces the owner.
\<close>

theorem owner_stays_in_charge:
  assumes "admission_step\<^sup>*\<^sup>* [] s" "admission_step\<^sup>*\<^sup>* s s'" "dget s p = Some (Doc_user u)" "us_owner u"
  shows "us_active u \<and> us_platform_admin u \<and>
    (\<exists>u'. dget s' p = Some (Doc_user u') \<and> us_owner u' \<and> us_active u' \<and> us_platform_admin u') \<and>
    {p'. \<exists>w. dget s' p' = Some (Doc_user w) \<and> us_owner w} = {p}"
proof -
  note i = reachable_inv [OF assms(1)]
  from admission_steps [OF assms(2) i] have i': "owner_ok s'" and adv: "advances s s'" by (auto simp: admission_inv_def)
  from i assms(3,4) have "us_active u \<and> us_platform_admin u" unfolding admission_inv_def owner_ok_def by blast
  moreover from advancesD [OF adv assms(3)] assms(4) obtain u' where u': "dget s' p = Some (Doc_user u')" "us_owner u'"
    by (auto simp: user_later_def)
  moreover from i' u' have "us_active u' \<and> us_platform_admin u'" unfolding owner_ok_def by blast
  moreover have "p' = p" if "dget s' p' = Some (Doc_user w)" "us_owner w" for p' w
    using owner_okD [OF i' u'] owner_okD [OF i' that] by auto
  ultimately show ?thesis by blast
qed

section \<open>Invitations\<close>

text \<open>
  Membership comes only from an invitation: after any history, every membership belongs to an invitation to the same organization that
  this person redeemed, sits under the person's own key, and the person's user record lists the organization.
\<close>

theorem membership_by_invitation:
  assumes "admission_step\<^sup>*\<^sup>* [] s" "dget s p = Some (Doc_membership m)"
  shows "p = member_path (mb_organization_id m) (mb_subject m) \<and>
    (\<exists>k v. dget s (invitations_path k) = Some (Doc_invitation v) \<and> iv_redeemed_by v = Some (mb_subject m) \<and>
       iv_organization_id v = mb_organization_id m) \<and>
    (\<exists>u. dget s (user_path (mb_subject m)) = Some (Doc_user u) \<and> mb_organization_id m \<in> set (us_organization_ids u))"
proof -
  note i = reachable_inv [OF assms(1)]
  then have "document_ok p (Doc_membership m)" using assms(2) documents_okD [of s p] by (simp add: admission_inv_def)
  with i assms(2) show ?thesis unfolding admission_inv_def members_ok_def by auto
qed

lemma read_user_total: "documents_ok s \<Longrightarrow> \<exists>u. read_user x s = (Inr u, s)"
proof (cases "dget s (user_path x)")
  case (Some d)
  assume "documents_ok s"
  from documents_okD [OF this Some] obtain u where "d = Doc_user u" "User_validate u = Some u"
    using document_at_users [of "user_key x" d] by (auto simp: user_path_def)
  with Some show ?thesis by (auto simp: read_user_iff)
qed (simp add: read_user_iff)

lemma redeem_commits:
  assumes "redeem rd i token s = (Inr view, t)"
  shows "committed rd (Redeem i token) s t \<and> access i t = (Inr view, t)"
proof -
  from assms obtain x t1 where "redeem_operation rd i (invitation_path token) s = (Inr x, t1)" "access i t1 = (Inr view, t)"
    by (auto simp: redeem_def tx_iff)
  moreover from access_same [OF this(2)] have "t = t1" .
  ultimately show ?thesis using redeem_committed by blast
qed

text \<open>
  C22. An invitation admits once: after a token was redeemed successfully, whatever requests follow, redeeming it again is denied to
  everyone, at every time, and changes nothing.
\<close>

theorem invitation_admits_once:
  assumes "admission_step\<^sup>*\<^sup>* [] s" "Identity_validate i = Some i" "redeem rd i token s = (Inr view, t)" "admission_step\<^sup>*\<^sup>* t s'"
  shows "redeem rd' j token s' = (Inl AccessDenied, s')"
proof -
  from redeem_commits [OF assms(3)] have c: "committed rd (Redeem i token) s t" ..
  have "admission_step s t"
    by (rule admission_step.served [of rd "Redeem i token" _ "Inr ()"]) (use assms(2,3) in \<open>auto simp: serve_def bnd_def authenticated_def fresh_token_def\<close>)
  with reachable_inv [OF assms(1)] have t: "admission_inv t" using admission_inv_step by blast
  from c obtain v where "dget t (invitation_path token) = Some (Doc_invitation (redeemed v (id_subject i)))"
    by cases (auto simp: dget_with_audit invitation_path_def)
  with admission_steps [OF assms(4) t] have s': "admission_inv s'" and v: "dget s' (invitation_path token) = Some (Doc_invitation (redeemed v (id_subject i)))"
    using advancesD by (fastforce simp: invitation_later_def redeemed_def)+
  from s' have ok: "documents_ok s'" by (simp add: admission_inv_def)
  from documents_okD [OF ok v] have a: "Invitation_validate (redeemed v (id_subject i)) = Some (redeemed v (id_subject i))" by simp
  obtain x y where "read_user (id_subject j) s' = (Inr x, s')" "read_user (iv_invited_by v) s' = (Inr y, s')"
    using read_user_total [OF ok] by blast
  with v a have "redeem_operation rd' j (invitation_path token) s' = (Inl AccessDenied, s')"
    by (simp add: redeem_operation_def tx_get_def bnd_def redeemed_def)
  then show ?thesis by (simp add: redeem_def bnd_def transact_def)
qed

section \<open>Access\<close>

definition workspace_at :: "documents \<Rightarrow> identity \<Rightarrow> string \<Rightarrow> workspace_entry list" where
  "workspace_at s i g = (case (dget s (organization_path g), dget s (member_path g (id_subject i))) of
     (Some (Doc_organization og), Some (Doc_membership mb)) \<Rightarrow>
       if og_active og \<and> mb_active mb then [\<lparr>wk_organization = og, wk_membership = mb\<rparr>] else []
   | _ \<Rightarrow> [])"

lemma collect_workspaces_eq:
  assumes "documents_ok s" "list_all is_identifier gs"
  shows "collect_workspaces i gs s = (Inr (concat (map (workspace_at s i) gs)), s)"
  using assms(2)
proof (induction gs)
  case (Cons g gs)
  then have g: "is_identifier g" and IH: "collect_workspaces i gs s = (Inr (concat (map (workspace_at s i) gs)), s)" by auto
  have o: "\<exists>og. d = Doc_organization og \<and> Organization_validate og = Some og" if "dget s (organization_path g) = Some d" for d
    using document_at_organization [OF documents_okD [OF assms(1) that] identifier_no_slash(1) [OF g]] documents_okD [OF assms(1) that] by auto
  have m: "\<exists>mb. d = Doc_membership mb \<and> Membership_validate mb = Some mb" if "dget s (member_path g (id_subject i)) = Some d" for d
    using document_at_members [OF documents_okD [OF assms(1) that [unfolded member_path_def]] g] documents_okD [OF assms(1) that] by auto
  show ?case
  proof (cases "dget s (organization_path g)")
    case None
    with IH show ?thesis by (cases "dget s (member_path g (id_subject i))") (simp_all add: tx_get_def bnd_def workspace_at_def [of s i g])
  next
    case (Some d)
    with o obtain og where og: "d = Doc_organization og" "Organization_validate og = Some og" by blast
    show ?thesis
    proof (cases "dget s (member_path g (id_subject i))")
      case None
      with IH Some og show ?thesis by (simp add: tx_get_def bnd_def workspace_at_def [of s i g])
    next
      case (Some e)
      with m obtain mb where "e = Doc_membership mb" "Membership_validate mb = Some mb" by blast
      with IH Some \<open>dget s (organization_path g) = Some d\<close> og show ?thesis by (simp add: tx_get_def bnd_def workspace_at_def [of s i g])
    qed
  qed
qed simp

lemma user_at: "documents_ok s \<Longrightarrow> dget s (user_path x) = Some d \<Longrightarrow> \<exists>u. d = Doc_user u \<and> User_validate u = Some u"
  using documents_okD [of s "user_path x" d] document_at_users [of "user_key x" d] by (auto simp: user_path_def)

definition user_in :: "documents \<Rightarrow> string \<Rightarrow> user option" where
  "user_in s x = (case dget s (user_path x) of Some (Doc_user u) \<Rightarrow> Some u | _ \<Rightarrow> None)"

lemma user_in_iff: "user_in s x = Some u \<longleftrightarrow> dget s (user_path x) = Some (Doc_user u)"
  by (auto simp: user_in_def split: option.splits document.splits)

lemma read_user_eq: "documents_ok s \<Longrightarrow> read_user x s = (Inr (user_in s x), s)"
  using user_at [of s x] by (auto simp: read_user_iff user_in_def split: option.splits)

definition open_workspaces :: "documents \<Rightarrow> identity \<Rightarrow> workspace_entry list" where
  "open_workspaces s i = (case user_in s (id_subject i) of
     Some u \<Rightarrow> if us_active u then concat (map (workspace_at s i) (us_organization_ids u)) else []
   | None \<Rightarrow> [])"

lemma access_eq:
  assumes "documents_ok s"
  shows "access i s = (Inr (access_view_of i (user_in s (id_subject i)) (open_workspaces s i)), s)"
proof (cases "user_in s (id_subject i)")
  case None
  with read_user_eq [OF assms] show ?thesis by (simp add: access_def bnd_def transact_def open_workspaces_def)
next
  case (Some u)
  then have "list_all is_identifier (us_organization_ids u)"
    using documents_okD [OF assms] by (fastforce simp: user_in_iff user_valid_iff)
  with Some read_user_eq [OF assms] collect_workspaces_eq [OF assms] show ?thesis
    by (simp add: access_def bnd_def transact_def open_workspaces_def)
qed

text \<open>A workspace is open to a person exactly when person, organization and membership are active.\<close>

definition open_to :: "documents \<Rightarrow> identity \<Rightarrow> workspace_entry \<Rightarrow> bool" where
  "open_to s i w \<longleftrightarrow> (\<exists>u. dget s (user_path (id_subject i)) = Some (Doc_user u) \<and> us_active u) \<and>
     dget s (organization_path (og_organization_id (wk_organization w))) = Some (Doc_organization (wk_organization w)) \<and>
     dget s (member_path (og_organization_id (wk_organization w)) (id_subject i)) = Some (Doc_membership (wk_membership w)) \<and>
     og_active (wk_organization w) \<and> mb_active (wk_membership w)"

lemma workspace_at_iff:
  assumes "documents_ok s"
  shows "w \<in> set (workspace_at s i g) \<longleftrightarrow> og_organization_id (wk_organization w) = g \<and>
    dget s (organization_path g) = Some (Doc_organization (wk_organization w)) \<and>
    dget s (member_path g (id_subject i)) = Some (Doc_membership (wk_membership w)) \<and> og_active (wk_organization w) \<and> mb_active (wk_membership w)"
proof -
  have "og_organization_id og = g" if "dget s (organization_path g) = Some (Doc_organization og)" for og
    using documents_okD [OF assms that] by simp
  then show ?thesis by (cases w) (auto simp: workspace_at_def split: option.splits document.splits if_splits)
qed

lemma open_workspaces_iff:
  assumes "admission_inv s"
  shows "w \<in> set (open_workspaces s i) \<longleftrightarrow> open_to s i w"
proof
  have ok: "documents_ok s" using assms by (simp add: admission_inv_def)
  assume "w \<in> set (open_workspaces s i)"
  then show "open_to s i w"
    by (cases "user_in s (id_subject i)")
      (auto simp: open_workspaces_def open_to_def user_in_iff [symmetric] workspace_at_iff [OF ok] split: if_splits)
next
  have ok: "documents_ok s" using assms by (simp add: admission_inv_def)
  assume w: "open_to s i w"
  let ?g = "og_organization_id (wk_organization w)" and ?m = "wk_membership w"
  from w obtain u where u: "dget s (user_path (id_subject i)) = Some (Doc_user u)" "us_active u"
    and o: "dget s (organization_path ?g) = Some (Doc_organization (wk_organization w))"
    and m: "dget s (member_path ?g (id_subject i)) = Some (Doc_membership ?m)" by (auto simp: open_to_def)
  from documents_okD [OF ok o] have g: "is_identifier ?g" by (simp add: organization_valid_iff)
  from document_at_members [OF documents_okD [OF ok m [unfolded member_path_def]] g]
  have mm: "mb_organization_id ?m = ?g" "user_key (mb_subject ?m) = user_key (id_subject i)" by auto
  from assms m obtain u' where "dget s (user_path (mb_subject ?m)) = Some (Doc_user u')" "mb_organization_id ?m \<in> set (us_organization_ids u')"
    unfolding admission_inv_def members_ok_def by blast
  with mm u have "?g \<in> set (us_organization_ids u)" by (simp add: user_path_def)
  with u w show "w \<in> set (open_workspaces s i)"
    by (auto simp: open_workspaces_def user_in_def open_to_def workspace_at_iff [OF ok])
qed

text \<open>
  A person sees exactly the open workspaces: after any history the access view is returned and nothing changes; it lists a workspace
  if and only if the person, the organization and the membership are active; administration is shown only for an active administrator
  with a second factor, ownership only then too, and a suspended person sees nothing.
\<close>

theorem access_exact:
  assumes "admission_step\<^sup>*\<^sup>* [] s"
  shows "\<exists>view. access i s = (Inr view, s) \<and> (\<forall>w. (w \<in> set (av_workspaces view)) = open_to s i w) \<and>
    av_platform_admin view = (\<exists>u. dget s (user_path (id_subject i)) = Some (Doc_user u) \<and> us_active u \<and> us_platform_admin u \<and> id_mfa i) \<and>
    av_owner view = (\<exists>u. dget s (user_path (id_subject i)) = Some (Doc_user u) \<and> us_owner u \<and> id_mfa i) \<and>
    (av_status view = ''suspended'') = (\<exists>u. dget s (user_path (id_subject i)) = Some (Doc_user u) \<and> \<not> us_active u)"
proof -
  note i = reachable_inv [OF assms]
  then have ok: "documents_ok s" by (simp add: admission_inv_def)
  have own: "us_active u \<and> us_platform_admin u" if "dget s (user_path (id_subject i)) = Some (Doc_user u)" "us_owner u" for u
    using i that unfolding admission_inv_def owner_ok_def by blast
  let ?v = "access_view_of i (user_in s (id_subject i)) (open_workspaces s i)"
  have "\<forall>w. (w \<in> set (av_workspaces ?v)) = open_to s i w" using open_workspaces_iff [OF i] by (simp add: access_view_of_def Let_def)
  moreover have "av_platform_admin ?v = (\<exists>u. dget s (user_path (id_subject i)) = Some (Doc_user u) \<and> us_active u \<and> us_platform_admin u \<and> id_mfa i)"
    by (auto simp: access_view_of_def Let_def user_in_iff [symmetric] split: option.split)
  moreover have "av_owner ?v = (\<exists>u. dget s (user_path (id_subject i)) = Some (Doc_user u) \<and> us_owner u \<and> id_mfa i)"
    using own by (auto simp: access_view_of_def Let_def user_in_iff [symmetric] split: option.split)
  moreover have "(av_status ?v = ''suspended'') = (\<exists>u. dget s (user_path (id_subject i)) = Some (Doc_user u) \<and> \<not> us_active u)"
    by (auto simp: access_view_of_def Let_def user_in_iff [symmetric] split: option.split)
  ultimately show ?thesis using access_eq [OF ok] by blast
qed

section \<open>Authorization and audit\<close>

fun authorized :: "documents \<Rightarrow> instant \<Rightarrow> admission_request \<Rightarrow> bool" where
  "authorized s now (Bootstrap subject) \<longleftrightarrow> dget s bootstrap_path = None \<and> dget s (user_path subject) = None"
| "authorized s now (Create_organization i name) \<longleftrightarrow> (\<exists>a. admin_in s i a)"
| "authorized s now (Invite i q) \<longleftrightarrow> (\<exists>a. admin_in s i a)"
| "authorized s now (Redeem i token) \<longleftrightarrow> (\<exists>d v. dget s (invitation_path token) = Some d \<and> as_invitation d = Some v \<and> redeemable s i now v)"
| "authorized s now (Set_status i kind k q) \<longleftrightarrow> (\<exists>a. admin_in s i a \<and> (if kind = ''administrators'' then us_owner a else True))"
| "authorized s now (Revoke_invitation i k n) \<longleftrightarrow> (\<exists>a. admin_in s i a)"
| "authorized s now (Update_membership i g k q) \<longleftrightarrow> (\<exists>a. admin_in s i a)"
| "authorized s now (Record_rejection actor reason) \<longleftrightarrow> True"

fun actor_of :: "admission_request \<Rightarrow> string" where
  "actor_of (Bootstrap subject) = subject"
| "actor_of (Record_rejection actor reason) = actor"
| "actor_of q = (case request_identity q of None \<Rightarrow> [] | Some i \<Rightarrow> id_subject i)"

lemma audit_event_of_facts: "audit_event_of rd actor action r = Some e \<Longrightarrow> au_event_id e = strip (''access_'' @ rd_audit_uuid rd) \<and>
    au_actor e = strip actor \<and> au_occurred_at e = rd_audit_time rd"
  by (auto simp: audit_event_of_def AdmissionAudit_validate_def Let_def split: if_splits)

lemma committed_authorized:
  assumes "committed rd q s s'"
  shows "authorized s (rd_now rd) q \<and> (\<exists>e. dget s' (audit_path (strip (''access_'' @ rd_audit_uuid rd))) = Some (Doc_audit e) \<and>
    au_actor e = strip (actor_of q) \<and> au_occurred_at e = rd_audit_time rd)"
  using assms by cases (auto simp: dget_with_audit dest!: audit_event_of_facts)


lemma administrator_changed:
  assumes "admission_step\<^sup>*\<^sup>* [] s" "authenticated q" "fresh_token rd q s" "serve rd q s = (r, s')"
    "dget s p = Some (Doc_user u)" "dget s' p = Some (Doc_user u')" "us_platform_admin u' \<noteq> us_platform_admin u"
  shows "\<exists>i k x a. q = Set_status i ''administrators'' k x \<and> admin_in s i a \<and> us_owner a \<and> id_mfa i \<and> p = users_path k \<and> \<not> us_owner u"
proof -
  have ok: "documents_ok s" using reachable_inv [OF assms(1)] by (simp add: admission_inv_def)
  from serve_committed [OF assms(4)] assms(5-7) have c: "committed rd q s s'" by auto
  from c show ?thesis
  proof cases
    case (appointed i a k d t x e kind)
    from documents_okD [OF ok appointed(5)] stored_user appointed(6) have d: "d = Doc_user t" by blast
    have "p = users_path k" using assms(5-7) appointed(12) by (auto simp: origin split: if_splits)
    with d appointed assms(5) show ?thesis by (auto simp: admin_in_def)
  next
    case (joining token d v i t t' m e)
    have i: "strip (id_subject i) = id_subject i" using assms(2) joining(1) identity_valid_strip by (simp add: authenticated_def)
    have "us_platform_admin t' = us_platform_admin t" using user_validated [OF joining(8)] by (simp add: joined_def)
    with redeeming_user_cases [OF ok joining(6) i] assms(5-7) joining(2) show ?thesis
      by (auto simp: origin user_path_def member_path_def invitation_path_def split: if_splits)
  next
    case (user_switched i a k d t x e kind)
    from documents_okD [OF ok user_switched(4)] stored_user user_switched(5) have "d = Doc_user t" by blast
    with user_switched assms(5-7) show ?thesis by (auto simp: origin split: if_splits)
  next
    case (organization_switched i a k d x e kind)
    from document_at_organization [OF documents_okD [OF ok organization_switched(4)]] identifier_no_slash(2) organization_switched(3)
    obtain g where "d = Doc_organization g" by blast
    with organization_switched assms(5-7) show ?thesis by (auto simp: origin split: if_splits)
  qed (use assms(5-7) in \<open>auto simp: origin split: if_splits\<close>)
qed

text \<open>The users whose administrator flag differs between two stores, and the only ones a request may change.\<close>

definition administrators_changed :: "documents \<Rightarrow> documents \<Rightarrow> string set" where
  "administrators_changed s s' = {p. \<exists>u u'. dget s p = Some (Doc_user u) \<and> dget s' p = Some (Doc_user u') \<and> us_platform_admin u' \<noteq> us_platform_admin u}"

definition appointable :: "documents \<Rightarrow> admission_request \<Rightarrow> string set" where
  "appointable s q = {p. \<exists>i k x a u. q = Set_status i ''administrators'' k x \<and> admin_in s i a \<and> us_owner a \<and> id_mfa i \<and> p = users_path k \<and>
     dget s p = Some (Doc_user u) \<and> \<not> us_owner u}"

text \<open>
  Only the owner makes or removes administrators: after any history, a request changes whether an existing user is an administrator only if
  it is a request on the administrators resource for that user, its actor is the owner, active and with a second factor, and the user is not
  the owner.
\<close>

theorem administrators_appointed_by_owner:
  assumes "admission_step\<^sup>*\<^sup>* [] s" "authenticated q" "fresh_token rd q s"
  shows "administrators_changed s (snd (serve rd q s)) \<subseteq> appointable s q"
proof
  fix p assume "p \<in> administrators_changed s (snd (serve rd q s))"
  then obtain u u' where u: "dget s p = Some (Doc_user u)" "dget (snd (serve rd q s)) p = Some (Doc_user u')" "us_platform_admin u' \<noteq> us_platform_admin u"
    by (auto simp: administrators_changed_def)
  from administrator_changed [OF assms _ u, of "fst (serve rd q s)"] u(1) show "p \<in> appointable s q" by (auto simp: appointable_def)
qed

section \<open>Redemption\<close>

text \<open>The condition under which a token admits a person: a live invitation to the person's own address, and a person who can join.\<close>

definition admissible :: "documents \<Rightarrow> identity \<Rightarrow> instant \<Rightarrow> string \<Rightarrow> invitation \<Rightarrow> bool" where
  "admissible s i now token v \<longleftrightarrow> dget s (invitation_path token) = Some (Doc_invitation v) \<and> redeemable s i now v \<and>
     (case user_in s (id_subject i) of None \<Rightarrow> True | Some u \<Rightarrow> us_active u \<and> length (us_organization_ids u) < 50)"

lemma audit_event_exists: "is_identifier (''access_'' @ rd_audit_uuid rd) \<Longrightarrow> \<exists>e. audit_event_of rd actor action r = Some e"
  unfolding audit_event_of_def AdmissionAudit_validate_def Let_def by simp

lemma joined_valid: "User_validate u = Some u \<Longrightarrow> is_identifier g \<Longrightarrow> length (us_organization_ids u) < 50 \<Longrightarrow> User_validate (joined u g) = Some (joined u g)"
  by (simp add: user_valid_iff joined_def)

lemma admit_runs:
  assumes "documents_ok s" "admissible s i now token v" "strip (id_subject i) = id_subject i" "is_identifier (''access_'' @ rd_audit_uuid rd)"
  shows "\<exists>t. admit rd i (invitation_path token) v (user_in s (id_subject i)) s = (Inr (), t)"
proof -
  from assms(1,2) have "Invitation_validate v = Some v" using documents_okD [of s "invitation_path token"] by (auto simp: admissible_def)
  then have g: "is_identifier (iv_organization_id v)" by (simp add: invitation_valid_iff)
  have m: "Membership_validate (new_membership i v) = Some (new_membership i v)" using g assms(3) by (simp add: membership_valid_iff new_membership_def)
  have n: "User_validate (new_user (id_subject i)) = Some (new_user (id_subject i))" using assms(3) by (simp add: user_valid_iff new_user_def)
  obtain u where u: "(case user_in s (id_subject i) of None \<Rightarrow> User_validate (new_user (id_subject i)) | Some y \<Rightarrow> Some y) = Some u"
    "User_validate u = Some u" "length (us_organization_ids u) < 50"
  proof (cases "user_in s (id_subject i)")
    case None
    with n that show thesis by (simp add: new_user_def)
  next
    case (Some u)
    then have "User_validate u = Some u" using documents_okD [OF assms(1)] by (fastforce simp: user_in_iff)
    with Some assms(2) that show thesis by (simp add: admissible_def)
  qed
  from audit_event_exists [OF assms(4)] obtain e where "audit_event_of rd (id_subject i) ''invitation_redeemed'' (iv_invitation_id v) = Some e" by blast
  with u m joined_valid [OF u(2) g u(3)] show ?thesis unfolding admit_iff by blast
qed

lemma redeem_runs:
  assumes "documents_ok s" "admissible s i (rd_now rd) token v" "strip (id_subject i) = id_subject i" "is_identifier (''access_'' @ rd_audit_uuid rd)"
  shows "\<exists>t. redeem_operation rd i (invitation_path token) s = (Inr (), t)"
proof -
  from admit_runs [OF assms] obtain t where t: "admit rd i (invitation_path token) v (user_in s (id_subject i)) s = (Inr (), t)" ..
  from assms(1,2) have v: "dget s (invitation_path token) = Some (Doc_invitation v)" "Invitation_validate v = Some v"
    using documents_okD [of s "invitation_path token"] by (auto simp: admissible_def)
  from assms(2) have r: "redeemable s i (rd_now rd) v" by (simp add: admissible_def)
  then obtain w where w: "user_in s (iv_invited_by v) = Some w" "us_active w" "us_platform_admin w"
    using user_at [OF assms(1)] by (fastforce simp: redeemable_def user_in_iff)
  from r obtain d g where g: "dget s (organization_path (iv_organization_id v)) = Some d" "as_organization d = Some g" "og_active g"
    by (auto simp: redeemable_def)
  have u: "\<not> (case user_in s (id_subject i) of None \<Rightarrow> False | Some x \<Rightarrow> \<not> us_active x)"
    using assms(2) by (auto simp: admissible_def split: option.splits)
  show ?thesis using r v w g u t read_user_eq [OF assms(1)]
    by (simp add: redeem_operation_def redeemable_def tx_get_def bnd_def not_le)
qed

lemma redeemed_view:
  assumes "admission_inv s" "Identity_validate i = Some i" "redeem rd i token s = (Inr view, t)"
  shows "\<exists>v. admissible s i (rd_now rd) token v \<and> dget t (invitation_path token) = Some (Doc_invitation (redeemed v (id_subject i))) \<and>
    (\<exists>w. w \<in> set (av_workspaces view) \<and> og_organization_id (wk_organization w) = iv_organization_id v \<and> mb_role (wk_membership w) = iv_role v)"
proof -
  have ok: "documents_ok s" using assms(1) by (simp add: admission_inv_def)
  have i: "strip (id_subject i) = id_subject i" using identity_valid_strip [OF assms(2)] .
  have "admission_step s t"
    by (rule admission_step.served [of rd "Redeem i token" _ "Inr ()"]) (use assms(2,3) in \<open>auto simp: serve_def bnd_def authenticated_def fresh_token_def\<close>)
  then have inv: "admission_inv t" using admission_inv_step assms(1) by blast
  from redeem_commits [OF assms(3)] have c: "committed rd (Redeem i token) s t" and view: "access i t = (Inr view, t)" by auto
  from c obtain d v u u' m e where d: "dget s (invitation_path token) = Some d" "as_invitation d = Some v" and r: "redeemable s i (rd_now rd) v"
    and u: "redeeming_user s i = Some u" "us_active u" "User_validate (joined u (iv_organization_id v)) = Some u'"
    and m: "Membership_validate (new_membership i v) = Some m"
    and t: "t = with_audit e (dput (invitation_path token) (Doc_invitation (redeemed v (id_subject i)))
       (dput (member_path (iv_organization_id v) (id_subject i)) (Doc_membership m) (dput (user_path (id_subject i)) (Doc_user u') s)))"
    by cases auto
  have v: "d = Doc_invitation v" using documents_okD [OF ok d(1)] stored_invitation d(2) by blast
  with documents_okD [OF ok d(1)] have g: "is_identifier (iv_organization_id v)" by (simp add: invitation_valid_iff)
  have mv: "m = new_membership i v" using new_membership_valid [OF m i g] .
  have n: "length (us_organization_ids u) < 50" using user_validated [OF u(3)] by (auto simp: joined_def user_valid_iff)
  have a: "admissible s i (rd_now rd) token v"
    using d(1) v r n u(2) redeeming_user_cases [OF ok u(1) i] by (auto simp: admissible_def user_in_def)
  from r obtain h og where h: "dget s (organization_path (iv_organization_id v)) = Some h" "as_organization h = Some og" "og_active og"
    by (auto simp: redeemable_def)
  then have og: "h = Doc_organization og" using documents_okD [OF ok h(1)] stored_organization by blast
  with documents_okD [OF ok h(1)] have ogid: "og_organization_id og = iv_organization_id v" by simp
  have "open_to t i \<lparr>wk_organization = og, wk_membership = m\<rparr>"
    using h og ogid mv u(2) user_validated [OF u(3)] organization_not_member [OF identifier_no_slash(1) [OF g]] unfolding t
    by (simp add: open_to_def dget_with_audit user_path_def member_path_def invitation_path_def new_membership_def joined_def)
  then have "\<lparr>wk_organization = og, wk_membership = m\<rparr> \<in> set (open_workspaces t i)" using open_workspaces_iff [OF inv] by blast
  moreover have "av_workspaces view = open_workspaces t i"
    using view access_eq inv by (auto simp: admission_inv_def access_view_of_def Let_def)
  ultimately have "\<exists>w. w \<in> set (av_workspaces view) \<and> og_organization_id (wk_organization w) = iv_organization_id v \<and> mb_role (wk_membership w) = iv_role v"
    using ogid mv by (intro exI [of _ "\<lparr>wk_organization = og, wk_membership = m\<rparr>"]) (simp add: new_membership_def)
  moreover have "dget t (invitation_path token) = Some (Doc_invitation (redeemed v (id_subject i)))"
    unfolding t by (simp add: dget_with_audit invitation_path_def)
  ultimately show ?thesis using a by blast
qed

text \<open>
  C21. Redeeming is exact: after any history a validated person who presents a token is admitted if and only if it belongs to a live invitation
  to the person's own address from an active administrator, for an active organization the person has not joined, and the person is not
  suspended and has fewer than fifty organizations; then the view shows the new workspace with the invited role and the invitation is used
  up, otherwise the call fails and nothing changes.
\<close>

theorem redeem_exact:
  assumes "admission_step\<^sup>*\<^sup>* [] s" "Identity_validate i = Some i" "is_identifier (''access_'' @ rd_audit_uuid rd)"
  shows "case redeem rd i token s of
      (Inr view, t) \<Rightarrow> (\<exists>v. admissible s i (rd_now rd) token v \<and> dget t (invitation_path token) = Some (Doc_invitation (redeemed v (id_subject i))) \<and>
        (\<exists>w. w \<in> set (av_workspaces view) \<and> og_organization_id (wk_organization w) = iv_organization_id v \<and> mb_role (wk_membership w) = iv_role v))
    | (Inl e, t) \<Rightarrow> t = s \<and> \<not> (\<exists>v. admissible s i (rd_now rd) token v)"
proof -
  note inv = reachable_inv [OF assms(1)]
  then have ok: "documents_ok s" by (simp add: admission_inv_def)
  have i: "strip (id_subject i) = id_subject i" using identity_valid_strip [OF assms(2)] .
  obtain r t where run: "redeem rd i token s = (r, t)" by fastforce
  show ?thesis
  proof (cases r)
    case (Inr view)
    with redeemed_view [OF inv assms(2)] run show ?thesis by simp
  next
    case (Inl e)
    from run obtain r1 t1 where r1: "redeem_operation rd i (invitation_path token) s = (r1, t1)" by fastforce
    have failed: "\<exists>e1. r1 = Inl e1"
    proof (cases r1)
      case (Inr x)
      with r1 redeem_committed have "committed rd (Redeem i token) s t1" by blast
      with documents_committed ok assms(2) have "documents_ok t1" by (auto simp: authenticated_def)
      with access_eq Inr r1 run Inl show ?thesis by (simp add: redeem_def bnd_def transact_def)
    qed simp
    then have "t = s" using r1 run by (auto simp: redeem_def bnd_def transact_def)
    moreover have "\<not> admissible s i (rd_now rd) token v" for v
      using redeem_runs [OF ok _ i assms(3)] failed r1 by fastforce
    ultimately show ?thesis using run Inl by simp
  qed
qed

section \<open>A concrete installation\<close>

text \<open>The owner sets up the installation, creates an organization and invites the own address.\<close>

definition demo_identity :: identity where
  "demo_identity = \<lparr>id_subject = ''owner'', id_email = ''o@x.io'', id_mfa = True\<rparr>"

definition demo_readings :: "string \<Rightarrow> readings" where
  "demo_readings n = \<lparr>rd_now = 0, rd_audit_time = 0, rd_uuid = n, rd_audit_uuid = n, rd_token = ''token''\<rparr>"

definition demo_owner :: user where
  "demo_owner = \<lparr>us_subject = ''owner'', us_active = True, us_platform_admin = True, us_owner = True, us_organization_ids = [], us_version = 1\<rparr>"

definition demo_organization :: organization where
  "demo_organization = \<lparr>og_organization_id = ''org_2'', og_name = ''Acme'', og_active = True, og_version = 1\<rparr>"

definition demo_invitation :: invitation where
  "demo_invitation = \<lparr>iv_invitation_id = ''invite_3'', iv_email = ''o@x.io'', iv_organization_id = ''org_2'', iv_role = Requester,
     iv_invited_by = ''owner'', iv_expires_at = hours 24, iv_redeemed_by = None, iv_revoked = False, iv_version = 1\<rparr>"

definition demo_audit :: "string \<Rightarrow> string \<Rightarrow> string \<Rightarrow> admission_audit" where
  "demo_audit n action resource_id = \<lparr>au_event_id = ''access_'' @ n, au_actor = ''owner'', au_action = action, au_resource_id = resource_id, au_occurred_at = 0\<rparr>"

definition demo_bootstrapped :: documents where
  "demo_bootstrapped = with_audit (demo_audit ''1'' ''owner_bootstrapped'' (user_key ''owner''))
     (dput bootstrap_path (Doc_bootstrap ''owner'' 1) (dput (user_path ''owner'') (Doc_user demo_owner) []))"

definition demo_created :: documents where
  "demo_created = with_audit (demo_audit ''2'' ''organization_created'' ''org_2'')
     (dput (organization_path ''org_2'') (Doc_organization demo_organization) demo_bootstrapped)"

definition demo_invited :: documents where
  "demo_invited = with_audit (demo_audit ''3'' ''invitation_created'' ''invite_3'')
     (dput (invitation_path ''token'') (Doc_invitation demo_invitation) demo_created)"

lemma demo_identity_valid: "Identity_validate demo_identity = Some demo_identity"
  by code_simp

lemma demo_records:
  "User_validate demo_owner = Some demo_owner" "Organization_validate demo_organization = Some demo_organization"
  "Invitation_validate demo_invitation = Some demo_invitation" "lower ''o@x.io'' = ''o@x.io''" "is_identifier ''org_2''"
  "is_identifier (''access_'' @ ''1'')" "is_identifier (''access_'' @ ''2'')" "is_identifier (''access_'' @ ''3'')" "is_identifier (''access_'' @ ''4'')"
  by code_simp+

lemma strip_user_key [simp]: "strip (user_key x) = user_key x"
proof -
  have "user_key x \<noteq> []" by (simp add: user_key_def flip: length_0_conv)
  moreover have "\<not> is_whitespace c" if "c \<in> set (user_key x)" for c
    using that sha256_hex_lower lower_hex_not_ws unfolding user_key_def by blast
  ultimately show ?thesis by (intro strip_no_ws_ends) simp_all
qed

lemma demo_audits:
  "audit_event_of (demo_readings ''1'') ''owner'' ''owner_bootstrapped'' (user_key ''owner'') = Some (demo_audit ''1'' ''owner_bootstrapped'' (user_key ''owner''))"
  "audit_event_of (demo_readings ''2'') ''owner'' ''organization_created'' ''org_2'' = Some (demo_audit ''2'' ''organization_created'' ''org_2'')"
  "audit_event_of (demo_readings ''3'') ''owner'' ''invitation_created'' ''invite_3'' = Some (demo_audit ''3'' ''invitation_created'' ''invite_3'')"
proof -
  have "strip (''access_'' @ ''1'') = ''access_'' @ ''1''" "strip ''owner'' = ''owner''" "strip ''owner_bootstrapped'' = ''owner_bootstrapped''"
    by code_simp+
  then show "audit_event_of (demo_readings ''1'') ''owner'' ''owner_bootstrapped'' (user_key ''owner'') = Some (demo_audit ''1'' ''owner_bootstrapped'' (user_key ''owner''))"
    using demo_records(6) by (simp add: audit_event_of_def AdmissionAudit_validate_def demo_readings_def demo_audit_def Let_def)
qed (code_simp+)

lemma demo_admin: "admin_in demo_bootstrapped demo_identity demo_owner" "admin_in demo_created demo_identity demo_owner"
  using demo_records(1)
  by (simp_all add: admin_in_def demo_created_def demo_bootstrapped_def dget_with_audit demo_identity_def demo_owner_def user_path_def)

lemma demo_bootstrap: "serve (demo_readings ''1'') (Bootstrap ''owner'') [] = (Inr (), demo_bootstrapped)"
proof -
  have "User_validate ((new_user ''owner'')\<lparr>us_owner := True, us_platform_admin := True\<rparr>) = Some demo_owner" by code_simp
  then show ?thesis by (simp add: serve_def bootstrap_owner_def adm_iff demo_bootstrapped_def demo_audits)
qed

lemma demo_create_org: "serve (demo_readings ''2'') (Create_organization demo_identity ''Acme'') demo_bootstrapped = (Inr (), demo_created)"
proof -
  have "Organization_validate \<lparr>og_organization_id = ''org_'' @ rd_uuid (demo_readings ''2''), og_name = ''Acme'', og_active = True, og_version = 1\<rparr> =
    Some demo_organization" by code_simp
  moreover have "og_organization_id demo_organization = ''org_2''" "id_subject demo_identity = ''owner''" by code_simp+
  ultimately show ?thesis using demo_admin(1)
    by (auto simp: serve_def create_organization_def adm_iff demo_created_def demo_audits)
qed

lemma demo_invite:
  "serve (demo_readings ''3'') (Invite demo_identity \<lparr>ic_email = ''o@x.io'', ic_organization_id = ''org_2'', ic_role = Requester\<rparr>) demo_created = (Inr (), demo_invited)"
proof -
  have "Invitation_validate \<lparr>iv_invitation_id = ''invite_'' @ rd_uuid (demo_readings ''3''), iv_email = lower ''o@x.io'',
     iv_organization_id = ''org_2'', iv_role = Requester, iv_invited_by = id_subject demo_identity,
     iv_expires_at = rd_now (demo_readings ''3'') + hours 24, iv_redeemed_by = None, iv_revoked = False, iv_version = 1\<rparr> = Some demo_invitation"
    by code_simp
  moreover have "iv_invitation_id demo_invitation = ''invite_3''" "id_subject demo_identity = ''owner''" "rd_token (demo_readings ''3'') = ''token''" "og_active demo_organization"
    by code_simp+
  moreover have "dget demo_created (organization_path ''org_2'') = Some (Doc_organization demo_organization)"
    by (simp add: demo_created_def dget_with_audit)
  ultimately show ?thesis using demo_admin(2) demo_records(2,5)
    by (auto simp: serve_def invite_def adm_iff demo_invited_def demo_audits)
qed

lemma demo_reached: "admission_step\<^sup>*\<^sup>* [] demo_bootstrapped" "admission_step\<^sup>*\<^sup>* demo_bootstrapped demo_invited" "admission_step\<^sup>*\<^sup>* [] demo_invited"
proof -
  have 1: "admission_step [] demo_bootstrapped"
    by (rule admission_step.served [OF demo_bootstrap]) (simp_all add: authenticated_def fresh_token_def)
  have 2: "admission_step demo_bootstrapped demo_created"
    by (rule admission_step.served [OF demo_create_org]) (simp_all add: authenticated_def fresh_token_def demo_identity_valid)
  have 3: "admission_step demo_created demo_invited"
    by (rule admission_step.served [OF demo_invite])
      (simp_all add: authenticated_def fresh_token_def demo_identity_valid demo_created_def demo_bootstrapped_def dget_with_audit invitation_path_def user_path_def)
  from 1 show "admission_step\<^sup>*\<^sup>* [] demo_bootstrapped" by blast
  from 2 3 show 23: "admission_step\<^sup>*\<^sup>* demo_bootstrapped demo_invited" by (meson rtranclp.simps)
  from 1 23 show "admission_step\<^sup>*\<^sup>* [] demo_invited" by (rule converse_rtranclp_into_rtranclp)
qed

lemma demo_admissible: "admissible demo_invited demo_identity 0 ''token'' demo_invitation"
proof -
  have f: "iv_email demo_invitation = lower (id_email demo_identity)" "0 < iv_expires_at demo_invitation" "iv_redeemed_by demo_invitation = None"
    "\<not> iv_revoked demo_invitation" "iv_invited_by demo_invitation = ''owner''" "iv_organization_id demo_invitation = ''org_2''" "id_subject demo_identity = ''owner''"
    "us_active demo_owner" "us_platform_admin demo_owner" "us_organization_ids demo_owner = []" "og_active demo_organization"
    by code_simp+
  have n: "organization_path ''org_2'' \<noteq> members_path ''org_2'' k" for k by (simp add: organization_path_def members_path_def)
  have d: "dget demo_invited (invitation_path ''token'') = Some (Doc_invitation demo_invitation)" "dget demo_invited (user_path ''owner'') = Some (Doc_user demo_owner)"
    "dget demo_invited (organization_path ''org_2'') = Some (Doc_organization demo_organization)" "dget demo_invited (member_path ''org_2'' ''owner'') = None"
    using n n [symmetric] by (simp_all add: demo_invited_def demo_created_def demo_bootstrapped_def dget_with_audit invitation_path_def user_path_def member_path_def)
  then show ?thesis using f demo_records by (simp add: admissible_def redeemable_def user_in_def)
qed

lemma demo_redeem: "\<exists>view t. redeem (demo_readings ''4'') demo_identity ''token'' demo_invited = (Inr view, t)"
proof -
  have ok: "documents_ok demo_invited" using reachable_inv [OF demo_reached(3)] by (simp add: admission_inv_def)
  have "rd_now (demo_readings ''4'') = 0" "rd_audit_uuid (demo_readings ''4'') = ''4''" "strip (id_subject demo_identity) = id_subject demo_identity" by code_simp+
  with redeem_runs [OF ok, of demo_identity "demo_readings ''4''" "''token''"] demo_admissible demo_records(9)
  obtain t where t: "redeem_operation (demo_readings ''4'') demo_identity (invitation_path ''token'') demo_invited = (Inr (), t)" by auto
  then have "committed (demo_readings ''4'') (Redeem demo_identity ''token'') demo_invited t" by (rule redeem_committed)
  with ok have "documents_ok t" using documents_committed demo_identity_valid by (auto simp: authenticated_def)
  with t access_eq show ?thesis by (simp add: redeem_def bnd_def transact_def)
qed

lemma demo_owner_stored: "dget demo_bootstrapped (user_path ''owner'') = Some (Doc_user demo_owner)" "us_owner demo_owner"
  by (simp_all add: demo_bootstrapped_def dget_with_audit user_path_def demo_owner_def)

text \<open>Witness: the owner of the installation after it has created an organization and an invitation.\<close>

theorem owner_stays_in_charge_witness:
  "{p'. \<exists>w. dget demo_invited p' = Some (Doc_user w) \<and> us_owner w} = {user_path ''owner''}"
  using owner_stays_in_charge [OF demo_reached(1,2) demo_owner_stored] by blast

text \<open>Witness: the redeemed token of the installation is denied afterwards.\<close>

theorem invitation_admits_once_witness:
  "\<exists>view t. redeem (demo_readings ''4'') demo_identity ''token'' demo_invited = (Inr view, t) \<and>
    redeem (demo_readings ''5'') demo_identity ''token'' t = (Inl AccessDenied, t)"
  using demo_redeem invitation_admits_once [OF demo_reached(3) demo_identity_valid _ rtranclp.rtrancl_refl] by blast

text \<open>Witness: redeeming the invitation of the installation admits the invited person.\<close>

theorem redeem_exact_witness:
  "case redeem (demo_readings ''4'') demo_identity ''token'' demo_invited of
      (Inr view, t) \<Rightarrow> (\<exists>v. admissible demo_invited demo_identity (rd_now (demo_readings ''4'')) ''token'' v \<and>
        dget t (invitation_path ''token'') = Some (Doc_invitation (redeemed v (id_subject demo_identity))) \<and>
        (\<exists>w. w \<in> set (av_workspaces view) \<and> og_organization_id (wk_organization w) = iv_organization_id v \<and> mb_role (wk_membership w) = iv_role v))
    | (Inl e, t) \<Rightarrow> False"
proof -
  have r: "rd_now (demo_readings ''4'') = 0" "rd_audit_uuid (demo_readings ''4'') = ''4''" by code_simp+
  have "is_identifier (''access_'' @ rd_audit_uuid (demo_readings ''4''))" unfolding r by (rule demo_records)
  from redeem_exact [OF demo_reached(3) demo_identity_valid this, of "''token''"] demo_admissible r(1) demo_redeem
  show ?thesis by auto
qed

lemma demo_joined: "\<exists>t m. admission_step\<^sup>*\<^sup>* [] t \<and> dget t (member_path ''org_2'' ''owner'') = Some (Doc_membership m)"
proof -
  from demo_redeem obtain view t where run: "redeem (demo_readings ''4'') demo_identity ''token'' demo_invited = (Inr view, t)" by blast
  have "admission_step demo_invited t"
    by (rule admission_step.served [of "demo_readings ''4''" "Redeem demo_identity ''token''" _ "Inr ()"])
      (use demo_identity_valid run in \<open>auto simp: serve_def bnd_def authenticated_def fresh_token_def\<close>)
  with demo_reached(3) have t: "admission_step\<^sup>*\<^sup>* [] t" by (rule rtranclp.rtrancl_into_rtrancl)
  from redeem_commits [OF run] have "committed (demo_readings ''4'') (Redeem demo_identity ''token'') demo_invited t" ..
  then obtain v m where v: "dget demo_invited (invitation_path ''token'') = Some v" and m: "as_invitation v \<noteq> None"
    "dget t (member_path (iv_organization_id (the (as_invitation v))) (id_subject demo_identity)) = Some (Doc_membership m)"
    by cases (auto simp: dget_with_audit member_path_def invitation_path_def)
  have "v = Doc_invitation demo_invitation" using v demo_admissible by (simp add: admissible_def)
  with m demo_records(3) t show ?thesis by (auto simp: demo_invitation_def demo_identity_def)
qed

text \<open>Witness: the membership that the redemption created.\<close>

theorem membership_by_invitation_witness:
  "\<exists>t m k v. dget t (member_path ''org_2'' ''owner'') = Some (Doc_membership m) \<and> dget t (invitations_path k) = Some (Doc_invitation v) \<and>
    iv_redeemed_by v = Some (mb_subject m) \<and> iv_organization_id v = mb_organization_id m"
proof -
  from demo_joined obtain t m where t: "admission_step\<^sup>*\<^sup>* [] t" "dget t (member_path ''org_2'' ''owner'') = Some (Doc_membership m)" by blast
  from membership_by_invitation [OF t] t(2) show ?thesis by blast
qed

text \<open>Witness: the owner's view of the new installation.\<close>

theorem access_exact_witness:
  "\<exists>view. access demo_identity demo_bootstrapped = (Inr view, demo_bootstrapped) \<and> av_owner view"
proof -
  have "id_subject demo_identity = ''owner''" "id_mfa demo_identity" by (simp_all add: demo_identity_def)
  with access_exact [OF demo_reached(1), of demo_identity] demo_owner_stored show ?thesis by auto
qed

text \<open>Witness: creating an organization appoints nobody.\<close>

theorem administrators_appointed_by_owner_witness: "administrators_changed demo_bootstrapped demo_created = {}"
proof -
  have "fresh_token (demo_readings ''2'') (Create_organization demo_identity ''Acme'') demo_bootstrapped" "authenticated (Create_organization demo_identity ''Acme'')"
    by (simp_all add: fresh_token_def authenticated_def demo_identity_valid)
  from administrators_appointed_by_owner [OF demo_reached(1) this(2,1)] show ?thesis by (simp add: demo_create_org appointable_def)
qed

end
