(* ===== verification/Firestore_Core.thy ===== *)
theory Firestore_Core
  imports Prelude
begin

text \<open>
  What the Firestore adapters of the repository share. A collection is a dictionary from the variable segments of its document paths to
  documents. A function under \<^verbatim>\<open>@firestore.transactional\<close> runs against one state of the database and its writes are applied together when
  it returns; if it raises nothing is written. That transactions are serializable, and that \<^verbatim>\<open>SERVER_TIMESTAMP\<close> is the instant of the
  commit, is what Firestore documents; the commit instant is an argument of the operations. Reading a snapshot validates the document as
  the model.
\<close>

section \<open>Documents and transactions\<close>

text \<open>The pattern \<^verbatim>\<open>^[A-Za-z0-9][A-Za-z0-9._:-]{0,511}$\<close> under \<^verbatim>\<open>fullmatch\<close>.\<close>

definition document_id_char :: "char \<Rightarrow> bool" where
  "document_id_char c \<longleftrightarrow> is_alnum c \<or> c \<in> set ''._:-''"

definition is_document_id :: "string \<Rightarrow> bool" where
  "is_document_id s \<longleftrightarrow> s \<noteq> [] \<and> is_alnum (hd s) \<and> list_all document_id_char s \<and> length s \<le> 512"

definition transactional :: "('s, 'e, 'a) op \<Rightarrow> ('s, 'e, 'a) op" where
  "transactional m s = (case m s of (Inl e, _) \<Rightarrow> (Inl e, s) | (Inr x, s') \<Rightarrow> (Inr x, s'))"

lemma transactional_Inl: "transactional m s = (Inl e, s') \<Longrightarrow> s' = s"
  by (auto simp: transactional_def split: prod.splits sum.splits)

lemma transactional_Inr_iff: "transactional m s = (Inr x, s') \<longleftrightarrow> m s = (Inr x, s')"
  by (auto simp: transactional_def split: prod.splits sum.splits)

lemma transactional_atomic: "(\<And>e s'. m s = (Inl e, s') \<Longrightarrow> s' = s) \<Longrightarrow> transactional m s = m s"
  by (auto simp: transactional_def split: prod.splits sum.splits)

end
