(* ===== verification/Firestore_Inbox.thy ===== *)
theory Firestore_Inbox
  imports Event_Guarantees Firestore_Core
begin

text \<open>
  The Firestore adapter of the event inbox (\<^verbatim>\<open>services/event-gateway/.../firestore_repository.py\<close>). It agrees with the in-memory adapter
  when the clocks agree, and keeps the outbox contract whatever the server's clock shows.
\<close>

section \<open>The inbox adapter\<close>

text \<open>A document with both timestamps, or only the last one, set by the server.\<close>

definition created_document :: "instant \<Rightarrow> inbox_record \<Rightarrow> inbox_record" where
  "created_document commit r = r\<lparr>ib_created_at := commit, ib_updated_at := commit\<rparr>"

definition updated_inbox :: "instant \<Rightarrow> inbox_record \<Rightarrow> inbox_record" where
  "updated_inbox commit r = r\<lparr>ib_updated_at := commit\<rparr>"

definition inbox_from_snapshot :: "inbox_record \<Rightarrow> inbox_record inbox_op" where
  "inbox_from_snapshot document = validated EventUnhandled (EventInboxRecord_validate document)"

text \<open>\<^verbatim>\<open>_reference\<close>: an invalid segment raises \<^verbatim>\<open>ValueError\<close>.\<close>

definition inbox_reference :: "string \<Rightarrow> string \<Rightarrow> (string \<times> string) inbox_op" where
  "inbox_reference tenant_id key =
    (if is_document_id tenant_id \<and> is_document_id key then ret (tenant_id, key) else raise EventUnhandled)"

definition fs_accept :: "(instant \<Rightarrow> string) \<Rightarrow> instant \<Rightarrow> change_event \<Rightarrow> string \<Rightarrow> instant \<Rightarrow> inbox_acceptance inbox_op" where
  "fs_accept iso_text commit event change_id now =
     bnd (inbox_reference (ev_tenant_id event) (event_key event)) (\<lambda>reference.
     bnd (validated EventUnhandled (EventInboxRecord_validate (new_inbox_record iso_text event change_id now))) (\<lambda>created.
     bnd (transactional (\<lambda>s. case dget s reference of
         Some snapshot \<Rightarrow> bnd (inbox_from_snapshot snapshot) (\<lambda>existing.
           if ib_input_hash existing \<noteq> ib_input_hash created then raise EventConflictError
           else ret (existing, True)) s
       | None \<Rightarrow> ret (created, False) (dput reference (created_document commit created) s)))
     (\<lambda>(rec, replayed). ret \<lparr>ia_record = rec, ia_replayed = replayed\<rparr>)))"

definition fs_reserve_publish :: "instant \<Rightarrow> string \<Rightarrow> string \<Rightarrow> instant \<Rightarrow> inbox_record option inbox_op" where
  "fs_reserve_publish commit tenant_id key now =
     bnd (inbox_reference tenant_id key) (\<lambda>reference.
     transactional (\<lambda>s. case dget s reference of
       None \<Rightarrow> raise InboxKeyError s
     | Some snapshot \<Rightarrow> bnd (inbox_from_snapshot snapshot) (\<lambda>current.
         if ib_status current = IN_PUBLISHED then ret None
         else if ib_status current = IN_PUBLISHING \<and> ib_updated_at current > now - seconds 30 then ret None
         else bnd (validated EventUnhandled (EventInboxRecord_validate (current\<lparr>ib_status := IN_PUBLISHING,
             ib_publish_attempts := ib_publish_attempts current + 1, ib_last_error_code := None, ib_updated_at := now,
             ib_version := ib_version current + 1\<rparr>))) (\<lambda>updated s.
           ret (Some updated) (dput reference (updated_inbox commit updated) s))) s))"

definition fs_finish ::
  "instant \<Rightarrow> string \<Rightarrow> string \<Rightarrow> int \<Rightarrow> inbox_status \<Rightarrow> string option \<Rightarrow> string option \<Rightarrow> instant \<Rightarrow> inbox_record inbox_op" where
  "fs_finish commit tenant_id key expected_version status message_id error_code now =
     bnd (inbox_reference tenant_id key) (\<lambda>reference.
     transactional (\<lambda>s. case dget s reference of
       None \<Rightarrow> raise InboxKeyError s
     | Some snapshot \<Rightarrow> bnd (inbox_from_snapshot snapshot) (\<lambda>current.
         if ib_version current \<noteq> expected_version \<or> ib_status current \<noteq> IN_PUBLISHING then raise StaleReservation
         else bnd (validated EventUnhandled (EventInboxRecord_validate (current\<lparr>ib_status := status,
             ib_pubsub_message_id := message_id, ib_last_error_code := error_code, ib_updated_at := now,
             ib_version := ib_version current + 1\<rparr>))) (\<lambda>updated s.
           ret updated (dput reference (updated_inbox commit updated) s))) s))"

definition fs_mark_published :: "instant \<Rightarrow> string \<Rightarrow> string \<Rightarrow> int \<Rightarrow> string \<Rightarrow> instant \<Rightarrow> inbox_record inbox_op" where
  "fs_mark_published commit tenant_id key expected_version message_id now =
     fs_finish commit tenant_id key expected_version IN_PUBLISHED (Some message_id) None now"

definition fs_mark_publish_failed :: "instant \<Rightarrow> string \<Rightarrow> string \<Rightarrow> int \<Rightarrow> string \<Rightarrow> instant \<Rightarrow> inbox_record inbox_op" where
  "fs_mark_publish_failed commit tenant_id key expected_version error_code now =
     fs_finish commit tenant_id key expected_version IN_PUBLISH_FAILED None (Some error_code) now"

section \<open>The adapters agree\<close>

lemma snapshot_same: "inbox_record_ok iso_text k r \<Longrightarrow> inbox_from_snapshot r s = (Inr r, s)"
  by (simp add: inbox_from_snapshot_def EventInboxRecord_validate_def inbox_record_ok_def Let_def)

lemma created_document_same: "EventInboxRecord_validate (new_inbox_record iso_text event c now) = Some r \<Longrightarrow> created_document now r = r"
  using EventInboxRecord_validate_ok [of "new_inbox_record iso_text event c now" r]
  by (cases r) (auto simp: created_document_def strip_inbox_def new_inbox_record_def)

lemma updated_inbox_same: "EventInboxRecord_validate x = Some r \<Longrightarrow> ib_updated_at x = now \<Longrightarrow> updated_inbox now r = r"
  using EventInboxRecord_validate_ok [of x r] by (cases r) (auto simp: updated_inbox_def strip_inbox_def)

lemma event_key_document_id: "is_document_id (event_key event)"
proof -
  let ?d = "JObj [(''event_id'', JStr (ev_event_id event)), (''source'', JStr (src_type (ev_source event))), (''tenant_id'', JStr (ev_tenant_id event))]"
  have k: "event_key event = sha256_hex (utf8_encode (canonical_json ?d))"
    unfolding event_key_def sha256_digest_def by (rule removeprefix_append)
  have a: "is_alnum c" if "is_lower_hex c" for c
    using that by (auto simp: is_lower_hex_def is_alnum_def is_lower_def Let_def)
  have "\<forall>c\<in>set (event_key event). is_alnum c" using sha256_hex_lower a unfolding k by blast
  moreover have "event_key event \<noteq> []" "length (event_key event) \<le> 512" unfolding k by (simp_all flip: length_0_conv)
  ultimately show ?thesis by (auto simp: is_document_id_def list_all_iff document_id_char_def)
qed

lemma inbox_reference_ok: "is_document_id t \<Longrightarrow> is_document_id k \<Longrightarrow> inbox_reference t k = ret (t, k)"
  by (simp add: inbox_reference_def)

lemma fs_accept_agrees:
  assumes "inbox_inv iso_text s" "is_document_id (ev_tenant_id event)"
    "EventInboxRecord_validate (new_inbox_record iso_text event c now) = Some r"
  shows "fs_accept iso_text now event c now s = accept iso_text event c now s"
proof -
  have h: "ib_input_hash r = sha256_digest (event_json iso_text event)"
    using EventInboxRecord_validate_ok [OF assms(3)] by (simp add: strip_inbox_sel new_inbox_record_def strip_digest)
  show ?thesis
  proof (cases "dget s (ev_tenant_id event, event_key event)")
    case None
    with assms(2,3) created_document_same [OF assms(3)] show ?thesis
      by (simp add: fs_accept_def accept_def inbox_reference_ok event_key_document_id bnd_def transactional_def)
  next
    case (Some x)
    with snapshot_same [OF inbox_invD [OF assms(1) Some]] assms(2,3) h show ?thesis
      by (simp add: fs_accept_def accept_def inbox_reference_ok event_key_document_id bnd_def transactional_def)
  qed
qed

lemma fs_reserve_agrees:
  assumes "inbox_inv iso_text s" "is_document_id t" "is_document_id k"
  shows "fs_reserve_publish now t k now s = reserve_publish t k now s"
proof (cases "dget s (t, k)")
  case (Some r)
  note same = snapshot_same [OF inbox_invD [OF assms(1) Some]]
  let ?x = "r\<lparr>ib_status := IN_PUBLISHING, ib_publish_attempts := ib_publish_attempts r + 1, ib_last_error_code := None, ib_updated_at := now,
     ib_version := ib_version r + 1\<rparr>"
  have u: "updated_inbox now r' = r'" if "EventInboxRecord_validate ?x = Some r'" for r'
    using updated_inbox_same [OF that] by simp
  show ?thesis using Some same assms(2,3)
    by (cases "EventInboxRecord_validate ?x")
      (simp_all add: fs_reserve_publish_def reserve_publish_def inbox_reference_ok bnd_def transactional_def u)
qed (use assms(2,3) in \<open>simp add: fs_reserve_publish_def reserve_publish_def inbox_reference_ok transactional_def\<close>)

lemma fs_finish_agrees:
  assumes "inbox_inv iso_text s" "is_document_id t" "is_document_id k"
  shows "fs_finish now t k v st m e now s = finish_publish t k v st m e now s"
proof (cases "dget s (t, k)")
  case (Some r)
  note same = snapshot_same [OF inbox_invD [OF assms(1) Some]]
  let ?x = "r\<lparr>ib_status := st, ib_pubsub_message_id := m, ib_last_error_code := e, ib_updated_at := now, ib_version := v + 1\<rparr>"
  have u: "updated_inbox now r' = r'" if "EventInboxRecord_validate ?x = Some r'" for r'
    using updated_inbox_same [OF that] by simp
  show ?thesis
  proof (cases "ib_version r = v")
    case True
    with Some same assms(2,3) show ?thesis
      by (cases "EventInboxRecord_validate ?x")
        (simp_all add: fs_finish_def finish_publish_def inbox_reference_ok bnd_def transactional_def u)
  next
    case False
    with Some same assms(2,3) show ?thesis
      by (simp add: fs_finish_def finish_publish_def inbox_reference_ok bnd_def transactional_def)
  qed
qed (use assms(2,3) in \<open>simp add: fs_finish_def finish_publish_def inbox_reference_ok transactional_def\<close>)

text \<open>
  The two inbox adapters are interchangeable: on an inbox reached by either, for identifiers Firestore accepts and a server clock that
  agrees with the caller's, the Firestore adapter returns the same result or error and leaves the same records as the in-memory adapter,
  for accepting, reserving and both completions.
\<close>

theorem firestore_inbox_agrees:
  assumes "inbox_inv iso_text s" "is_document_id t" "is_document_id k" "is_document_id (ev_tenant_id event)"
    "EventInboxRecord_validate (new_inbox_record iso_text event c now) \<noteq> None"
  shows "fs_accept iso_text now event c now s = accept iso_text event c now s \<and>
    fs_reserve_publish now t k now s = reserve_publish t k now s \<and>
    fs_mark_published now t k v m now s = mark_published t k v m now s \<and>
    fs_mark_publish_failed now t k v code now s = mark_publish_failed t k v code now s"
proof -
  from assms(5) obtain r where r: "EventInboxRecord_validate (new_inbox_record iso_text event c now) = Some r" by blast
  show ?thesis unfolding fs_mark_published_def mark_published_def fs_mark_publish_failed_def mark_publish_failed_def
    using fs_accept_agrees [OF assms(1,4) r] fs_reserve_agrees [OF assms(1-3)] fs_finish_agrees [OF assms(1-3)] by simp
qed

section \<open>The adapter keeps the outbox contract\<close>

lemma inbox_reference_Inr: "inbox_reference t k s = (Inr x, s') \<longleftrightarrow> is_document_id t \<and> is_document_id k \<and> x = (t, k) \<and> s' = s"
  by (auto simp: inbox_reference_def)

lemma snapshot_facts: "EventInboxRecord_validate r = Some r' \<Longrightarrow> ib_status r' = ib_status r \<and> ib_version r' = ib_version r \<and> ib_updated_at r' = ib_updated_at r"
  using EventInboxRecord_validate_ok [of r r'] by (simp add: strip_inbox_sel)

lemmas fs_iff = bnd_Inr_iff validated_Inr_iff transactional_Inr_iff inbox_reference_Inr inbox_from_snapshot_def

lemma fs_accept_view:
  assumes "fs_accept iso_text commit event c now s = (Inr a, s')"
  shows "outbox s' = (outbox s)((ev_tenant_id event, event_key event) := spec_accept (outbox s (ev_tenant_id event, event_key event)))"
proof (cases "dget s (ev_tenant_id event, event_key event)")
  case None
  with assms obtain r where r: "EventInboxRecord_validate (new_inbox_record iso_text event c now) = Some r"
    and s': "s' = dput (ev_tenant_id event, event_key event) (created_document commit r) s"
    by (auto simp: fs_accept_def fs_iff)
  from snapshot_facts [OF r] have "ib_status (created_document commit r) = IN_PENDING"
    by (simp add: created_document_def new_inbox_record_def)
  with None show ?thesis unfolding s' by (simp add: outbox_dput spec_accept_def outbox_def outbox_of_def)
next
  case (Some r)
  with assms have "s' = s" by (auto simp: fs_accept_def fs_iff split: if_splits)
  with Some show ?thesis by (auto simp: spec_accept_def outbox_def outbox_of_def fun_eq_iff)
qed

lemma fs_reserve_view:
  assumes "fs_reserve_publish commit t k now s = (Inr (Some r), s')"
  shows "spec_free now (outbox s (t, k)) \<and> outbox s' = (outbox s)((t, k) := Sending (ib_version r) commit)"
proof -
  from assms obtain x where x: "dget s (t, k) = Some x"
    by (cases "dget s (t, k)") (auto simp: fs_reserve_publish_def fs_iff)
  with assms obtain cur where c: "EventInboxRecord_validate x = Some cur" "ib_status cur \<noteq> IN_PUBLISHED"
    "\<not> (ib_status cur = IN_PUBLISHING \<and> ib_updated_at cur > now - seconds 30)"
    "EventInboxRecord_validate (reserved_record cur now) = Some r" "s' = dput (t, k) (updated_inbox commit r) s"
    by (auto simp: fs_reserve_publish_def fs_iff reserved_record_def split: if_splits)
  from snapshot_facts [OF c(4)] have "ib_status r = IN_PUBLISHING" by (simp add: reserved_record_def)
  with x c snapshot_facts [OF c(1)] show ?thesis
    by (auto simp: spec_free_def outbox_def outbox_of_def updated_inbox_def fun_eq_iff)
qed

lemma fs_finish_view:
  assumes "fs_finish commit t k v (if b then IN_PUBLISHED else IN_PUBLISH_FAILED) m e now s = (Inr r, s')"
  shows "(\<exists>since. outbox s (t, k) = Sending v since) \<and> outbox s' = (outbox s)((t, k) := spec_settle v b (outbox s (t, k)))"
proof -
  let ?st = "if b then IN_PUBLISHED else IN_PUBLISH_FAILED"
  from assms obtain x where x: "dget s (t, k) = Some x"
    by (cases "dget s (t, k)") (auto simp: fs_finish_def fs_iff)
  with assms obtain cur where c: "EventInboxRecord_validate x = Some cur" "ib_version cur = v" "ib_status cur = IN_PUBLISHING"
    "EventInboxRecord_validate (finished_record cur ?st m e now) = Some r" "s' = dput (t, k) (updated_inbox commit r) s"
    by (auto simp: fs_finish_def fs_iff finished_record_def split: if_splits)
  from snapshot_facts [OF c(4)] have "ib_status r = ?st" by (simp add: finished_record_def)
  with x c snapshot_facts [OF c(1)] show ?thesis
    by (auto simp: spec_settle_def outbox_def outbox_of_def updated_inbox_def fun_eq_iff)
qed

text \<open>The successful calls of the Firestore inbox as actions; every commit has its own server time.\<close>

definition fs_inbox_action :: "(instant \<Rightarrow> string) \<Rightarrow> string \<times> string \<Rightarrow> outbox_action \<Rightarrow> inbox \<Rightarrow> inbox \<Rightarrow> bool" where
  "fs_inbox_action iso_text k a s s' = (case a of
     Accept \<Rightarrow> (\<exists>commit event c now x. k = (ev_tenant_id event, event_key event) \<and> fs_accept iso_text commit event c now s = (Inr x, s'))
   | Grant now at v \<Rightarrow> (\<exists>r. fs_reserve_publish at (fst k) (snd k) now s = (Inr (Some r), s') \<and> ib_version r = v)
   | Settle v b \<Rightarrow> (if b then \<exists>commit m now r. fs_mark_published commit (fst k) (snd k) v m now s = (Inr r, s')
       else \<exists>commit e now r. fs_mark_publish_failed commit (fst k) (snd k) v e now s = (Inr r, s')))"

interpretation fs_inbox: outbox_contract "fs_inbox_action iso_text" outbox
proof
  fix k s s' assume "fs_inbox_action iso_text k Accept s s'"
  then show "outbox s' = (outbox s)(k := spec_accept (outbox s k))"
    using fs_accept_view by (auto simp: fs_inbox_action_def)
next
  fix k now at v s s' assume "fs_inbox_action iso_text k (Grant now at v) s s'"
  then show "spec_free now (outbox s k) \<and> outbox s' = (outbox s)(k := Sending v at)"
    using fs_reserve_view [where t = "fst k" and k = "snd k"] by (auto simp: fs_inbox_action_def)
next
  fix k v b s s' assume "fs_inbox_action iso_text k (Settle v b) s s'"
  then obtain commit m e now r where "fs_finish commit (fst k) (snd k) v (if b then IN_PUBLISHED else IN_PUBLISH_FAILED) m e now s = (Inr r, s')"
    by (cases b) (auto simp: fs_inbox_action_def fs_mark_published_def fs_mark_publish_failed_def)
  from fs_finish_view [OF this]
  show "(\<exists>since. outbox s k = Sending v since) \<and> outbox s' = (outbox s)(k := spec_settle v b (outbox s k))" by simp
qed

text \<open>
  Also on Firestore an event is published at most once: in any interleaving of successful calls by any number of workers, whatever the
  server's clock shows at each commit, each event has at most one completion as published, and none if it was published before.
\<close>

theorem firestore_published_at_most_once:
  assumes "runs (fs_inbox_action iso_text) acts s s'"
  shows "sends k acts \<le> (if outbox s k = Sent then 0 else 1)"
  by (rule fs_inbox.sent_at_most_once [OF assms])

section \<open>Witnesses\<close>

lemma sample_tenant_id: "is_document_id (ev_tenant_id sample_event)"
  by (simp add: sample_event_def is_document_id_def document_id_char_def) code_simp

lemma sample_new_valid: "EventInboxRecord_validate (new_inbox_record demo_iso sample_event (derive_change_id sample_event) 0) \<noteq> None"
  using new_record_valid [OF sample_fields, of demo_iso 0] by simp

lemma empty_inbox_ok: "inbox_inv demo_iso []"
  by (simp add: inbox_inv_def)

theorem firestore_inbox_agrees_witness:
  "fs_accept demo_iso 0 sample_event (derive_change_id sample_event) 0 [] = accept demo_iso sample_event (derive_change_id sample_event) 0 []"
  using firestore_inbox_agrees [OF empty_inbox_ok sample_tenant_id event_key_document_id sample_tenant_id sample_new_valid] by blast

definition sample_accepted :: inbox where
  "sample_accepted = dput (own_key sample_event) (new_inbox_record demo_iso sample_event (derive_change_id sample_event) 0) []"

lemma sample_fs_calls:
  "fs_accept demo_iso 0 sample_event (derive_change_id sample_event) 0 [] = accept demo_iso sample_event (derive_change_id sample_event) 0 []"
  "fs_reserve_publish 0 (ev_tenant_id sample_event) (event_key sample_event) 0 sample_accepted =
    reserve_publish (ev_tenant_id sample_event) (event_key sample_event) 0 sample_accepted"
  "fs_mark_published 1 (ev_tenant_id sample_event) (event_key sample_event) 2 ''m1'' 1 (dput (own_key sample_event) sample_reserved []) =
    mark_published (ev_tenant_id sample_event) (event_key sample_event) 2 ''m1'' 1 (dput (own_key sample_event) sample_reserved [])"
proof -
  have 1: "inbox_step demo_iso [] sample_accepted" unfolding sample_accepted_def
    by (rule inbox_step.accepting [OF sample_tenant sample_calls(1)])
  have 2: "inbox_step demo_iso sample_accepted (dput (own_key sample_event) sample_reserved [])" unfolding sample_accepted_def
    by (rule inbox_step.reserving [OF sample_calls(2)])
  from 1 have i1: "inbox_inv demo_iso sample_accepted" using inbox_steps [OF r_into_rtranclp empty_inbox_ok] by blast
  with 2 have i2: "inbox_inv demo_iso (dput (own_key sample_event) sample_reserved [])" using inbox_steps [OF r_into_rtranclp] by blast
  from sample_new_valid obtain r where "EventInboxRecord_validate (new_inbox_record demo_iso sample_event (derive_change_id sample_event) 0) = Some r" by blast
  from fs_accept_agrees [OF empty_inbox_ok sample_tenant_id this]
  show "fs_accept demo_iso 0 sample_event (derive_change_id sample_event) 0 [] = accept demo_iso sample_event (derive_change_id sample_event) 0 []" .
  from fs_reserve_agrees [OF i1 sample_tenant_id event_key_document_id]
  show "fs_reserve_publish 0 (ev_tenant_id sample_event) (event_key sample_event) 0 sample_accepted =
    reserve_publish (ev_tenant_id sample_event) (event_key sample_event) 0 sample_accepted" .
  from fs_finish_agrees [OF i2 sample_tenant_id event_key_document_id]
  show "fs_mark_published 1 (ev_tenant_id sample_event) (event_key sample_event) 2 ''m1'' 1 (dput (own_key sample_event) sample_reserved []) =
    mark_published (ev_tenant_id sample_event) (event_key sample_event) 2 ''m1'' 1 (dput (own_key sample_event) sample_reserved [])"
    by (simp add: fs_mark_published_def mark_published_def)
qed

theorem firestore_published_at_most_once_witness:
  "sends (own_key sample_event) [(own_key sample_event, Accept), (own_key sample_event, Grant 0 0 2), (own_key sample_event, Settle 2 True)] = 1 \<and>
   runs (fs_inbox_action demo_iso) [(own_key sample_event, Accept), (own_key sample_event, Grant 0 0 2), (own_key sample_event, Settle 2 True)] [] sample_inbox"
  (is "sends ?k ?acts = 1 \<and> ?run")
proof -
  have "fs_inbox_action demo_iso ?k Accept [] sample_accepted"
    unfolding fs_inbox_action_def outbox_action.case sample_accepted_def using sample_fs_calls(1) sample_calls(1) by metis
  moreover have "fs_inbox_action demo_iso ?k (Grant 0 0 2) sample_accepted (dput ?k sample_reserved [])"
    using sample_fs_calls(2) sample_calls(2,4) by (auto simp: fs_inbox_action_def sample_accepted_def)
  moreover have "fs_inbox_action demo_iso ?k (Settle 2 True) (dput ?k sample_reserved []) sample_inbox"
    using sample_fs_calls(3) sample_calls(3) by (auto simp: fs_inbox_action_def)
  ultimately have run: ?run by (auto simp only: runs.simps)
  from firestore_published_at_most_once [OF run, of ?k] show ?thesis using run by (simp add: outbox_def outbox_of_def)
qed

end
