(* ===== verification/Firestore_Changes.thy ===== *)
theory Firestore_Changes
  imports Change_Store Firestore_Core
begin

text \<open>
  The Firestore adapter of the change repository (\<^verbatim>\<open>packages/persistence/.../firestore.py\<close>) and its agreement with the in-memory adapter.
  Changes stand under tenant and change, audit events under tenant, change and event, and a second copy of every audit event in the
  tenant's audit index. An identical ordering of equal timestamps by document name is part of Firestore's documented query order.
\<close>

section \<open>The adapter\<close>

record fc_repo =
  fc_changes :: "(change_key, change_record) dict"
  fc_audit :: "(string \<times> string \<times> string, audit_event) dict"
  fc_audit_index :: "(string \<times> string, audit_event) dict"

text \<open>The errors of the package, the driver's \<^verbatim>\<open>AlreadyExists\<close> on a commit, a document its model rejects and a query Firestore rejects.\<close>

datatype fc_error = Persistence persistence_error | Already_exists | Invalid_document | Invalid_query

type_synonym 'a fc_op = "(fc_repo, fc_error, 'a) op"

definition validate_document_id :: "string \<Rightarrow> string \<Rightarrow> unit fc_op" where
  "validate_document_id x field_name = guard (is_document_id x) (Persistence (InvalidDocumentIdentifierError field_name))"

definition change_reference :: "string \<Rightarrow> string \<Rightarrow> change_key fc_op" where
  "change_reference tenant_id change_id =
     bnd (validate_document_id tenant_id ''tenant_id'') (\<lambda>_.
     bnd (validate_document_id change_id ''change_id'') (\<lambda>_. ret (tenant_id, change_id)))"

definition audit_reference :: "string \<Rightarrow> string \<Rightarrow> string \<Rightarrow> (string \<times> string \<times> string) fc_op" where
  "audit_reference tenant_id change_id audit_event_id =
     bnd (validate_document_id audit_event_id ''audit_event_id'') (\<lambda>_.
     bnd (change_reference tenant_id change_id) (\<lambda>_. ret (tenant_id, change_id, audit_event_id)))"

definition audit_index_reference :: "string \<Rightarrow> string \<Rightarrow> (string \<times> string) fc_op" where
  "audit_index_reference tenant_id audit_event_id =
     bnd (validate_document_id tenant_id ''tenant_id'') (\<lambda>_.
     bnd (validate_document_id audit_event_id ''audit_event_id'') (\<lambda>_. ret (tenant_id, audit_event_id)))"

definition change_document :: "instant \<Rightarrow> change_record \<Rightarrow> bool \<Rightarrow> change_record" where
  "change_document commit change server_created_at =
     change\<lparr>cr_created_at := (if server_created_at then commit else cr_created_at change), cr_updated_at := commit\<rparr>"

definition audit_document :: "instant \<Rightarrow> audit_event \<Rightarrow> audit_event" where
  "audit_document commit e = e\<lparr>ae_created_at := commit\<rparr>"

definition change_from_snapshot :: "change_record \<Rightarrow> change_record fc_op" where
  "change_from_snapshot d = validated Invalid_document (ChangeRecord_validate d)"

definition audit_from_snapshot :: "audit_event \<Rightarrow> audit_event fc_op" where
  "audit_from_snapshot d = validated Invalid_document (AuditEvent_validate d)"

definition fc_scope :: "change_record \<Rightarrow> audit_event \<Rightarrow> unit fc_op" where
  "fc_scope change audit_event = guard (audit_scope_ok change audit_event)
     (Persistence (TenantScopeViolationError (ae_tenant_id audit_event) (ae_change_id audit_event)))"

text \<open>\<^verbatim>\<open>create\<close> on both audit collections; a document that exists fails the commit.\<close>

definition create_audit :: "string \<times> string \<times> string \<Rightarrow> string \<times> string \<Rightarrow> audit_event \<Rightarrow> unit fc_op" where
  "create_audit reference index d s =
    (if dget (fc_audit s) reference \<noteq> None \<or> dget (fc_audit_index s) index \<noteq> None then raise Already_exists s
     else (Inr (), s\<lparr>fc_audit := dput reference d (fc_audit s), fc_audit_index := dput index d (fc_audit_index s)\<rparr>))"

definition set_change :: "change_key \<Rightarrow> change_record \<Rightarrow> unit fc_op" where
  "set_change k d s = (Inr (), s\<lparr>fc_changes := dput k d (fc_changes s)\<rparr>)"

definition fc_add :: "instant \<Rightarrow> change_record \<Rightarrow> unit fc_op" where
  "fc_add commit change =
     bnd (change_reference (cr_tenant_id change) (cr_change_id change)) (\<lambda>k s.
       if dget (fc_changes s) k \<noteq> None
       then raise (Persistence (ChangeAlreadyExistsError (cr_tenant_id change) (cr_change_id change))) s
       else set_change k (change_document commit change True) s)"

definition fc_add_with_audit :: "instant \<Rightarrow> change_record \<Rightarrow> audit_event \<Rightarrow> unit fc_op" where
  "fc_add_with_audit commit change audit_event =
     bnd (fc_scope change audit_event) (\<lambda>_.
     bnd (change_reference (cr_tenant_id change) (cr_change_id change)) (\<lambda>k.
     bnd (audit_reference (cr_tenant_id change) (cr_change_id change) (ae_audit_event_id audit_event)) (\<lambda>a.
     bnd (audit_index_reference (cr_tenant_id change) (ae_audit_event_id audit_event)) (\<lambda>x.
     transactional (\<lambda>s.
       if dget (fc_changes s) k \<noteq> None
       then raise (Persistence (ChangeAlreadyExistsError (cr_tenant_id change) (cr_change_id change))) s
       else if dget (fc_audit s) a \<noteq> None
       then raise (Persistence (AuditEventAlreadyExistsError (ae_tenant_id audit_event) (ae_audit_event_id audit_event))) s
       else bnd (set_change k (change_document commit change True)) (\<lambda>_.
         create_audit a x (audit_document commit audit_event)) s)))))"

definition fc_get :: "string \<Rightarrow> string \<Rightarrow> change_record fc_op" where
  "fc_get tenant_id change_id =
     bnd (change_reference tenant_id change_id) (\<lambda>k s. case dget (fc_changes s) k of
       None \<Rightarrow> raise (Persistence (ChangeNotFoundError tenant_id change_id)) s
     | Some d \<Rightarrow> change_from_snapshot d s)"

fun from_snapshots :: "('d \<Rightarrow> 'd fc_op) \<Rightarrow> 'd list \<Rightarrow> 'd list fc_op" where
  "from_snapshots f [] = ret []"
| "from_snapshots f (d # ds) = bnd (f d) (\<lambda>x. bnd (from_snapshots f ds) (\<lambda>xs. ret (x # xs)))"

text \<open>The first documents of a query's result; Firestore rejects a negative limit.\<close>

definition stream_limited :: "('d \<Rightarrow> 'd fc_op) \<Rightarrow> int \<Rightarrow> 'd list \<Rightarrow> 'd list fc_op" where
  "stream_limited f limit ds = (if limit < 0 then raise Invalid_query else from_snapshots f (take (nat limit) ds))"

definition fc_list_changes :: "string \<Rightarrow> int \<Rightarrow> change_record list fc_op" where
  "fc_list_changes tenant_id limit =
     bnd (validate_document_id tenant_id ''tenant_id'') (\<lambda>_ s.
       stream_limited change_from_snapshot limit (sort_desc (\<lambda>d. (cr_updated_at d, cr_change_id d))
         (map snd (filter (\<lambda>item. fst (fst item) = tenant_id) (fc_changes s)))) s)"

definition fc_commit_transition :: "instant \<Rightarrow> change_record \<Rightarrow> audit_event \<Rightarrow> int \<Rightarrow> unit fc_op" where
  "fc_commit_transition commit change audit_event expected_version =
     bnd (fc_scope change audit_event) (\<lambda>_.
     bnd (change_reference (cr_tenant_id change) (cr_change_id change)) (\<lambda>k.
     bnd (audit_reference (cr_tenant_id change) (cr_change_id change) (ae_audit_event_id audit_event)) (\<lambda>a.
     bnd (audit_index_reference (cr_tenant_id change) (ae_audit_event_id audit_event)) (\<lambda>x.
     transactional (\<lambda>s. case dget (fc_changes s) k of
         None \<Rightarrow> raise (Persistence (ChangeNotFoundError (cr_tenant_id change) (cr_change_id change))) s
       | Some snapshot \<Rightarrow>
           if dget (fc_audit s) a \<noteq> None
           then raise (Persistence (AuditEventAlreadyExistsError (ae_tenant_id audit_event) (ae_audit_event_id audit_event))) s
           else bnd (change_from_snapshot snapshot) (\<lambda>current.
             if cr_version current \<noteq> expected_version
             then raise (Persistence (OptimisticConcurrencyError (cr_change_id change) expected_version (cr_version current)))
             else if cr_version change \<noteq> expected_version + 1
             then raise (Persistence (OptimisticConcurrencyError (cr_change_id change) (expected_version + 1) (cr_version change)))
             else bnd (set_change k (change_document commit change False)) (\<lambda>_.
               create_audit a x (audit_document commit audit_event))) s)))))"

definition fc_record_audit :: "instant \<Rightarrow> audit_event \<Rightarrow> unit fc_op" where
  "fc_record_audit commit audit_event =
     bnd (change_reference (ae_tenant_id audit_event) (ae_change_id audit_event)) (\<lambda>k.
     bnd (audit_reference (ae_tenant_id audit_event) (ae_change_id audit_event) (ae_audit_event_id audit_event)) (\<lambda>a.
     bnd (audit_index_reference (ae_tenant_id audit_event) (ae_audit_event_id audit_event)) (\<lambda>x.
     transactional (\<lambda>s.
       if dget (fc_changes s) k = None
       then raise (Persistence (ChangeNotFoundError (ae_tenant_id audit_event) (ae_change_id audit_event))) s
       else if dget (fc_audit s) a \<noteq> None
       then raise (Persistence (AuditEventAlreadyExistsError (ae_tenant_id audit_event) (ae_audit_event_id audit_event))) s
       else create_audit a x (audit_document commit audit_event) s))))"

definition fc_events :: "fc_repo \<Rightarrow> string \<Rightarrow> string \<Rightarrow> audit_event list" where
  "fc_events s tenant_id change_id = sort_key audit_order
     (map snd (filter (\<lambda>((t, c, a), e). t = tenant_id \<and> c = change_id) (fc_audit s)))"

definition fc_list_audit_after :: "string \<Rightarrow> string \<Rightarrow> string option \<Rightarrow> int \<Rightarrow> audit_event list fc_op" where
  "fc_list_audit_after tenant_id change_id after_event_id limit =
     bnd (fc_get tenant_id change_id) (\<lambda>_.
     case after_event_id of
       None \<Rightarrow> (\<lambda>s. stream_limited audit_from_snapshot limit (fc_events s tenant_id change_id) s)
     | Some event_id \<Rightarrow>
         bnd (audit_reference tenant_id change_id event_id) (\<lambda>a s. case dget (fc_audit s) a of
           None \<Rightarrow> raise (Persistence (AuditCursorNotFoundError tenant_id change_id event_id)) s
         | Some cursor \<Rightarrow> stream_limited audit_from_snapshot limit
             (filter (\<lambda>e. audit_order cursor < audit_order e) (fc_events s tenant_id change_id)) s))"

definition fc_list_audit :: "string \<Rightarrow> string \<Rightarrow> audit_event list fc_op" where
  "fc_list_audit tenant_id change_id = fc_list_audit_after tenant_id change_id None 10000"

definition fc_list_tenant_audit :: "string \<Rightarrow> int \<Rightarrow> audit_event list fc_op" where
  "fc_list_tenant_audit tenant_id limit =
     bnd (validate_document_id tenant_id ''tenant_id'') (\<lambda>_ s.
       stream_limited audit_from_snapshot limit (sort_desc audit_order
         (map snd (filter (\<lambda>item. fst (fst item) = tenant_id) (fc_audit_index s)))) s)"

section \<open>Agreement with the in-memory adapter\<close>

text \<open>The Firestore documents that hold the contents of an in-memory repository.\<close>

definition fc_of :: "mem_repo \<Rightarrow> fc_repo" where
  "fc_of m = \<lparr>fc_changes = m_changes m,
     fc_audit = map (\<lambda>((t, a), e). ((t, ae_change_id e, a), e)) (m_audit m), fc_audit_index = m_audit m\<rparr>"

definition fc_valid :: "mem_repo \<Rightarrow> bool" where
  "fc_valid m \<longleftrightarrow> mem_inv m \<and> (\<forall>k r. dget (m_changes m) k = Some r \<longrightarrow> ChangeRecord_validate r = Some r) \<and>
     (\<forall>k e. dget (m_audit m) k = Some e \<longrightarrow> AuditEvent_validate e = Some e)"

text \<open>Two outcomes agree when both succeed with the same result and stores that correspond, or both fail and neither store changed.\<close>

definition agree :: "(fc_error + 'a) \<times> fc_repo \<Rightarrow> (persistence_error + 'a) \<times> mem_repo \<Rightarrow> mem_repo \<Rightarrow> bool" where
  "agree x y m \<longleftrightarrow> (case (x, y) of
     ((Inr a, s'), (Inr b, m')) \<Rightarrow> a = b \<and> s' = fc_of m'
   | ((Inl e, s'), (Inl e', m')) \<Rightarrow> s' = fc_of m \<and> m' = m
   | _ \<Rightarrow> False)"

lemma reference_ok:
  "is_document_id t \<Longrightarrow> is_document_id c \<Longrightarrow> change_reference t c = ret (t, c)"
  "is_document_id t \<Longrightarrow> is_document_id c \<Longrightarrow> is_document_id a \<Longrightarrow> audit_reference t c a = ret (t, c, a)"
  "is_document_id t \<Longrightarrow> is_document_id a \<Longrightarrow> audit_index_reference t a = ret (t, a)"
  by (simp_all add: change_reference_def audit_reference_def audit_index_reference_def validate_document_id_def guard_def bnd_def fun_eq_iff)

lemma fc_of_simps [simp]: "fc_changes (fc_of m) = m_changes m" "fc_audit_index (fc_of m) = m_audit m"
  by (simp_all add: fc_of_def)

lemma fc_audit_dget:
  "dict_ok d \<Longrightarrow> dget (map (\<lambda>((t, a), e). ((t, ae_change_id e, a), e)) d) (t, c, a) =
    (case dget d (t, a) of None \<Rightarrow> None | Some e \<Rightarrow> if ae_change_id e = c then Some e else None)"
proof (induction d)
  case (Cons p d)
  obtain t' a' e where p: "p = ((t', a'), e)" by (metis prod.collapse)
  from Cons.prems p have ok: "dict_ok d" "(t', a') \<notin> fst ` set d" by (auto simp: dict_ok_def)
  then have "dget d (t', a') = None" by (simp add: dget_def map_of_eq_None_iff)
  with Cons.IH [OF ok(1)] p show ?case by (auto simp: dget_Cons split: option.splits)
qed simp

lemma fc_of_audit: "mem_inv m \<Longrightarrow> dget (fc_audit (fc_of m)) (t, c, a) =
    (case dget (m_audit m) (t, a) of None \<Rightarrow> None | Some e \<Rightarrow> if ae_change_id e = c then Some e else None)"
  using fc_audit_dget [of "m_audit m" t c a] by (simp add: fc_of_def mem_inv_def mem_keys_ok_def)

lemma dput_new: "dget d k = None \<Longrightarrow> dput k v d = d @ [(k, v)]"
  by (rule dput_fresh) (simp add: dget_def map_of_eq_None_iff)

lemma fc_of_with_audit:
  assumes "mem_inv m" "dget (m_audit m) (audit_key e) = None"
  shows "fc_of (with_audit e m) = (fc_of m)\<lparr>
    fc_audit := dput (ae_tenant_id e, ae_change_id e, ae_audit_event_id e) e (fc_audit (fc_of m)),
    fc_audit_index := dput (audit_key e) e (m_audit m)\<rparr>"
proof -
  have "dget (fc_audit (fc_of m)) (ae_tenant_id e, ae_change_id e, ae_audit_event_id e) = None"
    using assms by (simp add: fc_of_audit audit_key_def)
  with assms(2) show ?thesis by (simp add: fc_of_def dput_new audit_key_def)
qed

lemma fc_of_changes: "fc_of (with_change r m) = (fc_of m)\<lparr>fc_changes := dput (change_key r) r (m_changes m)\<rparr>"
    "fc_of (with_new_change r m) = (fc_of m)\<lparr>fc_changes := dput (change_key r) r (m_changes m)\<rparr>"
  by (simp_all add: fc_of_def)

text \<open>Documents and records coincide when the commit carries the caller's time.\<close>

lemma documents_same:
  "cr_updated_at r = now \<Longrightarrow> change_document now r False = r"
  "cr_created_at r = now \<Longrightarrow> cr_updated_at r = now \<Longrightarrow> change_document now r True = r"
  "ae_created_at e = now \<Longrightarrow> audit_document now e = e"
  by (simp_all add: change_document_def audit_document_def)

lemma from_snapshots_same: "(\<And>d. d \<in> set ds \<Longrightarrow> f d s = (Inr d, s)) \<Longrightarrow> from_snapshots f ds s = (Inr ds, s)"
  by (induction ds) (simp_all add: bnd_def)

lemma fc_get_agrees:
  assumes "fc_valid m" "is_document_id t" "is_document_id c"
  shows "agree (fc_get t c (fc_of m)) (mem_get t c m) m"
  using assms by (cases "dget (m_changes m) (t, c)")
    (auto simp: fc_valid_def fc_get_def mem_get_def reference_ok get_unlocked_eq agree_def change_from_snapshot_def)

lemma fc_add_agrees:
  assumes "fc_valid m" "is_document_id (cr_tenant_id r)" "is_document_id (cr_change_id r)" "cr_created_at r = now" "cr_updated_at r = now"
  shows "agree (fc_add now r (fc_of m)) (mem_add r m) m"
  using assms by (simp add: fc_add_def mem_add_eq reference_ok agree_def set_change_def documents_same fc_of_changes change_key_def)

lemma fc_add_with_audit_agrees:
  assumes "fc_valid m" "is_document_id (cr_tenant_id r)" "is_document_id (cr_change_id r)" "is_document_id (ae_audit_event_id e)"
    "cr_created_at r = now" "cr_updated_at r = now" "ae_created_at e = now"
  shows "agree (fc_add_with_audit now r e (fc_of m)) (mem_add_with_audit r e m) m"
proof -
  have inv: "mem_inv m" using assms(1) by (simp add: fc_valid_def)
  show ?thesis
  proof (cases "audit_scope_ok r e \<and> dget (m_changes m) (change_key r) = None \<and> dget (m_audit m) (audit_key e) = None")
    case True
    then have sc: "ae_tenant_id e = cr_tenant_id r" "ae_change_id e = cr_change_id r" by (auto simp: audit_scope_ok_def)
    have inv': "mem_inv (with_new_change r m)" using mem_inv_with_new_change [OF inv] True by blast
    have "fc_of (with_audit e (with_new_change r m)) = (fc_of (with_new_change r m))\<lparr>
        fc_audit := dput (cr_tenant_id r, cr_change_id r, ae_audit_event_id e) e (fc_audit (fc_of m)),
        fc_audit_index := dput (cr_tenant_id r, ae_audit_event_id e) e (m_audit m)\<rparr>"
      using fc_of_with_audit [OF inv', of e] True sc by (simp add: fc_of_def audit_key_def)
    with True sc inv assms show ?thesis
      by (simp add: fc_add_with_audit_def fc_scope_def mem_add_with_audit_eq reference_ok agree_def transactional_def bnd_def
          set_change_def create_audit_def documents_same fc_of_audit fc_of_changes audit_key_def change_key_def)
  next
    case False
    with inv assms(2-4) show ?thesis
      by (auto simp: fc_add_with_audit_def fc_scope_def mem_add_with_audit_eq reference_ok agree_def transactional_def bnd_def
          set_change_def create_audit_def fc_of_audit audit_key_def change_key_def audit_scope_ok_def split: option.splits if_splits)
  qed
qed

lemma fc_commit_transition_agrees:
  assumes "fc_valid m" "is_document_id (cr_tenant_id r)" "is_document_id (cr_change_id r)" "is_document_id (ae_audit_event_id e)"
    "cr_updated_at r = now" "ae_created_at e = now"
  shows "agree (fc_commit_transition now r e v (fc_of m)) (mem_commit_transition r e v m) m"
proof (cases "\<exists>cur. audit_scope_ok r e \<and> dget (m_changes m) (change_key r) = Some cur \<and> dget (m_audit m) (audit_key e) = None")
  have inv: "mem_inv m" using assms(1) by (simp add: fc_valid_def)
  case True
  then obtain cur where cur: "audit_scope_ok r e" "dget (m_changes m) (change_key r) = Some cur" "dget (m_audit m) (audit_key e) = None"
    by blast
  then have sc: "ae_tenant_id e = cr_tenant_id r" "ae_change_id e = cr_change_id r" by (auto simp: audit_scope_ok_def)
  have inv': "mem_inv (with_change r m)" using mem_inv_with_change [OF inv] cur by blast
  have valid: "ChangeRecord_validate cur = Some cur" using assms(1) cur(2) by (auto simp: fc_valid_def simp del: split_paired_All)
  have "fc_of (with_audit e (with_change r m)) = (fc_of (with_change r m))\<lparr>
      fc_audit := dput (cr_tenant_id r, cr_change_id r, ae_audit_event_id e) e (fc_audit (fc_of m)),
      fc_audit_index := dput (cr_tenant_id r, ae_audit_event_id e) e (m_audit m)\<rparr>"
    using fc_of_with_audit [OF inv', of e] cur sc by (simp add: fc_of_def audit_key_def)
  with cur sc inv assms valid show ?thesis
    by (simp add: fc_commit_transition_def fc_scope_def mem_commit_transition_eq reference_ok agree_def transactional_def bnd_def
        change_from_snapshot_def set_change_def create_audit_def documents_same fc_of_audit fc_of_changes audit_key_def change_key_def)
next
  have inv: "mem_inv m" using assms(1) by (simp add: fc_valid_def)
  have valid: "ChangeRecord_validate cur = Some cur" if "dget (m_changes m) k = Some cur" for k cur
    using assms(1) that by (auto simp: fc_valid_def simp del: split_paired_All)
  case False
  with inv assms(2-4) show ?thesis
    by (auto simp: fc_commit_transition_def fc_scope_def mem_commit_transition_eq reference_ok agree_def transactional_def bnd_def valid
        change_from_snapshot_def set_change_def create_audit_def fc_of_audit audit_key_def change_key_def audit_scope_ok_def
        split: option.splits if_splits)
qed

lemma fc_record_audit_agrees:
  assumes "fc_valid m" "is_document_id (ae_tenant_id e)" "is_document_id (ae_change_id e)" "is_document_id (ae_audit_event_id e)"
    "ae_created_at e = now"
  shows "agree (fc_record_audit now e (fc_of m)) (mem_record_audit e m) m"
proof -
  have inv: "mem_inv m" using assms(1) by (simp add: fc_valid_def)
  show ?thesis
  proof (cases "dget (m_audit m) (audit_key e)")
    case None
    with fc_of_with_audit [OF inv None] inv assms(2-5) show ?thesis
      by (auto simp: fc_record_audit_def mem_record_audit_eq reference_ok agree_def transactional_def create_audit_def documents_same
          fc_of_audit audit_key_def split: option.splits)
  next
    case (Some e')
    with inv assms(2-4) show ?thesis
      by (auto simp: fc_record_audit_def mem_record_audit_eq reference_ok agree_def transactional_def create_audit_def
          fc_of_audit audit_key_def split: option.splits)
  qed
qed

section \<open>Reads\<close>

lemma stream_limited_same:
  "0 \<le> n \<Longrightarrow> (\<And>d. d \<in> set ds \<Longrightarrow> f d s = (Inr d, s)) \<Longrightarrow> stream_limited f n ds s = (Inr (slice_to n ds), s)"
  by (auto simp: stream_limited_def slice_to_def dest: in_set_takeD intro: from_snapshots_same)

lemma snapshots_valid:
  "fc_valid m \<Longrightarrow> (k, d) \<in> set (m_changes m) \<Longrightarrow> change_from_snapshot d s = (Inr d, s)"
  "fc_valid m \<Longrightarrow> (k', e) \<in> set (m_audit m) \<Longrightarrow> audit_from_snapshot e s = (Inr e, s)"
  by (auto simp: fc_valid_def mem_inv_def mem_keys_ok_def change_from_snapshot_def audit_from_snapshot_def simp flip: dget_iff_mem
      simp del: split_paired_All)

lemma fc_list_changes_same:
  assumes "fc_valid m" "is_document_id t" "0 \<le> n"
  shows "fst (fc_list_changes t n (fc_of m)) = Inr (projr (fst (mem_list_changes t n m)))"
proof -
  have "stream_limited change_from_snapshot n (sort_desc f (map snd (filter P (m_changes m)))) (fc_of m) =
      (Inr (slice_to n (sort_desc f (map snd (filter P (m_changes m))))), fc_of m)" for P and f :: "_ \<Rightarrow> int \<times> string"
    using assms by (intro stream_limited_same) (auto simp: sort_desc_def intro: snapshots_valid)
  with assms(2) show ?thesis
    by (simp add: fc_list_changes_def validate_document_id_def guard_def bnd_def mem_list_changes_def)
qed

lemma fc_list_tenant_audit_same:
  assumes "fc_valid m" "is_document_id t" "0 \<le> n"
  shows "fst (fc_list_tenant_audit t n (fc_of m)) = Inr (projr (fst (mem_list_tenant_audit t n m)))"
proof -
  have "stream_limited audit_from_snapshot n (sort_desc f (map snd (filter P (m_audit m)))) (fc_of m) =
      (Inr (slice_to n (sort_desc f (map snd (filter P (m_audit m))))), fc_of m)" for P and f :: "_ \<Rightarrow> int \<times> string"
    using assms by (intro stream_limited_same) (auto simp: sort_desc_def intro: snapshots_valid)
  with assms(2) show ?thesis
    by (simp add: fc_list_tenant_audit_def validate_document_id_def guard_def bnd_def mem_list_tenant_audit_def)
qed

text \<open>Both adapters serve the events of a change in one order, and the query cursor skips what the list index skips.\<close>

lemma fc_events_same:
  assumes "mem_inv m"
  shows "fc_events (fc_of m) t c = audit_stream m t c"
proof (rule map_sorted_distinct_set_unique [where f = audit_order])
  have keys: "audit_key e = k" if "(k, e) \<in> set (m_audit m)" for k e
    using assms that by (auto simp: mem_inv_def mem_keys_ok_def simp flip: dget_iff_mem simp del: split_paired_All)
  have ok: "dict_ok (m_audit m)" using assms by (simp add: mem_inv_def mem_keys_ok_def)
  have "e \<in> set (fc_events (fc_of m) t c) \<longleftrightarrow> (\<exists>a. ((t, a), e) \<in> set (m_audit m)) \<and> ae_change_id e = c" for e
    by (force simp: fc_events_def fc_of_def)
  also have "\<dots> e \<longleftrightarrow> e \<in> set (audit_stream m t c)" for e
    using keys [of _ e] by (auto simp: set_audit_stream [OF assms] dget_iff_mem [OF ok] audit_key_def)
  finally show set: "set (fc_events (fc_of m) t c) = set (audit_stream m t c)" by blast
  show inj: "inj_on audit_order (set (fc_events (fc_of m) t c) \<union> set (audit_stream m t c))"
    unfolding set Un_absorb
  proof (rule inj_onI)
    fix e e' assume "e \<in> set (audit_stream m t c)" "e' \<in> set (audit_stream m t c)" "audit_order e = audit_order e'"
    then have "Some e = Some e'"
      unfolding set_audit_stream [OF assms] by (metis audit_key_def audit_order_def prod.inject)
    then show "e = e'" by simp
  qed
  show "distinct (map audit_order (audit_stream m t c))"
    using inj distinct_audit_stream [OF assms, of t c] by (simp add: distinct_map inj_on_Un)
  have "distinct (map snd (m_audit m))"
    unfolding distinct_map
  proof (intro conjI inj_onI)
    show "distinct (m_audit m)" using ok by (simp add: dict_ok_def distinct_map)
    fix x y assume "x \<in> set (m_audit m)" "y \<in> set (m_audit m)" "snd x = snd y"
    then show "x = y" using keys by (metis prod.collapse)
  qed
  then have "distinct (fc_events (fc_of m) t c)"
    by (auto simp: fc_events_def fc_of_def filter_map o_def case_prod_unfold distinct_map intro: inj_on_subset)
  with inj show "distinct (map audit_order (fc_events (fc_of m) t c))" by (simp add: distinct_map inj_on_Un)
qed (simp_all add: fc_events_def sorted_audit_stream)

lemma fc_list_audit_after_agrees:
  assumes valid: "fc_valid m" and ids: "is_document_id t" "is_document_id c" "\<And>i. cursor = Some i \<Longrightarrow> is_document_id i" and n: "0 \<le> n"
  shows "case fst (mem_list_audit_after t c cursor n m) of
      Inr page \<Rightarrow> fc_list_audit_after t c cursor n (fc_of m) = (Inr page, fc_of m)
    | Inl e \<Rightarrow> \<exists>e'. fc_list_audit_after t c cursor n (fc_of m) = (Inl e', fc_of m)"
proof (cases "dget (m_changes m) (t, c)")
  case None
  with ids show ?thesis by (simp add: fc_list_audit_after_def fc_get_def mem_list_audit_after_eq reference_ok bnd_def)
next
  case (Some r)
  have inv: "mem_inv m" using valid by (simp add: fc_valid_def)
  let ?es = "audit_stream m t c"
  have pages: "stream_limited audit_from_snapshot n es (fc_of m) = (Inr (slice_to n es), fc_of m)" if "set es \<subseteq> set ?es" for es
  proof (rule stream_limited_same [OF n])
    fix e assume "e \<in> set es"
    with that have "dget (m_audit m) (audit_key e) = Some e" by (auto simp: set_audit_stream [OF inv])
    then show "audit_from_snapshot e (fc_of m) = (Inr e, fc_of m)"
      using valid by (auto simp: fc_valid_def audit_from_snapshot_def simp del: split_paired_All)
  qed
  have get: "fc_get t c (fc_of m) = (Inr r, fc_of m)"
    using Some ids valid by (auto simp: fc_get_def reference_ok change_from_snapshot_def fc_valid_def simp del: split_paired_All)
  show ?thesis
  proof (cases cursor)
    case None
    with Some get pages show ?thesis
      by (simp add: fc_list_audit_after_def mem_list_audit_after_eq bnd_def fc_events_same [OF inv])
  next
    case cur: (Some i)
    show ?thesis
    proof (cases "find_index (\<lambda>e. ae_audit_event_id e = i) ?es")
      case None
      have "dget (m_audit m) (t, i) = Some e \<Longrightarrow> audit_key e = (t, i)" for e
        using inv by (simp add: mem_inv_def mem_keys_ok_def)
      then have "dget (m_audit m) (t, i) = Some e \<Longrightarrow> ae_change_id e \<noteq> c" for e
        using None set_audit_stream [OF inv, of e t c] by (fastforce simp: find_index_None audit_key_def)
      then have "dget (fc_audit (fc_of m)) (t, c, i) = None"
        by (auto simp: fc_of_audit [OF inv] split: option.split)
      with Some cur None get ids show ?thesis
        by (simp add: fc_list_audit_after_def mem_list_audit_after_eq bnd_def reference_ok)
    next
      case index: (Some j)
      then have j: "j < length ?es" "ae_audit_event_id (?es ! j) = i" by (auto dest: find_index_SomeD)
      then have "dget (fc_audit (fc_of m)) (t, c, i) = Some (?es ! j)"
        using set_audit_stream [OF inv, of "?es ! j" t c] inv by (auto simp: fc_of_audit audit_key_def)
      moreover have "distinct (map audit_order ?es)"
        using distinct_audit_stream [OF inv, of t c] by (auto simp: distinct_map inj_on_def audit_order_def)
      then have "filter (\<lambda>e. audit_order (?es ! j) < audit_order e) ?es = drop (Suc j) ?es"
        using filter_after_drop [OF sorted_audit_stream _ j(1)] by blast
      ultimately show ?thesis using Some cur index get ids pages [of "drop (Suc j) ?es"]
        by (simp add: fc_list_audit_after_def mem_list_audit_after_eq bnd_def reference_ok fc_events_same [OF inv] set_drop_subset)
    qed
  qed
qed

section \<open>Histories\<close>

text \<open>A call as each adapter performs it, the Firestore commit at the time the call's records carry.\<close>

fun mem_call :: "repo_call \<Rightarrow> unit mem_op" where
  "mem_call (Call_add r) = mem_add r"
| "mem_call (Call_add_with_audit r e) = mem_add_with_audit r e"
| "mem_call (Call_commit r e v) = mem_commit_transition r e v"
| "mem_call (Call_record_audit e) = mem_record_audit e"

fun fc_call :: "repo_call \<Rightarrow> unit fc_op" where
  "fc_call (Call_add r) = fc_add (cr_updated_at r) r"
| "fc_call (Call_add_with_audit r e) = fc_add_with_audit (cr_updated_at r) r e"
| "fc_call (Call_commit r e v) = fc_commit_transition (cr_updated_at r) r e v"
| "fc_call (Call_record_audit e) = fc_record_audit (ae_created_at e) e"

definition fc_run_calls :: "repo_call list \<Rightarrow> fc_repo \<Rightarrow> fc_repo" where
  "fc_run_calls cs s = fold (\<lambda>c s. snd (fc_call c s)) cs s"

definition fc_empty :: fc_repo where
  "fc_empty = \<lparr>fc_changes = [], fc_audit = [], fc_audit_index = []\<rparr>"

text \<open>Calls whose identifiers are document identifiers, whose records pass their models and whose times are those of one commit.\<close>

definition storable_change :: "change_record \<Rightarrow> bool" where
  "storable_change r \<longleftrightarrow> is_document_id (cr_tenant_id r) \<and> is_document_id (cr_change_id r) \<and> ChangeRecord_validate r = Some r"

definition storable_event :: "audit_event \<Rightarrow> bool" where
  "storable_event e \<longleftrightarrow> is_document_id (ae_tenant_id e) \<and> is_document_id (ae_change_id e) \<and> is_document_id (ae_audit_event_id e) \<and>
     AuditEvent_validate e = Some e"

fun storable_call :: "repo_call \<Rightarrow> bool" where
  "storable_call (Call_add r) \<longleftrightarrow> storable_change r \<and> cr_created_at r = cr_updated_at r"
| "storable_call (Call_add_with_audit r e) \<longleftrightarrow> storable_change r \<and> storable_event e \<and> cr_created_at r = cr_updated_at r \<and>
     ae_created_at e = cr_updated_at r"
| "storable_call (Call_commit r e v) \<longleftrightarrow> storable_change r \<and> storable_event e \<and> ae_created_at e = cr_updated_at r"
| "storable_call (Call_record_audit e) \<longleftrightarrow> storable_event e"

lemmas storable = storable_change_def storable_event_def

lemma fc_call_agrees: "fc_valid m \<Longrightarrow> storable_call c \<Longrightarrow> agree (fc_call c (fc_of m)) (mem_call c m) m"
  by (cases c) (simp_all add: storable fc_add_agrees fc_add_with_audit_agrees fc_commit_transition_agrees fc_record_audit_agrees)

lemma mem_call_run: "snd (mem_call c m) = run_call c m"
  by (cases c) simp_all

lemma fc_valid_run_call:
  assumes "fc_valid m" "storable_call c"
  shows "fc_valid (run_call c m)"
proof -
  have "mem_inv (run_call c m)" using assms(1) by (simp add: fc_valid_def mem_inv_run_call)
  moreover have "ChangeRecord_validate r = Some r" if "dget (m_changes (run_call c m)) k = Some r" for k r
    using assms that by (cases c)
      (auto simp: fc_valid_def repo_call_eqs storable dget_dput simp del: split_paired_All split: if_splits option.splits)
  moreover have "AuditEvent_validate e = Some e" if "dget (m_audit (run_call c m)) k = Some e" for k e
    using assms that by (cases c)
      (auto simp: fc_valid_def repo_call_eqs storable dget_dput simp del: split_paired_All split: if_splits option.splits)
  ultimately show ?thesis by (simp add: fc_valid_def)
qed

lemma agree_snd: "agree x y m \<Longrightarrow> snd x = fc_of (snd y)"
  by (cases x; cases y; cases "fst x"; cases "fst y") (auto simp: agree_def)

lemma fc_run_calls_same:
  "fc_valid m \<Longrightarrow> list_all storable_call cs \<Longrightarrow> fc_run_calls cs (fc_of m) = fc_of (run_calls cs m) \<and> fc_valid (run_calls cs m)"
proof (induction cs arbitrary: m)
  case (Cons c cs)
  then have "snd (fc_call c (fc_of m)) = fc_of (run_call c m)"
    using agree_snd [OF fc_call_agrees] by (simp add: mem_call_run)
  with Cons show ?case by (simp add: fc_run_calls_def fc_valid_run_call)
qed (simp add: fc_run_calls_def)

lemma fc_run_calls_empty:
  "list_all storable_call cs \<Longrightarrow> fc_run_calls cs fc_empty = fc_of (run_calls cs mem_empty) \<and> fc_valid (run_calls cs mem_empty)"
  using fc_run_calls_same [of mem_empty cs] mem_inv_empty
  by (simp add: fc_valid_def fc_of_def fc_empty_def mem_empty_def)


definition logged_event :: "string \<Rightarrow> audit_event" where
  "logged_event i = (store_event ''t1'' i)\<lparr>ae_input_hash := ''sha256:'' @ replicate 64 (CHR ''a''), ae_output_hash := ''sha256:'' @ replicate 64 (CHR ''b'')\<rparr>"

definition logged_calls :: "repo_call list" where
  "logged_calls = [Call_add (store_change ''t1''), Call_record_audit (logged_event ''a1''),
     Call_commit ((store_change ''t1'')\<lparr>cr_version := 2\<rparr>) (logged_event ''a2'') 1]"

lemma logged_calls_storable: "list_all storable_call logged_calls" "storable_call (Call_add (store_change ''t2''))"
    "is_document_id ''t1''" "is_document_id ''c1''" "case Some ''a1'' of None \<Rightarrow> True | Some i \<Rightarrow> is_document_id i"
  by code_simp+


end
