(* ===== verification/Firestore_Workflows.thy ===== *)
theory Firestore_Workflows
  imports Workflow_Store Firestore_Core
begin

text \<open>
  The Firestore adapter of the workflow repository (\<^verbatim>\<open>services/workflow-coordinator/.../firestore_repository.py\<close>) and the refinement
  of the in-memory adapter by it. Both key workflows by tenant, change and execution and dead letters by tenant and identifier; the
  documents differ from the records in the times, which the server sets. Erasing those times gives the in-memory store.
\<close>

section \<open>The adapter\<close>

text \<open>\<^verbatim>\<open>ValueError\<close> of an identifier that is no document name, of a document its model rejects, and of a rejected query.\<close>

datatype fw_error = Workflow workflow_error | Value_error

type_synonym 'a fw_op = "(wf_repo, fw_error, 'a) op"

definition fw_document_id :: "string \<Rightarrow> unit fw_op" where
  "fw_document_id x = guard (is_document_id x) Value_error"

definition workflow_reference :: "string \<Rightarrow> string \<Rightarrow> string \<Rightarrow> workflow_key fw_op" where
  "workflow_reference tenant_id change_id workflow_id =
     bnd (fw_document_id tenant_id) (\<lambda>_. bnd (fw_document_id change_id) (\<lambda>_. bnd (fw_document_id workflow_id) (\<lambda>_.
       ret (tenant_id, change_id, workflow_id))))"

definition dead_letter_reference :: "string \<Rightarrow> string \<Rightarrow> (string \<times> string) fw_op" where
  "dead_letter_reference tenant_id dead_letter_id =
     bnd (fw_document_id tenant_id) (\<lambda>_. bnd (fw_document_id dead_letter_id) (\<lambda>_. ret (tenant_id, dead_letter_id)))"

definition workflow_snapshot :: "(instant \<Rightarrow> string) \<Rightarrow> workflow_execution \<Rightarrow> workflow_execution fw_op" where
  "workflow_snapshot iso_text d = validated Value_error (WorkflowExecutionRecord_validate iso_text d)"

definition dead_letter_snapshot :: "dead_letter \<Rightarrow> dead_letter fw_op" where
  "dead_letter_snapshot d = validated Value_error (DeadLetterRecord_validate d)"

definition set_workflow :: "workflow_key \<Rightarrow> workflow_execution \<Rightarrow> unit fw_op" where
  "set_workflow k d s = (Inr (), s\<lparr>w_workflows := dput k d (w_workflows s)\<rparr>)"

definition fw_create_or_get :: "(instant \<Rightarrow> string) \<Rightarrow> instant \<Rightarrow> workflow_execution \<Rightarrow> workflow_execution fw_op" where
  "fw_create_or_get iso_text commit rec =
     bnd (workflow_reference (wf_tenant_id rec) (wf_change_id rec) (wf_workflow_execution_id rec)) (\<lambda>k.
     transactional (\<lambda>s. case dget (w_workflows s) k of
         Some d \<Rightarrow> bnd (workflow_snapshot iso_text d) (\<lambda>existing.
           if wf_event_id existing \<noteq> wf_event_id rec then raise (Workflow (WorkflowConflictError ''Workflow identifier collision.''))
           else ret existing) s
       | None \<Rightarrow> bnd (set_workflow k (rec\<lparr>wf_started_at := commit, wf_updated_at := commit\<rparr>)) (\<lambda>_. ret rec) s))"

definition fw_get :: "(instant \<Rightarrow> string) \<Rightarrow> string \<Rightarrow> string \<Rightarrow> string \<Rightarrow> workflow_execution fw_op" where
  "fw_get iso_text tenant_id change_id workflow_execution_id =
     bnd (workflow_reference tenant_id change_id workflow_execution_id) (\<lambda>k s. case dget (w_workflows s) k of
         None \<Rightarrow> raise (Workflow WorkflowNotFoundError) s
       | Some d \<Rightarrow> workflow_snapshot iso_text d s)"

definition fw_update :: "(instant \<Rightarrow> string) \<Rightarrow> instant \<Rightarrow> workflow_execution \<Rightarrow> int \<Rightarrow> workflow_execution fw_op" where
  "fw_update iso_text commit rec expected_version =
     bnd (workflow_reference (wf_tenant_id rec) (wf_change_id rec) (wf_workflow_execution_id rec)) (\<lambda>k.
     transactional (\<lambda>s. case dget (w_workflows s) k of
         None \<Rightarrow> raise (Workflow WorkflowNotFoundError) s
       | Some d \<Rightarrow> bnd (workflow_snapshot iso_text d) (\<lambda>current.
           if wf_version current \<noteq> expected_version \<or> wf_version rec \<noteq> expected_version + 1 then raise (Workflow stale_version)
           else bnd (set_workflow k (rec\<lparr>wf_started_at := wf_started_at current, wf_updated_at := commit\<rparr>)) (\<lambda>_. ret rec)) s))"

definition fw_record_dead_letter :: "instant \<Rightarrow> dead_letter \<Rightarrow> dead_letter fw_op" where
  "fw_record_dead_letter commit rec =
     bnd (dead_letter_reference (dl_tenant_id rec) (dl_dead_letter_id rec)) (\<lambda>k.
     transactional (\<lambda>s. case dget (w_dead_letters s) k of
         Some d \<Rightarrow> bnd (dead_letter_snapshot d) (\<lambda>existing.
           if dl_input_hash existing \<noteq> dl_input_hash rec then raise (Workflow (WorkflowConflictError ''Dead-letter identifier collision.''))
           else ret existing) s
       | None \<Rightarrow> ret rec (s\<lparr>w_dead_letters := dput k (rec\<lparr>dl_created_at := commit\<rparr>) (w_dead_letters s)\<rparr>)))"

fun dead_letter_snapshots :: "dead_letter list \<Rightarrow> dead_letter list fw_op" where
  "dead_letter_snapshots [] = ret []"
| "dead_letter_snapshots (d # ds) = bnd (dead_letter_snapshot d) (\<lambda>x. bnd (dead_letter_snapshots ds) (\<lambda>xs. ret (x # xs)))"

definition fw_list_dead_letters :: "string \<Rightarrow> int \<Rightarrow> dead_letter list fw_op" where
  "fw_list_dead_letters tenant_id limit =
     bnd (fw_document_id tenant_id) (\<lambda>_ s.
       if limit < 0 then raise Value_error s
       else dead_letter_snapshots (take (nat limit) (sort_desc (\<lambda>d. (dl_created_at d, dl_dead_letter_id d))
         (map snd (filter (\<lambda>item. fst (fst item) = tenant_id) (w_dead_letters s))))) s)"

section \<open>Erasing the server's times\<close>

definition untimed :: "workflow_execution \<Rightarrow> workflow_execution" where
  "untimed r = r\<lparr>wf_started_at := 0, wf_updated_at := 0\<rparr>"

definition undated :: "dead_letter \<Rightarrow> dead_letter" where
  "undated d = d\<lparr>dl_created_at := 0\<rparr>"

definition untimed_repo :: "wf_repo \<Rightarrow> wf_repo" where
  "untimed_repo s = \<lparr>w_workflows = map (map_prod id untimed) (w_workflows s), w_dead_letters = map (map_prod id undated) (w_dead_letters s)\<rparr>"

fun workflow_error_of :: "fw_error \<Rightarrow> workflow_error" where
  "workflow_error_of (Workflow e) = e"
| "workflow_error_of Value_error = WorkflowValidationError"

definition erased :: "('a \<Rightarrow> 'a) \<Rightarrow> (fw_error + 'a) \<times> wf_repo \<Rightarrow> (workflow_error + 'a) \<times> wf_repo" where
  "erased f x = (map_sum workflow_error_of f (fst x), untimed_repo (snd x))"

text \<open>
  Documents as the adapter leaves them: under their own keys, valid, and no later than the last commit \<^term>\<open>now\<close>.
\<close>

definition fw_ok :: "(instant \<Rightarrow> string) \<Rightarrow> instant \<Rightarrow> wf_repo \<Rightarrow> bool" where
  "fw_ok iso_text now s \<longleftrightarrow>
     (\<forall>k d. dget (w_workflows s) k = Some d \<longrightarrow> WorkflowExecutionRecord_validate iso_text d = Some d \<and> wf_updated_at d \<le> now) \<and>
     (\<forall>k d. dget (w_dead_letters s) k = Some d \<longrightarrow> DeadLetterRecord_validate d = Some d)"

definition storable_workflow :: "(instant \<Rightarrow> string) \<Rightarrow> workflow_execution \<Rightarrow> bool" where
  "storable_workflow iso_text r \<longleftrightarrow> is_document_id (wf_tenant_id r) \<and> is_document_id (wf_change_id r) \<and>
     is_document_id (wf_workflow_execution_id r) \<and> WorkflowExecutionRecord_validate iso_text r = Some r"

definition storable_dead_letter :: "dead_letter \<Rightarrow> bool" where
  "storable_dead_letter d \<longleftrightarrow> is_document_id (dl_tenant_id d) \<and> is_document_id (dl_dead_letter_id d) \<and> DeadLetterRecord_validate d = Some d"

lemma dget_map_prod: "dget (map (map_prod id f) d) k = map_option f (dget d k)"
  by (induction d) (auto simp: dget_Cons)

lemma dput_map_prod: "dput k (f v) (map (map_prod id f) d) = map (map_prod id f) (dput k v d)"
  by (induction d) (auto simp: dput_def)

lemma untimed_simps [simp]:
  "wf_event_id (untimed r) = wf_event_id r" "wf_version (untimed r) = wf_version r" "workflow_key (untimed r) = workflow_key r"
  "untimed (r\<lparr>wf_started_at := a, wf_updated_at := b\<rparr>) = untimed r"
  "dl_input_hash (undated d) = dl_input_hash d" "dl_tenant_id (undated d) = dl_tenant_id d"
  "dl_dead_letter_id (undated d) = dl_dead_letter_id d" "undated (d\<lparr>dl_created_at := c\<rparr>) = undated d"
  by (simp_all add: untimed_def undated_def workflow_key_def)

lemma untimed_repo_simps [simp]:
  "dget (w_workflows (untimed_repo s)) k = map_option untimed (dget (w_workflows s) k)"
  "dget (w_dead_letters (untimed_repo s)) k' = map_option undated (dget (w_dead_letters s) k')"
  by (simp_all add: untimed_repo_def dget_map_prod)

lemma untimed_repo_writes:
  "untimed_repo (s\<lparr>w_workflows := dput k r (w_workflows s)\<rparr>) = (untimed_repo s)\<lparr>w_workflows := dput k (untimed r) (w_workflows (untimed_repo s))\<rparr>"
  "untimed_repo (s\<lparr>w_dead_letters := dput k' d (w_dead_letters s)\<rparr>) =
    (untimed_repo s)\<lparr>w_dead_letters := dput k' (undated d) (w_dead_letters (untimed_repo s))\<rparr>"
  by (simp_all add: untimed_repo_def dput_map_prod)

lemma references:
  "storable_workflow iso_text r \<Longrightarrow> workflow_reference (wf_tenant_id r) (wf_change_id r) (wf_workflow_execution_id r) = ret (workflow_key r)"
  "storable_dead_letter d \<Longrightarrow> dead_letter_reference (dl_tenant_id d) (dl_dead_letter_id d) = ret (dl_tenant_id d, dl_dead_letter_id d)"
  by (simp_all add: storable_workflow_def storable_dead_letter_def workflow_reference_def dead_letter_reference_def fw_document_id_def
      guard_def bnd_def fun_eq_iff workflow_key_def)

section \<open>Refinement\<close>

lemma workflow_snapshot_same:
  "fw_ok iso_text now s \<Longrightarrow> dget (w_workflows s) k = Some d \<Longrightarrow> workflow_snapshot iso_text d s' = (Inr d, s')"
  "fw_ok iso_text now s \<Longrightarrow> dget (w_dead_letters s) k' = Some l \<Longrightarrow> dead_letter_snapshot l s' = (Inr l, s')"
  by (auto simp: fw_ok_def workflow_snapshot_def dead_letter_snapshot_def simp del: split_paired_All)

lemma fw_create_or_get_refines:
  assumes "fw_ok iso_text now s" "storable_workflow iso_text r"
  shows "erased untimed (fw_create_or_get iso_text commit r s) = create_or_get (untimed r) (untimed_repo s)"
  using assms by (cases "dget (w_workflows s) (workflow_key r)")
    (simp_all add: fw_create_or_get_def create_or_get_def references transactional_def bnd_def workflow_snapshot_same set_workflow_def
      put_workflow_def erased_def untimed_repo_writes)

lemma fw_update_refines:
  assumes "fw_ok iso_text now s" "storable_workflow iso_text r"
  shows "erased untimed (fw_update iso_text commit r v s) = update_workflow (untimed r) v (untimed_repo s)"
  using assms by (cases "dget (w_workflows s) (workflow_key r)")
    (simp_all add: fw_update_def update_workflow_def references transactional_def bnd_def workflow_snapshot_same set_workflow_def
      put_workflow_def erased_def untimed_repo_writes)

lemma fw_record_dead_letter_refines:
  assumes "fw_ok iso_text now s" "storable_dead_letter d"
  shows "erased undated (fw_record_dead_letter commit d s) = record_dead_letter (undated d) (untimed_repo s)"
  using assms by (cases "dget (w_dead_letters s) (dl_tenant_id d, dl_dead_letter_id d)")
    (simp_all add: fw_record_dead_letter_def record_dead_letter_def references transactional_def bnd_def workflow_snapshot_same
      erased_def untimed_repo_writes Let_def)

lemma fw_get_refines:
  assumes "fw_ok iso_text now s" "is_document_id t" "is_document_id c" "is_document_id w"
  shows "erased untimed (fw_get iso_text t c w s) = get_workflow t c w (untimed_repo s)"
proof -
  have "workflow_reference t c w = ret (t, c, w)"
    using assms(2-4) by (simp add: workflow_reference_def fw_document_id_def guard_def bnd_def fun_eq_iff)
  with assms(1) show ?thesis by (cases "dget (w_workflows s) (t, c, w)")
      (simp_all add: fw_get_def get_workflow_def workflow_snapshot_same erased_def)
qed

text \<open>A document the adapter writes is valid: the times it sets keep the order the model asks for.\<close>

lemma retimed_valid:
  assumes "WorkflowExecutionRecord_validate iso_text r = Some r" "a \<le> b"
  shows "WorkflowExecutionRecord_validate iso_text (r\<lparr>wf_started_at := a, wf_updated_at := b\<rparr>) = Some (r\<lparr>wf_started_at := a, wf_updated_at := b\<rparr>)"
proof -
  have *: "strip_workflow r = r" "workflow_fields_ok r" "validate_workflow_lifecycle iso_text r"
    using WorkflowExecutionRecord_validate_ok [OF assms(1)] by simp_all
  have "strip_workflow (r\<lparr>wf_started_at := a, wf_updated_at := b\<rparr>) = (strip_workflow r)\<lparr>wf_started_at := a, wf_updated_at := b\<rparr>"
    by (simp add: strip_workflow_def)
  with * assms(2) show ?thesis
    by (cases "wf_plan r") (simp_all add: WorkflowExecutionRecord_validate_def workflow_fields_ok_def validate_workflow_lifecycle_def Let_def)
qed

lemma started_before_updated: "WorkflowExecutionRecord_validate iso_text r = Some r \<Longrightarrow> wf_started_at r \<le> wf_updated_at r"
  using WorkflowExecutionRecord_validate_ok [of iso_text r r] by (simp add: validate_workflow_lifecycle_def)

lemma undated_valid: "DeadLetterRecord_validate d = Some d \<Longrightarrow> DeadLetterRecord_validate (d\<lparr>dl_created_at := c\<rparr>) = Some (d\<lparr>dl_created_at := c\<rparr>)"
  by (cases d) (simp add: DeadLetterRecord_validate_def strip_dead_letter_def Let_def split: if_splits)

lemma fw_ok_put_workflow:
  "fw_ok iso_text now s \<Longrightarrow> now \<le> commit \<Longrightarrow> WorkflowExecutionRecord_validate iso_text d = Some d \<Longrightarrow> wf_updated_at d \<le> commit \<Longrightarrow>
   fw_ok iso_text commit (s\<lparr>w_workflows := dput k d (w_workflows s)\<rparr>)"
  by (fastforce simp: fw_ok_def simp del: split_paired_All)

lemma fw_ok_put_dead_letter:
  "fw_ok iso_text now s \<Longrightarrow> now \<le> commit \<Longrightarrow> DeadLetterRecord_validate d = Some d \<Longrightarrow>
   fw_ok iso_text commit (s\<lparr>w_dead_letters := dput k d (w_dead_letters s)\<rparr>)"
  by (fastforce simp: fw_ok_def simp del: split_paired_All)

lemma fw_ok_mono: "fw_ok iso_text now s \<Longrightarrow> now \<le> commit \<Longrightarrow> fw_ok iso_text commit s"
  by (fastforce simp: fw_ok_def simp del: split_paired_All)

section \<open>Histories\<close>

datatype wf_call = WC_create workflow_execution | WC_update workflow_execution int | WC_dead_letter dead_letter

fun storable_wf_call :: "(instant \<Rightarrow> string) \<Rightarrow> wf_call \<Rightarrow> bool" where
  "storable_wf_call iso_text (WC_create r) = storable_workflow iso_text r"
| "storable_wf_call iso_text (WC_update r v) = storable_workflow iso_text r"
| "storable_wf_call iso_text (WC_dead_letter d) = storable_dead_letter d"

fun fw_run_call :: "(instant \<Rightarrow> string) \<Rightarrow> instant \<times> wf_call \<Rightarrow> wf_repo \<Rightarrow> wf_repo" where
  "fw_run_call iso_text (commit, WC_create r) s = snd (fw_create_or_get iso_text commit r s)"
| "fw_run_call iso_text (commit, WC_update r v) s = snd (fw_update iso_text commit r v s)"
| "fw_run_call iso_text (commit, WC_dead_letter d) s = snd (fw_record_dead_letter commit d s)"

fun run_wf_call :: "wf_call \<Rightarrow> wf_repo \<Rightarrow> wf_repo" where
  "run_wf_call (WC_create r) s = snd (create_or_get (untimed r) s)"
| "run_wf_call (WC_update r v) s = snd (update_workflow (untimed r) v s)"
| "run_wf_call (WC_dead_letter d) s = snd (record_dead_letter (undated d) s)"

lemma fw_ok_run_call:
  assumes "fw_ok iso_text now s" "now \<le> commit" "storable_wf_call iso_text c"
  shows "fw_ok iso_text commit (fw_run_call iso_text (commit, c) s)"
proof (cases c)
  case (WC_create r)
  then have "WorkflowExecutionRecord_validate iso_text r = Some r" using assms(3) by (simp add: storable_workflow_def)
  with WC_create assms show ?thesis
    using fw_ok_put_workflow [OF assms(1,2) retimed_valid [of iso_text r commit commit]] fw_ok_mono [OF assms(1,2)]
    by (cases "dget (w_workflows s) (workflow_key r)")
      (simp_all add: fw_create_or_get_def references transactional_def bnd_def workflow_snapshot_same set_workflow_def)
next
  case (WC_update r v)
  show ?thesis
  proof (cases "dget (w_workflows s) (workflow_key r)")
    case None
    with WC_update assms fw_ok_mono [OF assms(1,2)] show ?thesis by (simp add: fw_update_def references transactional_def)
  next
    case (Some d)
    then have "WorkflowExecutionRecord_validate iso_text d = Some d" "wf_updated_at d \<le> now"
      using assms(1) by (auto simp: fw_ok_def simp del: split_paired_All)
    then have "wf_started_at d \<le> commit" using started_before_updated [of iso_text d] assms(2) by simp
    moreover have "WorkflowExecutionRecord_validate iso_text r = Some r" using assms(3) WC_update by (simp add: storable_workflow_def)
    ultimately have "fw_ok iso_text commit (s\<lparr>w_workflows := dput (workflow_key r)
        (r\<lparr>wf_started_at := wf_started_at d, wf_updated_at := commit\<rparr>) (w_workflows s)\<rparr>)"
      using fw_ok_put_workflow [OF assms(1,2) retimed_valid] by simp
    with Some WC_update assms fw_ok_mono [OF assms(1,2)] show ?thesis
      by (simp add: fw_update_def references transactional_def bnd_def workflow_snapshot_same set_workflow_def)
  qed
next
  case (WC_dead_letter d)
  then have "DeadLetterRecord_validate d = Some d" using assms(3) by (simp add: storable_dead_letter_def)
  with WC_dead_letter assms show ?thesis
    using fw_ok_put_dead_letter [OF assms(1,2) undated_valid [of d]] fw_ok_mono [OF assms(1,2)]
    by (cases "dget (w_dead_letters s) (dl_tenant_id d, dl_dead_letter_id d)")
      (simp_all add: fw_record_dead_letter_def references transactional_def bnd_def workflow_snapshot_same)
qed

lemma erased_snd: "erased f x = y \<Longrightarrow> untimed_repo (snd x) = snd y"
  by (auto simp: erased_def)

lemma untimed_run_call:
  "fw_ok iso_text now s \<Longrightarrow> storable_wf_call iso_text c \<Longrightarrow> untimed_repo (fw_run_call iso_text (commit, c) s) = run_wf_call c (untimed_repo s)"
  by (cases c) (simp_all add: erased_snd [OF fw_create_or_get_refines] erased_snd [OF fw_update_refines]
      erased_snd [OF fw_record_dead_letter_refines])

text \<open>Commits in the order of their times, from the empty database.\<close>

definition fw_run :: "(instant \<Rightarrow> string) \<Rightarrow> (instant \<times> wf_call) list \<Rightarrow> wf_repo" where
  "fw_run iso_text history = fold (fw_run_call iso_text) history wf_repo_empty"

lemma fw_run_refines:
  "sorted (map fst h) \<Longrightarrow> list_all (\<lambda>x. storable_wf_call iso_text (snd x)) h \<Longrightarrow> list_all (\<lambda>x. fst x \<le> now) h \<Longrightarrow>
   fw_ok iso_text now (fw_run iso_text h) \<and> untimed_repo (fw_run iso_text h) = fold run_wf_call (map snd h) wf_repo_empty"
proof (induction h arbitrary: now rule: rev_induct)
  case Nil
  then show ?case by (simp add: fw_run_def fw_ok_def wf_repo_empty_def untimed_repo_def)
next
  case (snoc x h)
  obtain commit c where x: "x = (commit, c)" by (cases x)
  with snoc have ok: "fw_ok iso_text commit (fw_run iso_text h)"
      "untimed_repo (fw_run iso_text h) = fold run_wf_call (map snd h) wf_repo_empty"
    by (auto simp: sorted_append list_all_iff)
  with snoc.prems x show ?case
    using fw_ok_mono [OF fw_ok_run_call [OF ok(1) order_refl], of c now] untimed_run_call [OF ok(1), of c commit]
    by (simp add: fw_run_def)
qed


definition stored_workflow :: workflow_execution where
  "stored_workflow = \<lparr>wf_workflow_execution_id = ''w1'', wf_tenant_id = ''t1'', wf_change_id = ''c1'', wf_event_id = ''e1'', wf_trace_id = ''tr1'',
     wf_event = \<lparr>ev_event_id = ''e1'', ev_tenant_id = ''t1'', ev_event_type = ''api.contract.changed'',
       ev_source = \<lparr>src_type = ''github'', src_external_id = ''pr-1'', src_url = ''https://example.com''\<rparr>,
       ev_occurred_at = 0, ev_received_at = 0, ev_subject = \<lparr>sub_system_id = ''crm'', sub_resource_type = ''api'', sub_resource_id = ''leads''\<rparr>,
       ev_change = \<lparr>chg_summary = ''rename'', chg_old_version = ''1'', chg_new_version = ''2'', chg_artifact_refs = []\<rparr>, ev_correlation_id = ''k1'', ev_trace_id = ''tr1''\<rparr>,
     wf_status = WR_RECEIVED, wf_delivery_attempts = 1, wf_plan = None, wf_plan_hash = None, wf_approval_id = None,
     wf_approval_expires_at = None, wf_tasks = [], wf_last_error_code = None, wf_started_at = 3, wf_updated_at = 4,
     wf_completed_at = None, wf_version = 1\<rparr>"

definition stored_history :: "(instant \<times> wf_call) list" where
  "stored_history = [(10, WC_create stored_workflow), (20, WC_update (stored_workflow\<lparr>wf_version := 2\<rparr>) 1)]"

lemma stored_history_ok: "sorted (map fst stored_history)" "list_all (\<lambda>x. storable_wf_call demo_iso (snd x)) stored_history"
    "storable_wf_call demo_iso (WC_update (stored_workflow\<lparr>wf_version := 2\<rparr>) 1)"
    "is_document_id ''t1''" "is_document_id ''c1''" "is_document_id ''w1''"
  by code_simp+


end
