(* ===== verification/Firestore_Governance.thy ===== *)
theory Firestore_Governance
  imports Governance_Store Firestore_Core
begin

text \<open>
  The Firestore adapter of the governance repository (\<^verbatim>\<open>services/tool-gateway/.../firestore_repository.py\<close>). An approval request stands
  under its tenant and change and, as a copy, in the tenant's approval index; an execution stands under its change and, as a copy with the
  raw key, under the digest of its idempotency key. Every operation that writes is one transaction. The theory shows that the copies
  agree, that a decision is final and that a key whose execution succeeded is never executed again.
\<close>

section \<open>Collections and references\<close>

record fg_repo =
  fg_plans :: "(string \<times> string \<times> string, remediation_plan) dict"
  fg_approvals :: "(string \<times> string \<times> string, approval_request) dict"
  fg_approval_index :: "(string \<times> string, approval_request) dict"
  fg_executions :: "(string \<times> string \<times> string, tool_execution) dict"
  fg_idempotency :: "(string \<times> string, tool_execution \<times> string) dict"
  fg_audit :: "(string \<times> string \<times> string, audit_event) dict"
  fg_audit_index :: "(string \<times> string, audit_event) dict"

definition fg_empty :: fg_repo where
  "fg_empty = \<lparr>fg_plans = [], fg_approvals = [], fg_approval_index = [], fg_executions = [], fg_idempotency = [], fg_audit = [], fg_audit_index = []\<rparr>"

text \<open>
  A \<^verbatim>\<open>GatewayError\<close>, the \<^verbatim>\<open>RuntimeError\<close> of copies that disagree, a \<^verbatim>\<open>ValidationError\<close> of a document or record, the driver's
  \<^verbatim>\<open>AlreadyExists\<close> and a rejected query.
\<close>

datatype fg_error = Gateway gateway_error | Inconsistent string | Invalid_record | Document_exists | Query_rejected

type_synonym 'a fg_op = "(fg_repo, fg_error, 'a) op"

definition fg_document_id :: "string \<Rightarrow> string \<Rightarrow> unit fg_op" where
  "fg_document_id x field_name = guard (is_document_id x) (Gateway (conflict (field_name @ '' is not a valid document identifier.'')))"

definition tenant_reference :: "string \<Rightarrow> string fg_op" where
  "tenant_reference tenant_id = bnd (fg_document_id tenant_id ''tenant_id'') (\<lambda>_. ret tenant_id)"

definition scoped_reference :: "string \<Rightarrow> string \<Rightarrow> string \<Rightarrow> string \<Rightarrow> (string \<times> string \<times> string) fg_op" where
  "scoped_reference tenant_id change_id x field_name =
     bnd (tenant_reference tenant_id) (\<lambda>t. bnd (fg_document_id change_id ''change_id'') (\<lambda>_.
     bnd (fg_document_id x field_name) (\<lambda>_. ret (t, change_id, x))))"

definition index_reference :: "string \<Rightarrow> string \<Rightarrow> string \<Rightarrow> (string \<times> string) fg_op" where
  "index_reference tenant_id x field_name =
     bnd (tenant_reference tenant_id) (\<lambda>t. bnd (fg_document_id x field_name) (\<lambda>_. ret (t, x)))"

definition plan_reference :: "string \<Rightarrow> string \<Rightarrow> string \<Rightarrow> (string \<times> string \<times> string) fg_op" where
  "plan_reference tenant_id change_id plan_id = scoped_reference tenant_id change_id plan_id ''plan_id''"

definition approval_reference :: "string \<Rightarrow> string \<Rightarrow> string \<Rightarrow> (string \<times> string \<times> string) fg_op" where
  "approval_reference tenant_id change_id approval_id = scoped_reference tenant_id change_id approval_id ''approval_id''"

definition approval_index_reference :: "string \<Rightarrow> string \<Rightarrow> (string \<times> string) fg_op" where
  "approval_index_reference tenant_id approval_id = index_reference tenant_id approval_id ''approval_id''"

definition execution_reference :: "string \<Rightarrow> string \<Rightarrow> string \<Rightarrow> (string \<times> string \<times> string) fg_op" where
  "execution_reference tenant_id change_id execution_id = scoped_reference tenant_id change_id execution_id ''execution_id''"

definition idempotency_reference :: "string \<Rightarrow> string \<Rightarrow> (string \<times> string) fg_op" where
  "idempotency_reference tenant_id digest = index_reference tenant_id digest ''idempotency_digest''"

definition governance_audit_reference :: "string \<Rightarrow> string \<Rightarrow> string \<Rightarrow> (string \<times> string \<times> string) fg_op" where
  "governance_audit_reference tenant_id change_id audit_event_id = scoped_reference tenant_id change_id audit_event_id ''audit_event_id''"

definition governance_audit_index_reference :: "string \<Rightarrow> string \<Rightarrow> (string \<times> string) fg_op" where
  "governance_audit_index_reference tenant_id audit_event_id = index_reference tenant_id audit_event_id ''audit_event_id''"

section \<open>Documents\<close>

definition approval_document :: "instant \<Rightarrow> approval_request \<Rightarrow> bool \<Rightarrow> approval_request" where
  "approval_document commit rec server_requested_at =
     rec\<lparr>ar_requested_at := (if server_requested_at then commit else ar_requested_at rec),
         ar_decided_at := map_option (\<lambda>_. commit) (ar_decided_at rec)\<rparr>"

definition execution_document :: "instant \<Rightarrow> tool_execution \<Rightarrow> tool_execution" where
  "execution_document commit rec = rec\<lparr>te_updated_at := commit\<rparr>"

definition plan_snapshot :: "remediation_plan \<Rightarrow> remediation_plan fg_op" where
  "plan_snapshot d = validated Invalid_record (RemediationPlan_validate d)"

definition approval_snapshot :: "approval_request \<Rightarrow> approval_request fg_op" where
  "approval_snapshot d = validated Invalid_record (ApprovalRequestRecord_validate d)"

definition execution_snapshot :: "tool_execution \<Rightarrow> tool_execution fg_op" where
  "execution_snapshot d = validated Invalid_record (ToolExecutionRecord_validate d)"

fun fg_snapshots :: "('d \<Rightarrow> 'd fg_op) \<Rightarrow> 'd list \<Rightarrow> 'd list fg_op" where
  "fg_snapshots f [] = ret []"
| "fg_snapshots f (d # ds) = bnd (f d) (\<lambda>x. bnd (fg_snapshots f ds) (\<lambda>xs. ret (x # xs)))"

definition fg_stream :: "('d \<Rightarrow> 'd fg_op) \<Rightarrow> int \<Rightarrow> 'd list \<Rightarrow> 'd list fg_op" where
  "fg_stream f limit ds = (if limit < 0 then raise Query_rejected else fg_snapshots f (take (nat limit) ds))"

section \<open>Approval requests\<close>

definition set_plan :: "string \<times> string \<times> string \<Rightarrow> remediation_plan \<Rightarrow> unit fg_op" where
  "set_plan k d s = (Inr (), s\<lparr>fg_plans := dput k d (fg_plans s)\<rparr>)"

definition set_approval :: "string \<times> string \<times> string \<Rightarrow> string \<times> string \<Rightarrow> approval_request \<Rightarrow> unit fg_op" where
  "set_approval k x d s = (Inr (), s\<lparr>fg_approvals := dput k d (fg_approvals s), fg_approval_index := dput x d (fg_approval_index s)\<rparr>)"

definition existing_plan :: "(instant \<Rightarrow> string) \<Rightarrow> string \<Rightarrow> string \<times> string \<times> string \<Rightarrow> remediation_plan option fg_op" where
  "existing_plan iso_text plan_hash k s = (case dget (fg_plans s) k of
     None \<Rightarrow> ret None s
   | Some d \<Rightarrow> bnd (plan_snapshot d) (\<lambda>p.
       if calculate_plan_hash iso_text p \<noteq> plan_hash then raise (Gateway (conflict ''A different plan already uses this plan identifier.''))
       else ret (Some p)) s)"

definition fg_create_approval_request ::
  "(instant \<Rightarrow> string) \<Rightarrow> instant \<Rightarrow> approval_request \<Rightarrow> remediation_plan \<Rightarrow> approval_request fg_op" where
  "fg_create_approval_request iso_text commit rec plan =
     bnd (guard (calculate_plan_hash iso_text plan = ar_plan_hash rec)
       (Gateway (conflict ''Approval request plan hash is not canonical.''))) (\<lambda>_.
     bnd (plan_reference (pl_tenant_id plan) (pl_change_id plan) (pl_plan_id plan)) (\<lambda>p.
     bnd (approval_reference (ar_tenant_id rec) (ar_change_id rec) (ar_approval_id rec)) (\<lambda>k.
     bnd (approval_index_reference (ar_tenant_id rec) (ar_approval_id rec)) (\<lambda>x.
     transactional (bnd (existing_plan iso_text (ar_plan_hash rec) p) (\<lambda>existing s.
       case (dget (fg_approvals s) k, dget (fg_approval_index s) x) of
         (None, None) \<Rightarrow>
           bnd (if existing = None then set_plan p plan else ret ()) (\<lambda>_.
           bnd (set_approval k x (approval_document commit rec True)) (\<lambda>_. ret rec)) s
       | (Some d, Some i) \<Rightarrow>
           bnd (approval_snapshot d) (\<lambda>existing_approval.
           bnd (approval_snapshot i) (\<lambda>indexed_approval.
             if existing_approval \<noteq> indexed_approval
             then raise (Inconsistent ''Approval index diverged from the authoritative record.'')
             else if (case existing of None \<Rightarrow> False | Some q \<Rightarrow> plan_eq q plan) \<and> same_approval_request existing_approval rec
             then ret existing_approval
             else raise (Gateway (conflict ''Approval request identifier already exists.'')))) s
       | _ \<Rightarrow> raise (Inconsistent ''Approval request indexes are inconsistent.'') s))))))"

definition fg_get_plan :: "string \<Rightarrow> string \<Rightarrow> string \<Rightarrow> remediation_plan fg_op" where
  "fg_get_plan tenant_id change_id plan_id =
     bnd (plan_reference tenant_id change_id plan_id) (\<lambda>k s. case dget (fg_plans s) k of
       None \<Rightarrow> raise (Gateway (GatewayNotFoundError ''plan'')) s | Some d \<Rightarrow> plan_snapshot d s)"

definition fg_get_approval_request :: "string \<Rightarrow> string \<Rightarrow> approval_request fg_op" where
  "fg_get_approval_request tenant_id approval_id =
     bnd (approval_index_reference tenant_id approval_id) (\<lambda>x s. case dget (fg_approval_index s) x of
       None \<Rightarrow> raise (Gateway (GatewayNotFoundError ''approval'')) s | Some d \<Rightarrow> approval_snapshot d s)"

definition fg_list_approval_requests :: "string \<Rightarrow> int \<Rightarrow> approval_request list fg_op" where
  "fg_list_approval_requests tenant_id limit =
     bnd (tenant_reference tenant_id) (\<lambda>t s. fg_stream approval_snapshot limit (sort_desc (\<lambda>d. (ar_requested_at d, ar_approval_id d))
       (map snd (filter (\<lambda>item. fst (fst item) = t) (fg_approval_index s)))) s)"

definition decide_current ::
  "instant \<Rightarrow> string \<times> string \<times> string \<Rightarrow> string \<times> string \<Rightarrow> approval_request \<Rightarrow> decision_args \<Rightarrow> instant \<Rightarrow> approval_request fg_op" where
  "decide_current commit k x current a decided_at =
    (if ar_status current \<noteq> AR_PENDING
     then (if same_approval_decision current a then ret current
           else raise (Gateway (conflict ''Approval request already has a final decision.'')))
     else if ar_version current \<noteq> da_expected_version a
     then raise (Gateway (GatewayConflictError ''Approval request version is stale.'' ''VERSION_CONFLICT''))
     else if ar_expires_at current \<le> decided_at
     then raise (Gateway (GatewayConflictError ''Approval request has expired.'' ''APPROVAL_EXPIRED''))
     else if ar_requested_by current = da_decided_by a
     then raise (Gateway (AuthorizationError ''Separation of duties prevents the plan requester from approving it.''))
     else bnd (validated Invalid_record (ApprovalRequestRecord_validate (decided_record current a decided_at))) (\<lambda>updated.
       bnd (set_approval k x (approval_document commit updated False)) (\<lambda>_. ret updated)))"

definition fg_decide_approval :: "instant \<Rightarrow> string \<Rightarrow> string \<Rightarrow> decision_args \<Rightarrow> instant \<Rightarrow> approval_request fg_op" where
  "fg_decide_approval commit tenant_id approval_id a decided_at =
     bnd (approval_index_reference tenant_id approval_id) (\<lambda>x.
     transactional (\<lambda>s. case dget (fg_approval_index s) x of
         None \<Rightarrow> raise (Gateway (GatewayNotFoundError ''approval'')) s
       | Some i \<Rightarrow> bnd (approval_snapshot i) (\<lambda>indexed.
           bnd (approval_reference tenant_id (ar_change_id indexed) approval_id) (\<lambda>k s. case dget (fg_approvals s) k of
             None \<Rightarrow> raise (Inconsistent ''Approval index points to a missing authoritative record.'') s
           | Some d \<Rightarrow> bnd (approval_snapshot d) (\<lambda>current.
               if current \<noteq> indexed then raise (Inconsistent ''Approval index diverged from the authoritative record.'')
               else decide_current commit k x current a decided_at) s)) s))"

section \<open>Executions\<close>

definition key_digest :: "string \<Rightarrow> string \<Rightarrow> string" where
  "key_digest tenant_id key = sha256_digest (JObj [(''tenant_id'', JStr tenant_id), (''key'', JStr key)])"

definition set_execution :: "string \<times> string \<times> string \<Rightarrow> string \<times> string \<Rightarrow> tool_execution \<Rightarrow> string \<Rightarrow> unit fg_op" where
  "set_execution k x d raw_key s = (Inr (), s\<lparr>fg_executions := dput k d (fg_executions s), fg_idempotency := dput x (d, raw_key) (fg_idempotency s)\<rparr>)"

text \<open>The approval check of a reservation, against the authoritative record of the change.\<close>

definition fg_require_approval ::
  "tool_intent \<Rightarrow> policy_decision \<Rightarrow> approval option \<Rightarrow> (string \<times> string \<times> string) option \<Rightarrow> instant \<Rightarrow> unit fg_op" where
  "fg_require_approval intent decision approval reference now =
    (if \<not> pd_approval_required decision then ret ()
     else case (approval, reference) of
       (Some ap, Some k) \<Rightarrow> (\<lambda>s. case dget (fg_approvals s) k of
           None \<Rightarrow> raise (Gateway ApprovalRequiredError) s
         | Some d \<Rightarrow> bnd (approval_snapshot d) (\<lambda>rec. case as_approval rec of
             Inl e \<Rightarrow> raise Invalid_record
           | Inr None \<Rightarrow> raise (Gateway ApprovalRequiredError)
           | Inr (Some current) \<Rightarrow>
               if current \<noteq> ap \<or> ap_expires_at current \<le> now \<or> ti_step_id intent \<notin> set (ap_scope current) \<or>
                  ap_plan_hash current \<noteq> ti_plan_hash intent
               then raise (Gateway ApprovalRequiredError) else ret ()) s)
     | _ \<Rightarrow> raise (Gateway ApprovalRequiredError))"

definition fg_reserve_existing ::
  "instant \<Rightarrow> string \<times> string \<times> string \<Rightarrow> string \<times> string \<Rightarrow> tool_execution \<Rightarrow> tool_intent \<Rightarrow> policy_decision \<Rightarrow> approval option \<Rightarrow>
   string \<Rightarrow> instant \<Rightarrow> execution_reservation fg_op" where
  "fg_reserve_existing commit k x existing intent decision approval input_hash now =
    (if te_input_hash existing \<noteq> input_hash
     then raise (Gateway (GatewayConflictError ''Idempotency key was already used for a different tool action.'' ''IDEMPOTENCY_CONFLICT''))
     else if te_status existing = TE_SUCCEEDED then ret \<lparr>er_record = existing, er_replayed = True\<rparr>
     else if te_status existing = TE_RESERVED \<and> te_updated_at existing > now - minutes 2
     then raise (Gateway (GatewayConflictError ''The idempotent tool action is already in progress.'' ''EXECUTION_IN_PROGRESS''))
     else bnd (validated Invalid_record (ToolExecutionRecord_validate (retry_record existing intent decision approval now))) (\<lambda>rec.
       bnd (set_execution k x (execution_document commit rec) (ti_idempotency_key intent)) (\<lambda>_.
       ret \<lparr>er_record = rec, er_replayed = False\<rparr>)))"

definition fg_reserve_execution ::
  "instant \<Rightarrow> tool_intent \<Rightarrow> policy_decision \<Rightarrow> approval option \<Rightarrow> string \<Rightarrow> instant \<Rightarrow> execution_reservation fg_op" where
  "fg_reserve_execution commit intent decision approval input_hash now =
    (let digest = key_digest (ti_tenant_id intent) (ti_idempotency_key intent);
         execution_id = ''execution_'' @ take 24 (drop 7 digest) in
     bnd (idempotency_reference (ti_tenant_id intent) (drop 7 digest)) (\<lambda>x.
     bnd (execution_reference (ti_tenant_id intent) (ti_change_id intent) execution_id) (\<lambda>k.
     bnd (case approval of
         None \<Rightarrow> ret None
       | Some ap \<Rightarrow> bnd (approval_reference (ti_tenant_id intent) (ti_change_id intent) (ap_approval_id ap)) (\<lambda>r. ret (Some r))) (\<lambda>reference.
     transactional (bnd (fg_require_approval intent decision approval reference now) (\<lambda>_ s. case dget (fg_idempotency s) x of
         Some (d, _) \<Rightarrow> bnd (execution_snapshot d) (\<lambda>existing.
           fg_reserve_existing commit k x existing intent decision approval input_hash now) s
       | None \<Rightarrow> bnd (validated Invalid_record (ToolExecutionRecord_validate
             (new_execution execution_id intent decision approval input_hash now))) (\<lambda>rec.
           bnd (set_execution k x (execution_document commit rec) (ti_idempotency_key intent)) (\<lambda>_.
           ret \<lparr>er_record = rec, er_replayed = False\<rparr>)) s))))))"

definition fg_finish_execution ::
  "instant \<Rightarrow> string \<Rightarrow> string \<Rightarrow> string \<Rightarrow> (string \<times> json) list option \<Rightarrow> string option \<Rightarrow> string option \<Rightarrow> instant \<Rightarrow> tool_execution fg_op" where
  "fg_finish_execution commit tenant_id change_id execution_id output output_hash error_code completed_at =
     bnd (execution_reference tenant_id change_id execution_id) (\<lambda>k.
     transactional (\<lambda>s. case dget (fg_executions s) k of
         None \<Rightarrow> raise (Gateway (GatewayNotFoundError ''tool execution'')) s
       | Some d \<Rightarrow> bnd (execution_snapshot d) (\<lambda>current.
           if te_status current \<noteq> TE_RESERVED then raise (Gateway (conflict ''Tool execution is not reserved.''))
           else bnd (validated Invalid_record (ToolExecutionRecord_validate (current\<lparr>
               te_status := (if error_code = None then TE_SUCCEEDED else TE_FAILED), te_output := output, te_output_hash := output_hash,
               te_error_code := error_code, te_updated_at := completed_at\<rparr>))) (\<lambda>updated.
             bnd (idempotency_reference tenant_id (drop 7 (key_digest tenant_id (te_idempotency_key current)))) (\<lambda>x.
             bnd (set_execution k x (execution_document commit updated) (te_idempotency_key current)) (\<lambda>_. ret updated)))) s))"

definition fg_complete_execution ::
  "instant \<Rightarrow> string \<Rightarrow> string \<Rightarrow> string \<Rightarrow> (string \<times> json) list \<Rightarrow> string \<Rightarrow> instant \<Rightarrow> tool_execution fg_op" where
  "fg_complete_execution commit tenant_id change_id execution_id output output_hash completed_at =
     fg_finish_execution commit tenant_id change_id execution_id (Some output) (Some output_hash) None completed_at"

definition fg_fail_execution :: "instant \<Rightarrow> string \<Rightarrow> string \<Rightarrow> string \<Rightarrow> string \<Rightarrow> instant \<Rightarrow> tool_execution fg_op" where
  "fg_fail_execution commit tenant_id change_id execution_id error_code failed_at =
     fg_finish_execution commit tenant_id change_id execution_id None None (Some error_code) failed_at"

section \<open>Audit\<close>

definition fg_record_audit :: "instant \<Rightarrow> audit_event \<Rightarrow> unit fg_op" where
  "fg_record_audit commit event =
     bnd (governance_audit_reference (ae_tenant_id event) (ae_change_id event) (ae_audit_event_id event)) (\<lambda>k.
     bnd (governance_audit_index_reference (ae_tenant_id event) (ae_audit_event_id event)) (\<lambda>x.
     transactional (\<lambda>s.
       if dget (fg_audit s) k \<noteq> None then raise (Gateway (conflict ''Audit event identifier already exists.'')) s
       else if dget (fg_audit_index s) x \<noteq> None then raise Document_exists s
       else (Inr (), s\<lparr>fg_audit := dput k (event\<lparr>ae_created_at := commit\<rparr>) (fg_audit s),
         fg_audit_index := dput x (event\<lparr>ae_created_at := commit\<rparr>) (fg_audit_index s)\<rparr>))))"

definition fg_list_audit :: "string \<Rightarrow> int \<Rightarrow> audit_event list fg_op" where
  "fg_list_audit tenant_id limit =
     bnd (fg_document_id tenant_id ''tenant_id'') (\<lambda>_ s.
       fg_stream (\<lambda>d. validated Invalid_record (AuditEvent_validate d)) limit (sort_desc audit_order
         (map snd (filter (\<lambda>item. fst (fst item) = tenant_id) (fg_audit_index s)))) s)"

section \<open>Histories\<close>

text \<open>The calls of \<^typ>\<open>gov_call\<close>, each with the instant of its commit. A call that raises leaves the documents it met.\<close>

fun fg_run_call :: "(instant \<Rightarrow> string) \<Rightarrow> instant \<times> gov_call \<Rightarrow> fg_repo \<Rightarrow> fg_repo" where
  "fg_run_call iso_text (commit, GC_create r p) s = snd (fg_create_approval_request iso_text commit r p s)"
| "fg_run_call iso_text (commit, GC_decide t i a now) s = snd (fg_decide_approval commit t i a now s)"
| "fg_run_call iso_text (commit, GC_reserve it d ap h now) s = snd (fg_reserve_execution commit it d ap h now s)"
| "fg_run_call iso_text (commit, GC_complete t c x out h now) s = snd (fg_complete_execution commit t c x out h now s)"
| "fg_run_call iso_text (commit, GC_fail t c x e now) s = snd (fg_fail_execution commit t c x e now s)"
| "fg_run_call iso_text (commit, GC_audit e) s = snd (fg_record_audit commit e s)"

definition fg_run :: "(instant \<Rightarrow> string) \<Rightarrow> (instant \<times> gov_call) list \<Rightarrow> fg_repo \<Rightarrow> fg_repo" where
  "fg_run iso_text h s = fold (fg_run_call iso_text) h s"

lemma fg_run_simps [simp]: "fg_run iso_text [] s = s" "fg_run iso_text (x # h) s = fg_run iso_text h (fg_run_call iso_text x s)"
  by (simp_all add: fg_run_def)

section \<open>What the operations write\<close>

lemma fg_document_id_Inr: "fg_document_id x f s = (Inr u, s') \<longleftrightarrow> is_document_id x \<and> s' = s"
  by (auto simp: fg_document_id_def)

lemma references_Inr:
  "scoped_reference t c x f s = (Inr k, s') \<longleftrightarrow> is_document_id t \<and> is_document_id c \<and> is_document_id x \<and> k = (t, c, x) \<and> s' = s"
  "index_reference t x f s = (Inr k', s') \<longleftrightarrow> is_document_id t \<and> is_document_id x \<and> k' = (t, x) \<and> s' = s"
  by (auto simp: scoped_reference_def index_reference_def tenant_reference_def bnd_Inr_iff fg_document_id_Inr)

lemmas reference_defs = plan_reference_def approval_reference_def approval_index_reference_def execution_reference_def idempotency_reference_def
  governance_audit_reference_def governance_audit_index_reference_def

lemma snapshot_Inr:
  "plan_snapshot p s = (Inr p', s') \<longleftrightarrow> RemediationPlan_validate p = Some p' \<and> s' = s"
  "approval_snapshot d s = (Inr d', s') \<longleftrightarrow> ApprovalRequestRecord_validate d = Some d' \<and> s' = s"
  "execution_snapshot e s = (Inr e', s') \<longleftrightarrow> ToolExecutionRecord_validate e = Some e' \<and> s' = s"
  by (simp_all add: plan_snapshot_def approval_snapshot_def execution_snapshot_def validated_Inr_iff)

lemma existing_plan_Inr: "existing_plan iso_text h k s = (Inr x, s') \<Longrightarrow> s' = s"
  by (auto simp: existing_plan_def bnd_Inr_iff snapshot_Inr split: option.splits if_splits)

lemmas fg_Inr = bnd_Inr_iff guard_Inr_iff validated_Inr_iff transactional_Inr_iff references_Inr fg_document_id_Inr snapshot_Inr

text \<open>A call that raises leaves the documents as they were.\<close>

definition atomic :: "('s, 'e, 'a) op \<Rightarrow> bool" where
  "atomic m \<longleftrightarrow> (\<forall>s e s'. m s = (Inl e, s') \<longrightarrow> s' = s)"

definition read_only :: "('s, 'e, 'a) op \<Rightarrow> bool" where
  "read_only m \<longleftrightarrow> (\<forall>s. snd (m s) = s)"

lemma read_only_intros:
  "read_only (ret x)" "read_only (raise e)" "read_only (guard b e)" "read_only (validated e y)"
  "read_only m \<Longrightarrow> (\<And>x. read_only (f x)) \<Longrightarrow> read_only (bnd m f)"
  by (auto simp: read_only_def bnd_def guard_def validated_def split: prod.splits sum.splits option.splits) (metis snd_conv)+

lemma read_only_lookup: "(\<And>d. read_only (g d)) \<Longrightarrow> read_only (\<lambda>s. case f s of None \<Rightarrow> raise e s | Some d \<Rightarrow> g d s)"
  by (simp add: read_only_def split: option.split)

lemma read_only_references: "read_only (scoped_reference t c x f)" "read_only (index_reference t x f)"
  by (simp_all add: scoped_reference_def index_reference_def tenant_reference_def fg_document_id_def read_only_intros)

lemma atomic_intros:
  "atomic (transactional m)" "read_only n \<Longrightarrow> (\<And>x. atomic (f x)) \<Longrightarrow> atomic (bnd n f)"
proof -
  show "atomic (transactional m)" by (auto simp: atomic_def dest: transactional_Inl)
  assume n: "read_only n" and f: "\<And>x. atomic (f x)"
  have "s' = s" if "bnd n f s = (Inl e, s')" for s e s'
  proof -
    obtain r s1 where r: "n s = (r, s1)" by (cases "n s")
    then have "s1 = s" using n by (metis read_only_def snd_conv)
    with that r f show ?thesis by (cases r) (auto simp: bnd_def atomic_def)
  qed
  then show "atomic (bnd n f)" by (simp add: atomic_def)
qed

lemma fg_atomic:
  "atomic (fg_create_approval_request iso_text commit r p)" "atomic (fg_decide_approval commit t i a now)"
  "atomic (fg_reserve_execution commit it d ap h now)" "atomic (fg_finish_execution commit t c x out oh err now)"
  "atomic (fg_record_audit commit ev)"
  by (auto simp: fg_create_approval_request_def fg_decide_approval_def fg_reserve_execution_def fg_finish_execution_def fg_record_audit_def
      Let_def reference_defs intro!: atomic_intros read_only_intros read_only_references split: option.split)

lemma atomic_cases:
  assumes "atomic m"
  obtains "snd (m s) = s" | x s' where "m s = (Inr x, s')"
  using assms by (cases "m s"; cases "fst (m s)") (auto simp: atomic_def)

text \<open>The documents after a successful call, on every branch.\<close>

lemma fg_create_Inr:
  assumes "fg_create_approval_request iso_text commit r p s = (Inr r', s')"
  shows "s' = s \<or> (dget (fg_approvals s) (ar_tenant_id r, ar_change_id r, ar_approval_id r) = None \<and>
    dget (fg_approval_index s) (ar_tenant_id r, ar_approval_id r) = None \<and>
    fg_approvals s' = dput (ar_tenant_id r, ar_change_id r, ar_approval_id r) (approval_document commit r True) (fg_approvals s) \<and>
    fg_approval_index s' = dput (ar_tenant_id r, ar_approval_id r) (approval_document commit r True) (fg_approval_index s) \<and>
    fg_executions s' = fg_executions s \<and> fg_idempotency s' = fg_idempotency s)"
  using assms unfolding fg_create_approval_request_def
  by (auto simp: fg_Inr reference_defs set_plan_def set_approval_def dest!: existing_plan_Inr split: option.splits if_splits)

lemma fg_decide_Inr:
  assumes "fg_decide_approval commit t i a now s = (Inr r', s')"
  shows "s' = s \<or> (\<exists>x ix d updated. dget (fg_approval_index s) (t, i) = Some x \<and> ApprovalRequestRecord_validate x = Some ix \<and>
    dget (fg_approvals s) (t, ar_change_id ix, i) = Some d \<and> ApprovalRequestRecord_validate d = Some ix \<and> ar_status ix = AR_PENDING \<and>
    ar_version ix = da_expected_version a \<and> now < ar_expires_at ix \<and> ar_requested_by ix \<noteq> da_decided_by a \<and>
    ApprovalRequestRecord_validate (decided_record ix a now) = Some updated \<and>
    s' = s\<lparr>fg_approvals := dput (t, ar_change_id ix, i) (approval_document commit updated False) (fg_approvals s),
      fg_approval_index := dput (t, i) (approval_document commit updated False) (fg_approval_index s)\<rparr>)"
  using assms unfolding fg_decide_approval_def
  by (auto simp: fg_Inr reference_defs decide_current_def set_approval_def split: option.splits if_splits)

definition digest_key :: "string \<Rightarrow> string \<Rightarrow> string \<times> string" where
  "digest_key t k = (t, drop 7 (key_digest t k))"

lemma execution_id_digest: "''execution_'' @ take 24 (drop 7 (key_digest t k)) = execution_id_for t k"
  by (simp add: key_digest_def execution_id_for_def)

lemma execution_id_by_digest: "digest_key t k = digest_key t' k' \<Longrightarrow> execution_id_for t k = execution_id_for t' k'"
  by (auto simp: digest_key_def simp flip: execution_id_digest)

lemma fg_require_approval_read_only: "read_only (fg_require_approval it d ap ref now)"
  unfolding fg_require_approval_def approval_snapshot_def
  by (auto intro!: read_only_intros read_only_lookup split: option.split sum.split)

lemma fg_require_approval_Inr: "fg_require_approval it d ap ref now s = (Inr u, s') \<Longrightarrow> s' = s"
  using fg_require_approval_read_only by (metis read_only_def snd_conv)

lemma fg_reserve_Inr:
  assumes "fg_reserve_execution commit it d ap h now s = (Inr res, s')"
  shows "(\<exists>e raw. dget (fg_idempotency s) (digest_key (ti_tenant_id it) (ti_idempotency_key it)) = Some (e, raw) \<and>
      ToolExecutionRecord_validate e = Some (er_record res) \<and> te_status e = TE_SUCCEEDED \<and> er_replayed res \<and> s' = s) \<or>
    (\<exists>base rec. \<not> er_replayed res \<and> er_record res = rec \<and> ToolExecutionRecord_validate base = Some rec \<and>
      (case dget (fg_idempotency s) (digest_key (ti_tenant_id it) (ti_idempotency_key it)) of
         None \<Rightarrow> base = new_execution (execution_id_for (ti_tenant_id it) (ti_idempotency_key it)) it d ap h now
       | Some (e, raw) \<Rightarrow> te_status e \<noteq> TE_SUCCEEDED \<and> (\<exists>e'. ToolExecutionRecord_validate e = Some e' \<and> te_input_hash e' = h \<and>
           base = retry_record e' it d ap now)) \<and>
      fg_executions s' = dput (ti_tenant_id it, ti_change_id it, execution_id_for (ti_tenant_id it) (ti_idempotency_key it))
        (execution_document commit rec) (fg_executions s) \<and>
      fg_idempotency s' = dput (digest_key (ti_tenant_id it) (ti_idempotency_key it)) (execution_document commit rec, ti_idempotency_key it)
        (fg_idempotency s) \<and>
      fg_approvals s' = fg_approvals s \<and> fg_approval_index s' = fg_approval_index s)"
proof -
  have status: "te_status e' = te_status e" if "ToolExecutionRecord_validate e = Some e'" for e e'
    using execution_validate_fields(2) [OF that] .
  let ?t = "ti_tenant_id it" and ?k = "ti_idempotency_key it"
  from assms have run: "(case dget (fg_idempotency s) (digest_key ?t ?k) of
         Some (d', _) \<Rightarrow> bnd (execution_snapshot d') (\<lambda>existing.
           fg_reserve_existing commit (?t, ti_change_id it, execution_id_for ?t ?k) (digest_key ?t ?k) existing it d ap h now) s
       | None \<Rightarrow> bnd (validated Invalid_record (ToolExecutionRecord_validate
             (new_execution (execution_id_for ?t ?k) it d ap h now))) (\<lambda>rec.
           bnd (set_execution (?t, ti_change_id it, execution_id_for ?t ?k) (digest_key ?t ?k) (execution_document commit rec) ?k) (\<lambda>_.
           ret \<lparr>er_record = rec, er_replayed = False\<rparr>)) s) = (Inr res, s')"
    unfolding fg_reserve_execution_def Let_def execution_id_digest
    by (cases ap) (auto simp: bnd_Inr_iff transactional_Inr_iff references_Inr reference_defs simp flip: digest_key_def
        dest!: fg_require_approval_Inr)
  show ?thesis
  proof (cases "dget (fg_idempotency s) (digest_key ?t ?k)")
    case None
    with run show ?thesis by (auto simp: fg_Inr set_execution_def)
  next
    case (Some x)
    then obtain e raw where x: "x = (e, raw)" by (cases x)
    from run Some x obtain e' where e': "ToolExecutionRecord_validate e = Some e'"
      "fg_reserve_existing commit (?t, ti_change_id it, execution_id_for ?t ?k) (digest_key ?t ?k) e' it d ap h now s = (Inr res, s')"
      by (auto simp: bnd_Inr_iff snapshot_Inr)
    from e'(2) Some x e'(1) status [OF e'(1)] show ?thesis
      by (auto simp: fg_reserve_existing_def bnd_Inr_iff validated_Inr_iff set_execution_def split: if_splits)
  qed
qed

lemma fg_finish_Inr:
  assumes "fg_finish_execution commit t c x out oh err now s = (Inr r, s')"
  shows "\<exists>e e' base. dget (fg_executions s) (t, c, x) = Some e \<and> ToolExecutionRecord_validate e = Some e' \<and> te_status e = TE_RESERVED \<and>
    base = e'\<lparr>te_status := (if err = None then TE_SUCCEEDED else TE_FAILED), te_output := out, te_output_hash := oh,
      te_error_code := err, te_updated_at := now\<rparr> \<and> ToolExecutionRecord_validate base = Some r \<and>
    fg_executions s' = dput (t, c, x) (execution_document commit r) (fg_executions s) \<and>
    fg_idempotency s' = dput (digest_key t (te_idempotency_key e')) (execution_document commit r, te_idempotency_key e') (fg_idempotency s) \<and>
    fg_approvals s' = fg_approvals s \<and> fg_approval_index s' = fg_approval_index s"
proof -
  from assms obtain e e' where e: "dget (fg_executions s) (t, c, x) = Some e" "ToolExecutionRecord_validate e = Some e'"
      "te_status e' = TE_RESERVED" "ToolExecutionRecord_validate (e'\<lparr>te_status := (if err = None then TE_SUCCEEDED else TE_FAILED), te_output := out,
         te_output_hash := oh, te_error_code := err, te_updated_at := now\<rparr>) = Some r"
    and s': "s' = s\<lparr>fg_executions := dput (t, c, x) (execution_document commit r) (fg_executions s),
      fg_idempotency := dput (digest_key t (te_idempotency_key e')) (execution_document commit r, te_idempotency_key e') (fg_idempotency s)\<rparr>"
    unfolding fg_finish_execution_def
    by (auto simp: fg_Inr reference_defs set_execution_def digest_key_def split: option.splits if_splits)
  with execution_validate_fields(2) [OF e(2)] show ?thesis by simp
qed

lemma fg_audit_Inr:
  "fg_record_audit commit ev s = (Inr u, s') \<Longrightarrow> fg_executions s' = fg_executions s \<and> fg_idempotency s' = fg_idempotency s \<and>
    fg_approvals s' = fg_approvals s \<and> fg_approval_index s' = fg_approval_index s"
  by (auto simp: fg_record_audit_def fg_Inr reference_defs split: if_splits)

section \<open>The copies agree\<close>

definition decided_by_other :: "approval_request \<Rightarrow> bool" where
  "decided_by_other d \<longleftrightarrow> (ar_status d = AR_PENDING \<or> (\<exists>who. ar_decided_by d = Some who \<and> who \<noteq> ar_requested_by d))"

text \<open>Every approval and its index entry are one document, and a decision is by somebody else than the requester.\<close>

definition approval_copies :: "fg_repo \<Rightarrow> bool" where
  "approval_copies s \<longleftrightarrow>
     (\<forall>t c i d. dget (fg_approvals s) (t, c, i) = Some d \<longrightarrow> dget (fg_approval_index s) (t, i) = Some d \<and> ar_change_id d = c) \<and>
     (\<forall>t i d. dget (fg_approval_index s) (t, i) = Some d \<longrightarrow> dget (fg_approvals s) (t, ar_change_id d, i) = Some d \<and>
        strip (ar_change_id d) = ar_change_id d \<and> strip (ar_requested_by d) = ar_requested_by d \<and> decided_by_other d)"

text \<open>
  Every execution document is the one under the digest of its key, and the execution belongs to the change its input hash binds. The input
  hash is computed from the whole intent, the change included, so that \<^term>\<open>change_of\<close> exists as long as digests do not collide.
\<close>

definition execution_copies :: "(string \<Rightarrow> string) \<Rightarrow> fg_repo \<Rightarrow> bool" where
  "execution_copies change_of s \<longleftrightarrow>
     (\<forall>t c x e. dget (fg_executions s) (t, c, x) = Some e \<longrightarrow> (\<exists>raw. dget (fg_idempotency s) (digest_key t (te_idempotency_key e)) = Some (e, raw)) \<and>
        te_change_id e = c \<and> x = execution_id_for t (te_idempotency_key e)) \<and>
     (\<forall>t g e raw. dget (fg_idempotency s) (t, g) = Some (e, raw) \<longrightarrow> (t, g) = digest_key t (te_idempotency_key e) \<and>
        te_change_id e = change_of (te_input_hash e) \<and> ToolExecutionRecord_validate e = Some e)"

fun fg_call_ok :: "(string \<Rightarrow> string) \<Rightarrow> gov_call \<Rightarrow> bool" where
  "fg_call_ok change_of (GC_reserve it d ap h now) \<longleftrightarrow> ti_change_id it = change_of h \<and> strip h = h \<and>
     strip (ti_change_id it) = ti_change_id it \<and> strip (ti_idempotency_key it) = ti_idempotency_key it"
| "fg_call_ok change_of c \<longleftrightarrow> gov_call_ok c"

lemma approval_validate_fields:
  assumes "ApprovalRequestRecord_validate r = Some r'"
  shows "ar_change_id r' = strip (ar_change_id r)" "ar_status r' = ar_status r" "ar_requested_by r' = strip (ar_requested_by r)"
    "ar_decided_by r' = map_option strip (ar_decided_by r)"
  using ApprovalRequestRecord_validate_SomeD(1) [OF assms] by (simp_all add: strip_approval_request_def)

lemma approval_document_fields [simp]:
  "ar_change_id (approval_document c r b) = ar_change_id r" "ar_status (approval_document c r b) = ar_status r"
  "ar_requested_by (approval_document c r b) = ar_requested_by r" "ar_decided_by (approval_document c r b) = ar_decided_by r"
  by (simp_all add: approval_document_def)

lemma approval_copies_put:
  assumes "approval_copies s" "dget (fg_approval_index s) (t, i) = None \<or> (\<exists>d'. dget (fg_approval_index s) (t, i) = Some d' \<and> ar_change_id d' = ar_change_id d)"
    "fg_approvals s' = dput (t, ar_change_id d, i) d (fg_approvals s)" "fg_approval_index s' = dput (t, i) d (fg_approval_index s)"
    "strip (ar_change_id d) = ar_change_id d" "strip (ar_requested_by d) = ar_requested_by d" "decided_by_other d"
  shows "approval_copies s'"
  using assms unfolding approval_copies_def by (auto split: if_splits)

lemma approval_copies_same:
  "approval_copies s \<Longrightarrow> fg_approvals s' = fg_approvals s \<Longrightarrow> fg_approval_index s' = fg_approval_index s \<Longrightarrow> approval_copies s'"
  by (simp add: approval_copies_def)

lemma approval_copies_create:
  assumes "approval_copies s" "gov_call_ok (GC_create r p)" "fg_create_approval_request iso_text commit r p s = (Inr r', s')"
  shows "approval_copies s'"
proof -
  have "ApprovalRequestRecord_validate r = Some r" "ar_status r = AR_PENDING" using assms(2) by simp_all
  with approval_validate_fields [of r r] have r: "strip (ar_change_id r) = ar_change_id r" "strip (ar_requested_by r) = ar_requested_by r"
    "decided_by_other (approval_document commit r True)" by (simp_all add: decided_by_other_def)
  from fg_create_Inr [OF assms(3)] show ?thesis
    using approval_copies_put [OF assms(1), of "ar_tenant_id r" "ar_approval_id r" "approval_document commit r True" s'] r assms(1) by auto
qed

lemma approval_copies_decide:
  assumes "approval_copies s" "gov_call_ok (GC_decide t i a now)" "fg_decide_approval commit t i a now s = (Inr r', s')"
  shows "approval_copies s'"
  using fg_decide_Inr [OF assms(3)]
proof (elim disjE exE conjE)
  fix x ix d updated
  assume x: "dget (fg_approval_index s) (t, i) = Some x" "ApprovalRequestRecord_validate x = Some ix"
    and other: "ar_requested_by ix \<noteq> da_decided_by a" and up: "ApprovalRequestRecord_validate (decided_record ix a now) = Some updated"
    and s': "s' = s\<lparr>fg_approvals := dput (t, ar_change_id ix, i) (approval_document commit updated False) (fg_approvals s),
      fg_approval_index := dput (t, i) (approval_document commit updated False) (fg_approval_index s)\<rparr>"
  have st: "strip (ar_change_id x) = ar_change_id x" "strip (ar_requested_by x) = ar_requested_by x"
    using assms(1) x(1) by (auto simp: approval_copies_def)
  note ix = approval_validate_fields [OF x(2)]
  have u: "ar_change_id updated = ar_change_id x" "ar_requested_by updated = ar_requested_by x" "ar_decided_by updated = Some (da_decided_by a)"
    using approval_validate_fields [OF up] assms(2) st ix by (simp_all add: decided_record_def)
  then have "decided_by_other (approval_document commit updated False)" using other ix st by (simp add: decided_by_other_def)
  with x s' st ix u show ?thesis
    by (intro approval_copies_put [OF assms(1), of t i "approval_document commit updated False"]) simp_all
qed (use assms(1) in simp)

lemma fg_run_call_cases:
  obtains "fg_run_call iso_text (commit, c) s = s"
  | r p r' s' where "c = GC_create r p" "fg_create_approval_request iso_text commit r p s = (Inr r', s')" "fg_run_call iso_text (commit, c) s = s'"
  | t i a now r' s' where "c = GC_decide t i a now" "fg_decide_approval commit t i a now s = (Inr r', s')" "fg_run_call iso_text (commit, c) s = s'"
  | it d ap h now r' s' where "c = GC_reserve it d ap h now" "fg_reserve_execution commit it d ap h now s = (Inr r', s')"
      "fg_run_call iso_text (commit, c) s = s'"
  | t cid x out oh err now r' s' where "fg_finish_execution commit t cid x out oh err now s = (Inr r', s')" "fg_run_call iso_text (commit, c) s = s'"
  | e u s' where "c = GC_audit e" "fg_record_audit commit e s = (Inr u, s')" "fg_run_call iso_text (commit, c) s = s'"
proof (cases c)
  case (GC_create r p)
  with that(1,2) show thesis by (cases rule: atomic_cases [OF fg_atomic(1), of iso_text commit r p s]) auto
next
  case (GC_decide t i a now)
  with that(1,3) show thesis by (cases rule: atomic_cases [OF fg_atomic(2), of commit t i a now s]) auto
next
  case (GC_reserve it d ap h now)
  with that(1,4) show thesis by (cases rule: atomic_cases [OF fg_atomic(3), of commit it d ap h now s]) auto
next
  case (GC_complete t c x out h now)
  with that(1,5) show thesis
    by (cases rule: atomic_cases [OF fg_atomic(4), of commit t c x "Some out" "Some h" None now s]) (auto simp: fg_complete_execution_def)
next
  case (GC_fail t c x e now)
  with that(1,5) show thesis
    by (cases rule: atomic_cases [OF fg_atomic(4), of commit t c x None None "Some e" now s]) (auto simp: fg_fail_execution_def)
next
  case (GC_audit e)
  with that(1,6) show thesis by (cases rule: atomic_cases [OF fg_atomic(5), of commit e s]) auto
qed

lemma execution_fields:
  assumes "ToolExecutionRecord_validate r = Some r'"
  shows "te_idempotency_key r' = strip (te_idempotency_key r)" "te_change_id r' = strip (te_change_id r)" "te_input_hash r' = strip (te_input_hash r)"
    "ToolExecutionRecord_validate (execution_document commit r') = Some (execution_document commit r')"
proof -
  have r': "r' = strip_execution r" "execution_fields_ok r'" "validate_status_fields r'"
    using assms by (auto simp: ToolExecutionRecord_validate_def Let_def split: if_splits)
  then show "te_idempotency_key r' = strip (te_idempotency_key r)" "te_change_id r' = strip (te_change_id r)" "te_input_hash r' = strip (te_input_hash r)"
    by (simp_all add: strip_execution_def)
  have "strip_execution (execution_document commit r') = execution_document commit (strip_execution r')"
    by (simp add: strip_execution_def execution_document_def)
  also have "strip_execution r' = r'" unfolding r'(1) by (simp add: strip_execution_def option.map_comp comp_def)
  finally show "ToolExecutionRecord_validate (execution_document commit r') = Some (execution_document commit r')"
    using r'(2,3) by (simp add: ToolExecutionRecord_validate_def execution_fields_ok_def validate_status_fields_def execution_document_def)
qed

lemma execution_document_fields [simp]:
  "te_idempotency_key (execution_document c e) = te_idempotency_key e" "te_change_id (execution_document c e) = te_change_id e"
  "te_input_hash (execution_document c e) = te_input_hash e" "te_status (execution_document c e) = te_status e"
  by (simp_all add: execution_document_def)

text \<open>A write of both copies keeps the agreement when what stood under the digest, if anything, was the execution written over.\<close>

lemma execution_copies_put:
  assumes ok: "execution_copies change_of s"
    and s': "fg_executions s' = dput (t, te_change_id d, execution_id_for t (te_idempotency_key d)) d (fg_executions s)"
      "fg_idempotency s' = dput (digest_key t (te_idempotency_key d)) (d, raw) (fg_idempotency s)"
    and old: "\<And>e raw. dget (fg_idempotency s) (digest_key t (te_idempotency_key d)) = Some (e, raw) \<Longrightarrow> te_change_id e = te_change_id d"
    and d: "te_change_id d = change_of (te_input_hash d)" "ToolExecutionRecord_validate d = Some d"
  shows "execution_copies change_of s'"
  unfolding execution_copies_def
proof (intro conjI allI impI; (elim conjE)?)
  fix t' c x e assume e: "dget (fg_executions s') (t', c, x) = Some e"
  have "(\<exists>raw. dget (fg_idempotency s') (digest_key t' (te_idempotency_key e)) = Some (e, raw)) \<and> te_change_id e = c \<and>
      x = execution_id_for t' (te_idempotency_key e)"
  proof (cases "(t', c, x) = (t, te_change_id d, execution_id_for t (te_idempotency_key d))")
    case True
    with e s' show ?thesis by simp
  next
    case False
    with e s'(1) have "dget (fg_executions s) (t', c, x) = Some e" by (auto split: if_splits)
    with ok obtain raw' where *: "dget (fg_idempotency s) (digest_key t' (te_idempotency_key e)) = Some (e, raw')" "te_change_id e = c"
      "x = execution_id_for t' (te_idempotency_key e)" unfolding execution_copies_def by blast
    have "digest_key t' (te_idempotency_key e) \<noteq> digest_key t (te_idempotency_key d)"
    proof
      assume same: "digest_key t' (te_idempotency_key e) = digest_key t (te_idempotency_key d)"
      then have "t' = t" by (simp add: digest_key_def)
      moreover have "c = te_change_id d" using old [of e raw'] * same by simp
      ultimately show False using False *(3) execution_id_by_digest [OF same] by simp
    qed
    with * s'(2) show ?thesis by simp
  qed
  then show "\<exists>raw. dget (fg_idempotency s') (digest_key t' (te_idempotency_key e)) = Some (e, raw)" "te_change_id e = c"
    "x = execution_id_for t' (te_idempotency_key e)" by blast+
next
  fix t' g e raw' assume e: "dget (fg_idempotency s') (t', g) = Some (e, raw')"
  have "(t', g) = digest_key t' (te_idempotency_key e) \<and> te_change_id e = change_of (te_input_hash e) \<and> ToolExecutionRecord_validate e = Some e"
  proof (cases "(t', g) = digest_key t (te_idempotency_key d)")
    case True
    with e s'(2) d show ?thesis by (simp add: digest_key_def)
  next
    case False
    with e s'(2) have "dget (fg_idempotency s) (t', g) = Some (e, raw')" by (auto split: if_splits)
    with ok show ?thesis unfolding execution_copies_def by blast
  qed
  then show "(t', g) = digest_key t' (te_idempotency_key e)" "te_change_id e = change_of (te_input_hash e)" "ToolExecutionRecord_validate e = Some e"
    by blast+
qed

lemma execution_copies_same:
  "execution_copies change_of s \<Longrightarrow> fg_executions s' = fg_executions s \<Longrightarrow> fg_idempotency s' = fg_idempotency s \<Longrightarrow> execution_copies change_of s'"
  by (simp add: execution_copies_def)

lemma idempotency_ok:
  assumes "execution_copies change_of s" "dget (fg_idempotency s) (digest_key t k) = Some (e, raw)"
  shows "digest_key t (te_idempotency_key e) = digest_key t k" "te_change_id e = change_of (te_input_hash e)" "ToolExecutionRecord_validate e = Some e"
proof -
  have "dget (fg_idempotency s) (t, drop 7 (key_digest t k)) = Some (e, raw)" using assms(2) by (simp add: digest_key_def)
  with assms(1) have "(t, drop 7 (key_digest t k)) = digest_key t (te_idempotency_key e) \<and> te_change_id e = change_of (te_input_hash e) \<and>
    ToolExecutionRecord_validate e = Some e" unfolding execution_copies_def by blast
  then show "digest_key t (te_idempotency_key e) = digest_key t k" "te_change_id e = change_of (te_input_hash e)"
    "ToolExecutionRecord_validate e = Some e" by (simp_all add: digest_key_def)
qed

lemma execution_copies_reserve:
  assumes ok: "execution_copies change_of s" and call: "fg_call_ok change_of (GC_reserve it d ap h now)"
    and run: "fg_reserve_execution commit it d ap h now s = (Inr res, s')"
  shows "execution_copies change_of s'"
proof -
  let ?t = "ti_tenant_id it" and ?k = "ti_idempotency_key it"
  from call have it: "ti_change_id it = change_of h" "strip h = h" "strip (ti_change_id it) = ti_change_id it" "strip ?k = ?k" by auto
  from fg_reserve_Inr [OF run] consider "s' = s" | (written) base rec where "ToolExecutionRecord_validate base = Some rec"
    "case dget (fg_idempotency s) (digest_key ?t ?k) of
         None \<Rightarrow> base = new_execution (execution_id_for ?t ?k) it d ap h now
       | Some (e, raw) \<Rightarrow> te_status e \<noteq> TE_SUCCEEDED \<and> (\<exists>e'. ToolExecutionRecord_validate e = Some e' \<and> te_input_hash e' = h \<and>
           base = retry_record e' it d ap now)"
    "fg_executions s' = dput (?t, ti_change_id it, execution_id_for ?t ?k) (execution_document commit rec) (fg_executions s)"
    "fg_idempotency s' = dput (digest_key ?t ?k) (execution_document commit rec, ?k) (fg_idempotency s)" by blast
  then show ?thesis
  proof cases
    case written
    note f = execution_fields [OF written(1)]
    have rec: "digest_key ?t (te_idempotency_key rec) = digest_key ?t ?k \<and> te_change_id rec = ti_change_id it \<and> te_input_hash rec = h \<and>
        (\<forall>e raw. dget (fg_idempotency s) (digest_key ?t ?k) = Some (e, raw) \<longrightarrow> te_change_id e = ti_change_id it)"
    proof (cases "dget (fg_idempotency s) (digest_key ?t ?k)")
      case None
      with written(2) f it show ?thesis by (simp add: new_execution_def)
    next
      case (Some x)
      obtain e raw where x: "x = (e, raw)" by (cases x)
      note e = idempotency_ok [OF ok Some [unfolded x]]
      have "base = retry_record e it d ap now" "te_input_hash e = h" using written(2) Some x e(3) by auto
      moreover have "strip (te_idempotency_key e) = te_idempotency_key e" using execution_fields(1) [OF e(3)] by simp
      ultimately show ?thesis using Some x e f it by (simp add: retry_record_def)
    qed
    have id: "execution_id_for ?t (te_idempotency_key rec) = execution_id_for ?t ?k" using rec execution_id_by_digest by blast
    show ?thesis
      by (rule execution_copies_put [OF ok, where t = ?t and d = "execution_document commit rec" and raw = ?k])
        (use written(3,4) rec id it(1) f(4) in auto)
  qed (use ok in simp)
qed

lemma execution_copies_finish:
  assumes ok: "execution_copies change_of s" and run: "fg_finish_execution commit t c x out oh err now s = (Inr r, s')"
  shows "execution_copies change_of s'"
proof -
  from fg_finish_Inr [OF run] obtain e e' where e: "dget (fg_executions s) (t, c, x) = Some e" "ToolExecutionRecord_validate e = Some e'"
    "ToolExecutionRecord_validate (e'\<lparr>te_status := (if err = None then TE_SUCCEEDED else TE_FAILED), te_output := out, te_output_hash := oh,
      te_error_code := err, te_updated_at := now\<rparr>) = Some r"
    "fg_executions s' = dput (t, c, x) (execution_document commit r) (fg_executions s)"
    "fg_idempotency s' = dput (digest_key t (te_idempotency_key e')) (execution_document commit r, te_idempotency_key e') (fg_idempotency s)"
    by blast
  from ok e(1) obtain raw where i: "dget (fg_idempotency s) (digest_key t (te_idempotency_key e)) = Some (e, raw)" "te_change_id e = c"
    "x = execution_id_for t (te_idempotency_key e)" unfolding execution_copies_def by blast
  note iok = idempotency_ok [OF ok i(1)]
  have same: "e' = e" using iok(3) e(2) by simp
  note f = execution_fields [OF e(3)] and fe = execution_fields [OF iok(3)]
  show ?thesis
    by (rule execution_copies_put [OF ok, where t = t and d = "execution_document commit r" and raw = "te_idempotency_key e"])
      (use e(4,5) i iok f(1-3) fe(1-3) f(4) same in \<open>auto simp flip: fe\<close>)
qed

section \<open>Histories keep the copies\<close>

definition fg_inv :: "(string \<Rightarrow> string) \<Rightarrow> fg_repo \<Rightarrow> bool" where
  "fg_inv change_of s \<longleftrightarrow> approval_copies s \<and> execution_copies change_of s"

lemma fg_inv_empty: "fg_inv change_of fg_empty"
  by (simp add: fg_inv_def approval_copies_def execution_copies_def fg_empty_def)

lemma fg_inv_run_call:
  assumes "fg_inv change_of s" "fg_call_ok change_of c"
  shows "fg_inv change_of (fg_run_call iso_text (commit, c) s)"
  using assms fg_run_call_cases [of iso_text commit c s]
proof (cases rule: fg_run_call_cases [of iso_text commit c s])
  case (2 r p r' s')
  with assms show ?thesis using approval_copies_create [of s r p] fg_create_Inr [OF 2(2)]
    by (auto simp: fg_inv_def intro: execution_copies_same)
next
  case (3 t i a now r' s')
  with assms show ?thesis using approval_copies_decide [of s t i a now] fg_decide_Inr [OF 3(2)]
    by (auto simp: fg_inv_def intro: execution_copies_same)
next
  case (4 it d ap h now r' s')
  have "approval_copies s'" using assms(1) fg_reserve_Inr [OF 4(2)] by (auto simp: fg_inv_def intro: approval_copies_same)
  moreover have "execution_copies change_of s'"
    by (rule execution_copies_reserve [OF _ _ 4(2)]) (use assms 4(1) in \<open>simp_all only: fg_inv_def\<close>)
  ultimately show ?thesis using 4(3) by (simp add: fg_inv_def)
next
  case (5 t cid x out oh err now r' s')
  have "approval_copies s'" using assms(1) fg_finish_Inr [OF 5(1)] by (auto simp: fg_inv_def intro: approval_copies_same)
  with 5 assms execution_copies_finish [OF _ 5(1)] show ?thesis by (simp add: fg_inv_def)
next
  case (6 e u s')
  with assms fg_audit_Inr [OF 6(2)] show ?thesis by (auto simp: fg_inv_def intro: approval_copies_same execution_copies_same)
qed (use assms in simp)

lemma fg_inv_run:
  "fg_inv change_of s \<Longrightarrow> list_all (\<lambda>x. fg_call_ok change_of (snd x)) h \<Longrightarrow> fg_inv change_of (fg_run iso_text h s)"
  by (induction h arbitrary: s) (auto simp: fg_inv_run_call)

lemma decided_stays:
  assumes "fg_inv change_of s" "dget (fg_approval_index s) (t, i) = Some d" "ar_status d \<noteq> AR_PENDING"
  shows "dget (fg_approval_index (fg_run_call iso_text (commit, c) s)) (t, i) = Some d"
proof (cases rule: fg_run_call_cases [of iso_text commit c s])
  case (2 r p r' s')
  with assms fg_create_Inr [OF 2(2)] show ?thesis by auto
next
  case (3 t' i' a now r' s')
  with assms fg_decide_Inr [OF 3(2)] show ?thesis by (auto dest!: approval_validate_fields(2))
next
  case (4 it d' ap h now r' s')
  with assms fg_reserve_Inr [OF 4(2)] show ?thesis by auto
next
  case (5 t' cid x out oh err now r' s')
  with assms fg_finish_Inr [OF 5(1)] show ?thesis by auto
next
  case (6 e u s')
  with assms fg_audit_Inr [OF 6(2)] show ?thesis by auto
qed (use assms in simp)

lemma succeeded_stays:
  assumes "fg_inv change_of s" "dget (fg_idempotency s) (digest_key t k) = Some (e, raw)" "te_status e = TE_SUCCEEDED"
  shows "dget (fg_idempotency (fg_run_call iso_text (commit, c) s)) (digest_key t k) = Some (e, raw)"
proof (cases rule: fg_run_call_cases [of iso_text commit c s])
  case (2 r p r' s')
  with assms fg_create_Inr [OF 2(2)] show ?thesis by auto
next
  case (3 t' i' a now r' s')
  with assms fg_decide_Inr [OF 3(2)] show ?thesis by auto
next
  case (4 it d' ap h now r' s')
  with assms fg_reserve_Inr [OF 4(2)] show ?thesis by auto
next
  case (5 t' cid x out oh err now r' s')
  from fg_finish_Inr [OF 5(1)] obtain e1 e1' where e1: "dget (fg_executions s) (t', cid, x) = Some e1" "ToolExecutionRecord_validate e1 = Some e1'"
    "te_status e1 = TE_RESERVED"
    "fg_idempotency s' = dput (digest_key t' (te_idempotency_key e1')) (execution_document commit r', te_idempotency_key e1') (fg_idempotency s)" by blast
  from assms(1) e1(1) obtain raw1 where i: "dget (fg_idempotency s) (digest_key t' (te_idempotency_key e1)) = Some (e1, raw1)"
    unfolding fg_inv_def execution_copies_def by blast
  then have "e1' = e1" using idempotency_ok(3) assms(1) e1(2) unfolding fg_inv_def by fastforce
  moreover have "digest_key t' (te_idempotency_key e1) \<noteq> digest_key t k" using i assms(2,3) e1(3) by auto
  ultimately show ?thesis using 5(2) e1(4) assms(2) by simp
next
  case (6 ev u s')
  with assms fg_audit_Inr [OF 6(2)] show ?thesis by auto
qed (use assms in simp)

lemma decided_stays_run:
  "fg_inv change_of s \<Longrightarrow> list_all (\<lambda>x. fg_call_ok change_of (snd x)) h \<Longrightarrow> dget (fg_approval_index s) (t, i) = Some d \<Longrightarrow>
   ar_status d \<noteq> AR_PENDING \<Longrightarrow> dget (fg_approval_index (fg_run iso_text h s)) (t, i) = Some d"
proof (induction h arbitrary: s)
  case (Cons x h)
  then show ?case using fg_inv_run_call [of change_of s "snd x" iso_text "fst x"] decided_stays [of change_of s t i d iso_text "fst x" "snd x"] by simp
qed simp

lemma succeeded_stays_run:
  "fg_inv change_of s \<Longrightarrow> list_all (\<lambda>x. fg_call_ok change_of (snd x)) h \<Longrightarrow> dget (fg_idempotency s) (digest_key t k) = Some (e, raw) \<Longrightarrow>
   te_status e = TE_SUCCEEDED \<Longrightarrow> dget (fg_idempotency (fg_run iso_text h s)) (digest_key t k) = Some (e, raw)"
proof (induction h arbitrary: s)
  case (Cons x h)
  then show ?case using fg_inv_run_call [of change_of s "snd x" iso_text "fst x"] succeeded_stays [of change_of s t k e raw iso_text "fst x" "snd x"] by simp
qed simp

section \<open>Properties\<close>

lemma decide_consistent:
  assumes "approval_copies s"
  shows "fst (fg_decide_approval commit t i a now s) \<noteq> Inl (Inconsistent msg)"
proof (cases "is_document_id t \<and> is_document_id i")
  case True
  then have ref: "approval_index_reference t i = ret (t, i)"
    by (simp add: approval_index_reference_def index_reference_def tenant_reference_def fg_document_id_def guard_def bnd_def fun_eq_iff)
  show ?thesis
  proof (cases "dget (fg_approval_index s) (t, i)")
    case None
    with ref show ?thesis by (simp add: fg_decide_approval_def transactional_def)
  next
    case (Some d)
    with assms have d: "dget (fg_approvals s) (t, ar_change_id d, i) = Some d" "strip (ar_change_id d) = ar_change_id d"
      by (auto simp: approval_copies_def)
    show ?thesis
    proof (cases "ApprovalRequestRecord_validate d")
      case None
      with ref Some show ?thesis by (simp add: fg_decide_approval_def transactional_def approval_snapshot_def bnd_def)
    next
      case v: (Some d')
      from approval_validate_fields(1) [OF v] d(2) have c: "ar_change_id d' = ar_change_id d" by simp
      have "approval_reference t (ar_change_id d) i s = (if is_document_id (ar_change_id d) then Inr (t, ar_change_id d, i)
          else Inl (Gateway (conflict (''change_id'' @ '' is not a valid document identifier.''))), s)"
        using True by (simp add: approval_reference_def scoped_reference_def tenant_reference_def fg_document_id_def guard_def bnd_def)
      with ref Some v c d show ?thesis
        by (auto simp: fg_decide_approval_def transactional_def approval_snapshot_def bnd_def decide_current_def validated_def set_approval_def
            split: option.splits)
    qed
  qed
qed (auto simp: fg_decide_approval_def approval_index_reference_def index_reference_def tenant_reference_def fg_document_id_def guard_def bnd_def)

text \<open>
  The copies the adapter keeps never disagree: after any history, every approval and its index entry are one document, every execution
  and the document under its key's digest are one document, a decision is by somebody other than the requester, and deciding a request never
  ends in the error that reports a missing or diverged record.
\<close>

theorem firestore_copies_agree:
  assumes "list_all (\<lambda>x. fg_call_ok change_of (snd x)) h"
  shows "let s = fg_run iso_text h fg_empty in approval_copies s \<and> execution_copies change_of s \<and>
    fst (fg_decide_approval commit t i a now s) \<noteq> Inl (Inconsistent msg)"
  using fg_inv_run [OF fg_inv_empty assms, of iso_text] decide_consistent by (simp add: Let_def fg_inv_def)

theorem firestore_copies_agree_witness:
  "fst (fg_decide_approval 9 ''t1'' ''a1'' demo_decision 9 (fg_run demo_iso (map (Pair 5) demo_calls) fg_empty)) \<noteq>
     Inl (Inconsistent ''Approval index diverged from the authoritative record.'')"
proof -
  have "list_all (\<lambda>x. fg_call_ok (\<lambda>_. ''c1'') (snd x)) (map (Pair 5) demo_calls)" using demo_calls_ok by (simp add: demo_calls_def)
  from firestore_copies_agree [OF this] show ?thesis unfolding Let_def by blast
qed

text \<open>Documents with one decided request and one execution that has succeeded.\<close>

definition stored_execution :: tool_execution where
  "stored_execution = demo_execution\<lparr>te_status := TE_SUCCEEDED, te_output := Some [], te_output_hash := Some demo_hash, te_updated_at := 11\<rparr>"

definition stored_documents :: fg_repo where
  "stored_documents = fg_empty\<lparr>fg_approvals := [((''t1'', ''c1'', ''a1''), demo_decided)], fg_approval_index := [((''t1'', ''a1''), demo_decided)],
     fg_executions := [((''t1'', ''c1'', execution_id_for ''t1'' ''key-s1''), stored_execution)],
     fg_idempotency := [(digest_key ''t1'' ''key-s1'', (stored_execution, ''key-s1''))]\<rparr>"

lemma stored_fields:
  "ar_change_id demo_decided = ''c1''" "ar_requested_by demo_decided = ''svc''" "ar_status demo_decided = AR_APPROVED" "decided_by_other demo_decided"
  "te_idempotency_key stored_execution = ''key-s1''" "te_change_id stored_execution = ''c1''" "te_status stored_execution = TE_SUCCEEDED"
  by (simp_all add: demo_decided_def decided_record_def demo_decision_def demo_request_def decided_by_other_def stored_execution_def demo_execution_def
      new_execution_def demo_intent_def)

lemma stored_documents_inv: "fg_inv (\<lambda>_. ''c1'') stored_documents"
proof -
  have "approval_copies stored_documents"
    by (simp add: approval_copies_def stored_documents_def dget_Cons stored_fields demo_literals split: if_splits)
  moreover have "execution_copies (\<lambda>_. ''c1'') stored_documents"
    using demo_execution_valid(2)
    by (auto simp: execution_copies_def stored_documents_def dget_Cons stored_fields digest_key_def simp flip: stored_execution_def split: if_splits)
  ultimately show ?thesis by (simp add: fg_inv_def)
qed

text \<open>
  On Firestore a decision is final: once a request is decided, no later call alters either copy, it keeps a decider other than the
  requester, and a further decision returns the record, is refused, or cannot read it; nothing is written.
\<close>

theorem firestore_decision_final:
  assumes "fg_inv change_of s" "list_all (\<lambda>x. fg_call_ok change_of (snd x)) h" "dget (fg_approval_index s) (t, i) = Some d" "ar_status d \<noteq> AR_PENDING"
  shows "let s' = fg_run iso_text h s in
    dget (fg_approval_index s') (t, i) = Some d \<and> dget (fg_approvals s') (t, ar_change_id d, i) = Some d \<and> decided_by_other d \<and>
    (case fg_decide_approval commit t i a now s' of
       (Inl e, s'') \<Rightarrow> s'' = s'
     | (Inr r, s'') \<Rightarrow> s'' = s' \<and> ApprovalRequestRecord_validate d = Some r \<and> same_approval_decision r a)"
proof -
  let ?s = "fg_run iso_text h s"
  have d: "dget (fg_approval_index ?s) (t, i) = Some d" by (rule decided_stays_run [OF assms])
  have inv: "fg_inv change_of ?s" by (rule fg_inv_run [OF assms(1,2)])
  with d have "dget (fg_approvals ?s) (t, ar_change_id d, i) = Some d" "decided_by_other d" by (auto simp: fg_inv_def approval_copies_def)
  moreover have "s'' = ?s" if "fg_decide_approval commit t i a now ?s = (Inl e, s'')" for e s''
    using fg_atomic(2) that unfolding atomic_def by blast
  moreover have "s'' = ?s \<and> ApprovalRequestRecord_validate d = Some r \<and> same_approval_decision r a"
    if "fg_decide_approval commit t i a now ?s = (Inr r, s'')" for r s''
    using that d assms(4) unfolding fg_decide_approval_def
    by (auto simp: fg_Inr reference_defs decide_current_def set_approval_def dest: approval_validate_fields(2) split: option.splits if_splits)
  ultimately show ?thesis using d by (simp add: Let_def split: prod.split sum.split)
qed

theorem firestore_decision_final_witness:
  "dget (fg_approvals (fg_run demo_iso [(7, GC_decide ''t1'' ''a1'' demo_decision 6)] stored_documents)) (''t1'', ''c1'', ''a1'') = Some demo_decided"
proof -
  have d: "dget (fg_approval_index stored_documents) (''t1'', ''a1'') = Some demo_decided" "ar_status demo_decided \<noteq> AR_PENDING"
    by (simp_all add: stored_documents_def dget_Cons stored_fields)
  have h: "list_all (\<lambda>x. fg_call_ok (\<lambda>_. ''c1'') (snd x)) [(7, GC_decide ''t1'' ''a1'' demo_decision 6)]"
    using demo_calls_ok by (simp add: demo_calls_def)
  show ?thesis using firestore_decision_final [OF stored_documents_inv h d, of demo_iso] unfolding Let_def stored_fields(1) by blast
qed

text \<open>
  C29. On Firestore an idempotency key executes at most once: once the execution under a key has succeeded, no later call alters its document, and
  every later reservation of that key is refused or replays the stored record, without writing.
\<close>

theorem firestore_executed_once:
  assumes "fg_inv change_of s" "list_all (\<lambda>x. fg_call_ok change_of (snd x)) h"
    "dget (fg_idempotency s) (digest_key (ti_tenant_id it) (ti_idempotency_key it)) = Some (e, raw)" "te_status e = TE_SUCCEEDED"
  shows "let s' = fg_run iso_text h s in
    dget (fg_idempotency s') (digest_key (ti_tenant_id it) (ti_idempotency_key it)) = Some (e, raw) \<and>
    (case fg_reserve_execution commit it d ap ih now s' of
       (Inl err, s'') \<Rightarrow> s'' = s'
     | (Inr r, s'') \<Rightarrow> s'' = s' \<and> r = \<lparr>er_record = e, er_replayed = True\<rparr>)"
proof -
  let ?s = "fg_run iso_text h s"
  have e: "dget (fg_idempotency ?s) (digest_key (ti_tenant_id it) (ti_idempotency_key it)) = Some (e, raw)"
    by (rule succeeded_stays_run [OF assms])
  have "fg_inv change_of ?s" by (rule fg_inv_run [OF assms(1,2)])
  with e have valid: "ToolExecutionRecord_validate e = Some e" unfolding fg_inv_def using idempotency_ok(3) by blast
  have "s'' = ?s" if "fg_reserve_execution commit it d ap ih now ?s = (Inl err, s'')" for err s''
    using fg_atomic(3) that unfolding atomic_def by blast
  moreover have "s'' = ?s \<and> r = \<lparr>er_record = e, er_replayed = True\<rparr>" if "fg_reserve_execution commit it d ap ih now ?s = (Inr r, s'')" for r s''
    using fg_reserve_Inr [OF that] e valid assms(4) by (cases r) auto
  ultimately show ?thesis using e by (simp add: Let_def split: prod.split sum.split)
qed

theorem firestore_executed_once_witness:
  "dget (fg_idempotency (fg_run demo_iso [(7, GC_decide ''t1'' ''a1'' demo_decision 6)] stored_documents)) (digest_key ''t1'' ''key-s1'') =
     Some (stored_execution, ''key-s1'')"
proof -
  have keys: "ti_tenant_id demo_intent = ''t1''" "ti_idempotency_key demo_intent = ''key-s1''" by (simp_all add: demo_intent_def)
  have e: "dget (fg_idempotency stored_documents) (digest_key (ti_tenant_id demo_intent) (ti_idempotency_key demo_intent)) =
      Some (stored_execution, ''key-s1'')"
    by (simp add: stored_documents_def dget_Cons keys)
  have h: "list_all (\<lambda>x. fg_call_ok (\<lambda>_. ''c1'') (snd x)) [(7, GC_decide ''t1'' ''a1'' demo_decision 6)]"
    using demo_calls_ok by (simp add: demo_calls_def)
  show ?thesis using firestore_executed_once [OF stored_documents_inv h e stored_fields(7), of demo_iso] unfolding Let_def keys by blast
qed

end
