(* ===== verification/Agent_Contracts.thy ===== *)
theory Agent_Contracts
  imports Contracts Complex_Main
begin

text \<open>
  The contracts of the agent fleet in \<^verbatim>\<open>packages/contracts-python/.../models.py\<close>: agent registrations, evidence items, the structured outputs
  of the seven agents, invocation records and the result of an analysis, with their validators. Confidences and time limits are rational
  numbers. The reading of a URL belongs to Pydantic; the model keeps its text.
\<close>

section \<open>Registrations and evidence\<close>

datatype agent_status = Agent_ACTIVE | Agent_DISABLED

datatype evidence_trust = Trust_PLATFORM | Trust_UNTRUSTED

record agent_budget =
  bu_max_model_calls :: int
  bu_max_tool_calls :: int
  bu_max_turns :: int
  bu_timeout_seconds :: rat

definition budget_ok :: "agent_budget \<Rightarrow> bool" where
  "budget_ok b \<longleftrightarrow> 1 \<le> bu_max_model_calls b \<and> bu_max_model_calls b \<le> 10 \<and> 0 \<le> bu_max_tool_calls b \<and> bu_max_tool_calls b \<le> 25 \<and>
     1 \<le> bu_max_turns b \<and> bu_max_turns b \<le> 10 \<and> 0 < bu_timeout_seconds b \<and> bu_timeout_seconds b \<le> 300"

record agent_registration =
  rg_agent_id :: string
  rg_tenant_id :: string
  rg_display_name :: string
  rg_description :: string
  rg_version :: string
  rg_owner :: string
  rg_capabilities :: "string list"
  rg_allowed_tools :: "string list"
  rg_allowed_resource_patterns :: "string list"
  rg_risk_ceiling :: risk_level
  rg_runtime_endpoint :: string
  rg_identity_reference :: string
  rg_status :: agent_status
  rg_budget :: agent_budget
  rg_created_at :: instant
  rg_updated_at :: instant

definition strip_registration :: "agent_registration \<Rightarrow> agent_registration" where
  "strip_registration r = r\<lparr>rg_agent_id := strip (rg_agent_id r), rg_tenant_id := strip (rg_tenant_id r), rg_display_name := strip (rg_display_name r),
     rg_description := strip (rg_description r), rg_version := strip (rg_version r), rg_owner := strip (rg_owner r),
     rg_capabilities := map strip (rg_capabilities r), rg_allowed_tools := map strip (rg_allowed_tools r),
     rg_allowed_resource_patterns := map strip (rg_allowed_resource_patterns r), rg_identity_reference := strip (rg_identity_reference r)\<rparr>"

definition registration_fields_ok :: "agent_registration \<Rightarrow> bool" where
  "registration_fields_ok r \<longleftrightarrow> nonempty_str (rg_agent_id r) \<and> nonempty_str (rg_tenant_id r) \<and> nonempty_str (rg_display_name r) \<and>
     nonempty_str (rg_description r) \<and> nonempty_str (rg_version r) \<and> nonempty_str (rg_owner r) \<and>
     rg_capabilities r \<noteq> [] \<and> list_all nonempty_str (rg_capabilities r) \<and> list_all nonempty_str (rg_allowed_tools r) \<and>
     rg_allowed_resource_patterns r \<noteq> [] \<and> list_all nonempty_str (rg_allowed_resource_patterns r) \<and>
     nonempty_str (rg_identity_reference r) \<and> budget_ok (rg_budget r)"

definition validate_agent_registration :: "agent_registration \<Rightarrow> bool" where
  "validate_agent_registration r \<longleftrightarrow> \<not> rg_updated_at r < rg_created_at r \<and>
     distinct (rg_capabilities r) \<and> distinct (rg_allowed_tools r) \<and> distinct (rg_allowed_resource_patterns r) \<and>
     list_all (\<lambda>tool. CHR ''*'' \<notin> set tool) (rg_allowed_tools r) \<and>
     list_all (\<lambda>pattern. pattern \<noteq> ''*'') (rg_allowed_resource_patterns r)"

definition AgentRegistration_validate :: "agent_registration \<Rightarrow> agent_registration option" where
  "AgentRegistration_validate r = (let r' = strip_registration r in
     if registration_fields_ok r' \<and> validate_agent_registration r' then Some r' else None)"

record evidence_item =
  ei_evidence_id :: string
  ei_tenant_id :: string
  ei_source_system :: string
  ei_source_resource :: string
  ei_summary :: string
  ei_content_hash :: string
  ei_trust :: evidence_trust
  ei_observed_at :: instant
  ei_attributes :: "(string \<times> json) list"

definition strip_evidence :: "evidence_item \<Rightarrow> evidence_item" where
  "strip_evidence e = e\<lparr>ei_evidence_id := strip (ei_evidence_id e), ei_tenant_id := strip (ei_tenant_id e), ei_source_system := strip (ei_source_system e),
     ei_source_resource := strip (ei_source_resource e), ei_summary := strip (ei_summary e), ei_content_hash := strip (ei_content_hash e),
     ei_attributes := strip_object (ei_attributes e)\<rparr>"

definition EvidenceItem_validate :: "evidence_item \<Rightarrow> evidence_item option" where
  "EvidenceItem_validate e = (let e' = strip_evidence e in
     if nonempty_str (ei_evidence_id e') \<and> nonempty_str (ei_tenant_id e') \<and> nonempty_str (ei_source_system e') \<and>
        reference_str (ei_source_resource e') \<and> nonempty_str (ei_summary e') \<and> is_sha256_digest (ei_content_hash e')
     then Some e' else None)"

section \<open>Structured outputs\<close>

definition confidence_ok :: "rat \<Rightarrow> bool" where
  "confidence_ok x \<longleftrightarrow> 0 \<le> x \<and> x \<le> 1"

definition references_ok :: "string list \<Rightarrow> bool" where
  "references_ok refs \<longleftrightarrow> refs \<noteq> [] \<and> list_all reference_str refs"

record dependency_path =
  dp_systems :: "string list"
  dp_evidence_refs :: "string list"

definition dependency_path_ok :: "dependency_path \<Rightarrow> bool" where
  "dependency_path_ok d \<longleftrightarrow> 2 \<le> length (dp_systems d) \<and> list_all nonempty_str (dp_systems d) \<and> references_ok (dp_evidence_refs d)"

definition strip_dependency_path :: "dependency_path \<Rightarrow> dependency_path" where
  "strip_dependency_path d = \<lparr>dp_systems = map strip (dp_systems d), dp_evidence_refs = map strip (dp_evidence_refs d)\<rparr>"

record orchestration_directive =
  od_tenant_id :: string
  od_change_id :: string
  od_normalized_objective :: string
  od_selected_agent_ids :: "string list"
  od_evidence_refs :: "string list"
  od_confidence :: rat
  od_unknowns :: "string list"

definition OrchestrationDirective_validate :: "orchestration_directive \<Rightarrow> orchestration_directive option" where
  "OrchestrationDirective_validate o1 = (let d = o1\<lparr>od_tenant_id := strip (od_tenant_id o1), od_change_id := strip (od_change_id o1),
       od_normalized_objective := strip (od_normalized_objective o1), od_selected_agent_ids := map strip (od_selected_agent_ids o1),
       od_evidence_refs := map strip (od_evidence_refs o1), od_unknowns := map strip (od_unknowns o1)\<rparr> in
     if nonempty_str (od_tenant_id d) \<and> nonempty_str (od_change_id d) \<and> nonempty_str (od_normalized_objective d) \<and>
        length (od_selected_agent_ids d) = 6 \<and> list_all nonempty_str (od_selected_agent_ids d) \<and> references_ok (od_evidence_refs d) \<and>
        confidence_ok (od_confidence d) \<and> list_all nonempty_str (od_unknowns d)
     then Some d else None)"

record impact_analysis =
  im_tenant_id :: string
  im_change_id :: string
  im_affected_systems :: "string list"
  im_dependency_paths :: "dependency_path list"
  im_severity :: risk_level
  im_confidence :: rat
  im_evidence_refs :: "string list"
  im_owner_refs :: "string list"
  im_unknowns :: "string list"

definition ImpactAnalysis_validate :: "impact_analysis \<Rightarrow> impact_analysis option" where
  "ImpactAnalysis_validate i1 = (let i = i1\<lparr>im_tenant_id := strip (im_tenant_id i1), im_change_id := strip (im_change_id i1),
       im_affected_systems := map strip (im_affected_systems i1), im_dependency_paths := map strip_dependency_path (im_dependency_paths i1),
       im_evidence_refs := map strip (im_evidence_refs i1), im_owner_refs := map strip (im_owner_refs i1), im_unknowns := map strip (im_unknowns i1)\<rparr> in
     if nonempty_str (im_tenant_id i) \<and> nonempty_str (im_change_id i) \<and> im_affected_systems i \<noteq> [] \<and> list_all nonempty_str (im_affected_systems i) \<and>
        list_all dependency_path_ok (im_dependency_paths i) \<and> confidence_ok (im_confidence i) \<and> references_ok (im_evidence_refs i) \<and>
        list_all reference_str (im_owner_refs i) \<and> list_all nonempty_str (im_unknowns i)
     then Some i else None)"

record compliance_analysis =
  cp_tenant_id :: string
  cp_change_id :: string
  cp_applicable_policy_ids :: "string list"
  cp_required_approvals :: "string list"
  cp_required_evidence :: "string list"
  cp_forbidden_actions :: "string list"
  cp_retention_requirements :: "string list"
  cp_missing_policy_data :: "string list"
  cp_evidence_refs :: "string list"
  cp_confidence :: rat

definition ComplianceAnalysis_validate :: "compliance_analysis \<Rightarrow> compliance_analysis option" where
  "ComplianceAnalysis_validate c1 = (let c = c1\<lparr>cp_tenant_id := strip (cp_tenant_id c1), cp_change_id := strip (cp_change_id c1),
       cp_applicable_policy_ids := map strip (cp_applicable_policy_ids c1), cp_required_approvals := map strip (cp_required_approvals c1),
       cp_required_evidence := map strip (cp_required_evidence c1), cp_forbidden_actions := map strip (cp_forbidden_actions c1),
       cp_retention_requirements := map strip (cp_retention_requirements c1), cp_missing_policy_data := map strip (cp_missing_policy_data c1),
       cp_evidence_refs := map strip (cp_evidence_refs c1)\<rparr> in
     if nonempty_str (cp_tenant_id c) \<and> nonempty_str (cp_change_id c) \<and> list_all nonempty_str (cp_applicable_policy_ids c) \<and>
        list_all nonempty_str (cp_required_approvals c) \<and> list_all nonempty_str (cp_required_evidence c) \<and>
        list_all nonempty_str (cp_forbidden_actions c) \<and> list_all nonempty_str (cp_retention_requirements c) \<and>
        list_all nonempty_str (cp_missing_policy_data c) \<and> references_ok (cp_evidence_refs c) \<and> confidence_ok (cp_confidence c)
     then Some c else None)"

record remediation_proposal =
  pp_proposal_id :: string
  pp_tenant_id :: string
  pp_change_id :: string
  pp_agent_id :: string
  pp_target_system :: string
  pp_summary :: string
  pp_proposed_tool :: string
  pp_target_resource :: string
  pp_proposed_arguments :: "(string \<times> json) list"
  pp_validation_actions :: "string list"
  pp_rollback_actions :: "string list"
  pp_risk_level :: risk_level
  pp_requires_approval :: bool
  pp_confidence :: rat
  pp_evidence_refs :: "string list"
  pp_unknowns :: "string list"

definition RemediationProposal_validate :: "remediation_proposal \<Rightarrow> remediation_proposal option" where
  "RemediationProposal_validate p1 = (let p = p1\<lparr>pp_proposal_id := strip (pp_proposal_id p1), pp_tenant_id := strip (pp_tenant_id p1),
       pp_change_id := strip (pp_change_id p1), pp_agent_id := strip (pp_agent_id p1), pp_target_system := strip (pp_target_system p1),
       pp_summary := strip (pp_summary p1), pp_proposed_tool := strip (pp_proposed_tool p1), pp_target_resource := strip (pp_target_resource p1),
       pp_proposed_arguments := strip_object (pp_proposed_arguments p1), pp_validation_actions := map strip (pp_validation_actions p1),
       pp_rollback_actions := map strip (pp_rollback_actions p1), pp_evidence_refs := map strip (pp_evidence_refs p1),
       pp_unknowns := map strip (pp_unknowns p1)\<rparr> in
     if nonempty_str (pp_proposal_id p) \<and> nonempty_str (pp_tenant_id p) \<and> nonempty_str (pp_change_id p) \<and> nonempty_str (pp_agent_id p) \<and>
        nonempty_str (pp_target_system p) \<and> nonempty_str (pp_summary p) \<and> nonempty_str (pp_proposed_tool p) \<and> nonempty_str (pp_target_resource p) \<and>
        pp_validation_actions p \<noteq> [] \<and> list_all nonempty_str (pp_validation_actions p) \<and>
        pp_rollback_actions p \<noteq> [] \<and> list_all nonempty_str (pp_rollback_actions p) \<and> confidence_ok (pp_confidence p) \<and>
        references_ok (pp_evidence_refs p) \<and> list_all nonempty_str (pp_unknowns p)
     then Some p else None)"

record verification_proposal =
  vp_tenant_id :: string
  vp_change_id :: string
  vp_checks :: "string list"
  vp_partial_result_handling :: string
  vp_failure_handling :: string
  vp_evidence_refs :: "string list"
  vp_confidence :: rat

definition VerificationProposal_validate :: "verification_proposal \<Rightarrow> verification_proposal option" where
  "VerificationProposal_validate v1 = (let v = v1\<lparr>vp_tenant_id := strip (vp_tenant_id v1), vp_change_id := strip (vp_change_id v1),
       vp_checks := map strip (vp_checks v1), vp_partial_result_handling := strip (vp_partial_result_handling v1),
       vp_failure_handling := strip (vp_failure_handling v1), vp_evidence_refs := map strip (vp_evidence_refs v1)\<rparr> in
     if nonempty_str (vp_tenant_id v) \<and> nonempty_str (vp_change_id v) \<and> vp_checks v \<noteq> [] \<and> list_all nonempty_str (vp_checks v) \<and>
        nonempty_str (vp_partial_result_handling v) \<and> nonempty_str (vp_failure_handling v) \<and> references_ok (vp_evidence_refs v) \<and>
        confidence_ok (vp_confidence v)
     then Some v else None)"

section \<open>Invocations and results\<close>

record agent_invocation =
  ai_invocation_id :: string
  ai_agent_id :: string
  ai_identity_reference :: string
  ai_model_name :: string
  ai_model_calls :: int
  ai_tool_calls :: int
  ai_started_at :: instant
  ai_completed_at :: instant
  ai_output_hash :: string
  ai_evidence_refs :: "string list"

definition AgentInvocationRecord_validate :: "agent_invocation \<Rightarrow> agent_invocation option" where
  "AgentInvocationRecord_validate i1 = (let i = i1\<lparr>ai_invocation_id := strip (ai_invocation_id i1), ai_agent_id := strip (ai_agent_id i1),
       ai_identity_reference := strip (ai_identity_reference i1), ai_model_name := strip (ai_model_name i1),
       ai_output_hash := strip (ai_output_hash i1), ai_evidence_refs := map strip (ai_evidence_refs i1)\<rparr> in
     if nonempty_str (ai_invocation_id i) \<and> nonempty_str (ai_agent_id i) \<and> nonempty_str (ai_identity_reference i) \<and> nonempty_str (ai_model_name i) \<and>
        0 \<le> ai_model_calls i \<and> 0 \<le> ai_tool_calls i \<and> is_sha256_digest (ai_output_hash i) \<and> references_ok (ai_evidence_refs i) \<and>
        \<not> ai_completed_at i < ai_started_at i
     then Some i else None)"

record fleet_request =
  fr_change_id :: string
  fr_event :: change_event

datatype model_mode = Mode_fake | Mode_live

record fleet_result =
  fa_analysis_id :: string
  fa_tenant_id :: string
  fa_change_id :: string
  fa_trace_id :: string
  fa_model_mode :: model_mode
  fa_orchestration :: orchestration_directive
  fa_impact :: impact_analysis
  fa_compliance :: compliance_analysis
  fa_remediation_proposals :: "remediation_proposal list"
  fa_verification :: verification_proposal
  fa_draft_plan :: remediation_plan
  fa_draft_plan_hash :: string
  fa_evidence :: "evidence_item list"
  fa_invocations :: "agent_invocation list"
  fa_max_parallel_agents :: int
  fa_started_at :: instant
  fa_completed_at :: instant

text \<open>Identifiers the structured outputs refer to.\<close>

definition referenced :: "fleet_result \<Rightarrow> string set" where
  "referenced r = set (od_evidence_refs (fa_orchestration r)) \<union> set (im_evidence_refs (fa_impact r)) \<union> set (cp_evidence_refs (fa_compliance r)) \<union>
     set (vp_evidence_refs (fa_verification r)) \<union> (\<Union>p\<in>set (fa_remediation_proposals r). set (pp_evidence_refs p))"

definition validate_analysis_scope :: "fleet_result \<Rightarrow> bool" where
  "validate_analysis_scope r \<longleftrightarrow> \<not> fa_completed_at r < fa_started_at r \<and>
     od_tenant_id (fa_orchestration r) = fa_tenant_id r \<and> im_tenant_id (fa_impact r) = fa_tenant_id r \<and>
     cp_tenant_id (fa_compliance r) = fa_tenant_id r \<and> vp_tenant_id (fa_verification r) = fa_tenant_id r \<and>
     od_change_id (fa_orchestration r) = fa_change_id r \<and> im_change_id (fa_impact r) = fa_change_id r \<and>
     cp_change_id (fa_compliance r) = fa_change_id r \<and> vp_change_id (fa_verification r) = fa_change_id r \<and>
     pl_tenant_id (fa_draft_plan r) = fa_tenant_id r \<and> pl_change_id (fa_draft_plan r) = fa_change_id r \<and>
     list_all (\<lambda>p. pp_tenant_id p = fa_tenant_id r \<and> pp_change_id p = fa_change_id r) (fa_remediation_proposals r) \<and>
     card (set (map ai_agent_id (fa_invocations r))) = 7 \<and>
     referenced r \<subseteq> set (map ei_evidence_id (fa_evidence r))"

text \<open>
  The structured parts are values of validated models already; validating the result again returns them unchanged, so that its validator looks
  at its own fields and at the relation between the parts.
\<close>

definition FleetAnalysisResult_validate :: "fleet_result \<Rightarrow> fleet_result option" where
  "FleetAnalysisResult_validate r1 = (let r = r1\<lparr>fa_analysis_id := strip (fa_analysis_id r1), fa_tenant_id := strip (fa_tenant_id r1),
       fa_change_id := strip (fa_change_id r1), fa_trace_id := strip (fa_trace_id r1), fa_draft_plan_hash := strip (fa_draft_plan_hash r1)\<rparr> in
     if nonempty_str (fa_analysis_id r) \<and> nonempty_str (fa_tenant_id r) \<and> nonempty_str (fa_change_id r) \<and> nonempty_str (fa_trace_id r) \<and>
        length (fa_remediation_proposals r) = 3 \<and> is_sha256_digest (fa_draft_plan_hash r) \<and> fa_evidence r \<noteq> [] \<and>
        length (fa_invocations r) = 7 \<and> 1 \<le> fa_max_parallel_agents r \<and> validate_analysis_scope r
     then Some r else None)"

end
