(* ===== verification/Http_Transport.thy ===== *)
theory Http_Transport
  imports Canonical_Json
begin

text \<open>
  The HTTP client the services call others with. \<^verbatim>\<open>httpx\<close> is not part of the repository: a transport is an argument of the definitions, a
  function from a request to the response or the failure of the exchange, with the state of the world it changes.
\<close>

record http_request =
  hq_method :: string
  hq_url :: string
  hq_headers :: "(string \<times> string) list"
  hq_params :: "(string \<times> string) list"
  hq_body :: "json option"

text \<open>A response has a status and a body, read as JSON or not.\<close>

record http_response =
  hs_status :: int
  hs_json :: "json option"

text \<open>\<^verbatim>\<open>TimeoutException\<close>, \<^verbatim>\<open>NetworkError\<close> and every other \<^verbatim>\<open>HTTPError\<close> of the client.\<close>

datatype http_failure = Http_timeout | Http_network | Http_other

type_synonym 'x transport = "http_request \<Rightarrow> ('x, http_failure, http_response) op"

text \<open>\<^verbatim>\<open>raise_for_status\<close> accepts the successful statuses only.\<close>

definition is_success :: "http_response \<Rightarrow> bool" where
  "is_success r \<longleftrightarrow> 200 \<le> hs_status r \<and> hs_status r \<le> 299"

text \<open>\<^verbatim>\<open>d.get(key)\<close> of a decoded object.\<close>

definition jget :: "(string \<times> json) list \<Rightarrow> string \<Rightarrow> json option" where
  "jget kvs k = map_of (rev kvs) k"

end
