(* ===== verification/Fleet_Evidence.thy ===== *)
theory Fleet_Evidence
  imports Agent_Contracts Python_Text Http_Transport
begin

text \<open>
  Evidence acquisition of the agent fleet (\<^verbatim>\<open>services/agent-fleet/.../evidence.py\<close>): the fields a change renames, evidence items with the hash
  of their content, and the provider that reads the sandbox services and the packaged policy.
\<close>

section \<open>Errors\<close>

text \<open>The screening outcome of \<^verbatim>\<open>governance.py\<close>, which a blocked request carries.\<close>

record prompt_screening =
  ps_provider :: string
  ps_blocked :: bool
  ps_categories :: "string list"
  ps_input_hash :: string
  ps_invocation_result :: string
  ps_template_reference :: string

text \<open>
  The service's own errors, a \<^verbatim>\<open>ValueError\<close> (a model that rejects its fields included), \<^verbatim>\<open>KeyError\<close>, \<^verbatim>\<open>IndexError\<close>, and an exception of a
  library that nothing handles.
\<close>

datatype fleet_error =
    EvidenceUnavailableError
  | PromptBlockedError prompt_screening
  | GovernanceUnavailableError
  | Fleet_value_error
  | Fleet_key_error
  | Fleet_index_error
  | Fleet_unexpected_error

section \<open>The renamed field\<close>

definition field_from_event :: "change_event \<Rightarrow> bool \<Rightarrow> fleet_error + string" where
  "field_from_event event old = (let summary = chg_summary (ev_change event) in
     case rsplit_once '' to '' summary of
       Some (before, after) \<Rightarrow>
         (case (if old then text_words before else text_words after) of
            [] \<Rightarrow> Inl Fleet_index_error
          | w # ws \<Rightarrow> Inr (strip_chars ([CHR 0x60, CHR 0x27, CHR 0x22] @ ''.,'') (if old then last (w # ws) else w)))
     | None \<Rightarrow> Inr (if old then chg_old_version (ev_change event) else chg_new_version (ev_change event)))"

definition field_transition :: "change_event \<Rightarrow> fleet_error + (string \<times> string)" where
  "field_transition event = (case (field_from_event event True, field_from_event event False) of
     (Inr old, Inr new) \<Rightarrow> Inr (old, new) | (Inl e, _) \<Rightarrow> Inl e | (_, Inl e) \<Rightarrow> Inl e)"

section \<open>Evidence items\<close>

definition evidence_item_of :: "string \<Rightarrow> string \<Rightarrow> string \<Rightarrow> string \<Rightarrow> json \<Rightarrow> instant \<Rightarrow> fleet_error + evidence_item" where
  "evidence_item_of evidence_id tenant_id source_system source_resource payload observed_at =
    (let attributes = (case payload of JObj kvs \<Rightarrow> kvs | _ \<Rightarrow> [(''items'', payload)]) in
     case EvidenceItem_validate \<lparr>ei_evidence_id = evidence_id, ei_tenant_id = tenant_id, ei_source_system = source_system,
         ei_source_resource = source_resource, ei_summary = ''Observed '' @ evidence_id @ '' from the tenant-scoped sandbox.'',
         ei_content_hash = sha256_digest (JObj attributes), ei_trust = Trust_PLATFORM, ei_observed_at = observed_at, ei_attributes = attributes\<rparr> of
       None \<Rightarrow> Inl Fleet_value_error | Some item \<Rightarrow> Inr item)"

text \<open>The first policy of the packaged \<^verbatim>\<open>seed/policies.json\<close>.\<close>

definition policy_payload :: "(string \<times> json) list" where
  "policy_payload = [(''policy_id'', JStr ''POL-SANDBOX-BREAKING-CHANGE''), (''environment'', JStr ''sandbox''),
     (''required_approvals'', JArr [JStr ''change-owner'']),
     (''required_evidence'', JArr [JStr ''before-state'', JStr ''after-state'', JStr ''verification-results'']),
     (''forbidden_actions'', JArr [JStr ''production-write'', JStr ''unapproved-write'']),
     (''retention_requirements'', JArr [JStr ''retain-complete-agent-and-tool-trace''])]"

definition policy_evidence :: "string \<Rightarrow> instant \<Rightarrow> fleet_error + evidence_item" where
  "policy_evidence tenant_id observed_at = evidence_item_of ''policy-sandbox-change'' tenant_id ''policy-catalog''
     ''policy://versioned/POL-SANDBOX-BREAKING-CHANGE'' (JObj policy_payload) observed_at"

section \<open>Reading the services\<close>

text \<open>
  The provider is configured with service origins; \<^term>\<open>service_headers\<close> stands for the platform's service authentication of an origin.
\<close>

record 'x evidence_config =
  ec_service_urls :: "(string, string) dict"
  ec_transport :: "'x transport"
  ec_service_headers :: "string \<Rightarrow> ('x, fleet_error, (string \<times> string) list) op"

definition HttpEvidenceProvider :: "(string, string) dict \<Rightarrow> 'x transport \<Rightarrow> (string \<Rightarrow> ('x, fleet_error, (string \<times> string) list) op) \<Rightarrow> 'x evidence_config" where
  "HttpEvidenceProvider service_urls transport service_headers =
     \<lparr>ec_service_urls = map (map_prod id (rstrip_chars ''/'')) service_urls, ec_transport = transport, ec_service_headers = service_headers\<rparr>"

text \<open>Evidence identifier, service, path and whether the old field is a parameter.\<close>

definition evidence_requests :: "(string \<times> string \<times> string \<times> bool) list" where
  "evidence_requests = [(''catalog-contract'', ''catalog'', ''/v1/contracts/customer-api'', False),
     (''catalog-dependencies'', ''catalog'', ''/v1/dependencies'', False), (''crm-configuration'', ''crm'', ''/v1/configuration'', False),
     (''analytics-configuration'', ''analytics'', ''/v1/configuration'', False), (''analytics-field-usage'', ''analytics'', ''/v1/field-usage'', True),
     (''support-configuration'', ''support'', ''/v1/configuration'', False), (''support-field-usage'', ''support'', ''/v1/field-usage'', True)]"

text \<open>One request; a failure of the exchange is an \<^verbatim>\<open>HTTPError\<close> whatever its kind.\<close>

definition evidence_get ::
  "'x evidence_config \<Rightarrow> string \<Rightarrow> string \<Rightarrow> (string \<times> string) list \<Rightarrow> (string \<times> string) list \<Rightarrow> ('x, fleet_error, http_response) op" where
  "evidence_get C service path headers params = (case dget (ec_service_urls C) service of
     None \<Rightarrow> raise Fleet_key_error
   | Some base_url \<Rightarrow> bnd (ec_service_headers C base_url) (\<lambda>platform.
       wrap_err (\<lambda>_. EvidenceUnavailableError) (ec_transport C \<lparr>hq_method = ''GET'', hq_url = base_url @ path,
         hq_headers = headers @ platform, hq_params = params, hq_body = None\<rparr>)))"

text \<open>\<^verbatim>\<open>gather\<close>: every request is issued, in the order of the list; if one fails, that is the failure of all.\<close>

fun gather_responses ::
  "'x evidence_config \<Rightarrow> string \<Rightarrow> (string \<times> string) list \<Rightarrow> (string \<times> string \<times> string \<times> bool) list \<Rightarrow> ('x, fleet_error, http_response list) op" where
  "gather_responses C old_field headers [] s = (Inr [], s)"
| "gather_responses C old_field headers ((evidence_id, service, path, by_field) # requests) s =
    (case evidence_get C service path headers (if by_field then [(''field'', old_field)] else []) s of (outcome, s1) \<Rightarrow>
     case gather_responses C old_field headers requests s1 of (outcomes, s2) \<Rightarrow>
       (case (outcome, outcomes) of
          (Inl e, _) \<Rightarrow> (Inl e, s2)
        | (Inr _, Inl e) \<Rightarrow> (Inl e, s2)
        | (Inr response, Inr responses) \<Rightarrow> (Inr (response # responses), s2)))"

text \<open>\<^verbatim>\<open>raise_for_status\<close>, \<^verbatim>\<open>json\<close> and the evidence item of one response.\<close>

definition response_evidence :: "string \<Rightarrow> instant \<Rightarrow> string \<times> string \<times> string \<times> bool \<Rightarrow> http_response \<Rightarrow> fleet_error + evidence_item" where
  "response_evidence tenant_id observed_at spec response = (case spec of (evidence_id, service, path, by_field) \<Rightarrow>
     if \<not> is_success response then Inl EvidenceUnavailableError
     else case hs_json response of
       None \<Rightarrow> Inl Fleet_value_error
     | Some payload \<Rightarrow> evidence_item_of evidence_id tenant_id service
         (service @ ''://'' @ dropWhile (\<lambda>c. c = CHR ''/'') path) payload observed_at)"

fun all_evidence :: "string \<Rightarrow> instant \<Rightarrow> (string \<times> string \<times> string \<times> bool) list \<Rightarrow> http_response list \<Rightarrow> fleet_error + evidence_item list" where
  "all_evidence t now (spec # specs) (response # responses) = (case response_evidence t now spec response of
     Inl e \<Rightarrow> Inl e
   | Inr item \<Rightarrow> (case all_evidence t now specs responses of Inl e \<Rightarrow> Inl e | Inr items \<Rightarrow> Inr (item # items)))"
| "all_evidence t now [] [] = Inr []"
| "all_evidence t now _ _ = Inl Fleet_value_error"

text \<open>The \<^verbatim>\<open>except\<close> clause of \<^verbatim>\<open>collect\<close>.\<close>

fun evidence_failure :: "fleet_error \<Rightarrow> fleet_error" where
  "evidence_failure Fleet_value_error = EvidenceUnavailableError"
| "evidence_failure Fleet_key_error = EvidenceUnavailableError"
| "evidence_failure e = e"

definition collect_evidence :: "'x evidence_config \<Rightarrow> instant \<Rightarrow> change_event \<Rightarrow> ('x, fleet_error, evidence_item list) op" where
  "collect_evidence C now event =
     bnd (lift_sum (field_from_event event True)) (\<lambda>old_field.
     wrap_err evidence_failure
       (bnd (gather_responses C old_field [(''X-Tenant-ID'', ev_tenant_id event)] evidence_requests) (\<lambda>responses.
        bnd (lift_sum (all_evidence (ev_tenant_id event) now evidence_requests responses)) (\<lambda>items.
        bnd (lift_sum (policy_evidence (ev_tenant_id event) now)) (\<lambda>policy. ret (items @ [policy]))))))"

section \<open>Facts\<close>

lemma strip_fixed_ends:
  assumes "strip s = s" "s \<noteq> []"
  shows "\<not> is_whitespace (hd s)" "\<not> is_whitespace (last s)"
proof -
  let ?t = "dropWhile is_whitespace s"
  have s: "s = rev (dropWhile is_whitespace (rev ?t))" using assms(1) by (simp add: strip_def)
  then have "rev (dropWhile is_whitespace (rev ?t)) \<noteq> []" using assms(2) by simp
  then have ne: "dropWhile is_whitespace (rev ?t) \<noteq> []" by simp
  have "last s = hd (dropWhile is_whitespace (rev ?t))" using s ne by (metis last_rev)
  then show "\<not> is_whitespace (last s)" using hd_dropWhile [OF ne] by simp
  have "?t \<noteq> []" using ne by (metis dropWhile.simps(1) rev.simps(1))
  then have "\<not> is_whitespace (hd ?t)" by (rule hd_dropWhile)
  moreover have "prefix s ?t"
  proof -
    have "suffix (dropWhile is_whitespace (rev ?t)) (rev ?t)" by (rule suffix_dropWhile)
    then show ?thesis using s by (metis rev_rev_ident suffix_to_prefix)
  qed
  then have "hd s = hd ?t" using assms(2) by (metis hd_append2 prefix_def)
  ultimately show "\<not> is_whitespace (hd s)" by simp
qed

text \<open>
  Both sides of the separator must hold a word: Pydantic strips the summary of an event but not the information separators, so that a
  summary that begins with one has no first word for \<^verbatim>\<open>split()\<close>.
\<close>

lemma field_from_event_defined:
  "(\<exists>f. field_from_event event old = Inr f) \<longleftrightarrow> (case rsplit_once '' to '' (chg_summary (ev_change event)) of
     None \<Rightarrow> True | Some (before, after) \<Rightarrow> \<not> list_all is_py_space (if old then before else after))"
  by (auto simp: field_from_event_def Let_def simp flip: text_words_Nil split: option.splits list.splits)

lemma evidence_item_of_Inr:
  assumes "evidence_item_of i t sys res payload now = Inr item"
  shows "ei_evidence_id item = strip i" "ei_tenant_id item = strip t" "ei_trust item = Trust_PLATFORM" "ei_observed_at item = now"
    "is_sha256_digest (ei_content_hash item)"
  using assms by (auto simp: evidence_item_of_def EvidenceItem_validate_def Let_def strip_evidence_def split: option.splits if_splits)

lemma all_evidence_Inr:
  assumes "all_evidence t now specs responses = Inr items"
  shows "map ei_evidence_id items = map (strip \<circ> fst) specs \<and> length responses = length specs \<and> list_all is_success responses \<and>
    list_all (\<lambda>item. ei_tenant_id item = strip t \<and> ei_trust item = Trust_PLATFORM \<and> ei_observed_at item = now) items"
  using assms
proof (induction t now specs responses arbitrary: items rule: all_evidence.induct)
  case (1 t now spec specs response responses)
  obtain i service path by_field where spec: "spec = (i, service, path, by_field)" by (cases spec)
  from 1(2) obtain item rest where item: "response_evidence t now spec response = Inr item" "all_evidence t now specs responses = Inr rest"
    "items = item # rest" by (auto split: sum.splits)
  then have "is_success response" "ei_evidence_id item = strip i \<and> ei_tenant_id item = strip t \<and> ei_trust item = Trust_PLATFORM \<and> ei_observed_at item = now"
    using spec by (auto simp: response_evidence_def dest: evidence_item_of_Inr split: if_splits option.splits)
  with 1(1) [OF item(1,2)] item(3) spec show ?case by simp
qed simp_all

end
