(* ===== verification/Json_Reader.thy ===== *)
theory Json_Reader
  imports Canonical_Json
begin

text \<open>
  \<^verbatim>\<open>json.loads\<close> and the two ASCII printers of \<^verbatim>\<open>json.dumps\<close>. The reader covers the JSON values of the model: whole numbers and strings of code
  points below 256; a text that holds another number or code point is read as an error. It runs with fuel; twice the length of the text is
  enough for every text, and reading what was printed gives the printed value back.
\<close>

section \<open>ASCII printing\<close>

text \<open>Every character outside the printable ASCII range is escaped.\<close>

definition ascii_escape :: "char \<Rightarrow> string" where
  "ascii_escape c = (let n = of_char c :: nat in if 126 < n then CHR 0x5C # CHR ''u'' # hex4 n else escape_char c)"

definition dumps_string :: "string \<Rightarrow> string" where
  "dumps_string s = quote # concat (map ascii_escape s) @ [quote]"

text \<open>\<^verbatim>\<open>json.dumps(value, separators=(",", ":"))\<close>.\<close>

fun compact_dumps :: "json \<Rightarrow> string" where
  "compact_dumps JNull = ''null''"
| "compact_dumps (JBool b) = (if b then ''true'' else ''false'')"
| "compact_dumps (JInt i) = int_str i"
| "compact_dumps (JStr s) = dumps_string s"
| "compact_dumps (JArr xs) = CHR ''['' # join_comma (map compact_dumps xs) @ '']''"
| "compact_dumps (JObj kvs) = CHR ''{'' # join_comma (map (\<lambda>kv. dumps_string (fst kv) @ CHR '':'' # compact_dumps (snd kv)) kvs) @ ''}''"

section \<open>Reading\<close>

definition is_json_space :: "char \<Rightarrow> bool" where
  "is_json_space c \<longleftrightarrow> c \<in> {CHR '' '', CHR 0x09, CHR 0x0A, CHR 0x0D}"

definition skip_space :: "string \<Rightarrow> string" where
  "skip_space s = dropWhile is_json_space s"

definition is_hex :: "char \<Rightarrow> bool" where
  "is_hex c \<longleftrightarrow> is_digit c \<or> (let n = of_char c :: nat in 97 \<le> n \<and> n \<le> 102 \<or> 65 \<le> n \<and> n \<le> 70)"

definition hex_any :: "char \<Rightarrow> nat" where
  "hex_any c = (let n = of_char c :: nat in if n < 58 then n - 48 else if n < 71 then n - 55 else n - 87)"

text \<open>The character after a backslash.\<close>

fun read_escape :: "string \<Rightarrow> (char \<times> string) option" where
  "read_escape [] = None"
| "read_escape (x # r) =
    (if x = CHR 0x22 \<or> x = CHR 0x5C \<or> x = CHR ''/'' then Some (x, r)
     else if x = CHR ''b'' then Some (CHR 0x08, r)
     else if x = CHR ''f'' then Some (CHR 0x0C, r)
     else if x = CHR ''n'' then Some (CHR 0x0A, r)
     else if x = CHR ''r'' then Some (CHR 0x0D, r)
     else if x = CHR ''t'' then Some (CHR 0x09, r)
     else if x = CHR ''u'' then (case r of
         a # b # c # d # u \<Rightarrow>
           (let n = ((hex_any a * 16 + hex_any b) * 16 + hex_any c) * 16 + hex_any d in
            if list_all is_hex [a, b, c, d] \<and> n < 256 then Some (char_of n, u) else None)
       | _ \<Rightarrow> None)
     else None)"

lemma read_escape_shorter: "read_escape s = Some (c, r) \<Longrightarrow> length r < length s"
  by (cases s) (auto simp: Let_def split: if_splits list.splits)

text \<open>The rest of a string after its opening quote; unescaped control characters are refused.\<close>

function read_string :: "string \<Rightarrow> (string \<times> string) option" where
  "read_string s = (case s of
     [] \<Rightarrow> None
   | c # t \<Rightarrow>
       if c = quote then Some ([], t)
       else if c = CHR 0x5C then (case read_escape t of
           None \<Rightarrow> None
         | Some (x, r) \<Rightarrow> map_option (map_prod (Cons x) id) (read_string r))
       else if of_char c < (32 :: nat) then None
       else map_option (map_prod (Cons c) id) (read_string t))"
  by pat_completeness auto
termination
  by (relation "measure length") (auto dest: read_escape_shorter)

declare read_string.simps [simp del]

lemma read_string_Cons: "read_string (c # t) =
    (if c = quote then Some ([], t)
     else if c = CHR 0x5C then (case read_escape t of
         None \<Rightarrow> None
       | Some (x, r) \<Rightarrow> map_option (map_prod (Cons x) id) (read_string r))
     else if of_char c < (32 :: nat) then None
     else map_option (map_prod (Cons c) id) (read_string t))"
  by (subst read_string.simps) simp

lemma read_string_Nil [simp]: "read_string [] = None"
  by (subst read_string.simps) simp

lemma read_string_shorter: "read_string s = Some (x, r) \<Longrightarrow> length r < length s"
proof (induction "length s" arbitrary: s x r rule: less_induct)
  case less
  show ?case
  proof (cases s)
    case (Cons c t)
    consider "c = quote" | "c = CHR 0x5C" "c \<noteq> quote" | "c \<noteq> CHR 0x5C" "c \<noteq> quote" by blast
    then show ?thesis
    proof cases
      case 2
      with less.prems Cons obtain y u x' where "read_escape t = Some (y, u)" "read_string u = Some (x', r)"
        by (auto simp: read_string_Cons split: option.splits)
      with less.hyps [of u x' r] Cons show ?thesis by (auto dest!: read_escape_shorter)
    next
      case 3
      with less.prems Cons obtain x' where "read_string t = Some (x', r)" by (auto simp: read_string_Cons split: if_splits)
      with less.hyps [of t x' r] Cons show ?thesis by auto
    qed (use less.prems Cons in \<open>simp add: read_string_Cons\<close>)
  qed (use less.prems in simp)
qed

text \<open>A whole number: an optional sign, and a zero or digits that do not start with a zero; Python reads at most 4300 digits.\<close>

definition read_number :: "string \<Rightarrow> (json \<times> string) option" where
  "read_number s = (let (negative, t) = (case s of c # u \<Rightarrow> if c = CHR ''-'' then (True, u) else (False, s) | [] \<Rightarrow> (False, s));
       digits = (case t of c # u \<Rightarrow> if c = CHR ''0'' then [c] else takeWhile is_digit t | [] \<Rightarrow> []);
       value = int (decimal_value digits) in
     if digits = [] \<or> 4300 < length digits then None
     else Some (JInt (if negative then - value else value), drop (length digits) t))"

fun read_value :: "nat \<Rightarrow> string \<Rightarrow> (json \<times> string) option"
and read_items :: "nat \<Rightarrow> string \<Rightarrow> (json list \<times> string) option"
and read_members :: "nat \<Rightarrow> string \<Rightarrow> ((string \<times> json) list \<times> string) option" where
  "read_value 0 s = None"
| "read_value (Suc n) s = (case skip_space s of
     [] \<Rightarrow> None
   | c # t \<Rightarrow>
       if c = quote then map_option (map_prod JStr id) (read_string t)
       else if c = CHR ''['' then (case skip_space t of
           [] \<Rightarrow> None
         | d # u \<Rightarrow> if d = CHR '']'' then Some (JArr [], u) else map_option (map_prod JArr id) (read_items n t))
       else if c = CHR ''{'' then (case skip_space t of
           [] \<Rightarrow> None
         | d # u \<Rightarrow> if d = CHR ''}'' then Some (JObj [], u) else map_option (map_prod JObj id) (read_members n t))
       else if prefix ''null'' (c # t) then Some (JNull, drop 4 (c # t))
       else if prefix ''true'' (c # t) then Some (JBool True, drop 4 (c # t))
       else if prefix ''false'' (c # t) then Some (JBool False, drop 5 (c # t))
       else read_number (c # t))"
| "read_items 0 s = None"
| "read_items (Suc n) s = (case read_value n s of
     None \<Rightarrow> None
   | Some (v, r) \<Rightarrow> (case skip_space r of
       [] \<Rightarrow> None
     | d # u \<Rightarrow> if d = CHR '']'' then Some ([v], u)
         else if d = CHR '','' then map_option (map_prod (Cons v) id) (read_items n u)
         else None))"
| "read_members 0 s = None"
| "read_members (Suc n) s = (case skip_space s of
     [] \<Rightarrow> None
   | c # t \<Rightarrow> if c \<noteq> quote then None else (case read_string t of
       None \<Rightarrow> None
     | Some (k, r) \<Rightarrow> (case skip_space r of
         [] \<Rightarrow> None
       | e # w \<Rightarrow> if e \<noteq> CHR '':'' then None else (case read_value n w of
           None \<Rightarrow> None
         | Some (v, r2) \<Rightarrow> (case skip_space r2 of
             [] \<Rightarrow> None
           | d # u \<Rightarrow> if d = CHR ''}'' then Some ([(k, v)], u)
               else if d = CHR '','' then map_option (map_prod (Cons (k, v)) id) (read_members n u)
               else None)))))"

text \<open>The whole text, with white space around it.\<close>

definition loads :: "string \<Rightarrow> json option" where
  "loads s = (case read_value (2 * length s + 2) s of
     Some (v, r) \<Rightarrow> if skip_space r = [] then Some v else None
   | None \<Rightarrow> None)"

section \<open>Enough fuel\<close>

lemma skip_space_le: "length (skip_space s) \<le> length s"
  by (simp add: skip_space_def length_dropWhile_le)

lemma skip_space_Cons: "skip_space s = c # t \<Longrightarrow> length t < length s"
  using skip_space_le [of s] by simp

lemma read_number_shorter: "read_number s = Some (v, r) \<Longrightarrow> length r < length s"
  by (auto simp: read_number_def Let_def split: if_splits list.splits)

lemma read_scalar_shorter:
  assumes "(if prefix ''null'' (c # t) then Some (JNull, drop 4 (c # t)) else if prefix ''true'' (c # t) then Some (JBool True, drop 4 (c # t))
     else if prefix ''false'' (c # t) then Some (JBool False, drop 5 (c # t)) else read_number (c # t)) = Some (v, r)"
  shows "length r \<le> length t"
  using assms by (auto split: if_splits dest!: read_number_shorter)

lemma read_shorter:
  "read_value n s = Some (v, r) \<Longrightarrow> length r < length s"
  "read_items n s = Some (vs, r) \<Longrightarrow> length r < length s"
  "read_members n s = Some (ms, r) \<Longrightarrow> length r < length s"
proof (induction n arbitrary: s v vs ms r)
  case (Suc n)
  { case 1
    then obtain c t where st: "skip_space s = c # t" by (auto split: list.splits)
    note lt = skip_space_Cons [OF st]
    have "length r \<le> length t"
    proof (cases "c = quote \<or> c = CHR ''['' \<or> c = CHR ''{''")
      case False
      with 1 st show ?thesis by (intro read_scalar_shorter [of c t v r]) simp
    next
      case True
      then consider "c = quote" | "c \<noteq> quote" "c = CHR ''[''" | "c \<noteq> quote" "c = CHR ''{''" by blast
      then show ?thesis
      proof cases
        case 1
        with \<open>read_value (Suc n) s = Some (v, r)\<close> st obtain x where "read_string t = Some (x, r)" by auto
        then show ?thesis by (auto dest: read_string_shorter)
      next
        case 2
        then obtain d u where "skip_space t = d # u" "r = u \<or> (\<exists>vs. read_items n t = Some (vs, r))"
          using \<open>read_value (Suc n) s = Some (v, r)\<close> st by (auto split: list.splits if_splits)
        then show ?thesis using Suc.IH(2) [of t _ r] skip_space_Cons [of t d u] by fastforce
      next
        case 3
        then obtain d u where "skip_space t = d # u" "r = u \<or> (\<exists>ms. read_members n t = Some (ms, r))"
          using \<open>read_value (Suc n) s = Some (v, r)\<close> st by (auto split: list.splits if_splits)
        then show ?thesis using Suc.IH(3) [of t _ r] skip_space_Cons [of t d u] by fastforce
      qed
    qed
    with lt show ?case by simp
  next
    case 2
    then obtain w q d u where w: "read_value n s = Some (w, q)" "skip_space q = d # u" "r = u \<or> (\<exists>vs. read_items n u = Some (vs, r))"
      by (auto split: option.splits list.splits if_splits)
    have "length q < length s" "length u < length q" using Suc.IH(1) [OF w(1)] skip_space_Cons [OF w(2)] by simp_all
    with w(3) Suc.IH(2) [of u _ r] show ?case by fastforce
  next
    case 3
    then obtain c t k p e w x q d u where w: "skip_space s = c # t" "read_string t = Some (k, p)" "skip_space p = e # w"
      "read_value n w = Some (x, q)" "skip_space q = d # u" "r = u \<or> (\<exists>ms. read_members n u = Some (ms, r))"
      by (auto split: option.splits list.splits if_splits)
    have "length t < length s" "length p < length t" "length w < length p" "length q < length w" "length u < length q"
      using skip_space_Cons [OF w(1)] read_string_shorter [OF w(2)] skip_space_Cons [OF w(3)] Suc.IH(1) [OF w(4)] skip_space_Cons [OF w(5)] by simp_all
    with w(6) Suc.IH(3) [of u _ r] show ?case by fastforce }
qed simp_all

text \<open>More fuel than twice the length of the text changes nothing.\<close>

lemma read_stable:
  "2 * length s < n \<Longrightarrow> read_value (Suc n) s = read_value n s"
  "2 * length s + 1 < n \<Longrightarrow> read_items (Suc n) s = read_items n s"
  "2 * length s + 1 < n \<Longrightarrow> read_members (Suc n) s = read_members n s"
proof (induction n arbitrary: s)
  case (Suc n)
  { case 1
    have "read_items (Suc n) t = read_items n t" "read_members (Suc n) t = read_members n t" if "skip_space s = c # t" for c t
      using Suc.IH(2,3) [of t] skip_space_Cons [OF that] 1 by simp_all
    then show ?case unfolding read_value.simps(2) [of "Suc n"] read_value.simps(2) [of n]
      by (cases "skip_space s") (simp_all only: list.case)
  next
    case 2
    have v: "read_value (Suc n) s = read_value n s" using Suc.IH(1) [of s] 2 by simp
    have "read_items (Suc n) u = read_items n u" if "read_value n s = Some (w, q)" "skip_space q = d # u" for w q d u
      using Suc.IH(2) [of u] read_shorter(1) [OF that(1)] skip_space_Cons [OF that(2)] 2 by simp
    then show ?case unfolding read_items.simps(2) [of "Suc n"] read_items.simps(2) [of n] v by (auto split: option.split list.split)
  next
    case 3
    have v: "read_value (Suc n) w = read_value n w"
      if "skip_space s = c # t" "read_string t = Some (k, p)" "skip_space p = e # w" for c t k p e w
      using Suc.IH(1) [of w] skip_space_Cons [OF that(1)] read_string_shorter [OF that(2)] skip_space_Cons [OF that(3)] 3 by simp
    have m: "read_members (Suc n) u = read_members n u"
      if "skip_space s = c # t" "read_string t = Some (k, p)" "skip_space p = e # w" "read_value n w = Some (x, q)" "skip_space q = d # u"
      for c t k p e w x q d u
      using Suc.IH(3) [of u] skip_space_Cons [OF that(1)] read_string_shorter [OF that(2)] skip_space_Cons [OF that(3)]
        read_shorter(1) [OF that(4)] skip_space_Cons [OF that(5)] 3 by simp
    show ?case unfolding read_members.simps(2) [of "Suc n"] read_members.simps(2) [of n] using v m
      by (auto split: option.split list.split) }
qed simp_all

lemma read_value_enough:
  assumes "2 * length s < n" "2 * length s < m"
  shows "read_value n s = read_value m s"
proof -
  have up: "read_value (n + k) s = read_value n s" if "2 * length s < n" for n k
    using that read_stable(1) [of s "n + _"] by (induction k) simp_all
  show ?thesis using up [of "min n m" "n - min n m"] up [of "min n m" "m - min n m"] assms by (simp add: min_def split: if_splits)
qed

section \<open>Reading what was printed\<close>

lemma nat_str_zero: "hd (nat_str n) = CHR ''0'' \<Longrightarrow> n = 0"
proof (induction n rule: nat_str.induct)
  case (1 n)
  show ?case
  proof (cases "n < 10")
    case True
    then have "nat_str n = [digit_char n]" by (simp add: nat_str.simps)
    with 1 have "digit_char n = CHR ''0''" by simp
    then show ?thesis using True digit_value_char [of n] by (simp add: digit_value_def)
  next
    case False
    then have "hd (nat_str n) = hd (nat_str (n div 10))" using nat_str_nonempty [of "n div 10"] by (subst nat_str.simps) simp
    with 1 False have "n div 10 = 0" by simp
    with False show ?thesis by simp
  qed
qed

definition number_readable :: "int \<Rightarrow> bool" where
  "number_readable i \<longleftrightarrow> length (nat_str (nat \<bar>i\<bar>)) \<le> 4300"

lemma takeWhile_nat_str: "follow r \<Longrightarrow> takeWhile is_digit (nat_str n @ r) = nat_str n"
  using nat_str_digits [of _ n] by (cases r) (auto simp: takeWhile_append)

lemma read_nat_str:
  assumes "follow r"
  shows "(case nat_str n @ r of c # u \<Rightarrow> if c = CHR ''0'' then [c] else takeWhile is_digit (nat_str n @ r) | [] \<Rightarrow> []) = nat_str n"
proof (cases "nat_str n")
  case (Cons c t)
  show ?thesis
  proof (cases "c = CHR ''0''")
    case True
    with Cons have "n = 0" using nat_str_zero [of n] by simp
    moreover have "nat_str 0 = ''0''" by code_simp
    ultimately show ?thesis by simp
  next
    case False
    with Cons takeWhile_nat_str [OF assms, of n] show ?thesis by simp
  qed
qed (use nat_str_nonempty in simp)

lemma read_int_str:
  assumes "follow r" "number_readable i"
  shows "read_number (int_str i @ r) = Some (JInt i, r)"
proof (cases "i < 0")
  case True
  then have i: "int_str i = CHR ''-'' # nat_str (nat (- i))" by (simp add: int_str_def)
  from True assms(2) have "length (nat_str (nat (- i))) \<le> 4300" by (simp add: number_readable_def)
  with True show ?thesis unfolding i read_number_def by (simp add: read_nat_str [OF assms(1)])
next
  case False
  then have i: "int_str i = nat_str (nat i)" by (simp add: int_str_def)
  from False assms(2) have len: "length (nat_str (nat i)) \<le> 4300" by (simp add: number_readable_def)
  have "hd (nat_str (nat i) @ r) \<noteq> CHR ''-''"
    using nat_str_hd [of "nat i"] by (auto simp: hd_append is_digit_def Let_def)
  then have "(case nat_str (nat i) @ r of c # u \<Rightarrow> if c = CHR ''-'' then (True, u) else (False, nat_str (nat i) @ r) | [] \<Rightarrow> (False, nat_str (nat i) @ r)) =
      (False, nat_str (nat i) @ r)" by (cases "nat_str (nat i) @ r") simp_all
  with False len show ?thesis unfolding i read_number_def by (simp add: read_nat_str [OF assms(1)])
qed

fun json_readable :: "json \<Rightarrow> bool" where
  "json_readable (JInt i) = number_readable i"
| "json_readable (JArr xs) = list_all json_readable xs"
| "json_readable (JObj kvs) = list_all (\<lambda>kv. json_readable (snd kv)) kvs"
| "json_readable j = True"

text \<open>What a printer of JSON texts promises: its strings can be read back, and values are composed with commas and brackets.\<close>

locale json_printer =
  fixes show_string :: "string \<Rightarrow> string" and show_json :: "json \<Rightarrow> string"
  assumes string_back: "\<exists>t. show_string x @ r = quote # t \<and> read_string t = Some (x, r)"
    and null: "show_json JNull = ''null''"
    and bool: "show_json (JBool b) = (if b then ''true'' else ''false'')"
    and number: "show_json (JInt i) = int_str i"
    and string: "show_json (JStr x) = show_string x"
    and array: "show_json (JArr xs) = CHR ''['' # join_comma (map show_json xs) @ '']''"
    and object: "show_json (JObj kvs) = CHR ''{'' # join_comma (map (\<lambda>kv. show_string (fst kv) @ CHR '':'' # show_json (snd kv)) kvs) @ ''}''"
begin

lemma show_string_hd: "\<exists>t. show_string x = quote # t"
proof -
  from string_back [of x "[quote]"] obtain t where "show_string x @ [quote] = quote # t" "read_string t = Some (x, [quote])" by blast
  then show ?thesis by (cases "show_string x") auto
qed

definition starts_value :: "char \<Rightarrow> bool" where
  "starts_value c \<longleftrightarrow> \<not> is_json_space c \<and> c \<noteq> CHR '']'' \<and> c \<noteq> CHR ''}''"

lemma show_hd: "\<exists>c t. show_json j = c # t \<and> starts_value c"
proof (cases j)
  case (JInt i)
  then obtain c t where ct: "int_str i = c # t" "c = CHR ''-'' \<or> is_digit c" using int_str_hd [of i] by (cases "int_str i") auto
  then have "starts_value c" by (auto simp: starts_value_def is_json_space_def is_digit_def)
  with ct JInt show ?thesis by (simp add: number)
next
  case (JStr x)
  then show ?thesis using show_string_hd [of x] by (auto simp: string starts_value_def is_json_space_def quote_def)
qed (auto simp: null bool array object starts_value_def is_json_space_def)

lemma skip_value [simp]: "skip_space (show_json j @ r) = show_json j @ r"
  using show_hd [of j] by (auto simp: skip_space_def starts_value_def)

lemma skip_string [simp]: "skip_space (show_string x @ r) = show_string x @ r"
  using show_string_hd [of x] by (auto simp: skip_space_def is_json_space_def quote_def)

lemma skip_marks [simp]: "skip_space (CHR '']'' # r) = CHR '']'' # r" "skip_space (CHR ''}'' # r) = CHR ''}'' # r"
  "skip_space (CHR '','' # r) = CHR '','' # r" "skip_space (CHR '':'' # r) = CHR '':'' # r"
  "skip_space (CHR ''['' # r) = CHR ''['' # r" "skip_space (CHR ''{'' # r) = CHR ''{'' # r"
  by (simp_all add: skip_space_def is_json_space_def)

lemma items_back:
  assumes "\<And>x n r. x \<in> set xs \<Longrightarrow> follow r \<Longrightarrow> 2 * length (show_json x) \<le> n \<Longrightarrow> read_value (Suc n) (show_json x @ r) = Some (x, r)"
    and "xs \<noteq> []" "2 * length (join_comma (map show_json xs)) + 2 \<le> n"
  shows "read_items n (join_comma (map show_json xs) @ CHR '']'' # r) = Some (xs, r)"
  using assms
proof (induction xs arbitrary: n)
  case (Cons x xs)
  from Cons.prems(3) have "2 \<le> n" by simp
  then obtain m where n: "n = Suc (Suc m)" using le_Suc_ex [of 2 n] by auto
  have digit: "\<not> is_digit (CHR '']'')" "\<not> is_digit (CHR '','')" by (simp_all add: is_digit_def)
  show ?case
  proof (cases xs)
    case Nil
    with Cons.prems(3) n have "read_value (Suc m) (show_json x @ CHR '']'' # r) = Some (x, CHR '']'' # r)"
      by (intro Cons.prems(1)) (simp_all add: digit)
    then show ?thesis unfolding n Nil by simp
  next
    case (Cons y ys)
    let ?rest = "join_comma (map show_json xs) @ CHR '']'' # r"
    have join: "join_comma (map show_json (x # xs)) = show_json x @ CHR '','' # join_comma (map show_json xs)" using Cons by simp
    have "read_value (Suc m) (show_json x @ CHR '','' # ?rest) = Some (x, CHR '','' # ?rest)"
      using Cons.prems(3) n join by (intro Cons.prems(1)) (simp_all add: digit)
    moreover have "read_items (Suc m) ?rest = Some (xs, r)"
      using Cons.prems(3) n join Cons by (intro Cons.IH Cons.prems(1)) simp_all
    ultimately show ?thesis unfolding n join by (simp del: read_value.simps add: read_items.simps(2) [of "Suc m"])
  qed
qed simp

abbreviation show_member :: "string \<times> json \<Rightarrow> string" where
  "show_member kv \<equiv> show_string (fst kv) @ CHR '':'' # show_json (snd kv)"

lemma member_key_back: "\<exists>t. show_member kv @ r = quote # t \<and> read_string t = Some (fst kv, CHR '':'' # show_json (snd kv) @ r)"
  using string_back [of "fst kv" "CHR '':'' # show_json (snd kv) @ r"] by simp

lemma members_back:
  assumes "\<And>kv n r. kv \<in> set kvs \<Longrightarrow> follow r \<Longrightarrow> 2 * length (show_json (snd kv)) \<le> n \<Longrightarrow>
      read_value (Suc n) (show_json (snd kv) @ r) = Some (snd kv, r)"
    and "kvs \<noteq> []" "2 * length (join_comma (map show_member kvs)) + 2 \<le> n"
  shows "read_members n (join_comma (map show_member kvs) @ CHR ''}'' # r) = Some (kvs, r)"
  using assms
proof (induction kvs arbitrary: n)
  case (Cons kv kvs)
  from Cons.prems(3) have "2 \<le> n" by simp
  then obtain m where n: "n = Suc (Suc m)" using le_Suc_ex [of 2 n] by auto
  have digit: "\<not> is_digit (CHR ''}'')" "\<not> is_digit (CHR '','')" by (simp_all add: is_digit_def)
  have skip: "skip_space (quote # t) = quote # t" for t by (simp add: skip_space_def is_json_space_def quote_def)
  show ?case
  proof (cases kvs)
    case Nil
    have v: "read_value (Suc m) (show_json (snd kv) @ CHR ''}'' # r) = Some (snd kv, CHR ''}'' # r)"
      using Cons.prems(3) n Nil by (intro Cons.prems(1)) (simp_all add: digit)
    obtain t where t: "show_member kv @ CHR ''}'' # r = quote # t" "read_string t = Some (fst kv, CHR '':'' # show_json (snd kv) @ CHR ''}'' # r)"
      using member_key_back by blast
    have join: "join_comma (map show_member (kv # kvs)) @ CHR ''}'' # r = quote # t" using t(1) Nil by simp
    show ?thesis unfolding join n using Nil v t(2) by (simp del: read_value.simps add: skip read_members.simps(2) [of "Suc m"])
  next
    case (Cons kv' kvs')
    let ?rest = "join_comma (map show_member kvs) @ CHR ''}'' # r"
    have j: "join_comma (map show_member (kv # kvs)) = show_member kv @ CHR '','' # join_comma (map show_member kvs)" using Cons by simp
    have v: "read_value (Suc m) (show_json (snd kv) @ CHR '','' # ?rest) = Some (snd kv, CHR '','' # ?rest)"
      using Cons.prems(3) n j by (intro Cons.prems(1)) (simp_all add: digit)
    have rest: "read_members (Suc m) ?rest = Some (kvs, r)"
      using Cons.prems(3) n j Cons by (intro Cons.IH Cons.prems(1)) simp_all
    obtain t where t: "show_member kv @ CHR '','' # ?rest = quote # t" "read_string t = Some (fst kv, CHR '':'' # show_json (snd kv) @ CHR '','' # ?rest)"
      using member_key_back by blast
    have join: "join_comma (map show_member (kv # kvs)) @ CHR ''}'' # r = quote # t" using t(1) j by simp
    show ?thesis unfolding join n using v t(2) rest by (simp del: read_value.simps add: skip read_members.simps(2) [of "Suc m"])
  qed
qed simp

lemma join_value_hd: "xs \<noteq> [] \<Longrightarrow> \<exists>c t. join_comma (map show_json xs) = c # t \<and> starts_value c"
  using show_hd [of "hd xs"] by (cases xs) (auto simp: join_comma_Cons)

lemma join_member_hd: "kvs \<noteq> [] \<Longrightarrow> \<exists>t. join_comma (map show_member kvs) = quote # t"
  using show_string_hd [of "fst (hd kvs)"] by (cases kvs) (auto simp: join_comma_Cons)

lemma value_back:
  assumes "json_readable j" "follow r" "2 * length (show_json j) \<le> n"
  shows "read_value (Suc n) (show_json j @ r) = Some (j, r)"
  using assms
proof (induction j arbitrary: n r)
  case (JInt i)
  obtain c t where ct: "int_str i = c # t" "c = CHR ''-'' \<or> is_digit c" using int_str_hd [of i] by (cases "int_str i") auto
  have "c \<noteq> quote" "c \<noteq> CHR ''[''" "c \<noteq> CHR ''{''" "c \<noteq> CHR ''n''" "c \<noteq> CHR ''t''" "c \<noteq> CHR ''f''"
    using ct(2) by (auto simp: is_digit_def quote_def)
  with JInt ct read_int_str [of r i] skip_value [of "JInt i" r] show ?case by (simp add: number)
next
  case (JStr x)
  from string_back [of x r] skip_string [of x r] show ?case by (auto simp: string)
next
  case (JArr xs)
  have each: "read_value (Suc n) (show_json x @ r) = Some (x, r)" if "x \<in> set xs" "follow r" "2 * length (show_json x) \<le> n" for x n r
    using JArr.IH [OF that(1) _ that(2,3)] JArr.prems(1) that(1) by (simp add: list_all_iff)
  show ?case
  proof (cases "xs = []")
    case True
    then show ?thesis by (simp add: array skip_space_def is_json_space_def quote_def)
  next
    case False
    have "read_items n (join_comma (map show_json xs) @ CHR '']'' # r) = Some (xs, r)"
      using JArr.prems(3) by (intro items_back [OF each False]) (simp_all add: array)
    moreover obtain c t where ct: "join_comma (map show_json xs) = c # t" "starts_value c" using join_value_hd [OF False] by blast
    ultimately have items: "read_items n (c # t @ CHR '']'' # r) = Some (xs, r)" by simp
    have shown: "show_json (JArr xs) @ r = CHR ''['' # c # t @ CHR '']'' # r" by (simp add: array ct)
    have "skip_space (c # t @ CHR '']'' # r) = c # t @ CHR '']'' # r" "c \<noteq> CHR '']''" using ct(2) by (simp_all add: skip_space_def starts_value_def)
    then show ?thesis unfolding shown using items by (simp add: quote_def)
  qed
next
  case (JObj kvs)
  have each: "read_value (Suc n) (show_json (snd kv) @ r) = Some (snd kv, r)" if "kv \<in> set kvs" "follow r" "2 * length (show_json (snd kv)) \<le> n" for kv n r
    using JObj.IH [of kv "snd kv" r n] JObj.prems(1) that by (cases kv) (auto simp: list_all_iff)
  show ?case
  proof (cases "kvs = []")
    case True
    then show ?thesis by (simp add: object skip_space_def is_json_space_def quote_def)
  next
    case False
    have "read_members n (join_comma (map show_member kvs) @ CHR ''}'' # r) = Some (kvs, r)"
      using JObj.prems(3) by (intro members_back [OF each False]) (simp_all add: object)
    moreover obtain t where ct: "join_comma (map show_member kvs) = quote # t" using join_member_hd [OF False] by blast
    ultimately have members: "read_members n (quote # t @ CHR ''}'' # r) = Some (kvs, r)" by simp
    have shown: "show_json (JObj kvs) @ r = CHR ''{'' # quote # t @ CHR ''}'' # r" by (simp add: object ct)
    have "skip_space (quote # t @ CHR ''}'' # r) = quote # t @ CHR ''}'' # r" by (simp add: skip_space_def is_json_space_def quote_def)
    then show ?thesis unfolding shown using members by (simp add: quote_def)
  qed
qed (auto simp: null bool quote_def skip_space_def is_json_space_def)

lemma loads_show: "json_readable j \<Longrightarrow> loads (show_json j) = Some j"
  using value_back [of j "[]" "2 * length (show_json j) + 1"] by (simp add: loads_def skip_space_def)

end

text \<open>Both string printers can be read back.\<close>

lemma read_hex4:
  assumes "n < 256"
  shows "read_escape (CHR ''u'' # hex4 n @ r) = Some (char_of n, r)"
proof -
  have h: "is_hex (hex_digit d) \<and> hex_any (hex_digit d) = d" if "d < 16" for d
    using that by (auto simp: hex_digit_def is_hex_def hex_any_def is_digit_def Let_def of_char_of)
  have n: "((n div 4096 mod 16 * 16 + n div 256 mod 16) * 16 + n div 16 mod 16) * 16 + n mod 16 = n" using assms by simp
  show ?thesis using h [of "n div 4096 mod 16"] h [of "n div 256 mod 16"] h [of "n div 16 mod 16"] h [of "n mod 16"] n assms
    by (simp add: hex4_def Let_def)
qed

lemma escape_back:
  assumes "esc = escape_char \<or> esc = ascii_escape"
  shows "read_string (esc c @ r) = map_option (map_prod (Cons c) id) (read_string r)"
proof -
  define n where "n = (of_char c :: nat)"
  have c: "c = char_of n" "n < 256" by (simp_all add: n_def)
  have bs: "CHR 0x5C \<noteq> quote" by (simp add: quote_def)
  have uni: "read_string (CHR 0x5C # CHR ''u'' # hex4 n @ r) = map_option (map_prod (Cons c) id) (read_string r)"
    using read_hex4 [OF c(2), of r] bs c(1) by (simp add: read_string_Cons del: read_escape.simps)
  have plain: "read_string (escape_char c @ r) = map_option (map_prod (Cons c) id) (read_string r)"
  proof -
    consider "n \<in> {8, 9, 10, 12, 13, 34, 92}" | "n < 32" "n \<notin> {8, 9, 10, 12, 13}" | "\<not> n < 32" "n \<notin> {34, 92}" by fastforce
    then show ?thesis
    proof cases
      case 1
      with c have "c \<in> char_of ` {8 :: nat, 9, 10, 12, 13, 34, 92}" by blast
      then show ?thesis
        using bs by (elim imageE insertE emptyE) (simp_all add: escape_char_def read_string_Cons char_literals Let_def)
    next
      case 2
      then have "escape_char c = CHR 0x5C # CHR ''u'' # hex4 n" by (simp add: escape_char_def Let_def n_def)
      with uni show ?thesis by simp
    next
      case 3
      then have "escape_char c = [c]" by (simp add: escape_char_def Let_def n_def)
      moreover have "c \<noteq> CHR 0x5C" "c \<noteq> quote" using 3 by (auto simp: n_def quote_def)
      ultimately show ?thesis using 3 by (simp add: read_string_Cons n_def)
    qed
  qed
  have "read_string (ascii_escape c @ r) = map_option (map_prod (Cons c) id) (read_string r)"
    using uni plain by (simp add: ascii_escape_def Let_def flip: n_def)
  with plain assms show ?thesis by auto
qed

lemma body_back:
  assumes "esc = escape_char \<or> esc = ascii_escape"
  shows "read_string (concat (map esc s) @ quote # r) = Some (s, r)"
  by (induction s) (simp_all add: escape_back [OF assms] read_string_Cons)

interpretation canonical: json_printer str_json print_json
  by unfold_locales (simp_all add: str_json_def body_back)

interpretation compact: json_printer dumps_string compact_dumps
  by unfold_locales (simp_all add: dumps_string_def body_back)

section \<open>Properties\<close>

text \<open>
  Reading is the inverse of printing, for the canonical text and for the compact ASCII text of every value whose numbers have at most 4300
  digits; and the reader's fuel is no limit: any amount above twice the length of a text gives the same result.
\<close>

theorem json_round_trip:
  assumes "json_readable j"
  shows "loads (print_json j) = Some j \<and> loads (compact_dumps j) = Some j \<and>
    (2 * length s < n \<and> 2 * length s < m \<longrightarrow> read_value n s = read_value m s)"
  using canonical.loads_show [OF assms] compact.loads_show [OF assms] read_value_enough by blast

theorem json_round_trip_witness:
  "loads (print_json (JObj [(''a'', JArr [JInt (- 12), JStr [CHR 0x22, CHR 0xE9]])])) = Some (JObj [(''a'', JArr [JInt (- 12), JStr [CHR 0x22, CHR 0xE9]])]) \<and>
   read_value 7 ''[1]'' = read_value 9 ''[1]''"
proof -
  have "json_readable (JObj [(''a'', JArr [JInt (- 12), JStr [CHR 0x22, CHR 0xE9]])])" by code_simp
  from json_round_trip [OF this, of "''[1]''" 7 9] show ?thesis by simp
qed

end
