(* ===== verification/Fleet_Registry.thy ===== *)
theory Fleet_Registry
  imports Fleet_Governance
begin

text \<open>
  The registry of the seven agents (\<^verbatim>\<open>services/agent-fleet/.../registry.py\<close>): their fixed templates, the registrations built from them for a
  tenant, and the check that keeps the registry within its bounds. The reading of a URL is an argument.
\<close>

section \<open>Templates\<close>

definition AGENT_IDS :: "string list" where
  "AGENT_IDS = [''orchestrator'', ''impact-analysis'', ''compliance'', ''crm'', ''analytics'', ''support'', ''verification'']"

record agent_definition =
  ad_display_name :: string
  ad_description :: string
  ad_capabilities :: "string list"
  ad_tools :: "string list"
  ad_resources :: "string list"
  ad_risk :: risk_level

definition agent_definitions :: "(string, agent_definition) dict" where
  "agent_definitions = [
    (''orchestrator'', \<lparr>ad_display_name = ''Orchestrator'',
      ad_description = ''Normalizes objectives and coordinates bounded specialist analysis.'',
      ad_capabilities = [''normalize-change'', ''select-specialists'', ''consolidate-findings''],
      ad_tools = [], ad_resources = [''change://tenant/{tenant_id}/*''], ad_risk = RL_HIGH\<rparr>),
    (''impact-analysis'', \<lparr>ad_display_name = ''Impact Analysis'',
      ad_description = ''Finds affected systems, dependency paths, owners, and unknowns.'',
      ad_capabilities = [''dependency-analysis'', ''schema-usage-analysis''],
      ad_tools = [''catalog.get_change_diff'', ''catalog.query_dependency_graph'', ''catalog.search_schema_usage'',
        ''catalog.get_system_metadata'', ''catalog.get_system_owners'', ''memory.search_similar_changes''],
      ad_resources = [''catalog://tenant/{tenant_id}/*'', ''memory://tenant/{tenant_id}/*''], ad_risk = RL_CRITICAL\<rparr>),
    (''compliance'', \<lparr>ad_display_name = ''Compliance'',
      ad_description = ''Recommends applicable policy while leaving enforcement deterministic.'',
      ad_capabilities = [''policy-discovery'', ''approval-recommendation''],
      ad_tools = [''policy.search'', ''policy.get_by_id'', ''catalog.get_data_classification'', ''catalog.get_environment'',
        ''catalog.get_change_window''],
      ad_resources = [''policy://tenant/{tenant_id}/*'', ''catalog://tenant/{tenant_id}/*''], ad_risk = RL_CRITICAL\<rparr>),
    (''crm'', \<lparr>ad_display_name = ''CRM'', ad_description = ''Inspects CRM mappings and proposes a bounded mapping patch.'',
      ad_capabilities = [''crm-schema-inspection'', ''crm-patch-proposal''],
      ad_tools = [''crm.inspect_schema'', ''crm.inspect_mapping'', ''crm.update_field_mapping''],
      ad_resources = [''crm://tenant/{tenant_id}/configuration/*''], ad_risk = RL_HIGH\<rparr>),
    (''analytics'', \<lparr>ad_display_name = ''Analytics'', ad_description = ''Inspects data dependencies and proposes a bounded mapping patch.'',
      ad_capabilities = [''analytics-impact-analysis'', ''analytics-patch-proposal''],
      ad_tools = [''analytics.search_field_usage'', ''analytics.inspect_pipeline'', ''analytics.inspect_dashboard_dependencies'',
        ''analytics.update_field_mapping''],
      ad_resources = [''analytics://tenant/{tenant_id}/configuration/*''], ad_risk = RL_HIGH\<rparr>),
    (''support'', \<lparr>ad_display_name = ''Support'', ad_description = ''Inspects lookup dependencies and proposes a bounded lookup patch.'',
      ad_capabilities = [''support-impact-analysis'', ''support-patch-proposal''],
      ad_tools = [''support.inspect_lookup_configuration'', ''support.inspect_form_dependencies'', ''support.update_lookup_field''],
      ad_resources = [''support://tenant/{tenant_id}/configuration/*''], ad_risk = RL_HIGH\<rparr>),
    (''verification'', \<lparr>ad_display_name = ''Verification'',
      ad_description = ''Defines read-only validation and explicit partial/failure handling.'',
      ad_capabilities = [''contract-verification'', ''cross-system-verification''],
      ad_tools = [''verify.run_contract_suite'', ''verify.run_cross_system_suite'', ''verify.query_health'',
        ''verify.compare_before_after'', ''verify.check_audit_completeness''],
      ad_resources = [''verification://tenant/{tenant_id}/*''], ad_risk = RL_CRITICAL\<rparr>)]"

text \<open>\<^verbatim>\<open>pattern.format(tenant_id=...)\<close>: a template has one placeholder.\<close>

definition tenant_resource :: "string \<Rightarrow> string \<Rightarrow> string" where
  "tenant_resource pattern tenant_id = (case rsplit_once ''{tenant_id}'' pattern of
     Some (before, after) \<Rightarrow> before @ tenant_id @ after | None \<Rightarrow> pattern)"

section \<open>Registrations\<close>

definition sandbox_budget :: agent_budget where
  "sandbox_budget = \<lparr>bu_max_model_calls = 1, bu_max_tool_calls = 0, bu_max_turns = 1, bu_timeout_seconds = 30\<rparr>"

definition registration_for ::
  "(string \<Rightarrow> string option) \<Rightarrow> string \<Rightarrow> string \<Rightarrow> instant \<Rightarrow> (string \<Rightarrow> string \<Rightarrow> fleet_error + string) option \<Rightarrow> string \<Rightarrow>
   fleet_error + agent_registration" where
  "registration_for any_url tenant_id base timestamp resolver agent_id = (case dget agent_definitions agent_id of
     None \<Rightarrow> Inl Fleet_key_error
   | Some d \<Rightarrow> (case any_url (base @ ''/v1/agents/'' @ agent_id) of
       None \<Rightarrow> Inl Fleet_value_error
     | Some endpoint \<Rightarrow> (case (case resolver of
           None \<Rightarrow> Inr (''identity://local/'' @ tenant_id @ ''/'' @ agent_id @ ''-v1'')
         | Some resolve \<Rightarrow> resolve tenant_id agent_id) of
         Inl e \<Rightarrow> Inl e
       | Inr reference \<Rightarrow> (case AgentRegistration_validate \<lparr>rg_agent_id = agent_id, rg_tenant_id = tenant_id,
             rg_display_name = ad_display_name d, rg_description = ad_description d, rg_version = ''1.0.0'',
             rg_owner = ''team://changeops-platform'', rg_capabilities = ad_capabilities d, rg_allowed_tools = ad_tools d,
             rg_allowed_resource_patterns = map (\<lambda>pattern. tenant_resource pattern tenant_id) (ad_resources d), rg_risk_ceiling = ad_risk d,
             rg_runtime_endpoint = endpoint, rg_identity_reference = reference, rg_status = Agent_ACTIVE, rg_budget = sandbox_budget,
             rg_created_at = timestamp, rg_updated_at = timestamp\<rparr> of
           None \<Rightarrow> Inl Fleet_value_error | Some registration \<Rightarrow> Inr registration))))"

definition build_registry ::
  "(string \<Rightarrow> string option) \<Rightarrow> string \<Rightarrow> string \<Rightarrow> instant \<Rightarrow> (string \<Rightarrow> string \<Rightarrow> fleet_error + string) option \<Rightarrow>
   fleet_error + agent_registration list" where
  "build_registry any_url tenant_id runtime_base_url timestamp resolver =
     collect_sums (map (registration_for any_url tenant_id (rstrip_chars ''/'' runtime_base_url) timestamp resolver) AGENT_IDS)"

definition prohibited_markers :: "string list" where
  "prohibited_markers = [''apply_'', ''restore_'', ''snapshot_'', ''shell'', ''execute_sql'', ''http_request'']"

definition assert_registry_is_bounded :: "agent_registration list \<Rightarrow> fleet_error + unit" where
  "assert_registry_is_bounded registry =
    (if map rg_agent_id registry \<noteq> AGENT_IDS then Inl Fleet_value_error
     else if rg_allowed_tools (hd registry) \<noteq> [] then Inl Fleet_value_error
     else if \<exists>registration\<in>set registry. \<exists>tool\<in>set (rg_allowed_tools registration). \<exists>marker\<in>set prohibited_markers. contains_text marker tool
     then Inl Fleet_value_error
     else Inr ())"

section \<open>Facts\<close>

lemma strip_literal: "s \<noteq> [] \<Longrightarrow> \<not> is_whitespace (hd s) \<Longrightarrow> \<not> is_whitespace (last s) \<Longrightarrow> strip s = s"
  by (rule strip_no_ws_ends)

text \<open>What every template promises, checked on the templates once.\<close>

definition template_ok :: "string \<Rightarrow> agent_definition \<Rightarrow> bool" where
  "template_ok agent_id d \<longleftrightarrow> strip agent_id = agent_id \<and> map strip (ad_tools d) = ad_tools d \<and>
     list_all (\<lambda>tool. list_all (\<lambda>marker. \<not> contains_text marker tool) prohibited_markers) (ad_tools d) \<and>
     (agent_id = ''orchestrator'' \<longrightarrow> ad_tools d = []) \<and>
     list_all (\<lambda>pattern. case rsplit_once ''{tenant_id}'' pattern of
       Some (before, after) \<Rightarrow> before \<noteq> [] \<and> \<not> is_whitespace (hd before) \<and> prefix (rev ''://tenant/'') (rev before) \<and>
         prefix ''/'' after \<and> \<not> is_whitespace (last after) | None \<Rightarrow> False) (ad_resources d)"

lemma templates_ok: "list_all (\<lambda>(agent_id, d). template_ok agent_id d) agent_definitions"
  by code_simp

lemma template_okI: "dget agent_definitions agent_id = Some d \<Longrightarrow> template_ok agent_id d"
  using templates_ok by (auto simp: list_all_iff dest: dget_mem)

text \<open>The resource pattern of a tenant: the tenant's identifier stands between the fixed prefix of the scheme and a slash.\<close>

definition tenant_pattern :: "string \<Rightarrow> string \<Rightarrow> bool" where
  "tenant_pattern tenant_id pattern \<longleftrightarrow> (\<exists>scheme rest. pattern = scheme @ ''://tenant/'' @ tenant_id @ ''/'' @ rest)"

lemma template_pattern:
  assumes "template_ok agent_id d" "pattern \<in> set (ad_resources d)"
  shows "strip (tenant_resource pattern tenant_id) = tenant_resource pattern tenant_id" "tenant_pattern tenant_id (tenant_resource pattern tenant_id)"
proof -
  from assms obtain before after where split: "rsplit_once ''{tenant_id}'' pattern = Some (before, after)" and
    ends: "before \<noteq> []" "\<not> is_whitespace (hd before)" "prefix (rev ''://tenant/'') (rev before)" "prefix ''/'' after" "\<not> is_whitespace (last after)"
    by (force simp: template_ok_def list_all_iff split: option.splits)
  obtain scheme where scheme: "before = scheme @ ''://tenant/''" using ends(3) unfolding suffix_to_prefix [symmetric] suffix_def by blast
  obtain rest where rest: "after = ''/'' @ rest" using ends(4) by (auto simp: prefix_def)
  have f: "tenant_resource pattern tenant_id = before @ tenant_id @ after" using split by (simp add: tenant_resource_def)
  show "strip (tenant_resource pattern tenant_id) = tenant_resource pattern tenant_id"
    unfolding f using ends rest by (intro strip_no_ws_ends) simp_all
  show "tenant_pattern tenant_id (tenant_resource pattern tenant_id)"
    unfolding f tenant_pattern_def using scheme rest by (intro exI [of _ scheme] exI [of _ rest]) simp
qed

lemma strip_registration_idem [simp]: "strip_registration (strip_registration r) = strip_registration r"
  by (simp add: strip_registration_def comp_def)

lemma AgentRegistration_validate_idem: "AgentRegistration_validate r = Some r' \<Longrightarrow> AgentRegistration_validate r' = Some r'"
  unfolding AgentRegistration_validate_def Let_def by (auto split: if_splits)

lemma registration_for_Inr:
  assumes "registration_for any_url tenant_id base timestamp resolver agent_id = Inr r"
  shows "rg_agent_id r = agent_id \<and> rg_tenant_id r = strip tenant_id \<and> rg_budget r = sandbox_budget \<and> rg_status r = Agent_ACTIVE \<and>
    (agent_id = ''orchestrator'' \<longrightarrow> rg_allowed_tools r = []) \<and>
    list_all (\<lambda>tool. list_all (\<lambda>marker. \<not> contains_text marker tool) prohibited_markers) (rg_allowed_tools r) \<and>
    list_all (tenant_pattern tenant_id) (rg_allowed_resource_patterns r) \<and> AgentRegistration_validate r = Some r"
proof -
  from assms obtain d reference endpoint where d: "dget agent_definitions agent_id = Some d" and
    v: "AgentRegistration_validate \<lparr>rg_agent_id = agent_id, rg_tenant_id = tenant_id,
             rg_display_name = ad_display_name d, rg_description = ad_description d, rg_version = ''1.0.0'',
             rg_owner = ''team://changeops-platform'', rg_capabilities = ad_capabilities d, rg_allowed_tools = ad_tools d,
             rg_allowed_resource_patterns = map (\<lambda>pattern. tenant_resource pattern tenant_id) (ad_resources d), rg_risk_ceiling = ad_risk d,
             rg_runtime_endpoint = endpoint, rg_identity_reference = reference, rg_status = Agent_ACTIVE, rg_budget = sandbox_budget,
             rg_created_at = timestamp, rg_updated_at = timestamp\<rparr> = Some r"
    unfolding registration_for_def by (auto split: option.splits sum.splits)
  have t: "template_ok agent_id d" by (rule template_okI [OF d])
  have p: "map strip (map (\<lambda>pattern. tenant_resource pattern tenant_id) (ad_resources d)) = map (\<lambda>pattern. tenant_resource pattern tenant_id) (ad_resources d)"
    using template_pattern(1) [OF t] by simp
  have q: "list_all (tenant_pattern tenant_id) (map (\<lambda>pattern. tenant_resource pattern tenant_id) (ad_resources d))"
    using template_pattern(2) [OF t] by (simp add: list_all_iff)
  have r: "rg_agent_id r = strip agent_id" "rg_tenant_id r = strip tenant_id" "rg_budget r = sandbox_budget" "rg_status r = Agent_ACTIVE"
    "rg_allowed_tools r = map strip (ad_tools d)"
    "rg_allowed_resource_patterns r = map strip (map (\<lambda>pattern. tenant_resource pattern tenant_id) (ad_resources d))"
    using v unfolding AgentRegistration_validate_def Let_def strip_registration_def by (auto split: if_splits)
  show ?thesis using t q AgentRegistration_validate_idem [OF v] unfolding r p template_ok_def by auto
qed

lemma build_registry_Inr:
  assumes "build_registry any_url tenant_id base timestamp resolver = Inr registry"
  shows "map rg_agent_id registry = AGENT_IDS \<and> assert_registry_is_bounded registry = Inr () \<and>
    list_all (\<lambda>r. rg_tenant_id r = strip tenant_id \<and> rg_budget r = sandbox_budget \<and> rg_status r = Agent_ACTIVE \<and>
      list_all (\<lambda>tool. list_all (\<lambda>marker. \<not> contains_text marker tool) prohibited_markers) (rg_allowed_tools r) \<and>
      list_all (tenant_pattern tenant_id) (rg_allowed_resource_patterns r)) registry"
proof -
  let ?f = "registration_for any_url tenant_id (rstrip_chars ''/'' base) timestamp resolver"
  have rs: "map ?f AGENT_IDS = map Inr registry" using assms by (auto simp: build_registry_def dest: collect_sums_Inr)
  then have all: "list_all2 (\<lambda>a r. ?f a = Inr r) AGENT_IDS registry"
    by (simp add: list_eq_iff_nth_eq list_all2_conv_all_nth)
  then have len: "length AGENT_IDS = length registry" by (rule list_all2_lengthD)
  have each: "?f (rg_agent_id r) = Inr r" "rg_agent_id r \<in> set AGENT_IDS" if "r \<in> set registry" for r
  proof -
    from that obtain i where i: "i < length registry" "registry ! i = r" by (auto simp: in_set_conv_nth)
    with all have a: "?f (AGENT_IDS ! i) = Inr r" by (auto simp: list_all2_conv_all_nth)
    with registration_for_Inr [OF a] show "?f (rg_agent_id r) = Inr r" by simp
    from registration_for_Inr [OF a] i len show "rg_agent_id r \<in> set AGENT_IDS" by simp
  qed
  have ids: "map rg_agent_id registry = AGENT_IDS"
    using all by (intro nth_equalityI) (auto simp: list_all2_conv_all_nth dest!: registration_for_Inr)
  have "registry \<noteq> []" using ids by (auto simp: AGENT_IDS_def)
  then have "hd registry \<in> set registry" "rg_agent_id (hd registry) = ''orchestrator''"
    using ids by (auto simp: AGENT_IDS_def neq_Nil_conv)
  then have "rg_allowed_tools (hd registry) = []" using each(1) [THEN registration_for_Inr] by metis
  moreover have "list_all (\<lambda>r. rg_tenant_id r = strip tenant_id \<and> rg_budget r = sandbox_budget \<and> rg_status r = Agent_ACTIVE \<and>
      list_all (\<lambda>tool. list_all (\<lambda>marker. \<not> contains_text marker tool) prohibited_markers) (rg_allowed_tools r) \<and>
      list_all (tenant_pattern tenant_id) (rg_allowed_resource_patterns r)) registry"
    unfolding list_all_iff [of _ registry] using each(1) [THEN registration_for_Inr] by blast
  ultimately show ?thesis using ids by (auto simp: assert_registry_is_bounded_def list_all_iff)
qed

end
