(* ===== verification/Fleet_Paths.thy ===== *)
theory Fleet_Paths
  imports Prelude
begin

text \<open>
  The dependency search of the agent fleet (\<^verbatim>\<open>_dependency_paths\<close> in \<^verbatim>\<open>services/agent-fleet/.../fleet.py\<close>): a breadth-first search over the
  managed dependency graph that collects the simple paths from the changed system to systems nothing depends on. The loop ends for every
  graph, cyclic ones included; the paths it returns are exactly the simple paths to a leaf; and on an acyclic graph the systems on them are
  exactly the systems reachable from the changed one.
\<close>

section \<open>The search\<close>

type_synonym graph = "(string, string list) dict"

definition children :: "graph \<Rightarrow> string \<Rightarrow> string list" where
  "children g x = dget_or g x []"

text \<open>All targets of the graph, and one more than the number of its edges.\<close>

definition targets :: "graph \<Rightarrow> string set" where
  "targets g = \<Union> (set ` snd ` set g)"

definition breadth :: "graph \<Rightarrow> nat" where
  "breadth g = Suc (sum_list (map (length \<circ> snd) g))"

lemma finite_targets [simp]: "finite (targets g)"
  by (auto simp: targets_def)

lemma children_targets: "set (children g x) \<subseteq> targets g"
  by (cases "dget g x") (force simp: children_def dget_or_def targets_def dest: dget_mem)+

lemma children_breadth: "length (children g x) < breadth g"
proof (cases "dget g x")
  case (Some ys)
  then have "length ys \<in> set (map (length \<circ> snd) g)" using dget_mem [OF Some] by force
  then have "length ys \<le> sum_list (map (length \<circ> snd) g)" by (rule member_le_sum_list) simp
  with Some show ?thesis by (simp add: children_def dget_or_def breadth_def)
qed (simp add: children_def dget_or_def breadth_def)

definition extensions :: "graph \<Rightarrow> string list \<Rightarrow> string list list" where
  "extensions g path = map (\<lambda>child. path @ [child]) (filter (\<lambda>child. child \<notin> set path) (children g (last path)))"

text \<open>A path weighs more than all its extensions: each of them has one target fewer left, and there are fewer of them than the breadth.\<close>

definition weight :: "graph \<Rightarrow> string list \<Rightarrow> nat" where
  "weight g path = breadth g ^ card (targets g - set path)"

lemma weight_extension:
  assumes "p' \<in> set (extensions g p)"
  shows "breadth g * weight g p' = weight g p"
proof -
  from assms obtain c where c: "p' = p @ [c]" "c \<in> set (children g (last p))" "c \<notin> set p" by (auto simp: extensions_def)
  then have "c \<in> targets g - set p" using children_targets by blast
  moreover have "targets g - set p' = (targets g - set p) - {c}" using c by auto
  ultimately have "card (targets g - set p) = Suc (card (targets g - set p'))" by (metis card.remove finite_Diff finite_targets)
  then show ?thesis by (simp add: weight_def)
qed

lemma weight_extensions: "sum_list (map (weight g) (extensions g p)) < weight g p"
proof (cases "extensions g p")
  case Nil
  then show ?thesis by (simp add: weight_def breadth_def)
next
  case (Cons p' ps)
  have pos: "0 < weight g p'" by (simp add: weight_def breadth_def)
  have "weight g q = weight g p'" if "q \<in> set (extensions g p)" for q
  proof -
    have "breadth g * weight g q = breadth g * weight g p'"
      using weight_extension [OF that] weight_extension [of p' g p] Cons by simp
    then show ?thesis by (simp add: breadth_def del: mult_Suc)
  qed
  then have "map (weight g) (extensions g p) = replicate (length (extensions g p)) (weight g p')"
    by (simp add: map_replicate_const [symmetric])
  then have "sum_list (map (weight g) (extensions g p)) = length (extensions g p) * weight g p'" by (simp add: sum_list_replicate)
  also have "length (extensions g p) < breadth g"
    using children_breadth [of g "last p"] length_filter_le order_le_less_trans unfolding extensions_def length_map by blast
  then have "length (extensions g p) * weight g p' < breadth g * weight g p'" using pos by simp
  also have "\<dots> = weight g p" using weight_extension Cons by simp
  finally show ?thesis .
qed

function paths_loop :: "graph \<Rightarrow> string list list \<Rightarrow> string list list" where
  "paths_loop g [] = []"
| "paths_loop g (path # queue) =
    (if children g (last path) = [] \<and> 1 < length path then [path] else []) @ paths_loop g (queue @ extensions g path)"
  by pat_completeness auto

termination
  by (relation "measure (\<lambda>(g, queue). sum_list (map (weight g) queue))") (simp_all add: weight_extensions)

definition dependency_paths :: "string \<Rightarrow> graph \<Rightarrow> string list list" where
  "dependency_paths source g = paths_loop g [[source]]"

text \<open>\<^verbatim>\<open>dict.fromkeys\<close>: the elements in the order of their first occurrence.\<close>

definition first_occurrences :: "'a list \<Rightarrow> 'a list" where
  "first_occurrences xs = rev (remdups (rev xs))"

lemma set_first_occurrences [simp]: "set (first_occurrences xs) = set xs"
  by (simp add: first_occurrences_def)

lemma distinct_first_occurrences [simp]: "distinct (first_occurrences xs)"
  by (simp add: first_occurrences_def)

definition affected_systems :: "string \<Rightarrow> graph \<Rightarrow> string list" where
  "affected_systems source g = (let nodes = first_occurrences (concat (dependency_paths source g)) in
     if nodes = [] then [source] else nodes)"

section \<open>What the search returns\<close>

fun chain :: "graph \<Rightarrow> string \<Rightarrow> string list \<Rightarrow> bool" where
  "chain g x [] \<longleftrightarrow> True"
| "chain g x (y # ys) \<longleftrightarrow> y \<in> set (children g x) \<and> chain g y ys"

text \<open>A simple path from the source that cannot be continued.\<close>

definition leaf_path :: "string \<Rightarrow> graph \<Rightarrow> string list \<Rightarrow> bool" where
  "leaf_path source g p \<longleftrightarrow> (\<exists>ys. p = source # ys \<and> ys \<noteq> [] \<and> chain g source ys \<and> distinct p \<and> children g (last p) = [])"

definition continues :: "graph \<Rightarrow> string list \<Rightarrow> string list \<Rightarrow> bool" where
  "continues g p p' \<longleftrightarrow> (\<exists>ys. p' = p @ ys \<and> chain g (last p) ys \<and> distinct ys \<and> set ys \<inter> set p = {})"

lemma continues_step:
  "continues g p p' \<longleftrightarrow> p' = p \<or> (\<exists>q\<in>set (extensions g p). continues g q p')"
proof
  assume "continues g p p'"
  then obtain ys where ys: "p' = p @ ys" "chain g (last p) ys" "distinct ys" "set ys \<inter> set p = {}" by (auto simp: continues_def)
  show "p' = p \<or> (\<exists>q\<in>set (extensions g p). continues g q p')"
  proof (cases ys)
    case (Cons c zs)
    with ys have "p @ [c] \<in> set (extensions g p)" "continues g (p @ [c]) p'" by (auto simp: extensions_def continues_def)
    then show ?thesis by blast
  qed (use ys in simp)
next
  assume "p' = p \<or> (\<exists>q\<in>set (extensions g p). continues g q p')"
  then show "continues g p p'"
  proof
    assume "\<exists>q\<in>set (extensions g p). continues g q p'"
    then obtain c ys where "c \<in> set (children g (last p))" "c \<notin> set p" "p' = (p @ [c]) @ ys" "chain g c ys" "distinct ys"
      "set ys \<inter> set (p @ [c]) = {}" by (auto simp: extensions_def continues_def)
    then show ?thesis unfolding continues_def by (intro exI [of _ "c # ys"]) auto
  qed (simp add: continues_def)
qed

lemma paths_loop_exact:
  "p' \<in> set (paths_loop g queue) \<longleftrightarrow> (\<exists>p\<in>set queue. continues g p p') \<and> children g (last p') = [] \<and> 1 < length p'"
proof (induction g queue rule: paths_loop.induct)
  case (2 g path queue)
  have leaf: "extensions g path = []" if "children g (last path) = []" using that by (simp add: extensions_def)
  from 2 show ?case using continues_step [of g path p'] leaf by auto
qed simp

lemma dependency_paths_exact: "p \<in> set (dependency_paths source g) \<longleftrightarrow> leaf_path source g p"
  unfolding dependency_paths_def paths_loop_exact by (auto simp: continues_def leaf_path_def)

section \<open>Reachable systems\<close>

definition edges :: "graph \<Rightarrow> (string \<times> string) set" where
  "edges g = {(x, y). y \<in> set (children g x)}"

lemma finite_edges: "finite (edges g)"
proof -
  have "x \<in> fst ` set g" if "y \<in> set (children g x)" for x y
    using that by (cases "dget g x") (force simp: children_def dget_or_def dest: dget_mem)+
  then have "edges g \<subseteq> fst ` set g \<times> targets g" by (auto simp: edges_def dest: subsetD [OF children_targets])
  then show ?thesis by (rule finite_subset) simp
qed

lemma chain_append: "chain g x (ys @ zs) \<longleftrightarrow> chain g x ys \<and> chain g (last (x # ys)) zs"
  by (induction ys arbitrary: x) auto

lemma chain_trancl: "chain g x ys \<Longrightarrow> y \<in> set ys \<Longrightarrow> (x, y) \<in> (edges g)\<^sup>+"
proof (induction ys arbitrary: x)
  case (Cons z ys)
  then have "(x, z) \<in> edges g" by (simp add: edges_def)
  with Cons show ?case by (auto intro: trancl_into_trancl2)
qed simp

lemma rtrancl_chain: "(x, y) \<in> (edges g)\<^sup>* \<Longrightarrow> \<exists>ys. chain g x ys \<and> last (x # ys) = y"
proof (induction rule: rtrancl_induct)
  case base
  then show ?case by (intro exI [of _ "[]"]) simp
next
  case (step y z)
  then obtain ys where "chain g x ys" "last (x # ys) = y" by blast
  with step(2) show ?case by (intro exI [of _ "ys @ [z]"]) (auto simp: chain_append edges_def)
qed

lemma chain_simple: "acyclic (edges g) \<Longrightarrow> chain g x ys \<Longrightarrow> distinct (x # ys)"
proof (induction ys arbitrary: x)
  case (Cons y ys)
  then have "distinct (y # ys)" by auto
  moreover have "x \<notin> set (y # ys)" using chain_trancl [OF Cons.prems(2), of x] Cons.prems(1) by (auto simp: acyclic_def)
  ultimately show ?case by simp
qed simp

lemma chain_to_leaf:
  assumes "acyclic (edges g)"
  shows "\<exists>ys. chain g x ys \<and> children g (last (x # ys)) = []"
proof (induction x rule: wf_induct [OF finite_acyclic_wf_converse [OF finite_edges assms]])
  case (1 x)
  show ?case
  proof (cases "children g x")
    case Nil
    then show ?thesis by (intro exI [of _ "[]"]) simp
  next
    case (Cons y ys)
    then have "(x, y) \<in> edges g" by (simp add: edges_def)
    with 1 obtain zs where "chain g y zs" "children g (last (y # zs)) = []" by auto
    with Cons show ?thesis by (intro exI [of _ "y # zs"]) simp
  qed
qed

lemma affected_sound: "set (affected_systems source g) \<subseteq> {y. (source, y) \<in> (edges g)\<^sup>*}"
proof
  fix y assume "y \<in> set (affected_systems source g)"
  then have "y = source \<or> (\<exists>p. leaf_path source g p \<and> y \<in> set p)"
    by (auto simp: affected_systems_def Let_def dependency_paths_exact split: if_splits)
  then show "y \<in> {y. (source, y) \<in> (edges g)\<^sup>*}"
    by (auto simp: leaf_path_def dest: chain_trancl intro: trancl_into_rtrancl)
qed

lemma affected_complete:
  assumes "acyclic (edges g)"
  shows "{y. (source, y) \<in> (edges g)\<^sup>*} \<subseteq> set (affected_systems source g)"
proof
  fix y assume "y \<in> {y. (source, y) \<in> (edges g)\<^sup>*}"
  then obtain xs where xs: "chain g source xs" "last (source # xs) = y" using rtrancl_chain by blast
  obtain ys where ys: "chain g y ys" "children g (last (y # ys)) = []" using chain_to_leaf [OF assms] by blast
  have c: "chain g source (xs @ ys)" using xs ys by (simp add: chain_append)
  show "y \<in> set (affected_systems source g)"
  proof (cases "xs @ ys = []")
    case True
    then have "y = source" "children g source = []" using xs ys by auto
    moreover have "\<not> leaf_path source g p" for p
      using \<open>children g source = []\<close> by (auto simp: leaf_path_def neq_Nil_conv)
    then have "dependency_paths source g = []" using dependency_paths_exact by (metis list.set_intros(1) neq_Nil_conv)
    ultimately show ?thesis by (simp add: affected_systems_def first_occurrences_def)
  next
    case False
    have "last (source # xs @ ys) = last (y # ys)" using xs by (cases ys) auto
    with False c ys chain_simple [OF assms c] have "leaf_path source g (source # xs @ ys)" by (simp add: leaf_path_def)
    then have "source # xs @ ys \<in> set (dependency_paths source g)" by (simp add: dependency_paths_exact)
    moreover have "y \<in> set (source # xs @ ys)" using xs(2) last_in_set [of "source # xs"] by auto
    ultimately have "y \<in> set (first_occurrences (concat (dependency_paths source g)))"
      unfolding set_first_occurrences set_concat by (rule UN_I)
    then show ?thesis by (metis affected_systems_def empty_iff empty_set)
  qed
qed

section \<open>Properties\<close>

text \<open>
  The dependency search is exact for every graph, cyclic or not: it returns precisely the paths that start at the changed system, follow
  managed dependencies, repeat no system and end in a system without further dependencies.
\<close>

theorem dependency_search_exact:
  "set (dependency_paths source g) = {p. leaf_path source g p}"
  using dependency_paths_exact by blast

text \<open>
  C28. Impact analysis is complete on acyclic dependency graphs: the affected systems are then exactly those reachable from the changed system
  over managed dependencies, each named once, and whatever the graph no unreachable system is named.
\<close>

theorem impact_complete:
  "set (affected_systems source g) \<subseteq> {y. (source, y) \<in> (edges g)\<^sup>*} \<and> distinct (affected_systems source g) \<and>
   (acyclic (edges g) \<longrightarrow> set (affected_systems source g) = {y. (source, y) \<in> (edges g)\<^sup>*})"
  using affected_sound [of source g] affected_complete [of g source] by (auto simp: affected_systems_def Let_def)

definition sample_graph :: graph where
  "sample_graph = [(''api'', [''crm'', ''analytics'']), (''crm'', [''support''])]"

lemma sample_edges: "edges sample_graph = {(''api'', ''crm''), (''api'', ''analytics''), (''crm'', ''support'')}"
proof -
  have "children sample_graph x = (if x = ''api'' then [''crm'', ''analytics''] else if x = ''crm'' then [''support''] else [])" for x
    by (simp add: children_def dget_or_def sample_graph_def dget_Cons)
  then show ?thesis by (auto simp: edges_def split: if_splits)
qed

theorem impact_complete_witness:
  "set (affected_systems ''api'' sample_graph) = {y. (''api'', y) \<in> (edges sample_graph)\<^sup>*}"
proof -
  have "converse (edges sample_graph) \<subseteq> measure (\<lambda>x. if x = ''api'' then 2 else if x = ''crm'' then 1 else 0 :: nat)"
    by (auto simp: sample_edges)
  then have "wf (converse (edges sample_graph))" by (rule wf_subset [OF wf_measure])
  then have "acyclic (edges sample_graph)" using wf_acyclic acyclic_converse by blast
  with impact_complete [of "''api''" sample_graph] show ?thesis by blast
qed

text \<open>
  A system that is reachable only through a cycle is not named: with two systems that depend on each other the search finds no leaf and only
  the changed system is reported.
\<close>

theorem cycle_hides_system:
  "affected_systems ''api'' [(''api'', [''crm'']), (''crm'', [''api''])] = [''api''] \<and>
   (''api'', ''crm'') \<in> (edges [(''api'', [''crm'']), (''crm'', [''api''])])\<^sup>*"
proof
  show "affected_systems ''api'' [(''api'', [''crm'']), (''crm'', [''api''])] = [''api'']" by code_simp
  show "(''api'', ''crm'') \<in> (edges [(''api'', [''crm'']), (''crm'', [''api''])])\<^sup>*"
    by (rule r_into_rtrancl) (simp add: edges_def children_def dget_or_def dget_Cons)
qed

end
