(* ===== verification/Uuid5.thy ===== *)
theory Uuid5
  imports Hmac
begin

text \<open>
  Name-based identifiers of the standard library: \<^verbatim>\<open>uuid.uuid5(NAMESPACE_URL, name).hex\<close>, which is SHA-1 over the namespace and the UTF-8 name
  with the version and variant bits set. Padding and the reading of words are those of SHA-256.
\<close>

type_synonym sha1_state = "w32 \<times> w32 \<times> w32 \<times> w32 \<times> w32"

definition sha1_init :: sha1_state where
  "sha1_init = (0x67452301, 0xEFCDAB89, 0x98BADCFE, 0x10325476, 0xC3D2E1F0)"

definition sha1_constant :: "nat \<Rightarrow> w32" where
  "sha1_constant t = (if t < 20 then 0x5A827999 else if t < 40 then 0x6ED9EBA1 else if t < 60 then 0x8F1BBCDC else 0xCA62C1D6)"

definition sha1_function :: "nat \<Rightarrow> w32 \<Rightarrow> w32 \<Rightarrow> w32 \<Rightarrow> w32" where
  "sha1_function t b c d = (if t < 20 then (b AND c) OR (NOT b AND d)
     else if t < 40 then b XOR c XOR d
     else if t < 60 then (b AND c) OR (b AND d) OR (c AND d)
     else b XOR c XOR d)"

fun sha1_round :: "nat \<times> w32 \<Rightarrow> sha1_state \<Rightarrow> sha1_state" where
  "sha1_round (t, w) (a, b, c, d, e) =
     (word_rotl 5 a + sha1_function t b c d + e + sha1_constant t + w, a, word_rotl 30 b, c, d)"

text \<open>The schedule extends the block, the latest word first.\<close>

fun sha1_schedule :: "nat \<Rightarrow> w32 list \<Rightarrow> w32 list" where
  "sha1_schedule 0 ws = rev ws"
| "sha1_schedule (Suc n) ws = sha1_schedule n (word_rotl 1 (ws ! 2 XOR ws ! 7 XOR ws ! 13 XOR ws ! 15) # ws)"

fun sha1_add :: "sha1_state \<Rightarrow> sha1_state \<Rightarrow> sha1_state" where
  "sha1_add (a, b, c, d, e) (a', b', c', d', e') = (a + a', b + b', c + c', d + d', e + e')"

definition sha1_compress :: "w32 list \<Rightarrow> sha1_state \<Rightarrow> sha1_state" where
  "sha1_compress block s = sha1_add s (fold sha1_round (zip [0..<80] (sha1_schedule 64 (rev block))) s)"

fun sha1_blocks :: "w32 list \<Rightarrow> sha1_state \<Rightarrow> sha1_state" where
  "sha1_blocks ws s = (if length ws < 16 then s else sha1_blocks (drop 16 ws) (sha1_compress (take 16 ws) s))"

declare sha1_blocks.simps [simp del]

text \<open>\<^verbatim>\<open>hashlib.sha1(m).digest()\<close>.\<close>

definition sha1_bytes :: "byte list \<Rightarrow> byte list" where
  "sha1_bytes m = (case sha1_blocks (sha_words (sha_pad m)) sha1_init of (a, b, c, d, e) \<Rightarrow> concat (map word_bytes [a, b, c, d, e]))"

definition namespace_url :: "byte list" where
  "namespace_url = [0x6B, 0xA7, 0xB8, 0x11, 0x9D, 0xAD, 0x11, 0xD1, 0x80, 0xB4, 0x00, 0xC0, 0x4F, 0xD4, 0x30, 0xC8]"

text \<open>The first sixteen bytes, with version 5 in byte 6 and the RFC 4122 variant in byte 8.\<close>

definition uuid5_hex :: "string \<Rightarrow> string" where
  "uuid5_hex name = (let h = take 16 (sha1_bytes (namespace_url @ utf8_encode name)) in
     concat (map byte_hex (h[6 := 0x50 + h ! 6 mod 16, 8 := 0x80 + h ! 8 mod 64])))"

lemma sha1_bytes_length [simp]: "length (sha1_bytes m) = 20"
  by (simp add: sha1_bytes_def split: prod.split)

lemma length_concat_byte_hex: "length (concat (map byte_hex bs)) = 2 * length bs"
  by (induction bs) (simp_all add: byte_hex_def)

lemma uuid5_hex_length [simp]: "length (uuid5_hex name) = 32"
  by (simp add: uuid5_hex_def Let_def length_concat_byte_hex)

lemma uuid5_hex_lower: "c \<in> set (uuid5_hex name) \<Longrightarrow> is_lower_hex c"
  by (auto simp: uuid5_hex_def Let_def byte_hex_def intro!: is_lower_hex_hex_digit)

end
