(* ===== verification/Agent_Fleet.thy ===== *)
theory Agent_Fleet
  imports Fleet_Registry Fleet_Paths Uuid5
begin

text \<open>
  The agent fleet (\<^verbatim>\<open>services/agent-fleet/.../fleet.py\<close>, \<^verbatim>\<open>models.py\<close> and \<^verbatim>\<open>app.py\<close>): the outputs derived from evidence, the draft plan built
  from the proposals, the tracing of invocations, the analysis and its HTTP boundary. The agent runtime (Google ADK), the reading of its
  session values by Pydantic and the hash of an output, which has a floating-point field, are arguments.
\<close>

section \<open>Python texts of JSON values\<close>

fun py_repr :: "json \<Rightarrow> string" where
  "py_repr JNull = ''None''"
| "py_repr (JBool b) = (if b then ''True'' else ''False'')"
| "py_repr (JInt i) = int_str i"
| "py_repr (JStr s) = repr_string s"
| "py_repr (JArr xs) = ''['' @ join_with '', '' (map py_repr xs) @ '']''"
| "py_repr (JObj kvs) = ''{'' @ join_with '', '' (map (\<lambda>kv. repr_string (fst kv) @ '': '' @ py_repr (snd kv)) kvs) @ ''}''"

definition py_str :: "json \<Rightarrow> string" where
  "py_str j = (case j of JStr s \<Rightarrow> s | _ \<Rightarrow> py_repr j)"

section \<open>Results that may fail\<close>

definition sbind :: "'e + 'a \<Rightarrow> ('a \<Rightarrow> 'e + 'b) \<Rightarrow> 'e + 'b" where
  "sbind m f = (case m of Inl e \<Rightarrow> Inl e | Inr x \<Rightarrow> f x)"

definition required :: "'e \<Rightarrow> 'a option \<Rightarrow> 'e + 'a" where
  "required e x = (case x of None \<Rightarrow> Inl e | Some y \<Rightarrow> Inr y)"

lemma sbind_simps [simp]: "sbind (Inl e) f = Inl e" "sbind (Inr x) f = f x"
  by (simp_all add: sbind_def)

lemma sbind_Inr_iff: "sbind m f = Inr y \<longleftrightarrow> (\<exists>x. m = Inr x \<and> f x = Inr y)"
  by (cases m) simp_all

lemma required_Inr_iff: "required e x = Inr y \<longleftrightarrow> x = Some y"
  by (cases x) (simp_all add: required_def)

section \<open>Outputs derived from evidence\<close>

record fleet_outputs =
  fo_orchestrator :: orchestration_directive
  fo_impact_analysis :: impact_analysis
  fo_compliance :: compliance_analysis
  fo_crm :: remediation_proposal
  fo_analytics :: remediation_proposal
  fo_support :: remediation_proposal
  fo_verification :: verification_proposal

definition required_string :: "json \<Rightarrow> fleet_error + string" where
  "required_string value = (case value of JStr s \<Rightarrow> if s = [] then Inl Fleet_value_error else Inr s | _ \<Rightarrow> Inl Fleet_value_error)"

definition required_string_tuple :: "json \<Rightarrow> fleet_error + string list" where
  "required_string_tuple value = (case value of
     JArr xs \<Rightarrow> collect_sums (map (\<lambda>x. case x of JStr s \<Rightarrow> Inr s | _ \<Rightarrow> Inl Fleet_value_error) xs)
   | _ \<Rightarrow> Inl Fleet_value_error)"

text \<open>\<^verbatim>\<open>attributes[key]\<close>.\<close>

definition attribute :: "evidence_item \<Rightarrow> string \<Rightarrow> fleet_error + json" where
  "attribute item key = required Fleet_key_error (jget (ei_attributes item) key)"

text \<open>The edges a catalog lists, and the graph of the managed ones.\<close>

definition catalog_edges :: "evidence_item \<Rightarrow> (string \<times> json) list list" where
  "catalog_edges item = (case jget (ei_attributes item) ''items'' of
     Some (JArr raw_edges) \<Rightarrow> List.map_filter (\<lambda>e. case e of JObj kvs \<Rightarrow> Some kvs | _ \<Rightarrow> None) raw_edges
   | _ \<Rightarrow> [])"

definition edge_end :: "(string \<times> json) list \<Rightarrow> string \<Rightarrow> fleet_error + string" where
  "edge_end edge key = sbind (required Fleet_key_error (jget edge key)) (\<lambda>v. Inr (py_str v))"

definition is_managed :: "bool \<Rightarrow> (string \<times> json) list \<Rightarrow> bool" where
  "is_managed b edge \<longleftrightarrow> jget edge ''managed'' = Some (JBool b)"

definition managed_pairs :: "(string \<times> json) list list \<Rightarrow> fleet_error + (string \<times> string) list" where
  "managed_pairs edge_list = collect_sums (map (\<lambda>edge.
     sbind (edge_end edge ''source'') (\<lambda>source. sbind (edge_end edge ''target'') (\<lambda>target. Inr (source, target)))) (filter (is_managed True) edge_list))"

definition dependency_graph :: "(string \<times> string) list \<Rightarrow> graph" where
  "dependency_graph pairs = foldl (\<lambda>g (source, target). dput source (dget_or g source [] @ [target]) g) [] pairs"

definition unmanaged_targets :: "(string \<times> json) list list \<Rightarrow> fleet_error + string list" where
  "unmanaged_targets edge_list = collect_sums (map (\<lambda>edge. edge_end edge ''target'') (filter (is_managed False) edge_list))"

definition compliance_output :: "fleet_request \<Rightarrow> evidence_item \<Rightarrow> fleet_error + compliance_analysis" where
  "compliance_output request item =
     sbind (sbind (attribute item ''policy_id'') required_string) (\<lambda>policy_id.
     sbind (sbind (attribute item ''required_approvals'') required_string_tuple) (\<lambda>approvals.
     sbind (sbind (attribute item ''required_evidence'') required_string_tuple) (\<lambda>needed.
     sbind (sbind (attribute item ''forbidden_actions'') required_string_tuple) (\<lambda>forbidden.
     sbind (sbind (attribute item ''retention_requirements'') required_string_tuple) (\<lambda>retention.
     required Fleet_value_error (ComplianceAnalysis_validate \<lparr>cp_tenant_id = ev_tenant_id (fr_event request), cp_change_id = fr_change_id request,
       cp_applicable_policy_ids = [policy_id], cp_required_approvals = approvals, cp_required_evidence = needed,
       cp_forbidden_actions = forbidden, cp_retention_requirements = retention,
       cp_missing_policy_data = [''tenant-specific change window is not yet available''],
       cp_evidence_refs = [ei_evidence_id item], cp_confidence = 87 / 100\<rparr>))))))"

definition orchestrator_output :: "fleet_request \<Rightarrow> string \<Rightarrow> string \<Rightarrow> string list \<Rightarrow> string list \<Rightarrow> fleet_error + orchestration_directive" where
  "orchestrator_output request old_field new_field impact_refs unmanaged =
     required Fleet_value_error (OrchestrationDirective_validate \<lparr>od_tenant_id = ev_tenant_id (fr_event request), od_change_id = fr_change_id request,
       od_normalized_objective = ''Assess and propose sandbox-safe migration from '' @ old_field @ '' to '' @ new_field @ '' across managed dependencies.'',
       od_selected_agent_ids = filter (\<lambda>a. a \<noteq> ''orchestrator'') AGENT_IDS, od_evidence_refs = impact_refs, od_confidence = 96 / 100,
       od_unknowns = map (\<lambda>target. ''Unmanaged dependency '' @ target @ '' requires owner-led follow-up.'') unmanaged\<rparr>)"

definition dependency_path_of :: "string list \<Rightarrow> fleet_error + dependency_path" where
  "dependency_path_of path = (let d = strip_dependency_path \<lparr>dp_systems = path, dp_evidence_refs = [''catalog-dependencies'']\<rparr> in
     if dependency_path_ok d then Inr d else Inl Fleet_value_error)"

definition impact_output ::
  "fleet_request \<Rightarrow> graph \<Rightarrow> string list \<Rightarrow> string list \<Rightarrow> string list \<Rightarrow> (string, evidence_item) dict \<Rightarrow> fleet_error + impact_analysis" where
  "impact_output request g impact_refs memory_refs unmanaged by_id =
    (let source = sub_system_id (ev_subject (fr_event request)) in
     sbind (collect_sums (map dependency_path_of (dependency_paths source g))) (\<lambda>dep_paths.
     sbind (required Fleet_key_error (dget by_id ''catalog-contract'')) (\<lambda>contract.
     required Fleet_value_error (ImpactAnalysis_validate \<lparr>im_tenant_id = ev_tenant_id (fr_event request), im_change_id = fr_change_id request,
       im_affected_systems = affected_systems source g, im_dependency_paths = dep_paths, im_severity = RL_HIGH, im_confidence = 95 / 100,
       im_evidence_refs = impact_refs,
       im_owner_refs = [case jget (ei_attributes contract) ''owner'' of Some owner \<Rightarrow> py_str owner | None \<Rightarrow> ''owner://unknown''],
       im_unknowns = map (\<lambda>target. ''The unmanaged '' @ target @ '' impact is not automatically remediable.'') unmanaged @
         map (\<lambda>_. ''Historical incident memory must be corroborated against current platform evidence.'') (take 1 memory_refs)\<rparr>))))"

text \<open>A proposal of \<^verbatim>\<open>proposal_specs\<close>: agent, tool and the configuration it reads.\<close>

definition proposal_output ::
  "fleet_request \<Rightarrow> (string, evidence_item) dict \<Rightarrow> string \<Rightarrow> string \<Rightarrow> string \<times> string \<times> string \<Rightarrow> fleet_error + remediation_proposal" where
  "proposal_output request by_id old_field new_field spec = (case spec of (agent_id, tool, configuration_ref) \<Rightarrow>
     sbind (required Fleet_key_error (dget by_id configuration_ref)) (\<lambda>item.
     sbind (sbind (attribute item ''system_id'') required_string) (\<lambda>target.
     required Fleet_value_error (RemediationProposal_validate \<lparr>
       pp_proposal_id = ''proposal_'' @ agent_id @ ''_'' @ take 12 (uuid5_hex (fr_change_id request)),
       pp_tenant_id = ev_tenant_id (fr_event request), pp_change_id = fr_change_id request, pp_agent_id = agent_id, pp_target_system = target,
       pp_summary = ''Propose changing '' @ target @ '' from '' @ old_field @ '' to '' @ new_field @ ''.'', pp_proposed_tool = tool,
       pp_target_resource = agent_id @ ''://tenant/'' @ ev_tenant_id (fr_event request) @ ''/configuration/'' @ target,
       pp_proposed_arguments = [(''old_field'', JStr old_field), (''new_field'', JStr new_field)],
       pp_validation_actions = [''validate '' @ target @ '' against '' @ new_field],
       pp_rollback_actions = [''restore '' @ target @ '' mapping to '' @ old_field],
       pp_risk_level = RL_HIGH, pp_requires_approval = True, pp_confidence = 94 / 100,
       pp_evidence_refs = [configuration_ref, ''catalog-dependencies''], pp_unknowns = []\<rparr>))))"

definition crm_spec :: "string \<times> string \<times> string" where
  "crm_spec = (''crm'', ''crm.update_field_mapping'', ''crm-configuration'')"

definition analytics_spec :: "string \<times> string \<times> string" where
  "analytics_spec = (''analytics'', ''analytics.update_field_mapping'', ''analytics-configuration'')"

definition support_spec :: "string \<times> string \<times> string" where
  "support_spec = (''support'', ''support.update_lookup_field'', ''support-configuration'')"

definition verification_output :: "fleet_request \<Rightarrow> evidence_item list \<Rightarrow> fleet_error + verification_proposal" where
  "verification_output request evidence =
     required Fleet_value_error (VerificationProposal_validate \<lparr>vp_tenant_id = ev_tenant_id (fr_event request), vp_change_id = fr_change_id request,
       vp_checks = [''run customer API contract suite'', ''run CRM synchronization test'', ''run analytics data-quality validation'',
         ''run support lookup test'', ''check audit completeness''],
       vp_partial_result_handling = ''Report partial and stop completion until every required check passes.'',
       vp_failure_handling = ''Request deterministic rollback; do not remediate directly.'',
       vp_evidence_refs = map ei_evidence_id evidence, vp_confidence = 93 / 100\<rparr>)"

definition derive_outputs :: "fleet_request \<Rightarrow> evidence_item list \<Rightarrow> fleet_error + fleet_outputs" where
  "derive_outputs request evidence =
    (let by_id = dict_of ei_evidence_id evidence;
         memory_refs = filter (prefix ''memory-'') (map ei_evidence_id evidence);
         impact_refs = [''catalog-contract'', ''catalog-dependencies''] @ memory_refs in
     sbind (field_transition (fr_event request)) (\<lambda>(old_field, new_field).
     sbind (required Fleet_key_error (dget by_id ''catalog-dependencies'')) (\<lambda>catalog.
     sbind (managed_pairs (catalog_edges catalog)) (\<lambda>pairs.
     sbind (unmanaged_targets (catalog_edges catalog)) (\<lambda>unmanaged.
     sbind (orchestrator_output request old_field new_field impact_refs unmanaged) (\<lambda>orchestrator.
     sbind (impact_output request (dependency_graph pairs) impact_refs memory_refs unmanaged by_id) (\<lambda>impact.
     sbind (required Fleet_key_error (dget by_id ''policy-sandbox-change'')) (\<lambda>policy.
     sbind (compliance_output request policy) (\<lambda>compliance.
     sbind (proposal_output request by_id old_field new_field crm_spec) (\<lambda>crm.
     sbind (proposal_output request by_id old_field new_field analytics_spec) (\<lambda>analytics.
     sbind (proposal_output request by_id old_field new_field support_spec) (\<lambda>support.
     sbind (verification_output request evidence) (\<lambda>verification.
     Inr \<lparr>fo_orchestrator = orchestrator, fo_impact_analysis = impact, fo_compliance = compliance, fo_crm = crm, fo_analytics = analytics,
          fo_support = support, fo_verification = verification\<rparr>)))))))))))))"

section \<open>The draft plan\<close>

definition step_of :: "fleet_request \<Rightarrow> string \<Rightarrow> nat \<times> remediation_proposal \<Rightarrow> remediation_step" where
  "step_of request old_field numbered = (case numbered of (i, proposal) \<Rightarrow>
     \<lparr>st_step_id = ''step-'' @ nat_str i @ ''-'' @ pp_agent_id proposal, st_order = int i, st_agent_id = pp_agent_id proposal,
      st_tool_name = pp_proposed_tool proposal, st_resource = pp_target_resource proposal, st_arguments = pp_proposed_arguments proposal,
      st_depends_on = [], st_risk_level = pp_risk_level proposal, st_requires_approval = True,
      st_idempotency_key = fr_change_id request @ '':'' @ pp_agent_id proposal @ '':'' @ old_field\<rparr>)"

definition draft_plan :: "fleet_request \<Rightarrow> string \<Rightarrow> remediation_proposal list \<Rightarrow> evidence_item list \<Rightarrow> remediation_plan" where
  "draft_plan request old_field proposals evidence = \<lparr>pl_plan_id = ''plan_'' @ uuid5_hex (fr_change_id request),
     pl_tenant_id = ev_tenant_id (fr_event request), pl_change_id = fr_change_id request, pl_version = 1, pl_risk_level = RL_HIGH,
     pl_summary = ''Draft only: three approval-gated sandbox mapping proposals.'',
     pl_preconditions = [''policy evaluation passes'', ''plan hash is approved'', ''snapshots exist''],
     pl_steps = map (step_of request old_field) (zip [1..<Suc (length proposals)] proposals),
     pl_verification_steps = [''execute the verification agent'' @ [CHR 0x27] @ ''s five read-only checks''],
     pl_rollback_steps = [''restore every changed sandbox configuration from its bound snapshot''],
     pl_evidence_refs = map ei_evidence_id evidence, pl_created_at = ev_received_at (fr_event request)\<rparr>"

definition build_plan :: "fleet_request \<Rightarrow> remediation_proposal list \<Rightarrow> evidence_item list \<Rightarrow> fleet_error + remediation_plan" where
  "build_plan request proposals evidence =
     sbind (field_transition (fr_event request)) (\<lambda>(old_field, _).
     required Fleet_value_error (RemediationPlan_validate (draft_plan request old_field proposals evidence)))"

section \<open>Tracing\<close>

record invocation_tracker =
  tr_started :: "(string, instant) dict"
  tr_completed :: "(string, instant) dict"
  tr_calls :: "(string, int) dict"
  tr_current :: int
  tr_max_parallel :: int

definition new_tracker :: invocation_tracker where
  "new_tracker = \<lparr>tr_started = [], tr_completed = [], tr_calls = [], tr_current = 0, tr_max_parallel = 0\<rparr>"

definition tracker_enter :: "string \<Rightarrow> instant \<Rightarrow> invocation_tracker \<Rightarrow> invocation_tracker" where
  "tracker_enter agent_id now t = t\<lparr>tr_started := dput agent_id now (tr_started t), tr_current := tr_current t + 1,
     tr_max_parallel := max (tr_max_parallel t) (tr_current t + 1)\<rparr>"

definition tracker_exit :: "string \<Rightarrow> instant \<Rightarrow> invocation_tracker \<Rightarrow> invocation_tracker" where
  "tracker_exit agent_id now t = t\<lparr>tr_completed := dput agent_id now (tr_completed t), tr_current := tr_current t - 1\<rparr>"

definition record_model_call :: "string \<Rightarrow> invocation_tracker \<Rightarrow> invocation_tracker" where
  "record_model_call agent_id t = t\<lparr>tr_calls := dput agent_id (dget_or (tr_calls t) agent_id 0 + 1) (tr_calls t)\<rparr>"

section \<open>Models and the workflow\<close>

datatype agent_output =
    Orchestration orchestration_directive
  | Impact impact_analysis
  | Compliance compliance_analysis
  | Proposal remediation_proposal
  | Verification verification_proposal

definition output_of :: "fleet_outputs \<Rightarrow> string \<Rightarrow> agent_output option" where
  "output_of outputs agent_id = dget [(''orchestrator'', Orchestration (fo_orchestrator outputs)),
     (''impact-analysis'', Impact (fo_impact_analysis outputs)), (''compliance'', Compliance (fo_compliance outputs)),
     (''crm'', Proposal (fo_crm outputs)), (''analytics'', Proposal (fo_analytics outputs)), (''support'', Proposal (fo_support outputs)),
     (''verification'', Verification (fo_verification outputs))] agent_id"

fun output_refs :: "agent_output \<Rightarrow> string list" where
  "output_refs (Orchestration d) = od_evidence_refs d"
| "output_refs (Impact i) = im_evidence_refs i"
| "output_refs (Compliance c) = cp_evidence_refs c"
| "output_refs (Proposal p) = pp_evidence_refs p"
| "output_refs (Verification v) = vp_evidence_refs v"

text \<open>A model is a configured name or a deterministic one that answers with a derived output.\<close>

datatype agent_model = Named_model string | Deterministic_model string "agent_output option"

fun model_name :: "agent_model \<Rightarrow> string" where
  "model_name (Named_model n) = n"
| "model_name (Deterministic_model agent_id _) = ''deterministic-fake/'' @ agent_id"

record fleet_settings =
  fs_model_mode :: model_mode
  fs_light_model :: string
  fs_primary_model :: string
  fs_timeout_seconds :: rat

definition build_model :: "fleet_settings \<Rightarrow> fleet_outputs \<Rightarrow> string \<Rightarrow> agent_model" where
  "build_model settings outputs agent_id = (case fs_model_mode settings of
     Mode_live \<Rightarrow> Named_model (if agent_id \<in> {''orchestrator'', ''compliance'', ''verification''} then fs_light_model settings
       else fs_primary_model settings)
   | Mode_fake \<Rightarrow> Deterministic_model agent_id (output_of outputs agent_id))"

definition build_models :: "fleet_settings \<Rightarrow> fleet_outputs \<Rightarrow> (string, agent_model) dict" where
  "build_models settings outputs = map (\<lambda>agent_id. (agent_id, build_model settings outputs agent_id)) AGENT_IDS"

definition instruction :: "agent_registration \<Rightarrow> string" where
  "instruction registration = ''You are the '' @ rg_display_name registration @ '' agent. Return only the requested JSON schema. '' @
     ''Use only evidence IDs supplied in the user message, preserve disagreements and unknowns, '' @
     ''and never invent enterprise state. This Phase 4 run is analysis-only: '' @ ''do not execute tools. '' @
     ''Your registered tool names are '' @ py_repr (JArr (map JStr (rg_allowed_tools registration))) @ ''.''"

record llm_agent =
  la_name :: string
  la_description :: string
  la_model :: agent_model
  la_instruction :: string
  la_tools :: "string list"
  la_output_key :: string
  la_timeout_seconds :: rat
  la_may_transfer :: bool

text \<open>The stages of the workflow run one after the other, with a join after the second and the third; at most \<open>wf_max_concurrency\<close> agents at a time.\<close>

record agent_workflow =
  wf_stages :: "llm_agent list list"
  wf_max_concurrency :: int

text \<open>What the runtime calls back: the agent callbacks, and the model.\<close>

datatype agent_callback = Before_agent string instant | After_agent string instant | Model_called string

fun track :: "(string, agent_model) dict \<Rightarrow> agent_callback \<Rightarrow> invocation_tracker \<Rightarrow> invocation_tracker" where
  "track models (Before_agent agent_id now) t = tracker_enter agent_id now t"
| "track models (After_agent agent_id now) t = tracker_exit agent_id now t"
| "track models (Model_called agent_id) t = (case dget models agent_id of
     Some (Deterministic_model own_id _) \<Rightarrow> record_model_call own_id t | _ \<Rightarrow> t)"

text \<open>
  The runtime: a run of a workflow for a user and a session with a message yields the callbacks it made and the session's values, if the
  session is found. A session value is read as an output of the type the agent declares.
\<close>

record ('x, 'v) agent_runtime =
  ar_run :: "agent_workflow \<Rightarrow> string \<Rightarrow> string \<Rightarrow> string \<Rightarrow> ('x, fleet_error, agent_callback list \<times> (string, 'v) dict option) op"
  ar_directive :: "'v \<Rightarrow> orchestration_directive option"
  ar_impact :: "'v \<Rightarrow> impact_analysis option"
  ar_compliance :: "'v \<Rightarrow> compliance_analysis option"
  ar_proposal :: "'v \<Rightarrow> remediation_proposal option"
  ar_verification :: "'v \<Rightarrow> verification_proposal option"
  ar_output_hash :: "agent_output \<Rightarrow> string"

definition output_from_state :: "('v \<Rightarrow> 'a option) \<Rightarrow> ('a \<Rightarrow> 'a option) \<Rightarrow> (string, 'v) dict \<Rightarrow> string \<Rightarrow> fleet_error + 'a" where
  "output_from_state read validate state agent_id =
     sbind (required Fleet_key_error (dget state (''output_'' @ agent_id))) (\<lambda>value.
     sbind (required Fleet_value_error (read value)) (\<lambda>candidate. required Fleet_value_error (validate candidate)))"

definition read_outputs :: "('x, 'v) agent_runtime \<Rightarrow> (string, 'v) dict \<Rightarrow> fleet_error + fleet_outputs" where
  "read_outputs A state =
     sbind (output_from_state (ar_directive A) OrchestrationDirective_validate state ''orchestrator'') (\<lambda>orchestrator.
     sbind (output_from_state (ar_impact A) ImpactAnalysis_validate state ''impact-analysis'') (\<lambda>impact.
     sbind (output_from_state (ar_compliance A) ComplianceAnalysis_validate state ''compliance'') (\<lambda>compliance.
     sbind (output_from_state (ar_proposal A) RemediationProposal_validate state ''crm'') (\<lambda>crm.
     sbind (output_from_state (ar_proposal A) RemediationProposal_validate state ''analytics'') (\<lambda>analytics.
     sbind (output_from_state (ar_proposal A) RemediationProposal_validate state ''support'') (\<lambda>support.
     sbind (output_from_state (ar_verification A) VerificationProposal_validate state ''verification'') (\<lambda>verification.
     Inr \<lparr>fo_orchestrator = orchestrator, fo_impact_analysis = impact, fo_compliance = compliance, fo_crm = crm, fo_analytics = analytics,
          fo_support = support, fo_verification = verification\<rparr>)))))))"

definition invocation_record ::
  "('x, 'v) agent_runtime \<Rightarrow> fleet_outputs \<Rightarrow> (string, agent_model) dict \<Rightarrow> invocation_tracker \<Rightarrow> agent_registration \<Rightarrow> fleet_error + agent_invocation" where
  "invocation_record A outputs models t registration = (let agent_id = rg_agent_id registration in
     sbind (required Fleet_key_error (output_of outputs agent_id)) (\<lambda>output.
     sbind (required Fleet_key_error (dget models agent_id)) (\<lambda>model.
     sbind (required Fleet_key_error (dget (tr_started t) agent_id)) (\<lambda>started_at.
     sbind (required Fleet_key_error (dget (tr_completed t) agent_id)) (\<lambda>completed_at.
     required Fleet_value_error (AgentInvocationRecord_validate \<lparr>
       ai_invocation_id = ''invocation_'' @ agent_id @ ''_'' @ take 12 (uuid5_hex (rg_tenant_id registration)), ai_agent_id = agent_id,
       ai_identity_reference = rg_identity_reference registration, ai_model_name = model_name model,
       ai_model_calls = dget_or (tr_calls t) agent_id 1, ai_tool_calls = 0, ai_started_at = started_at, ai_completed_at = completed_at,
       ai_output_hash = ar_output_hash A output, ai_evidence_refs = output_refs output\<rparr>))))))"

section \<open>The fleet\<close>

record 'x fleet =
  fl_settings :: fleet_settings
  fl_collect :: "change_event \<Rightarrow> ('x, fleet_error, evidence_item list) op"
  fl_governance :: "'x governance"
  fl_runtime_base_url :: string
  fl_any_url :: "string \<Rightarrow> string option"

definition registrations :: "'x fleet \<Rightarrow> instant \<Rightarrow> string \<Rightarrow> fleet_error + agent_registration list" where
  "registrations F now tenant_id =
     sbind (build_registry (fl_any_url F) tenant_id (fl_runtime_base_url F) now (Some (identity_reference (gv_identity (fl_governance F))))) (\<lambda>registry.
     sbind (assert_registry_is_bounded registry) (\<lambda>_. Inr registry))"

definition replace_dashes :: "string \<Rightarrow> string" where
  "replace_dashes s = map (\<lambda>c. if c = CHR ''-'' then CHR ''_'' else c) s"

definition llm_agent_of :: "'x fleet \<Rightarrow> (string, agent_model) dict \<Rightarrow> instant \<Rightarrow> string \<Rightarrow> fleet_error + llm_agent" where
  "llm_agent_of F models now agent_id =
     sbind (registrations F now ''runtime'') (\<lambda>registry.
     sbind (required Fleet_unexpected_error (find (\<lambda>r. rg_agent_id r = agent_id) registry)) (\<lambda>registration.
     sbind (required Fleet_key_error (dget models agent_id)) (\<lambda>model.
     Inr \<lparr>la_name = replace_dashes agent_id, la_description = rg_description registration, la_model = model,
          la_instruction = instruction registration, la_tools = [], la_output_key = ''output_'' @ agent_id,
          la_timeout_seconds = fs_timeout_seconds (fl_settings F), la_may_transfer = False\<rparr>)))"

definition build_workflow :: "'x fleet \<Rightarrow> (string, agent_model) dict \<Rightarrow> instant \<Rightarrow> fleet_error + agent_workflow" where
  "build_workflow F models now =
     sbind (collect_sums (map (llm_agent_of F models now) AGENT_IDS)) (\<lambda>agents. case agents of
       [orchestrator, impact, compliance, crm, analytics, support, verification] \<Rightarrow>
         Inr \<lparr>wf_stages = [[orchestrator], [impact, compliance], [crm, analytics, support], [verification]], wf_max_concurrency = 3\<rparr>
     | _ \<Rightarrow> Inl Fleet_key_error)"

fun trust_value :: "evidence_trust \<Rightarrow> string" where
  "trust_value Trust_PLATFORM = ''platform''"
| "trust_value Trust_UNTRUSTED = ''untrusted''"

definition evidence_json :: "(instant \<Rightarrow> string) \<Rightarrow> evidence_item \<Rightarrow> json" where
  "evidence_json iso_text e = JObj [(''evidence_id'', JStr (ei_evidence_id e)), (''tenant_id'', JStr (ei_tenant_id e)),
     (''source_system'', JStr (ei_source_system e)), (''source_resource'', JStr (ei_source_resource e)), (''summary'', JStr (ei_summary e)),
     (''content_hash'', JStr (ei_content_hash e)), (''trust'', JStr (trust_value (ei_trust e))),
     (''observed_at'', JStr (iso_text (ei_observed_at e))), (''attributes'', JObj (ei_attributes e))]"

definition run_message :: "(instant \<Rightarrow> string) \<Rightarrow> fleet_request \<Rightarrow> evidence_item list \<Rightarrow> string" where
  "run_message iso_text request evidence = dumps (sort_keys (JObj
     [(''request'', JObj [(''change_id'', JStr (fr_change_id request)), (''event'', event_json iso_text (fr_event request))]),
      (''evidence'', JArr (map (evidence_json iso_text) evidence))]))"

definition proposals_of :: "fleet_outputs \<Rightarrow> remediation_proposal list" where
  "proposals_of outputs = [fo_crm outputs, fo_analytics outputs, fo_support outputs]"

text \<open>Everything after the run: outputs, plan, invocation records and the validated result.\<close>

definition consolidate ::
  "(instant \<Rightarrow> string) \<Rightarrow> 'x fleet \<Rightarrow> ('x, 'v) agent_runtime \<Rightarrow> instant \<Rightarrow> instant \<Rightarrow> fleet_request \<Rightarrow> evidence_item list \<Rightarrow> agent_registration list \<Rightarrow>
   (string, agent_model) dict \<Rightarrow> agent_callback list \<Rightarrow> (string, 'v) dict option \<Rightarrow> fleet_error + fleet_result" where
  "consolidate iso_text F A started_at completed_at request evidence registry models callbacks session =
    (let t = foldl (\<lambda>t c. track models c t) new_tracker callbacks in
     sbind (required Fleet_unexpected_error session) (\<lambda>state.
     sbind (read_outputs A state) (\<lambda>outputs.
     sbind (build_plan request (proposals_of outputs) evidence) (\<lambda>plan.
     sbind (collect_sums (map (invocation_record A outputs models t) registry)) (\<lambda>invocations.
     required Fleet_value_error (FleetAnalysisResult_validate \<lparr>fa_analysis_id = ''analysis_'' @ uuid5_hex (fr_change_id request),
       fa_tenant_id = ev_tenant_id (fr_event request), fa_change_id = fr_change_id request, fa_trace_id = ev_trace_id (fr_event request),
       fa_model_mode = fs_model_mode (fl_settings F), fa_orchestration = fo_orchestrator outputs, fa_impact = fo_impact_analysis outputs,
       fa_compliance = fo_compliance outputs, fa_remediation_proposals = proposals_of outputs, fa_verification = fo_verification outputs,
       fa_draft_plan = plan, fa_draft_plan_hash = calculate_plan_hash iso_text plan, fa_evidence = evidence, fa_invocations = invocations,
       fa_max_parallel_agents = tr_max_parallel t, fa_started_at = started_at, fa_completed_at = completed_at\<rparr>))))))"

definition analyze ::
  "(instant \<Rightarrow> string) \<Rightarrow> 'x fleet \<Rightarrow> ('x, 'v) agent_runtime \<Rightarrow> instant \<Rightarrow> instant \<Rightarrow> fleet_request \<Rightarrow> ('x, fleet_error, fleet_result) op" where
  "analyze iso_text F A started_at completed_at request = (let event = fr_event request in
     bnd (prepare (fl_governance F) event) (\<lambda>memory_evidence.
     bnd (fl_collect F event) (\<lambda>collected. let evidence = collected @ memory_evidence in
     bnd (lift_sum (registrations F started_at (ev_tenant_id event))) (\<lambda>registry.
     bnd (lift_sum (derive_outputs request evidence)) (\<lambda>expected. let models = build_models (fl_settings F) expected in
     bnd (lift_sum (build_workflow F models started_at)) (\<lambda>workflow.
     bnd (ar_run A workflow (ev_tenant_id event) (''analysis-'' @ uuid5_hex (fr_change_id request)) (run_message iso_text request evidence))
       (\<lambda>(callbacks, session).
     lift_sum (consolidate iso_text F A started_at completed_at request evidence registry models callbacks session))))))))"

section \<open>The service\<close>

definition screening_json :: "prompt_screening \<Rightarrow> json" where
  "screening_json r = JObj [(''provider'', JStr (ps_provider r)), (''blocked'', JBool (ps_blocked r)), (''categories'', strs_json (ps_categories r)),
     (''input_hash'', JStr (ps_input_hash r)), (''invocation_result'', JStr (ps_invocation_result r)),
     (''template_reference'', JStr (ps_template_reference r))]"

text \<open>The exception handlers; any other exception is an internal error.\<close>

fun error_response :: "fleet_error \<Rightarrow> int \<times> json" where
  "error_response EvidenceUnavailableError = (503, JObj [(''error'', JObj [(''code'', JStr ''evidence_unavailable''),
     (''message'', JStr ''Authoritative evidence could not be collected.'')])])"
| "error_response (PromptBlockedError screening) = (403, JObj [(''error'', JObj [(''code'', JStr ''PROMPT_INJECTION_BLOCKED''),
     (''message'', JStr ''The change content was blocked by security screening.''), (''screening'', screening_json screening)])])"
| "error_response GovernanceUnavailableError = (503, JObj [(''error'', JObj [(''code'', JStr ''GOVERNANCE_UNAVAILABLE''),
     (''message'', JStr ''The configured governance dependency could not make a decision.'')])])"
| "error_response _ = (500, JStr ''Internal Server Error'')"

definition detail :: "string \<Rightarrow> json" where
  "detail message = JObj [(''detail'', JStr message)]"

text \<open>The tenant header has 1 to 128 characters; the body of the framework's refusal is not modelled.\<close>

definition tenant_header_ok :: "string \<Rightarrow> bool" where
  "tenant_header_ok tenant_id \<longleftrightarrow> 1 \<le> length tenant_id \<and> length tenant_id \<le> 128"

definition agents_route :: "'x fleet \<Rightarrow> instant \<Rightarrow> string \<Rightarrow> (int \<times> json) + agent_registration list" where
  "agents_route F now tenant_id = (if \<not> tenant_header_ok tenant_id then Inl (422, JNull)
     else map_sum error_response id (registrations F now tenant_id))"

definition agent_route :: "'x fleet \<Rightarrow> instant \<Rightarrow> string \<Rightarrow> string \<Rightarrow> (int \<times> json) + agent_registration" where
  "agent_route F now agent_id tenant_id = sbind (agents_route F now tenant_id) (\<lambda>registry.
     required (404, detail ''agent not found'') (find (\<lambda>r. rg_agent_id r = agent_id) registry))"

definition analyze_route ::
  "(instant \<Rightarrow> string) \<Rightarrow> 'x fleet \<Rightarrow> ('x, 'v) agent_runtime \<Rightarrow> instant \<Rightarrow> instant \<Rightarrow> fleet_request \<Rightarrow> string \<Rightarrow> ('x, int \<times> json, fleet_result) op" where
  "analyze_route iso_text F A started_at completed_at request tenant_id =
    (if \<not> tenant_header_ok tenant_id then raise (422, JNull)
     else if ev_tenant_id (fr_event request) \<noteq> tenant_id then raise (404, detail ''change not found'')
     else wrap_err error_response (analyze iso_text F A started_at completed_at request))"

end
