(* ===== verification/Control_Api.thy ===== *)
theory Control_Api
  imports State_Machine Python_Text
begin

text \<open>
  The tenant-facing control API (\<^verbatim>\<open>services/control-api/.../context.py\<close>, \<^verbatim>\<open>routes.py\<close>, \<^verbatim>\<open>sse.py\<close>, \<^verbatim>\<open>demo.py\<close> and the error boundary of
  \<^verbatim>\<open>app.py\<close>): identifiers taken from headers, the change and audit routes, user transitions, the resumable audit stream and the demonstration
  change. A request is served against any change repository; the wall clock, random identifiers and the writes of other clients are arguments.
\<close>

section \<open>Errors at the boundary\<close>

record api_error =
  xe_status :: int
  xe_code :: string
  xe_message :: string
  xe_details :: "json list"

definition api_error_of :: "int \<Rightarrow> string \<Rightarrow> string \<Rightarrow> api_error" where
  "api_error_of status code message = \<lparr>xe_status = status, xe_code = code, xe_message = message, xe_details = []\<rparr>"

definition tenant_required :: api_error where
  "tenant_required = api_error_of 401 ''tenant_required'' ''A valid X-Tenant-ID is required.''"

definition actor_required :: api_error where
  "actor_required = api_error_of 401 ''actor_required'' ''A valid X-Actor-ID is required.''"

definition validation_failed :: api_error where
  "validation_failed = api_error_of 422 ''validation_error'' ''Request validation failed.''"

definition internal_error :: api_error where
  "internal_error = api_error_of 500 ''internal'' ''Internal Server Error''"

text \<open>The handlers of repository errors; the base class answers for the errors that have no handler of their own.\<close>

fun persistence_response :: "persistence_error \<Rightarrow> api_error" where
  "persistence_response (ChangeNotFoundError t c) = api_error_of 404 ''change_not_found'' ''The change was not found.''"
| "persistence_response (TenantScopeViolationError t c) = api_error_of 404 ''change_not_found'' ''The change was not found.''"
| "persistence_response (ChangeAlreadyExistsError t c) =
     api_error_of 409 ''change_already_exists'' ''A different change already uses this identifier.''"
| "persistence_response (AuditCursorNotFoundError t c i) =
     api_error_of 409 ''audit_cursor_not_found'' ''Last-Event-ID is not valid for this tenant and change.''"
| "persistence_response (OptimisticConcurrencyError c expected actual) =
     (api_error_of 409 ''version_conflict'' ''The change version is stale.'')\<lparr>xe_details :=
       [JObj [(''expected_version'', JInt expected), (''actual_version'', JInt actual)]]\<rparr>"
| "persistence_response (InvalidDocumentIdentifierError f) =
     api_error_of 422 ''invalid_identifier'' ''A resource identifier is invalid.''"
| "persistence_response (AuditEventAlreadyExistsError t i) =
     api_error_of 503 ''persistence_unavailable'' ''Operational persistence is unavailable.''"

fun transition_response :: "transition_error \<Rightarrow> api_error" where
  "transition_response (Persistence e) = persistence_response e"
| "transition_response (InvalidStateTransitionError current target audit_event_id) =
     (api_error_of 409 ''invalid_state_transition'' ''The requested workflow transition is not allowed.'')\<lparr>xe_details :=
       [JObj [(''current'', JStr (state_value current)), (''target'', JStr (state_value target)), (''audit_event_id'', JStr audit_event_id)]]\<rparr>"
| "transition_response (ValueError m) = internal_error"
| "transition_response ValidationError = internal_error"

definition error_body :: "string \<Rightarrow> api_error \<Rightarrow> json" where
  "error_body request_id e = JObj [(''error'', JObj ([(''code'', JStr (xe_code e)), (''message'', JStr (xe_message e)),
     (''request_id'', JStr request_id)] @ (if xe_details e = [] then [] else [(''details'', JArr (xe_details e))])))]"

section \<open>Request context\<close>

definition validated_identifier :: "string option \<Rightarrow> string option" where
  "validated_identifier value = (case value of
     None \<Rightarrow> None
   | Some v \<Rightarrow> (let candidate = py_strip v in
       if candidate = [] \<or> 128 < length candidate then None
       else if \<not> py_isalnum (hd candidate) then None
       else if \<not> list_all (\<lambda>c. py_isalnum c \<or> c \<in> set ''-_.:'') candidate then None
       else Some candidate))"

definition require_tenant :: "string option \<Rightarrow> ('s, api_error, string) op" where
  "require_tenant header = validated tenant_required (validated_identifier header)"

definition require_actor :: "string option \<Rightarrow> ('s, api_error, string) op" where
  "require_actor header = validated actor_required (validated_identifier header)"

text \<open>The caller's request identifier if it is well formed, a fresh one otherwise.\<close>

definition request_id_of :: "string \<Rightarrow> string option \<Rightarrow> string" where
  "request_id_of fresh_hex header = (let value = py_strip (case header of None \<Rightarrow> [] | Some v \<Rightarrow> v) in
     if value \<noteq> [] \<and> length value \<le> 128 \<and> list_all (\<lambda>c. py_isalnum c \<or> c \<in> set ''-_.'') value then value
     else ''req_'' @ fresh_hex)"

text \<open>The pattern \<^verbatim>\<open>^[A-Za-z0-9][A-Za-z0-9._:-]{0,127}$\<close>.\<close>

definition is_api_identifier :: "string \<Rightarrow> bool" where
  "is_api_identifier s \<longleftrightarrow> s \<noteq> [] \<and> is_alnum (hd s) \<and> list_all (\<lambda>c. is_alnum c \<or> c \<in> set ''._:-'') s \<and> length s \<le> 128"

record transition_request =
  tq_expected_version :: int
  tq_trace_id :: string

definition TransitionRequest_validate :: "transition_request \<Rightarrow> transition_request option" where
  "TransitionRequest_validate q1 = (let q = q1\<lparr>tq_trace_id := strip (tq_trace_id q1)\<rparr> in
     if 1 \<le> tq_expected_version q \<and> is_api_identifier (tq_trace_id q) then Some q else None)"

section \<open>Routes\<close>

text \<open>The methods of a change repository the routes call beyond those of the transition service.\<close>

record 's control_repository =
  cp_repo :: "'s change_repository_ops"
  cp_add_with_audit :: "change_record \<Rightarrow> audit_event \<Rightarrow> ('s, persistence_error, unit) op"
  cp_list_changes :: "string \<Rightarrow> int \<Rightarrow> ('s, persistence_error, change_record list) op"
  cp_list_audit_after :: "string \<Rightarrow> string \<Rightarrow> string option \<Rightarrow> int \<Rightarrow> ('s, persistence_error, audit_event list) op"
  cp_list_tenant_audit :: "string \<Rightarrow> int \<Rightarrow> ('s, persistence_error, audit_event list) op"

definition mem_control :: "mem_repo control_repository" where
  "mem_control = \<lparr>cp_repo = mem_ops, cp_add_with_audit = mem_add_with_audit, cp_list_changes = mem_list_changes,
     cp_list_audit_after = mem_list_audit_after, cp_list_tenant_audit = mem_list_tenant_audit\<rparr>"

text \<open>A page of results with their number.\<close>

definition counted :: "'a list \<Rightarrow> 'a list \<times> nat" where
  "counted items = (items, length items)"

definition list_changes_route :: "'s control_repository \<Rightarrow> string option \<Rightarrow> int \<Rightarrow> ('s, api_error, change_record list \<times> nat) op" where
  "list_changes_route P tenant_header limit =
     bnd (require_tenant tenant_header) (\<lambda>tenant_id.
     bnd (guard (1 \<le> limit \<and> limit \<le> 100) validation_failed) (\<lambda>_.
     bnd (wrap_err persistence_response (cp_list_changes P tenant_id limit)) (\<lambda>items. ret (counted items))))"

definition get_change_route :: "'s control_repository \<Rightarrow> string option \<Rightarrow> string \<Rightarrow> ('s, api_error, change_record) op" where
  "get_change_route P tenant_header change_id =
     bnd (require_tenant tenant_header) (\<lambda>tenant_id. wrap_err persistence_response (repo_get (cp_repo P) tenant_id change_id))"

definition list_change_audit_route ::
  "'s control_repository \<Rightarrow> string option \<Rightarrow> string \<Rightarrow> int \<Rightarrow> ('s, api_error, audit_event list \<times> nat) op" where
  "list_change_audit_route P tenant_header change_id limit =
     bnd (require_tenant tenant_header) (\<lambda>tenant_id.
     bnd (guard (1 \<le> limit \<and> limit \<le> 500) validation_failed) (\<lambda>_.
     bnd (wrap_err persistence_response (cp_list_audit_after P tenant_id change_id None limit)) (\<lambda>items. ret (counted items))))"

definition list_tenant_audit_route :: "'s control_repository \<Rightarrow> string option \<Rightarrow> int \<Rightarrow> ('s, api_error, audit_event list \<times> nat) op" where
  "list_tenant_audit_route P tenant_header limit =
     bnd (require_tenant tenant_header) (\<lambda>tenant_id.
     bnd (guard (1 \<le> limit \<and> limit \<le> 500) validation_failed) (\<lambda>_.
     bnd (wrap_err persistence_response (cp_list_tenant_audit P tenant_id limit)) (\<lambda>items. ret (counted items))))"

text \<open>The wall clock and the identifier of the audit event a transition writes.\<close>

record stamp =
  sp_now :: clock_value
  sp_audit_id :: string

definition user_transition ::
  "(instant \<Rightarrow> string) \<Rightarrow> 's control_repository \<Rightarrow> stamp \<Rightarrow> string \<Rightarrow> string \<Rightarrow> workflow_state \<Rightarrow> transition_request \<Rightarrow> string \<Rightarrow>
   ('s, api_error, change_record) op" where
  "user_transition iso_text P stamp tenant_id change_id target mutation actor_id =
     bnd (wrap_err transition_response (transition iso_text (cp_repo P) (sp_now stamp) (sp_audit_id stamp)
       \<lparr>ta_tenant_id = tenant_id, ta_change_id = change_id, ta_target = target, ta_expected_version = tq_expected_version mutation,
        ta_trace_id = tq_trace_id mutation, ta_actor_type = Actor_USER, ta_actor_id = actor_id, ta_updates = no_updates\<rparr>)) (\<lambda>_.
     wrap_err persistence_response (repo_get (cp_repo P) tenant_id change_id))"

definition mutation_context ::
  "string option \<Rightarrow> string option \<Rightarrow> transition_request \<Rightarrow> ('s, api_error, string \<times> string \<times> transition_request) op" where
  "mutation_context tenant_header actor_header body =
     bnd (require_tenant tenant_header) (\<lambda>tenant_id.
     bnd (require_actor actor_header) (\<lambda>actor_id.
     bnd (validated validation_failed (TransitionRequest_validate body)) (\<lambda>mutation. ret (tenant_id, actor_id, mutation))))"

definition cancel_change_route ::
  "(instant \<Rightarrow> string) \<Rightarrow> 's control_repository \<Rightarrow> stamp \<Rightarrow> string option \<Rightarrow> string option \<Rightarrow> string \<Rightarrow> transition_request \<Rightarrow>
   ('s, api_error, change_record) op" where
  "cancel_change_route iso_text P stamp tenant_header actor_header change_id body =
     bnd (mutation_context tenant_header actor_header body) (\<lambda>(tenant_id, actor_id, mutation).
     user_transition iso_text P stamp tenant_id change_id WS_CANCELLED mutation actor_id)"

definition retry_target :: "workflow_state \<Rightarrow> workflow_state" where
  "retry_target status = (if status \<in> {WS_BLOCKED, WS_NEEDS_ATTENTION} then WS_SCREENING else status)"

definition retry_change_route ::
  "(instant \<Rightarrow> string) \<Rightarrow> 's control_repository \<Rightarrow> stamp \<Rightarrow> string option \<Rightarrow> string option \<Rightarrow> string \<Rightarrow> transition_request \<Rightarrow>
   ('s, api_error, change_record) op" where
  "retry_change_route iso_text P stamp tenant_header actor_header change_id body =
     bnd (mutation_context tenant_header actor_header body) (\<lambda>(tenant_id, actor_id, mutation).
     bnd (wrap_err persistence_response (repo_get (cp_repo P) tenant_id change_id)) (\<lambda>current.
     user_transition iso_text P stamp tenant_id change_id (retry_target (cr_status current)) mutation actor_id))"

section \<open>The demonstration change\<close>

text \<open>The packaged \<^verbatim>\<open>api_breaking_change.json\<close> as a change and its first audit event.\<close>

definition demo_seed_change :: "string \<Rightarrow> instant \<Rightarrow> change_record" where
  "demo_seed_change tenant_id created_at = \<lparr>cr_change_id = ''chg_phase3_001'', cr_tenant_id = tenant_id, cr_event_id = ''evt_phase3_001'',
     cr_change_type = ''api.contract.changed'', cr_title = ''Rename customer identifier'',
     cr_description = ''Rename customer_id to customer_uuid across managed sandbox systems.'',
     cr_source = \<lparr>src_type = ''github'', src_external_id = ''pr-42'', src_url = ''https://example.invalid/demo/pr/42''\<rparr>,
     cr_environment = Env_SANDBOX, cr_status = WS_RECEIVED, cr_risk_level = RL_UNKNOWN, cr_current_phase = WS_RECEIVED,
     cr_workflow_execution_id = None, cr_plan_version = 0, cr_plan_hash = None, cr_created_at = created_at, cr_updated_at = created_at,
     cr_created_by = ''demo-event-gateway'', cr_version = 1\<rparr>"

definition demo_seed_audit :: "(instant \<Rightarrow> string) \<Rightarrow> string \<Rightarrow> change_record \<Rightarrow> instant \<Rightarrow> audit_event" where
  "demo_seed_audit iso_text tenant_id change created_at = \<lparr>ae_audit_event_id = ''audit_evt_phase3_001_received'', ae_tenant_id = tenant_id,
     ae_change_id = ''chg_phase3_001'', ae_trace_id = ''trace_phase3_001'', ae_event_type = ''CHANGE_RECEIVED'', ae_actor_type = Actor_SERVICE,
     ae_actor_id = ''demo-event-gateway'', ae_resource = ''changes/chg_phase3_001'', ae_action = ''create_change'', ae_decision_id = None,
     ae_input_hash = sha256_digest (JObj [(''event_id'', JStr ''evt_phase3_001''), (''tenant_id'', JStr tenant_id)]),
     ae_output_hash = sha256_digest (change_record_json iso_text change), ae_status = Audit_SUCCESS,
     ae_redacted_summary = ''Synthetic API contract change accepted.'', ae_created_at = created_at\<rparr>"

definition build_demo_change :: "(instant \<Rightarrow> string) \<Rightarrow> string \<Rightarrow> instant \<Rightarrow> (change_record \<times> audit_event) option" where
  "build_demo_change iso_text tenant_id created_at = (case ChangeRecord_validate (demo_seed_change tenant_id created_at) of
     None \<Rightarrow> None
   | Some change \<Rightarrow> (case AuditEvent_validate (demo_seed_audit iso_text tenant_id change created_at) of
       None \<Rightarrow> None | Some audit \<Rightarrow> Some (change, audit)))"

text \<open>The route answers 201 with the stored change, or 200 with the change that is there already.\<close>

definition create_demo_change_route ::
  "(instant \<Rightarrow> string) \<Rightarrow> 's control_repository \<Rightarrow> instant \<Rightarrow> string option \<Rightarrow> ('s, api_error, int \<times> change_record) op" where
  "create_demo_change_route iso_text P now tenant_header =
     bnd (require_tenant tenant_header) (\<lambda>tenant_id.
     bnd (validated internal_error (build_demo_change iso_text tenant_id now)) (\<lambda>(change, audit) s.
       case cp_add_with_audit P change audit s of
         (Inr _, s1) \<Rightarrow> bnd (wrap_err persistence_response (repo_get (cp_repo P) tenant_id (cr_change_id change))) (\<lambda>stored. ret (201, stored)) s1
       | (Inl (ChangeAlreadyExistsError t c), s1) \<Rightarrow>
           bnd (wrap_err persistence_response (repo_get (cp_repo P) tenant_id (cr_change_id change))) (\<lambda>existing.
           bnd (guard (cr_event_id existing = cr_event_id change) (persistence_response (ChangeAlreadyExistsError t c))) (\<lambda>_.
           ret (200, existing))) s1
       | (Inl e, s1) \<Rightarrow> (Inl (persistence_response e), s1)))"

section \<open>Facts\<close>

lemma mem_get_changes: "repo_get mem_ops t c s = (case mem_changes_of s (t, c) of Some r \<Rightarrow> (Inr r, s)
   | None \<Rightarrow> (Inl (if dget_or (m_tenants_by_change_id s) c {} \<noteq> {} then TenantScopeViolationError t c else ChangeNotFoundError t c), s))"
  by (simp add: mem_ops_def mem_get_def mem_abs get_unlocked_eq)

lemma mem_control_repo [simp]: "cp_repo mem_control = mem_ops"
  by (simp add: mem_control_def)

text \<open>What one user transition does to the stored changes.\<close>

definition moved :: "string \<Rightarrow> string \<Rightarrow> workflow_state \<Rightarrow> int \<Rightarrow> change_record \<Rightarrow> mem_repo \<Rightarrow> mem_repo \<Rightarrow> bool" where
  "moved t c target version r s s' \<longleftrightarrow> (\<exists>cur. mem_changes_of s (t, c) = Some cur \<and> can_transition (cr_status cur) target \<and>
     cr_version cur = version \<and> cr_status r = target \<and> cr_version r = version + 1 \<and>
     mem_changes_of s' = (mem_changes_of s)((t, c) \<mapsto> r))"

lemma user_transition_cases:
  assumes "mem_inv s" "all_valid (mem_changes_of s)" "user_transition iso_text mem_control stamp t c target mutation actor_id s = (out, s')"
  shows "case out of Inl e \<Rightarrow> mem_changes_of s' = mem_changes_of s | Inr r \<Rightarrow> moved t c target (tq_expected_version mutation) r s s'"
proof -
  let ?a = "\<lparr>ta_tenant_id = t, ta_change_id = c, ta_target = target, ta_expected_version = tq_expected_version mutation,
        ta_trace_id = tq_trace_id mutation, ta_actor_type = Actor_USER, ta_actor_id = actor_id, ta_updates = no_updates\<rparr>"
  obtain res s1 where run: "transition iso_text mem_ops (sp_now stamp) (sp_audit_id stamp) ?a s = (res, s1)" by fastforce
  note cases = mem.transition_cases [OF assms(1,2) run]
  show ?thesis
  proof (cases res)
    case (Inl e)
    with assms(3) run cases show ?thesis by (auto simp: user_transition_def bnd_def wrap_err_def)
  next
    case (Inr r)
    with cases have m: "mem_changes_of s1 = (mem_changes_of s)((t, c) \<mapsto> r)" "moved t c target (tq_expected_version mutation) r s s1"
      by (auto simp: moved_def)
    from assms(3) run Inr m(1) have "out = Inr r" "s' = s1" by (auto simp: user_transition_def bnd_def wrap_err_def mem_get_changes)
    with m(2) show ?thesis by simp
  qed
qed

lemma mutation_context_run:
  "mutation_context th ah body s = (out, s') \<Longrightarrow> s' = s \<and> (case out of Inl e \<Rightarrow> True
     | Inr (t, actor_id, mutation) \<Rightarrow> validated_identifier th = Some t \<and> validated_identifier ah = Some actor_id \<and>
         tq_expected_version mutation = tq_expected_version body)"
  by (auto simp: mutation_context_def require_tenant_def require_actor_def bnd_def validated_def TransitionRequest_validate_def Let_def
      split: option.splits if_splits)

section \<open>Properties\<close>

text \<open>
  C32. Users move changes only along the graph and only at the version they have seen: a cancellation or retry that is answered with a change
  had a valid tenant and actor, found the change in that tenant at the expected version, moved exactly that change by one edge to the next
  version (a retry from a blocked change or one that needs attention to screening), and touched no other change; a request that is answered
  with an error has changed no change at all.
\<close>

theorem user_mutations_guarded:
  assumes "mem_inv s" "all_valid (mem_changes_of s)"
  shows "(case cancel_change_route iso_text mem_control stamp th ah c body s of
      (Inl e, s') \<Rightarrow> mem_changes_of s' = mem_changes_of s
    | (Inr r, s') \<Rightarrow> \<exists>t actor_id. validated_identifier th = Some t \<and> validated_identifier ah = Some actor_id \<and>
        moved t c WS_CANCELLED (tq_expected_version body) r s s') \<and>
    (case retry_change_route iso_text mem_control stamp th ah c body s of
      (Inl e, s') \<Rightarrow> mem_changes_of s' = mem_changes_of s
    | (Inr r, s') \<Rightarrow> \<exists>t actor_id cur. validated_identifier th = Some t \<and> validated_identifier ah = Some actor_id \<and>
        mem_changes_of s (t, c) = Some cur \<and> cr_status cur \<in> {WS_BLOCKED, WS_NEEDS_ATTENTION} \<and>
        moved t c WS_SCREENING (tq_expected_version body) r s s')"
proof -
  obtain ctx s0 where ctx: "mutation_context th ah body s = (ctx, s0)" by fastforce
  note m = mutation_context_run [OF ctx]
  show ?thesis
  proof (cases ctx)
    case (Inl e)
    with ctx m show ?thesis by (simp add: cancel_change_route_def retry_change_route_def bnd_def)
  next
    case (Inr x)
    obtain t actor_id mutation where x: "x = (t, actor_id, mutation)" by (cases x)
    with m Inr have h: "s0 = s" "validated_identifier th = Some t" "validated_identifier ah = Some actor_id"
      "tq_expected_version mutation = tq_expected_version body" by auto
    have cancel: "cancel_change_route iso_text mem_control stamp th ah c body s = user_transition iso_text mem_control stamp t c WS_CANCELLED mutation actor_id s"
      using ctx Inr x h(1) by (simp add: cancel_change_route_def bnd_def)
    have retry: "retry_change_route iso_text mem_control stamp th ah c body s = (case mem_changes_of s (t, c) of
        None \<Rightarrow> (Inl (persistence_response (if dget_or (m_tenants_by_change_id s) c {} \<noteq> {} then TenantScopeViolationError t c else ChangeNotFoundError t c)), s)
      | Some cur \<Rightarrow> user_transition iso_text mem_control stamp t c (retry_target (cr_status cur)) mutation actor_id s)"
      using ctx Inr x h(1) by (simp add: retry_change_route_def bnd_def wrap_err_def mem_get_changes split: option.split)
    have step: "case user_transition iso_text mem_control stamp t c target mutation actor_id s of
        (Inl e, s') \<Rightarrow> mem_changes_of s' = mem_changes_of s | (Inr r, s') \<Rightarrow> moved t c target (tq_expected_version body) r s s'" for target
      using user_transition_cases [OF assms] h(4) by (cases "user_transition iso_text mem_control stamp t c target mutation actor_id s") (fastforce split: sum.splits)
    have target: "cr_status cur \<in> {WS_BLOCKED, WS_NEEDS_ATTENTION} \<and> moved t c WS_SCREENING v r s s'"
      if "mem_changes_of s (t, c) = Some cur" "moved t c (retry_target (cr_status cur)) v r s s'" for cur v r s'
      using that by (auto simp: moved_def retry_target_def no_self_transition split: if_splits)
    show ?thesis
    proof
      show "case cancel_change_route iso_text mem_control stamp th ah c body s of (Inl e, s') \<Rightarrow> mem_changes_of s' = mem_changes_of s
        | (Inr r, s') \<Rightarrow> \<exists>t actor_id. validated_identifier th = Some t \<and> validated_identifier ah = Some actor_id \<and>
            moved t c WS_CANCELLED (tq_expected_version body) r s s'"
        unfolding cancel using step [of WS_CANCELLED] h(2,3) by (auto split: prod.splits sum.splits)
      show "case retry_change_route iso_text mem_control stamp th ah c body s of (Inl e, s') \<Rightarrow> mem_changes_of s' = mem_changes_of s
        | (Inr r, s') \<Rightarrow> \<exists>t actor_id cur. validated_identifier th = Some t \<and> validated_identifier ah = Some actor_id \<and>
            mem_changes_of s (t, c) = Some cur \<and> cr_status cur \<in> {WS_BLOCKED, WS_NEEDS_ATTENTION} \<and>
            moved t c WS_SCREENING (tq_expected_version body) r s s'"
      proof (cases "mem_changes_of s (t, c)")
        case (Some cur)
        with step [of "retry_target (cr_status cur)"] target [OF Some] h(2,3) show ?thesis
          unfolding retry by (auto split: prod.splits sum.splits)
      qed (simp add: retry)
    qed
  qed
qed

theorem user_mutations_guarded_witness:
  "case cancel_change_route demo_iso mem_control \<lparr>sp_now = Aware 5, sp_audit_id = ''a1''\<rparr> (Some ''t2'') (Some ''u1'') ''c1''
     \<lparr>tq_expected_version = 1, tq_trace_id = ''tr''\<rparr> demo_store of
     (Inl e, s') \<Rightarrow> mem_changes_of s' (''t1'', ''c1'') = Some demo_change | (Inr r, s') \<Rightarrow> False"
proof -
  let ?out = "cancel_change_route demo_iso mem_control \<lparr>sp_now = Aware 5, sp_audit_id = ''a1''\<rparr> (Some ''t2'') (Some ''u1'') ''c1''
     \<lparr>tq_expected_version = 1, tq_trace_id = ''tr''\<rparr> demo_store"
  have t: "validated_identifier (Some ''t2'') = Some ''t2''" by code_simp
  have none: "mem_changes_of demo_store (''t2'', ''c1'') = None" by (simp add: demo_store_changes)
  from user_mutations_guarded [OF demo_store_inv demo_store_valid, where iso_text = demo_iso and stamp = "\<lparr>sp_now = Aware 5, sp_audit_id = ''a1''\<rparr>"
    and th = "Some ''t2''" and ah = "Some ''u1''" and c = "''c1''" and body = "\<lparr>tq_expected_version = 1, tq_trace_id = ''tr''\<rparr>"]
  have "case ?out of (Inl e, s') \<Rightarrow> mem_changes_of s' = mem_changes_of demo_store
    | (Inr r, s') \<Rightarrow> \<exists>t actor_id. validated_identifier (Some ''t2'') = Some t \<and> validated_identifier (Some ''u1'') = Some actor_id \<and>
        moved t ''c1'' WS_CANCELLED (tq_expected_version \<lparr>tq_expected_version = 1, tq_trace_id = ''tr''\<rparr>) r demo_store s'" by (rule conjunct1)
  with t none show ?thesis by (auto simp: moved_def demo_store_changes split: prod.splits sum.splits)
qed

end
