(* ===== verification/Audit_Stream.thy ===== *)
theory Audit_Stream
  imports Control_Api
begin

text \<open>
  The resumable audit stream (\<^verbatim>\<open>services/control-api/.../sse.py\<close> and the streaming route): frames, the polling generator and the writes other
  clients make between two polls. The main result is that a connection delivers a gap-free, duplicate-free part of the change's history in
  order, and that a reconnection with the last identifier continues exactly there, as long as new events sort after the delivered ones.
\<close>

section \<open>Frames\<close>

fun actor_value :: "actor_type \<Rightarrow> string" where
  "actor_value Actor_USER = ''user''" | "actor_value Actor_AGENT = ''agent''"
| "actor_value Actor_SERVICE = ''service''" | "actor_value Actor_SYSTEM = ''system''"

text \<open>\<^verbatim>\<open>model_dump_json\<close> of an audit event, in the order of its fields.\<close>

definition audit_event_json :: "(instant \<Rightarrow> string) \<Rightarrow> audit_event \<Rightarrow> json" where
  "audit_event_json iso_text e = JObj [(''audit_event_id'', JStr (ae_audit_event_id e)), (''tenant_id'', JStr (ae_tenant_id e)),
     (''change_id'', JStr (ae_change_id e)), (''trace_id'', JStr (ae_trace_id e)), (''event_type'', JStr (ae_event_type e)),
     (''actor_type'', JStr (actor_value (ae_actor_type e))), (''actor_id'', JStr (ae_actor_id e)), (''resource'', JStr (ae_resource e)),
     (''action'', JStr (ae_action e)), (''decision_id'', opt_json JStr (ae_decision_id e)), (''input_hash'', JStr (ae_input_hash e)),
     (''output_hash'', JStr (ae_output_hash e)), (''status'', JStr (audit_status_value (ae_status e))),
     (''redacted_summary'', JStr (ae_redacted_summary e)), (''created_at'', JStr (iso_text (ae_created_at e)))]"

definition encode_audit_event :: "(instant \<Rightarrow> string) \<Rightarrow> audit_event \<Rightarrow> string" where
  "encode_audit_event iso_text e = ''id: '' @ ae_audit_event_id e @ [CHR 0x0A] @ ''event: audit'' @ [CHR 0x0A] @
     ''data: '' @ print_json (audit_event_json iso_text e) @ [CHR 0x0A, CHR 0x0A]"

datatype frame = Event_frame audit_event | Keep_alive

fun encode_frame :: "(instant \<Rightarrow> string) \<Rightarrow> frame \<Rightarrow> string" where
  "encode_frame iso_text (Event_frame e) = encode_audit_event iso_text e"
| "encode_frame iso_text Keep_alive = '': keep-alive'' @ [CHR 0x0A, CHR 0x0A]"

fun frame_events :: "frame list \<Rightarrow> audit_event list" where
  "frame_events [] = []"
| "frame_events (Event_frame e # fs) = e # frame_events fs"
| "frame_events (Keep_alive # fs) = frame_events fs"

section \<open>The generator\<close>

text \<open>
  The generator of one connection. Between two polls other clients write: each element of \<open>waits\<close> is one such interval, and the client is
  found disconnected when the list ends. The cursor is the identifier of the last event sent. A failing poll ends the stream.
\<close>

definition next_cursor :: "string option \<Rightarrow> audit_event list \<Rightarrow> string option" where
  "next_cursor cursor pending = (if pending = [] then cursor else Some (ae_audit_event_id (last pending)))"

fun audit_event_stream ::
  "'s control_repository \<Rightarrow> string \<Rightarrow> string \<Rightarrow> bool \<Rightarrow> string option \<Rightarrow> audit_event list \<Rightarrow> ('s \<Rightarrow> 's) list \<Rightarrow> 's \<Rightarrow> frame list \<times> 's" where
  "audit_event_stream P tenant_id change_id following cursor pending [] s = (map Event_frame pending, s)"
| "audit_event_stream P tenant_id change_id following cursor pending (wait # waits) s =
    (if \<not> following then (map Event_frame pending, s)
     else let keep = (if pending = [] then [Keep_alive] else []);
              cursor' = next_cursor cursor pending in
       case cp_list_audit_after P tenant_id change_id cursor' 100 (wait s) of
         (Inl e, s1) \<Rightarrow> (map Event_frame pending @ keep, s1)
       | (Inr pending', s1) \<Rightarrow> (case audit_event_stream P tenant_id change_id following cursor' pending' waits s1 of
           (frames, s2) \<Rightarrow> (map Event_frame pending @ keep @ frames, s2)))"

definition stream_change_route ::
  "'s control_repository \<Rightarrow> string option \<Rightarrow> string \<Rightarrow> string option \<Rightarrow> bool \<Rightarrow> ('s \<Rightarrow> 's) list \<Rightarrow> ('s, api_error, frame list) op" where
  "stream_change_route P tenant_header change_id last_event_id following waits =
     bnd (require_tenant tenant_header) (\<lambda>tenant_id.
     bnd (wrap_err persistence_response (cp_list_audit_after P tenant_id change_id last_event_id 100)) (\<lambda>initial_events s.
       case audit_event_stream P tenant_id change_id following last_event_id initial_events waits s of (frames, s') \<Rightarrow> (Inr frames, s')))"

section \<open>Delivery\<close>

text \<open>The events of a change after a cursor, and the position of a cursor in the change's history.\<close>

fun cursor_at :: "audit_event list \<Rightarrow> string option \<Rightarrow> nat \<Rightarrow> bool" where
  "cursor_at es None i \<longleftrightarrow> i = 0"
| "cursor_at es (Some x) i \<longleftrightarrow> 0 < i \<and> i \<le> length es \<and> ae_audit_event_id (es ! (i - 1)) = x"

text \<open>The writes of an interval keep the repository intact and add events only at the end of the change's history.\<close>

definition extends_history :: "string \<Rightarrow> string \<Rightarrow> repo_call list \<Rightarrow> mem_repo \<Rightarrow> bool" where
  "extends_history t c cs s \<longleftrightarrow> prefix (audit_stream s t c) (audit_stream (run_calls cs s) t c)"

fun intervals_extend :: "string \<Rightarrow> string \<Rightarrow> repo_call list list \<Rightarrow> mem_repo \<Rightarrow> bool" where
  "intervals_extend t c [] s \<longleftrightarrow> True"
| "intervals_extend t c (cs # css) s \<longleftrightarrow> extends_history t c cs s \<and> intervals_extend t c css (touched t c (run_calls cs s))"

text \<open>At most one page of new events per interval.\<close>

fun intervals_small :: "string \<Rightarrow> string \<Rightarrow> repo_call list list \<Rightarrow> mem_repo \<Rightarrow> bool" where
  "intervals_small t c [] s \<longleftrightarrow> True"
| "intervals_small t c (cs # css) s \<longleftrightarrow> length (audit_stream (run_calls cs s) t c) \<le> length (audit_stream s t c) + 100 \<and>
     intervals_small t c css (touched t c (run_calls cs s))"

lemma frame_events_append [simp]: "frame_events (xs @ ys) = frame_events xs @ frame_events ys"
  by (induction xs rule: frame_events.induct) simp_all

lemma frame_events_map [simp]: "frame_events (map Event_frame es) = es"
  by (induction es) simp_all

lemma frame_events_keep [simp]: "frame_events (if b then [Keep_alive] else []) = []"
  by simp

lemma cursor_at_prefix: "cursor_at es x i \<Longrightarrow> prefix es es' \<Longrightarrow> cursor_at es' x i"
  by (cases x) (auto simp: prefix_def nth_append)

text \<open>A page read at a cursor.\<close>

lemma page_after:
  assumes "mem_inv s" "dget (m_changes s) (t, c) \<noteq> None" "cursor_at (audit_stream s t c) x i" "0 \<le> n"
  shows "mem_list_audit_after t c x n s = (Inr (take (nat n) (drop i (audit_stream s t c))), touched t c s)"
proof (cases x)
  case None
  with assms show ?thesis by (auto simp: mem_list_audit_after_eq slice_to_def)
next
  case (Some y)
  with assms have i: "i - 1 < length (audit_stream s t c)" "ae_audit_event_id (audit_stream s t c ! (i - 1)) = y" "0 < i" by auto
  from find_index_key [OF distinct_audit_stream [OF assms(1)] i(1)] i
  have "find_index (\<lambda>e. ae_audit_event_id e = y) (audit_stream s t c) = Some (i - 1)" by simp
  with Some assms i show ?thesis by (auto simp: mem_list_audit_after_eq slice_to_def)
qed

lemma next_cursor_at:
  assumes "cursor_at es x i" "i \<le> length es"
  shows "cursor_at es (next_cursor x (take k (drop i es))) (i + length (take k (drop i es)))"
proof (cases "take k (drop i es) = []")
  case True
  then have "length (take k (drop i es)) = 0" by (simp only: list.size)
  with True show ?thesis using assms(1) by (simp only: next_cursor_def if_True add_0_right simp_thms)
next
  case False
  let ?p = "take k (drop i es)"
  have "last ?p = ?p ! (length ?p - 1)" by (rule last_conv_nth [OF False])
  moreover have "length ?p - 1 < length ?p" using False by (cases ?p) simp_all
  then have "?p ! (length ?p - 1) = es ! (i + (length ?p - 1))" using assms(2) by (simp only: length_take length_drop nth_take nth_drop min_less_iff_conj)
  ultimately have "last ?p = es ! (i + (length ?p - 1))" by simp
  with False assms(2) show ?thesis by (auto simp: next_cursor_def)
qed

lemma change_kept: "dget (m_changes s) k \<noteq> None \<Longrightarrow> dget (m_changes (run_calls cs s)) k \<noteq> None"
  using version_run_calls by blast

lemma stream_delivers:
  assumes "mem_inv s" "dget (m_changes s) (t, c) \<noteq> None" "cursor_at (audit_stream s t c) x i" "i \<le> length (audit_stream s t c)"
    "intervals_extend t c css s"
    "audit_event_stream mem_control t c True x (take 100 (drop i (audit_stream s t c))) (map run_calls css) s = (frames, s')"
  shows "(\<exists>k. frame_events frames = take k (drop i (audit_stream s' t c))) \<and> prefix (audit_stream s t c) (audit_stream s' t c) \<and>
    (length (audit_stream s t c) \<le> i + 100 \<and> intervals_small t c css s \<longrightarrow> frame_events frames = drop i (audit_stream s' t c))"
  using assms
proof (induction css arbitrary: s x i frames)
  case Nil
  then show ?case by auto
next
  case (Cons cs css)
  let ?es = "audit_stream s t c" and ?s1 = "run_calls cs s"
  let ?p = "take 100 (drop i ?es)" and ?es1 = "audit_stream ?s1 t c"
  let ?i1 = "i + length ?p" and ?x1 = "next_cursor x ?p"
  have ext: "prefix ?es ?es1" using Cons.prems(5) by (simp add: extends_history_def)
  have inv1: "mem_inv ?s1" by (rule mem_inv_run_calls [OF Cons.prems(1)])
  have here1: "dget (m_changes ?s1) (t, c) \<noteq> None" by (rule change_kept [OF Cons.prems(2)])
  have cur1: "cursor_at ?es1 ?x1 ?i1" by (rule cursor_at_prefix [OF next_cursor_at [OF Cons.prems(3,4)] ext])
  have le1: "?i1 \<le> length ?es1" using Cons.prems(4) prefix_length_le [OF ext] by simp
  have page: "cp_list_audit_after mem_control t c ?x1 100 ?s1 = (Inr (take 100 (drop ?i1 ?es1)), touched t c ?s1)"
    using page_after [OF inv1 here1 cur1, of 100] by (simp add: mem_control_def)
  obtain rest s2 where rest: "audit_event_stream mem_control t c True ?x1 (take 100 (drop ?i1 ?es1)) (map run_calls css) (touched t c ?s1) = (rest, s2)"
    by fastforce
  from Cons.prems(6) page rest have fr: "s' = s2" "frame_events frames = ?p @ frame_events rest"
    by (auto simp: Let_def split: prod.splits if_splits)
  have "(\<exists>k. frame_events rest = take k (drop ?i1 (audit_stream s' t c))) \<and> prefix ?es1 (audit_stream s' t c) \<and>
    (length ?es1 \<le> ?i1 + 100 \<and> intervals_small t c css (touched t c ?s1) \<longrightarrow> frame_events rest = drop ?i1 (audit_stream s' t c))"
    using Cons.IH [of "touched t c ?s1" ?x1 ?i1 rest] inv1 here1 cur1 le1 rest Cons.prems(5) fr(1) by (simp add: mem_inv_touched)
  then obtain k where k: "frame_events rest = take k (drop ?i1 (audit_stream s' t c))" and pre: "prefix ?es1 (audit_stream s' t c)"
    and all: "length ?es1 \<le> ?i1 + 100 \<Longrightarrow> intervals_small t c css (touched t c ?s1) \<Longrightarrow> frame_events rest = drop ?i1 (audit_stream s' t c)" by blast
  have pre0: "prefix ?es (audit_stream s' t c)" using ext pre by (rule prefix_order.trans)
  then have p: "?p = take (length ?p) (drop i (audit_stream s' t c))" using Cons.prems(4) by (cases "length (drop i ?es) \<le> 100") (auto simp: prefix_def min_def)
  have split: "take (length ?p) (drop i (audit_stream s' t c)) @ drop ?i1 (audit_stream s' t c) = drop i (audit_stream s' t c)"
    by (metis append_take_drop_id drop_drop add.commute)
  have "frame_events frames = take (length ?p + k) (drop i (audit_stream s' t c))"
    unfolding fr(2) k using p by (metis add.commute drop_drop take_add)
  moreover have "frame_events frames = drop i (audit_stream s' t c)" if "length ?es \<le> i + 100" "intervals_small t c (cs # css) s"
  proof -
    from that(1) have "?i1 = length ?es" using Cons.prems(4) by simp
    with that(2) have "frame_events rest = drop ?i1 (audit_stream s' t c)" by (intro all) simp_all
    then show ?thesis unfolding fr(2) using p split by (metis)
  qed
  ultimately show ?case using pre0 by blast
qed

lemma last_delivered_at:
  assumes "cursor_at es x i" "i \<le> length es" "prefix es es'" "ds = take k (drop i es')"
  shows "cursor_at es' (next_cursor x ds) (i + length ds)"
proof -
  have "i \<le> length es'" using assms(2) prefix_length_le [OF assms(3)] by simp
  then show ?thesis unfolding assms(4) by (rule next_cursor_at [OF cursor_at_prefix [OF assms(1,3)]])
qed

lemma map_filter_append: "List.map_filter f (xs @ ys) = List.map_filter f xs @ List.map_filter f ys"
  by (simp add: List.map_filter_def)

lemma map_filter_eq: "(\<And>x. x \<in> set xs \<Longrightarrow> f x = g x) \<Longrightarrow> List.map_filter f xs = List.map_filter g xs"
  by (induction xs) (auto simp: List.map_filter_simps split: option.split)

lemma events_of_with_audit:
  assumes "mem_inv s" "dget (m_audit s) (audit_key e) = None"
  shows "events_of (with_audit e s) t (stream_ids s (t, c)) = events_of s t (stream_ids s (t, c))"
  unfolding events_of_def
proof (rule map_filter_eq)
  fix i assume "i \<in> set (stream_ids s (t, c))"
  then have "dget (m_audit s) (t, i) \<noteq> None" using assms(1) by (auto simp: mem_inv_def mem_streams_ok_def)
  with assms(2) show "dget (m_audit (with_audit e s)) (t, i) = dget (m_audit s) (t, i)" by (auto simp: audit_key_def)
qed

lemma audit_stream_with_audit:
  assumes "mem_inv s" "dget (m_audit s) (audit_key e) = None"
  shows "audit_stream (with_audit e s) t c = (if t = ae_tenant_id e \<and> c = ae_change_id e
    then sort_key audit_order (events_of s t (stream_ids s (t, c)) @ [e]) else audit_stream s t c)"
  using events_of_with_audit [OF assms, of t c]
  by (auto simp: audit_stream_def stream_ids_writes events_of_def audit_key_def map_filter_append List.map_filter_simps)

text \<open>A history grows at its end when every new event is later than all events before it.\<close>

lemma later_event_extends:
  assumes "mem_inv s" "\<And>e'. e' \<in> set (audit_stream s t c) \<Longrightarrow> audit_order e' < audit_order e"
  shows "extends_history t c [Call_record_audit e] s"
proof -
  have "sort_key audit_order (events_of s t (stream_ids s (t, c)) @ [e]) = audit_stream s t c @ [e]"
  proof (rule properties_for_sort_key)
    show "filter (\<lambda>x. audit_order k = audit_order x) (audit_stream s t c @ [e]) =
        filter (\<lambda>x. audit_order k = audit_order x) (events_of s t (stream_ids s (t, c)) @ [e])" for k
      using sort_key_stable [of audit_order "audit_order k" "events_of s t (stream_ids s (t, c))"] by (simp add: audit_stream_def eq_commute)
    show "sorted (map audit_order (audit_stream s t c @ [e]))"
      using assms(2) by (auto simp: sorted_append sorted_audit_stream intro: less_imp_le)
  qed (simp add: audit_stream_def)
  then show ?thesis using audit_stream_with_audit [OF assms(1)]
    by (auto simp: extends_history_def mem_record_audit_eq split: option.split)
qed

section \<open>Properties\<close>

text \<open>
  C33. The audit stream loses nothing and repeats nothing: for an existing change and a cursor in its history, if the writes between polls
  append to that history, the events a connection delivers are a gap-free part of the history in order, starting right after the cursor; the
  identifier of the last delivered event is a valid cursor from which a reconnection continues exactly after it; and if the backlog and every
  interval bring at most one page of events, everything up to the last poll is delivered.
\<close>

theorem audit_stream_exact:
  assumes "mem_inv s" "validated_identifier header = Some t" "dget (m_changes s) (t, c) \<noteq> None"
    "cursor_at (audit_stream s t c) x i" "i \<le> length (audit_stream s t c)" "intervals_extend t c css (touched t c s)"
  shows "\<exists>frames s' k. stream_change_route mem_control header c x True (map run_calls css) s = (Inr frames, s') \<and>
    frame_events frames = take k (drop i (audit_stream s' t c)) \<and>
    cursor_at (audit_stream s' t c) (next_cursor x (frame_events frames)) (i + length (frame_events frames)) \<and>
    (length (audit_stream s t c) \<le> i + 100 \<and> intervals_small t c css (touched t c s) \<longrightarrow> frame_events frames = drop i (audit_stream s' t c))"
proof -
  have page: "cp_list_audit_after mem_control t c x 100 s = (Inr (take 100 (drop i (audit_stream s t c))), touched t c s)"
    using page_after [OF assms(1,3,4), of 100] by (simp add: mem_control_def)
  obtain frames s' where run: "audit_event_stream mem_control t c True x (take 100 (drop i (audit_stream s t c))) (map run_calls css) (touched t c s) =
    (frames, s')" by fastforce
  have route: "stream_change_route mem_control header c x True (map run_calls css) s = (Inr frames, s')"
    using page run assms(2) by (simp add: stream_change_route_def require_tenant_def bnd_def wrap_err_def)
  have d: "(\<exists>k. frame_events frames = take k (drop i (audit_stream s' t c))) \<and> prefix (audit_stream s t c) (audit_stream s' t c) \<and>
    (length (audit_stream s t c) \<le> i + 100 \<and> intervals_small t c css (touched t c s) \<longrightarrow> frame_events frames = drop i (audit_stream s' t c))"
    using stream_delivers [of "touched t c s" t c x i css frames s'] assms run by (simp add: mem_inv_touched)
  then obtain k where k: "frame_events frames = take k (drop i (audit_stream s' t c))" by blast
  have "cursor_at (audit_stream s' t c) (next_cursor x (frame_events frames)) (i + length (frame_events frames))"
    using last_delivered_at [OF assms(4,5) _ k] d by blast
  with route d k show ?thesis by blast
qed

definition stream_store :: mem_repo where
  "stream_store = run_calls store_calls mem_empty"

theorem audit_stream_exact_witness:
  "\<exists>frames s'. stream_change_route mem_control (Some ''t1'') ''c1'' None True
     (map run_calls [[Call_record_audit ((store_event ''t1'' ''a3'')\<lparr>ae_created_at := 5\<rparr>)]]) stream_store = (Inr frames, s') \<and>
     frame_events frames = audit_stream s' ''t1'' ''c1''"
proof -
  let ?e = "(store_event ''t1'' ''a3'')\<lparr>ae_created_at := 5\<rparr>"
  have inv: "mem_inv stream_store" unfolding stream_store_def by (rule mem_inv_reachable)
  have here: "dget (m_changes stream_store) (''t1'', ''c1'') \<noteq> None" by (simp add: stream_store_def store_run)
  have header: "validated_identifier (Some ''t1'') = Some ''t1''" by code_simp
  have hist: "audit_stream stream_store ''t1'' ''c1'' = [store_event ''t1'' ''a1'', store_event ''t1'' ''a2'']"
    by (simp add: stream_store_def audit_stream_def events_of_def stream_ids_def store_run List.map_filter_simps audit_order_def)
  have ext: "extends_history ''t1'' ''c1'' [Call_record_audit ?e] (touched ''t1'' ''c1'' stream_store)"
    using inv hist by (intro later_event_extends) (auto simp: mem_inv_touched audit_order_def store_event_def)
  have small: "length (audit_stream (run_calls [Call_record_audit ?e] (touched ''t1'' ''c1'' stream_store)) ''t1'' ''c1'') \<le> 3"
    by (simp add: stream_store_def audit_stream_def events_of_def stream_ids_def store_run List.map_filter_simps audit_order_def touched_def)
  have "\<exists>frames s' k. stream_change_route mem_control (Some ''t1'') ''c1'' None True (map run_calls [[Call_record_audit ?e]]) stream_store = (Inr frames, s') \<and>
    frame_events frames = take k (drop 0 (audit_stream s' ''t1'' ''c1'')) \<and>
    cursor_at (audit_stream s' ''t1'' ''c1'') (next_cursor None (frame_events frames)) (0 + length (frame_events frames)) \<and>
    (length (audit_stream stream_store ''t1'' ''c1'') \<le> 0 + 100 \<and> intervals_small ''t1'' ''c1'' [[Call_record_audit ?e]] (touched ''t1'' ''c1'' stream_store) \<longrightarrow>
      frame_events frames = drop 0 (audit_stream s' ''t1'' ''c1''))"
    by (rule audit_stream_exact [OF inv header here]) (use ext in simp_all)
  with hist small show ?thesis by auto
qed

text \<open>
  An event that sorts before the cursor is never delivered on that connection: here a second service whose clock is behind records an event
  between two polls, and the stream ends without it although the change's history has it.
\<close>

theorem late_event_skipped:
  "\<exists>frames s' e. stream_change_route mem_control (Some ''t1'') ''c1'' None True
     (map run_calls [[Call_record_audit ((store_event ''t1'' ''a0'')\<lparr>ae_created_at := - 1\<rparr>)]]) stream_store = (Inr frames, s') \<and>
     e \<in> set (audit_stream s' ''t1'' ''c1'') \<and> e \<notin> set (frame_events frames)"
proof -
  have header: "validated_identifier (Some ''t1'') = Some ''t1''" by code_simp
  let ?e = "(store_event ''t1'' ''a0'')\<lparr>ae_created_at := - 1\<rparr>"
  obtain frames s' where run: "stream_change_route mem_control (Some ''t1'') ''c1'' None True (map run_calls [[Call_record_audit ?e]]) stream_store =
      (Inr frames, s')" and frames: "frame_events frames = [store_event ''t1'' ''a1'', store_event ''t1'' ''a2'']"
      "?e \<in> set (audit_stream s' ''t1'' ''c1'')"
    using header by (simp add: stream_change_route_def require_tenant_def bnd_def wrap_err_def mem_control_def mem_list_audit_after_eq slice_to_def
        stream_store_def audit_stream_def events_of_def stream_ids_def store_run List.map_filter_simps audit_order_def touched_def next_cursor_def Let_def)
  have "?e \<notin> set (frame_events frames)" unfolding frames by (simp add: store_event_def)
  with run frames show ?thesis by blast
qed

end
