(* ===== verification/Base64.thy ===== *)
theory Base64
  imports Hmac
begin

text \<open>
  The standard-library codec behind identity tokens: \<^verbatim>\<open>base64.urlsafe_b64encode\<close> without its padding, and \<^verbatim>\<open>base64.b64decode\<close> with
  \<^verbatim>\<open>altchars=b"-_"\<close> and \<^verbatim>\<open>validate=True\<close>, which is the strict mode of \<^verbatim>\<open>binascii.a2b_base64\<close> of Python 3.12, quad position and padding state
  included. The decoder gives back what was encoded; it does not look at the unused low bits of the last character.
\<close>

section \<open>The alphabet\<close>

definition b64_char :: "nat \<Rightarrow> char" where
  "b64_char n = (if n < 26 then char_of (65 + n) else if n < 52 then char_of (71 + n) else if n < 62 then char_of (n - 4)
     else if n = 62 then CHR ''-'' else CHR ''_'')"

text \<open>The value of a character after the alternative characters are translated: both alphabets are read.\<close>

definition b64_value :: "char \<Rightarrow> nat option" where
  "b64_value c = (let n = of_char c :: nat in
     if 65 \<le> n \<and> n \<le> 90 then Some (n - 65) else if 97 \<le> n \<and> n \<le> 122 then Some (n - 71) else if 48 \<le> n \<and> n \<le> 57 then Some (n + 4)
     else if c = CHR ''-'' \<or> c = CHR ''+'' then Some 62 else if c = CHR ''_'' \<or> c = CHR ''/'' then Some 63 else None)"

section \<open>Encoding\<close>

fun b64_text :: "byte list \<Rightarrow> string" where
  "b64_text [] = []"
| "b64_text [a] = [b64_char (a div 4), b64_char (a mod 4 * 16)]"
| "b64_text [a, b] = [b64_char (a div 4), b64_char (a mod 4 * 16 + b div 16), b64_char (b mod 16 * 4)]"
| "b64_text (a # b # c # r) =
    [b64_char (a div 4), b64_char (a mod 4 * 16 + b div 16), b64_char (b mod 16 * 4 + c div 64), b64_char (c mod 64)] @ b64_text r"

section \<open>Strict decoding\<close>

text \<open>
  The loop of \<^verbatim>\<open>a2b_base64\<close>: the quad position, the bits left over from the last character, the number of pads in a row, and whether padding has
  started.
\<close>

fun b64_push :: "nat \<Rightarrow> nat \<Rightarrow> nat \<Rightarrow> byte list \<times> nat" where
  "b64_push quad left v =
    (if quad = 0 then ([], v) else if quad = 1 then ([left * 4 + v div 16], v mod 16)
     else if quad = 2 then ([left * 16 + v div 4], v mod 4) else ([left * 64 + v], 0))"

fun a2b_loop :: "nat \<Rightarrow> nat \<Rightarrow> nat \<Rightarrow> bool \<Rightarrow> string \<Rightarrow> byte list option" where
  "a2b_loop quad left pads padding [] = (if quad = 0 then Some [] else None)"
| "a2b_loop quad left pads padding (c # r) =
    (if c = CHR ''='' then
       (if 2 \<le> quad \<and> 4 \<le> quad + (pads + 1) then (if r = [] then Some [] else None)
        else a2b_loop quad left (if 2 \<le> quad then pads + 1 else pads) True r)
     else (case b64_value c of
         None \<Rightarrow> None
       | Some v \<Rightarrow> if padding then None
           else (case b64_push quad left v of (out, left') \<Rightarrow>
             map_option ((@) out) (a2b_loop ((quad + 1) mod 4) left' 0 False r))))"

definition a2b_base64 :: "string \<Rightarrow> byte list option" where
  "a2b_base64 s = (if s \<noteq> [] \<and> hd s = CHR ''='' then None else a2b_loop 0 0 0 False s)"

section \<open>The two helpers of the identity adapter\<close>

definition b64encode :: "byte list \<Rightarrow> string" where
  "b64encode value = b64_text value"

text \<open>The padding is \<^verbatim>\<open>-len(value) % 4\<close> equal signs; a character outside ASCII is refused.\<close>

definition b64_padding :: "string \<Rightarrow> string" where
  "b64_padding value = replicate (nat (- int (length value) mod 4)) (CHR ''='')"

definition b64decode :: "string \<Rightarrow> byte list option" where
  "b64decode value = (if is_ascii value then a2b_base64 (value @ b64_padding value) else None)"

section \<open>Round trip\<close>

lemma of_b64_char: "of_char (b64_char n) = (if n < 26 then 65 + n else if n < 52 then 71 + n else if n < 62 then n - 4
    else if n = 62 then 45 else 95 :: nat)"
  by (simp add: b64_char_def)

lemma char_neqI: "(of_char c :: nat) \<noteq> of_char d \<Longrightarrow> c \<noteq> d"
  by auto

lemma b64_value_char:
  assumes "n < 64"
  shows "b64_value (b64_char n) = Some n" "b64_char n \<noteq> CHR ''=''" "of_char (b64_char n) < (128 :: nat)" "b64_char n \<noteq> CHR ''.''"
proof -
  show "b64_char n \<noteq> CHR ''=''" by (rule char_neqI) (auto simp: of_b64_char)
  show "b64_char n \<noteq> CHR ''.''" by (rule char_neqI) (auto simp: of_b64_char)
  show "of_char (b64_char n) < (128 :: nat)" using assms by (auto simp: of_b64_char)
  consider "n < 26" | "26 \<le> n" "n < 52" | "52 \<le> n" "n < 62" | "n = 62" | "n = 63" using assms by linarith
  then show "b64_value (b64_char n) = Some n"
  proof cases
    case 3
    then have m: "of_char (b64_char n) = n - 4" by (simp add: of_b64_char)
    from 3 have "48 \<le> n - 4" "n - 4 \<le> 57" "\<not> (65 \<le> n - 4 \<and> n - 4 \<le> 90)" "\<not> (97 \<le> n - 4 \<and> n - 4 \<le> 122)" "n - 4 + 4 = n" by linarith+
    then show ?thesis unfolding b64_value_def m Let_def by simp
  next
    case 4
    then show ?thesis by (simp add: b64_char_def b64_value_def)
  next
    case 5
    then show ?thesis by (simp add: b64_char_def b64_value_def)
  qed (simp_all add: b64_value_def of_b64_char Let_def)
qed

lemma a2b_char:
  assumes "v < 64"
  shows "a2b_loop quad left pads False (b64_char v # r) =
    (case b64_push quad left v of (out, left') \<Rightarrow> map_option ((@) out) (a2b_loop ((quad + 1) mod 4) left' 0 False r))"
  using b64_value_char [OF assms] by simp

lemma a2b_pad [simp]: "a2b_loop quad left pads padding (CHR ''='' # r) =
    (if 2 \<le> quad \<and> 4 \<le> quad + (pads + 1) then (if r = [] then Some [] else None)
     else a2b_loop quad left (if 2 \<le> quad then pads + 1 else pads) True r)"
  by simp

declare a2b_loop.simps(2) [simp del]

lemma sextets:
  fixes a b c :: nat
  assumes "a < 256" "b < 256" "c < 256"
  shows "a div 4 < 64" "a mod 4 * 16 < 64" "a mod 4 * 16 + b div 16 < 64" "b mod 16 * 4 < 64" "b mod 16 * 4 + c div 64 < 64" "c mod 64 < 64"
proof -
  have "a mod 4 < 4" "b mod 16 < 16" "b div 16 < 16" "c div 64 < 4" using assms by (simp_all add: less_mult_imp_div_less)
  then show "a mod 4 * 16 < 64" "a mod 4 * 16 + b div 16 < 64" "b mod 16 * 4 < 64" "b mod 16 * 4 + c div 64 < 64" by linarith+
  show "a div 4 < 64" "c mod 64 < 64" using assms by (simp_all add: less_mult_imp_div_less)
qed

lemma a2b_triple:
  assumes "a < 256" "b < 256" "c < 256"
  shows "a2b_loop 0 0 pads False (b64_char (a div 4) # b64_char (a mod 4 * 16 + b div 16) # b64_char (b mod 16 * 4 + c div 64) #
    b64_char (c mod 64) # r) = map_option (\<lambda>out. a # b # c # out) (a2b_loop 0 0 0 False r)"
proof -
  note v = sextets(1,3,5,6) [OF assms]
  from assms have "b div 16 div 16 = 0" "b div 16 mod 16 = b div 16" "c div 64 div 4 = 0" "c div 64 mod 4 = c div 64" by simp_all
  then show ?thesis
    by (simp add: a2b_char [OF v(1)] a2b_char [OF v(2)] a2b_char [OF v(3)] a2b_char [OF v(4)] option.map_comp comp_def)
qed

lemma a2b_text:
  assumes "\<forall>b \<in> set bs. b < 256"
  shows "a2b_loop 0 0 0 False (b64_text bs @ b64_padding (b64_text bs)) = Some bs"
  using assms
proof (induction bs rule: b64_text.induct)
  case 1
  then show ?case by (simp add: b64_padding_def)
next
  case (2 a)
  then have v: "a div 4 < 64" "a mod 4 * 16 < 64" using sextets [of a 0 0] by simp_all
  have two: "replicate 2 (CHR ''='') = ''==''" by (simp add: numeral_2_eq_2)
  show ?case by (simp add: b64_padding_def a2b_char [OF v(1)] a2b_char [OF v(2)] two)
next
  case (3 a b)
  then have v: "a div 4 < 64" "a mod 4 * 16 + b div 16 < 64" "b mod 16 * 4 < 64" using sextets [of a b 0] by simp_all
  from 3 have "b < 256" by simp
  then have "b div 16 div 16 = 0" "b div 16 mod 16 = b div 16" by simp_all
  then show ?case by (simp add: b64_padding_def a2b_char [OF v(1)] a2b_char [OF v(2)] a2b_char [OF v(3)])
next
  case (4 a b c r)
  have "b64_padding (b64_text (a # b # c # r)) = b64_padding (b64_text r)"
  proof -
    have "- (4 + int (length (b64_text r))) mod 4 = - int (length (b64_text r)) mod 4" by presburger
    then show ?thesis by (simp add: b64_padding_def)
  qed
  with 4 show ?case by (simp add: a2b_triple)
qed

lemma b64_text_chars: "\<forall>b \<in> set bs. b < 256 \<Longrightarrow> c \<in> set (b64_text bs) \<Longrightarrow> \<exists>n < 64. c = b64_char n"
proof (induction bs rule: b64_text.induct)
  case (4 a b d r)
  then have "a div 4 < 64" "a mod 4 * 16 + b div 16 < 64" "b mod 16 * 4 + d div 64 < 64" "d mod 64 < 64" using sextets [of a b d] by simp_all
  moreover from 4(3) have "c \<in> {b64_char (a div 4), b64_char (a mod 4 * 16 + b div 16), b64_char (b mod 16 * 4 + d div 64), b64_char (d mod 64)} \<or>
      c \<in> set (b64_text r)" by simp
  moreover from 4(2) have "\<forall>b \<in> set r. b < 256" by simp
  ultimately show ?case using 4(1) by blast
next
  case (3 a b)
  then have "a div 4 < 64" "a mod 4 * 16 + b div 16 < 64" "b mod 16 * 4 < 64" using sextets [of a b 0] by simp_all
  moreover from 3(2) have "c \<in> {b64_char (a div 4), b64_char (a mod 4 * 16 + b div 16), b64_char (b mod 16 * 4)}" by simp
  ultimately show ?case by blast
next
  case (2 a)
  then have "a div 4 < 64" "a mod 4 * 16 < 64" using sextets [of a 0 0] by simp_all
  moreover from 2(2) have "c \<in> {b64_char (a div 4), b64_char (a mod 4 * 16)}" by simp
  ultimately show ?case by blast
qed simp

lemma b64encode_plain:
  assumes "\<forall>b \<in> set bs. b < 256"
  shows "is_ascii (b64encode bs)" "CHR ''.'' \<notin> set (b64encode bs)" "CHR ''='' \<notin> set (b64encode bs)"
  using b64_text_chars [OF assms] b64_value_char by (fastforce simp: is_ascii_def list_all_iff b64encode_def)+

lemma b64_round_trip:
  assumes "\<forall>b \<in> set bs. b < 256"
  shows "b64decode (b64encode bs) = Some bs"
proof -
  have "b64encode bs = [] \<or> hd (b64encode bs) \<noteq> CHR ''=''"
    using b64encode_plain(3) [OF assms] by (cases "b64encode bs") auto
  moreover have "b64encode bs = [] \<Longrightarrow> b64_padding (b64encode bs) = []" by (simp add: b64_padding_def)
  ultimately show ?thesis using a2b_text [OF assms] b64encode_plain(1) [OF assms]
    by (auto simp: b64decode_def a2b_base64_def b64encode_def hd_append)
qed

section \<open>Reading UTF-8\<close>

text \<open>\<^verbatim>\<open>bytes.decode("utf-8")\<close> on code points below 256.\<close>

fun utf8_text :: "byte list \<Rightarrow> string option" where
  "utf8_text [] = Some []"
| "utf8_text (a # r) =
    (if a < 128 then map_option (Cons (char_of a)) (utf8_text r)
     else if a = 194 \<or> a = 195 then (case r of
         b # r' \<Rightarrow> if 128 \<le> b \<and> b < 192 then map_option (Cons (char_of ((a - 192) * 64 + (b - 128)))) (utf8_text r') else None
       | [] \<Rightarrow> None)
     else None)"

lemma utf8_text_encode [simp]: "utf8_text (utf8_encode s) = Some s"
proof (induction s)
  case (Cons c s)
  define n where "n = (of_char c :: nat)"
  have n: "n < 256" unfolding n_def by (metis of_char_of nat_of_char_less_256)
  have c: "char_of n = c" by (simp add: n_def)
  show ?case
  proof (cases "n < 128")
    case True
    with Cons c show ?thesis by (simp add: utf8_encode_def utf8_char_def flip: n_def)
  next
    case False
    with n have "n div 64 = 2 \<or> n div 64 = 3" by linarith
    then have "192 + n div 64 = 194 \<or> 192 + n div 64 = 195" by auto
    moreover have "n div 64 * 64 + n mod 64 = n" by (rule div_mult_mod_eq)
    ultimately show ?thesis using False Cons c by (auto simp: utf8_encode_def utf8_char_def simp flip: n_def)
  qed
qed simp

lemma utf8_encode_byte: "b \<in> set (utf8_encode s) \<Longrightarrow> b < 256"
  by (auto simp: utf8_encode_def intro: utf8_char_bytes)

section \<open>Lenient decoding\<close>

text \<open>
  \<^verbatim>\<open>base64.urlsafe_b64decode\<close>: the same loop without the strict mode. Characters outside the alphabet are skipped, and the loop stops where the
  padding completes a quad.
\<close>

fun a2b_lenient :: "nat \<Rightarrow> nat \<Rightarrow> nat \<Rightarrow> string \<Rightarrow> byte list option" where
  "a2b_lenient quad left pads [] = (if quad = 0 then Some [] else None)"
| "a2b_lenient quad left pads (c # r) =
    (if c = CHR ''='' then
       (if 2 \<le> quad \<and> 4 \<le> quad + (pads + 1) then Some []
        else a2b_lenient quad left (if 2 \<le> quad then pads + 1 else pads) r)
     else (case b64_value c of
         None \<Rightarrow> a2b_lenient quad left pads r
       | Some v \<Rightarrow> (case b64_push quad left v of (out, left') \<Rightarrow>
           map_option ((@) out) (a2b_lenient ((quad + 1) mod 4) left' 0 r))))"

definition urlsafe_b64decode :: "string \<Rightarrow> byte list option" where
  "urlsafe_b64decode s = (if is_ascii s then a2b_lenient 0 0 0 s else None)"

lemma a2b_lenient_strict: "a2b_loop quad left pads padding s = Some bs \<Longrightarrow> a2b_lenient quad left pads s = Some bs"
proof (induction s arbitrary: quad left pads padding bs)
  case (Cons c r)
  show ?case
  proof (cases "c = CHR ''=''")
    case True
    with Cons show ?thesis by (auto split: if_splits)
  next
    case False
    with Cons.prems obtain v out left' x where "b64_value c = Some v" "b64_push quad left v = (out, left')"
      "a2b_loop ((quad + 1) mod 4) left' 0 False r = Some x" "bs = out @ x"
      by (auto simp: a2b_loop.simps(2) split: option.splits if_splits prod.splits)
    with False Cons.IH show ?thesis by simp
  qed
qed simp

lemma urlsafe_round_trip:
  assumes "\<forall>b \<in> set bs. b < 256"
  shows "urlsafe_b64decode (b64encode bs @ b64_padding (b64encode bs)) = Some bs"
proof -
  have "is_ascii (b64_padding (b64encode bs))" by (simp add: is_ascii_def b64_padding_def list_all_iff)
  with b64encode_plain(1) [OF assms] have "is_ascii (b64encode bs @ b64_padding (b64encode bs))" by (simp add: is_ascii_def)
  with a2b_lenient_strict [OF a2b_text [OF assms]] show ?thesis by (simp add: urlsafe_b64decode_def b64encode_def)
qed

end
