(* ===== verification/Service_Auth.thy ===== *)
theory Service_Auth
  imports Base64 Json_Reader Http_Transport
begin

text \<open>
  Platform identity tokens for calls between services (\<^verbatim>\<open>packages/changeops-core/.../service_auth.py\<close>): the audience of a service URL, the expiry of a
  token, and the provider that caches one token per audience. The token fetcher of the Google library and the clock are arguments; moments are
  microseconds, and the expiry of a token is read by the model's JSON reader, as a whole number of seconds.
\<close>

section \<open>URLs\<close>

text \<open>
  \<^verbatim>\<open>urllib.parse.urlsplit\<close> down to scheme and network location, for URLs without control characters; a location with one of the two brackets only is
  a \<^verbatim>\<open>ValueError\<close>.
\<close>

definition is_scheme_char :: "char \<Rightarrow> bool" where
  "is_scheme_char c \<longleftrightarrow> is_alnum c \<or> c \<in> set ''+-.''"

definition is_letter :: "char \<Rightarrow> bool" where
  "is_letter c \<longleftrightarrow> is_alnum c \<and> \<not> is_digit c"

definition ascii_lower :: "char \<Rightarrow> char" where
  "ascii_lower c = (let n = of_char c :: nat in if 65 \<le> n \<and> n \<le> 90 then char_of (n + 32) else c)"

definition split_scheme :: "string \<Rightarrow> string \<times> string" where
  "split_scheme url = (let candidate = takeWhile (\<lambda>c. c \<noteq> CHR '':'') url in
     if candidate \<noteq> [] \<and> candidate \<noteq> url \<and> is_letter (hd candidate) \<and> list_all is_scheme_char candidate
     then (map ascii_lower candidate, drop (length candidate + 1) url) else ([], url))"

definition urlsplit :: "string \<Rightarrow> (string \<times> string) option" where
  "urlsplit url = (case split_scheme url of (scheme, rest) \<Rightarrow>
     let netloc = (if prefix ''//'' rest then takeWhile (\<lambda>c. c \<notin> set ''/?#'') (drop 2 rest) else []) in
     if (CHR ''['' \<in> set netloc) \<noteq> (CHR '']'' \<in> set netloc) then None else Some (scheme, netloc))"

text \<open>The part of a network location before its last at sign; user name and password are its sides of the first colon.\<close>

definition userinfo :: "string \<Rightarrow> string" where
  "userinfo netloc = rev (drop 1 (dropWhile (\<lambda>c. c \<noteq> CHR ''@'') (rev netloc)))"

definition has_credentials :: "string \<Rightarrow> bool" where
  "has_credentials netloc \<longleftrightarrow> (let info = userinfo netloc; name = takeWhile (\<lambda>c. c \<noteq> CHR '':'') info in
     name \<noteq> [] \<or> drop (length name + 1) info \<noteq> [])"

definition service_audience :: "string \<Rightarrow> string option" where
  "service_audience url = (case urlsplit url of
     None \<Rightarrow> None
   | Some (scheme, netloc) \<Rightarrow>
       if scheme \<noteq> ''https'' \<or> netloc = [] \<or> has_credentials netloc then None else Some (''https://'' @ netloc))"

section \<open>Tokens\<close>

datatype auth_failure = ServiceAuthenticationError | Auth_value_error | Auth_unexpected

text \<open>\<^verbatim>\<open>token.split(".")[1]\<close>.\<close>

definition second_part :: "string \<Rightarrow> string option" where
  "second_part token = (case dropWhile (\<lambda>c. c \<noteq> CHR ''.'') token of
     [] \<Rightarrow> None
   | dot # rest \<Rightarrow> Some (takeWhile (\<lambda>c. c \<noteq> CHR ''.'') rest))"

fun exp_claim :: "json \<Rightarrow> json option" where
  "exp_claim (JObj kvs) = jget kvs ''exp''"
| "exp_claim _ = None"

definition decoded_claims :: "string \<Rightarrow> json option" where
  "decoded_claims payload = Option.bind (urlsafe_b64decode (payload @ b64_padding payload)) (\<lambda>b. Option.bind (utf8_text b) loads)"

text \<open>\<^verbatim>\<open>float(expiry)\<close> of a whole number that no double can hold is an \<^verbatim>\<open>OverflowError\<close>.\<close>

definition expiry_of :: "int \<Rightarrow> auth_failure + instant" where
  "expiry_of i = (if \<bar>i\<bar> < 2 ^ 1024 - 2 ^ 970 then Inr (seconds i) else Inl Auth_unexpected)"

definition token_expiry :: "string \<Rightarrow> auth_failure + instant" where
  "token_expiry token = (case Option.bind (Option.bind (second_part token) decoded_claims) exp_claim of
     Some (JInt i) \<Rightarrow> expiry_of i
   | Some (JBool b) \<Rightarrow> expiry_of (if b then 1 else 0)
   | _ \<Rightarrow> Inl ServiceAuthenticationError)"

section \<open>The provider\<close>

text \<open>What the token fetcher raises: \<^verbatim>\<open>GoogleAuthError\<close>, \<^verbatim>\<open>OSError\<close> and \<^verbatim>\<open>ValueError\<close>, or anything else.\<close>

datatype fetch_failure = Fetch_refused | Fetch_crashed

record 'x auth_provider =
  sa_fetch :: "string \<Rightarrow> ('x, fetch_failure, string) op"
  sa_refresh_margin :: int

record 'x auth_state =
  sa_tokens :: "(string, string \<times> instant) dict"
  sa_world :: 'x

type_synonym ('x, 'a) auth_op = "('x auth_state, auth_failure, 'a) op"

fun fetch_error :: "fetch_failure \<Rightarrow> auth_failure" where
  "fetch_error Fetch_refused = ServiceAuthenticationError"
| "fetch_error Fetch_crashed = Auth_unexpected"

definition on_world :: "('x, fetch_failure, 'a) op \<Rightarrow> ('x, 'a) auth_op" where
  "on_world m = zoom sa_world (\<lambda>x s. s\<lparr>sa_world := x\<rparr>) fetch_error m"

text \<open>The clock is read for the cached token and again after a new one was fetched.\<close>

definition refresh_token :: "'x auth_provider \<Rightarrow> instant \<Rightarrow> string \<Rightarrow> ('x, string) auth_op" where
  "refresh_token A now audience =
     bnd (on_world (sa_fetch A audience)) (\<lambda>token.
     bnd (lift_sum (token_expiry token)) (\<lambda>expiry.
     bnd (guard (\<not> expiry \<le> now) ServiceAuthenticationError) (\<lambda>_ s.
       ret token (s\<lparr>sa_tokens := dput audience (token, expiry) (sa_tokens s)\<rparr>))))"

definition cached_token :: "'x auth_provider \<Rightarrow> instant \<Rightarrow> instant \<Rightarrow> string \<Rightarrow> ('x, string) auth_op" where
  "cached_token A now later audience s = (case dget (sa_tokens s) audience of
     Some (token, expiry) \<Rightarrow> if now < expiry - sa_refresh_margin A then ret token s else refresh_token A later audience s
   | None \<Rightarrow> refresh_token A later audience s)"

definition service_headers :: "'x auth_provider \<Rightarrow> instant \<Rightarrow> instant \<Rightarrow> string \<Rightarrow> ('x, (string \<times> string) list) auth_op" where
  "service_headers A now later url =
     bnd (validated Auth_value_error (service_audience url)) (\<lambda>audience.
     bnd (cached_token A now later audience) (\<lambda>token. ret [(''X-Serverless-Authorization'', ''Bearer '' @ token)]))"

text \<open>The local adapter adds no header.\<close>

definition noop_headers :: "string \<Rightarrow> ('s, auth_failure, (string \<times> string) list) op" where
  "noop_headers url = ret []"

section \<open>Facts\<close>

text \<open>Every cached token came from the fetcher for its audience, with the expiry it states.\<close>

definition fetched_for :: "'x auth_provider \<Rightarrow> string \<Rightarrow> string \<Rightarrow> bool" where
  "fetched_for A audience token \<longleftrightarrow> (\<exists>x x'. sa_fetch A audience x = (Inr token, x'))"

definition cache_ok :: "'x auth_provider \<Rightarrow> 'x auth_state \<Rightarrow> bool" where
  "cache_ok A s \<longleftrightarrow> (\<forall>audience token expiry. dget (sa_tokens s) audience = Some (token, expiry) \<longrightarrow>
     fetched_for A audience token \<and> token_expiry token = Inr expiry)"

definition token_valid :: "'x auth_provider \<Rightarrow> instant \<Rightarrow> instant \<Rightarrow> string \<Rightarrow> string \<Rightarrow> bool" where
  "token_valid A now later audience token \<longleftrightarrow> fetched_for A audience token \<and>
     (\<exists>expiry. token_expiry token = Inr expiry \<and> (now + sa_refresh_margin A < expiry \<or> later < expiry))"

lemma cache_ok_world [simp]: "cache_ok A (s\<lparr>sa_world := x\<rparr>) = cache_ok A s"
  by (simp add: cache_ok_def)

lemma refresh_token_run:
  assumes "cache_ok A s" "refresh_token A later audience s = (r, s')"
  shows "cache_ok A s' \<and> (case r of Inl e \<Rightarrow> sa_tokens s' = sa_tokens s | Inr token \<Rightarrow> token_valid A now later audience token)"
proof -
  obtain f x where fetch: "sa_fetch A audience (sa_world s) = (f, x)" by fastforce
  show ?thesis
  proof (cases f)
    case (Inl e)
    with fetch assms show ?thesis by (auto simp: refresh_token_def on_world_def zoom_def bnd_def)
  next
    case (Inr token)
    then have got: "fetched_for A audience token" using fetch unfolding fetched_for_def by blast
    show ?thesis
    proof (cases "token_expiry token")
      case (Inl e)
      with fetch \<open>f = Inr token\<close> assms show ?thesis by (auto simp: refresh_token_def on_world_def zoom_def bnd_def)
    next
      case (Inr expiry)
      have run: "refresh_token A later audience s = (if expiry \<le> later then (Inl ServiceAuthenticationError, s\<lparr>sa_world := x\<rparr>)
          else (Inr token, s\<lparr>sa_world := x, sa_tokens := dput audience (token, expiry) (sa_tokens s)\<rparr>))"
        using fetch \<open>f = Inr token\<close> Inr by (simp add: refresh_token_def on_world_def zoom_def bnd_def)
      have "cache_ok A (s\<lparr>sa_world := x, sa_tokens := dput audience (token, expiry) (sa_tokens s)\<rparr>)"
        using assms(1) got Inr by (auto simp: cache_ok_def dget_dput)
      with run assms got Inr show ?thesis by (auto simp: token_valid_def split: if_splits)
    qed
  qed
qed

section \<open>Properties\<close>

text \<open>
  A service call carries a live token for the service it calls: the header holds a token that the platform issued for exactly the origin of the
  URL, which is an HTTPS origin without credentials, and that expires after the moment of the call, by more than the refresh margin when it comes
  from the cache; otherwise the call fails, and no token of any service is replaced. The cache keeps this property.
\<close>

theorem service_tokens_live:
  assumes "cache_ok A s"
  shows "case service_headers A now later url s of
      (Inl e, s') \<Rightarrow> cache_ok A s' \<and> sa_tokens s' = sa_tokens s
    | (Inr headers, s') \<Rightarrow> cache_ok A s' \<and> (\<exists>audience token. service_audience url = Some audience \<and> prefix ''https://'' audience \<and>
        headers = [(''X-Serverless-Authorization'', ''Bearer '' @ token)] \<and> token_valid A now later audience token)"
proof (cases "service_audience url")
  case None
  with assms show ?thesis by (simp add: service_headers_def bnd_def)
next
  case (Some audience)
  then have https: "prefix ''https://'' audience" by (auto simp: service_audience_def split: option.splits if_splits)
  obtain r s' where run: "cached_token A now later audience s = (r, s')" by fastforce
  have "cache_ok A s' \<and> (case r of Inl e \<Rightarrow> sa_tokens s' = sa_tokens s | Inr token \<Rightarrow> token_valid A now later audience token)"
  proof (cases "\<exists>token expiry. dget (sa_tokens s) audience = Some (token, expiry) \<and> now < expiry - sa_refresh_margin A")
    case True
    then obtain token expiry where hit: "dget (sa_tokens s) audience = Some (token, expiry)" "now < expiry - sa_refresh_margin A" by blast
    with run have "r = Inr token" "s' = s" by (simp_all add: cached_token_def)
    moreover have "token_valid A now later audience token" using hit assms by (auto simp: cache_ok_def token_valid_def)
    ultimately show ?thesis using assms by simp
  next
    case False
    then have "cached_token A now later audience s = refresh_token A later audience s"
      by (auto simp: cached_token_def split: option.split)
    with run have "refresh_token A later audience s = (r, s')" by simp
    from refresh_token_run [OF assms this] show ?thesis .
  qed
  with Some https run show ?thesis by (cases r) (auto simp: service_headers_def bnd_def)
qed

definition sample_fetch :: "string \<Rightarrow> (nat, fetch_failure, string) op" where
  "sample_fetch audience n = (Inr (''h.'' @ b64encode (utf8_encode (compact_dumps (JObj [(''exp'', JInt 4000)]))) @ ''.s''), Suc n)"

definition sample_provider :: "nat auth_provider" where
  "sample_provider = \<lparr>sa_fetch = sample_fetch, sa_refresh_margin = seconds 300\<rparr>"

theorem service_tokens_live_witness:
  "case service_headers sample_provider (seconds 100) (seconds 101) ''https://crm.example/v1'' \<lparr>sa_tokens = [], sa_world = 0\<rparr> of
     (Inl e, s') \<Rightarrow> False
   | (Inr headers, s') \<Rightarrow> \<exists>token. headers = [(''X-Serverless-Authorization'', ''Bearer '' @ token)] \<and>
       token_valid sample_provider (seconds 100) (seconds 101) ''https://crm.example'' token"
proof -
  let ?s = "\<lparr>sa_tokens = [], sa_world = 0 :: nat\<rparr>"
  let ?run = "service_headers sample_provider (seconds 100) (seconds 101) ''https://crm.example/v1'' ?s"
  have aud: "service_audience ''https://crm.example/v1'' = Some ''https://crm.example''" by code_simp
  have ok: "cache_ok sample_provider ?s" by (simp add: cache_ok_def)
  have "token_expiry (''h.'' @ b64encode (utf8_encode (compact_dumps (JObj [(''exp'', JInt 4000)]))) @ ''.s'') = Inr (seconds 4000)" by code_simp
  then have "\<not> isl (fst ?run)"
    by (simp add: service_headers_def aud bnd_def cached_token_def refresh_token_def on_world_def zoom_def sample_provider_def sample_fetch_def time_unfold)
  with service_tokens_live [OF ok, where now = "seconds 100" and later = "seconds 101" and url = "''https://crm.example/v1''"] aud show ?thesis
    by (auto split: prod.splits sum.splits)
qed

end
