(* ===== verification/Identity_Token.thy ===== *)
theory Identity_Token
  imports Base64 Json_Reader Governance_Store
begin

text \<open>
  The identity adapter of the Tool Gateway (\<^verbatim>\<open>services/tool-gateway/.../identity.py\<close>): tokens of three Base64 parts signed with HMAC-SHA256, their
  issue and their verification, and \<^verbatim>\<open>_authenticate_identity\<close> of \<^verbatim>\<open>app.py\<close>, which reads the token from the request. The wall clock is an argument.
  Claims with fractional numbers or with code points above U+00FF are refused by the model's JSON reader.
\<close>

section \<open>JSON bytes\<close>

text \<open>\<^verbatim>\<open>json.loads\<close> on bytes: \<^verbatim>\<open>detect_encoding\<close> and the decoders it chooses from.\<close>

datatype text_encoding = Utf8 | Utf16 bool | Utf32 bool

definition detect_encoding :: "byte list \<Rightarrow> text_encoding \<times> byte list" where
  "detect_encoding b =
    (if prefix [0, 0, 254, 255] b then (Utf32 True, drop 4 b) else if prefix [255, 254, 0, 0] b then (Utf32 False, drop 4 b)
     else if prefix [254, 255] b then (Utf16 True, drop 2 b) else if prefix [255, 254] b then (Utf16 False, drop 2 b)
     else if prefix [239, 187, 191] b then (Utf8, drop 3 b)
     else if 4 \<le> length b then
       (if b ! 0 = 0 then (if b ! 1 \<noteq> 0 then Utf16 True else Utf32 True, b)
        else if b ! 1 = 0 then (if b ! 2 \<noteq> 0 \<or> b ! 3 \<noteq> 0 then Utf16 False else Utf32 False, b)
        else (Utf8, b))
     else if length b = 2 then (if b ! 0 = 0 then Utf16 True else if b ! 1 = 0 then Utf16 False else Utf8, b)
     else (Utf8, b))"

text \<open>The decoders, on code points below 256.\<close>

fun utf16_text :: "bool \<Rightarrow> byte list \<Rightarrow> string option" where
  "utf16_text big (x # y # r) = (let (high, low) = (if big then (x, y) else (y, x)) in
     if high = 0 then map_option (Cons (char_of low)) (utf16_text big r) else None)"
| "utf16_text big [] = Some []"
| "utf16_text big [x] = None"

fun utf32_text :: "bool \<Rightarrow> byte list \<Rightarrow> string option" where
  "utf32_text big (w # x # y # z # r) = (let (high, low) = (if big then ([w, x, y], z) else ([x, y, z], w)) in
     if high = [0, 0, 0] then map_option (Cons (char_of low)) (utf32_text big r) else None)"
| "utf32_text big r = (if r = [] then Some [] else None)"

definition decoded_text :: "byte list \<Rightarrow> string option" where
  "decoded_text b = (case detect_encoding b of
     (Utf8, r) \<Rightarrow> utf8_text r | (Utf16 big, r) \<Rightarrow> utf16_text big r | (Utf32 big, r) \<Rightarrow> utf32_text big r)"

text \<open>The hook \<^verbatim>\<open>_reject_duplicate_keys\<close> sees every object of the document.\<close>

fun unique_keys :: "json \<Rightarrow> bool" where
  "unique_keys (JArr xs) = list_all unique_keys xs"
| "unique_keys (JObj kvs) = (distinct (map fst kvs) \<and> list_all (\<lambda>kv. unique_keys (snd kv)) kvs)"
| "unique_keys j = True"

definition load_document :: "byte list \<Rightarrow> json option" where
  "load_document b = (case decoded_text b of
     None \<Rightarrow> None
   | Some t \<Rightarrow> (case loads t of None \<Rightarrow> None | Some j \<Rightarrow> if unique_keys j then Some j else None))"

section \<open>Claims\<close>

text \<open>\<^verbatim>\<open>int(text)\<close>: white space around it, a sign, and digits in groups joined by single underscores.\<close>

definition is_int_space :: "char \<Rightarrow> bool" where
  "is_int_space c \<longleftrightarrow> (let n = of_char c :: nat in 9 \<le> n \<and> n \<le> 13 \<or> n = 32 \<or> n = 133 \<or> n = 160)"

fun digit_groups :: "string \<Rightarrow> bool" where
  "digit_groups [] = False"
| "digit_groups [c] = is_digit c"
| "digit_groups (c # d # r) = (is_digit c \<and> (if d = CHR ''_'' then digit_groups r else digit_groups (d # r)))"

definition int_of_text :: "string \<Rightarrow> int option" where
  "int_of_text s = (let t = rev (dropWhile is_int_space (rev (dropWhile is_int_space s)));
       u = (if t \<noteq> [] \<and> (hd t = CHR ''-'' \<or> hd t = CHR ''+'') then tl t else t);
       digits = filter is_digit u; v = int (decimal_value digits) in
     if digit_groups u \<and> length digits \<le> 4300 then Some (if hd t = CHR ''-'' then - v else v) else None)"

fun int_of_claim :: "json \<Rightarrow> int option" where
  "int_of_claim (JInt i) = Some i"
| "int_of_claim (JBool b) = Some (if b then 1 else 0)"
| "int_of_claim (JStr s) = int_of_text s"
| "int_of_claim _ = None"

fun text_of_claim :: "json \<Rightarrow> string option" where
  "text_of_claim (JStr s) = Some s"
| "text_of_claim _ = None"

fun kind_value :: "identity_kind \<Rightarrow> string" where
  "kind_value Kind_AGENT = ''agent''" | "kind_value Kind_SERVICE = ''service''" | "kind_value Kind_USER = ''user''"

definition kind_of_value :: "string \<Rightarrow> identity_kind option" where
  "kind_of_value s = find (\<lambda>k. kind_value k = s) [Kind_AGENT, Kind_SERVICE, Kind_USER]"

definition role_of_value :: "string \<Rightarrow> user_role option" where
  "role_of_value s = find (\<lambda>r. role_value r = s) [CHANGE_REQUESTER, APPROVER, AUDITOR, PLATFORM_ADMIN]"

text \<open>\<^verbatim>\<open>tuple(payload.get("roles", ()))\<close>: a string is its characters and an object is its keys; \<^const>\<open>None\<close> is the \<^verbatim>\<open>TypeError\<close> of other values.\<close>

fun role_items :: "json option \<Rightarrow> json list option" where
  "role_items None = Some []"
| "role_items (Some (JArr xs)) = Some xs"
| "role_items (Some (JStr s)) = Some (map (\<lambda>c. JStr [c]) s)"
| "role_items (Some (JObj kvs)) = Some (map (\<lambda>kv. JStr (fst kv)) kvs)"
| "role_items _ = None"

definition roles_of_claim :: "json option \<Rightarrow> user_role list option" where
  "roles_of_claim claim = Option.bind (role_items claim) (\<lambda>xs. those (map (\<lambda>x. Option.bind (text_of_claim x) role_of_value) xs))"

definition claims_invalid :: gateway_error where
  "claims_invalid = AuthenticationError ''Identity token claims are invalid.''"

text \<open>
  \<^verbatim>\<open>datetime.fromtimestamp(seconds, tz=UTC)\<close>: a year outside 1 to 9999 is a \<^verbatim>\<open>ValueError\<close>; seconds that \<^verbatim>\<open>gmtime\<close> cannot convert are an \<^verbatim>\<open>OSError\<close>
  or an \<^verbatim>\<open>OverflowError\<close>, which \<^verbatim>\<open>verify\<close> does not catch.
\<close>

definition from_timestamp :: "int \<Rightarrow> gateway_error + instant" where
  "from_timestamp i =
    (if - 62135596800 \<le> i \<and> i \<le> 253402300799 then Inr (seconds i)
     else if - 67768040609740800 \<le> i \<and> i \<le> 67768036191676799 then Inl claims_invalid
     else Inl UnhandledError)"

definition time_claim :: "(string \<times> json) list \<Rightarrow> string \<Rightarrow> ('s, gateway_error, instant) op" where
  "time_claim payload key =
     bnd (validated claims_invalid (Option.bind (map_of payload key) int_of_claim)) (\<lambda>i. lift_sum (from_timestamp i))"

definition string_claim :: "(string \<times> json) list \<Rightarrow> string \<Rightarrow> ('s, gateway_error, string) op" where
  "string_claim payload key = validated claims_invalid (Option.bind (map_of payload key) text_of_claim)"

section \<open>The verifier\<close>

record identity_verifier =
  hv_secret :: "byte list"
  hv_audience :: string
  hv_maximum_lifetime :: int

definition HmacIdentityVerifier :: "string \<Rightarrow> string \<Rightarrow> int \<Rightarrow> identity_verifier option" where
  "HmacIdentityVerifier secret audience maximum_lifetime =
    (if length (utf8_encode secret) < 32 then None
     else if py_strip audience = [] then None
     else Some \<lparr>hv_secret = utf8_encode secret, hv_audience = audience, hv_maximum_lifetime = maximum_lifetime\<rparr>)"

text \<open>\<^verbatim>\<open>int(moment.timestamp())\<close>, exact while the double has room for the microseconds (moments before the year 2242).\<close>

definition whole_seconds :: "instant \<Rightarrow> int" where
  "whole_seconds t = (if t < 0 then - (- t div 1000000) else t div 1000000)"

definition token_header :: json where
  "token_header = JObj [(''alg'', JStr ''HS256''), (''typ'', JStr ''JWT'')]"

definition signing_input :: "string \<Rightarrow> string \<Rightarrow> string" where
  "signing_input encoded_header encoded_payload = encoded_header @ CHR ''.'' # encoded_payload"

definition token_signature :: "identity_verifier \<Rightarrow> string \<Rightarrow> byte list" where
  "token_signature V message = hmac_digest (hv_secret V) (utf8_encode message)"

definition token_payload :: "identity_verifier \<Rightarrow> instant \<Rightarrow> string \<Rightarrow> string \<Rightarrow> identity_kind \<Rightarrow> user_role list \<Rightarrow> int \<Rightarrow> json" where
  "token_payload V now subject tenant_id kind roles lifetime = JObj
    [(''aud'', JStr (hv_audience V)), (''exp'', JInt (whole_seconds (now + lifetime))), (''iat'', JInt (whole_seconds now)),
     (''kind'', JStr (kind_value kind)), (''roles'', JArr (map (\<lambda>r. JStr (role_value r)) roles)), (''sub'', JStr subject),
     (''tenant_id'', JStr tenant_id)]"

definition issue :: "identity_verifier \<Rightarrow> instant \<Rightarrow> string \<Rightarrow> string \<Rightarrow> identity_kind \<Rightarrow> user_role list \<Rightarrow> int \<Rightarrow> string" where
  "issue V now subject tenant_id kind roles lifetime =
    (let encoded_header = b64encode (utf8_encode (compact_dumps token_header));
         encoded_payload = b64encode (utf8_encode (compact_dumps (token_payload V now subject tenant_id kind roles lifetime)));
         message = signing_input encoded_header encoded_payload in
     message @ CHR ''.'' # b64encode (token_signature V message))"

text \<open>\<^verbatim>\<open>text.split(".")\<close>.\<close>

fun split_dots :: "string \<Rightarrow> string list" where
  "split_dots [] = [[]]"
| "split_dots (c # r) = (case split_dots r of
     p # ps \<Rightarrow> if c = CHR ''.'' then [] # p # ps else (c # p) # ps
   | [] \<Rightarrow> [])"

definition decode_part :: "string \<Rightarrow> ('s, gateway_error, byte list) op" where
  "decode_part part = validated (AuthenticationError ''Identity token encoding is invalid.'') (b64decode part)"

text \<open>Two dictionaries are equal whatever the order of their keys.\<close>

definition supported_header :: "json \<Rightarrow> bool" where
  "supported_header header = (case header of
     JObj kvs \<Rightarrow> length kvs = 2 \<and> map_of kvs ''alg'' = Some (JStr ''HS256'') \<and> map_of kvs ''typ'' = Some (JStr ''JWT'')
   | _ \<Rightarrow> False)"

definition identity_of_payload :: "identity_verifier \<Rightarrow> instant \<Rightarrow> (string \<times> json) list \<Rightarrow> ('s, gateway_error, verified_identity) op" where
  "identity_of_payload V now payload =
     bnd (time_claim payload ''iat'') (\<lambda>issued_at.
     bnd (time_claim payload ''exp'') (\<lambda>expires_at.
     bnd (guard (map_of payload ''aud'' = Some (JStr (hv_audience V))) claims_invalid) (\<lambda>_.
     bnd (guard (\<not> now + seconds 30 < issued_at) claims_invalid) (\<lambda>_.
     bnd (guard (\<not> expires_at \<le> now) claims_invalid) (\<lambda>_.
     bnd (guard (\<not> hv_maximum_lifetime V < expires_at - issued_at) claims_invalid) (\<lambda>_.
     bnd (string_claim payload ''sub'') (\<lambda>subject.
     bnd (string_claim payload ''tenant_id'') (\<lambda>tenant_id.
     bnd (bnd (string_claim payload ''kind'') (\<lambda>k. validated claims_invalid (kind_of_value k))) (\<lambda>kind.
     bnd (validated claims_invalid (roles_of_claim (map_of payload ''roles''))) (\<lambda>roles.
     validated claims_invalid (VerifiedIdentity_validate \<lparr>id_subject = subject, id_tenant_id = tenant_id, id_kind = kind, id_roles = roles,
       id_audience = hv_audience V, id_issued_at = issued_at, id_expires_at = expires_at\<rparr>)))))))))))"

definition verify_parts :: "identity_verifier \<Rightarrow> instant \<Rightarrow> string \<Rightarrow> string \<Rightarrow> string \<Rightarrow> ('s, gateway_error, verified_identity) op" where
  "verify_parts V now encoded_header encoded_payload encoded_signature =
     bnd (guard (is_ascii (signing_input encoded_header encoded_payload)) UnhandledError) (\<lambda>_.
     bnd (decode_part encoded_signature) (\<lambda>supplied.
     bnd (guard (token_signature V (signing_input encoded_header encoded_payload) = supplied)
       (AuthenticationError ''Identity token signature is invalid.'')) (\<lambda>_.
     bnd (bnd (decode_part encoded_header) (\<lambda>b. validated claims_invalid (load_document b))) (\<lambda>header.
     bnd (bnd (decode_part encoded_payload) (\<lambda>b. validated claims_invalid (load_document b))) (\<lambda>payload.
     bnd (guard (supported_header header) claims_invalid) (\<lambda>_.
       case payload of JObj claims \<Rightarrow> identity_of_payload V now claims | _ \<Rightarrow> raise claims_invalid))))))"

definition verify_token :: "identity_verifier \<Rightarrow> instant \<Rightarrow> string \<Rightarrow> ('s, gateway_error, verified_identity) op" where
  "verify_token V now token = (case split_dots token of
     [encoded_header, encoded_payload, encoded_signature] \<Rightarrow> verify_parts V now encoded_header encoded_payload encoded_signature
   | _ \<Rightarrow> raise (AuthenticationError ''Identity token structure is invalid.''))"

section \<open>The request\<close>

definition identity_required :: gateway_error where
  "identity_required = AuthenticationError ''A valid authenticated identity is required.''"

definition authenticate_identity :: "identity_verifier \<Rightarrow> instant \<Rightarrow> string option \<Rightarrow> ('s, gateway_error, verified_identity) op" where
  "authenticate_identity V now authorization = (case authorization of
     None \<Rightarrow> raise identity_required
   | Some header \<Rightarrow>
       if \<not> prefix ''Bearer '' header then raise identity_required
       else let token = py_strip (removeprefix ''Bearer '' header) in
         if token = [] then raise identity_required else verify_token V now token)"

section \<open>Facts\<close>

lemma split_dots_nonempty [simp]: "split_dots s \<noteq> []"
  by (induction s) (auto split: list.splits)

lemma split_dots_plain: "CHR ''.'' \<notin> set s \<Longrightarrow> split_dots s = [s]"
  by (induction s) (auto split: list.splits)

lemma split_dots_dot: "CHR ''.'' \<notin> set s \<Longrightarrow> split_dots (s @ CHR ''.'' # r) = s # split_dots r"
  by (induction s) (auto split: list.splits)

lemma split_dots_join: "split_dots t = p # ps \<Longrightarrow> t = p @ concat (map (Cons (CHR ''.'')) ps)"
  by (induction t arbitrary: p ps) (auto split: list.splits if_splits)

lemma split_dots_three: "split_dots t = [h, p, g] \<Longrightarrow> t = signing_input h p @ CHR ''.'' # g"
  by (drule split_dots_join) (simp add: signing_input_def)

lemma decoded_ascii_object: "decoded_text (utf8_encode (CHR ''{'' # CHR 0x22 # c # d # r)) = Some (CHR ''{'' # CHR 0x22 # c # d # r)"
proof -
  let ?t = "CHR ''{'' # CHR 0x22 # c # d # r"
  have "utf8_char (CHR ''{'') = [123]" "utf8_char (CHR 0x22) = [34]" by (simp_all add: utf8_char_def)
  then have x: "utf8_encode ?t = 123 # 34 # utf8_encode (c # d # r)" by (simp add: utf8_encode_Cons)
  have "2 \<le> length (utf8_encode (c # d # r))"
    using utf8_char_nonempty [of c] utf8_char_nonempty [of d] by (cases "utf8_char c"; cases "utf8_char d") (simp_all add: utf8_encode_Cons)
  then have "detect_encoding (utf8_encode ?t) = (Utf8, utf8_encode ?t)" unfolding x by (simp add: detect_encoding_def)
  then show ?thesis by (simp only: decoded_text_def prod.case text_encoding.case utf8_text_encode)
qed

lemma load_document_dumps:
  assumes "json_readable (JObj (kv # r))" "unique_keys (JObj (kv # r))"
  shows "load_document (utf8_encode (compact_dumps (JObj (kv # r)))) = Some (JObj (kv # r))"
proof -
  obtain u where u: "compact_dumps (JObj (kv # r)) = CHR ''{'' # CHR 0x22 # u" "2 \<le> length u"
    by (cases r) (auto simp: dumps_string_def quote_def)
  then obtain c d w where "u = c # d # w" by (metis Suc_le_length_iff numeral_2_eq_2)
  with u decoded_ascii_object [of c d w] have "decoded_text (utf8_encode (compact_dumps (JObj (kv # r)))) = Some (compact_dumps (JObj (kv # r)))"
    by simp
  with compact.loads_show [OF assms(1)] assms(2) show ?thesis by (simp add: load_document_def)
qed

lemma length_nat_str: "n < 10 ^ Suc k \<Longrightarrow> length (nat_str n) \<le> Suc k"
proof (induction k arbitrary: n)
  case (Suc k)
  show ?case
  proof (cases "n < 10")
    case False
    from Suc.prems have "n div 10 < 10 ^ Suc k" by (simp add: less_mult_imp_div_less)
    with Suc.IH [of "n div 10"] False show ?thesis by (subst nat_str.simps) simp
  qed (subst nat_str.simps, simp)
qed (subst nat_str.simps, simp)

lemma timestamp_readable: "- 62135596800 \<le> i \<Longrightarrow> i \<le> 253402300799 \<Longrightarrow> number_readable i"
proof -
  assume "- 62135596800 \<le> i" "i \<le> 253402300799"
  then have "nat \<bar>i\<bar> < 1000000000000" by linarith
  with length_nat_str [of "nat \<bar>i\<bar>" 11] show ?thesis by (simp add: number_readable_def)
qed

lemma kind_round_trip: "kind_of_value (kind_value k) = Some k"
  by (cases k) (simp_all add: kind_of_value_def)

lemma role_round_trip: "role_of_value (role_value r) = Some r"
  by (cases r) (simp_all add: role_of_value_def)

lemma roles_round_trip: "roles_of_claim (Some (JArr (map (\<lambda>r. JStr (role_value r)) roles))) = Some roles"
  by (induction roles) (simp_all add: roles_of_claim_def role_round_trip)

lemma token_header_readable: "json_readable token_header" "unique_keys token_header" "supported_header token_header"
  by (simp_all add: token_header_def supported_header_def)

lemma decode_part_encode:
  assumes "\<forall>b \<in> set bs. b < 256"
  shows "decode_part (b64encode bs) s = (Inr bs, s)"
  by (simp add: decode_part_def b64_round_trip [OF assms])


lemmas claim_defs = time_claim_def string_claim_def from_timestamp_def

lemma identity_of_issued:
  fixes V now subject tenant_id kind roles lifetime
  defines "iat \<equiv> whole_seconds now" and "exp \<equiv> whole_seconds (now + lifetime)"
  assumes range: "- 62135596800 \<le> iat" "iat \<le> 253402300799" "- 62135596800 \<le> exp" "exp \<le> 253402300799"
    and times: "seconds iat \<le> later + seconds 30" "later < seconds exp" "seconds exp - seconds iat \<le> hv_maximum_lifetime V"
    and valid: "VerifiedIdentity_validate \<lparr>id_subject = subject, id_tenant_id = tenant_id, id_kind = kind, id_roles = roles,
       id_audience = hv_audience V, id_issued_at = seconds iat, id_expires_at = seconds exp\<rparr> = Some i"
    and payload: "token_payload V now subject tenant_id kind roles lifetime = JObj claims"
  shows "identity_of_payload V later claims s = (Inr i, s)"
proof -
  from payload have c: "claims = [(''aud'', JStr (hv_audience V)), (''exp'', JInt exp), (''iat'', JInt iat), (''kind'', JStr (kind_value kind)),
      (''roles'', JArr (map (\<lambda>r. JStr (role_value r)) roles)), (''sub'', JStr subject), (''tenant_id'', JStr tenant_id)]"
    by (simp add: token_payload_def iat_def exp_def)
  have get: "map_of claims ''iat'' = Some (JInt iat)" "map_of claims ''exp'' = Some (JInt exp)" "map_of claims ''aud'' = Some (JStr (hv_audience V))"
    "map_of claims ''sub'' = Some (JStr subject)" "map_of claims ''tenant_id'' = Some (JStr tenant_id)" "map_of claims ''kind'' = Some (JStr (kind_value kind))"
    "map_of claims ''roles'' = Some (JArr (map (\<lambda>r. JStr (role_value r)) roles))" unfolding c by simp_all
  from times have t: "\<not> later + seconds 30 < seconds iat" "\<not> seconds exp \<le> later" "\<not> hv_maximum_lifetime V < seconds exp - seconds iat" by simp_all
  show ?thesis unfolding identity_of_payload_def using range t
    by (simp add: get claim_defs bnd_def kind_round_trip roles_round_trip valid)
qed

lemma verify_issued:
  assumes "json_readable (token_payload V now subject tenant_id kind roles lifetime)"
  shows "verify_token V later (issue V now subject tenant_id kind roles lifetime) s =
    (case token_payload V now subject tenant_id kind roles lifetime of JObj claims \<Rightarrow> identity_of_payload V later claims | _ \<Rightarrow> raise claims_invalid) s"
proof -
  define payload where "payload = token_payload V now subject tenant_id kind roles lifetime"
  define hb where "hb = utf8_encode (compact_dumps token_header)"
  define pb where "pb = utf8_encode (compact_dumps payload)"
  define message where "message = signing_input (b64encode hb) (b64encode pb)"
  have bytes: "\<forall>b \<in> set hb. b < 256" "\<forall>b \<in> set pb. b < 256" "\<forall>b \<in> set (token_signature V message). b < 256"
    by (auto simp: hb_def pb_def token_signature_def intro: utf8_encode_byte hmac_digest_byte)
  have token: "issue V now subject tenant_id kind roles lifetime = b64encode hb @ CHR ''.'' # b64encode pb @ CHR ''.'' # b64encode (token_signature V message)"
    by (simp add: issue_def Let_def hb_def pb_def payload_def message_def signing_input_def)
  have split: "split_dots (issue V now subject tenant_id kind roles lifetime) = [b64encode hb, b64encode pb, b64encode (token_signature V message)]"
    unfolding token using b64encode_plain(2) [OF bytes(1)] b64encode_plain(2) [OF bytes(2)] b64encode_plain(2) [OF bytes(3)]
    by (simp add: split_dots_dot split_dots_plain)
  have ascii: "is_ascii message" unfolding message_def
    using b64encode_plain(1) [OF bytes(1)] b64encode_plain(1) [OF bytes(2)] by (simp add: is_ascii_def signing_input_def)
  have header: "load_document hb = Some token_header"
    using load_document_dumps token_header_readable unfolding hb_def token_header_def by blast
  have unique: "unique_keys payload" by (simp add: payload_def token_payload_def list_all_iff)
  have "load_document pb = Some payload"
    using load_document_dumps assms unique unfolding pb_def payload_def token_payload_def by blast
  then show ?thesis
    by (simp add: verify_token_def split verify_parts_def bnd_def ascii decode_part_encode [OF bytes(1)] decode_part_encode [OF bytes(2)]
      decode_part_encode [OF bytes(3)] header token_header_readable(3) flip: payload_def message_def)
qed

text \<open>An issued token has no white space, so that it comes back from the header as it was sent.\<close>

lemma b64encode_no_space:
  assumes "c \<in> set (b64encode bs)" "\<forall>b \<in> set bs. b < 256"
  shows "\<not> is_py_space c"
proof -
  from b64_text_chars [OF assms(2)] assms(1) obtain n where "n < 64" "c = b64_char n" by (auto simp: b64encode_def)
  then show ?thesis by (auto simp: is_py_space_def is_whitespace_def of_b64_char Let_def)
qed

lemma issue_plain:
  "py_strip (issue V now subject tenant_id kind roles lifetime) = issue V now subject tenant_id kind roles lifetime"
  "issue V now subject tenant_id kind roles lifetime \<noteq> []"
proof -
  have "\<not> is_py_space c" if "c \<in> set (issue V now subject tenant_id kind roles lifetime)" for c
    using that b64encode_no_space utf8_encode_byte hmac_digest_byte
    by (auto simp: issue_def Let_def signing_input_def token_signature_def is_py_space_def is_whitespace_def)
  then show "py_strip (issue V now subject tenant_id kind roles lifetime) = issue V now subject tenant_id kind roles lifetime"
    by (intro py_strip_plain) (simp add: list_all_iff)
  show "issue V now subject tenant_id kind roles lifetime \<noteq> []" by (simp add: issue_def Let_def)
qed

lemma authenticate_issued:
  "authenticate_identity W later (Some (''Bearer '' @ issue V now subject tenant_id kind roles lifetime)) s =
   verify_token W later (issue V now subject tenant_id kind roles lifetime) s"
  unfolding authenticate_identity_def option.case removeprefix_append Let_def by (simp add: issue_plain)

text \<open>What an accepted token has.\<close>

definition signed_token :: "identity_verifier \<Rightarrow> string \<Rightarrow> (string \<times> json) list \<Rightarrow> bool" where
  "signed_token V token claims \<longleftrightarrow> (\<exists>h p g b. token = signing_input h p @ CHR ''.'' # g \<and> b64decode g = Some (token_signature V (signing_input h p)) \<and>
     b64decode p = Some b \<and> load_document b = Some (JObj claims))"

definition asserts :: "(string \<times> json) list \<Rightarrow> verified_identity \<Rightarrow> bool" where
  "asserts claims i \<longleftrightarrow> (\<exists>subject tenant_id aud iat exp. map_of claims ''sub'' = Some (JStr subject) \<and> id_subject i = strip subject \<and>
     map_of claims ''tenant_id'' = Some (JStr tenant_id) \<and> id_tenant_id i = strip tenant_id \<and>
     map_of claims ''kind'' = Some (JStr (kind_value (id_kind i))) \<and> roles_of_claim (map_of claims ''roles'') = Some (id_roles i) \<and>
     map_of claims ''aud'' = Some (JStr aud) \<and> id_audience i = strip aud \<and>
     Option.bind (map_of claims ''iat'') int_of_claim = Some iat \<and> id_issued_at i = seconds iat \<and>
     Option.bind (map_of claims ''exp'') int_of_claim = Some exp \<and> id_expires_at i = seconds exp)"

definition currently_valid :: "identity_verifier \<Rightarrow> instant \<Rightarrow> verified_identity \<Rightarrow> bool" where
  "currently_valid V now i \<longleftrightarrow> now < id_expires_at i \<and> id_issued_at i \<le> now + seconds 30 \<and>
     id_expires_at i - id_issued_at i \<le> hv_maximum_lifetime V \<and> id_audience i = strip (hv_audience V) \<and>
     (id_kind i = Kind_USER \<or> id_roles i = []) \<and> id_subject i \<noteq> [] \<and> id_tenant_id i \<noteq> []"

lemma bind_Some_iff: "Option.bind x f = Some y \<longleftrightarrow> (\<exists>a. x = Some a \<and> f a = Some y)"
  by (cases x) auto

lemma time_claim_Inr: "time_claim p k s = (Inr t, s') \<Longrightarrow> s' = s \<and> (\<exists>i. Option.bind (map_of p k) int_of_claim = Some i \<and> t = seconds i)"
  by (auto simp: time_claim_def bnd_Inr_iff validated_Inr_iff from_timestamp_def lift_sum_def split: if_splits)

lemma text_of_claim_Some [simp]: "text_of_claim j = Some x \<longleftrightarrow> j = JStr x"
  by (cases j) auto

lemma string_claim_Inr: "string_claim p k s = (Inr x, s') \<Longrightarrow> s' = s \<and> map_of p k = Some (JStr x)"
  by (auto simp: string_claim_def validated_Inr_iff bind_Some_iff)

lemma kind_of_value_Some: "kind_of_value v = Some k \<Longrightarrow> v = kind_value k"
  by (auto simp: kind_of_value_def split: if_splits)

lemma VerifiedIdentity_validate_Some:
  assumes "VerifiedIdentity_validate j = Some i"
  shows "i = j\<lparr>id_subject := strip (id_subject j), id_tenant_id := strip (id_tenant_id j), id_audience := strip (id_audience j)\<rparr> \<and>
    (id_kind i = Kind_USER \<or> id_roles i = []) \<and> id_subject i \<noteq> [] \<and> id_tenant_id i \<noteq> []"
  using assms by (auto simp: VerifiedIdentity_validate_def Let_def validate_claims_def nonempty_str_def split: if_splits)

lemma identity_of_payload_Inr:
  assumes "identity_of_payload V now claims s = (Inr i, s')"
  shows "s' = s \<and> currently_valid V now i \<and> asserts claims i"
proof -
  from assms obtain issued_at expires_at subject tenant_id k kind roles s1 s2 s3 s4 s5 where
    iat: "time_claim claims ''iat'' s = (Inr issued_at, s1)" and exp: "time_claim claims ''exp'' s1 = (Inr expires_at, s2)"
    and aud: "map_of claims ''aud'' = Some (JStr (hv_audience V))"
    and times: "\<not> now + seconds 30 < issued_at" "\<not> expires_at \<le> now" "\<not> hv_maximum_lifetime V < expires_at - issued_at"
    and sub: "string_claim claims ''sub'' s2 = (Inr subject, s3)" and ten: "string_claim claims ''tenant_id'' s3 = (Inr tenant_id, s4)"
    and kind: "string_claim claims ''kind'' s4 = (Inr k, s5)" "kind_of_value k = Some kind"
    and roles: "roles_of_claim (map_of claims ''roles'') = Some roles"
    and valid: "VerifiedIdentity_validate \<lparr>id_subject = subject, id_tenant_id = tenant_id, id_kind = kind, id_roles = roles,
       id_audience = hv_audience V, id_issued_at = issued_at, id_expires_at = expires_at\<rparr> = Some i" and s': "s' = s5"
    unfolding identity_of_payload_def bnd_Inr_iff validated_Inr_iff guard_Inr_iff by blast
  note facts = time_claim_Inr [OF iat] time_claim_Inr [OF exp] string_claim_Inr [OF sub] string_claim_Inr [OF ten] string_claim_Inr [OF kind(1)]
    kind_of_value_Some [OF kind(2)]
  from VerifiedIdentity_validate_Some [OF valid] times have "currently_valid V now i" by (auto simp: currently_valid_def)
  moreover from VerifiedIdentity_validate_Some [OF valid] facts aud roles have "asserts claims i" by (auto simp: asserts_def)
  ultimately show ?thesis using facts s' by simp
qed

lemma verify_token_Inr:
  assumes "verify_token V now token s = (Inr i, s')"
  shows "s' = s \<and> currently_valid V now i \<and> (\<exists>claims. signed_token V token claims \<and> asserts claims i)"
proof -
  from assms obtain h p g where parts: "split_dots token = [h, p, g]" and run: "verify_parts V now h p g s = (Inr i, s')"
    by (auto simp: verify_token_def split: list.splits)
  from run obtain payload b where g: "b64decode g = Some (token_signature V (signing_input h p))" and p: "b64decode p = Some b" "load_document b = Some payload"
    and rest: "(case payload of JObj claims \<Rightarrow> identity_of_payload V now claims | _ \<Rightarrow> raise claims_invalid) s = (Inr i, s')"
    unfolding verify_parts_def decode_part_def bnd_Inr_iff validated_Inr_iff guard_Inr_iff by blast
  from rest obtain claims where claims: "payload = JObj claims" "identity_of_payload V now claims s = (Inr i, s')"
    by (auto split: json.splits)
  from g p claims(1) split_dots_three [OF parts] have "signed_token V token claims" unfolding signed_token_def by blast
  with identity_of_payload_Inr [OF claims(2)] show ?thesis by blast
qed

lemma identity_of_payload_preserves: "preserves I (identity_of_payload V now claims)"
  unfolding identity_of_payload_def time_claim_def string_claim_def by (intro pres)

lemma verify_token_preserves: "preserves I (verify_token V now token)"
proof -
  have "preserves I (case payload of JObj claims \<Rightarrow> identity_of_payload V now claims | _ \<Rightarrow> raise claims_invalid)" for payload
    by (cases payload) (simp_all add: identity_of_payload_preserves preserves_raise)
  then have "preserves I (verify_parts V now h p g)" for h p g
    unfolding verify_parts_def decode_part_def by (intro pres)
  then show ?thesis by (auto simp: verify_token_def preserves_raise split: list.split)
qed

lemma authenticate_identity_preserves [pres]: "preserves I (authenticate_identity V now authorization)"
  unfolding authenticate_identity_def by (intro pres verify_token_preserves)

lemma authenticate_identity_Inr:
  assumes "authenticate_identity V now authorization s = (Inr i, s')"
  shows "s' = s \<and> currently_valid V now i \<and>
    (\<exists>credentials claims. authorization = Some (''Bearer '' @ credentials) \<and> signed_token V (py_strip credentials) claims \<and> asserts claims i)"
proof -
  from assms obtain header where h: "authorization = Some header" "prefix ''Bearer '' header"
    and run: "verify_token V now (py_strip (removeprefix ''Bearer '' header)) s = (Inr i, s')"
    by (auto simp: authenticate_identity_def Let_def split: option.splits if_splits)
  from h(2) obtain credentials where "header = ''Bearer '' @ credentials" by (auto simp: prefix_def)
  with h(1) verify_token_Inr [OF run] show ?thesis by (simp only: removeprefix_append) blast
qed

text \<open>A signature belongs to one message, or it exhibits a collision of SHA-256.\<close>

lemma signature_binds:
  assumes "token_signature V m = token_signature V m'"
  shows "m = m' \<or> (\<exists>x y. hash_collision x y)"
  using hmac_digest_binds [OF assms [unfolded token_signature_def]] utf8_encode_inj by blast

section \<open>Properties\<close>

text \<open>
  C3. Only signed identities are accepted: when the gateway authenticates a request, its Authorization header is a bearer token whose third part
  is the HMAC-SHA256 of the first two under the gateway's secret; the identity is the one the signed claims assert (subject, tenant, kind, roles and
  times), it is for the gateway's audience, not expired, not issued more than 30 seconds ahead of the clock, lives no longer than the maximum
  lifetime, and has roles only if it is a user. Authentication changes no state, whether it succeeds or fails.
\<close>

theorem only_signed_identities:
  "case authenticate_identity V now authorization s of
     (Inl e, s') \<Rightarrow> s' = s
   | (Inr i, s') \<Rightarrow> s' = s \<and> currently_valid V now i \<and>
       (\<exists>credentials claims. authorization = Some (''Bearer '' @ credentials) \<and> signed_token V (py_strip credentials) claims \<and> asserts claims i)"
proof (cases "authenticate_identity V now authorization s")
  case (Pair r s')
  show ?thesis
  proof (cases r)
    case (Inl e)
    with Pair preservesD [OF authenticate_identity_preserves [of "\<lambda>x. x = s"] refl Pair] show ?thesis by simp
  next
    case (Inr i)
    with Pair authenticate_identity_Inr [of V now authorization s i s'] show ?thesis by simp
  qed
qed

text \<open>
  What the adapter issues it accepts: a token issued for a valid identity is verified, at every later moment before it expires, as exactly that
  identity with the issue and expiry times cut to seconds, provided its lifetime is within the maximum.
\<close>

theorem token_round_trip:
  fixes V now subject tenant_id kind roles lifetime
  defines "iat \<equiv> whole_seconds now" and "exp \<equiv> whole_seconds (now + lifetime)"
  assumes "- 62135596800 \<le> iat" "iat \<le> 253402300799" "- 62135596800 \<le> exp" "exp \<le> 253402300799"
    and "seconds iat \<le> later + seconds 30" "later < seconds exp" "seconds exp - seconds iat \<le> hv_maximum_lifetime V"
    and "VerifiedIdentity_validate \<lparr>id_subject = subject, id_tenant_id = tenant_id, id_kind = kind, id_roles = roles,
       id_audience = hv_audience V, id_issued_at = seconds iat, id_expires_at = seconds exp\<rparr> = Some i"
  shows "verify_token V later (issue V now subject tenant_id kind roles lifetime) s = (Inr i, s)"
proof -
  obtain claims where claims: "token_payload V now subject tenant_id kind roles lifetime = JObj claims" by (simp add: token_payload_def)
  have "json_readable (token_payload V now subject tenant_id kind roles lifetime)"
    using timestamp_readable assms(3-6) by (simp add: token_payload_def list_all_iff iat_def exp_def)
  from verify_issued [OF this, of later s] show ?thesis
    using identity_of_issued [OF assms(3-10) [unfolded iat_def exp_def] claims] by (simp add: claims)
qed

definition sample_verifier :: identity_verifier where
  "sample_verifier = \<lparr>hv_secret = replicate 32 7, hv_audience = ''tool-gateway'', hv_maximum_lifetime = hours 1\<rparr>"

theorem token_round_trip_witness:
  "verify_token sample_verifier (seconds 1700000100) (issue sample_verifier (seconds 1700000000) ''approver-1'' ''t1'' Kind_USER [APPROVER] (minutes 15)) () =
   (Inr \<lparr>id_subject = ''approver-1'', id_tenant_id = ''t1'', id_kind = Kind_USER, id_roles = [APPROVER], id_audience = ''tool-gateway'',
      id_issued_at = seconds 1700000000, id_expires_at = seconds 1700000900\<rparr>, ())"
proof (rule token_round_trip)
  have t: "whole_seconds (seconds 1700000000) = 1700000000" "whole_seconds (seconds 1700000000 + minutes 15) = 1700000900" by code_simp+
  show "VerifiedIdentity_validate \<lparr>id_subject = ''approver-1'', id_tenant_id = ''t1'', id_kind = Kind_USER, id_roles = [APPROVER],
      id_audience = hv_audience sample_verifier, id_issued_at = seconds (whole_seconds (seconds 1700000000)),
      id_expires_at = seconds (whole_seconds (seconds 1700000000 + minutes 15))\<rparr> =
    Some \<lparr>id_subject = ''approver-1'', id_tenant_id = ''t1'', id_kind = Kind_USER, id_roles = [APPROVER], id_audience = ''tool-gateway'',
      id_issued_at = seconds 1700000000, id_expires_at = seconds 1700000900\<rparr>" unfolding t by code_simp
qed (simp_all add: whole_seconds_def time_unfold sample_verifier_def)

end
