(* ===== verification/Gateway_Service.thy ===== *)
theory Gateway_Service
  imports Tool_Gateway Identity_Token
begin

text \<open>
  The Tool Gateway as its callers see it: every route of \<^verbatim>\<open>app.py\<close> behind \<^verbatim>\<open>_authenticate_identity\<close>, the validation of request bodies and query
  parameters, and the problem document of an error. The handlers are those of the Tool Gateway theory, the identity adapter is the HMAC verifier.
\<close>

section \<open>Problem documents\<close>

fun gateway_title :: "gateway_error \<Rightarrow> string" where
  "gateway_title (AuthenticationError _) = ''Authentication required''"
| "gateway_title (AuthorizationError _) = ''Authorization denied''"
| "gateway_title ApprovalRequiredError = ''Approval required''"
| "gateway_title PolicyDeniedError = ''Policy denied''"
| "gateway_title (GatewayNotFoundError _) = ''Resource not found''"
| "gateway_title (GatewayConflictError _ _) = ''Conflict''"
| "gateway_title (GatewayValidationError _) = ''Validation failed''"
| "gateway_title RateLimitedError = ''Tool quota exceeded''"
| "gateway_title (ToolAdapterError _ _ _) = ''Tool execution failed''"
| "gateway_title ApprovalCallbackDeliveryError = ''Approval callback unavailable''"
| "gateway_title PersistenceUnavailable = ''Persistence unavailable''"
| "gateway_title UnhandledError = ''Internal Server Error''"

fun gateway_detail :: "gateway_error \<Rightarrow> string" where
  "gateway_detail (AuthenticationError detail) = detail"
| "gateway_detail (AuthorizationError detail) = detail"
| "gateway_detail ApprovalRequiredError = ''The requested tool action requires a current approval for the exact plan.''"
| "gateway_detail PolicyDeniedError = ''Deterministic policy denied the requested tool action.''"
| "gateway_detail (GatewayNotFoundError resource) = ''The requested '' @ resource @ '' was not found.''"
| "gateway_detail (GatewayConflictError detail _) = detail"
| "gateway_detail (GatewayValidationError detail) = detail"
| "gateway_detail RateLimitedError = ''The tenant and tool concurrency quota is currently exhausted.''"
| "gateway_detail (ToolAdapterError _ detail _) = detail"
| "gateway_detail ApprovalCallbackDeliveryError = ''The decision was stored, but the durable workflow callback could not be '' @
     ''delivered. Retry the identical decision request.''"
| "gateway_detail PersistenceUnavailable = ''Authoritative governance persistence is unavailable.''"
| "gateway_detail UnhandledError = ''Internal Server Error''"

text \<open>\<^verbatim>\<open>code.lower().replace("_", "-")\<close> on the upper-case codes of the errors.\<close>

definition problem_name :: "string \<Rightarrow> string" where
  "problem_name code = map (\<lambda>c. let n = of_char c :: nat in
     if c = CHR ''_'' then CHR ''-'' else if 65 \<le> n \<and> n \<le> 90 then char_of (n + 32) else c) code"

definition problem :: "string \<Rightarrow> gateway_error \<Rightarrow> json" where
  "problem request_id e = JObj [(''type'', JStr (''https://changeops.example/problems/'' @ problem_name (gateway_error_code e))),
     (''title'', JStr (gateway_title e)), (''status'', JInt (int (gateway_status_code e))), (''code'', JStr (gateway_error_code e)),
     (''detail'', JStr (gateway_detail e)), (''request_id'', JStr request_id)]"

definition problem_headers :: "gateway_error \<Rightarrow> (string \<times> string) list" where
  "problem_headers e = (if gateway_status_code e = 401 then [(''WWW-Authenticate'', ''Bearer'')] else [])"

section \<open>Requests\<close>

definition request_invalid :: gateway_error where
  "request_invalid = GatewayValidationError ''Request validation failed.''"

definition ApprovalCreateRequest_validate :: "approval_create_request \<Rightarrow> approval_create_request option" where
  "ApprovalCreateRequest_validate b = (case RemediationPlan_validate (acr_plan b) of
     None \<Rightarrow> None
   | Some plan \<Rightarrow> (let b' = b\<lparr>acr_approval_id := strip (acr_approval_id b), acr_plan := plan, acr_scope := map strip (acr_scope b)\<rparr> in
       if nonempty_str (acr_approval_id b') \<and> list_all nonempty_str (acr_scope b') \<and> acr_scope b' \<noteq> [] \<and> validate_scope b' then Some b' else None))"

record approval_decision_request =
  dq_expected_version :: int
  dq_comment :: string

definition ApprovalDecisionRequest_validate :: "approval_decision_request \<Rightarrow> approval_decision_request option" where
  "ApprovalDecisionRequest_validate b = (let b' = b\<lparr>dq_comment := strip (dq_comment b)\<rparr> in
     if 1 \<le> dq_expected_version b' \<and> nonempty_str (dq_comment b') then Some b' else None)"

definition strip_intent :: "tool_intent \<Rightarrow> tool_intent" where
  "strip_intent i = i\<lparr>ti_intent_id := strip (ti_intent_id i), ti_tenant_id := strip (ti_tenant_id i), ti_change_id := strip (ti_change_id i),
     ti_workflow_execution_id := strip (ti_workflow_execution_id i), ti_plan_id := strip (ti_plan_id i), ti_plan_hash := strip (ti_plan_hash i),
     ti_step_id := strip (ti_step_id i), ti_agent_identity := strip (ti_agent_identity i), ti_tool_name := strip (ti_tool_name i),
     ti_action := strip (ti_action i), ti_resource := strip (ti_resource i), ti_arguments := strip_object (ti_arguments i),
     ti_reason := strip (ti_reason i), ti_evidence_refs := map strip (ti_evidence_refs i), ti_idempotency_key := strip (ti_idempotency_key i)\<rparr>"

definition intent_fields_ok :: "tool_intent \<Rightarrow> bool" where
  "intent_fields_ok i \<longleftrightarrow> list_all nonempty_str [ti_intent_id i, ti_tenant_id i, ti_change_id i, ti_workflow_execution_id i, ti_plan_id i,
       ti_step_id i, ti_agent_identity i, ti_tool_name i, ti_action i, ti_resource i, ti_reason i, ti_idempotency_key i] \<and>
     is_sha256_digest (ti_plan_hash i) \<and> list_all reference_str (ti_evidence_refs i)"

definition ToolIntent_validate :: "tool_intent \<Rightarrow> tool_intent option" where
  "ToolIntent_validate i = (let i' = strip_intent i in if intent_fields_ok i' then Some i' else None)"

definition GatewayExecutionRequest_validate :: "tool_intent \<Rightarrow> string option \<Rightarrow> (tool_intent \<times> string option) option" where
  "GatewayExecutionRequest_validate intent approval_id = (case ToolIntent_validate intent of
     None \<Rightarrow> None
   | Some i \<Rightarrow> (let a = map_option strip approval_id in if opt_ok nonempty_str a then Some (i, a) else None))"

datatype gateway_request =
    List_tools
  | Create_approval approval_create_request
  | List_approvals int
  | Get_approval string
  | Approve string approval_decision_request
  | Reject string approval_decision_request
  | Request_changes string approval_decision_request
  | List_audit int
  | Submit_intent tool_intent "string option"

datatype gateway_response =
    Tools "tool_registration list"
  | Approval_record approval_request
  | Approval_records "approval_request list" nat
  | Audit_events "audit_event list" nat
  | Execution execution_result

record 'x gateway_config =
  gc_iso_text :: "instant \<Rightarrow> string"
  gc_verifier :: identity_verifier
  gc_registry :: tool_registry
  gc_maximum :: int
  gc_post :: "'x poster"
  gc_notify :: "approval_request \<Rightarrow> bool"

definition decision_route ::
  "(string \<Rightarrow> int \<Rightarrow> string \<Rightarrow> verified_identity \<Rightarrow> ('x, approval_request) gw_op) \<Rightarrow> string \<Rightarrow> approval_decision_request \<Rightarrow> verified_identity \<Rightarrow>
   ('x, gateway_response) gw_op" where
  "decision_route handler approval_id body identity =
     bnd (validated request_invalid (ApprovalDecisionRequest_validate body)) (\<lambda>b.
     bnd (handler approval_id (dq_expected_version b) (dq_comment b) identity) (\<lambda>r. ret (Approval_record r)))"

fun handle :: "'x gateway_config \<Rightarrow> request_env \<Rightarrow> gateway_request \<Rightarrow> verified_identity \<Rightarrow> ('x, gateway_response) gw_op" where
  "handle C env List_tools identity = ret (Tools (registry_list (gc_registry C)))"
| "handle C env (Create_approval body) identity =
     bnd (validated request_invalid (ApprovalCreateRequest_validate body)) (\<lambda>b.
     bnd (create_approval (gc_iso_text C) env b identity) (\<lambda>r. ret (Approval_record r)))"
| "handle C env (List_approvals limit) identity =
     bnd (guard (1 \<le> limit \<and> limit \<le> 100) request_invalid) (\<lambda>_.
     bnd (list_approvals identity limit) (\<lambda>items. ret (Approval_records items (length items))))"
| "handle C env (Get_approval approval_id) identity = bnd (get_approval approval_id identity) (\<lambda>r. ret (Approval_record r))"
| "handle C env (Approve approval_id body) identity = decision_route (approve (gc_iso_text C) (gc_notify C) env) approval_id body identity"
| "handle C env (Reject approval_id body) identity = decision_route (reject (gc_iso_text C) (gc_notify C) env) approval_id body identity"
| "handle C env (Request_changes approval_id body) identity =
     decision_route (request_changes (gc_iso_text C) (gc_notify C) env) approval_id body identity"
| "handle C env (List_audit limit) identity =
     bnd (guard (1 \<le> limit \<and> limit \<le> 500) request_invalid) (\<lambda>_.
     bnd (list_audit identity limit) (\<lambda>items. ret (Audit_events items (length items))))"
| "handle C env (Submit_intent intent approval_id) identity =
     bnd (validated request_invalid (GatewayExecutionRequest_validate intent approval_id)) (\<lambda>(i, a).
     bnd (evaluate_and_execute (gc_iso_text C) (gc_registry C) (gc_maximum C) (gc_post C) env identity i a) (\<lambda>r. ret (Execution r)))"

text \<open>Dependencies are resolved before the parameters and the body are validated.\<close>

definition serve_gateway :: "'x gateway_config \<Rightarrow> request_env \<Rightarrow> instant \<Rightarrow> string option \<Rightarrow> gateway_request \<Rightarrow> ('x, gateway_response) gw_op" where
  "serve_gateway C env now authorization request =
     bnd (authenticate_identity (gc_verifier C) now authorization) (handle C env request)"

section \<open>Facts\<close>

lemma on_gov_remote [pres]: "preserves (\<lambda>w. gw_remote w = x) (on_gov m)"
  by (simp add: preserves_def on_gov_eq)

lemma on_changes_remote [pres]: "preserves (\<lambda>w. gw_remote w = x) (on_changes m)"
  by (simp add: preserves_def on_changes_eq)

lemma record_audit_remote [pres]: "preserves (\<lambda>w. gw_remote w = x) (record_audit ev)"
  unfolding record_audit_def by (intro pres)

lemma decide_remote [pres]: "preserves (\<lambda>w. gw_remote w = x) (decide_approval_handler iso_text notify env i v c identity target)"
  unfolding decide_approval_handler_def require_roles_def by (intro pres)

lemmas decision_handlers = approve_def reject_def request_changes_def

lemma decision_route_remote:
  "(\<And>i v c. preserves (\<lambda>w. gw_remote w = x) (handler i v c identity)) \<Longrightarrow> preserves (\<lambda>w. gw_remote w = x) (decision_route handler i body identity)"
  unfolding decision_route_def by (intro pres)

lemma handle_remote:
  assumes "\<And>intent a. request \<noteq> Submit_intent intent a"
  shows "preserves (\<lambda>w. gw_remote w = x) (handle C env request identity)"
proof (cases request)
  case (Submit_intent intent a)
  with assms [of intent a] show ?thesis by simp
qed (auto simp: create_approval_def list_approvals_def get_approval_def list_audit_def require_roles_def decision_handlers
  intro!: pres decision_route_remote)

lemma submit_run:
  assumes "handle C env (Submit_intent raw a) identity w = (r, w')" "gw_remote w' \<noteq> gw_remote w"
  shows "\<exists>intent approval_id q. GatewayExecutionRequest_validate raw a = Some (intent, approval_id) \<and>
    evaluate_and_execute (gc_iso_text C) (gc_registry C) (gc_maximum C) (gc_post C) env identity intent approval_id w = (q, w')"
  using assms by (auto simp: bnd_def validated_def split: option.splits prod.splits sum.splits)

section \<open>Properties\<close>

text \<open>
  C1. From the network to a tool: if any request to the gateway changes the remote side, then it is a tool intent whose Authorization header
  is a bearer token signed with the gateway's secret; the token's claims are those of a current agent identity which is the agent and
  tenant of the intent; and the stored change, plan, registered tool and approval satisfy every policy condition.
\<close>

theorem remote_needs_signed_agent:
  assumes "serve_gateway C env now authorization request w = (r, w')" "gw_remote w' \<noteq> gw_remote w"
  shows "\<exists>raw a intent approval_id credentials claims i change plan tool approval.
    request = Submit_intent raw a \<and> GatewayExecutionRequest_validate raw a = Some (intent, approval_id) \<and>
    authorization = Some (''Bearer '' @ credentials) \<and> signed_token (gc_verifier C) (py_strip credentials) claims \<and> asserts claims i \<and>
    currently_valid (gc_verifier C) now i \<and> id_kind i = Kind_AGENT \<and> id_subject i = ti_agent_identity intent \<and>
    id_tenant_id i = ti_tenant_id intent \<and>
    dget (m_changes (gw_changes w)) (id_tenant_id i, ti_change_id intent) = Some change \<and>
    dget (g_plans (gw_gov w)) (id_tenant_id i, ti_change_id intent, ti_plan_id intent) = Some plan \<and>
    registry_get (gc_registry C) (ti_tool_name intent) = Some tool \<and>
    stored_approval (gw_gov w) (id_tenant_id i) approval_id approval \<and>
    authorized (gc_iso_text C) i intent change plan tool approval (re_clock env 0)"
proof -
  obtain ar w1 where auth: "authenticate_identity (gc_verifier C) now authorization w = (ar, w1)" by fastforce
  have "w1 = w" using preservesD [OF authenticate_identity_preserves [of "\<lambda>x. x = w"] refl auth] .
  with assms auth obtain i where i: "ar = Inr i" and run: "handle C env request i w = (r, w')"
    by (auto simp: serve_gateway_def bnd_def split: sum.splits)
  have "\<exists>raw a. request = Submit_intent raw a"
  proof (rule ccontr)
    assume "\<nexists>raw a. request = Submit_intent raw a"
    then have "preserves (\<lambda>v. gw_remote v = gw_remote w) (handle C env request i)" by (intro handle_remote) blast
    from preservesD [OF this refl run] assms(2) show False by simp
  qed
  then obtain raw a where req: "request = Submit_intent raw a" by blast
  from submit_run [OF run [unfolded req] assms(2)] obtain intent approval_id q where
    v: "GatewayExecutionRequest_validate raw a = Some (intent, approval_id)" and
    ex: "evaluate_and_execute (gc_iso_text C) (gc_registry C) (gc_maximum C) (gc_post C) env i intent approval_id w = (q, w')" by blast
  from remote_needs_authorization [OF ex assms(2)] obtain change plan tool approval where
    docs: "dget (m_changes (gw_changes w)) (id_tenant_id i, ti_change_id intent) = Some change"
      "dget (g_plans (gw_gov w)) (id_tenant_id i, ti_change_id intent, ti_plan_id intent) = Some plan"
      "registry_get (gc_registry C) (ti_tool_name intent) = Some tool" "stored_approval (gw_gov w) (id_tenant_id i) approval_id approval"
    and ok: "authorized (gc_iso_text C) i intent change plan tool approval (re_clock env 0)" by blast
  from ok have agent: "id_kind i = Kind_AGENT" "id_subject i = ti_agent_identity intent" "id_tenant_id i = ti_tenant_id intent"
    by (simp_all add: authorized_def caller_authentic_def)
  from authenticate_identity_Inr [OF auth [unfolded i]] req v docs ok agent show ?thesis by blast
qed

definition demo_verifier :: identity_verifier where
  "demo_verifier = \<lparr>hv_secret = replicate 32 7, hv_audience = ''gw'', hv_maximum_lifetime = hours 1\<rparr>"

definition demo_token :: string where
  "demo_token = issue demo_verifier 0 ''crm'' ''t1'' Kind_AGENT [] (seconds 1)"

definition demo_config :: "tool_registry \<Rightarrow> nat gateway_config" where
  "demo_config reg = \<lparr>gc_iso_text = demo_iso, gc_verifier = demo_verifier, gc_registry = reg, gc_maximum = 4, gc_post = demo_post,
     gc_notify = (\<lambda>_. True)\<rparr>"

lemma demo_authenticates: "authenticate_identity demo_verifier 10 (Some (''Bearer '' @ demo_token)) w = (Inr demo_agent, w)"
proof -
  have t: "whole_seconds 0 = 0" "whole_seconds (0 + seconds 1) = 1" "whole_seconds (seconds 1) = 1" by code_simp+
  have "VerifiedIdentity_validate \<lparr>id_subject = ''crm'', id_tenant_id = ''t1'', id_kind = Kind_AGENT, id_roles = [],
      id_audience = hv_audience demo_verifier, id_issued_at = seconds 0, id_expires_at = seconds 1\<rparr> = Some demo_agent" by code_simp
  then have "identity_of_payload demo_verifier 10 claims w = (Inr demo_agent, w)"
    if "token_payload demo_verifier 0 ''crm'' ''t1'' Kind_AGENT [] (seconds 1) = JObj claims" for claims
    using that by (intro identity_of_issued) (simp_all only: t, simp_all add: time_unfold demo_verifier_def)
  then have "verify_token demo_verifier 10 demo_token w = (Inr demo_agent, w)"
    unfolding demo_token_def by (subst verify_issued) (simp_all add: token_payload_def timestamp_readable t)
  then show ?thesis unfolding demo_token_def authenticate_issued .
qed

lemma demo_intent_valid: "GatewayExecutionRequest_validate demo_intent (Some ''a1'') = Some (demo_intent, Some ''a1'')"
proof -
  have "list_all (\<lambda>x. strip x = x \<and> nonempty_str x) [''i1'', ''t1'', ''c1'', ''wf1'', ''p1'', ''s1'', ''crm'', ''crm.update_field_mapping'', ''update'',
    ''crm://tenant/t1/configuration/lead'', ''plan'', ''key-s1'', ''a1'']" by code_simp
  moreover have "strip_object [(''old_field'', JStr ''lead_name''), (''new_field'', JStr ''full_name'')] =
    [(''old_field'', JStr ''lead_name''), (''new_field'', JStr ''full_name'')]" by code_simp
  ultimately have "strip_intent demo_intent = demo_intent" "intent_fields_ok demo_intent"
    by (simp_all add: strip_intent_def intent_fields_ok_def demo_intent_def calculate_plan_hash_def strip_digest)
  moreover have "strip ''a1'' = ''a1''" "nonempty_str ''a1''" by code_simp+
  ultimately show ?thesis by (simp add: GatewayExecutionRequest_validate_def ToolIntent_validate_def)
qed

theorem remote_needs_signed_agent_witness:
  "\<exists>claims i. signed_token demo_verifier demo_token claims \<and> asserts claims i \<and> id_subject i = ''crm''"
proof -
  from demo_remote obtain reg where
    reg: "gw_remote (snd (evaluate_and_execute demo_iso reg 4 demo_post demo_env demo_agent demo_intent (Some ''a1'') demo_world)) = 1" ..
  define header where "header = ''Bearer '' @ demo_token"
  let ?run = "serve_gateway (demo_config reg) demo_env 10 (Some header) (Submit_intent demo_intent (Some ''a1'')) demo_world"
  have "snd ?run = snd (evaluate_and_execute demo_iso reg 4 demo_post demo_env demo_agent demo_intent (Some ''a1'') demo_world)"
    by (simp add: serve_gateway_def demo_config_def bnd_def demo_authenticates [folded header_def] demo_intent_valid split: prod.split sum.split)
  then have "gw_remote (snd ?run) \<noteq> gw_remote demo_world" using reg by (simp add: demo_world_def)
  from remote_needs_signed_agent [OF surjective_pairing this] obtain intent approval_id credentials claims i where
    f: "GatewayExecutionRequest_validate demo_intent (Some ''a1'') = Some (intent, approval_id)"
    "header = ''Bearer '' @ credentials" "signed_token demo_verifier (py_strip credentials) claims" "asserts claims i"
    "id_subject i = ti_agent_identity intent" by (auto simp: demo_config_def)
  from f(2) have "credentials = demo_token" by (simp add: header_def)
  with f issue_plain(1) [of demo_verifier 0 "''crm''" "''t1''" Kind_AGENT "[]" "seconds 1", folded demo_token_def] demo_intent_valid show ?thesis by (auto simp: demo_intent_def)
qed

end
