(* ===== verification/Workflow_Clients.thy ===== *)
theory Workflow_Clients
  imports Workflow_Engine Service_Auth Gateway_Service Python_Text
begin

text \<open>
  The HTTP clients of the workflow coordinator (\<^verbatim>\<open>services/workflow-coordinator/.../clients.py\<close>): how failed exchanges are classified, what the fleet,
  gateway and sandbox clients send, and how they read the answers. The transport, the platform headers and the clock belong to the world the
  client runs in; Pydantic's reading of the larger answers and of dates and numbers are arguments. The record of client functions the engine
  takes is built from them.
\<close>

section \<open>Failed calls\<close>

text \<open>The error code of an answer: its own, that of its error object, or the status.\<close>

fun candidate_code :: "json \<Rightarrow> json option" where
  "candidate_code (JObj kvs) = (let candidate = jget kvs ''code'' in
     if candidate = None \<or> candidate = Some JNull
     then (case jget kvs ''error'' of Some (JObj e) \<Rightarrow> jget e ''code'' | _ \<Rightarrow> candidate) else candidate)"
| "candidate_code _ = None"

definition response_error :: "http_response \<Rightarrow> call_error" where
  "response_error r = Dependency (case Option.bind (hs_json r) candidate_code of
       Some (JStr code) \<Rightarrow> if code = [] then ''HTTP_'' @ int_str (hs_status r) else code
     | _ \<Rightarrow> ''HTTP_'' @ int_str (hs_status r))
     (hs_status r = 429 \<or> 500 \<le> hs_status r)"

text \<open>What ends an exchange early: an answer with an error status, an unreachable service, a \<^verbatim>\<open>ValueError\<close>, anything else.\<close>

datatype client_failure = Answered call_error | Unreachable | Bad_value | Broken

fun transport_failure :: "http_failure \<Rightarrow> client_failure" where
  "transport_failure Http_timeout = Unreachable"
| "transport_failure Http_network = Unreachable"
| "transport_failure Http_other = Broken"

fun platform_failure :: "auth_failure \<Rightarrow> client_failure" where
  "platform_failure ServiceAuthenticationError = Unreachable"
| "platform_failure Auth_value_error = Bad_value"
| "platform_failure Auth_unexpected = Broken"

text \<open>The \<^verbatim>\<open>except\<close> clauses of the fleet and gateway clients, and those of the sandbox client, which does not catch \<^verbatim>\<open>ValueError\<close>.\<close>

fun service_failure :: "string \<Rightarrow> client_failure \<Rightarrow> call_error" where
  "service_failure name (Answered e) = e"
| "service_failure name Unreachable = Dependency (name @ ''_UNAVAILABLE'') True"
| "service_failure name Bad_value = Dependency (name @ ''_INVALID_RESPONSE'') False"
| "service_failure name Broken = Crash"

fun sandbox_failure :: "client_failure \<Rightarrow> call_error" where
  "sandbox_failure (Answered e) = e"
| "sandbox_failure Unreachable = Dependency ''SANDBOX_UNAVAILABLE'' True"
| "sandbox_failure _ = Crash"

section \<open>Exchanges\<close>

record 'x http_client =
  hc_transport :: "'x transport"
  hc_platform :: "string \<Rightarrow> ('x, auth_failure, (string \<times> string) list) op"
  hc_clock :: "'x \<Rightarrow> instant"

definition platform_headers :: "'x http_client \<Rightarrow> string \<Rightarrow> ('x, client_failure, (string \<times> string) list) op" where
  "platform_headers H base_url = wrap_err platform_failure (hc_platform H base_url)"

text \<open>\<^verbatim>\<open>{**headers, **platform_headers}\<close>.\<close>

definition merge_headers :: "(string \<times> string) list \<Rightarrow> (string \<times> string) list \<Rightarrow> (string \<times> string) list" where
  "merge_headers headers platform = fold (\<lambda>(k, v). dput k v) platform headers"

definition send :: "'x http_client \<Rightarrow> http_request \<Rightarrow> ('x, client_failure, http_response) op" where
  "send H request = bnd (wrap_err transport_failure (hc_transport H request)) (\<lambda>response.
     bnd (guard (\<not> 400 \<le> hs_status response) (Answered (response_error response))) (\<lambda>_. ret response))"

definition read_as :: "(json \<Rightarrow> 'a option) \<Rightarrow> http_response \<Rightarrow> ('x, client_failure, 'a) op" where
  "read_as parse response = validated Bad_value (Option.bind (hs_json response) parse)"

definition http_call :: "string \<Rightarrow> string \<Rightarrow> (string \<times> string) list \<Rightarrow> json option \<Rightarrow> http_request" where
  "http_call verb url headers body = \<lparr>hq_method = verb, hq_url = url, hq_headers = headers, hq_params = [], hq_body = body\<rparr>"

section \<open>The fleet client\<close>

definition analysis_request_json :: "(instant \<Rightarrow> string) \<Rightarrow> string \<Rightarrow> change_event \<Rightarrow> json option" where
  "analysis_request_json iso_text change_id event =
    (if nonempty_str (strip change_id) then Some (JObj [(''change_id'', JStr (strip change_id)), (''event'', event_json iso_text event)]) else None)"

definition fleet_analyze ::
  "(instant \<Rightarrow> string) \<Rightarrow> 'x http_client \<Rightarrow> string \<Rightarrow> (json \<Rightarrow> analysis_result option) \<Rightarrow> string \<Rightarrow> change_event \<Rightarrow> string \<Rightarrow> ('x, analysis_result) remote" where
  "fleet_analyze iso_text H url parse change_id event rid = (let base_url = rstrip_chars ''/'' url in
     wrap_err (service_failure ''FLEET'')
      (bnd (platform_headers H base_url) (\<lambda>platform.
       bnd (validated Bad_value (analysis_request_json iso_text change_id event)) (\<lambda>body.
       bnd (send H (http_call ''POST'' (base_url @ ''/v1/analyses'')
         (merge_headers [(''X-Tenant-ID'', ev_tenant_id event), (''X-Request-ID'', rid)] platform) (Some body)))
       (read_as parse)))))"

section \<open>The gateway client\<close>

record gateway_client =
  gk_base_url :: string
  gk_issuer :: identity_verifier

definition GatewayClient :: "string \<Rightarrow> string \<Rightarrow> string \<Rightarrow> gateway_client option" where
  "GatewayClient base_url identity_secret audience =
     map_option (\<lambda>V. \<lparr>gk_base_url = rstrip_chars ''/'' base_url, gk_issuer = V\<rparr>) (HmacIdentityVerifier identity_secret audience (hours 1))"

definition agent_token :: "gateway_client \<Rightarrow> instant \<Rightarrow> string \<Rightarrow> string \<Rightarrow> identity_kind \<Rightarrow> string" where
  "agent_token G t subject tenant_id kind = issue (gk_issuer G) t subject tenant_id kind [] (minutes 10)"

definition gateway_headers :: "string \<Rightarrow> string \<Rightarrow> (string \<times> string) list \<Rightarrow> (string \<times> string) list" where
  "gateway_headers token rid platform = merge_headers [(''Authorization'', ''Bearer '' @ token), (''X-Request-ID'', rid)] platform"

definition gateway_request :: "'x http_client \<Rightarrow> gateway_client \<Rightarrow> string \<Rightarrow> string \<Rightarrow> string \<Rightarrow> json \<Rightarrow> (json \<Rightarrow> 'a option) \<Rightarrow> ('x, 'a) remote" where
  "gateway_request H G path token rid payload parse = wrap_err (service_failure ''TOOL_GATEWAY'')
     (bnd (platform_headers H (gk_base_url G)) (\<lambda>platform.
      bnd (send H (http_call ''POST'' (gk_base_url G @ path) (gateway_headers token rid platform) (Some payload))) (read_as parse)))"

definition approval_body :: "string \<Rightarrow> remediation_plan \<Rightarrow> instant \<Rightarrow> approval_create_request" where
  "approval_body approval_id plan expires_at = \<lparr>acr_approval_id = approval_id, acr_plan = plan, acr_environment = Env_SANDBOX,
     acr_scope = map st_step_id (pl_steps plan), acr_expires_at = expires_at\<rparr>"

definition approval_body_json :: "(instant \<Rightarrow> string) \<Rightarrow> approval_create_request \<Rightarrow> json" where
  "approval_body_json iso_text b = JObj [(''approval_id'', JStr (acr_approval_id b)), (''plan'', plan_json iso_text (acr_plan b)),
     (''environment'', JStr (environment_value (acr_environment b))), (''scope'', strs_json (acr_scope b)),
     (''expires_at'', JStr (iso_text (acr_expires_at b)))]"

definition client_create_approval ::
  "(instant \<Rightarrow> string) \<Rightarrow> 'x http_client \<Rightarrow> gateway_client \<Rightarrow> (json \<Rightarrow> unit option) \<Rightarrow> string \<Rightarrow> remediation_plan \<Rightarrow> instant \<Rightarrow> string \<Rightarrow> ('x, unit) remote" where
  "client_create_approval iso_text H G parse approval_id plan expires_at rid x =
     bnd (validated Crash (ApprovalCreateRequest_validate (approval_body approval_id plan expires_at))) (\<lambda>b.
       gateway_request H G ''/v1/approvals'' (agent_token G (hc_clock H x) ''workflow-coordinator'' (pl_tenant_id plan) Kind_SERVICE) rid
         (approval_body_json iso_text b) parse) x"

definition step_intent :: "(instant \<Rightarrow> string) \<Rightarrow> string \<Rightarrow> remediation_plan \<Rightarrow> remediation_step \<Rightarrow> instant \<Rightarrow> tool_intent" where
  "step_intent iso_text workflow_execution_id plan step requested_at =
     \<lparr>ti_intent_id = ''intent_'' @ workflow_execution_id @ ''_'' @ st_step_id step, ti_tenant_id = pl_tenant_id plan, ti_change_id = pl_change_id plan,
      ti_workflow_execution_id = workflow_execution_id, ti_plan_id = pl_plan_id plan, ti_plan_hash = calculate_plan_hash iso_text plan,
      ti_step_id = st_step_id step, ti_agent_identity = st_agent_id step, ti_tool_name = st_tool_name step, ti_action = ''update'',
      ti_resource = st_resource step, ti_arguments = st_arguments step, ti_reason = ''Execute the exact approved durable workflow step.'',
      ti_evidence_refs = pl_evidence_refs plan, ti_idempotency_key = st_idempotency_key step, ti_requested_at = requested_at\<rparr>"

definition intent_json :: "(instant \<Rightarrow> string) \<Rightarrow> tool_intent \<Rightarrow> json" where
  "intent_json iso_text i = JObj [(''schema_version'', JStr ''1.0''), (''intent_id'', JStr (ti_intent_id i)), (''tenant_id'', JStr (ti_tenant_id i)),
     (''change_id'', JStr (ti_change_id i)), (''workflow_execution_id'', JStr (ti_workflow_execution_id i)), (''plan_id'', JStr (ti_plan_id i)),
     (''plan_hash'', JStr (ti_plan_hash i)), (''step_id'', JStr (ti_step_id i)), (''agent_identity'', JStr (ti_agent_identity i)),
     (''tool_name'', JStr (ti_tool_name i)), (''action'', JStr (ti_action i)), (''resource'', JStr (ti_resource i)),
     (''arguments'', JObj (ti_arguments i)), (''reason'', JStr (ti_reason i)), (''evidence_refs'', strs_json (ti_evidence_refs i)),
     (''idempotency_key'', JStr (ti_idempotency_key i)), (''requested_at'', JStr (iso_text (ti_requested_at i)))]"

definition client_execute ::
  "(instant \<Rightarrow> string) \<Rightarrow> 'x http_client \<Rightarrow> gateway_client \<Rightarrow> (json \<Rightarrow> tool_result option) \<Rightarrow> string \<Rightarrow> remediation_plan \<Rightarrow> remediation_step \<Rightarrow>
   string \<Rightarrow> instant \<Rightarrow> string \<Rightarrow> ('x, tool_result) remote" where
  "client_execute iso_text H G parse workflow_execution_id plan step approval_id requested_at rid x =
     bnd (validated Crash (GatewayExecutionRequest_validate (step_intent iso_text workflow_execution_id plan step requested_at) (Some approval_id)))
       (\<lambda>(intent, approval).
       gateway_request H G ''/internal/v1/tool-intents/evaluate-and-execute''
         (agent_token G (hc_clock H x) (st_agent_id step) (pl_tenant_id plan) Kind_AGENT) rid
         (JObj [(''intent'', intent_json iso_text intent), (''approval_id'', opt_json JStr approval)]) parse) x"

section \<open>The sandbox client\<close>

definition SandboxClient :: "(string, string) dict \<Rightarrow> (string, string) dict option" where
  "SandboxClient base_urls = (if set (map fst base_urls) = {''crm'', ''analytics'', ''support''}
     then Some (map (map_prod id (rstrip_chars ''/'')) base_urls) else None)"

fun verification_path :: "sandbox_system \<Rightarrow> string" where
  "verification_path Sys_crm = ''/v1/verification/synchronization''"
| "verification_path Sys_analytics = ''/v1/verification/data-quality''"
| "verification_path Sys_support = ''/v1/verification/lookup''"

definition sandbox_call :: "'x http_client \<Rightarrow> string \<Rightarrow> string \<Rightarrow> string \<Rightarrow> string \<Rightarrow> json option \<Rightarrow> ('x, http_response) remote" where
  "sandbox_call H verb url tenant_id rid payload = wrap_err sandbox_failure
     (bnd (validated Bad_value (urlsplit url)) (\<lambda>(scheme, netloc).
      bnd (platform_headers H (scheme @ ''://'' @ netloc)) (\<lambda>platform.
      send H (http_call verb url (merge_headers [(''X-Tenant-ID'', tenant_id), (''X-Request-ID'', rid)] platform) payload))))"

definition system_url :: "(string, string) dict \<Rightarrow> sandbox_system \<Rightarrow> ('x, string) remote" where
  "system_url base_urls system = validated Crash (dget base_urls (system_value system))"

text \<open>\<^verbatim>\<open>model_validate(response.json())\<close> where only the \<^verbatim>\<open>ValidationError\<close> is caught.\<close>

definition answer_as :: "string \<Rightarrow> (json \<Rightarrow> 'a option) \<Rightarrow> http_response \<Rightarrow> ('x, 'a) remote" where
  "answer_as code parse response = bnd (validated Crash (hs_json response)) (\<lambda>j. validated (Dependency code False) (parse j))"

text \<open>Fields of an answer: strings are stripped, and flags are read the way Pydantic reads them.\<close>

record readers =
  rd_datetime :: "json \<Rightarrow> bool"
  rd_int :: "json \<Rightarrow> bool"
  rd_float :: "json \<Rightarrow> bool"
  rd_digest :: "sandbox_system \<Rightarrow> json \<Rightarrow> string"

definition text_field :: "(string \<Rightarrow> bool) \<Rightarrow> (string \<times> json) list \<Rightarrow> string \<Rightarrow> string option" where
  "text_field ok kvs k = (case jget kvs k of Some (JStr s) \<Rightarrow> if ok (strip s) then Some (strip s) else None | _ \<Rightarrow> None)"

fun lax_bool :: "json \<Rightarrow> bool option" where
  "lax_bool (JBool b) = Some b"
| "lax_bool (JInt i) = (if i = 0 then Some False else if i = 1 then Some True else None)"
| "lax_bool (JStr s) = (let t = map ascii_lower s in
     if t \<in> {''0'', ''off'', ''f'', ''false'', ''n'', ''no''} then Some False
     else if t \<in> {''1'', ''on'', ''t'', ''true'', ''y'', ''yes''} then Some True else None)"
| "lax_bool _ = None"

definition only_fields :: "string list \<Rightarrow> (string \<times> json) list \<Rightarrow> bool" where
  "only_fields names kvs \<longleftrightarrow> list_all (\<lambda>kv. fst kv \<in> set names) kvs"

fun is_object :: "json option \<Rightarrow> bool" where
  "is_object (Some (JObj kvs)) = True"
| "is_object _ = False"

fun SnapshotRecord_parse :: "readers \<Rightarrow> json \<Rightarrow> snapshot_result option" where
  "SnapshotRecord_parse R (JObj kvs) =
    (case (text_field nonempty_str kvs ''snapshot_id'', text_field nonempty_str kvs ''tenant_id'', text_field nonempty_str kvs ''system_id'',
           text_field is_sha256_digest kvs ''configuration_hash'', jget kvs ''created_at'') of
       (Some snapshot_id, Some _, Some _, Some configuration_hash, Some created_at) \<Rightarrow>
         if is_object (jget kvs ''configuration'') \<and> rd_datetime R created_at \<and>
            only_fields [''snapshot_id'', ''tenant_id'', ''system_id'', ''configuration'', ''configuration_hash'', ''created_at''] kvs
         then Some \<lparr>sx_snapshot_id = snapshot_id, sx_configuration_hash = configuration_hash\<rparr> else None
     | _ \<Rightarrow> None)"
| "SnapshotRecord_parse R _ = None"

definition client_snapshot :: "'x http_client \<Rightarrow> readers \<Rightarrow> (string, string) dict \<Rightarrow> sandbox_system \<Rightarrow> string \<Rightarrow> string \<Rightarrow> ('x, snapshot_result) remote" where
  "client_snapshot H R base_urls system tenant_id rid =
     bnd (system_url base_urls system) (\<lambda>base.
     bnd (sandbox_call H ''POST'' (base @ ''/v1/snapshots'') tenant_id rid None)
       (answer_as ''SNAPSHOT_INVALID_RESPONSE'' (SnapshotRecord_parse R)))"

record restore_answer =
  ra_snapshot_id :: string
  ra_restored :: bool

fun RestoreResult_parse :: "json \<Rightarrow> restore_answer option" where
  "RestoreResult_parse (JObj kvs) =
    (case (text_field nonempty_str kvs ''system_id'', text_field nonempty_str kvs ''snapshot_id'',
           text_field is_sha256_digest kvs ''configuration_hash'', Option.bind (jget kvs ''restored'') lax_bool) of
       (Some _, Some snapshot_id, Some _, Some restored) \<Rightarrow>
         if only_fields [''system_id'', ''snapshot_id'', ''configuration_hash'', ''restored''] kvs
         then Some \<lparr>ra_snapshot_id = snapshot_id, ra_restored = restored\<rparr> else None
     | _ \<Rightarrow> None)"
| "RestoreResult_parse _ = None"

definition restore_url :: "string \<Rightarrow> string \<Rightarrow> string" where
  "restore_url base snapshot_id = base @ ''/v1/snapshots/'' @ snapshot_id @ ''/restore''"

definition client_restore :: "'x http_client \<Rightarrow> (string, string) dict \<Rightarrow> sandbox_system \<Rightarrow> string \<Rightarrow> string \<Rightarrow> string \<Rightarrow> ('x, unit) remote" where
  "client_restore H base_urls system tenant_id snapshot_id rid =
     bnd (system_url base_urls system) (\<lambda>base.
     bnd (sandbox_call H ''POST'' (restore_url base snapshot_id) tenant_id rid None) (\<lambda>response.
     bnd (answer_as ''RESTORE_INVALID_RESPONSE'' RestoreResult_parse response) (\<lambda>result.
     guard (ra_restored result \<and> ra_snapshot_id result = snapshot_id) (Dependency ''RESTORE_NOT_CONFIRMED'' False))))"

fun VerificationCheck_ok :: "json \<Rightarrow> bool" where
  "VerificationCheck_ok (JObj kvs) \<longleftrightarrow> text_field nonempty_str kvs ''name'' \<noteq> None \<and> text_field nonempty_str kvs ''detail'' \<noteq> None \<and>
     Option.bind (jget kvs ''passed'') lax_bool \<noteq> None \<and> only_fields [''name'', ''passed'', ''detail''] kvs"
| "VerificationCheck_ok _ \<longleftrightarrow> False"

definition extra_fields :: "sandbox_system \<Rightarrow> string list" where
  "extra_fields system = (if system = Sys_analytics then [''baseline_row_count'', ''observed_row_count'', ''null_rate''] else [])"

fun VerificationResult_parse :: "readers \<Rightarrow> sandbox_system \<Rightarrow> json \<Rightarrow> verify_result option" where
  "VerificationResult_parse R system (JObj kvs) =
    (case (text_field nonempty_str kvs ''system_id'', Option.bind (jget kvs ''passed'') lax_bool, jget kvs ''checks'') of
       (Some _, Some passed, Some (JArr checks)) \<Rightarrow>
         if list_all VerificationCheck_ok checks \<and> only_fields ([''system_id'', ''passed'', ''checks''] @ extra_fields system) kvs \<and>
            (system = Sys_analytics \<longrightarrow> (case (jget kvs ''baseline_row_count'', jget kvs ''observed_row_count'', jget kvs ''null_rate'') of
               (Some b, Some m, Some n) \<Rightarrow> rd_int R b \<and> rd_int R m \<and> rd_float R n | _ \<Rightarrow> False))
         then Some \<lparr>vx_passed = passed, vx_digest = rd_digest R system (JObj kvs)\<rparr> else None
     | _ \<Rightarrow> None)"
| "VerificationResult_parse R system _ = None"

definition client_verify :: "'x http_client \<Rightarrow> readers \<Rightarrow> (string, string) dict \<Rightarrow> sandbox_system \<Rightarrow> string \<Rightarrow> string \<Rightarrow> string \<Rightarrow> ('x, verify_result) remote" where
  "client_verify H R base_urls system tenant_id expected_field rid =
     bnd (system_url base_urls system) (\<lambda>base.
     bnd (sandbox_call H ''POST'' (base @ verification_path system) tenant_id rid (Some (JObj [(''expected_field'', JStr expected_field)])))
       (answer_as ''VERIFICATION_INVALID_RESPONSE'' (VerificationResult_parse R system)))"

fun document_hash :: "json \<Rightarrow> string option" where
  "document_hash (JObj kvs) = Some (sha256_digest (JObj (dict_from kvs)))"
| "document_hash _ = None"

definition client_configuration_hash :: "'x http_client \<Rightarrow> (string, string) dict \<Rightarrow> sandbox_system \<Rightarrow> string \<Rightarrow> string \<Rightarrow> ('x, string) remote" where
  "client_configuration_hash H base_urls system tenant_id rid =
     bnd (system_url base_urls system) (\<lambda>base.
     bnd (sandbox_call H ''GET'' (base @ ''/v1/configuration'') tenant_id rid None) (\<lambda>response.
     validated (Dependency ''CONFIGURATION_INVALID_RESPONSE'' False) (Option.bind (hs_json response) document_hash)))"

section \<open>The engine's clients\<close>

record 'x client_setup =
  cs_iso_text :: "instant \<Rightarrow> string"
  cs_http :: "'x http_client"
  cs_fleet_url :: string
  cs_gateway :: gateway_client
  cs_sandboxes :: "(string, string) dict"
  cs_readers :: readers
  cs_read_analysis :: "json \<Rightarrow> analysis_result option"
  cs_read_approval :: "json \<Rightarrow> unit option"
  cs_read_execution :: "json \<Rightarrow> tool_result option"

definition http_clients :: "'x client_setup \<Rightarrow> 'x clients" where
  "http_clients S =
     \<lparr>cl_analyze = fleet_analyze (cs_iso_text S) (cs_http S) (cs_fleet_url S) (cs_read_analysis S),
      cl_create_approval = client_create_approval (cs_iso_text S) (cs_http S) (cs_gateway S) (cs_read_approval S),
      cl_execute = client_execute (cs_iso_text S) (cs_http S) (cs_gateway S) (cs_read_execution S),
      cl_snapshot = client_snapshot (cs_http S) (cs_readers S) (cs_sandboxes S),
      cl_restore = client_restore (cs_http S) (cs_sandboxes S),
      cl_configuration_hash = client_configuration_hash (cs_http S) (cs_sandboxes S),
      cl_verify = client_verify (cs_http S) (cs_readers S) (cs_sandboxes S)\<rparr>"

section \<open>Facts\<close>

lemma merge_headers_other: "k \<notin> fst ` set platform \<Longrightarrow> dget (merge_headers headers platform) k = dget headers k"
  unfolding merge_headers_def by (induction platform arbitrary: headers) (auto simp: dget_dput)

lemma GatewayClient_issuer:
  "GatewayClient url secret audience = Some G \<Longrightarrow> HmacIdentityVerifier secret audience (hours 1) = Some (gk_issuer G)"
  by (auto simp: GatewayClient_def)

lemma HmacIdentityVerifier_Some:
  "HmacIdentityVerifier secret audience lifetime = Some V \<Longrightarrow> hv_audience V = audience \<and> hv_maximum_lifetime V = lifetime"
  by (auto simp: HmacIdentityVerifier_def split: if_splits)

lemma step_text:
  assumes "plan_ok plan" "step \<in> set (pl_steps plan)"
  shows "strip (st_agent_id step) = st_agent_id step" "nonempty_str (st_agent_id step)"
    "strip (pl_tenant_id plan) = pl_tenant_id plan" "nonempty_str (pl_tenant_id plan)"
proof -
  note ok = plan_okD [OF assms(1)]
  have "map strip_step (pl_steps plan) = pl_steps plan" using arg_cong [OF ok(1), of pl_steps] by (simp add: strip_plan_def)
  with assms(2) have "strip_step step = step" by (metis map_eq_conv map_ident)
  from arg_cong [OF this, of st_agent_id] show "strip (st_agent_id step) = st_agent_id step" by (simp add: strip_step_def)
  from arg_cong [OF ok(1), of pl_tenant_id] show "strip (pl_tenant_id plan) = pl_tenant_id plan" by (simp add: strip_plan_def)
  from ok(2) assms(2) show "nonempty_str (st_agent_id step)" "nonempty_str (pl_tenant_id plan)"
    by (auto simp: plan_fields_ok_def step_fields_ok_def list_all_iff)
qed

lemma token_times:
  assumes "0 \<le> t" "t + minutes 10 < seconds 253402300800"
  shows "whole_seconds (t + minutes 10) = whole_seconds t + 600" "0 \<le> whole_seconds t" "whole_seconds t + 600 \<le> 253402300799"
    "seconds (whole_seconds t) \<le> t" "t < seconds (whole_seconds t) + seconds 1"
  using assms by (simp_all add: whole_seconds_def time_unfold)

lemma issued_identity:
  assumes "plan_ok plan" "step \<in> set (pl_steps plan)" "nonempty_str (strip (hv_audience V))" "0 \<le> t" "t + minutes 10 < seconds 253402300800"
  shows "VerifiedIdentity_validate \<lparr>id_subject = st_agent_id step, id_tenant_id = pl_tenant_id plan, id_kind = Kind_AGENT, id_roles = [],
      id_audience = hv_audience V, id_issued_at = seconds (whole_seconds t), id_expires_at = seconds (whole_seconds (t + minutes 10))\<rparr> =
    Some \<lparr>id_subject = st_agent_id step, id_tenant_id = pl_tenant_id plan, id_kind = Kind_AGENT, id_roles = [],
      id_audience = strip (hv_audience V), id_issued_at = seconds (whole_seconds t), id_expires_at = seconds (whole_seconds t + 600)\<rparr>"
  using step_text [OF assms(1,2)] assms(3) token_times(1) [OF assms(4,5)]
  by (simp add: VerifiedIdentity_validate_def validate_claims_def time_unfold)

lemma send_Inr: "send H request x = (Inr response, x') \<Longrightarrow> hc_transport H request x = (Inr response, x') \<and> hs_status response < 400"
  by (auto simp: send_def bnd_def wrap_err_def split: prod.splits sum.splits if_splits)

lemma transport_failure_cases: "transport_failure f = Unreachable \<or> transport_failure f = Broken"
  by (cases f) simp_all

lemma send_Inl: "send H request x = (Inl f, x') \<Longrightarrow> f = Unreachable \<or> f = Broken \<or>
   (\<exists>response. f = Answered (response_error response) \<and> hc_transport H request x = (Inr response, x'))"
  using transport_failure_cases by (auto simp: send_def bnd_def wrap_err_def split: prod.splits sum.splits if_splits)

lemma sandbox_call_Inr:
  assumes "sandbox_call H verb url tenant_id rid payload x = (Inr response, x')"
  shows "\<exists>headers x1. hc_transport H (http_call verb url headers payload) x1 = (Inr response, x') \<and> hs_status response < 400"
proof -
  from assms obtain u where u: "urlsplit url = Some u"
    by (auto simp: sandbox_call_def wrap_err_def bnd_def validated_def split: option.splits)
  obtain p x1 where p: "platform_headers H (fst u @ ''://'' @ snd u) x = (p, x1)" by fastforce
  show ?thesis
  proof (cases p)
    case (Inl e)
    with assms u p show ?thesis by (simp add: sandbox_call_def wrap_err_def bnd_def split_beta)
  next
    case (Inr platform)
    with assms u p have "send H (http_call verb url (merge_headers [(''X-Tenant-ID'', tenant_id), (''X-Request-ID'', rid)] platform) payload) x1 = (Inr response, x')"
      by (auto simp: sandbox_call_def wrap_err_def bnd_def split_beta prod_eq_iff split: sum.splits)
    from send_Inr [OF this] show ?thesis by blast
  qed
qed

lemma sandbox_call_Inl:
  assumes "sandbox_call H verb url tenant_id rid payload x = (Inl (Dependency code True), x')"
  shows "code = ''SANDBOX_UNAVAILABLE'' \<or>
    (\<exists>request x1 response. hc_transport H request x1 = (Inr response, x') \<and> (hs_status response = 429 \<or> 500 \<le> hs_status response))"
proof -
  from assms obtain f where f: "sandbox_failure f = Dependency code True" and
    run: "bnd (validated Bad_value (urlsplit url)) (\<lambda>(scheme, netloc). bnd (platform_headers H (scheme @ ''://'' @ netloc)) (\<lambda>platform.
      send H (http_call verb url (merge_headers [(''X-Tenant-ID'', tenant_id), (''X-Request-ID'', rid)] platform) payload))) x = (Inl f, x')"
    by (auto simp: sandbox_call_def wrap_err_def split: prod.splits sum.splits)
  show ?thesis
  proof (cases f)
    case (Answered e)
    with run obtain u where u: "urlsplit url = Some u" by (cases "urlsplit url") (auto simp: bnd_def)
    obtain p x1 where p: "platform_headers H (fst u @ ''://'' @ snd u) x = (p, x1)" by fastforce
    have "p \<noteq> Inl (Answered e)" using p by (auto simp: platform_headers_def wrap_err_def split: prod.splits sum.splits elim: platform_failure.elims)
    with run u p Answered obtain platform where
      "send H (http_call verb url (merge_headers [(''X-Tenant-ID'', tenant_id), (''X-Request-ID'', rid)] platform) payload) x1 = (Inl (Answered e), x')"
      by (cases p) (auto simp: bnd_def split_beta)
    from send_Inl [OF this] f Answered show ?thesis by (auto simp: response_error_def)
  qed (use f in simp_all)
qed

section \<open>Properties\<close>

text \<open>
  C5. Coordinator and gateway agree: when both are configured with the same secret and audience, the request with which the coordinator executes
  a step of a valid plan is authenticated by the gateway, at any moment up to a second before the ten minutes of the token are over and with clocks
  at most 30 seconds apart, as the agent of that step in the tenant of the plan, which is the caller the intent in the request names.
\<close>

theorem coordinator_known_to_gateway:
  assumes "plan_ok plan" "step \<in> set (pl_steps plan)"
    and "GatewayClient url secret audience = Some G" "HmacIdentityVerifier secret audience (hours 1) = Some (gc_verifier C)"
    and "nonempty_str (strip audience)" "''Authorization'' \<notin> fst ` set platform"
    and "0 \<le> t" "t + minutes 10 < seconds 253402300800" "t \<le> moment + seconds 30" "moment + seconds 1 \<le> t + minutes 10"
    and "GatewayExecutionRequest_validate (step_intent iso_text wid plan step requested_at) (Some approval_id) = Some (intent, approval)"
  shows "\<exists>identity. serve_gateway C env moment
      (dget (gateway_headers (agent_token G t (st_agent_id step) (pl_tenant_id plan) Kind_AGENT) rid platform) ''Authorization'')
      (Submit_intent intent approval) w = handle C env (Submit_intent intent approval) identity w \<and> caller_authentic identity intent moment"
proof -
  let ?token = "agent_token G t (st_agent_id step) (pl_tenant_id plan) Kind_AGENT"
  let ?i = "\<lparr>id_subject = st_agent_id step, id_tenant_id = pl_tenant_id plan, id_kind = Kind_AGENT, id_roles = [],
      id_audience = strip audience, id_issued_at = seconds (whole_seconds t), id_expires_at = seconds (whole_seconds t + 600)\<rparr>"
  from assms(4) GatewayClient_issuer [OF assms(3)] have V: "gc_verifier C = gk_issuer G" by simp
  note cfg = HmacIdentityVerifier_Some [OF GatewayClient_issuer [OF assms(3)]]
  note times = token_times [OF assms(7,8)]
  have header: "dget (gateway_headers ?token rid platform) ''Authorization'' = Some (''Bearer '' @ ?token)"
    unfolding gateway_headers_def by (simp only: merge_headers_other [OF assms(6)] dget_Cons if_True simp_thms)
  have "verify_token (gk_issuer G) moment ?token w = (Inr ?i, w)"
  proof -
    have read: "json_readable (token_payload (gk_issuer G) t (st_agent_id step) (pl_tenant_id plan) Kind_AGENT [] (minutes 10))"
      using times(1-3) by (simp add: token_payload_def timestamp_readable)
    obtain claims where claims: "token_payload (gk_issuer G) t (st_agent_id step) (pl_tenant_id plan) Kind_AGENT [] (minutes 10) = JObj claims"
      by (simp add: token_payload_def)
    have "identity_of_payload (gk_issuer G) moment claims w = (Inr ?i, w)"
    proof (rule identity_of_issued [OF _ _ _ _ _ _ _ _ claims])
      show "VerifiedIdentity_validate \<lparr>id_subject = st_agent_id step, id_tenant_id = pl_tenant_id plan, id_kind = Kind_AGENT, id_roles = [],
          id_audience = hv_audience (gk_issuer G), id_issued_at = seconds (whole_seconds t), id_expires_at = seconds (whole_seconds (t + minutes 10))\<rparr> = Some ?i"
        using issued_identity [OF assms(1,2) _ assms(7,8), of "gk_issuer G"] assms(5) cfg by simp
    qed (use times assms(9,10) cfg in \<open>simp_all add: time_unfold\<close>)
    with verify_issued [OF read, of moment w] claims show ?thesis by (simp add: agent_token_def)
  qed
  then have auth: "authenticate_identity (gc_verifier C) moment (Some (''Bearer '' @ ?token)) w = (Inr ?i, w)"
    unfolding V agent_token_def authenticate_issued .
  have "serve_gateway C env moment (Some (''Bearer '' @ ?token)) (Submit_intent intent approval) w = handle C env (Submit_intent intent approval) ?i w"
    unfolding serve_gateway_def bnd_def auth by (simp only: prod.case sum.case)
  moreover have "ti_agent_identity intent = st_agent_id step" "ti_tenant_id intent = pl_tenant_id plan"
    using assms(11) step_text [OF assms(1,2)]
    by (auto simp: GatewayExecutionRequest_validate_def ToolIntent_validate_def Let_def strip_intent_def step_intent_def split: if_splits)
  moreover have "moment < seconds (whole_seconds t + 600)" using times(5) assms(10) by (simp add: time_unfold)
  ultimately show ?thesis unfolding header by (intro exI [of _ ?i]) (simp add: caller_authentic_def)
qed

text \<open>
  What a restore reports: the client returns normally only when the sandbox answered the restore of exactly this snapshot with a success status
  and a document that says this snapshot was restored. It reports a transient failure only when the sandbox could not be reached, or when it
  answered with status 429 or a server error.
\<close>

theorem restore_outcome_exact:
  "case client_restore H base_urls system tenant_id snapshot_id rid x of
     (Inr _, x') \<Rightarrow> \<exists>base headers x1 response j result. dget base_urls (system_value system) = Some base \<and>
       hc_transport H (http_call ''POST'' (restore_url base snapshot_id) headers None) x1 = (Inr response, x') \<and>
       hs_status response < 400 \<and> hs_json response = Some j \<and> RestoreResult_parse j = Some result \<and>
       ra_restored result \<and> ra_snapshot_id result = snapshot_id
   | (Inl (Dependency code True), x') \<Rightarrow> code = ''SANDBOX_UNAVAILABLE'' \<or>
       (\<exists>request x1 response. hc_transport H request x1 = (Inr response, x') \<and> (hs_status response = 429 \<or> 500 \<le> hs_status response))
   | (Inl _, x') \<Rightarrow> True"
proof (cases "dget base_urls (system_value system)")
  case None
  then show ?thesis by (simp add: client_restore_def system_url_def bnd_def)
next
  case (Some base)
  let ?url = "restore_url base snapshot_id"
  obtain r x' where call: "sandbox_call H ''POST'' ?url tenant_id rid None x = (r, x')" by fastforce
  note run = client_restore_def system_url_def Some bnd_def call
  show ?thesis
  proof (cases r)
    case (Inl e)
    then have "client_restore H base_urls system tenant_id snapshot_id rid x = (Inl e, x')" by (simp add: run)
    moreover have "code = ''SANDBOX_UNAVAILABLE'' \<or>
        (\<exists>request x1 response. hc_transport H request x1 = (Inr response, x') \<and> (hs_status response = 429 \<or> 500 \<le> hs_status response))"
      if "e = Dependency code True" for code
      by (rule sandbox_call_Inl [OF call [unfolded Inl that]])
    ultimately show ?thesis by (auto split: call_error.split bool.split)
  next
    case (Inr response)
    from sandbox_call_Inr [OF call [unfolded Inr]] obtain headers x1 where
      sent: "hc_transport H (http_call ''POST'' ?url headers None) x1 = (Inr response, x')" "hs_status response < 400" by blast
    show ?thesis
    proof (cases "hs_json response")
      case None
      with Inr show ?thesis by (simp add: run answer_as_def)
    next
      case (Some j)
      with Inr sent show ?thesis by (cases "RestoreResult_parse j") (auto simp: run answer_as_def guard_def, blast)
    qed
  qed
qed

definition wire_config :: "identity_verifier \<Rightarrow> nat gateway_config" where
  "wire_config V = \<lparr>gc_iso_text = demo_iso, gc_verifier = V, gc_registry = [], gc_maximum = 4, gc_post = demo_post, gc_notify = (\<lambda>_. True)\<rparr>"

theorem coordinator_known_to_gateway_witness:
  "\<exists>G V intent approval identity. GatewayClient ''http://gw/'' (replicate 32 (CHR ''k'')) ''gw'' = Some G \<and>
     serve_gateway (wire_config V) demo_env (seconds 60)
       (dget (gateway_headers (agent_token G (seconds 1) ''crm'' ''t1'' Kind_AGENT) ''r1'' []) ''Authorization'') (Submit_intent intent approval) demo_world =
     handle (wire_config V) demo_env (Submit_intent intent approval) identity demo_world \<and> id_subject identity = ''crm''"
proof -
  let ?step = "demo_step ''s1'' 1 []" and ?key = "replicate 32 (CHR ''k'')"
  have plan: "plan_ok demo_plan" by code_simp
  have step: "?step \<in> set (pl_steps demo_plan)" by (simp add: demo_plan_def)
  have len: "\<not> length (utf8_encode ?key) < 32" by code_simp
  have aud: "py_strip ''gw'' \<noteq> []" "nonempty_str (strip ''gw'')" by code_simp+
  let ?V = "\<lparr>hv_secret = utf8_encode ?key, hv_audience = ''gw'', hv_maximum_lifetime = hours 1\<rparr>"
  have V: "HmacIdentityVerifier ?key ''gw'' (hours 1) = Some (gc_verifier (wire_config ?V))"
    using len aud(1) by (simp add: HmacIdentityVerifier_def wire_config_def)
  then obtain G where G: "GatewayClient ''http://gw/'' ?key ''gw'' = Some G" by (simp add: GatewayClient_def)
  have agent: "st_agent_id ?step = ''crm''" "pl_tenant_id demo_plan = ''t1''" by (simp_all add: demo_step_def demo_plan_def)
  have "list_all (\<lambda>x. strip x = x \<and> nonempty_str x) [''intent_wf1_s1'', ''t1'', ''c1'', ''wf1'', ''p1'', ''s1'', ''crm'', st_tool_name ?step, ''update'',
    st_resource ?step, ''Execute the exact approved durable workflow step.'', st_idempotency_key ?step, ''a1''] \<and> strip_object (st_arguments ?step) = st_arguments ?step \<and>
    map strip (pl_evidence_refs demo_plan) = pl_evidence_refs demo_plan \<and> list_all reference_str (pl_evidence_refs demo_plan)" by code_simp
  then have "intent_fields_ok (strip_intent (step_intent demo_iso ''wf1'' demo_plan ?step 5))" "strip ''a1'' = ''a1'' \<and> nonempty_str ''a1''"
    by (simp_all add: intent_fields_ok_def strip_intent_def step_intent_def calculate_plan_hash_def strip_digest agent demo_plan_def demo_step_def)
  then obtain intent where "GatewayExecutionRequest_validate (step_intent demo_iso ''wf1'' demo_plan ?step 5) (Some ''a1'') = Some (intent, Some ''a1'')"
    by (simp add: GatewayExecutionRequest_validate_def ToolIntent_validate_def)
  note known = coordinator_known_to_gateway [OF plan step G V aud(2), of "[]" "seconds 1" "seconds 60", OF _ _ _ _ _ this]
  have ia: "ti_agent_identity intent = ''crm''"
    using \<open>GatewayExecutionRequest_validate _ _ = _\<close> step_text(1) [OF plan step] agent
    by (auto simp: GatewayExecutionRequest_validate_def ToolIntent_validate_def Let_def strip_intent_def step_intent_def split: if_splits)
  show ?thesis
    using known [where env = demo_env and rid = "''r1''" and w = demo_world, unfolded agent] G ia
    by (auto simp: time_unfold caller_authentic_def)
qed

end
