(* ===== verification/Workflow_Service.thy ===== *)
theory Workflow_Service
  imports Workflow_Clients
begin

text \<open>
  The coordinator's HTTP service (\<^verbatim>\<open>services/workflow-coordinator/.../app.py\<close>) and the notifier that calls it from the tool gateway
  (\<^verbatim>\<open>services/tool-gateway/.../callback.py\<close>): the routes with the validation of their parameters, the error responses, and the approval callback
  from the stored decision to the workflow that waits for it. How Pydantic reads dates and integers, and the text of a date
  (\<^verbatim>\<open>datetime.isoformat\<close>), are arguments.
\<close>

section \<open>Error responses\<close>

fun workflow_error_text :: "workflow_error \<Rightarrow> (string \<times> string) option" where
  "workflow_error_text (WorkflowTransientError code) = Some (code, ''A workflow dependency is temporarily unavailable.'')"
| "workflow_error_text (WorkflowPermanentError code) = Some (code, ''The workflow cannot continue automatically.'')"
| "workflow_error_text WorkflowNotFoundError = Some (''NOT_FOUND'', ''The requested workflow was not found.'')"
| "workflow_error_text (WorkflowConflictError detail) = Some (''WORKFLOW_CONFLICT'', detail)"
| "workflow_error_text CallbackAuthenticationError = Some (''CALLBACK_AUTHENTICATION_FAILED'', ''A valid workflow callback credential is required.'')"
| "workflow_error_text _ = None"

text \<open>The three exception handlers; an exception without a handler is answered with a plain text.\<close>

definition workflow_error_body :: "string option \<Rightarrow> workflow_error \<Rightarrow> json option" where
  "workflow_error_body request_header e = map_option (\<lambda>(code, detail). JObj [(''code'', JStr code), (''detail'', JStr detail),
     (''request_id'', JStr (case request_header of None \<Rightarrow> ''unknown'' | Some rid \<Rightarrow> rid))]) (workflow_error_text e)"

datatype route_error = Request_invalid | Route_failed workflow_error

definition workflow_response :: "string option \<Rightarrow> route_error \<Rightarrow> http_response" where
  "workflow_response request_header e = (case e of
     Request_invalid \<Rightarrow> \<lparr>hs_status = 422, hs_json = Some (JObj [])\<rparr>
   | Route_failed w \<Rightarrow> \<lparr>hs_status = int (workflow_status_code w), hs_json = workflow_error_body request_header w\<rparr>)"

section \<open>Routes\<close>

definition callback_status_of :: "string \<Rightarrow> callback_status option" where
  "callback_status_of s = (if s = ''APPROVED'' then Some CB_APPROVED else if s = ''REJECTED'' then Some CB_REJECTED
     else if s = ''CHANGES_REQUESTED'' then Some CB_CHANGES_REQUESTED else None)"

record 'x workflow_app =
  wa_engine :: "'x engine"
  wa_callback_secret :: string
  wa_read_time :: "json \<Rightarrow> instant option"
  wa_read_int :: "json \<Rightarrow> int option"
  wa_show :: "workflow_execution \<Rightarrow> json"

definition callback_fields :: "string list" where
  "callback_fields = [''tenant_id'', ''change_id'', ''approval_id'', ''plan_hash'', ''plan_version'', ''status'', ''decided_at'']"

fun json_text :: "json option \<Rightarrow> string option" where
  "json_text (Some (JStr s)) = Some s"
| "json_text _ = None"

fun ApprovalCallbackRequest_parse :: "(json \<Rightarrow> instant option) \<Rightarrow> (json \<Rightarrow> int option) \<Rightarrow> json \<Rightarrow> approval_callback option" where
  "ApprovalCallbackRequest_parse read_time read_int (JObj kvs) =
    (case (text_field nonempty_str kvs ''tenant_id'', text_field nonempty_str kvs ''change_id'', text_field nonempty_str kvs ''approval_id'',
           text_field is_sha256_digest kvs ''plan_hash'', Option.bind (jget kvs ''plan_version'') read_int,
           Option.bind (json_text (jget kvs ''status'')) callback_status_of, Option.bind (jget kvs ''decided_at'') read_time) of
       (Some tenant_id, Some change_id, Some approval_id, Some plan_hash, Some plan_version, Some status, Some decided_at) \<Rightarrow>
         if 1 \<le> plan_version \<and> only_fields callback_fields kvs
         then Some \<lparr>cb_tenant_id = tenant_id, cb_change_id = change_id, cb_approval_id = approval_id, cb_plan_hash = plan_hash,
           cb_plan_version = plan_version, cb_status = status, cb_decided_at = decided_at\<rparr> else None
     | _ \<Rightarrow> None)"
| "ApprovalCallbackRequest_parse read_time read_int _ = None"

text \<open>A request: a query parameter or header that is absent is \<^const>\<open>None\<close>, and so is a limit that is not an integer.\<close>

datatype workflow_call =
    Get_workflow string "string option" "string option"
  | List_dead_letters "string option" "int option"
  | Approval_callback "json option" "string option"

datatype workflow_answer = Workflow_record workflow_execution | Dead_letter_records "dead_letter list" nat

definition bounded_text :: "nat \<Rightarrow> string option \<Rightarrow> string option" where
  "bounded_text n value = (case value of Some v \<Rightarrow> if 1 \<le> length v \<and> length v \<le> n then Some v else None | None \<Rightarrow> None)"

fun workflow_route :: "'x workflow_app \<Rightarrow> workflow_call \<Rightarrow> ('x coordinator, route_error, workflow_answer) op" where
  "workflow_route A (Get_workflow workflow_execution_id change_query tenant_header) =
     bnd (validated Request_invalid (bounded_text 512 change_query)) (\<lambda>change_id.
     bnd (validated Request_invalid (bounded_text 128 tenant_header)) (\<lambda>tenant_id.
     wrap_err Route_failed (bnd (on_workflow_store (get_workflow tenant_id change_id workflow_execution_id)) (\<lambda>r. ret (Workflow_record r)))))"
| "workflow_route A (List_dead_letters tenant_header limit) =
     bnd (validated Request_invalid (bounded_text 128 tenant_header)) (\<lambda>tenant_id.
     bnd (validated Request_invalid limit) (\<lambda>n.
     bnd (guard (1 \<le> n \<and> n \<le> 100) Request_invalid) (\<lambda>_.
     wrap_err Route_failed (bnd (on_workflow_store (list_dead_letters tenant_id n)) (\<lambda>items. ret (Dead_letter_records items (length items)))))))"
| "workflow_route A (Approval_callback body callback_secret) =
     bnd (validated Request_invalid (Option.bind body (ApprovalCallbackRequest_parse (wa_read_time A) (wa_read_int A)))) (\<lambda>cb.
     wrap_err Route_failed (bnd (approval_callback_route (wa_engine A) (wa_callback_secret A) cb callback_secret) (\<lambda>r. ret (Workflow_record r))))"

text \<open>The callback route as the notifier's transport sees it: every outcome is a response.\<close>

definition callback_secret_header :: string where
  "callback_secret_header = ''X-Workflow-Callback-Secret''"

definition callback_endpoint :: "'x workflow_app \<Rightarrow> 'x coordinator transport" where
  "callback_endpoint A request w =
    (case workflow_route A (Approval_callback (hq_body request) (dget (hq_headers request) callback_secret_header)) w of
       (Inr (Workflow_record r), w') \<Rightarrow> (Inr \<lparr>hs_status = 200, hs_json = Some (wa_show A r)\<rparr>, w')
     | (Inr _, w') \<Rightarrow> (Inr \<lparr>hs_status = 200, hs_json = None\<rparr>, w')
     | (Inl e, w') \<Rightarrow> (Inr (workflow_response (dget (hq_headers request) ''X-Request-ID'') e), w'))"

section \<open>The notifier\<close>

record 'x notifier =
  nt_endpoint :: string
  nt_secret :: string
  nt_transport :: "'x transport"
  nt_platform :: "string \<Rightarrow> ('x, auth_failure, (string \<times> string) list) op"
  nt_isoformat :: "instant \<Rightarrow> string"

fun request_status_value :: "approval_request_status \<Rightarrow> string" where
  "request_status_value AR_PENDING = ''PENDING''"
| "request_status_value AR_APPROVED = ''APPROVED''"
| "request_status_value AR_REJECTED = ''REJECTED''"
| "request_status_value AR_CHANGES_REQUESTED = ''CHANGES_REQUESTED''"

definition callback_payload :: "(instant \<Rightarrow> string) \<Rightarrow> approval_request \<Rightarrow> instant \<Rightarrow> json" where
  "callback_payload isoformat r decided_at = JObj [(''tenant_id'', JStr (ar_tenant_id r)), (''change_id'', JStr (ar_change_id r)),
     (''approval_id'', JStr (ar_approval_id r)), (''plan_hash'', JStr (ar_plan_hash r)), (''plan_version'', JInt (ar_plan_version r)),
     (''status'', JStr (request_status_value (ar_status r))), (''decided_at'', JStr (isoformat decided_at))]"

text \<open>\<^verbatim>\<open>httpx.HTTPError\<close>, a failed platform identity and a \<^verbatim>\<open>ValueError\<close> become delivery errors; anything else escapes.\<close>

fun delivery_failure :: "auth_failure \<Rightarrow> gateway_error" where
  "delivery_failure Auth_unexpected = UnhandledError"
| "delivery_failure _ = ApprovalCallbackDeliveryError"

definition notify :: "'x notifier \<Rightarrow> approval_request \<Rightarrow> ('x, gateway_error, unit) op" where
  "notify N r =
     bnd (validated UnhandledError (ar_decided_at r)) (\<lambda>decided_at.
     bnd (wrap_err delivery_failure (nt_platform N (nt_endpoint N))) (\<lambda>platform.
     bnd (wrap_err (\<lambda>_. ApprovalCallbackDeliveryError) (nt_transport N (http_call ''POST'' (nt_endpoint N)
       (merge_headers [(callback_secret_header, nt_secret N)] platform) (Some (callback_payload (nt_isoformat N) r decided_at))))) (\<lambda>response.
     guard (\<not> 400 \<le> hs_status response) ApprovalCallbackDeliveryError)))"

definition noop_notify :: "approval_request \<Rightarrow> ('x, gateway_error, unit) op" where
  "noop_notify r = ret ()"

section \<open>Facts\<close>

definition callback_of :: "approval_request \<Rightarrow> approval_callback option" where
  "callback_of r = (case (callback_status_of (request_status_value (ar_status r)), ar_decided_at r) of
     (Some status, Some decided_at) \<Rightarrow> Some \<lparr>cb_tenant_id = ar_tenant_id r, cb_change_id = ar_change_id r, cb_approval_id = ar_approval_id r,
       cb_plan_hash = ar_plan_hash r, cb_plan_version = ar_plan_version r, cb_status = status, cb_decided_at = decided_at\<rparr>
   | _ \<Rightarrow> None)"

lemma final_callback_of:
  assumes "ApprovalRequestRecord_validate r = Some r" "ar_status r \<noteq> AR_PENDING"
  obtains cb t where "callback_of r = Some cb" "ar_decided_at r = Some t" "cb_decided_at cb = t"
proof -
  from ApprovalRequestRecord_validate_SomeD [OF assms(1)] assms(2) obtain t where t: "ar_decided_at r = Some t"
    by (auto simp: validate_lifecycle_def Let_def)
  with assms(2) have "\<exists>cb. callback_of r = Some cb \<and> cb_decided_at cb = t"
    by (cases "ar_status r") (simp_all add: callback_of_def callback_status_of_def)
  with t that show thesis by blast
qed

lemma callback_payload_round_trip:
  assumes "ApprovalRequestRecord_validate r = Some r" "callback_of r = Some cb" "ar_decided_at r = Some t"
    and "read_time (JStr (isoformat t)) = Some t" "read_int (JInt (ar_plan_version r)) = Some (ar_plan_version r)"
  shows "ApprovalCallbackRequest_parse read_time read_int (callback_payload isoformat r t) = Some cb"
proof -
  note valid = ApprovalRequestRecord_validate_SomeD [OF assms(1)]
  note same = arg_cong [OF valid(1) [symmetric]]
  have "strip (ar_tenant_id r) = ar_tenant_id r" "strip (ar_change_id r) = ar_change_id r" "strip (ar_approval_id r) = ar_approval_id r"
    "strip (ar_plan_hash r) = ar_plan_hash r"
    using same [of ar_tenant_id] same [of ar_change_id] same [of ar_approval_id] same [of ar_plan_hash] by (simp_all add: strip_approval_request_def)
  with valid assms(2-) show ?thesis
    by (auto simp: callback_of_def callback_payload_def text_field_def jget_def only_fields_def callback_fields_def approval_request_fields_ok_def
        split: option.splits)
qed

lemma workflow_error_statuses: "\<not> int (workflow_status_code e) < 400"
  by (cases e) simp_all

lemma callback_endpoint_run:
  assumes "Option.bind (hq_body request) (ApprovalCallbackRequest_parse (wa_read_time A) (wa_read_int A)) = Some cb"
    and "dget (hq_headers request) callback_secret_header = Some (wa_callback_secret A)" "is_ascii (wa_callback_secret A)"
    and "resume_approval (wa_engine A) cb w = (outcome, w')"
  shows "\<exists>response. callback_endpoint A request w = (Inr response, w') \<and> (hs_status response < 400 \<longleftrightarrow> \<not> isl outcome)"
  using assms workflow_error_statuses
  by (cases outcome) (auto simp: callback_endpoint_def approval_callback_route_def compare_digest_def bnd_def validated_def ret_def wrap_err_def
      workflow_response_def)

text \<open>
  C4. A decision reaches the workflow it was made for: the notifier of the tool gateway, given a stored final decision and the coordinator's endpoint
  and secret, makes the coordinator resume exactly that approval, with its tenant, change, plan hash, plan version and decision. It reports
  success if and only if the workflow was resumed, leaves the coordinator in the state the resumption reached, and every failure of the coordinator
  becomes the delivery error after which the same decision may be sent again. Dates and integers are read back as they were written.
\<close>

theorem decision_reaches_workflow:
  assumes "ApprovalRequestRecord_validate r = Some r" "ar_status r \<noteq> AR_PENDING"
    and "nt_transport N = callback_endpoint A" "nt_secret N = wa_callback_secret A" "is_ascii (wa_callback_secret A)"
    and "nt_platform N (nt_endpoint N) w = (Inr platform, w)" "callback_secret_header \<notin> fst ` set platform"
    and "\<And>t. wa_read_time A (JStr (nt_isoformat N t)) = Some t" "\<And>i. wa_read_int A (JInt i) = Some i"
  shows "\<exists>cb. callback_of r = Some cb \<and> notify N r w =
    (case resume_approval (wa_engine A) cb w of (Inr _, w') \<Rightarrow> (Inr (), w') | (Inl _, w') \<Rightarrow> (Inl ApprovalCallbackDeliveryError, w'))"
proof -
  from final_callback_of [OF assms(1,2)] obtain cb t where cb: "callback_of r = Some cb" and t: "ar_decided_at r = Some t" by blast
  let ?headers = "merge_headers [(callback_secret_header, nt_secret N)] platform"
  let ?request = "http_call ''POST'' (nt_endpoint N) ?headers (Some (callback_payload (nt_isoformat N) r t))"
  obtain outcome w' where run: "resume_approval (wa_engine A) cb w = (outcome, w')" by fastforce
  have "ApprovalCallbackRequest_parse (wa_read_time A) (wa_read_int A) (callback_payload (nt_isoformat N) r t) = Some cb"
    using assms(8,9) by (intro callback_payload_round_trip [OF assms(1) cb t])
  moreover have "dget ?headers callback_secret_header = Some (wa_callback_secret A)"
    using merge_headers_other [OF assms(7)] assms(4) by (simp add: dget_def)
  ultimately obtain response where "callback_endpoint A ?request w = (Inr response, w')" "hs_status response < 400 \<longleftrightarrow> \<not> isl outcome"
    using callback_endpoint_run [of ?request A cb w outcome w'] run assms(5) by (auto simp: http_call_def)
  with cb t run assms(3,6) show ?thesis
    by (cases outcome) (auto simp: notify_def bnd_def validated_def ret_def raise_def guard_def wrap_err_def)
qed

definition tally_text :: "instant \<Rightarrow> string" where
  "tally_text t = (if t < 0 then CHR ''-'' else CHR ''+'') # replicate (nat \<bar>t\<bar>) (CHR ''i'')"

fun tally_time :: "json \<Rightarrow> instant option" where
  "tally_time (JStr (c # cs)) = Some (if c = CHR ''-'' then - int (length cs) else int (length cs))"
| "tally_time _ = None"

fun plain_int :: "json \<Rightarrow> int option" where
  "plain_int (JInt i) = Some i"
| "plain_int _ = None"

definition sample_app :: "'x engine \<Rightarrow> 'x workflow_app" where
  "sample_app E = \<lparr>wa_engine = E, wa_callback_secret = ''secret'', wa_read_time = tally_time, wa_read_int = plain_int, wa_show = (\<lambda>_. JObj [])\<rparr>"

definition sample_notifier :: "'x engine \<Rightarrow> 'x coordinator notifier" where
  "sample_notifier E = \<lparr>nt_endpoint = ''http://wf'', nt_secret = ''secret'', nt_transport = callback_endpoint (sample_app E),
     nt_platform = (\<lambda>_. ret []), nt_isoformat = tally_text\<rparr>"

theorem decision_reaches_workflow_witness:
  "\<forall>(E :: unit engine) w. \<exists>cb. callback_of demo_decided = Some cb \<and> notify (sample_notifier E) demo_decided w =
    (case resume_approval E cb w of (Inr _, w') \<Rightarrow> (Inr (), w') | (Inl _, w') \<Rightarrow> (Inl ApprovalCallbackDeliveryError, w'))"
proof (intro allI)
  fix E :: "unit engine" and w
  have "is_ascii ''secret''" by code_simp
  then show "\<exists>cb. callback_of demo_decided = Some cb \<and> notify (sample_notifier E) demo_decided w =
      (case resume_approval E cb w of (Inr _, w') \<Rightarrow> (Inr (), w') | (Inl _, w') \<Rightarrow> (Inl ApprovalCallbackDeliveryError, w'))"
    using decision_reaches_workflow [OF demo_decided_valid, of "sample_notifier E" "sample_app E" w "[]"]
    by (simp add: sample_app_def sample_notifier_def tally_text_def ret_def demo_decided_def decided_record_def demo_decision_def)
qed

end
