(* ===== verification/Workflow_Subscriber.thy ===== *)
theory Workflow_Subscriber
  imports Workflow_Properties
begin

text \<open>
  The Pub/Sub subscriber of the workflow coordinator (\<^verbatim>\<open>services/workflow-coordinator/.../subscriber.py\<close>): what becomes of a delivered message.
  The Pub/Sub client and Pydantic's reading of the message are arguments; so is whether the event loop answered within the timeout and, when it
  did not, the state the cancelled coroutine left behind.
\<close>

section \<open>The callback\<close>

text \<open>A message is acknowledged, given back for redelivery, or left to the client library by an escaping exception.\<close>

datatype fate = Ack | Nack | Escaped

record 'x subscription =
  sub_coordinator :: "'x coordinator"
  sub_dead_letters :: "(string \<times> string) list"

record 'x subscriber =
  ps_engine :: "'x engine"
  ps_running :: bool
  ps_parse :: "string \<Rightarrow> change_event option"
  ps_publishes :: "string \<Rightarrow> string \<Rightarrow> bool"

definition publish_dead_letter :: "'x subscriber \<Rightarrow> string \<Rightarrow> string \<Rightarrow> 'x subscription \<Rightarrow> fate \<times> 'x subscription" where
  "publish_dead_letter S payload error_code st =
    (if ps_publishes S payload error_code then (Ack, st\<lparr>sub_dead_letters := sub_dead_letters st @ [(payload, error_code)]\<rparr>) else (Escaped, st))"

definition failure_code :: "workflow_execution \<Rightarrow> string" where
  "failure_code rec = (case wf_last_error_code rec of Some code \<Rightarrow> if code = [] then ''WORKFLOW_FAILED'' else code | None \<Rightarrow> ''WORKFLOW_FAILED'')"

fun settle_message :: "'x subscriber \<Rightarrow> string \<Rightarrow> workflow_error + workflow_execution \<Rightarrow> 'x subscription \<Rightarrow> fate \<times> 'x subscription" where
  "settle_message S payload (Inl (WorkflowPermanentError code)) st = publish_dead_letter S payload code st"
| "settle_message S payload (Inl e) st = (Nack, st)"
| "settle_message S payload (Inr rec) st =
    (if wf_status rec = WR_DEAD_LETTERED then publish_dead_letter S payload (failure_code rec) st else (Ack, st))"

definition handle_message :: "'x subscriber \<Rightarrow> 'x coordinator option \<Rightarrow> string \<Rightarrow> 'x subscription \<Rightarrow> fate \<times> 'x subscription" where
  "handle_message S cancelled payload st = (case ps_parse S payload of
     None \<Rightarrow> publish_dead_letter S payload ''INVALID_EVENT_SCHEMA'' st
   | Some event \<Rightarrow>
       if \<not> ps_running S then (Nack, st)
       else (case cancelled of
         Some w \<Rightarrow> (Nack, st\<lparr>sub_coordinator := w\<rparr>)
       | None \<Rightarrow> (case process_event (ps_engine S) event (sub_coordinator st) of
           (outcome, w) \<Rightarrow> settle_message S payload outcome (st\<lparr>sub_coordinator := w\<rparr>))))"

section \<open>Processed events are settled\<close>

abbreviation returns :: "('s, 'e, 'a) op \<Rightarrow> ('a \<Rightarrow> bool) \<Rightarrow> bool" where
  "returns \<equiv> keeps (\<lambda>_. True)"

lemma returns_any: "returns m (\<lambda>_. True)"
  by (simp add: keeps_def)

lemma returns_bnd: "(\<And>x. returns (f x) Q) \<Longrightarrow> returns (bnd m f) Q"
  by (rule keeps_bnd [OF returns_any])

lemma returns_update_record: "returns (update_record E rec f) (\<lambda>r. wf_status r = wf_status (f rec))"
  unfolding update_record_def
proof (rule returns_bnd, rule keeps_bnd [OF keeps_validated])
  fix t u assume "WorkflowExecutionRecord_validate (eng_iso_text E) ((f rec)\<lparr>wf_updated_at := t, wf_version := wf_version rec + 1\<rparr>) = Some u"
  from validated_workflow_ok [OF this] have u: "wf_status u = wf_status (f rec)" by (simp add: strip_workflow_def)
  show "returns (on_workflow_store (update_workflow u (wf_version rec))) (\<lambda>r. wf_status r = wf_status (f rec))"
    unfolding on_workflow_store_def by (rule keeps_zoom) (auto simp: update_workflow_Inr u)
qed

lemma returns_set_runtime_status: "returns (set_runtime_status E rec st err) (\<lambda>r. wf_status r = st)"
  unfolding set_runtime_status_def by (auto intro!: keeps_ret keeps_weaken [OF returns_update_record])

lemma returns_make_terminal: "returns (make_terminal E rec st err) (\<lambda>r. wf_status r = st)"
  unfolding make_terminal_def by (auto intro!: keeps_ret returns_bnd keeps_weaken [OF returns_update_record])

lemma returns_do_dead_letter: "returns (do_dead_letter E rec code) (\<lambda>r. settled (wf_status r))"
  unfolding do_dead_letter_def
  by (rule keeps_bnd [OF returns_make_terminal], intro returns_bnd keeps_ret) (simp add: settled_def)

lemma returns_block_injection: "returns (block_injection E rec event code) (\<lambda>r. settled (wf_status r))"
  unfolding block_injection_def by (intro returns_bnd keeps_weaken [OF returns_make_terminal]) (simp add: settled_def)

lemma returns_fleet_failed: "returns (fleet_failed E rec event e) (\<lambda>r. settled (wf_status r))"
  unfolding fleet_failed_def
  by (cases e) (auto intro: keeps_raise returns_block_injection returns_do_dead_letter)

fun exit_settled :: "workflow_execution step_exit \<Rightarrow> bool" where
  "exit_settled (Return r) = settled (wf_status r)"
| "exit_settled (Continue r) = True"

lemma returns_accept_plan: "returns (accept_plan E rec analysis) exit_settled"
proof -
  have "returns (bnd (do_dead_letter E rec ''INVALID_FLEET_PLAN'') (\<lambda>r. ret (Return r))) exit_settled"
    by (rule keeps_bnd [OF returns_do_dead_letter]) (simp add: keeps_ret)
  then show ?thesis unfolding accept_plan_def Let_def by (auto intro!: returns_bnd keeps_ret [of exit_settled "Continue r" for r])
qed

lemma returns_analyze_event: "returns (analyze_event E rec event) exit_settled"
proof -
  let ?call = "\<lambda>rid. catch (bnd (on_remote (cl_analyze (eng_clients E) (wf_change_id rec) event rid)) (\<lambda>a. ret (Inr a)))
    (\<lambda>e. bnd (fleet_failed E rec event e) (\<lambda>r. ret (Inl r)))"
  have call: "returns (?call rid) (\<lambda>outcome. case outcome of Inl r \<Rightarrow> settled (wf_status r) | Inr a \<Rightarrow> True)" for rid
    by (intro keeps_catch returns_bnd keeps_ret keeps_bnd [OF returns_fleet_failed]) simp_all
  show ?thesis unfolding analyze_event_def
    by (auto intro!: keeps_ret returns_bnd keeps_bnd [OF call] returns_accept_plan split: sum.splits)
qed

lemma returns_await_approval: "returns (await_approval E rec) (\<lambda>r. settled (wf_status r))"
proof -
  let ?call = "\<lambda>plan a x rid. catch (bnd (on_remote (cl_create_approval (eng_clients E) a plan x rid)) (\<lambda>_. ret None))
    (\<lambda>e. case e of DependencyCallError code transient \<Rightarrow>
        if transient then raise (WorkflowTransientError code) else bnd (do_dead_letter E rec code) (\<lambda>r. ret (Some r))
      | _ \<Rightarrow> raise e)"
  have call: "returns (?call plan a x rid) (\<lambda>dead. case dead of Some r \<Rightarrow> settled (wf_status r) | None \<Rightarrow> True)" for plan a x rid
    by (rule keeps_catch) (auto intro!: returns_bnd keeps_ret keeps_raise keeps_bnd [OF returns_do_dead_letter] split: workflow_error.split)
  have "returns (request_approval E rec plan) (\<lambda>r. settled (wf_status r))" for plan
    unfolding request_approval_def
    by (auto intro!: returns_bnd keeps_bnd [OF call] keeps_ret keeps_raise keeps_weaken [OF returns_set_runtime_status]
        simp: settled_def split: option.splits)
  then show ?thesis unfolding await_approval_def by (intro returns_bnd)
qed

lemma process_event_settles: "returns (process_event E event) (\<lambda>r. settled (wf_status r))"
proof -
  have load: "returns (load_workflow E event t) exit_settled" for t
    unfolding load_workflow_def by (rule keeps_catch) (auto intro!: returns_bnd keeps_ret keeps_raise)
  have "returns (run_analysis E rec event) (\<lambda>r. settled (wf_status r))" for rec
    unfolding run_analysis_def
    by (intro returns_bnd keeps_bnd [OF returns_analyze_event]) (auto intro: keeps_ret returns_await_approval split: step_exit.split)
  then show ?thesis unfolding process_event_def
    by (intro returns_bnd keeps_bnd [OF load]) (auto intro: keeps_ret returns_do_dead_letter split: step_exit.split)
qed

section \<open>Properties\<close>

text \<open>
  C37. No event is lost: a message is acknowledged only when its payload was published on the dead-letter topic, or its event was processed to a
  workflow record that waits for approval, is being executed or has ended; a message that is given back, or whose dead letter could not be
  published, leaves the dead-letter topic as it was; a message that is not a valid event is never given back.
\<close>

theorem no_event_lost:
  "case handle_message S cancelled payload st of
     (Ack, st') \<Rightarrow> (\<exists>code. sub_dead_letters st' = sub_dead_letters st @ [(payload, code)]) \<or>
       (\<exists>event rec. ps_parse S payload = Some event \<and> process_event (ps_engine S) event (sub_coordinator st) = (Inr rec, sub_coordinator st') \<and>
          settled (wf_status rec) \<and> wf_status rec \<noteq> WR_DEAD_LETTERED \<and> sub_dead_letters st' = sub_dead_letters st)
   | (Nack, st') \<Rightarrow> sub_dead_letters st' = sub_dead_letters st \<and> ps_parse S payload \<noteq> None
   | (Escaped, st') \<Rightarrow> sub_dead_letters st' = sub_dead_letters st \<and> (\<exists>code. \<not> ps_publishes S payload code)"
proof (cases "ps_parse S payload")
  case None
  then show ?thesis by (auto simp: handle_message_def publish_dead_letter_def)
next
  case (Some event)
  obtain outcome w where run: "process_event (ps_engine S) event (sub_coordinator st) = (outcome, w)" by fastforce
  have settled: "settled (wf_status rec)" if "outcome = Inr rec" for rec
    using keeps_Inr [OF process_event_settles TrueI] run that by blast
  show ?thesis
  proof (cases outcome)
    case (Inl e)
    with Some run show ?thesis by (cases e) (auto simp: handle_message_def publish_dead_letter_def split: option.split)
  next
    case (Inr rec)
    with Some run settled show ?thesis by (auto simp: handle_message_def publish_dead_letter_def split: option.split)
  qed
qed

end
