(* ===== verification/Settings.thy ===== *)
theory Settings
  imports Fleet_Governance
begin

text \<open>
  The settings every service starts from (\<^verbatim>\<open>packages/changeops-core/.../config.py\<close>): the fields with their defaults and bounds, and the validator that
  refuses unsafe combinations. How the environment's texts are read as integers, flags and numbers is Pydantic's; a value of the record is what was
  read. The two floating-point settings are rational numbers.
\<close>

datatype app_environment = Env_local | Env_test | Env_sandbox

datatype persistence_backend = Backend_memory | Backend_firestore

datatype service_auth_mode = Auth_none | Auth_google_cloud

record settings =
  cf_app_env :: app_environment
  cf_app_region :: string
  cf_log_level :: string
  cf_control_api_host :: string
  cf_control_api_port :: int
  cf_agent_fleet_host :: string
  cf_agent_fleet_port :: int
  cf_tool_gateway_host :: string
  cf_tool_gateway_port :: int
  cf_tool_gateway_auth_secret :: "string option"
  cf_event_gateway_host :: string
  cf_event_gateway_port :: int
  cf_event_gateway_webhook_secret :: "string option"
  cf_event_rate_limit_per_minute :: int
  cf_event_max_request_bytes :: int
  cf_workflow_coordinator_host :: string
  cf_workflow_coordinator_port :: int
  cf_workflow_callback_url :: "string option"
  cf_workflow_callback_secret :: "string option"
  cf_workflow_max_attempts :: int
  cf_workflow_retry_base_seconds :: rat
  cf_agent_fleet_base_url :: string
  cf_tool_gateway_base_url :: string
  cf_control_api_base_url :: string
  cf_agent_model_mode :: model_mode
  cf_agent_model_timeout_seconds :: rat
  cf_catalog_base_url :: string
  cf_crm_base_url :: string
  cf_analytics_base_url :: string
  cf_support_base_url :: string
  cf_control_tower_origin :: string
  cf_production_writes_enabled :: bool
  cf_persistence_backend :: persistence_backend
  cf_service_auth_mode :: service_auth_mode
  cf_google_cloud_project :: "string option"
  cf_google_cloud_location :: "string option"
  cf_google_genai_use_vertexai :: bool
  cf_gemini_primary_model :: string
  cf_gemini_light_model :: string
  cf_firestore_database :: string
  cf_pubsub_change_topic :: string
  cf_pubsub_change_subscription :: string
  cf_pubsub_dead_letter_topic :: string
  cf_pubsub_dead_letter_subscription :: string
  cf_pubsub_manage_resources :: bool
  cf_workflow_name :: "string option"
  cf_artifact_bucket :: "string option"
  cf_model_armor_template :: "string option"
  cf_agent_registry_location :: "string option"
  cf_agent_gateway_endpoint :: "string option"
  cf_memory_bank_id :: "string option"
  cf_governance_backend :: governance_backend
  cf_agent_identity_mode :: identity_mode
  cf_agent_identity_prefix :: "string option"
  cf_agent_service_account_domain :: "string option"
  cf_otel_exporter_otlp_endpoint :: "string option"
  cf_auth_audience :: "string option"
  cf_demo_tenant_id :: "string option"
  cf_enterprise_access_enabled :: bool
  cf_identity_platform_project :: "string option"

definition default_settings :: settings where
  "default_settings = \<lparr>
    cf_app_env = Env_local, cf_app_region = ''local'', cf_log_level = ''INFO'', cf_control_api_host = ''127.0.0.1'', cf_control_api_port = 8000,
    cf_agent_fleet_host = ''127.0.0.1'', cf_agent_fleet_port = 8200, cf_tool_gateway_host = ''127.0.0.1'', cf_tool_gateway_port = 8300,
    cf_tool_gateway_auth_secret = None, cf_event_gateway_host = ''127.0.0.1'', cf_event_gateway_port = 8400, cf_event_gateway_webhook_secret = None,
    cf_event_rate_limit_per_minute = 60, cf_event_max_request_bytes = 262144, cf_workflow_coordinator_host = ''127.0.0.1'',
    cf_workflow_coordinator_port = 8500, cf_workflow_callback_url = None, cf_workflow_callback_secret = None, cf_workflow_max_attempts = 3,
    cf_workflow_retry_base_seconds = 1 / 4, cf_agent_fleet_base_url = ''http://127.0.0.1:8200'',
    cf_tool_gateway_base_url = ''http://127.0.0.1:8300'', cf_control_api_base_url = ''http://127.0.0.1:8000'', cf_agent_model_mode = Mode_fake,
    cf_agent_model_timeout_seconds = 30, cf_catalog_base_url = ''http://127.0.0.1:8100'', cf_crm_base_url = ''http://127.0.0.1:8101'',
    cf_analytics_base_url = ''http://127.0.0.1:8102'', cf_support_base_url = ''http://127.0.0.1:8103'',
    cf_control_tower_origin = ''http://127.0.0.1:3000'', cf_production_writes_enabled = False, cf_persistence_backend = Backend_memory,
    cf_service_auth_mode = Auth_none, cf_google_cloud_project = None, cf_google_cloud_location = None, cf_google_genai_use_vertexai = False,
    cf_gemini_primary_model = ''gemini-3.5-flash'', cf_gemini_light_model = ''gemini-3.5-flash-lite'', cf_firestore_database = ''(default)'',
    cf_pubsub_change_topic = ''changeops-change-events'', cf_pubsub_change_subscription = ''changeops-workflow-coordinator'',
    cf_pubsub_dead_letter_topic = ''changeops-change-events-dlq'', cf_pubsub_dead_letter_subscription = ''changeops-change-events-dlq-inspection'',
    cf_pubsub_manage_resources = True, cf_workflow_name = None, cf_artifact_bucket = None, cf_model_armor_template = None,
    cf_agent_registry_location = None, cf_agent_gateway_endpoint = None, cf_memory_bank_id = None, cf_governance_backend = Governance_local,
    cf_agent_identity_mode = Identity_local, cf_agent_identity_prefix = None, cf_agent_service_account_domain = None,
    cf_otel_exporter_otlp_endpoint = None, cf_auth_audience = None, cf_demo_tenant_id = None, cf_enterprise_access_enabled = False,
    cf_identity_platform_project = None\<rparr>"

section \<open>Validation\<close>

definition port_ok :: "int \<Rightarrow> bool" where
  "port_ok n \<longleftrightarrow> 1 \<le> n \<and> n \<le> 65535"

definition secret_ok :: "string option \<Rightarrow> bool" where
  "secret_ok value = opt_ok (\<lambda>s. 32 \<le> length s) value"

definition settings_fields_ok :: "settings \<Rightarrow> bool" where
  "settings_fields_ok s \<longleftrightarrow> 1 \<le> length (cf_app_region s) \<and>
     port_ok (cf_control_api_port s) \<and> port_ok (cf_agent_fleet_port s) \<and> port_ok (cf_tool_gateway_port s) \<and> port_ok (cf_event_gateway_port s) \<and>
     port_ok (cf_workflow_coordinator_port s) \<and> secret_ok (cf_tool_gateway_auth_secret s) \<and> secret_ok (cf_event_gateway_webhook_secret s) \<and>
     secret_ok (cf_workflow_callback_secret s) \<and> 1 \<le> cf_event_rate_limit_per_minute s \<and> cf_event_rate_limit_per_minute s \<le> 10000 \<and>
     1024 \<le> cf_event_max_request_bytes s \<and> cf_event_max_request_bytes s \<le> 10485760 \<and>
     1 \<le> cf_workflow_max_attempts s \<and> cf_workflow_max_attempts s \<le> 10 \<and>
     1 / 100 \<le> cf_workflow_retry_base_seconds s \<and> cf_workflow_retry_base_seconds s \<le> 60 \<and>
     0 < cf_agent_model_timeout_seconds s \<and> cf_agent_model_timeout_seconds s \<le> 300 \<and> 1 \<le> length (cf_firestore_database s) \<and>
     3 \<le> length (cf_pubsub_change_topic s) \<and> 3 \<le> length (cf_pubsub_change_subscription s) \<and> 3 \<le> length (cf_pubsub_dead_letter_topic s) \<and>
     3 \<le> length (cf_pubsub_dead_letter_subscription s)"

text \<open>\<^verbatim>\<open>not value\<close> for an optional text.\<close>

definition absent :: "string option \<Rightarrow> bool" where
  "absent value \<longleftrightarrow> value = None \<or> value = Some []"

definition managed_missing :: "settings \<Rightarrow> string list" where
  "managed_missing s = map fst (filter (\<lambda>(name, value). absent value) [(''GOOGLE_CLOUD_PROJECT'', cf_google_cloud_project s),
     (''GOOGLE_CLOUD_LOCATION'', cf_google_cloud_location s), (''MODEL_ARMOR_TEMPLATE'', cf_model_armor_template s),
     (''AGENT_REGISTRY_LOCATION'', cf_agent_registry_location s), (''MEMORY_BANK_ID'', cf_memory_bank_id s)])"

definition reject_production_writes :: "settings \<Rightarrow> bool" where
  "reject_production_writes s \<longleftrightarrow>
     \<not> cf_production_writes_enabled s \<and>
     \<not> (cf_enterprise_access_enabled s \<and> (absent (cf_identity_platform_project s) \<or> cf_persistence_backend s \<noteq> Backend_firestore)) \<and>
     \<not> (cf_persistence_backend s = Backend_firestore \<and> absent (cf_google_cloud_project s)) \<and>
     \<not> (cf_agent_model_mode s = Mode_live \<and>
        (absent (cf_google_cloud_project s) \<or> absent (cf_google_cloud_location s) \<or> \<not> cf_google_genai_use_vertexai s)) \<and>
     \<not> (cf_governance_backend s = Governance_managed \<and> (managed_missing s \<noteq> [] \<or> cf_agent_identity_mode s = Identity_local)) \<and>
     \<not> (cf_agent_identity_mode s = Identity_agent_identity \<and> absent (cf_agent_identity_prefix s)) \<and>
     \<not> (cf_agent_identity_mode s = Identity_service_account \<and> absent (cf_agent_service_account_domain s))"

definition Settings_validate :: "settings \<Rightarrow> settings option" where
  "Settings_validate s = (if settings_fields_ok s \<and> reject_production_writes s then Some s else None)"

lemma default_settings_valid: "Settings_validate default_settings = Some default_settings"
  by (simp add: Settings_validate_def settings_fields_ok_def reject_production_writes_def default_settings_def port_ok_def secret_ok_def)

end
