(* ===== verification/Log_Redaction.thy ===== *)
theory Log_Redaction
  imports Python_Text
begin

text \<open>
  Structured logging (\<^verbatim>\<open>packages/changeops-core/.../logging.py\<close>): the redaction of secrets and addresses that every log event passes before it is
  serialized. The two regular expressions are matched the way \<^verbatim>\<open>re\<close> matches them, leftmost and greedy with backtracking, at a position that knows the
  character before it. Log values are the JSON values of the development; numbers other than integers pass through unchanged and are left out.
\<close>

section \<open>Substitution\<close>

text \<open>
  A matcher returns the length of the match that starts at a position, given the character before it. \<^verbatim>\<open>pattern.sub(replacement, text)\<close> scans from
  left to right and goes on after each match; a match is never empty.
\<close>

type_synonym matcher = "char option \<Rightarrow> string \<Rightarrow> nat option"

function sub_all :: "matcher \<Rightarrow> string \<Rightarrow> char option \<Rightarrow> string \<Rightarrow> string" where
  "sub_all m r p [] = []"
| "sub_all m r p (c # s) = (case m p (c # s) of
     None \<Rightarrow> c # sub_all m r (Some c) s
   | Some n \<Rightarrow> r @ sub_all m r (Some ((c # s) ! (n - 1))) (drop (n - 1) s))"
  by pat_completeness auto

termination
  by (relation "measure (\<lambda>(m, r, p, s). length s)") auto

fun has_match :: "matcher \<Rightarrow> char option \<Rightarrow> string \<Rightarrow> bool" where
  "has_match m p [] \<longleftrightarrow> m p [] \<noteq> None"
| "has_match m p (c # s) \<longleftrightarrow> m p (c # s) \<noteq> None \<or> has_match m (Some c) s"

section \<open>The patterns\<close>

text \<open>\<^verbatim>\<open>\w\<close>, and the word boundary \<^verbatim>\<open>\b\<close> between two characters.\<close>

definition word_char :: "char \<Rightarrow> bool" where
  "word_char c \<longleftrightarrow> py_isalnum c \<or> c = CHR ''_''"

fun word_at :: "char option \<Rightarrow> bool" where
  "word_at None \<longleftrightarrow> False"
| "word_at (Some c) \<longleftrightarrow> word_char c"

definition boundary :: "char option \<Rightarrow> char option \<Rightarrow> bool" where
  "boundary a b \<longleftrightarrow> word_at a \<noteq> word_at b"

definition first :: "string \<Rightarrow> char option" where
  "first s = (case s of [] \<Rightarrow> None | c # _ \<Rightarrow> Some c)"

text \<open>\<^verbatim>\<open>\bBearer\s+[A-Za-z0-9._~+/=-]+\<close>, ignoring case: blanks and token characters are disjoint, so the runs are maximal.\<close>

definition token_char :: "char \<Rightarrow> bool" where
  "token_char c \<longleftrightarrow> is_alnum c \<or> c \<in> set ''._~+/=-''"

definition bearer_word :: "string \<Rightarrow> bool" where
  "bearer_word s \<longleftrightarrow> lower (take 6 s) = ''bearer''"

definition bearer_match :: matcher where
  "bearer_match p s = (let rest = drop 6 s; blanks = takeWhile is_py_space rest; token = takeWhile token_char (drop (length blanks) rest) in
     if boundary p (first s) \<and> bearer_word s \<and> blanks \<noteq> [] \<and> token \<noteq> [] then Some (6 + length blanks + length token) else None)"

text \<open>
  \<^verbatim>\<open>\b[A-Z0-9._%+-]+@[A-Z0-9.-]+\.[A-Z]{2,}\b\<close>, ignoring case. The mailbox ends at the first at sign. The host is as long as possible: the dot that
  ends it is the last one that is followed by two letters or more of which some end at a word boundary, as many as possible.
\<close>

definition mailbox_char :: "char \<Rightarrow> bool" where
  "mailbox_char c \<longleftrightarrow> is_alnum c \<or> c \<in> set ''._%+-''"

definition host_char :: "char \<Rightarrow> bool" where
  "host_char c \<longleftrightarrow> is_alnum c \<or> c \<in> set ''.-''"

definition letter :: "char \<Rightarrow> bool" where
  "letter c \<longleftrightarrow> is_lower c \<or> is_upper c"

fun longest :: "(nat \<Rightarrow> bool) \<Rightarrow> nat \<Rightarrow> nat option" where
  "longest P 0 = (if P 0 then Some 0 else None)"
| "longest P (Suc n) = (if P (Suc n) then Some (Suc n) else longest P n)"

definition suffix_end :: "string \<Rightarrow> nat \<Rightarrow> bool" where
  "suffix_end s k \<longleftrightarrow> 2 \<le> k \<and> boundary (Some (s ! (k - 1))) (first (drop k s))"

definition domain_suffix :: "string \<Rightarrow> nat option" where
  "domain_suffix s = longest (suffix_end s) (length (takeWhile letter s))"

definition host_end :: "string \<Rightarrow> nat \<Rightarrow> bool" where
  "host_end s n \<longleftrightarrow> 1 \<le> n \<and> first (drop n s) = Some (CHR ''.'') \<and> domain_suffix (drop (Suc n) s) \<noteq> None"

definition host_match :: "string \<Rightarrow> nat option" where
  "host_match s = (case longest (host_end s) (length (takeWhile host_char s)) of
     None \<Rightarrow> None | Some n \<Rightarrow> map_option (\<lambda>k. Suc n + k) (domain_suffix (drop (Suc n) s)))"

definition email_match :: matcher where
  "email_match p s = (let mailbox = takeWhile mailbox_char s; rest = drop (length mailbox) s in
     if boundary p (first s) \<and> mailbox \<noteq> [] \<and> first rest = Some (CHR ''@'')
     then map_option (\<lambda>n. Suc (length mailbox) + n) (host_match (drop 1 rest)) else None)"

section \<open>Redaction\<close>

definition sensitive_key_parts :: "string list" where
  "sensitive_key_parts = [''api_key'', ''authorization'', ''callback_secret'', ''cookie'', ''credential'', ''password'', ''private_key'', ''secret'', ''token'']"

definition is_sensitive_key :: "string \<Rightarrow> bool" where
  "is_sensitive_key key = (let normalized = map (\<lambda>c. if c = CHR ''-'' then CHR ''_'' else c) (lower key) in
     list_ex (\<lambda>part. contains_text part normalized) sensitive_key_parts)"

definition redacted :: string where
  "redacted = ''[REDACTED]''"

definition bearer_redacted :: string where
  "bearer_redacted = ''Bearer '' @ redacted"

definition redact_bearer :: "string \<Rightarrow> string" where
  "redact_bearer = sub_all bearer_match bearer_redacted None"

definition email_redacted :: string where
  "email_redacted = ''[REDACTED_EMAIL]''"

definition redact_email :: "string \<Rightarrow> string" where
  "redact_email = sub_all email_match email_redacted None"

fun redact_sensitive_data :: "json \<Rightarrow> string option \<Rightarrow> json" and redact_value :: "json \<Rightarrow> json" where
  "redact_sensitive_data value key = (case key of
     Some k \<Rightarrow> if is_sensitive_key k then JStr redacted else redact_value value
   | None \<Rightarrow> redact_value value)"
| "redact_value (JObj kvs) = JObj (map (\<lambda>(k, v). (k, redact_sensitive_data v (Some k))) kvs)"
| "redact_value (JArr items) = JArr (map (\<lambda>v. redact_sensitive_data v None) items)"
| "redact_value (JStr s) = JStr (redact_email (redact_bearer s))"
| "redact_value v = v"

definition redact_event :: "(string \<times> json) list \<Rightarrow> (string \<times> json) list option" where
  "redact_event event_dict = (case redact_sensitive_data (JObj event_dict) None of JObj kvs \<Rightarrow> Some kvs | _ \<Rightarrow> None)"

text \<open>\<^verbatim>\<open>configure_logging\<close> accepts the names of levels that \<^verbatim>\<open>logging\<close> defines.\<close>

definition log_levels :: "(string, int) dict" where
  "log_levels = [(''CRITICAL'', 50), (''FATAL'', 50), (''ERROR'', 40), (''WARNING'', 30), (''WARN'', 30), (''INFO'', 20), (''DEBUG'', 10), (''NOTSET'', 0)]"

definition configure_logging :: "string \<Rightarrow> int option" where
  "configure_logging level = dget log_levels (map (\<lambda>c. if is_lower c then char_of ((of_char c :: nat) - 32) else c) level)"

section \<open>What a substitution leaves\<close>

text \<open>Where the scan finds no match, neither does the detector.\<close>

fun covered :: "matcher \<Rightarrow> matcher \<Rightarrow> char option \<Rightarrow> string \<Rightarrow> bool" where
  "covered m d p [] \<longleftrightarrow> True"
| "covered m d p (c # s) \<longleftrightarrow> (m p (c # s) = None \<longrightarrow> d p (c # s) = None) \<and> covered m d (Some c) s"

lemma covered_drop: "covered m d p (c # s) \<Longrightarrow> n \<le> length s \<Longrightarrow> covered m d (Some ((c # s) ! n)) (drop n s)"
proof (induction n arbitrary: p c s)
  case (Suc n)
  from Suc.prems(2) obtain c' s' where s: "s = c' # s'" by (cases s) auto
  with Suc.prems have "covered m d (Some c) (c' # s')" "n \<le> length s'" by simp_all
  from Suc.IH [OF this] s show ?case by simp
qed simp

lemma covered_self: "covered m m p s"
  by (induction s arbitrary: p) auto

lemma covered_clean: "\<not> has_match d p s \<Longrightarrow> covered m d p s"
  by (induction s arbitrary: p) auto

text \<open>
  A substitution of the matches of \<open>m\<close> by \<open>r\<close> leaves nothing that a detector \<open>d\<close> finds, provided that \<open>d\<close> finds nothing inside the replacement or right
  after a match, and that what it finds before a replacement it would have found before the match that was replaced.
\<close>

locale substitution =
  fixes m d :: matcher and r :: string
  assumes bounded: "m p s = Some n \<Longrightarrow> 1 \<le> n \<and> n \<le> length s"
    and empty: "d q [] = None"
    and inside: "r = a @ x # b \<Longrightarrow> d q ((x # b) @ u) = None"
    and after_match: "m p s = Some n \<Longrightarrow> drop n s = c # u \<Longrightarrow> d (Some (last r)) (c # v) = None"
    and stable: "t \<noteq> [] \<Longrightarrow> d p (t @ r @ u) \<noteq> None \<Longrightarrow> m (Some (last t)) v \<noteq> None \<Longrightarrow> d p (t @ v) \<noteq> None"
    and replacement: "r \<noteq> []"
begin

lemma sub_all_split:
  "\<exists>t v. s = t @ v \<and> (v = [] \<and> sub_all m r p s = t \<or>
     m (if t = [] then p else Some (last t)) v \<noteq> None \<and> (\<exists>u. sub_all m r p s = t @ r @ u))"
proof (induction s arbitrary: p)
  case (Cons c s)
  show ?case
  proof (cases "m p (c # s)")
    case None
    from Cons.IH [of "Some c"] obtain t v where "s = t @ v" "v = [] \<and> sub_all m r (Some c) s = t \<or>
      m (if t = [] then Some c else Some (last t)) v \<noteq> None \<and> (\<exists>u. sub_all m r (Some c) s = t @ r @ u)" by blast
    with None show ?thesis by (intro exI [of _ "c # t"] exI [of _ v]) auto
  next
    case (Some n)
    then show ?thesis by (intro exI [of _ "[]"] exI [of _ "c # s"]) auto
  qed
qed simp

lemma has_match_replacement: "has_match d q (r @ u) \<longleftrightarrow> has_match d (Some (last r)) u"
proof -
  have "has_match d q (b @ u) \<longleftrightarrow> has_match d (Some (last b)) u" if "r = a @ b" "b \<noteq> []" for a b q
    using that
  proof (induction b arbitrary: a q)
    case (Cons x b)
    have "d q ((x # b) @ u) = None" by (rule inside [OF Cons.prems(1)])
    then show ?case using Cons.IH [of "a @ [x]" "Some x"] Cons.prems(1) by (cases b) auto
  qed simp
  from this [of "[]" r] replacement show ?thesis by simp
qed

lemma sub_all_clean: "covered m d p s \<Longrightarrow> \<not> has_match d p (sub_all m r p s)"
proof (induction "length s" arbitrary: p s rule: less_induct)
  case less
  note IH = less.hyps
  show ?case
  proof (cases s)
    case Nil
    then show ?thesis using empty by simp
  next
    case (Cons c s')
    show ?thesis
    proof (cases "m p s")
      case None
      have "\<not> has_match d (Some c) (sub_all m r (Some c) s')" using IH [of s' "Some c"] less.prems Cons by simp
      moreover have "d p (c # sub_all m r (Some c) s') = None"
      proof -
        from sub_all_split [of s' "Some c"] obtain t v where "s' = t @ v" "v = [] \<and> sub_all m r (Some c) s' = t \<or>
          m (if t = [] then Some c else Some (last t)) v \<noteq> None \<and> (\<exists>u. sub_all m r (Some c) s' = t @ r @ u)" by blast
        moreover have "(if t = [] then Some c else Some (last t)) = Some (last (c # t))" by simp
        ultimately have tv: "s' = t @ v" "v = [] \<and> sub_all m r (Some c) s' = t \<or>
          m (Some (last (c # t))) v \<noteq> None \<and> (\<exists>u. sub_all m r (Some c) s' = t @ r @ u)" by simp_all
        have "d p (c # s') = None" using less.prems Cons None by simp
        with tv stable [of "c # t" p _ v] show ?thesis by fastforce
      qed
      ultimately show ?thesis using None Cons by simp
    next
      case (Some n)
      from bounded [OF Some] Cons obtain k where n: "n = Suc k" "k \<le> length s'" by (cases n) auto
      define rest where "rest = drop k s'"
      let ?out = "sub_all m r (Some (s ! k)) rest"
      have "covered m d (Some (s ! k)) rest" using covered_drop [of m d p c s' k] less.prems Cons n by (simp add: rest_def)
      with IH [of rest "Some (s ! k)"] Cons have tail: "\<not> has_match d (Some (s ! k)) ?out" by (simp add: rest_def)
      have "\<not> has_match d (Some (last r)) ?out"
      proof (cases rest)
        case Nil
        then show ?thesis using empty by simp
      next
        case (Cons c' u)
        have head: "d (Some (last r)) (c' # v) = None" for v
          using after_match [OF Some, of c' u v] Cons n \<open>s = c # s'\<close> by (simp add: rest_def)
        show ?thesis
        proof (cases "m (Some (s ! k)) rest")
          case None
          then show ?thesis using head tail Cons by simp
        next
          case Some
          then show ?thesis using tail Cons has_match_replacement by simp
        qed
      qed
      then show ?thesis using Some Cons n has_match_replacement by (simp add: rest_def)
    qed
  qed
qed

end

section \<open>The bearer pattern\<close>

lemma alnum_word: "is_alnum c \<Longrightarrow> word_char c"
  by (simp add: word_char_def py_isalnum_def)

lemma letter_word: "letter c \<Longrightarrow> word_char c"
  by (simp add: letter_def is_alnum_def alnum_word)

lemma token_no_blank: "token_char c \<Longrightarrow> \<not> is_py_space c"
proof -
  assume "token_char c"
  moreover have "list_all (\<lambda>c. \<not> is_py_space c) ''._~+/=-''" by code_simp
  moreover have "\<not> is_py_space c" if "is_alnum c"
    using that by (auto simp: is_alnum_def is_digit_def is_lower_def is_upper_def is_py_space_def is_whitespace_def Let_def)
  ultimately show ?thesis by (auto simp: token_char_def list_all_iff)
qed

lemma bearer_length: "lower w = ''bearer'' \<Longrightarrow> length w = 6"
proof -
  assume word: "lower w = ''bearer''"
  have "length w = length (lower w)" by (simp add: lower_def)
  also have "\<dots> = 6" unfolding word by simp
  finally show ?thesis .
qed

lemma b_alnum: "lower_char c = CHR ''b'' \<Longrightarrow> is_alnum c"
proof -
  assume "lower_char c = CHR ''b''"
  then have "of_char (lower_char c) = (98 :: nat)" by simp
  then have "of_char c = (98 :: nat) \<or> of_char c = (66 :: nat)"
    using nat_of_char_less_256 [of c] by (auto simp: lower_char_def is_upper_def Let_def split: if_splits)
  then show ?thesis by (auto simp: is_alnum_def is_lower_def is_upper_def)
qed

lemma bearer_first: "bearer_match p (c # s) \<noteq> None \<Longrightarrow> lower_char c = CHR ''b''"
  by (auto simp: bearer_match_def bearer_word_def lower_def Let_def split: if_splits)

lemma bearer_match_Some:
  assumes "bearer_match p s = Some n"
  shows "boundary p (first s) \<and> (\<exists>w b k u. s = w @ b @ k @ u \<and> lower w = ''bearer'' \<and> b \<noteq> [] \<and> list_all is_py_space b \<and> k \<noteq> [] \<and>
    list_all token_char k \<and> (u = [] \<or> \<not> token_char (hd u)) \<and> n = length (w @ b @ k))"
proof -
  define rest where "rest = drop 6 s"
  define b where "b = takeWhile is_py_space rest"
  define k where "k = takeWhile token_char (drop (length b) rest)"
  define u where "u = dropWhile token_char (drop (length b) rest)"
  from assms have facts: "boundary p (first s)" "lower (take 6 s) = ''bearer''" "b \<noteq> []" "k \<noteq> []" "n = 6 + length b + length k"
    by (auto simp: bearer_match_def bearer_word_def Let_def rest_def b_def k_def split: if_splits)
  have "rest = b @ drop (length b) rest" by (metis b_def dropWhile_eq_drop takeWhile_dropWhile_id)
  then have "rest = b @ k @ u" by (simp add: k_def u_def)
  then have s: "s = take 6 s @ b @ k @ u" using append_take_drop_id [of 6 s] by (simp add: rest_def)
  have "u = [] \<or> \<not> token_char (hd u)" unfolding u_def using hd_dropWhile by blast
  moreover have "list_all is_py_space b" "list_all token_char k" by (auto simp: list_all_iff b_def k_def dest: set_takeWhileD)
  moreover have "n = length (take 6 s @ b @ k)" using facts(5) bearer_length [OF facts(2)] by (simp only: length_append)
  ultimately show ?thesis using s facts by blast
qed

lemma bearer_matchI:
  assumes "boundary p (first s)" "s = w @ b @ c # u" "lower w = ''bearer''" "b \<noteq> []" "list_all is_py_space b" "token_char c"
  shows "bearer_match p s \<noteq> None"
proof -
  have "length w = 6" by (rule bearer_length [OF assms(3)])
  moreover have "takeWhile is_py_space (b @ c # u) = b"
    using assms(5) token_no_blank [OF assms(6)] by (simp add: takeWhile_append list_all_iff)
  ultimately show ?thesis using assms by (simp add: bearer_match_def bearer_word_def Let_def)
qed

lemma bearer_inside: "lower_char x \<noteq> CHR ''b'' \<Longrightarrow> bearer_match q ((x # b) @ u) = None"
  using bearer_first [of q x] by fastforce

text \<open>A bearer match that reaches a character that is neither a blank nor a letter of the word goes up to it with its blanks.\<close>

lemma bearer_prefix:
  assumes "t \<noteq> []" "bearer_match p (t @ x # u) \<noteq> None" "\<not> is_py_space x" "lower_char x \<notin> set ''earr''"
  shows "\<exists>w b c v. t @ [x] = w @ b @ c # v \<and> lower w = ''bearer'' \<and> b \<noteq> [] \<and> list_all is_py_space b \<and> token_char c"
proof -
  from assms(2) obtain n where "bearer_match p (t @ x # u) = Some n" by blast
  from bearer_match_Some [OF this] obtain w b k u' where s: "t @ x # u = w @ b @ k @ u'" and w: "lower w = ''bearer''" "b \<noteq> []"
    "list_all is_py_space b" "k \<noteq> []" "list_all token_char k" by blast
  then obtain c k' where k: "k = c # k'" "token_char c" by (cases k) auto
  have six: "length w = 6" by (rule bearer_length [OF w(1)])
  have at: "(w @ b @ k @ u') ! length t = x" using s by (metis nth_append_length)
  have "\<not> length t < length (w @ b)"
  proof
    assume short: "length t < length (w @ b)"
    show False
    proof (cases "length t < 6")
      case True
      then have "w ! length t = x" using at six by (simp only: nth_append if_True)
      then have "lower_char x = lower w ! length t" using True six by (simp add: lower_def)
      then have "lower_char x = ''bearer'' ! length t" unfolding w(1) .
      moreover have "length t \<noteq> 0" using assms(1) by simp
      then have "length t = 1 \<or> length t = 2 \<or> length t = 3 \<or> length t = 4 \<or> length t = 5" using True by arith
      ultimately show False using assms(4) by auto
    next
      case False
      then have "x \<in> set b" using at six short by (auto simp: nth_append)
      then show False using w(3) assms(3) by (auto simp: list_all_iff)
    qed
  qed
  then have "length (w @ b @ [c]) \<le> length (t @ [x])" by simp
  moreover have "prefix (w @ b @ [c]) (t @ x # u)" unfolding s k by simp
  moreover have "prefix (t @ [x]) (t @ x # u)" by simp
  ultimately have "prefix (w @ b @ [c]) (t @ [x])" using prefix_length_prefix by blast
  then obtain v where "t @ [x] = (w @ b @ [c]) @ v" by (auto simp: prefix_def)
  with w k show ?thesis by (intro exI [of _ w] exI [of _ b] exI [of _ c] exI [of _ v]) simp
qed

lemma bearer_stable:
  assumes "t \<noteq> []" "bearer_match p (t @ x # u) \<noteq> None" "\<not> is_py_space x" "lower_char x \<notin> set ''earr''" "token_char x \<longrightarrow> v \<noteq> [] \<and> token_char (hd v)"
  shows "bearer_match p (t @ v) \<noteq> None"
proof -
  from bearer_prefix [OF assms(1-4)] obtain w b c v' where s: "t @ [x] = w @ b @ c # v'"
    and w: "lower w = ''bearer''" "b \<noteq> []" "list_all is_py_space b" "token_char c" by blast
  have "boundary p (first t)" using assms(1,2) by (auto simp: bearer_match_def first_def Let_def neq_Nil_conv split: if_splits)
  then have at: "boundary p (first (t @ v))" using assms(1) by (auto simp: first_def neq_Nil_conv)
  show ?thesis
  proof (cases v' rule: rev_cases)
    case Nil
    with s have "t = w @ b" "x = c" by simp_all
    moreover from this w(4) assms(5) obtain c' v'' where "v = c' # v''" "token_char c'" by (cases v) auto
    ultimately show ?thesis by (intro bearer_matchI [OF at _ w(1-3)]) simp_all
  next
    case (snoc ys y)
    with s have "t = w @ b @ c # ys" by simp
    then show ?thesis by (intro bearer_matchI [OF at _ w]) simp
  qed
qed

lemma bearer_redacted_chars: "bearer_redacted = CHR ''B'' # ''earer '' @ redacted" "last bearer_redacted = CHR '']''"
  by (simp_all add: bearer_redacted_def redacted_def)

lemma bearer_inside_redacted: "bearer_redacted = a @ x # b \<Longrightarrow> bearer_match q ((x # b) @ u) = None"
proof (cases a)
  case Nil
  assume "bearer_redacted = a @ x # b"
  with Nil have "x # b = bearer_redacted" by simp
  then have s: "drop 6 ((x # b) @ u) = CHR '' '' # CHR ''['' # ''REDACTED]'' @ u" by (simp only:) (simp add: bearer_redacted_def redacted_def)
  have "is_py_space (CHR '' '')" "\<not> is_py_space (CHR ''['')" "\<not> token_char (CHR ''['')" by code_simp+
  then show ?thesis by (simp only: bearer_match_def s) simp
next
  case (Cons a' as)
  assume "bearer_redacted = a @ x # b"
  with Cons have "x \<in> set (''earer '' @ redacted)" by (simp add: bearer_redacted_chars)
  moreover have "list_all (\<lambda>c. lower_char c \<noteq> CHR ''b'') (''earer '' @ redacted)" by code_simp
  ultimately show ?thesis by (intro bearer_inside) (auto simp: list_all_iff)
qed

interpretation bearer: substitution bearer_match bearer_match bearer_redacted
proof
  show "1 \<le> n \<and> n \<le> length s" if "bearer_match p s = Some n" for p s n
    using bearer_match_Some [OF that] by (auto simp: Suc_le_eq)
  show "bearer_match q [] = None" for q
    by (simp add: bearer_match_def bearer_word_def lower_def Let_def)
  show "bearer_match q ((x # b) @ u) = None" if "bearer_redacted = a @ x # b" for a x b q u
    using that by (rule bearer_inside_redacted)
  show "bearer_match (Some (last bearer_redacted)) (c # v) = None" if "bearer_match p s = Some n" "drop n s = c # u" for p s n c u v
  proof -
    from bearer_match_Some [OF that(1)] that(2) have "\<not> token_char c" by auto
    then have "lower_char c \<noteq> CHR ''b''" using b_alnum [of c] by (auto simp: token_char_def)
    from bearer_inside [OF this, of _ v "[]"] show ?thesis by simp
  qed
  show "bearer_match p (t @ v) \<noteq> None" if "t \<noteq> []" "bearer_match p (t @ bearer_redacted @ u) \<noteq> None" "bearer_match (Some (last t)) v \<noteq> None" for t p u v
  proof -
    have "\<not> is_py_space (CHR ''B'')" "lower_char (CHR ''B'') \<notin> set ''earr''" by code_simp+
    moreover have "bearer_match p (t @ CHR ''B'' # ''earer '' @ redacted @ u) \<noteq> None"
      using that(2) by (simp only: bearer_redacted_chars append_Cons append_assoc not_False_eq_True)
    moreover have "v \<noteq> [] \<and> token_char (hd v)"
    proof (cases v)
      case (Cons c v')
      with that(3) show ?thesis using bearer_first [of "Some (last t)" c v'] b_alnum [of c] by (simp add: token_char_def)
    qed (use that(3) in \<open>simp add: bearer_match_def bearer_word_def lower_def Let_def\<close>)
    ultimately show ?thesis using bearer_stable [OF that(1)] by blast
  qed
qed (simp add: bearer_redacted_def)

section \<open>The e-mail pattern\<close>

lemma longest_Some: "longest P n = Some k \<Longrightarrow> P k \<and> k \<le> n"
  by (induction n) (auto split: if_splits)

lemma longest_None: "longest P n = None \<Longrightarrow> k \<le> n \<Longrightarrow> \<not> P k"
  by (induction n) (auto simp: le_Suc_eq split: if_splits)

lemma first_append: "a \<noteq> [] \<Longrightarrow> first (a @ b) = first a"
  by (auto simp: first_def neq_Nil_conv)

lemma first_Some: "first s = Some c \<longleftrightarrow> (\<exists>u. s = c # u)"
  by (cases s) (auto simp: first_def)

lemma domain_suffix_Some:
  assumes "domain_suffix s = Some k"
  shows "2 \<le> k \<and> k \<le> length s \<and> list_all letter (take k s) \<and> \<not> word_at (first (drop k s))"
proof -
  from longest_Some [OF assms [unfolded domain_suffix_def]] have k: "suffix_end s k" "k \<le> length (takeWhile letter s)" by blast+
  then have "take k s = take k (takeWhile letter s)" using take_append [of k "takeWhile letter s" "dropWhile letter s"] by simp
  then have "list_all letter (take k s)" by (metis list_all_iff set_takeWhileD in_set_takeD)
  moreover have "k \<le> length s" using k(2) length_takeWhile_le le_trans by blast
  moreover have "2 \<le> k" using k(1) by (simp add: suffix_end_def)
  moreover from calculation have "letter (s ! (k - 1))" by (auto simp: list_all_length)
  ultimately show ?thesis using k(1) letter_word by (auto simp: suffix_end_def boundary_def)
qed

lemma domain_suffixI:
  assumes "2 \<le> length l" "list_all letter l" "\<not> word_at (first u)"
  shows "domain_suffix (l @ u) \<noteq> None"
proof -
  have "suffix_end (l @ u) (length l)"
    using assms letter_word by (auto simp: suffix_end_def boundary_def nth_append list_all_length)
  moreover have "length l \<le> length (takeWhile letter (l @ u))" using assms(2) by (simp add: takeWhile_append list_all_iff)
  ultimately show ?thesis using longest_None unfolding domain_suffix_def by blast
qed

text \<open>A host with its domain, followed by \<open>u\<close>, and an address.\<close>

definition is_host :: "string \<Rightarrow> string \<Rightarrow> bool" where
  "is_host x u \<longleftrightarrow> (\<exists>h l. x = h @ CHR ''.'' # l \<and> h \<noteq> [] \<and> list_all host_char h \<and> 2 \<le> length l \<and> list_all letter l \<and> \<not> word_at (first u))"

definition is_address :: "string \<Rightarrow> string \<Rightarrow> bool" where
  "is_address x u \<longleftrightarrow> (\<exists>a y. x = a @ CHR ''@'' # y \<and> a \<noteq> [] \<and> list_all mailbox_char a \<and> is_host y u)"

lemma host_match_Some:
  assumes "host_match s = Some j"
  shows "\<exists>x u. s = x @ u \<and> is_host x u \<and> j = length x"
proof -
  from assms obtain n k where n: "longest (host_end s) (length (takeWhile host_char s)) = Some n" and k: "domain_suffix (drop (Suc n) s) = Some k"
    and j: "j = Suc n + k" by (auto simp: host_match_def split: option.splits)
  from longest_Some [OF n] have host: "1 \<le> n" "n \<le> length (takeWhile host_char s)" and dot: "first (drop n s) = Some (CHR ''.'')"
    by (auto simp: host_end_def)
  from dot obtain rest where rest: "drop n s = CHR ''.'' # rest" by (auto simp: first_Some)
  then have tail: "drop (Suc n) s = rest" by (metis drop_Suc list.sel(3) tl_drop)
  have "s = take n s @ CHR ''.'' # rest" using rest append_take_drop_id [of n s] by simp
  then have s: "s = (take n s @ CHR ''.'' # take k rest) @ drop k rest" by simp
  have "take n s = take n (takeWhile host_char s)" using host(2) take_append [of n "takeWhile host_char s" "dropWhile host_char s"] by simp
  then have hosts: "list_all host_char (take n s)" by (metis list_all_iff set_takeWhileD in_set_takeD)
  have long: "n \<le> length s" using host(2) length_takeWhile_le le_trans by blast
  then have "take n s \<noteq> []" using host(1) by auto
  moreover note domain_suffix_Some [OF k [unfolded tail]]
  ultimately have "is_host (take n s @ CHR ''.'' # take k rest) (drop k rest)" 
    using hosts unfolding is_host_def by (intro exI [of _ "take n s"] exI [of _ "take k rest"]) simp
  moreover have "j = length (take n s @ CHR ''.'' # take k rest)"
    using j long domain_suffix_Some [OF k [unfolded tail]] by simp
  ultimately show ?thesis using s by blast
qed

lemma host_matchI:
  assumes "is_host x u"
  shows "host_match (x @ u) \<noteq> None"
proof -
  from assms obtain h l where x: "x = h @ CHR ''.'' # l" "h \<noteq> []" "list_all host_char h" and l: "2 \<le> length l" "list_all letter l" "\<not> word_at (first u)"
    by (auto simp: is_host_def)
  let ?s = "h @ CHR ''.'' # l @ u"
  have "host_end ?s (length h)" using x(2) domain_suffixI [OF l] by (auto simp: host_end_def first_def Suc_le_eq)
  moreover have "length h \<le> length (takeWhile host_char ?s)" using x(3) by (simp add: takeWhile_append list_all_iff)
  ultimately obtain n where n: "longest (host_end ?s) (length (takeWhile host_char ?s)) = Some n" using longest_None by blast
  with longest_Some [OF n] show ?thesis by (auto simp: x(1) host_match_def host_end_def)
qed

lemma email_match_Some:
  assumes "email_match p s = Some n"
  shows "boundary p (first s) \<and> (\<exists>x u. s = x @ u \<and> is_address x u \<and> n = length x)"
proof -
  let ?a = "takeWhile mailbox_char s"
  from assms obtain j where at: "boundary p (first s)" "?a \<noteq> []" "first (drop (length ?a) s) = Some (CHR ''@'')"
    and host: "host_match (drop 1 (drop (length ?a) s)) = Some j" and n: "n = Suc (length ?a) + j"
    by (auto simp: email_match_def Let_def split: if_splits)
  from at(3) obtain rest where rest: "drop (length ?a) s = CHR ''@'' # rest" by (auto simp: first_Some)
  with host have "host_match rest = Some j" by simp
  from host_match_Some [OF this] obtain x u where x: "rest = x @ u" "is_host x u" "j = length x" by blast
  have "s = ?a @ CHR ''@'' # rest" using rest by (metis dropWhile_eq_drop takeWhile_dropWhile_id)
  then have "s = (?a @ CHR ''@'' # x) @ u" using x by simp
  moreover have "is_address (?a @ CHR ''@'' # x) u" using at(2) x(2) unfolding is_address_def by (auto simp: list_all_iff dest: set_takeWhileD)
  moreover have "n = length (?a @ CHR ''@'' # x)" using n x(3) by simp
  ultimately show ?thesis using at(1) by blast
qed

lemma email_matchI:
  assumes "boundary p (first (x @ u))" "is_address x u"
  shows "email_match p (x @ u) \<noteq> None"
proof -
  from assms(2) obtain a y where x: "x = a @ CHR ''@'' # y" "a \<noteq> []" "list_all mailbox_char a" "is_host y u" by (auto simp: is_address_def)
  have "\<not> mailbox_char (CHR ''@'')" by code_simp
  then have "takeWhile mailbox_char (x @ u) = a" using x(3) by (simp add: x(1) takeWhile_append list_all_iff)
  then show ?thesis using host_matchI [OF x(4)] assms(1) x(2) by (simp add: email_match_def x(1) first_def)
qed

text \<open>The characters of an address.\<close>

lemma address_chars: "is_address x u \<Longrightarrow> c \<in> set x \<Longrightarrow> mailbox_char c \<or> c = CHR ''@''"
  by (auto simp: is_address_def is_host_def list_all_iff mailbox_char_def host_char_def letter_def is_alnum_def)

lemma address_last: "is_address x u \<Longrightarrow> word_char (last x)"
  by (auto simp: is_address_def is_host_def list_all_iff intro!: letter_word)

lemma email_stable:
  assumes "t \<noteq> []" "email_match p (t @ x # u) \<noteq> None" "\<not> mailbox_char x" "x \<noteq> CHR ''@''" "email_match (Some (last t)) v \<noteq> None"
  shows "email_match p (t @ v) \<noteq> None"
proof -
  from assms(2) obtain n where "email_match p (t @ x # u) = Some n" by blast
  from email_match_Some [OF this] obtain y w where y: "t @ x # u = y @ w" "is_address y w" and at: "boundary p (first (t @ x # u))" by blast
  have "x \<notin> set y" using address_chars [OF y(2)] assms(3,4) by blast
  then have "prefix y t"
  proof -
    have "prefix y (t @ x # u)" unfolding y(1) by simp
    moreover have "prefix (t @ [x]) (t @ x # u)" by simp
    ultimately have "prefix y (t @ [x]) \<or> prefix (t @ [x]) y" using prefix_same_cases by blast
    then consider "y = t @ [x]" | "prefix y t" | "prefix (t @ [x]) y" by (auto simp only: prefix_snoc)
    then show ?thesis using \<open>x \<notin> set y\<close> set_mono_prefix [of "t @ [x]" y] by cases auto
  qed
  then obtain t' where t: "t = y @ t'" by (auto simp: prefix_def)
  have "is_address y (t' @ v)"
  proof (cases "t' = []")
    case True
    from assms(5) obtain k where "email_match (Some (last t)) v = Some k" by blast
    from email_match_Some [OF this] have "boundary (Some (last t)) (first v)" by blast
    then have "\<not> word_at (first v)" using address_last [OF y(2)] t True by (simp add: boundary_def)
    with y(2) True show ?thesis by (auto simp: is_address_def is_host_def)
  next
    case False
    have "w = t' @ x # u" using y(1) t by simp
    with y(2) False show ?thesis by (auto simp: is_address_def is_host_def first_append)
  qed
  moreover have "boundary p (first (t @ v))" using at assms(1) by (simp add: first_append)
  ultimately show ?thesis using email_matchI [of p y "t' @ v"] t by simp
qed

lemma email_stopped:
  assumes "x \<in> set y" "\<not> mailbox_char x" "CHR ''@'' \<notin> set y"
  shows "email_match q (y @ u) = None"
proof -
  from assms(1,2) have rest: "dropWhile mailbox_char y \<noteq> []" by auto
  have "takeWhile mailbox_char (y @ u) = takeWhile mailbox_char y" using assms(1,2) by (rule takeWhile_append1)
  then have "drop (length (takeWhile mailbox_char (y @ u))) (y @ u) = dropWhile mailbox_char y @ u"
    by (simp add: dropWhile_eq_drop length_takeWhile_le)
  moreover have "first (dropWhile mailbox_char y @ u) \<noteq> Some (CHR ''@'')"
  proof (cases "dropWhile mailbox_char y")
    case (Cons c z)
    then have "c \<in> set y" by (metis list.set_intros(1) set_dropWhileD)
    with Cons assms(3) show ?thesis by (auto simp: first_def)
  qed (use rest in blast)
  ultimately have "first (drop (length (takeWhile mailbox_char (y @ u))) (y @ u)) \<noteq> Some (CHR ''@'')" by simp
  then show ?thesis by (simp add: email_match_def Let_def)
qed

lemma email_redacted_chars: "email_redacted = CHR ''['' # ''REDACTED_EMAIL'' @ [CHR '']'']" "last email_redacted = CHR '']''"
  by (simp_all add: email_redacted_def)

lemma brackets: "\<not> mailbox_char (CHR ''['')" "\<not> mailbox_char (CHR '']'')" "\<not> word_char (CHR '']'')" "\<not> is_py_space (CHR ''['')" "\<not> token_char (CHR ''['')"
    "lower_char (CHR ''['') \<notin> set ''earr''"
  by code_simp+

lemma email_next: "email_match p s = Some n \<Longrightarrow> drop n s = c # u \<Longrightarrow> \<not> word_char c"
  using email_match_Some [of p s n] by (auto simp: is_address_def is_host_def first_def)

interpretation email: substitution email_match email_match email_redacted
proof
  show "1 \<le> n \<and> n \<le> length s" if "email_match p s = Some n" for p s n
    using email_match_Some [OF that] by (auto simp: is_address_def)
  show "email_match q [] = None" for q
    by (simp add: email_match_def)
  show "email_match q ((x # b) @ u) = None" if "email_redacted = a @ x # b" for a x b q u
  proof (rule email_stopped [of "CHR '']''"])
    have "last (a @ x # b) = CHR '']''" using email_redacted_chars(2) unfolding that .
    then have "last (x # b) = CHR '']''" by simp
    then show "CHR '']'' \<in> set (x # b)" using last_in_set [of "x # b"] by simp
    have "CHR ''@'' \<notin> set email_redacted" by (simp add: email_redacted_def)
    then show "CHR ''@'' \<notin> set (x # b)" unfolding that by simp
  qed (rule brackets)
  show "email_match (Some (last email_redacted)) (c # v) = None" if "email_match p s = Some n" "drop n s = c # u" for p s n c u v
    using email_next [OF that] email_match_Some [of "Some (CHR '']'')" "c # v"] brackets(3)
    by (cases "email_match (Some (CHR '']'')) (c # v)") (auto simp: email_redacted_chars(2) boundary_def first_def)
  show "email_match p (t @ v) \<noteq> None" if "t \<noteq> []" "email_match p (t @ email_redacted @ u) \<noteq> None" "email_match (Some (last t)) v \<noteq> None" for t p u v
    using email_stable [OF that(1) _ brackets(1) _ that(3)] that(2) by (simp only: email_redacted_chars append_Cons append_assoc) simp
qed (simp add: email_redacted_def)

interpretation bearer_email: substitution email_match bearer_match email_redacted
proof
  show "1 \<le> n \<and> n \<le> length s" if "email_match p s = Some n" for p s n
    using that by (rule email.bounded)
  show "bearer_match q [] = None" for q
    by (rule bearer.empty)
  show "bearer_match q ((x # b) @ u) = None" if "email_redacted = a @ x # b" for a x b q u
  proof -
    have "list_all (\<lambda>c. lower_char c \<noteq> CHR ''b'') email_redacted" by code_simp
    then have "list_all (\<lambda>c. lower_char c \<noteq> CHR ''b'') (a @ x # b)" unfolding that .
    then show ?thesis by (intro bearer_inside) simp
  qed
  show "bearer_match (Some (last email_redacted)) (c # v) = None" if "email_match p s = Some n" "drop n s = c # u" for p s n c u v
    using bearer_inside [of c _ v "[]"] email_next [OF that] b_alnum [of c] alnum_word [of c] by auto
  show "bearer_match p (t @ v) \<noteq> None" if "t \<noteq> []" "bearer_match p (t @ email_redacted @ u) \<noteq> None" "email_match (Some (last t)) v \<noteq> None" for t p u v
    using bearer_stable [OF that(1) _ brackets(4,6)] brackets(5) that(2) by (simp only: email_redacted_chars append_Cons append_assoc) blast
qed (simp add: email_redacted_def)

section \<open>Safe log events\<close>

definition safe_text :: "string \<Rightarrow> bool" where
  "safe_text s \<longleftrightarrow> \<not> has_match bearer_match None s \<and> \<not> has_match email_match None s"

fun log_safe :: "json \<Rightarrow> bool" where
  "log_safe (JStr s) \<longleftrightarrow> safe_text s"
| "log_safe (JArr items) \<longleftrightarrow> list_all log_safe items"
| "log_safe (JObj kvs) \<longleftrightarrow> list_all (\<lambda>(k, v). if is_sensitive_key k then v = JStr redacted else log_safe v) kvs"
| "log_safe _ \<longleftrightarrow> True"

lemma sub_all_unchanged: "\<not> has_match m p s \<Longrightarrow> sub_all m r p s = s"
  by (induction s arbitrary: p) auto

lemma redact_text_safe: "safe_text (redact_email (redact_bearer s))"
proof -
  have "\<not> has_match bearer_match None (redact_bearer s)" unfolding redact_bearer_def by (rule bearer.sub_all_clean [OF covered_self])
  from bearer_email.sub_all_clean [OF covered_clean [OF this]] email.sub_all_clean [OF covered_self]
  show ?thesis by (simp add: safe_text_def redact_email_def)
qed

lemma redact_text_unchanged: "safe_text s \<Longrightarrow> redact_email (redact_bearer s) = s"
  by (simp add: safe_text_def redact_email_def redact_bearer_def sub_all_unchanged)

lemma redact_value_safe: "log_safe (redact_value v)"
  by (induction v) (auto simp: list_all_iff redact_text_safe)

lemma redact_value_unchanged: "log_safe v \<Longrightarrow> redact_value v = v"
  by (induction v) (auto simp: list_all_iff redact_text_unchanged intro!: map_idI split: if_splits)

text \<open>
  C34. Nothing secret is logged: redaction returns an event with the same keys in which, at every depth, the value under a key that names a secret is the
  marker and no other text contains a bearer credential or an e-mail address, also none that the replacements put together; and it changes an event
  only if the event contained such a value.
\<close>

theorem redaction_complete:
  "\<exists>event'. redact_event event = Some event' \<and> map fst event' = map fst event \<and> log_safe (JObj event') \<and> (event' = event \<longleftrightarrow> log_safe (JObj event))"
proof -
  define event' where "event' = map (\<lambda>(k, v). (k, redact_sensitive_data v (Some k))) event"
  have run: "redact_value (JObj event) = JObj event'" by (simp add: event'_def del: redact_sensitive_data.simps)
  then have "redact_event event = Some event'" by (simp add: redact_event_def)
  moreover have "map fst event' = map fst event" by (simp add: event'_def comp_def case_prod_unfold)
  moreover have "log_safe (JObj event')" using redact_value_safe [of "JObj event"] run by metis
  moreover have "log_safe (JObj event) \<Longrightarrow> event' = event" using redact_value_unchanged [of "JObj event"] run by (metis json.inject(5))
  ultimately show ?thesis by metis
qed

end
