(* ===== verification/Deployment.thy ===== *)
theory Deployment
  imports Settings Workflow_Service Event_Gateway Log_Redaction
begin

text \<open>
  How the services are put together from one set of validated settings: the constructor calls of the \<^verbatim>\<open>create_app\<close> functions of the tool gateway, the
  workflow coordinator, the event gateway and the control API. A constructor that raises stops the service from starting and is \<^const>\<open>None\<close>. The
  objects that talk to Google Cloud are represented by what they are constructed from.
\<close>

section \<open>Adapters\<close>

datatype store_choice = In_memory | Firestore_store string string

text \<open>The tool gateway refuses an empty project; the others only an absent one.\<close>

definition build_governance_repository :: "settings \<Rightarrow> store_choice option" where
  "build_governance_repository s = (if cf_persistence_backend s = Backend_memory then Some In_memory
     else if absent (cf_google_cloud_project s) then None
     else map_option (\<lambda>project. Firestore_store project (cf_firestore_database s)) (cf_google_cloud_project s))"

definition build_repository :: "settings \<Rightarrow> store_choice option" where
  "build_repository s = (if cf_persistence_backend s = Backend_memory then Some In_memory
     else map_option (\<lambda>project. Firestore_store project (cf_firestore_database s)) (cf_google_cloud_project s))"

definition sandbox_urls :: "settings \<Rightarrow> (string, string) dict" where
  "sandbox_urls s = [(''crm'', cf_crm_base_url s), (''analytics'', cf_analytics_base_url s), (''support'', cf_support_base_url s)]"

section \<open>The tool gateway\<close>

record gateway_wiring =
  gx_verifier :: identity_verifier
  gx_store :: store_choice
  gx_base_urls :: "(string, string) dict"
  gx_platform_tokens :: bool
  gx_callback :: "(string \<times> string) option"

definition callback_notifier :: "settings \<Rightarrow> (string \<times> string) option option" where
  "callback_notifier s = (case cf_workflow_callback_url s of
     None \<Rightarrow> Some None
   | Some url \<Rightarrow> map_option (\<lambda>secret. Some (url, secret)) (cf_workflow_callback_secret s))"

definition create_gateway :: "settings \<Rightarrow> gateway_wiring option" where
  "create_gateway s = (case (cf_tool_gateway_auth_secret s, cf_auth_audience s) of
     (Some secret, Some audience) \<Rightarrow>
       (case (HmacIdentityVerifier secret audience (hours 1), build_governance_repository s, callback_notifier s, configure_logging (cf_log_level s)) of
          (Some verifier, Some store, Some callback, Some _) \<Rightarrow>
            Some \<lparr>gx_verifier = verifier, gx_store = store, gx_base_urls = sandbox_urls s,
              gx_platform_tokens = (cf_service_auth_mode s = Auth_google_cloud), gx_callback = callback\<rparr>
        | _ \<Rightarrow> None)
   | _ \<Rightarrow> None)"

section \<open>The workflow coordinator\<close>

record coordinator_wiring =
  wx_callback_secret :: string
  wx_store :: store_choice
  wx_fleet_url :: string
  wx_gateway :: gateway_client
  wx_sandboxes :: "(string, string) dict"
  wx_retry :: retry_policy
  wx_subscription :: "string \<times> string \<times> string \<times> string \<times> string \<times> bool"

definition create_coordinator :: "settings \<Rightarrow> coordinator_wiring option" where
  "create_coordinator s = (case (cf_workflow_callback_secret s, build_repository s, cf_tool_gateway_auth_secret s, cf_auth_audience s) of
     (Some callback_secret, Some store, Some secret, Some audience) \<Rightarrow>
       (case (GatewayClient (cf_tool_gateway_base_url s) secret audience, SandboxClient (sandbox_urls s), RetryPolicy (cf_workflow_max_attempts s),
              cf_google_cloud_project s, configure_logging (cf_log_level s)) of
          (Some gateway, Some sandboxes, Some retry, Some project, Some _) \<Rightarrow>
            if cf_workflow_retry_base_seconds s \<le> 0 then None
            else Some \<lparr>wx_callback_secret = callback_secret, wx_store = store, wx_fleet_url = cf_agent_fleet_base_url s, wx_gateway = gateway,
              wx_sandboxes = sandboxes, wx_retry = retry,
              wx_subscription = (project, cf_pubsub_change_topic s, cf_pubsub_change_subscription s, cf_pubsub_dead_letter_topic s,
                cf_pubsub_dead_letter_subscription s, cf_pubsub_manage_resources s)\<rparr>
        | _ \<Rightarrow> None)
   | _ \<Rightarrow> None)"

section \<open>The event gateway and the control API\<close>

record event_wiring =
  ex_secret :: "byte list"
  ex_store :: store_choice
  ex_limit :: int
  ex_maximum_bytes :: int
  ex_publisher :: "string \<times> string \<times> bool"
  ex_status_base_url :: string

definition create_event_gateway :: "settings \<Rightarrow> event_wiring option" where
  "create_event_gateway s = (case (Option.bind (cf_event_gateway_webhook_secret s) WebhookSignatureVerifier, cf_google_cloud_project s, build_repository s,
       configure_logging (cf_log_level s)) of
     (Some secret, Some project, Some store, Some _) \<Rightarrow>
       Some \<lparr>ex_secret = secret, ex_store = store, ex_limit = cf_event_rate_limit_per_minute s, ex_maximum_bytes = cf_event_max_request_bytes s,
         ex_publisher = (project, cf_pubsub_change_topic s, cf_pubsub_manage_resources s), ex_status_base_url = rstrip_chars ''/'' (cf_control_api_base_url s)\<rparr>
   | _ \<Rightarrow> None)"

text \<open>In enterprise mode the control API mounts the admission routes instead of the routes that trust the tenant and actor headers.\<close>

datatype mounted_routes = Admission_routes store_choice string | Header_routes store_choice

definition create_control_api :: "settings \<Rightarrow> mounted_routes option" where
  "create_control_api s = (case (build_repository s, configure_logging (cf_log_level s)) of
     (Some store, Some _) \<Rightarrow>
       Some (if cf_enterprise_access_enabled s
         then Admission_routes (Firestore_store (case cf_google_cloud_project s of Some p \<Rightarrow> p | None \<Rightarrow> []) (cf_firestore_database s))
           (case cf_identity_platform_project s of Some p \<Rightarrow> p | None \<Rightarrow> [])
         else Header_routes store)
   | _ \<Rightarrow> None)"

definition governance_settings_of :: "settings \<Rightarrow> governance_settings" where
  "governance_settings_of s = \<lparr>gs_backend = cf_governance_backend s, gs_identity_mode = cf_agent_identity_mode s,
     gs_identity_prefix = cf_agent_identity_prefix s, gs_service_account_domain = cf_agent_service_account_domain s,
     gs_model_armor_template = cf_model_armor_template s, gs_memory_bank_id = cf_memory_bank_id s\<rparr>"

section \<open>Facts\<close>

lemma Settings_validate_Some:
  "Settings_validate raw = Some s \<longleftrightarrow> s = raw \<and> settings_fields_ok s \<and> reject_production_writes s"
  by (auto simp: Settings_validate_def)

lemma absent_iff: "\<not> absent value \<longleftrightarrow> (\<exists>v. value = Some v \<and> v \<noteq> [])"
  by (cases "value") (auto simp: absent_def)

lemma length_utf8_encode: "length s \<le> length (utf8_encode s)"
  by (induction s) (auto simp: utf8_encode_def utf8_char_def Let_def)

lemma secret_verifier:
  assumes "secret_ok (Some secret)"
  shows "HmacIdentityVerifier secret audience lifetime = None \<longleftrightarrow> py_strip audience = []" "WebhookSignatureVerifier secret \<noteq> None"
  using assms length_utf8_encode [of secret] by (auto simp: secret_ok_def opt_ok_def HmacIdentityVerifier_def WebhookSignatureVerifier_def)

lemma validated_secret: "Settings_validate raw = Some s \<Longrightarrow> secret_ok (cf_tool_gateway_auth_secret s)"
  unfolding Settings_validate_Some settings_fields_ok_def by blast

lemma validated_rules:
  assumes "Settings_validate raw = Some s"
  shows "\<not> cf_production_writes_enabled s"
    "cf_enterprise_access_enabled s \<Longrightarrow> cf_persistence_backend s = Backend_firestore \<and> \<not> absent (cf_identity_platform_project s)"
    "cf_persistence_backend s = Backend_firestore \<Longrightarrow> \<not> absent (cf_google_cloud_project s)"
    "cf_governance_backend s = Governance_managed \<Longrightarrow> managed_missing s = [] \<and> cf_agent_identity_mode s \<noteq> Identity_local"
    "cf_agent_identity_mode s = Identity_agent_identity \<Longrightarrow> \<not> absent (cf_agent_identity_prefix s)"
    "cf_agent_identity_mode s = Identity_service_account \<Longrightarrow> \<not> absent (cf_agent_service_account_domain s)"
  using assms unfolding Settings_validate_Some reject_production_writes_def by blast+

lemma stores_agree:
  assumes "Settings_validate raw = Some s"
  shows "build_governance_repository s = build_repository s \<and> build_repository s \<noteq> None"
proof (cases "cf_persistence_backend s")
  case Backend_memory
  then show ?thesis by (simp add: build_governance_repository_def build_repository_def)
next
  case Backend_firestore
  with validated_rules(3) [OF assms] obtain p where "cf_google_cloud_project s = Some p" "p \<noteq> []" by (auto simp only: absent_iff)
  with Backend_firestore show ?thesis by (simp add: build_governance_repository_def build_repository_def absent_def)
qed

lemma sandbox_client_built: "SandboxClient (sandbox_urls s) = Some (map (map_prod id (rstrip_chars ''/'')) (sandbox_urls s))"
  by (auto simp: SandboxClient_def sandbox_urls_def)

text \<open>When each service starts: on validated settings only a missing secret, audience, project or level stops it.\<close>

lemma gateway_starts:
  assumes "Settings_validate raw = Some s"
  shows "create_gateway s \<noteq> None \<longleftrightarrow> cf_tool_gateway_auth_secret s \<noteq> None \<and> (\<exists>audience. cf_auth_audience s = Some audience \<and> py_strip audience \<noteq> []) \<and>
    (cf_workflow_callback_url s = None \<or> cf_workflow_callback_secret s \<noteq> None) \<and> configure_logging (cf_log_level s) \<noteq> None"
proof -
  from stores_agree [OF assms] obtain store where store: "build_governance_repository s = Some store" by auto
  have ok: "secret_ok (cf_tool_gateway_auth_secret s)" by (rule validated_secret [OF assms])
  show ?thesis
  proof (cases "\<exists>secret audience. cf_tool_gateway_auth_secret s = Some secret \<and> cf_auth_audience s = Some audience")
    case True
    then obtain secret audience where given: "cf_tool_gateway_auth_secret s = Some secret" "cf_auth_audience s = Some audience" by blast
    with ok have "HmacIdentityVerifier secret audience (hours 1) = None \<longleftrightarrow> py_strip audience = []" by (intro secret_verifier) simp
    with given store show ?thesis
      by (cases "HmacIdentityVerifier secret audience (hours 1)"; cases "cf_workflow_callback_url s"; cases "cf_workflow_callback_secret s";
          cases "configure_logging (cf_log_level s)") (simp_all add: create_gateway_def callback_notifier_def)
  next
    case False
    then show ?thesis by (auto simp: create_gateway_def split: option.splits)
  qed
qed

lemma create_gateway_Some:
  assumes "create_gateway s = Some gw"
  obtains secret audience where "cf_tool_gateway_auth_secret s = Some secret" "cf_auth_audience s = Some audience"
    "HmacIdentityVerifier secret audience (hours 1) = Some (gx_verifier gw)" "build_governance_repository s = Some (gx_store gw)"
    "callback_notifier s = Some (gx_callback gw)" "gx_base_urls gw = sandbox_urls s"
  using assms that by (auto simp: create_gateway_def split: option.splits)

lemma create_coordinator_Some:
  assumes "create_coordinator s = Some co"
  obtains secret audience where "cf_tool_gateway_auth_secret s = Some secret" "cf_auth_audience s = Some audience"
    "GatewayClient (cf_tool_gateway_base_url s) secret audience = Some (wx_gateway co)" "build_repository s = Some (wx_store co)"
    "cf_workflow_callback_secret s = Some (wx_callback_secret co)" "SandboxClient (sandbox_urls s) = Some (wx_sandboxes co)"
  using assms that by (auto simp: create_coordinator_def split: option.splits if_splits)


definition sample_settings :: settings where
  "sample_settings = default_settings\<lparr>cf_tool_gateway_auth_secret := Some (replicate 32 (CHR ''k'')), cf_auth_audience := Some ''gw'',
     cf_workflow_callback_url := Some ''http://wf'', cf_workflow_callback_secret := Some (replicate 32 (CHR ''s'')), cf_google_cloud_project := Some ''p''\<rparr>"

lemma sample_settings_valid: "Settings_validate sample_settings = Some sample_settings"
  by (simp add: sample_settings_def Settings_validate_def settings_fields_ok_def reject_production_writes_def default_settings_def port_ok_def
      secret_ok_def opt_ok_def)


text \<open>
  C36. Unsafe configurations do not start: validated settings never enable production writes; in enterprise mode the control API keeps its state in Firestore
  and mounts the admission routes for a named identity project, never the routes that trust request headers; and with managed governance the fleet
  screens prompts with the configured Model Armor template and never identifies an agent by a local identity.
\<close>

theorem settings_fail_closed:
  assumes "Settings_validate raw = Some s"
  shows "\<not> cf_production_writes_enabled s \<and>
    (cf_enterprise_access_enabled s \<longrightarrow> (\<forall>routes. create_control_api s = Some routes \<longrightarrow>
       (\<exists>project identity. project \<noteq> [] \<and> identity \<noteq> [] \<and> routes = Admission_routes (Firestore_store project (cf_firestore_database s)) identity))) \<and>
    (cf_governance_backend s = Governance_managed \<longrightarrow> (\<forall>G. build_governance transport token_provider t (governance_settings_of s) = Inr G \<longrightarrow>
       (\<exists>template location. template \<noteq> [] \<and> cf_model_armor_template s = Some template \<and>
          gv_screen G = model_armor_screen transport token_provider template location) \<and> ir_mode (gv_identity G) \<noteq> Identity_local))"
proof (intro conjI impI allI)
  note rules = validated_rules [OF assms]
  show "\<not> cf_production_writes_enabled s" by (rule rules)
next
  fix routes
  assume on: "cf_enterprise_access_enabled s" and run: "create_control_api s = Some routes"
  from validated_rules(2) [OF assms on] obtain i where i: "cf_identity_platform_project s = Some i" "i \<noteq> []" and
    "cf_persistence_backend s = Backend_firestore" by (auto simp only: absent_iff)
  from validated_rules(3) [OF assms this(3)] obtain p where p: "cf_google_cloud_project s = Some p" "p \<noteq> []" by (auto simp only: absent_iff)
  from run on i p show "\<exists>project identity. project \<noteq> [] \<and> identity \<noteq> [] \<and>
      routes = Admission_routes (Firestore_store project (cf_firestore_database s)) identity"
    by (auto simp: create_control_api_def split: option.splits)
next
  fix G
  assume on: "cf_governance_backend s = Governance_managed" and run: "build_governance transport token_provider t (governance_settings_of s) = Inr G"
  note managed = validated_rules(4) [OF assms on]
  then have "\<not> absent (cf_model_armor_template s)" by (auto simp: managed_missing_def split: if_splits)
  then obtain template where template: "cf_model_armor_template s = Some template" "template \<noteq> []" by (auto simp only: absent_iff)
  show "\<exists>template location. template \<noteq> [] \<and> cf_model_armor_template s = Some template \<and>
      gv_screen G = model_armor_screen transport token_provider template location"
    using run on template by (auto simp: build_governance_def governance_settings_of_def Let_def split: option.splits)
  show "ir_mode (gv_identity G) \<noteq> Identity_local"
    using run on managed by (auto simp: build_governance_def governance_settings_of_def ScopedIdentityResolver_def Let_def split: option.splits)
qed

definition managed_settings :: settings where
  "managed_settings = default_settings\<lparr>cf_enterprise_access_enabled := True, cf_identity_platform_project := Some ''id'', cf_persistence_backend := Backend_firestore,
     cf_google_cloud_project := Some ''p'', cf_google_cloud_location := Some ''us'', cf_governance_backend := Governance_managed,
     cf_model_armor_template := Some ''a'', cf_agent_registry_location := Some ''us'', cf_memory_bank_id := Some ''m'',
     cf_agent_identity_mode := Identity_service_account, cf_agent_service_account_domain := Some ''d''\<rparr>"

lemma managed_settings_valid: "Settings_validate managed_settings = Some managed_settings"
  by (simp add: managed_settings_def Settings_validate_def settings_fields_ok_def reject_production_writes_def default_settings_def port_ok_def
      secret_ok_def managed_missing_def absent_def)

theorem settings_fail_closed_witness:
  "\<exists>project identity. project \<noteq> [] \<and> identity \<noteq> [] \<and>
     create_control_api managed_settings = Some (Admission_routes (Firestore_store project ''(default)'') identity)"
proof -
  have "configure_logging ''INFO'' = Some 20" by code_simp
  then obtain routes where run: "create_control_api managed_settings = Some routes"
    by (simp add: create_control_api_def build_repository_def managed_settings_def default_settings_def)
  have "cf_enterprise_access_enabled managed_settings" "cf_firestore_database managed_settings = ''(default)''"
    by (simp_all add: managed_settings_def default_settings_def)
  with settings_fail_closed [OF managed_settings_valid, of "\<lambda>_ (x :: unit). (Inl Http_timeout, x)" "ret []" 0] run show ?thesis by fastforce
qed

end
