(* ===== verification/Fleet_Cloud.thy ===== *)
theory Fleet_Cloud
  imports Fleet_Governance Identity_Token
begin

text \<open>
  The two read-only Google Cloud adapters of the agent fleet that no route calls (\<^verbatim>\<open>services/agent-fleet/.../governance.py\<close>): the Agent Registry probe and the
  Secret Manager resolver. \<^verbatim>\<open>google_crc32c\<close> is not part of the repository: the checksum is an argument.
\<close>

section \<open>The agent registry probe\<close>

definition agents_url :: "string \<Rightarrow> string \<Rightarrow> string" where
  "agents_url project location = ''https://agentregistry.googleapis.com/v1/projects/'' @ project @ ''/locations/'' @ location @ ''/agents''"

fun agent_identifier :: "json \<Rightarrow> string list" where
  "agent_identifier (JObj kvs) = (case jget kvs ''name'' of Some (JStr name) \<Rightarrow> [after_last ''/'' name] | _ \<Rightarrow> [])"
| "agent_identifier _ = []"

fun agent_list :: "json option \<Rightarrow> fleet_error + json list" where
  "agent_list None = Inr []"
| "agent_list (Some (JArr agents)) = Inr agents"
| "agent_list (Some _) = Inl GovernanceUnavailableError"

definition visible_agent_ids :: "'x transport \<Rightarrow> 'x token_provider \<Rightarrow> string \<Rightarrow> string \<Rightarrow> ('x, fleet_error, string list) op" where
  "visible_agent_ids transport token_provider project location =
     bnd (authorized_json transport token_provider ''GET'' (agents_url project location) None) (\<lambda>payload.
     bnd (lift_sum (agent_list (jget payload ''agents''))) (\<lambda>agents.
     ret (sort (remdups (concat (map agent_identifier agents))))))"

section \<open>The secret resolver\<close>

definition is_resource_id :: "string \<Rightarrow> bool" where
  "is_resource_id s \<longleftrightarrow> s \<noteq> [] \<and> list_all (\<lambda>c. is_alnum c \<or> c \<in> set ''._-'') s"

definition secret_url :: "string \<Rightarrow> string \<Rightarrow> string \<Rightarrow> string" where
  "secret_url project secret_id version = ''https://secretmanager.googleapis.com/v1/projects/'' @ project @ ''/secrets/'' @ secret_id @
     ''/versions/'' @ version @ '':access''"

text \<open>\<^verbatim>\<open>base64.b64decode(encoded, validate=True)\<close>: the standard alphabet only.\<close>

definition standard_b64decode :: "string \<Rightarrow> byte list option" where
  "standard_b64decode s = (if is_ascii s \<and> CHR ''-'' \<notin> set s \<and> CHR ''_'' \<notin> set s then a2b_base64 s else None)"

fun integrity_data :: "json option \<Rightarrow> (string \<times> json) option" where
  "integrity_data (Some (JObj kvs)) = (case (jget kvs ''data'', jget kvs ''dataCrc32c'') of
     (Some (JStr encoded), Some (JStr crc)) \<Rightarrow> Some (encoded, JStr crc)
   | (Some (JStr encoded), Some (JInt crc)) \<Rightarrow> Some (encoded, JInt crc)
   | (Some (JStr encoded), Some (JBool crc)) \<Rightarrow> Some (encoded, JBool crc)
   | _ \<Rightarrow> None)"
| "integrity_data _ = None"

definition secret_access ::
  "(byte list \<Rightarrow> nat) \<Rightarrow> 'x transport \<Rightarrow> 'x token_provider \<Rightarrow> string \<Rightarrow> string \<Rightarrow> string \<Rightarrow> ('x, fleet_error, byte list) op" where
  "secret_access crc32c transport token_provider project secret_id version =
     bnd (guard (is_resource_id secret_id \<and> is_resource_id version) Fleet_value_error) (\<lambda>_.
     bnd (authorized_json transport token_provider ''GET'' (secret_url project secret_id version) None) (\<lambda>payload.
     bnd (validated GovernanceUnavailableError (integrity_data (jget payload ''payload''))) (\<lambda>(encoded, expected_crc).
     bnd (validated GovernanceUnavailableError (standard_b64decode encoded)) (\<lambda>data.
     bnd (validated GovernanceUnavailableError (int_of_claim expected_crc)) (\<lambda>expected.
     bnd (guard (int (crc32c data) = expected) GovernanceUnavailableError) (\<lambda>_. ret data))))))"

section \<open>Facts\<close>

lemma visible_agent_ids_sorted:
  "visible_agent_ids transport token_provider project location s = (Inr ids, s') \<Longrightarrow> sorted ids \<and> distinct ids"
  by (auto simp: visible_agent_ids_def bnd_Inr_iff)

text \<open>
  A secret is handed out only if its bytes have the checksum that came with them, and the identifiers in the requested address cannot leave their path
  segment.
\<close>

theorem secret_verified:
  "case secret_access crc32c transport token_provider project secret_id version s of
     (Inr data, s') \<Rightarrow> CHR ''/'' \<notin> set secret_id \<and> CHR ''/'' \<notin> set version \<and>
       (\<exists>payload kvs encoded crc. authorized_json transport token_provider ''GET'' (secret_url project secret_id version) None s = (Inr payload, s') \<and>
          jget payload ''payload'' = Some (JObj kvs) \<and> jget kvs ''data'' = Some (JStr encoded) \<and> standard_b64decode encoded = Some data \<and>
          jget kvs ''dataCrc32c'' = Some crc \<and> int_of_claim crc = Some (int (crc32c data)))
   | (Inl _, s') \<Rightarrow> True"
proof (cases "secret_access crc32c transport token_provider project secret_id version s")
  case (Pair r s')
  show ?thesis
  proof (cases r)
    case (Inr data)
    with Pair obtain payload encoded crc where ids: "is_resource_id secret_id" "is_resource_id version" and
      run: "authorized_json transport token_provider ''GET'' (secret_url project secret_id version) None s = (Inr payload, s')" and
      found: "integrity_data (jget payload ''payload'') = Some (encoded, crc)" and
      data: "standard_b64decode encoded = Some data" "int_of_claim crc = Some (int (crc32c data))"
      by (auto simp: secret_access_def bnd_Inr_iff guard_Inr_iff validated_Inr_iff split: if_splits)
    have slash: "CHR ''/'' \<notin> set x" if "is_resource_id x" for x
    proof -
      have "\<not> (is_alnum (CHR ''/'') \<or> CHR ''/'' \<in> set ''._-'')" by code_simp
      with that show ?thesis by (auto simp: is_resource_id_def list_all_iff)
    qed
    from found obtain kvs where "jget payload ''payload'' = Some (JObj kvs)" by (cases "jget payload ''payload''" rule: integrity_data.cases) simp_all
    moreover from this found have "jget kvs ''data'' = Some (JStr encoded)" "jget kvs ''dataCrc32c'' = Some crc"
      by (auto split: option.splits json.splits)
    ultimately show ?thesis using Pair Inr run data slash ids by auto
  qed (use Pair in simp)
qed

end
