(* ===== verification/Pubsub_Resources.thy ===== *)
theory Pubsub_Resources
  imports Prelude
begin

text \<open>
  The Pub/Sub resources of the event gateway's publisher (\<^verbatim>\<open>services/event-gateway/.../publisher.py\<close>) and of the coordinator's subscriber
  (\<^verbatim>\<open>services/workflow-coordinator/.../subscriber.py\<close>): what is created or looked up before a service takes requests, and the life of the streaming pull.
  The client library is an argument.
\<close>

section \<open>Resources\<close>

datatype pubsub_failure = Already_exists | Pubsub_failed

record subscription_spec =
  sp_name :: string
  sp_topic :: string
  sp_ack_deadline_seconds :: int
  sp_backoff_seconds :: "(int \<times> int) option"
  sp_dead_letter :: "(string \<times> int) option"

record 'x pubsub_client =
  pc_create_topic :: "string \<Rightarrow> ('x, pubsub_failure, unit) op"
  pc_get_topic :: "string \<Rightarrow> ('x, pubsub_failure, unit) op"
  pc_create_subscription :: "subscription_spec \<Rightarrow> ('x, pubsub_failure, unit) op"
  pc_get_subscription :: "string \<Rightarrow> ('x, pubsub_failure, unit) op"

text \<open>\<^verbatim>\<open>try: ... except AlreadyExists: pass\<close>.\<close>

definition unless_exists :: "('x, pubsub_failure, unit) op \<Rightarrow> ('x, pubsub_failure, unit) op" where
  "unless_exists m x = (case m x of (Inl Already_exists, x') \<Rightarrow> (Inr (), x') | r \<Rightarrow> r)"

definition publisher_ensure_ready :: "'x pubsub_client \<Rightarrow> bool \<Rightarrow> string \<Rightarrow> ('x, pubsub_failure, unit) op" where
  "publisher_ensure_ready client manage_resources topic_path =
     (if \<not> manage_resources then pc_get_topic client topic_path else unless_exists (pc_create_topic client topic_path))"

record subscriber_paths =
  pp_topic :: string
  pp_subscription :: string
  pp_dead_letter_topic :: string
  pp_dead_letter_subscription :: string

definition work_subscription :: "subscriber_paths \<Rightarrow> subscription_spec" where
  "work_subscription P = \<lparr>sp_name = pp_subscription P, sp_topic = pp_topic P, sp_ack_deadline_seconds = 60, sp_backoff_seconds = Some (1, 10),
     sp_dead_letter = Some (pp_dead_letter_topic P, 5)\<rparr>"

definition dead_letter_subscription :: "subscriber_paths \<Rightarrow> subscription_spec" where
  "dead_letter_subscription P = \<lparr>sp_name = pp_dead_letter_subscription P, sp_topic = pp_dead_letter_topic P, sp_ack_deadline_seconds = 30,
     sp_backoff_seconds = None, sp_dead_letter = None\<rparr>"

definition subscriber_ensure_ready :: "'x pubsub_client \<Rightarrow> bool \<Rightarrow> subscriber_paths \<Rightarrow> ('x, pubsub_failure, unit) op" where
  "subscriber_ensure_ready client manage_resources P =
     (if \<not> manage_resources then pc_get_subscription client (pp_subscription P)
      else bnd (unless_exists (pc_create_topic client (pp_topic P))) (\<lambda>_.
           bnd (unless_exists (pc_create_topic client (pp_dead_letter_topic P))) (\<lambda>_.
           bnd (unless_exists (pc_create_subscription client (work_subscription P))) (\<lambda>_.
           unless_exists (pc_create_subscription client (dead_letter_subscription P))))))"

section \<open>The stream\<close>

text \<open>The streaming future and the event loop, by number; a failure while the stream is stopped is logged only.\<close>

record stream =
  sm_future :: "nat option"
  sm_loop :: "nat option"

definition start_stream :: "('x, pubsub_failure, nat) op \<Rightarrow> nat \<Rightarrow> (stream \<times> 'x, pubsub_failure, unit) op" where
  "start_stream subscribe loop sx = (case sx of (s, x) \<Rightarrow>
     if sm_future s \<noteq> None then (Inr (), (s, x))
     else (case subscribe x of
         (Inl e, x') \<Rightarrow> (Inl e, (s\<lparr>sm_loop := Some loop\<rparr>, x'))
       | (Inr future, x') \<Rightarrow> (Inr (), (s\<lparr>sm_loop := Some loop, sm_future := Some future\<rparr>, x'))))"

definition stop_stream :: "(nat \<Rightarrow> 'x \<Rightarrow> 'x) \<Rightarrow> stream \<times> 'x \<Rightarrow> stream \<times> 'x" where
  "stop_stream cancel_and_wait sx = (case sx of (s, x) \<Rightarrow>
     (case sm_future s of None \<Rightarrow> (s, x) | Some future \<Rightarrow> (s\<lparr>sm_future := None\<rparr>, cancel_and_wait future x)))"

section \<open>Facts\<close>

text \<open>
  What the code relies on: creating a resource either makes it exist or reports that it exists, and nothing is removed. Then the subscriber starts
  only with both topics and both subscriptions in place.
\<close>

lemma unless_exists_Inr:
  assumes "unless_exists m x = (Inr (), x')"
    and "\<And>y x'. m x = (y, x') \<Longrightarrow> y = Inr () \<or> y = Inl Already_exists \<Longrightarrow> E x \<subseteq> E x' \<and> n \<in> E x'"
  shows "E x \<subseteq> E x' \<and> n \<in> E x'"
  using assms(1) assms(2) [of _ x'] by (auto simp: unless_exists_def split: prod.splits sum.splits pubsub_failure.splits)

lemma subscriber_resources_ready:
  assumes topic: "\<And>n x y x'. pc_create_topic client n x = (y, x') \<Longrightarrow> y = Inr () \<or> y = Inl Already_exists \<Longrightarrow> E x \<subseteq> E x' \<and> Inl n \<in> E x'"
    and sub: "\<And>n x y x'. pc_create_subscription client n x = (y, x') \<Longrightarrow> y = Inr () \<or> y = Inl Already_exists \<Longrightarrow> E x \<subseteq> E x' \<and> Inr (sp_name n) \<in> E x'"
    and run: "subscriber_ensure_ready client True P x = (Inr (), x')"
  shows "{Inl (pp_topic P), Inl (pp_dead_letter_topic P), Inr (pp_subscription P), Inr (pp_dead_letter_subscription P)} \<subseteq> E x'"
proof -
  have topics: "E x \<subseteq> E x' \<and> Inl n \<in> E x'" if "unless_exists (pc_create_topic client n) x = (Inr (), x')" for n x x'
    using that by (rule unless_exists_Inr) (rule topic)
  have subs: "E x \<subseteq> E x' \<and> Inr (sp_name n) \<in> E x'" if "unless_exists (pc_create_subscription client n) x = (Inr (), x')" for n x x'
    using that by (rule unless_exists_Inr) (rule sub)
  from run obtain x1 x2 x3 where steps: "unless_exists (pc_create_topic client (pp_topic P)) x = (Inr (), x1)"
    "unless_exists (pc_create_topic client (pp_dead_letter_topic P)) x1 = (Inr (), x2)"
    "unless_exists (pc_create_subscription client (work_subscription P)) x2 = (Inr (), x3)"
    "unless_exists (pc_create_subscription client (dead_letter_subscription P)) x3 = (Inr (), x')"
    by (auto simp: subscriber_ensure_ready_def bnd_Inr_iff)
  have "Inl (pp_topic P) \<in> E x1" using topics [OF steps(1)] by blast
  moreover have "E x1 \<subseteq> E x2 \<and> Inl (pp_dead_letter_topic P) \<in> E x2" by (rule topics [OF steps(2)])
  moreover have "E x2 \<subseteq> E x3 \<and> Inr (pp_subscription P) \<in> E x3" using subs [OF steps(3)] by (simp add: work_subscription_def)
  moreover have "E x3 \<subseteq> E x' \<and> Inr (pp_dead_letter_subscription P) \<in> E x'" using subs [OF steps(4)] by (simp add: dead_letter_subscription_def)
  ultimately show ?thesis by blast
qed

lemma start_stream_once:
  "start_stream subscribe loop (s, x) = (Inr (), (s', x')) \<Longrightarrow> start_stream subscribe' loop' (s', x') = (Inr (), (s', x'))"
  by (auto simp: start_stream_def split: if_splits prod.splits sum.splits)

lemma stop_stream_stopped: "sm_future (fst (stop_stream cancel_and_wait sx)) = None"
  by (auto simp: stop_stream_def split: prod.splits option.splits)

end
