(* ===== verification/Gateway_Sandbox.thy ===== *)
theory Gateway_Sandbox
  imports Gateway_Service Sandbox_Store Python_Text
begin

text \<open>
  The tool gateway's executor and the sandbox services together: the patch route of a sandbox (\<^verbatim>\<open>enterprise-sandbox/.../crm_api.py\<close> and its siblings, with
  the tenant header, the validation of the body and the error responses of \<^verbatim>\<open>app_factory.py\<close>) as the remote side of
  \<^verbatim>\<open>HttpToolExecutor.execute\<close>.
\<close>

section \<open>The patch route\<close>

definition patch_request_of :: "patch_post \<Rightarrow> field_patch_request option" where
  "patch_request_of p = (let r = \<lparr>fp_old_field = strip (pp_old_field p), fp_new_field = strip (pp_new_field p),
       fp_idempotency_key = strip (pp_idempotency_key p), fp_change_id = strip (pp_change_id p), fp_plan_hash = strip (pp_plan_hash p)\<rparr> in
     if field_patch_ok r then Some r else None)"

definition patch_result_json :: "patch_result \<Rightarrow> json" where
  "patch_result_json r = JObj [(''system_id'', JStr (pr_system_id r)), (''field_name'', JStr (pr_field_name r)), (''before'', JStr (pr_before r)),
     (''after'', JStr (pr_after r)), (''idempotency_key'', JStr (pr_idempotency_key r)), (''configuration_hash'', JStr (pr_configuration_hash r)),
     (''replayed'', JBool (pr_replayed r))]"

fun sandbox_error_text :: "sandbox_error \<Rightarrow> (string \<times> string) option" where
  "sandbox_error_text TenantRequiredError = Some (''tenant_required'', ''X-Tenant-ID is required.'')"
| "sandbox_error_text (SnapshotNotFoundError snapshot_id) = Some (''snapshot_not_found'', ''Snapshot '' @ repr_string snapshot_id @ '' was not found.'')"
| "sandbox_error_text TenantScopeError = Some (''tenant_scope_violation'', ''The resource is outside tenant scope.'')"
| "sandbox_error_text (PatchConflictError expected actual) =
     Some (''patch_conflict'', ''Expected source field '' @ repr_string expected @ '', found '' @ repr_string actual @ ''.'')"
| "sandbox_error_text (ContractVersionNotFoundError version) =
     Some (''contract_version_not_found'', ''Contract version '' @ repr_string version @ '' was not found.'')"
| "sandbox_error_text TransientSandboxError =
     Some (''transient_sandbox_failure'', ''Injected transient analytics failure; retry the same idempotency key.'')"
| "sandbox_error_text SandboxValidationError = None"

definition sandbox_error_body :: "string \<Rightarrow> sandbox_error \<Rightarrow> json option" where
  "sandbox_error_body rid e = map_option (\<lambda>(code, message). JObj [(''error'', JObj [(''code'', JStr code), (''message'', JStr message),
     (''request_id'', JStr rid)])]) (sandbox_error_text e)"

text \<open>The caller's request identifier if it is well formed, a fresh one otherwise.\<close>

definition sandbox_request_id :: "string \<Rightarrow> string \<Rightarrow> string" where
  "sandbox_request_id fresh_hex header = (let value = py_strip header in
     if value \<noteq> [] \<and> length value \<le> 128 \<and> list_all (\<lambda>c. py_isalnum c \<or> c \<in> set ''-_.'') value then value
     else ''req_'' @ fresh_hex)"

text \<open>\<^verbatim>\<open>POST /v1/patches/apply\<close>. The details of a refused body are left out of its response.\<close>

definition patch_route :: "string \<Rightarrow> 'c config_model \<Rightarrow> 'c \<Rightarrow> 'c config_store poster" where
  "patch_route fresh_hex M seed p s = (let rid = sandbox_request_id fresh_hex (pp_request_id p) in case require_tenant (Some (pp_tenant_id p)) of
     Inl e \<Rightarrow> (Reply (sandbox_status_code e) (sandbox_error_body rid e), s)
   | Inr tenant_id \<Rightarrow> (case patch_request_of p of
       None \<Rightarrow> (Reply 422 (Some (JObj [(''error'', JObj [(''code'', JStr ''validation_error''), (''message'', JStr ''Request validation failed.''),
         (''request_id'', JStr rid)])])), s)
     | Some request \<Rightarrow> (case cfg_apply M seed tenant_id request s of
         (Inl e, s') \<Rightarrow> (Reply (sandbox_status_code e) (sandbox_error_body rid e), s')
       | (Inr r, s') \<Rightarrow> (Reply 200 (Some (patch_result_json r)), s'))))"

section \<open>Executing against a sandbox\<close>

definition plain_text :: "string \<Rightarrow> bool" where
  "plain_text x \<longleftrightarrow> strip x = x \<and> nonempty_str x"

lemma sandbox_errors_refused: "\<exists>e. read_reply arguments key (Reply (sandbox_status_code err) body) = Inl e"
  by (cases err) (simp_all add: read_reply_def Let_def)

lemma patch_result_read:
  assumes "plain_text (pr_system_id r)" "plain_text (pr_field_name r)" "plain_text (pr_before r)" "plain_text (pr_after r)"
    "plain_text (pr_idempotency_key r)" "pr_configuration_hash r = sha256_digest j"
  shows "PatchExecutionOutput_validate (patch_result_json r) = Some \<lparr>po_system_id = pr_system_id r, po_field_name = pr_field_name r,
    po_before = pr_before r, po_after = pr_after r, po_idempotency_key = pr_idempotency_key r,
    po_configuration_hash = pr_configuration_hash r, po_replayed = pr_replayed r\<rparr>"
  using assms
  by (auto simp: PatchExecutionOutput_validate_def patch_result_json_def str_field_def plain_text_def dget_Cons strip_digest)

text \<open>The body the sandbox validates is the one the gateway validated.\<close>

definition patch_request_for :: "tool_intent \<Rightarrow> patch_arguments \<Rightarrow> field_patch_request" where
  "patch_request_for intent arguments = \<lparr>fp_old_field = pa_old_field arguments, fp_new_field = pa_new_field arguments,
     fp_idempotency_key = ti_idempotency_key intent, fp_change_id = ti_change_id intent, fp_plan_hash = ti_plan_hash intent\<rparr>"

lemma field_name_text: "is_field_name s \<Longrightarrow> nonempty_str s"
  by (cases s) (auto simp: is_field_name_def nonempty_str_def)

lemma validated_intent_text:
  assumes "ToolIntent_validate intent = Some intent"
  shows "plain_text (ti_idempotency_key intent) \<and> plain_text (ti_change_id intent) \<and> is_sha256_digest (ti_plan_hash intent)"
proof -
  from assms have same: "strip_intent intent = intent" and ok: "intent_fields_ok intent"
    by (simp_all add: ToolIntent_validate_def Let_def split: if_splits)
  have "strip (ti_idempotency_key intent) = ti_idempotency_key (strip_intent intent)" "strip (ti_change_id intent) = ti_change_id (strip_intent intent)"
    by (simp_all add: strip_intent_def)
  with same ok show ?thesis by (simp add: intent_fields_ok_def plain_text_def)
qed

lemma validated_fields_ok:
  assumes "FieldPatchArguments_validate object = Some arguments"
  shows "\<exists>a b. is_field_name (strip a) \<and> is_field_name (strip b) \<and> arguments = \<lparr>pa_old_field = strip a, pa_new_field = strip b\<rparr>"
proof -
  define found where "found = (dget object ''old_field'', dget object ''new_field'')"
  from assms have "(case found of (Some (JStr a), Some (JStr b)) \<Rightarrow>
      if is_field_name (strip a) \<and> is_field_name (strip b) \<and> strip a \<noteq> strip b
      then Some \<lparr>pa_old_field = strip a, pa_new_field = strip b\<rparr> else None | _ \<Rightarrow> None) = Some arguments"
    unfolding FieldPatchArguments_validate_def found_def by (cases "set (map fst object) \<noteq> {''old_field'', ''new_field''}") (simp_all only: if_True if_False option.distinct simp_thms not_False_eq_True)
  then show ?thesis by (auto split: prod.splits option.splits json.splits if_splits)
qed

lemma validated_arguments_ok:
  assumes "validate_arguments intent = Inr arguments"
  shows "is_field_name (pa_old_field arguments) \<and> strip (pa_old_field arguments) = pa_old_field arguments \<and>
    is_field_name (pa_new_field arguments) \<and> strip (pa_new_field arguments) = pa_new_field arguments"
proof -
  from assms have "FieldPatchArguments_validate (ti_arguments intent) = Some arguments"
    by (simp add: validate_arguments_def split: if_splits option.splits)
  from validated_fields_ok [OF this] show ?thesis by auto
qed

lemma validated_patch_ok:
  assumes "ToolIntent_validate intent = Some intent" "validate_arguments intent = Inr arguments"
  shows "field_patch_ok (patch_request_for intent arguments)"
  using validated_intent_text [OF assms(1)] validated_arguments_ok [OF assms(2)] field_name_text
  by (simp add: field_patch_ok_def patch_request_for_def plain_text_def)

lemma execute_route:
  assumes "service_by_tool (tr_tool_name registration) = Some service" "require_tenant (Some (ti_tenant_id intent)) = Inr (ti_tenant_id intent)"
    and "field_patch_ok (patch_request_for intent arguments)"
  shows "execute (patch_route fresh_hex M seed) intent registration arguments rid s =
    (case cfg_apply M seed (ti_tenant_id intent) (patch_request_for intent arguments) s of
       (Inl e, s') \<Rightarrow> (read_reply arguments (ti_idempotency_key intent) (Reply (sandbox_status_code e) (sandbox_error_body (sandbox_request_id fresh_hex rid) e)), s')
     | (Inr r, s') \<Rightarrow> (read_reply arguments (ti_idempotency_key intent) (Reply 200 (Some (patch_result_json r))), s'))"
proof -
  have "patch_request_of \<lparr>pp_service = service, pp_tenant_id = ti_tenant_id intent, pp_request_id = rid, pp_old_field = pa_old_field arguments,
      pp_new_field = pa_new_field arguments, pp_idempotency_key = ti_idempotency_key intent, pp_change_id = ti_change_id intent,
      pp_plan_hash = ti_plan_hash intent\<rparr> = Some (patch_request_for intent arguments)"
    using assms(3) strip_digest by (simp add: patch_request_of_def patch_request_for_def field_patch_ok_def Let_def)
  with assms(1,2) show ?thesis
    by (simp add: execute_def patch_route_def Let_def split: prod.split sum.split)
qed

lemma read_replayed:
  assumes "read_reply arguments key (Reply 200 (Some (patch_result_json (r\<lparr>pr_replayed := True\<rparr>)))) = Inr output"
  shows "dget output ''replayed'' = Some (JBool True)"
proof -
  from assms obtain result where result: "PatchExecutionOutput_validate (patch_result_json (r\<lparr>pr_replayed := True\<rparr>)) = Some result"
    and "output = patch_output_object result"
    by (auto simp: read_reply_def split: option.splits if_splits)
  moreover from result have "po_replayed result"
    by (auto simp: PatchExecutionOutput_validate_def patch_result_json_def dget_Cons split: option.splits if_splits json.splits)
  ultimately show ?thesis by (simp add: patch_output_object_def dget_Cons)
qed

text \<open>A configuration model whose system and field have plain names.\<close>

locale patchable_model = configuration_model +
  assumes plain_system: "ok c \<Longrightarrow> plain_text (cm_system_id M c)"
    and plain_field: "plain_text (cm_field_name M)"
begin

lemma failure_keeps:
  assumes "ok seed" "cfg_apply M seed t req s = (Inl e, s')"
  shows "effective_configuration seed t s' = effective_configuration seed t s"
  using assms cfg_get_unlocked_eq [OF assms(1), of t s]
  by (auto simp: cfg_apply_def apply_patch_def bnd_def Let_def guard_def validated_def put_configuration_def record_execution_def
      effective_configuration_def split: option.splits if_splits)

lemma fresh_success_field:
  assumes "ok seed" "cfg_apply M seed t req s = (Inr r, s')" "dget (cs_executions s) (t, fp_idempotency_key req) = None"
  shows "cm_field M (effective_configuration seed t s) = fp_old_field req \<and> dget_or (cs_transient_failures s) t 0 = 0"
  using assms cfg_get_unlocked_eq [OF assms(1), of t s]
  by (auto simp: cfg_apply_def apply_patch_def bnd_def Let_def guard_def split: if_splits)

lemma fresh_result_read:
  assumes "ok c" "field_patch_ok (patch_request_for intent arguments)"
  shows "read_reply arguments (ti_idempotency_key intent) (Reply 200 (Some (patch_result_json (fresh_result M (patch_request_for intent arguments) c)))) =
    Inr (patch_output_object \<lparr>po_system_id = cm_system_id M c, po_field_name = cm_field_name M, po_before = pa_old_field arguments,
      po_after = pa_new_field arguments, po_idempotency_key = ti_idempotency_key intent,
      po_configuration_hash = sha256_digest (JObj (cm_dump M c)), po_replayed = False\<rparr>)"
proof -
  let ?r = "fresh_result M (patch_request_for intent arguments) c"
  have "plain_text (pa_old_field arguments)" "plain_text (pa_new_field arguments)" "plain_text (ti_idempotency_key intent)"
    using assms(2) by (simp_all add: field_patch_ok_def patch_request_for_def plain_text_def)
  then have "PatchExecutionOutput_validate (patch_result_json ?r) = Some \<lparr>po_system_id = pr_system_id ?r, po_field_name = pr_field_name ?r,
      po_before = pr_before ?r, po_after = pr_after ?r, po_idempotency_key = pr_idempotency_key ?r,
      po_configuration_hash = pr_configuration_hash ?r, po_replayed = pr_replayed ?r\<rparr>"
    using plain_system [OF assms(1)] plain_field by (intro patch_result_read) (simp_all add: fresh_result_def patch_request_for_def)
  then show ?thesis by (simp add: read_reply_def fresh_result_def patch_request_for_def)
qed

lemma execute_on_sandbox:
  assumes "ok seed" "cs_inv M ok s" "service_by_tool (tr_tool_name registration) = Some service"
    and "require_tenant (Some (ti_tenant_id intent)) = Inr (ti_tenant_id intent)" "field_patch_ok (patch_request_for intent arguments)"
  defines "t \<equiv> ti_tenant_id intent" and "key \<equiv> ti_idempotency_key intent"
  shows "case execute (patch_route fresh_hex M seed) intent registration arguments rid s of
     (Inr output, s') \<Rightarrow>
       if dget (cs_executions s) (t, key) = None
       then cm_field M (effective_configuration seed t s) = pa_old_field arguments \<and> cm_field M (effective_configuration seed t s') = pa_new_field arguments \<and>
         dget (cs_executions s') (t, key) \<noteq> None \<and>
         dget output ''configuration_hash'' = Some (JStr (sha256_digest (JObj (cm_dump M (effective_configuration seed t s')))))
       else s' = s \<and> dget output ''replayed'' = Some (JBool True)
   | (Inl _, s') \<Rightarrow> effective_configuration seed t s' = effective_configuration seed t s"
proof -
  let ?req = "patch_request_for intent arguments"
  have key: "fp_idempotency_key ?req = key" "fp_old_field ?req = pa_old_field arguments" "fp_new_field ?req = pa_new_field arguments"
    by (simp_all add: patch_request_for_def key_def)
  obtain y s' where run: "cfg_apply M seed t ?req s = (y, s')" by fastforce
  note exec = execute_route [OF assms(3-5), of fresh_hex M seed rid s, folded t_def key_def, unfolded run]
  show ?thesis
  proof (cases y)
    case (Inl e)
    obtain e' where "read_reply arguments key (Reply (sandbox_status_code e) (sandbox_error_body (sandbox_request_id fresh_hex rid) e)) = Inl e'"
      using sandbox_errors_refused by blast
    with exec Inl have "execute (patch_route fresh_hex M seed) intent registration arguments rid s = (Inl e', s')" by simp
    then show ?thesis using failure_keeps [OF assms(1) run [unfolded Inl]] by simp
  next
    case (Inr r)
    show ?thesis
    proof (cases "dget (cs_executions s) (t, key)")
      case None
      note field = fresh_success_field [OF assms(1) run [unfolded Inr], unfolded key, OF None]
      from apply_fresh_result [OF assms(1,2,5), unfolded key, OF None] field obtain c s2 where
        c: "cfg_apply M seed t ?req s = (Inr (fresh_result M ?req c), s2)" "ok c" "cm_field M c = pa_new_field arguments"
          "effective_configuration seed t s2 = c" "dget (cs_executions s2) (t, key) = Some (fresh_result M ?req c)" by blast
      with run Inr have "r = fresh_result M ?req c" "s' = s2" by simp_all
      with exec Inr c fresh_result_read [OF c(2) assms(5)] field None show ?thesis by (simp add: key_def patch_output_object_def dget_Cons)
    next
      case (Some prior)
      then have "cfg_apply M seed t ?req s = (Inr (prior\<lparr>pr_replayed := True\<rparr>), s)" by (intro replayed) (simp add: key)
      with run Inr have "r = prior\<lparr>pr_replayed := True\<rparr>" "s' = s" by simp_all
      with exec Inr Some read_replayed [of arguments key prior] show ?thesis
        by (cases "read_reply arguments key (Reply 200 (Some (patch_result_json r)))") simp_all
    qed
  qed
qed

lemma execute_succeeds:
  assumes "ok seed" "cs_inv M ok s" "service_by_tool (tr_tool_name registration) = Some service"
    and "require_tenant (Some (ti_tenant_id intent)) = Inr (ti_tenant_id intent)" "field_patch_ok (patch_request_for intent arguments)"
    and "dget (cs_executions s) (ti_tenant_id intent, ti_idempotency_key intent) = None" "dget_or (cs_transient_failures s) (ti_tenant_id intent) 0 = 0"
    and "cm_field M (effective_configuration seed (ti_tenant_id intent) s) = pa_old_field arguments"
  shows "\<exists>output s'. execute (patch_route fresh_hex M seed) intent registration arguments rid s = (Inr output, s')"
proof -
  have "fp_idempotency_key (patch_request_for intent arguments) = ti_idempotency_key intent"
    "fp_old_field (patch_request_for intent arguments) = pa_old_field arguments" by (simp_all add: patch_request_for_def)
  note fresh = apply_fresh_result [OF assms(1,2,5), unfolded this, OF assms(6-8)]
  then obtain c s2 where "ok c"
    "cfg_apply M seed (ti_tenant_id intent) (patch_request_for intent arguments) s = (Inr (fresh_result M (patch_request_for intent arguments) c), s2)"
    by blast
  with execute_route [OF assms(3-5), of fresh_hex M seed rid s] fresh_result_read [OF this(1) assms(5)] show ?thesis by simp
qed

end

lemma plain_names: "plain_text ''source_field''" "plain_text ''lookup_field''"
  by code_simp+

interpretation patchable_crm: patchable_model crm_model crm_valid
proof (unfold_locales, goal_cases)
  case (1 c)
  then have "crm_system_id (crm_strip c) = crm_system_id c" and "nonempty_str (crm_system_id c)" by (simp_all add: crm_valid_def crm_ok_def)
  then show ?case by (simp add: crm_model_def crm_strip_def plain_text_def)
qed (simp add: crm_model_def plain_names)

interpretation patchable_analytics: patchable_model analytics_model analytics_valid
proof (unfold_locales, goal_cases)
  case (1 c)
  then have "an_system_id (analytics_strip c) = an_system_id c" and "nonempty_str (an_system_id c)" by (simp_all add: analytics_valid_def analytics_ok_def)
  then show ?case by (simp add: analytics_model_def analytics_strip_def plain_text_def)
qed (simp add: analytics_model_def plain_names)

interpretation patchable_support: patchable_model support_model support_valid
proof (unfold_locales, goal_cases)
  case (1 c)
  then have "su_system_id (support_strip c) = su_system_id c" and "nonempty_str (su_system_id c)" by (simp_all add: support_valid_def support_ok_def)
  then show ?case by (simp add: support_model_def support_strip_def plain_text_def)
qed (simp add: support_model_def plain_names)

section \<open>A CRM tool call\<close>

text \<open>
  C13. A tool call of the gateway against the CRM sandbox, after any calls the sandbox has served, does to the tenant's configuration exactly what its
  outcome tells: an intent whose execution is new, whose old field is the current source field and for whose tenant no failure is injected gets an output.
  With an output of a new execution the source field was the old field and is the new one, the execution is stored, and the output's hash is
  the digest of the configuration a read now returns; with an output of a known execution nothing changes and the output says it is a
  replay; with an error a read returns what it returned before.
\<close>

theorem crm_tool_call_exact:
  assumes "crm_valid seed" "ToolIntent_validate intent = Some intent" "validate_arguments intent = Inr arguments"
    and "service_by_tool (tr_tool_name registration) = Some ''crm''" "require_tenant (Some (ti_tenant_id intent)) = Inr (ti_tenant_id intent)"
  shows "let t = ti_tenant_id intent; key = ti_idempotency_key intent; s = run_cs_calls crm_model seed calls config_store_empty;
      current = (\<lambda>x. fst (cfg_get crm_model seed t x)); is_new = (dget (cs_executions s) (t, key) = None);
      outcome = execute (patch_route fresh_hex crm_model seed) intent registration arguments rid s in
    (is_new \<and> dget_or (cs_transient_failures s) t 0 = 0 \<and> map_sum id crm_source_field (current s) = Inr (pa_old_field arguments) \<longrightarrow>
       (\<exists>output s'. outcome = (Inr output, s'))) \<and>
    (case outcome of
       (Inr output, s') \<Rightarrow> (if is_new
          then map_sum id crm_source_field (current s) = Inr (pa_old_field arguments) \<and>
            (\<exists>c. current s' = Inr c \<and> crm_source_field c = pa_new_field arguments \<and>
               dget output ''configuration_hash'' = Some (JStr (sha256_digest (JObj (crm_dump c))))) \<and>
            dget (cs_executions s') (t, key) \<noteq> None
          else s' = s \<and> dget output ''replayed'' = Some (JBool True))
     | (Inl _, s') \<Rightarrow> current s' = current s)"
proof -
  let ?s = "run_cs_calls crm_model seed calls config_store_empty"
  note reach = crm.cs_inv_reachable [OF assms(1), of calls] and patch = validated_patch_ok [OF assms(2,3)]
  have field: "cm_field crm_model = crm_source_field" by (simp add: crm_model_def)
  note exact = patchable_crm.execute_on_sandbox [OF assms(1) reach assms(4,5) patch, of fresh_hex rid]
    and success = patchable_crm.execute_succeeds [OF assms(1) reach assms(4,5) patch, of fresh_hex rid]
  show ?thesis
    using exact success unfolding Let_def field crm_dumps crm.get_result [OF assms(1)]
    by (auto split: prod.splits sum.splits if_splits)
qed

theorem crm_tool_call_exact_witness:
  "\<exists>output s' c. execute (patch_route ''00'' crm_model (crm_seed\<lparr>crm_source_field := ''lead_name''\<rparr>)) demo_intent demo_tool
      \<lparr>pa_old_field = ''lead_name'', pa_new_field = ''full_name''\<rparr> ''r1'' config_store_empty = (Inr output, s') \<and>
     fst (cfg_get crm_model (crm_seed\<lparr>crm_source_field := ''lead_name''\<rparr>) ''t1'' s') = Inr c \<and> crm_source_field c = ''full_name''"
proof -
  define seed where "seed = crm_seed\<lparr>crm_source_field := ''lead_name''\<rparr>"
  have seed: "crm_valid seed"
    by (simp add: seed_def crm_valid_def crm_strip_def crm_ok_def crm_seed_def strip_def is_whitespace_def nonempty_str_def)
  have tenant: "require_tenant (Some (ti_tenant_id demo_intent)) = Inr (ti_tenant_id demo_intent)" "ti_tenant_id demo_intent = ''t1''"
    by (simp add: demo_intent_def, code_simp) (simp add: demo_intent_def)
  have tool: "service_by_tool (tr_tool_name demo_tool) = Some ''crm''"
    by (simp add: demo_tool_def default_registration_def service_by_tool_def dget_Cons)
  have valid: "ToolIntent_validate demo_intent = Some demo_intent"
    using demo_intent_valid by (auto simp: GatewayExecutionRequest_validate_def Let_def split: option.splits if_splits)
  have old: "fst (cfg_get crm_model seed ''t1'' config_store_empty) = Inr seed"
    by (simp add: crm.get_result seed effective_configuration_def config_store_empty_def)
  have "crm_source_field seed = ''lead_name''" by (simp add: seed_def)
  with crm_tool_call_exact [OF seed valid demo_arguments tool tenant(1), of "[]" "''00''" "''r1''"] old tenant(2)
  show ?thesis unfolding seed_def [symmetric]
    by (auto simp: Let_def run_cs_calls_def config_store_empty_def dget_def dget_or_def split: prod.splits sum.splits)
qed

end
