(* ===== verification/Spec2Isabelle.thy ===== *)
theory Spec2Isabelle
  imports Tool_Gateway Sandbox_Store Workflow_Guarantees Event_Guarantees Admission_Guarantees Firestore_Inbox Firestore_Changes Firestore_Workflows Firestore_Governance Fleet_Guarantees Audit_Stream Workflow_Service Workflow_Subscriber Deployment Fleet_Cloud Pubsub_Resources Gateway_Sandbox
begin

text \<open>
  \<^bold>\<open>Enterprise ChangeOps.\<close> The repository detects a change in one enterprise system, has a plan for it proposed, lets people approve the
  exact plan, applies it to other systems through a governed gateway, verifies the result and rolls back what fails. This development
  models the Python services and proves what makes them safe to run. Every theory below opens with what it holds; this header says how
  they fit together.

  \<^bold>\<open>Parts and how they interact.\<close>
  \<^item> A signed webhook reaches the \<^emph>\<open>event gateway\<close>, which stores the event in an inbox and publishes it.
  \<^item> The \<^emph>\<open>workflow coordinator\<close> receives the event from its subscription, asks the \<^emph>\<open>agent fleet\<close> for a plan, asks the tool gateway for an
    approval, and after the approval callback executes the plan step by step, verifies it and compensates on failure. It moves the change
    through the \<^emph>\<open>state machine\<close> of the shared core, which writes to the \<^emph>\<open>change repository\<close>.
  \<^item> The \<^emph>\<open>tool gateway\<close> authenticates its callers by signed identity tokens, decides each tool call with the \<^emph>\<open>policy engine\<close>, keeps approvals
    and execution reservations in the \<^emph>\<open>governance repository\<close>, calls the \<^emph>\<open>sandbox services\<close> that hold the configurations and reports decisions
    back to the coordinator.
  \<^item> The \<^emph>\<open>control API\<close> shows changes and their audit trail to people; its \<^emph>\<open>enterprise admission\<close> decides who is a member of which organization.
  \<^item> All services start from one set of \<^emph>\<open>settings\<close>, call each other with platform identities and log through one redaction.

  \<^bold>\<open>Theories.\<close> Paths are under \<^verbatim>\<open>src/\<close>.
  \<^item> \<^verbatim>\<open>Prelude\<close>: timestamps in microseconds, insertion-ordered dictionaries, string operations, the state-and-exception operations in which
    stores and handlers are written, and two triples (\<^verbatim>\<open>keeps\<close>, \<^verbatim>\<open>yields\<close>) for composing invariants over them. \<^verbatim>\<open>Python_Text\<close>: the text operations
    of Python that the code uses.
  \<^item> \<^verbatim>\<open>Sha256\<close>, \<^verbatim>\<open>Hmac\<close>, \<^verbatim>\<open>Uuid5\<close>, \<^verbatim>\<open>Base64\<close>: UTF-8, SHA-256 on 32-bit words, HMAC, \<^verbatim>\<open>compare_digest\<close>, name-based identifiers and the base64
    codec, which round-trips. \<^verbatim>\<open>Canonical_Json\<close>, \<^verbatim>\<open>Json_Reader\<close>: the canonical text of \<^verbatim>\<open>packages/contracts-python/.../canonical.py\<close>, exact on
    normalised documents, and \<^verbatim>\<open>json.loads\<close>, which reads back what is written.
  \<^item> \<^verbatim>\<open>Contracts\<close>, \<^verbatim>\<open>Agent_Contracts\<close>: the models and validators of \<^verbatim>\<open>models.py\<close>; the plan hash binds the plan and a validated plan is an acyclic
    graph.
  \<^item> \<^verbatim>\<open>Change_Store\<close>, \<^verbatim>\<open>State_Machine\<close>: the repository protocol as a locale, the in-memory adapter as its interpretation, and the
    transition service over any repository that keeps the protocol; histories follow the transition graph and are audited.
  \<^item> \<^verbatim>\<open>Policy\<close>, \<^verbatim>\<open>Governance_Store\<close>, \<^verbatim>\<open>Tool_Gateway\<close>: the policy decision (equal to a declarative condition), approvals and reservations
    (a decision is final, an execution succeeds once), and the handlers that combine them; a tool runs only if authorized.
    \<^verbatim>\<open>Identity_Token\<close>, \<^verbatim>\<open>Gateway_Service\<close>: tokens and the routes; only the bearer of a token signed with the secret reaches a handler.
  \<^item> \<^verbatim>\<open>Sandbox_Store\<close>: configuration stores over a locale of configuration models with three interpretations, and the catalog.
    \<^verbatim>\<open>Gateway_Sandbox\<close>: the executor of the gateway against the patch route of a sandbox; an outcome tells exactly what was done to the
    tenant's configuration.
  \<^item> \<^verbatim>\<open>Workflow_Store\<close>, \<^verbatim>\<open>Workflow_Engine\<close>: records and repository of the coordinator, and the whole engine.
    \<^verbatim>\<open>Workflow_Properties\<close>, \<^verbatim>\<open>Workflow_Execution\<close>, \<^verbatim>\<open>Workflow_Outcomes\<close> prove what each phase keeps and yields;
    \<^verbatim>\<open>Workflow_Guarantees\<close> states the results: dependencies are respected, the scheduler ends, completion needs approval and verification.
  \<^item> \<^verbatim>\<open>Http_Transport\<close>, \<^verbatim>\<open>Service_Auth\<close>, \<^verbatim>\<open>Workflow_Clients\<close>, \<^verbatim>\<open>Workflow_Service\<close>, \<^verbatim>\<open>Workflow_Subscriber\<close>, \<^verbatim>\<open>Pubsub_Resources\<close>: the coordinator's outside.
    The gateway knows the agent a client call was made for, a stored decision reaches the workflow it was made for, and no event is lost.
  \<^item> \<^verbatim>\<open>Event_Gateway\<close>, \<^verbatim>\<open>Event_Guarantees\<close>: signatures, rate limit, inbox and ingestion; the inbox refines an outbox contract (a locale).
  \<^item> \<^verbatim>\<open>Fleet_Evidence\<close>, \<^verbatim>\<open>Fleet_Governance\<close>, \<^verbatim>\<open>Fleet_Registry\<close>, \<^verbatim>\<open>Fleet_Paths\<close>, \<^verbatim>\<open>Agent_Fleet\<close>, \<^verbatim>\<open>Fleet_Cloud\<close>, \<^verbatim>\<open>Fleet_Guarantees\<close>: the agent fleet from
    evidence to draft plan; an analysis stays within its evidence and its tenant, hostile text is refused, impact is complete.
  \<^item> \<^verbatim>\<open>Firestore_Core\<close> and the four \<^verbatim>\<open>Firestore_\<close> adapter theories: documents and atomic transactions, and the adapters as refinements or
    equivalents of the in-memory repositories.
  \<^item> \<^verbatim>\<open>Admission\<close>, \<^verbatim>\<open>Admission_Properties\<close>, \<^verbatim>\<open>Admission_Invariants\<close>, \<^verbatim>\<open>Admission_Guarantees\<close>: the admission service, what each request may
    commit, the invariant of all histories, and the results on owners, invitations, authority and access. \<^verbatim>\<open>Control_Api\<close>, \<^verbatim>\<open>Audit_Stream\<close>: the
    other routes of the control API and the live audit stream.
  \<^item> \<^verbatim>\<open>Log_Redaction\<close>, \<^verbatim>\<open>Settings\<close>, \<^verbatim>\<open>Deployment\<close>: redaction over a locale of substitutions with three interpretations, the settings with their
    validator, and the services built from them.

  \<^bold>\<open>Parameters.\<close> Code outside the repository is an argument: the text Pydantic gives a timestamp (\<^verbatim>\<open>iso_text\<close>, injective where a digest must
  distinguish documents), its reading of dates and numbers, clocks, random identifiers and tokens, Pub/Sub, the token fetcher of Google Cloud,
  the agent runtime, and the HTTP transport, whose answers are arbitrary outcomes over a remote state. Tasks started together by
  \<^verbatim>\<open>asyncio.gather\<close> run one after the other in the order of the list; their calls touch disjoint tasks.

  \<^bold>\<open>Bounds and fuel.\<close> Loops are recursions on their data. The scheduler of the coordinator recurses on the number of pending tasks, which
  is shown to be enough; retries recurse on the attempts left. Python integers are \<^typ>\<open>int\<close>; SHA-256 works on words. Strings hold the
  code points up to U+00FF; JSON numbers are integers.

  \<^bold>\<open>Not modelled.\<close> Health and metadata routes, the delays of the retry policy (floating point), log rendering, the language-model calls inside the
  agent runtime, operator scripts (task runner, smoke tests, demonstrations) and the TypeScript user interface.
\<close>

end
